(* ===== verification/Py_Base.thy ===== *)
theory Py_Base
  imports Complex_Main "HOL-Library.AList" "HOL-Library.Sublist" "HOL-Library.Char_ord"
    "HOL-Library.List_Lexorder"
begin

text \<open>
  The value model shared by every component. The program passes YAML and JSON payloads
  around as Python dictionaries, so the components are modelled over one datatype of
  dynamic values; the operations below are the part of the language and of its standard
  library that the sources use on them (truth value, \<open>dict.get\<close>, \<open>float(...)\<close>,
  \<open>str(...)\<close>, \<open>strip\<close>, \<open>lower\<close>, \<open>startswith\<close>, \<open>endswith\<close>, \<open>in\<close>).

  Floats are real numbers: rounding, overflow and the values inf and nan are outside the
  model. Strings are lists of bytes (UTF-8), so \<open>lower\<close> and \<open>strip\<close> act on ASCII
  letters and ASCII blanks and leave every other byte alone. The text that Python prints for
  a float, a list or a dictionary is the unspecified constant \<open>repr_other\<close>: nothing is
  proved from it.
\<close>

section \<open>Collections of facts\<close>

named_theorems py_simps \<open>evaluation of the operations on dynamic values\<close>
named_theorems res_simps \<open>evaluation of fallible computations\<close>

section \<open>Errors as values\<close>

datatype py_error =
    TypeError | ValueError | AttributeError | KeyError | IndexError | ZeroDivisionError
  | RecursionError
  | OperationalError | IntegrityError
  | PermissionError | LookupError | RuntimeError | AssertionError | TimeoutError
  | ProgrammingError

type_synonym 'a res = "py_error + 'a"

definition res_bind :: "'e + 'a \<Rightarrow> ('a \<Rightarrow> 'e + 'b) \<Rightarrow> 'e + 'b" where
  "res_bind r f = (case r of Inl e \<Rightarrow> Inl e | Inr x \<Rightarrow> f x)"

definition res_map :: "('a \<Rightarrow> 'b) \<Rightarrow> 'e + 'a \<Rightarrow> 'e + 'b" where
  "res_map f r = res_bind r (\<lambda>x. Inr (f x))"

fun res_list :: "('a \<Rightarrow> 'e + 'b) \<Rightarrow> 'a list \<Rightarrow> 'e + 'b list" where
  "res_list f [] = Inr []"
| "res_list f (x # xs) =
     res_bind (f x) (\<lambda>y. res_bind (res_list f xs) (\<lambda>ys. Inr (y # ys)))"

fun res_fold :: "('a \<Rightarrow> 's \<Rightarrow> 'e + 's) \<Rightarrow> 'a list \<Rightarrow> 's \<Rightarrow> 'e + 's" where
  "res_fold f [] s = Inr s"
| "res_fold f (x # xs) s = res_bind (f x s) (res_fold f xs)"

definition returns :: "'e + 'a \<Rightarrow> bool" where
  "returns r \<longleftrightarrow> (case r of Inl _ \<Rightarrow> False | Inr _ \<Rightarrow> True)"

lemma res_bind_Inr [simp, res_simps]: "res_bind (Inr x) f = f x"
  by (simp add: res_bind_def)

lemma res_bind_Inl [simp, res_simps]: "res_bind (Inl e) f = Inl e"
  by (simp add: res_bind_def)

lemma res_bind_eq_Inr: "res_bind r f = Inr y \<longleftrightarrow> (\<exists>x. r = Inr x \<and> f x = Inr y)"
  by (cases r) auto

lemma res_bind_assoc: "res_bind (res_bind r f) g = res_bind r (\<lambda>x. res_bind (f x) g)"
  by (cases r) auto

lemma res_map_simps [simp, res_simps]:
  "res_map f (Inr x) = Inr (f x)" "res_map f (Inl e) = Inl e"
  by (simp_all add: res_map_def)

lemma res_map_eq_Inr: "res_map f r = Inr y \<longleftrightarrow> (\<exists>x. r = Inr x \<and> y = f x)"
  by (cases r) auto

lemma returns_simps [simp]: "returns (Inr x)" "\<not> returns (Inl e)"
  by (simp_all add: returns_def)

lemma returns_iff: "returns r \<longleftrightarrow> (\<exists>x. r = Inr x)"
  by (cases r) auto

lemma returns_bind: "returns (res_bind r f) \<longleftrightarrow> (\<exists>x. r = Inr x \<and> returns (f x))"
  by (cases r) auto

lemma returns_map [simp]: "returns (res_map f r) \<longleftrightarrow> returns r"
  by (cases r) auto

lemma res_list_pure [simp]: "res_list (\<lambda>x. Inr (f x)) xs = Inr (map f xs)"
  by (induction xs) auto

lemma res_list_length: "res_list f xs = Inr ys \<Longrightarrow> length ys = length xs"
  by (induction xs arbitrary: ys) (auto simp: res_bind_eq_Inr)

lemma res_list_Inr_iff:
  "res_list f xs = Inr ys \<longleftrightarrow> list_all2 (\<lambda>x y. f x = Inr y) xs ys"
  by (induction xs arbitrary: ys) (auto simp: res_bind_eq_Inr list_all2_Cons1)

lemma res_list_in: "res_list f xs = Inr ys \<Longrightarrow> y \<in> set ys \<Longrightarrow> \<exists>x \<in> set xs. f x = Inr y"
  by (induction xs arbitrary: ys) (auto simp: res_bind_eq_Inr)

lemma res_list_returns: "returns (res_list f xs) \<longleftrightarrow> (\<forall>x \<in> set xs. returns (f x))"
proof (induction xs)
  case Nil
  then show ?case by simp
next
  case (Cons x xs)
  have "returns (res_list f (x # xs)) \<longleftrightarrow> returns (f x) \<and> returns (res_list f xs)"
    by (auto simp: returns_bind) (auto simp: returns_iff)
  with Cons show ?case by simp
qed

lemma res_fold_append:
  "res_fold f (xs @ ys) s = res_bind (res_fold f xs s) (res_fold f ys)"
  by (induction xs arbitrary: s) (auto simp: res_bind_assoc fun_eq_iff res_bind_def split: sum.splits)

lemma res_fold_pure [simp]: "res_fold (\<lambda>x s. Inr (f x s)) xs s = Inr (fold f xs s)"
  by (induction xs arbitrary: s) auto

lemma res_fold_invariant:
  assumes "res_fold f xs s = Inr s'" and "P s"
    and "\<And>x t t'. x \<in> set xs \<Longrightarrow> P t \<Longrightarrow> f x t = Inr t' \<Longrightarrow> P t'"
  shows "P s'"
  using assms
proof (induction xs arbitrary: s)
  case Nil
  then show ?case by simp
next
  case (Cons x xs)
  then obtain t where t: "f x s = Inr t" "res_fold f xs t = Inr s'"
    by (auto simp: res_bind_eq_Inr)
  have "P t" using Cons.prems(2) Cons.prems(3) [of x s t] t(1) by simp
  with Cons.IH [OF t(2)] Cons.prems(3) show ?case by (metis list.set_intros(2))
qed

section \<open>Dynamic values\<close>

datatype pyval =
    PNone
  | PBool bool
  | PInt int
  | PFloat real
  | PStr string
  | PList "pyval list"
  | PDict "(string \<times> pyval) list"

type_synonym pydict = "(string \<times> pyval) list"

fun truthy :: "pyval \<Rightarrow> bool" where
  "truthy PNone = False"
| "truthy (PBool b) = b"
| "truthy (PInt i) = (i \<noteq> 0)"
| "truthy (PFloat x) = (x \<noteq> 0)"
| "truthy (PStr s) = (s \<noteq> [])"
| "truthy (PList vs) = (vs \<noteq> [])"
| "truthy (PDict d) = (d \<noteq> [])"

definition py_or :: "pyval \<Rightarrow> pyval \<Rightarrow> pyval" where
  "py_or a b = (if truthy a then a else b)"

fun is_dict :: "pyval \<Rightarrow> bool" where
  "is_dict (PDict _) = True"
| "is_dict _ = False"

fun is_str :: "pyval \<Rightarrow> bool" where
  "is_str (PStr _) = True"
| "is_str _ = False"

text \<open>\<open>isinstance(v, (int, float))\<close>: a Python bool is an int.\<close>

fun is_num :: "pyval \<Rightarrow> bool" where
  "is_num (PBool _) = True"
| "is_num (PInt _) = True"
| "is_num (PFloat _) = True"
| "is_num _ = False"

fun as_dict :: "pyval \<Rightarrow> pydict" where
  "as_dict (PDict d) = d"
| "as_dict _ = []"

text \<open>Attribute access \<open>v.get\<close> on a value that may not be a mapping, and iteration.\<close>

fun as_mapping :: "pyval \<Rightarrow> pydict res" where
  "as_mapping (PDict d) = Inr d"
| "as_mapping _ = Inl AttributeError"

text \<open>
  \<open>dict(v)\<close>: a string gives a ValueError, its characters not being pairs; a non-empty
  sequence of pairs is not a shape the program's files have, and is refused here.
\<close>

fun py_dict :: "pyval \<Rightarrow> pydict res" where
  "py_dict (PDict d) = Inr d"
| "py_dict (PList vs) = (if vs = [] then Inr [] else Inl TypeError)"
| "py_dict (PStr s) = (if s = [] then Inr [] else Inl ValueError)"
| "py_dict _ = Inl TypeError"

fun py_iter :: "pyval \<Rightarrow> pyval list res" where
  "py_iter (PList vs) = Inr vs"
| "py_iter (PDict d) = Inr (map (\<lambda>kv. PStr (fst kv)) d)"
| "py_iter (PStr s) = Inr (map (\<lambda>c. PStr [c]) s)"
| "py_iter _ = Inl TypeError"

text \<open>
  Dictionary keys: equal numbers are the same key (\<open>1 == 1.0 == True\<close>), and a list or a
  dictionary is not hashable.
\<close>

datatype pykey = KNone | KNum real | KStr string

fun py_key :: "pyval \<Rightarrow> pykey res" where
  "py_key PNone = Inr KNone"
| "py_key (PBool b) = Inr (KNum (if b then 1 else 0))"
| "py_key (PInt i) = Inr (KNum (of_int i))"
| "py_key (PFloat x) = Inr (KNum x)"
| "py_key (PStr s) = Inr (KStr s)"
| "py_key (PList _) = Inl TypeError"
| "py_key (PDict _) = Inl TypeError"

section \<open>Dictionaries: association lists in insertion order\<close>

definition dget :: "pydict \<Rightarrow> string \<Rightarrow> pyval" where
  "dget d k = (case map_of d k of None \<Rightarrow> PNone | Some v \<Rightarrow> v)"

definition dhas :: "('k \<times> 'v) list \<Rightarrow> 'k \<Rightarrow> bool" where
  "dhas d k \<longleftrightarrow> map_of d k \<noteq> None"

definition dput :: "'k \<Rightarrow> 'v \<Rightarrow> ('k \<times> 'v) list \<Rightarrow> ('k \<times> 'v) list" where
  "dput k v d = AList.update k v d"

definition dict_wf :: "('k \<times> 'v) list \<Rightarrow> bool" where
  "dict_wf d \<longleftrightarrow> distinct (map fst d)"

text \<open>Reading a \<open>defaultdict(list)\<close>.\<close>

definition dlist :: "('k \<times> 'v list) list \<Rightarrow> 'k \<Rightarrow> 'v list" where
  "dlist d k = (case map_of d k of None \<Rightarrow> [] | Some vs \<Rightarrow> vs)"

lemma dput_simps [simp, py_simps]:
  "dput k v [] = [(k, v)]"
  "dput k v ((k', v') # d) = (if k' = k then (k, v) # d else (k', v') # dput k v d)"
  by (simp_all add: dput_def)

lemma dput_fresh: "k \<notin> fst ` set d \<Longrightarrow> dput k v d = d @ [(k, v)]"
  by (induction d) auto

lemma map_of_dput: "map_of (dput k v d) = (map_of d)(k \<mapsto> v)"
  by (simp add: dput_def update_conv')

lemma map_of_dput_same [simp]: "map_of (dput k v d) k = Some v"
  by (simp add: map_of_dput)

lemma map_of_dput_other [simp]: "k' \<noteq> k \<Longrightarrow> map_of (dput k v d) k' = map_of d k'"
  by (simp add: map_of_dput)

lemma set_map_fst_dput [simp]: "fst ` set (dput k v d) = insert k (fst ` set d)"
  by (simp add: dput_def dom_update)

lemma dict_wf_Nil [simp]: "dict_wf []"
  by (simp add: dict_wf_def)

lemma dict_wf_dput [intro, simp]: "dict_wf d \<Longrightarrow> dict_wf (dput k v d)"
  by (auto simp: dict_wf_def dput_def intro: distinct_update)

lemma dget_dput: "dget (dput k v d) k' = (if k' = k then v else dget d k')"
  by (simp add: dget_def map_of_dput)

lemma dlist_dput: "dlist (dput k v d) k' = (if k' = k then v else dlist d k')"
  by (simp add: dlist_def map_of_dput)

lemma dlist_Nil [simp]: "dlist [] k = []"
  by (simp add: dlist_def)

lemma map_fst_dput: "k \<in> set (map fst d) \<Longrightarrow> map fst (dput k v d) = map fst d"
  by (induction d) force+

lemma dget_Nil [simp, py_simps]: "dget [] k = PNone"
  by (simp add: dget_def)

lemma dget_Cons [simp, py_simps]: "dget ((k', v) # d) k = (if k = k' then v else dget d k)"
  by (simp add: dget_def)

lemma dget_absent: "k \<notin> fst ` set d \<Longrightarrow> dget d k = PNone"
  by (simp add: dget_def map_of_eq_None_iff [THEN iffD2])

lemma dhas_simps [simp, py_simps]:
  "\<not> dhas [] k" "dhas ((k', v) # d) k \<longleftrightarrow> k = k' \<or> dhas d k"
  by (simp_all add: dhas_def)

lemma dhas_dput: "dhas (dput k v d) k' \<longleftrightarrow> k' = k \<or> dhas d k'"
  by (simp add: dhas_def map_of_dput)

lemma dhas_iff: "dhas d k \<longleftrightarrow> k \<in> fst ` set d"
  by (simp add: dhas_def map_of_eq_None_iff)

section \<open>Strings\<close>

definition char_code :: "char \<Rightarrow> nat" where
  "char_code c = of_char c"

definition is_digit :: "char \<Rightarrow> bool" where
  "is_digit c \<longleftrightarrow> 48 \<le> char_code c \<and> char_code c \<le> 57"

definition is_blank :: "char \<Rightarrow> bool" where
  "is_blank c \<longleftrightarrow>
     (9 \<le> char_code c \<and> char_code c \<le> 13) \<or> (28 \<le> char_code c \<and> char_code c \<le> 32)"

definition lower_char :: "char \<Rightarrow> char" where
  "lower_char c =
     (if 65 \<le> char_code c \<and> char_code c \<le> 90 then char_of (char_code c + 32) else c)"

definition upper_char :: "char \<Rightarrow> char" where
  "upper_char c =
     (if 97 \<le> char_code c \<and> char_code c \<le> 122 then char_of (char_code c - 32) else c)"

definition py_lower :: "string \<Rightarrow> string" where
  "py_lower s = map lower_char s"

definition py_upper :: "string \<Rightarrow> string" where
  "py_upper s = map upper_char s"

definition py_strip :: "string \<Rightarrow> string" where
  "py_strip s = rev (dropWhile is_blank (rev (dropWhile is_blank s)))"

definition py_startswith :: "string \<Rightarrow> string \<Rightarrow> bool" where
  "py_startswith s p \<longleftrightarrow> prefix p s"

definition py_endswith :: "string \<Rightarrow> string \<Rightarrow> bool" where
  "py_endswith s p \<longleftrightarrow> suffix p s"

definition py_in_str :: "string \<Rightarrow> string \<Rightarrow> bool" where
  "py_in_str needle hay \<longleftrightarrow> sublist needle hay"

text \<open>Bytes of a literal that is not ASCII.\<close>

definition utf8 :: "nat list \<Rightarrow> string" where
  "utf8 bs = map char_of bs"

fun nat_str :: "nat \<Rightarrow> string" where
  "nat_str n = (if n < 10 then [char_of (48 + n)] else nat_str (n div 10) @ [char_of (48 + n mod 10)])"

declare nat_str.simps [simp del]

definition int_str :: "int \<Rightarrow> string" where
  "int_str i = (if i < 0 then CHR ''-'' # nat_str (nat (- i)) else nat_str (nat i))"

text \<open>\<open>f"{x:.3f}"\<close>: the nearest multiple of 1/1000, a tie going to the even one.\<close>

definition round_half_even :: "real \<Rightarrow> int" where
  "round_half_even x =
     (let f = \<lfloor>x\<rfloor>; d = x - of_int f in
      if d < 1/2 then f else if d > 1/2 then f + 1 else if even f then f else f + 1)"

definition fixed3 :: "real \<Rightarrow> string" where
  "fixed3 x =
     (let n = nat (round_half_even (\<bar>x\<bar> * 1000)); f = n mod 1000 in
      (if x < 0 then ''-'' else []) @ nat_str (n div 1000) @ ''.'' @
      (if f < 100 then ''0'' else []) @ (if f < 10 then ''0'' else []) @ nat_str f)"

definition repr_other :: "pyval \<Rightarrow> string" where
  "repr_other = undefined"

fun py_str :: "pyval \<Rightarrow> string" where
  "py_str PNone = ''None''"
| "py_str (PBool b) = (if b then ''True'' else ''False'')"
| "py_str (PInt i) = int_str i"
| "py_str (PStr s) = s"
| "py_str v = repr_other v"

section \<open>float(...)\<close>

fun take_digits :: "bool \<Rightarrow> string \<Rightarrow> string \<times> string" where
  "take_digits p [] = ([], [])"
| "take_digits p (c # cs) =
     (if is_digit c then (let (ds, r) = take_digits True cs in (c # ds, r))
      else if c = CHR ''_'' \<and> p \<and> cs \<noteq> [] \<and> is_digit (hd cs) then take_digits False cs
      else ([], c # cs))"

definition dec_value :: "string \<Rightarrow> nat" where
  "dec_value ds = foldl (\<lambda>n c. 10 * n + (char_code c - 48)) 0 ds"

fun split_sign :: "string \<Rightarrow> bool \<times> string" where
  "split_sign [] = (False, [])"
| "split_sign (c # cs) =
     (if c = CHR ''-'' then (True, cs) else if c = CHR ''+'' then (False, cs) else (False, c # cs))"

text \<open>The text of an infinity or of a nan denotes a number that nothing is known about.\<close>

definition nonfinite_value :: "string \<Rightarrow> real" where
  "nonfinite_value = undefined"

definition scale10 :: "real \<Rightarrow> int \<Rightarrow> real" where
  "scale10 x e = (if 0 \<le> e then x * 10 ^ nat e else x / 10 ^ nat (- e))"

definition parse_exponent :: "string \<Rightarrow> int option" where
  "parse_exponent s =
     (case s of
        [] \<Rightarrow> Some 0
      | c # r \<Rightarrow>
          if c = CHR ''e'' \<or> c = CHR ''E'' then
            (let (neg, r1) = split_sign r; (ds, rest) = take_digits False r1 in
             if ds = [] \<or> rest \<noteq> [] then None
             else Some ((if neg then -1 else 1) * int (dec_value ds)))
          else None)"

definition parse_float :: "string \<Rightarrow> real option" where
  "parse_float s0 =
     (let (neg, s) = split_sign (py_strip s0);
          sg = (if neg then -1 else 1 :: real);
          (ip, s1) = take_digits False s;
          (fp, s2) = (case s1 of [] \<Rightarrow> ([], [])
                      | c # r \<Rightarrow> if c = CHR ''.'' then take_digits False r else ([], c # r))
      in if py_lower s \<in> {''inf'', ''infinity'', ''nan''} then Some (nonfinite_value s0)
         else if ip = [] \<and> fp = [] then None
         else case parse_exponent s2 of
                None \<Rightarrow> None
              | Some e \<Rightarrow>
                  Some (sg * scale10 (real (dec_value (ip @ fp))) (e - int (length fp))))"

fun py_float :: "pyval \<Rightarrow> real res" where
  "py_float PNone = Inl TypeError"
| "py_float (PBool b) = Inr (if b then 1 else 0)"
| "py_float (PInt i) = Inr (of_int i)"
| "py_float (PFloat x) = Inr x"
| "py_float (PStr s) = (case parse_float s of None \<Rightarrow> Inl ValueError | Some x \<Rightarrow> Inr x)"
| "py_float (PList _) = Inl TypeError"
| "py_float (PDict _) = Inl TypeError"

text \<open>
  \<open>try: return float(v) except (TypeError, ValueError): return default\<close>, the cast that
  most modules repeat.
\<close>

definition try_float :: "pyval \<Rightarrow> real \<Rightarrow> real" where
  "try_float v d = (case py_float v of Inl _ \<Rightarrow> d | Inr x \<Rightarrow> x)"

text \<open>\<open>int(v)\<close>.\<close>

definition int_of_real :: "real \<Rightarrow> int" where
  "int_of_real x = (if x < 0 then \<lceil>x\<rceil> else \<lfloor>x\<rfloor>)"

fun py_int :: "pyval \<Rightarrow> int res" where
  "py_int (PBool b) = Inr (if b then 1 else 0)"
| "py_int (PInt i) = Inr i"
| "py_int (PFloat x) = Inr (int_of_real x)"
| "py_int (PStr s) =
     (let (neg, r) = split_sign (py_strip s); (ds, rest) = take_digits False r in
      if ds = [] \<or> rest \<noteq> [] then Inl ValueError else Inr ((if neg then -1 else 1) * int (dec_value ds)))"
| "py_int v = Inl TypeError"

lemma try_float_simps [simp, py_simps]:
  "try_float PNone d = d"
  "try_float (PBool b) d = (if b then 1 else 0)"
  "try_float (PInt i) d = of_int i"
  "try_float (PFloat x) d = x"
  "try_float (PList vs) d = d"
  "try_float (PDict kv) d = d"
  by (simp_all add: try_float_def)

lemma py_float_errors: "py_float v = Inl e \<Longrightarrow> e = TypeError \<or> e = ValueError"
  by (cases v) (auto split: option.splits)

lemmas str_eval =
  char_code_def is_digit_def is_blank_def lower_char_def upper_char_def py_lower_def py_upper_def
  py_strip_def py_startswith_def py_endswith_def py_in_str_def char_of_def bit_0
  suffix_to_prefix
  sublist_code

lemmas float_eval =
  str_eval parse_float_def parse_exponent_def scale10_def dec_value_def

end
