(* ===== verification/Prelude.thy ===== *)
theory Prelude
  imports Py_Base
begin

text \<open>
  What the components share beyond the value model: the arithmetic of weighted pools, and
  the interfaces that several components provide. \<open>clamping\<close> is the contract of the
  three copies of \<open>_clip\<close>; \<open>table_ops\<close> is that of a keyed table (a dictionary, an SQLite
  table with a primary key); \<open>best_row\<close> is that of the loop that keeps, for every key, the
  first row of the best priority; \<open>invariant_system\<close> is that of a transition system with an
  invariant and a preorder its steps respect.
\<close>

section \<open>Sums and weighted pools\<close>

named_theorems pool_simps \<open>sums over weighted pools\<close>

lemma sum_list_nonneg_real: "\<forall>x \<in> set xs. 0 \<le> (f x :: real) \<Longrightarrow> 0 \<le> sum_list (map f xs)"
  by (induction xs) auto

lemma sum_list_mono_real:
  "\<forall>x \<in> set xs. (f x :: real) \<le> g x \<Longrightarrow> sum_list (map f xs) \<le> sum_list (map g xs)"
  by (induction xs) (auto intro: add_mono)

lemma sum_list_divide: "sum_list (map (\<lambda>x. f x / (c :: real)) xs) = sum_list (map f xs) / c"
  by (induction xs) (auto simp: add_divide_distrib)

lemma sum_list_scale: "sum_list (map (\<lambda>x. f x * (c :: real)) xs) = sum_list (map f xs) * c"
  by (induction xs) (auto simp: distrib_right)

lemma sum_list_abs_le: "\<bar>sum_list (map f xs)\<bar> \<le> sum_list (map (\<lambda>x. \<bar>f x :: real\<bar>) xs)"
  by (induction xs) (auto intro: order_trans [OF abs_triangle_ineq])

lemma sum_list_filter_zero:
  "\<forall>x \<in> set xs. \<not> P x \<longrightarrow> f x = (0 :: real) \<Longrightarrow>
   sum_list (map f (filter P xs)) = sum_list (map f xs)"
  by (induction xs) auto

lemma sum_list_filter_le:
  "\<forall>x \<in> set xs. 0 \<le> (f x :: real) \<Longrightarrow> sum_list (map f (filter P xs)) \<le> sum_list (map f xs)"
  by (induction xs) auto

lemma sum_list_eq_zeroD:
  "\<forall>x \<in> set xs. 0 \<le> (f x :: real) \<Longrightarrow> sum_list (map f xs) = 0 \<Longrightarrow> x \<in> set xs \<Longrightarrow> f x = 0"
proof (induction xs)
  case Nil
  then show ?case by simp
next
  case (Cons y ys)
  have "0 \<le> f y" "0 \<le> sum_list (map f ys)"
    using Cons.prems(1) by (auto intro: sum_list_nonneg_real)
  with Cons show ?case by auto
qed

lemma shares_sum_one [pool_simps]:
  "sum_list (map w xs) = W \<Longrightarrow> W \<noteq> (0 :: real) \<Longrightarrow> sum_list (map (\<lambda>x. w x / W) xs) = 1"
  by (simp add: sum_list_divide)

text \<open>A pool whose shares are non-negative reports a value between its extremes.\<close>

lemma pool_abs_bound:
  assumes "\<forall>x \<in> set xs. 0 \<le> w x" and "\<forall>x \<in> set xs. \<bar>v x\<bar> \<le> (B :: real)"
    and "sum_list (map w xs) = W" and "0 < W"
  shows "\<bar>sum_list (map (\<lambda>x. v x * (w x / W)) xs)\<bar> \<le> B"
proof -
  have "\<bar>sum_list (map (\<lambda>x. v x * (w x / W)) xs)\<bar>
      \<le> sum_list (map (\<lambda>x. \<bar>v x * (w x / W)\<bar>) xs)"
    by (rule sum_list_abs_le)
  also have "\<dots> \<le> sum_list (map (\<lambda>x. w x / W * B) xs)"
  proof (rule sum_list_mono_real, rule ballI)
    fix x assume "x \<in> set xs"
    with assms(1,2) have "0 \<le> w x" "\<bar>v x\<bar> \<le> B" by auto
    then have "\<bar>v x\<bar> * (w x / W) \<le> B * (w x / W)"
      using assms(4) by (intro mult_right_mono) auto
    then show "\<bar>v x * (w x / W)\<bar> \<le> w x / W * B"
      using \<open>0 \<le> w x\<close> assms(4) by (simp add: abs_mult mult.commute)
  qed
  also have "\<dots> = B"
    using assms(3,4) by (simp only: sum_list_scale) (simp add: sum_list_divide)
  finally show ?thesis .
qed

lemma mult_unit_interval:
  "0 \<le> a \<Longrightarrow> a \<le> 1 \<Longrightarrow> 0 \<le> b \<Longrightarrow> b \<le> 1 \<Longrightarrow> 0 \<le> a * b \<and> a * b \<le> (1 :: real)"
  by (auto intro: mult_le_one)

lemma find_append: "List.find P (xs @ ys) = (case List.find P xs of None \<Rightarrow> List.find P ys | Some x \<Rightarrow> Some x)"
  by (induction xs) auto

lemma find_SomeD: "List.find P xs = Some x \<Longrightarrow> x \<in> set xs \<and> P x"
  by (induction xs) (auto split: if_splits)

fun join_with :: "string \<Rightarrow> string list \<Rightarrow> string" where
  "join_with sep [] = []"
| "join_with sep [s] = s"
| "join_with sep (s # t # ss) = s @ sep @ join_with sep (t # ss)"

lemma list_all2_right: "list_all2 P xs ys \<Longrightarrow> y \<in> set ys \<Longrightarrow> \<exists>x \<in> set xs. P x y"
  by (induction rule: list_all2_induct) auto

lemma insort_key_map: "insort_key f (g x) (map g xs) = map g (insort_key (\<lambda>y. f (g y)) x xs)"
  by (induction xs) auto

lemma sort_key_map: "sort_key f (map g xs) = map g (sort_key (\<lambda>y. f (g y)) xs)"
  by (induction xs) (auto simp: insort_key_map)

section \<open>Decimal numerals\<close>

lemma dec_digits: "d < 10 \<Longrightarrow> is_digit (char_of (48 + d)) \<and> char_code (char_of (48 + d)) = 48 + d" for d :: nat
  by (simp add: is_digit_def char_code_def)

lemma dec_value_snoc: "dec_value (ds @ [c]) = 10 * dec_value ds + (char_code c - 48)"
  by (simp add: dec_value_def)

lemma dec_value_nat_str: "dec_value (nat_str n) = n"
proof (induction n rule: nat_str.induct)
  case (1 n)
  show ?case
  proof (cases "n < 10")
    case True
    then show ?thesis by (subst nat_str.simps) (simp add: dec_value_def dec_digits)
  next
    case False
    have "n mod 10 < 10" by simp
    with False 1 show ?thesis by (subst nat_str.simps) (simp add: dec_value_snoc dec_digits del: mod_less_divisor)
  qed
qed

lemma nat_str_inject [simp]: "nat_str m = nat_str n \<longleftrightarrow> m = n"
  by (metis dec_value_nat_str)

section \<open>Interface: clamping a number into a range\<close>

locale clamping =
  fixes clip :: "real \<Rightarrow> real \<Rightarrow> real \<Rightarrow> real"
  assumes clip_eq: "lo \<le> hi \<Longrightarrow> clip x lo hi = max lo (min hi x)"
begin

lemma lower: "lo \<le> hi \<Longrightarrow> lo \<le> clip x lo hi"
  by (simp add: clip_eq)

lemma upper: "lo \<le> hi \<Longrightarrow> clip x lo hi \<le> hi"
  by (simp add: clip_eq)

lemma fixed: "lo \<le> x \<Longrightarrow> x \<le> hi \<Longrightarrow> clip x lo hi = x"
  by (simp add: clip_eq)

lemma idem: "lo \<le> hi \<Longrightarrow> clip (clip x lo hi) lo hi = clip x lo hi"
  by (simp add: fixed lower upper)

lemma mono: "lo \<le> hi \<Longrightarrow> x \<le> y \<Longrightarrow> clip x lo hi \<le> clip y lo hi"
  by (auto simp: clip_eq)

lemma abs_unit: "\<bar>clip x (-1) 1\<bar> \<le> 1"
  using lower [of "-1" 1 x] upper [of "-1" 1 x] by auto

end

section \<open>Interface: a keyed table\<close>

locale table_ops =
  fixes put :: "'k \<Rightarrow> 'v \<Rightarrow> 't \<Rightarrow> 't"
    and get :: "'t \<Rightarrow> 'k \<Rightarrow> 'v option"
    and good :: "'t \<Rightarrow> bool"
  assumes get_put: "good t \<Longrightarrow> get (put k v t) k' = (if k' = k then Some v else get t k')"
    and good_put: "good t \<Longrightarrow> good (put k v t)"
begin

lemma good_puts: "good t \<Longrightarrow> good (fold (\<lambda>(k, v). put k v) kvs t)"
  by (induction kvs arbitrary: t) (auto simp: good_put)

text \<open>A batch of writes: the last write of a key wins, and no other key changes.\<close>

lemma get_puts:
  "good t \<Longrightarrow> get (fold (\<lambda>(k, v). put k v) kvs t) k =
     (case map_of (rev kvs) k of None \<Rightarrow> get t k | Some v \<Rightarrow> Some v)"
  by (induction kvs arbitrary: t)
    (auto simp: get_put good_put map_add_def split: option.splits)

lemma get_puts_other: "good t \<Longrightarrow> k \<notin> fst ` set kvs \<Longrightarrow>
    get (fold (\<lambda>(k, v). put k v) kvs t) k = get t k"
  by (simp add: get_puts map_of_eq_None_iff [THEN iffD2] split: option.splits)

lemma get_puts_last: "good t \<Longrightarrow> k \<notin> fst ` set post \<Longrightarrow>
    get (fold (\<lambda>(k, v). put k v) (pre @ (k, v) # post) t) k = Some v"
  by (simp add: get_put get_puts_other good_put good_puts)

end

interpretation assoc_dict: table_ops dput map_of dict_wf
  by unfold_locales (auto simp: map_of_dput)

section \<open>Interface: the best row of every key\<close>

text \<open>
  \<open>step r m\<close> is the body of a loop over rows: it enters a row for its key when the key is
  new or when the row's priority number is smaller than the one already kept.
\<close>

locale best_row =
  fixes key :: "'r \<Rightarrow> 'k" and prio :: "'r \<Rightarrow> nat" and pay :: "'r \<Rightarrow> 'v"
    and step :: "'r \<Rightarrow> ('k \<times> (nat \<times> 'v)) list \<Rightarrow> ('k \<times> (nat \<times> 'v)) list"
  assumes step_eq:
    "step r m =
       (case map_of m (key r) of
          None \<Rightarrow> dput (key r) (prio r, pay r) m
        | Some (p, _) \<Rightarrow> if prio r < p then dput (key r) (prio r, pay r) m else m)"
begin

lemma wf_step: "dict_wf m \<Longrightarrow> dict_wf (step r m)"
  by (auto simp: step_eq split: option.splits)

lemma wf_fold: "dict_wf m \<Longrightarrow> dict_wf (fold step rs m)"
  by (induction rs arbitrary: m) (auto simp: wf_step)

lemma map_of_step:
  "map_of (step r m) k =
     (if k = key r then
        (case map_of m k of
           None \<Rightarrow> Some (prio r, pay r)
         | Some (p, x) \<Rightarrow> if prio r < p then Some (prio r, pay r) else Some (p, x))
      else map_of m k)"
  by (auto simp: step_eq map_of_dput split: option.splits)

text \<open>What the loop keeps for a key never gets a larger priority number.\<close>

lemma fold_improves:
  "map_of m k = Some (p, x) \<Longrightarrow>
   \<exists>p' x'. map_of (fold step rs m) k = Some (p', x') \<and> p' \<le> p \<and>
     (\<forall>r \<in> set rs. key r = k \<longrightarrow> p' \<le> prio r) \<and>
     ((p', x') = (p, x) \<or> (\<exists>r \<in> set rs. key r = k \<and> prio r = p' \<and> pay r = x'))"
proof (induction rs arbitrary: m p x)
  case Nil
  then show ?case by simp
next
  case (Cons r rs)
  obtain p1 x1 where 1: "map_of (step r m) k = Some (p1, x1)" and 2: "p1 \<le> p"
    and 3: "key r = k \<longrightarrow> p1 \<le> prio r"
    and 4: "(p1, x1) = (p, x) \<or> key r = k \<and> prio r = p1 \<and> pay r = x1"
    using Cons.prems
    by (cases "key r = k"; cases "prio r < p") (simp_all add: map_of_step)
  from Cons.IH [OF 1] obtain p2 x2 where
    "map_of (fold step rs (step r m)) k = Some (p2, x2)" "p2 \<le> p1"
    "\<forall>r \<in> set rs. key r = k \<longrightarrow> p2 \<le> prio r"
    "(p2, x2) = (p1, x1) \<or> (\<exists>r \<in> set rs. key r = k \<and> prio r = p2 \<and> pay r = x2)"
    by blast
  with 2 3 4 show ?case
    by (intro exI [of _ p2] exI [of _ x2]) auto
qed

lemma fold_misses: "map_of m k = None \<Longrightarrow> \<forall>r \<in> set rs. key r \<noteq> k \<Longrightarrow>
    map_of (fold step rs m) k = None"
  by (induction rs arbitrary: m) (auto simp: map_of_step)

lemma fold_split:
  assumes "\<exists>r \<in> set rs. key r = k"
  obtains pre r post where "rs = pre @ r # post" "key r = k" "\<forall>q \<in> set pre. key q \<noteq> k"
  using split_list_first_prop [OF assms] by blast

text \<open>The loop finds a row of every key that occurs, and one of the least priority number.\<close>

lemma fold_best:
  assumes "\<exists>r \<in> set rs. key r = k"
  shows "\<exists>r \<in> set rs. key r = k \<and> map_of (fold step rs []) k = Some (prio r, pay r) \<and>
     (\<forall>q \<in> set rs. key q = k \<longrightarrow> prio r \<le> prio q)"
proof -
  from assms obtain pre r post where rs: "rs = pre @ r # post" and r: "key r = k"
    and pre: "\<forall>q \<in> set pre. key q \<noteq> k"
    by (rule fold_split)
  have "map_of (fold step (pre @ [r]) []) k = Some (prio r, pay r)"
    using fold_misses [of "[]" k pre] pre r by (simp add: map_of_step)
  from fold_improves [OF this, of post] obtain p x where
    *: "map_of (fold step rs []) k = Some (p, x)" "p \<le> prio r"
      "\<forall>q \<in> set post. key q = k \<longrightarrow> p \<le> prio q"
      "(p, x) = (prio r, pay r) \<or> (\<exists>q \<in> set post. key q = k \<and> prio q = p \<and> pay q = x)"
    by (auto simp: rs)
  have "\<forall>q \<in> set rs. key q = k \<longrightarrow> p \<le> prio q"
    using * pre by (auto simp: rs)
  with *(1,4) r show ?thesis by (auto simp: rs)
qed

lemma fold_keys: "fst ` set (fold step rs m) = fst ` set m \<union> key ` set rs"
proof (induction rs arbitrary: m)
  case Nil
  then show ?case by simp
next
  case (Cons r rs)
  have "dom (map_of (step r m)) = insert (key r) (dom (map_of m))"
    by (auto simp: map_of_step split: option.splits if_splits)
  then have "fst ` set (step r m) = insert (key r) (fst ` set m)"
    by (simp only: dom_map_of_conv_image_fst)
  with Cons show ?case by simp
qed

end

section \<open>Interface: a system that moves in steps\<close>

inductive runs :: "('s \<Rightarrow> 's \<Rightarrow> bool) \<Rightarrow> 's \<Rightarrow> 's \<Rightarrow> bool" for step :: "'s \<Rightarrow> 's \<Rightarrow> bool" where
  rest: "runs step s s"
| more: "runs step s t \<Longrightarrow> step t u \<Longrightarrow> runs step s u"

lemma runs_one: "step s t \<Longrightarrow> runs step s t"
  by (rule runs.more [OF runs.rest])

lemma runs_trans: "runs step t u \<Longrightarrow> runs step s t \<Longrightarrow> runs step s u"
  by (induction rule: runs.induct) (auto intro: runs.more)

lemma runs_mono: "runs step s t \<Longrightarrow> (\<And>x y. step x y \<Longrightarrow> step' x y) \<Longrightarrow> runs step' s t"
  by (induction rule: runs.induct) (auto intro: runs.intros)

text \<open>An invariant of the steps, and a preorder that every step from a good state respects.\<close>

locale invariant_system =
  fixes step :: "'s \<Rightarrow> 's \<Rightarrow> bool" and inv :: "'s \<Rightarrow> bool" and ord :: "'s \<Rightarrow> 's \<Rightarrow> bool"
  assumes inv_step: "inv s \<Longrightarrow> step s t \<Longrightarrow> inv t"
    and ord_refl: "ord s s"
    and ord_trans: "ord s t \<Longrightarrow> ord t u \<Longrightarrow> ord s u"
    and ord_step: "inv s \<Longrightarrow> step s t \<Longrightarrow> ord s t"
begin

lemma inv_runs: "runs step s t \<Longrightarrow> inv s \<Longrightarrow> inv t"
  by (induction rule: runs.induct) (auto intro: inv_step)

lemma ord_runs: "runs step s t \<Longrightarrow> inv s \<Longrightarrow> ord s t"
  by (induction rule: runs.induct) (auto intro: ord_refl ord_trans ord_step inv_runs)

end

end
