(* ===== verification/Coverage.thy ===== *)
theory Coverage
  imports Prelude
begin

text \<open>
  \<open>mvp20/coverage.py\<close>: the missing-state classification of a node, N/A renormalisation,
  data coverage and its warning bands, confidence propagation, optionality, and the reports
  for one parent and for a whole overlay. The six states that \<open>classify_missing_state\<close>
  returns as strings are the datatype \<open>mstate\<close>, the warning bands the datatype
  \<open>warn_level\<close>, ordered from the worst to the best. A call that raises is \<open>Inl\<close>.
\<close>

section \<open>Constants and statuses\<close>

datatype mstate = StKnown | StNA | StUnknown | StInactive | StOptionality | StLowMateriality

datatype warn_level = NoStrongConclusion | LowConfidence | CoverageOk

instantiation warn_level :: linorder
begin

fun warn_rank :: "warn_level \<Rightarrow> nat" where
  "warn_rank NoStrongConclusion = 0"
| "warn_rank LowConfidence = 1"
| "warn_rank CoverageOk = 2"

definition less_eq_warn_level :: "warn_level \<Rightarrow> warn_level \<Rightarrow> bool" where
  "less_eq_warn_level a b \<longleftrightarrow> warn_rank a \<le> warn_rank b"

definition less_warn_level :: "warn_level \<Rightarrow> warn_level \<Rightarrow> bool" where
  "less_warn_level a b \<longleftrightarrow> warn_rank a < warn_rank b"

instance
proof
  fix a b c :: warn_level
  show "(a < b) = (a \<le> b \<and> \<not> b \<le> a)"
    by (auto simp: less_eq_warn_level_def less_warn_level_def)
  show "a \<le> a" by (simp add: less_eq_warn_level_def)
  show "a \<le> b \<Longrightarrow> b \<le> c \<Longrightarrow> a \<le> c" by (simp add: less_eq_warn_level_def)
  show "a \<le> b \<Longrightarrow> b \<le> a \<Longrightarrow> a = b"
    by (cases a; cases b) (simp_all add: less_eq_warn_level_def)
  show "a \<le> b \<or> b \<le> a" by (auto simp: less_eq_warn_level_def)
qed

end

definition low_materiality_threshold :: real where
  "low_materiality_threshold = 5 / 100"

definition low_confidence_threshold :: real where
  "low_confidence_threshold = 1 / 2"

definition no_strong_conclusion_threshold :: real where
  "no_strong_conclusion_threshold = 3 / 10"

definition evidence_quality_map :: "(string \<times> real) list" where
  "evidence_quality_map = [(''low'', 1 / 2), (''medium'', 3 / 4), (''high'', 1)]"

definition cov_node_weight :: "pydict \<Rightarrow> real" where
  "cov_node_weight node =
     (let w0 = dget node ''active_weight'';
          w1 = (if w0 = PNone then dget node ''base_weight'' else w0);
          w2 = (if w1 = PNone then PFloat 1 else w1)
      in try_float w2 1)"

definition normalise_status :: "pyval \<Rightarrow> string" where
  "normalise_status raw =
     (if raw = PNone then ''Unknown''
      else let s = py_strip (py_str raw) in
        if s \<in> {''N/A'', ''NA'', ''n/a''} then ''NA''
        else if s = ''Low Materiality'' then ''LowMateriality''
        else s)"

definition mstate_of_token :: "string \<Rightarrow> mstate option" where
  "mstate_of_token s =
     map_of [(''Known'', StKnown), (''NA'', StNA), (''Unknown'', StUnknown),
             (''Inactive'', StInactive), (''Optionality'', StOptionality),
             (''LowMateriality'', StLowMateriality)] s"

definition policy_state :: "string \<Rightarrow> mstate option" where
  "policy_state s =
     map_of [(''not_applicable_remove'', StNA), (''unknown_reduce_confidence'', StUnknown),
             (''inactive_zero_weight'', StInactive), (''optionality_track'', StOptionality),
             (''low_materiality_fold'', StLowMateriality), (''known'', StKnown)] s"

text \<open>\<open>float(mat) < LOW_MATERIALITY_THRESHOLD\<close>, false when the cast fails.\<close>

definition below_materiality :: "pydict \<Rightarrow> bool" where
  "below_materiality node =
     (case py_float (dget node ''materiality'') of
        Inl _ \<Rightarrow> False
      | Inr m \<Rightarrow> m < low_materiality_threshold)"

definition demote :: "pydict \<Rightarrow> mstate \<Rightarrow> mstate" where
  "demote node st = (if st = StKnown \<and> below_materiality node then StLowMateriality else st)"

definition classify_missing_state :: "pydict \<Rightarrow> mstate res" where
  "classify_missing_state node =
     (let raw = dget node ''data_status'';
          explicit = (if raw = PNone then None else mstate_of_token (normalise_status raw))
      in case explicit of
           Some st \<Rightarrow> Inr (demote node st)
         | None \<Rightarrow>
             (case py_or (dget node ''missing_policy'') (PStr '''') of
                PStr p \<Rightarrow>
                  (case policy_state (py_strip p) of
                     Some st \<Rightarrow> Inr (demote node st)
                   | None \<Rightarrow> Inr (if below_materiality node then StLowMateriality else StUnknown))
              | _ \<Rightarrow> Inl AttributeError))"

section \<open>Renormalisation and data coverage\<close>

definition weight_entry :: "pydict \<Rightarrow> (string \<times> real) list res" where
  "weight_entry node =
     res_bind (classify_missing_state node) (\<lambda>st.
       let dp = py_or (dget node ''dp_id'') (dget node ''node_id'') in
       Inr (if st = StNA \<or> dp = PNone then [] else [(py_str dp, cov_node_weight node)]))"

definition applicable_weights :: "pydict list \<Rightarrow> (string \<times> real) list res" where
  "applicable_weights children = res_map concat (res_list weight_entry children)"

definition shares :: "(string \<times> real) list \<Rightarrow> (string \<times> real) list" where
  "shares ws =
     (let total = sum_list (map snd ws) in
      if total \<le> 0 then []
      else fold (\<lambda>(k, w) d. dput k (w / total) d) ws [])"

definition renormalize_weights :: "pydict list \<Rightarrow> (string \<times> real) list res" where
  "renormalize_weights children = res_map shares (applicable_weights children)"

definition counts_as_known :: "pydict \<Rightarrow> mstate \<Rightarrow> bool" where
  "counts_as_known node st \<longleftrightarrow>
     st \<in> {StKnown, StInactive} \<or>
     normalise_status (dget node ''data_status'') \<in> {''Known'', ''Inactive''}"

definition coverage_step :: "pydict \<Rightarrow> real \<times> real \<Rightarrow> (real \<times> real) res" where
  "coverage_step node acc =
     res_bind (classify_missing_state node) (\<lambda>st.
       let (known_w, applicable_w) = acc; w = cov_node_weight node in
       Inr (if st = StNA then (known_w, applicable_w)
            else (if counts_as_known node st then known_w + w else known_w, applicable_w + w)))"

definition coverage_ratio :: "real \<times> real \<Rightarrow> real" where
  "coverage_ratio acc =
     (let (known_w, applicable_w) = acc in
      if applicable_w \<le> 0 then 0 else max 0 (min 1 (known_w / applicable_w)))"

definition compute_data_coverage :: "pydict list \<Rightarrow> real res" where
  "compute_data_coverage children =
     res_map coverage_ratio (res_fold coverage_step children (0, 0))"

definition coverage_warning_level :: "real \<Rightarrow> warn_level" where
  "coverage_warning_level coverage =
     (if coverage < no_strong_conclusion_threshold then NoStrongConclusion
      else if coverage < low_confidence_threshold then LowConfidence
      else CoverageOk)"

section \<open>Confidence and optionality\<close>

definition evidence_factor :: "string \<Rightarrow> real" where
  "evidence_factor s =
     (case map_of evidence_quality_map (py_lower (py_strip s)) of None \<Rightarrow> 3 / 4 | Some q \<Rightarrow> q)"

definition propagate_confidence :: "real \<Rightarrow> real \<Rightarrow> pyval \<Rightarrow> real" where
  "propagate_confidence parent_base_confidence data_coverage evidence_quality =
     (let eq = (case evidence_quality of PStr s \<Rightarrow> evidence_factor s | v \<Rightarrow> try_float v (3 / 4));
          base = max 0 (min 1 parent_base_confidence);
          cov = max 0 (min 1 data_coverage);
          eq1 = max 0 (min 1 eq)
      in base * cov * eq1)"

definition adjust_path_score :: "real \<Rightarrow> real \<Rightarrow> real" where
  "adjust_path_score raw_score confidence = raw_score * max 0 (min 1 confidence)"

definition opt_num :: "pydict \<Rightarrow> string \<Rightarrow> real \<Rightarrow> real" where
  "opt_num value key d = try_float (dget value key) d"

definition handle_optionality :: "pydict \<Rightarrow> real \<times> real" where
  "handle_optionality node =
     (let value = as_dict (py_or (dget node ''value'') (PDict []));
          current = opt_num value ''current_revenue_share'' (opt_num value ''current_contribution'' 0);
          market_space = opt_num value ''market_space'' 0;
          success_prob = opt_num value ''success_prob'' 0;
          time_factor = opt_num value ''time_factor'' 1;
          eq = (case py_or (dget value ''evidence_quality'') (dget node ''evidence_quality'') of
                  PStr s \<Rightarrow> evidence_factor s
                | v \<Rightarrow> try_float v 0)
      in (current, market_space * success_prob * time_factor * eq))"

section \<open>The report for one parent\<close>

record state_counts =
  n_na :: nat
  n_unknown :: nat
  n_inactive :: nat
  n_known :: nat
  n_optionality :: nat
  n_low_materiality :: nat

record node_summary =
  ns_node_id :: pyval
  ns_dp_id :: pyval
  ns_data_coverage :: real
  ns_warning_level :: warn_level
  ns_counts :: state_counts
  ns_normalized_weights :: "(string \<times> real) list"
  ns_n_children :: nat
  ns_n_applicable :: nat

definition zero_counts :: state_counts where
  "zero_counts = \<lparr>n_na = 0, n_unknown = 0, n_inactive = 0, n_known = 0, n_optionality = 0,
     n_low_materiality = 0\<rparr>"

fun count_state :: "mstate \<Rightarrow> state_counts \<times> nat \<Rightarrow> state_counts \<times> nat" where
  "count_state StNA (c, a) = (c\<lparr>n_na := n_na c + 1\<rparr>, a)"
| "count_state StUnknown (c, a) = (c\<lparr>n_unknown := n_unknown c + 1\<rparr>, a + 1)"
| "count_state StInactive (c, a) = (c\<lparr>n_inactive := n_inactive c + 1\<rparr>, a + 1)"
| "count_state StKnown (c, a) = (c\<lparr>n_known := n_known c + 1\<rparr>, a + 1)"
| "count_state StOptionality (c, a) = (c\<lparr>n_optionality := n_optionality c + 1\<rparr>, a + 1)"
| "count_state StLowMateriality (c, a) =
     (c\<lparr>n_low_materiality := n_low_materiality c + 1\<rparr>, a + 1)"

definition coverage_summary_for_node :: "pydict \<Rightarrow> pydict list \<Rightarrow> node_summary res" where
  "coverage_summary_for_node node children =
     res_bind (res_list classify_missing_state children) (\<lambda>states.
     res_bind (compute_data_coverage children) (\<lambda>coverage.
     res_bind (renormalize_weights children) (\<lambda>weights.
       let (counts, n_applicable) = fold count_state states (zero_counts, 0) in
       Inr \<lparr>ns_node_id = dget node ''node_id'', ns_dp_id = dget node ''dp_id'',
            ns_data_coverage = coverage,
            ns_warning_level = coverage_warning_level coverage,
            ns_counts = counts, ns_normalized_weights = weights,
            ns_n_children = length children, ns_n_applicable = n_applicable\<rparr>)))"

section \<open>The report for an overlay\<close>

type_synonym child_table = "(string \<times> pydict list) list"

record coverage_alert =
  al_node_id :: pyval
  al_dp_id :: pyval
  al_warning_level :: warn_level
  al_data_coverage :: real

record overlay_summary =
  os_ts_code :: pyval
  os_industry_id :: pyval
  os_per_node :: "node_summary list"
  os_data_coverage :: real
  os_warning_level :: warn_level
  os_n_parents :: nat
  os_totals :: state_counts
  os_alerts :: "coverage_alert list"

definition overlay_nodes :: "pydict \<Rightarrow> pydict list res" where
  "overlay_nodes overlay =
     res_bind (py_iter (py_or (dget overlay ''nodes'') (PList []))) (res_list as_mapping)"

definition nodes_by_id :: "pydict list \<Rightarrow> (string \<times> pydict) list" where
  "nodes_by_id nodes =
     fold (\<lambda>n d. if truthy (dget n ''node_id'') then dput (py_str (dget n ''node_id'')) n d else d)
       nodes []"

definition bucket :: "child_table \<Rightarrow> string \<Rightarrow> pydict list" where
  "bucket t k = (case map_of t k of None \<Rightarrow> [] | Some b \<Rightarrow> b)"

definition add_to_parent :: "pydict \<Rightarrow> child_table \<Rightarrow> child_table" where
  "add_to_parent n t =
     (let parent = dget n ''parent_node'' in
      if parent = PNone then t
      else dput (py_str parent) (bucket t (py_str parent) @ [n]) t)"

definition node_ids :: "pydict list \<Rightarrow> string list" where
  "node_ids b = map (\<lambda>c. py_str (dget c ''node_id'')) b"

text \<open>
  The inner loop over an explicit \<open>child_nodes\<close> list: \<open>ids\<close> is the set \<open>existing_ids\<close>.
\<close>

fun add_explicit :: "(string \<times> pydict) list \<Rightarrow> string list \<Rightarrow> pydict list \<times> string list \<Rightarrow>
    pydict list \<times> string list" where
  "add_explicit by_id [] (b, ids) = (b, ids)"
| "add_explicit by_id (cid # cids) (b, ids) =
     (if cid \<in> set ids then add_explicit by_id cids (b, ids)
      else case map_of by_id cid of
             None \<Rightarrow> add_explicit by_id cids (b, ids)
           | Some child \<Rightarrow> add_explicit by_id cids (b @ [child], cid # ids))"

definition add_child_nodes :: "(string \<times> pydict) list \<Rightarrow> pydict \<Rightarrow> child_table \<Rightarrow>
    child_table res" where
  "add_child_nodes by_id n t =
     (let explicit = py_or (dget n ''child_nodes'') (PList []) in
      if \<not> truthy explicit then Inr t
      else res_bind (py_iter explicit) (\<lambda>cids.
        let k = py_str (dget n ''node_id''); b = bucket t k in
        Inr (dput k (fst (add_explicit by_id (map py_str cids) (b, node_ids b))) t)))"

definition children_of :: "pydict list \<Rightarrow> child_table res" where
  "children_of nodes =
     res_fold (add_child_nodes (nodes_by_id nodes)) nodes (fold add_to_parent nodes [])"

definition summarise_parent :: "(string \<times> pydict) list \<Rightarrow> string \<times> pydict list \<Rightarrow>
    node_summary res" where
  "summarise_parent by_id pk =
     (let (parent_id, kids) = pk in
      coverage_summary_for_node
        (case map_of by_id parent_id of
           None \<Rightarrow> [(''node_id'', PStr parent_id)] | Some p \<Rightarrow> p) kids)"

definition add_counts :: "state_counts \<Rightarrow> state_counts \<Rightarrow> state_counts" where
  "add_counts a b =
     \<lparr>n_na = n_na a + n_na b, n_unknown = n_unknown a + n_unknown b,
      n_inactive = n_inactive a + n_inactive b, n_known = n_known a + n_known b,
      n_optionality = n_optionality a + n_optionality b,
      n_low_materiality = n_low_materiality a + n_low_materiality b\<rparr>"

definition rollup_step :: "node_summary \<Rightarrow> real \<times> real \<Rightarrow> real \<times> real" where
  "rollup_step s acc =
     (let (num, den) = acc; weight = real (ns_n_applicable s) in
      if weight > 0 then (num + ns_data_coverage s * weight, den + weight) else (num, den))"

definition overall_coverage :: "node_summary list \<Rightarrow> real" where
  "overall_coverage per_node =
     (let (num, den) = fold rollup_step per_node (0, 0) in if den > 0 then num / den else 0)"

definition alerts_of :: "node_summary list \<Rightarrow> coverage_alert list" where
  "alerts_of per_node =
     map (\<lambda>s. \<lparr>al_node_id = ns_node_id s, al_dp_id = ns_dp_id s,
               al_warning_level = ns_warning_level s, al_data_coverage = ns_data_coverage s\<rparr>)
       (filter (\<lambda>s. ns_warning_level s \<noteq> CoverageOk) per_node)"

definition coverage_summary_for_overlay :: "pydict \<Rightarrow> overlay_summary res" where
  "coverage_summary_for_overlay overlay =
     res_bind (overlay_nodes overlay) (\<lambda>nodes.
     res_bind (children_of nodes) (\<lambda>table.
     res_bind (res_list (summarise_parent (nodes_by_id nodes)) (filter (\<lambda>pk. snd pk \<noteq> []) table))
       (\<lambda>per_node.
          Inr \<lparr>os_ts_code = dget overlay ''ts_code'', os_industry_id = dget overlay ''industry_id'',
               os_per_node = per_node,
               os_data_coverage = overall_coverage per_node,
               os_warning_level = coverage_warning_level (overall_coverage per_node),
               os_n_parents = length per_node,
               os_totals = fold (\<lambda>s c. add_counts c (ns_counts s)) per_node zero_counts,
               os_alerts = alerts_of per_node\<rparr>)))"

section \<open>Specification of data coverage\<close>

text \<open>
  The formula of the design document: the weight of the known applicable children over the
  weight of the applicable ones. \<open>known_part\<close> and \<open>applicable_part\<close> are what one child
  adds to the numerator and to the denominator.
\<close>

definition state_of :: "pydict \<Rightarrow> mstate" where
  "state_of n = (case classify_missing_state n of Inl _ \<Rightarrow> StUnknown | Inr st \<Rightarrow> st)"

definition applicable_part :: "pydict \<Rightarrow> real" where
  "applicable_part n = (if state_of n = StNA then 0 else cov_node_weight n)"

definition known_part :: "pydict \<Rightarrow> real" where
  "known_part n =
     (if state_of n = StKnown \<or> state_of n = StInactive \<or>
         state_of n \<noteq> StNA \<and>
           (normalise_status (dget n ''data_status'') = ''Known'' \<or>
            normalise_status (dget n ''data_status'') = ''Inactive'')
      then cov_node_weight n else 0)"

definition classified :: "pydict list \<Rightarrow> bool" where
  "classified ns \<longleftrightarrow> (\<forall>n \<in> set ns. returns (classify_missing_state n))"

definition weights_ok :: "pydict list \<Rightarrow> bool" where
  "weights_ok ns \<longleftrightarrow> (\<forall>n \<in> set ns. 0 \<le> cov_node_weight n)"

lemma classified_simps [simp]:
  "classified []" "classified (n # ns) \<longleftrightarrow> returns (classify_missing_state n) \<and> classified ns"
  "classified (ms @ ns) \<longleftrightarrow> classified ms \<and> classified ns"
  by (auto simp: classified_def)

lemma weights_ok_simps [simp]:
  "weights_ok []" "weights_ok (n # ns) \<longleftrightarrow> 0 \<le> cov_node_weight n \<and> weights_ok ns"
  "weights_ok (ms @ ns) \<longleftrightarrow> weights_ok ms \<and> weights_ok ns"
  by (auto simp: weights_ok_def)

lemma classify_returns: "returns (classify_missing_state n) \<Longrightarrow>
    classify_missing_state n = Inr (state_of n)"
  by (auto simp: state_of_def returns_iff)

lemma known_part_le: "0 \<le> cov_node_weight n \<Longrightarrow> 0 \<le> known_part n \<and> known_part n \<le> applicable_part n"
  by (auto simp: known_part_def applicable_part_def)

lemma applicable_part_nonneg: "0 \<le> cov_node_weight n \<Longrightarrow> 0 \<le> applicable_part n"
  by (auto simp: applicable_part_def)

lemma coverage_fold:
  "classified ns \<Longrightarrow> res_fold coverage_step ns (k, a) =
     Inr (k + sum_list (map known_part ns), a + sum_list (map applicable_part ns))"
proof (induction ns arbitrary: k a)
  case Nil
  then show ?case by simp
next
  case (Cons n ns)
  then have "coverage_step n (k, a) = Inr (k + known_part n, a + applicable_part n)"
    by (auto simp: coverage_step_def classify_returns known_part_def applicable_part_def Let_def
        counts_as_known_def)
  with Cons show ?case by (simp add: add.assoc)
qed

lemma coverage_step_returns: "returns (coverage_step n acc) \<longleftrightarrow> returns (classify_missing_state n)"
  by (cases acc; cases "classify_missing_state n") (simp_all add: coverage_step_def Let_def)

lemma coverage_fold_returns: "returns (res_fold coverage_step ns acc) \<longleftrightarrow> classified ns"
proof (induction ns arbitrary: acc)
  case Nil
  then show ?case by simp
next
  case (Cons n ns)
  have "returns (res_fold coverage_step (n # ns) acc) \<longleftrightarrow>
      returns (coverage_step n acc) \<and> classified ns"
    by (cases "coverage_step n acc") (simp_all add: Cons.IH)
  then show ?case by (simp add: coverage_step_returns)
qed

lemma compute_data_coverage_returns: "returns (compute_data_coverage ns) \<longleftrightarrow> classified ns"
  by (simp add: compute_data_coverage_def coverage_fold_returns)

lemma compute_data_coverage_eq:
  "classified ns \<Longrightarrow> compute_data_coverage ns =
     Inr (coverage_ratio (sum_list (map known_part ns), sum_list (map applicable_part ns)))"
  by (simp add: compute_data_coverage_def coverage_fold)

lemma coverage_ratio_bounds: "0 \<le> coverage_ratio acc \<and> coverage_ratio acc \<le> 1"
  by (cases acc) (auto simp: coverage_ratio_def)

lemma coverage_ratio_exact:
  "0 \<le> k \<Longrightarrow> k \<le> a \<Longrightarrow> coverage_ratio (k, a) = (if a \<le> 0 then 0 else k / a)"
  by (auto simp: coverage_ratio_def)

lemma coverage_ratio_mono: "k \<le> k' \<Longrightarrow> coverage_ratio (k, a) \<le> coverage_ratio (k', a)"
  using divide_right_mono [of k k' a] by (auto simp: coverage_ratio_def)

lemma known_sum_le:
  "weights_ok ns \<Longrightarrow> 0 \<le> sum_list (map known_part ns) \<and>
     sum_list (map known_part ns) \<le> sum_list (map applicable_part ns)"
  by (auto simp: weights_ok_def known_part_le intro!: sum_list_nonneg_real sum_list_mono_real)

text \<open>Data coverage is the quotient of the design document.\<close>

theorem data_coverage_is_quotient:
  assumes "classified ns" and "weights_ok ns"
  shows "compute_data_coverage ns =
     Inr (if sum_list (map applicable_part ns) \<le> 0 then 0
          else sum_list (map known_part ns) / sum_list (map applicable_part ns))"
  using assms known_sum_le [OF assms(2)]
  by (simp add: compute_data_coverage_eq coverage_ratio_exact)

section \<open>Bounds and invariance\<close>

lemma compute_data_coverage_bounds:
  "compute_data_coverage ns = Inr c \<Longrightarrow> 0 \<le> c \<and> c \<le> 1"
  using coverage_ratio_bounds by (auto simp: compute_data_coverage_def res_map_eq_Inr)

lemma na_parts: "state_of n = StNA \<Longrightarrow> known_part n = 0 \<and> applicable_part n = 0"
  by (simp add: known_part_def applicable_part_def)

lemma na_parts_filter:
  "sum_list (map known_part (filter (\<lambda>n. state_of n \<noteq> StNA) ns)) = sum_list (map known_part ns)"
  "sum_list (map applicable_part (filter (\<lambda>n. state_of n \<noteq> StNA) ns)) =
     sum_list (map applicable_part ns)"
  by (auto intro!: sum_list_filter_zero simp: na_parts)

lemma classified_filter: "classified ns \<Longrightarrow> classified (filter P ns)"
  by (auto simp: classified_def)

lemma weight_entry_eq:
  assumes "returns (classify_missing_state n)"
  obtains e where "weight_entry n = Inr e" "state_of n = StNA \<longrightarrow> e = []"
  using that by (simp add: weight_entry_def classify_returns [OF assms] Let_def)

lemma weight_entries_return: "classified ns \<Longrightarrow> \<exists>es. res_list weight_entry ns = Inr es"
  using res_list_returns [of weight_entry ns]
  by (auto simp: classified_def returns_iff [symmetric] elim!: weight_entry_eq)

lemma applicable_weights_Cons:
  "weight_entry n = Inr e \<Longrightarrow>
   applicable_weights (n # ns) = res_map (\<lambda>es. e @ es) (applicable_weights ns)"
  by (cases "res_list weight_entry ns") (simp_all add: applicable_weights_def)

lemma res_map_id [simp]: "res_map (\<lambda>x. x) r = r"
  by (cases r) simp_all

lemma applicable_weights_filter:
  "classified ns \<Longrightarrow> applicable_weights (filter (\<lambda>n. state_of n \<noteq> StNA) ns) = applicable_weights ns"
proof (induction ns)
  case Nil
  then show ?case by simp
next
  case (Cons n ns)
  then obtain e where "weight_entry n = Inr e" "state_of n = StNA \<longrightarrow> e = []"
    using weight_entry_eq [of n] by auto
  with Cons show ?case by (auto simp: applicable_weights_Cons)
qed

text \<open>a child that does not apply changes neither the coverage nor the shares.\<close>

theorem not_applicable_children_drop_out:
  assumes "classified ns"
  shows "compute_data_coverage (filter (\<lambda>n. state_of n \<noteq> StNA) ns) = compute_data_coverage ns \<and>
     renormalize_weights (filter (\<lambda>n. state_of n \<noteq> StNA) ns) = renormalize_weights ns"
  using assms
  by (simp add: compute_data_coverage_eq classified_filter na_parts_filter
      renormalize_weights_def applicable_weights_filter)

section \<open>Renormalised shares\<close>

lemma fold_dput_fresh:
  "distinct (map fst ws) \<Longrightarrow> fst ` set ws \<inter> fst ` set d = {} \<Longrightarrow>
   fold (\<lambda>(k, w). dput k (f w)) ws d = d @ map (\<lambda>(k, w). (k, f w)) ws"
proof (induction ws arbitrary: d)
  case Nil
  then show ?case by simp
next
  case (Cons kw ws)
  obtain k w where kw: "kw = (k, w)" by fastforce
  with Cons.prems have fresh: "k \<notin> fst ` set d" and rest: "distinct (map fst ws)"
    and disj: "fst ` set ws \<inter> fst ` set (d @ [(k, f w)]) = {}"
    by auto
  from Cons.IH [OF rest disj] show ?case
    by (simp add: kw dput_fresh [OF fresh])
qed

lemma shares_distinct:
  assumes "distinct (map fst ws)" and "0 < sum_list (map snd ws)"
  shows "shares ws = map (\<lambda>(k, w). (k, w / sum_list (map snd ws))) ws"
  using assms fold_dput_fresh [of ws "[]" "\<lambda>w. w / sum_list (map snd ws)"]
  by (simp add: shares_def Let_def)

lemma shares_sum:
  assumes "distinct (map fst ws)" and "0 < sum_list (map snd ws)"
  shows "sum_list (map snd (shares ws)) = 1"
  using assms
  by (simp add: shares_distinct comp_def case_prod_beta shares_sum_one [of snd ws])

text \<open>
  with one entry per id, the shares of the applicable children add up to one, each child
  keeps its proportion, and the order of the children is kept.
\<close>

theorem renormalized_shares:
  assumes "applicable_weights ns = Inr ws" and "distinct (map fst ws)"
    and "0 < sum_list (map snd ws)"
  shows "\<exists>d. renormalize_weights ns = Inr d \<and> sum_list (map snd d) = 1 \<and>
     map fst d = map fst ws \<and>
     (\<forall>k w. map_of ws k = Some w \<longleftrightarrow> map_of d k = Some (w / sum_list (map snd ws)))"
proof -
  let ?W = "sum_list (map snd ws)"
  have d: "renormalize_weights ns = Inr (shares ws)"
    by (simp add: renormalize_weights_def assms(1))
  have m: "map_of (shares ws) k = map_option (\<lambda>w. w / ?W) (map_of ws k)" for k
    by (simp add: shares_distinct [OF assms(2,3)] map_of_map)
  have "map fst (shares ws) = map fst ws"
    by (simp add: shares_distinct [OF assms(2,3)] comp_def case_prod_beta)
  moreover have "map_of ws k = Some w \<longleftrightarrow> map_of (shares ws) k = Some (w / ?W)" for k w
    using assms(3) by (auto simp: m)
  ultimately show ?thesis
    using d shares_sum [OF assms(2,3)] by blast
qed

text \<open>
  The shares do not add up to one when two applicable children carry the same id: the
  dictionary keeps the last one only, while both count in the total.
\<close>

lemma shares_lose_duplicates: "shares [(''a'', 1), (''a'', 1)] = [(''a'', 1 / 2)]"
  by (simp add: shares_def)

section \<open>Counters of the node report\<close>

definition counters_ok :: "state_counts \<times> nat \<Rightarrow> nat \<Rightarrow> bool" where
  "counters_ok ca n \<longleftrightarrow>
     (let (c, a) = ca in
      n_na c + a = n \<and>
      n_unknown c + n_inactive c + n_known c + n_optionality c + n_low_materiality c = a)"

lemma count_state_ok: "counters_ok ca n \<Longrightarrow> counters_ok (count_state st ca) (Suc n)"
  by (cases ca; cases st) (auto simp: counters_ok_def)

lemma count_states_ok: "counters_ok ca n \<Longrightarrow> counters_ok (fold count_state sts ca) (n + length sts)"
proof (induction sts arbitrary: ca n)
  case Nil
  then show ?case by simp
next
  case (Cons st sts)
  from Cons.IH [OF count_state_ok [OF Cons.prems, of st]] show ?case by simp
qed

lemma zero_counts_ok: "counters_ok (zero_counts, 0) 0"
  by (simp add: counters_ok_def zero_counts_def)

lemma summary_fields:
  assumes "coverage_summary_for_node node ns = Inr s"
  shows "counters_ok (ns_counts s, ns_n_applicable s) (length ns)"
    and "ns_n_children s = length ns"
    and "compute_data_coverage ns = Inr (ns_data_coverage s)"
    and "ns_warning_level s = coverage_warning_level (ns_data_coverage s)"
    and "renormalize_weights ns = Inr (ns_normalized_weights s)"
proof -
  from assms obtain sts c w where
    sts: "res_list classify_missing_state ns = Inr sts"
    and c: "compute_data_coverage ns = Inr c" and w: "renormalize_weights ns = Inr w"
    and s: "s = \<lparr>ns_node_id = dget node ''node_id'', ns_dp_id = dget node ''dp_id'',
            ns_data_coverage = c, ns_warning_level = coverage_warning_level c,
            ns_counts = fst (fold count_state sts (zero_counts, 0)), ns_normalized_weights = w,
            ns_n_children = length ns,
            ns_n_applicable = snd (fold count_state sts (zero_counts, 0))\<rparr>"
    by (auto simp: coverage_summary_for_node_def res_bind_eq_Inr case_prod_beta Let_def)
  show "counters_ok (ns_counts s, ns_n_applicable s) (length ns)"
    using count_states_ok [OF zero_counts_ok, of sts] res_list_length [OF sts]
    by (simp add: s)
  show "ns_n_children s = length ns" and "compute_data_coverage ns = Inr (ns_data_coverage s)"
    and "ns_warning_level s = coverage_warning_level (ns_data_coverage s)"
    and "renormalize_weights ns = Inr (ns_normalized_weights s)"
    by (simp_all add: s c w)
qed

text \<open>
  the six counters of a node report partition its children, and the coverage it reports is
  a fraction.
\<close>

theorem summary_counts_partition:
  assumes "coverage_summary_for_node node ns = Inr s"
  shows "n_na (ns_counts s) + ns_n_applicable s = ns_n_children s \<and>
     n_unknown (ns_counts s) + n_inactive (ns_counts s) + n_known (ns_counts s) +
       n_optionality (ns_counts s) + n_low_materiality (ns_counts s) = ns_n_applicable s \<and>
     0 \<le> ns_data_coverage s \<and> ns_data_coverage s \<le> 1"
  using summary_fields [OF assms] compute_data_coverage_bounds
  by (auto simp: counters_ok_def)

section \<open>Warning bands\<close>

lemmas threshold_defs =
  low_materiality_threshold_def low_confidence_threshold_def no_strong_conclusion_threshold_def

lemma coverage_warning_level_mono: "a \<le> b \<Longrightarrow> coverage_warning_level a \<le> coverage_warning_level b"
  by (auto simp: coverage_warning_level_def less_eq_warn_level_def threshold_defs)

lemma coverage_ok_iff: "coverage_warning_level c = CoverageOk \<longleftrightarrow> 1 / 2 \<le> c"
  by (auto simp: coverage_warning_level_def threshold_defs)

section \<open>Confidence propagation\<close>

lemma propagate_confidence_bounds: "0 \<le> propagate_confidence b c q \<and> propagate_confidence b c q \<le> 1"
  by (auto simp: propagate_confidence_def Let_def intro!: mult_nonneg_nonneg mult_le_one)

lemma adjust_path_score_shrinks: "\<bar>adjust_path_score r c\<bar> \<le> \<bar>r\<bar>"
  by (auto simp: adjust_path_score_def abs_mult max_def min_def intro!: mult_left_le)

section \<open>No child is counted twice\<close>

lemma bucket_dput: "bucket (dput k b t) k' = (if k' = k then b else bucket t k')"
  by (simp add: bucket_def map_of_dput)

lemma bucket_Nil [simp]: "bucket [] k = []"
  by (simp add: bucket_def)

definition child_of :: "string \<Rightarrow> pydict \<Rightarrow> bool" where
  "child_of k n \<longleftrightarrow> dget n ''parent_node'' \<noteq> PNone \<and> py_str (dget n ''parent_node'') = k"

lemma bucket_add_to_parent:
  "bucket (add_to_parent n t) k = bucket t k @ (if child_of k n then [n] else [])"
  by (auto simp: add_to_parent_def child_of_def bucket_dput Let_def)

lemma bucket_parents: "bucket (fold add_to_parent ns t) k = bucket t k @ filter (child_of k) ns"
  by (induction ns arbitrary: t) (auto simp: bucket_add_to_parent)

lemma put_by_id_key:
  assumes "\<And>k n. map_of d k = Some n \<Longrightarrow> py_str (dget n ''node_id'') = k"
  shows "map_of (fold (\<lambda>n d. if truthy (dget n ''node_id'') then dput (py_str (dget n ''node_id'')) n d
      else d) ns d) k = Some n \<Longrightarrow> py_str (dget n ''node_id'') = k"
  using assms
proof (induction ns arbitrary: d)
  case Nil
  then show ?case by simp
next
  case (Cons m ms)
  let ?d = "if truthy (dget m ''node_id'') then dput (py_str (dget m ''node_id'')) m d else d"
  have d: "py_str (dget n ''node_id'') = k" if "map_of ?d k = Some n" for k n
    using that Cons.prems(2) [of k n] by (simp add: map_of_dput split: if_splits)
  show ?case
    by (rule Cons.IH [of ?d]) (use Cons.prems(1) in \<open>simp only: fold_simps\<close>, fact d)
qed

lemma nodes_by_id_key: "map_of (nodes_by_id ns) k = Some n \<Longrightarrow> py_str (dget n ''node_id'') = k"
  using put_by_id_key [of "[]"] by (simp add: nodes_by_id_def)

lemma add_explicit_distinct:
  assumes "distinct (node_ids b)" and "set (node_ids b) \<subseteq> set ids"
    and "\<forall>k n. map_of by_id k = Some n \<longrightarrow> py_str (dget n ''node_id'') = k"
  shows "distinct (node_ids (fst (add_explicit by_id cids (b, ids))))"
  using assms
proof (induction cids arbitrary: b ids)
  case Nil
  then show ?case by simp
next
  case (Cons cid cids)
  show ?case
  proof (cases "cid \<in> set ids \<or> map_of by_id cid = None")
    case True
    with Cons show ?thesis by auto
  next
    case False
    then obtain child where c: "map_of by_id cid = Some child" and new: "cid \<notin> set ids"
      by auto
    with Cons.prems(3) have id: "py_str (dget child ''node_id'') = cid" by blast
    have "distinct (node_ids (b @ [child]))" "set (node_ids (b @ [child])) \<subseteq> set (cid # ids)"
      using Cons.prems(1,2) new id by (auto simp: node_ids_def)
    from Cons.IH [OF this Cons.prems(3)] c new show ?thesis by simp
  qed
qed

lemma add_child_nodes_distinct:
  assumes "add_child_nodes (nodes_by_id ns) n t = Inr t'"
    and "\<forall>k. distinct (node_ids (bucket t k))"
  shows "\<forall>k. distinct (node_ids (bucket t' k))"
proof -
  have *: "\<forall>k n. map_of (nodes_by_id ns) k = Some n \<longrightarrow> py_str (dget n ''node_id'') = k"
    using nodes_by_id_key by blast
  show ?thesis
    using assms add_explicit_distinct [OF _ _ *]
    by (auto simp: add_child_nodes_def res_bind_eq_Inr bucket_dput Let_def split: if_splits)
qed

text \<open>
  when the nodes of an overlay carry distinct ids, no parent counts a child twice, although
  a child can reach it both through its own \<open>parent_node\<close> and through the parent's
  \<open>child_nodes\<close>.
\<close>

theorem children_counted_once:
  assumes "children_of nodes = Inr table" and "distinct (node_ids nodes)"
  shows "distinct (node_ids (bucket table k))"
proof -
  have "distinct (node_ids (bucket (fold add_to_parent nodes []) k))" for k
    using assms(2) by (simp add: bucket_parents node_ids_def distinct_map_filter)
  then have "\<forall>k. distinct (node_ids (bucket table k))"
    using res_fold_invariant
      [where P = "\<lambda>t. \<forall>k. distinct (node_ids (bucket t k))", OF assms(1) [unfolded children_of_def]]
      add_child_nodes_distinct by blast
  then show ?thesis by blast
qed

section \<open>The overlay report\<close>

lemma rollup_fold:
  assumes "\<forall>s \<in> set ss. 0 \<le> ns_data_coverage s \<and> ns_data_coverage s \<le> 1"
  shows "fold rollup_step ss (num, den) =
     (num + sum_list (map (\<lambda>s. ns_data_coverage s * real (ns_n_applicable s)) ss),
      den + sum_list (map (\<lambda>s. real (ns_n_applicable s)) ss))"
  using assms
  by (induction ss arbitrary: num den) (auto simp: rollup_step_def Let_def add.assoc)

lemma overall_coverage_bounds:
  assumes "\<forall>s \<in> set ss. 0 \<le> ns_data_coverage s \<and> ns_data_coverage s \<le> 1"
  shows "0 \<le> overall_coverage ss \<and> overall_coverage ss \<le> 1"
proof -
  let ?n = "sum_list (map (\<lambda>s. ns_data_coverage s * real (ns_n_applicable s)) ss)"
  let ?d = "sum_list (map (\<lambda>s. real (ns_n_applicable s)) ss)"
  have "0 \<le> ?n" using assms by (intro sum_list_nonneg_real) auto
  moreover have "?n \<le> ?d"
    using assms by (intro sum_list_mono_real) (auto intro: mult_left_le_one_le)
  ultimately show ?thesis
    by (auto simp: overall_coverage_def rollup_fold [OF assms] Let_def)
qed

lemma overlay_parts:
  assumes "coverage_summary_for_overlay overlay = Inr r"
  obtains nodes table where "overlay_nodes overlay = Inr nodes" "children_of nodes = Inr table"
    "res_list (summarise_parent (nodes_by_id nodes)) (filter (\<lambda>pk. snd pk \<noteq> []) table) =
       Inr (os_per_node r)"
    "os_data_coverage r = overall_coverage (os_per_node r)"
    "os_warning_level r = coverage_warning_level (overall_coverage (os_per_node r))"
    "os_totals r = fold (\<lambda>s c. add_counts c (ns_counts s)) (os_per_node r) zero_counts"
    "os_alerts r = alerts_of (os_per_node r)"
  using assms by (auto simp: coverage_summary_for_overlay_def res_bind_eq_Inr)

lemma overlay_reports:
  assumes "coverage_summary_for_overlay overlay = Inr r" and "s \<in> set (os_per_node r)"
  shows "\<exists>node ns. ns \<noteq> [] \<and> coverage_summary_for_node node ns = Inr s"
proof -
  from assms(1) obtain nodes table where
    *: "res_list (summarise_parent (nodes_by_id nodes)) (filter (\<lambda>pk. snd pk \<noteq> []) table) =
       Inr (os_per_node r)"
    by (rule overlay_parts)
  from res_list_in [OF this assms(2)] show ?thesis
    by (auto simp: summarise_parent_def case_prod_beta)
qed

text \<open>
  the overall figure of an overlay is a fraction, its alerts name exactly the parents whose
  coverage is below one half, and the counters of the totals partition the counted children.
\<close>

theorem overlay_report_consistent:
  assumes "coverage_summary_for_overlay overlay = Inr r"
  shows "0 \<le> os_data_coverage r \<and> os_data_coverage r \<le> 1 \<and>
     length (os_alerts r) = length (filter (\<lambda>s. ns_data_coverage s < 1 / 2) (os_per_node r)) \<and>
     n_na (os_totals r) + n_unknown (os_totals r) + n_inactive (os_totals r) +
       n_known (os_totals r) + n_optionality (os_totals r) + n_low_materiality (os_totals r) =
     sum_list (map ns_n_children (os_per_node r))"
proof -
  have reports: "\<exists>node ns. coverage_summary_for_node node ns = Inr s"
    if "s \<in> set (os_per_node r)" for s
    using overlay_reports [OF assms that] by blast
  then have bounds: "\<forall>s \<in> set (os_per_node r). 0 \<le> ns_data_coverage s \<and> ns_data_coverage s \<le> 1"
    using summary_counts_partition by blast
  have level: "ns_warning_level s \<noteq> CoverageOk \<longleftrightarrow> ns_data_coverage s < 1 / 2"
    if "s \<in> set (os_per_node r)" for s
    using reports [OF that] summary_fields(4) coverage_ok_iff by (metis not_le)
  have counts: "n_na (ns_counts s) + n_unknown (ns_counts s) + n_inactive (ns_counts s) +
       n_known (ns_counts s) + n_optionality (ns_counts s) + n_low_materiality (ns_counts s) =
     ns_n_children s" if "s \<in> set (os_per_node r)" for s
    using reports [OF that] summary_counts_partition by fastforce
  have total: "n_na t + n_unknown t + n_inactive t + n_known t + n_optionality t + n_low_materiality t =
       n_na c + n_unknown c + n_inactive c + n_known c + n_optionality c + n_low_materiality c +
       sum_list (map ns_n_children ss)"
    if "t = fold (\<lambda>s c. add_counts c (ns_counts s)) ss c" "set ss \<subseteq> set (os_per_node r)" for t c ss
    using that
  proof (induction ss arbitrary: c)
    case Nil
    then show ?case by simp
  next
    case (Cons s ss)
    then show ?case using counts [of s] by (simp add: add_counts_def)
  qed
  from assms obtain nodes table where
    "os_data_coverage r = overall_coverage (os_per_node r)"
    "os_totals r = fold (\<lambda>s c. add_counts c (ns_counts s)) (os_per_node r) zero_counts"
    "os_alerts r = alerts_of (os_per_node r)"
    by (rule overlay_parts)
  with overall_coverage_bounds [OF bounds] total [of _ "os_per_node r" zero_counts] level
  show ?thesis
    by (simp add: alerts_of_def zero_counts_def cong: filter_cong)
qed

section \<open>Instances\<close>

definition ex_known :: pydict where
  "ex_known = [(''dp_id'', PStr ''a''), (''node_id'', PStr ''n1''), (''parent_node'', PStr ''p''),
     (''data_status'', PStr ''Known''), (''active_weight'', PInt 2)]"

definition ex_unknown :: pydict where
  "ex_unknown = [(''dp_id'', PStr ''b''), (''node_id'', PStr ''n2''), (''parent_node'', PStr ''p''),
     (''data_status'', PStr ''Unknown'')]"

definition ex_na :: pydict where
  "ex_na = [(''dp_id'', PStr ''c''), (''node_id'', PStr ''n3''), (''parent_node'', PStr ''p''),
     (''data_status'', PStr '' n/a '')]"

definition ex_parent :: pydict where
  "ex_parent = [(''node_id'', PStr ''p''), (''data_status'', PStr ''Known''),
     (''child_nodes'', PList [PStr ''n1'', PStr ''n2''])]"

lemmas coverage_eval =
  ex_known_def ex_unknown_def ex_na_def ex_parent_def classify_missing_state_def
  normalise_status_def mstate_of_token_def policy_state_def demote_def below_materiality_def
  cov_node_weight_def state_of_def known_part_def applicable_part_def counts_as_known_def
  py_or_def str_eval Let_def

lemma ex_classified: "classified [ex_known, ex_unknown, ex_na]" "weights_ok [ex_known, ex_unknown, ex_na]"
  by (simp_all add: coverage_eval)

lemma ex_parts:
  "known_part ex_known = 2" "known_part ex_unknown = 0" "known_part ex_na = 0"
  "applicable_part ex_known = 2" "applicable_part ex_unknown = 1" "applicable_part ex_na = 0"
  by (simp_all add: coverage_eval)

theorem data_coverage_is_quotient_witness:
  "compute_data_coverage [ex_known, ex_unknown, ex_na] = Inr (2 / 3)"
  using data_coverage_is_quotient [OF ex_classified] by (simp add: ex_parts)

lemma ex_states: "state_of ex_known = StKnown" "state_of ex_unknown = StUnknown" "state_of ex_na = StNA"
  by (simp_all add: coverage_eval)

theorem not_applicable_children_drop_out_witness:
  "compute_data_coverage [ex_known, ex_unknown] = compute_data_coverage [ex_known, ex_unknown, ex_na]"
  using not_applicable_children_drop_out [OF ex_classified(1)] by (simp add: ex_states)

lemma ex_weights: "applicable_weights [ex_known, ex_unknown, ex_na] = Inr [(''a'', 2), (''b'', 1)]"
  by (simp add: applicable_weights_def weight_entry_def coverage_eval)

theorem renormalized_shares_witness:
  "\<exists>d. renormalize_weights [ex_known, ex_unknown, ex_na] = Inr d \<and> sum_list (map snd d) = 1 \<and>
     map fst d = [''a'', ''b''] \<and> map_of d ''a'' = Some (2 / 3)"
proof -
  from renormalized_shares [OF ex_weights] obtain d where
    "renormalize_weights [ex_known, ex_unknown, ex_na] = Inr d" "sum_list (map snd d) = 1"
    "map fst d = [''a'', ''b'']"
    "\<forall>k w. map_of [(''a'', 2), (''b'', 1)] k = Some w \<longleftrightarrow> map_of d k = Some (w / 3)"
    by auto
  moreover have "map_of d ''a'' = Some (2 / 3)"
    using calculation(4) by (metis map_of_Cons_code(2))
  ultimately show ?thesis by (intro exI [of _ d]) simp
qed

lemma ex_summary: "\<exists>s. coverage_summary_for_node ex_parent [ex_known, ex_unknown, ex_na] = Inr s"
  by (simp add: coverage_summary_for_node_def case_prod_beta
      data_coverage_is_quotient [OF ex_classified] renormalize_weights_def ex_weights)
    (simp add: coverage_eval)

theorem summary_counts_partition_witness:
  "\<exists>s. coverage_summary_for_node ex_parent [ex_known, ex_unknown, ex_na] = Inr s \<and>
     n_na (ns_counts s) + ns_n_applicable s = ns_n_children s"
  using ex_summary summary_counts_partition by blast

lemma ex_ids:
  "dget ex_parent ''node_id'' = PStr ''p''" "dget ex_known ''node_id'' = PStr ''n1''"
  "dget ex_unknown ''node_id'' = PStr ''n2''" "dget ex_na ''node_id'' = PStr ''n3''"
  by (simp_all add: ex_parent_def ex_known_def ex_unknown_def ex_na_def)

lemma ex_linked: "children_of [ex_parent, ex_known, ex_unknown, ex_na] =
    Inr [(''p'', [ex_known, ex_unknown, ex_na])]"
  by (simp add: children_of_def nodes_by_id_def add_to_parent_def add_child_nodes_def bucket_def
      node_ids_def coverage_eval)

theorem children_counted_once_witness:
  "distinct (node_ids (bucket [(''p'', [ex_known, ex_unknown, ex_na])] ''p''))"
  by (rule children_counted_once [OF ex_linked]) (simp add: node_ids_def coverage_eval)

definition ex_overlay :: pydict where
  "ex_overlay = [(''ts_code'', PStr ''600519.SH''),
     (''nodes'', PList (map PDict [ex_parent, ex_known, ex_unknown, ex_na]))]"

lemma ex_overlay_returns: "\<exists>r. coverage_summary_for_overlay ex_overlay = Inr r"
proof -
  have "overlay_nodes ex_overlay = Inr [ex_parent, ex_known, ex_unknown, ex_na]"
    by (simp add: overlay_nodes_def ex_overlay_def py_or_def)
  moreover have "summarise_parent (nodes_by_id [ex_parent, ex_known, ex_unknown, ex_na])
      (''p'', [ex_known, ex_unknown, ex_na]) =
      coverage_summary_for_node ex_parent [ex_known, ex_unknown, ex_na]"
    by (simp add: summarise_parent_def nodes_by_id_def ex_ids)
  ultimately show ?thesis
    using ex_summary by (auto simp: coverage_summary_for_overlay_def ex_linked)
qed

theorem overlay_report_consistent_witness:
  "\<exists>r. coverage_summary_for_overlay ex_overlay = Inr r \<and> 0 \<le> os_data_coverage r \<and>
     os_data_coverage r \<le> 1"
  using ex_overlay_returns overlay_report_consistent by blast

end
