(* ===== verification/Governance.thy ===== *)
theory Governance
  imports Prelude
begin

text \<open>
  \<open>mvp20/field_governance.py\<close>: the governance record of a data point, the registry that
  copies its fields into overlay nodes, the validation of a registry against the
  specification's ids, the parser of the coverage audit, and the strict loader. Error and
  warning messages are the constructors of \<open>gov_message\<close>, one per format string, with the
  values the message prints.
\<close>

section \<open>Vocabularies\<close>

definition spec_total_dp_ids :: nat where
  "spec_total_dp_ids = 250"

definition field_roles :: "string list" where
  "field_roles = [''identity'', ''structure'', ''raw_input'', ''derived_metric'',
     ''score_component'', ''multiplier'', ''discount'', ''gate'', ''aggregation'', ''confidence'',
     ''missing_control'', ''evidence'', ''display'', ''audit'']"

definition non_scoring_roles :: "string list" where
  "non_scoring_roles = [''identity'', ''structure'', ''raw_input'', ''missing_control'',
     ''evidence'', ''display'', ''audit'']"

definition score_targets :: "string list" where
  "score_targets = [''none'', ''node_score'', ''base_score'', ''fundamental_score'',
     ''expectation_gap'', ''valuation_rerating'', ''capital_sentiment'', ''funding_score'',
     ''funding_multiplier'', ''theme_multiplier'', ''sentiment_score'', ''sentiment_multiplier'',
     ''policy_sensitivity_multiplier'', ''market_regime_multiplier'', ''reflexivity_multiplier'',
     ''liquidity_multiplier'', ''options_momentum_multiplier'', ''gamma_multiplier'',
     ''valuation_sensitivity_multiplier'', ''rate_sensitivity_multiplier'',
     ''narrative_sensitivity_multiplier'', ''multiplier_stack'', ''confidence_multiplier'',
     ''risk_discount'', ''priced_in_discount'', ''uncertainty_discount'', ''optionality_score'',
     ''event_impulse_score'', ''time_decay'', ''option_priced_in'', ''volatility_risk'',
     ''valuation_pressure'', ''overheat_risk'', ''parent_score'', ''audit_only'',
     ''display_only'']"

definition fallback_policies :: "string list" where
  "fallback_policies = [''none'', ''not_applicable_remove'', ''unknown_zero_score'', ''proxy_only'',
     ''proxy_then_neutral'', ''neutral_with_penalty'', ''inactive_zero_weight'',
     ''optionality_track'']"

definition missing_policies :: "string list" where
  "missing_policies = [''known'', ''not_applicable_remove'', ''unknown_reduce_confidence'',
     ''inactive_zero_weight'', ''low_materiality_fold'', ''optionality_track'']"

definition calculation_types :: "string list" where
  "calculation_types = [''none'', ''raw_value'', ''additive'', ''subtractive'',
     ''multiplicative_factor'', ''ratio_metric'', ''weighted_contribution'', ''risk_factor'',
     ''confidence_multiplier'', ''bottleneck_min'', ''and_gate'', ''or_gate'', ''threshold'',
     ''saturation'', ''scenario_weighted'', ''time_decay'', ''bayesian_update'',
     ''dedup_correlation'', ''reflexivity'', ''dcf'']"

definition aggregation_policies :: "string list" where
  "aggregation_policies = [''none'', ''add_uncertainty_penalty'', ''renormalize_siblings'',
     ''weighted_average'', ''weighted_sum'', ''multiply_chain'', ''subtract_risk'',
     ''ratio_derive'', ''multiplicative_factor'', ''confidence_adjusted'',
     ''min_capacity_constraint'', ''and_all_required'', ''or_max_trigger'',
     ''threshold_trigger'', ''saturation_curve'', ''scenario_probability_weighted'',
     ''time_decay_half_life'', ''bayesian_confidence_update'',
     ''deduplicate_correlated_inputs'', ''feedback_loop_limited'', ''discounted_cash_flow'',
     ''no_aggregation'']"

section \<open>Governance records\<close>

record dp_rule =
  r_dp_id :: string
  r_field_role :: string
  r_score_target :: string
  r_calculation_type :: string
  r_aggregation_policy :: string
  r_missing_policy :: string
  r_fallback_policy :: string
  r_proxy_candidates :: "string list"
  r_min_required_coverage :: real
  r_neutral_value :: real
  r_confidence_penalty :: real
  r_participates :: bool
  r_derived_target :: string
  r_source_status :: "string option"

text \<open>\<open>{**defaults, **mapping}\<close> and \<open>str(m.get(k) or d)\<close>.\<close>

definition dict_merge :: "pydict \<Rightarrow> pydict \<Rightarrow> pydict" where
  "dict_merge a b = fold (\<lambda>(k, v). dput k v) b a"

definition str_or :: "pydict \<Rightarrow> string \<Rightarrow> string \<Rightarrow> string" where
  "str_or m k d = py_str (py_or (dget m k) (PStr d))"

definition gov_float :: "pyval \<Rightarrow> real \<Rightarrow> real" where
  "gov_float v d = try_float v d"

definition rule_from_mapping :: "string \<Rightarrow> pydict \<Rightarrow> pydict \<Rightarrow> dp_rule res" where
  "rule_from_mapping dp_id mapping defaults =
     (let m = dict_merge defaults mapping;
          role = str_or m ''field_role'' ''raw_input'';
          target = str_or m ''score_target'' ''none'';
          participates =
            (if dhas m ''participates_in_score'' then truthy (dget m ''participates_in_score'')
             else role \<notin> set non_scoring_roles)
      in res_bind (py_iter (py_or (dget m ''proxy_candidates'') (PList []))) (\<lambda>proxies.
        Inr \<lparr>r_dp_id = dp_id, r_field_role = role, r_score_target = target,
             r_calculation_type = str_or m ''calculation_type'' ''raw_value'',
             r_aggregation_policy = str_or m ''aggregation_policy'' ''none'',
             r_missing_policy = str_or m ''missing_policy'' ''unknown_reduce_confidence'',
             r_fallback_policy = str_or m ''fallback_policy'' ''unknown_zero_score'',
             r_proxy_candidates = map py_str proxies,
             r_min_required_coverage = gov_float (dget m ''min_required_coverage'') (1 / 2),
             r_neutral_value = gov_float (dget m ''neutral_value'') 0,
             r_confidence_penalty = gov_float (dget m ''confidence_penalty'') 1,
             r_participates = participates,
             r_derived_target = py_str (py_or (dget m ''derived_target'') (PStr target)),
             r_source_status =
               (if dget m ''source_status'' = PNone then None
                else Some (py_str (dget m ''source_status'')))\<rparr>))"

definition opt_str :: "string option \<Rightarrow> pyval" where
  "opt_str s = (case s of None \<Rightarrow> PNone | Some t \<Rightarrow> PStr t)"

definition as_overlay_fields :: "dp_rule \<Rightarrow> pydict" where
  "as_overlay_fields r =
     [(''field_role'', PStr (r_field_role r)),
      (''score_target'', PStr (r_score_target r)),
      (''derived_target'', PStr (r_derived_target r)),
      (''participates_in_score'', PBool (r_participates r)),
      (''governance_calculation_type'', PStr (r_calculation_type r)),
      (''governance_aggregation_policy'', PStr (r_aggregation_policy r)),
      (''governance_missing_policy'', PStr (r_missing_policy r)),
      (''fallback_policy'', PStr (r_fallback_policy r)),
      (''proxy_candidates'', PList (map PStr (r_proxy_candidates r))),
      (''min_required_coverage'', PFloat (r_min_required_coverage r)),
      (''neutral_value'', PFloat (r_neutral_value r)),
      (''confidence_penalty'', PFloat (r_confidence_penalty r)),
      (''governance_source_status'', opt_str (r_source_status r))]"

section \<open>The registry\<close>

record gov_registry =
  g_rules :: "(string \<times> dp_rule) list"
  g_schema_fields :: "(string \<times> pydict) list"
  g_schema_version :: pyval
  g_source :: pyval

definition reg_get :: "gov_registry \<Rightarrow> pyval \<Rightarrow> dp_rule option" where
  "reg_get reg dp_id = (if \<not> truthy dp_id then None else map_of (g_rules reg) (py_str dp_id))"

definition fill_field :: "bool \<Rightarrow> string \<times> pyval \<Rightarrow> pydict \<Rightarrow> pydict" where
  "fill_field overwrite kv out =
     (if overwrite \<or> \<not> dhas out (fst kv) \<or> dget out (fst kv) = PNone
      then dput (fst kv) (snd kv) out else out)"

definition fill_falsy :: "bool \<Rightarrow> string \<Rightarrow> string \<Rightarrow> pydict \<Rightarrow> pydict" where
  "fill_falsy overwrite k v out =
     (if overwrite \<or> \<not> truthy (dget out k) then dput k (PStr v) out else out)"

definition apply_to_node :: "gov_registry \<Rightarrow> bool \<Rightarrow> pydict \<Rightarrow> pydict" where
  "apply_to_node reg overwrite node =
     (case reg_get reg (dget node ''dp_id'') of
        None \<Rightarrow> node
      | Some rule \<Rightarrow>
          let out0 = fold (fill_field overwrite) (as_overlay_fields rule) node;
              out1 = fill_falsy overwrite ''calculation_type'' (r_calculation_type rule) out0;
              out2 = fill_falsy overwrite ''aggregation_policy'' (r_aggregation_policy rule) out1
          in fill_falsy overwrite ''missing_policy'' (r_missing_policy rule) out2)"

definition apply_to_overlay :: "gov_registry \<Rightarrow> bool \<Rightarrow> pydict \<Rightarrow> pydict res" where
  "apply_to_overlay reg overwrite payload =
     res_bind (py_iter (py_or (dget payload ''nodes'') (PList []))) (\<lambda>ns.
       let nodes = map (\<lambda>n. case n of PDict d \<Rightarrow> PDict (apply_to_node reg overwrite d) | v \<Rightarrow> v) ns
       in Inr (dput ''field_governance_source'' (g_source reg)
                (dput ''field_governance_version'' (g_schema_version reg)
                  (dput ''nodes'' (PList nodes) payload))))"

section \<open>Validation\<close>

datatype gov_message =
    WrongTotal nat nat
  | MissingSpecIds nat "string list"
  | ExtraIds nat "string list"
  | InvalidFieldRole string string
  | InvalidScoreTarget string string
  | InvalidDerivedTarget string string
  | InvalidFallbackPolicy string string
  | InvalidMissingPolicy string string
  | InvalidCalculationType string string
  | InvalidAggregationPolicy string string
  | CoverageOutOfRange string
  | PenaltyOutOfRange string
  | RawInputScores string
  | NonScoringParticipates string string

definition unless :: "bool \<Rightarrow> 'a \<Rightarrow> 'a list" where
  "unless ok e = (if ok then [] else [e])"

definition rule_errors :: "string \<times> dp_rule \<Rightarrow> gov_message list" where
  "rule_errors kr =
     (let (dp_id, r) = kr in
      unless (r_field_role r \<in> set field_roles) (InvalidFieldRole dp_id (r_field_role r)) @
      unless (r_score_target r \<in> set score_targets) (InvalidScoreTarget dp_id (r_score_target r)) @
      unless (r_derived_target r \<in> set score_targets)
        (InvalidDerivedTarget dp_id (r_derived_target r)) @
      unless (r_fallback_policy r \<in> set fallback_policies)
        (InvalidFallbackPolicy dp_id (r_fallback_policy r)) @
      unless (r_missing_policy r \<in> set missing_policies)
        (InvalidMissingPolicy dp_id (r_missing_policy r)) @
      unless (r_calculation_type r \<in> set calculation_types)
        (InvalidCalculationType dp_id (r_calculation_type r)) @
      unless (r_aggregation_policy r \<in> set aggregation_policies)
        (InvalidAggregationPolicy dp_id (r_aggregation_policy r)) @
      unless (0 \<le> r_min_required_coverage r \<and> r_min_required_coverage r \<le> 1)
        (CoverageOutOfRange dp_id) @
      unless (0 \<le> r_confidence_penalty r \<and> r_confidence_penalty r \<le> 1)
        (PenaltyOutOfRange dp_id) @
      unless (\<not> (r_field_role r = ''raw_input'' \<and>
               (r_participates r \<or> r_score_target r \<notin> {''none'', ''audit_only''})))
        (RawInputScores dp_id))"

definition rule_warnings :: "string \<times> dp_rule \<Rightarrow> gov_message list" where
  "rule_warnings kr =
     (let (dp_id, r) = kr in
      unless (\<not> (r_field_role r \<in> set non_scoring_roles \<and> r_participates r))
        (NonScoringParticipates dp_id (r_field_role r)))"

text \<open>\<open>sorted(a - b)\<close> over strings, and the first five of them that a message prints.\<close>

definition sorted_diff :: "string list \<Rightarrow> string list \<Rightarrow> string list" where
  "sorted_diff a b = sort (remdups (filter (\<lambda>i. i \<notin> set b) a))"

definition id_errors :: "(string \<times> dp_rule) list \<Rightarrow> string list option \<Rightarrow> gov_message list" where
  "id_errors rules spec =
     (case spec of
        None \<Rightarrow> []
      | Some ids \<Rightarrow>
          let missing = sorted_diff ids (map fst rules);
              extra = sorted_diff (map fst rules) ids
          in unless (missing = []) (MissingSpecIds (length missing) (take 5 missing)) @
             unless (extra = []) (ExtraIds (length extra) (take 5 extra)))"

definition validate_against_spec :: "gov_registry \<Rightarrow> string list option \<Rightarrow> nat \<Rightarrow>
    gov_message list \<times> gov_message list" where
  "validate_against_spec reg spec expected_total =
     (let rules = sort_key fst (g_rules reg) in
      (unless (length (g_rules reg) = expected_total)
         (WrongTotal (length (g_rules reg)) expected_total) @
       id_errors (g_rules reg) spec @ concat (map rule_errors rules),
       concat (map rule_warnings rules)))"

section \<open>The coverage audit\<close>

text \<open>The regular expression of a table row whose first cell is a back-quoted id.\<close>

definition match_row :: "string \<Rightarrow> string option" where
  "match_row line =
     (case line of
        [] \<Rightarrow> None
      | c # r \<Rightarrow>
          if c \<noteq> CHR ''|'' then None
          else (case dropWhile is_blank r of
                  [] \<Rightarrow> None
                | q # r1 \<Rightarrow>
                    if q \<noteq> CHR ''`'' then None
                    else let ident = takeWhile (\<lambda>x. x \<noteq> CHR ''`'') r1;
                             r2 = dropWhile (\<lambda>x. x \<noteq> CHR ''`'') r1
                         in if ident = [] \<or> r2 = [] then None
                            else (case dropWhile is_blank (tl r2) of
                                    [] \<Rightarrow> None
                                  | b # _ \<Rightarrow> if b = CHR ''|'' then Some ident else None)))"

fun parse_spec_lines :: "bool \<Rightarrow> string list \<Rightarrow> string list" where
  "parse_spec_lines in_section [] = []"
| "parse_spec_lines in_section (line # ls) =
     (if py_startswith line ''## 7.'' then parse_spec_lines True ls
      else if in_section \<and> py_startswith line ''## '' then []
      else if \<not> in_section then parse_spec_lines in_section ls
      else (case match_row line of
              None \<Rightarrow> parse_spec_lines in_section ls
            | Some i \<Rightarrow> List.insert i (parse_spec_lines in_section ls)))"

definition parse_spec_dp_ids :: "string list \<Rightarrow> string list" where
  "parse_spec_dp_ids ls = parse_spec_lines False ls"

section \<open>Loading\<close>

definition load_rules :: "pydict \<Rightarrow> pydict \<Rightarrow> (string \<times> dp_rule) list res" where
  "load_rules raw_rules defaults =
     res_fold (\<lambda>(dp_id, mapping) rules.
        case mapping of
          PDict m \<Rightarrow> res_map (\<lambda>r. dput dp_id r rules) (rule_from_mapping dp_id m defaults)
        | _ \<Rightarrow> Inr rules) raw_rules []"

text \<open>
  \<open>data\<close> and \<open>schema\<close> are the parsed YAML files, \<open>source_path\<close> the path of the first,
  \<open>audit\<close> the lines of the coverage audit when the file exists. A \<open>data_points\<close> or
  \<open>defaults\<close> entry that is not a mapping raises.
\<close>

definition schema_field_table :: "pydict \<Rightarrow> (string \<times> pydict) list res" where
  "schema_field_table schema =
     res_bind (as_mapping (py_or (dget schema ''schema_fields'') (PDict []))) (\<lambda>fs.
       res_list (\<lambda>(k, v). res_map (Pair k) (py_dict v)) fs)"

definition load_field_governance :: "pydict \<Rightarrow> pydict \<Rightarrow> string \<Rightarrow> string list option \<Rightarrow> bool \<Rightarrow>
    gov_registry res" where
  "load_field_governance data schema source_path audit strict =
     res_bind (as_mapping (py_or (dget data ''defaults'') (PDict []))) (\<lambda>defaults.
     res_bind (as_mapping (py_or (dget data ''data_points'') (PDict []))) (\<lambda>raw_rules.
     res_bind (load_rules raw_rules defaults) (\<lambda>rules.
     res_bind (schema_field_table schema) (\<lambda>fields.
       let reg = \<lparr>g_rules = rules, g_schema_fields = fields,
                  g_schema_version = dget data ''schema_version'',
                  g_source = PStr (py_str (py_or (dget data ''source'') (PStr source_path)))\<rparr>;
           errors = fst (validate_against_spec reg (map_option parse_spec_dp_ids audit)
                           spec_total_dp_ids)
       in if strict \<and> errors \<noteq> [] then Inl ValueError else Inr reg))))"

section \<open>Enriching a node\<close>

lemma dget_fill_field:
  "dget (fill_field ow kv out) k =
     (if k = fst kv \<and> (ow \<or> dget out k = PNone) then snd kv else dget out k)"
  by (auto simp: fill_field_def dget_dput dget_def dhas_def split: option.splits)

lemma dget_fill_falsy:
  "dget (fill_falsy ow k' v out) k =
     (if k = k' \<and> (ow \<or> \<not> truthy (dget out k)) then PStr v else dget out k)"
  by (auto simp: fill_falsy_def dget_dput)

lemma dget_fill_fields:
  assumes "distinct (map fst kvs)"
  shows "dget (fold (fill_field False) kvs out) k =
     (if dget out k = PNone then dget kvs k else dget out k)"
  using assms
proof (induction kvs arbitrary: out)
  case Nil
  then show ?case by simp
next
  case (Cons kv kvs)
  obtain a v where kv: "kv = (a, v)" by fastforce
  have "dget kvs a = PNone" using Cons.prems by (simp add: kv dget_absent)
  then show ?case
    using Cons by (auto simp: kv dget_fill_field)
qed

lemma overlay_fields_distinct: "distinct (map fst (as_overlay_fields r))"
  by (simp add: as_overlay_fields_def)

text \<open>What every key of an enriched node holds, when existing values are kept.\<close>

definition policy_default :: "dp_rule \<Rightarrow> string \<Rightarrow> pyval \<Rightarrow> pyval" where
  "policy_default r k v =
     (if truthy v then v
      else if k = ''calculation_type'' then PStr (r_calculation_type r)
      else if k = ''aggregation_policy'' then PStr (r_aggregation_policy r)
      else if k = ''missing_policy'' then PStr (r_missing_policy r)
      else v)"

lemma policy_default_truthy: "truthy v \<Longrightarrow> policy_default r k v = v"
  by (simp add: policy_default_def)

lemma policy_default_other:
  "k \<notin> {''calculation_type'', ''aggregation_policy'', ''missing_policy''} \<Longrightarrow> policy_default r k v = v"
  by (simp add: policy_default_def)

lemma policy_default_idem: "policy_default r k (policy_default r k v) = policy_default r k v"
  by (simp add: policy_default_def)

lemma policy_default_PNone: "policy_default r k v = PNone \<Longrightarrow> v = PNone"
  by (auto simp: policy_default_def split: if_splits)

lemma dget_apply_to_node:
  assumes "reg_get reg (dget node ''dp_id'') = Some r"
  shows "dget (apply_to_node reg False node) k =
     policy_default r k
       (if dget node k = PNone then dget (as_overlay_fields r) k else dget node k)"
proof -
  let ?out = "fold (fill_field False) (as_overlay_fields r) node"
  let ?v = "if dget node k = PNone then dget (as_overlay_fields r) k else dget node k"
  have "dget (apply_to_node reg False node) k =
      dget (fill_falsy False ''missing_policy'' (r_missing_policy r)
        (fill_falsy False ''aggregation_policy'' (r_aggregation_policy r)
          (fill_falsy False ''calculation_type'' (r_calculation_type r) ?out))) k"
    by (simp add: apply_to_node_def assms Let_def)
  also have "\<dots> = policy_default r k (dget ?out k)"
    by (cases "k = ''missing_policy''"; cases "k = ''aggregation_policy''";
        cases "k = ''calculation_type''") (simp_all add: dget_fill_falsy policy_default_def)
  also have "dget ?out k = ?v"
    by (simp add: dget_fill_fields overlay_fields_distinct)
  finally show ?thesis .
qed

lemma overlay_fields_dp_id: "dget (as_overlay_fields r) ''dp_id'' = PNone"
  by (simp add: as_overlay_fields_def)

lemma reg_get_truthy: "reg_get reg v = Some r \<Longrightarrow> truthy v"
  by (auto simp: reg_get_def split: if_splits)

lemma apply_keeps_dp_id: "dget (apply_to_node reg False node) ''dp_id'' = dget node ''dp_id''"
proof (cases "reg_get reg (dget node ''dp_id'')")
  case None
  then show ?thesis by (simp add: apply_to_node_def)
next
  case (Some r)
  from dget_apply_to_node [OF Some, of "''dp_id''"] reg_get_truthy [OF Some]
  show ?thesis by (auto simp: policy_default_truthy)
qed

text \<open>
  Enriching a node keeps every value the author wrote (a truthy value of any key, and any
  value but null of a key other than the three policy keys), and enriching it again changes
  nothing that can be read.
\<close>

theorem apply_to_node_preserves:
  shows "(truthy (dget node k) \<longrightarrow> dget (apply_to_node reg False node) k = dget node k) \<and>
     (dget node k \<noteq> PNone \<and>
        k \<notin> {''calculation_type'', ''aggregation_policy'', ''missing_policy''} \<longrightarrow>
      dget (apply_to_node reg False node) k = dget node k) \<and>
     dget (apply_to_node reg False (apply_to_node reg False node)) k =
       dget (apply_to_node reg False node) k"
proof (cases "reg_get reg (dget node ''dp_id'')")
  case None
  then show ?thesis by (simp add: apply_to_node_def)
next
  case (Some r)
  note 1 = dget_apply_to_node [OF Some, of k]
  have "reg_get reg (dget (apply_to_node reg False node) ''dp_id'') = Some r"
    by (simp add: apply_keeps_dp_id Some)
  note 2 = dget_apply_to_node [OF this, of k]
  show ?thesis
  proof (cases "dget node k = PNone")
    case True
    then show ?thesis using 1 2
      by (auto simp: policy_default_idem dest: policy_default_PNone)
  next
    case False
    with 1 2 show ?thesis
      by (auto simp: policy_default_truthy policy_default_other policy_default_idem
          dest: policy_default_PNone)
  qed
qed

section \<open>What a valid registry guarantees\<close>

lemma unless_Nil [simp]: "unless ok e = [] \<longleftrightarrow> ok"
  by (simp add: unless_def)

definition rule_ok :: "dp_rule \<Rightarrow> bool" where
  "rule_ok r \<longleftrightarrow>
     r_field_role r \<in> set field_roles \<and> r_score_target r \<in> set score_targets \<and>
     r_derived_target r \<in> set score_targets \<and> r_fallback_policy r \<in> set fallback_policies \<and>
     r_missing_policy r \<in> set missing_policies \<and> r_calculation_type r \<in> set calculation_types \<and>
     r_aggregation_policy r \<in> set aggregation_policies \<and>
     0 \<le> r_min_required_coverage r \<and> r_min_required_coverage r \<le> 1 \<and>
     0 \<le> r_confidence_penalty r \<and> r_confidence_penalty r \<le> 1 \<and>
     (r_field_role r = ''raw_input'' \<longrightarrow>
        \<not> r_participates r \<and> r_score_target r \<in> {''none'', ''audit_only''})"

lemma rule_errors_Nil: "rule_errors kr = [] \<longleftrightarrow> rule_ok (snd kr)"
  by (cases kr) (auto simp: rule_errors_def rule_ok_def)

lemma sorted_diff_Nil: "sorted_diff a b = [] \<longleftrightarrow> set a \<subseteq> set b"
proof -
  have "sort xs = [] \<longleftrightarrow> xs = []" for xs :: "string list"
    by (metis set_empty set_sort)
  then show ?thesis by (auto simp: sorted_diff_def filter_empty_conv)
qed

lemma id_errors_Nil:
  "id_errors rules spec = [] \<longleftrightarrow> (case spec of None \<Rightarrow> True | Some ids \<Rightarrow> set ids = fst ` set rules)"
  by (auto simp: id_errors_def sorted_diff_Nil Let_def split: option.splits)

text \<open>
  C1: a registry passes the validation exactly when it has the expected number of rules, its
  ids are those of the specification, and every rule is well formed.
\<close>

theorem validation_complete:
  "fst (validate_against_spec reg spec n) = [] \<longleftrightarrow>
     length (g_rules reg) = n \<and>
     (case spec of None \<Rightarrow> True | Some ids \<Rightarrow> set ids = fst ` set (g_rules reg)) \<and>
     (\<forall>kr \<in> set (g_rules reg). rule_ok (snd kr))"
  by (auto simp: validate_against_spec_def Let_def id_errors_Nil rule_errors_Nil
      split: option.splits)

lemma load_rules_wf:
  assumes "load_rules raw defaults = Inr rules"
  shows "dict_wf rules \<and> (\<forall>(k, r) \<in> set rules. r_dp_id r = k)"
proof -
  let ?P = "\<lambda>rules. dict_wf rules \<and> (\<forall>k r. map_of rules k = Some r \<longrightarrow> r_dp_id r = k)"
  have "?P rules"
  proof (rule res_fold_invariant [where P = ?P, OF assms [unfolded load_rules_def]])
    show "?P []" by simp
  next
    fix x t t'
    assume P: "?P t" and step: "(\<lambda>(dp_id, mapping) rules. case mapping of
          PDict m \<Rightarrow> res_map (\<lambda>r. dput dp_id r rules) (rule_from_mapping dp_id m defaults)
        | _ \<Rightarrow> Inr rules) x t = Inr t'"
    obtain dp_id mapping where x: "x = (dp_id, mapping)" by fastforce
    show "?P t'"
    proof (cases mapping)
      case (PDict m)
      with step x obtain r where r: "rule_from_mapping dp_id m defaults = Inr r"
        and t': "t' = dput dp_id r t"
        by (auto simp: res_map_eq_Inr)
      from r have "r_dp_id r = dp_id"
        by (auto simp: rule_from_mapping_def Let_def res_bind_eq_Inr)
      with P t' show ?thesis by (auto simp: map_of_dput)
    qed (use P step x in auto)
  qed
  then show ?thesis
    by (auto simp: dict_wf_def)
qed

text \<open>
  a registry that the strict loader accepts holds exactly one rule for each id of the
  coverage audit, every rule is well formed, and no raw input scores directly.
\<close>

theorem strict_load_is_valid:
  assumes "load_field_governance data schema path (Some ls) True = Inr reg"
  shows "distinct (map fst (g_rules reg)) \<and>
     fst ` set (g_rules reg) = set (parse_spec_dp_ids ls) \<and>
     length (g_rules reg) = 250 \<and>
     (\<forall>(k, r) \<in> set (g_rules reg). r_dp_id r = k \<and> rule_ok r)"
proof -
  from assms obtain raw defaults rules where
    rules: "load_rules raw defaults = Inr rules" and reg: "g_rules reg = rules"
    and ok: "fst (validate_against_spec reg (Some (parse_spec_dp_ids ls)) spec_total_dp_ids) = []"
    by (auto simp: load_field_governance_def res_bind_eq_Inr Let_def split: if_splits)
  from load_rules_wf [OF rules] ok reg show ?thesis
    by (auto simp: validation_complete spec_total_dp_ids_def dict_wf_def)
qed

section \<open>Reading the audit\<close>

lemma parse_spec_outside:
  "\<forall>l \<in> set ls. \<not> py_startswith l ''## 7.'' \<Longrightarrow> parse_spec_lines False ls = []"
  by (induction ls) auto

lemma parse_spec_skip:
  "\<forall>l \<in> set pre. \<not> py_startswith l ''## 7.'' \<Longrightarrow>
   parse_spec_lines False (pre @ ls) = parse_spec_lines False ls"
  by (induction pre) auto

lemma parse_spec_section:
  "\<forall>l \<in> set body. \<not> py_startswith l ''## '' \<Longrightarrow> py_startswith stop ''## '' \<Longrightarrow>
   \<not> py_startswith stop ''## 7.'' \<Longrightarrow>
   set (parse_spec_lines True (body @ stop # rest)) = {i. \<exists>l \<in> set body. match_row l = Some i}"
proof (induction body)
  case Nil
  then show ?case by simp
next
  case (Cons l body)
  have "\<not> py_startswith l ''## 7.''"
    using Cons.prems(1) prefix_order.trans [of "''## ''" "''## 7.''" l]
    by (auto simp: py_startswith_def)
  with Cons show ?case by (auto split: option.splits)
qed

text \<open>
  the parser of the audit returns the back-quoted ids of the rows of section 7, whatever
  stands before the section and after it.
\<close>

theorem parse_spec_reads_section_7:
  assumes "\<forall>l \<in> set pre. \<not> py_startswith l ''## 7.''" and "py_startswith head ''## 7.''"
    and "\<forall>l \<in> set body. \<not> py_startswith l ''## ''"
    and "py_startswith stop ''## ''" and "\<not> py_startswith stop ''## 7.''"
  shows "set (parse_spec_dp_ids (pre @ head # body @ stop # rest)) =
     {i. \<exists>l \<in> set body. match_row l = Some i}"
  using assms by (simp add: parse_spec_dp_ids_def parse_spec_skip parse_spec_section)

section \<open>Instances\<close>

definition ex_rule :: "string \<Rightarrow> dp_rule" where
  "ex_rule k = \<lparr>r_dp_id = k, r_field_role = ''raw_input'', r_score_target = ''none'',
     r_calculation_type = ''raw_value'', r_aggregation_policy = ''none'',
     r_missing_policy = ''unknown_reduce_confidence'', r_fallback_policy = ''unknown_zero_score'',
     r_proxy_candidates = [], r_min_required_coverage = 1 / 2, r_neutral_value = 0,
     r_confidence_penalty = 1, r_participates = False, r_derived_target = ''none'',
     r_source_status = None\<rparr>"

lemma ex_rule_from_mapping: "rule_from_mapping k [] [] = Inr (ex_rule k)"
  by (simp add: rule_from_mapping_def dict_merge_def str_or_def py_or_def gov_float_def ex_rule_def
      non_scoring_roles_def Let_def)

lemma ex_rule_ok: "rule_ok (ex_rule k)"
  by (simp add: rule_ok_def ex_rule_def field_roles_def score_targets_def fallback_policies_def
      missing_policies_def calculation_types_def aggregation_policies_def)

definition ex_id :: "nat \<Rightarrow> string" where
  "ex_id n = replicate (Suc n) (CHR ''a'')"

definition ex_ids :: "string list" where
  "ex_ids = map ex_id [0..<250]"

definition ex_row :: "string \<Rightarrow> string" where
  "ex_row i = ''| `'' @ i @ ''` |''"

lemma ex_ids_distinct: "distinct ex_ids"
  by (auto simp: ex_ids_def distinct_map ex_id_def intro!: inj_onI dest: arg_cong [where f = length])

lemma ex_row_matches: "match_row (ex_row (ex_id n)) = Some (ex_id n)"
proof -
  have 1: "takeWhile (\<lambda>x. x \<noteq> CHR ''`'') (ex_id n @ ''` |'') = ex_id n"
    by (simp add: ex_id_def takeWhile_append)
  have 2: "dropWhile (\<lambda>x. x \<noteq> CHR ''`'') (ex_id n @ ''` |'') = ''` |''"
    by (simp add: ex_id_def dropWhile_append)
  have "ex_id n \<noteq> []" by (simp add: ex_id_def)
  with 1 2 show ?thesis
    by (simp add: match_row_def ex_row_def is_blank_def char_code_def Let_def)
qed

definition ex_audit :: "string list" where
  "ex_audit = ''## 7. ids'' # map (ex_row \<circ> ex_id) [0..<250] @ [''## 8.'']"

lemma ex_audit_ids: "set (parse_spec_dp_ids ex_audit) = set ex_ids"
proof -
  have "set (parse_spec_lines True (map (ex_row \<circ> ex_id) [0..<250] @ ''## 8.'' # [])) =
      {i. \<exists>l \<in> set (map (ex_row \<circ> ex_id) [0..<250]). match_row l = Some i}"
    by (rule parse_spec_section) (auto simp: py_startswith_def ex_row_def)
  then show ?thesis
    by (auto simp: parse_spec_dp_ids_def ex_audit_def py_startswith_def ex_row_matches ex_ids_def)
qed

lemma ex_load_rules:
  "distinct ids \<Longrightarrow> set ids \<inter> fst ` set d = {} \<Longrightarrow>
   res_fold (\<lambda>(dp_id, mapping) rules.
        case mapping of
          PDict m \<Rightarrow> res_map (\<lambda>r. dput dp_id r rules) (rule_from_mapping dp_id m [])
        | _ \<Rightarrow> Inr rules) (map (\<lambda>k. (k, PDict [])) ids) d = Inr (d @ map (\<lambda>k. (k, ex_rule k)) ids)"
proof (induction ids arbitrary: d)
  case Nil
  then show ?case by simp
next
  case (Cons i ids)
  then have "dput i (ex_rule i) d = d @ [(i, ex_rule i)]"
    by (intro dput_fresh) auto
  with Cons show ?case by (simp add: ex_rule_from_mapping)
qed

definition ex_data :: pydict where
  "ex_data = [(''data_points'', PDict (map (\<lambda>k. (k, PDict [])) ex_ids))]"

lemma ex_load: "\<exists>reg. load_field_governance ex_data [] ''roles.yaml'' (Some ex_audit) True = Inr reg"
proof -
  have "load_rules (map (\<lambda>k. (k, PDict [])) ex_ids) [] = Inr (map (\<lambda>k. (k, ex_rule k)) ex_ids)"
    using ex_load_rules [OF ex_ids_distinct, of "[]"] by (simp add: load_rules_def)
  moreover have "ex_ids \<noteq> []" "length ex_ids = 250"
    by (simp_all add: ex_ids_def)
  ultimately show ?thesis
    by (auto simp: load_field_governance_def ex_data_def py_or_def schema_field_table_def
        validation_complete spec_total_dp_ids_def ex_audit_ids ex_rule_ok image_image Let_def)
qed

theorem strict_load_is_valid_witness:
  "\<exists>reg. load_field_governance ex_data [] ''roles.yaml'' (Some ex_audit) True = Inr reg \<and>
     length (g_rules reg) = 250"
  using ex_load strict_load_is_valid by blast

definition ex_registry :: gov_registry where
  "ex_registry = \<lparr>g_rules = [(''a'', ex_rule ''a'')], g_schema_fields = [],
     g_schema_version = PInt 1, g_source = PStr ''s''\<rparr>"

theorem apply_to_node_preserves_witness:
  "dget (apply_to_node ex_registry False
      [(''dp_id'', PStr ''a''), (''field_role'', PStr ''gate'')]) ''field_role'' = PStr ''gate''"
  using apply_to_node_preserves
    [of "[(''dp_id'', PStr ''a''), (''field_role'', PStr ''gate'')]" "''field_role''" ex_registry]
  by simp

theorem validation_complete_witness:
  "fst (validate_against_spec ex_registry (Some [''a'']) 1) = []"
  using validation_complete [of ex_registry "Some [''a'']" 1]
  by (simp add: ex_registry_def ex_rule_ok)

theorem parse_spec_reads_section_7_witness:
  "set (parse_spec_dp_ids [''# t'', ''## 7. x'', ''| `a` | b |'', ''text'', ''## 8. y'', ''| `c` |''])
     = {''a''}"
proof -
  have "match_row ''| `a` | b |'' = Some ''a''" "match_row ''text'' = None"
    by (simp_all add: match_row_def is_blank_def char_code_def Let_def)
  then show ?thesis
    using parse_spec_reads_section_7
      [of "[''# t'']" "''## 7. x''" "[''| `a` | b |'', ''text'']" "''## 8. y''" "[''| `c` |'']"]
    by (auto simp: py_startswith_def)
qed

end
