(* ===== verification/Traversal.thy ===== *)
theory Traversal
  imports Py_Base
begin

text \<open>
  The post-order of \<open>aggregate_company_graph\<close>: \<open>_post_order\<close> walks the children of a node
  before it appends the node, skips what it has visited, and is started at every node. The
  adjacency is a table of lists; the recursion runs on fuel, and \<open>post_order_total\<close> shows that
  one unit per node and one more is enough for every graph, cyclic ones included.
  \<open>post_order_children_first\<close> shows the order to put children before parents whenever the
  graph has no cycle; acyclicity is stated by a rank that falls along every edge.
\<close>

section \<open>The recursion\<close>

type_synonym 'k adjacency = "('k \<times> 'k list) list"

definition kids :: "'k adjacency \<Rightarrow> 'k \<Rightarrow> 'k list" where
  "kids adj nid = (case map_of adj nid of None \<Rightarrow> [] | Some ks \<Rightarrow> ks)"

text \<open>\<open>_post_order\<close>: the state is the set of visited nodes and the order built so far.\<close>

fun visit :: "('k \<Rightarrow> 'k list) \<Rightarrow> nat \<Rightarrow> 'k \<Rightarrow> 'k list \<times> 'k list \<Rightarrow>
      ('k list \<times> 'k list) option"
  and visit_all :: "('k \<Rightarrow> 'k list) \<Rightarrow> nat \<Rightarrow> 'k list \<Rightarrow> 'k list \<times> 'k list \<Rightarrow>
      ('k list \<times> 'k list) option" where
  "visit ks 0 nid s = None"
| "visit ks (Suc f) nid s =
     (if nid \<in> set (fst s) then Some s
      else map_option (\<lambda>(vis, ord). (vis, ord @ [nid]))
             (visit_all ks f (ks nid) (nid # fst s, snd s)))"
| "visit_all ks f [] s = Some s"
| "visit_all ks f (c # cs) s = Option.bind (visit ks f c s) (visit_all ks f cs)"

definition post_order :: "'k adjacency \<Rightarrow> 'k list \<Rightarrow> 'k list res" where
  "post_order adj nids =
     (case visit_all (kids adj) (Suc (length nids)) nids ([], []) of
        None \<Rightarrow> Inl RecursionError
      | Some (vis, ord) \<Rightarrow> Inr ord)"

section \<open>What a call adds\<close>

definition grows :: "'k list \<times> 'k list \<Rightarrow> 'k list \<times> 'k list \<Rightarrow> bool" where
  "grows s s' \<longleftrightarrow>
     (\<exists>new. snd s' = snd s @ new \<and> set (fst s') = set (fst s) \<union> set new \<and> distinct new \<and>
            set new \<inter> set (fst s) = {})"

lemma growsI:
  "snd s' = snd s @ new \<Longrightarrow> set (fst s') = set (fst s) \<union> set new \<Longrightarrow> distinct new \<Longrightarrow>
   set new \<inter> set (fst s) = {} \<Longrightarrow> grows s s'"
  unfolding grows_def by blast

lemma grows_refl [simp]: "grows s s"
  by (rule growsI [of _ _ "[]"]) auto

lemma grows_trans:
  assumes "grows s t" "grows t u"
  shows "grows s u"
proof -
  obtain m where "snd t = snd s @ m" "set (fst t) = set (fst s) \<union> set m" "distinct m"
    "set m \<inter> set (fst s) = {}" using assms(1) by (auto simp: grows_def)
  moreover obtain n where "snd u = snd t @ n" "set (fst u) = set (fst t) \<union> set n" "distinct n"
    "set n \<inter> set (fst t) = {}" using assms(2) by (auto simp: grows_def)
  ultimately show ?thesis by (intro growsI [of _ _ "m @ n"]) auto
qed

lemma grows_visited: "grows s t \<Longrightarrow> set (fst s) \<subseteq> set (fst t)"
  by (auto simp: grows_def)

lemma grows_close:
  assumes "grows (nid # fst s, snd s) t" "nid \<notin> set (fst s)"
  shows "grows s (fst t, snd t @ [nid])"
proof -
  obtain m where "snd t = snd s @ m" "set (fst t) = insert nid (set (fst s)) \<union> set m" "distinct m"
    "set m \<inter> insert nid (set (fst s)) = {}" using assms(1) by (auto simp: grows_def)
  with assms(2) show ?thesis by (intro growsI [of _ _ "m @ [nid]"]) auto
qed

lemma visit_grows:
  "visit ks f nid s = Some s' \<Longrightarrow> grows s s' \<and> nid \<in> set (fst s')"
  "visit_all ks f cs s = Some s' \<Longrightarrow> grows s s' \<and> set cs \<subseteq> set (fst s')"
proof (induction ks f nid s and ks f cs s arbitrary: s' and s' rule: visit_visit_all.induct)
  case (2 ks f nid s)
  show ?case
  proof (cases "nid \<in> set (fst s)")
    case True
    with 2 show ?thesis by simp
  next
    case False
    with "2.prems" obtain t where t: "visit_all ks f (ks nid) (nid # fst s, snd s) = Some t"
      and s': "s' = (fst t, snd t @ [nid])" by auto
    from "2.IH" [OF False t] have g: "grows (nid # fst s, snd s) t" by simp
    from grows_visited [OF g] grows_close [OF g False] s' show ?thesis by simp
  qed
next
  case (4 ks f c cs s)
  then obtain t where t: "visit ks f c s = Some t" "visit_all ks f cs t = Some s'"
    by (auto simp: bind_eq_Some_conv)
  from "4.IH"(1) [OF t(1)] have 1: "grows s t" "c \<in> set (fst t)" by auto
  from "4.IH"(2) [OF t] have 2: "grows t s'" "set cs \<subseteq> set (fst s')" by auto
  from grows_trans [OF 1(1) 2(1)] grows_visited [OF 2(1)] 1 2 show ?case by auto
qed simp_all

lemma visit_within:
  assumes "\<forall>n \<in> N. set (ks n) \<subseteq> N"
  shows "visit ks f nid s = Some s' \<Longrightarrow> nid \<in> N \<Longrightarrow> set (fst s) \<subseteq> N \<Longrightarrow> set (fst s') \<subseteq> N"
    and "visit_all ks f cs s = Some s' \<Longrightarrow> set cs \<subseteq> N \<Longrightarrow> set (fst s) \<subseteq> N \<Longrightarrow> set (fst s') \<subseteq> N"
  using assms
proof (induction ks f nid s and ks f cs s arbitrary: s' and s' rule: visit_visit_all.induct)
  case (2 ks f nid s)
  then show ?case by (auto split: if_splits)
next
  case (4 ks f c cs s)
  then obtain t where t: "visit ks f c s = Some t" "visit_all ks f cs t = Some s'"
    by (auto simp: bind_eq_Some_conv)
  from "4.IH"(1) [OF t(1)] "4.prems" have "set (fst t) \<subseteq> N" by simp
  with "4.IH"(2) [OF t] "4.prems" show ?case by simp
qed simp_all

text \<open>Fuel above the number of nodes not visited yet is enough.\<close>

lemma visit_total:
  assumes "\<forall>n \<in> N. set (ks n) \<subseteq> N" and fin: "finite N"
  shows "nid \<in> N \<Longrightarrow> card (N - set (fst s)) < f \<Longrightarrow> \<exists>s'. visit ks f nid s = Some s'"
    and "set cs \<subseteq> N \<Longrightarrow> card (N - set (fst s)) < f \<Longrightarrow> \<exists>s'. visit_all ks f cs s = Some s'"
  using assms(1)
proof (induction ks f nid s and ks f cs s rule: visit_visit_all.induct)
  case (2 ks f nid s)
  show ?case
  proof (cases "nid \<in> set (fst s)")
    case False
    have "N - set (nid # fst s) = (N - set (fst s)) - {nid}" by auto
    moreover have "nid \<in> N - set (fst s)" using False 2 by simp
    ultimately have "card (N - set (nid # fst s)) < card (N - set (fst s))"
      using fin card_Diff1_less [of "N - set (fst s)" nid] by simp
    with "2.prems"(2) have "card (N - set (nid # fst s)) < f" by linarith
    with "2.IH" [OF False] "2.prems" show ?thesis using False by fastforce
  qed simp
next
  case (4 ks f c cs s)
  then obtain t where t: "visit ks f c s = Some t" by auto
  have "N - set (fst t) \<subseteq> N - set (fst s)"
    using visit_grows(1) [OF t] grows_visited by blast
  then have "card (N - set (fst t)) \<le> card (N - set (fst s))"
    using fin by (simp add: card_mono)
  with "4.prems"(2) have "card (N - set (fst t)) < f" by linarith
  with "4.IH"(2) [OF t] "4.prems" t show ?case by simp
qed simp_all

section \<open>Children before parents\<close>

definition children_first :: "('k \<Rightarrow> 'k list) \<Rightarrow> 'k list \<Rightarrow> bool" where
  "children_first ks ord \<longleftrightarrow> (\<forall>pre n post. ord = pre @ n # post \<longrightarrow> set (ks n) \<subseteq> set pre)"

lemma children_first_snoc:
  "children_first ks ord \<Longrightarrow> set (ks n) \<subseteq> set ord \<Longrightarrow> children_first ks (ord @ [n])"
  unfolding children_first_def by (auto simp: append_eq_append_conv2 Cons_eq_append_conv append_eq_Cons_conv)

text \<open>The nodes on the stack: visited and not yet in the order.\<close>

definition pending :: "'k list \<times> 'k list \<Rightarrow> 'k set" where
  "pending s = set (fst s) - set (snd s)"

lemma grows_pending: "grows s t \<Longrightarrow> set (snd s) \<subseteq> set (fst s) \<Longrightarrow>
    pending t = pending s \<and> set (snd t) \<subseteq> set (fst t)"
  by (auto simp: grows_def pending_def)

lemma visit_children_first:
  assumes "\<forall>n. \<forall>c \<in> set (ks n). (rank c :: nat) < rank n"
  shows "visit ks f nid s = Some s' \<Longrightarrow> children_first ks (snd s) \<Longrightarrow> set (snd s) \<subseteq> set (fst s) \<Longrightarrow>
      \<forall>g \<in> pending s. rank nid < rank g \<Longrightarrow> children_first ks (snd s')"
    and "visit_all ks f cs s = Some s' \<Longrightarrow> children_first ks (snd s) \<Longrightarrow>
      set (snd s) \<subseteq> set (fst s) \<Longrightarrow> \<forall>c \<in> set cs. \<forall>g \<in> pending s. rank c < rank g \<Longrightarrow>
      children_first ks (snd s')"
  using assms
proof (induction ks f nid s and ks f cs s arbitrary: s' and s' rule: visit_visit_all.induct)
  case (2 ks f nid s)
  show ?case
  proof (cases "nid \<in> set (fst s)")
    case True
    with 2 show ?thesis by simp
  next
    case False
    with "2.prems"(1) obtain t where t: "visit_all ks f (ks nid) (nid # fst s, snd s) = Some t"
      and s': "s' = (fst t, snd t @ [nid])" by auto
    have pend: "pending (nid # fst s, snd s) = insert nid (pending s)"
      using False "2.prems"(3) by (auto simp: pending_def)
    have "\<forall>c \<in> set (ks nid). \<forall>g \<in> insert nid (pending s). rank c < rank g"
      using "2.prems"(4,5) by (auto intro: less_trans)
    with "2.IH" [OF False t] "2.prems" pend have cf: "children_first ks (snd t)" by auto
    note g = visit_grows(2) [OF t]
    have "pending t = insert nid (pending s)"
      using grows_pending [of "(nid # fst s, snd s)" t] g "2.prems"(3) pend by auto
    moreover have "\<forall>c \<in> set (ks nid). c \<notin> insert nid (pending s)"
      using "2.prems"(4,5) by (auto dest: less_not_sym)
    ultimately have "set (ks nid) \<subseteq> set (snd t)" using g by (auto simp: pending_def)
    with cf s' show ?thesis by (simp add: children_first_snoc)
  qed
next
  case (4 ks f c cs s)
  then obtain t where t: "visit ks f c s = Some t" "visit_all ks f cs t = Some s'"
    by (auto simp: bind_eq_Some_conv)
  from "4.IH"(1) [OF t(1)] "4.prems" have 1: "children_first ks (snd t)" by simp
  have 2: "pending t = pending s" "set (snd t) \<subseteq> set (fst t)"
    using grows_pending visit_grows(1) [OF t(1)] "4.prems"(3) by blast+
  from "4.IH"(2) [OF t 1] 2 "4.prems" show ?case by simp
qed simp_all

section \<open>The order of a graph\<close>

definition closed_under :: "'k adjacency \<Rightarrow> 'k list \<Rightarrow> bool" where
  "closed_under adj nids \<longleftrightarrow> (\<forall>n. set (kids adj n) \<subseteq> set nids)"

lemma post_order_exists:
  assumes "closed_under adj nids"
  shows "\<exists>ord. post_order adj nids = Inr ord \<and> distinct ord \<and> set ord = set nids"
proof -
  have closed: "\<forall>n \<in> set nids. set (kids adj n) \<subseteq> set nids"
    using assms by (simp add: closed_under_def)
  have "card (set nids - set []) < Suc (length nids)"
    using card_length [of nids] by simp
  with visit_total(2) [OF closed, of nids "([], [])" "Suc (length nids)"] obtain s' where
    s': "visit_all (kids adj) (Suc (length nids)) nids ([], []) = Some s'" by auto
  from visit_grows(2) [OF s'] visit_within(2) [OF closed s']
  have "distinct (snd s')" "set (snd s') = set nids" by (auto simp: grows_def)
  with s' show ?thesis by (cases s') (simp add: post_order_def)
qed

lemma post_order_children_first:
  assumes "\<forall>n. \<forall>c \<in> set (kids adj n). (rank c :: nat) < rank n" "post_order adj nids = Inr ord"
  shows "children_first (kids adj) ord"
proof -
  from assms(2) obtain vis where
    "visit_all (kids adj) (Suc (length nids)) nids ([], []) = Some (vis, ord)"
    by (auto simp: post_order_def split: option.splits)
  from visit_children_first(2) [OF assms(1) this] show ?thesis
    by (simp add: children_first_def pending_def)
qed

end
