(* ===== verification/Py_Time.thy ===== *)
theory Py_Time
  imports Py_Base
begin

text \<open>
  \<open>datetime.fromisoformat\<close>, as far as the program relies on it: the calendar forms
  \<open>YYYY-MM-DD\<close> and \<open>YYYYMMDD\<close>, followed by nothing or by one separator character and a time
  \<open>HH[:MM[:SS[.ffffff]]]\<close> or \<open>HH[MM[SS[.ffffff]]]\<close>, with an optional offset of the same form
  after a sign. The ISO week forms (\<open>YYYY-Www-D\<close>) are refused here; no file of the program
  has one. A moment is the number of seconds since 1970-01-01T00:00:00 UTC; a text without an
  offset is read as UTC, which is what every caller does with a naive datetime.
\<close>

definition two_digits :: "string \<Rightarrow> (nat \<times> string) option" where
  "two_digits s =
     (case s of
        a # b # r \<Rightarrow> if is_digit a \<and> is_digit b then Some (dec_value [a, b], r) else None
      | _ \<Rightarrow> None)"

definition four_digits :: "string \<Rightarrow> (nat \<times> string) option" where
  "four_digits s =
     (case two_digits s of
        None \<Rightarrow> None
      | Some (hi, r) \<Rightarrow> map_option (\<lambda>(lo, r'). (100 * hi + lo, r')) (two_digits r))"

definition leap_year :: "nat \<Rightarrow> bool" where
  "leap_year y \<longleftrightarrow> y mod 4 = 0 \<and> (y mod 100 \<noteq> 0 \<or> y mod 400 = 0)"

definition month_days :: "nat \<Rightarrow> nat \<Rightarrow> nat" where
  "month_days y m =
     (if m = 2 then (if leap_year y then 29 else 28)
      else if m \<in> {4, 6, 9, 11} then 30 else 31)"

definition valid_date :: "nat \<Rightarrow> nat \<Rightarrow> nat \<Rightarrow> bool" where
  "valid_date y m d \<longleftrightarrow> 1 \<le> y \<and> 1 \<le> m \<and> m \<le> 12 \<and> 1 \<le> d \<and> d \<le> month_days y m"

text \<open>Days since 1970-01-01 in the proleptic Gregorian calendar.\<close>

definition epoch_days :: "nat \<Rightarrow> nat \<Rightarrow> nat \<Rightarrow> int" where
  "epoch_days y m d =
     (let y' = int y - (if m \<le> 2 then 1 else 0);
          era = y' div 400; yoe = y' mod 400;
          mp = (int m + 9) mod 12;
          doy = (153 * mp + 2) div 5 + int d - 1;
          doe = yoe * 365 + yoe div 4 - yoe div 100 + doy
      in era * 146097 + doe - 719468)"

definition iso_date :: "string \<Rightarrow> (int \<times> string) option" where
  "iso_date s =
     (case four_digits s of
        None \<Rightarrow> None
      | Some (y, r) \<Rightarrow>
          (let dashed = (r \<noteq> [] \<and> hd r = CHR ''-'') in
           case two_digits (if dashed then tl r else r) of
             None \<Rightarrow> None
           | Some (m, r2) \<Rightarrow>
               if dashed \<and> \<not> (r2 \<noteq> [] \<and> hd r2 = CHR ''-'') then None
               else (case two_digits (if dashed then tl r2 else r2) of
                       None \<Rightarrow> None
                     | Some (d, r3) \<Rightarrow>
                         if valid_date y m d then Some (epoch_days y m d, r3) else None)))"

text \<open>Microseconds: digits after the sixth are dropped.\<close>

definition iso_fraction :: "string \<Rightarrow> real option" where
  "iso_fraction s =
     (case s of
        [] \<Rightarrow> Some 0
      | c # ds \<Rightarrow>
          if (c = CHR ''.'' \<or> c = CHR '','') \<and> ds \<noteq> [] \<and> list_all is_digit ds
          then Some (real (dec_value (take 6 ds)) / 10 ^ length (take 6 ds))
          else None)"

definition iso_hms :: "string \<Rightarrow> (nat \<times> nat \<times> nat \<times> real) option" where
  "iso_hms s =
     (case two_digits s of
        None \<Rightarrow> None
      | Some (h, []) \<Rightarrow> Some (h, 0, 0, 0)
      | Some (h, c # r) \<Rightarrow>
          (let colon = (c = CHR '':'') in
           case two_digits (if colon then r else c # r) of
             None \<Rightarrow> None
           | Some (mi, []) \<Rightarrow> Some (h, mi, 0, 0)
           | Some (mi, c2 # r2) \<Rightarrow>
               if colon \<and> c2 \<noteq> CHR '':'' then None
               else (case two_digits (if colon then r2 else c2 # r2) of
                       None \<Rightarrow> None
                     | Some (sec, r3) \<Rightarrow>
                         map_option (\<lambda>f. (h, mi, sec, f)) (iso_fraction r3))))"

definition hms_seconds :: "nat \<times> nat \<times> nat \<times> real \<Rightarrow> real" where
  "hms_seconds t = (case t of (h, mi, sec, f) \<Rightarrow> real (h * 3600 + mi * 60 + sec) + f)"

definition hms_valid :: "nat \<times> nat \<times> nat \<times> real \<Rightarrow> bool" where
  "hms_valid t \<longleftrightarrow> (case t of (h, mi, sec, f) \<Rightarrow> h \<le> 23 \<and> mi \<le> 59 \<and> sec \<le> 59)"

definition iso_time :: "string \<Rightarrow> real option" where
  "iso_time s = Option.bind (iso_hms s) (\<lambda>t. if hms_valid t then Some (hms_seconds t) else None)"

definition is_sign :: "char \<Rightarrow> bool" where
  "is_sign c \<longleftrightarrow> c = CHR ''+'' \<or> c = CHR ''-''"

definition iso_clock :: "string \<Rightarrow> real option" where
  "iso_clock s =
     (let local = takeWhile (\<lambda>c. \<not> is_sign c \<and> c \<noteq> CHR ''Z'') s;
          zone = dropWhile (\<lambda>c. \<not> is_sign c \<and> c \<noteq> CHR ''Z'') s
      in case iso_time local of
           None \<Rightarrow> None
         | Some t \<Rightarrow>
             (case zone of
                [] \<Rightarrow> Some t
              | c # z \<Rightarrow>
                  if c = CHR ''Z'' then (if z = [] then Some t else None)
                  else map_option (\<lambda>off. if c = CHR ''+'' then t - off else t + off) (iso_time z)))"

definition from_iso :: "string \<Rightarrow> real option" where
  "from_iso s =
     (case iso_date s of
        None \<Rightarrow> None
      | Some (days, []) \<Rightarrow> Some (real_of_int days * 86400)
      | Some (days, sep # rest) \<Rightarrow>
          map_option (\<lambda>t. real_of_int days * 86400 + t) (iso_clock rest))"

text \<open>\<open>s.replace(c, r)\<close> for a one-character pattern.\<close>

definition replace_char :: "char \<Rightarrow> string \<Rightarrow> string \<Rightarrow> string" where
  "replace_char c r s = concat (map (\<lambda>x. if x = c then r else [x]) s)"

lemmas iso_eval = two_digits_def four_digits_def iso_date_def iso_time_def iso_hms_def
  iso_fraction_def hms_seconds_def hms_valid_def is_sign_def iso_clock_def from_iso_def
  replace_char_def valid_date_def month_days_def leap_year_def epoch_days_def

lemma from_iso_example: "from_iso ''2024-02-29T08:00:00+08:00'' = Some 1709164800"
  by (simp add: iso_eval str_eval dec_value_def)

end
