(* ===== verification/Aggregator.thy ===== *)
theory Aggregator
  imports Prelude Py_Time Governance Traversal
begin

text \<open>
  \<open>mvp20/aggregator.py\<close>: the score of every node of a stock overlay. A leaf scores
  direction times magnitude times recency; a parent is the weighted pool of the children that
  apply to it; every score is split over a short, a medium and a long horizon. The parts are in
  the order of the source: scalars and tables, node bookkeeping, proxy promotion, leaves,
  parents, and the traversal that computes children before their parents.

  The wall clock is the argument \<open>now\<close> (seconds since the epoch, UTC). Node identifiers are
  dictionary keys. The adjacency table, the post-order and the two result tables are explicit
  state; the recursion of \<open>_post_order\<close> runs on fuel, one unit for every node and one more,
  which \<open>post_order_total\<close> shows to be enough for any graph, cyclic ones included. The bound
  that the interpreter puts on the depth of a recursion is not modelled.
\<close>

section \<open>Tables and scalars\<close>

definition direction_table :: "(string \<times> real) list" where
  "direction_table =
     [(''positive'', 1), (''negative'', -1), (''neutral'', 0), (''bidirectional'', 0)]"

definition magnitude_table :: "(string \<times> real) list" where
  "magnitude_table =
     [(''strong'', 8/10), (''moderate'', 5/10), (''weak'', 3/10), (''none'', 0), (''low'', 3/10),
      (''medium'', 5/10), (''high'', 8/10)]"

definition quality_factor_table :: "(string \<times> real) list" where
  "quality_factor_table =
     [(''very_low'', 2/10), (''low'', 4/10), (''medium'', 7/10), (''moderate'', 7/10),
      (''high'', 9/10), (''very_high'', 1), (''strong'', 9/10), (''weak'', 4/10)]"

definition trend_table :: "(string \<times> real) list" where
  "trend_table =
     [(''up'', 1), (''up_moderate'', 6/10), (''up_strong'', 1), (''mixed'', 3/10), (''flat'', 0),
      (''stable'', 0), (''down'', -1), (''down_strong'', -1), (''down_moderate'', -6/10)]"

definition clip_agg :: "real \<Rightarrow> real \<Rightarrow> real \<Rightarrow> real" where
  "clip_agg x lo hi = max lo (min hi x)"

interpretation agg_clip: clamping clip_agg
  by unfold_locales (simp add: clip_agg_def)

definition factor :: "pyval \<Rightarrow> real \<Rightarrow> real" where
  "factor value d =
     (if value = PNone then d
      else if is_num value then try_float value 0
      else case map_of quality_factor_table
                  (replace_char CHR '' '' ''_'' (py_lower (py_strip (py_str value)))) of
             None \<Rightarrow> d | Some x \<Rightarrow> x)"

definition unit_abs :: "real \<Rightarrow> real" where
  "unit_abs x = \<bar>clip_agg x (-1) 1\<bar>"

definition cast :: "pyval \<Rightarrow> real option" where
  "cast v = (case py_float v of Inl _ \<Rightarrow> None | Inr x \<Rightarrow> Some x)"

fun explicit_scalar :: "pydict \<Rightarrow> string list \<Rightarrow> real option" where
  "explicit_scalar value [] = None"
| "explicit_scalar value (key # keys) =
     (case cast (dget value key) of
        Some x \<Rightarrow> Some (unit_abs x)
      | None \<Rightarrow> explicit_scalar value keys)"

definition str_entry :: "(string \<times> real) list \<Rightarrow> pyval \<Rightarrow> real option" where
  "str_entry table v = (case v of PStr s \<Rightarrow> map_of table (py_lower s) | _ \<Rightarrow> None)"

definition option_scalar :: "pydict \<Rightarrow> real" where
  "option_scalar value =
     (let future = dget value ''future_option_value''; current = dget value ''current_contribution''
      in if is_num future then unit_abs (try_float future 0)
         else if is_num current then unit_abs (try_float current 0)
         else 0)"

definition dict_scalar :: "pydict \<Rightarrow> real" where
  "dict_scalar value =
     (case explicit_scalar value [''score'', ''intensity'', ''strength''] of
        Some x \<Rightarrow> x
      | None \<Rightarrow>
     (case cast (dget value ''yoy_pct'') of
        Some yoy \<Rightarrow> unit_abs (tanh (yoy / 50))
      | None \<Rightarrow>
     (case str_entry magnitude_table (dget value ''magnitude'') of
        Some x \<Rightarrow> x
      | None \<Rightarrow>
     (case str_entry trend_table (dget value ''trend'') of
        Some sign \<Rightarrow> \<bar>sign\<bar>
      | None \<Rightarrow> option_scalar value))))"

definition to_scalar :: "pyval \<Rightarrow> real" where
  "to_scalar value =
     (if is_num value then unit_abs (try_float value 0)
      else case value of PDict d \<Rightarrow> dict_scalar d | _ \<Rightarrow> 0)"

definition direction_sign :: "pyval \<Rightarrow> real res" where
  "direction_sign direction =
     (case direction of
        PStr s \<Rightarrow> Inr (case map_of direction_table (py_lower s) of None \<Rightarrow> 0 | Some x \<Rightarrow> x)
      | v \<Rightarrow> res_map (\<lambda>_. 0) (py_key v))"

definition recency_halflife_days :: real where
  "recency_halflife_days = 90"

definition recency :: "real \<Rightarrow> pyval \<Rightarrow> real \<Rightarrow> real" where
  "recency now last_updated halflife_days =
     (if \<not> truthy last_updated then 1
      else case from_iso (replace_char CHR ''Z'' ''+00:00'' (py_str last_updated)) of
             None \<Rightarrow> 1
           | Some dt \<Rightarrow>
               (let delta_days = max 0 ((now - dt) / 86400) in
                if halflife_days \<le> 0 then 1
                else exp (- ln 2 * delta_days / halflife_days)))"

section \<open>Horizons\<close>

definition short_keywords :: "string list" where
  "short_keywords =
     [utf8 [228, 186, 139, 228, 187, 182], utf8 [232, 181, 132, 233, 135, 145],
     utf8 [230, 131, 133, 231, 187, 170], utf8 [230, 136, 144, 228, 186, 164, 233, 135, 143],
     utf8 [230, 139, 165, 230, 140, 164], utf8 [229, 183, 178, 229, 174, 154, 228, 187, 183],
     utf8 [228, 185, 176, 231, 155, 152], utf8 [229, 141, 150, 231, 155, 152],
     utf8 [229, 135, 128, 230, 181, 129, 229, 133, 165], utf8 [230, 141, 162, 230, 137, 139],
     utf8 [230, 156, 159, 230, 157, 131], utf8 [229, 164, 167, 231, 155, 152], ''whisper'',
     utf8 [233, 162, 132, 230, 156, 159, 229, 183, 174], ''L5.'', ''L6.'', ''L7.'',
     ''L8.priced'', ''L8.val'', ''flow'', ''trade'', ''crowd'', ''surprise'', ''priced'',
     ''netbuy'']"

definition medium_keywords :: "string list" where
  "medium_keywords =
     [utf8 [232, 174, 162, 229, 141, 149], utf8 [233, 148, 128, 233, 135, 143],
     utf8 [228, 187, 183, 230, 160, 188], utf8 [230, 175, 155, 229, 136, 169, 231, 142, 135],
     utf8 [230, 148, 182, 229, 133, 165], utf8 [230, 140, 135, 229, 188, 149], ''EPS'',
     utf8 [230, 153, 175, 230, 176, 148],
     utf8 [229, 174, 162, 230, 136, 183, 231, 187, 147, 230, 158, 132],
     utf8 [230, 184, 160, 233, 129, 147], utf8 [228, 186, 167, 229, 147, 129],
     utf8 [228, 186, 164, 228, 187, 152], utf8 [232, 189, 172, 229, 140, 150, 231, 142, 135],
     utf8 [231, 149, 153, 229, 173, 152, 231, 142, 135], utf8 [229, 174, 162, 230, 181, 129],
     utf8 [229, 164, 141, 232, 180, 173], utf8 [228, 187, 189, 233, 162, 157],
     utf8 [230, 139, 155, 230, 160, 135], ''L3.'', ''L4.'', ''L9.'', ''earnings'', ''revenue'',
     ''margin'', ''guidance'', ''product'', ''channel'', ''customer'', ''delivery'', ''volume'',
     ''share'']"

definition long_keywords :: "string list" where
  "long_keywords =
     [utf8 [231, 169, 186, 233, 151, 180],
     utf8 [231, 171, 158, 228, 186, 137, 230, 160, 188, 229, 177, 128],
     utf8 [229, 149, 134, 228, 184, 154, 230, 168, 161, 229, 188, 143],
     utf8 [230, 138, 128, 230, 156, 175, 229, 163, 129, 229, 158, 146],
     utf8 [229, 147, 129, 231, 137, 140, 229, 163, 129, 229, 158, 146],
     utf8 [233, 149, 191, 230, 156, 159, 229, 136, 169, 230, 182, 166],
     utf8 [230, 155, 191, 228, 187, 163], utf8 [230, 138, 164, 229, 159, 142, 230, 178, 179],
     utf8 [230, 150, 176, 228, 184, 154, 229, 138, 161], utf8 [230, 189, 156, 229, 156, 168],
     utf8 [229, 143, 175, 233, 128, 137], utf8 [230, 184, 151, 233, 128, 143, 231, 142, 135],
     ''TAM'', utf8 [230, 155, 191, 230, 141, 162, 229, 145, 168, 230, 156, 159], ''L0.'',
     ''L1.'', ''L2.'', ''L10.'', ''L11.long'', ''tam'', ''moat'', ''newbiz'', ''lifecycle'',
     ''penetration'']"

record horizon_mix =
  hm_short :: real
  hm_medium :: real
  hm_long :: real

definition default_mix :: horizon_mix where
  "default_mix = \<lparr>hm_short = 33/100, hm_medium = 34/100, hm_long = 33/100\<rparr>"

definition short_mix :: horizon_mix where
  "short_mix = \<lparr>hm_short = 5/10, hm_medium = 3/10, hm_long = 2/10\<rparr>"

definition medium_mix :: horizon_mix where
  "medium_mix = \<lparr>hm_short = 2/10, hm_medium = 5/10, hm_long = 3/10\<rparr>"

definition long_mix :: horizon_mix where
  "long_mix = \<lparr>hm_short = 1/10, hm_medium = 3/10, hm_long = 6/10\<rparr>"

definition mentions :: "string \<Rightarrow> string list \<Rightarrow> bool" where
  "mentions haystack kws \<longleftrightarrow> list_ex (\<lambda>kw. py_in_str (py_lower kw) haystack) kws"

definition classify_horizon :: "pyval \<Rightarrow> pyval \<Rightarrow> horizon_mix" where
  "classify_horizon dp_id node_name =
     (let haystack = py_lower (py_str (py_or dp_id (PStr [])) @ '' '' @
                               py_str (py_or node_name (PStr [])))
      in if mentions haystack short_keywords then short_mix
         else if mentions haystack long_keywords then long_mix
         else if mentions haystack medium_keywords then medium_mix
         else default_mix)"

section \<open>Node bookkeeping\<close>

datatype node_state =
    NKnown | NUnknown | NUnavailable | NProxy | NInactive | NNA | NOptionality | NLowMateriality

definition node_state_table :: "(string \<times> node_state) list" where
  "node_state_table =
     [(''inactive'', NInactive),
      (''n/a'', NNA), (''na'', NNA), (''not_applicable'', NNA), (''not applicable'', NNA),
      (''unknown'', NUnknown), (''unavailable'', NUnavailable), (''proxy'', NProxy),
      (''optionality'', NOptionality),
      (''low materiality'', NLowMateriality), (''low_materiality'', NLowMateriality),
      (''known'', NKnown)]"

definition multiplier_targets :: "string list" where
  "multiplier_targets =
     [''multiplier_stack'', ''funding_multiplier'', ''theme_multiplier'', ''sentiment_multiplier'',
      ''policy_sensitivity_multiplier'', ''market_regime_multiplier'', ''reflexivity_multiplier'',
      ''liquidity_multiplier'', ''options_momentum_multiplier'', ''gamma_multiplier'',
      ''valuation_sensitivity_multiplier'', ''rate_sensitivity_multiplier'',
      ''narrative_sensitivity_multiplier'']"

definition node_status :: "pydict \<Rightarrow> node_state res" where
  "node_status node =
     (case py_or (py_or (dget node ''data_status'') (dget node ''status'')) (PStr []) of
        PStr s \<Rightarrow>
          Inr (case map_of node_state_table (py_lower (py_strip s)) of
                 None \<Rightarrow> NUnknown | Some st \<Rightarrow> st)
      | _ \<Rightarrow> Inl AttributeError)"

definition node_score_enabled :: "pydict \<Rightarrow> bool" where
  "node_score_enabled node =
     (let participates = dget node ''participates_in_score''; role = dget node ''field_role'' in
      if participates \<noteq> PNone then truthy participates
      else if truthy role then py_str role \<notin> set non_scoring_roles
      else True)"

definition is_multiplier_node :: "pydict \<Rightarrow> bool res" where
  "is_multiplier_node node =
     (if dget node ''field_role'' = PStr ''multiplier'' then Inr True
      else res_map (\<lambda>k. k \<in> KStr ` set multiplier_targets) (py_key (dget node ''score_target'')))"

text \<open>\<open>float(node.get(key) or default)\<close>: a zero, like a missing value, gives the default.\<close>

definition float_or :: "pydict \<Rightarrow> string \<Rightarrow> real \<Rightarrow> real res" where
  "float_or node key d = py_float (py_or (dget node key) (PFloat d))"

definition py_list_or :: "pydict \<Rightarrow> string \<Rightarrow> pyval list res" where
  "py_list_or node key = py_iter (py_or (dget node key) (PList []))"

record gov_payload =
  gp_field_role :: pyval
  gp_score_target :: pyval
  gp_participates_in_score :: bool
  gp_fallback_policy :: pyval
  gp_proxy_candidates :: "pyval list"
  gp_min_required_coverage :: real
  gp_neutral_value :: real
  gp_confidence_penalty :: real

definition governance_payload :: "pydict \<Rightarrow> gov_payload res" where
  "governance_payload node =
     res_bind (py_list_or node ''proxy_candidates'') (\<lambda>candidates.
     res_bind (float_or node ''min_required_coverage'' (1/2)) (\<lambda>min_cov.
     res_bind (float_or node ''neutral_value'' 0) (\<lambda>neutral.
     res_bind (float_or node ''confidence_penalty'' 1) (\<lambda>penalty.
       Inr \<lparr>gp_field_role = dget node ''field_role'', gp_score_target = dget node ''score_target'',
            gp_participates_in_score = node_score_enabled node,
            gp_fallback_policy = dget node ''fallback_policy'',
            gp_proxy_candidates = candidates, gp_min_required_coverage = min_cov,
            gp_neutral_value = neutral, gp_confidence_penalty = penalty\<rparr>))))"

definition has_usable_value :: "pyval \<Rightarrow> bool" where
  "has_usable_value value \<longleftrightarrow> value \<noteq> PNone \<and> value \<noteq> PDict []"

section \<open>Proxy promotion\<close>

type_synonym node_table = "(pykey \<times> pydict) list"

definition entry :: "node_table \<Rightarrow> pykey \<Rightarrow> pydict" where
  "entry nodes nid = (case map_of nodes nid of None \<Rightarrow> [] | Some n \<Rightarrow> n)"

text \<open>
  \<open>nodes_by_dp\<close> holds references to the nodes, so a promotion is visible to the nodes that
  come after: the table keeps identifiers, and a candidate is read in the current state.
\<close>

definition add_dp :: "pykey \<times> pydict \<Rightarrow> (string \<times> pykey list) list \<Rightarrow> (string \<times> pykey list) list" where
  "add_dp kn t =
     (let dp_id = dget (snd kn) ''dp_id'' in
      if truthy dp_id then dput (py_str dp_id) (dlist t (py_str dp_id) @ [fst kn]) t else t)"

definition nodes_by_dp :: "node_table \<Rightarrow> (string \<times> pykey list) list" where
  "nodes_by_dp nodes = fold add_dp nodes []"

definition dp_candidates :: "(string \<times> pykey list) list \<Rightarrow> pyval list \<Rightarrow> pykey list" where
  "dp_candidates by_dp dps = concat (map (\<lambda>dp. dlist by_dp (py_str dp)) dps)"

fun find_candidate :: "node_table \<Rightarrow> pykey \<Rightarrow> pykey list \<Rightarrow> pydict option res" where
  "find_candidate nodes nid [] = Inr None"
| "find_candidate nodes nid (c # cs) =
     (if c = nid then find_candidate nodes nid cs
      else res_bind (node_status (entry nodes c)) (\<lambda>st.
        if st \<in> {NKnown, NProxy} \<and> has_usable_value (dget (entry nodes c) ''value'')
        then Inr (Some (entry nodes c))
        else find_candidate nodes nid cs))"

definition promote :: "pydict \<Rightarrow> pydict \<Rightarrow> pydict res" where
  "promote candidate node =
     res_map (\<lambda>penalty.
         dput ''confidence_penalty'' (PFloat (min penalty (3/4)))
        (dput ''proxy_used'' (PDict [(''dp_id'', dget candidate ''dp_id''),
                                     (''node_id'', dget candidate ''node_id'')])
        (dput ''status'' (PStr ''Proxy'')
        (dput ''data_status'' (PStr ''Proxy'')
        (dput ''value'' (dget candidate ''value'') node)))))
       (float_or node ''confidence_penalty'' 1)"

definition proxy_step :: "(string \<times> pykey list) list \<Rightarrow> pykey \<Rightarrow> node_table \<Rightarrow> node_table res" where
  "proxy_step by_dp nid nodes =
     (let node = entry nodes nid in
      res_bind (node_status node) (\<lambda>st.
        if st \<noteq> NUnavailable then Inr nodes
        else res_bind (py_list_or node ''proxy_candidates'') (\<lambda>dps.
          res_bind (find_candidate nodes nid (dp_candidates by_dp dps)) (\<lambda>found.
            case found of
              None \<Rightarrow> Inr nodes
            | Some c \<Rightarrow> res_map (\<lambda>n. dput nid n nodes) (promote c node)))))"

definition apply_proxy_candidates :: "node_table \<Rightarrow> node_table res" where
  "apply_proxy_candidates nodes =
     res_fold (proxy_step (nodes_by_dp nodes)) (map fst nodes) nodes"

section \<open>Leaves\<close>

record horizon_scores =
  hs_score :: real
  hs_short :: real
  hs_medium :: real
  hs_long :: real

record leaf_result =
  lf_scores :: horizon_scores
  lf_confidence :: real
  lf_base_confidence :: real
  lf_status :: node_state
  lf_score_enabled :: bool
  lf_missing_balance :: string
  lf_confidence_penalty :: real
  lf_proxy_used :: pyval
  lf_governance :: gov_payload

text \<open>\<open>float(v) if v is not None else default\<close>.\<close>

definition float_unless_none :: "pyval \<Rightarrow> real \<Rightarrow> real res" where
  "float_unless_none v d = (if v = PNone then Inr d else py_float v)"

text \<open>
  The branches of \<open>_leaf_score\<close>: the intrinsic score, the confidence, and the tag that says
  how the node was balanced.
\<close>

definition leaf_branch :: "pydict \<Rightarrow> node_state \<Rightarrow> real \<Rightarrow> real \<Rightarrow> real \<Rightarrow> real \<Rightarrow>
    (real \<times> real \<times> string) res" where
  "leaf_branch node status direction confidence recent penalty =
     (if \<not> node_score_enabled node then Inr (0, confidence, ''non_scoring_role'')
      else case status of
        NInactive \<Rightarrow> Inr (0, confidence, ''inactive'')
      | NNA \<Rightarrow> Inr (0, confidence, ''not_applicable_remove'')
      | NUnknown \<Rightarrow> Inr (0, min confidence (3/10), ''unknown_zero_score'')
      | NUnavailable \<Rightarrow>
          res_bind (float_or node ''neutral_value'' 0) (\<lambda>neutral.
          res_bind (is_multiplier_node node) (\<lambda>mult.
            Inr (if mult then clip_agg (neutral - 1) (-1) 1 * recent
                 else direction * \<bar>neutral\<bar> * recent,
                 confidence * penalty, ''neutral_with_penalty'')))
      | NProxy \<Rightarrow>
          Inr (direction * to_scalar (dget node ''value'') * recent, confidence * penalty, ''proxy'')
      | _ \<Rightarrow> Inr (direction * to_scalar (dget node ''value'') * recent, confidence, ''known''))"

definition future_option :: "pydict \<Rightarrow> node_state \<Rightarrow> real \<Rightarrow> real \<Rightarrow> real" where
  "future_option node status direction recent =
     (case (status, dget node ''value'') of
        (NOptionality, PDict value) \<Rightarrow>
          (let fov = dget value ''future_option_value'' in
           if is_num fov then direction * unit_abs (try_float fov 0) * recent else 0)
      | _ \<Rightarrow> 0)"

definition spread :: "horizon_mix \<Rightarrow> real \<Rightarrow> real \<Rightarrow> horizon_scores" where
  "spread mix intrinsic future =
     \<lparr>hs_score = intrinsic, hs_short = intrinsic * hm_short mix,
      hs_medium = intrinsic * hm_medium mix, hs_long = intrinsic * hm_long mix + future\<rparr>"

definition leaf_score :: "real \<Rightarrow> pydict \<Rightarrow> leaf_result res" where
  "leaf_score now node =
     res_bind (node_status node) (\<lambda>status.
     res_bind (direction_sign (dget node ''direction'')) (\<lambda>direction.
     res_bind (float_unless_none (dget node ''confidence'') (1/2)) (\<lambda>base.
     let recent = recency now (dget node ''last_updated'') recency_halflife_days in
     res_bind (float_or node ''confidence_penalty'' 1) (\<lambda>penalty.
     res_bind (leaf_branch node status direction base recent penalty)
       (\<lambda>(intrinsic, confidence, balance).
     res_bind (governance_payload node) (\<lambda>gov.
       Inr \<lparr>lf_scores = spread (classify_horizon (dget node ''dp_id'') (dget node ''node_name''))
                           intrinsic (future_option node status direction recent),
            lf_confidence = confidence, lf_base_confidence = base, lf_status = status,
            lf_score_enabled = node_score_enabled node, lf_missing_balance = balance,
            lf_confidence_penalty = penalty, lf_proxy_used = dget node ''proxy_used'',
            lf_governance = gov\<rparr>))))))"

section \<open>Parents\<close>

definition effective_weight :: "pydict \<Rightarrow> real res" where
  "effective_weight node =
     res_bind (float_unless_none (dget node ''base_weight'') 1) (\<lambda>b.
     res_bind (float_unless_none (dget node ''active_weight'') 1) (\<lambda>a.
     res_bind (float_unless_none (dget node ''materiality'') 1) (\<lambda>m. Inr (b * a * m))))"

record child_payload =
  cp_status :: node_state
  cp_weight :: real
  cp_scores :: horizon_scores
  cp_confidence :: real
  cp_base_confidence :: real
  cp_score_enabled :: bool
  cp_confidence_penalty :: real

record child_counts =
  cc_active :: nat
  cc_inactive :: nat
  cc_na :: nat
  cc_unknown :: nat
  cc_optionality :: nat
  cc_unavailable :: nat
  cc_proxy :: nat
  cc_non_scoring :: nat

record child_pool =
  pl_counts :: child_counts
  pl_usable_weight :: real
  pl_total_weight :: real
  pl_missing_penalty_weight :: real
  pl_penalty_weight :: real
  pl_applicable :: "child_payload list"

definition empty_pool :: child_pool where
  "empty_pool =
     \<lparr>pl_counts = \<lparr>cc_active = 0, cc_inactive = 0, cc_na = 0, cc_unknown = 0, cc_optionality = 0,
                   cc_unavailable = 0, cc_proxy = 0, cc_non_scoring = 0\<rparr>,
      pl_usable_weight = 0, pl_total_weight = 0, pl_missing_penalty_weight = 0,
      pl_penalty_weight = 0, pl_applicable = []\<rparr>"

definition real_or :: "real \<Rightarrow> real \<Rightarrow> real" where
  "real_or x d = (if x = 0 then d else x)"

definition count_usable :: "node_state \<Rightarrow> child_counts \<Rightarrow> child_counts" where
  "count_usable st n =
     (let n1 = (if st = NUnavailable then n\<lparr>cc_unavailable := cc_unavailable n + 1\<rparr>
                else if st = NProxy then n\<lparr>cc_proxy := cc_proxy n + 1\<rparr> else n)
      in if st = NOptionality then n1\<lparr>cc_optionality := cc_optionality n1 + 1\<rparr>
         else n1\<lparr>cc_active := cc_active n1 + 1\<rparr>)"

definition pool_child :: "child_payload \<Rightarrow> child_pool \<Rightarrow> child_pool" where
  "pool_child c p =
     (let n = pl_counts p; w = cp_weight c in
      if \<not> cp_score_enabled c
      then p\<lparr>pl_counts := n\<lparr>cc_non_scoring := cc_non_scoring n + 1\<rparr>\<rparr>
      else if cp_status c = NNA then p\<lparr>pl_counts := n\<lparr>cc_na := cc_na n + 1\<rparr>\<rparr>
      else if cp_status c = NInactive
      then p\<lparr>pl_counts := n\<lparr>cc_inactive := cc_inactive n + 1\<rparr>\<rparr>
      else if cp_status c = NUnknown
      then p\<lparr>pl_counts := n\<lparr>cc_unknown := cc_unknown n + 1\<rparr>,
             pl_total_weight := pl_total_weight p + w, pl_applicable := pl_applicable p @ [c]\<rparr>
      else p\<lparr>pl_counts := count_usable (cp_status c) n,
             pl_usable_weight := pl_usable_weight p + w,
             pl_total_weight := pl_total_weight p + w,
             pl_missing_penalty_weight :=
               pl_missing_penalty_weight p + w * real_or (cp_confidence_penalty c) 1,
             pl_penalty_weight := pl_penalty_weight p + w,
             pl_applicable := pl_applicable p @ [c]\<rparr>)"

definition pool_sum :: "child_pool \<Rightarrow> (horizon_scores \<Rightarrow> real) \<Rightarrow> real" where
  "pool_sum p sel =
     (if pl_total_weight p \<le> 0 \<or> pl_applicable p = [] then 0
      else sum_list (map (\<lambda>c. sel (cp_scores c) * (cp_weight c / pl_total_weight p) *
                              cp_confidence c) (pl_applicable p)))"

text \<open>\<open>base_conf * ...\<close> on a value that was never cast: only a number multiplies by a float.\<close>

definition as_factor :: "pyval \<Rightarrow> real res" where
  "as_factor v = (if is_num v then py_float v else Inl TypeError)"

definition base_confidence :: "pydict \<Rightarrow> child_pool \<Rightarrow> real res" where
  "base_confidence parent p =
     (if pl_applicable p \<noteq> []
      then Inr (sum_list (map cp_base_confidence (pl_applicable p)) / real (length (pl_applicable p)))
      else as_factor (py_or (dget parent ''confidence'') (PFloat (1/2))))"

record node_result =
  nr_scores :: horizon_scores
  nr_confidence :: real
  nr_data_coverage :: real
  nr_missing_penalty :: real
  nr_evidence_quality :: real
  nr_min_required_coverage :: real
  nr_low_confidence :: bool
  nr_counts :: child_counts
  nr_risk_discount :: real
  nr_priced_in_discount :: real

definition aggregate_parent :: "pydict \<Rightarrow> child_payload list \<Rightarrow> node_result res" where
  "aggregate_parent parent children =
     (let p = fold pool_child children empty_pool;
          risk_discount = 0; priced_in_discount = 0;
          discount = risk_discount + priced_in_discount;
          coverage = (if pl_total_weight p > 0 then pl_usable_weight p / pl_total_weight p else 0);
          penalty = (if pl_penalty_weight p > 0
                     then pl_missing_penalty_weight p / pl_penalty_weight p else 1);
          evidence = factor (dget parent ''evidence_quality'') 1
      in res_bind (base_confidence parent p) (\<lambda>base_conf.
         res_bind (float_or parent ''min_required_coverage'' (1/2)) (\<lambda>min_cov.
           Inr \<lparr>nr_scores =
                  \<lparr>hs_score = pool_sum p hs_score - discount,
                   hs_short = pool_sum p hs_short - discount,
                   hs_medium = pool_sum p hs_medium - discount,
                   hs_long = pool_sum p hs_long - discount\<rparr>,
                nr_confidence = base_conf * coverage * evidence * penalty,
                nr_data_coverage = coverage, nr_missing_penalty = penalty,
                nr_evidence_quality = evidence, nr_min_required_coverage = min_cov,
                nr_low_confidence = (coverage < min_cov), nr_counts = pl_counts p,
                nr_risk_discount = risk_discount, nr_priced_in_discount = priced_in_discount\<rparr>)))"

text \<open>The counter \<open>n_children_active\<close> of the report includes the Optionality children.\<close>

definition n_children_active :: "node_result \<Rightarrow> nat" where
  "n_children_active r = cc_active (nr_counts r) + cc_optionality (nr_counts r)"

section \<open>The traversal\<close>

text \<open>What \<open>results[nid]\<close> holds; the two last entries are there for a leaf only.\<close>

record node_report =
  rp_result :: node_result
  rp_governance :: gov_payload
  rp_score_enabled :: bool
  rp_leaf_extras :: "(string \<times> pyval) option"

definition parent_status :: "node_result \<Rightarrow> node_state \<Rightarrow> node_state" where
  "parent_status r st =
     (let n = nr_counts r in
      if n_children_active r + cc_unknown n = 0 then
        (if cc_na n > 0 \<and> cc_inactive n = 0 then NNA
         else if cc_inactive n > 0 then NInactive else st)
      else st)"

definition parent_step :: "pydict \<Rightarrow> child_payload list \<Rightarrow> (node_report \<times> child_payload) res" where
  "parent_step node children =
     res_bind (aggregate_parent node children) (\<lambda>r.
     res_bind (governance_payload node) (\<lambda>gov.
     res_bind (effective_weight node) (\<lambda>w.
     res_bind (node_status node) (\<lambda>st.
     res_bind (float_or node ''confidence'' (1/2)) (\<lambda>base.
     res_bind (float_or node ''confidence_penalty'' 1) (\<lambda>penalty.
       Inr (\<lparr>rp_result = r, rp_governance = gov, rp_score_enabled = node_score_enabled node,
             rp_leaf_extras = None\<rparr>,
            \<lparr>cp_status = parent_status r st, cp_weight = w, cp_scores = nr_scores r,
             cp_confidence = real_or (nr_confidence r) (1/2), cp_base_confidence = base,
             cp_score_enabled = node_score_enabled node, cp_confidence_penalty = penalty\<rparr>)))))))"

definition leaf_coverage :: "node_state \<Rightarrow> real" where
  "leaf_coverage st = (if st \<in> {NUnknown, NNA} then 0 else 1)"

definition leaf_step :: "real \<Rightarrow> pydict \<Rightarrow> (node_report \<times> child_payload) res" where
  "leaf_step now node =
     res_bind (leaf_score now node) (\<lambda>leaf.
     res_bind (effective_weight node) (\<lambda>w.
       let gov = lf_governance leaf in
       Inr (\<lparr>rp_result =
               \<lparr>nr_scores = lf_scores leaf, nr_confidence = lf_confidence leaf,
                nr_data_coverage = leaf_coverage (lf_status leaf),
                nr_missing_penalty = lf_confidence_penalty leaf,
                nr_evidence_quality = factor (dget node ''evidence_quality'') 1,
                nr_min_required_coverage = gp_min_required_coverage gov,
                nr_low_confidence =
                  (lf_status leaf = NUnknown \<and> gp_min_required_coverage gov > 0),
                nr_counts = pl_counts empty_pool, nr_risk_discount = 0,
                nr_priced_in_discount = 0\<rparr>,
             rp_governance = gov, rp_score_enabled = lf_score_enabled leaf,
             rp_leaf_extras = Some (lf_missing_balance leaf, lf_proxy_used leaf)\<rparr>,
            \<lparr>cp_status = lf_status leaf, cp_weight = w, cp_scores = lf_scores leaf,
             cp_confidence = lf_confidence leaf, cp_base_confidence = lf_base_confidence leaf,
             cp_score_enabled = lf_score_enabled leaf,
             cp_confidence_penalty = lf_confidence_penalty leaf\<rparr>)))"

definition load_node :: "gov_registry option \<Rightarrow> pyval \<Rightarrow> node_table \<Rightarrow> node_table res" where
  "load_node registry v nodes =
     res_bind (as_mapping v) (\<lambda>n.
       let nid = dget n ''node_id'' in
       if \<not> truthy nid then Inr nodes
       else res_map (\<lambda>k. dput k (case registry of None \<Rightarrow> n | Some reg \<Rightarrow> apply_to_node reg False n)
                           nodes)
              (py_key nid))"

definition load_nodes :: "gov_registry option \<Rightarrow> pydict \<Rightarrow> node_table res" where
  "load_nodes registry stock_overlay =
     res_bind (py_list_or stock_overlay ''nodes'') (\<lambda>ns. res_fold (load_node registry) ns [])"

definition index_industry_node :: "pyval \<Rightarrow> node_table \<Rightarrow> node_table res" where
  "index_industry_node v t =
     res_bind (as_mapping v) (\<lambda>n.
       if truthy (dget n ''dp_id'') then res_map (\<lambda>k. dput k n t) (py_key (dget n ''dp_id''))
       else Inr t)"

definition industry_by_dp :: "pydict \<Rightarrow> node_table res" where
  "industry_by_dp industry_overlay =
     (if industry_overlay = [] then Inr []
      else res_bind (py_list_or industry_overlay ''nodes'') (\<lambda>ns.
             res_fold index_industry_node ns []))"

definition inherit_from :: "pydict \<Rightarrow> pydict \<Rightarrow> pydict res" where
  "inherit_from src n =
     (let n1 = dput ''value'' (dget src ''value'') n;
          n2 = (if dget n1 ''confidence'' = PNone
                then dput ''confidence'' (dget src ''confidence'') n1 else n1);
          n3 = (if \<not> truthy (dget n2 ''last_updated'')
                then dput ''last_updated'' (dget src ''last_updated'') n2 else n2)
      in res_map (\<lambda>st. if st = NUnknown \<and> dget src ''value'' \<noteq> PNone
                       then dput ''data_status'' (PStr ''Known'') n3 else n3)
           (node_status n3))"

definition inherit_node :: "node_table \<Rightarrow> pydict \<Rightarrow> pydict res" where
  "inherit_node by_dp n =
     (if truthy (dget n ''inherit_from_industry'') \<and> \<not> has_usable_value (dget n ''value'') then
        res_bind (py_key (dget n ''dp_id'')) (\<lambda>k.
          case map_of by_dp k of
            None \<Rightarrow> Inr n
          | Some src \<Rightarrow> if src = [] then Inr n else inherit_from src n)
      else Inr n)"

definition inherit_values :: "node_table \<Rightarrow> node_table \<Rightarrow> node_table res" where
  "inherit_values by_dp nodes =
     (if by_dp = [] then Inr nodes
      else res_list (\<lambda>(nid, n). res_map (Pair nid) (inherit_node by_dp n)) nodes)"

definition link_child :: "node_table \<Rightarrow> pykey \<times> pydict \<Rightarrow> pykey adjacency \<Rightarrow> pykey adjacency res" where
  "link_child nodes kn adj =
     (let (nid, n) = kn; parent = dget n ''parent_node'' in
      if \<not> truthy parent then Inr adj
      else res_map (\<lambda>k. if dhas nodes k then dput k (kids adj k @ [nid]) adj else adj)
             (py_key parent))"

definition children_by_parent :: "node_table \<Rightarrow> pykey adjacency res" where
  "children_by_parent nodes = res_fold (link_child nodes) nodes []"

type_synonym agg_state = "(pykey \<times> node_report) list \<times> (pykey \<times> child_payload) list"

definition node_step :: "real \<Rightarrow> pydict \<Rightarrow> pykey list \<Rightarrow> child_payload list \<Rightarrow>
    (node_report \<times> child_payload) res" where
  "node_step now node ks children =
     (if ks \<noteq> [] then parent_step node children else leaf_step now node)"

definition compute_node :: "real \<Rightarrow> node_table \<Rightarrow> pykey adjacency \<Rightarrow> pykey \<Rightarrow> agg_state \<Rightarrow> agg_state res" where
  "compute_node now nodes adj nid s =
     (let (results, payloads) = s; ks = kids adj nid in
      res_map (\<lambda>(r, c). (dput nid r results, dput nid c payloads))
        (node_step now (entry nodes nid) ks (List.map_filter (map_of payloads) ks)))"

definition prepare_nodes :: "pydict \<Rightarrow> pydict \<Rightarrow> gov_registry option \<Rightarrow> node_table res" where
  "prepare_nodes stock_overlay industry_overlay registry =
     res_bind (load_nodes registry stock_overlay) (\<lambda>nodes.
       if nodes = [] then Inr []
       else res_bind (industry_by_dp industry_overlay) (\<lambda>by_dp.
            res_bind (inherit_values by_dp nodes) apply_proxy_candidates))"

definition aggregate_nodes :: "real \<Rightarrow> node_table \<Rightarrow> (pykey \<times> node_report) list res" where
  "aggregate_nodes now nodes =
     res_bind (children_by_parent nodes) (\<lambda>adj.
     res_bind (post_order adj (map fst nodes)) (\<lambda>order.
       res_map fst (res_fold (compute_node now nodes adj) order ([], []))))"

definition aggregate_company_graph :: "real \<Rightarrow> pydict \<Rightarrow> pydict \<Rightarrow> gov_registry option \<Rightarrow>
    (pykey \<times> node_report) list res" where
  "aggregate_company_graph now stock_overlay industry_overlay registry =
     res_bind (prepare_nodes stock_overlay industry_overlay registry) (aggregate_nodes now)"

section \<open>The order of an overlay\<close>

lemma map_of_entry: "map_of nodes k = Some n \<Longrightarrow> entry nodes k = n"
  by (simp add: entry_def)

lemma kids_dput: "kids (dput k v adj) k' = (if k' = k then v else kids adj k')"
  by (simp add: kids_def map_of_dput)

lemma link_child_closed:
  assumes "link_child nodes kn adj = Inr adj'" "kn \<in> set nodes" "closed_under adj (map fst nodes)"
  shows "closed_under adj' (map fst nodes)"
proof (cases "adj' = adj")
  case False
  with assms(1) obtain k where "adj' = dput k (kids adj k @ [fst kn]) adj"
    by (cases kn) (auto simp: link_child_def Let_def res_map_eq_Inr split: if_splits)
  moreover have "fst kn \<in> set (map fst nodes)" using assms(2) by simp
  ultimately show ?thesis
    using assms(3) unfolding closed_under_def by (simp add: kids_dput del: set_map)
qed (use assms(3) in simp)

lemma children_closed:
  assumes "children_by_parent nodes = Inr adj"
  shows "closed_under adj (map fst nodes)"
proof -
  have "closed_under [] (map fst nodes)" by (simp add: closed_under_def kids_def)
  with assms show ?thesis
    unfolding children_by_parent_def
    by (rule res_fold_invariant [where P = "\<lambda>adj. closed_under adj (map fst nodes)"])
      (rule link_child_closed)
qed

section \<open>The two result tables\<close>

lemma compute_node_eq:
  assumes "compute_node now nodes adj nid (rs, ps) = Inr s'"
  obtains r c where "s' = (dput nid r rs, dput nid c ps)"
    "node_step now (entry nodes nid) (kids adj nid)
       (List.map_filter (map_of ps) (kids adj nid)) = Inr (r, c)"
  using assms by (auto simp: compute_node_def Let_def res_map_eq_Inr)

lemma compute_keys:
  assumes "res_fold (compute_node now nodes adj) ord (rs, ps) = Inr (rs', ps')" "dict_wf rs"
  shows "dict_wf rs' \<and> fst ` set rs' = fst ` set rs \<union> set ord"
  using assms
proof (induction ord arbitrary: rs ps)
  case (Cons nid ord)
  then obtain s where s: "compute_node now nodes adj nid (rs, ps) = Inr s"
    "res_fold (compute_node now nodes adj) ord s = Inr (rs', ps')"
    by (auto simp: res_bind_eq_Inr)
  from s(1) obtain r c where "s = (dput nid r rs, dput nid c ps)" by (rule compute_node_eq)
  with Cons.IH s(2) Cons.prems(2) show ?case by auto
qed auto

lemma map_filter_all: "\<forall>x \<in> set xs. f x \<noteq> None \<Longrightarrow> List.map_filter f xs = map (the \<circ> f) xs"
  by (induction xs) (auto simp: List.map_filter_simps)

lemma children_first_Cons:
  assumes "\<forall>pre n post. nid # ord = pre @ n # post \<longrightarrow> set (ks n) \<subseteq> D \<union> set pre"
  shows "set (ks nid) \<subseteq> D"
    and "\<forall>pre n post. ord = pre @ n # post \<longrightarrow> set (ks n) \<subseteq> insert nid D \<union> set pre"
proof -
  show "set (ks nid) \<subseteq> D" using assms [rule_format, of "[]" nid ord] by simp
  show "\<forall>pre n post. ord = pre @ n # post \<longrightarrow> set (ks n) \<subseteq> insert nid D \<union> set pre"
  proof (intro allI impI)
    fix pre n post assume "ord = pre @ n # post"
    then show "set (ks n) \<subseteq> insert nid D \<union> set pre"
      using assms [rule_format, of "nid # pre" n post] by auto
  qed
qed

text \<open>What one node of a finished table satisfies.\<close>

definition solved :: "real \<Rightarrow> node_table \<Rightarrow> pykey adjacency \<Rightarrow> agg_state \<Rightarrow> pykey \<Rightarrow> bool" where
  "solved now nodes adj s nid \<longleftrightarrow>
     (\<exists>r c. map_of (fst s) nid = Some r \<and> map_of (snd s) nid = Some c \<and>
        (\<forall>k \<in> set (kids adj nid). map_of (snd s) k \<noteq> None) \<and>
        node_step now (entry nodes nid) (kids adj nid)
          (map (the \<circ> map_of (snd s)) (kids adj nid)) = Inr (r, c))"

lemma compute_solved:
  assumes "res_fold (compute_node now nodes adj) ord (rs, ps) = Inr (rs', ps')"
    and "distinct ord" and "set ord \<inter> dom (map_of ps) = {}"
    and "\<forall>pre n post. ord = pre @ n # post \<longrightarrow> set (kids adj n) \<subseteq> dom (map_of ps) \<union> set pre"
  shows "(\<forall>k. k \<notin> set ord \<longrightarrow> map_of rs' k = map_of rs k \<and> map_of ps' k = map_of ps k) \<and>
    (\<forall>nid \<in> set ord. solved now nodes adj (rs', ps') nid)"
  using assms
proof (induction ord arbitrary: rs ps)
  case (Cons nid ord)
  then obtain s where s: "compute_node now nodes adj nid (rs, ps) = Inr s"
    "res_fold (compute_node now nodes adj) ord s = Inr (rs', ps')"
    by (auto simp: res_bind_eq_Inr)
  from s(1) obtain r c where s': "s = (dput nid r rs, dput nid c ps)"
    and step: "node_step now (entry nodes nid) (kids adj nid)
       (List.map_filter (map_of ps) (kids adj nid)) = Inr (r, c)" by (rule compute_node_eq)
  note ks = children_first_Cons [OF Cons.prems(4)]
  have "dom (map_of (dput nid c ps)) = insert nid (dom (map_of ps))" by (auto simp: map_of_dput)
  with Cons.IH [of "dput nid r rs" "dput nid c ps"] s(2) s' Cons.prems(2,3) ks(2)
  have IH: "\<forall>k. k \<notin> set ord \<longrightarrow> map_of rs' k = map_of (dput nid r rs) k \<and>
      map_of ps' k = map_of (dput nid c ps) k"
    and rest: "\<forall>nid \<in> set ord. solved now nodes adj (rs', ps') nid" by auto
  have keep: "map_of ps' k = map_of ps k" if "k \<in> set (kids adj nid)" for k
  proof -
    have "k \<in> dom (map_of ps)" using ks(1) that by auto
    then have "k \<noteq> nid" "k \<notin> set ord" using Cons.prems(3) by auto
    with IH show ?thesis by simp
  qed
  have all: "\<forall>k \<in> set (kids adj nid). map_of ps k \<noteq> None" using ks(1) by auto
  have "map (the \<circ> map_of ps') (kids adj nid) = List.map_filter (map_of ps) (kids adj nid)"
    using map_filter_all [OF all] keep by simp
  with step IH Cons.prems(2) all keep have "solved now nodes adj (rs', ps') nid"
    by (simp add: solved_def)
  with rest IH Cons.prems(2) show ?case by auto
qed simp


section \<open>The whole overlay\<close>

lemma aggregate_nodes_eq:
  assumes "aggregate_nodes now nodes = Inr rs"
  obtains adj ord ps where "children_by_parent nodes = Inr adj"
    "post_order adj (map fst nodes) = Inr ord"
    "res_fold (compute_node now nodes adj) ord ([], []) = Inr (rs, ps)"
  using assms by (auto simp: aggregate_nodes_def res_bind_eq_Inr res_map_eq_Inr)

lemma post_order_of_nodes:
  "children_by_parent nodes = Inr adj \<Longrightarrow>
   \<exists>ord. post_order adj (map fst nodes) = Inr ord \<and> distinct ord \<and> set ord = fst ` set nodes"
  using post_order_exists [OF children_closed] by fastforce

text \<open>
  C2: the walk over the parent links of an overlay always ends within its fuel, whatever
  cycles the links have; it visits every node exactly once, and the report has exactly one
  entry for every node of the overlay.
\<close>

theorem every_node_reported:
  assumes "children_by_parent nodes = Inr adj"
  shows "\<exists>ord. post_order adj (map fst nodes) = Inr ord \<and> distinct ord \<and>
           set ord = fst ` set nodes \<and>
           (\<forall>now rs. aggregate_nodes now nodes = Inr rs \<longrightarrow>
              dict_wf rs \<and> fst ` set rs = fst ` set nodes)"
proof -
  from post_order_of_nodes [OF assms] obtain ord where
    ord: "post_order adj (map fst nodes) = Inr ord" "distinct ord" "set ord = fst ` set nodes"
    by blast
  have "dict_wf rs \<and> fst ` set rs = fst ` set nodes" if a: "aggregate_nodes now nodes = Inr rs" for now rs
  proof -
    from a obtain ps where "res_fold (compute_node now nodes adj) ord ([], []) = Inr (rs, ps)"
      by (rule aggregate_nodes_eq) (use assms ord(1) in auto)
    from compute_keys [OF this] ord(3) show ?thesis by simp
  qed
  with ord show ?thesis by (intro exI [of _ ord]) simp
qed

text \<open>
  C3: when the parent links have no cycle (a rank falls from every parent to its children),
  every parent is scored from the payloads of all its children, and every payload is the one
  that the child itself was scored with.
\<close>

theorem parents_use_all_children:
  assumes "children_by_parent nodes = Inr adj"
    and "\<forall>n. \<forall>c \<in> set (kids adj n). (rank c :: nat) < rank n"
    and "aggregate_nodes now nodes = Inr rs"
  shows "\<exists>payloads. \<forall>nid \<in> fst ` set nodes. solved now nodes adj (rs, payloads) nid"
proof -
  from post_order_of_nodes [OF assms(1)] obtain ord where
    ord: "post_order adj (map fst nodes) = Inr ord" "distinct ord" "set ord = fst ` set nodes"
    by blast
  from assms(3) obtain ps where
    ps: "res_fold (compute_node now nodes adj) ord ([], []) = Inr (rs, ps)"
    by (rule aggregate_nodes_eq) (use assms(1) ord(1) in auto)
  from post_order_children_first [OF assms(2) ord(1)] compute_solved [OF ps ord(2)] ord(3)
  show ?thesis by (auto simp: children_first_def)
qed

section \<open>The pool of a parent\<close>

text \<open>A child counts when it may score and applies; it is usable when its value is there too.\<close>

definition counted :: "child_payload \<Rightarrow> bool" where
  "counted c \<longleftrightarrow> cp_score_enabled c \<and> cp_status c \<notin> {NNA, NInactive}"

definition usable :: "child_payload \<Rightarrow> bool" where
  "usable c \<longleftrightarrow> counted c \<and> cp_status c \<noteq> NUnknown"

definition weight_of :: "child_payload list \<Rightarrow> real" where
  "weight_of cs = sum_list (map cp_weight cs)"

lemma pool_child_eq:
  "pl_applicable (pool_child c p) = pl_applicable p @ (if counted c then [c] else [])"
  "pl_total_weight (pool_child c p) = pl_total_weight p + (if counted c then cp_weight c else 0)"
  "pl_usable_weight (pool_child c p) = pl_usable_weight p + (if usable c then cp_weight c else 0)"
  "pl_penalty_weight (pool_child c p) = pl_penalty_weight p + (if usable c then cp_weight c else 0)"
  "pl_missing_penalty_weight (pool_child c p) = pl_missing_penalty_weight p +
     (if usable c then cp_weight c * real_or (cp_confidence_penalty c) 1 else 0)"
  by (simp_all add: pool_child_def counted_def usable_def Let_def)

lemma pool_fold:
  "pl_applicable (fold pool_child cs p) = pl_applicable p @ filter counted cs"
  "pl_total_weight (fold pool_child cs p) = pl_total_weight p + weight_of (filter counted cs)"
  "pl_usable_weight (fold pool_child cs p) = pl_usable_weight p + weight_of (filter usable cs)"
  "pl_penalty_weight (fold pool_child cs p) = pl_penalty_weight p + weight_of (filter usable cs)"
  "pl_missing_penalty_weight (fold pool_child cs p) = pl_missing_penalty_weight p +
     sum_list (map (\<lambda>c. cp_weight c * real_or (cp_confidence_penalty c) 1) (filter usable cs))"
  by (induction cs arbitrary: p) (simp_all add: pool_child_eq weight_of_def)

lemma pool_facts:
  "pl_applicable (fold pool_child cs empty_pool) = filter counted cs"
  "pl_total_weight (fold pool_child cs empty_pool) = weight_of (filter counted cs)"
  "pl_usable_weight (fold pool_child cs empty_pool) = weight_of (filter usable cs)"
  "pl_penalty_weight (fold pool_child cs empty_pool) = weight_of (filter usable cs)"
  "pl_missing_penalty_weight (fold pool_child cs empty_pool) =
     sum_list (map (\<lambda>c. cp_weight c * real_or (cp_confidence_penalty c) 1) (filter usable cs))"
  by (simp_all add: pool_fold) (simp_all add: empty_pool_def)

definition weighted_score :: "(horizon_scores \<Rightarrow> real) \<Rightarrow> child_payload list \<Rightarrow> real" where
  "weighted_score sel cs =
     (if weight_of cs \<le> 0 then 0
      else sum_list (map (\<lambda>c. sel (cp_scores c) * cp_confidence c * (cp_weight c / weight_of cs)) cs))"

lemma pool_sum_eq:
  "pool_sum (fold pool_child cs empty_pool) sel = weighted_score sel (filter counted cs)"
proof -
  have "weight_of [] \<le> 0" by (simp add: weight_of_def)
  then show ?thesis
    by (auto simp: pool_sum_def weighted_score_def pool_facts
        intro!: arg_cong [where f = sum_list])
qed

definition coverage_of :: "child_payload list \<Rightarrow> real" where
  "coverage_of cs =
     (if weight_of (filter counted cs) \<le> 0 then 0
      else weight_of (filter usable cs) / weight_of (filter counted cs))"

lemma aggregate_parent_eq:
  assumes "aggregate_parent parent cs = Inr r"
  shows "nr_scores r = \<lparr>hs_score = weighted_score hs_score (filter counted cs),
                        hs_short = weighted_score hs_short (filter counted cs),
                        hs_medium = weighted_score hs_medium (filter counted cs),
                        hs_long = weighted_score hs_long (filter counted cs)\<rparr>"
    and "nr_data_coverage r = coverage_of cs"
    and "nr_missing_penalty r =
           (if 0 < weight_of (filter usable cs)
            then sum_list (map (\<lambda>c. cp_weight c * real_or (cp_confidence_penalty c) 1)
                   (filter usable cs)) / weight_of (filter usable cs) else 1)"
    and "nr_evidence_quality r = factor (dget parent ''evidence_quality'') 1"
    and "\<exists>b. base_confidence parent (fold pool_child cs empty_pool) = Inr b \<and>
           nr_confidence r = b * nr_data_coverage r * nr_evidence_quality r * nr_missing_penalty r"
  using assms
  by (auto simp: aggregate_parent_def Let_def res_bind_eq_Inr pool_sum_eq pool_facts coverage_of_def
      split: if_splits)

lemma base_confidence_cong:
  "pl_applicable p = pl_applicable q \<Longrightarrow> base_confidence parent p = base_confidence parent q"
  by (simp add: base_confidence_def)

lemma counted_usable [simp]: "counted c \<and> usable c \<longleftrightarrow> usable c"
  by (auto simp: usable_def)

lemma aggregate_counted:
  assumes "aggregate_parent parent cs = Inr r"
  shows "\<exists>n. aggregate_parent parent (filter counted cs) = Inr (r\<lparr>nr_counts := n\<rparr>)"
proof -
  let ?p = "fold pool_child cs empty_pool" and ?q = "fold pool_child (filter counted cs) empty_pool"
  have "base_confidence parent ?q = base_confidence parent ?p"
    by (rule base_confidence_cong) (simp add: pool_facts)
  moreover have "pool_sum ?q = pool_sum ?p" by (simp add: fun_eq_iff pool_sum_eq)
  moreover have "pl_usable_weight ?q = pl_usable_weight ?p" "pl_total_weight ?q = pl_total_weight ?p"
    "pl_penalty_weight ?q = pl_penalty_weight ?p"
    "pl_missing_penalty_weight ?q = pl_missing_penalty_weight ?p"
    by (simp_all add: pool_facts filter_filter)
  ultimately show ?thesis
    using assms unfolding aggregate_parent_def Let_def
    by (auto simp: res_bind_eq_Inr)
qed

text \<open>
  C4: the score of a parent, on each of the three horizons and overall, is the sum of score
  times confidence times renormalised weight over the children that may score and apply, and
  its data coverage is the share of the weight that is usable; children that are not
  applicable, inactive or not scoring change nothing but the counters.
\<close>

theorem parent_score_formula:
  assumes "aggregate_parent parent cs = Inr r"
  shows "(\<forall>sel \<in> {hs_score, hs_short, hs_medium, hs_long}.
            sel (nr_scores r) = weighted_score sel (filter counted cs)) \<and>
         nr_data_coverage r = coverage_of cs \<and>
         (\<exists>n. aggregate_parent parent (filter counted cs) = Inr (r\<lparr>nr_counts := n\<rparr>))"
  using aggregate_parent_eq(1,2) [OF assms] aggregate_counted [OF assms] by simp

section \<open>Bounds\<close>

definition in_range :: "real res \<Rightarrow> real \<Rightarrow> real \<Rightarrow> bool" where
  "in_range r lo hi \<longleftrightarrow> (case r of Inl _ \<Rightarrow> True | Inr x \<Rightarrow> lo \<le> x \<and> x \<le> hi)"

lemma in_rangeD: "in_range r lo hi \<Longrightarrow> r = Inr x \<Longrightarrow> lo \<le> x \<and> x \<le> hi"
  by (simp add: in_range_def)

text \<open>What the schema asks of the numbers of a node.\<close>

definition sane_node :: "pydict \<Rightarrow> bool" where
  "sane_node n \<longleftrightarrow>
     in_range (float_unless_none (dget n ''confidence'') (1/2)) 0 1 \<and>
     in_range (float_or n ''confidence'' (1/2)) 0 1 \<and>
     in_range (float_or n ''confidence_penalty'' 1) 0 1 \<and>
     in_range (float_or n ''neutral_value'' 0) (-1) 1 \<and>
     (case effective_weight n of Inl _ \<Rightarrow> True | Inr w \<Rightarrow> 0 \<le> w) \<and>
     0 \<le> factor (dget n ''evidence_quality'') 1 \<and> factor (dget n ''evidence_quality'') 1 \<le> 1"

definition score_bounds :: "horizon_scores \<Rightarrow> bool" where
  "score_bounds s \<longleftrightarrow>
     \<bar>hs_score s\<bar> \<le> 1 \<and> \<bar>hs_short s\<bar> \<le> 1 \<and> \<bar>hs_medium s\<bar> \<le> 1 \<and> \<bar>hs_long s\<bar> \<le> 8/5"

definition good_payload :: "child_payload \<Rightarrow> bool" where
  "good_payload c \<longleftrightarrow>
     0 \<le> cp_weight c \<and> score_bounds (cp_scores c) \<and>
     0 \<le> cp_confidence c \<and> cp_confidence c \<le> 1 \<and>
     0 \<le> cp_base_confidence c \<and> cp_base_confidence c \<le> 1 \<and>
     0 \<le> cp_confidence_penalty c \<and> cp_confidence_penalty c \<le> 1"

definition good_result :: "node_result \<Rightarrow> bool" where
  "good_result r \<longleftrightarrow>
     score_bounds (nr_scores r) \<and> 0 \<le> nr_confidence r \<and> nr_confidence r \<le> 1 \<and>
     0 \<le> nr_data_coverage r \<and> nr_data_coverage r \<le> 1"

lemma weight_of_nonneg: "\<forall>c \<in> set cs. good_payload c \<Longrightarrow> 0 \<le> weight_of (filter P cs)"
  unfolding weight_of_def by (rule sum_list_nonneg_real) (auto simp: good_payload_def)

lemma usable_le_counted:
  assumes "\<forall>c \<in> set cs. good_payload c"
  shows "weight_of (filter usable cs) \<le> weight_of (filter counted cs)"
  using sum_list_filter_le [of "filter counted cs" cp_weight usable] assms
  by (simp add: weight_of_def filter_filter good_payload_def)

lemma coverage_of_unit:
  assumes "\<forall>c \<in> set cs. good_payload c"
  shows "0 \<le> coverage_of cs \<and> coverage_of cs \<le> 1"
  using weight_of_nonneg [OF assms, of usable] usable_le_counted [OF assms]
  by (simp add: coverage_of_def divide_le_eq_1)

lemma weighted_score_bound:
  assumes "\<forall>c \<in> set cs. good_payload c" "\<forall>c \<in> set cs. \<bar>sel (cp_scores c)\<bar> \<le> B" "0 \<le> B"
  shows "\<bar>weighted_score sel cs\<bar> \<le> B"
proof (cases "weight_of cs \<le> 0")
  case False
  have "\<forall>c \<in> set cs. \<bar>sel (cp_scores c) * cp_confidence c\<bar> \<le> B"
  proof
    fix c assume c: "c \<in> set cs"
    with assms have "\<bar>sel (cp_scores c)\<bar> * cp_confidence c \<le> B * 1"
      by (intro mult_mono) (auto simp: good_payload_def)
    with c assms(1) show "\<bar>sel (cp_scores c) * cp_confidence c\<bar> \<le> B"
      by (simp add: abs_mult good_payload_def)
  qed
  with False assms(1) show ?thesis
    unfolding weighted_score_def weight_of_def
    by (simp del: times_divide_eq_right add: pool_abs_bound good_payload_def)
qed (use assms(3) in \<open>simp add: weighted_score_def\<close>)

lemma mean_unit:
  assumes "\<forall>x \<in> set xs. 0 \<le> f x \<and> f x \<le> (1 :: real)" "xs \<noteq> []"
  shows "0 \<le> sum_list (map f xs) / real (length xs) \<and> sum_list (map f xs) / real (length xs) \<le> 1"
proof -
  have "sum_list (map f xs) \<le> sum_list (map (\<lambda>_. 1) xs)"
    using assms(1) by (intro sum_list_mono_real) auto
  moreover have "0 \<le> sum_list (map f xs)" using assms(1) by (intro sum_list_nonneg_real) auto
  ultimately show ?thesis using assms(2) by (simp add: sum_list_triv divide_le_eq_1)
qed

lemma missing_penalty_unit:
  assumes "\<forall>c \<in> set cs. good_payload c" "0 < weight_of cs"
  shows "0 \<le> sum_list (map (\<lambda>c. cp_weight c * real_or (cp_confidence_penalty c) 1) cs) / weight_of cs
    \<and> sum_list (map (\<lambda>c. cp_weight c * real_or (cp_confidence_penalty c) 1) cs) / weight_of cs \<le> 1"
proof -
  have "0 \<le> real_or (cp_confidence_penalty c) 1 \<and> real_or (cp_confidence_penalty c) 1 \<le> 1"
    if "c \<in> set cs" for c using assms(1) that by (auto simp: real_or_def good_payload_def)
  then have "0 \<le> sum_list (map (\<lambda>c. cp_weight c * real_or (cp_confidence_penalty c) 1) cs)"
    "sum_list (map (\<lambda>c. cp_weight c * real_or (cp_confidence_penalty c) 1) cs) \<le> weight_of cs"
    unfolding weight_of_def using assms(1)
    by (intro sum_list_nonneg_real sum_list_mono_real ballI;
        auto simp: good_payload_def intro!: mult_left_le)+
  with assms(2) show ?thesis by simp
qed

lemma unit_abs_bounds: "0 \<le> unit_abs x \<and> unit_abs x \<le> 1"
  using agg_clip.abs_unit [of x] by (simp add: unit_abs_def)

lemma explicit_scalar_bounds:
  "explicit_scalar value ks = Some x \<Longrightarrow> 0 \<le> x \<and> x \<le> 1"
  by (induction ks) (auto simp: unit_abs_bounds split: option.splits)

lemma map_of_range: "map_of t k = Some x \<Longrightarrow> \<forall>y \<in> snd ` set t. P y \<Longrightarrow> P x"
  by (force dest: map_of_SomeD)

lemma str_entry_range: "str_entry t v = Some x \<Longrightarrow> \<forall>y \<in> snd ` set t. P y \<Longrightarrow> P x"
  by (auto simp: str_entry_def split: pyval.splits dest: map_of_range)

lemma option_scalar_bounds: "0 \<le> option_scalar value \<and> option_scalar value \<le> 1"
  by (simp add: option_scalar_def Let_def unit_abs_bounds)

lemma dict_scalar_bounds: "0 \<le> dict_scalar value \<and> dict_scalar value \<le> 1"
proof -
  have m: "\<forall>y \<in> snd ` set magnitude_table. 0 \<le> y \<and> y \<le> 1" by (simp add: magnitude_table_def)
  have t: "\<forall>y \<in> snd ` set trend_table. 0 \<le> \<bar>y\<bar> \<and> \<bar>y\<bar> \<le> 1" by (simp add: trend_table_def)
  show ?thesis
    unfolding dict_scalar_def
    using explicit_scalar_bounds option_scalar_bounds unit_abs_bounds
      str_entry_range [OF _ m] str_entry_range [OF _ t]
    by (auto split: option.splits)
qed

lemma to_scalar_bounds: "0 \<le> to_scalar v \<and> to_scalar v \<le> 1"
  by (auto simp: to_scalar_def unit_abs_bounds dict_scalar_bounds split: pyval.splits)

lemma direction_sign_bound:
  assumes "direction_sign v = Inr d"
  shows "\<bar>d\<bar> \<le> 1"
proof -
  have t: "\<forall>y \<in> snd ` set direction_table. \<bar>y\<bar> \<le> 1" by (simp add: direction_table_def)
  show ?thesis
    using assms map_of_range [OF _ t]
    by (auto simp: direction_sign_def res_map_eq_Inr split: pyval.splits option.splits)
qed

lemma recency_bounds: "0 \<le> recency now v h \<and> recency now v h \<le> 1"
proof (cases "\<not> truthy v \<or> from_iso (replace_char CHR ''Z'' ''+00:00'' (py_str v)) = None \<or> h \<le> 0")
  case True
  then show ?thesis by (auto simp: recency_def Let_def split: option.splits)
next
  case False
  then obtain dt where "recency now v h = exp (- ln 2 * max 0 ((now - dt) / 86400) / h)" "0 < h"
    by (auto simp: recency_def Let_def)
  moreover have "- ln 2 * max 0 ((now - dt) / 86400) / h \<le> (0 :: real)" if "0 < h"
    using that by (intro divide_nonpos_pos mult_nonpos_nonneg) auto
  ultimately show ?thesis by simp
qed

lemma abs_mult_unit: "\<bar>a\<bar> \<le> 1 \<Longrightarrow> 0 \<le> b \<Longrightarrow> b \<le> 1 \<Longrightarrow> \<bar>a * b\<bar> \<le> (1 :: real)"
  using mult_mono [of "\<bar>a\<bar>" 1 b 1] by (simp add: abs_mult)

lemma abs_mult3_unit:
  "\<bar>a\<bar> \<le> 1 \<Longrightarrow> 0 \<le> b \<Longrightarrow> b \<le> 1 \<Longrightarrow> 0 \<le> c \<Longrightarrow> c \<le> 1 \<Longrightarrow> \<bar>a * b * c\<bar> \<le> (1 :: real)"
  by (intro abs_mult_unit) auto

lemma classify_horizon_cases:
  "classify_horizon a b \<in> {short_mix, long_mix, medium_mix, default_mix}"
  by (simp add: classify_horizon_def Let_def)

lemma spread_bounds:
  assumes "\<bar>x\<bar> \<le> 1" "\<bar>f\<bar> \<le> 1"
  shows "score_bounds (spread (classify_horizon a b) x f)"
proof -
  have "\<bar>x * w + f\<bar> \<le> 8/5" if "0 \<le> w" "w \<le> 3/5" for w
  proof -
    have "\<bar>x * w\<bar> \<le> 1 * (3/5)" unfolding abs_mult using assms(1) that by (intro mult_mono) auto
    with assms(2) show ?thesis using abs_triangle_ineq [of "x * w" f] by linarith
  qed
  then show ?thesis
    using classify_horizon_cases [of a b] assms(1) abs_mult_unit [of x]
    by (auto simp: spread_def score_bounds_def short_mix_def long_mix_def medium_mix_def
        default_mix_def simp del: times_divide_eq_right times_divide_eq_left)
qed

lemma future_option_bound:
  "\<bar>d\<bar> \<le> 1 \<Longrightarrow> 0 \<le> r \<Longrightarrow> r \<le> 1 \<Longrightarrow> \<bar>future_option node st d r\<bar> \<le> 1"
  using abs_mult3_unit [of d] unit_abs_bounds
  by (auto simp: future_option_def Let_def split: pyval.splits node_state.splits)

lemma leaf_branch_bounds:
  assumes "leaf_branch node st d conf r pen = Inr (x, c, tag)"
    and "\<bar>d\<bar> \<le> 1" "0 \<le> r" "r \<le> 1" "0 \<le> conf" "conf \<le> 1" "0 \<le> pen" "pen \<le> 1"
    and "in_range (float_or node ''neutral_value'' 0) (-1) 1"
  shows "\<bar>x\<bar> \<le> 1 \<and> 0 \<le> c \<and> c \<le> 1"
proof -
  have cp: "0 \<le> conf * pen \<and> conf * pen \<le> 1" using assms by (intro mult_unit_interval)
  have ts: "\<bar>d * to_scalar v * r\<bar> \<le> 1" for v
    using assms to_scalar_bounds by (intro abs_mult3_unit) auto
  have cl: "\<bar>clip_agg y (-1) 1 * r\<bar> \<le> 1" for y
    using assms agg_clip.abs_unit by (intro abs_mult_unit)
  have nv: "\<bar>d * \<bar>y\<bar> * r\<bar> \<le> 1" if "float_or node ''neutral_value'' 0 = Inr y" for y
    using in_rangeD [OF assms(9) that] assms by (intro abs_mult3_unit) auto
  show ?thesis
    using assms(1,5,6) cp ts cl nv
    by (auto simp: leaf_branch_def res_bind_eq_Inr split: if_splits node_state.splits)
qed

lemma sane_nodeD:
  assumes "sane_node n"
  shows "float_unless_none (dget n ''confidence'') (1/2) = Inr x \<Longrightarrow> 0 \<le> x \<and> x \<le> 1"
    and "float_or n ''confidence'' (1/2) = Inr x \<Longrightarrow> 0 \<le> x \<and> x \<le> 1"
    and "float_or n ''confidence_penalty'' 1 = Inr x \<Longrightarrow> 0 \<le> x \<and> x \<le> 1"
    and "in_range (float_or n ''neutral_value'' 0) (-1) 1"
    and "effective_weight n = Inr x \<Longrightarrow> 0 \<le> x"
    and "0 \<le> factor (dget n ''evidence_quality'') 1 \<and> factor (dget n ''evidence_quality'') 1 \<le> 1"
  using assms by (auto simp: sane_node_def dest: in_rangeD)

lemma leaf_score_bounds:
  assumes "leaf_score now node = Inr l" "sane_node node"
  shows "score_bounds (lf_scores l) \<and> 0 \<le> lf_confidence l \<and> lf_confidence l \<le> 1 \<and>
    0 \<le> lf_base_confidence l \<and> lf_base_confidence l \<le> 1 \<and>
    0 \<le> lf_confidence_penalty l \<and> lf_confidence_penalty l \<le> 1"
proof -
  let ?r = "recency now (dget node ''last_updated'') recency_halflife_days"
  from assms(1) obtain st d base pen x c tag gov where
    d: "direction_sign (dget node ''direction'') = Inr d"
    and b: "float_unless_none (dget node ''confidence'') (1/2) = Inr base"
    and p: "float_or node ''confidence_penalty'' 1 = Inr pen"
    and br: "leaf_branch node st d base ?r pen = Inr (x, c, tag)"
    and l: "l = \<lparr>lf_scores = spread (classify_horizon (dget node ''dp_id'') (dget node ''node_name''))
                   x (future_option node st d ?r), lf_confidence = c, lf_base_confidence = base,
                 lf_status = st, lf_score_enabled = node_score_enabled node,
                 lf_missing_balance = tag, lf_confidence_penalty = pen,
                 lf_proxy_used = dget node ''proxy_used'', lf_governance = gov\<rparr>"
    by (auto simp: leaf_score_def Let_def res_bind_eq_Inr)
  note r = recency_bounds [of now "dget node ''last_updated''" recency_halflife_days]
  note db = direction_sign_bound [OF d]
  note bb = sane_nodeD(1) [OF assms(2) b] and pb = sane_nodeD(3) [OF assms(2) p]
  have "\<bar>x\<bar> \<le> 1 \<and> 0 \<le> c \<and> c \<le> 1"
    using leaf_branch_bounds [OF br db] r bb pb sane_nodeD(4) [OF assms(2)] by simp
  with bb pb l spread_bounds future_option_bound [OF db] r show ?thesis by simp
qed

lemma leaf_step_good:
  assumes "leaf_step now node = Inr (rep, c)" "sane_node node"
  shows "good_result (rp_result rep) \<and> good_payload c"
proof -
  from assms(1) obtain l w where l: "leaf_score now node = Inr l" and w: "effective_weight node = Inr w"
    by (auto simp: leaf_step_def res_bind_eq_Inr)
  with assms leaf_score_bounds [OF l assms(2)] sane_nodeD(5) [OF assms(2) w] show ?thesis
    by (auto simp: leaf_step_def Let_def good_result_def good_payload_def leaf_coverage_def)
qed

lemma base_confidence_unit:
  assumes "base_confidence parent (fold pool_child cs empty_pool) = Inr b"
    and "\<forall>c \<in> set cs. good_payload c" "filter counted cs \<noteq> []"
  shows "0 \<le> b \<and> b \<le> 1"
  using assms mean_unit [of "filter counted cs" cp_base_confidence]
  by (auto simp: base_confidence_def pool_facts good_payload_def)

lemma aggregate_parent_good:
  assumes "aggregate_parent parent cs = Inr r" "\<forall>c \<in> set cs. good_payload c" "sane_node parent"
  shows "good_result r"
proof -
  note eq = aggregate_parent_eq [OF assms(1)]
  have sub: "\<forall>c \<in> set (filter P cs). good_payload c" for P using assms(2) by simp
  have sc: "score_bounds (nr_scores r)"
  proof -
    have "\<bar>weighted_score sel (filter counted cs)\<bar> \<le> B"
      if "\<forall>c \<in> set cs. \<bar>sel (cp_scores c)\<bar> \<le> B" "0 \<le> B" for sel B
      using that by (intro weighted_score_bound sub) auto
    from this [of hs_score 1] this [of hs_short 1] this [of hs_medium 1] this [of hs_long "8/5"]
      assms(2) show ?thesis by (simp add: score_bounds_def eq(1) good_payload_def)
  qed
  have cov: "0 \<le> nr_data_coverage r \<and> nr_data_coverage r \<le> 1"
    using coverage_of_unit [OF assms(2)] eq(2) by simp
  have pen: "0 \<le> nr_missing_penalty r \<and> nr_missing_penalty r \<le> 1"
    using missing_penalty_unit [OF sub] by (simp add: eq(3))
  have ev: "0 \<le> nr_evidence_quality r \<and> nr_evidence_quality r \<le> 1"
    using sane_nodeD(6) [OF assms(3)] eq(4) by simp
  from eq(5) obtain b where b: "base_confidence parent (fold pool_child cs empty_pool) = Inr b"
    and c: "nr_confidence r = b * nr_data_coverage r * nr_evidence_quality r * nr_missing_penalty r"
    by blast
  have "0 \<le> nr_confidence r \<and> nr_confidence r \<le> 1"
  proof (cases "filter counted cs = []")
    case True
    then have "nr_data_coverage r = 0" by (simp add: eq(2) coverage_of_def weight_of_def)
    with c show ?thesis by simp
  next
    case False
    note bu = base_confidence_unit [OF b assms(2) False]
    have "0 \<le> b * nr_data_coverage r \<and> b * nr_data_coverage r \<le> 1"
      using bu cov by (intro mult_unit_interval) auto
    then have "0 \<le> b * nr_data_coverage r * nr_evidence_quality r \<and>
        b * nr_data_coverage r * nr_evidence_quality r \<le> 1"
      using ev by (intro mult_unit_interval) auto
    then show ?thesis unfolding c using pen by (intro mult_unit_interval) auto
  qed
  with sc cov show ?thesis by (simp add: good_result_def)
qed

lemma parent_step_good:
  assumes "parent_step node cs = Inr (rep, c)" "\<forall>c \<in> set cs. good_payload c" "sane_node node"
  shows "good_result (rp_result rep) \<and> good_payload c"
proof -
  from assms(1) obtain r w base pen where r: "aggregate_parent node cs = Inr r"
    and w: "effective_weight node = Inr w" and b: "float_or node ''confidence'' (1/2) = Inr base"
    and p: "float_or node ''confidence_penalty'' 1 = Inr pen"
    and rep: "rp_result rep = r" "cp_weight c = w" "cp_scores c = nr_scores r"
      "cp_confidence c = real_or (nr_confidence r) (1/2)" "cp_base_confidence c = base"
      "cp_confidence_penalty c = pen"
    by (auto simp: parent_step_def res_bind_eq_Inr)
  from aggregate_parent_good [OF r assms(2,3)] rep sane_nodeD(2) [OF assms(3) b]
    sane_nodeD(3) [OF assms(3) p] sane_nodeD(5) [OF assms(3) w]
  show ?thesis by (auto simp: good_payload_def good_result_def real_or_def)
qed

definition good_state :: "agg_state \<Rightarrow> bool" where
  "good_state s \<longleftrightarrow>
     (\<forall>k r. map_of (fst s) k = Some r \<longrightarrow> good_result (rp_result r)) \<and>
     (\<forall>k c. map_of (snd s) k = Some c \<longrightarrow> good_payload c)"

lemma map_filter_good: "good_state (rs, ps) \<Longrightarrow>
    \<forall>c \<in> set (List.map_filter (map_of ps) ks). good_payload c"
  by (induction ks) (auto simp: good_state_def List.map_filter_simps split: option.splits)

lemma compute_node_good:
  assumes "compute_node now nodes adj nid s = Inr s'" "good_state s" "sane_node (entry nodes nid)"
  shows "good_state s'"
proof (cases s)
  case (Pair rs ps)
  with assms(1) obtain r c where s': "s' = (dput nid r rs, dput nid c ps)"
    and step: "node_step now (entry nodes nid) (kids adj nid)
       (List.map_filter (map_of ps) (kids adj nid)) = Inr (r, c)" by (metis compute_node_eq)
  have "good_result (rp_result r) \<and> good_payload c"
  proof (cases "kids adj nid = []")
    case True
    with step assms(3) show ?thesis by (auto simp: node_step_def dest: leaf_step_good)
  next
    case False
    with step have "parent_step (entry nodes nid)
        (List.map_filter (map_of ps) (kids adj nid)) = Inr (r, c)" by (simp add: node_step_def)
    moreover have "\<forall>c \<in> set (List.map_filter (map_of ps) (kids adj nid)). good_payload c"
      using assms(2) Pair by (intro map_filter_good) simp
    ultimately show ?thesis using assms(3) by (rule parent_step_good)
  qed
  with assms(2) Pair s' show ?thesis by (auto simp: good_state_def map_of_dput)
qed

text \<open>
  C5: when the numbers of every node are in the ranges of the schema, every score of the
  report lies in [-1, 1] (the long-horizon score in [-1.6, 1.6], because an Optionality leaf
  adds its future value there), and every confidence and every data coverage lies in [0, 1];
  cyclic overlays included.
\<close>

theorem scores_bounded:
  assumes "\<forall>k \<in> fst ` set nodes. sane_node (entry nodes k)"
    and "aggregate_nodes now nodes = Inr rs" and "map_of rs k = Some rep"
  shows "\<bar>hs_score (nr_scores (rp_result rep))\<bar> \<le> 1 \<and>
         \<bar>hs_short (nr_scores (rp_result rep))\<bar> \<le> 1 \<and>
         \<bar>hs_medium (nr_scores (rp_result rep))\<bar> \<le> 1 \<and>
         \<bar>hs_long (nr_scores (rp_result rep))\<bar> \<le> 8/5 \<and>
         0 \<le> nr_confidence (rp_result rep) \<and> nr_confidence (rp_result rep) \<le> 1 \<and>
         0 \<le> nr_data_coverage (rp_result rep) \<and> nr_data_coverage (rp_result rep) \<le> 1"
proof -
  from assms(2) obtain adj ord ps where adj: "children_by_parent nodes = Inr adj"
    and po: "post_order adj (map fst nodes) = Inr ord"
    and ps: "res_fold (compute_node now nodes adj) ord ([], []) = Inr (rs, ps)"
    by (rule aggregate_nodes_eq)
  have ord: "set ord = fst ` set nodes" using post_order_of_nodes [OF adj] po by auto
  have "good_state ([], [])" by (simp add: good_state_def)
  with ps have "good_state (rs, ps)"
  proof (rule res_fold_invariant [where P = good_state])
    fix nid s s'
    assume "nid \<in> set ord" "good_state s" "compute_node now nodes adj nid s = Inr s'"
    with ord assms(1) show "good_state s'" by (intro compute_node_good [of now nodes adj nid s s']) auto
  qed
  with assms(3) have "good_result (rp_result rep)" by (auto simp: good_state_def)
  then show ?thesis by (simp add: good_result_def score_bounds_def)
qed

section \<open>Proxy promotion\<close>

lemma find_candidate_Some:
  "find_candidate nodes nid cs = Inr (Some c) \<Longrightarrow>
   \<exists>k \<in> set cs. k \<noteq> nid \<and> c = entry nodes k \<and> has_usable_value (dget c ''value'') \<and>
     (node_status c = Inr NKnown \<or> node_status c = Inr NProxy)"
  by (induction cs) (auto simp: res_bind_eq_Inr split: if_splits)

lemma entry_dput: "entry (dput k n nodes) k' = (if k' = k then n else entry nodes k')"
  by (simp add: entry_def map_of_dput)

lemma promote_eq:
  assumes "promote c n = Inr n'"
  shows "dget n' ''value'' = dget c ''value''" "node_status n' = Inr NProxy"
    "\<exists>x. dget n' ''confidence_penalty'' = PFloat x \<and> x \<le> 3/4"
    "\<forall>k. k \<notin> {''value'', ''data_status'', ''status'', ''proxy_used'', ''confidence_penalty''} \<longrightarrow>
       dget n' k = dget n k"
proof -
  from assms obtain p where n': "n' = dput ''confidence_penalty'' (PFloat (min p (3/4)))
        (dput ''proxy_used'' (PDict [(''dp_id'', dget c ''dp_id''), (''node_id'', dget c ''node_id'')])
        (dput ''status'' (PStr ''Proxy'') (dput ''data_status'' (PStr ''Proxy'')
        (dput ''value'' (dget c ''value'') n))))"
    by (auto simp: promote_def res_map_eq_Inr)
  show "dget n' ''value'' = dget c ''value''" by (simp add: n' dget_dput)
  have "py_lower (py_strip ''Proxy'') = ''proxy''" by (simp add: str_eval)
  then show "node_status n' = Inr NProxy"
    by (simp add: node_status_def n' dget_dput py_or_def node_state_table_def)
  show "\<exists>x. dget n' ''confidence_penalty'' = PFloat x \<and> x \<le> 3/4" by (simp add: n' dget_dput)
  show "\<forall>k. k \<notin> {''value'', ''data_status'', ''status'', ''proxy_used'', ''confidence_penalty''} \<longrightarrow>
       dget n' k = dget n k" by (simp add: n' dget_dput)
qed

text \<open>The nodes that a proxy candidate list names.\<close>

definition named_by :: "node_table \<Rightarrow> pyval list \<Rightarrow> pykey \<Rightarrow> bool" where
  "named_by nodes dps c \<longleftrightarrow>
     c \<in> fst ` set nodes \<and> truthy (dget (entry nodes c) ''dp_id'') \<and>
     py_str (dget (entry nodes c) ''dp_id'') \<in> py_str ` set dps"

lemma add_dp_bucket:
  "c \<in> set (dlist (add_dp kn t) k) \<longleftrightarrow> c \<in> set (dlist t k) \<or>
     (truthy (dget (snd kn) ''dp_id'') \<and> py_str (dget (snd kn) ''dp_id'') = k \<and> fst kn = c)"
  by (auto simp: add_dp_def Let_def dlist_dput)

lemma fold_add_dp:
  "c \<in> set (dlist (fold add_dp nodes t) k) \<longleftrightarrow> c \<in> set (dlist t k) \<or>
     (\<exists>n. (c, n) \<in> set nodes \<and> truthy (dget n ''dp_id'') \<and> py_str (dget n ''dp_id'') = k)"
proof (induction nodes arbitrary: t)
  case (Cons kn nodes)
  from Cons.IH [of "add_dp kn t"] show ?case by (cases kn) (auto simp: add_dp_bucket)
qed simp

lemma dp_candidates_named:
  assumes "dict_wf nodes"
  shows "c \<in> set (dp_candidates (nodes_by_dp nodes) dps) \<longleftrightarrow> named_by nodes dps c"
proof -
  have e: "(c, n) \<in> set nodes \<longleftrightarrow> c \<in> fst ` set nodes \<and> n = entry nodes c" for n
    using assms map_of_is_SomeI [of nodes c] by (force simp: dict_wf_def entry_def)
  have "c \<in> set (dp_candidates (nodes_by_dp nodes) dps) \<longleftrightarrow>
      (\<exists>dp \<in> set dps. c \<in> set (dlist (fold add_dp nodes []) (py_str dp)))"
    by (simp add: dp_candidates_def nodes_by_dp_def)
  also have "\<dots> \<longleftrightarrow> named_by nodes dps c"
    unfolding fold_add_dp by (auto simp: e named_by_def)
  finally show ?thesis .
qed

lemma proxy_step_cases:
  assumes "proxy_step by_dp nid t = Inr t'"
  shows "t' = t \<or>
    (\<exists>dps c n. node_status (entry t nid) = Inr NUnavailable \<and>
       py_list_or (entry t nid) ''proxy_candidates'' = Inr dps \<and>
       find_candidate t nid (dp_candidates by_dp dps) = Inr (Some c) \<and>
       promote c (entry t nid) = Inr n \<and> t' = dput nid n t)"
  using assms
  by (auto simp: proxy_step_def Let_def res_bind_eq_Inr res_map_eq_Inr split: if_splits option.splits)

lemma proxy_step_other: "proxy_step by_dp nid t = Inr t' \<Longrightarrow> k \<noteq> nid \<Longrightarrow> entry t' k = entry t k"
  by (drule proxy_step_cases) (auto simp: entry_dput)

lemma proxy_fold_other:
  "res_fold (proxy_step by_dp) ns t = Inr t' \<Longrightarrow> k \<notin> set ns \<Longrightarrow> entry t' k = entry t k"
  by (induction ns arbitrary: t) (auto simp: res_bind_eq_Inr proxy_step_other)

definition untouched_fields :: "pydict \<Rightarrow> pydict \<Rightarrow> bool" where
  "untouched_fields n n' \<longleftrightarrow>
     (\<forall>k. k \<notin> {''value'', ''data_status'', ''status'', ''proxy_used'', ''confidence_penalty''} \<longrightarrow>
          dget n' k = dget n k)"

text \<open>Node \<open>k\<close> took the value of the available node \<open>c\<close> that its candidate list names.\<close>

definition promoted :: "node_table \<Rightarrow> node_table \<Rightarrow> pykey \<Rightarrow> bool" where
  "promoted nodes t k \<longleftrightarrow>
     node_status (entry nodes k) = Inr NUnavailable \<and> node_status (entry t k) = Inr NProxy \<and>
     untouched_fields (entry nodes k) (entry t k) \<and>
     (\<exists>x. dget (entry t k) ''confidence_penalty'' = PFloat x \<and> x \<le> 3/4) \<and>
     (\<exists>dps c. py_list_or (entry nodes k) ''proxy_candidates'' = Inr dps \<and> c \<noteq> k \<and>
        named_by nodes dps c \<and>
        (node_status (entry t c) = Inr NKnown \<or> node_status (entry t c) = Inr NProxy) \<and>
        has_usable_value (dget (entry t k) ''value'') \<and>
        dget (entry t k) ''value'' = dget (entry t c) ''value'')"

definition promotion_ok :: "node_table \<Rightarrow> node_table \<Rightarrow> bool" where
  "promotion_ok nodes t \<longleftrightarrow>
     map fst t = map fst nodes \<and> (\<forall>k. entry t k = entry nodes k \<or> promoted nodes t k)"

lemma promoted_other:
  assumes "promoted nodes t k" "node_status (entry t nid) = Inr NUnavailable"
  shows "promoted nodes (dput nid n t) k"
proof -
  from assms have k: "k \<noteq> nid" by (auto simp: promoted_def)
  moreover have "c \<noteq> nid" if "node_status (entry t c) = Inr NKnown \<or> node_status (entry t c) = Inr NProxy" for c
    using that assms(2) by auto
  ultimately show ?thesis using assms(1) unfolding promoted_def by (simp add: entry_dput) metis
qed

lemma promotion_step:
  assumes "proxy_step (nodes_by_dp nodes) nid t = Inr t'" "promotion_ok nodes t" "dict_wf nodes"
    "nid \<in> fst ` set nodes"
  shows "promotion_ok nodes t'"
  using proxy_step_cases [OF assms(1)]
proof (elim disjE exE conjE)
  fix dps c n
  assume u: "node_status (entry t nid) = Inr NUnavailable"
    and dps: "py_list_or (entry t nid) ''proxy_candidates'' = Inr dps"
    and c: "find_candidate t nid (dp_candidates (nodes_by_dp nodes) dps) = Inr (Some c)"
    and n: "promote c (entry t nid) = Inr n" and t': "t' = dput nid n t"
  have same: "entry t nid = entry nodes nid"
    using assms(2) u by (auto simp: promotion_ok_def promoted_def)
  from find_candidate_Some [OF c] obtain k where k: "named_by nodes dps k" "k \<noteq> nid"
    "c = entry t k" "has_usable_value (dget c ''value'')"
    "node_status c = Inr NKnown \<or> node_status c = Inr NProxy"
    using dp_candidates_named [OF assms(3)] by auto
  note pn = promote_eq [OF n]
  have nid: "promoted nodes t' nid"
    unfolding promoted_def untouched_fields_def t'
    using u dps same pn k by (auto simp: entry_dput intro!: exI [of _ k])
  have "nid \<in> set (map fst t)" using assms(2,4) by (simp only: promotion_ok_def set_map)
  then have "map fst t' = map fst nodes"
    using assms(2) unfolding t' promotion_ok_def by (simp add: map_fst_dput)
  moreover have "entry t' k = entry nodes k \<or> promoted nodes t' k" for k
    using nid assms(2) promoted_other [OF _ u, of nodes k n]
    by (cases "k = nid") (auto simp: t' entry_dput promotion_ok_def)
  ultimately show ?thesis by (simp add: promotion_ok_def)
qed (use assms(2) in simp)

lemma find_candidate_None:
  assumes "find_candidate t nid cs = Inr None" "c \<in> set cs" "c \<noteq> nid"
    "node_status (entry t c) = Inr NKnown"
  shows "\<not> has_usable_value (dget (entry t c) ''value'')"
  using assms by (induction cs) (auto simp: res_bind_eq_Inr split: if_splits)

lemma promotion_complete:
  assumes "res_fold (proxy_step (nodes_by_dp nodes)) (map fst nodes) nodes = Inr nodes'"
    and wf: "dict_wf nodes" and ok: "promotion_ok nodes nodes'"
    and u: "node_status (entry nodes k) = Inr NUnavailable" and "k \<in> fst ` set nodes"
    and dps: "py_list_or (entry nodes k) ''proxy_candidates'' = Inr dps"
    and c: "named_by nodes dps c" "node_status (entry nodes c) = Inr NKnown"
      "has_usable_value (dget (entry nodes c) ''value'')"
  shows "promoted nodes nodes' k"
proof (rule ccontr)
  assume n: "\<not> promoted nodes nodes' k"
  with ok have same: "entry nodes' k = entry nodes k" by (auto simp: promotion_ok_def)
  have "k \<in> set (map fst nodes)" using assms(5) by simp
  then obtain pre post where sp: "map fst nodes = pre @ k # post" by (meson split_list)
  with wf have d: "k \<notin> set pre" "k \<notin> set post" by (auto simp: dict_wf_def)
  from assms(1) sp obtain t t' where t: "res_fold (proxy_step (nodes_by_dp nodes)) pre nodes = Inr t"
    "proxy_step (nodes_by_dp nodes) k t = Inr t'"
    "res_fold (proxy_step (nodes_by_dp nodes)) post t' = Inr nodes'"
    by (auto simp: res_fold_append res_bind_eq_Inr)
  have "promotion_ok nodes t"
  proof (rule res_fold_invariant [where P = "promotion_ok nodes", OF t(1)])
    fix nid s s'
    assume "nid \<in> set pre" "promotion_ok nodes s" "proxy_step (nodes_by_dp nodes) nid s = Inr s'"
    moreover have "set pre \<subseteq> fst ` set nodes" using sp by (metis set_append set_map sup_ge1)
    ultimately show "promotion_ok nodes s'" using promotion_step [OF _ _ wf] by blast
  qed (simp add: promotion_ok_def)
  with c(2) have tc: "entry t c = entry nodes c" by (auto simp: promotion_ok_def promoted_def)
  have tk: "entry t k = entry nodes k" using proxy_fold_other [OF t(1) d(1)] by simp
  have t'k: "entry t' k = entry nodes k" using proxy_fold_other [OF t(3) d(2)] same by simp
  have "c \<noteq> k" using u c(2) by auto
  moreover have "c \<in> set (dp_candidates (nodes_by_dp nodes) dps)"
    using dp_candidates_named [OF wf] c(1) by simp
  ultimately have nn: "find_candidate t k (dp_candidates (nodes_by_dp nodes) dps) \<noteq> Inr None"
    using find_candidate_None [of t k _ c] c(2,3) unfolding tc by blast
  with t(2) u tk dps obtain c' n where "promote c' (entry t k) = Inr n" "t' = dput k n t"
    by (auto simp: proxy_step_def Let_def res_bind_eq_Inr res_map_eq_Inr split: option.splits)
  then have "node_status (entry t' k) = Inr NProxy" using promote_eq(2) by (simp add: entry_dput)
  with t'k u show False by simp
qed

lemma promotion_sound:
  assumes "apply_proxy_candidates nodes = Inr nodes'" "dict_wf nodes"
  shows "promotion_ok nodes nodes'"
proof -
  have "promotion_ok nodes nodes" by (simp add: promotion_ok_def)
  with assms(1) show ?thesis
    unfolding apply_proxy_candidates_def
  proof (rule res_fold_invariant [where P = "promotion_ok nodes"])
    fix nid s s'
    assume "nid \<in> set (map fst nodes)" "promotion_ok nodes s"
      "proxy_step (nodes_by_dp nodes) nid s = Inr s'"
    then show "promotion_ok nodes s'" using promotion_step [OF _ _ assms(2)] by simp
  qed
qed

text \<open>
  proxy promotion replaces only nodes that are Unavailable; such a node takes the value of
  an available node that its candidate list names, gets the status Proxy and a penalty of at
  most 0.75, and keeps every other field; and an Unavailable node that names a Known node with
  a value is always promoted.
\<close>

theorem proxy_promotion:
  assumes "apply_proxy_candidates nodes = Inr nodes'" "dict_wf nodes"
  shows "map fst nodes' = map fst nodes \<and>
    (\<forall>k. entry nodes' k = entry nodes k \<or> promoted nodes nodes' k) \<and>
    (\<forall>k dps c. k \<in> fst ` set nodes \<longrightarrow> node_status (entry nodes k) = Inr NUnavailable \<longrightarrow>
       py_list_or (entry nodes k) ''proxy_candidates'' = Inr dps \<longrightarrow> named_by nodes dps c \<longrightarrow>
       node_status (entry nodes c) = Inr NKnown \<longrightarrow>
       has_usable_value (dget (entry nodes c) ''value'') \<longrightarrow> promoted nodes nodes' k)"
proof (intro conjI allI impI)
  note ok = promotion_sound [OF assms]
  then show "map fst nodes' = map fst nodes"
    and "entry nodes' k = entry nodes k \<or> promoted nodes nodes' k" for k
    by (simp_all add: promotion_ok_def)
  show "promoted nodes nodes' k"
    if "k \<in> fst ` set nodes" "node_status (entry nodes k) = Inr NUnavailable"
      "py_list_or (entry nodes k) ''proxy_candidates'' = Inr dps" "named_by nodes dps c"
      "node_status (entry nodes c) = Inr NKnown" "has_usable_value (dget (entry nodes c) ''value'')"
    for k dps c
    using promotion_complete [OF assms(1) [unfolded apply_proxy_candidates_def] assms(2) ok] that
    by blast
qed

section \<open>Absence of errors\<close>

text \<open>The casts and lookups that the traversal makes on one node all succeed.\<close>

definition castable :: "pydict \<Rightarrow> bool" where
  "castable n \<longleftrightarrow>
     returns (node_status n) \<and> returns (direction_sign (dget n ''direction'')) \<and>
     returns (float_unless_none (dget n ''confidence'') (1/2)) \<and>
     returns (float_or n ''confidence'' (1/2)) \<and>
     returns (as_factor (py_or (dget n ''confidence'') (PFloat (1/2)))) \<and>
     returns (float_or n ''confidence_penalty'' 1) \<and> returns (float_or n ''neutral_value'' 0) \<and>
     returns (float_or n ''min_required_coverage'' (1/2)) \<and>
     returns (is_multiplier_node n) \<and> returns (py_list_or n ''proxy_candidates'') \<and>
     returns (effective_weight n) \<and> returns (py_key (dget n ''parent_node''))"

lemma castableD:
  assumes "castable n"
  obtains st d c c' f pen neu cov mult dps w where
    "node_status n = Inr st" "direction_sign (dget n ''direction'') = Inr d"
    "float_unless_none (dget n ''confidence'') (1/2) = Inr c"
    "float_or n ''confidence'' (1/2) = Inr c'"
    "as_factor (py_or (dget n ''confidence'') (PFloat (1/2))) = Inr f"
    "float_or n ''confidence_penalty'' 1 = Inr pen" "float_or n ''neutral_value'' 0 = Inr neu"
    "float_or n ''min_required_coverage'' (1/2) = Inr cov"
    "is_multiplier_node n = Inr mult" "py_list_or n ''proxy_candidates'' = Inr dps"
    "effective_weight n = Inr w"
  using assms unfolding castable_def returns_iff by blast

lemma leaf_branch_returns:
  "float_or n ''neutral_value'' 0 = Inr x \<Longrightarrow> is_multiplier_node n = Inr m \<Longrightarrow>
   returns (leaf_branch n st d c r pen)"
  by (simp add: leaf_branch_def split: node_state.split)

lemma leaf_step_returns:
  assumes "castable n"
  shows "returns (leaf_step now n)"
  using assms
proof (rule castableD)
  fix st d c c' f pen neu cov mult dps w
  assume a: "node_status n = Inr st" "direction_sign (dget n ''direction'') = Inr d"
    "float_unless_none (dget n ''confidence'') (1/2) = Inr c"
    "float_or n ''confidence_penalty'' 1 = Inr pen" "float_or n ''neutral_value'' 0 = Inr neu"
    "float_or n ''min_required_coverage'' (1/2) = Inr cov"
    "is_multiplier_node n = Inr mult" "py_list_or n ''proxy_candidates'' = Inr dps"
    "effective_weight n = Inr w"
  obtain x y z where "leaf_branch n st d c (recency now (dget n ''last_updated'') recency_halflife_days)
      pen = Inr (x, y, z)"
    using leaf_branch_returns [OF a(5,7)] unfolding returns_iff by (metis prod_cases3)
  with a show ?thesis
    by (simp add: leaf_step_def leaf_score_def governance_payload_def Let_def)
qed

lemma parent_step_returns:
  assumes "castable n"
  shows "returns (parent_step n cs)"
  using assms
proof (rule castableD)
  fix st d c c' f pen neu cov mult dps w
  assume a: "node_status n = Inr st" "float_or n ''confidence'' (1/2) = Inr c'"
    "as_factor (py_or (dget n ''confidence'') (PFloat (1/2))) = Inr f"
    "float_or n ''confidence_penalty'' 1 = Inr pen" "float_or n ''neutral_value'' 0 = Inr neu"
    "float_or n ''min_required_coverage'' (1/2) = Inr cov"
    "py_list_or n ''proxy_candidates'' = Inr dps" "effective_weight n = Inr w"
  then obtain b where "base_confidence n (fold pool_child cs empty_pool) = Inr b"
    by (cases "pl_applicable (fold pool_child cs empty_pool) = []") (auto simp: base_confidence_def)
  with a show ?thesis
    by (simp add: parent_step_def aggregate_parent_def governance_payload_def Let_def)
qed

lemma compute_node_returns:
  "castable (entry nodes nid) \<Longrightarrow> returns (compute_node now nodes adj nid s)"
  by (cases s) (simp add: compute_node_def node_step_def Let_def leaf_step_returns parent_step_returns)

lemma res_fold_returns:
  "\<forall>x \<in> set xs. \<forall>s. returns (f x s) \<Longrightarrow> returns (res_fold f xs s)"
  by (induction xs arbitrary: s) (auto simp: returns_bind, simp add: returns_iff)

lemma link_child_returns: "castable (snd kn) \<Longrightarrow> returns (link_child nodes kn adj)"
  by (cases kn) (simp add: link_child_def castable_def Let_def)

lemma castable_aggregate:
  assumes "dict_wf nodes" "\<forall>n \<in> snd ` set nodes. castable n"
  shows "\<exists>rs. aggregate_nodes now nodes = Inr rs"
proof -
  have e: "\<forall>nid \<in> fst ` set nodes. castable (entry nodes nid)"
    using assms map_of_is_SomeI [of nodes] by (fastforce simp: dict_wf_def entry_def)
  have "returns (children_by_parent nodes)"
    unfolding children_by_parent_def using assms(2)
    by (intro res_fold_returns ballI allI) (simp add: link_child_returns)
  then obtain adj where adj: "children_by_parent nodes = Inr adj" unfolding returns_iff by blast
  from post_order_of_nodes [OF adj] obtain ord where
    ord: "post_order adj (map fst nodes) = Inr ord" "set ord = fst ` set nodes" by blast
  have "returns (res_fold (compute_node now nodes adj) ord ([], []))"
    using e ord(2) by (intro res_fold_returns ballI allI compute_node_returns) auto
  then obtain s where "res_fold (compute_node now nodes adj) ord ([], []) = Inr s"
    unfolding returns_iff by blast
  with adj ord(1) show ?thesis by (simp add: aggregate_nodes_def)
qed

lemma load_nodes_wf: "load_nodes registry overlay = Inr nodes \<Longrightarrow> dict_wf nodes"
proof -
  assume "load_nodes registry overlay = Inr nodes"
  then obtain ns where "res_fold (load_node registry) ns [] = Inr nodes"
    by (auto simp: load_nodes_def res_bind_eq_Inr)
  then show ?thesis
    by (rule res_fold_invariant [where P = dict_wf])
      (auto simp: load_node_def Let_def res_bind_eq_Inr res_map_eq_Inr split: if_splits)
qed

lemma inherit_values_keys: "inherit_values by_dp nodes = Inr nodes' \<Longrightarrow> map fst nodes' = map fst nodes"
proof -
  have "res_list (\<lambda>(nid, n). res_map (Pair nid) (inherit_node by_dp n)) ns = Inr ns' \<Longrightarrow>
      map fst ns' = map fst ns" for ns ns'
    by (induction ns arbitrary: ns') (auto simp: res_bind_eq_Inr res_map_eq_Inr)
  then show "inherit_values by_dp nodes = Inr nodes' \<Longrightarrow> ?thesis"
    by (auto simp: inherit_values_def split: if_splits)
qed

lemma prepare_nodes_wf:
  assumes "prepare_nodes stock industry registry = Inr nodes"
  shows "dict_wf nodes"
proof (cases "nodes = []")
  case False
  with assms obtain ns by_dp ns' where 1: "load_nodes registry stock = Inr ns"
    and 2: "inherit_values by_dp ns = Inr ns'" and 3: "apply_proxy_candidates ns' = Inr nodes"
    by (auto simp: prepare_nodes_def res_bind_eq_Inr split: if_splits)
  have "dict_wf ns'"
    using load_nodes_wf [OF 1] inherit_values_keys [OF 2] by (simp add: dict_wf_def)
  with promotion_sound [OF 3 this] show ?thesis by (simp add: promotion_ok_def dict_wf_def)
qed simp

text \<open>
  an overlay whose prepared nodes carry values that can be cast is always scored: no
  exception escapes from the traversal, the recursion included, and the report covers exactly
  the prepared nodes.
\<close>

theorem castable_overlays_are_scored:
  assumes "prepare_nodes stock industry registry = Inr nodes" "\<forall>n \<in> snd ` set nodes. castable n"
  shows "\<exists>rs. aggregate_company_graph now stock industry registry = Inr rs \<and>
    fst ` set rs = fst ` set nodes"
proof -
  from castable_aggregate [OF prepare_nodes_wf [OF assms(1)] assms(2)] obtain rs where
    rs: "aggregate_nodes now nodes = Inr rs" by blast
  then obtain adj ord ps where "children_by_parent nodes = Inr adj"
    "post_order adj (map fst nodes) = Inr ord"
    "res_fold (compute_node now nodes adj) ord ([], []) = Inr (rs, ps)" by (rule aggregate_nodes_eq)
  with compute_keys [OF this(3)] post_order_of_nodes [OF this(1)] rs assms(1) show ?thesis
    by (auto simp: aggregate_company_graph_def)
qed

section \<open>Deviations\<close>

text \<open>
  A confidence penalty of 0, which the governance validator accepts as the strongest penalty,
  is read as no penalty, because \<open>float(x or 1.0)\<close> takes the default for 0.
\<close>

lemma zero_penalty_is_no_penalty:
  "float_or [(''confidence_penalty'', PFloat 0)] ''confidence_penalty'' 1 = Inr 1"
  by (simp add: float_or_def py_or_def)

text \<open>
  A parent whose own confidence is 0 (no usable child, or evidence of quality 0) enters its
  own parent with confidence one half, more than a parent of confidence 0.4 does.
\<close>

lemma zero_confidence_enters_as_half:
  assumes "parent_step node cs = Inr (rep, c)" "nr_confidence (rp_result rep) = 0"
  shows "cp_confidence c = 1/2"
  using assms by (auto simp: parent_step_def res_bind_eq_Inr real_or_def)

text \<open>
  The header says that an Optionality node counts with its current contribution and that the
  future value enters the long horizon only; the magnitude of such a node is the future value
  as soon as it has one, on every horizon.
\<close>

lemma option_value_is_the_magnitude:
  "to_scalar (PDict [(''current_contribution'', PFloat (2/10)),
     (''future_option_value'', PFloat (9/10))]) = 9/10"
  by (simp add: to_scalar_def dict_scalar_def cast_def str_entry_def option_scalar_def unit_abs_def
      clip_agg_def)

section \<open>Witnesses\<close>

definition ex_leaf :: pydict where
  "ex_leaf = [(''node_id'', PStr ''A''), (''dp_id'', PStr ''x''), (''parent_node'', PStr ''P''),
     (''data_status'', PStr ''Known''), (''direction'', PStr ''negative''),
     (''confidence'', PInt 1), (''value'', PDict [(''score'', PInt 1)])]"

definition ex_gap :: pydict where
  "ex_gap = [(''node_id'', PStr ''B''), (''dp_id'', PStr ''y''), (''parent_node'', PStr ''P''),
     (''data_status'', PStr ''Unavailable''), (''direction'', PStr ''positive''),
     (''proxy_candidates'', PList [PStr ''x''])]"

definition ex_top :: pydict where
  "ex_top = [(''node_id'', PStr ''P''), (''dp_id'', PStr ''z''), (''data_status'', PStr ''Known'')]"

definition ex_table :: node_table where
  "ex_table = [(KStr ''P'', ex_top), (KStr ''A'', ex_leaf), (KStr ''B'', ex_gap)]"

definition ex_adj :: "pykey adjacency" where
  "ex_adj = [(KStr ''P'', [KStr ''A'', KStr ''B''])]"

lemma ex_children: "children_by_parent ex_table = Inr ex_adj"
  by code_simp

lemma ex_castable: "dict_wf ex_table \<and> list_all (\<lambda>kn. castable (snd kn)) ex_table"
  by code_simp

lemma ex_promote: "returns (apply_proxy_candidates ex_table)"
  by code_simp

lemma ex_sane: "list_all (\<lambda>kn. sane_node (snd kn)) ex_table"
  by code_simp

lemma ex_entries: "entry ex_table (KStr ''P'') = ex_top" "entry ex_table (KStr ''A'') = ex_leaf"
    "entry ex_table (KStr ''B'') = ex_gap"
  by code_simp+

lemma ex_keys: "fst ` set ex_table = {KStr ''P'', KStr ''A'', KStr ''B''}"
  by (simp add: ex_table_def)

definition ex_rank :: "pykey \<Rightarrow> nat" where
  "ex_rank k = (if k = KStr ''P'' then 1 else 0)"

definition ex_stock :: pydict where
  "ex_stock = [(''nodes'', PList [PDict ex_top, PDict ex_leaf, PDict ex_gap])]"

lemma ex_scored: "\<exists>rs. aggregate_nodes 0 ex_table = Inr rs"
  by (rule castable_aggregate) (use ex_castable in \<open>simp_all add: list_all_iff\<close>)

lemma ex_kids: "kids ex_adj n = (if n = KStr ''P'' then [KStr ''A'', KStr ''B''] else [])"
  by (simp add: kids_def ex_adj_def)

lemma every_node_reported_witness:
  "\<exists>ord. post_order ex_adj (map fst ex_table) = Inr ord \<and> set ord = fst ` set ex_table"
  using every_node_reported [OF ex_children] by blast

lemma parents_use_all_children_witness:
  "\<exists>rs payloads. aggregate_nodes 0 ex_table = Inr rs \<and>
     solved 0 ex_table ex_adj (rs, payloads) (KStr ''P'')"
proof -
  obtain rs where rs: "aggregate_nodes 0 ex_table = Inr rs" using ex_scored by blast
  have "\<forall>n. \<forall>c \<in> set (kids ex_adj n). ex_rank c < ex_rank n" by (simp add: ex_kids ex_rank_def)
  from parents_use_all_children [OF ex_children this rs] rs show ?thesis
    by (auto simp: ex_keys)
qed

definition ex_children_payloads :: "child_payload list" where
  "ex_children_payloads =
     [\<lparr>cp_status = NKnown, cp_weight = 1,
       cp_scores = \<lparr>hs_score = 1/2, hs_short = 1/4, hs_medium = 1/8, hs_long = 1/8\<rparr>,
       cp_confidence = 1, cp_base_confidence = 1, cp_score_enabled = True,
       cp_confidence_penalty = 1\<rparr>,
      \<lparr>cp_status = NNA, cp_weight = 7,
       cp_scores = \<lparr>hs_score = 1, hs_short = 1, hs_medium = 1, hs_long = 1\<rparr>,
       cp_confidence = 1, cp_base_confidence = 1, cp_score_enabled = True,
       cp_confidence_penalty = 1\<rparr>]"

lemma parent_score_formula_witness:
  "\<exists>r. aggregate_parent ex_top ex_children_payloads = Inr r \<and> hs_score (nr_scores r) = 1/2"
proof -
  have "returns (aggregate_parent ex_top ex_children_payloads)" by code_simp
  then obtain r where r: "aggregate_parent ex_top ex_children_payloads = Inr r"
    unfolding returns_iff by blast
  have "weighted_score hs_score (filter counted ex_children_payloads) = 1/2"
    by (simp add: weighted_score_def weight_of_def counted_def ex_children_payloads_def)
  with parent_score_formula [OF r] r show ?thesis by auto
qed

lemma scores_bounded_witness:
  "\<exists>rs rep. aggregate_nodes 0 ex_table = Inr rs \<and> map_of rs (KStr ''P'') = Some rep \<and>
     \<bar>hs_score (nr_scores (rp_result rep))\<bar> \<le> 1"
proof -
  obtain rs where rs: "aggregate_nodes 0 ex_table = Inr rs" using ex_scored by blast
  then obtain adj ord ps where "children_by_parent ex_table = Inr adj"
    "post_order adj (map fst ex_table) = Inr ord"
    "res_fold (compute_node 0 ex_table adj) ord ([], []) = Inr (rs, ps)" by (rule aggregate_nodes_eq)
  with compute_keys [OF this(3)] post_order_of_nodes [OF this(1)] have "KStr ''P'' \<in> fst ` set rs"
    by (auto simp: ex_keys)
  then obtain rep where rep: "map_of rs (KStr ''P'') = Some rep"
    by (metis map_of_eq_None_iff not_None_eq)
  have "\<forall>k \<in> fst ` set ex_table. sane_node (entry ex_table k)"
    using ex_sane by (auto simp: ex_keys ex_entries) (auto simp: ex_table_def)
  from scores_bounded [OF this rs rep] rs rep show ?thesis by blast
qed

lemma proxy_promotion_witness:
  "\<exists>nodes'. apply_proxy_candidates ex_table = Inr nodes' \<and> promoted ex_table nodes' (KStr ''B'')"
proof -
  from ex_promote obtain nodes' where n: "apply_proxy_candidates ex_table = Inr nodes'"
    unfolding returns_iff by blast
  have st: "node_status ex_gap = Inr NUnavailable" "node_status ex_leaf = Inr NKnown"
    "py_list_or ex_gap ''proxy_candidates'' = Inr [PStr ''x'']"
    "has_usable_value (dget ex_leaf ''value'')" by code_simp+
  have "named_by ex_table [PStr ''x''] (KStr ''A'')"
    by (simp add: named_by_def ex_keys ex_entries) (simp add: ex_leaf_def)
  moreover have "dict_wf ex_table" using ex_castable by blast
  ultimately show ?thesis
    using proxy_promotion [OF n] n st by (metis ex_entries ex_keys insertCI)
qed

lemma castable_overlays_are_scored_witness:
  "\<exists>rs. aggregate_company_graph 0 ex_stock [] None = Inr rs \<and> rs \<noteq> []"
proof -
  have "\<exists>nodes. prepare_nodes ex_stock [] None = Inr nodes \<and> list_all (\<lambda>kn. castable (snd kn)) nodes \<and>
      nodes \<noteq> []"
  proof (cases "prepare_nodes ex_stock [] None")
    case (Inl e)
    moreover have "returns (prepare_nodes ex_stock [] None)" by code_simp
    ultimately show ?thesis by simp
  next
    case (Inr nodes)
    have "case prepare_nodes ex_stock [] None of Inl _ \<Rightarrow> False
        | Inr nodes \<Rightarrow> list_all (\<lambda>kn. castable (snd kn)) nodes \<and> nodes \<noteq> []" by code_simp
    with Inr show ?thesis by simp
  qed
  then obtain nodes where n: "prepare_nodes ex_stock [] None = Inr nodes"
    "\<forall>n \<in> snd ` set nodes. castable n" "nodes \<noteq> []" by (auto simp: list_all_iff)
  from castable_overlays_are_scored [OF n(1,2), of 0] n(3) show ?thesis by auto
qed

end
