(* ===== verification/Market.thy ===== *)
theory Market
  imports Prelude
begin

text \<open>
  \<open>mvp20/market_adapter.py\<close>: the adjustment of a final score for the market a stock is listed
  on. Eight factors are read from the role components, squashed into a range and scaled by the
  betas of the stock; per horizon their weighted sum is the exponent of a multiplier, which is
  kept inside the configured bounds; local scores are added and local discounts subtracted.

  The configuration is an argument (the parsed \<open>market_adapters.yaml\<close>, or what the caller
  passes). An absent overlay and an empty one are the same value.
\<close>

section \<open>Tables\<close>

definition horizon_keys :: "string list" where
  "horizon_keys = [''short_total'', ''medium_total'', ''long_total'', ''base_score'']"

definition horizon_key_map :: "(string \<times> string) list" where
  "horizon_key_map =
     [(''short_total'', ''short''), (''medium_total'', ''mid''), (''long_total'', ''long'')]"

definition factor_names_default :: "string list" where
  "factor_names_default =
     [''microstructure'', ''participant'', ''liquidity'', ''theme'', ''policy'',
      ''derivatives_shorting'', ''crossborder_fx'', ''market_regime'']"

definition beta_keys :: "(string \<times> string list) list" where
  "beta_keys =
     [(''microstructure'', [''microstructure_beta'']),
      (''participant'', [''participant_beta'', ''retail_beta'', ''institutional_beta'']),
      (''liquidity'', [''liquidity_beta'']),
      (''theme'', [''theme_beta'']),
      (''policy'', [''policy_beta'']),
      (''derivatives_shorting'',
        [''derivatives_shorting_beta'', ''derivatives_beta'', ''shorting_beta'']),
      (''crossborder_fx'',
        [''crossborder_beta'', ''crossborder_fx_beta'', ''northbound_beta'', ''southbound_beta'']),
      (''market_regime'', [''market_regime_beta'', ''valuation_beta''])]"

section \<open>Market and horizon codes\<close>

definition normalize_market_code :: "string \<Rightarrow> string" where
  "normalize_market_code value =
     (let c = py_upper (py_strip value) in
      if c \<in> {''A'', ''A_SHARE'', ''CN'', ''CHINA_A'', ''CN_A''} then ''CN_A''
      else if c \<in> {''HK'', ''HKG'', ''HONG_KONG''} then ''HK''
      else ''US'')"

definition adapter_section :: "pydict \<Rightarrow> pydict" where
  "adapter_section overlay = as_dict (py_or (dget overlay ''market_adapter'') (PDict []))"

definition infer_market_code :: "pydict \<Rightarrow> pyval \<Rightarrow> string" where
  "infer_market_code overlay ts_code =
     (let explicit = py_or (dget overlay ''market_code'')
                           (dget (adapter_section overlay) ''market_code'');
          ticker = py_str (py_or (py_or (py_or ts_code (dget overlay ''ts_code''))
                                        (dget overlay ''ticker'')) (PStr []))
      in if truthy explicit then normalize_market_code (py_str explicit)
         else if py_endswith ticker ''.SZ'' \<or> py_endswith ticker ''.SH'' \<or> py_endswith ticker ''.BJ''
         then ''CN_A''
         else if py_endswith ticker ''.HK'' then ''HK''
         else ''US'')"

definition normalize_horizon :: "string \<Rightarrow> string" where
  "normalize_horizon value =
     (let h = py_lower (py_strip value) in
      if h \<in> {''short'', ''s''} then ''short''
      else if h \<in> {''medium'', ''mid'', ''m''} then ''mid''
      else if h \<in> {''long'', ''l''} then ''long''
      else ''mid'')"

definition listing_board :: "pydict \<Rightarrow> string option" where
  "listing_board overlay =
     (let value = py_or (dget overlay ''listing_board'')
                        (dget (adapter_section overlay) ''listing_board'')
      in if truthy value then Some (py_str value) else None)"

section \<open>Clamping\<close>

definition clip_market :: "real \<Rightarrow> real \<Rightarrow> real \<Rightarrow> real" where
  "clip_market value lo hi = max lo (min hi value)"

interpretation market_clip: clamping clip_market
  by unfold_locales (simp add: clip_market_def)

definition bound_multiplier :: "real \<Rightarrow> real option \<Rightarrow> real option \<Rightarrow> real" where
  "bound_multiplier value lo hi =
     (let v1 = (case lo of None \<Rightarrow> value | Some l \<Rightarrow> max l value) in
      case hi of None \<Rightarrow> v1 | Some h \<Rightarrow> min h v1)"

definition optional_float :: "pyval \<Rightarrow> real option \<Rightarrow> real option" where
  "optional_float v d = (case py_float v of Inl _ \<Rightarrow> d | Inr x \<Rightarrow> Some x)"

section \<open>Factors\<close>

definition canonical_factor_name :: "string \<Rightarrow> string" where
  "canonical_factor_name name = (if name = ''connect_fx'' then ''crossborder_fx'' else name)"

text \<open>Names in the order of their first occurrence.\<close>

definition add_name :: "string \<Rightarrow> string list \<Rightarrow> string list" where
  "add_name name out = (if name \<in> set out then out else out @ [name])"

definition factor_names :: "pydict \<Rightarrow> string list res" where
  "factor_names cfg =
     (let v = dget cfg ''factors'' in
      res_map (\<lambda>names. let out = fold (\<lambda>n. add_name (canonical_factor_name n)) names [] in
                      if out = [] then factor_names_default else out)
        (if truthy v then res_map (map py_str) (py_iter v) else Inr factor_names_default))"

definition factor_targets :: "pydict \<Rightarrow> string \<Rightarrow> pyval list res" where
  "factor_targets target_map name =
     (let t = dget target_map name;
          t1 = (if t = PNone \<and> name = ''crossborder_fx'' then dget target_map ''connect_fx'' else t)
      in if t1 = PNone then Inr [] else res_map (map (PStr \<circ> py_str)) (py_iter t1))"

definition component_signal :: "string \<Rightarrow> pyval \<Rightarrow> real" where
  "component_signal target value =
     (let f = try_float value 0 in
      if py_endswith target ''_multiplier'' \<or> target = ''multiplier_stack'' then f - 1 else f)"

text \<open>One target of a factor: a key that cannot be hashed is a TypeError of \<open>in\<close>.\<close>

definition add_target :: "pydict \<Rightarrow> pyval \<Rightarrow> real \<Rightarrow> real res" where
  "add_target components target acc =
     (case target of
        PStr t \<Rightarrow>
          Inr (if dhas components t then acc + component_signal t (dget components t) else acc)
      | v \<Rightarrow> res_map (\<lambda>_. acc) (py_key v))"

definition target_signal :: "pydict \<Rightarrow> pyval list \<Rightarrow> real res" where
  "target_signal components targets = res_fold (add_target components) targets 0"

definition component_weights :: "pydict \<Rightarrow> string \<Rightarrow> pydict res" where
  "component_weights cfg market_code =
     res_bind (as_mapping (py_or (dget cfg ''component_weights'') (PDict []))) (\<lambda>weights.
     res_bind (py_dict (py_or (dget weights ''default'') (PDict []))) (\<lambda>d.
     res_bind (py_dict (py_or (dget weights market_code) (PDict []))) (\<lambda>m.
       let base = fold (\<lambda>(k, v). dput k v) m d in
       Inr (if dhas base ''connect_fx'' \<and> \<not> dhas base ''crossborder_fx''
            then dput ''crossborder_fx'' (dget base ''connect_fx'') base else base))))"

type_synonym table = "(string \<times> real) list"

definition tget :: "table \<Rightarrow> string \<Rightarrow> real \<Rightarrow> real" where
  "tget t k d = (case map_of t k of None \<Rightarrow> d | Some x \<Rightarrow> x)"

definition factor_weights :: "pydict \<Rightarrow> pydict \<Rightarrow> string \<Rightarrow> string \<Rightarrow> string list \<Rightarrow> table res" where
  "factor_weights cfg market_rules market_code horizon factors =
     res_bind (as_mapping (py_or (dget market_rules ''factor_weights'') (PDict []))) (\<lambda>by_horizon.
       case dget by_horizon horizon of
         PDict weights \<Rightarrow>
           Inr (fold (\<lambda>(name, v). dput (canonical_factor_name name) (try_float v 0)) weights [])
       | _ \<Rightarrow> res_map (\<lambda>legacy. map (\<lambda>name. (name, try_float (dget legacy name) 0)) factors)
               (component_weights cfg market_code))"

definition horizon_kappa :: "pydict \<Rightarrow> string \<Rightarrow> real" where
  "horizon_kappa market_rules horizon =
     (case py_or (dget market_rules ''kappa'') (PDict []) of
        PDict k \<Rightarrow> try_float (dget k horizon) 1
      | v \<Rightarrow> try_float v 1)"

definition factor_range :: "pydict \<Rightarrow> real \<times> real" where
  "factor_range cfg =
     (case dget cfg ''factor_range'' of
        PList [a, b] \<Rightarrow>
          (let lo = try_float a (-1); hi = try_float b 1 in if lo > hi then (hi, lo) else (lo, hi))
      | _ \<Rightarrow> (-1, 1))"

definition normalize_factor_score :: "real \<Rightarrow> pydict \<Rightarrow> real" where
  "normalize_factor_score raw_signal cfg =
     (let (lo, hi) = factor_range cfg;
          method = py_lower (py_str (py_or (dget cfg ''factor_score_method'') (PStr ''tanh'')));
          scale = max (try_float (dget cfg ''factor_score_scale'') 2) (1 / 10 ^ 9);
          score = (if method = ''clip'' then raw_signal else tanh (raw_signal / scale))
      in clip_market score lo hi)"

definition beta_values :: "pydict \<Rightarrow> pydict \<Rightarrow> string list \<Rightarrow> real list" where
  "beta_values profile overlay keys =
     List.map_filter (\<lambda>key. if dhas profile key then Some (try_float (dget profile key) 1)
                            else if dhas overlay key then Some (try_float (dget overlay key) 1)
                            else None) keys"

definition profile_beta :: "pydict \<Rightarrow> pydict \<Rightarrow> string list \<Rightarrow> real" where
  "profile_beta profile overlay keys =
     (let values = beta_values profile overlay keys in
      if values = [] then 1 else sum_list values / real (length values))"

definition local_profile :: "pydict \<Rightarrow> pydict" where
  "local_profile overlay =
     as_dict (py_or (py_or (py_or (dget overlay ''stock_local_profile'')
                                  (dget (adapter_section overlay) ''stock_local_profile''))
                           (dget overlay ''local_profile'')) (PDict []))"

definition factor_beta_keys :: "string \<Rightarrow> string list" where
  "factor_beta_keys name =
     (case map_of beta_keys name of None \<Rightarrow> [name @ ''_beta''] | Some ks \<Rightarrow> ks)"

definition stock_local_betas :: "pydict \<Rightarrow> pydict \<Rightarrow> string list \<Rightarrow> table res" where
  "stock_local_betas overlay cfg factors =
     res_map (\<lambda>bounds.
         map (\<lambda>name. (name,
                clip_market (profile_beta (local_profile overlay) overlay (factor_beta_keys name))
                  (try_float (dget bounds ''min'') 0) (try_float (dget bounds ''max'') 2))) factors)
       (as_mapping (py_or (dget cfg ''stock_beta_bounds'') (PDict [])))"

section \<open>The adapter\<close>

record market_report =
  mr_market_code :: string
  mr_listing_board :: "string option"
  mr_multiplier :: real
  mr_horizon_multipliers :: table
  mr_multipliers :: table
  mr_raw_factor_signals :: table
  mr_factor_scores :: table
  mr_adjusted_factor_scores :: table
  mr_stock_betas :: table
  mr_weighted_sums :: table
  mr_local_scores :: table
  mr_discounts :: table
  mr_adjusted_final_score :: pydict
  mr_source_notes :: "pyval list"

definition horizons :: "string list" where
  "horizons = [''short'', ''mid'', ''long'']"

definition market_rules_of :: "pydict \<Rightarrow> string \<Rightarrow> pydict res" where
  "market_rules_of cfg market_code =
     res_map (\<lambda>rules. as_dict (py_or (dget rules market_code) (PDict [])))
       (as_mapping (py_or (dget cfg ''market_rules'') (PDict [])))"

definition raw_signals :: "pydict \<Rightarrow> pydict \<Rightarrow> string list \<Rightarrow> table res" where
  "raw_signals components rules factors =
     res_bind (as_mapping (py_or (dget rules ''target_map'') (PDict []))) (\<lambda>target_map.
       res_list (\<lambda>name. res_bind (factor_targets target_map name) (\<lambda>ts.
                          res_map (Pair name) (target_signal components ts))) factors)"

definition weighted_sum :: "table \<Rightarrow> table \<Rightarrow> string list \<Rightarrow> real" where
  "weighted_sum weights scores factors =
     sum_list (map (\<lambda>name. tget weights name 0 * tget scores name 0) factors)"

text \<open>The wsums of one horizon and its multiplier.\<close>

definition horizon_row :: "pydict \<Rightarrow> pydict \<Rightarrow> string \<Rightarrow> string list \<Rightarrow> table \<Rightarrow>
    real option \<Rightarrow> real option \<Rightarrow> string \<Rightarrow> (string \<times> real \<times> real) res" where
  "horizon_row cfg rules market_code factors adjusted lo hi horizon =
     res_map (\<lambda>weights.
         let s = weighted_sum weights adjusted factors in
         (horizon, s, bound_multiplier (exp (horizon_kappa rules horizon * s)) lo hi))
       (factor_weights cfg rules market_code horizon factors)"

definition local_table :: "pydict \<Rightarrow> string \<Rightarrow> pydict \<Rightarrow> table res" where
  "local_table rules section_key components =
     res_bind (as_mapping (py_or (dget rules section_key) (PDict []))) (\<lambda>entries.
       res_list (\<lambda>(name, targets).
           res_bind (py_iter targets) (\<lambda>ts. res_map (Pair name) (target_signal components ts)))
         entries)"

definition table_total :: "table \<Rightarrow> real" where
  "table_total t = sum_list (map snd t)"

definition score_horizon :: "string \<Rightarrow> string \<Rightarrow> string" where
  "score_horizon base_horizon key =
     (case map_of horizon_key_map key of None \<Rightarrow> base_horizon | Some h \<Rightarrow> h)"

definition adjust_scores :: "pydict \<Rightarrow> table \<Rightarrow> string \<Rightarrow> real \<Rightarrow> real \<Rightarrow> real \<Rightarrow> pydict" where
  "adjust_scores final_score multipliers base_horizon market_multiplier gain loss =
     fold (\<lambda>key.
             dput key (PFloat (try_float (dget final_score key) 0 *
                                 tget multipliers (score_horizon base_horizon key) market_multiplier +
                               gain - loss)))
       horizon_keys final_score"

definition adapter_components :: "table \<Rightarrow> table \<Rightarrow> real \<Rightarrow> real \<Rightarrow> real \<Rightarrow> pydict" where
  "adapter_components multipliers wsums market_multiplier gain loss =
     [(''market_adapter_multiplier'', PFloat market_multiplier),
      (''market_adapter_multiplier_short'', PFloat (tget multipliers ''short'' 1)),
      (''market_adapter_multiplier_mid'', PFloat (tget multipliers ''mid'' 1)),
      (''market_adapter_multiplier_long'', PFloat (tget multipliers ''long'' 1)),
      (''market_factor_weighted_sum_short'', PFloat (tget wsums ''short'' 0)),
      (''market_factor_weighted_sum_mid'', PFloat (tget wsums ''mid'' 0)),
      (''market_factor_weighted_sum_long'', PFloat (tget wsums ''long'' 0)),
      (''market_local_scores'', PFloat gain),
      (''market_local_discounts'', PFloat loss)]"

definition multiplier_bounds :: "pydict \<Rightarrow> (real option \<times> real option) res" where
  "multiplier_bounds cfg =
     res_map (\<lambda>bounds. (optional_float (dget bounds ''min'') (Some (2/10)),
                        optional_float (dget bounds ''max'') None))
       (as_mapping (py_or (dget cfg ''multiplier_bounds'') (PDict [])))"

definition base_horizon_of :: "pydict \<Rightarrow> string" where
  "base_horizon_of cfg = normalize_horizon (py_str (py_or (dget cfg ''base_horizon'') (PStr ''mid'')))"

text \<open>The last part of the adapter: local scores, discounts and the report.\<close>

definition finish_report :: "pydict \<Rightarrow> pydict \<Rightarrow> pydict \<Rightarrow> pydict \<Rightarrow> string \<Rightarrow>
    market_report \<Rightarrow> market_report res" where
  "finish_report final_score components overlay rules base_horizon partial =
     res_bind (local_table rules ''local_scores'' components) (\<lambda>local_scores.
     res_bind (local_table rules ''discounts'' components) (\<lambda>raw_discounts.
       let discounts = map (\<lambda>(name, x). (name, \<bar>x\<bar>)) raw_discounts;
           gain = table_total local_scores; loss = table_total discounts;
           mults = mr_horizon_multipliers partial; mm = tget mults base_horizon 1;
           adjusted = adjust_scores final_score mults base_horizon mm gain loss
       in res_bind (py_dict (py_or (dget adjusted ''components'') (PDict []))) (\<lambda>old.
          res_bind (py_iter (py_or (dget rules ''source_notes'') (PList []))) (\<lambda>notes.
            Inr (partial\<lparr>mr_listing_board := listing_board overlay, mr_multiplier := mm,
                   mr_local_scores := local_scores, mr_discounts := discounts,
                   mr_adjusted_final_score :=
                     dput ''components''
                       (PDict (fold (\<lambda>(k, v). dput k v)
                          (adapter_components mults (mr_weighted_sums partial) mm gain loss) old))
                       adjusted,
                   mr_source_notes := notes\<rparr>)))))"

definition score_table :: "pydict \<Rightarrow> table \<Rightarrow> table" where
  "score_table cfg raw = map (\<lambda>p. (fst p, normalize_factor_score (snd p) cfg)) raw"

definition beta_table :: "table \<Rightarrow> table \<Rightarrow> table" where
  "beta_table betas scores = map (\<lambda>p. (fst p, snd p * tget betas (fst p) 1)) scores"

definition factor_multipliers :: "pydict \<Rightarrow> string \<Rightarrow> string list \<Rightarrow> table \<Rightarrow> table \<Rightarrow>
    real option \<Rightarrow> real option \<Rightarrow> table" where
  "factor_multipliers rules base_horizon factors base_weights adjusted lo hi =
     map (\<lambda>name. (name, bound_multiplier
            (exp (horizon_kappa rules base_horizon * tget base_weights name 0 *
                  tget adjusted name 0)) lo hi)) factors"

text \<open>The part of the report that depends on the factors only.\<close>

definition factor_report :: "pydict \<Rightarrow> pydict \<Rightarrow> string \<Rightarrow> string list \<Rightarrow> table \<Rightarrow> table \<Rightarrow>
    real option \<Rightarrow> real option \<Rightarrow> market_report res" where
  "factor_report cfg rules code factors betas raw lo hi =
     (let scores = score_table cfg raw; adjusted = beta_table betas scores in
      res_bind (res_list (horizon_row cfg rules code factors adjusted lo hi) horizons) (\<lambda>rows.
      res_bind (factor_weights cfg rules code (base_horizon_of cfg) factors) (\<lambda>base_weights.
        Inr \<lparr>mr_market_code = code, mr_listing_board = None, mr_multiplier = 1,
             mr_horizon_multipliers = map (\<lambda>row. (fst row, snd (snd row))) rows,
             mr_multipliers =
               factor_multipliers rules (base_horizon_of cfg) factors base_weights adjusted lo hi,
             mr_raw_factor_signals = raw, mr_factor_scores = scores,
             mr_adjusted_factor_scores = adjusted, mr_stock_betas = betas,
             mr_weighted_sums = map (\<lambda>row. (fst row, fst (snd row))) rows,
             mr_local_scores = [], mr_discounts = [], mr_adjusted_final_score = [],
             mr_source_notes = []\<rparr>)))"

definition apply_market_adapter :: "pydict \<Rightarrow> pydict \<Rightarrow> pydict \<Rightarrow> pyval \<Rightarrow> pydict \<Rightarrow>
    market_report res" where
  "apply_market_adapter final_score components overlay ts_code cfg =
     (let code = infer_market_code overlay ts_code in
      res_bind (market_rules_of cfg code) (\<lambda>rules.
      res_bind (multiplier_bounds cfg) (\<lambda>bounds.
      res_bind (factor_names cfg) (\<lambda>factors.
      res_bind (stock_local_betas overlay cfg factors) (\<lambda>betas.
      res_bind (raw_signals components rules factors) (\<lambda>raw.
      res_bind (factor_report cfg rules code factors betas raw (fst bounds) (snd bounds))
        (finish_report final_score components overlay rules (base_horizon_of cfg))))))))"

section \<open>Facts\<close>

lemma normalize_horizon_in: "normalize_horizon v \<in> set horizons"
  by (simp add: normalize_horizon_def horizons_def Let_def)

lemma base_horizon_in: "base_horizon_of cfg \<in> set horizons"
  by (simp add: base_horizon_of_def normalize_horizon_in)

lemma score_horizon_in: "b \<in> set horizons \<Longrightarrow> score_horizon b key \<in> set horizons"
  by (auto simp: score_horizon_def horizon_key_map_def horizons_def)

lemma tget_map: "tget (map (\<lambda>n. (n, f n)) ns) k d = (if k \<in> set ns then f k else d)"
  by (induction ns) (auto simp: tget_def)

lemma tget_absent: "k \<notin> fst ` set t \<Longrightarrow> tget t k d = d"
  by (simp add: tget_def map_of_eq_None_iff [THEN iffD2])

lemma tget_present: "k \<in> fst ` set t \<Longrightarrow> tget t k d = tget t k d'"
  by (auto simp: tget_def map_of_eq_None_iff split: option.splits)

lemma tget_in: "k \<in> fst ` set t \<Longrightarrow> (k, tget t k d) \<in> set t"
  by (auto simp: tget_def map_of_eq_None_iff dest: map_of_SomeD split: option.splits)

definition inside :: "real option \<Rightarrow> real option \<Rightarrow> real \<Rightarrow> bool" where
  "inside lo hi x \<longleftrightarrow> (\<forall>l. lo = Some l \<longrightarrow> l \<le> x) \<and> (\<forall>h. hi = Some h \<longrightarrow> x \<le> h)"

lemma bound_multiplier_inside:
  "(\<And>l h. lo = Some l \<Longrightarrow> hi = Some h \<Longrightarrow> l \<le> h) \<Longrightarrow> inside lo hi (bound_multiplier x lo hi)"
  by (auto simp: inside_def bound_multiplier_def Let_def split: option.splits)

lemma bound_multiplier_fixed: "inside lo hi x \<Longrightarrow> bound_multiplier x lo hi = x"
  by (auto simp: inside_def bound_multiplier_def Let_def split: option.splits)

lemma factor_range_ordered: "fst (factor_range cfg) \<le> snd (factor_range cfg)"
  by (auto simp: factor_range_def Let_def split: pyval.splits list.splits)

lemma normalize_factor_score_range:
  "fst (factor_range cfg) \<le> normalize_factor_score x cfg \<and>
   normalize_factor_score x cfg \<le> snd (factor_range cfg)"
  using factor_range_ordered [of cfg]
  by (auto simp: normalize_factor_score_def Let_def case_prod_unfold
      intro: market_clip.lower market_clip.upper)

text \<open>How the report is put together.\<close>

lemma apply_market_adapter_eq:
  assumes "apply_market_adapter final components overlay ts cfg = Inr r"
  obtains rules lo hi factors betas raw partial where
    "multiplier_bounds cfg = Inr (lo, hi)" "stock_local_betas overlay cfg factors = Inr betas"
    "market_rules_of cfg (infer_market_code overlay ts) = Inr rules"
    "raw_signals components rules factors = Inr raw"
    "factor_report cfg rules (infer_market_code overlay ts) factors betas raw lo hi = Inr partial"
    "finish_report final components overlay rules (base_horizon_of cfg) partial = Inr r"
  using assms by (auto simp: apply_market_adapter_def Let_def res_bind_eq_Inr)

lemma horizon_rows:
  assumes "res_list (horizon_row cfg rules code factors adjusted lo hi) horizons = Inr rows"
  shows "map fst rows = horizons"
    and "\<forall>row \<in> set rows. \<exists>weights.
      fst (snd row) = weighted_sum weights adjusted factors \<and>
      snd (snd row) = bound_multiplier (exp (horizon_kappa rules (fst row) * fst (snd row))) lo hi"
  using assms by (auto simp: horizons_def horizon_row_def res_bind_eq_Inr res_map_eq_Inr Let_def)

lemma factor_report_eq:
  assumes "factor_report cfg rules code factors betas raw lo hi = Inr partial"
  shows "map fst (mr_horizon_multipliers partial) = horizons"
    and "\<forall>hm \<in> set (mr_horizon_multipliers partial). \<exists>weights.
      snd hm = bound_multiplier (exp (horizon_kappa rules (fst hm) *
        weighted_sum weights (beta_table betas (score_table cfg raw)) factors)) lo hi"
    and "\<forall>nm \<in> set (mr_multipliers partial). \<exists>x. snd nm = bound_multiplier x lo hi"
    and "mr_factor_scores partial = score_table cfg raw" and "mr_stock_betas partial = betas"
proof -
  from assms obtain rows w where
    rows: "res_list (horizon_row cfg rules code factors (beta_table betas (score_table cfg raw)) lo hi)
      horizons = Inr rows"
    and p: "mr_horizon_multipliers partial = map (\<lambda>row. (fst row, snd (snd row))) rows"
      "mr_multipliers partial = factor_multipliers rules (base_horizon_of cfg) factors w
        (beta_table betas (score_table cfg raw)) lo hi"
      "mr_factor_scores partial = score_table cfg raw" "mr_stock_betas partial = betas"
    unfolding factor_report_def Let_def res_bind_eq_Inr by auto
  note hr = horizon_rows [OF rows]
  show "map fst (mr_horizon_multipliers partial) = horizons" using hr(1) p(1) by (simp add: comp_def)
  show "\<forall>hm \<in> set (mr_horizon_multipliers partial). \<exists>weights.
      snd hm = bound_multiplier (exp (horizon_kappa rules (fst hm) *
        weighted_sum weights (beta_table betas (score_table cfg raw)) factors)) lo hi"
    using hr(2) p(1) by fastforce
  show "\<forall>nm \<in> set (mr_multipliers partial). \<exists>x. snd nm = bound_multiplier x lo hi"
    using p(2) by (auto simp: factor_multipliers_def)
  show "mr_factor_scores partial = score_table cfg raw" and "mr_stock_betas partial = betas"
    using p by simp_all
qed

lemma finish_report_eq:
  assumes "finish_report final components overlay rules bh partial = Inr r"
  obtains ls ds where
    "local_table rules ''local_scores'' components = Inr ls"
    "local_table rules ''discounts'' components = Inr ds"
    "mr_local_scores r = ls" "mr_discounts r = map (\<lambda>(name, x). (name, \<bar>x\<bar>)) ds"
    "mr_horizon_multipliers r = mr_horizon_multipliers partial"
    "mr_multipliers r = mr_multipliers partial"
    "mr_factor_scores r = mr_factor_scores partial" "mr_stock_betas r = mr_stock_betas partial"
    "mr_multiplier r = tget (mr_horizon_multipliers r) bh 1"
    "\<forall>k. k \<noteq> ''components'' \<longrightarrow> dget (mr_adjusted_final_score r) k =
       dget (adjust_scores final (mr_horizon_multipliers r) bh (mr_multiplier r)
         (table_total (mr_local_scores r)) (table_total (mr_discounts r))) k"
  using assms
  by (auto simp: finish_report_def Let_def res_bind_eq_Inr dget_dput)

lemma dget_adjust_scores:
  "dget (adjust_scores final mults bh mm gain loss) key =
     (if key \<in> set horizon_keys
      then PFloat (try_float (dget final key) 0 * tget mults (score_horizon bh key) mm + gain - loss)
      else dget final key)"
  by (simp add: adjust_scores_def horizon_keys_def dget_dput)

text \<open>
  with consistent bounds in the configuration, every factor score lies in the factor
  range, every beta of the stock in the beta bounds, and every multiplier, per factor, per
  horizon and overall, in the multiplier bounds.
\<close>

theorem adapter_stays_in_bounds:
  assumes "apply_market_adapter final components overlay ts cfg = Inr r"
    and "multiplier_bounds cfg = Inr (lo, hi)"
    and "\<And>l h. lo = Some l \<Longrightarrow> hi = Some h \<Longrightarrow> l \<le> h"
    and "as_mapping (py_or (dget cfg ''stock_beta_bounds'') (PDict [])) = Inr bb"
    and "try_float (dget bb ''min'') 0 \<le> try_float (dget bb ''max'') 2"
  shows "inside lo hi (mr_multiplier r) \<and>
    (\<forall>hm \<in> set (mr_horizon_multipliers r). inside lo hi (snd hm)) \<and>
    (\<forall>nm \<in> set (mr_multipliers r). inside lo hi (snd nm)) \<and>
    (\<forall>nx \<in> set (mr_factor_scores r).
       fst (factor_range cfg) \<le> snd nx \<and> snd nx \<le> snd (factor_range cfg)) \<and>
    (\<forall>nb \<in> set (mr_stock_betas r).
       try_float (dget bb ''min'') 0 \<le> snd nb \<and> snd nb \<le> try_float (dget bb ''max'') 2)"
proof -
  from assms(1) obtain rules lo' hi' factors betas raw partial where
    b: "multiplier_bounds cfg = Inr (lo', hi')" and betas: "stock_local_betas overlay cfg factors = Inr betas"
    and fr: "factor_report cfg rules (infer_market_code overlay ts) factors betas raw lo' hi' = Inr partial"
    and fin: "finish_report final components overlay rules (base_horizon_of cfg) partial = Inr r"
    by (rule apply_market_adapter_eq)
  have lh: "lo' = lo" "hi' = hi" using b assms(2) by simp_all
  have ins: "inside lo hi (bound_multiplier x lo hi)" for x
    using assms(3) by (rule bound_multiplier_inside)
  from fin obtain ls where r: "mr_horizon_multipliers r = mr_horizon_multipliers partial"
    "mr_multipliers r = mr_multipliers partial" "mr_factor_scores r = mr_factor_scores partial"
    "mr_stock_betas r = mr_stock_betas partial"
    "mr_multiplier r = tget (mr_horizon_multipliers r) (base_horizon_of cfg) 1"
    by (rule finish_report_eq)
  note fe = factor_report_eq [OF fr [unfolded lh]]
  have hms: "\<forall>hm \<in> set (mr_horizon_multipliers r). inside lo hi (snd hm)"
    using fe(2) r(1) ins by metis
  have "base_horizon_of cfg \<in> fst ` set (mr_horizon_multipliers r)"
    using base_horizon_in [of cfg] fe(1) r(1) by (metis set_map)
  from tget_in [OF this, of 1] hms r(5) have "inside lo hi (mr_multiplier r)" by fastforce
  moreover have "\<forall>nb \<in> set betas. try_float (dget bb ''min'') 0 \<le> snd nb \<and>
      snd nb \<le> try_float (dget bb ''max'') 2"
    using betas assms(4,5)
    by (auto simp: stock_local_betas_def intro: market_clip.lower market_clip.upper)
  moreover have "\<forall>nm \<in> set (mr_multipliers r). inside lo hi (snd nm)"
    using fe(3) r(2) ins by metis
  ultimately show ?thesis
    using hms r(3,4) fe(4,5) normalize_factor_score_range by (auto simp: score_table_def)
qed

lemma adjusted_scores:
  assumes "apply_market_adapter final components overlay ts cfg = Inr r"
  shows "(\<forall>key \<in> set horizon_keys. dget (mr_adjusted_final_score r) key =
            PFloat (try_float (dget final key) 0 *
                    tget (mr_horizon_multipliers r) (score_horizon (base_horizon_of cfg) key) 1 +
                    table_total (mr_local_scores r) - table_total (mr_discounts r))) \<and>
         0 \<le> table_total (mr_discounts r) \<and>
         (\<forall>key. key \<notin> set horizon_keys \<longrightarrow> key \<noteq> ''components'' \<longrightarrow>
            dget (mr_adjusted_final_score r) key = dget final key)"
proof -
  from assms obtain rules lo hi factors betas raw partial where
    fr: "factor_report cfg rules (infer_market_code overlay ts) factors betas raw lo hi = Inr partial"
    and fin: "finish_report final components overlay rules (base_horizon_of cfg) partial = Inr r"
    by (rule apply_market_adapter_eq)
  from fin obtain ls ds where r: "mr_discounts r = map (\<lambda>(name, x). (name, \<bar>x\<bar>)) ds"
    "mr_horizon_multipliers r = mr_horizon_multipliers partial"
    "\<forall>k. k \<noteq> ''components'' \<longrightarrow> dget (mr_adjusted_final_score r) k =
       dget (adjust_scores final (mr_horizon_multipliers r) (base_horizon_of cfg) (mr_multiplier r)
         (table_total (mr_local_scores r)) (table_total (mr_discounts r))) k"
    by (rule finish_report_eq)
  have "fst ` set (mr_horizon_multipliers r) = set horizons"
    using factor_report_eq(1) [OF fr] r(2) by (metis set_map)
  then have t: "tget (mr_horizon_multipliers r) (score_horizon (base_horizon_of cfg) key) d =
      tget (mr_horizon_multipliers r) (score_horizon (base_horizon_of cfg) key) 1" for key d
    using score_horizon_in [OF base_horizon_in] by (intro tget_present) auto
  have "0 \<le> table_total (mr_discounts r)"
    unfolding table_total_def r(1) map_map by (rule sum_list_nonneg_real) auto
  moreover have "key \<noteq> ''components''" if "key \<in> set horizon_keys" for key
    using that by (auto simp: horizon_keys_def)
  ultimately show ?thesis
    using r(3) t [of _ "mr_multiplier r"] by (simp add: dget_adjust_scores)
qed

text \<open>
  each adjusted score is the base score times the multiplier of its horizon, plus the
  local scores, minus the local discounts; the discounts are never negative, so a discount
  never raises a score; every entry of the final score that is not one of the four scores or
  the components is passed through.
\<close>

theorem adjusted_score_formula:
  assumes "apply_market_adapter final components overlay ts cfg = Inr r"
  shows "(\<forall>key \<in> set horizon_keys. dget (mr_adjusted_final_score r) key =
            PFloat (try_float (dget final key) 0 *
                    tget (mr_horizon_multipliers r) (score_horizon (base_horizon_of cfg) key) 1 +
                    table_total (mr_local_scores r) - table_total (mr_discounts r))) \<and>
         0 \<le> table_total (mr_discounts r) \<and>
         (\<forall>key. key \<notin> set horizon_keys \<longrightarrow> key \<noteq> ''components'' \<longrightarrow>
            dget (mr_adjusted_final_score r) key = dget final key)"
  using assms by (rule adjusted_scores)

definition all_zero :: "table \<Rightarrow> bool" where
  "all_zero t \<longleftrightarrow> (\<forall>p \<in> set t. snd p = 0)"

lemma tget_all_zero: "all_zero t \<Longrightarrow> tget t k 0 = 0"
  by (force simp: all_zero_def tget_def dest: map_of_SomeD split: option.splits)

lemma table_total_zero: "all_zero t \<Longrightarrow> table_total t = 0"
  unfolding all_zero_def table_total_def by (induction t) auto

lemma target_signal_none: "target_signal [] ts = Inr x \<Longrightarrow> x = 0"
proof -
  have "res_fold (add_target []) ts acc = Inr x \<Longrightarrow> x = acc" for acc
    by (induction ts) (auto simp: res_bind_eq_Inr add_target_def res_map_eq_Inr split: pyval.splits)
  then show "target_signal [] ts = Inr x \<Longrightarrow> ?thesis" by (simp add: target_signal_def)
qed

lemma raw_signals_none: "raw_signals [] rules factors = Inr raw \<Longrightarrow> all_zero raw"
  by (auto simp: raw_signals_def all_zero_def res_bind_eq_Inr res_map_eq_Inr
      dest!: res_list_in target_signal_none)

lemma local_table_none: "local_table rules k [] = Inr t \<Longrightarrow> all_zero t"
  by (auto simp: local_table_def all_zero_def res_bind_eq_Inr res_map_eq_Inr
      dest!: res_list_in target_signal_none)

lemma normalize_zero:
  "fst (factor_range cfg) \<le> 0 \<Longrightarrow> 0 \<le> snd (factor_range cfg) \<Longrightarrow> normalize_factor_score 0 cfg = 0"
  by (simp add: normalize_factor_score_def Let_def case_prod_unfold market_clip.fixed)

lemma score_table_zero:
  "all_zero raw \<Longrightarrow> fst (factor_range cfg) \<le> 0 \<Longrightarrow> 0 \<le> snd (factor_range cfg) \<Longrightarrow>
   all_zero (beta_table betas (score_table cfg raw))"
  by (auto simp: all_zero_def beta_table_def score_table_def normalize_zero)

lemma weighted_sum_zero: "all_zero t \<Longrightarrow> weighted_sum w t factors = 0"
  by (simp add: weighted_sum_def tget_all_zero)

text \<open>
  without role components the adapter is neutral: when the factor range contains 0 and
  the multiplier bounds contain 1, every multiplier is 1 and each of the four scores comes back
  as the number it was.
\<close>

theorem adapter_neutral:
  assumes "apply_market_adapter final [] overlay ts cfg = Inr r"
    and "multiplier_bounds cfg = Inr (lo, hi)" "inside lo hi 1"
    and "fst (factor_range cfg) \<le> 0" "0 \<le> snd (factor_range cfg)"
  shows "mr_multiplier r = 1 \<and> (\<forall>hm \<in> set (mr_horizon_multipliers r). snd hm = 1) \<and>
    (\<forall>key \<in> set horizon_keys.
       dget (mr_adjusted_final_score r) key = PFloat (try_float (dget final key) 0))"
proof -
  from assms(1) obtain rules lo' hi' factors betas raw partial where
    b: "multiplier_bounds cfg = Inr (lo', hi')" and raw: "raw_signals [] rules factors = Inr raw"
    and fr: "factor_report cfg rules (infer_market_code overlay ts) factors betas raw lo' hi' = Inr partial"
    and fin: "finish_report final [] overlay rules (base_horizon_of cfg) partial = Inr r"
    by (rule apply_market_adapter_eq)
  have lh: "lo' = lo" "hi' = hi" using b assms(2) by simp_all
  from fin obtain ls ds where ls: "local_table rules ''local_scores'' [] = Inr ls"
    and ds: "local_table rules ''discounts'' [] = Inr ds"
    and r: "mr_local_scores r = ls" "mr_discounts r = map (\<lambda>(name, x). (name, \<bar>x\<bar>)) ds"
    "mr_horizon_multipliers r = mr_horizon_multipliers partial"
    "mr_multiplier r = tget (mr_horizon_multipliers r) (base_horizon_of cfg) 1"
    "\<forall>k. k \<noteq> ''components'' \<longrightarrow> dget (mr_adjusted_final_score r) k =
       dget (adjust_scores final (mr_horizon_multipliers r) (base_horizon_of cfg) (mr_multiplier r)
         (table_total (mr_local_scores r)) (table_total (mr_discounts r))) k"
    by (rule finish_report_eq)
  have z: "all_zero (beta_table betas (score_table cfg raw))"
    using score_table_zero [OF raw_signals_none [OF raw] assms(4,5)] by blast
  have ones: "\<forall>hm \<in> set (mr_horizon_multipliers r). snd hm = 1"
    using factor_report_eq(2) [OF fr] assms(3)
    by (auto simp: r(3) lh weighted_sum_zero [OF z] bound_multiplier_fixed)
  then have t: "tget (mr_horizon_multipliers r) h 1 = 1" for h
    by (force simp: tget_def dest: map_of_SomeD split: option.splits)
  have "all_zero (mr_discounts r)"
    using local_table_none [OF ds] by (auto simp: r(2) all_zero_def)
  then have "table_total (mr_local_scores r) = 0" "table_total (mr_discounts r) = 0"
    using local_table_none [OF ls] by (simp_all add: table_total_zero r(1))
  moreover have "key \<noteq> ''components''" if "key \<in> set horizon_keys" for key
    using that by (auto simp: horizon_keys_def)
  ultimately show ?thesis
    using ones t r(4,5) by (simp add: dget_adjust_scores)
qed

section \<open>Witnesses\<close>

definition ex_cfg :: pydict where
  "ex_cfg =
     [(''factors'', PList [PStr ''theme'']),
      (''multiplier_bounds'', PDict [(''max'', PFloat 3)]),
      (''market_rules'', PDict [(''CN_A'', PDict
        [(''target_map'', PDict [(''theme'', PList [PStr ''theme_multiplier''])]),
         (''factor_weights'', PDict [(''short'', PDict []), (''mid'', PDict []), (''long'', PDict [])]),
         (''discounts'', PDict [(''gap'', PList [PStr ''gap_risk''])])])])]"

definition ex_overlay_cn :: pydict where
  "ex_overlay_cn = [(''ts_code'', PStr ''000001.SZ'')]"

lemma ex_market_code: "infer_market_code ex_overlay_cn PNone = ''CN_A''"
  by code_simp

lemmas market_eval =
  apply_market_adapter_def market_rules_of_def multiplier_bounds_def factor_names_def
  add_name_def canonical_factor_name_def stock_local_betas_def raw_signals_def factor_targets_def
  factor_report_def horizon_row_def horizons_def factor_weights_def finish_report_def
  local_table_def py_or_def optional_float_def base_horizon_of_def normalize_horizon_def
  dget_adjust_scores horizon_keys_def target_signal_def add_target_def

lemma ex_bounds: "multiplier_bounds ex_cfg = Inr (Some (2/10), Some 3)"
  by (simp add: multiplier_bounds_def ex_cfg_def py_or_def optional_float_def)

lemma ex_range: "factor_range ex_cfg = (-1, 1)"
  by (simp add: factor_range_def ex_cfg_def)

lemma ex_apply:
  "\<exists>r. apply_market_adapter [(''short_total'', PFloat 2)] [] ex_overlay_cn PNone ex_cfg = Inr r"
  unfolding ex_cfg_def by (simp add: market_eval str_eval Let_def ex_market_code)

lemma ex_apply_gap:
  "\<exists>r. apply_market_adapter [(''short_total'', PFloat 2)]
     [(''theme_multiplier'', PFloat 2), (''gap_risk'', PFloat (-1))] ex_overlay_cn PNone ex_cfg = Inr r"
  unfolding ex_cfg_def by (simp add: market_eval str_eval Let_def ex_market_code)

lemma adapter_stays_in_bounds_witness:
  "\<exists>r. apply_market_adapter [(''short_total'', PFloat 2)]
     [(''theme_multiplier'', PFloat 2), (''gap_risk'', PFloat (-1))] ex_overlay_cn PNone ex_cfg = Inr r \<and>
     inside (Some (2/10)) (Some 3) (mr_multiplier r)"
proof -
  obtain r where r: "apply_market_adapter [(''short_total'', PFloat 2)]
     [(''theme_multiplier'', PFloat 2), (''gap_risk'', PFloat (-1))] ex_overlay_cn PNone ex_cfg = Inr r"
    using ex_apply_gap by blast
  have "as_mapping (py_or (dget ex_cfg ''stock_beta_bounds'') (PDict [])) = Inr []"
    by (simp add: ex_cfg_def py_or_def)
  from adapter_stays_in_bounds [OF r ex_bounds _ this] r show ?thesis by simp
qed

lemma adjusted_score_formula_witness:
  "\<exists>r. apply_market_adapter [(''short_total'', PFloat 2)]
     [(''theme_multiplier'', PFloat 2), (''gap_risk'', PFloat (-1))] ex_overlay_cn PNone ex_cfg = Inr r \<and>
     0 \<le> table_total (mr_discounts r)"
  using ex_apply_gap adjusted_score_formula by blast

lemma adapter_neutral_witness:
  "\<exists>r. apply_market_adapter [(''short_total'', PFloat 2)] [] ex_overlay_cn PNone ex_cfg = Inr r \<and>
     dget (mr_adjusted_final_score r) ''short_total'' = PFloat 2"
proof -
  obtain r where r: "apply_market_adapter [(''short_total'', PFloat 2)] [] ex_overlay_cn PNone ex_cfg = Inr r"
    using ex_apply by blast
  have "inside (Some (2/10)) (Some 3) 1" by (simp add: inside_def)
  from adapter_neutral [OF r ex_bounds this] r show ?thesis by (simp add: ex_range horizon_keys_def)
qed

end
