(* ===== verification/Scoring.thy ===== *)
theory Scoring
  imports Prelude Governance Market
begin

text \<open>
  \<open>mvp20/scoring.py\<close>: path, node, company and final scores, the classifier of the seven
  modes, the trading signal, and \<open>score_company\<close>, which runs them on the output of the
  aggregator (flat form) or on a prepared envelope, and sends the final score through the
  market adapter. The aggregator's output, the coverage report and the overlay are
  dictionaries; an absent one is the empty dictionary, which the code treats alike.
\<close>

section \<open>Constants\<close>

datatype mode =
    StrongBull | ModerateBull | Digestion | StructuralDivergence | DeRating | TrendReversal
  | WaitForConfirmation

fun mode_key :: "mode \<Rightarrow> string" where
  "mode_key StrongBull = ''strong_bull''"
| "mode_key ModerateBull = ''moderate_bull''"
| "mode_key Digestion = ''digestion''"
| "mode_key StructuralDivergence = ''structural_divergence''"
| "mode_key DeRating = ''de_rating''"
| "mode_key TrendReversal = ''trend_reversal''"
| "mode_key WaitForConfirmation = ''wait_for_confirmation''"

fun mode_display :: "mode \<Rightarrow> string" where
  "mode_display StrongBull = utf8 [229, 188, 186, 229, 164, 154, 229, 164, 180]"
| "mode_display ModerateBull = utf8 [230, 184, 169, 229, 146, 140, 229, 164, 154, 229, 164, 180]"
| "mode_display Digestion = utf8 [233, 156, 135, 232, 141, 161, 230, 182, 136, 229, 140, 150]"
| "mode_display StructuralDivergence = utf8 [231, 187, 147, 230, 158, 132, 229, 136, 134, 229, 140, 150]"
| "mode_display DeRating = utf8 [230, 157, 128, 228, 188, 176, 229, 128, 188]"
| "mode_display TrendReversal = utf8 [232, 182, 139, 229, 138, 191, 229, 143, 141, 232, 189, 172]"
| "mode_display WaitForConfirmation = utf8 [231, 173, 137, 229, 190, 133, 233, 170, 140, 232, 175, 129]"

definition horizon_default_weights :: pydict where
  "horizon_default_weights =
     [(''short'', PFloat (30/100)), (''medium'', PFloat (45/100)), (''long'', PFloat (25/100))]"

definition signal_buy_threshold :: real where
  "signal_buy_threshold = 50/100"

definition signal_hold_threshold :: real where
  "signal_hold_threshold = 15/100"

definition signal_watch_threshold :: real where
  "signal_watch_threshold = -10/100"

section \<open>Helpers\<close>

definition clip_opt :: "real option \<Rightarrow> real \<Rightarrow> real \<Rightarrow> real" where
  "clip_opt value lo hi =
     (case value of
        None \<Rightarrow> lo
      | Some x \<Rightarrow> if x < lo then lo else if x > hi then hi else x)"

definition clip_score :: "real \<Rightarrow> real \<Rightarrow> real \<Rightarrow> real" where
  "clip_score x lo hi = clip_opt (Some x) lo hi"

interpretation score_clip: clamping clip_score
  by unfold_locales (auto simp: clip_score_def clip_opt_def)

definition sign_of :: "real \<Rightarrow> real" where
  "sign_of f = (if f > 0 then 1 else if f < 0 then -1 else 0)"

definition coerce_direction :: "pyval \<Rightarrow> real" where
  "coerce_direction value =
     (case value of
        PStr s \<Rightarrow>
          (let v = py_lower (py_strip s) in
           if v = ''positive'' then 1
           else if v = ''negative'' then -1
           else if v \<in> {''neutral'', [], ''none''} then 0
           else case parse_float v of None \<Rightarrow> 0 | Some f \<Rightarrow> sign_of f)
      | v \<Rightarrow> sign_of (try_float v 0))"

section \<open>Path, node and company scores\<close>

record path_inputs =
  pi_direction :: pyval
  pi_event_strength :: pyval
  pi_transmission_strength :: pyval
  pi_company_exposure :: pyval
  pi_revenue_share :: pyval
  pi_profit_elasticity :: pyval
  pi_confidence :: pyval
  pi_time_factor :: pyval
  pi_expectation_gap :: pyval
  pi_capital_amplification :: pyval
  pi_priced_in_discount :: pyval
  pi_risk_discount :: pyval

definition compute_path_score :: "path_inputs \<Rightarrow> real" where
  "compute_path_score p =
     (let multiplicative =
            coerce_direction (pi_direction p) * try_float (pi_event_strength p) 0 *
            try_float (pi_transmission_strength p) 0 * try_float (pi_company_exposure p) 0 *
            try_float (pi_revenue_share p) 0 * try_float (pi_profit_elasticity p) 0 *
            try_float (pi_confidence p) 0 * try_float (pi_time_factor p) 0 *
            try_float (pi_expectation_gap p) 0 * try_float (pi_capital_amplification p) 0
      in multiplicative - try_float (pi_priced_in_discount p) 0 - try_float (pi_risk_discount p) 0)"

definition child_term :: "pydict \<Rightarrow> real" where
  "child_term c =
     try_float (dget c ''score'') 0 * try_float (dget c ''weight'') 1 *
     try_float (dget c ''confidence'') 1"

definition compute_node_score :: "pyval \<Rightarrow> pyval \<Rightarrow> pyval \<Rightarrow> pydict list \<Rightarrow> real" where
  "compute_node_score direction strength confidence children =
     (if children \<noteq> [] then sum_list (map child_term children)
      else coerce_direction direction * try_float strength 0 * try_float confidence 1)"

record contribution =
  co_name :: pyval
  co_value :: real
  co_direction :: real
  co_confidence :: real

record company_report =
  cs_score :: real
  cs_industry_contrib :: real
  cs_event :: real
  cs_capital :: real
  cs_risk :: real
  cs_valuation_pressure :: real
  cs_priced_in :: real
  cs_contributions :: "contribution list"

definition industry_contribution :: "pydict \<Rightarrow> contribution" where
  "industry_contribution v =
     (let contrib = try_float (dget v ''score'') 0 * try_float (dget v ''exposure'') 1 *
                    try_float (dget v ''revenue_share'') 1 * try_float (dget v ''profit_elasticity'') 1 *
                    try_float (dget v ''financial_sensitivity'') 1 *
                    try_float (dget v ''valuation_sensitivity'') 1
      in \<lparr>co_name = py_or (py_or (dget v ''name'') (dget v ''node_id'')) (PStr []),
          co_value = contrib,
          co_direction = coerce_direction (py_or (dget v ''direction'') (PFloat contrib)),
          co_confidence = try_float (dget v ''confidence'') 1\<rparr>)"

definition compute_company_score :: "pyval \<Rightarrow> pyval \<Rightarrow> pyval \<Rightarrow> pyval \<Rightarrow> pyval \<Rightarrow> pyval \<Rightarrow>
    company_report res" where
  "compute_company_score industry_variables company_event_score capital_sentiment_score risk_discount
       valuation_pressure priced_in_discount =
     res_bind (py_iter (py_or industry_variables (PList []))) (\<lambda>vs.
     res_map (\<lambda>ds.
         let contribs = map industry_contribution ds;
             industry_total = sum_list (map co_value contribs);
             event = try_float company_event_score 0; capital = try_float capital_sentiment_score 0;
             risk = try_float risk_discount 0; val_pressure = try_float valuation_pressure 0;
             priced_in = try_float priced_in_discount 0
         in \<lparr>cs_score = industry_total + event + capital - risk - val_pressure - priced_in,
             cs_industry_contrib = industry_total, cs_event = event, cs_capital = capital,
             cs_risk = risk, cs_valuation_pressure = val_pressure, cs_priced_in = priced_in,
             cs_contributions = contribs\<rparr>)
       (res_list as_mapping vs))"

section \<open>The final score\<close>

definition trading_verb :: "real \<Rightarrow> string" where
  "trading_verb avg =
     (if avg \<ge> signal_buy_threshold then utf8 [231, 167, 175, 230, 158, 129, 228, 187, 139, 229, 133, 165]
      else if avg \<ge> signal_hold_threshold then utf8 [231, 187, 180, 230, 140, 129, 228, 187, 147, 228, 189, 141]
      else if avg \<ge> signal_watch_threshold then utf8 [232, 167, 130, 229, 175, 159, 231, 173, 137, 229, 190, 133]
      else utf8 [229, 155, 158, 233, 129, 191])"

definition describe_trading_meaning :: "real \<Rightarrow> real \<Rightarrow> real \<Rightarrow> string" where
  "describe_trading_meaning short_t medium_t long_t =
     utf8 [231, 159, 173] @ '':'' @ fixed3 short_t @ ''/'' @ utf8 [228, 184, 173] @ '':'' @ fixed3 medium_t @ ''/'' @ utf8 [233, 149, 191] @ '':'' @
     fixed3 long_t @ '' => '' @ trading_verb ((short_t + medium_t + long_t) / 3)"

record final_report =
  fr_short_total :: real
  fr_medium_total :: real
  fr_long_total :: real
  fr_base_score :: real
  fr_components :: table
  fr_positive :: "pyval list"
  fr_negative :: "pyval list"
  fr_trading_meaning :: string

record final_inputs =
  fi_fundamental :: real
  fi_expectation_gap :: real
  fi_valuation_rerating :: real
  fi_capital_sentiment :: real
  fi_risk :: real
  fi_priced_in :: real

definition base_total :: "final_inputs \<Rightarrow> real" where
  "base_total i =
     fi_fundamental i + fi_expectation_gap i + fi_valuation_rerating i + fi_capital_sentiment i -
     fi_risk i - fi_priced_in i"

definition horizon_total :: "final_inputs \<Rightarrow> pyval \<Rightarrow> real res" where
  "horizon_total i weights =
     (if \<not> truthy weights then Inr (base_total i)
      else res_map (\<lambda>w.
             fi_fundamental i * try_float (dget w ''fundamental'') 1 +
             fi_expectation_gap i * try_float (dget w ''expectation_gap'') 1 +
             fi_valuation_rerating i * try_float (dget w ''valuation_rerating'') 1 +
             fi_capital_sentiment i * try_float (dget w ''capital_sentiment'') 1 -
             fi_risk i - fi_priced_in i) (as_mapping weights))"

text \<open>The six scores, cast as the function casts them, and the totals.\<close>

definition cast_inputs :: "pyval \<Rightarrow> pyval \<Rightarrow> pyval \<Rightarrow> pyval \<Rightarrow> pyval \<Rightarrow> pyval \<Rightarrow> final_inputs" where
  "cast_inputs f e vr cs r p =
     \<lparr>fi_fundamental = try_float f 0, fi_expectation_gap = try_float e 0,
      fi_valuation_rerating = try_float vr 0, fi_capital_sentiment = try_float cs 0,
      fi_risk = try_float r 0, fi_priced_in = try_float p 0\<rparr>"

definition compute_final_score :: "final_inputs \<Rightarrow> pydict \<Rightarrow> pyval list \<Rightarrow> pyval list \<Rightarrow>
    final_report res" where
  "compute_final_score i mix pos neg =
     res_bind (horizon_total i (dget mix ''short'')) (\<lambda>short_total.
     res_bind (horizon_total i (dget mix ''medium'')) (\<lambda>medium_total.
     res_bind (horizon_total i (dget mix ''long'')) (\<lambda>long_total.
       Inr \<lparr>fr_short_total = short_total, fr_medium_total = medium_total,
            fr_long_total = long_total, fr_base_score = base_total i,
            fr_components =
              [(''fundamental'', fi_fundamental i), (''expectation_gap'', fi_expectation_gap i),
               (''valuation_rerating'', fi_valuation_rerating i),
               (''capital_sentiment'', fi_capital_sentiment i), (''risk'', fi_risk i),
               (''priced_in'', fi_priced_in i)],
            fr_positive = pos, fr_negative = neg,
            fr_trading_meaning = describe_trading_meaning short_total medium_total long_total\<rparr>)))"

definition pyfloat_table :: "table \<Rightarrow> pydict" where
  "pyfloat_table t = map (\<lambda>p. (fst p, PFloat (snd p))) t"

definition final_dict :: "final_report \<Rightarrow> pydict" where
  "final_dict r =
     [(''short_total'', PFloat (fr_short_total r)), (''medium_total'', PFloat (fr_medium_total r)),
      (''long_total'', PFloat (fr_long_total r)), (''base_score'', PFloat (fr_base_score r)),
      (''components'', PDict (pyfloat_table (fr_components r))),
      (''primary_positive_path'', PList (fr_positive r)),
      (''primary_negative_path'', PList (fr_negative r)),
      (''trading_meaning'', PStr (fr_trading_meaning r))]"

section \<open>The modes\<close>

record signal_pack =
  sg_industry_trend :: real
  sg_exposure :: real
  sg_financial_revision :: real
  sg_valuation_pressure :: real
  sg_capital_flow :: real
  sg_expectation_gap :: real
  sg_priced_in :: real
  sg_new_catalyst :: real
  sg_competition :: real
  sg_event_present :: real
  sg_operating_confirmed :: real

definition signals_dict :: "signal_pack \<Rightarrow> pydict" where
  "signals_dict s =
     [(''industry_trend'', PFloat (sg_industry_trend s)), (''exposure'', PFloat (sg_exposure s)),
      (''financial_revision'', PFloat (sg_financial_revision s)),
      (''valuation_pressure'', PFloat (sg_valuation_pressure s)),
      (''capital_flow'', PFloat (sg_capital_flow s)),
      (''expectation_gap'', PFloat (sg_expectation_gap s)), (''priced_in'', PFloat (sg_priced_in s)),
      (''new_catalyst'', PFloat (sg_new_catalyst s)), (''competition'', PFloat (sg_competition s)),
      (''event_present'', PFloat (sg_event_present s)),
      (''operating_confirmed'', PFloat (sg_operating_confirmed s))]"

definition read_signals :: "pydict \<Rightarrow> signal_pack" where
  "read_signals s =
     \<lparr>sg_industry_trend = try_float (dget s ''industry_trend'') 0,
      sg_exposure = try_float (dget s ''exposure'') 0,
      sg_financial_revision = try_float (dget s ''financial_revision'') 0,
      sg_valuation_pressure = try_float (dget s ''valuation_pressure'') 0,
      sg_capital_flow = try_float (dget s ''capital_flow'') 0,
      sg_expectation_gap = try_float (dget s ''expectation_gap'') 0,
      sg_priced_in = try_float (dget s ''priced_in'') 0,
      sg_new_catalyst = try_float (dget s ''new_catalyst'') 0,
      sg_competition = try_float (dget s ''competition'') 0,
      sg_event_present = try_float (dget s ''event_present'') 0,
      sg_operating_confirmed = try_float (dget s ''operating_confirmed'') 0\<rparr>"

definition central_score :: "pydict \<Rightarrow> real" where
  "central_score final_score =
     (try_float (dget final_score ''short_total'') 0 + try_float (dget final_score ''medium_total'') 0 +
      try_float (dget final_score ''long_total'') 0) / 3"

definition mode_confidence :: "real list \<Rightarrow> real \<Rightarrow> real" where
  "mode_confidence positives magnitude =
     (let vals = map (\<lambda>v. clip_score v 0 (3/2)) positives in
      if vals = [] then 1/2
      else let base = clip_score (sum_list vals / real (length vals)) 0 1;
               base1 = (if \<bar>magnitude\<bar> < 5/100 then base * (1/2) else base)
           in clip_score base1 0 1)"

record mode_result =
  md_mode :: mode
  md_confidence :: real
  md_drivers :: "string list"
  md_rationale :: string

definition make_mode :: "mode \<Rightarrow> real \<Rightarrow> string list \<Rightarrow> string \<Rightarrow> mode_result" where
  "make_mode m confidence drivers rationale =
     \<lparr>md_mode = m, md_confidence = clip_score confidence 0 1, md_drivers = drivers,
      md_rationale = rationale\<rparr>"

text \<open>The gates of the modes, in the order in which they are tried.\<close>

definition reversal_gate :: "signal_pack \<Rightarrow> bool" where
  "reversal_gate s \<longleftrightarrow>
     sg_industry_trend s \<le> -3/10 \<and> sg_financial_revision s \<le> -2/10 \<and> sg_capital_flow s \<le> -2/10"

definition de_rating_gate :: "signal_pack \<Rightarrow> bool" where
  "de_rating_gate s \<longleftrightarrow>
     sg_valuation_pressure s \<ge> 6/10 \<and> sg_capital_flow s \<le> -2/10 \<and> sg_financial_revision s < 2/10"

definition waiting_gate :: "signal_pack \<Rightarrow> bool" where
  "waiting_gate s \<longleftrightarrow>
     sg_event_present s \<ge> 5/10 \<and> sg_operating_confirmed s < 4/10 \<and> \<bar>sg_expectation_gap s\<bar> < 4/10"

definition strong_bull_gate :: "signal_pack \<Rightarrow> bool" where
  "strong_bull_gate s \<longleftrightarrow>
     sg_industry_trend s \<ge> 4/10 \<and> sg_exposure s \<ge> 5/10 \<and> sg_financial_revision s \<ge> 2/10 \<and>
     sg_valuation_pressure s < 6/10 \<and> sg_capital_flow s \<ge> 2/10"

definition divergence_gate :: "signal_pack \<Rightarrow> bool" where
  "divergence_gate s \<longleftrightarrow> sg_industry_trend s \<ge> 2/10 \<and> sg_exposure s < 5/10"

definition digestion_gate :: "signal_pack \<Rightarrow> bool" where
  "digestion_gate s \<longleftrightarrow>
     sg_priced_in s \<ge> 5/10 \<and> sg_new_catalyst s < 3/10 \<and> \<bar>sg_financial_revision s\<bar> < 2/10 \<and>
     \<bar>sg_capital_flow s\<bar> < 3/10"

definition moderate_bull_gate :: "signal_pack \<Rightarrow> bool" where
  "moderate_bull_gate s \<longleftrightarrow>
     sg_industry_trend s \<ge> 2/10 \<and> sg_financial_revision s \<ge> 0 \<and> sg_valuation_pressure s < 8/10 \<and>
     sg_capital_flow s \<ge> 0 \<and> sg_expectation_gap s < 4/10"

definition classify_mode :: "pydict \<Rightarrow> pydict \<Rightarrow> mode_result" where
  "classify_mode final_score signals =
     (let s = read_signals signals; central = central_score final_score in
      if reversal_gate s then
        make_mode TrendReversal
          (mode_confidence [- sg_industry_trend s, - sg_financial_revision s, - sg_capital_flow s] central)
          [''industry_trend'' @ utf8 [226, 134, 147],
           ''financial_revision'' @ utf8 [226, 134, 147],
           ''capital_flow'' @ utf8 [226, 134, 147]]
          (utf8 [232, 161, 140, 228, 184, 154, 229, 143, 152, 233, 135, 143, 230, 129, 182, 229,
           140, 150, 227, 128, 129, 232, 180, 162, 229, 138, 161, 233, 162, 132, 230, 156, 159,
           228, 184, 139, 228, 191, 174, 227, 128, 129, 232, 181, 132, 233, 135, 145, 230, 140,
           129, 231, 187, 173, 230, 181, 129, 229, 135, 186] @ '' (spec '' @ utf8 [194, 167] @
           ''30 '' @ utf8 [232, 182, 139, 229, 138, 191, 229, 143, 141, 232, 189, 172] @ '')'')
      else if de_rating_gate s then
        make_mode DeRating (mode_confidence [sg_valuation_pressure s, - sg_capital_flow s] \<bar>central\<bar>)
          [''valuation_pressure'' @ utf8 [226, 134, 145],
           ''capital_flow'' @ utf8 [226, 134, 147]]
          (utf8 [228, 188, 176, 229, 128, 188, 229, 129, 143, 233, 171, 152] @ '' + '' @
           utf8 [232, 181, 132, 233, 135, 145, 230, 146, 164, 229, 135, 186] @ '' + '' @
           utf8 [229, 162, 158, 233, 128, 159, 230, 148, 190, 231, 188, 147] @ '' (spec '' @
           utf8 [194, 167] @ ''30 '' @ utf8 [230, 157, 128, 228, 188, 176, 229, 128, 188] @
           '')'')
      else if waiting_gate s then
        make_mode WaitForConfirmation
          (mode_confidence [sg_event_present s, 1 - sg_operating_confirmed s] \<bar>central\<bar>)
          [''event_present'', ''operating_data_pending'']
          (utf8 [228, 186, 139, 228, 187, 182, 229, 135, 186, 231, 142, 176, 228, 189, 134, 231,
           187, 143, 232, 144, 165, 230, 149, 176, 230, 141, 174, 230, 156, 170, 231, 161, 174,
           232, 174, 164] @ '' (spec '' @ utf8 [194, 167] @ ''30 '' @ utf8 [231, 173, 137, 229,
           190, 133, 233, 170, 140, 232, 175, 129] @ '')'')
      else if strong_bull_gate s then
        make_mode StrongBull
          (mode_confidence [sg_industry_trend s, sg_exposure s, sg_financial_revision s,
             sg_capital_flow s, 1 - sg_valuation_pressure s] central)
          [''industry_trend'' @ utf8 [226, 134, 145],
           ''exposure'' @ utf8 [226, 134, 145],
           ''financial_revision'' @ utf8 [226, 134, 145],
           ''capital_flow'' @ utf8 [226, 134, 145]]
          (utf8 [232, 161, 140, 228, 184, 154, 226, 134, 145] @ '' '' @ utf8 [230, 154, 180,
           233, 156, 178, 226, 134, 145] @ '' '' @ utf8 [232, 180, 162, 229, 138, 161, 226, 134,
           145] @ '' '' @ utf8 [228, 188, 176, 229, 128, 188, 230, 156, 170, 232, 191, 135, 229,
           186, 166] @ '' '' @ utf8 [232, 181, 132, 233, 135, 145, 226, 134, 145] @
           '' (spec '' @ utf8 [194, 167] @ ''30 '' @ utf8 [229, 188, 186, 229, 164, 154, 229,
           164, 180] @ '')'')
      else if divergence_gate s then
        make_mode StructuralDivergence
          (mode_confidence [sg_industry_trend s, 1 - sg_exposure s] \<bar>central\<bar>)
          [''industry_trend'' @ utf8 [226, 134, 145],
           ''exposure_low'']
          (utf8 [232, 161, 140, 228, 184, 154, 229, 136, 169, 229, 165, 189, 228, 189, 134, 229,
           133, 172, 229, 143, 184, 230, 154, 180, 233, 156, 178, 229, 186, 166, 228, 184, 141,
           232, 182, 179, 239, 188, 140, 233, 190, 153, 229, 164, 180] @ ''>'' @ utf8 [228, 186,
           140, 231, 186, 191] @ '' (spec '' @ utf8 [194, 167] @ ''30 '' @ utf8 [231, 187, 147,
           230, 158, 132, 229, 136, 134, 229, 140, 150] @ '')'')
      else if digestion_gate s then
        make_mode Digestion
          (mode_confidence [sg_priced_in s, 1 - sg_new_catalyst s] \<bar>central\<bar>)
          [''priced_in'' @ utf8 [226, 134, 145],
           ''new_catalyst_low'']
          (utf8 [229, 136, 169, 229, 165, 189, 233, 131, 168, 229, 136, 134, 229, 174, 154, 228,
           187, 183] @ '' + '' @ utf8 [230, 150, 176, 229, 130, 172, 229, 140, 150, 228, 184,
           141, 232, 182, 179] @ '' + '' @ utf8 [232, 180, 162, 229, 138, 161, 231, 168, 179] @
           '' + '' @ utf8 [232, 181, 132, 233, 135, 145, 232, 189, 174, 229, 138, 168] @
           '' (spec '' @ utf8 [194, 167] @ ''30 '' @ utf8 [233, 156, 135, 232, 141, 161, 230,
           182, 136, 229, 140, 150] @ '')'')
      else if moderate_bull_gate s then
        make_mode ModerateBull
          (mode_confidence [sg_industry_trend s, max 0 (sg_financial_revision s),
             max 0 (sg_capital_flow s), 1 - sg_valuation_pressure s] central)
          [''industry_trend'' @ utf8 [226, 134, 145],
           ''valuation_acceptable'']
          (utf8 [229, 159, 186, 230, 156, 172, 233, 157, 162, 229, 188, 186] @ '' '' @
           utf8 [228, 189, 134, 233, 162, 132, 230, 156, 159, 229, 183, 174, 231, 188, 169] @
           '' '' @ utf8 [228, 188, 176, 229, 128, 188, 229, 144, 136, 231, 144, 134] @ '' '' @
           utf8 [232, 181, 132, 233, 135, 145, 231, 168, 179] @ '' (spec '' @ utf8 [194, 167] @
           ''30 '' @ utf8 [230, 184, 169, 229, 146, 140, 229, 164, 154, 229, 164, 180] @ '')'')
      else if central \<le> -20/100 then
        make_mode TrendReversal (min 1 \<bar>central\<bar>) [''score_net_negative'']
          (utf8 [229, 164, 154, 228, 184, 170, 232, 180, 159, 229, 144, 145, 229, 155, 160, 231,
           180, 160, 229, 143, 160, 229, 138, 160] @ '' (fallback, score<-0.2)'')
      else
        make_mode WaitForConfirmation (3/10) [''signals_insufficient'']
          (utf8 [228, 191, 161, 229, 143, 183, 228, 184, 141, 232, 182, 179, 228, 187, 165, 232,
           167, 166, 229, 143, 145, 228, 187, 187, 228, 189, 149] @ '' spec '' @ utf8 [194,
           167] @ ''30 '' @ utf8 [230, 152, 142, 231, 161, 174, 230, 168, 161, 229, 188, 143,
           239, 188, 140, 231, 173, 137, 229, 190, 133, 230, 149, 176, 230, 141, 174, 232, 161,
           165, 229, 133, 133]))"

section \<open>The trading signal\<close>

datatype trading_signal = Avoid | Watch | Hold | Buy

definition horizon_mix_weights :: "pydict \<Rightarrow> real \<times> real \<times> real" where
  "horizon_mix_weights horizon_weights =
     (let w = (if horizon_weights = [] then horizon_default_weights else horizon_weights);
          ws = try_float (dget w ''short'') 0; wm = try_float (dget w ''medium'') 0;
          wl = try_float (dget w ''long'') 0
      in if ws + wm + wl \<le> 0 then (1, 1, 1) else (ws, wm, wl))"

definition signal_mix :: "real \<Rightarrow> real \<Rightarrow> real \<Rightarrow> pydict \<Rightarrow> real" where
  "signal_mix short_t medium_t long_t horizon_weights =
     (let (ws, wm, wl) = horizon_mix_weights horizon_weights in
      (short_t * ws + medium_t * wm + long_t * wl) / (ws + wm + wl))"

definition trading_signal_from_mix :: "real \<Rightarrow> real \<Rightarrow> real \<Rightarrow> pydict \<Rightarrow> trading_signal" where
  "trading_signal_from_mix short_t medium_t long_t horizon_weights =
     (let mix = signal_mix short_t medium_t long_t horizon_weights in
      if mix \<ge> signal_buy_threshold then Buy
      else if mix \<ge> signal_hold_threshold then Hold
      else if mix \<ge> signal_watch_threshold then Watch
      else Avoid)"

section \<open>Reading the aggregator's output\<close>

definition score_keys :: "string list" where
  "score_keys = [''score'', ''short_score'', ''medium_score'', ''long_score'']"

definition has_score_keys :: "pydict \<Rightarrow> bool" where
  "has_score_keys d \<longleftrightarrow> list_all (dhas d) score_keys"

definition is_flat_aggregator_output :: "pydict \<Rightarrow> bool" where
  "is_flat_aggregator_output payload \<longleftrightarrow>
     list_ex (\<lambda>(k, v). is_dict v \<and> (has_score_keys (as_dict v) \<or> dhas (as_dict v) ''score'') \<and>
                       k \<notin> {''nodes'', ''industry_variables''}) payload"

record path_info =
  pa_node_id :: string
  pa_score :: real
  pa_direction :: real
  pa_rationale :: string

text \<open>The pairs of an identifier and a node that the collection runs over.\<close>

definition path_items :: "pydict \<Rightarrow> (string \<times> pydict) list" where
  "path_items aggregated =
     (if is_flat_aggregator_output aggregated
      then List.map_filter (\<lambda>(k, v). if is_dict v \<and> has_score_keys (as_dict v)
                                      then Some (k, as_dict v) else None) aggregated
      else case py_or (dget aggregated ''nodes'') (PDict []) of
             PList ns \<Rightarrow>
               List.map_filter (\<lambda>n. if is_dict n
                 then Some (py_str (py_or (dget (as_dict n) ''node_id'') (PStr [])), as_dict n)
                 else None) ns
           | PDict d \<Rightarrow>
               List.map_filter (\<lambda>(k, v). if is_dict v then Some (k, as_dict v) else None) d
           | _ \<Rightarrow> [])"

definition path_of :: "string \<times> pydict \<Rightarrow> path_info option" where
  "path_of item =
     (let (node_id, node) = item;
          score = try_float (py_or (dget node ''path_score'') (dget node ''score'')) 0
      in if score = 0 \<and> \<not> truthy (dget node ''direction'') then None
         else Some \<lparr>pa_node_id = node_id, pa_score = score,
                    pa_direction = coerce_direction (py_or (dget node ''direction'') (PFloat score)),
                    pa_rationale =
                      py_str (py_or (py_or (dget node ''rationale'') (dget node ''name''))
                                    (PStr node_id))\<rparr>)"

definition collect_path_infos :: "pydict \<Rightarrow> path_info list" where
  "collect_path_infos aggregated = List.map_filter path_of (path_items aggregated)"

definition top_positive :: "path_info list \<Rightarrow> nat \<Rightarrow> path_info list" where
  "top_positive paths n = take n (sort_key (\<lambda>p. - pa_score p) (filter (\<lambda>p. pa_score p > 0) paths))"

definition top_negative :: "path_info list \<Rightarrow> nat \<Rightarrow> path_info list" where
  "top_negative paths n = take n (sort_key pa_score (filter (\<lambda>p. pa_score p < 0) paths))"

definition path_dict :: "path_info \<Rightarrow> pyval" where
  "path_dict p = PDict [(''node_id'', PStr (pa_node_id p)), (''score'', PFloat (pa_score p)),
                        (''rationale'', PStr (pa_rationale p))]"

definition top_paths :: "path_info list \<Rightarrow> nat \<Rightarrow> pyval list \<times> pyval list" where
  "top_paths paths n = (map path_dict (top_positive paths n), map path_dict (top_negative paths n))"

section \<open>The signal pack\<close>

definition clip_to_unit_signed :: "real \<Rightarrow> real" where
  "clip_to_unit_signed f = (if f > 1 then 1 else if f < -1 then -1 else f)"

definition coverage_figure :: "pydict \<Rightarrow> real" where
  "coverage_figure report =
     (let overall = as_dict (dget report ''overall'') in
      try_float (if overall \<noteq> [] then dget overall ''data_coverage'' else dget report ''data_coverage'')
        (1/2))"

definition signals_from_inputs :: "company_report \<Rightarrow> pydict \<Rightarrow> pydict \<Rightarrow> signal_pack" where
  "signals_from_inputs c agg coverage_report =
     (let cov = coverage_figure coverage_report;
          event_present = try_float (dget agg ''event_present'') (if cs_event c \<noteq> 0 then 1 else 0)
      in \<lparr>sg_industry_trend =
            try_float (dget agg ''industry_trend'') (clip_to_unit_signed (cs_industry_contrib c)),
          sg_exposure = clip_score (try_float (dget agg ''company_exposure_overall'') cov) 0 1,
          sg_financial_revision = clip_score (try_float (dget agg ''financial_revision'') 0) (-1) 1,
          sg_valuation_pressure =
            clip_score (try_float (dget agg ''valuation_pressure'')
              (clip_score (cs_valuation_pressure c) 0 1)) 0 1,
          sg_capital_flow =
            clip_score (try_float (dget agg ''capital_flow'') (clip_to_unit_signed (cs_capital c))) (-1) 1,
          sg_expectation_gap = clip_score (try_float (dget agg ''expectation_gap'') 0) (-1) 1,
          sg_priced_in =
            clip_score (try_float (dget agg ''priced_in'') (clip_score (cs_priced_in c) 0 1)) 0 1,
          sg_new_catalyst = clip_score (try_float (dget agg ''new_catalyst'') event_present) 0 1,
          sg_competition = clip_score (try_float (dget agg ''competition'') 0) (-1) 1,
          sg_event_present = clip_score event_present 0 1,
          sg_operating_confirmed =
            clip_score (try_float (dget agg ''operating_confirmed'') cov) 0 1\<rparr>)"

section \<open>Role components\<close>

definition company_aggregate_from_flat :: "pydict \<Rightarrow> string \<Rightarrow> pydict option" where
  "company_aggregate_from_flat agg ts_code =
     (let node = dget agg (ts_code @ '':company'') in
      if ts_code \<noteq> [] \<and> is_dict node then Some (as_dict node)
      else map_option (\<lambda>kv. as_dict (snd kv))
             (find (\<lambda>(k, v). py_endswith k '':company'' \<and> is_dict v) agg))"

definition governed :: "pyval \<Rightarrow> bool" where
  "governed v \<longleftrightarrow>
     is_dict v \<and> (truthy (dget (as_dict v) ''field_role'') \<or> truthy (dget (as_dict v) ''score_target''))"

definition has_role_governance :: "pydict \<Rightarrow> pydict \<Rightarrow> bool res" where
  "has_role_governance agg overlay =
     res_map (\<lambda>nodes. list_ex governed nodes \<or> list_ex (\<lambda>kv. governed (snd kv)) agg)
       (py_iter (py_or (dget overlay ''nodes'') (PList [])))"

definition role_participates :: "pydict \<Rightarrow> bool" where
  "role_participates node \<longleftrightarrow>
     \<not> (dget node ''participates_in_score'' \<noteq> PNone \<and> \<not> truthy (dget node ''participates_in_score'')) \<and>
     \<not> (dget node ''score_enabled'' \<noteq> PNone \<and> \<not> truthy (dget node ''score_enabled'')) \<and>
     \<not> (truthy (dget node ''field_role'') \<and> py_str (dget node ''field_role'') \<in> set non_scoring_roles)"

definition role_term :: "string \<Rightarrow> bool \<Rightarrow> string \<times> pyval \<Rightarrow> real" where
  "role_term target absolute kv =
     (let node = as_dict (snd kv); score = try_float (dget node ''score'') 0 in
      if is_dict (snd kv) \<and> dget node ''score_target'' = PStr target \<and> role_participates node
      then (if absolute then \<bar>score\<bar> else score) * try_float (dget node ''confidence'') 1
      else 0)"

definition sum_role_target :: "pydict \<Rightarrow> string \<Rightarrow> bool \<Rightarrow> real" where
  "sum_role_target agg target absolute = sum_list (map (role_term target absolute) agg)"

definition sum_role_targets :: "pydict \<Rightarrow> string list \<Rightarrow> bool \<Rightarrow> real" where
  "sum_role_targets agg targets absolute =
     sum_list (map (\<lambda>t. sum_role_target agg t absolute) targets)"

definition multiplier_factor_from_targets :: "pydict \<Rightarrow> string list \<Rightarrow> real" where
  "multiplier_factor_from_targets agg targets =
     1 + clip_score (sum_role_targets agg targets False) (-1/2) 1"

definition confidence_factor :: "string \<times> pyval \<Rightarrow> real option" where
  "confidence_factor kv =
     (let node = as_dict (snd kv);
          confidence = clip_score (try_float (dget node ''confidence'') 1) 0 1;
          coverage = dget node ''data_coverage''
      in if is_dict (snd kv) \<and> dget node ''score_target'' = PStr ''confidence_multiplier'' \<and>
            role_participates node
         then Some (if coverage \<noteq> PNone then confidence * clip_score (try_float coverage 1) 0 1
                    else confidence)
         else None)"

definition confidence_multiplier_from_flat :: "pydict \<Rightarrow> real" where
  "confidence_multiplier_from_flat agg =
     (let factors = List.map_filter confidence_factor agg in
      if factors = [] then 1 else sum_list factors / real (length factors))"

definition stack_targets :: "string list" where
  "stack_targets =
     [''multiplier_stack'', ''funding_multiplier'', ''theme_multiplier'', ''sentiment_multiplier'',
      ''policy_sensitivity_multiplier'', ''market_regime_multiplier'', ''reflexivity_multiplier'',
      ''liquidity_multiplier'', ''options_momentum_multiplier'', ''gamma_multiplier'',
      ''valuation_sensitivity_multiplier'', ''rate_sensitivity_multiplier'',
      ''narrative_sensitivity_multiplier'']"

definition role_components_from_flat :: "pydict \<Rightarrow> table" where
  "role_components_from_flat agg =
     [(''expectation_gap'', sum_role_target agg ''expectation_gap'' False),
      (''valuation_rerating'', sum_role_target agg ''valuation_rerating'' False),
      (''funding_score'', sum_role_target agg ''funding_score'' False),
      (''sentiment_score'', sum_role_target agg ''sentiment_score'' False),
      (''capital_sentiment'',
        sum_role_targets agg [''capital_sentiment'', ''funding_score'', ''sentiment_score''] False),
      (''risk_discount'',
        sum_role_targets agg
          [''risk_discount'', ''uncertainty_discount'', ''volatility_risk'', ''overheat_risk''] True),
      (''valuation_pressure'', sum_role_target agg ''valuation_pressure'' True),
      (''priced_in_discount'',
        sum_role_targets agg [''priced_in_discount'', ''option_priced_in'', ''time_decay''] True),
      (''funding_multiplier'', multiplier_factor_from_targets agg [''funding_multiplier'']),
      (''theme_multiplier'', multiplier_factor_from_targets agg [''theme_multiplier'']),
      (''policy_sensitivity_multiplier'',
        multiplier_factor_from_targets agg [''policy_sensitivity_multiplier'']),
      (''market_regime_multiplier'', multiplier_factor_from_targets agg [''market_regime_multiplier'']),
      (''reflexivity_multiplier'', multiplier_factor_from_targets agg [''reflexivity_multiplier'']),
      (''valuation_sensitivity_multiplier'',
        multiplier_factor_from_targets agg
          [''valuation_sensitivity_multiplier'', ''rate_sensitivity_multiplier'',
           ''narrative_sensitivity_multiplier'']),
      (''multiplier_stack'', multiplier_factor_from_targets agg stack_targets),
      (''confidence_multiplier'', confidence_multiplier_from_flat agg)]"

section \<open>Industry variables of the flat form\<close>

definition py_in_set :: "pyval \<Rightarrow> string list \<Rightarrow> bool res" where
  "py_in_set v names = res_map (\<lambda>k. k \<in> KStr ` set names) (py_key v)"

definition scoring_targets :: "string list" where
  "scoring_targets =
     [''fundamental_score'', ''base_score'', ''node_score'', ''parent_score'', ''optionality_score'']"

definition scoring_roles :: "string list" where
  "scoring_roles = [''score_component'', ''derived_metric'', ''gate'', ''aggregation'']"

text \<open>The filter of the loop, under governance and by layer.\<close>

definition industry_node_selected :: "bool \<Rightarrow> pydict \<Rightarrow> pydict \<Rightarrow> bool res" where
  "industry_node_selected use_governance agg n =
     (if use_governance then
        (let role = py_or (dget agg ''field_role'') (dget n ''field_role'');
             target = py_or (dget agg ''score_target'') (dget n ''score_target'');
             participates = dget agg ''participates_in_score'';
             role_node = [(''field_role'', role), (''score_target'', target),
               (''participates_in_score'',
                 if participates \<noteq> PNone then participates else dget n ''participates_in_score''),
               (''score_enabled'', dget agg ''score_enabled'')]
         in if \<not> role_participates role_node then Inr False
            else res_bind (py_in_set target scoring_targets) (\<lambda>ok.
                   if ok then py_in_set role scoring_roles else Inr False))
      else
        (let layer = py_str (py_or (dget n ''layer'') (PStr [])) in
         Inr (py_startswith layer ''industry'' \<or> py_startswith layer ''company_position'')))"

definition industry_variable :: "pydict \<Rightarrow> pydict \<Rightarrow> pyval" where
  "industry_variable agg n =
     PDict [(''name'', py_or (py_or (dget n ''node_name'') (dget n ''dp_id'')) (dget n ''node_id'')),
            (''node_id'', dget n ''node_id''),
            (''score'', PFloat (try_float (dget agg ''score'') 0)),
            (''exposure'', PFloat (try_float (dget n ''exposure'') 1)),
            (''revenue_share'',
              PFloat (try_float (py_or (dget n ''revenue_share'') (dget n ''materiality'')) 1)),
            (''profit_elasticity'', PFloat (try_float (dget n ''profit_elasticity'') 1)),
            (''financial_sensitivity'', PFloat (try_float (dget n ''financial_sensitivity'') 1)),
            (''valuation_sensitivity'', PFloat (try_float (dget n ''valuation_sensitivity'') 1)),
            (''direction'', py_or (dget n ''direction'') (PStr ''neutral'')),
            (''confidence'', PFloat (try_float (dget agg ''confidence'') 0)),
            (''materiality'', PFloat (try_float (dget n ''materiality'') 1))]"

definition industry_step :: "bool \<Rightarrow> pydict \<Rightarrow> pyval \<Rightarrow> pyval list \<Rightarrow> pyval list res" where
  "industry_step use_governance aggregated v out =
     (let n = as_dict v;
          agg = (case dget n ''node_id'' of PStr nid \<Rightarrow> dget aggregated nid | _ \<Rightarrow> PNone)
      in if \<not> is_dict v \<or> \<not> is_dict agg then Inr out
         else res_map (\<lambda>sel. if sel then out @ [industry_variable (as_dict agg) n] else out)
                (industry_node_selected use_governance (as_dict agg) n))"

definition industry_variables_from_flat :: "pydict \<Rightarrow> pydict \<Rightarrow> pyval list res" where
  "industry_variables_from_flat aggregated overlay =
     res_bind (py_iter (py_or (dget overlay ''nodes'') (PList []))) (\<lambda>nodes.
     res_bind (has_role_governance aggregated overlay) (\<lambda>use_governance.
       res_fold (industry_step use_governance aggregated) nodes []))"

section \<open>The driver\<close>

record company_inputs =
  ci_industry_variables :: pyval
  ci_event :: real
  ci_capital :: real
  ci_risk :: real
  ci_valuation :: real
  ci_priced_in :: real
  ci_roles :: table

text \<open>\<open>if x == 0.0: x = role_components.get(key, 0.0)\<close>, when there are role components.\<close>

definition role_default :: "table \<Rightarrow> string \<Rightarrow> real \<Rightarrow> real" where
  "role_default roles key x = (if roles \<noteq> [] \<and> x = 0 then tget roles key 0 else x)"

definition role_value :: "table \<Rightarrow> string \<Rightarrow> pyval \<Rightarrow> real" where
  "role_value roles key v = role_default roles key (try_float v (tget roles key 0))"

definition flat_inputs :: "pydict \<Rightarrow> pydict \<Rightarrow> string \<Rightarrow> company_inputs res" where
  "flat_inputs agg overlay ts_code =
     res_bind (industry_variables_from_flat agg overlay) (\<lambda>vars.
     res_bind (has_role_governance agg overlay) (\<lambda>gov.
       let company = (case company_aggregate_from_flat agg ts_code of None \<Rightarrow> [] | Some d \<Rightarrow> d);
           roles = (if gov then role_components_from_flat agg else [])
       in Inr \<lparr>ci_industry_variables = PList vars,
               ci_event = try_float (dget agg ''company_event_score'') 0,
               ci_capital = role_value roles ''capital_sentiment'' (dget agg ''capital_sentiment_score''),
               ci_risk = role_value roles ''risk_discount'' (dget company ''risk_discount''),
               ci_valuation = role_value roles ''valuation_pressure'' (dget agg ''valuation_pressure''),
               ci_priced_in =
                 role_value roles ''priced_in_discount'' (dget company ''priced_in_discount''),
               ci_roles = roles\<rparr>))"

definition envelope_inputs :: "pydict \<Rightarrow> company_inputs" where
  "envelope_inputs agg =
     \<lparr>ci_industry_variables = py_or (dget agg ''industry_variables'') (PList []),
      ci_event = try_float (dget agg ''company_event_score'') 0,
      ci_capital = try_float (dget agg ''capital_sentiment_score'') 0,
      ci_risk = try_float (dget agg ''risk_discount'') 0,
      ci_valuation = try_float (dget agg ''valuation_pressure'') 0,
      ci_priced_in = try_float (dget agg ''priced_in_discount'') 0, ci_roles = []\<rparr>"

definition final_inputs_of :: "company_inputs \<Rightarrow> company_report \<Rightarrow> pydict \<Rightarrow> final_inputs" where
  "final_inputs_of ci c agg =
     (let roles = ci_roles ci; fundamental = cs_industry_contrib c + ci_event ci in
      cast_inputs
        (PFloat (if roles \<noteq> [] then fundamental * tget roles ''multiplier_stack'' 1 else fundamental))
        (PFloat (role_value roles ''expectation_gap'' (dget agg ''expectation_gap_score'')))
        (PFloat (role_value roles ''valuation_rerating'' (dget agg ''valuation_rerating_score'')))
        (PFloat (ci_capital ci)) (PFloat (ci_risk ci)) (PFloat (ci_priced_in ci)))"

text \<open>The totals are scaled down by a confidence below 1, and the narrative is written again.\<close>

definition scale_final :: "table \<Rightarrow> final_report \<Rightarrow> final_report" where
  "scale_final roles r =
     (let cm = tget roles ''confidence_multiplier'' 1 in
      if roles \<noteq> [] \<and> cm < 1 then
        r\<lparr>fr_short_total := fr_short_total r * cm, fr_medium_total := fr_medium_total r * cm,
          fr_long_total := fr_long_total r * cm, fr_base_score := fr_base_score r * cm,
          fr_components := dput ''confidence_multiplier'' cm (fr_components r),
          fr_trading_meaning :=
            describe_trading_meaning (fr_short_total r * cm) (fr_medium_total r * cm)
              (fr_long_total r * cm)\<rparr>
      else r)"

record score_report =
  sr_ts_code :: string
  sr_industry_id :: string
  sr_mode :: mode_result
  sr_company_score :: company_report
  sr_core_final :: final_report
  sr_final_score :: pydict
  sr_market :: market_report
  sr_top_paths :: "pyval list \<times> pyval list"
  sr_signal :: trading_signal
  sr_signals :: signal_pack
  sr_roles :: table

definition total_of :: "pydict \<Rightarrow> string \<Rightarrow> real" where
  "total_of d key = try_float (dget d key) 0"

definition score_company :: "pydict \<Rightarrow> pydict \<Rightarrow> pydict \<Rightarrow> pydict \<Rightarrow> pydict \<Rightarrow> pydict \<Rightarrow>
    score_report res" where
  "score_company overlay agg coverage_report mix horizon_weights cfg =
     (let ts_code = py_str (py_or (dget overlay ''ts_code'') (PStr [])) in
      res_bind (if is_flat_aggregator_output agg then flat_inputs agg overlay ts_code
                else Inr (envelope_inputs agg)) (\<lambda>ci.
      res_bind (compute_company_score (ci_industry_variables ci) (PFloat (ci_event ci))
                  (PFloat (ci_capital ci)) (PFloat (ci_risk ci)) (PFloat (ci_valuation ci))
                  (PFloat (ci_priced_in ci))) (\<lambda>c.
      let top = top_paths (collect_path_infos agg) 3 in
      res_bind (compute_final_score (final_inputs_of ci c agg) mix (fst top) (snd top)) (\<lambda>raw.
      let core = scale_final (ci_roles ci) raw in
      res_bind (apply_market_adapter (final_dict core) (pyfloat_table (ci_roles ci)) overlay
                  (PStr ts_code) cfg) (\<lambda>market.
      let final = mr_adjusted_final_score market; signals = signals_from_inputs c agg coverage_report in
      Inr \<lparr>sr_ts_code = ts_code,
           sr_industry_id = py_str (py_or (dget overlay ''industry_id'') (PStr [])),
           sr_mode = classify_mode final (signals_dict signals), sr_company_score = c,
           sr_core_final = core, sr_final_score = final, sr_market = market, sr_top_paths = top,
           sr_signal = trading_signal_from_mix (total_of final ''short_total'')
             (total_of final ''medium_total'') (total_of final ''long_total'') horizon_weights,
           sr_signals = signals, sr_roles = ci_roles ci\<rparr>)))))"

section \<open>The signal pack and the modes\<close>

text \<open>
  ten of the eleven signals that the driver derives lie in the ranges that the classifier
  documents, whatever the aggregator, the coverage report and the company score hold.
\<close>

theorem signals_in_range:
  "let s = signals_from_inputs c agg report in
     list_all (\<lambda>x. 0 \<le> x \<and> x \<le> 1)
       [sg_exposure s, sg_valuation_pressure s, sg_priced_in s, sg_new_catalyst s,
        sg_event_present s, sg_operating_confirmed s] \<and>
     list_all (\<lambda>x. \<bar>x\<bar> \<le> 1)
       [sg_financial_revision s, sg_capital_flow s, sg_expectation_gap s, sg_competition s]"
  by (simp add: signals_from_inputs_def Let_def score_clip.lower score_clip.upper score_clip.abs_unit)

lemma md_make_mode [simp]:
  "md_mode (make_mode m c d r) = m" "md_confidence (make_mode m c d r) = clip_score c 0 1"
  by (simp_all add: make_mode_def)

lemma classify_mode_mode:
  "md_mode (classify_mode f sg) =
     (let s = read_signals sg in
      if reversal_gate s then TrendReversal
      else if de_rating_gate s then DeRating
      else if waiting_gate s then WaitForConfirmation
      else if strong_bull_gate s then StrongBull
      else if divergence_gate s then StructuralDivergence
      else if digestion_gate s then Digestion
      else if moderate_bull_gate s then ModerateBull
      else if central_score f \<le> -20/100 then TrendReversal else WaitForConfirmation)"
  unfolding classify_mode_def Let_def
  by (simp split del: if_split add: if_distrib [where f = md_mode] cong: if_cong)

lemma classify_mode_confidence:
  "0 \<le> md_confidence (classify_mode f sg) \<and> md_confidence (classify_mode f sg) \<le> 1"
  unfolding classify_mode_def Let_def
  by (simp split: if_split add: score_clip.lower score_clip.upper)

lemmas gate_defs = reversal_gate_def de_rating_gate_def waiting_gate_def strong_bull_gate_def
  divergence_gate_def digestion_gate_def moderate_bull_gate_def


section \<open>The trading signal\<close>

fun signal_rank :: "trading_signal \<Rightarrow> nat" where
  "signal_rank Avoid = 0"
| "signal_rank Watch = 1"
| "signal_rank Hold = 2"
| "signal_rank Buy = 3"

instantiation trading_signal :: linorder
begin

definition less_eq_trading_signal :: "trading_signal \<Rightarrow> trading_signal \<Rightarrow> bool" where
  "less_eq_trading_signal a b \<longleftrightarrow> signal_rank a \<le> signal_rank b"

definition less_trading_signal :: "trading_signal \<Rightarrow> trading_signal \<Rightarrow> bool" where
  "less_trading_signal a b \<longleftrightarrow> signal_rank a < signal_rank b"

instance
proof
  show "a = b" if "a \<le> b" "b \<le> a" for a b :: trading_signal
    using that by (cases a; cases b) (auto simp: less_eq_trading_signal_def)
qed (auto simp: less_eq_trading_signal_def less_trading_signal_def)

end

definition horizon_weights_ok :: "pydict \<Rightarrow> bool" where
  "horizon_weights_ok hw \<longleftrightarrow>
     0 \<le> try_float (dget hw ''short'') 0 \<and> 0 \<le> try_float (dget hw ''medium'') 0 \<and>
     0 \<le> try_float (dget hw ''long'') 0"

lemma mix_weights_ok:
  assumes "horizon_weights_ok hw" "horizon_mix_weights hw = (ws, wm, wl)"
  shows "0 \<le> ws \<and> 0 \<le> wm \<and> 0 \<le> wl \<and> 0 < ws + wm + wl"
  using assms
  by (auto simp: horizon_mix_weights_def horizon_weights_ok_def Let_def horizon_default_weights_def
      split: if_splits)

lemma signal_mix_mono:
  assumes "horizon_weights_ok hw" "s \<le> s'" "m \<le> m'" "l \<le> l'"
  shows "signal_mix s m l hw \<le> signal_mix s' m' l' hw"
proof -
  obtain ws wm wl where w: "horizon_mix_weights hw = (ws, wm, wl)" by (cases "horizon_mix_weights hw")
  note ok = mix_weights_ok [OF assms(1) w]
  then have "s * ws + m * wm + l * wl \<le> s' * ws + m' * wm + l' * wl"
    using assms by (intro add_mono mult_right_mono) auto
  with ok show ?thesis by (simp add: signal_mix_def w divide_right_mono)
qed

lemma signal_mix_between:
  assumes "horizon_weights_ok hw" "lo \<le> s" "lo \<le> m" "lo \<le> l" "s \<le> hi" "m \<le> hi" "l \<le> hi"
  shows "lo \<le> signal_mix s m l hw \<and> signal_mix s m l hw \<le> hi"
proof -
  obtain ws wm wl where w: "horizon_mix_weights hw = (ws, wm, wl)" by (cases "horizon_mix_weights hw")
  note ok = mix_weights_ok [OF assms(1) w]
  have "signal_mix x x x hw = x" for x
    using ok by (simp add: signal_mix_def w distrib_left [symmetric])
  with signal_mix_mono [OF assms(1), of lo s lo m lo l] signal_mix_mono [OF assms(1), of s hi m hi l hi]
    assms show ?thesis by simp
qed

text \<open>
  with non-negative horizon weights the trading signal is monotone: raising any of the
  three totals never lowers it in the order avoid, watch, hold, buy; and it is the signal of a
  number that lies between the smallest and the largest total, so three totals of at least 0.5
  give a buy and three totals below -0.1 an avoid.
\<close>

theorem trading_signal_monotone:
  assumes "horizon_weights_ok hw"
  shows "(\<forall>s' \<ge> s. \<forall>m' \<ge> m. \<forall>l' \<ge> l.
            trading_signal_from_mix s m l hw \<le> trading_signal_from_mix s' m' l' hw) \<and>
         (5/10 \<le> s \<longrightarrow> 5/10 \<le> m \<longrightarrow> 5/10 \<le> l \<longrightarrow> trading_signal_from_mix s m l hw = Buy) \<and>
         (s < -1/10 \<longrightarrow> m < -1/10 \<longrightarrow> l < -1/10 \<longrightarrow> trading_signal_from_mix s m l hw = Avoid)"
proof (intro conjI allI impI)
  fix s' m' l' assume "s \<le> s'" "m \<le> m'" "l \<le> l'"
  from signal_mix_mono [OF assms this]
  show "trading_signal_from_mix s m l hw \<le> trading_signal_from_mix s' m' l' hw"
    by (auto simp: trading_signal_from_mix_def Let_def less_eq_trading_signal_def
        signal_buy_threshold_def signal_hold_threshold_def signal_watch_threshold_def)
next
  assume "5/10 \<le> s" "5/10 \<le> m" "5/10 \<le> l"
  with signal_mix_between [OF assms, of "5/10" s m l "max s (max m l)"]
  show "trading_signal_from_mix s m l hw = Buy"
    by (simp add: trading_signal_from_mix_def signal_buy_threshold_def)
next
  assume a: "s < -1/10" "m < -1/10" "l < -1/10"
  have "signal_mix s m l hw \<le> max s (max m l)"
    using signal_mix_between [OF assms, of "min s (min m l)" s m l "max s (max m l)"] by simp
  also have "\<dots> < -1/10" using a by simp
  finally have "signal_mix s m l hw < -1/10" .
  then show "trading_signal_from_mix s m l hw = Avoid"
    by (simp add: trading_signal_from_mix_def signal_buy_threshold_def signal_hold_threshold_def
        signal_watch_threshold_def)
qed

section \<open>The top paths\<close>

lemma take_sorted_best:
  assumes "sorted (map f xs)" "p \<in> set (take n xs)" "q \<in> set xs" "q \<notin> set (take n xs)"
  shows "f p \<le> f q"
proof -
  have "q \<in> set (take n xs @ drop n xs)" using assms(3) by simp
  with assms(4) have q: "q \<in> set (drop n xs)" unfolding set_append by blast
  have "sorted (map f (take n xs) @ map f (drop n xs))"
    using assms(1) unfolding map_append [symmetric] by simp
  with assms(2) q show ?thesis unfolding sorted_append by simp
qed

text \<open>
  the positive and the negative list hold at most n paths each, all of them collected
  paths of the right sign, in order of strength, and no path left out is stronger than a path
  listed; when at most n paths of a sign were collected, all are listed.
\<close>

theorem top_paths_are_best:
  "(\<forall>p \<in> set (top_positive paths n). p \<in> set paths \<and> 0 < pa_score p) \<and>
   (\<forall>p \<in> set (top_negative paths n). p \<in> set paths \<and> pa_score p < 0) \<and>
   length (top_positive paths n) = min n (length (filter (\<lambda>p. 0 < pa_score p) paths)) \<and>
   length (top_negative paths n) = min n (length (filter (\<lambda>p. pa_score p < 0) paths)) \<and>
   sorted (map (\<lambda>p. - pa_score p) (top_positive paths n)) \<and>
   sorted (map pa_score (top_negative paths n)) \<and>
   (\<forall>p \<in> set (top_positive paths n). \<forall>q \<in> set paths. 0 < pa_score q \<longrightarrow>
      q \<notin> set (top_positive paths n) \<longrightarrow> pa_score q \<le> pa_score p) \<and>
   (\<forall>p \<in> set (top_negative paths n). \<forall>q \<in> set paths. pa_score q < 0 \<longrightarrow>
      q \<notin> set (top_negative paths n) \<longrightarrow> pa_score p \<le> pa_score q)"
proof (intro conjI ballI impI)
  show "pa_score q \<le> pa_score p"
    if "p \<in> set (top_positive paths n)" "q \<in> set paths" "0 < pa_score q"
      "q \<notin> set (top_positive paths n)" for p q
    using take_sorted_best [of "\<lambda>p. - pa_score p"
        "sort_key (\<lambda>p. - pa_score p) (filter (\<lambda>p. 0 < pa_score p) paths)" p n q] that
    by (simp add: top_positive_def)
  show "pa_score p \<le> pa_score q"
    if "p \<in> set (top_negative paths n)" "q \<in> set paths" "pa_score q < 0"
      "q \<notin> set (top_negative paths n)" for p q
    using take_sorted_best [of pa_score "sort_key pa_score (filter (\<lambda>p. pa_score p < 0) paths)" p n q] that
    by (simp add: top_negative_def)
qed (auto simp: top_positive_def top_negative_def sorted_wrt_take simp flip: take_map
     dest!: in_set_takeD)

section \<open>Role components\<close>

definition confidences_nonneg :: "pydict \<Rightarrow> bool" where
  "confidences_nonneg agg \<longleftrightarrow>
     (\<forall>kv \<in> set agg. 0 \<le> try_float (dget (as_dict (snd kv)) ''confidence'') 1)"

lemma sum_role_target_nonneg:
  assumes "confidences_nonneg agg"
  shows "0 \<le> sum_role_target agg t True"
  unfolding sum_role_target_def
  by (rule sum_list_nonneg_real)
    (use assms in \<open>auto simp: role_term_def Let_def confidences_nonneg_def\<close>)

lemma sum_role_targets_nonneg:
  "confidences_nonneg agg \<Longrightarrow> 0 \<le> sum_role_targets agg ts True"
  unfolding sum_role_targets_def by (rule sum_list_nonneg_real) (auto simp: sum_role_target_nonneg)

lemma multiplier_factor_range:
  "1/2 \<le> multiplier_factor_from_targets agg ts \<and> multiplier_factor_from_targets agg ts \<le> 2"
  using score_clip.lower [of "-1/2" 1 "sum_role_targets agg ts False"]
    score_clip.upper [of "-1/2" 1 "sum_role_targets agg ts False"]
  by (simp add: multiplier_factor_from_targets_def)

lemma confidence_factor_unit: "confidence_factor kv = Some x \<Longrightarrow> 0 \<le> x \<and> x \<le> 1"
  unfolding confidence_factor_def Let_def
  by (auto split: if_splits intro!: mult_unit_interval [THEN conjunct1]
      mult_unit_interval [THEN conjunct2] score_clip.lower score_clip.upper)

lemma mean_in_unit:
  "\<forall>x \<in> set xs. 0 \<le> x \<and> x \<le> (1 :: real) \<Longrightarrow> xs \<noteq> [] \<Longrightarrow>
   0 \<le> sum_list xs / real (length xs) \<and> sum_list xs / real (length xs) \<le> 1"
  using sum_list_nonneg_real [of xs id] sum_list_mono_real [of xs id "\<lambda>_. 1"]
  by (simp add: sum_list_triv divide_le_eq_1)

lemma confidence_multiplier_unit:
  "0 \<le> confidence_multiplier_from_flat agg \<and> confidence_multiplier_from_flat agg \<le> 1"
proof -
  have "\<forall>x \<in> set (List.map_filter confidence_factor agg). 0 \<le> x \<and> x \<le> 1"
    by (auto simp: List.map_filter_def dest: confidence_factor_unit)
  from mean_in_unit [OF this] show ?thesis
    by (simp add: confidence_multiplier_from_flat_def Let_def)
qed

text \<open>
  every multiplier that the driver derives from the governed nodes lies in [0.5, 2], the
  confidence multiplier in [0, 1], and, when no node reports a negative confidence, the three
  discounts are not negative, so a risk, a valuation pressure and a priced-in share can only
  lower a score.
\<close>

theorem role_components_in_range:
  assumes "confidences_nonneg agg"
  shows "(\<forall>k \<in> {''funding_multiplier'', ''theme_multiplier'', ''policy_sensitivity_multiplier'',
              ''market_regime_multiplier'', ''reflexivity_multiplier'',
              ''valuation_sensitivity_multiplier'', ''multiplier_stack''}.
            1/2 \<le> tget (role_components_from_flat agg) k d \<and>
            tget (role_components_from_flat agg) k d \<le> 2) \<and>
         0 \<le> tget (role_components_from_flat agg) ''confidence_multiplier'' d \<and>
         tget (role_components_from_flat agg) ''confidence_multiplier'' d \<le> 1 \<and>
         (\<forall>k \<in> {''risk_discount'', ''valuation_pressure'', ''priced_in_discount''}.
            0 \<le> tget (role_components_from_flat agg) k d)"
  using multiplier_factor_range confidence_multiplier_unit sum_role_targets_nonneg [OF assms]
    sum_role_target_nonneg [OF assms]
  by (simp add: tget_def role_components_from_flat_def)

section \<open>The driver\<close>

lemma score_company_eq:
  assumes "score_company overlay agg report mix hw cfg = Inr r"
  obtains ci raw where
    "compute_company_score (ci_industry_variables ci) (PFloat (ci_event ci)) (PFloat (ci_capital ci))
       (PFloat (ci_risk ci)) (PFloat (ci_valuation ci)) (PFloat (ci_priced_in ci)) =
       Inr (sr_company_score r)"
    "compute_final_score (final_inputs_of ci (sr_company_score r) agg) mix
       (fst (sr_top_paths r)) (snd (sr_top_paths r)) = Inr raw"
    "sr_core_final r = scale_final (ci_roles ci) raw" "sr_roles r = ci_roles ci"
    "apply_market_adapter (final_dict (sr_core_final r)) (pyfloat_table (ci_roles ci)) overlay
       (PStr (sr_ts_code r)) cfg = Inr (sr_market r)"
    "sr_final_score r = mr_adjusted_final_score (sr_market r)"
    "sr_top_paths r = top_paths (collect_path_infos agg) 3"
    "sr_mode r = classify_mode (sr_final_score r) (signals_dict (sr_signals r))"
    "sr_signal r = trading_signal_from_mix (total_of (sr_final_score r) ''short_total'')
       (total_of (sr_final_score r) ''medium_total'') (total_of (sr_final_score r) ''long_total'') hw"
proof -
  let ?ts = "py_str (py_or (dget overlay ''ts_code'') (PStr []))"
  from assms obtain ci c raw market where 1:
    "compute_company_score (ci_industry_variables ci) (PFloat (ci_event ci)) (PFloat (ci_capital ci))
       (PFloat (ci_risk ci)) (PFloat (ci_valuation ci)) (PFloat (ci_priced_in ci)) = Inr c"
    "compute_final_score (final_inputs_of ci c agg) mix (fst (top_paths (collect_path_infos agg) 3))
       (snd (top_paths (collect_path_infos agg) 3)) = Inr raw"
    "apply_market_adapter (final_dict (scale_final (ci_roles ci) raw)) (pyfloat_table (ci_roles ci))
       overlay (PStr ?ts) cfg = Inr market"
    and r: "sr_ts_code r = ?ts" "sr_company_score r = c" "sr_core_final r = scale_final (ci_roles ci) raw"
      "sr_roles r = ci_roles ci" "sr_market r = market"
      "sr_final_score r = mr_adjusted_final_score market"
      "sr_top_paths r = top_paths (collect_path_infos agg) 3"
      "sr_mode r = classify_mode (sr_final_score r) (signals_dict (sr_signals r))"
      "sr_signal r = trading_signal_from_mix (total_of (sr_final_score r) ''short_total'')
       (total_of (sr_final_score r) ''medium_total'') (total_of (sr_final_score r) ''long_total'') hw"
    unfolding score_company_def Let_def res_bind_eq_Inr sum.inject by auto
  show thesis by (rule that [of ci raw]) (use 1 r in simp_all)
qed

lemma company_score_eq:
  assumes "compute_company_score vars (PFloat e) (PFloat c) (PFloat r) (PFloat v) (PFloat p) = Inr cs"
  shows "cs_event cs = e" "cs_capital cs = c" "cs_risk cs = r" "cs_priced_in cs = p"
    "cs_valuation_pressure cs = v"
    "cs_score cs = cs_industry_contrib cs + e + c - r - v - p"
  using assms by (auto simp: compute_company_score_def res_bind_eq_Inr res_map_eq_Inr Let_def)

definition confidence_scale :: "table \<Rightarrow> real" where
  "confidence_scale roles =
     (if roles \<noteq> [] \<and> tget roles ''confidence_multiplier'' 1 < 1
      then tget roles ''confidence_multiplier'' 1 else 1)"

lemma scale_final_totals:
  "fr_short_total (scale_final roles r) = fr_short_total r * confidence_scale roles"
  "fr_medium_total (scale_final roles r) = fr_medium_total r * confidence_scale roles"
  "fr_long_total (scale_final roles r) = fr_long_total r * confidence_scale roles"
  "fr_base_score (scale_final roles r) = fr_base_score r * confidence_scale roles"
  by (simp_all add: scale_final_def confidence_scale_def Let_def)

lemma final_totals:
  assumes "compute_final_score i mix pos neg = Inr r"
  shows "fr_base_score r = base_total i"
    and "\<not> truthy (dget mix ''short'') \<Longrightarrow> fr_short_total r = base_total i"
    and "\<not> truthy (dget mix ''medium'') \<Longrightarrow> fr_medium_total r = base_total i"
    and "\<not> truthy (dget mix ''long'') \<Longrightarrow> fr_long_total r = base_total i"
  using assms by (auto simp: compute_final_score_def res_bind_eq_Inr horizon_total_def)

text \<open>The base score of the design document, in terms of what the report holds.\<close>

definition core_base :: "score_report \<Rightarrow> pydict \<Rightarrow> real" where
  "core_base r agg =
     (let c = sr_company_score r; roles = sr_roles r in
      (cs_industry_contrib c + cs_event c) *
        (if roles \<noteq> [] then tget roles ''multiplier_stack'' 1 else 1) +
      role_value roles ''expectation_gap'' (dget agg ''expectation_gap_score'') +
      role_value roles ''valuation_rerating'' (dget agg ''valuation_rerating_score'') +
      cs_capital c - cs_risk c - cs_priced_in c)"

lemma base_total_core:
  assumes "compute_company_score (ci_industry_variables ci) (PFloat (ci_event ci)) (PFloat (ci_capital ci))
       (PFloat (ci_risk ci)) (PFloat (ci_valuation ci)) (PFloat (ci_priced_in ci)) =
       Inr (sr_company_score r)" "sr_roles r = ci_roles ci"
  shows "base_total (final_inputs_of ci (sr_company_score r) agg) = core_base r agg"
  using company_score_eq [OF assms(1)] assms(2)
  by (simp add: base_total_def final_inputs_of_def cast_inputs_def core_base_def Let_def)

text \<open>
  the final score of the driver counts each ingredient once. Without a horizon mix, the
  base score and the three totals of the core are fundamentals times the multiplier stack plus
  expectation gap, rerating and capital sentiment, minus risk and the priced-in share, scaled
  by the confidence multiplier when it is below 1; the capital, the risk and the priced-in
  share are those of the company score; and the mode and the trading signal are those of the
  market-adjusted totals.
\<close>

theorem final_score_decomposition:
  assumes "score_company overlay agg report [] hw cfg = Inr r"
  shows "fr_base_score (sr_core_final r) = core_base r agg * confidence_scale (sr_roles r) \<and>
    fr_short_total (sr_core_final r) = fr_base_score (sr_core_final r) \<and>
    fr_medium_total (sr_core_final r) = fr_base_score (sr_core_final r) \<and>
    fr_long_total (sr_core_final r) = fr_base_score (sr_core_final r) \<and>
    cs_score (sr_company_score r) =
      cs_industry_contrib (sr_company_score r) + cs_event (sr_company_score r) +
      cs_capital (sr_company_score r) - cs_risk (sr_company_score r) -
      cs_valuation_pressure (sr_company_score r) - cs_priced_in (sr_company_score r) \<and>
    sr_mode r = classify_mode (mr_adjusted_final_score (sr_market r)) (signals_dict (sr_signals r)) \<and>
    sr_signal r = trading_signal_from_mix
      (total_of (mr_adjusted_final_score (sr_market r)) ''short_total'')
      (total_of (mr_adjusted_final_score (sr_market r)) ''medium_total'')
      (total_of (mr_adjusted_final_score (sr_market r)) ''long_total'') hw"
  using assms
proof (rule score_company_eq)
  fix ci raw
  assume c: "compute_company_score (ci_industry_variables ci) (PFloat (ci_event ci)) (PFloat (ci_capital ci))
       (PFloat (ci_risk ci)) (PFloat (ci_valuation ci)) (PFloat (ci_priced_in ci)) =
       Inr (sr_company_score r)"
    and f: "compute_final_score (final_inputs_of ci (sr_company_score r) agg) []
       (fst (sr_top_paths r)) (snd (sr_top_paths r)) = Inr raw"
    and core: "sr_core_final r = scale_final (ci_roles ci) raw" and roles: "sr_roles r = ci_roles ci"
    and fin: "sr_final_score r = mr_adjusted_final_score (sr_market r)"
    and m: "sr_mode r = classify_mode (sr_final_score r) (signals_dict (sr_signals r))"
    and sg: "sr_signal r = trading_signal_from_mix (total_of (sr_final_score r) ''short_total'')
       (total_of (sr_final_score r) ''medium_total'') (total_of (sr_final_score r) ''long_total'') hw"
  show ?thesis
    using final_totals [OF f] base_total_core [OF c roles] company_score_eq [OF c] m sg
    by (simp add: core roles scale_final_totals fin)
qed

section \<open>Deviations\<close>

text \<open>
  The classifier promises that a negative score never comes with a bull mode; the score is
  consulted only when no gate is open, so a score of -0.5 is reported as a strong bull.
\<close>

definition bull_signals :: signal_pack where
  "bull_signals =
     \<lparr>sg_industry_trend = 1/2, sg_exposure = 1, sg_financial_revision = 1/2,
      sg_valuation_pressure = 0, sg_capital_flow = 1/2, sg_expectation_gap = 0, sg_priced_in = 0,
      sg_new_catalyst = 0, sg_competition = 0, sg_event_present = 0, sg_operating_confirmed = 1\<rparr>"

lemma read_signals_dict: "read_signals (signals_dict s) = s"
  by (simp add: read_signals_def signals_dict_def)

lemma strong_bull_with_negative_score:
  "md_mode (classify_mode [(''short_total'', PFloat (-1/2)), (''medium_total'', PFloat (-1/2)),
     (''long_total'', PFloat (-1/2))] (signals_dict bull_signals)) = StrongBull"
  by (simp add: classify_mode_mode read_signals_dict gate_defs bull_signals_def)

text \<open>The documented gate of a de-rating asks for a flow below -0.2; the code takes -0.2 itself.\<close>

lemma de_rating_at_the_threshold:
  "md_mode (classify_mode [] (signals_dict (bull_signals\<lparr>sg_valuation_pressure := 6/10,
     sg_capital_flow := -2/10, sg_financial_revision := 0\<rparr>))) = DeRating"
  by (simp add: classify_mode_mode read_signals_dict gate_defs bull_signals_def)

text \<open>The industry trend is documented in [-1, 1] and is the one signal that is not clipped.\<close>

lemma industry_trend_not_clipped:
  "sg_industry_trend (signals_from_inputs c [(''industry_trend'', PFloat 5)] []) = 5"
  by (simp add: signals_from_inputs_def Let_def)

text \<open>
  The narrative of the final score is the one of the core: the market adapter moves the totals
  and leaves the text that quotes them.
\<close>

lemma narrative_not_adjusted:
  assumes "score_company overlay agg report mix hw cfg = Inr r"
  shows "dget (sr_final_score r) ''trading_meaning'' = PStr (fr_trading_meaning (sr_core_final r))"
  using assms
proof (rule score_company_eq)
  fix ci raw
  assume a: "apply_market_adapter (final_dict (sr_core_final r)) (pyfloat_table (ci_roles ci)) overlay
       (PStr (sr_ts_code r)) cfg = Inr (sr_market r)"
    and fin: "sr_final_score r = mr_adjusted_final_score (sr_market r)"
  from adjusted_scores [OF a] show ?thesis
    by (simp add: fin horizon_keys_def final_dict_def)
qed

section \<open>Witnesses\<close>

definition ex_final :: pydict where
  "ex_final = [(''short_total'', PFloat 1), (''medium_total'', PFloat 1), (''long_total'', PFloat 1)]"


lemma trading_signal_monotone_witness:
  "trading_signal_from_mix (6/10) (7/10) (8/10) [] = Buy \<and> horizon_weights_ok []"
  using trading_signal_monotone [of "[]" "6/10" "7/10" "8/10"] by (simp add: horizon_weights_ok_def)

definition ex_path :: "real \<Rightarrow> path_info" where
  "ex_path x = \<lparr>pa_node_id = ''n'', pa_score = x, pa_direction = 1, pa_rationale = []\<rparr>"

lemma top_paths_are_best_witness:
  "length (top_positive [ex_path 1, ex_path (-2), ex_path 3] 1) = 1 \<and>
   list_all (\<lambda>p. 0 < pa_score p) (top_positive [ex_path 1, ex_path (-2), ex_path 3] 1)"
  using top_paths_are_best [of "[ex_path 1, ex_path (-2), ex_path 3]" 1]
  by (simp add: ex_path_def list_all_iff)

definition ex_agg :: pydict where
  "ex_agg =
     [(''n'', PDict [(''score'', PFloat (1/2)), (''short_score'', PFloat (1/4)),
        (''medium_score'', PFloat (1/4)), (''long_score'', PFloat (1/4)),
        (''confidence'', PFloat (1/2)), (''field_role'', PStr ''risk''),
        (''score_target'', PStr ''risk_discount'')])]"

lemma role_components_in_range_witness:
  "confidences_nonneg ex_agg \<and> 0 \<le> tget (role_components_from_flat ex_agg) ''risk_discount'' 0"
proof -
  have "confidences_nonneg ex_agg" by (simp add: confidences_nonneg_def ex_agg_def)
  with role_components_in_range [OF this] show ?thesis by simp
qed

definition ex_envelope :: pydict where
  "ex_envelope =
     [(''industry_variables'', PList [PDict [(''score'', PFloat (1/2))]]),
      (''capital_sentiment_score'', PFloat (1/4))]"

lemma ex_score: "\<exists>r. score_company ex_overlay_cn ex_envelope [] [] [] ex_cfg = Inr r"
  unfolding ex_cfg_def ex_overlay_cn_def ex_envelope_def
  by (simp add: score_company_def is_flat_aggregator_output_def envelope_inputs_def
      compute_company_score_def compute_final_score_def horizon_total_def market_eval str_eval Let_def
      final_dict_def pyfloat_table_def scale_final_def infer_market_code_def adapter_section_def
      normalize_market_code_def)

lemma final_score_decomposition_witness:
  "\<exists>r. score_company ex_overlay_cn ex_envelope [] [] [] ex_cfg = Inr r \<and>
     fr_short_total (sr_core_final r) = fr_base_score (sr_core_final r)"
  using ex_score final_score_decomposition by blast

end
