(* ===== verification/Storage.thy ===== *)
theory Storage
  imports Prelude "HOL-Library.Product_Lexorder" "HOL-Library.Option_ord"
begin

text \<open>
  \<open>mvp20/storage.py\<close>: the SQLite hot snapshot. A database holds one association list per
  table, keyed by the primary key; a table that was never created is \<open>None\<close>, and reading it is
  an OperationalError. The file itself is an optional database: every reader returns its empty
  value when it is not there.

  The order in which SQLite returns the rows of a SELECT without ORDER BY is the order of the
  list; the theorems hold for every order. \<open>json.loads\<close> is an argument (a text that is not JSON
  gives a ValueError) and so is \<open>json.dumps\<close>, and so is the clock. The columns have the types
  of the schema, so the NOT NULL constraints hold by typing. The table \<open>alert_state\<close> is created
  and never used, and is left out, like the indexes.
\<close>

section \<open>Tables\<close>

record rt_row =
  rv_value_json :: string
  rv_data_status :: string
  rv_confidence :: "real option"
  rv_source :: string
  rv_updated_at :: int

type_synonym rt_table = "((string \<times> string) \<times> rt_row) list"

record freshness_row =
  fm_last_full :: "int option"
  fm_last_partial :: "int option"
  fm_status :: string

record manifest_row =
  mf_ts_code :: string
  mf_industry_id :: string
  mf_overlay_path :: string
  mf_period :: "string option"
  mf_primary :: int
  mf_status :: string
  mf_updated_at :: int

record node_row =
  nw_ts_code :: string
  nw_industry_id :: string
  nw_node_id :: string
  nw_dp_id :: "string option"
  nw_payload_json :: string
  nw_data_status :: "string option"
  nw_required_level :: "string option"
  nw_missing_policy :: "string option"
  nw_calculation_type :: "string option"
  nw_aggregation_policy :: "string option"
  nw_materiality :: "real option"
  nw_confidence :: "real option"
  nw_source_path :: "string option"

record edge_row =
  ew_ts_code :: string
  ew_industry_id :: string
  ew_edge_id :: string
  ew_edge_kind :: string
  ew_from :: "string option"
  ew_to :: "string option"
  ew_type :: "string option"
  ew_payload_json :: string

record snapshot_row =
  sw_ts_code :: string
  sw_industry_id :: string
  sw_payload_json :: string
  sw_graph_version :: "string option"
  sw_data_version :: "string option"
  sw_updated_at :: int

record alert_row =
  aw_alert_id :: string
  aw_ts_code :: string
  aw_industry_id :: string
  aw_dp_id :: "string option"
  aw_severity :: string
  aw_code :: string
  aw_message :: string
  aw_created_at :: int
  aw_resolved_at :: "int option"

type_synonym pair_key = "string \<times> string"

type_synonym triple_key = "string \<times> string \<times> string"

record database =
  db_realtime :: "rt_table option"
  db_freshness :: "(string \<times> freshness_row) list option"
  db_manifest :: "(pair_key \<times> manifest_row) list option"
  db_nodes :: "(triple_key \<times> node_row) list option"
  db_edges :: "(triple_key \<times> edge_row) list option"
  db_snapshots :: "(pair_key \<times> snapshot_row) list option"
  db_alerts :: "(string \<times> alert_row) list option"

definition empty_db :: database where
  "empty_db = \<lparr>db_realtime = None, db_freshness = None, db_manifest = None, db_nodes = None,
     db_edges = None, db_snapshots = None, db_alerts = None\<rparr>"

definition rows_of :: "'r list option \<Rightarrow> 'r list" where
  "rows_of t = (case t of None \<Rightarrow> [] | Some rows \<Rightarrow> rows)"

text \<open>\<open>CREATE TABLE IF NOT EXISTS\<close> for every table.\<close>

definition init_db :: "database option \<Rightarrow> database" where
  "init_db disk =
     (let db = (case disk of None \<Rightarrow> empty_db | Some d \<Rightarrow> d) in
      \<lparr>db_realtime = Some (rows_of (db_realtime db)), db_freshness = Some (rows_of (db_freshness db)),
       db_manifest = Some (rows_of (db_manifest db)), db_nodes = Some (rows_of (db_nodes db)),
       db_edges = Some (rows_of (db_edges db)), db_snapshots = Some (rows_of (db_snapshots db)),
       db_alerts = Some (rows_of (db_alerts db))\<rparr>)"

definition select :: "'r list option \<Rightarrow> 'r list res" where
  "select t = (case t of None \<Rightarrow> Inl OperationalError | Some rows \<Rightarrow> Inr rows)"

text \<open>A batch of writes under keys, in order.\<close>

definition put_all :: "('k \<times> 'r) list \<Rightarrow> ('k \<times> 'r) list \<Rightarrow> ('k \<times> 'r) list" where
  "put_all rows table = fold (\<lambda>(k, r). dput k r) rows table"

section \<open>Reading the hot snapshot\<close>

definition ts_code_to_market :: "string \<Rightarrow> string option" where
  "ts_code_to_market ts_code =
     (if py_endswith ts_code ''.SH'' \<or> py_endswith ts_code ''.SZ'' \<or> py_endswith ts_code ''.BJ''
      then Some ''CN''
      else if py_endswith ts_code ''.HK'' then Some ''HK''
      else if py_endswith ts_code ''.US'' then Some ''US''
      else None)"

text \<open>\<open>ORDER BY primary_industry DESC, industry_id\<close>.\<close>

definition industry_order :: "manifest_row list \<Rightarrow> manifest_row list" where
  "industry_order rows = sort_key (\<lambda>r. (- mf_primary r, mf_industry_id r)) rows"

definition manifests_of :: "string \<Rightarrow> (pair_key \<times> manifest_row) list \<Rightarrow> manifest_row list" where
  "manifests_of ts_code rows = filter (\<lambda>r. mf_ts_code r = ts_code) (map snd rows)"

definition industries_for_ts_code :: "database \<Rightarrow> string \<Rightarrow> string list" where
  "industries_for_ts_code db ts_code =
     (case select (db_manifest db) of
        Inl _ \<Rightarrow> []
      | Inr rows \<Rightarrow> map mf_industry_id (industry_order (manifests_of ts_code rows)))"

definition lookup_codes :: "database \<Rightarrow> string \<Rightarrow> bool \<Rightarrow> string list" where
  "lookup_codes db ts_code include_sentinels =
     (if include_sentinels then
        [ts_code] @ map (\<lambda>ind. ''INDUSTRY:'' @ ind) (industries_for_ts_code db ts_code) @
        (case ts_code_to_market ts_code of None \<Rightarrow> [] | Some m \<Rightarrow> [''MARKET:'' @ m])
      else [ts_code])"

text \<open>\<open>{t: i for i, t in enumerate(codes)}\<close>, with the default 999 of the lookup.\<close>

definition code_priority :: "string list \<Rightarrow> string \<Rightarrow> nat" where
  "code_priority codes t =
     (case map_of (rev (zip codes [0..<length codes])) t of None \<Rightarrow> 999 | Some i \<Rightarrow> i)"

record hot_entry =
  he_value :: pyval
  he_data_status :: string
  he_confidence :: "real option"
  he_source :: string
  he_updated_at :: int
  he_age_seconds :: int
  he_origin :: string

definition hot_entry_of :: "int \<Rightarrow> string \<Rightarrow> pyval \<Rightarrow> rt_row \<Rightarrow> hot_entry" where
  "hot_entry_of now origin v row =
     \<lparr>he_value = v, he_data_status = rv_data_status row, he_confidence = rv_confidence row,
      he_source = rv_source row, he_updated_at = rv_updated_at row,
      he_age_seconds = now - rv_updated_at row, he_origin = origin\<rparr>"

type_synonym ranked = "(string \<times> (nat \<times> hot_entry)) list"

definition hot_step :: "(string \<Rightarrow> pyval res) \<Rightarrow> int \<Rightarrow> string list \<Rightarrow>
    (string \<times> string) \<times> rt_row \<Rightarrow> ranked \<Rightarrow> ranked res" where
  "hot_step loads now codes r best =
     (let ((ts, dp), row) = r; p = code_priority codes ts;
          better = (case map_of best dp of None \<Rightarrow> True | Some (q, _) \<Rightarrow> q > p)
      in if better
         then res_map (\<lambda>v. dput dp (p, hot_entry_of now ts v row) best) (loads (rv_value_json row))
         else Inr best)"

definition read_hot_snapshot :: "(string \<Rightarrow> pyval res) \<Rightarrow> int \<Rightarrow> database option \<Rightarrow> string \<Rightarrow> bool \<Rightarrow>
    (string \<times> hot_entry) list res" where
  "read_hot_snapshot loads now disk ts_code include_sentinels =
     (case disk of
        None \<Rightarrow> Inr []
      | Some db \<Rightarrow>
          (let codes = lookup_codes db ts_code include_sentinels in
           res_bind (select (db_realtime db)) (\<lambda>table.
           res_map (map (\<lambda>p. (fst p, snd (snd p))))
             (res_fold (hot_step loads now codes)
                (filter (\<lambda>r. fst (fst r) \<in> set codes) table) []))))"

record delta_entry =
  de_value :: pyval
  de_data_status :: string
  de_confidence :: "real option"
  de_source :: string
  de_updated_at :: int
  de_age_seconds :: int

definition delta_entry_of :: "int \<Rightarrow> pyval \<Rightarrow> rt_row \<Rightarrow> delta_entry" where
  "delta_entry_of now v row =
     \<lparr>de_value = v, de_data_status = rv_data_status row, de_confidence = rv_confidence row,
      de_source = rv_source row, de_updated_at = rv_updated_at row,
      de_age_seconds = now - rv_updated_at row\<rparr>"

definition changed_rows :: "string \<Rightarrow> int \<Rightarrow> rt_table \<Rightarrow> rt_table" where
  "changed_rows ts_code since table =
     filter (\<lambda>r. fst (fst r) = ts_code \<and> rv_updated_at (snd r) > since) table"

definition read_hot_snapshot_changed_since :: "(string \<Rightarrow> pyval res) \<Rightarrow> int \<Rightarrow> database option \<Rightarrow>
    string \<Rightarrow> int \<Rightarrow> (string \<times> delta_entry) list res" where
  "read_hot_snapshot_changed_since loads now disk ts_code since =
     (case disk of
        None \<Rightarrow> Inr []
      | Some db \<Rightarrow>
          res_bind (select (db_realtime db)) (\<lambda>table.
          res_map (\<lambda>kvs. put_all kvs [])
            (res_list (\<lambda>r. res_map (\<lambda>v. (snd (fst r), delta_entry_of now v (snd r)))
                             (loads (rv_value_json (snd r))))
               (changed_rows ts_code since table))))"

definition read_freshness_meta :: "database option \<Rightarrow> (string \<times> freshness_row) list res" where
  "read_freshness_meta disk =
     (case disk of None \<Rightarrow> Inr [] | Some db \<Rightarrow> select (db_freshness db))"

section \<open>Reading the compiled overlays\<close>

definition read_available_overlay_industries :: "database option \<Rightarrow> string \<Rightarrow> string list" where
  "read_available_overlay_industries disk ts_code =
     (case disk of
        None \<Rightarrow> []
      | Some db \<Rightarrow>
          (case select (db_manifest db) of
             Inl _ \<Rightarrow> []
           | Inr rows \<Rightarrow> map mf_industry_id (industry_order (manifests_of ts_code rows))))"

text \<open>The join of the snapshots of one company with their manifests, primary industry first.\<close>

definition snapshot_join :: "(pair_key \<times> snapshot_row) list \<Rightarrow> (pair_key \<times> manifest_row) list \<Rightarrow>
    string \<Rightarrow> (manifest_row \<times> snapshot_row) list" where
  "snapshot_join snaps manifests ts_code =
     sort_key (\<lambda>(m, s). (- mf_primary m, sw_industry_id s))
       (concat (map (\<lambda>s. map (\<lambda>m. (m, s))
            (filter (\<lambda>m. mf_ts_code m = sw_ts_code s \<and> mf_industry_id m = sw_industry_id s)
               (map snd manifests)))
          (filter (\<lambda>s. sw_ts_code s = ts_code) (map snd snaps))))"

definition snapshot_payload :: "database \<Rightarrow> string \<Rightarrow> string option \<Rightarrow> string option res" where
  "snapshot_payload db ts_code industry_id =
     res_bind (select (db_snapshots db)) (\<lambda>snaps.
       case industry_id of
         None \<Rightarrow>
           res_map (\<lambda>manifests. case snapshot_join snaps manifests ts_code of
                                  [] \<Rightarrow> None | (m, s) # _ \<Rightarrow> Some (sw_payload_json s))
             (select (db_manifest db))
       | Some ind \<Rightarrow>
           Inr (map_option sw_payload_json (map_of snaps (ts_code, ind))))"

definition read_compiled_graph_snapshot :: "(string \<Rightarrow> pyval res) \<Rightarrow> database option \<Rightarrow> string \<Rightarrow>
    string option \<Rightarrow> pyval res" where
  "read_compiled_graph_snapshot loads disk ts_code industry_id =
     (case disk of
        None \<Rightarrow> Inr PNone
      | Some db \<Rightarrow>
          (case snapshot_payload db ts_code industry_id of
             Inl _ \<Rightarrow> Inr PNone
           | Inr None \<Rightarrow> Inr PNone
           | Inr (Some payload) \<Rightarrow> loads payload))"

definition read_overlay_alerts :: "database option \<Rightarrow> string \<Rightarrow> string \<Rightarrow> alert_row list" where
  "read_overlay_alerts disk ts_code industry_id =
     (case disk of
        None \<Rightarrow> []
      | Some db \<Rightarrow>
          (case select (db_alerts db) of
             Inl _ \<Rightarrow> []
           | Inr rows \<Rightarrow>
               sort_key (\<lambda>a. (aw_severity a, aw_dp_id a))
                 (filter (\<lambda>a. aw_ts_code a = ts_code \<and> aw_industry_id a = industry_id \<and>
                              aw_resolved_at a = None) (map snd rows))))"

section \<open>Writing\<close>

record batch_item =
  bi_ts_code :: string
  bi_dp_id :: string
  bi_value :: pyval
  bi_data_status :: string
  bi_confidence :: "real option"
  bi_source :: string
  bi_updated_at :: int

definition batch_row :: "(pyval \<Rightarrow> string res) \<Rightarrow> batch_item \<Rightarrow> ((string \<times> string) \<times> rt_row) res" where
  "batch_row dumps b =
     res_map (\<lambda>json. ((bi_ts_code b, bi_dp_id b),
                      \<lparr>rv_value_json = json, rv_data_status = bi_data_status b,
                       rv_confidence = bi_confidence b, rv_source = bi_source b,
                       rv_updated_at = bi_updated_at b\<rparr>))
       (case bi_value b of PStr s \<Rightarrow> Inr s | v \<Rightarrow> dumps v)"

text \<open>
  The database afterwards, and the number of rows or the exception: the schema is created before
  a value is encoded, and no row is written when one of them cannot be encoded.
\<close>

definition upsert_realtime :: "(pyval \<Rightarrow> string res) \<Rightarrow> database option \<Rightarrow> batch_item list \<Rightarrow>
    database \<times> nat res" where
  "upsert_realtime dumps disk batch =
     (let db = init_db disk in
      case res_list (batch_row dumps) batch of
        Inl e \<Rightarrow> (db, Inl e)
      | Inr rows \<Rightarrow>
          (db\<lparr>db_realtime := Some (put_all rows (rows_of (db_realtime db)))\<rparr>, Inr (length rows)))"

definition update_freshness :: "int \<Rightarrow> database option \<Rightarrow> string \<Rightarrow> string \<Rightarrow> bool \<Rightarrow> database" where
  "update_freshness now disk layer sync_status is_full =
     (let db = init_db disk; table = rows_of (db_freshness db);
          old_full = (case map_of table layer of None \<Rightarrow> None | Some r \<Rightarrow> fm_last_full r)
      in db\<lparr>db_freshness := Some (dput layer
              \<lparr>fm_last_full = (if is_full then Some now else old_full),
               fm_last_partial = Some now, fm_status = sync_status\<rparr> table)\<rparr>)"

text \<open>\<open>executemany(INSERT ...)\<close> into an empty table: a second row of a key is refused.\<close>

definition insert_row :: "('r \<Rightarrow> 'k) \<Rightarrow> 'r \<Rightarrow> ('k \<times> 'r) list \<Rightarrow> ('k \<times> 'r) list res" where
  "insert_row key r table =
     (if dhas table (key r) then Inl IntegrityError else Inr (table @ [(key r, r)]))"

definition insert_all :: "('r \<Rightarrow> 'k) \<Rightarrow> 'r list \<Rightarrow> ('k \<times> 'r) list res" where
  "insert_all key rows = res_fold (insert_row key) rows []"

definition manifest_key :: "manifest_row \<Rightarrow> pair_key" where
  "manifest_key r = (mf_ts_code r, mf_industry_id r)"

definition node_key :: "node_row \<Rightarrow> triple_key" where
  "node_key r = (nw_ts_code r, nw_industry_id r, nw_node_id r)"

definition edge_key :: "edge_row \<Rightarrow> triple_key" where
  "edge_key r = (ew_ts_code r, ew_industry_id r, ew_edge_id r)"

definition snapshot_key :: "snapshot_row \<Rightarrow> pair_key" where
  "snapshot_key r = (sw_ts_code r, sw_industry_id r)"

definition fill_overlays :: "database \<Rightarrow> manifest_row list \<Rightarrow> node_row list \<Rightarrow> edge_row list \<Rightarrow>
    snapshot_row list \<Rightarrow> alert_row list \<Rightarrow> database res" where
  "fill_overlays db manifests nodes edges snapshots alerts =
     res_bind (insert_all manifest_key manifests) (\<lambda>mt.
     res_bind (insert_all node_key nodes) (\<lambda>nt.
     res_bind (insert_all edge_key edges) (\<lambda>et.
     res_bind (insert_all snapshot_key snapshots) (\<lambda>st.
     res_bind (insert_all aw_alert_id alerts) (\<lambda>alt.
       Inr (db\<lparr>db_manifest := Some mt, db_nodes := Some nt, db_edges := Some et,
               db_snapshots := Some st, db_alerts := Some alt\<rparr>))))))"

text \<open>
  The transaction: the database afterwards, and whether the call returned or raised. An
  exception of any statement rolls the transaction back.
\<close>

definition replace_compiled_overlays :: "database option \<Rightarrow> manifest_row list \<Rightarrow> node_row list \<Rightarrow>
    edge_row list \<Rightarrow> snapshot_row list \<Rightarrow> alert_row list \<Rightarrow> database \<times> unit res" where
  "replace_compiled_overlays disk manifests nodes edges snapshots alerts =
     (let db = init_db disk in
      case fill_overlays db manifests nodes edges snapshots alerts of
        Inl e \<Rightarrow> (db, Inl e)
      | Inr db' \<Rightarrow> (db', Inr ()))"

section \<open>The invariant of a database\<close>

text \<open>Every table has one row per key, and a row stands under its own key.\<close>

definition keyed :: "('r \<Rightarrow> 'k) \<Rightarrow> ('k \<times> 'r) list option \<Rightarrow> bool" where
  "keyed key t \<longleftrightarrow> dict_wf (rows_of t) \<and> (\<forall>(k, r) \<in> set (rows_of t). key r = k)"

definition db_ok :: "database \<Rightarrow> bool" where
  "db_ok db \<longleftrightarrow> dict_wf (rows_of (db_realtime db)) \<and> dict_wf (rows_of (db_freshness db)) \<and>
     keyed manifest_key (db_manifest db) \<and> keyed node_key (db_nodes db) \<and>
     keyed edge_key (db_edges db) \<and> keyed snapshot_key (db_snapshots db) \<and>
     keyed aw_alert_id (db_alerts db)"

text \<open>The databases that the collector and the compiler can leave on disk.\<close>

inductive stored :: "(pyval \<Rightarrow> string res) \<Rightarrow> database option \<Rightarrow> bool" for dumps where
  absent: "stored dumps None"
| created: "stored dumps disk \<Longrightarrow> stored dumps (Some (init_db disk))"
| upserted: "stored dumps disk \<Longrightarrow> stored dumps (Some (fst (upsert_realtime dumps disk batch)))"
| stamped: "stored dumps disk \<Longrightarrow> stored dumps (Some (update_freshness now disk layer sync full))"
| compiled: "stored dumps disk \<Longrightarrow>
    stored dumps (Some (fst (replace_compiled_overlays disk manifests nodes edges snapshots alerts)))"

lemma rows_of_simps [simp]: "rows_of None = []" "rows_of (Some rows) = rows"
  by (simp_all add: rows_of_def)

lemma keyed_empty [simp]: "keyed key None" "keyed key (Some [])"
  by (simp_all add: keyed_def)

lemma keyed_rows_of: "keyed key t \<Longrightarrow> keyed key (Some (rows_of t))"
  by (simp add: keyed_def)

lemma db_ok_init: "(\<And>db. disk = Some db \<Longrightarrow> db_ok db) \<Longrightarrow> db_ok (init_db disk)"
  by (cases disk) (auto simp: db_ok_def init_db_def empty_db_def Let_def intro: keyed_rows_of)

lemma wf_put_all: "dict_wf t \<Longrightarrow> dict_wf (put_all rows t)"
  unfolding put_all_def by (rule assoc_dict.good_puts)

lemma map_of_put_all: "dict_wf t \<Longrightarrow> map_of (put_all rows t) k =
    (case map_of (rev rows) k of None \<Rightarrow> map_of t k | Some v \<Rightarrow> Some v)"
  unfolding put_all_def by (rule assoc_dict.get_puts)

text \<open>An insert keeps the invariant, and a batch succeeds exactly when its keys are new.\<close>

lemma res_fold_insert:
  "res_fold (insert_row key) rows t =
     (if distinct (map key rows) \<and> set (map key rows) \<inter> fst ` set t = {}
      then Inr (t @ map (\<lambda>r. (key r, r)) rows) else Inl IntegrityError)"
proof (induction rows arbitrary: t)
  case Nil
  then show ?case by simp
next
  case (Cons r rows)
  show ?case
  proof (cases "dhas t (key r)")
    case True
    then show ?thesis by (auto simp: insert_row_def dhas_iff)
  next
    case False
    then have "res_fold (insert_row key) (r # rows) t = res_fold (insert_row key) rows (t @ [(key r, r)])"
      by (simp add: insert_row_def)
    with False show ?thesis
      by (simp only: Cons) (auto simp: dhas_iff)
  qed
qed

lemma insert_all_eq:
  "insert_all key rows =
     (if distinct (map key rows) then Inr (map (\<lambda>r. (key r, r)) rows) else Inl IntegrityError)"
  by (simp add: insert_all_def res_fold_insert)

lemma keyed_insert_all: "insert_all key rows = Inr t \<Longrightarrow> keyed key (Some t)"
  by (auto simp: insert_all_eq keyed_def dict_wf_def comp_def split: if_splits)

lemma fill_overlays_eq:
  "fill_overlays db manifests nodes edges snapshots alerts =
     (if distinct (map manifest_key manifests) \<and> distinct (map node_key nodes) \<and>
         distinct (map edge_key edges) \<and> distinct (map snapshot_key snapshots) \<and>
         distinct (map aw_alert_id alerts)
      then Inr (db\<lparr>db_manifest := Some (map (\<lambda>r. (manifest_key r, r)) manifests),
                  db_nodes := Some (map (\<lambda>r. (node_key r, r)) nodes),
                  db_edges := Some (map (\<lambda>r. (edge_key r, r)) edges),
                  db_snapshots := Some (map (\<lambda>r. (snapshot_key r, r)) snapshots),
                  db_alerts := Some (map (\<lambda>r. (aw_alert_id r, r)) alerts)\<rparr>)
      else Inl IntegrityError)"
  by (auto simp: fill_overlays_def insert_all_eq)

lemma keyed_map: "distinct (map key rows) \<Longrightarrow> keyed key (Some (map (\<lambda>r. (key r, r)) rows))"
  by (auto simp: keyed_def dict_wf_def comp_def)

lemma db_ok_replace:
  "(\<And>db. disk = Some db \<Longrightarrow> db_ok db) \<Longrightarrow>
   db_ok (fst (replace_compiled_overlays disk manifests nodes edges snapshots alerts))"
  using db_ok_init [of disk]
  by (auto simp: replace_compiled_overlays_def fill_overlays_eq db_ok_def Let_def keyed_map)

lemma db_ok_upsert:
  "(\<And>db. disk = Some db \<Longrightarrow> db_ok db) \<Longrightarrow> db_ok (fst (upsert_realtime dumps disk batch))"
  using db_ok_init [of disk]
  by (auto simp: upsert_realtime_def db_ok_def Let_def wf_put_all split: sum.splits)

lemma db_ok_freshness:
  "(\<And>db. disk = Some db \<Longrightarrow> db_ok db) \<Longrightarrow> db_ok (update_freshness now disk layer sync full)"
  using db_ok_init [of disk]
  by (auto simp: update_freshness_def db_ok_def Let_def)

lemma db_ok_stored: "stored dumps disk \<Longrightarrow> disk = Some db \<Longrightarrow> db_ok db"
  by (induction arbitrary: db rule: stored.induct)
    (auto intro: db_ok_init db_ok_upsert db_ok_freshness db_ok_replace)

section \<open>The hot snapshot\<close>

text \<open>
  What the merge promises: the row of the first code of the priority list that has one.
\<close>

fun first_row :: "rt_table \<Rightarrow> string \<Rightarrow> string list \<Rightarrow> (string \<times> rt_row) option" where
  "first_row table dp [] = None"
| "first_row table dp (c # cs) =
     (case map_of table (c, dp) of Some row \<Rightarrow> Some (c, row) | None \<Rightarrow> first_row table dp cs)"

definition value_of :: "(string \<Rightarrow> pyval res) \<Rightarrow> rt_row \<Rightarrow> pyval" where
  "value_of loads row = (case loads (rv_value_json row) of Inl _ \<Rightarrow> PNone | Inr v \<Rightarrow> v)"

definition hot_view :: "(string \<Rightarrow> pyval res) \<Rightarrow> int \<Rightarrow> string list \<Rightarrow> rt_table \<Rightarrow> string \<Rightarrow>
    hot_entry option" where
  "hot_view loads now codes table dp =
     map_option (\<lambda>(c, row). hot_entry_of now c (value_of loads row) row)
       (first_row table dp codes)"

definition pure_hot_step :: "(string \<Rightarrow> pyval res) \<Rightarrow> int \<Rightarrow> string list \<Rightarrow>
    (string \<times> string) \<times> rt_row \<Rightarrow> ranked \<Rightarrow> ranked" where
  "pure_hot_step loads now codes r best =
     (let ((ts, dp), row) = r; p = code_priority codes ts;
          better = (case map_of best dp of None \<Rightarrow> True | Some (q, _) \<Rightarrow> q > p)
      in if better then dput dp (p, hot_entry_of now ts (value_of loads row) row) best else best)"

lemma hot_step_pure: "loads (rv_value_json (snd r)) = Inr v \<Longrightarrow>
    hot_step loads now codes r best = Inr (pure_hot_step loads now codes r best)"
  by (auto simp: hot_step_def pure_hot_step_def Let_def value_of_def split: prod.splits option.splits)

lemma hot_fold_pure: "\<forall>r \<in> set rows. returns (loads (rv_value_json (snd r))) \<Longrightarrow>
    res_fold (hot_step loads now codes) rows best = Inr (fold (pure_hot_step loads now codes) rows best)"
  by (induction rows arbitrary: best) (auto simp: returns_iff hot_step_pure)

lemma map_of_rev_zip_nth:
  "distinct codes \<Longrightarrow> i < length codes \<Longrightarrow>
   map_of (rev (zip codes [0..<length codes])) (codes ! i) = Some i"
proof -
  assume d: "distinct codes" and i: "i < length codes"
  have "distinct (map fst (rev (zip codes [0..<length codes])))"
    using d by (simp add: rev_map [symmetric])
  moreover have "(codes ! i, i) \<in> set (rev (zip codes [0..<length codes]))"
    using i by (auto simp: set_zip intro!: exI [of _ i])
  ultimately show ?thesis by (rule map_of_is_SomeI)
qed

lemma code_priority_nth: "distinct codes \<Longrightarrow> i < length codes \<Longrightarrow> code_priority codes (codes ! i) = i"
  by (simp add: code_priority_def map_of_rev_zip_nth)

lemma first_row_None: "first_row table dp codes = None \<longleftrightarrow> (\<forall>c \<in> set codes. map_of table (c, dp) = None)"
  by (induction codes) (auto split: option.splits)

lemma first_row_Some: "first_row table dp codes = Some (c, row) \<Longrightarrow>
   \<exists>i < length codes. c = codes ! i \<and> map_of table (c, dp) = Some row \<and>
     (\<forall>j < i. map_of table (codes ! j, dp) = None)"
proof (induction codes)
  case Nil
  then show ?case by simp
next
  case (Cons d codes)
  show ?case
  proof (cases "map_of table (d, dp)")
    case None
    with Cons obtain i where "i < length codes" "c = codes ! i" "map_of table (c, dp) = Some row"
      "\<forall>j < i. map_of table (codes ! j, dp) = None" by auto
    with None show ?thesis
      by (intro exI [of _ "Suc i"]) (auto simp: less_Suc_eq_0_disj)
  next
    case (Some r)
    with Cons.prems show ?thesis by (intro exI [of _ 0]) auto
  qed
qed

lemma code_priority_less: "distinct codes \<Longrightarrow> c \<in> set codes \<Longrightarrow> code_priority codes c < length codes"
  by (auto simp: in_set_conv_nth code_priority_nth)

lemma code_priority_inj: "distinct codes \<Longrightarrow> c \<in> set codes \<Longrightarrow> d \<in> set codes \<Longrightarrow>
    code_priority codes c = code_priority codes d \<Longrightarrow> c = d"
  by (auto simp: in_set_conv_nth code_priority_nth)

definition visible :: "string list \<Rightarrow> rt_table \<Rightarrow> rt_table" where
  "visible codes table = filter (\<lambda>r. fst (fst r) \<in> set codes) table"

text \<open>
  A loop over rows of coded tables that keeps the best row of every data point, the priority of a
  row being the position of its code: it computes \<open>first_row\<close>, for the data points it is
  restricted to.
\<close>

locale coded_rows =
  best_row "\<lambda>r. snd (fst r)" "\<lambda>r. code_priority codes (fst (fst r))" pay step
  for codes :: "string list" and pay :: "(string \<times> string) \<times> rt_row \<Rightarrow> 'v" and step
begin

definition scope :: "(string \<Rightarrow> bool) \<Rightarrow> rt_table \<Rightarrow> rt_table" where
  "scope Q table = filter (\<lambda>r. fst (fst r) \<in> set codes \<and> Q (snd (fst r))) table"

lemma fold_first_row:
  assumes wf: "dict_wf table" and d: "distinct codes" and Q: "Q dp"
  shows "map_option snd (map_of (fold step (scope Q table) []) dp)
    = map_option (\<lambda>(c, row). pay ((c, dp), row)) (first_row table dp codes)"
proof (cases "first_row table dp codes")
  case None
  then have "\<forall>r \<in> set (scope Q table). snd (fst r) \<noteq> dp"
    by (force simp: first_row_None map_of_eq_None_iff scope_def)
  from fold_misses [OF _ this, of "[]"] show ?thesis
    by (simp add: None)
next
  case (Some p)
  obtain c row where p: "p = (c, row)" by (cases p)
  from first_row_Some [OF Some [unfolded p]] obtain i where
    i: "i < length codes" "c = codes ! i" "map_of table (c, dp) = Some row"
      "\<forall>j < i. map_of table (codes ! j, dp) = None" by blast
  have in_rows: "((c, dp), row) \<in> set (scope Q table)"
    using i map_of_SomeD [OF i(3)] Q by (auto simp: scope_def)
  have "\<exists>r \<in> set (scope Q table). snd (fst r) = dp"
    using in_rows by force
  from fold_best [OF this] obtain r where
    r: "r \<in> set (scope Q table)" "snd (fst r) = dp"
      "map_of (fold step (scope Q table) []) dp = Some (code_priority codes (fst (fst r)), pay r)"
      "\<forall>q \<in> set (scope Q table). snd (fst q) = dp \<longrightarrow>
         code_priority codes (fst (fst r)) \<le> code_priority codes (fst (fst q))" by blast
  obtain c' row' where r': "r = ((c', dp), row')" using r(2) by (cases r) auto
  from r(1) r' have c': "c' \<in> set codes" "map_of table (c', dp) = Some row'"
    using wf by (auto simp: scope_def dict_wf_def intro: map_of_is_SomeI)
  obtain j where j: "j < length codes" "c' = codes ! j"
    using c'(1) by (auto simp: in_set_conv_nth)
  have "j \<le> i"
    using r(4) in_rows r' i j d by (force simp: code_priority_nth)
  moreover have "\<not> j < i" using i(4) c'(2) j(2) by auto
  ultimately have "c' = c" "row' = row" using i j c' by auto
  with r(3) r' show ?thesis by (simp add: Some p)
qed

lemma fold_out_of_scope: "\<not> Q dp \<Longrightarrow> map_of (fold step (scope Q table) []) dp = None"
  using fold_misses [of "[]" dp "scope Q table"] by (auto simp: scope_def)

end

interpretation hot: coded_rows codes
    "\<lambda>r. hot_entry_of now (fst (fst r)) (value_of loads (snd r)) (snd r)"
    "pure_hot_step loads now codes" for codes now loads
  by unfold_locales (auto simp: pure_hot_step_def Let_def split: option.splits)

text \<open>The loop computes the abstract view.\<close>

lemma fold_hot_view:
  assumes "dict_wf table" and "distinct codes"
  shows "map_option snd (map_of (fold (pure_hot_step loads now codes) (visible codes table) []) dp)
    = hot_view loads now codes table dp"
  using hot.fold_first_row [OF assms, of "\<lambda>_. True" dp loads now]
  by (simp add: hot.scope_def visible_def hot_view_def)

lemma read_hot_snapshot_eq:
  assumes "db_realtime db = Some table" and "codes = lookup_codes db ts_code incl"
    and "\<forall>r \<in> set (visible codes table). returns (loads (rv_value_json (snd r)))"
  shows "read_hot_snapshot loads now (Some db) ts_code incl =
    Inr (map (\<lambda>p. (fst p, snd (snd p))) (fold (pure_hot_step loads now codes) (visible codes table) []))"
  using assms hot_fold_pure [of "visible codes table" loads now codes "[]"]
  by (simp add: read_hot_snapshot_def select_def visible_def Let_def)

lemma map_of_map_snd: "map_of (map (\<lambda>p. (fst p, f (snd p))) d) k = map_option f (map_of d k)"
  by (induction d) auto

text \<open>The priority list names no code twice.\<close>

lemma distinct_industries:
  assumes "keyed manifest_key (db_manifest db)"
  shows "distinct (industries_for_ts_code db ts_code)"
proof (cases "db_manifest db")
  case None
  then show ?thesis by (simp add: industries_for_ts_code_def select_def)
next
  case (Some rows)
  have "distinct (map fst rows)" "\<forall>(k, r) \<in> set rows. manifest_key r = k"
    using assms by (auto simp: keyed_def dict_wf_def Some)
  then have "distinct (map (mf_industry_id) (manifests_of ts_code rows)) \<and>
      set (manifests_of ts_code rows) \<subseteq> snd ` set rows"
  proof (induction rows)
    case Nil
    then show ?case by (simp add: manifests_of_def)
  next
    case (Cons kr rows)
    then show ?case
      by (cases kr) (force simp: manifests_of_def manifest_key_def)
  qed
  then have "distinct (map mf_industry_id (industry_order (manifests_of ts_code rows)))"
    by (simp add: industry_order_def distinct_map)
  then show ?thesis by (simp add: industries_for_ts_code_def select_def Some)
qed

definition is_sentinel :: "string \<Rightarrow> bool" where
  "is_sentinel ts_code \<longleftrightarrow> prefix ''INDUSTRY:'' ts_code \<or> prefix ''MARKET:'' ts_code"

lemma distinct_lookup_codes:
  assumes "keyed manifest_key (db_manifest db)" and "\<not> is_sentinel ts_code"
  shows "distinct (lookup_codes db ts_code incl)"
  using distinct_industries [OF assms(1), of ts_code] assms(2)
  by (auto simp: lookup_codes_def is_sentinel_def distinct_map inj_on_def split: option.splits)

section \<open>Lemmas on batches, deltas and stamps\<close>

text \<open>The last item of a batch that writes a key.\<close>

definition last_item :: "batch_item list \<Rightarrow> string \<Rightarrow> string \<Rightarrow> batch_item option" where
  "last_item batch ts dp = find (\<lambda>b. bi_ts_code b = ts \<and> bi_dp_id b = dp) (rev batch)"

lemma batch_row_key: "batch_row dumps b = Inr kr \<Longrightarrow> fst kr = (bi_ts_code b, bi_dp_id b)"
  by (auto simp: batch_row_def res_map_eq_Inr)

lemma last_item_in: "last_item batch ts dp = Some b \<Longrightarrow>
    b \<in> set batch \<and> bi_ts_code b = ts \<and> bi_dp_id b = dp"
  using find_SomeD [of "\<lambda>b. bi_ts_code b = ts \<and> bi_dp_id b = dp" "rev batch" b]
  by (auto simp: last_item_def)

lemma map_of_rev_batch:
  "res_list (batch_row dumps) batch = Inr rows \<Longrightarrow>
   map_of (rev rows) (ts, dp) =
     (case last_item batch ts dp of None \<Rightarrow> None
      | Some b \<Rightarrow> (case batch_row dumps b of Inl _ \<Rightarrow> None | Inr kr \<Rightarrow> Some (snd kr)))"
proof (induction batch arbitrary: rows)
  case Nil
  then show ?case by (simp add: last_item_def)
next
  case (Cons b batch)
  then obtain kr rows' where *: "batch_row dumps b = Inr kr" "rows = kr # rows'"
    "res_list (batch_row dumps) batch = Inr rows'"
    by (auto simp: res_bind_eq_Inr)
  have "map_of (rev rows) (ts, dp) = (case map_of (rev rows') (ts, dp) of
      None \<Rightarrow> (if (ts, dp) = fst kr then Some (snd kr) else None) | Some r \<Rightarrow> Some r)"
    by (cases kr) (auto simp: *(2) map_add_def split: option.splits)
  moreover have "last_item (b # batch) ts dp = (case last_item batch ts dp of
      None \<Rightarrow> (if bi_ts_code b = ts \<and> bi_dp_id b = dp then Some b else None) | Some x \<Rightarrow> Some x)"
    by (simp add: last_item_def find_append split: option.splits)
  moreover have "\<And>x. last_item batch ts dp = Some x \<Longrightarrow> \<exists>kr. batch_row dumps x = Inr kr"
    using *(3) res_list_returns [of "batch_row dumps" batch] last_item_in [of batch ts dp]
    by (force simp: returns_iff)
  ultimately show ?case
    using Cons.IH [OF *(3)] batch_row_key [OF *(1)] *(1)
    by (auto split: option.splits sum.splits) 
qed

lemma put_all_fresh: "distinct (map fst kvs) \<Longrightarrow> put_all kvs [] = kvs"
proof -
  have "distinct (map fst t @ map fst kvs) \<Longrightarrow> fold (\<lambda>(k, r). dput k r) kvs t = t @ kvs" for t
  proof (induction kvs arbitrary: t)
    case Nil
    then show ?case by simp
  next
    case (Cons kv kvs)
    then show ?case by (cases kv) (force simp: dput_fresh)
  qed
  from this [of "[]"] show "distinct (map fst kvs) \<Longrightarrow> put_all kvs [] = kvs"
    by (simp add: put_all_def)
qed

lemma upsert_other_rows:
  assumes "stored dumps disk" and "upsert_realtime dumps disk batch = (db, r)"
    and "last_item batch ts dp = None"
  shows "map_of (rows_of (db_realtime db)) (ts, dp) =
     map_of (rows_of (db_realtime (init_db disk))) (ts, dp)"
proof (cases "res_list (batch_row dumps) batch")
  case (Inl e)
  with assms(2) show ?thesis by (auto simp: upsert_realtime_def Let_def)
next
  case (Inr rows)
  have "dict_wf (rows_of (db_realtime (init_db disk)))"
    using db_ok_init [of disk] db_ok_stored [OF assms(1)] by (auto simp: db_ok_def)
  with assms(2,3) show ?thesis
    by (auto simp: upsert_realtime_def Let_def Inr map_of_put_all map_of_rev_batch [OF Inr])
qed

lemma last_item_None: "last_item batch ts dp = None \<longleftrightarrow>
    (\<forall>b \<in> set batch. \<not> (bi_ts_code b = ts \<and> bi_dp_id b = dp))"
  by (auto simp: last_item_def find_None_iff)

lemma stored_table:
  assumes "stored dumps (Some db)" and "db_realtime db = Some table"
  shows "dict_wf table"
  using db_ok_stored [OF assms(1) refl] assms(2) by (simp add: db_ok_def)

text \<open>What a delta holds: the rows of the company stamped after \<open>since\<close>.\<close>

lemma changed_since_eq:
  assumes "db_realtime db = Some table"
    and "\<forall>r \<in> set (changed_rows ts_code since table). returns (loads (rv_value_json (snd r)))"
  shows "read_hot_snapshot_changed_since loads now (Some db) ts_code since =
     Inr (put_all (map (\<lambda>r. (snd (fst r), delta_entry_of now (value_of loads (snd r)) (snd r)))
                    (changed_rows ts_code since table)) [])"
proof -
  let ?f = "\<lambda>r. (snd (fst r), delta_entry_of now (value_of loads (snd r)) (snd r))"
  have "res_list (\<lambda>r. res_map (\<lambda>v. (snd (fst r), delta_entry_of now v (snd r)))
          (loads (rv_value_json (snd r)))) rows = Inr (map ?f rows)"
    if "\<forall>r \<in> set rows. returns (loads (rv_value_json (snd r)))" for rows
    using that by (induction rows) (auto simp: returns_iff value_of_def)
  from this [OF assms(2)] show ?thesis
    by (simp add: read_hot_snapshot_changed_since_def select_def assms(1))
qed

lemma map_of_changed:
  "dict_wf table \<Longrightarrow> map_of (map (\<lambda>r. (snd (fst r), f (snd r))) (changed_rows ts since table)) dp =
     (case map_of table (ts, dp) of None \<Rightarrow> None
      | Some row \<Rightarrow> if rv_updated_at row > since then Some (f row) else None)"
proof (induction table)
  case Nil
  then show ?case by (simp add: changed_rows_def)
next
  case (Cons r table)
  obtain ts' dp' row where r: "r = ((ts', dp'), row)" by (metis surj_pair)
  have "map_of table (ts', dp') = None"
    using Cons.prems by (auto simp: dict_wf_def r map_of_eq_None_iff)
  with Cons show ?case
    by (auto simp: changed_rows_def dict_wf_def r split: option.splits)
qed

lemma distinct_changed: "dict_wf table \<Longrightarrow>
   distinct (map fst (map (\<lambda>r. (snd (fst r), f (snd r))) (changed_rows ts since table)))"
  by (induction table) (force simp: changed_rows_def dict_wf_def)+

lemma changed_since_spec:
  assumes "db_realtime db = Some table" and "dict_wf table"
    and "\<forall>r \<in> set (changed_rows ts since table). returns (loads (rv_value_json (snd r)))"
  shows "\<exists>d. read_hot_snapshot_changed_since loads now (Some db) ts since = Inr d \<and> dict_wf d \<and>
     (\<forall>dp. map_of d dp = (case map_of table (ts, dp) of None \<Rightarrow> None
        | Some row \<Rightarrow> if rv_updated_at row > since
                      then Some (delta_entry_of now (value_of loads row) row) else None))"
proof -
  have "read_hot_snapshot_changed_since loads now (Some db) ts since =
      Inr (map (\<lambda>r. (snd (fst r), delta_entry_of now (value_of loads (snd r)) (snd r)))
             (changed_rows ts since table))"
    unfolding changed_since_eq [OF assms(1,3)]
    by (subst put_all_fresh) (rule distinct_changed [OF assms(2)], rule refl)
  moreover have "dict_wf (map (\<lambda>r. (snd (fst r), delta_entry_of now (value_of loads (snd r)) (snd r)))
             (changed_rows ts since table))"
    unfolding dict_wf_def by (rule distinct_changed [OF assms(2)])
  ultimately show ?thesis
    using map_of_changed [OF assms(2), of "\<lambda>row. delta_entry_of now (value_of loads row) row" ts since]
    by blast
qed

text \<open>A sequence of stamps, each with its time, layer, status and kind.\<close>

type_synonym stamp = "int \<times> string \<times> string \<times> bool"

definition stamp_all :: "stamp list \<Rightarrow> database option \<Rightarrow> database option" where
  "stamp_all stamps disk =
     fold (\<lambda>(now, layer, sync, full) d. Some (update_freshness now d layer sync full)) stamps disk"

definition stamps_of :: "stamp list \<Rightarrow> string \<Rightarrow> stamp list" where
  "stamps_of stamps layer = filter (\<lambda>(_, l, _, _). l = layer) stamps"

definition last_full_of :: "stamp list \<Rightarrow> int option" where
  "last_full_of stamps =
     (let fs = filter (\<lambda>(_, _, _, full). full) stamps in
      if fs = [] then None else Some (fst (last fs)))"

definition freshness_of :: "stamp list \<Rightarrow> freshness_row option" where
  "freshness_of stamps =
     (if stamps = [] then None
      else Some \<lparr>fm_last_full = last_full_of stamps, fm_last_partial = Some (fst (last stamps)),
                 fm_status = fst (snd (snd (last stamps)))\<rparr>)"

lemma init_db_freshness: "db_freshness (init_db disk) =
    Some (case disk of None \<Rightarrow> [] | Some db \<Rightarrow> rows_of (db_freshness db))"
  by (auto simp: init_db_def empty_db_def Let_def split: option.splits)

lemma stamp_all_snoc: "stamp_all (stamps @ [(now, layer, sync, full)]) disk =
    Some (update_freshness now (stamp_all stamps disk) layer sync full)"
  by (simp add: stamp_all_def)

lemma last_full_snoc: "last_full_of (stamps @ [(now, layer, sync, full)]) =
    (if full then Some now else last_full_of stamps)"
  by (auto simp: last_full_of_def Let_def)

lemma freshness_table: "stamp_all stamps None = Some db \<Longrightarrow>
   map_of (rows_of (db_freshness db)) layer = freshness_of (stamps_of stamps layer)"
proof (induction stamps arbitrary: db layer rule: rev_induct)
  case Nil
  then show ?case by (simp add: stamp_all_def)
next
  case (snoc st stamps)
  obtain now l sync full where st: "st = (now, l, sync, full)" by (cases st) auto
  define t where "t = rows_of (db_freshness (init_db (stamp_all stamps None)))"
  have t: "map_of t k = freshness_of (stamps_of stamps k)" for k
  proof (cases "stamp_all stamps None")
    case None
    then have "stamps = []" by (cases stamps rule: rev_cases) (auto simp: stamp_all_def)
    with None show ?thesis
      by (simp add: t_def init_db_freshness stamps_of_def freshness_of_def stamp_all_def)
  next
    case (Some d)
    with snoc.IH [OF Some] show ?thesis by (simp add: t_def init_db_freshness)
  qed
  have db: "db = update_freshness now (stamp_all stamps None) l sync full"
    using snoc.prems by (simp add: st stamp_all_snoc)
  show ?case
    by (auto simp: db update_freshness_def Let_def t_def [symmetric] map_of_dput t st
        stamps_of_def freshness_of_def last_full_snoc last_full_of_def [of "[]"])
qed

section \<open>Properties\<close>


definition ex_item :: "string \<Rightarrow> string \<Rightarrow> string \<Rightarrow> int \<Rightarrow> batch_item" where
  "ex_item ts dp v t = \<lparr>bi_ts_code = ts, bi_dp_id = dp, bi_value = PStr v, bi_data_status = ''fresh'',
     bi_confidence = Some (1/2), bi_source = ''tushare'', bi_updated_at = t\<rparr>"

definition ex_manifest :: "string \<Rightarrow> string \<Rightarrow> int \<Rightarrow> manifest_row" where
  "ex_manifest ts ind prim = \<lparr>mf_ts_code = ts, mf_industry_id = ind, mf_overlay_path = ''o'',
     mf_period = None, mf_primary = prim, mf_status = ''ok'', mf_updated_at = 1\<rparr>"

definition ex_snap :: "string \<Rightarrow> string \<Rightarrow> string \<Rightarrow> snapshot_row" where
  "ex_snap ts ind payload = \<lparr>sw_ts_code = ts, sw_industry_id = ind, sw_payload_json = payload,
     sw_graph_version = None, sw_data_version = None, sw_updated_at = 1\<rparr>"

definition ex_compiled :: database where
  "ex_compiled = fst (replace_compiled_overlays None
     [ex_manifest ''A.SZ'' ''solar'' 0, ex_manifest ''A.SZ'' ''ev'' 1] [] []
     [ex_snap ''A.SZ'' ''solar'' ''1'', ex_snap ''A.SZ'' ''ev'' ''2''] [])"

definition ex_db :: database where
  "ex_db = fst (upsert_realtime (\<lambda>_. Inr ''0'') (Some ex_compiled)
     [ex_item ''MARKET:CN'' ''cpi'' ''1'' 5, ex_item ''MARKET:CN'' ''pmi'' ''2'' 5,
      ex_item ''INDUSTRY:ev'' ''pmi'' ''3'' 6, ex_item ''A.SZ'' ''rev'' ''4'' 7])"

lemma stored_ex_compiled: "stored dumps (Some ex_compiled)"
  unfolding ex_compiled_def by (intro stored.intros)

lemma stored_ex_db: "stored (\<lambda>_. Inr ''0'') (Some ex_db)"
  unfolding ex_db_def by (intro stored.intros stored_ex_compiled)

lemmas storage_eval =
  replace_compiled_overlays_def fill_overlays_def insert_all_def insert_row_def init_db_def empty_db_def
  manifest_key_def snapshot_key_def ex_manifest_def ex_snap_def ex_item_def upsert_realtime_def
  batch_row_def put_all_def select_def Let_def

lemma ex_compiled_tables:
  "db_manifest ex_compiled = Some [((''A.SZ'', ''solar''), ex_manifest ''A.SZ'' ''solar'' 0),
     ((''A.SZ'', ''ev''), ex_manifest ''A.SZ'' ''ev'' 1)]"
  "db_snapshots ex_compiled = Some [((''A.SZ'', ''solar''), ex_snap ''A.SZ'' ''solar'' ''1''),
     ((''A.SZ'', ''ev''), ex_snap ''A.SZ'' ''ev'' ''2'')]"
  "db_realtime ex_compiled = Some []"
  by (simp_all add: ex_compiled_def storage_eval)

definition ex_table :: rt_table where
  "ex_table =
    [((''MARKET:CN'', ''cpi''), \<lparr>rv_value_json = ''1'', rv_data_status = ''fresh'',
       rv_confidence = Some (1/2), rv_source = ''tushare'', rv_updated_at = 5\<rparr>),
     ((''MARKET:CN'', ''pmi''), \<lparr>rv_value_json = ''2'', rv_data_status = ''fresh'',
       rv_confidence = Some (1/2), rv_source = ''tushare'', rv_updated_at = 5\<rparr>),
     ((''INDUSTRY:ev'', ''pmi''), \<lparr>rv_value_json = ''3'', rv_data_status = ''fresh'',
       rv_confidence = Some (1/2), rv_source = ''tushare'', rv_updated_at = 6\<rparr>),
     ((''A.SZ'', ''rev''), \<lparr>rv_value_json = ''4'', rv_data_status = ''fresh'',
       rv_confidence = Some (1/2), rv_source = ''tushare'', rv_updated_at = 7\<rparr>)]"

lemma ex_db_tables:
  "db_manifest ex_db = db_manifest ex_compiled" "db_realtime ex_db = Some ex_table"
  by (simp_all add: ex_db_def upsert_realtime_def init_db_def ex_compiled_tables Let_def
      batch_row_def ex_item_def put_all_def ex_table_def)

lemma ex_codes: "lookup_codes ex_db ''A.SZ'' True =
    [''A.SZ'', ''INDUSTRY:ev'', ''INDUSTRY:solar'', ''MARKET:CN'']"
  by (simp add: lookup_codes_def industries_for_ts_code_def select_def ex_db_tables ex_compiled_tables
      industry_order_def manifests_of_def ex_manifest_def ts_code_to_market_def str_eval)


text \<open>
  C8: The merged snapshot of a company holds, for every data point, the row of the first code of
  its priority list that has one: its own, then its industries (primary first), then its market;
  each entry carries the decoded value, the row's fields, its age and the code it came from. A
  data point that none of the codes has is absent, in whatever order the rows are read.
\<close>

theorem hot_snapshot_merges_by_priority:
  assumes "stored dumps (Some db)" and "db_realtime db = Some table" and "\<not> is_sentinel ts_code"
    and "\<forall>r \<in> set (visible (lookup_codes db ts_code incl) table).
           returns (loads (rv_value_json (snd r)))"
  shows "\<exists>snap. read_hot_snapshot loads now (Some db) ts_code incl = Inr snap \<and> dict_wf snap \<and>
     (\<forall>dp. map_of snap dp = hot_view loads now (lookup_codes db ts_code incl) table dp)"
proof -
  have ok: "db_ok db" by (rule db_ok_stored [OF assms(1) refl])
  then have "dict_wf table" "distinct (lookup_codes db ts_code incl)"
    using assms(2,3) distinct_lookup_codes by (auto simp: db_ok_def)
  note view = fold_hot_view [OF this]
  note read = read_hot_snapshot_eq [where loads = loads, OF assms(2) refl assms(4)]
  show ?thesis
    using hot.wf_fold [of "[]"]
    by (auto simp: read dict_wf_def comp_def map_of_map_snd view)
qed

theorem hot_snapshot_merges_by_priority_witness:
  "\<exists>snap. read_hot_snapshot (\<lambda>s. Inr (PStr s)) 10 (Some ex_db) ''A.SZ'' True = Inr snap \<and>
     map_option he_value (map_of snap ''pmi'') = Some (PStr ''3'') \<and>
     map_option he_origin (map_of snap ''cpi'') = Some ''MARKET:CN'' \<and>
     map_option he_age_seconds (map_of snap ''rev'') = Some 3 \<and> map_of snap ''gdp'' = None"
proof -
  have "\<exists>snap. read_hot_snapshot (\<lambda>s. Inr (PStr s)) 10 (Some ex_db) ''A.SZ'' True = Inr snap \<and>
     dict_wf snap \<and> (\<forall>dp. map_of snap dp =
       hot_view (\<lambda>s. Inr (PStr s)) 10 (lookup_codes ex_db ''A.SZ'' True) ex_table dp)"
    by (rule hot_snapshot_merges_by_priority [OF stored_ex_db ex_db_tables(2)])
      (simp_all add: is_sentinel_def)
  then show ?thesis
    by (auto simp: ex_codes hot_view_def ex_table_def hot_entry_of_def value_of_def)
qed

text \<open>
  An upsert writes all of its batch or nothing. When every value can be encoded, the row
  afterwards of a key that the batch names is the encoded last item of that key, every other row and
  every other table is as the schema creation left it, and the count is the length of the batch;
  when one cannot be encoded, the exception leaves the tables as they were.
\<close>

theorem upsert_last_write_wins:
  assumes "stored dumps disk"
  shows "case upsert_realtime dumps disk batch of
      (db, Inl e) \<Rightarrow> db = init_db disk \<and> (\<exists>b \<in> set batch. batch_row dumps b = Inl e)
    | (db, Inr n) \<Rightarrow>
        n = length batch \<and> db = (init_db disk)\<lparr>db_realtime := db_realtime db\<rparr> \<and>
        (\<forall>ts dp. map_of (rows_of (db_realtime db)) (ts, dp) =
           (case last_item batch ts dp of
              None \<Rightarrow> map_of (rows_of (db_realtime (init_db disk))) (ts, dp)
            | Some b \<Rightarrow> (case batch_row dumps b of Inl _ \<Rightarrow> None | Inr kr \<Rightarrow> Some (snd kr))))"
proof (cases "res_list (batch_row dumps) batch")
  case (Inl e)
  then have "\<exists>b \<in> set batch. batch_row dumps b = Inl e"
    by (induction batch) (auto simp: res_bind_def split: sum.splits)
  with Inl show ?thesis by (simp add: upsert_realtime_def Let_def)
next
  case (Inr rows)
  have wf: "dict_wf (rows_of (db_realtime (init_db disk)))"
    using db_ok_init [of disk] db_ok_stored [OF assms] by (auto simp: db_ok_def)
  have enc: "\<And>b ts dp. last_item batch ts dp = Some b \<Longrightarrow> \<exists>kr. batch_row dumps b = Inr kr"
    using Inr res_list_returns [of "batch_row dumps" batch] last_item_in [of batch]
    by (force simp: returns_iff)
  show ?thesis
    using res_list_length [OF Inr]
    by (auto simp: upsert_realtime_def Let_def Inr map_of_put_all [OF wf] map_of_rev_batch [OF Inr]
        split: option.splits sum.splits dest!: enc)
qed

theorem upsert_last_write_wins_witness:
  "case upsert_realtime (\<lambda>_. Inr ''0'') (Some ex_db)
       [ex_item ''A.SZ'' ''rev'' ''8'' 8, ex_item ''A.SZ'' ''rev'' ''9'' 9] of
      (db, Inl e) \<Rightarrow> False
    | (db, Inr n) \<Rightarrow>
        n = 2 \<and> map_option rv_value_json (map_of (rows_of (db_realtime db)) (''A.SZ'', ''rev'')) = Some ''9''
        \<and> map_option rv_value_json (map_of (rows_of (db_realtime db)) (''MARKET:CN'', ''cpi'')) = Some ''1''"
proof -
  define r where "r = upsert_realtime (\<lambda>_. Inr ''0'') (Some ex_db)
       [ex_item ''A.SZ'' ''rev'' ''8'' 8, ex_item ''A.SZ'' ''rev'' ''9'' 9]"
  have "rows_of (db_realtime (init_db (Some ex_db))) = ex_table"
    by (simp add: init_db_def ex_db_tables Let_def)
  with upsert_last_write_wins [OF stored_ex_db,
      of "[ex_item ''A.SZ'' ''rev'' ''8'' 8, ex_item ''A.SZ'' ''rev'' ''9'' 9]"]
  show ?thesis
    unfolding r_def [symmetric]
    by (auto simp: last_item_def batch_row_def ex_item_def ex_table_def split: prod.splits sum.splits)
qed

text \<open>
  A value that decodes back from its encoding is what the readers return after the upsert:
  the hot snapshot of the company shows the last item of the batch for each of its data points,
  with the item's value, status, source and stamp, whatever its industries and market have.
\<close>

theorem upsert_then_read:
  assumes "stored dumps disk" and "upsert_realtime dumps disk batch = (db, Inr n)"
    and "last_item batch ts dp = Some b" and "\<not> is_sentinel ts"
    and "batch_row dumps b = Inr (k, row)" and "loads (rv_value_json row) = Inr (bi_value b)"
    and "\<forall>r \<in> set (rows_of (db_realtime db)). returns (loads (rv_value_json (snd r)))"
  shows "\<exists>snap. read_hot_snapshot loads now (Some db) ts incl = Inr snap \<and>
    map_of snap dp = Some \<lparr>he_value = bi_value b, he_data_status = bi_data_status b,
      he_confidence = bi_confidence b, he_source = bi_source b, he_updated_at = bi_updated_at b,
      he_age_seconds = now - bi_updated_at b, he_origin = ts\<rparr>"
proof -
  have st: "stored dumps (Some db)"
    using stored.upserted [OF assms(1), of batch] assms(2) by simp
  have ok: "db_ok db" by (rule db_ok_stored [OF st refl])
  obtain rows where rows: "res_list (batch_row dumps) batch = Inr rows"
    and db: "db = (init_db disk)\<lparr>db_realtime := Some (put_all rows (rows_of (db_realtime (init_db disk))))\<rparr>"
    using assms(2) by (auto simp: upsert_realtime_def Let_def split: sum.splits)
  have wf: "dict_wf (rows_of (db_realtime (init_db disk)))"
    using db_ok_init [of disk] db_ok_stored [OF assms(1)] by (auto simp: db_ok_def)
  obtain table where table: "db_realtime db = Some table" using db by simp
  have "map_of table (ts, dp) = Some row"
    using table map_of_rev_batch [OF rows, of ts dp] assms(3,5)
    by (auto simp: db map_of_put_all [OF wf])
  then have "first_row table dp (lookup_codes db ts incl) = Some (ts, row)"
    by (simp add: lookup_codes_def)
  moreover have "dict_wf table" "distinct (lookup_codes db ts incl)"
    using ok table assms(4) distinct_lookup_codes by (auto simp: db_ok_def)
  note view = fold_hot_view [OF this]
  have "\<forall>r \<in> set (visible (lookup_codes db ts incl) table). returns (loads (rv_value_json (snd r)))"
    using assms(7) table by (auto simp: visible_def)
  note read = read_hot_snapshot_eq [where loads = loads, OF table refl this]
  ultimately show ?thesis
    using assms(5,6)
    by (auto simp: read map_of_map_snd view hot_view_def hot_entry_of_def value_of_def
        batch_row_def res_map_eq_Inr)
qed

definition ex_number :: batch_item where
  "ex_number = \<lparr>bi_ts_code = ''A.SZ'', bi_dp_id = ''pmi'', bi_value = PInt 51,
     bi_data_status = ''fresh'', bi_confidence = None, bi_source = ''akshare'', bi_updated_at = 8\<rparr>"

definition ex_dumps :: "pyval \<Rightarrow> string res" where
  "ex_dumps v = (case v of PInt i \<Rightarrow> Inr (int_str i) | _ \<Rightarrow> Inl TypeError)"

definition ex_loads :: "string \<Rightarrow> pyval res" where
  "ex_loads s = (if s = int_str 51 then Inr (PInt 51) else Inl ValueError)"

theorem upsert_then_read_witness:
  "\<exists>snap. read_hot_snapshot ex_loads 10 (Some (fst (upsert_realtime ex_dumps None [ex_number])))
      ''A.SZ'' True = Inr snap \<and>
    map_option he_value (map_of snap ''pmi'') = Some (PInt 51)"
proof -
  let ?row = "\<lparr>rv_value_json = int_str 51, rv_data_status = ''fresh'', rv_confidence = None,
      rv_source = ''akshare'', rv_updated_at = 8\<rparr>"
  define db where "db = fst (upsert_realtime ex_dumps None [ex_number])"
  have 1: "upsert_realtime ex_dumps None [ex_number] = (db, Inr 1)"
    by (simp add: db_def upsert_realtime_def batch_row_def ex_number_def ex_dumps_def Let_def)
  have 2: "last_item [ex_number] ''A.SZ'' ''pmi'' = Some ex_number"
    by (simp add: last_item_def ex_number_def)
  have 3: "batch_row ex_dumps ex_number = Inr ((''A.SZ'', ''pmi''), ?row)"
    by (simp add: batch_row_def ex_number_def ex_dumps_def)
  have 4: "rows_of (db_realtime db) = [((''A.SZ'', ''pmi''), ?row)]"
    by (simp add: db_def upsert_realtime_def 3 put_all_def init_db_def empty_db_def Let_def)
  have "\<exists>snap. read_hot_snapshot ex_loads 10 (Some db) ''A.SZ'' True = Inr snap \<and>
    map_of snap ''pmi'' = Some \<lparr>he_value = bi_value ex_number, he_data_status = bi_data_status ex_number,
      he_confidence = bi_confidence ex_number, he_source = bi_source ex_number,
      he_updated_at = bi_updated_at ex_number,
      he_age_seconds = 10 - bi_updated_at ex_number, he_origin = ''A.SZ''\<rparr>"
    by (rule upsert_then_read [OF stored.absent 1 2 _ 3])
      (simp_all add: is_sentinel_def ex_loads_def ex_number_def 4)
  then show ?thesis
    unfolding db_def [symmetric] by (auto simp: ex_number_def)
qed

text \<open>
  C9: Recompiling the overlays is atomic. The call succeeds exactly when no two rows of a table
  have the same primary key; then the five overlay tables hold exactly the given rows. Otherwise
  it raises and the five tables are those that were there before. In both cases the realtime and
  freshness tables keep their rows.
\<close>

theorem replace_is_atomic:
  "(let (db, r) = replace_compiled_overlays disk manifests nodes edges snapshots alerts;
        old = init_db disk;
        unique = (distinct (map manifest_key manifests) \<and> distinct (map node_key nodes) \<and>
           distinct (map edge_key edges) \<and> distinct (map snapshot_key snapshots) \<and>
           distinct (map aw_alert_id alerts)) in
    db_realtime db = db_realtime old \<and> db_freshness db = db_freshness old \<and>
    (if unique
     then r = Inr () \<and> map snd (rows_of (db_manifest db)) = manifests \<and>
          map snd (rows_of (db_nodes db)) = nodes \<and> map snd (rows_of (db_edges db)) = edges \<and>
          map snd (rows_of (db_snapshots db)) = snapshots \<and> map snd (rows_of (db_alerts db)) = alerts
     else r = Inl IntegrityError \<and> db = old))"
  by (simp add: replace_compiled_overlays_def fill_overlays_eq Let_def comp_def)

text \<open>The joined rows of the default view, and what the industry list puts first.\<close>

lemma manifests_of_map: "manifests_of ts (map (\<lambda>r. (key r, r)) rows) = filter (\<lambda>r. mf_ts_code r = ts) rows"
  by (simp add: manifests_of_def comp_def)

lemma sort_key_hd:
  assumes "sort_key f xs = y # ys"
  shows "y \<in> set xs \<and> (\<forall>x \<in> set xs. f y \<le> f x)"
proof -
  have "set xs = insert y (set ys)" using arg_cong [OF assms, of set] by simp
  moreover have "sorted (map f (y # ys))" using sorted_sort_key [of f xs] assms by simp
  ultimately show ?thesis by auto
qed

lemma keyed_iff:
  assumes "keyed key (Some rows)"
  shows "r \<in> snd ` set rows \<longleftrightarrow> map_of rows (key r) = Some r"
proof
  assume "r \<in> snd ` set rows"
  then obtain k where "(k, r) \<in> set rows" by force
  with assms show "map_of rows (key r) = Some r"
    by (auto simp: keyed_def dict_wf_def intro!: map_of_is_SomeI)
next
  assume "map_of rows (key r) = Some r"
  then show "r \<in> snd ` set rows" using map_of_SomeD [of rows "key r" r] by force
qed

lemma keyed_inj: "keyed key (Some rows) \<Longrightarrow> r \<in> snd ` set rows \<Longrightarrow> r' \<in> snd ` set rows \<Longrightarrow>
    key r = key r' \<Longrightarrow> r = r'"
  by (simp add: keyed_iff)

definition join_pairs :: "(pair_key \<times> snapshot_row) list \<Rightarrow> (pair_key \<times> manifest_row) list \<Rightarrow>
    string \<Rightarrow> (manifest_row \<times> snapshot_row) list" where
  "join_pairs snaps manifests ts = concat (map (\<lambda>s. map (\<lambda>m. (m, s))
      (filter (\<lambda>m. mf_ts_code m = sw_ts_code s \<and> mf_industry_id m = sw_industry_id s) (map snd manifests)))
      (filter (\<lambda>s. sw_ts_code s = ts) (map snd snaps)))"

lemma snapshot_join_pairs: "snapshot_join snaps manifests ts =
    sort_key (\<lambda>(m, s). (- mf_primary m, sw_industry_id s)) (join_pairs snaps manifests ts)"
  by (simp add: snapshot_join_def join_pairs_def)

lemma set_pairs: "(m, s) \<in> set (concat (map (\<lambda>s. map (\<lambda>m. (m, s)) (filter (P s) ms)) (filter Q ss)))
    \<longleftrightarrow> m \<in> set ms \<and> P s m \<and> s \<in> set ss \<and> Q s"
  by auto

lemma set_manifests_of: "m \<in> set (manifests_of ts rows) \<longleftrightarrow> m \<in> snd ` set rows \<and> mf_ts_code m = ts"
  by (auto simp: manifests_of_def)

lemma set_join:
  assumes "keyed snapshot_key (Some snaps)"
  shows "(m, s) \<in> set (join_pairs snaps manifests ts) \<longleftrightarrow>
     m \<in> set (manifests_of ts manifests) \<and> sw_industry_id s = mf_industry_id m \<and> sw_ts_code s = ts \<and>
     map_of snaps (ts, mf_industry_id m) = Some s"
proof -
  have "(m, s) \<in> set (join_pairs snaps manifests ts) \<longleftrightarrow>
     m \<in> set (manifests_of ts manifests) \<and> sw_industry_id s = mf_industry_id m \<and> sw_ts_code s = ts \<and>
     s \<in> snd ` set snaps"
    unfolding join_pairs_def set_pairs by (auto simp: set_manifests_of)
  also have "\<dots> \<longleftrightarrow> m \<in> set (manifests_of ts manifests) \<and> sw_industry_id s = mf_industry_id m \<and>
     sw_ts_code s = ts \<and> map_of snaps (ts, mf_industry_id m) = Some s"
    using keyed_iff [OF assms, of s] by (auto simp: snapshot_key_def)
  finally show ?thesis .
qed

text \<open>The snapshot that the join picks is that of the first industry of the list.\<close>

lemma first_view:
  assumes m: "keyed manifest_key (Some manifests)" and s: "keyed snapshot_key (Some snaps)"
    and all: "\<forall>r \<in> set (manifests_of ts manifests). map_of snaps (ts, mf_industry_id r) \<noteq> None"
    and order: "industry_order (manifests_of ts manifests) = r # rs"
  shows "\<exists>m1 s1 ps. snapshot_join snaps manifests ts = (m1, s1) # ps \<and>
     map_of snaps (ts, mf_industry_id r) = Some s1"
proof -
  note join = snapshot_join_pairs [of snaps manifests ts]
  have r: "r \<in> set (manifests_of ts manifests)"
    and least: "\<forall>x \<in> set (manifests_of ts manifests).
        (- mf_primary r, mf_industry_id r) \<le> (- mf_primary x, mf_industry_id x)"
    using sort_key_hd [OF order [unfolded industry_order_def]] by simp_all
  obtain s0 where s0: "map_of snaps (ts, mf_industry_id r) = Some s0" using all r by blast
  have "((ts, mf_industry_id r), s0) \<in> set snaps" using s0 by (rule map_of_SomeD)
  then have k0: "sw_industry_id s0 = mf_industry_id r" "sw_ts_code s0 = ts"
    using s by (auto simp: keyed_def snapshot_key_def)
  have in_ps: "(r, s0) \<in> set (join_pairs snaps manifests ts)"
    using r s0 k0 by (simp add: set_join [OF s])
  then have "snapshot_join snaps manifests ts \<noteq> []"
    unfolding join by (metis length_pos_if_in_set length_sort list.size(3) less_irrefl)
  then obtain m1 s1 qs where q: "snapshot_join snaps manifests ts = (m1, s1) # qs"
    by (cases "snapshot_join snaps manifests ts") auto
  have 1: "(m1, s1) \<in> set (join_pairs snaps manifests ts)"
    and 2: "(- mf_primary m1, sw_industry_id s1) \<le> (- mf_primary r, sw_industry_id s0)"
    using sort_key_hd [OF q [unfolded join]] in_ps by auto
  have m1: "m1 \<in> set (manifests_of ts manifests)" "sw_industry_id s1 = mf_industry_id m1"
    "map_of snaps (ts, mf_industry_id m1) = Some s1"
    using 1 by (simp_all add: set_join [OF s])
  have "(- mf_primary m1, mf_industry_id m1) = (- mf_primary r, mf_industry_id r)"
    using 2 least m1 k0 by (intro antisym) simp_all
  with m1 q show ?thesis by simp
qed

lemma no_view:
  assumes "keyed snapshot_key (Some snaps)" and "industry_order (manifests_of ts manifests) = []"
  shows "snapshot_join snaps manifests ts = []"
proof -
  have "manifests_of ts manifests = []"
    using assms(2) by (metis industry_order_def length_0_conv length_sort)
  then have "join_pairs snaps manifests ts = []"
    using set_join [OF assms(1), of _ _ manifests ts] by (cases "join_pairs snaps manifests ts") auto
  then show ?thesis by (simp add: snapshot_join_pairs)
qed

text \<open>
  The view a client gets when it names no industry is the view of the first industry that the
  list of available industries offers it (the primary one), and None when that list is empty, for
  every compiled database in which each manifest row of the company has its snapshot.
\<close>

theorem default_view_is_first_industry:
  assumes "stored dumps (Some db)" and "db_manifest db = Some manifests" and "db_snapshots db = Some snaps"
    and "\<forall>r \<in> set (manifests_of ts manifests). map_of snaps (ts, mf_industry_id r) \<noteq> None"
  shows "read_compiled_graph_snapshot loads (Some db) ts None =
    (case read_available_overlay_industries (Some db) ts of
       [] \<Rightarrow> Inr PNone
     | ind # _ \<Rightarrow> read_compiled_graph_snapshot loads (Some db) ts (Some ind))"
proof -
  have ok: "keyed manifest_key (Some manifests)" "keyed snapshot_key (Some snaps)"
    using db_ok_stored [OF assms(1) refl] by (simp_all add: db_ok_def assms(2,3))
  show ?thesis
  proof (cases "industry_order (manifests_of ts manifests)")
    case Nil
    with no_view [OF ok(2) Nil] show ?thesis
      by (simp add: read_compiled_graph_snapshot_def snapshot_payload_def select_def
          read_available_overlay_industries_def assms(2,3))
  next
    case (Cons r rs)
    with first_view [OF ok assms(4) Cons] show ?thesis
      by (auto simp: read_compiled_graph_snapshot_def snapshot_payload_def select_def
          read_available_overlay_industries_def assms(2,3))
  qed
qed

theorem default_view_is_first_industry_witness:
  "read_compiled_graph_snapshot (\<lambda>s. Inr (PStr s)) (Some ex_compiled) ''A.SZ'' None = Inr (PStr ''2'')"
proof -
  let ?loads = "\<lambda>s. Inr (PStr s)"
  have "read_compiled_graph_snapshot ?loads (Some ex_compiled) ''A.SZ'' None =
    (case read_available_overlay_industries (Some ex_compiled) ''A.SZ'' of
       [] \<Rightarrow> Inr PNone
     | ind # _ \<Rightarrow> read_compiled_graph_snapshot ?loads (Some ex_compiled) ''A.SZ'' (Some ind))"
    by (rule default_view_is_first_industry [OF stored_ex_compiled ex_compiled_tables(1,2)])
      (simp add: manifests_of_def ex_manifest_def)
  moreover have "read_available_overlay_industries (Some ex_compiled) ''A.SZ'' = [''ev'', ''solar'']"
    by (simp add: read_available_overlay_industries_def select_def ex_compiled_tables manifests_of_def
        industry_order_def ex_manifest_def)
  ultimately show ?thesis
    by (simp add: read_compiled_graph_snapshot_def snapshot_payload_def select_def ex_compiled_tables
        ex_snap_def)
qed

text \<open>
  The freshness report of a layer after any sequence of stamps shows the time of its last full
  sync (none if it never had one), the time of its last stamp of either kind, and the last status:
  a partial sync never erases the time of the full one, and layers do not mix.
\<close>

theorem freshness_report_is_last_stamps:
  "case read_freshness_meta (stamp_all stamps None) of
     Inl _ \<Rightarrow> False
   | Inr report \<Rightarrow> (\<forall>layer. map_of report layer = freshness_of (stamps_of stamps layer))"
proof (cases "stamp_all stamps None")
  case None
  then have "stamps = []" by (cases stamps rule: rev_cases) (auto simp: stamp_all_def)
  with None show ?thesis by (simp add: read_freshness_meta_def stamps_of_def freshness_of_def)
next
  case (Some db)
  then obtain st stamps' where "stamps = stamps' @ [st]"
    by (cases stamps rule: rev_cases) (auto simp: stamp_all_def)
  with Some have "\<exists>t. db_freshness db = Some t"
    by (cases st) (auto simp: stamp_all_snoc update_freshness_def Let_def)
  with freshness_table [OF Some] Some show ?thesis
    by (auto simp: read_freshness_meta_def select_def)
qed

text \<open>
  Where the code and its documentation part: a value that is a string is stored as it is, not
  encoded. When its text is not JSON, every reader that meets the row raises.
\<close>

lemma raw_text_breaks_readers:
  assumes "loads text = Inl ValueError"
  shows "read_hot_snapshot loads now (Some (fst (upsert_realtime dumps None
      [\<lparr>bi_ts_code = ts, bi_dp_id = dp, bi_value = PStr text, bi_data_status = st,
        bi_confidence = c, bi_source = src, bi_updated_at = t\<rparr>]))) ts incl = Inl ValueError"
  using assms
  by (simp add: upsert_realtime_def batch_row_def put_all_def init_db_def empty_db_def Let_def
      read_hot_snapshot_def select_def lookup_codes_def hot_step_def)

end
