(* ===== verification/Fingerprint.thy ===== *)
theory Fingerprint
  imports Storage
begin

text \<open>
  \<open>mvp20/fingerprint.py\<close>: the fingerprint of the rows that an LLM-filled node was derived from,
  and the decision to refill the node when it has changed. SHA-256 (the hexadecimal digest of a
  text), \<open>json.loads\<close> and the canonical \<open>json.dumps\<close> are arguments: every theorem holds for
  all of them, and none rests on the hash being free of collisions.
\<close>

section \<open>The text that is hashed\<close>

definition filing_source_dp_ids :: "string list" where
  "filing_source_dp_ids =
    [''L5.is.revenue'', ''L5.is.gross_profit'', ''L5.is.net_profit'', ''L5.is.operating_profit'',
     ''L5.is.eps'', ''L5.is.margins'', ''L5.is.revenue_growth'', ''L5.is.gross_margin'',
     ''L5.is.sga_rd'', ''L5.bs.cash_debt'', ''L5.bs.inventory'', ''L5.bs.ar_ap'',
     ''L5.bs.goodwill_ppe'', ''L5.bs.leverage'', ''L5.cf.ocf'', ''L5.cf.fcf'', ''L5.cf.capex'',
     ''L5.cf.icf_fcf'', ''L5.fina.eps'', ''L5.fina.roe'', ''L5.fina.roa'',
     ''L1.company.main_business'', ''L9.disclosure.qa_recent'', ''L8.gov.management_table'']"

definition normalize_value :: "(string \<Rightarrow> pyval res) \<Rightarrow> (pyval \<Rightarrow> string) \<Rightarrow> string \<Rightarrow> string" where
  "normalize_value loads canonical value_json =
     (if value_json = [] then []
      else case loads value_json of Inl _ \<Rightarrow> value_json | Inr v \<Rightarrow> canonical v)"

fun join_bar :: "string list \<Rightarrow> string" where
  "join_bar [] = []"
| "join_bar [s] = s"
| "join_bar (s # t # ss) = s @ ''|'' @ join_bar (t # ss)"

text \<open>\<open>str(v.get(k, ""))\<close>.\<close>

definition get_text :: "pydict \<Rightarrow> string \<Rightarrow> string" where
  "get_text d k = (case map_of d k of None \<Rightarrow> [] | Some v \<Rightarrow> py_str v)"

definition filing_extras :: "pydict \<Rightarrow> string" where
  "filing_extras d =
     join_bar [get_text d ''period'', get_text d ''end_date'', get_text d ''ann_date'',
               get_text d ''latest_period'']"

definition row_payload :: "(string \<Rightarrow> pyval res) \<Rightarrow> (pyval \<Rightarrow> string) \<Rightarrow> string \<Rightarrow> rt_row \<Rightarrow> string" where
  "row_payload loads canonical dp row =
     (let payload = join_bar [dp, rv_source row, int_str (rv_updated_at row),
                              normalize_value loads canonical (rv_value_json row)] in
      if dp \<in> set filing_source_dp_ids then
        (case loads (if rv_value_json row = [] then ''{}'' else rv_value_json row) of
           Inr (PDict d) \<Rightarrow> payload @ ''|filing:'' @ filing_extras d
         | _ \<Rightarrow> payload)
      else payload)"

definition row_fingerprint :: "(string \<Rightarrow> string) \<Rightarrow> (string \<Rightarrow> pyval res) \<Rightarrow> (pyval \<Rightarrow> string) \<Rightarrow>
    string \<Rightarrow> rt_row \<Rightarrow> string" where
  "row_fingerprint sha loads canonical dp row = take 16 (sha (row_payload loads canonical dp row))"

section \<open>The fingerprint of a list of dependencies\<close>

definition candidate_ts_codes :: "string \<Rightarrow> string list" where
  "candidate_ts_codes ts_code =
     (if py_endswith ts_code ''.SH'' \<or> py_endswith ts_code ''.SZ'' \<or> py_endswith ts_code ''.BJ''
      then [ts_code, ''MARKET:CN'']
      else if py_endswith ts_code ''.HK'' then [ts_code, ''MARKET:HK'']
      else if py_endswith ts_code ''.US'' then [ts_code, ''MARKET:US'']
      else [ts_code])"

definition dependency_rows :: "string list \<Rightarrow> string list \<Rightarrow> rt_table \<Rightarrow> rt_table" where
  "dependency_rows candidates dependencies table =
     filter (\<lambda>r. fst (fst r) \<in> set candidates \<and> snd (fst r) \<in> set dependencies) table"

definition best_step :: "string list \<Rightarrow> (string \<times> string) \<times> rt_row \<Rightarrow>
    (string \<times> (nat \<times> rt_row)) list \<Rightarrow> (string \<times> (nat \<times> rt_row)) list" where
  "best_step candidates r best =
     (let ((ts, dp), row) = r; p = code_priority candidates ts;
          better = (case map_of best dp of None \<Rightarrow> True | Some (q, _) \<Rightarrow> q > p)
      in if better then dput dp (p, row) best else best)"

definition sub_hashes :: "(string \<Rightarrow> string) \<Rightarrow> (string \<Rightarrow> pyval res) \<Rightarrow> (pyval \<Rightarrow> string) \<Rightarrow>
    (string \<times> (nat \<times> rt_row)) list \<Rightarrow> string list" where
  "sub_hashes sha loads canonical best =
     concat (map (\<lambda>dp. case map_of best dp of
                         None \<Rightarrow> []
                       | Some (_, row) \<Rightarrow> [row_fingerprint sha loads canonical dp row])
               (sort (map fst best)))"

definition compute_dependency_fingerprint :: "(string \<Rightarrow> string) \<Rightarrow> (string \<Rightarrow> pyval res) \<Rightarrow>
    (pyval \<Rightarrow> string) \<Rightarrow> string \<Rightarrow> string list \<Rightarrow> database option \<Rightarrow> string option res" where
  "compute_dependency_fingerprint sha loads canonical ts_code dependencies disk =
     (if dependencies = [] then Inr None
      else case disk of
        None \<Rightarrow> Inr None
      | Some db \<Rightarrow>
          (let candidates = candidate_ts_codes ts_code in
           res_map (\<lambda>table.
             (let rows = dependency_rows candidates dependencies table;
                  best = fold (best_step candidates) rows []
              in if rows = [] then None
                 else if best = [] then None
                 else Some (take 16 (sha (join_bar (sub_hashes sha loads canonical best))))))
           (select (db_realtime db))))"

section \<open>The decision to refill\<close>

text \<open>
  The elements of a list of dependencies become parameters of the query; one that is not a
  string is not the id of a row.
\<close>

definition names_of :: "pyval list \<Rightarrow> string list" where
  "names_of vs = concat (map (\<lambda>v. case v of PStr s \<Rightarrow> [s] | _ \<Rightarrow> []) vs)"

definition is_refresh_triggered :: "(string \<Rightarrow> string) \<Rightarrow> (string \<Rightarrow> pyval res) \<Rightarrow> (pyval \<Rightarrow> string) \<Rightarrow>
    pydict \<Rightarrow> pydict \<Rightarrow> database option \<Rightarrow> string \<Rightarrow> (bool \<times> string) res" where
  "is_refresh_triggered sha loads canonical node governance disk ts_code =
     (let trigger = (if dhas governance ''refresh_trigger'' then dget governance ''refresh_trigger''
                     else PStr ''static_picture'');
          stored_fp = dget node ''source_fingerprint_at_fill'';
          deps = dget governance ''source_dependencies''
      in if trigger = PStr ''static_picture'' then Inr (False, ''static_picture'')
         else if trigger = PStr ''explicit_refresh'' then Inr (False, ''explicit_refresh_only'')
         else if \<not> truthy deps then Inr (False, ''no_source_dependencies'')
         else
           res_bind (py_iter deps) (\<lambda>vs.
           res_map (\<lambda>current_fp.
             (case current_fp of
                None \<Rightarrow> (False, ''no_source_data'')
              | Some fp \<Rightarrow>
                  if stored_fp = PNone then (True, ''fingerprint_baseline_missing'')
                  else if PStr fp \<noteq> stored_fp then (True, ''source_changed_'' @ py_str trigger)
                  else (False, ''fingerprint_unchanged'')))
             (compute_dependency_fingerprint sha loads canonical ts_code (names_of vs) disk)))"

section \<open>What the fingerprint is\<close>

interpretation fp: coded_rows candidates snd "best_step candidates" for candidates
  by unfold_locales (auto simp: best_step_def Let_def split: option.splits)

text \<open>The row that stands for a dependency, and the dependencies that have one, in order.\<close>

definition dep_row :: "rt_table \<Rightarrow> string list \<Rightarrow> string \<Rightarrow> rt_row option" where
  "dep_row table candidates dp = map_option snd (first_row table dp candidates)"

definition present :: "rt_table \<Rightarrow> string list \<Rightarrow> string list \<Rightarrow> string list" where
  "present table candidates dependencies =
     sort (remdups (filter (\<lambda>dp. dep_row table candidates dp \<noteq> None) dependencies))"

definition fingerprint_of :: "(string \<Rightarrow> string) \<Rightarrow> (string \<Rightarrow> pyval res) \<Rightarrow> (pyval \<Rightarrow> string) \<Rightarrow>
    rt_table \<Rightarrow> string list \<Rightarrow> string list \<Rightarrow> string option" where
  "fingerprint_of sha loads canonical table candidates dependencies =
     (let dps = present table candidates dependencies in
      if dps = [] then None
      else Some (take 16 (sha (join_bar (map (\<lambda>dp. row_fingerprint sha loads canonical dp
             (the (dep_row table candidates dp))) dps)))))"

lemma distinct_candidates: "\<not> is_sentinel ts_code \<Longrightarrow> distinct (candidate_ts_codes ts_code)"
  by (auto simp: candidate_ts_codes_def is_sentinel_def)

lemma dependency_rows_scope:
  "dependency_rows candidates deps table = fp.scope candidates (\<lambda>dp. dp \<in> set deps) table"
  by (simp add: dependency_rows_def fp.scope_def)

lemma best_of_dependency:
  assumes "dict_wf table" and "distinct candidates" and "dp \<in> set deps"
  shows "map_option snd (map_of (fold (best_step candidates) (dependency_rows candidates deps table) []) dp)
     = dep_row table candidates dp"
  using fp.fold_first_row [OF assms(1,2), of "\<lambda>dp. dp \<in> set deps" dp] assms(3)
  by (cases "first_row table dp candidates") (auto simp: dependency_rows_scope dep_row_def)

lemma best_keys:
  assumes "dict_wf table" and "distinct candidates"
  shows "sort (map fst (fold (best_step candidates) (dependency_rows candidates deps table) []))
     = present table candidates deps" (is "sort (map fst ?best) = _")
proof -
  have wf: "dict_wf ?best" by (rule fp.wf_fold) simp
  have mem: "dp \<in> fst ` set ?best \<longleftrightarrow> dp \<in> set deps \<and> dep_row table candidates dp \<noteq> None" for dp
  proof (cases "dp \<in> set deps")
    case True
    have "dp \<in> fst ` set ?best \<longleftrightarrow> map_of ?best dp \<noteq> None"
      by (simp add: map_of_eq_None_iff)
    also have "\<dots> \<longleftrightarrow> map_option snd (map_of ?best dp) \<noteq> None" by simp
    finally show ?thesis using True best_of_dependency [OF assms True] by simp
  next
    case False
    then have "map_of ?best dp = None"
      unfolding dependency_rows_scope by (rule fp.fold_out_of_scope)
    with False show ?thesis by (simp add: map_of_eq_None_iff)
  qed
  show ?thesis
    using wf mem
    by (intro sorted_distinct_set_unique) (auto simp: dict_wf_def present_def)
qed

lemma sub_hashes_eq:
  assumes "dict_wf table" and "distinct candidates"
  shows "sub_hashes sha loads canonical
       (fold (best_step candidates) (dependency_rows candidates deps table) [])
     = map (\<lambda>dp. row_fingerprint sha loads canonical dp (the (dep_row table candidates dp)))
         (present table candidates deps)"
proof -
  let ?best = "fold (best_step candidates) (dependency_rows candidates deps table) []"
  have one: "(case map_of ?best dp of None \<Rightarrow> []
        | Some (_, row) \<Rightarrow> [row_fingerprint sha loads canonical dp row])
      = [row_fingerprint sha loads canonical dp (the (dep_row table candidates dp))]"
    if "dp \<in> set (present table candidates deps)" for dp
  proof -
    have "dp \<in> set deps" "dep_row table candidates dp \<noteq> None"
      using that by (auto simp: present_def)
    with best_of_dependency [OF assms this(1)] show ?thesis
      by (cases "map_of ?best dp") (auto split: prod.splits)
  qed
  have "concat (map f dps) = map g dps" if "\<forall>dp \<in> set dps. f dp = [g dp]" for f dps and g :: "string \<Rightarrow> string"
    using that by (induction dps) auto
  with one show ?thesis by (simp add: sub_hashes_def best_keys [OF assms])
qed

lemma fingerprint_eq:
  assumes "db_realtime db = Some table" and "dict_wf table" and "\<not> is_sentinel ts_code"
  shows "compute_dependency_fingerprint sha loads canonical ts_code deps (Some db) =
     Inr (fingerprint_of sha loads canonical table (candidate_ts_codes ts_code) deps)"
proof -
  let ?c = "candidate_ts_codes ts_code"
  let ?best = "fold (best_step ?c) (dependency_rows ?c deps table) []"
  note d = distinct_candidates [OF assms(3)]
  have "?best = [] \<longleftrightarrow> present table ?c deps = []"
    using best_keys [OF assms(2) d, of deps] by (metis length_0_conv length_map length_sort)
  moreover have "dependency_rows ?c deps table = [] \<longleftrightarrow> ?best = []"
    using fp.fold_keys [of ?c "dependency_rows ?c deps table" "[]"] by auto
  moreover have "deps = [] \<Longrightarrow> present table ?c deps = []" by (simp add: present_def)
  ultimately show ?thesis
    by (simp add: compute_dependency_fingerprint_def select_def assms(1) fingerprint_of_def Let_def
        sub_hashes_eq [OF assms(2) d])
qed

text \<open>It depends on the rows of the dependencies only, and not on the order of the dependencies.\<close>

lemma fingerprint_cong:
  assumes "\<forall>dp \<in> set deps. dep_row table c dp = dep_row table' c dp" and "set deps = set deps'"
  shows "fingerprint_of sha loads canonical table c deps = fingerprint_of sha loads canonical table' c deps'"
proof -
  have ps: "present table c deps = present table' c deps'"
    using assms by (intro sorted_distinct_set_unique) (auto simp: present_def)
  then have "\<forall>dp \<in> set (present table' c deps'). dep_row table c dp = dep_row table' c dp"
    using assms by (auto simp: present_def)
  then show ?thesis
    by (simp add: fingerprint_of_def ps Let_def cong: map_cong)
qed

lemma first_row_cong: "\<forall>c \<in> set codes. map_of table (c, dp) = map_of table' (c, dp) \<Longrightarrow>
    first_row table dp codes = first_row table' dp codes"
  by (induction codes) (auto split: option.splits)

text \<open>
  C10: The fingerprint is the hash of the sub-hashes, in the order of the ids, of the rows that
  stand for the dependencies (the company's own row, else its market's), and None when none of
  them has a row. So the order of the rows and of the dependencies, and repetitions among them, do
  not matter.
\<close>

theorem fingerprint_is_hash_of_best_rows:
  assumes "stored dumps (Some db)" and "db_realtime db = Some table" and "\<not> is_sentinel ts_code"
  shows "compute_dependency_fingerprint sha loads canonical ts_code deps (Some db) =
     Inr (fingerprint_of sha loads canonical table (candidate_ts_codes ts_code) deps)"
  using fingerprint_eq [OF assms(2) stored_table [OF assms(1,2)] assms(3)] .

theorem fingerprint_is_hash_of_best_rows_witness:
  "compute_dependency_fingerprint (\<lambda>s. s) (\<lambda>_. Inl ValueError) (\<lambda>_. []) ''A.SZ'' [''rev'', ''cpi'', ''gdp'']
      (Some ex_db) = Inr (Some ''cpi|tushare|5|1|'')"
proof -
  have five: "int_str 5 = ''5''" by code_simp
  have codes: "candidate_ts_codes ''A.SZ'' = [''A.SZ'', ''MARKET:CN'']"
    by (simp add: candidate_ts_codes_def str_eval)
  have rows: "dep_row ex_table (candidate_ts_codes ''A.SZ'') ''rev'' = Some (snd (ex_table ! 3))"
    "dep_row ex_table (candidate_ts_codes ''A.SZ'') ''cpi'' = Some (snd (ex_table ! 0))"
    "dep_row ex_table (candidate_ts_codes ''A.SZ'') ''gdp'' = None"
    by (simp_all add: codes dep_row_def ex_table_def)
  have "present ex_table (candidate_ts_codes ''A.SZ'') [''rev'', ''cpi'', ''gdp''] = [''cpi'', ''rev'']"
    by (simp add: present_def rows)
  then have fp: "fingerprint_of (\<lambda>s. s) (\<lambda>_. Inl ValueError) (\<lambda>_. []) ex_table (candidate_ts_codes ''A.SZ'')
      [''rev'', ''cpi'', ''gdp''] = Some (take 16 (join_bar
        [row_fingerprint (\<lambda>s. s) (\<lambda>_. Inl ValueError) (\<lambda>_. []) ''cpi'' (snd (ex_table ! 0)),
         row_fingerprint (\<lambda>s. s) (\<lambda>_. Inl ValueError) (\<lambda>_. []) ''rev'' (snd (ex_table ! 3))]))"
    by (simp add: fingerprint_of_def rows)
  have "row_fingerprint (\<lambda>s. s) (\<lambda>_. Inl ValueError) (\<lambda>_. []) ''cpi'' (snd (ex_table ! 0)) = ''cpi|tushare|5|1''"
    by (simp add: row_fingerprint_def row_payload_def normalize_value_def filing_source_dp_ids_def
        ex_table_def five)
  then have "fingerprint_of (\<lambda>s. s) (\<lambda>_. Inl ValueError) (\<lambda>_. []) ex_table (candidate_ts_codes ''A.SZ'')
      [''rev'', ''cpi'', ''gdp''] = Some ''cpi|tushare|5|1|''"
    by (simp add: fp)
  with fingerprint_is_hash_of_best_rows [OF stored_ex_db ex_db_tables(2), of "''A.SZ''" "\<lambda>s. s"
      "\<lambda>_. Inl ValueError" "\<lambda>_. []" "[''rev'', ''cpi'', ''gdp'']"]
  show ?thesis by (simp add: is_sentinel_def)
qed

lemma fingerprint_after_upsert:
  assumes st: "stored dumps (Some db)" and ts: "\<not> is_sentinel ts_code"
    and db: "db_realtime db = Some table" and up: "upsert_realtime dumps (Some db) batch = (db', r)"
    and other: "\<forall>b \<in> set batch. bi_ts_code b \<notin> set (candidate_ts_codes ts_code) \<or> bi_dp_id b \<notin> set deps"
  shows "compute_dependency_fingerprint sha loads canonical ts_code deps (Some db') =
         compute_dependency_fingerprint sha loads canonical ts_code deps (Some db)"
proof -
  have st': "stored dumps (Some db')"
    using stored.upserted [OF st, of batch] up by simp
  obtain table' where t': "db_realtime db' = Some table'"
    using up by (auto simp: upsert_realtime_def init_db_def Let_def split: sum.splits)
  have same: "map_of table' (c, dp) = map_of table (c, dp)"
    if "c \<in> set (candidate_ts_codes ts_code)" "dp \<in> set deps" for c dp
  proof -
    have "last_item batch c dp = None" using other that by (auto simp: last_item_None)
    from upsert_other_rows [OF st up this] show ?thesis
      by (simp add: t' init_db_def db Let_def)
  qed
  have "dep_row table' (candidate_ts_codes ts_code) dp = dep_row table (candidate_ts_codes ts_code) dp"
    if "dp \<in> set deps" for dp
    using first_row_cong [of "candidate_ts_codes ts_code" table' dp table] same that
    by (simp add: dep_row_def)
  then show ?thesis
    using fingerprint_cong [of deps table' "candidate_ts_codes ts_code" table deps]
    by (simp add: fingerprint_eq [OF t' stored_table [OF st' t'] ts] fingerprint_eq [OF db stored_table [OF st db] ts])
qed

lemma refresh_cong:
  assumes "\<And>deps. set deps \<subseteq> set (case py_iter (dget governance ''source_dependencies'') of Inl _ \<Rightarrow> [] | Inr vs \<Rightarrow> names_of vs) \<Longrightarrow>
      compute_dependency_fingerprint sha loads canonical ts_code deps disk' =
      compute_dependency_fingerprint sha loads canonical ts_code deps disk"
  shows "is_refresh_triggered sha loads canonical node governance disk' ts_code =
     is_refresh_triggered sha loads canonical node governance disk ts_code"
  using assms by (auto simp: is_refresh_triggered_def Let_def res_bind_def split: sum.splits)

text \<open>The dependencies that a governance entry declares.\<close>

definition declared :: "pydict \<Rightarrow> string list" where
  "declared governance =
     (case py_iter (dget governance ''source_dependencies'') of Inl _ \<Rightarrow> [] | Inr vs \<Rightarrow> names_of vs)"

text \<open>
  A write to rows that are not a declared dependency of the node, or that belong neither to the
  company nor to its market, changes no decision to refill the node.
\<close>

theorem unrelated_writes_keep_decision:
  assumes "stored dumps (Some db)" and "db_realtime db = Some table" and "\<not> is_sentinel ts_code"
    and "upsert_realtime dumps (Some db) batch = (db', r)"
    and "\<forall>b \<in> set batch. bi_ts_code b \<notin> set (candidate_ts_codes ts_code) \<or>
           bi_dp_id b \<notin> set (declared governance)"
  shows "is_refresh_triggered sha loads canonical node governance (Some db') ts_code =
     is_refresh_triggered sha loads canonical node governance (Some db) ts_code"
proof (rule refresh_cong)
  fix deps
  assume "set deps \<subseteq> set (case py_iter (dget governance ''source_dependencies'') of
      Inl _ \<Rightarrow> [] | Inr vs \<Rightarrow> names_of vs)"
  with assms(5) have "\<forall>b \<in> set batch. bi_ts_code b \<notin> set (candidate_ts_codes ts_code) \<or>
      bi_dp_id b \<notin> set deps"
    by (auto simp: declared_def)
  from fingerprint_after_upsert [OF assms(1,3,2,4) this]
  show "compute_dependency_fingerprint sha loads canonical ts_code deps (Some db') =
      compute_dependency_fingerprint sha loads canonical ts_code deps (Some db)" .
qed

definition ex_governance :: pydict where
  "ex_governance = [(''refresh_trigger'', PStr ''event_driven''),
     (''source_dependencies'', PList [PStr ''rev'', PStr ''pmi''])]"

theorem unrelated_writes_keep_decision_witness:
  "is_refresh_triggered (\<lambda>s. s) (\<lambda>_. Inl ValueError) (\<lambda>_. []) [] ex_governance
       (Some (fst (upsert_realtime (\<lambda>_. Inr ''0'') (Some ex_db)
          [ex_item ''A.SZ'' ''cpi'' ''8'' 8, ex_item ''INDUSTRY:ev'' ''pmi'' ''9'' 9]))) ''A.SZ'' =
     is_refresh_triggered (\<lambda>s. s) (\<lambda>_. Inl ValueError) (\<lambda>_. []) [] ex_governance (Some ex_db) ''A.SZ''"
proof -
  obtain db' r where up: "upsert_realtime (\<lambda>_. Inr ''0'') (Some ex_db)
      [ex_item ''A.SZ'' ''cpi'' ''8'' 8, ex_item ''INDUSTRY:ev'' ''pmi'' ''9'' 9] = (db', r)"
    by (cases "upsert_realtime (\<lambda>_. Inr ''0'') (Some ex_db)
      [ex_item ''A.SZ'' ''cpi'' ''8'' 8, ex_item ''INDUSTRY:ev'' ''pmi'' ''9'' 9]")
  have "candidate_ts_codes ''A.SZ'' = [''A.SZ'', ''MARKET:CN'']"
    by (simp add: candidate_ts_codes_def str_eval)
  then show ?thesis
    unfolding up fst_conv
    by (intro unrelated_writes_keep_decision [OF stored_ex_db ex_db_tables(2) _ up])
      (simp_all add: is_sentinel_def ex_item_def declared_def ex_governance_def names_of_def)
qed

text \<open>
  A refill settles: once the node carries the current fingerprint, the decision is negative
  until a declared dependency of the company or of its market is written, whatever trigger the
  entry names. A trigger that is neither static nor explicit fires exactly when there is a current
  fingerprint and the node carries none or another one.
\<close>

theorem refill_settles:
  assumes "compute_dependency_fingerprint sha loads canonical ts_code (declared governance) disk = Inr (Some fp)"
    and "dget governance ''source_dependencies'' = PList vs"
    and "dget governance ''refresh_trigger'' = PStr trigger"
    and "trigger \<notin> {''static_picture'', ''explicit_refresh''}"
  shows "is_refresh_triggered sha loads canonical (dput ''source_fingerprint_at_fill'' (PStr fp) node)
      governance disk ts_code = Inr (False, ''fingerprint_unchanged'')
    \<and> (\<exists>reason. is_refresh_triggered sha loads canonical node governance disk ts_code =
         Inr (dget node ''source_fingerprint_at_fill'' \<noteq> PStr fp, reason))"
proof -
  have "declared governance \<noteq> []"
    using assms(1) by (auto simp: compute_dependency_fingerprint_def)
  then have "vs \<noteq> []" by (auto simp: declared_def assms(2) names_of_def)
  moreover have "dhas governance ''refresh_trigger''"
    using assms(3) by (auto simp: dhas_def dget_def split: option.splits)
  ultimately show ?thesis
    using assms by (auto simp: is_refresh_triggered_def Let_def dget_dput declared_def)
qed

theorem refill_settles_witness:
  "is_refresh_triggered (\<lambda>s. s) (\<lambda>_. Inl ValueError) (\<lambda>_. [])
      [(''source_fingerprint_at_fill'', PStr ''old'')] ex_governance (Some ex_db) ''A.SZ''
     \<noteq> Inr (False, ''fingerprint_unchanged'')"
proof -
  have codes: "candidate_ts_codes ''A.SZ'' = [''A.SZ'', ''MARKET:CN'']"
    by (simp add: candidate_ts_codes_def str_eval)
  have decl: "declared ex_governance = [''rev'', ''pmi'']"
    by (simp add: declared_def ex_governance_def names_of_def)
  have rows: "dep_row ex_table [''A.SZ'', ''MARKET:CN''] ''rev'' = Some (snd (ex_table ! 3))"
    "dep_row ex_table [''A.SZ'', ''MARKET:CN''] ''pmi'' = Some (snd (ex_table ! 1))"
    by (simp_all add: dep_row_def ex_table_def)
  have ps: "present ex_table [''A.SZ'', ''MARKET:CN''] [''rev'', ''pmi''] = [''pmi'', ''rev'']"
    by (simp add: present_def rows)
  let ?fp = "take 16 (join_bar
      [row_fingerprint (\<lambda>s. s) (\<lambda>_. Inl ValueError) (\<lambda>_. []) ''pmi'' (snd (ex_table ! 1)),
       row_fingerprint (\<lambda>s. s) (\<lambda>_. Inl ValueError) (\<lambda>_. []) ''rev'' (snd (ex_table ! 3))])"
  have fp: "compute_dependency_fingerprint (\<lambda>s. s) (\<lambda>_. Inl ValueError) (\<lambda>_. []) ''A.SZ''
      (declared ex_governance) (Some ex_db) = Inr (Some ?fp)"
    using fingerprint_eq [OF ex_db_tables(2) stored_table [OF stored_ex_db ex_db_tables(2)], of "''A.SZ''"]
    by (simp add: is_sentinel_def codes decl fingerprint_of_def ps rows)
  have "hd ?fp = CHR ''p''"
    by (simp add: row_fingerprint_def row_payload_def filing_source_dp_ids_def)
  then have "?fp \<noteq> ''old''" by auto
  with refill_settles [OF fp, of "[PStr ''rev'', PStr ''pmi'']" "''event_driven''"
      "[(''source_fingerprint_at_fill'', PStr ''old'')]"]
  show ?thesis by (auto simp: ex_governance_def)
qed

text \<open>
  Where the code and its documentation part: the candidates leave out the industries that
  \<open>read_hot_snapshot\<close> merges, so a change of an industry row that the snapshot shows for a
  dependency never triggers a refill.
\<close>

lemma industry_change_never_refreshes:
  assumes "stored dumps (Some db)" and "db_realtime db = Some table" and "\<not> is_sentinel ts_code"
    and "upsert_realtime dumps (Some db) batch = (db', r)"
    and "\<forall>b \<in> set batch. prefix ''INDUSTRY:'' (bi_ts_code b)"
  shows "compute_dependency_fingerprint sha loads canonical ts_code deps (Some db') =
     compute_dependency_fingerprint sha loads canonical ts_code deps (Some db)"
proof -
  have "\<not> prefix ''INDUSTRY:'' c" if "c \<in> set (candidate_ts_codes ts_code)" for c
    using that assms(3) by (auto simp: candidate_ts_codes_def is_sentinel_def split: if_splits)
  with assms(5) have "\<forall>b \<in> set batch. bi_ts_code b \<notin> set (candidate_ts_codes ts_code) \<or> bi_dp_id b \<notin> set deps"
    by blast
  with fingerprint_after_upsert [OF assms(1,3,2,4)] show ?thesis by blast
qed

end
