(* ===== verification/Stream.thy ===== *)
theory Stream
  imports Storage
begin

text \<open>
  \<open>mvp20/sse.py\<close>: the server-sent event stream of one company. \<open>stream_realtime_delta\<close> is a
  step relation: its own steps are the code between two reads of the clock, and between them the
  collector writes to the database and the clock moves. A write to the socket takes the outcome
  \<open>ok\<close> as an argument, so every step exists with a client that is there and with one that has
  gone.
\<close>

section \<open>Events and their frames\<close>

datatype sse_event =
    Snapshot "(string \<times> hot_entry) list"
  | Delta "(string \<times> delta_entry) list" int
  | Heartbeat int
  | Close

definition newline :: string where
  "newline = [char_of (10 :: nat)]"

definition write_event :: "(pyval \<Rightarrow> string) \<Rightarrow> pyval \<Rightarrow> string option \<Rightarrow> string" where
  "write_event dumps data event =
     (case event of None \<Rightarrow> [] | Some e \<Rightarrow> ''event: '' @ e @ newline) @
     ''data: '' @ dumps data @ newline @ newline"

definition write_retry_hint :: "int \<Rightarrow> string" where
  "write_retry_hint retry_ms = ''retry: '' @ int_str retry_ms @ newline @ newline"

definition conf_value :: "real option \<Rightarrow> pyval" where
  "conf_value c = (case c of None \<Rightarrow> PNone | Some x \<Rightarrow> PFloat x)"

definition hot_dict :: "hot_entry \<Rightarrow> pyval" where
  "hot_dict e = PDict
     [(''value'', he_value e), (''data_status'', PStr (he_data_status e)),
      (''confidence'', conf_value (he_confidence e)), (''source'', PStr (he_source e)),
      (''updated_at'', PInt (he_updated_at e)), (''age_seconds'', PInt (he_age_seconds e)),
      (''_origin_ts_code'', PStr (he_origin e))]"

definition delta_dict :: "delta_entry \<Rightarrow> pyval" where
  "delta_dict e = PDict
     [(''value'', de_value e), (''data_status'', PStr (de_data_status e)),
      (''confidence'', conf_value (de_confidence e)), (''source'', PStr (de_source e)),
      (''updated_at'', PInt (de_updated_at e)), (''age_seconds'', PInt (de_age_seconds e))]"

fun event_data :: "string \<Rightarrow> pyval \<Rightarrow> sse_event \<Rightarrow> pyval" where
  "event_data ts ind (Snapshot vs) = PDict
     [(''ts_code'', PStr ts), (''industry_id'', ind), (''kind'', PStr ''snapshot''),
      (''values'', PDict (map (\<lambda>(k, e). (k, hot_dict e)) vs))]"
| "event_data ts ind (Delta vs now) = PDict
     [(''ts_code'', PStr ts), (''industry_id'', ind), (''kind'', PStr ''delta''),
      (''values'', PDict (map (\<lambda>(k, e). (k, delta_dict e)) vs)), (''at'', PInt now)]"
| "event_data ts ind (Heartbeat now) = PDict
     [(''ts_code'', PStr ts), (''industry_id'', ind), (''kind'', PStr ''heartbeat''), (''at'', PInt now)]"
| "event_data ts ind Close = PDict
     [(''ts_code'', PStr ts), (''industry_id'', ind), (''kind'', PStr ''close''),
      (''reason'', PStr ''max_duration_reached'')]"

section \<open>The stream and its surroundings\<close>

text \<open>
  \<open>Reading now\<close> is the point after the sleep where the clock has been read and the database has
  not.
\<close>

datatype phase = Opening | Greeted | Looping | Sleeping real | Reading int | Closed

record stream =
  disk :: "database option"
  clock :: real
  phase_of :: phase
  last_check :: int
  started_at :: real
  last_event_at :: real
  sent :: "sse_event list"

record stream_config =
  poll_interval :: real
  max_duration :: real
  heartbeat_interval :: real

definition default_config :: stream_config where
  "default_config = \<lparr>poll_interval = 5, max_duration = 30 * 60, heartbeat_interval = 30\<rparr>"

definition now_of :: "stream \<Rightarrow> int" where
  "now_of s = \<lfloor>clock s\<rfloor>"

text \<open>An event that reaches the client is sent, and the stream goes on; otherwise it returns.\<close>

definition emit :: "bool \<Rightarrow> sse_event \<Rightarrow> phase \<Rightarrow> stream \<Rightarrow> stream" where
  "emit ok ev next s =
     (if ok then s\<lparr>sent := sent s @ [ev], phase_of := next\<rparr> else s\<lparr>phase_of := Closed\<rparr>)"

definition send_snapshot :: "(string \<Rightarrow> pyval res) \<Rightarrow> string \<Rightarrow> bool \<Rightarrow> stream \<Rightarrow> stream" where
  "send_snapshot loads ts ok s =
     (case read_hot_snapshot loads (now_of s) (disk s) ts True of
        Inl _ \<Rightarrow> s\<lparr>phase_of := Closed\<rparr>
      | Inr initial \<Rightarrow> emit ok (Snapshot initial) Greeted s)"

text \<open>The three reads of the clock before the loop.\<close>

definition begin_loop :: "real \<Rightarrow> real \<Rightarrow> real \<Rightarrow> stream \<Rightarrow> stream" where
  "begin_loop t1 t2 t3 s =
     s\<lparr>clock := t3, started_at := t1, last_check := \<lfloor>t2\<rfloor>, last_event_at := t3, phase_of := Looping\<rparr>"

definition check_duration :: "stream_config \<Rightarrow> bool \<Rightarrow> stream \<Rightarrow> stream" where
  "check_duration cfg ok s =
     (if clock s - started_at s > max_duration cfg then emit ok Close Closed s
      else s\<lparr>phase_of := Sleeping (clock s + poll_interval cfg)\<rparr>)"

definition send_delta :: "(string \<Rightarrow> pyval res) \<Rightarrow> stream_config \<Rightarrow> string \<Rightarrow> int \<Rightarrow> bool \<Rightarrow> stream \<Rightarrow> stream" where
  "send_delta loads cfg ts now ok s =
     (case read_hot_snapshot_changed_since loads (now_of s) (disk s) ts (last_check s) of
        Inl _ \<Rightarrow> s\<lparr>phase_of := Closed\<rparr>
      | Inr delta \<Rightarrow>
          (let s = s\<lparr>last_check := now\<rparr> in
           if delta \<noteq> [] then emit ok (Delta delta now) Looping (s\<lparr>last_event_at := clock s\<rparr>)
           else if clock s - last_event_at s > heartbeat_interval cfg
           then emit ok (Heartbeat now) Looping (s\<lparr>last_event_at := clock s\<rparr>)
           else s\<lparr>phase_of := Looping\<rparr>))"

definition collect :: "(pyval \<Rightarrow> string res) \<Rightarrow> batch_item list \<Rightarrow> stream \<Rightarrow> stream" where
  "collect dumps batch s = s\<lparr>disk := Some (fst (upsert_realtime dumps (disk s) batch))\<rparr>"

text \<open>
  The steps of the stream and of its surroundings; \<open>may_write\<close> says which batches the collector
  writes in which states.
\<close>

inductive stream_step :: "(string \<Rightarrow> pyval res) \<Rightarrow> (pyval \<Rightarrow> string res) \<Rightarrow> stream_config \<Rightarrow> string \<Rightarrow>
    (stream \<Rightarrow> batch_item list \<Rightarrow> bool) \<Rightarrow> stream \<Rightarrow> stream \<Rightarrow> bool"
  for loads dumps cfg ts may_write where
  greet: "phase_of s = Opening \<Longrightarrow>
    stream_step loads dumps cfg ts may_write s (send_snapshot loads ts ok s)"
| arm: "phase_of s = Greeted \<Longrightarrow> clock s \<le> t1 \<Longrightarrow> t1 \<le> t2 \<Longrightarrow> t2 \<le> t3 \<Longrightarrow>
    stream_step loads dumps cfg ts may_write s (begin_loop t1 t2 t3 s)"
| loop: "phase_of s = Looping \<Longrightarrow>
    stream_step loads dumps cfg ts may_write s (check_duration cfg ok s)"
| wake: "phase_of s = Sleeping t \<Longrightarrow> t \<le> clock s \<Longrightarrow>
    stream_step loads dumps cfg ts may_write s (s\<lparr>phase_of := Reading (now_of s)\<rparr>)"
| poll: "phase_of s = Reading now \<Longrightarrow>
    stream_step loads dumps cfg ts may_write s (send_delta loads cfg ts now ok s)"
| tick: "clock s \<le> t \<Longrightarrow> stream_step loads dumps cfg ts may_write s (s\<lparr>clock := t\<rparr>)"
| wrote: "may_write s batch \<Longrightarrow> stream_step loads dumps cfg ts may_write s (collect dumps batch s)"

inductive stream_run :: "(string \<Rightarrow> pyval res) \<Rightarrow> (pyval \<Rightarrow> string res) \<Rightarrow> stream_config \<Rightarrow> string \<Rightarrow>
    (stream \<Rightarrow> batch_item list \<Rightarrow> bool) \<Rightarrow> stream \<Rightarrow> stream \<Rightarrow> bool"
  for loads dumps cfg ts may_write where
  here: "stream_run loads dumps cfg ts may_write s s"
| step: "stream_run loads dumps cfg ts may_write s s' \<Longrightarrow> stream_step loads dumps cfg ts may_write s' s'' \<Longrightarrow>
    stream_run loads dumps cfg ts may_write s s''"

text \<open>A stream that has just been asked for.\<close>

definition opened :: "(pyval \<Rightarrow> string res) \<Rightarrow> stream \<Rightarrow> bool" where
  "opened dumps s \<longleftrightarrow> stored dumps (disk s) \<and> phase_of s = Opening \<and> sent s = []"

section \<open>What the client sees\<close>

type_synonym seen = "pyval \<times> string \<times> real option \<times> string \<times> int"

definition seen_row :: "(string \<Rightarrow> pyval res) \<Rightarrow> rt_row \<Rightarrow> seen" where
  "seen_row loads row =
     (value_of loads row, rv_data_status row, rv_confidence row, rv_source row, rv_updated_at row)"

text \<open>A client shows the snapshot and lets every delta overwrite the data points it names.\<close>

fun show_event :: "sse_event \<Rightarrow> (string \<Rightarrow> seen option) \<Rightarrow> string \<Rightarrow> seen option" where
  "show_event (Snapshot vs) view dp = map_option (\<lambda>e. (he_value e, he_data_status e, he_confidence e,
     he_source e, he_updated_at e)) (map_of vs dp)"
| "show_event (Delta vs _) view dp = (case map_of vs dp of None \<Rightarrow> view dp
     | Some e \<Rightarrow> Some (de_value e, de_data_status e, de_confidence e, de_source e, de_updated_at e))"
| "show_event (Heartbeat _) view dp = view dp"
| "show_event Close view dp = view dp"

definition client :: "stream \<Rightarrow> string \<Rightarrow> seen option" where
  "client s = fold show_event (sent s) (\<lambda>_. None)"

definition own_row :: "string \<Rightarrow> stream \<Rightarrow> string \<Rightarrow> rt_row option" where
  "own_row ts s dp =
     (case disk s of None \<Rightarrow> None | Some db \<Rightarrow> map_of (rows_of (db_realtime db)) (ts, dp))"

lemma client_emit: "client (s\<lparr>sent := sent s @ [ev], phase_of := p\<rparr>) = show_event ev (client s)"
  by (simp add: client_def)

lemma client_cong: "sent s = sent s' \<Longrightarrow> client s = client s'"
  by (simp add: client_def)

section \<open>The readers on the rows of the company\<close>

lemma hot_step_Inr: "hot_step loads now codes r best = Inr b \<Longrightarrow> b = pure_hot_step loads now codes r best"
  by (auto simp: hot_step_def pure_hot_step_def Let_def value_of_def res_map_eq_Inr
      split: prod.splits option.splits if_splits)

lemma hot_fold_Inr: "res_fold (hot_step loads now codes) rows best = Inr b \<Longrightarrow>
    b = fold (pure_hot_step loads now codes) rows best"
  by (induction rows arbitrary: best) (auto simp: res_bind_eq_Inr dest: hot_step_Inr)

lemma snapshot_shows_own_rows:
  assumes "stored dumps (Some db)" and "\<not> is_sentinel ts"
    and "read_hot_snapshot loads now (Some db) ts incl = Inr snap"
    and "map_of (rows_of (db_realtime db)) (ts, dp) = Some row"
  shows "map_of snap dp = Some (hot_entry_of now ts (value_of loads row) row)"
proof -
  let ?codes = "lookup_codes db ts incl"
  obtain table where table: "db_realtime db = Some table"
    using assms(4) by (cases "db_realtime db") auto
  have "db_ok db" by (rule db_ok_stored [OF assms(1) refl])
  then have "dict_wf table" "distinct ?codes"
    using assms(2) table distinct_lookup_codes by (auto simp: db_ok_def)
  note view = fold_hot_view [OF this]
  obtain b where b: "res_fold (hot_step loads now ?codes) (visible ?codes table) [] = Inr b"
    "snap = map (\<lambda>p. (fst p, snd (snd p))) b"
    using assms(3) by (auto simp: read_hot_snapshot_def select_def table visible_def Let_def res_map_eq_Inr)
  have "first_row table dp ?codes = Some (ts, row)"
    using assms(4) by (simp add: table lookup_codes_def)
  then show ?thesis
    using view [of loads now dp] by (simp add: b(2) hot_fold_Inr [OF b(1)] map_of_map_snd hot_view_def)
qed

lemma delta_shows_new_rows:
  assumes "stored dumps (Some db)"
    and "read_hot_snapshot_changed_since loads now (Some db) ts since = Inr delta"
  shows "map_of delta dp = (case map_of (rows_of (db_realtime db)) (ts, dp) of None \<Rightarrow> None
     | Some row \<Rightarrow> if rv_updated_at row > since
                   then Some (delta_entry_of now (value_of loads row) row) else None)"
proof -
  obtain table where table: "db_realtime db = Some table"
    using assms(2) by (cases "db_realtime db") (auto simp: read_hot_snapshot_changed_since_def select_def)
  have wf: "dict_wf table" by (rule stored_table [OF assms(1) table])
  have "returns (res_list (\<lambda>r. res_map (\<lambda>v. (snd (fst r), delta_entry_of now v (snd r)))
                             (loads (rv_value_json (snd r)))) (changed_rows ts since table))"
    using assms(2) by (auto simp: read_hot_snapshot_changed_since_def select_def table returns_iff res_map_eq_Inr)
  then have "\<forall>r \<in> set (changed_rows ts since table). returns (loads (rv_value_json (snd r)))"
    by (simp add: res_list_returns)
  from changed_since_spec [OF table wf this, of now] assms(2) table show ?thesis by auto
qed

lemma own_row_disk [simp]: "own_row ts (s\<lparr>disk := Some db\<rparr>) dp = map_of (rows_of (db_realtime db)) (ts, dp)"
  by (simp add: own_row_def)

lemma init_own_row: "map_of (rows_of (db_realtime (init_db (disk s)))) (ts, dp) = own_row ts s dp"
  by (auto simp: own_row_def init_db_def empty_db_def Let_def split: option.splits)

lemma own_after_collect:
  assumes "stored dumps (disk s)" and "own_row ts (collect dumps batch s) dp = Some row"
  shows "(\<exists>b \<in> set batch. bi_ts_code b = ts \<and> bi_dp_id b = dp \<and> rv_updated_at row = bi_updated_at b)
     \<or> own_row ts s dp = Some row"
proof (cases "last_item batch ts dp")
  case None
  have "map_of (rows_of (db_realtime (init_db (disk s)))) (ts, dp) = own_row ts s dp"
    by (rule init_own_row)
  with upsert_other_rows [OF assms(1) prod.collapse [symmetric] None] assms(2)
  show ?thesis by (auto simp: own_row_def collect_def)
next
  case (Some b)
  then have "b \<in> set batch" "bi_ts_code b = ts" "bi_dp_id b = dp" using last_item_in by blast+
  moreover have "rv_updated_at row = bi_updated_at b \<or> own_row ts s dp = Some row"
  proof (cases "res_list (batch_row dumps) batch")
    case (Inl e)
    with assms(2) show ?thesis
      by (simp add: collect_def upsert_realtime_def Let_def init_own_row)
  next
    case (Inr rows)
    have wf: "dict_wf (rows_of (db_realtime (init_db (disk s))))"
      using db_ok_init [of "disk s"] db_ok_stored [OF assms(1)] by (auto simp: db_ok_def)
    have "\<exists>kr. batch_row dumps b = Inr kr"
      using \<open>b \<in> set batch\<close> Inr res_list_returns [of "batch_row dumps" batch] by (auto simp: returns_iff)
    then obtain k r where kr: "batch_row dumps b = Inr (k, r)" by auto
    have "own_row ts (collect dumps batch s) dp = Some r"
      by (simp add: own_row_def collect_def upsert_realtime_def Let_def Inr map_of_put_all [OF wf]
          map_of_rev_batch [OF Inr] Some kr)
    moreover have "rv_updated_at r = bi_updated_at b"
      using kr by (auto simp: batch_row_def res_map_eq_Inr)
    ultimately show ?thesis using assms(2) by simp
  qed
  ultimately show ?thesis by blast
qed

section \<open>The invariant of a run\<close>

text \<open>
  The collector writes in time: no row of the company between the snapshot and the first read of
  the clock, and afterwards only rows stamped later than the last poll.
\<close>

definition in_time :: "string \<Rightarrow> stream \<Rightarrow> batch_item list \<Rightarrow> bool" where
  "in_time ts s batch \<longleftrightarrow> phase_of s = Opening \<or>
     (\<forall>b \<in> set batch. bi_ts_code b = ts \<longrightarrow> phase_of s \<noteq> Greeted \<and> bi_updated_at b > last_check s)"

definition in_sync :: "(string \<Rightarrow> pyval res) \<Rightarrow> string \<Rightarrow> stream \<Rightarrow> bool" where
  "in_sync loads ts s \<longleftrightarrow>
     (\<forall>dp row. own_row ts s dp = Some row \<longrightarrow> client s dp = Some (seen_row loads row))"

text \<open>Every row of the company is on the screen or will be read by the next poll.\<close>

definition pending_or_shown :: "(string \<Rightarrow> pyval res) \<Rightarrow> string \<Rightarrow> stream \<Rightarrow> bool" where
  "pending_or_shown loads ts s \<longleftrightarrow> (\<forall>dp row. own_row ts s dp = Some row \<longrightarrow>
      client s dp = Some (seen_row loads row) \<or> rv_updated_at row > last_check s)"

definition stream_inv :: "(string \<Rightarrow> pyval res) \<Rightarrow> (pyval \<Rightarrow> string res) \<Rightarrow> string \<Rightarrow> stream \<Rightarrow> bool" where
  "stream_inv loads dumps ts s \<longleftrightarrow> stored dumps (disk s) \<and>
     (case phase_of s of
        Opening \<Rightarrow> True | Closed \<Rightarrow> True
      | Greeted \<Rightarrow> in_sync loads ts s
      | _ \<Rightarrow> pending_or_shown loads ts s)"

lemma own_row_cong: "disk s = disk s' \<Longrightarrow> own_row ts s = own_row ts s'"
  by (simp add: own_row_def fun_eq_iff)

lemma sync_pending: "in_sync loads ts s \<Longrightarrow> pending_or_shown loads ts s"
  by (auto simp: in_sync_def pending_or_shown_def)

lemma sync_cong: "disk s = disk s' \<Longrightarrow> sent s = sent s' \<Longrightarrow> in_sync loads ts s = in_sync loads ts s'"
  using own_row_cong [of s s' ts] client_cong [of s s'] by (simp add: in_sync_def)

lemma pending_cong: "disk s = disk s' \<Longrightarrow> sent s = sent s' \<Longrightarrow> last_check s = last_check s' \<Longrightarrow>
    pending_or_shown loads ts s = pending_or_shown loads ts s'"
  using own_row_cong [of s s' ts] client_cong [of s s'] by (simp add: pending_or_shown_def)

lemma snapshot_in_sync:
  assumes "stored dumps (disk s)" and "\<not> is_sentinel ts"
    and "phase_of (send_snapshot loads ts ok s) \<noteq> Closed"
  shows "phase_of (send_snapshot loads ts ok s) = Greeted \<and> in_sync loads ts (send_snapshot loads ts ok s)"
proof -
  obtain snap where snap: "read_hot_snapshot loads (now_of s) (disk s) ts True = Inr snap" and ok
    using assms(3) by (cases "read_hot_snapshot loads (now_of s) (disk s) ts True"; cases ok)
      (auto simp: send_snapshot_def emit_def)
  then have s': "send_snapshot loads ts ok s = s\<lparr>sent := sent s @ [Snapshot snap], phase_of := Greeted\<rparr>"
    by (simp add: send_snapshot_def emit_def)
  have "client (send_snapshot loads ts ok s) dp = Some (seen_row loads row)"
    if own: "own_row ts (send_snapshot loads ts ok s) dp = Some row" for dp row
  proof (cases "disk s")
    case None
    with own show ?thesis by (simp add: s' own_row_def)
  next
    case (Some db)
    then have "map_of snap dp = Some (hot_entry_of (now_of s) ts (value_of loads row) row)"
      using assms(1) snap own
      by (intro snapshot_shows_own_rows [OF _ assms(2)]) (simp_all add: s' own_row_def)
    then show ?thesis by (simp add: s' client_emit seen_row_def hot_entry_of_def)
  qed
  then show ?thesis by (simp add: in_sync_def s')
qed

lemma delta_in_sync:
  assumes st: "stored dumps (disk s)" and inv: "pending_or_shown loads ts s"
    and running: "phase_of (send_delta loads cfg ts now ok s) \<noteq> Closed"
  shows "phase_of (send_delta loads cfg ts now ok s) = Looping \<and>
    in_sync loads ts (send_delta loads cfg ts now ok s)"
proof -
  define s' where "s' = send_delta loads cfg ts now ok s"
  obtain delta where delta: "read_hot_snapshot_changed_since loads (now_of s) (disk s) ts (last_check s) = Inr delta"
    using running by (cases "read_hot_snapshot_changed_since loads (now_of s) (disk s) ts (last_check s)")
      (auto simp: send_delta_def)
  have s': "phase_of s' = Looping" "disk s' = disk s"
    "client s' = (if delta = [] then client s else show_event (Delta delta now) (client s))"
    using running delta
    by (auto simp: s'_def send_delta_def emit_def Let_def client_def split: if_splits)
  have "client s' dp = Some (seen_row loads row)" if own: "own_row ts s dp = Some row" for dp row
  proof (cases "disk s")
    case None
    with own show ?thesis by (simp add: own_row_def)
  next
    case (Some db)
    then have m: "map_of delta dp = (if rv_updated_at row > last_check s
        then Some (delta_entry_of (now_of s) (value_of loads row) row) else None)"
      using delta_shows_new_rows [of dumps db loads "now_of s" ts "last_check s" delta dp] st delta own
      by (simp add: own_row_def)
    show ?thesis
    proof (cases "rv_updated_at row > last_check s")
      case True
      with m show ?thesis by (auto simp: s'(3) seen_row_def delta_entry_of_def)
    next
      case False
      with inv own have "client s dp = Some (seen_row loads row)" by (auto simp: pending_or_shown_def)
      with m False show ?thesis by (simp add: s'(3))
    qed
  qed
  then show ?thesis
    using s'(1) own_row_cong [OF s'(2)] by (simp add: in_sync_def s'_def [symmetric])
qed

lemma collect_pending:
  assumes "stored dumps (disk s)" and "pending_or_shown loads ts s"
    and "\<forall>b \<in> set batch. bi_ts_code b = ts \<longrightarrow> bi_updated_at b > last_check s"
  shows "pending_or_shown loads ts (collect dumps batch s)"
proof -
  have "client (collect dumps batch s) = client s" "last_check (collect dumps batch s) = last_check s"
    by (simp_all add: collect_def client_def)
  then show ?thesis
    using own_after_collect [OF assms(1), of ts batch] assms(2,3)
    unfolding pending_or_shown_def by metis
qed

lemma collect_in_sync:
  assumes "stored dumps (disk s)" and "in_sync loads ts s" and "\<forall>b \<in> set batch. bi_ts_code b \<noteq> ts"
  shows "in_sync loads ts (collect dumps batch s)"
proof -
  have "client (collect dumps batch s) = client s" by (simp add: collect_def client_def)
  then show ?thesis
    using own_after_collect [OF assms(1), of ts batch] assms(2,3)
    unfolding in_sync_def by metis
qed

lemma stored_collect: "stored dumps (disk s) \<Longrightarrow> stored dumps (disk (collect dumps batch s))"
  by (simp add: collect_def stored.upserted)

lemma stream_step_inv:
  assumes "stream_step loads dumps cfg ts (in_time ts) s s'" and "\<not> is_sentinel ts"
    and inv: "stream_inv loads dumps ts s"
  shows "stream_inv loads dumps ts s'"
  using assms(1)
proof (cases rule: stream_step.cases)
  case (greet ok)
  have st: "stored dumps (disk s)" using inv by (simp add: stream_inv_def)
  moreover have "disk s' = disk s" by (auto simp: greet send_snapshot_def emit_def split: sum.splits)
  ultimately show ?thesis
    using snapshot_in_sync [OF st assms(2), of loads ok]
    by (cases "phase_of s' = Closed") (simp_all add: stream_inv_def greet)
next
  case (arm t1 t2 t3)
  then have "in_sync loads ts s'"
    using inv sync_cong [of s s' loads ts] by (simp add: stream_inv_def begin_loop_def)
  with arm inv show ?thesis by (simp add: stream_inv_def begin_loop_def sync_pending)
next
  case (loop ok)
  with inv pending_cong [of s s' loads ts] show ?thesis
    by (auto simp: stream_inv_def check_duration_def emit_def)
next
  case (wake t)
  with inv pending_cong [of s s' loads ts] show ?thesis by (simp add: stream_inv_def)
next
  case (poll now ok)
  have "disk s' = disk s"
    by (auto simp: poll send_delta_def emit_def Let_def split: sum.splits)
  moreover have "stored dumps (disk s)" "pending_or_shown loads ts s"
    using inv poll by (simp_all add: stream_inv_def)
  ultimately show ?thesis
    using delta_in_sync [of dumps s loads ts cfg now ok] sync_pending
    by (cases "phase_of s' = Closed") (simp_all add: stream_inv_def poll)
next
  case (tick t)
  then show ?thesis
    using inv pending_cong [of s s' loads ts] sync_cong [of s s' loads ts]
    by (auto simp: stream_inv_def split: phase.splits)
next
  case (wrote batch)
  have st: "stored dumps (disk s)" using inv by (simp add: stream_inv_def)
  have "phase_of s' = phase_of s" by (simp add: wrote collect_def)
  moreover have "stored dumps (disk s')" using wrote stored_collect [OF st] by simp
  ultimately show ?thesis
    using wrote inv collect_pending [OF st, of loads ts batch] collect_in_sync [OF st, of loads ts batch]
    by (auto simp: stream_inv_def in_time_def split: phase.splits)
qed

lemma stream_run_inv:
  "stream_run loads dumps cfg ts (in_time ts) s s' \<Longrightarrow> \<not> is_sentinel ts \<Longrightarrow>
   stream_inv loads dumps ts s \<Longrightarrow> stream_inv loads dumps ts s'"
  by (induction rule: stream_run.induct) (auto intro: stream_step_inv)

lemma opened_inv: "opened dumps s \<Longrightarrow> stream_inv loads dumps ts s"
  by (simp add: opened_def stream_inv_def)

section \<open>Properties\<close>


definition ex_open :: stream where
  "ex_open = \<lparr>disk = None, clock = 10, phase_of = Opening, last_check = 0, started_at = 0,
     last_event_at = 0, sent = []\<rparr>"

text \<open>A stream that has greeted at 10, and goes on at 10.\<close>

definition ex_armed :: stream where
  "ex_armed = begin_loop 10 10 10 (send_snapshot (\<lambda>s. Inr (PStr s)) ''A.SZ'' True ex_open)"

lemma ex_armed_eq: "ex_armed = \<lparr>disk = None, clock = 10, phase_of = Looping, last_check = 10,
    started_at = 10, last_event_at = 10, sent = [Snapshot []]\<rparr>"
  by (simp add: ex_armed_def ex_open_def send_snapshot_def read_hot_snapshot_def emit_def begin_loop_def)

lemma ex_armed_run: "stream_run (\<lambda>s. Inr (PStr s)) dumps cfg ''A.SZ'' w ex_open ex_armed"
proof -
  have 1: "stream_step (\<lambda>s. Inr (PStr s)) dumps cfg ''A.SZ'' w ex_open
      (send_snapshot (\<lambda>s. Inr (PStr s)) ''A.SZ'' True ex_open)"
    by (rule greet) (simp add: ex_open_def)
  have 2: "stream_step (\<lambda>s. Inr (PStr s)) dumps cfg ''A.SZ'' w
      (send_snapshot (\<lambda>s. Inr (PStr s)) ''A.SZ'' True ex_open) ex_armed"
    unfolding ex_armed_def
    by (rule arm) (simp_all add: ex_open_def send_snapshot_def read_hot_snapshot_def emit_def)
  show ?thesis by (rule step [OF step [OF here 1] 2])
qed

text \<open>The collector writes one row, the clock moves on and the stream wakes at 15.\<close>

definition ex_woken :: "int \<Rightarrow> stream" where
  "ex_woken stamp =
     (let s1 = collect (\<lambda>_. Inr ''0'') [ex_item ''A.SZ'' ''rev'' ''4'' stamp] ex_armed;
          s2 = check_duration default_config True s1;
          s3 = s2\<lparr>clock := 15\<rparr>
      in s3\<lparr>phase_of := Reading (now_of s3)\<rparr>)"

lemma ex_woken_eq: "ex_woken stamp = ex_armed\<lparr>disk := disk (ex_woken stamp), clock := 15, phase_of := Reading 15\<rparr>"
  by (simp add: ex_woken_def Let_def collect_def check_duration_def ex_armed_eq default_config_def now_of_def)

lemma ex_woken_disk: "disk (ex_woken stamp) =
    Some (fst (upsert_realtime (\<lambda>_. Inr ''0'') None [ex_item ''A.SZ'' ''rev'' ''4'' stamp]))"
  by (simp add: ex_woken_def Let_def collect_def check_duration_def ex_armed_eq default_config_def now_of_def)

lemma ex_woken_table: "db_realtime (fst (upsert_realtime (\<lambda>_. Inr ''0'') None [ex_item ''A.SZ'' ''rev'' ''4'' stamp]))
   = Some [((''A.SZ'', ''rev''), \<lparr>rv_value_json = ''4'', rv_data_status = ''fresh'',
       rv_confidence = Some (1/2), rv_source = ''tushare'', rv_updated_at = stamp\<rparr>)]"
  by (simp add: upsert_realtime_def init_db_def empty_db_def Let_def batch_row_def ex_item_def put_all_def)

lemma ex_woken_run:
  assumes "w ex_armed [ex_item ''A.SZ'' ''rev'' ''4'' stamp]"
  shows "stream_run (\<lambda>s. Inr (PStr s)) (\<lambda>_. Inr ''0'') default_config ''A.SZ'' w ex_open (ex_woken stamp)"
proof -
  let ?step = "stream_step (\<lambda>s. Inr (PStr s)) (\<lambda>_. Inr ''0'') default_config ''A.SZ'' w"
  let ?s1 = "collect (\<lambda>_. Inr ''0'') [ex_item ''A.SZ'' ''rev'' ''4'' stamp] ex_armed"
  let ?s2 = "check_duration default_config True ?s1"
  let ?s3 = "?s2\<lparr>clock := 15\<rparr>"
  have 1: "?step ex_armed ?s1" by (rule wrote) (rule assms)
  have 2: "?step ?s1 ?s2" by (rule loop) (simp add: collect_def ex_armed_eq)
  have 3: "?step ?s2 ?s3"
    by (rule tick) (simp add: collect_def check_duration_def ex_armed_eq default_config_def)
  have 4: "?step ?s3 (?s3\<lparr>phase_of := Reading (now_of ?s3)\<rparr>)"
    by (rule wake [of _ 15]) (simp_all add: collect_def check_duration_def ex_armed_eq default_config_def)
  show ?thesis
    using step [OF step [OF step [OF step [OF ex_armed_run 1] 2] 3] 4] by (simp add: ex_woken_def Let_def)
qed


section \<open>Rows stamped before the last poll\<close>

text \<open>The collector does not write one row.\<close>

definition leaves_alone :: "string \<Rightarrow> string \<Rightarrow> stream \<Rightarrow> batch_item list \<Rightarrow> bool" where
  "leaves_alone ts dp s batch \<longleftrightarrow> (\<forall>b \<in> set batch. \<not> (bi_ts_code b = ts \<and> bi_dp_id b = dp))"

text \<open>The loop has begun, and its clock readings are not ahead of the clock.\<close>

definition in_loop :: "stream \<Rightarrow> bool" where
  "in_loop s \<longleftrightarrow> last_check s \<le> now_of s \<and>
     (case phase_of s of Opening \<Rightarrow> False | Greeted \<Rightarrow> False
      | Reading now \<Rightarrow> last_check s \<le> now \<and> now \<le> now_of s | _ \<Rightarrow> True)"

definition stale :: "(pyval \<Rightarrow> string res) \<Rightarrow> string \<Rightarrow> string \<Rightarrow> rt_row \<Rightarrow> seen option \<Rightarrow> stream \<Rightarrow> bool" where
  "stale dumps ts dp row shown s \<longleftrightarrow> stored dumps (disk s) \<and> in_loop s \<and>
     own_row ts s dp = Some row \<and> rv_updated_at row \<le> last_check s \<and> client s dp = shown"

lemma own_after_other_write:
  assumes "stored dumps (disk s)" and "leaves_alone ts dp s batch"
  shows "own_row ts (collect dumps batch s) dp = own_row ts s dp"
proof -
  have "last_item batch ts dp = None" using assms(2) by (auto simp: last_item_None leaves_alone_def)
  from upsert_other_rows [OF assms(1) prod.collapse [symmetric] this]
  show ?thesis by (simp add: collect_def init_own_row)
qed

lemma send_delta_skips:
  assumes "stored dumps (disk s)" and "own_row ts s dp = Some row" and "rv_updated_at row \<le> last_check s"
  shows "client (send_delta loads cfg ts now ok s) dp = client s dp"
proof -
  obtain db where db: "disk s = Some db" and row: "map_of (rows_of (db_realtime db)) (ts, dp) = Some row"
    using assms(2) by (auto simp: own_row_def split: option.splits)
  have "map_of delta dp = None"
    if "read_hot_snapshot_changed_since loads (now_of s) (disk s) ts (last_check s) = Inr delta" for delta
    using delta_shows_new_rows [of dumps db loads "now_of s" ts "last_check s" delta dp] assms(1,3) that row
    by (simp add: db)
  then show ?thesis
    by (auto simp: send_delta_def emit_def Let_def client_def split: sum.splits)
qed

lemma in_loop_cong: "phase_of s' = phase_of s \<Longrightarrow> last_check s' = last_check s \<Longrightarrow> clock s \<le> clock s' \<Longrightarrow>
    in_loop s \<Longrightarrow> in_loop s'"
  using floor_mono [of "clock s" "clock s'"] by (auto simp: in_loop_def now_of_def split: phase.splits)

lemma stale_step:
  assumes "stream_step loads dumps cfg ts (leaves_alone ts dp) s s'" and "stale dumps ts dp row shown s"
  shows "stale dumps ts dp row shown s'"
  using assms(1)
proof (cases rule: stream_step.cases)
  case (greet ok)
  with assms(2) show ?thesis by (simp add: stale_def in_loop_def)
next
  case (arm t1 t2 t3)
  with assms(2) show ?thesis by (simp add: stale_def in_loop_def)
next
  case (loop ok)
  with assms(2) own_row_cong [of s s' ts] show ?thesis
    by (auto simp: stale_def in_loop_def check_duration_def emit_def now_of_def client_def)
next
  case (wake t)
  with assms(2) own_row_cong [of s s' ts] show ?thesis
    by (simp add: stale_def in_loop_def now_of_def client_def)
next
  case (poll now ok)
  have *: "disk s' = disk s" "clock s' = clock s" "phase_of s' = Looping \<or> phase_of s' = Closed"
    "last_check s' = last_check s \<or> last_check s' = now"
    by (auto simp: poll send_delta_def emit_def Let_def split: sum.splits)
  moreover have "client s' dp = client s dp"
    using send_delta_skips [of dumps s ts dp row loads cfg now ok] assms(2) poll by (simp add: stale_def)
  ultimately show ?thesis
    using assms(2) poll(2) own_row_cong [OF *(1), of ts] by (auto simp: stale_def in_loop_def now_of_def)
next
  case (tick t)
  with assms(2) own_row_cong [of s s' ts] in_loop_cong [of s' s] show ?thesis
    by (simp add: stale_def client_def)
next
  case (wrote batch)
  have "in_loop s'" using assms(2) in_loop_cong [of s' s] by (simp add: wrote collect_def stale_def)
  with wrote assms(2) own_after_other_write [of dumps s ts dp batch] stored_collect [of dumps s batch]
  show ?thesis by (simp add: stale_def collect_def client_def)
qed

lemma stale_run: "stream_run loads dumps cfg ts (leaves_alone ts dp) s s' \<Longrightarrow>
    stale dumps ts dp row shown s \<Longrightarrow> stale dumps ts dp row shown s'"
  by (induction rule: stream_run.induct) (auto intro: stale_step)

text \<open>
  A row of the company that is stamped no later than the last poll when it is written is not sent:
  until the collector writes it again, the client goes on showing what it showed, however long the
  stream lasts.
\<close>

theorem late_write_is_never_delivered:
  assumes "stored dumps (disk s)" and "in_loop s" and "own_row ts s dp = Some row"
    and "rv_updated_at row \<le> last_check s"
    and "stream_run loads dumps cfg ts (leaves_alone ts dp) s s'"
  shows "client s' dp = client s dp \<and> own_row ts s' dp = Some row"
proof -
  have "stale dumps ts dp row (client s dp) s"
    using assms(1-4) by (simp add: stale_def)
  from stale_run [OF assms(5) this] show ?thesis by (simp add: stale_def)
qed

text \<open>A row stamped 10 when the collector began to fetch, and written after the poll of 10.\<close>

theorem late_write_is_never_delivered_witness:
  "client (send_delta (\<lambda>s. Inr (PStr s)) default_config ''A.SZ'' 15 True (ex_woken 10)) ''rev'' = None \<and>
   own_row ''A.SZ'' (send_delta (\<lambda>s. Inr (PStr s)) default_config ''A.SZ'' 15 True (ex_woken 10)) ''rev'' \<noteq> None"
    (is "client ?s' _ = None \<and> _")
proof -
  let ?row = "\<lparr>rv_value_json = ''4'', rv_data_status = ''fresh'', rv_confidence = Some (1/2),
    rv_source = ''tushare'', rv_updated_at = 10\<rparr>"
  have w: "last_check (ex_woken 10) = 10" "phase_of (ex_woken 10) = Reading 15" "clock (ex_woken 10) = 15"
    "sent (ex_woken 10) = [Snapshot []]"
    by (subst ex_woken_eq, simp add: ex_armed_eq)+
  have run: "stream_run (\<lambda>s. Inr (PStr s)) (\<lambda>_. Inr ''0'') default_config ''A.SZ''
      (leaves_alone ''A.SZ'' ''rev'') (ex_woken 10) ?s'"
    by (rule step [OF here]) (rule poll, rule w)
  have "client ?s' ''rev'' = client (ex_woken 10) ''rev'' \<and> own_row ''A.SZ'' ?s' ''rev'' = Some ?row"
  proof (rule late_write_is_never_delivered [OF _ _ _ _ run])
    show "stored (\<lambda>_. Inr ''0'') (disk (ex_woken 10))"
      unfolding ex_woken_disk by (intro stored.intros)
    show "in_loop (ex_woken 10)" by (simp add: in_loop_def now_of_def w)
    show "own_row ''A.SZ'' (ex_woken 10) ''rev'' = Some ?row"
      by (simp add: own_row_def ex_woken_disk ex_woken_table)
    show "rv_updated_at ?row \<le> last_check (ex_woken 10)" by (simp add: w)
  qed
  then show ?thesis by (simp add: client_def [of "ex_woken 10"] w)
qed

section \<open>The frames on the wire\<close>

text \<open>The reader of an event stream: the payload of every line that begins with \<open>data: \<close>.\<close>

fun text_lines :: "string \<Rightarrow> string \<Rightarrow> string list" where
  "text_lines line [] = [line]"
| "text_lines line (c # cs) = (if [c] = newline then line # text_lines [] cs else text_lines (line @ [c]) cs)"

definition payloads :: "string \<Rightarrow> string list" where
  "payloads text = map (drop 6) (filter (prefix ''data: '') (text_lines [] text))"

lemma text_lines_append:
  "char_of (10 :: nat) \<notin> set xs \<Longrightarrow> text_lines line (xs @ ys) = text_lines (line @ xs) ys"
  by (induction xs arbitrary: line) (auto simp: newline_def)

lemma text_lines_newline: "text_lines line (newline @ cs) = line # text_lines [] cs"
  by (simp add: newline_def)

lemma nat_str_one_line: "char_of (10 :: nat) \<notin> set (nat_str n)"
proof (induction n rule: nat_str.induct)
  case (1 n)
  have "char_of (10 :: nat) \<noteq> (char_of (48 + m) :: char)" if "m < 10" for m :: nat
  proof
    assume "char_of (10 :: nat) = (char_of (48 + m) :: char)"
    then have "of_char (char_of (10 :: nat) :: char) = (of_char (char_of (48 + m) :: char) :: nat)"
      by (rule arg_cong)
    with that show False by simp
  qed
  with 1 show ?case by (subst nat_str.simps) auto
qed

lemma int_str_one_line: "char_of (10 :: nat) \<notin> set (int_str i)"
proof -
  have "char_of (10 :: nat) \<noteq> CHR ''-''" by (simp add: char_of_def bit_0)
  then show ?thesis by (auto simp: int_str_def nat_str_one_line)
qed

lemma payloads_frame:
  assumes "char_of (10 :: nat) \<notin> set (dumps v)"
  shows "payloads (write_event dumps v None @ text) = dumps v # payloads text"
proof -
  have no: "char_of (10 :: nat) \<notin> set (''data: '' @ dumps v)"
    using assms by (simp add: char_of_def bit_0)
  have "write_event dumps v None @ text = (''data: '' @ dumps v) @ newline @ newline @ text"
    by (simp add: write_event_def)
  then show ?thesis
    by (simp only: payloads_def text_lines_append [OF no] text_lines_newline) simp
qed

lemma payloads_hint: "payloads (write_retry_hint ms @ text) = payloads text"
proof -
  have no: "char_of (10 :: nat) \<notin> set (''retry: '' @ int_str ms)"
    using int_str_one_line by (simp add: char_of_def bit_0)
  have "write_retry_hint ms @ text = (''retry: '' @ int_str ms) @ newline @ newline @ text"
    by (simp add: write_retry_hint_def)
  then show ?thesis
    by (simp only: payloads_def text_lines_append [OF no] text_lines_newline) simp
qed

text \<open>
  What the server writes, the retry hint and then one frame for each event, is read back by the
  rules of the protocol as the encodings of the events in order, none lost, merged or split, when the
  encoder writes no line break.
\<close>

theorem frames_read_back:
  assumes "\<forall>ev \<in> set evs. char_of (10 :: nat) \<notin> set (dumps (event_data ts ind ev))"
  shows "payloads (write_retry_hint ms @ concat (map (\<lambda>ev. write_event dumps (event_data ts ind ev) None) evs))
     = map (\<lambda>ev. dumps (event_data ts ind ev)) evs"
proof -
  have "payloads (concat (map (\<lambda>ev. write_event dumps (event_data ts ind ev) None) evs))
      = map (\<lambda>ev. dumps (event_data ts ind ev)) evs"
    using assms
  proof (induction evs)
    case Nil
    show ?case by (simp add: payloads_def)
  next
    case (Cons ev evs)
    then show ?case by (simp add: payloads_frame)
  qed
  then show ?thesis by (simp add: payloads_hint)
qed

theorem frames_read_back_witness:
  "payloads (write_retry_hint 5000 @ concat (map (\<lambda>ev. write_event (\<lambda>v. ''{}'') (event_data ''A.SZ'' PNone ev) None)
     [Snapshot [], Heartbeat 5, Close])) = [''{}'', ''{}'', ''{}'']"
  using frames_read_back [of "[Snapshot [], Heartbeat 5, Close]" "\<lambda>v. ''{}''" "''A.SZ''" PNone 5000]
  by (simp add: char_of_def bit_0)

end
