(* ===== verification/GraphStatus.thy ===== *)
theory GraphStatus
  imports Prelude
begin

text \<open>
  The status row of the live graph: \<open>graph_engine/status/manager.py\<close> (the state machine),
  \<open>graph_engine/status/store.py\<close> (the row and its compare-and-set write), the model
  \<open>Neo4jGraphStatus\<close>, and the writer of \<open>graph_engine/promotion/service.py\<close> that holds the
  row while it mirrors a promotion into the graph.

  A \<open>plan\<close> is what a transition computes from the row it reads: the row it expects and the row
  it wants. The commit is a separate step, so that other processes may act in between. The labels
  of \<open>key_label_counts\<close> are kept sorted, which is how the store writes them; equality of
  dictionaries is then equality of the lists. Times are instants (integers).
\<close>

section \<open>The status row\<close>

datatype graph_state = Ready | Rebuilding | Failed

record neo4j_graph_status =
  graph_status :: graph_state
  graph_generation_id :: int
  node_count :: int
  edge_count :: int
  key_label_counts :: "(string \<times> int) list"
  checksum :: string
  last_verified_at :: "int option"
  last_reload_at :: "int option"
  writer_lock_token :: "string option"

definition label_dict :: "(string \<times> int) list \<Rightarrow> (string \<times> int) list" where
  "label_dict kvs = sort_key fst (fold (\<lambda>(k, n). dput (py_strip k) n) kvs [])"

text \<open>The constructor: the strings are stripped, then the fields and the lock are checked.\<close>

definition new_status ::
  "graph_state \<Rightarrow> int \<Rightarrow> int \<Rightarrow> int \<Rightarrow> (string \<times> int) list \<Rightarrow> string \<Rightarrow>
   int option \<Rightarrow> int option \<Rightarrow> string option \<Rightarrow> neo4j_graph_status res" where
  "new_status state generation nodes edges labels digest verified reloaded token =
     (let token = map_option py_strip token in
      if generation < 0 \<or> nodes < 0 \<or> edges < 0 \<or> py_strip digest = [] \<or> token = Some []
        \<or> (token \<noteq> None \<and> state \<noteq> Ready)
      then Inl ValueError
      else Inr \<lparr>graph_status = state, graph_generation_id = generation, node_count = nodes,
        edge_count = edges, key_label_counts = label_dict labels, checksum = py_strip digest,
        last_verified_at = verified, last_reload_at = reloaded, writer_lock_token = token\<rparr>)"

definition valid_status :: "neo4j_graph_status \<Rightarrow> bool" where
  "valid_status s \<longleftrightarrow> 0 \<le> graph_generation_id s \<and> 0 \<le> node_count s \<and> 0 \<le> edge_count s \<and>
     checksum s \<noteq> [] \<and> writer_lock_token s \<noteq> Some [] \<and>
     (writer_lock_token s = None \<or> graph_status s = Ready)"

definition locked :: "neo4j_graph_status \<Rightarrow> bool" where
  "locked s \<longleftrightarrow> writer_lock_token s \<noteq> None"

lemma new_status_Inr: "new_status state generation nodes edges labels digest verified reloaded token = Inr s \<Longrightarrow>
    valid_status s \<and> graph_status s = state \<and> graph_generation_id s = generation \<and>
    writer_lock_token s = map_option py_strip token"
  by (auto simp: new_status_def valid_status_def Let_def split: if_splits)

section \<open>The store\<close>

definition insert_if_missing ::
  "neo4j_graph_status \<Rightarrow> neo4j_graph_status option \<Rightarrow> bool \<times> neo4j_graph_status option" where
  "insert_if_missing nxt row = (case row of None \<Rightarrow> (True, Some nxt) | Some _ \<Rightarrow> (False, row))"

definition compare_and_write_current_status ::
  "neo4j_graph_status option \<Rightarrow> neo4j_graph_status \<Rightarrow> neo4j_graph_status option \<Rightarrow>
   bool \<times> neo4j_graph_status option" where
  "compare_and_write_current_status expected nxt row =
     (case expected of
        None \<Rightarrow> insert_if_missing nxt row
      | Some e \<Rightarrow>
          (case row of
             None \<Rightarrow> (False, row)
           | Some r \<Rightarrow>
               if graph_status r = graph_status e \<and> graph_generation_id r = graph_generation_id e
                 \<and> node_count r = node_count e \<and> edge_count r = edge_count e
                 \<and> key_label_counts r = key_label_counts e \<and> checksum r = checksum e
                 \<and> last_verified_at r = last_verified_at e \<and> last_reload_at r = last_reload_at e
                 \<and> writer_lock_token r = writer_lock_token e
               then (True, Some nxt) else (False, row)))"

lemma compare_and_write_iff:
  "compare_and_write_current_status expected nxt row =
     (if row = expected then (True, Some nxt) else (False, row))"
  by (auto simp: compare_and_write_current_status_def insert_if_missing_def
      intro: neo4j_graph_status.equality split: option.splits)

definition commit_transition ::
  "neo4j_graph_status option \<Rightarrow> neo4j_graph_status \<Rightarrow> neo4j_graph_status option \<Rightarrow>
   unit res \<times> neo4j_graph_status option" where
  "commit_transition expected nxt row =
     (case compare_and_write_current_status expected nxt row of
        (True, row') \<Rightarrow> (Inr (), row')
      | (False, row') \<Rightarrow> (Inl RuntimeError, row'))"

section \<open>The transitions\<close>

type_synonym plan = "(neo4j_graph_status option \<times> neo4j_graph_status) res"

definition get_status :: "neo4j_graph_status option \<Rightarrow> neo4j_graph_status res" where
  "get_status row = (case row of None \<Rightarrow> Inl LookupError | Some s \<Rightarrow> Inr s)"

definition require_ready_status :: "neo4j_graph_status \<Rightarrow> neo4j_graph_status res" where
  "require_ready_status s =
     (if graph_status s \<noteq> Ready then Inl PermissionError
      else if writer_lock_token s \<noteq> None then Inl PermissionError
      else Inr s)"

definition require_ready :: "neo4j_graph_status option \<Rightarrow> neo4j_graph_status res" where
  "require_ready row = res_bind (get_status row) require_ready_status"

definition mark_rebuilding_plan :: "neo4j_graph_status option \<Rightarrow> plan" where
  "mark_rebuilding_plan row =
     (if (case row of Some s \<Rightarrow> writer_lock_token s \<noteq> None | None \<Rightarrow> False) then Inl ValueError
      else if map_option graph_status row = Some Rebuilding then Inl ValueError
      else if map_option graph_status row \<notin> {None, Some Ready, Some Failed} then Inl ValueError
      else res_bind
        (new_status Rebuilding (case row of Some s \<Rightarrow> graph_generation_id s | None \<Rightarrow> 0) 0 0 []
           ''rebuilding'' None (case row of Some s \<Rightarrow> last_reload_at s | None \<Rightarrow> None) None)
        (\<lambda>s. Inr (row, s)))"

definition copy_status_with_writer_lock :: "neo4j_graph_status \<Rightarrow> string \<Rightarrow> neo4j_graph_status res" where
  "copy_status_with_writer_lock s token =
     new_status (graph_status s) (graph_generation_id s) (node_count s) (edge_count s)
       (key_label_counts s) (checksum s) (last_verified_at s) (last_reload_at s) (Some token)"

definition sync_writer_lock_token :: string where
  "sync_writer_lock_token = ''incremental-sync''"

definition begin_sync_plan :: "neo4j_graph_status option \<Rightarrow> plan" where
  "begin_sync_plan row =
     res_bind (require_ready row) (\<lambda>current.
       if writer_lock_token current \<noteq> None then Inl ValueError
       else res_bind (copy_status_with_writer_lock current sync_writer_lock_token)
         (\<lambda>s. Inr (Some current, s)))"

definition finish_sync_plan :: "neo4j_graph_status \<Rightarrow> neo4j_graph_status \<Rightarrow> plan" where
  "finish_sync_plan expected ready =
     (if graph_status expected \<noteq> Ready \<or> writer_lock_token expected = None then Inl ValueError
      else if graph_status ready \<noteq> Ready then Inl ValueError
      else if writer_lock_token ready \<noteq> None then Inl ValueError
      else Inr (Some expected, ready))"

definition mark_sync_failed_plan ::
  "int \<Rightarrow> int \<Rightarrow> (string \<times> int) list option \<Rightarrow> string \<Rightarrow> neo4j_graph_status \<Rightarrow> plan" where
  "mark_sync_failed_plan nodes edges labels digest expected =
     (if graph_status expected \<noteq> Ready \<or> writer_lock_token expected = None then Inl ValueError
      else res_bind
        (new_status Failed (graph_generation_id expected) nodes edges
           (case labels of None \<Rightarrow> [] | Some l \<Rightarrow> l) digest None (last_reload_at expected) None)
        (\<lambda>s. Inr (Some expected, s)))"

definition mark_ready_plan ::
  "int \<Rightarrow> int \<Rightarrow> (string \<times> int) list \<Rightarrow> string \<Rightarrow> int option \<Rightarrow> bool \<Rightarrow> int \<Rightarrow>
   neo4j_graph_status option \<Rightarrow> plan" where
  "mark_ready_plan nodes edges labels digest requested reload_completed now row =
     (if map_option graph_status row \<noteq> Some Rebuilding then Inl ValueError
      else (case row of
          None \<Rightarrow> Inl AssertionError
        | Some current \<Rightarrow>
            let generation =
              (case requested of None \<Rightarrow> graph_generation_id current + 1 | Some g \<Rightarrow> g) in
            if generation < graph_generation_id current then Inl ValueError
            else res_bind
              (new_status Ready generation nodes edges labels digest (Some now)
                 (if reload_completed then Some now else last_reload_at current) None)
              (\<lambda>s. Inr (row, s))))"

definition mark_failed_plan ::
  "int \<Rightarrow> int \<Rightarrow> (string \<times> int) list option \<Rightarrow> string \<Rightarrow> neo4j_graph_status option \<Rightarrow> plan" where
  "mark_failed_plan nodes edges labels digest row =
     (if (case row of Some s \<Rightarrow> writer_lock_token s \<noteq> None | None \<Rightarrow> False) then Inl ValueError
      else if map_option graph_status row \<notin> {Some Rebuilding, Some Ready} then Inl ValueError
      else (case row of
          None \<Rightarrow> Inl AssertionError
        | Some current \<Rightarrow>
            res_bind
              (new_status Failed (graph_generation_id current) nodes edges
                 (case labels of None \<Rightarrow> [] | Some l \<Rightarrow> l) digest None (last_reload_at current) None)
              (\<lambda>s. Inr (row, s))))"

text \<open>The fields of a \<open>GraphMetricsSnapshot\<close> that the status takes over.\<close>

record metrics =
  m_generation :: int
  m_nodes :: int
  m_edges :: int
  m_labels :: "(string \<times> int) list"
  m_checksum :: string

definition mark_verified_plan :: "metrics \<Rightarrow> int \<Rightarrow> neo4j_graph_status option \<Rightarrow> plan" where
  "mark_verified_plan snap now row =
     res_bind (require_ready row) (\<lambda>current.
       if writer_lock_token current \<noteq> None then Inl ValueError
       else if m_generation snap \<noteq> graph_generation_id current then Inl ValueError
       else res_bind
         (new_status Ready (graph_generation_id current) (m_nodes snap) (m_edges snap)
            (m_labels snap) (m_checksum snap) (Some now) (last_reload_at current) None)
         (\<lambda>s. Inr (Some current, s)))"

text \<open>A whole call: read, plan, commit.\<close>

definition perform ::
  "(neo4j_graph_status option \<Rightarrow> plan) \<Rightarrow> neo4j_graph_status option \<Rightarrow>
   neo4j_graph_status res \<times> neo4j_graph_status option" where
  "perform plan row =
     (case plan row of
        Inl e \<Rightarrow> (Inl e, row)
      | Inr (expected, nxt) \<Rightarrow>
          (case commit_transition expected nxt row of
             (Inl e, row') \<Rightarrow> (Inl e, row')
           | (Inr _, row') \<Rightarrow> (Inr nxt, row')))"

section \<open>The writer of a promotion\<close>

definition require_status_token_unchanged ::
  "neo4j_graph_status option \<Rightarrow> neo4j_graph_status \<Rightarrow> unit res" where
  "require_status_token_unchanged row expected =
     res_bind (get_status row) (\<lambda>current. if current \<noteq> expected then Inl RuntimeError else Inr ())"

definition ready_status_from_live_graph ::
  "int \<times> int \<times> (string \<times> int) list \<times> string \<Rightarrow> neo4j_graph_status \<Rightarrow> int \<Rightarrow> neo4j_graph_status res" where
  "ready_status_from_live_graph live previous now =
     (case live of (nodes, edges, labels, digest) \<Rightarrow>
        new_status Ready (graph_generation_id previous + 1) nodes edges labels digest
          (Some now) (last_reload_at previous) None)"

definition mark_sync_failed_safely ::
  "neo4j_graph_status option \<Rightarrow> neo4j_graph_status \<Rightarrow> neo4j_graph_status option" where
  "mark_sync_failed_safely row held =
     snd (perform (\<lambda>_. mark_sync_failed_plan 0 0 None ''failed'' held) row)"

text \<open>
  The body of \<open>try\<close>: \<open>sync\<close> is \<open>sync_live_graph\<close> on the graph, \<open>measure_graph\<close> is
  \<open>read_live_graph_metrics\<close>. The run below is that of a writer nobody interrupts.
\<close>

definition sync_body ::
  "('g \<Rightarrow> unit res \<times> 'g) \<Rightarrow> ('g \<Rightarrow> (int \<times> int \<times> (string \<times> int) list \<times> string) res) \<Rightarrow> int \<Rightarrow>
   neo4j_graph_status \<Rightarrow> neo4j_graph_status \<Rightarrow> neo4j_graph_status option \<Rightarrow> 'g \<Rightarrow>
   unit res \<times> neo4j_graph_status option \<times> 'g" where
  "sync_body sync measure_graph now ready held row g =
     (case require_status_token_unchanged row held of
        Inl e \<Rightarrow> (Inl e, row, g)
      | Inr _ \<Rightarrow>
          (case sync g of
             (Inl e, g') \<Rightarrow> (Inl e, row, g')
           | (Inr _, g') \<Rightarrow>
               (case require_status_token_unchanged row held of
                  Inl e \<Rightarrow> (Inl e, row, g')
                | Inr _ \<Rightarrow>
                    (case res_bind (measure_graph g') (\<lambda>m. ready_status_from_live_graph m ready now) of
                       Inl e \<Rightarrow> (Inl e, row, g')
                     | Inr s \<Rightarrow>
                         (case perform (\<lambda>_. finish_sync_plan held s) row of
                            (r, row') \<Rightarrow> (res_map (\<lambda>_. ()) r, row', g'))))))"

definition sync_live_graph_with_status_barrier ::
  "('g \<Rightarrow> unit res \<times> 'g) \<Rightarrow> ('g \<Rightarrow> (int \<times> int \<times> (string \<times> int) list \<times> string) res) \<Rightarrow> int \<Rightarrow>
   neo4j_graph_status option \<Rightarrow> 'g \<Rightarrow> unit res \<times> neo4j_graph_status option \<times> 'g" where
  "sync_live_graph_with_status_barrier sync measure_graph now row g =
     (case begin_sync_plan row of
        Inl e \<Rightarrow> (Inl e, row, g)
      | Inr (ready, held) \<Rightarrow>
          (case commit_transition ready held row of
             (Inl e, row') \<Rightarrow> (Inl e, row', g)
           | (Inr _, row') \<Rightarrow>
               (case sync_body sync measure_graph now (the ready) held row' g of
                  (Inl e, row'', g') \<Rightarrow> (Inl e, mark_sync_failed_safely row'' held, g')
                | (Inr _, row'', g') \<Rightarrow> (Inr (), row'', g'))))"

section \<open>Several processes\<close>

datatype operation =
    MarkRebuilding
  | MarkReady int int "(string \<times> int) list" string "int option" bool int
  | MarkFailed int int "(string \<times> int) list option" string
  | MarkVerified metrics int

fun plan_of :: "operation \<Rightarrow> neo4j_graph_status option \<Rightarrow> plan" where
  "plan_of MarkRebuilding row = mark_rebuilding_plan row"
| "plan_of (MarkReady nodes edges labels digest requested done now) row =
     mark_ready_plan nodes edges labels digest requested done now row"
| "plan_of (MarkFailed nodes edges labels digest) row = mark_failed_plan nodes edges labels digest row"
| "plan_of (MarkVerified snap now) row = mark_verified_plan snap now row"

text \<open>
  Where a process stands. \<open>Inside s\<close>: in the body of \<open>ready_read\<close>. \<open>Deciding r e n\<close>: a transition
  has been planned and its commit is still to come. \<open>Syncing\<close>: between \<open>begin_sync\<close> and the call
  that gives the row back, at the given line of the writer.
\<close>

datatype stage = CheckBefore | Mutating | CheckAfter | Finishing | Failing

datatype request =
    Call
  | Begin neo4j_graph_status
  | Finish neo4j_graph_status neo4j_graph_status
  | GiveUp neo4j_graph_status neo4j_graph_status

datatype position =
    Outside
  | Inside neo4j_graph_status
  | Deciding request "neo4j_graph_status option" neo4j_graph_status
  | Syncing stage neo4j_graph_status neo4j_graph_status

record world =
  status_row :: "neo4j_graph_status option"
  phase_of :: "nat \<Rightarrow> position"

text \<open>Where a process stands after its commit was accepted, and after it was rejected as stale.\<close>

fun won :: "request \<Rightarrow> neo4j_graph_status \<Rightarrow> position" where
  "won (Begin r) l = Syncing CheckBefore r l"
| "won _ _ = Outside"

fun lost :: "request \<Rightarrow> position" where
  "lost (Finish r l) = Syncing Failing r l"
| "lost _ = Outside"

definition goes :: "nat \<Rightarrow> position \<Rightarrow> world \<Rightarrow> world" where
  "goes p ph w = w\<lparr>phase_of := (phase_of w)(p := ph)\<rparr>"

text \<open>The commit needs the exclusive advisory lock, so it waits for the readers.\<close>

definition no_reader :: "world \<Rightarrow> bool" where
  "no_reader w \<longleftrightarrow> (\<forall>q s. phase_of w q \<noteq> Inside s)"

definition checked :: "position \<Rightarrow> position \<Rightarrow> neo4j_graph_status \<Rightarrow> world \<Rightarrow> position" where
  "checked good bad l w = (case require_status_token_unchanged (status_row w) l of Inr _ \<Rightarrow> good | Inl _ \<Rightarrow> bad)"

inductive acts :: "nat \<Rightarrow> world \<Rightarrow> world \<Rightarrow> bool" where
  enter: "phase_of w p = Outside \<Longrightarrow> require_ready (status_row w) = Inr s \<Longrightarrow> acts p w (goes p (Inside s) w)"
| leave: "phase_of w p = Inside s \<Longrightarrow> acts p w (goes p Outside w)"
| call: "phase_of w p = Outside \<Longrightarrow> plan_of opn (status_row w) = Inr (e, n) \<Longrightarrow>
    acts p w (goes p (Deciding Call e n) w)"
| start: "phase_of w p = Outside \<Longrightarrow> begin_sync_plan (status_row w) = Inr (Some r, l) \<Longrightarrow>
    acts p w (goes p (Deciding (Begin r) (Some r) l) w)"
| commit: "phase_of w p = Deciding q e n \<Longrightarrow> no_reader w \<Longrightarrow> commit_transition e n (status_row w) = (Inr u, row') \<Longrightarrow>
    acts p w (goes p (won q n) (w\<lparr>status_row := row'\<rparr>))"
| reject: "phase_of w p = Deciding q e n \<Longrightarrow> no_reader w \<Longrightarrow> commit_transition e n (status_row w) = (Inl err, row') \<Longrightarrow>
    acts p w (goes p (lost q) (w\<lparr>status_row := row'\<rparr>))"
| check_before: "phase_of w p = Syncing CheckBefore r l \<Longrightarrow>
    acts p w (goes p (checked (Syncing Mutating r l) (Syncing Failing r l) l w) w)"
| mutated: "phase_of w p = Syncing Mutating r l \<Longrightarrow> acts p w (goes p (Syncing CheckAfter r l) w)"
| mutation_failed: "phase_of w p = Syncing Mutating r l \<Longrightarrow> acts p w (goes p (Syncing Failing r l) w)"
| check_after: "phase_of w p = Syncing CheckAfter r l \<Longrightarrow>
    acts p w (goes p (checked (Syncing Finishing r l) (Syncing Failing r l) l w) w)"
| finish: "phase_of w p = Syncing Finishing r l \<Longrightarrow> ready_status_from_live_graph live r now = Inr s \<Longrightarrow>
    finish_sync_plan l s = Inr (e, n) \<Longrightarrow> acts p w (goes p (Deciding (Finish r l) e n) w)"
| metrics_failed: "phase_of w p = Syncing Finishing r l \<Longrightarrow> acts p w (goes p (Syncing Failing r l) w)"
| give_up: "phase_of w p = Syncing Failing r l \<Longrightarrow> mark_sync_failed_plan 0 0 None ''failed'' l = Inr (e, n) \<Longrightarrow>
    acts p w (goes p (Deciding (GiveUp r l) e n) w)"
| crash: "acts p w (goes p Outside w)"

definition somebody_acts :: "world \<Rightarrow> world \<Rightarrow> bool" where
  "somebody_acts w w' \<longleftrightarrow> (\<exists>p. acts p w w')"

definition somebody_else_acts :: "nat \<Rightarrow> world \<Rightarrow> world \<Rightarrow> bool" where
  "somebody_else_acts p w w' \<longleftrightarrow> (\<exists>q. q \<noteq> p \<and> acts q w w')"

section \<open>The contract of the row\<close>

text \<open>Which rows may follow which: the state machine as its users know it.\<close>

definition edge :: "neo4j_graph_status option \<Rightarrow> neo4j_graph_status \<Rightarrow> bool" where
  "edge old new \<longleftrightarrow> valid_status new \<and>
     (case old of
        None \<Rightarrow> graph_status new = Rebuilding \<and> graph_generation_id new = 0
      | Some s \<Rightarrow>
          if locked s then
            \<not> locked new \<and>
              (graph_status new = Ready \<and> graph_generation_id new = graph_generation_id s + 1 \<or>
               graph_status new = Failed \<and> graph_generation_id new = graph_generation_id s)
          else
            (case graph_status s of
               Ready \<Rightarrow> graph_generation_id new = graph_generation_id s
             | Rebuilding \<Rightarrow> \<not> locked new \<and>
                 (graph_status new = Ready \<and> graph_generation_id s \<le> graph_generation_id new \<or>
                  graph_status new = Failed \<and> graph_generation_id new = graph_generation_id s)
             | Failed \<Rightarrow> graph_status new = Rebuilding \<and> graph_generation_id new = graph_generation_id s))"

lemma require_ready_Inr: "require_ready row = Inr s \<longleftrightarrow>
    row = Some s \<and> graph_status s = Ready \<and> \<not> locked s"
  by (auto simp: require_ready_def get_status_def require_ready_status_def locked_def split: option.splits)

lemma plan_of_edge:
  assumes "plan_of opn row = Inr (e, n)" and "\<And>s. row = Some s \<Longrightarrow> valid_status s"
  shows "e = row \<and> edge row n \<and> \<not> locked n \<and> (\<forall>s. row = Some s \<longrightarrow> \<not> locked s)"
proof (cases opn)
  case MarkRebuilding
  with assms show ?thesis
    by (auto simp: mark_rebuilding_plan_def edge_def locked_def res_bind_eq_Inr dest!: new_status_Inr
        split: if_splits option.splits graph_state.splits)
next
  case (MarkReady x1 x2 x3 x4 x5 x6 x7)
  with assms show ?thesis
    by (auto simp: mark_ready_plan_def Let_def edge_def locked_def valid_status_def res_bind_eq_Inr
        dest!: new_status_Inr split: if_splits option.splits)
next
  case (MarkFailed x1 x2 x3 x4)
  with assms show ?thesis
    by (auto simp: mark_failed_plan_def edge_def locked_def res_bind_eq_Inr dest!: new_status_Inr
        split: if_splits option.splits)
next
  case (MarkVerified x1 x2)
  with assms show ?thesis
    by (auto simp: mark_verified_plan_def edge_def require_ready_Inr res_bind_eq_Inr locked_def
        dest!: new_status_Inr split: if_splits)
qed

lemma begin_sync_plan_Inr:
  assumes "begin_sync_plan row = Inr (e, l)"
  shows "\<exists>r. e = Some r \<and> row = Some r \<and> edge (Some r) l \<and> \<not> locked r \<and> locked l \<and>
    graph_status l = Ready \<and> graph_generation_id l = graph_generation_id r"
  using assms
  by (auto simp: begin_sync_plan_def copy_status_with_writer_lock_def edge_def require_ready_Inr
      res_bind_eq_Inr locked_def dest!: new_status_Inr split: if_splits)

section \<open>The invariant of the processes\<close>

fun holding :: "position \<Rightarrow> bool" where
  "holding (Syncing st r l) \<longleftrightarrow> True"
| "holding (Deciding (Finish r l) e n) \<longleftrightarrow> True"
| "holding (Deciding (GiveUp r l) e n) \<longleftrightarrow> True"
| "holding _ \<longleftrightarrow> False"

definition lock_of :: "neo4j_graph_status \<Rightarrow> neo4j_graph_status \<Rightarrow> bool" where
  "lock_of r l \<longleftrightarrow> locked l \<and> graph_status l = Ready \<and> graph_generation_id l = graph_generation_id r"

fun request_ok :: "neo4j_graph_status option \<Rightarrow> request \<Rightarrow> neo4j_graph_status option \<Rightarrow> neo4j_graph_status \<Rightarrow> bool" where
  "request_ok row Call e n \<longleftrightarrow> \<not> locked n \<and> (\<forall>s. e = Some s \<longrightarrow> \<not> locked s)"
| "request_ok row (Begin r) e l \<longleftrightarrow> e = Some r \<and> \<not> locked r \<and> lock_of r l"
| "request_ok row (Finish r l) e n \<longleftrightarrow> row = Some l \<and> e = Some l \<and> lock_of r l \<and> \<not> locked n"
| "request_ok row (GiveUp r l) e n \<longleftrightarrow> row = Some l \<and> e = Some l \<and> lock_of r l \<and> \<not> locked n"

fun phase_ok :: "neo4j_graph_status option \<Rightarrow> position \<Rightarrow> bool" where
  "phase_ok row Outside \<longleftrightarrow> True"
| "phase_ok row (Inside s) \<longleftrightarrow> row = Some s \<and> graph_status s = Ready \<and> \<not> locked s"
| "phase_ok row (Deciding q e n) \<longleftrightarrow> edge e n \<and> request_ok row q e n"
| "phase_ok row (Syncing st r l) \<longleftrightarrow> row = Some l \<and> lock_of r l"

definition world_ok :: "world \<Rightarrow> bool" where
  "world_ok w \<longleftrightarrow> (\<forall>s. status_row w = Some s \<longrightarrow> valid_status s) \<and>
     (\<forall>p. phase_ok (status_row w) (phase_of w p)) \<and>
     (\<forall>p q. holding (phase_of w p) \<longrightarrow> holding (phase_of w q) \<longrightarrow> p = q)"

lemma goes_simps [simp]:
  "status_row (goes p ph w) = status_row w" "phase_of (goes p ph w) = (phase_of w)(p := ph)"
  by (simp_all add: goes_def)

lemma holder_row: "phase_ok row ph \<Longrightarrow> holding ph \<Longrightarrow> \<exists>l. row = Some l \<and> locked l"
  by (induction ph rule: holding.induct) (auto simp: lock_of_def)

lemma world_ok_goes:
  assumes "world_ok w" and "phase_ok (status_row w) ph"
    and "holding ph \<Longrightarrow> holding (phase_of w p)"
  shows "world_ok (goes p ph w)"
  using assms unfolding world_ok_def by (auto split: if_splits)

lemma commit_Inr: "commit_transition e n row = (Inr u, row') \<longleftrightarrow> row = e \<and> row' = Some n"
  by (auto simp: commit_transition_def compare_and_write_iff split: if_splits)

lemma commit_Inl: "commit_transition e n row = (Inl err, row') \<longleftrightarrow>
    row \<noteq> e \<and> row' = row \<and> err = RuntimeError"
  by (auto simp: commit_transition_def compare_and_write_iff split: if_splits)

lemma edge_valid: "edge e n \<Longrightarrow> valid_status n"
  by (simp add: edge_def)

text \<open>A request that is accepted leaves no other holder.\<close>

lemma committer_alone:
  assumes "world_ok w" and "phase_of w p = Deciding q e n" and "status_row w = e" and "x \<noteq> p"
  shows "\<not> holding (phase_of w x)"
proof
  assume l: "holding (phase_of w x)"
  with assms(1) obtain l where row: "status_row w = Some l" "locked l"
    using holder_row [of "status_row w" "phase_of w x"] by (auto simp: world_ok_def)
  have "request_ok (status_row w) q e n"
    using assms(1,2) by (auto simp: world_ok_def dest!: spec [of _ p])
  with row assms(2,3) have "holding (phase_of w p)" by (cases q) auto
  with l assms(1,4) show False by (auto simp: world_ok_def)
qed

lemma phase_ok_row_free:
  "phase_ok row ph \<Longrightarrow> \<not> holding ph \<Longrightarrow> (\<And>s. ph \<noteq> Inside s) \<Longrightarrow> phase_ok row' ph"
  by (induction ph rule: holding.induct) auto

lemma world_ok_commit:
  assumes "world_ok w" and p: "phase_of w p = Deciding q e n" and "no_reader w" and row: "status_row w = e"
  shows "world_ok (goes p (won q n) (w\<lparr>status_row := Some n\<rparr>))"
proof -
  have ok: "edge e n" "request_ok (status_row w) q e n"
    using assms(1) p by (auto simp: world_ok_def dest!: spec [of _ p])
  have "phase_ok (Some n) (won q n)" using ok by (cases q) auto
  moreover have "phase_ok (Some n) (phase_of w x)" if "x \<noteq> p" for x
  proof (rule phase_ok_row_free)
    show "phase_ok (status_row w) (phase_of w x)" using assms(1) by (simp add: world_ok_def)
    show "\<not> holding (phase_of w x)" by (rule committer_alone [OF assms(1) p row that])
    show "phase_of w x \<noteq> Inside s" for s using assms(3) by (simp add: no_reader_def)
  qed
  ultimately show ?thesis
    using committer_alone [OF assms(1) p row] edge_valid [OF ok(1)] by (auto simp: world_ok_def)
qed


lemma plan_Finish: "finish_sync_plan l s = Inr (e, n) \<longleftrightarrow>
    e = Some l \<and> n = s \<and> graph_status l = Ready \<and> locked l \<and> graph_status s = Ready \<and> \<not> locked s"
  by (auto simp: finish_sync_plan_def locked_def)

lemma ready_status_Inr: "ready_status_from_live_graph live r now = Inr s \<Longrightarrow>
    valid_status s \<and> graph_status s = Ready \<and> graph_generation_id s = graph_generation_id r + 1 \<and> \<not> locked s"
  by (auto simp: ready_status_from_live_graph_def locked_def dest!: new_status_Inr split: prod.splits)

lemma plan_GiveUp: "mark_sync_failed_plan a b c d l = Inr (e, n) \<Longrightarrow>
    e = Some l \<and> valid_status n \<and> graph_status n = Failed \<and> graph_generation_id n = graph_generation_id l \<and>
    \<not> locked n"
  by (auto simp: mark_sync_failed_plan_def locked_def res_bind_eq_Inr dest!: new_status_Inr split: if_splits)

lemma checked_cases: "checked good bad l w = good \<or> checked good bad l w = bad"
  by (auto simp: checked_def split: sum.splits)

lemma world_ok_phase: "world_ok w \<Longrightarrow> phase_of w p = ph \<Longrightarrow> phase_ok (status_row w) ph"
  by (auto simp: world_ok_def)

lemma edge_Finish: "lock_of r l \<Longrightarrow> ready_status_from_live_graph live r now = Inr s \<Longrightarrow> edge (Some l) s"
  using ready_status_Inr by (auto simp: edge_def lock_of_def)

lemma edge_GiveUp: "lock_of r l \<Longrightarrow> mark_sync_failed_plan a b c d l = Inr (e, n) \<Longrightarrow> edge (Some l) n"
  by (auto simp: edge_def lock_of_def dest!: plan_GiveUp)

lemma world_ok_acts:
  assumes ok: "world_ok w" and "acts p w w'"
  shows "world_ok w'"
  using assms(2)
proof (cases rule: acts.cases)
  case (enter s)
  then show ?thesis by (auto intro!: world_ok_goes ok simp: require_ready_Inr)
next
  case (leave s)
  then show ?thesis by (auto intro!: world_ok_goes ok)
next
  case (call opn e n)
  have "e = status_row w \<and> edge (status_row w) n \<and> \<not> locked n \<and>
      (\<forall>s. status_row w = Some s \<longrightarrow> \<not> locked s)"
    using plan_of_edge [OF call(3)] ok by (auto simp: world_ok_def)
  with call show ?thesis by (auto intro!: world_ok_goes ok)
next
  case (start r l)
  with begin_sync_plan_Inr [OF start(3)] show ?thesis
    by (auto intro!: world_ok_goes ok simp: lock_of_def)
next
  case (commit q e n u row')
  then show ?thesis using world_ok_commit [OF ok commit(2,3)] by (auto simp: commit_Inr)
next
  case (reject q e n err row')
  have "phase_ok (status_row w) (lost q)" using world_ok_phase [OF ok reject(2)] by (cases q) auto
  moreover have "holding (lost q) \<Longrightarrow> holding (phase_of w p)" using reject(2) by (cases q) auto
  ultimately show ?thesis using reject world_ok_goes [OF ok] by (auto simp: commit_Inl)
next
  case (check_before r l)
  with world_ok_phase [OF ok check_before(2)] show ?thesis
    using checked_cases [of "Syncing Mutating r l" "Syncing Failing r l" l w]
    by (auto intro!: world_ok_goes ok)
next
  case (mutated r l)
  with world_ok_phase [OF ok mutated(2)] show ?thesis by (auto intro!: world_ok_goes ok)
next
  case (mutation_failed r l)
  with world_ok_phase [OF ok mutation_failed(2)] show ?thesis by (auto intro!: world_ok_goes ok)
next
  case (check_after r l)
  with world_ok_phase [OF ok check_after(2)] show ?thesis
    using checked_cases [of "Syncing Finishing r l" "Syncing Failing r l" l w]
    by (auto intro!: world_ok_goes ok)
next
  case (finish r l live now s e n)
  with world_ok_phase [OF ok finish(2)] show ?thesis
    by (auto intro!: world_ok_goes ok simp: plan_Finish intro: edge_Finish)
next
  case (metrics_failed r l)
  with world_ok_phase [OF ok metrics_failed(2)] show ?thesis by (auto intro!: world_ok_goes ok)
next
  case (give_up r l e n)
  with world_ok_phase [OF ok give_up(2)] plan_GiveUp [OF give_up(3)] show ?thesis
    by (auto intro!: world_ok_goes ok intro: edge_GiveUp)
next
  case crash
  then show ?thesis by (auto intro!: world_ok_goes ok)
qed

text \<open>A step leaves the row alone or moves it along an edge of the contract.\<close>

lemma row_acts:
  assumes "world_ok w" and "acts p w w'"
  shows "status_row w' = status_row w \<or>
    (\<exists>n. status_row w' = Some n \<and> edge (status_row w) n \<and> no_reader w)"
  using assms(2)
proof (cases rule: acts.cases)
  case (commit q e n u row')
  with world_ok_phase [OF assms(1) commit(2)] show ?thesis by (auto simp: commit_Inr)
qed (auto simp: commit_Inl)

fun generation_of :: "neo4j_graph_status option \<Rightarrow> int" where
  "generation_of None = 0"
| "generation_of (Some s) = graph_generation_id s"

definition no_earlier :: "world \<Rightarrow> world \<Rightarrow> bool" where
  "no_earlier w w' \<longleftrightarrow> generation_of (status_row w) \<le> generation_of (status_row w') \<and>
     (status_row w \<noteq> None \<longrightarrow> status_row w' \<noteq> None)"

lemma edge_generation: "edge old new \<Longrightarrow> generation_of old \<le> graph_generation_id new"
  by (cases old) (auto simp: edge_def split: if_splits graph_state.splits)

interpretation status: invariant_system somebody_acts world_ok no_earlier
proof
  fix w w' assume "world_ok w" "somebody_acts w w'"
  then obtain p where p: "acts p w w'" by (auto simp: somebody_acts_def)
  show "world_ok w'" by (rule world_ok_acts) fact+
  from row_acts [OF \<open>world_ok w\<close> p] show "no_earlier w w'"
    using edge_generation by (auto simp: no_earlier_def)
qed (auto simp: no_earlier_def)

definition fresh_world :: "neo4j_graph_status option \<Rightarrow> world" where
  "fresh_world row = \<lparr>status_row = row, phase_of = (\<lambda>_. Outside)\<rparr>"

lemma fresh_world_simps [simp]:
  "status_row (fresh_world row) = row" "phase_of (fresh_world row) p = Outside"
  by (simp_all add: fresh_world_def)

lemma fresh_world_ok: "(\<And>s. row = Some s \<Longrightarrow> valid_status s) \<Longrightarrow> world_ok (fresh_world row)"
  by (simp add: world_ok_def fresh_world_def)


section \<open>What the processes are promised\<close>

definition reaches :: "neo4j_graph_status option \<Rightarrow> world \<Rightarrow> bool" where
  "reaches row w \<longleftrightarrow> runs somebody_acts (fresh_world row) w"

lemma reaches_ok: "reaches row w \<Longrightarrow> (\<And>s. row = Some s \<Longrightarrow> valid_status s) \<Longrightarrow> world_ok w"
  unfolding reaches_def by (erule status.inv_runs) (rule fresh_world_ok)

lemma reaches_acts: "reaches row w \<Longrightarrow> acts p w w' \<Longrightarrow> reaches row w'"
  unfolding reaches_def by (erule runs.more) (auto simp: somebody_acts_def)

definition ex_ready :: neo4j_graph_status where
  "ex_ready = \<lparr>graph_status = Ready, graph_generation_id = 3, node_count = 2, edge_count = 1,
     key_label_counts = [(''Entity'', 2)], checksum = ''abc'', last_verified_at = Some 5,
     last_reload_at = None, writer_lock_token = None\<rparr>"

definition ex_locked :: neo4j_graph_status where
  "ex_locked = ex_ready\<lparr>writer_lock_token := Some ''incremental-sync''\<rparr>"

definition ex_syncing :: world where
  "ex_syncing = goes 0 (Syncing CheckBefore ex_ready ex_locked) (fresh_world (Some ex_locked))"

lemma ex_begin: "begin_sync_plan (Some ex_ready) = Inr (Some ex_ready, ex_locked)"
  by code_simp

lemma ex_differ: "ex_locked \<noteq> ex_ready"
  by (simp add: ex_locked_def ex_ready_def)

lemma ex_ready_valid: "valid_status ex_ready"
  by (simp add: valid_status_def ex_ready_def)

lemma ex_reaches: "reaches (Some ex_ready) ex_syncing"
proof -
  let ?w = "fresh_world (Some ex_ready)"
  let ?d = "goes 0 (Deciding (Begin ex_ready) (Some ex_ready) ex_locked) ?w"
  have 0: "reaches (Some ex_ready) ?w" by (simp add: reaches_def runs.rest)
  have "acts 0 ?w ?d" by (rule acts.start) (simp_all add: fresh_world_def ex_begin)
  from reaches_acts [OF 0 this] have 1: "reaches (Some ex_ready) ?d" .
  have "acts 0 ?d (goes 0 (won (Begin ex_ready) ex_locked) (?d\<lparr>status_row := Some ex_locked\<rparr>))"
    by (rule acts.commit) (auto simp: fresh_world_def no_reader_def commit_Inr)
  from reaches_acts [OF 1 this] show ?thesis
    by (simp add: ex_syncing_def goes_def fresh_world_def)
qed

text \<open>
  C12: While a process is between \<open>begin_sync\<close> and the end of its sync, no other process is, no live
  read is in progress, and the row is the locked row it wrote: both checks of the token succeed.
\<close>

theorem live_writer_is_alone:
  assumes "reaches row0 w" and "\<forall>s. row0 = Some s \<longrightarrow> valid_status s" and "phase_of w p = Syncing st r l"
  shows "status_row w = Some l \<and> writer_lock_token l \<noteq> None \<and>
    require_status_token_unchanged (status_row w) l = Inr () \<and>
    (\<forall>q. (\<exists>st' r' l'. phase_of w q = Syncing st' r' l') \<longrightarrow> q = p) \<and>
    (\<forall>q s. phase_of w q \<noteq> Inside s)"
proof -
  have ok: "world_ok w" using assms(1,2) by (intro reaches_ok) auto
  with world_ok_phase [OF ok assms(3)] have row: "status_row w = Some l" "locked l"
    by (auto simp: lock_of_def)
  have "phase_of w q \<noteq> Inside s" for q s using world_ok_phase [OF ok, of q] row by fastforce
  moreover have "q = p" if "phase_of w q = Syncing st' r' l'" for q st' r' l'
    using ok assms(3) that by (auto simp: world_ok_def)
  ultimately show ?thesis
    using row by (auto simp: locked_def require_status_token_unchanged_def get_status_def)
qed

theorem live_writer_is_alone_witness:
  "status_row ex_syncing = Some ex_locked \<and> require_status_token_unchanged (status_row ex_syncing) ex_locked = Inr ()"
  using live_writer_is_alone [OF ex_reaches _, of 0 CheckBefore ex_ready ex_locked]
  by (simp add: ex_ready_valid ex_syncing_def)

text \<open>
  C13: Whatever the interleaving, a step leaves the row alone or moves it along an edge of the contract,
  with no reader inside; a row never disappears and its generation never decreases.
\<close>

theorem status_follows_contract:
  assumes "reaches row0 w" and "\<forall>s. row0 = Some s \<longrightarrow> valid_status s" and "acts p w w'"
  shows "(status_row w' = status_row w \<or>
      (\<exists>n. status_row w' = Some n \<and> edge (status_row w) n \<and> no_reader w)) \<and>
    no_earlier (fresh_world row0) w'"
proof -
  have ok: "world_ok w" using assms(1,2) by (intro reaches_ok) auto
  have "no_earlier (fresh_world row0) w'"
    using reaches_acts [OF assms(1,3)] assms(2) fresh_world_ok [of row0]
    by (auto simp: reaches_def intro: status.ord_runs)
  with row_acts [OF ok assms(3)] show ?thesis by blast
qed

theorem status_follows_contract_witness:
  "edge (Some ex_ready) ex_locked \<and> no_earlier (fresh_world (Some ex_ready)) ex_syncing"
proof -
  let ?w = "fresh_world (Some ex_ready)"
  let ?d = "goes 0 (Deciding (Begin ex_ready) (Some ex_ready) ex_locked) ?w"
  have 1: "acts 0 ?w ?d" by (rule acts.start) (simp_all add: fresh_world_def ex_begin)
  have "acts 0 ?d (goes 0 (won (Begin ex_ready) ex_locked) (?d\<lparr>status_row := Some ex_locked\<rparr>))"
    by (rule acts.commit) (auto simp: fresh_world_def no_reader_def commit_Inr)
  then have "acts 0 ?d ex_syncing" by (simp add: ex_syncing_def goes_def fresh_world_def)
  moreover have "reaches (Some ex_ready) ?d"
    by (rule reaches_acts [OF _ 1]) (simp add: reaches_def runs.rest)
  ultimately show ?thesis
    using status_follows_contract [of "Some ex_ready" ?d 0 ex_syncing]
    by (simp add: ex_ready_valid ex_syncing_def ex_differ)
qed

text \<open>A locked row whose holder is gone.\<close>

definition orphaned :: "neo4j_graph_status \<Rightarrow> world \<Rightarrow> bool" where
  "orphaned l w \<longleftrightarrow> world_ok w \<and> status_row w = Some l \<and> locked l \<and> (\<forall>p. \<not> holding (phase_of w p))"

lemma orphaned_acts:
  assumes "orphaned l w" and "acts p w w'"
  shows "orphaned l w'"
proof -
  have ok: "world_ok w" and row: "status_row w = Some l" "locked l" and free: "\<not> holding (phase_of w p)" for p
    using assms(1) by (auto simp: orphaned_def)
  have "status_row w' = Some l \<and> (\<forall>x. \<not> holding (phase_of w' x))"
    using assms(2)
  proof (cases rule: acts.cases)
    case (commit q e n u row')
    with world_ok_phase [OF ok commit(2)] row free [of p] show ?thesis
      by (cases q) (auto simp: commit_Inr)
  next
    case (reject q e n err row')
    with row free show ?thesis using free [of p] by (cases q) (auto simp: commit_Inl)
  next
    case (call opn e n)
    then show ?thesis using row free by auto
  qed (use row free free [of p] in \<open>auto simp: commit_Inl\<close>)
  with world_ok_acts [OF ok assms(2)] row show ?thesis by (simp add: orphaned_def)
qed

interpretation orphan: invariant_system somebody_acts "orphaned l" "\<lambda>_ _. True" for l
  by unfold_locales (auto simp: somebody_acts_def intro: orphaned_acts)

text \<open>
  C14: When a process dies while it holds the row, the row stays as it is for ever: no read, no rebuild,
  no failure mark, no verification and no other sync gets past it.
\<close>

theorem orphaned_lock_is_final:
  assumes "reaches row0 w" and "\<forall>s. row0 = Some s \<longrightarrow> valid_status s" and "phase_of w p = Syncing st r l"
    and "runs somebody_acts (goes p Outside w) w'"
  shows "status_row w' = Some l \<and> (\<forall>q s. phase_of w' q \<noteq> Inside s) \<and>
    (\<forall>q st r' l'. phase_of w' q \<noteq> Syncing st r' l')"
proof -
  have ok: "world_ok w" using assms(1,2) by (intro reaches_ok) auto
  have "\<not> holding (phase_of w q)" if "q \<noteq> p" for q
    using ok assms(3) that by (auto simp: world_ok_def)
  moreover have "world_ok (goes p Outside w)" by (rule world_ok_goes [OF ok]) simp_all
  moreover have "status_row w = Some l \<and> locked l"
    using world_ok_phase [OF ok assms(3)] by (simp add: lock_of_def)
  ultimately have "orphaned l (goes p Outside w)" by (simp add: orphaned_def)
  with assms(4) have *: "orphaned l w'" by (rule orphan.inv_runs)
  then have "phase_of w' q \<noteq> Inside s" for q s
    using world_ok_phase [of w' q] by (fastforce simp: orphaned_def)
  moreover have "phase_of w' q \<noteq> Syncing st r' l'" for q st r' l'
    using * by (metis holding.simps(1) orphaned_def)
  ultimately show ?thesis using * by (simp add: orphaned_def)
qed

theorem orphaned_lock_is_final_witness:
  "status_row (goes 0 Outside ex_syncing) = Some ex_locked"
  using orphaned_lock_is_final [OF ex_reaches _, of 0 CheckBefore ex_ready ex_locked "goes 0 Outside ex_syncing"]
  by (simp add: ex_ready_valid ex_syncing_def runs.rest)

section \<open>A writer nobody interrupts\<close>

lemma strip_failed: "py_strip ''failed'' = ''failed''"
  by code_simp

lemma give_up_succeeds:
  assumes "lock_of r l" and "0 \<le> graph_generation_id l"
  shows "\<exists>n. mark_sync_failed_safely (Some l) l = Some n \<and> graph_status n = Failed \<and> \<not> locked n \<and>
    graph_generation_id n = graph_generation_id l"
  using assms
  by (auto simp: mark_sync_failed_safely_def perform_def mark_sync_failed_plan_def lock_of_def locked_def
      new_status_def strip_failed commit_transition_def compare_and_write_iff)

lemma sync_body_outcome:
  assumes "lock_of r l"
  shows "case sync_body sync measure_graph now r l (Some l) g of (res, row', g') \<Rightarrow>
    g' = snd (sync g) \<and>
    (if returns (fst (sync g)) \<and> returns (res_bind (measure_graph g') (\<lambda>m. ready_status_from_live_graph m r now))
     then res = Inr () \<and> (\<exists>m s. measure_graph g' = Inr m \<and> ready_status_from_live_graph m r now = Inr s \<and> row' = Some s)
     else (\<exists>e. res = Inl e) \<and> row' = Some l)"
proof -
  have same: "require_status_token_unchanged (Some l) l = Inr ()"
    by (simp add: require_status_token_unchanged_def get_status_def)
  obtain u g' where sync: "sync g = (u, g')" by fastforce
  show ?thesis
  proof (cases u)
    case (Inl e)
    with sync show ?thesis by (simp add: sync_body_def same)
  next
    case (Inr x)
    show ?thesis
    proof (cases "res_bind (measure_graph g') (\<lambda>m. ready_status_from_live_graph m r now)")
      case Fail: (Inl e)
      with sync Inr show ?thesis by (simp add: sync_body_def same)
    next
      case Done: (Inr s)
      then obtain m where m: "measure_graph g' = Inr m" "ready_status_from_live_graph m r now = Inr s"
        by (auto simp: res_bind_eq_Inr)
      have "finish_sync_plan l s = Inr (Some l, s)"
        using ready_status_Inr [OF m(2)] assms by (simp add: plan_Finish lock_of_def)
      with sync Inr m show ?thesis
        by (simp add: sync_body_def same perform_def commit_transition_def compare_and_write_iff)
    qed
  qed
qed

text \<open>
  A promotion that nobody interrupts always gives the row back: as ready, one generation on, with
  what was measured, when the sync and the measurement succeed, and as failed, in the same generation,
  when anything raised.
\<close>

theorem sync_gives_row_back:
  assumes "begin_sync_plan row = Inr (Some r, l)"
    and "sync_live_graph_with_status_barrier sync measure_graph now row g = (res, row', g')"
  shows "g' = snd (sync g) \<and>
    (if returns (fst (sync g)) \<and> returns (res_bind (measure_graph g') (\<lambda>m. ready_status_from_live_graph m r now))
     then res = Inr () \<and> (\<exists>m s. measure_graph g' = Inr m \<and> ready_status_from_live_graph m r now = Inr s \<and>
       row' = Some s \<and> graph_status s = Ready \<and> \<not> locked s \<and> graph_generation_id s = graph_generation_id r + 1)
     else (\<exists>e. res = Inl e) \<and> (\<exists>s. row' = Some s \<and> graph_status s = Failed \<and> \<not> locked s \<and>
       graph_generation_id s = graph_generation_id r))"
proof -
  from begin_sync_plan_Inr [OF assms(1)] have row: "row = Some r" and lock: "lock_of r l"
    and "valid_status l" by (auto simp: lock_of_def edge_def)
  then have pos: "0 \<le> graph_generation_id l" by (simp add: valid_status_def)
  obtain res1 row1 g1 where body: "sync_body sync measure_graph now r l (Some l) g = (res1, row1, g1)"
    by (metis prod_cases3)
  have run: "(res, row', g') = (case (res1, row1, g1) of
      (Inl e, row'', g') \<Rightarrow> (Inl e, mark_sync_failed_safely row'' l, g')
    | (Inr _, row'', g') \<Rightarrow> (Inr (), row'', g'))"
    using assms(2) row
    by (simp add: sync_live_graph_with_status_barrier_def assms(1) [unfolded row] commit_transition_def
        compare_and_write_iff body)
  from sync_body_outcome [OF lock, where sync = sync and measure_graph = measure_graph and now = now and g = g]
  have "g1 = snd (sync g) \<and>
    (if returns (fst (sync g)) \<and> returns (res_bind (measure_graph g1) (\<lambda>m. ready_status_from_live_graph m r now))
     then res1 = Inr () \<and> (\<exists>m s. measure_graph g1 = Inr m \<and> ready_status_from_live_graph m r now = Inr s \<and> row1 = Some s)
     else (\<exists>e. res1 = Inl e) \<and> row1 = Some l)"
    unfolding body prod.case .
  then have out: "g1 = snd (sync g)" and
    "if returns (fst (sync g)) \<and> returns (res_bind (measure_graph g1) (\<lambda>m. ready_status_from_live_graph m r now))
     then res1 = Inr () \<and> (\<exists>m s. measure_graph g1 = Inr m \<and> ready_status_from_live_graph m r now = Inr s \<and> row1 = Some s)
     else (\<exists>e. res1 = Inl e) \<and> row1 = Some l"
    by (rule conjunct1, rule conjunct2)
  then consider "returns (fst (sync g))"
      "returns (res_bind (measure_graph g1) (\<lambda>m. ready_status_from_live_graph m r now))"
      "res1 = Inr ()" "\<exists>m s. measure_graph g1 = Inr m \<and> ready_status_from_live_graph m r now = Inr s \<and> row1 = Some s"
    | "\<not> (returns (fst (sync g)) \<and> returns (res_bind (measure_graph g1) (\<lambda>m. ready_status_from_live_graph m r now)))"
      "\<exists>e. res1 = Inl e" "row1 = Some l"
    by (auto split: if_splits)
  then show ?thesis
  proof cases
    case 1
    with run out show ?thesis by (auto dest: ready_status_Inr)
  next
    case 2
    from 2(2,3) run have g': "g' = g1" and res: "\<exists>e. res = Inl e"
      and row': "row' = mark_sync_failed_safely (Some l) l" by auto
    from give_up_succeeds [OF lock pos] lock
    have "\<exists>s. row' = Some s \<and> graph_status s = Failed \<and> \<not> locked s \<and> graph_generation_id s = graph_generation_id r"
      by (auto simp: row' lock_of_def)
    with out res show ?thesis unfolding g' if_not_P [OF 2(1)] by blast
  qed
qed

theorem sync_gives_row_back_witness:
  "fst (sync_live_graph_with_status_barrier (\<lambda>g. (Inr (), g + 1)) (\<lambda>g. Inr (g, 1, [], ''d'')) 9
      (Some ex_ready) 4) = Inr ()"
proof -
  obtain res row' g' where run: "sync_live_graph_with_status_barrier (\<lambda>g. (Inr (), g + 1))
      (\<lambda>g. Inr (g, 1, [], ''d'')) 9 (Some ex_ready) (4 :: int) = (res, row', g')"
    by (metis prod_cases3)
  have "ready_status_from_live_graph (5, 1, [], ''d'') ex_ready 9 =
      Inr (ex_ready\<lparr>graph_generation_id := 4, node_count := 5, key_label_counts := [], checksum := ''d'',
        last_verified_at := Some 9\<rparr>)" by code_simp
  with sync_gives_row_back [OF ex_begin run] run show ?thesis by simp
qed

text \<open>
  In a store that starts empty, every row any process ever leaves satisfies the constraints of the
  model and of the table: no negative count, no empty checksum or token, a lock only on a ready row.
\<close>

theorem stored_rows_are_valid:
  assumes "reaches None w" and "status_row w = Some s"
  shows "0 \<le> graph_generation_id s \<and> 0 \<le> node_count s \<and> 0 \<le> edge_count s \<and> checksum s \<noteq> [] \<and>
    writer_lock_token s \<noteq> Some [] \<and> (writer_lock_token s = None \<or> graph_status s = Ready)"
proof -
  have "world_ok w" using assms(1) by (rule reaches_ok) simp
  with assms(2) show ?thesis by (simp add: world_ok_def valid_status_def)
qed

definition ex_rebuilding :: neo4j_graph_status where
  "ex_rebuilding = \<lparr>graph_status = Rebuilding, graph_generation_id = 0, node_count = 0, edge_count = 0,
     key_label_counts = [], checksum = ''rebuilding'', last_verified_at = None, last_reload_at = None,
     writer_lock_token = None\<rparr>"

theorem stored_rows_are_valid_witness: "checksum ex_rebuilding \<noteq> []"
proof -
  let ?w = "fresh_world None"
  let ?d = "goes 0 (Deciding Call None ex_rebuilding) ?w"
  have plan: "plan_of MarkRebuilding None = Inr (None, ex_rebuilding)" by code_simp
  have "acts 0 ?w ?d" by (rule acts.call [of ?w, where opn = MarkRebuilding]) (use plan in simp_all)
  then have 1: "reaches None ?d" by (rule reaches_acts [rotated]) (simp add: reaches_def runs.rest)
  let ?e = "goes 0 (won Call ex_rebuilding) (?d\<lparr>status_row := Some ex_rebuilding\<rparr>)"
  have "acts 0 ?d ?e" by (rule acts.commit) (auto simp: no_reader_def commit_Inr)
  with 1 have "reaches None ?e" by (rule reaches_acts)
  from stored_rows_are_valid [OF this, of ex_rebuilding] show ?thesis by simp
qed

end
