(* ===== verification/Queue.thy ===== *)
theory Queue
  imports Prelude
begin

text \<open>
  The candidate queue of \<open>data-platform\<close>: \<open>queue/models.py\<close>, \<open>queue/validation.py\<close> (the producer
  envelope), \<open>queue/repository.py\<close> (the table), \<open>queue/api.py\<close> (submission) and \<open>queue/worker.py\<close>
  (the validation pass). The table is that of the migrations \<open>0002\<close> and \<open>0006\<close>: two sequences
  that only count up, the check that a payload carries no ingest metadata, and the partial unique
  index on the \<open>delta_id\<close> of an Ex-3 payload. A statement that fails leaves the rows alone; the
  sequences it has read stay advanced.
\<close>

section \<open>Rows\<close>

datatype validation_status = Unchecked | Accepted | Rejected

record queue_item =
  q_id :: int
  q_payload_type :: string
  q_payload :: pydict
  q_submitted_by :: string
  q_submitted_at :: int
  q_ingest_seq :: int
  q_status :: validation_status
  q_reason :: "string option"

record queue_db =
  candidates :: "queue_item list"
  next_id :: int
  next_seq :: int

definition empty_queue :: queue_db where
  "empty_queue = \<lparr>candidates = [], next_id = 1, next_seq = 1\<rparr>"

datatype queue_error =
    CandidateValidationError string
  | ForbiddenIngestMetadataError string
  | CandidateQueueWriteError
  | QueueValueError
  | UnexpectedError py_error

section \<open>The producer envelope\<close>

definition forbidden_producer_fields :: "string list" where
  "forbidden_producer_fields =
     [''dbt_log_path'', ''dsn'', ''ex_type'', ''ingest_seq'', ''layer_b_receipt_id'', ''produced_at'',
      ''provider_payload'', ''provider_response'', ''raw_payload'', ''raw_payload_path'',
      ''runtime_path'', ''submitted_at'']"

definition candidate_payload_types :: "string list" where
  "candidate_payload_types = [''Ex-0'', ''Ex-1'', ''Ex-2'', ''Ex-3'']"

fun join_comma :: "string list \<Rightarrow> string" where
  "join_comma [] = []"
| "join_comma [s] = s"
| "join_comma (s # t # ss) = s @ '', '' @ join_comma (t # ss)"

text \<open>\<open>str\<close> of a list of names.\<close>

definition names_str :: "string list \<Rightarrow> string" where
  "names_str ns = ''['' @ join_comma (map (\<lambda>n. [CHR 0x27] @ n @ [CHR 0x27]) ns) @ '']''"

definition reject_forbidden_ingest_metadata :: "pydict \<Rightarrow> queue_error + unit" where
  "reject_forbidden_ingest_metadata payload =
     (let forbidden = filter (dhas payload) forbidden_producer_fields in
      if forbidden \<noteq> []
      then Inl (ForbiddenIngestMetadataError
        (''producer payload must not include PostgreSQL ingest metadata fields: '' @ names_str forbidden))
      else Inr ())"

definition validate_payload_type :: "pyval \<Rightarrow> queue_error + unit" where
  "validate_payload_type v =
     (case v of
        PStr s \<Rightarrow>
          if s \<in> set candidate_payload_types then Inr ()
          else Inl (CandidateValidationError (''payload_type must be one of '' @ names_str candidate_payload_types))
      | _ \<Rightarrow> Inl (CandidateValidationError (''payload_type must be one of '' @ names_str candidate_payload_types)))"

definition validate_submitted_by :: "pyval \<Rightarrow> queue_error + unit" where
  "validate_submitted_by v =
     (case v of
        PStr s \<Rightarrow>
          if py_strip s = []
          then Inl (CandidateValidationError ''submitted_by is required and must be a non-empty string'')
          else Inr ()
      | _ \<Rightarrow> Inl (CandidateValidationError ''submitted_by is required and must be a non-empty string''))"

record envelope =
  e_payload_type :: string
  e_submitted_by :: string
  e_payload :: pydict

text \<open>
  \<open>CandidateEnvelope.__post_init__\<close>. A dynamic value has string keys only and is serializable, so
  \<open>_validate_string_keys\<close> and \<open>_validate_json_serializable\<close> never raise on it.
\<close>

definition new_envelope :: "string \<Rightarrow> string \<Rightarrow> pydict \<Rightarrow> queue_error + envelope" where
  "new_envelope payload_type submitted_by payload =
     res_bind (validate_payload_type (PStr payload_type)) (\<lambda>_.
     res_bind (validate_submitted_by (PStr submitted_by)) (\<lambda>_.
     res_bind (reject_forbidden_ingest_metadata payload) (\<lambda>_.
       Inr \<lparr>e_payload_type = payload_type, e_submitted_by = submitted_by, e_payload = payload\<rparr>)))"

definition text_of :: "pyval \<Rightarrow> string" where
  "text_of v = (case v of PStr s \<Rightarrow> s | _ \<Rightarrow> [])"

definition validate_candidate_envelope :: "pyval \<Rightarrow> queue_error + envelope" where
  "validate_candidate_envelope v =
     (case v of
        PDict payload \<Rightarrow>
          res_bind (reject_forbidden_ingest_metadata payload) (\<lambda>_.
          res_bind (validate_payload_type (dget payload ''payload_type'')) (\<lambda>_.
          res_bind (validate_submitted_by (dget payload ''submitted_by'')) (\<lambda>_.
            new_envelope (text_of (dget payload ''payload_type'')) (text_of (dget payload ''submitted_by''))
              payload)))
      | _ \<Rightarrow> Inl (CandidateValidationError ''candidate payload must be a JSON object mapping''))"

text \<open>The worker's default validator.\<close>

definition envelope_validator :: "queue_item \<Rightarrow> queue_error + unit" where
  "envelope_validator item =
     res_bind (validate_candidate_envelope (PDict (q_payload item))) (\<lambda>env.
       if e_payload_type env \<noteq> q_payload_type item
       then Inl (CandidateValidationError
         (''candidate payload_type does not match candidate_queue payload_type: '' @
          e_payload_type env @ '' != '' @ q_payload_type item))
       else if e_submitted_by env \<noteq> q_submitted_by item
       then Inl (CandidateValidationError
         (''candidate submitted_by does not match candidate_queue submitted_by: '' @
          e_submitted_by env @ '' != '' @ q_submitted_by item))
       else Inr ())"

section \<open>The table\<close>

text \<open>The text of \<open>payload->>'delta_id'\<close> where the partial index covers the row.\<close>

definition delta_of :: "string \<Rightarrow> pydict \<Rightarrow> string option" where
  "delta_of payload_type payload =
     (case dget payload ''delta_id'' of
        PStr d \<Rightarrow> if payload_type = ''Ex-3'' \<and> d \<noteq> [] then Some d else None
      | _ \<Rightarrow> None)"

definition indexed :: "string \<Rightarrow> string \<Rightarrow> queue_item \<Rightarrow> bool" where
  "indexed who d item \<longleftrightarrow>
     q_submitted_by item = who \<and> delta_of (q_payload_type item) (q_payload item) = Some d"

definition new_item :: "envelope \<Rightarrow> int \<Rightarrow> queue_db \<Rightarrow> queue_item" where
  "new_item env now db =
     \<lparr>q_id = next_id db, q_payload_type = e_payload_type env, q_payload = e_payload env,
      q_submitted_by = e_submitted_by env, q_submitted_at = now, q_ingest_seq = next_seq db,
      q_status = Unchecked, q_reason = None\<rparr>"

definition advance :: "queue_db \<Rightarrow> queue_db" where
  "advance db = db\<lparr>next_id := next_id db + 1, next_seq := next_seq db + 1\<rparr>"

definition payload_excludes_ingest_metadata :: "pydict \<Rightarrow> bool" where
  "payload_excludes_ingest_metadata payload \<longleftrightarrow>
     \<not> dhas payload ''submitted_at'' \<and> \<not> dhas payload ''ingest_seq''"

definition conflicts :: "envelope \<Rightarrow> queue_db \<Rightarrow> bool" where
  "conflicts env db =
     (case delta_of (e_payload_type env) (e_payload env) of
        None \<Rightarrow> False
      | Some d \<Rightarrow> list_ex (indexed (e_submitted_by env) d) (candidates db))"

definition insert_candidate :: "envelope \<Rightarrow> int \<Rightarrow> queue_db \<Rightarrow> (queue_error + queue_item) \<times> queue_db" where
  "insert_candidate env now db =
     (if \<not> payload_excludes_ingest_metadata (e_payload env) \<or> conflicts env db
      then (Inl CandidateQueueWriteError, advance db)
      else (Inr (new_item env now db), (advance db)\<lparr>candidates := candidates db @ [new_item env now db]\<rparr>))"

record receipt =
  rc_item :: queue_item
  rc_replayed :: bool

definition first_indexed :: "string \<Rightarrow> string \<Rightarrow> queue_db \<Rightarrow> queue_item option" where
  "first_indexed who d db =
     (case sort_key q_ingest_seq (filter (indexed who d) (candidates db)) of
        [] \<Rightarrow> None
      | item # _ \<Rightarrow> Some item)"

definition insert_candidate_idempotent ::
  "envelope \<Rightarrow> int \<Rightarrow> queue_db \<Rightarrow> (queue_error + receipt) \<times> queue_db" where
  "insert_candidate_idempotent env now db =
     (case delta_of (e_payload_type env) (e_payload env) of
        None \<Rightarrow>
          (case insert_candidate env now db of
             (Inl e, db') \<Rightarrow> (Inl e, db')
           | (Inr item, db') \<Rightarrow> (Inr \<lparr>rc_item = item, rc_replayed = False\<rparr>, db'))
      | Some d \<Rightarrow>
          if \<not> payload_excludes_ingest_metadata (e_payload env) then (Inl CandidateQueueWriteError, advance db)
          else if conflicts env db
          then (case first_indexed (e_submitted_by env) d db of
                  None \<Rightarrow> (Inl CandidateQueueWriteError, advance db)
                | Some item \<Rightarrow> (Inr \<lparr>rc_item = item, rc_replayed = True\<rparr>, advance db))
          else (Inr \<lparr>rc_item = new_item env now db, rc_replayed = False\<rparr>,
                (advance db)\<lparr>candidates := candidates db @ [new_item env now db]\<rparr>))"

definition submit_candidate :: "pyval \<Rightarrow> int \<Rightarrow> queue_db \<Rightarrow> (queue_error + queue_item) \<times> queue_db" where
  "submit_candidate payload now db =
     (case validate_candidate_envelope payload of
        Inl e \<Rightarrow> (Inl e, db)
      | Inr env \<Rightarrow> insert_candidate env now db)"

definition submit_candidate_idempotent ::
  "pyval \<Rightarrow> int \<Rightarrow> queue_db \<Rightarrow> (queue_error + receipt) \<times> queue_db" where
  "submit_candidate_idempotent payload now db =
     (case validate_candidate_envelope payload of
        Inl e \<Rightarrow> (Inl e, db)
      | Inr env \<Rightarrow> insert_candidate_idempotent env now db)"

section \<open>The validation pass\<close>

text \<open>\<open>FOR UPDATE SKIP LOCKED\<close>: \<open>free\<close> tells the rows no other transaction has locked.\<close>

definition fetch_pending_for_update ::
  "(queue_item \<Rightarrow> bool) \<Rightarrow> int \<Rightarrow> queue_db \<Rightarrow> queue_error + queue_item list" where
  "fetch_pending_for_update free limit db =
     (if limit < 1 then Inl QueueValueError
      else Inr (take (nat limit)
        (sort_key q_ingest_seq (filter (\<lambda>c. q_status c = Unchecked \<and> free c) (candidates db)))))"

definition mark_validation_result ::
  "int \<Rightarrow> validation_status \<Rightarrow> string option \<Rightarrow> queue_db \<Rightarrow> queue_error + queue_db" where
  "mark_validation_result cid status reason db =
     (if status \<notin> {Accepted, Rejected} then Inl QueueValueError
      else if status = Accepted \<and> reason \<noteq> None then Inl QueueValueError
      else if status = Rejected \<and> reason = None then Inl QueueValueError
      else Inr (db\<lparr>candidates := map (\<lambda>c. if q_id c = cid \<and> q_status c = Unchecked
                  then c\<lparr>q_status := status, q_reason := reason\<rparr> else c) (candidates db)\<rparr>))"

definition rejection_reason_max_chars :: nat where
  "rejection_reason_max_chars = 1000"

definition format_rejection_reason :: "string \<Rightarrow> string \<Rightarrow> string" where
  "format_rejection_reason cls message =
     (let reason = (if py_strip message = [] then cls else py_strip message) in
      if length reason \<le> rejection_reason_max_chars then reason
      else take rejection_reason_max_chars reason)"

definition count_one :: "string \<Rightarrow> (string \<times> nat) list \<Rightarrow> (string \<times> nat) list" where
  "count_one k m = dput k (case map_of m k of None \<Rightarrow> 1 | Some n \<Rightarrow> n + 1) m"

record validation_pass =
  vp_db :: queue_db
  vp_accepted :: nat
  vp_rejected :: nat
  vp_reasons :: "(string \<times> nat) list"
  vp_types :: "(string \<times> nat) list"

definition reject_one ::
  "string \<Rightarrow> string \<Rightarrow> queue_item \<Rightarrow> validation_pass \<Rightarrow> queue_error + validation_pass" where
  "reject_one cls message c s =
     (let reason = format_rejection_reason cls message in
      res_map (\<lambda>db. s\<lparr>vp_db := db, vp_rejected := vp_rejected s + 1,
          vp_reasons := count_one reason (vp_reasons s), vp_types := count_one cls (vp_types s)\<rparr>)
        (mark_validation_result (q_id c) Rejected (Some reason) (vp_db s)))"

definition validate_one ::
  "(queue_item \<Rightarrow> queue_error + unit) \<Rightarrow> queue_item \<Rightarrow> validation_pass \<Rightarrow> queue_error + validation_pass" where
  "validate_one validator c s =
     (case validator c of
        Inl (CandidateValidationError m) \<Rightarrow> reject_one ''CandidateValidationError'' m c s
      | Inl (ForbiddenIngestMetadataError m) \<Rightarrow> reject_one ''ForbiddenIngestMetadataError'' m c s
      | Inl e \<Rightarrow> Inl e
      | Inr _ \<Rightarrow>
          res_map (\<lambda>db. s\<lparr>vp_db := db, vp_accepted := vp_accepted s + 1\<rparr>)
            (mark_validation_result (q_id c) Accepted None (vp_db s)))"

record validation_summary =
  scanned :: nat
  accepted :: nat
  rejected :: nat
  rejection_counts :: "(string \<times> nat) list"
  rejections_by_reason_type :: "(string \<times> nat) list"

text \<open>One transaction: whatever raises, the rows are those before the pass.\<close>

definition validate_pending_candidates ::
  "(queue_item \<Rightarrow> queue_error + unit) \<Rightarrow> (queue_item \<Rightarrow> bool) \<Rightarrow> int \<Rightarrow> queue_db \<Rightarrow>
   (queue_error + validation_summary) \<times> queue_db" where
  "validate_pending_candidates validator free limit db =
     (if limit < 1 then (Inl QueueValueError, db)
      else case res_bind (fetch_pending_for_update free limit db) (\<lambda>cs.
          res_map (\<lambda>s. (length cs, s))
            (res_fold (validate_one validator) cs
               \<lparr>vp_db = db, vp_accepted = 0, vp_rejected = 0, vp_reasons = [], vp_types = []\<rparr>)) of
        Inl e \<Rightarrow> (Inl e, db)
      | Inr (n, s) \<Rightarrow>
          (Inr \<lparr>scanned = n, accepted = vp_accepted s, rejected = vp_rejected s,
             rejection_counts = sort_key fst (vp_reasons s),
             rejections_by_reason_type = sort_key fst (vp_types s)\<rparr>, vp_db s))"

section \<open>The invariant of the table\<close>

definition item_ok :: "queue_db \<Rightarrow> queue_item \<Rightarrow> bool" where
  "item_ok db c \<longleftrightarrow> 1 \<le> q_id c \<and> q_id c < next_id db \<and> 1 \<le> q_ingest_seq c \<and> q_ingest_seq c < next_seq db \<and>
     payload_excludes_ingest_metadata (q_payload c) \<and> (q_reason c \<noteq> None \<longleftrightarrow> q_status c = Rejected)"

definition one_per_delta :: "queue_item list \<Rightarrow> bool" where
  "one_per_delta cs \<longleftrightarrow> (\<forall>c \<in> set cs. \<forall>c' \<in> set cs. q_id c \<noteq> q_id c' \<longrightarrow>
     (\<forall>who d. \<not> (indexed who d c \<and> indexed who d c')))"

lemma one_per_deltaD: "one_per_delta cs \<Longrightarrow> c \<in> set cs \<Longrightarrow> c' \<in> set cs \<Longrightarrow>
    indexed who d c \<Longrightarrow> indexed who d c' \<Longrightarrow> q_id c' = q_id c"
  by (metis one_per_delta_def)

lemma one_per_delta_snoc:
  "one_per_delta cs \<Longrightarrow> (\<And>c who d. c \<in> set cs \<Longrightarrow> indexed who d n \<Longrightarrow> \<not> indexed who d c) \<Longrightarrow>
   one_per_delta (cs @ [n])"
  by (simp add: one_per_delta_def) metis

definition queue_ok :: "queue_db \<Rightarrow> bool" where
  "queue_ok db \<longleftrightarrow> 1 \<le> next_id db \<and> 1 \<le> next_seq db \<and>
     distinct (map q_id (candidates db)) \<and> distinct (map q_ingest_seq (candidates db)) \<and>
     (\<forall>c \<in> set (candidates db). item_ok db c) \<and> one_per_delta (candidates db)"

lemma empty_queue_ok: "queue_ok empty_queue"
  by (simp add: queue_ok_def empty_queue_def one_per_delta_def)

lemma advance_simps [simp]:
  "candidates (advance db) = candidates db" "next_id (advance db) = next_id db + 1"
  "next_seq (advance db) = next_seq db + 1"
  by (simp_all add: advance_def)

lemma advance_ok: "queue_ok db \<Longrightarrow> queue_ok (advance db)"
  by (auto simp: queue_ok_def item_ok_def)

lemma not_conflicting: "\<not> conflicts env db \<Longrightarrow> c \<in> set (candidates db) \<Longrightarrow>
    indexed who d (new_item env now db) \<Longrightarrow> \<not> indexed who d c"
  by (auto simp: conflicts_def indexed_def new_item_def list_ex_iff split: option.splits)

lemma append_ok:
  assumes "queue_ok db" and "payload_excludes_ingest_metadata (e_payload env)" and "\<not> conflicts env db"
  shows "queue_ok ((advance db)\<lparr>candidates := candidates db @ [new_item env now db]\<rparr>)"
proof -
  let ?n = "new_item env now db"
  have fresh: "q_id ?n \<notin> set (map q_id (candidates db))" "q_ingest_seq ?n \<notin> set (map q_ingest_seq (candidates db))"
    using assms(1) by (auto simp: queue_ok_def item_ok_def new_item_def)
  have "one_per_delta (candidates db @ [?n])"
    using assms(1) not_conflicting [OF assms(3)] by (intro one_per_delta_snoc) (simp_all add: queue_ok_def)
  moreover have "item_ok ((advance db)\<lparr>candidates := candidates db @ [?n]\<rparr>) c"
    if "c \<in> set (candidates db @ [?n])" for c
    using that assms(1,2) by (auto simp: queue_ok_def item_ok_def new_item_def)
  ultimately show ?thesis using assms(1) fresh by (auto simp: queue_ok_def)
qed

text \<open>Rows revised in place: only the status and the reason of a row may change.\<close>

definition revises :: "(queue_item \<Rightarrow> queue_item) \<Rightarrow> bool" where
  "revises f \<longleftrightarrow> (\<forall>c. \<exists>st r. f c = c\<lparr>q_status := st, q_reason := r\<rparr>)"

lemma revises_fields: "revises f \<Longrightarrow> q_id (f c) = q_id c \<and> q_ingest_seq (f c) = q_ingest_seq c \<and>
    q_payload (f c) = q_payload c \<and> q_payload_type (f c) = q_payload_type c \<and>
    q_submitted_by (f c) = q_submitted_by c \<and> q_submitted_at (f c) = q_submitted_at c"
proof -
  assume "revises f"
  then obtain st r where "f c = c\<lparr>q_status := st, q_reason := r\<rparr>" unfolding revises_def by blast
  then show ?thesis by simp
qed

lemma revised_ok:
  assumes "queue_ok db" and "revises f"
    and "\<And>c. c \<in> set (candidates db) \<Longrightarrow> (q_reason (f c) \<noteq> None \<longleftrightarrow> q_status (f c) = Rejected)"
  shows "queue_ok (db\<lparr>candidates := map f (candidates db)\<rparr>)"
proof -
  note fields = revises_fields [OF assms(2)]
  have "q_id \<circ> f = q_id" "q_ingest_seq \<circ> f = q_ingest_seq"
    by (simp_all add: fun_eq_iff fields)
  moreover have "one_per_delta (map f (candidates db))"
    using assms(1) by (auto simp: queue_ok_def one_per_delta_def indexed_def fields)
  ultimately show ?thesis
    using assms(1,3) by (auto simp: queue_ok_def item_ok_def fields)
qed

section \<open>Submission\<close>

lemma insert_candidate_ok: "queue_ok db \<Longrightarrow> queue_ok (snd (insert_candidate env now db))"
  by (auto simp: insert_candidate_def advance_ok append_ok)

lemma insert_idempotent_ok: "queue_ok db \<Longrightarrow> queue_ok (snd (insert_candidate_idempotent env now db))"
  using insert_candidate_ok [of db env now]
  by (auto simp: insert_candidate_idempotent_def advance_ok append_ok split: option.splits prod.splits sum.splits)

lemma submit_ok: "queue_ok db \<Longrightarrow> queue_ok (snd (submit_candidate payload now db))"
  by (auto simp: submit_candidate_def insert_candidate_ok split: sum.splits)

lemma submit_idempotent_ok: "queue_ok db \<Longrightarrow> queue_ok (snd (submit_candidate_idempotent payload now db))"
  by (auto simp: submit_candidate_idempotent_def insert_idempotent_ok split: sum.splits)

lemma filter_unique:
  "distinct (map k xs) \<Longrightarrow> x \<in> set xs \<Longrightarrow> P x \<Longrightarrow> (\<And>y. y \<in> set xs \<Longrightarrow> P y \<Longrightarrow> k y = k x) \<Longrightarrow> filter P xs = [x]"
proof (induction xs)
  case Nil
  then show ?case by simp
next
  case (Cons y ys)
  show ?case
  proof (cases "y = x")
    case True
    have "\<not> P z" if z: "z \<in> set ys" for z
    proof
      assume "P z"
      with Cons.prems(4) [of z] z True have "k z = k y" by simp
      with Cons.prems(1) z show False by (metis distinct.simps(2) image_eqI list.map(2) list.set_map)
    qed
    with True Cons.prems(3) show ?thesis by (simp add: filter_empty_conv)
  next
    case False
    with Cons.prems(2) have x: "x \<in> set ys" by simp
    have "\<not> P y"
    proof
      assume "P y"
      with Cons.prems(4) [of y] have "k y = k x" by simp
      with Cons.prems(1) x show False by (metis distinct.simps(2) image_eqI list.map(2) list.set_map)
    qed
    with Cons.IH [OF _ x Cons.prems(3)] Cons.prems(1,4) show ?thesis by simp
  qed
qed

text \<open>The row the unique index finds.\<close>

lemma first_indexed_eq:
  assumes "queue_ok db" and "c \<in> set (candidates db)" and "indexed who d c"
  shows "first_indexed who d db = Some c"
proof -
  have "filter (indexed who d) (candidates db) = [c]"
  proof (rule filter_unique [where k = q_id])
    show "distinct (map q_id (candidates db))" using assms(1) by (simp add: queue_ok_def)
    fix c' assume "c' \<in> set (candidates db)" "indexed who d c'"
    with assms show "q_id c' = q_id c" by (auto simp: queue_ok_def intro: one_per_deltaD)
  qed (use assms in simp_all)
  then show ?thesis by (simp add: first_indexed_def)
qed

lemma new_item_indexed: "delta_of (e_payload_type env) (e_payload env) = Some d \<Longrightarrow>
    indexed (e_submitted_by env) d (new_item env now db)"
  by (simp add: indexed_def new_item_def)

lemma indexed_conflicts: "delta_of (e_payload_type env) (e_payload env) = Some d \<Longrightarrow>
    c \<in> set (candidates db) \<Longrightarrow> indexed (e_submitted_by env) d c \<Longrightarrow> conflicts env db"
  by (auto simp: conflicts_def list_ex_iff)

lemma not_forbidden: "reject_forbidden_ingest_metadata payload = Inr u \<Longrightarrow> payload_excludes_ingest_metadata payload"
  by (simp add: reject_forbidden_ingest_metadata_def payload_excludes_ingest_metadata_def Let_def
      filter_empty_conv forbidden_producer_fields_def split: if_splits)

lemma envelope_excludes:
  "validate_candidate_envelope payload = Inr env \<Longrightarrow>
   payload_excludes_ingest_metadata (e_payload env) \<and> e_payload env = as_dict payload"
  by (cases payload) (auto simp: validate_candidate_envelope_def new_envelope_def res_bind_eq_Inr not_forbidden)

text \<open>The row of a delta that some submission has entered.\<close>

definition holds_delta :: "envelope \<Rightarrow> string \<Rightarrow> int \<Rightarrow> queue_db \<Rightarrow> bool" where
  "holds_delta env d cid db \<longleftrightarrow> (\<exists>c \<in> set (candidates db). q_id c = cid \<and> indexed (e_submitted_by env) d c)"

lemma idempotent_receipt:
  assumes "queue_ok db" and "delta_of (e_payload_type env) (e_payload env) = Some d"
    and "payload_excludes_ingest_metadata (e_payload env)"
  shows "\<exists>r db'. insert_candidate_idempotent env now db = (Inr r, db') \<and>
    rc_item r \<in> set (candidates db') \<and> indexed (e_submitted_by env) d (rc_item r) \<and>
    (if rc_replayed r then candidates db' = candidates db
     else candidates db' = candidates db @ [rc_item r])"
proof (cases "conflicts env db")
  case True
  then obtain c where c: "c \<in> set (candidates db)" "indexed (e_submitted_by env) d c"
    using assms(2) by (auto simp: conflicts_def list_ex_iff)
  with first_indexed_eq [OF assms(1) c] True assms(2,3) show ?thesis
    by (simp add: insert_candidate_idempotent_def)
next
  case False
  with assms(2,3) show ?thesis
    by (simp add: insert_candidate_idempotent_def new_item_indexed)
qed

lemma receipt_of_held:
  assumes "queue_ok db" and "delta_of (e_payload_type env) (e_payload env) = Some d"
    and "payload_excludes_ingest_metadata (e_payload env)"
    and "c \<in> set (candidates db)" and "indexed (e_submitted_by env) d c"
  shows "insert_candidate_idempotent env now db = (Inr \<lparr>rc_item = c, rc_replayed = True\<rparr>, advance db)"
  using assms first_indexed_eq [OF assms(1,4,5)] indexed_conflicts [OF assms(2,4,5)]
  by (simp add: insert_candidate_idempotent_def)

section \<open>What a validation pass does\<close>

text \<open>The row as the pass leaves it.\<close>

definition verdict :: "(queue_item \<Rightarrow> queue_error + unit) \<Rightarrow> queue_item \<Rightarrow> queue_item" where
  "verdict validator c =
     (case validator c of
        Inl (CandidateValidationError m) \<Rightarrow>
          c\<lparr>q_status := Rejected, q_reason := Some (format_rejection_reason ''CandidateValidationError'' m)\<rparr>
      | Inl (ForbiddenIngestMetadataError m) \<Rightarrow>
          c\<lparr>q_status := Rejected, q_reason := Some (format_rejection_reason ''ForbiddenIngestMetadataError'' m)\<rparr>
      | Inl _ \<Rightarrow> c
      | Inr _ \<Rightarrow> c\<lparr>q_status := Accepted, q_reason := None\<rparr>)"

definition decides :: "(queue_item \<Rightarrow> queue_error + unit) \<Rightarrow> queue_item \<Rightarrow> bool" where
  "decides validator c \<longleftrightarrow>
     (case validator c of
        Inl (CandidateValidationError _) \<Rightarrow> True
      | Inl (ForbiddenIngestMetadataError _) \<Rightarrow> True
      | Inl _ \<Rightarrow> False
      | Inr _ \<Rightarrow> True)"

definition verdict_on :: "(queue_item \<Rightarrow> queue_error + unit) \<Rightarrow> queue_item list \<Rightarrow> queue_item \<Rightarrow> queue_item" where
  "verdict_on validator cs c = (if c \<in> set cs then verdict validator c else c)"

definition unchecked_rows :: "queue_item list \<Rightarrow> queue_db \<Rightarrow> bool" where
  "unchecked_rows cs db \<longleftrightarrow> distinct (map q_id (candidates db)) \<and> distinct cs \<and>
     (\<forall>c \<in> set cs. c \<in> set (candidates db) \<and> q_status c = Unchecked)"

lemma same_row: "distinct (map q_id cs) \<Longrightarrow> c \<in> set cs \<Longrightarrow> x \<in> set cs \<Longrightarrow> q_id c = q_id x \<longleftrightarrow> c = x"
  by (auto simp: distinct_map inj_on_def)

lemma verdict_fields: "q_id (verdict validator c) = q_id c"
  by (simp add: verdict_def split: sum.splits queue_error.splits)

lemma unrevised: "\<exists>st r. c = c\<lparr>q_status := st, q_reason := r\<rparr>"
  by (rule exI [of _ "q_status c"], rule exI [of _ "q_reason c"]) simp

lemma revises_verdict_on: "revises (verdict_on validator cs)"
  unfolding revises_def verdict_on_def verdict_def
  by (auto intro: unrevised split: sum.splits queue_error.splits)

lemma mark_row:
  assumes "distinct (map q_id (candidates db))" and "c \<in> set (candidates db)" and "q_status c = Unchecked"
    and "st = Accepted \<and> r = None \<or> st = Rejected \<and> r \<noteq> None"
  shows "mark_validation_result (q_id c) st r db =
    Inr (db\<lparr>candidates := map (\<lambda>x. if x = c then c\<lparr>q_status := st, q_reason := r\<rparr> else x) (candidates db)\<rparr>)"
proof -
  have "map (\<lambda>x. if q_id x = q_id c \<and> q_status x = Unchecked then x\<lparr>q_status := st, q_reason := r\<rparr> else x) (candidates db)
      = map (\<lambda>x. if x = c then c\<lparr>q_status := st, q_reason := r\<rparr> else x) (candidates db)"
    using same_row [OF assms(1) _ assms(2)] assms(3) by (intro map_cong) auto
  with assms(4) show ?thesis by (auto simp: mark_validation_result_def)
qed

lemma validate_one_row:
  assumes "distinct (map q_id (candidates (vp_db s)))" and "c \<in> set (candidates (vp_db s))"
    and "q_status c = Unchecked"
  shows "if decides validator c then \<exists>s'. validate_one validator c s = Inr s' \<and>
      vp_db s' = (vp_db s)\<lparr>candidates := map (\<lambda>x. if x = c then verdict validator c else x) (candidates (vp_db s))\<rparr> \<and>
      vp_accepted s' = vp_accepted s + (if returns (validator c) then 1 else 0) \<and>
      vp_rejected s' = vp_rejected s + (if returns (validator c) then 0 else 1)
    else \<exists>e. validate_one validator c s = Inl e"
proof (cases "validator c")
  case (Inl e)
  then show ?thesis
    by (cases e) (simp_all add: decides_def validate_one_def reject_one_def Let_def verdict_def mark_row [OF assms])
next
  case (Inr u)
  then show ?thesis by (simp add: decides_def validate_one_def verdict_def mark_row [OF assms])
qed

lemma later_rows:
  assumes "unchecked_rows (c # cs) db"
  shows "unchecked_rows cs (db\<lparr>candidates := map (\<lambda>x. if x = c then verdict validator c else x) (candidates db)\<rparr>)"
proof -
  have "q_id \<circ> (\<lambda>x. if x = c then verdict validator c else x) = q_id"
    by (auto simp: fun_eq_iff verdict_fields)
  with assms show ?thesis by (force simp: unchecked_rows_def)
qed

lemma verdict_on_Cons:
  assumes "unchecked_rows (c # cs) db"
  shows "map (verdict_on validator cs) (map (\<lambda>x. if x = c then verdict validator c else x) (candidates db))
    = map (verdict_on validator (c # cs)) (candidates db)"
proof -
  have "verdict_on validator cs (if x = c then verdict validator c else x) = verdict_on validator (c # cs) x"
    if "x \<in> set (candidates db)" for x
  proof (cases "x = c")
    case True
    have "verdict validator c \<notin> set cs"
    proof
      assume v: "verdict validator c \<in> set cs"
      with assms have "verdict validator c \<in> set (candidates db)" "c \<in> set (candidates db)"
        by (auto simp: unchecked_rows_def)
      with assms have "verdict validator c = c"
        using same_row [of "candidates db" "verdict validator c" c] by (auto simp: unchecked_rows_def verdict_fields)
      with v assms show False by (simp add: unchecked_rows_def)
    qed
    with True show ?thesis by (simp add: verdict_on_def)
  next
    case False
    then show ?thesis by (simp add: verdict_on_def)
  qed
  then show ?thesis by simp
qed

lemma validate_all:
  "unchecked_rows cs (vp_db s) \<Longrightarrow>
   (if list_all (decides validator) cs
    then \<exists>s'. res_fold (validate_one validator) cs s = Inr s' \<and>
      vp_db s' = (vp_db s)\<lparr>candidates := map (verdict_on validator cs) (candidates (vp_db s))\<rparr> \<and>
      vp_accepted s' = vp_accepted s + length (filter (\<lambda>c. returns (validator c)) cs) \<and>
      vp_rejected s' = vp_rejected s + length (filter (\<lambda>c. \<not> returns (validator c)) cs)
    else \<exists>e. res_fold (validate_one validator) cs s = Inl e)"
proof (induction cs arbitrary: s)
  case Nil
  have "verdict_on validator [] = (\<lambda>c. c)" by (simp add: fun_eq_iff verdict_on_def)
  then show ?case by simp
next
  case (Cons c cs)
  then have row: "distinct (map q_id (candidates (vp_db s)))" "c \<in> set (candidates (vp_db s))" "q_status c = Unchecked"
    by (simp_all add: unchecked_rows_def)
  show ?case
  proof (cases "decides validator c")
    case False
    with validate_one_row [OF row, of validator] show ?thesis by auto
  next
    case True
    with validate_one_row [OF row, of validator] obtain s1 where s1: "validate_one validator c s = Inr s1"
      "vp_db s1 = (vp_db s)\<lparr>candidates := map (\<lambda>x. if x = c then verdict validator c else x) (candidates (vp_db s))\<rparr>"
      "vp_accepted s1 = vp_accepted s + (if returns (validator c) then 1 else 0)"
      "vp_rejected s1 = vp_rejected s + (if returns (validator c) then 0 else 1)" by auto
    have "unchecked_rows cs (vp_db s1)" unfolding s1(2) by (rule later_rows) (rule Cons.prems)
    from Cons.IH [OF this] True s1 verdict_on_Cons [OF Cons.prems, of validator] show ?thesis
      by (auto simp del: map_map simp: queue_db.simps)
  qed
qed

definition picked :: "(queue_item \<Rightarrow> bool) \<Rightarrow> int \<Rightarrow> queue_db \<Rightarrow> queue_item list" where
  "picked free limit db =
     take (nat limit) (sort_key q_ingest_seq (filter (\<lambda>c. q_status c = Unchecked \<and> free c) (candidates db)))"

lemma picked_unchecked: "queue_ok db \<Longrightarrow> unchecked_rows (picked free limit db) db"
  by (auto simp: unchecked_rows_def picked_def queue_ok_def distinct_map dest: in_set_takeD intro!: distinct_take)

lemma validate_pending_outcome:
  assumes "queue_ok db"
  shows "if 1 \<le> limit \<and> list_all (decides validator) (picked free limit db)
    then \<exists>s. validate_pending_candidates validator free limit db =
        (Inr s, db\<lparr>candidates := map (verdict_on validator (picked free limit db)) (candidates db)\<rparr>) \<and>
      scanned s = length (picked free limit db) \<and>
      accepted s = length (filter (\<lambda>c. returns (validator c)) (picked free limit db)) \<and>
      rejected s = length (filter (\<lambda>c. \<not> returns (validator c)) (picked free limit db))
    else \<exists>e. validate_pending_candidates validator free limit db = (Inl e, db)"
proof (cases "1 \<le> limit")
  case False
  then show ?thesis by (auto simp: validate_pending_candidates_def)
next
  case True
  let ?s = "\<lparr>vp_db = db, vp_accepted = 0, vp_rejected = 0, vp_reasons = [], vp_types = []\<rparr>"
  have "unchecked_rows (picked free limit db) (vp_db ?s)" using picked_unchecked [OF assms] by simp
  from validate_all [OF this, of validator] True show ?thesis
    by (auto simp: validate_pending_candidates_def fetch_pending_for_update_def picked_def [symmetric])
qed

lemma verdict_reason: "q_reason c = None \<Longrightarrow> q_status c = Unchecked \<Longrightarrow>
    q_reason (verdict validator c) \<noteq> None \<longleftrightarrow> q_status (verdict validator c) = Rejected"
  by (simp add: verdict_def split: sum.splits queue_error.splits)

lemma validate_pending_ok:
  assumes "queue_ok db"
  shows "queue_ok (snd (validate_pending_candidates validator free limit db))"
proof -
  have "queue_ok (db\<lparr>candidates := map (verdict_on validator (picked free limit db)) (candidates db)\<rparr>)"
  proof (rule revised_ok [OF assms revises_verdict_on])
    fix c assume "c \<in> set (candidates db)"
    with assms have c: "q_reason c \<noteq> None \<longleftrightarrow> q_status c = Rejected"
      by (simp add: queue_ok_def item_ok_def)
    show "q_reason (verdict_on validator (picked free limit db) c) \<noteq> None \<longleftrightarrow>
        q_status (verdict_on validator (picked free limit db) c) = Rejected"
    proof (cases "c \<in> set (picked free limit db)")
      case True
      then have "q_status c = Unchecked"
        using picked_unchecked [OF assms, of free limit] by (simp add: unchecked_rows_def)
      with c True show ?thesis
        unfolding verdict_on_def by (simp only: if_True) (rule verdict_reason, auto)
    next
      case False
      with c show ?thesis by (simp add: verdict_on_def)
    qed
  qed
  with validate_pending_outcome [OF assms, of limit validator free] assms show ?thesis
    by (auto split: if_splits)
qed

lemma format_rejection_reason_bounds:
  "cls \<noteq> [] \<Longrightarrow> format_rejection_reason cls m \<noteq> [] \<and> length (format_rejection_reason cls m) \<le> 1000"
  by (auto simp: format_rejection_reason_def rejection_reason_max_chars_def Let_def)

section \<open>Histories of the table\<close>

inductive queue_step :: "queue_db \<Rightarrow> queue_db \<Rightarrow> bool" where
  submitted: "queue_step db (snd (submit_candidate payload now db))"
| submitted_once: "queue_step db (snd (submit_candidate_idempotent payload now db))"
| validated: "queue_step db (snd (validate_pending_candidates validator free limit db))"

text \<open>Rows are never lost; only an unchecked row changes, and only in its status and reason.\<close>

definition settles :: "queue_db \<Rightarrow> queue_db \<Rightarrow> bool" where
  "settles db db' \<longleftrightarrow> (\<forall>c \<in> set (candidates db). \<exists>c' \<in> set (candidates db').
     (\<exists>st r. c' = c\<lparr>q_status := st, q_reason := r\<rparr>) \<and> (q_status c \<noteq> Unchecked \<longrightarrow> c' = c))"

lemma settles_subset: "set (candidates db) \<subseteq> set (candidates db') \<Longrightarrow> settles db db'"
  unfolding settles_def using unrevised by blast

lemma settles_trans:
  assumes "settles a b" and "settles b c"
  shows "settles a c"
  unfolding settles_def
proof
  fix x assume "x \<in> set (candidates a)"
  with assms(1) obtain y st r where y: "y \<in> set (candidates b)" "y = x\<lparr>q_status := st, q_reason := r\<rparr>"
    "q_status x \<noteq> Unchecked \<longrightarrow> y = x" unfolding settles_def by blast
  with assms(2) obtain z st' r' where z: "z \<in> set (candidates c)" "z = y\<lparr>q_status := st', q_reason := r'\<rparr>"
    "q_status y \<noteq> Unchecked \<longrightarrow> z = y" unfolding settles_def by blast
  have "z = x\<lparr>q_status := st', q_reason := r'\<rparr>" using y(2) z(2) by simp
  with y(3) z(1,3) show "\<exists>c' \<in> set (candidates c).
      (\<exists>st r. c' = x\<lparr>q_status := st, q_reason := r\<rparr>) \<and> (q_status x \<noteq> Unchecked \<longrightarrow> c' = x)"
    by (intro bexI [of _ z]) auto
qed

lemma insert_keeps: "set (candidates db) \<subseteq> set (candidates (snd (insert_candidate env now db)))"
  by (auto simp: insert_candidate_def)

lemma insert_idempotent_keeps:
  "set (candidates db) \<subseteq> set (candidates (snd (insert_candidate_idempotent env now db)))"
  using insert_keeps [of db env now]
  by (auto simp: insert_candidate_idempotent_def split: option.splits prod.splits sum.splits)

lemma submit_keeps: "set (candidates db) \<subseteq> set (candidates (snd (submit_candidate payload now db)))"
  using insert_keeps by (fastforce simp: submit_candidate_def split: sum.splits)

lemma submit_idempotent_keeps:
  "set (candidates db) \<subseteq> set (candidates (snd (submit_candidate_idempotent payload now db)))"
  using insert_idempotent_keeps by (fastforce simp: submit_candidate_idempotent_def split: sum.splits)

lemma validate_settles:
  assumes "queue_ok db"
  shows "settles db (snd (validate_pending_candidates validator free limit db))"
proof -
  let ?cs = "picked free limit db"
  have "settles db (db\<lparr>candidates := map (verdict_on validator ?cs) (candidates db)\<rparr>)"
    unfolding settles_def
  proof
    fix c assume c: "c \<in> set (candidates db)"
    obtain st r where "verdict_on validator ?cs c = c\<lparr>q_status := st, q_reason := r\<rparr>"
      using revises_verdict_on [of validator ?cs] unfolding revises_def by blast
    moreover have "verdict_on validator ?cs c = c" if "q_status c \<noteq> Unchecked"
      using that picked_unchecked [OF assms, of free limit] by (auto simp: verdict_on_def unchecked_rows_def)
    moreover have "verdict_on validator ?cs c \<in> set (candidates (db\<lparr>candidates := map (verdict_on validator ?cs) (candidates db)\<rparr>))"
      using c by simp
    ultimately show "\<exists>c' \<in> set (candidates (db\<lparr>candidates := map (verdict_on validator ?cs) (candidates db)\<rparr>)).
        (\<exists>st r. c' = c\<lparr>q_status := st, q_reason := r\<rparr>) \<and> (q_status c \<noteq> Unchecked \<longrightarrow> c' = c)"
      by blast
  qed
  with validate_pending_outcome [OF assms, of limit validator free] show ?thesis
    by (auto simp: settles_subset split: if_splits)
qed

interpretation queue: invariant_system queue_step queue_ok settles
proof
  show "settles db db" for db by (rule settles_subset) simp
  show "settles a c" if "settles a b" "settles b c" for a b c by (rule settles_trans) fact+
  fix db db' assume "queue_ok db" "queue_step db db'"
  show "queue_ok db'" using \<open>queue_step db db'\<close> \<open>queue_ok db\<close>
    by cases (auto intro: submit_ok submit_idempotent_ok validate_pending_ok)
  show "settles db db'" using \<open>queue_step db db'\<close> \<open>queue_ok db\<close>
    by cases (auto intro: settles_subset validate_settles dest: submit_keeps [THEN subsetD]
        submit_idempotent_keeps [THEN subsetD])
qed

section \<open>Examples\<close>

definition ex_delta :: pyval where
  "ex_delta = PDict [(''payload_type'', PStr ''Ex-3''), (''submitted_by'', PStr ''graph''), (''delta_id'', PStr ''d1'')]"

definition ex_item :: queue_item where
  "ex_item = \<lparr>q_id = 1, q_payload_type = ''Ex-3'', q_payload = as_dict ex_delta, q_submitted_by = ''graph'',
     q_submitted_at = 5, q_ingest_seq = 1, q_status = Unchecked, q_reason = None\<rparr>"

definition ex_queue :: queue_db where
  "ex_queue = \<lparr>candidates = [ex_item], next_id = 2, next_seq = 2\<rparr>"

lemma ex_submit: "submit_candidate_idempotent ex_delta 5 empty_queue =
    (Inr \<lparr>rc_item = ex_item, rc_replayed = False\<rparr>, ex_queue)"
  by code_simp

lemma ex_queue_run: "runs queue_step empty_queue ex_queue"
  using queue_step.submitted_once [of empty_queue ex_delta 5] by (simp add: ex_submit runs_one)

lemma ex_queue_ok: "queue_ok ex_queue"
  by (rule queue.inv_runs [OF ex_queue_run empty_queue_ok])

text \<open>
  C15: In every history of submissions and validation passes, no row is ever lost, a row that has been
  accepted or rejected never changes again, and a submitter has at most one row for a \<open>delta_id\<close>.
\<close>

theorem decisions_are_final:
  assumes "runs queue_step empty_queue db" and "runs queue_step db db'" and "c \<in> set (candidates db)"
  shows "(\<exists>c' \<in> set (candidates db'). q_id c' = q_id c \<and> q_payload c' = q_payload c \<and>
      (q_status c \<noteq> Unchecked \<longrightarrow> c' = c)) \<and>
    (\<forall>x \<in> set (candidates db'). \<forall>who d. indexed who d c \<longrightarrow> indexed who d x \<longrightarrow> q_id x = q_id c)"
proof -
  have ok: "queue_ok db" using assms(1) empty_queue_ok by (rule queue.inv_runs)
  from queue.ord_runs [OF assms(2) ok] assms(3) obtain c' st r where c': "c' \<in> set (candidates db')"
    "c' = c\<lparr>q_status := st, q_reason := r\<rparr>" "q_status c \<noteq> Unchecked \<longrightarrow> c' = c"
    unfolding settles_def by blast
  have "one_per_delta (candidates db')" using queue.inv_runs [OF assms(2) ok] by (simp add: queue_ok_def)
  then have "q_id x = q_id c" if "x \<in> set (candidates db')" "indexed who d c" "indexed who d x" for x who d
    using one_per_deltaD [of "candidates db'" c' x who d] c'(1,2) that by (simp add: indexed_def)
  with c' show ?thesis by (intro conjI bexI [of _ c']) auto
qed

theorem decisions_are_final_witness: "ex_item \<in> set (candidates ex_queue)"
  using decisions_are_final [OF ex_queue_run runs.rest, of ex_item]
  by (simp add: ex_queue_def)

text \<open>
  Submitting an Ex-3 delta again, whatever happened in between, enters no row and answers with the
  row of the first submission, marked as a replay.
\<close>

theorem submission_is_idempotent:
  assumes "runs queue_step empty_queue db" and "submit_candidate_idempotent payload now db = (Inr rc, db1)"
    and "runs queue_step db1 db2"
    and "validate_candidate_envelope payload' = Inr env'"
    and "indexed (e_submitted_by env') d (rc_item rc)" and "delta_of (e_payload_type env') (e_payload env') = Some d"
  shows "\<exists>c. submit_candidate_idempotent payload' now' db2 = (Inr \<lparr>rc_item = c, rc_replayed = True\<rparr>, advance db2) \<and>
    c \<in> set (candidates db2) \<and> q_id c = q_id (rc_item rc) \<and> q_payload c = q_payload (rc_item rc)"
proof -
  from assms(2) obtain env where env: "validate_candidate_envelope payload = Inr env"
    "insert_candidate_idempotent env now db = (Inr rc, db1)"
    by (auto simp: submit_candidate_idempotent_def split: sum.splits)
  have ok: "queue_ok db" using assms(1) empty_queue_ok by (rule queue.inv_runs)
  have ok1: "queue_ok db1" using submit_idempotent_ok [OF ok, of payload now] assms(2) by simp
  have "rc_item rc \<in> set (candidates db1)"
  proof (cases "delta_of (e_payload_type env) (e_payload env)")
    case None
    with env(2) show ?thesis
      by (auto simp: insert_candidate_idempotent_def insert_candidate_def split: if_splits)
  next
    case (Some d')
    with idempotent_receipt [OF ok Some, of now] envelope_excludes [OF env(1)] env(2) show ?thesis by auto
  qed
  with queue.ord_runs [OF assms(3) ok1] obtain c st r where c: "c \<in> set (candidates db2)"
    "c = (rc_item rc)\<lparr>q_status := st, q_reason := r\<rparr>" unfolding settles_def by blast
  have "indexed (e_submitted_by env') d c" using assms(5) c(2) by (simp add: indexed_def)
  from receipt_of_held [OF queue.inv_runs [OF assms(3) ok1] assms(6) _ c(1) this, of now'] c
    envelope_excludes [OF assms(4)]
  show ?thesis by (auto simp: submit_candidate_idempotent_def assms(4))
qed

theorem submission_is_idempotent_witness:
  "rc_replayed (projr (fst (submit_candidate_idempotent ex_delta 9 ex_queue)))"
proof -
  have "validate_candidate_envelope ex_delta =
      Inr \<lparr>e_payload_type = ''Ex-3'', e_submitted_by = ''graph'', e_payload = as_dict ex_delta\<rparr>" by code_simp
  from submission_is_idempotent [OF runs.rest ex_submit runs.rest this, of "''d1''" 9]
  show ?thesis by (auto simp: indexed_def ex_item_def delta_of_def ex_delta_def dget_def)
qed

text \<open>
  C16: A validation pass takes the first \<open>limit\<close> unchecked rows that no other transaction holds, in the
  order of their ingest sequence, and writes the verdict on each of them and on no other row; its counts
  add up. If a validator fails otherwise than by refusing a row, nothing is written.
\<close>

theorem validation_pass_decides_rows:
  assumes "queue_ok db" and "validate_pending_candidates validator free limit db = (r, db')"
  shows "case r of
      Inl e \<Rightarrow> db' = db \<and> (1 \<le> limit \<longrightarrow> (\<exists>c \<in> set (picked free limit db). \<not> decides validator c))
    | Inr s \<Rightarrow> (\<forall>c \<in> set (picked free limit db). decides validator c) \<and>
        candidates db' = map (\<lambda>c. if c \<in> set (picked free limit db) then verdict validator c else c) (candidates db) \<and>
        scanned s = length (picked free limit db) \<and> accepted s + rejected s = scanned s \<and>
        accepted s = length (filter (\<lambda>c. returns (validator c)) (picked free limit db))"
proof -
  have "verdict_on validator cs = (\<lambda>c. if c \<in> set cs then verdict validator c else c)" for cs
    by (simp add: fun_eq_iff verdict_on_def)
  moreover have "length (filter P xs) + length (filter (\<lambda>x. \<not> P x) xs) = length xs" for P and xs :: "queue_item list"
    by (rule sum_length_filter_compl)
  ultimately show ?thesis
    using validate_pending_outcome [OF assms(1), of limit validator free] assms(2)
    by (auto simp: list_all_iff list_ex_iff split: sum.splits if_splits)
qed

theorem validation_pass_decides_rows_witness:
  "map q_status (candidates (snd (validate_pending_candidates envelope_validator (\<lambda>_. True) 100 ex_queue))) = [Accepted]"
proof -
  obtain r db' where run: "validate_pending_candidates envelope_validator (\<lambda>_. True) 100 ex_queue = (r, db')"
    by fastforce
  have p: "picked (\<lambda>_. True) 100 ex_queue = [ex_item]"
    by (simp add: picked_def ex_queue_def ex_item_def)
  have v: "envelope_validator ex_item = Inr ()" by code_simp
  have cs: "candidates ex_queue = [ex_item]" by (simp add: ex_queue_def)
  from validation_pass_decides_rows [OF ex_queue_ok run] show ?thesis
    by (cases r) (simp_all add: run p v cs decides_def verdict_def)
qed

end
