(* ===== verification/Cycle.thy ===== *)
theory Cycle
  imports Queue Py_Time "HOL-Library.Product_Lexorder"
begin

text \<open>
  The daily cycle of \<open>data-platform\<close>: \<open>cycle/models.py\<close> (identifiers and statuses),
  \<open>cycle/repository.py\<close> and \<open>cycle/freeze.py\<close> (creation, reading, transitions and the freeze of the
  candidate selection), \<open>cycle/manifest.py\<close> (publication), over the tables of the migrations
  \<open>0003\<close> to \<open>0005\<close>. A function whose transaction fails returns the database it was given.

  A freeze runs one statement: \<open>seen\<close> are the candidates its snapshot shows as selected, \<open>free\<close> the
  rows no other transaction has locked, and the unique constraint is checked against the selections
  that exist when it inserts. Dates are triples of year, month and day; times are integers.
\<close>

section \<open>Identifiers and statuses\<close>

type_synonym date = "nat \<times> nat \<times> nat"

datatype cycle_status = Pending | Phase0 | Phase1 | Phase2 | Phase3 | Published | Failed

datatype cycle_error =
    InvalidCycleId
  | CycleAlreadyExists string
  | CycleNotFound string
  | CycleAlreadyFrozen string string
  | InvalidCycleTransition string string string
  | CycleValueError
  | CycleIntegrityError
  | PublishManifestNotFound "string option"
  | ManifestAlreadyPublished string
  | InvalidFormalSnapshotManifest

fun status_name :: "cycle_status \<Rightarrow> string" where
  "status_name Pending = ''pending''"
| "status_name Phase0 = ''phase0''"
| "status_name Phase1 = ''phase1''"
| "status_name Phase2 = ''phase2''"
| "status_name Phase3 = ''phase3''"
| "status_name Published = ''published''"
| "status_name Failed = ''failed''"

definition cycle_statuses :: "cycle_status list" where
  "cycle_statuses = [Pending, Phase0, Phase1, Phase2, Phase3, Published, Failed]"

definition validate_cycle_status :: "string \<Rightarrow> cycle_error + cycle_status" where
  "validate_cycle_status name =
     (case List.find (\<lambda>s. status_name s = name) cycle_statuses of
        None \<Rightarrow> Inl CycleValueError
      | Some s \<Rightarrow> Inr s)"

definition cycle_prefix :: string where
  "cycle_prefix = ''CYCLE_''"

definition digit2 :: "nat \<Rightarrow> string" where
  "digit2 n = [char_of (48 + n div 10 mod 10), char_of (48 + n mod 10)]"

text \<open>\<open>%Y%m%d\<close>: the C library does not pad the year.\<close>

definition cycle_id_for_date :: "date \<Rightarrow> string" where
  "cycle_id_for_date dt = (case dt of (y, m, d) \<Rightarrow> cycle_prefix @ nat_str y @ digit2 m @ digit2 d)"

definition cycle_id_pattern :: "string \<Rightarrow> string option" where
  "cycle_id_pattern s =
     (if take 6 s = cycle_prefix \<and> length s = 14 \<and> list_all is_digit (drop 6 s)
      then Some (drop 6 s) else None)"

definition cycle_date_from_id :: "string \<Rightarrow> cycle_error + date" where
  "cycle_date_from_id s =
     (case cycle_id_pattern s of
        None \<Rightarrow> Inl InvalidCycleId
      | Some ds \<Rightarrow>
          (let y = dec_value (take 4 ds); m = dec_value (take 2 (drop 4 ds)); d = dec_value (drop 6 ds) in
           if valid_date y m d then Inr (y, m, d) else Inl InvalidCycleId))"

section \<open>The tables\<close>

record cycle_row =
  c_id :: string
  c_date :: date
  c_status :: cycle_status
  c_cutoff_submitted_at :: "int option"
  c_cutoff_ingest_seq :: "int option"
  c_candidate_count :: nat
  c_frozen_at :: "int option"
  c_created_at :: int
  c_updated_at :: int

record selection =
  s_cycle :: string
  s_candidate :: int
  s_selected_at :: int

record publish_row =
  mf_cycle :: string
  mf_published_at :: int
  mf_snapshots :: "(string \<times> int) list"

record control_db =
  queue_of :: queue_db
  cycles :: "cycle_row list"
  selections :: "selection list"
  manifests :: "publish_row list"

definition empty_control :: control_db where
  "empty_control = \<lparr>queue_of = empty_queue, cycles = [], selections = [], manifests = []\<rparr>"

definition find_cycle :: "string \<Rightarrow> control_db \<Rightarrow> cycle_row option" where
  "find_cycle cid db = List.find (\<lambda>c. c_id c = cid) (cycles db)"

definition update_cycle :: "string \<Rightarrow> (cycle_row \<Rightarrow> cycle_row) \<Rightarrow> control_db \<Rightarrow> control_db" where
  "update_cycle cid f db = db\<lparr>cycles := map (\<lambda>c. if c_id c = cid then f c else c) (cycles db)\<rparr>"

definition metadata_from_row :: "cycle_row \<Rightarrow> cycle_error + cycle_row" where
  "metadata_from_row c =
     res_bind (cycle_date_from_id (c_id c)) (\<lambda>dt. if dt \<noteq> c_date c then Inl InvalidCycleId else Inr c)"

text \<open>The row a statement with \<open>RETURNING\<close> gives back.\<close>

definition returned :: "string \<Rightarrow> control_db \<Rightarrow> control_db \<Rightarrow> (cycle_error + cycle_row) \<times> control_db" where
  "returned cid old new =
     (case find_cycle cid new of
        None \<Rightarrow> (Inl (CycleNotFound cid), old)
      | Some c \<Rightarrow> (case metadata_from_row c of Inl e \<Rightarrow> (Inl e, old) | Inr row \<Rightarrow> (Inr row, new)))"

section \<open>Creating and reading cycles\<close>

definition create_cycle :: "date \<Rightarrow> int \<Rightarrow> control_db \<Rightarrow> (cycle_error + cycle_row) \<times> control_db" where
  "create_cycle dt now db =
     (let cid = cycle_id_for_date dt;
          row = \<lparr>c_id = cid, c_date = dt, c_status = Pending, c_cutoff_submitted_at = None,
            c_cutoff_ingest_seq = None, c_candidate_count = 0, c_frozen_at = None,
            c_created_at = now, c_updated_at = now\<rparr>
      in if cycle_id_pattern cid = None \<or> list_ex (\<lambda>c. c_id c = cid \<or> c_date c = dt) (cycles db)
         then (Inl (CycleAlreadyExists cid), db)
         else returned cid db (db\<lparr>cycles := cycles db @ [row]\<rparr>))"

definition get_cycle :: "string \<Rightarrow> control_db \<Rightarrow> cycle_error + cycle_row" where
  "get_cycle cid db =
     res_bind (cycle_date_from_id cid) (\<lambda>_.
       case find_cycle cid db of None \<Rightarrow> Inl (CycleNotFound cid) | Some c \<Rightarrow> metadata_from_row c)"

definition validate_cycle_limit :: "pyval \<Rightarrow> cycle_error + nat" where
  "validate_cycle_limit v =
     (case v of
        PInt i \<Rightarrow> if i < 1 \<or> i > 500 then Inl CycleValueError else Inr (nat i)
      | _ \<Rightarrow> Inl CycleValueError)"

definition newest_first :: "cycle_row list \<Rightarrow> cycle_row list" where
  "newest_first cs = rev (sort_key (\<lambda>c. (c_date c, c_id c)) cs)"

definition list_cycles :: "pyval \<Rightarrow> string option \<Rightarrow> control_db \<Rightarrow> cycle_error + cycle_row list" where
  "list_cycles limit status db =
     res_bind (validate_cycle_limit limit) (\<lambda>n.
     res_bind (case status of None \<Rightarrow> Inr None | Some s \<Rightarrow> res_map Some (validate_cycle_status s)) (\<lambda>st.
       res_list metadata_from_row
         (take n (newest_first (filter (\<lambda>c. st = None \<or> st = Some (c_status c)) (cycles db))))))"

section \<open>Transitions\<close>

fun forward_transitions :: "cycle_status \<Rightarrow> cycle_status option" where
  "forward_transitions Pending = Some Phase0"
| "forward_transitions Phase0 = Some Phase1"
| "forward_transitions Phase1 = Some Phase2"
| "forward_transitions Phase2 = Some Phase3"
| "forward_transitions _ = None"

definition failed_sources :: "cycle_status list" where
  "failed_sources = [Pending, Phase0, Phase1, Phase2, Phase3]"

definition transition_target :: "string \<Rightarrow> string \<Rightarrow> cycle_error + cycle_status" where
  "transition_target cid status =
     (case validate_cycle_status status of
        Inl _ \<Rightarrow> Inl (InvalidCycleTransition cid ''unknown'' status)
      | Inr s \<Rightarrow> Inr s)"

definition validate_transition :: "string \<Rightarrow> cycle_status \<Rightarrow> cycle_status \<Rightarrow> cycle_error + unit" where
  "validate_transition cid current target =
     (if target = Failed \<and> current \<in> set failed_sources then Inr ()
      else if forward_transitions current = Some target then Inr ()
      else Inl (InvalidCycleTransition cid (status_name current) (status_name target)))"

definition transition_cycle_status ::
  "string \<Rightarrow> string \<Rightarrow> int \<Rightarrow> control_db \<Rightarrow> (cycle_error + cycle_row) \<times> control_db" where
  "transition_cycle_status cid status now db =
     (case res_bind (cycle_date_from_id cid) (\<lambda>_.
        res_bind (transition_target cid status) (\<lambda>target.
          case find_cycle cid db of
            None \<Rightarrow> Inl (CycleNotFound cid)
          | Some c \<Rightarrow> res_map (\<lambda>_. target) (validate_transition cid (c_status c) target))) of
        Inl e \<Rightarrow> (Inl e, db)
      | Inr target \<Rightarrow>
          returned cid db (update_cycle cid (\<lambda>c. c\<lparr>c_status := target, c_updated_at := now\<rparr>) db))"

section \<open>Freezing the selection\<close>

definition freeze_filter_clause ::
  "string option \<Rightarrow> string option \<Rightarrow> cycle_error + (queue_item \<Rightarrow> bool)" where
  "freeze_filter_clause submitted_by payload_type =
     (if (case submitted_by of None \<Rightarrow> False | Some s \<Rightarrow> py_strip s = []) then Inl CycleValueError
      else if (case payload_type of None \<Rightarrow> False | Some t \<Rightarrow> t \<notin> set candidate_payload_types)
      then Inl CycleValueError
      else Inr (\<lambda>c. (submitted_by = None \<or> submitted_by = Some (q_submitted_by c)) \<and>
                   (payload_type = None \<or> payload_type = Some (q_payload_type c))))"

definition largest :: "int list \<Rightarrow> int option" where
  "largest xs = (if xs = [] then None else Some (foldr max xs (hd xs)))"

definition locked_candidates ::
  "(queue_item \<Rightarrow> bool) \<Rightarrow> (queue_item \<Rightarrow> bool) \<Rightarrow> int list \<Rightarrow> control_db \<Rightarrow> queue_item list" where
  "locked_candidates wanted free seen db =
     sort_key q_ingest_seq
       (filter (\<lambda>c. q_status c = Accepted \<and> wanted c \<and> q_id c \<notin> set seen \<and> free c)
          (candidates (queue_of db)))"

definition freeze_row :: "queue_item list \<Rightarrow> int \<Rightarrow> cycle_row \<Rightarrow> cycle_row" where
  "freeze_row chosen now c = c\<lparr>
     c_cutoff_submitted_at := largest (map q_submitted_at chosen),
     c_cutoff_ingest_seq := largest (map q_ingest_seq chosen),
     c_candidate_count := length chosen,
     c_frozen_at := Some now, c_status := Phase0, c_updated_at := now\<rparr>"

definition select_for :: "string \<Rightarrow> int \<Rightarrow> queue_item \<Rightarrow> selection" where
  "select_for cid now c = \<lparr>s_cycle = cid, s_candidate = q_id c, s_selected_at = now\<rparr>"

definition freeze_selection ::
  "string \<Rightarrow> string option \<Rightarrow> string option \<Rightarrow> (queue_item \<Rightarrow> bool) \<Rightarrow> int list \<Rightarrow> int \<Rightarrow>
   control_db \<Rightarrow> (cycle_error + cycle_row) \<times> control_db" where
  "freeze_selection cid submitted_by payload_type free seen now db =
     (case res_bind (cycle_date_from_id cid) (\<lambda>_.
        res_bind (freeze_filter_clause submitted_by payload_type) (\<lambda>wanted.
          case find_cycle cid db of
            None \<Rightarrow> Inl (CycleNotFound cid)
          | Some c \<Rightarrow>
              if c_status c \<noteq> Pending \<or> c_frozen_at c \<noteq> None
              then Inl (CycleAlreadyFrozen cid (status_name (c_status c)))
              else Inr (locked_candidates wanted free seen db))) of
        Inl e \<Rightarrow> (Inl e, db)
      | Inr chosen \<Rightarrow>
          if list_ex (\<lambda>s. s_candidate s \<in> set (map q_id chosen)) (selections db)
          then (Inl CycleIntegrityError, db)
          else returned cid db
            (update_cycle cid (freeze_row chosen now)
               (db\<lparr>selections := selections db @ map (select_for cid now) chosen\<rparr>)))"

definition freeze_cycle_candidates ::
  "string \<Rightarrow> string option \<Rightarrow> string option \<Rightarrow> (queue_item \<Rightarrow> bool) \<Rightarrow> int list \<Rightarrow> int \<Rightarrow>
   control_db \<Rightarrow> (cycle_error + cycle_row) \<times> control_db" where
  "freeze_cycle_candidates cid submitted_by payload_type free seen now db =
     (case cycle_date_from_id cid of
        Inl e \<Rightarrow> (Inl e, db)
      | Inr _ \<Rightarrow> freeze_selection cid submitted_by payload_type free seen now db)"

section \<open>Publishing a cycle\<close>

definition fallback_formal_object_names :: "string list" where
  "fallback_formal_object_names =
     [''world_state_snapshot'', ''official_alpha_pool'', ''alpha_result_snapshot'',
      ''recommendation_snapshot'', ''dashboard_snapshot'', ''report'', ''audit_record'', ''replay_record'']"

definition required_formal_object_names :: "string list" where
  "required_formal_object_names =
     [''world_state_snapshot'', ''official_alpha_pool'', ''alpha_result_snapshot'', ''recommendation_snapshot'']"

text \<open>\<open>contract_names\<close>: the names of the contracts package, none when it is not installed.\<close>

definition formal_object_names :: "string list \<Rightarrow> string list" where
  "formal_object_names contract_names =
     (if contract_names \<noteq> [] then contract_names else fallback_formal_object_names)"

definition formal_namespace_prefix :: string where
  "formal_namespace_prefix = ''formal.''"

fun split_dot :: "string \<Rightarrow> string \<Rightarrow> string list" where
  "split_dot part [] = [part]"
| "split_dot part (c # cs) = (if c = CHR ''.'' then part # split_dot [] cs else split_dot (part @ [c]) cs)"

definition validate_formal_table_key :: "string list \<Rightarrow> string \<Rightarrow> cycle_error + string" where
  "validate_formal_table_key contract_names table =
     (if table \<noteq> py_strip table then Inl InvalidFormalSnapshotManifest
      else if \<not> py_startswith table formal_namespace_prefix then Inl InvalidFormalSnapshotManifest
      else if [] \<in> set (split_dot [] table) then Inl InvalidFormalSnapshotManifest
      else if drop (length formal_namespace_prefix) table \<notin> set (formal_object_names contract_names)
      then Inl InvalidFormalSnapshotManifest
      else Inr table)"

definition validate_snapshot_id :: "pyval \<Rightarrow> cycle_error + int" where
  "validate_snapshot_id v =
     (case v of
        PInt i \<Rightarrow> if i < 1 then Inl InvalidFormalSnapshotManifest else Inr i
      | _ \<Rightarrow> Inl InvalidFormalSnapshotManifest)"

definition coerce_snapshot :: "pyval \<Rightarrow> cycle_error + int" where
  "coerce_snapshot v =
     (case v of
        PDict d \<Rightarrow> if \<not> dhas d ''snapshot_id'' then Inl InvalidFormalSnapshotManifest
                 else validate_snapshot_id (dget d ''snapshot_id'')
      | _ \<Rightarrow> validate_snapshot_id v)"

definition normalize_snapshot_manifest :: "string list \<Rightarrow> pyval \<Rightarrow> cycle_error + (string \<times> int) list" where
  "normalize_snapshot_manifest contract_names v =
     (case v of
        PDict d \<Rightarrow>
          if d = [] then Inl InvalidFormalSnapshotManifest
          else res_bind
            (res_list (\<lambda>(table, x). res_bind (validate_formal_table_key contract_names table) (\<lambda>t.
                 res_map (\<lambda>i. (t, i)) (coerce_snapshot x))) d)
            (\<lambda>snaps.
              if list_all (\<lambda>n. dhas snaps (formal_namespace_prefix @ n)) required_formal_object_names
              then Inr snaps else Inl InvalidFormalSnapshotManifest)
      | _ \<Rightarrow> Inl InvalidFormalSnapshotManifest)"

text \<open>The provenance of the recommendation snapshot, from the mapping form of the argument.\<close>

record provenance =
  pv_cycle_id :: string
  pv_current_cycle_id :: string
  pv_snapshot_id :: int
  pv_audit_ids :: "string list"
  pv_replay_ids :: "string list"

definition nonempty_id :: "pyval \<Rightarrow> cycle_error + string" where
  "nonempty_id v =
     (case v of
        PStr s \<Rightarrow> if py_strip s = [] then Inl InvalidFormalSnapshotManifest else Inr s
      | _ \<Rightarrow> Inl InvalidFormalSnapshotManifest)"

definition coerce_ids :: "pyval \<Rightarrow> cycle_error + string list" where
  "coerce_ids v =
     (case v of
        PList vs \<Rightarrow> res_bind (res_list nonempty_id vs) (\<lambda>ids.
          if ids = [] then Inl InvalidFormalSnapshotManifest else Inr ids)
      | _ \<Rightarrow> Inl InvalidFormalSnapshotManifest)"

definition provenance_fields :: "string list" where
  "provenance_fields = [''cycle_id'', ''current_cycle_id'', ''source_layer'', ''source_kind'',
     ''recommendation_snapshot_id'', ''audit_record_ids'', ''replay_record_ids'']"

definition coerce_provenance :: "pyval \<Rightarrow> cycle_error + provenance" where
  "coerce_provenance v =
     (case v of
        PDict d \<Rightarrow>
          if \<not> list_all (dhas d) provenance_fields then Inl InvalidFormalSnapshotManifest
          else
            (let cid = py_str (dget d ''cycle_id''); current = py_str (dget d ''current_cycle_id'');
                 layer = py_str (dget d ''source_layer''); kind = py_str (dget d ''source_kind'')
             in res_bind (coerce_ids (dget d ''audit_record_ids'')) (\<lambda>audit.
                res_bind (coerce_ids (dget d ''replay_record_ids'')) (\<lambda>replay.
                res_bind (validate_snapshot_id (dget d ''recommendation_snapshot_id'')) (\<lambda>snap.
                  if \<not> returns (cycle_date_from_id cid) \<or> \<not> returns (cycle_date_from_id current)
                    \<or> cid \<noteq> current \<or> layer \<noteq> ''L8''
                    \<or> kind \<in> {''fixture'', ''historical'', ''smoke'', ''synthetic''}
                    \<or> kind \<noteq> ''current-cycle''
                  then Inl InvalidFormalSnapshotManifest
                  else Inr \<lparr>pv_cycle_id = cid, pv_current_cycle_id = current, pv_snapshot_id = snap,
                    pv_audit_ids = audit, pv_replay_ids = replay\<rparr>))))
      | _ \<Rightarrow> Inl InvalidFormalSnapshotManifest)"

definition preflight_recommendation_snapshot_publish ::
  "string \<Rightarrow> int \<Rightarrow> pyval \<Rightarrow> cycle_error + provenance" where
  "preflight_recommendation_snapshot_publish cid snapshot_id v =
     (if v = PNone then Inl InvalidFormalSnapshotManifest
      else res_bind (coerce_provenance v) (\<lambda>proof_of.
        if pv_cycle_id proof_of \<noteq> cid then Inl InvalidFormalSnapshotManifest
        else if pv_snapshot_id proof_of \<noteq> snapshot_id then Inl InvalidFormalSnapshotManifest
        else Inr proof_of))"

definition manifest_payload :: "(string \<times> int) list \<Rightarrow> pyval" where
  "manifest_payload snaps = PDict (map (\<lambda>(t, i). (t, PDict [(''snapshot_id'', PInt i)])) snaps)"

definition manifest_from_row :: "string list \<Rightarrow> publish_row \<Rightarrow> cycle_error + publish_row" where
  "manifest_from_row contract_names m =
     res_bind (cycle_date_from_id (mf_cycle m)) (\<lambda>_.
       res_map (\<lambda>snaps. m\<lparr>mf_snapshots := snaps\<rparr>)
         (normalize_snapshot_manifest contract_names (manifest_payload (mf_snapshots m))))"

definition find_manifest :: "string \<Rightarrow> control_db \<Rightarrow> publish_row option" where
  "find_manifest cid db = List.find (\<lambda>m. mf_cycle m = cid) (manifests db)"

definition recommendation_snapshot_of :: "(string \<times> int) list \<Rightarrow> int" where
  "recommendation_snapshot_of snaps =
     (case map_of snaps ''formal.recommendation_snapshot'' of None \<Rightarrow> 0 | Some i \<Rightarrow> i)"

definition publish_manifest ::
  "string list \<Rightarrow> string \<Rightarrow> pyval \<Rightarrow> pyval \<Rightarrow> int \<Rightarrow> control_db \<Rightarrow>
   (cycle_error + publish_row) \<times> control_db" where
  "publish_manifest contract_names cid snapshots prov now db =
     (case res_bind (cycle_date_from_id cid) (\<lambda>_.
        res_bind (normalize_snapshot_manifest contract_names snapshots) (\<lambda>snaps.
        res_bind (preflight_recommendation_snapshot_publish cid (recommendation_snapshot_of snaps) prov) (\<lambda>_.
          case find_cycle cid db of
            None \<Rightarrow> Inl (PublishManifestNotFound (Some cid))
          | Some c \<Rightarrow>
              if find_manifest cid db \<noteq> None then Inl (ManifestAlreadyPublished cid)
              else if c_status c \<noteq> Phase3
              then Inl (InvalidCycleTransition cid (status_name (c_status c)) ''published'')
              else Inr \<lparr>mf_cycle = cid, mf_published_at = now, mf_snapshots = snaps\<rparr>))) of
        Inl e \<Rightarrow> (Inl e, db)
      | Inr m \<Rightarrow>
          (case manifest_from_row contract_names m of
             Inl e \<Rightarrow> (Inl e, db)
           | Inr row \<Rightarrow>
               (Inr row, update_cycle cid (\<lambda>c. c\<lparr>c_status := Published, c_updated_at := now\<rparr>)
                  (db\<lparr>manifests := manifests db @ [m]\<rparr>))))"

definition get_publish_manifest :: "string list \<Rightarrow> string \<Rightarrow> control_db \<Rightarrow> cycle_error + publish_row" where
  "get_publish_manifest contract_names cid db =
     res_bind (cycle_date_from_id cid) (\<lambda>_.
       case find_manifest cid db of
         None \<Rightarrow> Inl (PublishManifestNotFound (Some cid))
       | Some m \<Rightarrow> manifest_from_row contract_names m)"

definition newest_manifest :: "publish_row list \<Rightarrow> publish_row option" where
  "newest_manifest ms =
     (case rev (sort_key (\<lambda>m. (mf_published_at m, mf_cycle m)) ms) of [] \<Rightarrow> None | m # _ \<Rightarrow> Some m)"

definition get_latest_publish_manifest :: "string list \<Rightarrow> control_db \<Rightarrow> cycle_error + publish_row" where
  "get_latest_publish_manifest contract_names db =
     (case newest_manifest (manifests db) of
        None \<Rightarrow> Inl (PublishManifestNotFound None)
      | Some m \<Rightarrow> manifest_from_row contract_names m)"

definition get_publish_manifest_for_snapshot ::
  "string list \<Rightarrow> pyval \<Rightarrow> string \<Rightarrow> control_db \<Rightarrow> cycle_error + publish_row" where
  "get_publish_manifest_for_snapshot contract_names snapshot_id table db =
     res_bind (validate_snapshot_id snapshot_id) (\<lambda>i.
     res_bind (validate_formal_table_key contract_names table) (\<lambda>t.
       case newest_manifest (filter (\<lambda>m. map_of (mf_snapshots m) t = Some i) (manifests db)) of
         None \<Rightarrow> Inl (PublishManifestNotFound None)
       | Some m \<Rightarrow> manifest_from_row contract_names m))"

section \<open>The invariant of the control tables\<close>

definition selected :: "string \<Rightarrow> control_db \<Rightarrow> queue_item set" where
  "selected cid db = {i \<in> set (candidates (queue_of db)).
     \<exists>s \<in> set (selections db). s_cycle s = cid \<and> s_candidate s = q_id i}"

definition top_of :: "(queue_item \<Rightarrow> int) \<Rightarrow> queue_item set \<Rightarrow> int option" where
  "top_of f S = (if S = {} then None else Some (Max (f ` S)))"

definition unfrozen_row :: "control_db \<Rightarrow> cycle_row \<Rightarrow> bool" where
  "unfrozen_row db c \<longleftrightarrow> c_frozen_at c = None \<and> (\<forall>s \<in> set (selections db). s_cycle s \<noteq> c_id c) \<and>
     c_candidate_count c = 0 \<and> c_cutoff_ingest_seq c = None \<and> c_cutoff_submitted_at c = None"

definition frozen_row :: "control_db \<Rightarrow> cycle_row \<Rightarrow> bool" where
  "frozen_row db c \<longleftrightarrow> c_frozen_at c \<noteq> None \<and> c_status c \<noteq> Pending \<and>
     c_candidate_count c = card (selected (c_id c) db) \<and>
     c_cutoff_ingest_seq c = top_of q_ingest_seq (selected (c_id c) db) \<and>
     c_cutoff_submitted_at c = top_of q_submitted_at (selected (c_id c) db)"

definition rows_exact :: "control_db \<Rightarrow> bool" where
  "rows_exact db \<longleftrightarrow> (\<forall>c \<in> set (cycles db). cycle_date_from_id (c_id c) = Inr (c_date c) \<and>
     (unfrozen_row db c \<or> frozen_row db c))"

definition accepted_id :: "queue_db \<Rightarrow> int \<Rightarrow> bool" where
  "accepted_id q k \<longleftrightarrow> (\<exists>i \<in> set (candidates q). q_id i = k \<and> q_status i = Accepted)"

definition selections_ok :: "control_db \<Rightarrow> bool" where
  "selections_ok db \<longleftrightarrow> distinct (map s_candidate (selections db)) \<and>
     (\<forall>s \<in> set (selections db). s_cycle s \<in> c_id ` set (cycles db) \<and> accepted_id (queue_of db) (s_candidate s))"

definition manifests_ok :: "control_db \<Rightarrow> bool" where
  "manifests_ok db \<longleftrightarrow> distinct (map mf_cycle (manifests db)) \<and>
     mf_cycle ` set (manifests db) = c_id ` {c \<in> set (cycles db). c_status c = Published}"

definition control_ok :: "control_db \<Rightarrow> bool" where
  "control_ok db \<longleftrightarrow> queue_ok (queue_of db) \<and> distinct (map c_id (cycles db)) \<and>
     distinct (map c_date (cycles db)) \<and> rows_exact db \<and> selections_ok db \<and> manifests_ok db"

lemma empty_control_ok: "control_ok empty_control"
  by (simp add: control_ok_def empty_control_def empty_queue_ok rows_exact_def selections_ok_def manifests_ok_def)

lemma accepted_id_settles:
  assumes "settles q q'" and "accepted_id q k"
  shows "accepted_id q' k"
proof -
  from assms(2) obtain i where i: "i \<in> set (candidates q)" "q_id i = k" "q_status i = Accepted"
    by (auto simp: accepted_id_def)
  with assms(1) have "i \<in> set (candidates q')" unfolding settles_def by force
  with i show ?thesis by (auto simp: accepted_id_def)
qed

lemma id_eq: "queue_ok q \<Longrightarrow> i \<in> set (candidates q) \<Longrightarrow> j \<in> set (candidates q) \<Longrightarrow> q_id i = q_id j \<Longrightarrow> i = j"
  using same_row [of "candidates q" i j] by (simp add: queue_ok_def)

text \<open>Queue operations do not touch what has been selected.\<close>

lemma selected_settles:
  assumes "queue_ok (queue_of db)" and "queue_ok q'" and "settles (queue_of db) q'" and "selections_ok db"
  shows "selected cid (db\<lparr>queue_of := q'\<rparr>) = selected cid db"
proof -
  have kept: "i \<in> set (candidates q') \<longleftrightarrow> i \<in> set (candidates (queue_of db))"
    if s: "s \<in> set (selections db)" "s_candidate s = q_id i" for i s
  proof -
    from assms(4) s obtain j where j: "j \<in> set (candidates (queue_of db))" "q_id j = q_id i" "q_status j = Accepted"
      unfolding selections_ok_def accepted_id_def by metis
    with assms(3) have j': "j \<in> set (candidates q')" unfolding settles_def by force
    show ?thesis using id_eq [OF assms(1)] id_eq [OF assms(2)] j j' by metis
  qed
  then show ?thesis by (auto simp: selected_def)
qed

lemma control_ok_queue:
  assumes "control_ok db" and "queue_step (queue_of db) q'"
  shows "control_ok (db\<lparr>queue_of := q'\<rparr>)"
proof -
  let ?db = "db\<lparr>queue_of := q'\<rparr>"
  have q: "queue_ok (queue_of db)" "selections_ok db" using assms(1) by (simp_all add: control_ok_def)
  have q': "queue_ok q'" "settles (queue_of db) q'"
    using q(1) assms(2) queue.inv_step queue.ord_step by blast+
  note same = selected_settles [OF q(1) q' q(2)]
  have "unfrozen_row ?db c = unfrozen_row db c" "frozen_row ?db c = frozen_row db c" for c
    by (simp_all add: unfrozen_row_def frozen_row_def same)
  then have "rows_exact ?db = rows_exact db" by (simp add: rows_exact_def)
  moreover have "selections_ok ?db" using q(2) accepted_id_settles [OF q'(2)] by (simp add: selections_ok_def)
  moreover have "manifests_ok ?db = manifests_ok db" by (simp add: manifests_ok_def)
  ultimately show ?thesis using assms(1) q'(1) by (simp add: control_ok_def)
qed

section \<open>The operations keep the invariant\<close>

lemma metadata_cases:
  "(\<exists>e. metadata_from_row c = Inl e) \<or>
   metadata_from_row c = Inr c \<and> cycle_date_from_id (c_id c) = Inr (c_date c)"
  by (cases "cycle_date_from_id (c_id c)") (simp_all add: metadata_from_row_def)

lemma returned_cases: "returned cid old new = (r, db') \<Longrightarrow>
    db' = old \<and> (\<exists>e. r = Inl e) \<or>
    db' = new \<and> (\<exists>c. find_cycle cid new = Some c \<and> r = Inr c \<and> cycle_date_from_id (c_id c) = Inr (c_date c))"
proof (cases "find_cycle cid new")
  case (Some c)
  moreover assume "returned cid old new = (r, db')"
  ultimately show ?thesis
    using metadata_cases [of c] by (cases "metadata_from_row c") (auto simp: returned_def)
qed (auto simp: returned_def)

lemma find_cycle_Some: "find_cycle cid db = Some c \<Longrightarrow> c \<in> set (cycles db) \<and> c_id c = cid"
  by (auto simp: find_cycle_def find_Some_iff)

lemma find_cycle_eq: "distinct (map c_id (cycles db)) \<Longrightarrow> c \<in> set (cycles db) \<Longrightarrow> find_cycle (c_id c) db = Some c"
proof -
  assume d: "distinct (map c_id (cycles db))" and c: "c \<in> set (cycles db)"
  have "find_cycle (c_id c) db \<noteq> None" using c by (auto simp: find_cycle_def find_None_iff)
  then obtain x where x: "find_cycle (c_id c) db = Some x" by auto
  with find_cycle_Some [OF x] d c have "x = c" by (auto simp: distinct_map inj_on_def)
  with x show ?thesis by simp
qed

lemma update_cycle_simps [simp]:
  "queue_of (update_cycle cid f db) = queue_of db" "selections (update_cycle cid f db) = selections db"
  "manifests (update_cycle cid f db) = manifests db"
  "cycles (update_cycle cid f db) = map (\<lambda>c. if c_id c = cid then f c else c) (cycles db)"
  by (simp_all add: update_cycle_def)

definition keeps_identity :: "(cycle_row \<Rightarrow> cycle_row) \<Rightarrow> bool" where
  "keeps_identity f \<longleftrightarrow> (\<forall>c. c_id (f c) = c_id c \<and> c_date (f c) = c_date c)"

lemma map_update_ids: "keeps_identity f \<Longrightarrow>
    map c_id (cycles (update_cycle cid f db)) = map c_id (cycles db) \<and>
    map c_date (cycles (update_cycle cid f db)) = map c_date (cycles db) \<and>
    c_id ` set (cycles (update_cycle cid f db)) = c_id ` set (cycles db)"
proof -
  assume "keeps_identity f"
  then have *: "map c_id (cycles (update_cycle cid f db)) = map c_id (cycles db)"
    "map c_date (cycles (update_cycle cid f db)) = map c_date (cycles db)"
    by (simp_all add: keeps_identity_def)
  have "c_id ` set (cycles (update_cycle cid f db)) = c_id ` set (cycles db)"
    using arg_cong [OF *(1), of set] by (simp only: list.set_map)
  with * show ?thesis by blast
qed

lemma selected_update [simp]: "selected x (update_cycle cid f db) = selected x db"
  by (simp add: selected_def)

lemma rows_update [simp]:
  "unfrozen_row (update_cycle cid f db) c = unfrozen_row db c" "frozen_row (update_cycle cid f db) c = frozen_row db c"
  by (simp_all add: unfrozen_row_def frozen_row_def)

lemma rows_exact_update:
  assumes "rows_exact db" and "keeps_identity f"
    and "\<And>c. c \<in> set (cycles db) \<Longrightarrow> c_id c = cid \<Longrightarrow> unfrozen_row db (f c) \<or> frozen_row db (f c)"
  shows "rows_exact (update_cycle cid f db)"
  using assms by (auto simp: rows_exact_def keeps_identity_def)

lemma selections_ok_update: "selections_ok db \<Longrightarrow> keeps_identity f \<Longrightarrow> selections_ok (update_cycle cid f db)"
  using map_update_ids [of f cid db] by (simp add: selections_ok_def)


lemma manifests_ok_update:
  assumes "manifests_ok db" and "keeps_identity f"
    and "\<And>c. c \<in> set (cycles db) \<Longrightarrow> c_id c = cid \<Longrightarrow> c_status (f c) = Published \<longleftrightarrow> c_status c = Published"
  shows "manifests_ok (update_cycle cid f db)"
proof -
  let ?g = "\<lambda>c. if c_id c = cid then f c else c"
  have "{c \<in> set (cycles (update_cycle cid f db)). c_status c = Published} =
      ?g ` {c \<in> set (cycles db). c_status (?g c) = Published}" by auto
  also have "{c \<in> set (cycles db). c_status (?g c) = Published} = {c \<in> set (cycles db). c_status c = Published}"
    using assms(3) by auto
  finally have "c_id ` {c \<in> set (cycles (update_cycle cid f db)). c_status c = Published} =
      (\<lambda>c. c_id (?g c)) ` {c \<in> set (cycles db). c_status c = Published}" by (simp only: image_image)
  also have "\<dots> = c_id ` {c \<in> set (cycles db). c_status c = Published}"
    using assms(2) by (intro image_cong) (simp_all add: keeps_identity_def)
  finally show ?thesis using assms(1) by (simp add: manifests_ok_def)
qed

lemma control_ok_update:
  assumes "control_ok db" and "keeps_identity f"
    and "\<And>c. c \<in> set (cycles db) \<Longrightarrow> c_id c = cid \<Longrightarrow> unfrozen_row db (f c) \<or> frozen_row db (f c)"
    and "\<And>c. c \<in> set (cycles db) \<Longrightarrow> c_id c = cid \<Longrightarrow> c_status (f c) = Published \<longleftrightarrow> c_status c = Published"
  shows "control_ok (update_cycle cid f db)"
proof -
  have "rows_exact (update_cycle cid f db)"
    using assms(1,3) by (intro rows_exact_update [OF _ assms(2)]) (simp_all add: control_ok_def)
  moreover have "selections_ok (update_cycle cid f db)"
    using assms(1) by (intro selections_ok_update [OF _ assms(2)]) (simp add: control_ok_def)
  moreover have "manifests_ok (update_cycle cid f db)"
    using assms(1,4) by (intro manifests_ok_update [OF _ assms(2)]) (simp_all add: control_ok_def)
  ultimately show ?thesis
    using assms(1) map_update_ids [OF assms(2), of cid db] by (simp add: control_ok_def del: update_cycle_simps(4))
qed

lemma control_ok_create:
  assumes "control_ok db"
  shows "control_ok (snd (create_cycle dt now db))"
proof (cases "create_cycle dt now db")
  case (Pair r db')
  let ?cid = "cycle_id_for_date dt"
  let ?row = "\<lparr>c_id = ?cid, c_date = dt, c_status = Pending, c_cutoff_submitted_at = None,
    c_cutoff_ingest_seq = None, c_candidate_count = 0, c_frozen_at = None, c_created_at = now, c_updated_at = now\<rparr>"
  let ?new = "db\<lparr>cycles := cycles db @ [?row]\<rparr>"
  consider "db' = db" | "returned ?cid db ?new = (r, db')" "db' \<noteq> db"
      "\<not> list_ex (\<lambda>c. c_id c = ?cid \<or> c_date c = dt) (cycles db)"
    using Pair by (auto simp: create_cycle_def Let_def split: if_splits)
  then show ?thesis
  proof cases
    case 1
    with Pair assms show ?thesis by simp
  next
    case 2
    from returned_cases [OF 2(1)] 2(2) obtain c where db': "db' = ?new" and c: "find_cycle ?cid ?new = Some c"
      "cycle_date_from_id (c_id c) = Inr (c_date c)" by auto
    have new: "c_id x \<noteq> ?cid \<and> c_date x \<noteq> dt" if "x \<in> set (cycles db)" for x
      using 2(3) that by (auto simp: list_ex_iff)
    then have fresh: "?cid \<notin> c_id ` set (cycles db)" "dt \<notin> c_date ` set (cycles db)" by fastforce+
    from new find_cycle_Some [OF c(1)] have "c = ?row" by auto
    with c(2) have id: "cycle_date_from_id ?cid = Inr dt" by simp
    have none: "s_cycle s \<noteq> ?cid" if "s \<in> set (selections db)" for s
      using assms fresh(1) that unfolding control_ok_def selections_ok_def by metis
    have "unfrozen_row ?new c = unfrozen_row db c" "frozen_row ?new c = frozen_row db c" for c
      by (simp_all add: unfrozen_row_def frozen_row_def selected_def)
    then have "rows_exact ?new"
      using assms id none by (auto simp: control_ok_def rows_exact_def unfrozen_row_def)
    moreover have "selections_ok ?new" using assms by (auto simp: control_ok_def selections_ok_def)
    moreover have "manifests_ok ?new"
    proof -
      have "{c \<in> set (cycles ?new). c_status c = Published} = {c \<in> set (cycles db). c_status c = Published}" by auto
      with assms show ?thesis by (simp add: control_ok_def manifests_ok_def)
    qed
    ultimately show ?thesis using assms fresh by (simp add: Pair db' control_ok_def)
  qed
qed


lemma validate_transition_Inr: "validate_transition cid current target = Inr u \<Longrightarrow>
    target \<noteq> Pending \<and> target \<noteq> Published \<and> current \<noteq> Published \<and> current \<noteq> Failed"
  by (cases current; cases target) (auto simp: validate_transition_def failed_sources_def split: if_splits)

lemma unique_cycle: "control_ok db \<Longrightarrow> c \<in> set (cycles db) \<Longrightarrow> find_cycle cid db = Some x \<Longrightarrow> c_id c = cid \<Longrightarrow> c = x"
  using find_cycle_eq [of db c] by (simp add: control_ok_def)

lemma control_ok_transition:
  assumes "control_ok db"
  shows "control_ok (snd (transition_cycle_status cid status now db))"
proof (cases "transition_cycle_status cid status now db")
  case (Pair r db')
  then consider "db' = db" | target c u where
      "returned cid db (update_cycle cid (\<lambda>c. c\<lparr>c_status := target, c_updated_at := now\<rparr>) db) = (r, db')"
      "find_cycle cid db = Some c" "validate_transition cid (c_status c) target = Inr u"
    by (auto simp: transition_cycle_status_def res_bind_eq_Inr res_map_eq_Inr split: sum.splits option.splits)
  then show ?thesis
  proof cases
    case 1
    with Pair assms show ?thesis by simp
  next
    case 2
    let ?f = "\<lambda>c. c\<lparr>c_status := target, c_updated_at := now\<rparr>"
    note tr = validate_transition_Inr [OF 2(3)]
    have "control_ok (update_cycle cid ?f db)"
    proof (rule control_ok_update [OF assms])
      show "keeps_identity ?f" by (simp add: keeps_identity_def)
      fix x assume x: "x \<in> set (cycles db)" "c_id x = cid"
      then have "x = c" by (rule unique_cycle [OF assms _ 2(2)])
      with tr show "c_status (?f x) = Published \<longleftrightarrow> c_status x = Published" by simp
      have "unfrozen_row db x \<or> frozen_row db x" using assms x(1) by (simp add: control_ok_def rows_exact_def)
      with tr show "unfrozen_row db (?f x) \<or> frozen_row db (?f x)"
        by (auto simp: unfrozen_row_def frozen_row_def)
    qed
    with returned_cases [OF 2(1)] assms Pair show ?thesis by auto
  qed
qed

lemma foldr_max: "foldr max xs a = Max (insert a (set xs))" for a :: int
proof (induction xs)
  case Nil
  show ?case by simp
next
  case (Cons x xs)
  have "foldr max (x # xs) a = max x (Max (insert a (set xs)))" using Cons by simp
  also have "\<dots> = Max (insert x (insert a (set xs)))" by (subst Max_insert) auto
  finally show ?case by (simp add: insert_commute)
qed

lemma largest_top: "largest (map f xs) = top_of f (set xs)"
  by (cases xs) (simp_all add: largest_def top_of_def foldr_max del: foldr.simps)

definition fresh_selections :: "string \<Rightarrow> queue_item list \<Rightarrow> int \<Rightarrow> control_db \<Rightarrow> control_db" where
  "fresh_selections cid chosen now db = db\<lparr>selections := selections db @ map (select_for cid now) chosen\<rparr>"

lemma select_for_simps [simp]: "s_cycle (select_for cid now c) = cid" "s_candidate (select_for cid now c) = q_id c"
  by (simp_all add: select_for_def)

lemma map_select_for: "map (s_candidate \<circ> select_for cid now) cs = map q_id cs"
  by simp

lemma fresh_selections_simps [simp]:
  "queue_of (fresh_selections cid chosen now db) = queue_of db" "cycles (fresh_selections cid chosen now db) = cycles db"
  "manifests (fresh_selections cid chosen now db) = manifests db"
  by (simp_all add: fresh_selections_def)

definition frozen_db :: "string \<Rightarrow> queue_item list \<Rightarrow> int \<Rightarrow> control_db \<Rightarrow> control_db" where
  "frozen_db cid chosen now db = update_cycle cid (freeze_row chosen now) (fresh_selections cid chosen now db)"

lemma in_selected_fresh: "i \<in> selected x (fresh_selections cid chosen now db) \<longleftrightarrow>
    i \<in> selected x db \<or> i \<in> set (candidates (queue_of db)) \<and> x = cid \<and> (\<exists>k \<in> set chosen. q_id k = q_id i)"
  by (simp add: selected_def fresh_selections_def bex_Un) blast

lemma selected_other: "x \<noteq> cid \<Longrightarrow> selected x (fresh_selections cid chosen now db) = selected x db"
  by (simp add: set_eq_iff in_selected_fresh)

lemma selected_fresh:
  assumes "queue_ok (queue_of db)" and "set chosen \<subseteq> set (candidates (queue_of db))"
    and "\<forall>s \<in> set (selections db). s_cycle s \<noteq> cid"
  shows "selected cid (fresh_selections cid chosen now db) = set chosen"
proof -
  have none: "i \<notin> selected cid db" for i using assms(3) by (simp add: selected_def)
  have "i \<in> set (candidates (queue_of db)) \<and> (\<exists>k \<in> set chosen. q_id k = q_id i) \<longleftrightarrow> i \<in> set chosen" for i
  proof
    assume "i \<in> set (candidates (queue_of db)) \<and> (\<exists>k \<in> set chosen. q_id k = q_id i)"
    then obtain k where k: "k \<in> set chosen" "q_id k = q_id i" "i \<in> set (candidates (queue_of db))" by blast
    then have "k = i" using id_eq [OF assms(1), of k i] assms(2) by blast
    with k(1) show "i \<in> set chosen" by simp
  next
    assume "i \<in> set chosen"
    with assms(2) show "i \<in> set (candidates (queue_of db)) \<and> (\<exists>k \<in> set chosen. q_id k = q_id i)" by blast
  qed
  with none show ?thesis by (intro set_eqI) (simp only: in_selected_fresh simp_thms)
qed

lemma rows_fresh_other:
  assumes "c_id x \<noteq> cid"
  shows "unfrozen_row (fresh_selections cid chosen now db) x = unfrozen_row db x"
    "frozen_row (fresh_selections cid chosen now db) x = frozen_row db x"
  using assms selected_other [of "c_id x" cid chosen now db]
  by (auto simp: unfrozen_row_def frozen_row_def fresh_selections_def)

lemma keeps_identity_freeze [simp]: "keeps_identity (freeze_row chosen now)"
  by (simp add: keeps_identity_def freeze_row_def)

lemma control_ok_freeze:
  assumes "control_ok db" and "find_cycle cid db = Some c" and "c_status c = Pending" and "c_frozen_at c = None"
    and "chosen = locked_candidates wanted free seen db"
    and "\<not> list_ex (\<lambda>s. s_candidate s \<in> set (map q_id chosen)) (selections db)"
  shows "control_ok (frozen_db cid chosen now db)"
proof -
  let ?db = "fresh_selections cid chosen now db"
  have q: "queue_ok (queue_of db)" and rows: "rows_exact db" and sels: "selections_ok db" and mans: "manifests_ok db"
    using assms(1) by (simp_all add: control_ok_def)
  have c: "c \<in> set (cycles db)" "c_id c = cid" using find_cycle_Some [OF assms(2)] by simp_all
  have chosen: "set chosen \<subseteq> {i \<in> set (candidates (queue_of db)). q_status i = Accepted}" "distinct (map q_id chosen)"
    using q by (auto simp: assms(5) locked_candidates_def queue_ok_def distinct_map inj_on_def)
  have "unfrozen_row db c" using rows c(1) assms(4) by (auto simp: rows_exact_def frozen_row_def)
  then have none: "\<forall>s \<in> set (selections db). s_cycle s \<noteq> cid" using c(2) by (simp add: unfrozen_row_def)
  have sel: "selected cid ?db = set chosen"
    using chosen(1) by (intro selected_fresh [OF q _ none]) auto
  have "rows_exact (update_cycle cid (freeze_row chosen now) ?db)"
    unfolding rows_exact_def
  proof
    fix y assume "y \<in> set (cycles (update_cycle cid (freeze_row chosen now) ?db))"
    then obtain x where x: "x \<in> set (cycles db)" "y = (if c_id x = cid then freeze_row chosen now x else x)" by auto
    have ids: "cycle_date_from_id (c_id y) = Inr (c_date y)"
      using rows x keeps_identity_freeze [of chosen now] by (auto simp: rows_exact_def keeps_identity_def)
    have "unfrozen_row ?db y \<or> frozen_row ?db y"
    proof (cases "c_id x = cid")
      case True
      have "distinct chosen" using chosen(2) by (simp add: distinct_map)
      with True sel x(2) show ?thesis
        by (simp add: frozen_row_def freeze_row_def largest_top distinct_card)
    next
      case False
      with x rows show ?thesis by (auto simp: rows_exact_def rows_fresh_other)
    qed
    with ids show "cycle_date_from_id (c_id y) = Inr (c_date y) \<and>
        (unfrozen_row (update_cycle cid (freeze_row chosen now) ?db) y \<or>
         frozen_row (update_cycle cid (freeze_row chosen now) ?db) y)" by simp
  qed
  moreover have "selections_ok ?db"
  proof -
    have "s_candidate ` set (selections db) \<inter> q_id ` set chosen = {}" using assms(6) by (auto simp: list_ex_iff)
    then have "distinct (map s_candidate (selections ?db))"
      using sels chosen(2) by (simp add: fresh_selections_def selections_ok_def map_select_for image_image)
    moreover have "s_cycle s \<in> c_id ` set (cycles db) \<and> accepted_id (queue_of db) (s_candidate s)"
      if "s \<in> set (selections ?db)" for s
    proof (cases "s \<in> set (selections db)")
      case True
      with sels show ?thesis by (simp add: selections_ok_def)
    next
      case False
      with that obtain k where "k \<in> set chosen" "s_candidate s = q_id k" "s_cycle s = cid"
        by (auto simp: fresh_selections_def)
      with chosen(1) c show ?thesis by (auto simp: accepted_id_def)
    qed
    ultimately show ?thesis by (simp add: selections_ok_def)
  qed
  moreover have "manifests_ok (update_cycle cid (freeze_row chosen now) ?db)"
  proof (rule manifests_ok_update)
    show "manifests_ok ?db" using mans by (simp add: manifests_ok_def)
    fix x assume "x \<in> set (cycles ?db)" "c_id x = cid"
    then have "x = c" using unique_cycle [OF assms(1) _ assms(2)] by simp
    with assms(3) show "c_status (freeze_row chosen now x) = Published \<longleftrightarrow> c_status x = Published"
      by (simp add: freeze_row_def)
  qed simp
  ultimately show ?thesis
    using assms(1) map_update_ids [of "freeze_row chosen now" cid ?db] selections_ok_update [of ?db "freeze_row chosen now" cid]
    by (simp add: frozen_db_def control_ok_def del: update_cycle_simps(4))
qed

lemma freeze_cases:
  assumes "freeze_selection cid submitted_by payload_type free seen now db = (r, db')"
  obtains e where "r = Inl e" "db' = db"
  | wanted chosen c c' where "freeze_filter_clause submitted_by payload_type = Inr wanted"
      "chosen = locked_candidates wanted free seen db" "find_cycle cid db = Some c" "c_status c = Pending"
      "c_frozen_at c = None" "\<not> list_ex (\<lambda>s. s_candidate s \<in> set (map q_id chosen)) (selections db)"
      "db' = frozen_db cid chosen now db" "find_cycle cid db' = Some c'" "r = Inr c'"
proof -
  let ?pre = "res_bind (cycle_date_from_id cid) (\<lambda>_.
        res_bind (freeze_filter_clause submitted_by payload_type) (\<lambda>wanted.
          case find_cycle cid db of
            None \<Rightarrow> Inl (CycleNotFound cid)
          | Some c \<Rightarrow>
              if c_status c \<noteq> Pending \<or> c_frozen_at c \<noteq> None
              then Inl (CycleAlreadyFrozen cid (status_name (c_status c)))
              else Inr (locked_candidates wanted free seen db)))"
  show thesis
  proof (cases ?pre)
    case (Inl e)
    with assms have "r = Inl e \<and> db' = db" by (auto simp: freeze_selection_def)
    with that(1) show ?thesis by blast
  next
    case (Inr chosen)
    then obtain wanted c where pre: "freeze_filter_clause submitted_by payload_type = Inr wanted"
      "chosen = locked_candidates wanted free seen db" "find_cycle cid db = Some c" "c_status c = Pending"
      "c_frozen_at c = None"
      by (auto simp: res_bind_eq_Inr split: option.splits if_splits)
    show ?thesis
    proof (cases "list_ex (\<lambda>s. s_candidate s \<in> set (map q_id chosen)) (selections db)")
      case True
      with assms Inr have "r = Inl CycleIntegrityError \<and> db' = db" by (auto simp: freeze_selection_def)
      with that(1) show ?thesis by blast
    next
      case False
      with assms Inr have "returned cid db (frozen_db cid chosen now db) = (r, db')"
        by (simp add: freeze_selection_def frozen_db_def fresh_selections_def)
      from returned_cases [OF this] that pre False show ?thesis by blast
    qed
  qed
qed

lemma control_ok_freeze_selection:
  assumes "control_ok db"
  shows "control_ok (snd (freeze_selection cid submitted_by payload_type free seen now db))"
proof (cases "freeze_selection cid submitted_by payload_type free seen now db")
  case (Pair r db')
  then show ?thesis
    by (cases rule: freeze_cases) (use assms in \<open>auto simp: Pair intro: control_ok_freeze\<close>)
qed

definition published_db :: "publish_row \<Rightarrow> int \<Rightarrow> control_db \<Rightarrow> control_db" where
  "published_db m now db = update_cycle (mf_cycle m) (\<lambda>c. c\<lparr>c_status := Published, c_updated_at := now\<rparr>)
     (db\<lparr>manifests := manifests db @ [m]\<rparr>)"

lemma publish_cases:
  assumes "publish_manifest names cid snapshots prov now db = (r, db')"
  obtains e where "r = Inl e" "db' = db"
  | snaps row c where "normalize_snapshot_manifest names snapshots = Inr snaps"
      "returns (preflight_recommendation_snapshot_publish cid (recommendation_snapshot_of snaps) prov)"
      "find_cycle cid db = Some c" "find_manifest cid db = None" "c_status c = Phase3"
      "r = Inr row" "manifest_from_row names \<lparr>mf_cycle = cid, mf_published_at = now, mf_snapshots = snaps\<rparr> = Inr row"
      "db' = published_db \<lparr>mf_cycle = cid, mf_published_at = now, mf_snapshots = snaps\<rparr> now db"
proof -
  let ?pre = "res_bind (cycle_date_from_id cid) (\<lambda>_.
        res_bind (normalize_snapshot_manifest names snapshots) (\<lambda>snaps.
        res_bind (preflight_recommendation_snapshot_publish cid (recommendation_snapshot_of snaps) prov) (\<lambda>_.
          case find_cycle cid db of
            None \<Rightarrow> Inl (PublishManifestNotFound (Some cid))
          | Some c \<Rightarrow>
              if find_manifest cid db \<noteq> None then Inl (ManifestAlreadyPublished cid)
              else if c_status c \<noteq> Phase3
              then Inl (InvalidCycleTransition cid (status_name (c_status c)) ''published'')
              else Inr \<lparr>mf_cycle = cid, mf_published_at = now, mf_snapshots = snaps\<rparr>)))"
  show thesis
  proof (cases ?pre)
    case (Inl e)
    with assms have "r = Inl e \<and> db' = db" by (auto simp: publish_manifest_def)
    with that(1) show ?thesis by blast
  next
    case (Inr m)
    then obtain snaps c p where pre: "normalize_snapshot_manifest names snapshots = Inr snaps"
      "preflight_recommendation_snapshot_publish cid (recommendation_snapshot_of snaps) prov = Inr p"
      "find_cycle cid db = Some c" "find_manifest cid db = None" "c_status c = Phase3"
      and m: "m = \<lparr>mf_cycle = cid, mf_published_at = now, mf_snapshots = snaps\<rparr>"
      by (auto simp: res_bind_eq_Inr split: option.splits if_splits)
    show ?thesis
    proof (cases "manifest_from_row names m")
      case e: (Inl e)
      with assms Inr have "r = Inl e \<and> db' = db" by (auto simp: publish_manifest_def)
      with that(1) show ?thesis by blast
    next
      case row: (Inr row)
      with assms Inr have "r = Inr row \<and> db' = published_db m now db"
        by (auto simp: publish_manifest_def published_db_def m)
      with that(2) pre row m show ?thesis by simp
    qed
  qed
qed

lemma control_ok_published:
  assumes "control_ok db" and "find_cycle (mf_cycle m) db = Some c" and "find_manifest (mf_cycle m) db = None"
    and "c_status c = Phase3"
  shows "control_ok (published_db m now db)"
proof -
  let ?db = "db\<lparr>manifests := manifests db @ [m]\<rparr>" and ?f = "\<lambda>c. c\<lparr>c_status := Published, c_updated_at := now\<rparr>"
  let ?u = "update_cycle (mf_cycle m) ?f ?db"
  have c: "c \<in> set (cycles db)" "c_id c = mf_cycle m" using find_cycle_Some [OF assms(2)] by simp_all
  have f: "keeps_identity ?f" by (simp add: keeps_identity_def)
  have same: "unfrozen_row ?db x = unfrozen_row db x" "frozen_row ?db x = frozen_row db x" for x
    by (simp_all add: unfrozen_row_def frozen_row_def selected_def)
  have "rows_exact ?u"
  proof (rule rows_exact_update [OF _ f])
    show "rows_exact ?db" using assms(1) by (simp add: control_ok_def rows_exact_def same)
    fix x assume "x \<in> set (cycles ?db)"
    then have "unfrozen_row db x \<or> frozen_row db x" using assms(1) by (simp add: control_ok_def rows_exact_def)
    then have "unfrozen_row db (?f x) \<or> frozen_row db (?f x)" by (auto simp: unfrozen_row_def frozen_row_def)
    then show "unfrozen_row ?db (?f x) \<or> frozen_row ?db (?f x)" by (simp only: same)
  qed
  moreover have "selections_ok ?u"
    using assms(1) by (intro selections_ok_update [OF _ f]) (simp add: control_ok_def selections_ok_def)
  moreover have "manifests_ok ?u"
  proof -
    have fresh: "mf_cycle m \<notin> mf_cycle ` set (manifests db)"
      using assms(3) by (force simp: find_manifest_def find_None_iff)
    have "c_id ` {x \<in> set (cycles ?u). c_status x = Published} =
        insert (mf_cycle m) (c_id ` {x \<in> set (cycles db). c_status x = Published})" (is "?L = ?R")
    proof
      show "?L \<subseteq> ?R" by auto
      show "?R \<subseteq> ?L"
      proof
        fix k assume "k \<in> ?R"
        then consider "k = mf_cycle m" | x where "x \<in> set (cycles db)" "c_status x = Published" "k = c_id x" by blast
        then show "k \<in> ?L"
        proof cases
          case 1
          then show ?thesis using c by (intro image_eqI [of _ _ "?f c"]) auto
        next
          case 2
          then show ?thesis
            by (intro image_eqI [of _ _ "if c_id x = mf_cycle m then ?f x else x"]) auto
        qed
      qed
    qed
    with assms(1) fresh show ?thesis by (simp add: control_ok_def manifests_ok_def del: update_cycle_simps(4))
  qed
  ultimately show ?thesis
    using assms(1) map_update_ids [OF f, of "mf_cycle m" ?db]
    by (simp add: published_db_def control_ok_def del: update_cycle_simps(4))
qed

lemma control_ok_publish:
  assumes "control_ok db"
  shows "control_ok (snd (publish_manifest names cid snapshots prov now db))"
proof (cases "publish_manifest names cid snapshots prov now db")
  case (Pair r db')
  then show ?thesis
    by (cases rule: publish_cases) (use assms in \<open>auto simp: Pair intro: control_ok_published\<close>)
qed

section \<open>Histories\<close>

inductive control_step :: "control_db \<Rightarrow> control_db \<Rightarrow> bool" where
  queued: "queue_step (queue_of db) q' \<Longrightarrow> control_step db (db\<lparr>queue_of := q'\<rparr>)"
| created: "control_step db (snd (create_cycle dt now db))"
| moved: "control_step db (snd (transition_cycle_status cid status now db))"
| frozen: "control_step db (snd (freeze_cycle_candidates cid submitted_by payload_type free seen now db))"
| published: "control_step db (snd (publish_manifest names cid snapshots prov now db))"

lemma freeze_cycle_candidates_eq:
  "freeze_cycle_candidates cid submitted_by payload_type free seen now db =
   freeze_selection cid submitted_by payload_type free seen now db"
  by (simp add: freeze_cycle_candidates_def freeze_selection_def split: sum.splits)

lemma control_ok_step: "control_ok db \<Longrightarrow> control_step db db' \<Longrightarrow> control_ok db'"
  by (erule control_step.cases)
    (simp_all add: control_ok_queue control_ok_create control_ok_transition control_ok_freeze_selection
      control_ok_publish freeze_cycle_candidates_eq)

text \<open>How a row may change: its status only goes forward, and once frozen its selection is fixed.\<close>

fun stage_of :: "cycle_status \<Rightarrow> nat" where
  "stage_of Pending = 0"
| "stage_of Phase0 = 1"
| "stage_of Phase1 = 2"
| "stage_of Phase2 = 3"
| "stage_of Phase3 = 4"
| "stage_of Published = 5"
| "stage_of Failed = 5"

definition forward :: "cycle_status \<Rightarrow> cycle_status \<Rightarrow> bool" where
  "forward s t \<longleftrightarrow> s = t \<or> stage_of s < stage_of t"

definition same_selection :: "cycle_row \<Rightarrow> cycle_row \<Rightarrow> bool" where
  "same_selection c c' \<longleftrightarrow> c_frozen_at c' = c_frozen_at c \<and> c_candidate_count c' = c_candidate_count c \<and>
     c_cutoff_ingest_seq c' = c_cutoff_ingest_seq c \<and> c_cutoff_submitted_at c' = c_cutoff_submitted_at c"

definition row_advances :: "cycle_row \<Rightarrow> cycle_row \<Rightarrow> bool" where
  "row_advances c c' \<longleftrightarrow> c_id c' = c_id c \<and> c_date c' = c_date c \<and> forward (c_status c) (c_status c') \<and>
     (c_status c \<noteq> Pending \<or> c_frozen_at c \<noteq> None \<longrightarrow> same_selection c c')"

definition picks_of :: "string \<Rightarrow> control_db \<Rightarrow> selection list" where
  "picks_of cid db = filter (\<lambda>s. s_cycle s = cid) (selections db)"

definition control_advances :: "control_db \<Rightarrow> control_db \<Rightarrow> bool" where
  "control_advances db db' \<longleftrightarrow> (\<forall>c \<in> set (cycles db). \<exists>c' \<in> set (cycles db').
     row_advances c c' \<and> (c_status c \<noteq> Pending \<or> c_frozen_at c \<noteq> None \<longrightarrow> picks_of (c_id c) db' = picks_of (c_id c) db))"

lemma row_advances_refl [simp]: "row_advances c c"
  by (simp add: row_advances_def forward_def same_selection_def)

lemma forward_Pending: "forward s t \<Longrightarrow> t = Pending \<Longrightarrow> s = Pending"
  by (cases s) (auto simp: forward_def)

lemma row_advances_trans: "row_advances a b \<Longrightarrow> row_advances b c \<Longrightarrow> row_advances a c"
  using forward_Pending [of "c_status a" "c_status b"]
  by (auto simp: row_advances_def forward_def same_selection_def)


definition advances_row :: "cycle_row \<Rightarrow> control_db \<Rightarrow> control_db \<Rightarrow> bool" where
  "advances_row c db db' \<longleftrightarrow> (\<exists>c' \<in> set (cycles db'). row_advances c c' \<and>
     (c_status c \<noteq> Pending \<or> c_frozen_at c \<noteq> None \<longrightarrow> picks_of (c_id c) db' = picks_of (c_id c) db))"

lemma control_advances_iff: "control_advances db db' \<longleftrightarrow> (\<forall>c \<in> set (cycles db). advances_row c db db')"
  by (simp add: control_advances_def advances_row_def)

lemma advances_row_same: "cycles db' = cycles db @ cs \<Longrightarrow> selections db' = selections db \<Longrightarrow>
    c \<in> set (cycles db) \<Longrightarrow> advances_row c db db'"
  unfolding advances_row_def by (intro bexI [of _ c]) (auto simp: picks_of_def)

lemma control_advances_refl: "control_advances db db"
  by (simp add: control_advances_iff advances_row_same [where cs = "[]"])

lemma control_advances_trans:
  assumes "control_advances a b" and "control_advances b c"
  shows "control_advances a c"
  unfolding control_advances_def
proof
  fix x assume "x \<in> set (cycles a)"
  with assms(1) obtain y where y: "y \<in> set (cycles b)" "row_advances x y"
    "c_status x \<noteq> Pending \<or> c_frozen_at x \<noteq> None \<longrightarrow> picks_of (c_id x) b = picks_of (c_id x) a"
    unfolding control_advances_def by blast
  with assms(2) obtain z where z: "z \<in> set (cycles c)" "row_advances y z"
    "c_status y \<noteq> Pending \<or> c_frozen_at y \<noteq> None \<longrightarrow> picks_of (c_id y) c = picks_of (c_id y) b"
    unfolding control_advances_def by blast
  have "c_status y \<noteq> Pending \<or> c_frozen_at y \<noteq> None" if "c_status x \<noteq> Pending \<or> c_frozen_at x \<noteq> None"
    using that y(2) forward_Pending [of "c_status x" "c_status y"]
    by (auto simp: row_advances_def same_selection_def)
  moreover have "c_id y = c_id x" using y(2) by (simp add: row_advances_def)
  ultimately show "\<exists>c' \<in> set (cycles c). row_advances x c' \<and>
      (c_status x \<noteq> Pending \<or> c_frozen_at x \<noteq> None \<longrightarrow> picks_of (c_id x) c = picks_of (c_id x) a)"
    using y z row_advances_trans [OF y(2) z(2)] by (intro bexI [of _ z]) simp_all
qed

lemma advances_update:
  assumes "control_ok db" and "find_cycle cid db = Some c" and "row_advances c (f c)"
    and "selections db' = selections db" and "cycles db' = cycles (update_cycle cid f db)"
  shows "control_advances db db'"
  unfolding control_advances_iff
proof
  fix x assume x: "x \<in> set (cycles db)"
  have "row_advances x (if c_id x = cid then f x else x)"
    using unique_cycle [OF assms(1) x assms(2)] assms(3) by auto
  moreover have "(if c_id x = cid then f x else x) \<in> set (cycles db')" using x by (auto simp: assms(5))
  ultimately show "advances_row x db db'"
    unfolding advances_row_def picks_of_def assms(4) by blast
qed

lemma forward_transition: "validate_transition cid s t = Inr u \<Longrightarrow> forward s t"
  by (cases s; cases t) (auto simp: validate_transition_def failed_sources_def forward_def split: if_splits)

lemma transition_cases:
  assumes "transition_cycle_status cid status now db = (r, db')"
  obtains e where "r = Inl e" "db' = db"
  | target c c' where "find_cycle cid db = Some c" "validate_cycle_status status = Inr target"
      "validate_transition cid (c_status c) target = Inr ()" "r = Inr c'"
      "db' = update_cycle cid (\<lambda>c. c\<lparr>c_status := target, c_updated_at := now\<rparr>) db"
      "find_cycle cid db' = Some c'"
proof -
  let ?pre = "res_bind (cycle_date_from_id cid) (\<lambda>_.
        res_bind (transition_target cid status) (\<lambda>target.
          case find_cycle cid db of
            None \<Rightarrow> Inl (CycleNotFound cid)
          | Some c \<Rightarrow> res_map (\<lambda>_. target) (validate_transition cid (c_status c) target)))"
  show thesis
  proof (cases ?pre)
    case (Inl e)
    with assms have "r = Inl e \<and> db' = db" by (auto simp: transition_cycle_status_def)
    with that(1) show ?thesis by blast
  next
    case (Inr target)
    then obtain c where pre: "find_cycle cid db = Some c" "validate_transition cid (c_status c) target = Inr ()"
      "validate_cycle_status status = Inr target"
      by (auto simp: res_bind_eq_Inr res_map_eq_Inr transition_target_def split: option.splits sum.splits)
    from assms Inr have "returned cid db (update_cycle cid (\<lambda>c. c\<lparr>c_status := target, c_updated_at := now\<rparr>) db) = (r, db')"
      by (simp add: transition_cycle_status_def)
    from returned_cases [OF this] that pre show ?thesis by blast
  qed
qed

lemma transition_advances:
  assumes "control_ok db"
  shows "control_advances db (snd (transition_cycle_status cid status now db))"
proof (cases "transition_cycle_status cid status now db")
  case (Pair r db')
  then show ?thesis
  proof (cases rule: transition_cases)
    case (1 e)
    then show ?thesis by (simp add: Pair control_advances_refl)
  next
    case (2 target c c')
    have "row_advances c (c\<lparr>c_status := target, c_updated_at := now\<rparr>)"
      using forward_transition [OF 2(3)] by (simp add: row_advances_def same_selection_def)
    then have "control_advances db db'"
      by (intro advances_update [where f = "\<lambda>c. c\<lparr>c_status := target, c_updated_at := now\<rparr>", OF assms 2(1)])
        (simp_all add: 2(5))
    with Pair show ?thesis by simp
  qed
qed

lemma publish_advances:
  assumes "control_ok db"
  shows "control_advances db (snd (publish_manifest names cid snapshots prov now db))"
proof (cases "publish_manifest names cid snapshots prov now db")
  case (Pair r db')
  then show ?thesis
  proof (cases rule: publish_cases)
    case (1 e)
    then show ?thesis by (simp add: Pair control_advances_refl)
  next
    case (2 snaps row c)
    have "row_advances c (c\<lparr>c_status := Published, c_updated_at := now\<rparr>)"
      using 2(5) by (simp add: row_advances_def same_selection_def forward_def)
    then have "control_advances db db'"
      by (intro advances_update [where f = "\<lambda>c. c\<lparr>c_status := Published, c_updated_at := now\<rparr>", OF assms 2(3)])
        (simp_all add: 2(8) published_db_def)
    with Pair show ?thesis by simp
  qed
qed

lemma freeze_advances:
  assumes "control_ok db"
  shows "control_advances db (snd (freeze_selection cid submitted_by payload_type free seen now db))"
proof (cases "freeze_selection cid submitted_by payload_type free seen now db")
  case (Pair r db')
  then show ?thesis
  proof (cases rule: freeze_cases)
    case (1 e)
    then show ?thesis by (simp add: Pair control_advances_refl)
  next
    case (2 wanted chosen c c')
    have "advances_row x db db'" if x: "x \<in> set (cycles db)" for x
    proof (cases "c_id x = cid")
      case True
      then have "x = c" using unique_cycle [OF assms x 2(3)] by simp
      moreover have "row_advances c (freeze_row chosen now c)"
        using 2(4,5) by (simp add: row_advances_def forward_def freeze_row_def)
      ultimately show ?thesis
        using x True 2(4,5) by (auto simp: advances_row_def 2(7) frozen_db_def)
    next
      case False
      then show ?thesis
        unfolding advances_row_def using x
        by (intro bexI [of _ x]) (auto simp: 2(7) frozen_db_def picks_of_def fresh_selections_def filter_empty_conv)
    qed
    then show ?thesis by (simp add: Pair control_advances_iff)
  qed
qed

lemma create_advances: "control_advances db (snd (create_cycle dt now db))"
proof (cases "create_cycle dt now db")
  case (Pair r db')
  then have "db' = db \<or> (\<exists>c. db' = db\<lparr>cycles := cycles db @ [c]\<rparr>)"
    by (auto simp: create_cycle_def Let_def dest!: returned_cases split: if_splits)
  with Pair show ?thesis
    by (auto simp: control_advances_refl control_advances_iff intro: advances_row_same)
qed

lemma queue_advances: "control_advances db (db\<lparr>queue_of := q'\<rparr>)"
  by (simp add: control_advances_iff advances_row_same [where cs = "[]"])

interpretation control: invariant_system control_step control_ok control_advances
proof
  fix a b c :: control_db
  show "control_advances a a" by (rule control_advances_refl)
  show "control_advances a c" if "control_advances a b" "control_advances b c"
    using that by (rule control_advances_trans)
  assume ok: "control_ok a" and step: "control_step a b"
  show "control_ok b" using ok step by (rule control_ok_step)
  show "control_advances a b"
    using step by cases (simp_all add: queue_advances create_advances transition_advances [OF ok]
      freeze_advances [OF ok] publish_advances [OF ok] freeze_cycle_candidates_eq)
qed

section \<open>What the control tables promise\<close>

lemma control_history_ok: "runs control_step empty_control db \<Longrightarrow> control_ok db"
  by (erule control.inv_runs) (rule empty_control_ok)

text \<open>
  C17: In every history of submissions, validations, creations, transitions, freezes (concurrent ones
  included) and publications, a candidate is selected for at most one cycle and only when accepted; a
  frozen cycle records the exact number of its candidates, their largest ingest sequence and their latest
  submission; a cycle that is not frozen has no candidate.
\<close>

theorem selections_are_exclusive_and_exact:
  assumes "runs control_step empty_control db"
  shows "distinct (map s_candidate (selections db)) \<and>
    (\<forall>s \<in> set (selections db). \<exists>i \<in> set (candidates (queue_of db)). q_id i = s_candidate s \<and> q_status i = Accepted) \<and>
    (\<forall>c \<in> set (cycles db).
       if c_frozen_at c = None then picks_of (c_id c) db = []
       else c_candidate_count c = card (selected (c_id c) db) \<and>
         c_cutoff_ingest_seq c = top_of q_ingest_seq (selected (c_id c) db) \<and>
         c_cutoff_submitted_at c = top_of q_submitted_at (selected (c_id c) db))"
proof -
  have ok: "selections_ok db" "rows_exact db" using control_history_ok [OF assms] by (simp_all add: control_ok_def)
  have "if c_frozen_at c = None then picks_of (c_id c) db = []
       else c_candidate_count c = card (selected (c_id c) db) \<and>
         c_cutoff_ingest_seq c = top_of q_ingest_seq (selected (c_id c) db) \<and>
         c_cutoff_submitted_at c = top_of q_submitted_at (selected (c_id c) db)"
    if "c \<in> set (cycles db)" for c
  proof -
    from that ok(2) have "unfrozen_row db c \<or> frozen_row db c" by (simp add: rows_exact_def)
    then show ?thesis
      by (elim disjE) (auto simp: unfrozen_row_def frozen_row_def picks_of_def filter_empty_conv)
  qed
  moreover have "\<exists>i \<in> set (candidates (queue_of db)). q_id i = s_candidate s \<and> q_status i = Accepted"
    if "s \<in> set (selections db)" for s
    using ok(1) that unfolding selections_ok_def accepted_id_def by blast
  ultimately show ?thesis using ok(1) unfolding selections_ok_def by blast
qed

definition ex_date :: date where "ex_date = (2026, 5, 4)"
definition ex_id :: string where "ex_id = ''CYCLE_20260504''"

definition ex_accepted :: control_db where
  "ex_accepted = empty_control\<lparr>queue_of := ex_queue\<lparr>candidates := [ex_item\<lparr>q_status := Accepted\<rparr>]\<rparr>\<rparr>"

definition ex_created :: control_db where
  "ex_created = snd (create_cycle ex_date 7 ex_accepted)"

definition ex_frozen :: control_db where
  "ex_frozen = snd (freeze_cycle_candidates ex_id None None (\<lambda>_. True) [] 8 ex_created)"

lemma ex_validated: "snd (validate_pending_candidates envelope_validator (\<lambda>_. True) 1 ex_queue) =
    ex_queue\<lparr>candidates := [ex_item\<lparr>q_status := Accepted\<rparr>]\<rparr>"
  by code_simp

lemma runs_queue: "runs queue_step q q' \<Longrightarrow> q = queue_of db \<Longrightarrow> runs control_step db (db\<lparr>queue_of := q'\<rparr>)"
proof (induction rule: runs.induct)
  case (rest q)
  then show ?case by (simp add: runs.rest)
next
  case (more s t u)
  have "control_step (db\<lparr>queue_of := t\<rparr>) (db\<lparr>queue_of := t, queue_of := u\<rparr>)"
    by (rule control_step.queued) (simp add: more)
  with more show ?case by (auto intro: runs.more)
qed

lemma ex_created_run: "runs control_step empty_control ex_created"
proof -
  have "runs queue_step empty_queue (ex_queue\<lparr>candidates := [ex_item\<lparr>q_status := Accepted\<rparr>]\<rparr>)"
    using runs.more [OF ex_queue_run queue_step.validated, of envelope_validator "\<lambda>_. True" 1]
    by (simp only: ex_validated)
  then have "runs control_step empty_control ex_accepted"
    unfolding ex_accepted_def by (rule runs_queue) (simp add: empty_control_def)
  then show ?thesis unfolding ex_created_def by (rule runs.more) (rule control_step.created)
qed

lemma ex_frozen_run: "runs control_step empty_control ex_frozen"
  unfolding ex_frozen_def by (rule runs.more [OF ex_created_run control_step.frozen])

lemma ex_cycle: "map c_id (cycles ex_frozen) = [ex_id]" "map c_candidate_count (cycles ex_frozen) = [1]"
  "map c_frozen_at (cycles ex_frozen) = [Some 8]"
  by code_simp+

theorem selections_are_exclusive_and_exact_witness: "distinct (map s_candidate (selections ex_frozen))"
  using selections_are_exclusive_and_exact [OF ex_frozen_run] by blast


definition ex_row :: cycle_row where
  "ex_row = \<lparr>c_id = ex_id, c_date = ex_date, c_status = Pending, c_cutoff_submitted_at = None,
     c_cutoff_ingest_seq = None, c_candidate_count = 0, c_frozen_at = None, c_created_at = 7, c_updated_at = 7\<rparr>"

lemma ex_created_cycles: "cycles ex_created = [ex_row]"
  by code_simp


text \<open>
  A freeze that meets no other transaction selects exactly the accepted candidates that pass its
  filter and belong to no cycle yet, in the order of their ingest sequence, and moves the cycle to
  \<open>phase0\<close>.
\<close>

theorem freeze_takes_all_accepted:
  assumes "runs control_step empty_control db" and "find_cycle cid db = Some c"
    and "c_status c = Pending" and "c_frozen_at c = None"
    and "freeze_filter_clause submitted_by payload_type = Inr wanted"
  shows "\<exists>c' db'. freeze_cycle_candidates cid submitted_by payload_type (\<lambda>_. True)
      (map s_candidate (selections db)) now db = (Inr c', db') \<and>
    map s_candidate (picks_of cid db') = map q_id (sort_key q_ingest_seq
      (filter (\<lambda>i. q_status i = Accepted \<and> wanted i \<and> q_id i \<notin> s_candidate ` set (selections db))
        (candidates (queue_of db)))) \<and>
    c_status c' = Phase0 \<and> c_frozen_at c' = Some now \<and>
    c_candidate_count c' = length (picks_of cid db')"
proof -
  let ?chosen = "locked_candidates wanted (\<lambda>_. True) (map s_candidate (selections db)) db"
  let ?db = "frozen_db cid ?chosen now db"
  have ok: "control_ok db" by (rule control_history_ok) fact
  have c: "c \<in> set (cycles db)" "c_id c = cid" using find_cycle_Some [OF assms(2)] by simp_all
  have row: "cycle_date_from_id cid = Inr (c_date c)" "unfrozen_row db c"
    using ok c assms(4) by (auto simp: control_ok_def rows_exact_def frozen_row_def)
  have find: "find_cycle cid ?db = Some (freeze_row ?chosen now c)"
  proof -
    have "distinct (map c_id (cycles ?db))"
      using ok map_update_ids [of "freeze_row ?chosen now" cid "fresh_selections cid ?chosen now db"]
      by (simp add: frozen_db_def control_ok_def del: update_cycle_simps(4))
    moreover have "freeze_row ?chosen now c \<in> set (cycles ?db)" using c by (auto simp: frozen_db_def)
    moreover have "c_id (freeze_row ?chosen now c) = cid" using c(2) by (simp add: freeze_row_def)
    ultimately show ?thesis using find_cycle_eq by metis
  qed
  have "\<not> list_ex (\<lambda>s. s_candidate s \<in> set (map q_id ?chosen)) (selections db)"
    by (auto simp: list_ex_iff locked_candidates_def) (metis imageI)
  then have run: "freeze_cycle_candidates cid submitted_by payload_type (\<lambda>_. True)
      (map s_candidate (selections db)) now db = returned cid db ?db"
    using assms(2-5) row(1)
    by (simp add: freeze_cycle_candidates_eq freeze_selection_def frozen_db_def fresh_selections_def)
  have meta: "metadata_from_row (freeze_row ?chosen now c) = Inr (freeze_row ?chosen now c)"
    using row(1) c(2) by (simp add: metadata_from_row_def freeze_row_def)
  have "picks_of cid db = []"
    using row(2) c(2) by (simp add: unfrozen_row_def picks_of_def filter_empty_conv)
  then have picks: "picks_of cid ?db = map (select_for cid now) ?chosen"
    by (simp add: picks_of_def frozen_db_def fresh_selections_def filter_map comp_def)
  then have "map s_candidate (picks_of cid ?db) = map q_id ?chosen" by simp
  with picks run find meta show ?thesis
    by (simp add: returned_def freeze_row_def locked_candidates_def)
qed

theorem freeze_takes_all_accepted_witness: "map s_candidate (picks_of ex_id ex_frozen) = [1]"
proof -
  have s: "selections ex_created = []" and f: "find_cycle ex_id ex_created = Some ex_row"
    and q: "candidates (queue_of ex_created) = [ex_item\<lparr>q_status := Accepted\<rparr>]" by code_simp+
  have "freeze_filter_clause None None = Inr (\<lambda>_. True)" by (simp add: freeze_filter_clause_def)
  from freeze_takes_all_accepted [OF ex_created_run f _ _ this, of 8] show ?thesis
    by (auto simp: s q ex_row_def ex_frozen_def ex_item_def)
qed

text \<open>
  A cycle that \<open>transition_cycle_status\<close> has moved out of the pending state before its selection was
  frozen is never frozen afterwards: it keeps no candidate and no cutoff, also when it is published.
\<close>

theorem skipped_freeze_is_final:
  assumes "runs control_step empty_control db" and "c \<in> set (cycles db)"
    and "c_status c \<noteq> Pending" and "c_frozen_at c = None" and "runs control_step db db'"
  shows "\<exists>c' \<in> set (cycles db'). c_id c' = c_id c \<and> c_frozen_at c' = None \<and> c_candidate_count c' = 0 \<and>
    c_cutoff_ingest_seq c' = None \<and> picks_of (c_id c) db' = []"
proof -
  have ok: "control_ok db" by (rule control_history_ok) fact
  then have "unfrozen_row db c" using assms(2,4) by (auto simp: control_ok_def rows_exact_def frozen_row_def)
  then have "picks_of (c_id c) db = []" "c_candidate_count c = 0" "c_cutoff_ingest_seq c = None"
    by (simp_all add: unfrozen_row_def picks_of_def filter_empty_conv)
  moreover from control.ord_runs [OF assms(5) ok] assms(2) obtain c' where "c' \<in> set (cycles db')" "row_advances c c'"
    "c_status c \<noteq> Pending \<or> c_frozen_at c \<noteq> None \<longrightarrow> picks_of (c_id c) db' = picks_of (c_id c) db"
    unfolding control_advances_def by blast
  ultimately show ?thesis
    using assms(3,4) by (intro bexI [of _ c']) (auto simp: row_advances_def same_selection_def)
qed

text \<open>A cycle that goes through all its phases and is published without a freeze.\<close>

definition ex_phase0 :: control_db where
  "ex_phase0 = snd (transition_cycle_status ex_id ''phase0'' 8 ex_created)"

definition ex_snapshots :: pyval where
  "ex_snapshots = PDict [(''formal.world_state_snapshot'', PInt 1), (''formal.official_alpha_pool'', PInt 2),
     (''formal.alpha_result_snapshot'', PInt 3), (''formal.recommendation_snapshot'', PInt 4)]"

definition ex_provenance :: pyval where
  "ex_provenance = PDict [(''cycle_id'', PStr ex_id), (''current_cycle_id'', PStr ex_id),
     (''source_layer'', PStr ''L8''), (''source_kind'', PStr ''current-cycle''),
     (''recommendation_snapshot_id'', PInt 4), (''audit_record_ids'', PList [PStr ''a'']),
     (''replay_record_ids'', PList [PStr ''r''])]"

definition ex_phase3 :: control_db where
  "ex_phase3 = snd (transition_cycle_status ex_id ''phase3'' 11
     (snd (transition_cycle_status ex_id ''phase2'' 10 (snd (transition_cycle_status ex_id ''phase1'' 9 ex_phase0)))))"

definition ex_published :: control_db where
  "ex_published = snd (publish_manifest [] ex_id ex_snapshots ex_provenance 12 ex_phase3)"

lemma ex_phase0_run: "runs control_step empty_control ex_phase0"
  unfolding ex_phase0_def by (rule runs.more [OF ex_created_run control_step.moved])

lemma ex_published_run: "runs control_step ex_phase0 ex_published"
  unfolding ex_published_def ex_phase3_def
  by (rule runs.more, rule runs.more, rule runs.more, rule runs.more, rule runs.rest,
      rule control_step.moved, rule control_step.moved, rule control_step.moved, rule control_step.published)

lemma ex_published_status: "map c_status (cycles ex_published) = [Published]"
  by code_simp

theorem skipped_freeze_is_final_witness:
  "map c_status (cycles ex_published) = [Published] \<and> picks_of ex_id ex_published = []"
proof -
  have "cycles ex_phase0 = [ex_row\<lparr>c_status := Phase0, c_updated_at := 8\<rparr>]" by code_simp
  with skipped_freeze_is_final [OF ex_phase0_run, of "ex_row\<lparr>c_status := Phase0, c_updated_at := 8\<rparr>" ex_published]
  show ?thesis by (auto simp: ex_row_def ex_published_run ex_published_status)
qed

lemma published_manifest_kept: "control_step db db' \<Longrightarrow> \<exists>ms. manifests db' = manifests db @ ms"
proof (erule control_step.cases)
  fix d names cid snapshots prov now
  assume d: "db = d" "db' = snd (publish_manifest names cid snapshots prov now d)"
  obtain r e where p: "publish_manifest names cid snapshots prov now d = (r, e)" by fastforce
  then have "\<exists>ms. manifests e = manifests d @ ms"
    by (cases rule: publish_cases) (simp_all add: published_db_def)
  with d p show ?thesis by simp
next
  fix d cid status now
  assume d: "db = d" "db' = snd (transition_cycle_status cid status now d)"
  obtain r e where p: "transition_cycle_status cid status now d = (r, e)" by fastforce
  then have "manifests e = manifests d" by (cases rule: transition_cases) simp_all
  with d p show ?thesis by simp
next
  fix d cid submitted_by payload_type free seen now
  assume d: "db = d" "db' = snd (freeze_cycle_candidates cid submitted_by payload_type free seen now d)"
  obtain r e where p: "freeze_selection cid submitted_by payload_type free seen now d = (r, e)" by fastforce
  then have "manifests e = manifests d" by (cases rule: freeze_cases) (simp_all add: frozen_db_def)
  with d p show ?thesis by (simp add: freeze_cycle_candidates_eq)
next
  fix d dt now
  assume d: "db = d" "db' = snd (create_cycle dt now d)"
  obtain r e where p: "create_cycle dt now d = (r, e)" by fastforce
  then have "manifests e = manifests d"
    by (auto simp: create_cycle_def Let_def dest!: returned_cases split: if_splits)
  with d p show ?thesis by simp
qed simp

lemma manifests_kept: "runs control_step db db' \<Longrightarrow> \<exists>ms. manifests db' = manifests db @ ms"
proof (induction rule: runs.induct)
  case (rest s)
  then show ?case by simp
next
  case (more s t u)
  with published_manifest_kept [OF more.hyps(2)] show ?case by auto
qed


text \<open>
  C19: What a publication answers is what \<open>get_publish_manifest\<close> reads afterwards, in every later state of
  the tables; a cycle is published at most once.
\<close>

theorem publication_is_read_back:
  assumes "publish_manifest names cid snapshots prov now db = (Inr row, db1)" and "runs control_step db1 db2"
  shows "get_publish_manifest names cid db2 = Inr row \<and>
    (\<exists>e. publish_manifest names' cid snapshots' prov' now' db2 = (Inl e, db2))"
proof -
  from assms(1) have "\<exists>m. mf_cycle m = cid \<and> find_manifest cid db = None \<and>
      manifest_from_row names m = Inr row \<and> db1 = published_db m now db"
  proof (cases rule: publish_cases)
    case (2 snaps row' c)
    then show ?thesis
      by (intro exI [of _ "\<lparr>mf_cycle = cid, mf_published_at = now, mf_snapshots = snaps\<rparr>"]) simp
  qed simp
  then obtain m where m: "mf_cycle m = cid" "find_manifest cid db = None"
    "manifest_from_row names m = Inr row" "db1 = published_db m now db" by blast
  from manifests_kept [OF assms(2)] obtain ms where "manifests db2 = manifests db @ m # ms"
    by (auto simp: m(4) published_db_def)
  then have find: "find_manifest cid db2 = Some m"
    using m(1,2) by (simp add: find_manifest_def find_append)
  have "returns (cycle_date_from_id cid)"
    using m(1,3) by (auto simp: manifest_from_row_def res_bind_eq_Inr)
  with find m(3) have "get_publish_manifest names cid db2 = Inr row"
    by (auto simp: get_publish_manifest_def returns_iff)
  moreover have "\<exists>e. publish_manifest names' cid snapshots' prov' now' db2 = (Inl e, db2)"
  proof (cases "publish_manifest names' cid snapshots' prov' now' db2")
    case (Pair r d)
    then show ?thesis by (cases rule: publish_cases) (use find Pair in auto)
  qed
  ultimately show ?thesis by blast
qed

theorem publication_is_read_back_witness:
  "returns (get_publish_manifest [] ex_id ex_published)"
proof -
  obtain r d where p: "publish_manifest [] ex_id ex_snapshots ex_provenance 12 ex_phase3 = (r, d)" by fastforce
  have "returns (fst (publish_manifest [] ex_id ex_snapshots ex_provenance 12 ex_phase3))" by code_simp
  then obtain row where "r = Inr row" using p by (auto simp: returns_iff)
  with publication_is_read_back [OF p [unfolded this] runs.rest] p show ?thesis
    by (simp add: ex_published_def)
qed

section \<open>Identifiers\<close>

lemma decimal_digits:
  "10 * (y div 1000) + y div 100 mod 10 = y div 100" "10 * (y div 100) + y div 10 mod 10 = y div 10"
  "10 * (y div 10) + y mod 10 = y" for y :: nat
  using mult_div_mod_eq [of 10 "y div 100"] mult_div_mod_eq [of 10 "y div 10"] div_mult2_eq [of y 100 10]
    div_mult2_eq [of y 10 10] by simp_all

lemma nat_str_4:
  assumes "1000 \<le> y" and "y < 10000"
  shows "nat_str y = map (\<lambda>d. char_of (48 + d)) [y div 1000, y div 100 mod 10, y div 10 mod 10, y mod 10]"
proof -
  have "\<not> y < 10" "\<not> y div 10 < 10" "\<not> y div 100 < 10" "y div 1000 < 10" using assms by linarith+
  moreover have "y div 10 div 10 = y div 100" "y div 100 div 10 = y div 1000"
    by (simp_all add: div_mult2_eq [symmetric])
  ultimately show ?thesis
    using nat_str.simps [of y] nat_str.simps [of "y div 10"] nat_str.simps [of "y div 100"]
      nat_str.simps [of "y div 1000"] by simp
qed

lemma digit_chars: "list_all (\<lambda>d. d < 10) ds \<Longrightarrow> list_all is_digit (map (\<lambda>d. char_of (48 + d)) ds)" for ds :: "nat list"
  by (induction ds) (auto simp: dec_digits)

lemma dec_value_chars: "list_all (\<lambda>d. d < 10) ds \<Longrightarrow>
    dec_value (map (\<lambda>d. char_of (48 + d)) ds) = foldl (\<lambda>n d. 10 * n + d) 0 ds" for ds :: "nat list"
proof -
  have "foldl (\<lambda>n c. 10 * n + (char_code c - 48)) k (map (\<lambda>d. char_of (48 + d)) ds) = foldl (\<lambda>n d. 10 * n + d) k ds"
    if "list_all (\<lambda>d. d < 10) ds" for k
    using that by (induction ds arbitrary: k) (auto simp: dec_digits)
  then show "list_all (\<lambda>d. d < 10) ds \<Longrightarrow> ?thesis" by (simp add: dec_value_def)
qed

lemma digit2_chars: "n < 100 \<Longrightarrow> digit2 n = map (\<lambda>d. char_of (48 + d)) [n div 10, n mod 10]"
  by (simp add: digit2_def)

lemma cycle_id_round_trip:
  assumes "valid_date y m d" and "1000 \<le> y" and "y < 10000"
  shows "cycle_date_from_id (cycle_id_for_date (y, m, d)) = Inr (y, m, d)"
proof -
  let ?c = "map (\<lambda>k. char_of (48 + k) :: char)"
  let ?y = "[y div 1000, y div 100 mod 10, y div 10 mod 10, y mod 10]"
  have small: "m < 100" "d < 100"
    using assms(1) by (auto simp: valid_date_def month_days_def split: if_splits)
  have id: "cycle_id_for_date (y, m, d) = cycle_prefix @ ?c ?y @ ?c [m div 10, m mod 10] @ ?c [d div 10, d mod 10]"
    using assms(2,3) small by (simp only: cycle_id_for_date_def prod.case nat_str_4 digit2_chars)
  have digits: "list_all (\<lambda>k. k < 10) ?y" "list_all (\<lambda>k. k < 10) [m div 10, m mod 10]"
    "list_all (\<lambda>k. k < 10) [d div 10, d mod 10]"
    using assms(3) small by auto
  have "cycle_id_pattern (cycle_id_for_date (y, m, d)) = Some (?c ?y @ ?c [m div 10, m mod 10] @ ?c [d div 10, d mod 10])"
    using digits [THEN digit_chars] unfolding id by (simp add: cycle_id_pattern_def cycle_prefix_def)
  moreover have "dec_value (?c ?y) = y"
    unfolding dec_value_chars [OF digits(1)] by (simp add: decimal_digits)
  moreover have "dec_value (?c [m div 10, m mod 10]) = m"
    unfolding dec_value_chars [OF digits(2)] by simp
  moreover have "dec_value (?c [d div 10, d mod 10]) = d"
    unfolding dec_value_chars [OF digits(3)] by simp
  ultimately show ?thesis using assms(1) by (simp add: cycle_date_from_id_def Let_def)
qed

lemma create_succeeds:
  assumes "valid_date y m d" and "1000 \<le> y" and "y < 10000"
    and "\<not> list_ex (\<lambda>c. c_id c = cycle_id_for_date (y, m, d) \<or> c_date c = (y, m, d)) (cycles db)"
  shows "\<exists>c. fst (create_cycle (y, m, d) now db) = Inr c \<and> c_status c = Pending \<and> c_date c = (y, m, d)"
proof -
  note rt = cycle_id_round_trip [OF assms(1-3)]
  then have "cycle_id_pattern (cycle_id_for_date (y, m, d)) \<noteq> None"
    by (auto simp: cycle_date_from_id_def split: option.splits)
  moreover have "\<forall>c \<in> set (cycles db). c_id c \<noteq> cycle_id_for_date (y, m, d)"
    using assms(4) by (auto simp: list_ex_iff)
  ultimately show ?thesis
    using assms(4) rt
    by (simp add: create_cycle_def Let_def returned_def find_cycle_def find_append metadata_from_row_def
        find_None_iff [THEN iffD2])
qed

end
