(* ===== verification/Fallback.thy ===== *)
theory Fallback
  imports Prelude
begin

text \<open>
  Provider fallback of \<open>reasoner-runtime\<close>: \<open>providers/fallback.py\<close> (the chain of targets and the
  retry loop), \<open>providers/routing.py\<close> (failure classes), \<open>providers/models.py\<close> (the classification of
  an error and the validator of \<open>FallbackDecision\<close>), \<open>health/aggregator.py\<close> and the loop of
  \<open>health/checker.py\<close>.

  An exception is the list of the class names of its \<open>mro\<close>, its message and the HTTP status it
  carries; \<open>isinstance\<close> is membership in the list. The provider call is an argument: it is asked at
  most once for every profile and retry index, so it is a function of the two. In the search for the
  message patterns a byte outside ASCII counts as a letter.
\<close>

section \<open>Failures and their classes\<close>

record failure =
  f_mro :: "string list"
  f_message :: string
  f_status :: "int option"

datatype failure_class = No_Failure | Success_With_Fallback | Task_Level | Infra_Level

fun class_value :: "failure_class \<Rightarrow> string" where
  "class_value No_Failure = ''none''"
| "class_value Success_With_Fallback = ''success_with_fallback''"
| "class_value Task_Level = ''task_level''"
| "class_value Infra_Level = ''infra_level''"

definition isinstance :: "failure \<Rightarrow> string \<Rightarrow> bool" where
  "isinstance e cls \<longleftrightarrow> cls \<in> set (f_mro e)"

definition litellm_infra_error_names :: "string list" where
  "litellm_infra_error_names = [''APIConnectionError'', ''APITimeoutError'', ''AuthenticationError'',
     ''BudgetExceededError'', ''InternalServerError'', ''RateLimitError'', ''ServiceUnavailableError'', ''Timeout'']"

definition is_litellm_infra_error :: "failure \<Rightarrow> bool" where
  "is_litellm_infra_error e \<longleftrightarrow> list_ex (\<lambda>n. n \<in> set litellm_infra_error_names) (f_mro e)"

definition classify_failure :: "failure \<Rightarrow> pydict \<Rightarrow> failure_class" where
  "classify_failure e ctx =
     (let source = py_or (dget ctx ''failure_source'') (dget ctx ''phase'') in
      if isinstance e ''NoAvailableProviderError'' \<or> isinstance e ''ProviderConfigError'' then Infra_Level
      else if is_litellm_infra_error e then Infra_Level
      else if isinstance e ''ConnectionError'' \<or> isinstance e ''TimeoutError'' then Infra_Level
      else if isinstance e ''ParseValidationError''
        \<or> (source = PStr ''parse'' \<and> (isinstance e ''ValueError'' \<or> isinstance e ''ValidationError''))
      then Task_Level
      else if isinstance e ''ValidationError'' then Infra_Level
      else Infra_Level)"

section \<open>The quota status of an error\<close>

text \<open>
  A pattern is a list of words: \<open>\<lparr>''api'', ''key''\<rparr>\<close> stands for the expression that asks for the first
  word at a word boundary, blanks, and the next word, up to a word boundary, whatever the case.
\<close>

definition word_char :: "char \<Rightarrow> bool" where
  "word_char c \<longleftrightarrow> is_digit c \<or> c = CHR ''_'' \<or> (97 \<le> char_code (lower_char c) \<and> char_code (lower_char c) \<le> 122)
     \<or> 128 \<le> char_code c"

definition ends_word :: "string \<Rightarrow> bool" where
  "ends_word rest \<longleftrightarrow> (case rest of [] \<Rightarrow> True | c # _ \<Rightarrow> \<not> word_char c)"

fun words_at :: "string list \<Rightarrow> string \<Rightarrow> bool" where
  "words_at [] s = ends_word s"
| "words_at [w] s = (prefix w s \<and> ends_word (drop (length w) s))"
| "words_at (w # v # ws) s =
     (prefix w s \<and>
      (let rest = drop (length w) s in
       rest \<noteq> [] \<and> is_blank (hd rest) \<and> words_at (v # ws) (dropWhile is_blank rest)))"

fun words_in :: "bool \<Rightarrow> string list \<Rightarrow> string \<Rightarrow> bool" where
  "words_in boundary ws [] = (boundary \<and> words_at ws [])"
| "words_in boundary ws (c # cs) = (boundary \<and> words_at ws (c # cs) \<or> words_in (\<not> word_char c) ws cs)"

definition search :: "string list \<Rightarrow> string \<Rightarrow> bool" where
  "search ws text = words_in True ws (py_lower text)"

definition exhausted_message_patterns :: "string list list" where
  "exhausted_message_patterns = [[''auth''], [''authentication''], [''authorization''], [''billing''],
     [''unauthorized''], [''forbidden''], [''invalid'', ''api'', ''key''], [''api'', ''key''],
     [''budget'', ''exceeded''], [''quota'', ''exceeded''], [''quota'', ''exhausted''],
     [''insufficient_quota''], [''credits'', ''exhausted'']]"

definition limited_message_patterns :: "string list list" where
  "limited_message_patterns = [[''rate'', ''limit''], [''rate_limit''], [''too'', ''many'', ''requests''], [''limited'']]"

definition exhausted_error_names :: "string list" where
  "exhausted_error_names = [''AuthenticationError'', ''AuthorizationError'', ''BudgetExceededError'',
     ''ForbiddenError'', ''InvalidAPIKeyError'', ''PermissionDeniedError'', ''QuotaExceededError'']"

definition limited_error_names :: "string list" where
  "limited_error_names = [''RateLimitError'']"

definition provider_quota_status_from_error :: "failure option \<Rightarrow> string" where
  "provider_quota_status_from_error err =
     (case err of
        None \<Rightarrow> ''ok''
      | Some e \<Rightarrow>
          if f_status e \<in> {Some 401, Some 402, Some 403} then ''exhausted''
          else if f_status e = Some 429 then ''limited''
          else if list_ex (isinstance e) exhausted_error_names then ''exhausted''
          else if list_ex (isinstance e) limited_error_names then ''limited''
          else if list_ex (\<lambda>p. search p (f_message e)) exhausted_message_patterns then ''exhausted''
          else if list_ex (\<lambda>p. search p (f_message e)) limited_message_patterns then ''limited''
          else ''ok'')"

section \<open>The classification of an error\<close>

datatype category = Input_Contract | Model_Provider | Timed_Out | Internal

record classification =
  cl_category :: category
  cl_retryable :: bool
  cl_message :: string
  cl_details :: pydict

definition is_timeout_failure :: "failure option \<Rightarrow> pydict \<Rightarrow> bool" where
  "is_timeout_failure err ctx \<longleftrightarrow>
     (case err of None \<Rightarrow> False
      | Some e \<Rightarrow> isinstance e ''TimeoutError'' \<or> list_ex (\<lambda>n. py_in_str ''timeout'' (py_lower n)) (f_mro e))
     \<or> list_ex (\<lambda>(k, v). k \<in> {''error'', ''error_type'', ''phase'', ''failure_source''}
         \<and> (py_in_str ''timeout'' (py_lower (py_str v)) \<or> py_in_str ''timed out'' (py_lower (py_str v)))) ctx"

definition has_provider_context :: "pydict \<Rightarrow> bool" where
  "has_provider_context ctx \<longleftrightarrow>
     list_ex (\<lambda>k. truthy (dget ctx k)) [''provider'', ''model'', ''target'', ''final_target'']
     \<or> truthy (dget ctx ''attempts'')
     \<or> dget ctx ''failure_source'' = PStr ''provider'' \<or> dget ctx ''phase'' = PStr ''provider''"

definition classification_category :: "failure_class \<Rightarrow> failure option \<Rightarrow> pydict \<Rightarrow> category" where
  "classification_category fc err ctx =
     (if fc = Task_Level then Input_Contract
      else if is_timeout_failure err ctx then Timed_Out
      else if has_provider_context ctx then Model_Provider
      else Internal)"

definition is_non_retryable_provider_failure :: "failure option \<Rightarrow> pydict \<Rightarrow> bool" where
  "is_non_retryable_provider_failure err ctx \<longleftrightarrow>
     py_lower (if dhas ctx ''quota_status'' then py_str (dget ctx ''quota_status'') else []) = ''exhausted''
     \<or> provider_quota_status_from_error err = ''exhausted''
     \<or> (dget ctx ''error'' \<noteq> PNone
        \<and> list_ex (\<lambda>p. search p (py_str (dget ctx ''error''))) exhausted_message_patterns)"

definition classification_retryable :: "category \<Rightarrow> failure_class \<Rightarrow> failure option \<Rightarrow> pydict \<Rightarrow> bool" where
  "classification_retryable cat fc err ctx =
     (if fc = Task_Level then False
      else if cat = Timed_Out then True
      else if cat = Model_Provider then \<not> is_non_retryable_provider_failure err ctx
      else False)"

definition classification_message :: "category \<Rightarrow> failure_class \<Rightarrow> string option \<Rightarrow> string" where
  "classification_message cat fc message =
     (if (case message of None \<Rightarrow> False | Some m \<Rightarrow> py_strip m \<noteq> []) then py_strip (the message)
      else if fc = Task_Level then ''structured output validation failed''
      else if cat = Timed_Out then ''reasoner provider request timed out''
      else if cat = Model_Provider then ''reasoner model provider failed''
      else ''reasoner runtime infrastructure failed'')"

definition safe_detail_keys :: "string list" where
  "safe_detail_keys = [''attempts'', ''caller_module'', ''configured_target'', ''failure_source'',
     ''fallback_path'', ''final_target'', ''model'', ''phase'', ''provider'', ''quota_status'', ''reachable'',
     ''request_id'', ''retry_count'', ''target'', ''target_schema'']"

fun json_safe_detail_value :: "pyval \<Rightarrow> pyval" where
  "json_safe_detail_value (PList vs) = PList (filter (\<lambda>v. v \<noteq> PNone) (map json_safe_detail_value vs))"
| "json_safe_detail_value (PDict d) = PStr (py_str (PDict d))"
| "json_safe_detail_value v = v"

definition classification_details :: "failure_class \<Rightarrow> failure option \<Rightarrow> pydict \<Rightarrow> pydict" where
  "classification_details fc err ctx =
     (''failure_class'', PStr (class_value fc)) #
     (case err of None \<Rightarrow> [] | Some e \<Rightarrow> [(''exception_type'', PStr (case f_mro e of [] \<Rightarrow> [] | n # _ \<Rightarrow> n))]) @
     filter (\<lambda>(k, v). v \<noteq> PNone) (map (\<lambda>k. (k, json_safe_detail_value (dget ctx k))) safe_detail_keys)"

definition to_reasoner_error_classification ::
  "failure_class \<Rightarrow> failure option \<Rightarrow> pydict \<Rightarrow> string option \<Rightarrow> classification option" where
  "to_reasoner_error_classification fc err ctx message =
     (if fc = No_Failure \<or> fc = Success_With_Fallback then None
      else
        (let cat = classification_category fc err ctx in
         Some \<lparr>cl_category = cat, cl_retryable = classification_retryable cat fc err ctx,
           cl_message = classification_message cat fc message,
           cl_details = classification_details fc err ctx\<rparr>))"

section \<open>The decision record\<close>

record decision =
  d_configured_target :: string
  d_attempts :: "string list"
  d_final_target :: "string option"
  d_failure_class :: failure_class
  d_terminal_reason :: "string option"
  d_classification :: "classification option"

definition optional_text :: "string option \<Rightarrow> pyval" where
  "optional_text s = (case s of None \<Rightarrow> PNone | Some x \<Rightarrow> PStr x)"

definition classification_conflicts :: "classification \<Rightarrow> classification \<Rightarrow> bool" where
  "classification_conflicts supplied expected \<longleftrightarrow>
     cl_category supplied \<noteq> cl_category expected
     \<or> (\<not> cl_retryable expected \<and> cl_retryable supplied)"

text \<open>The constructor with its validator; a conflict is pydantic's \<open>ValidationError\<close>, a \<open>ValueError\<close>.\<close>

definition new_decision ::
  "string \<Rightarrow> string list \<Rightarrow> string option \<Rightarrow> failure_class \<Rightarrow> string option \<Rightarrow> classification option \<Rightarrow>
   decision res" where
  "new_decision configured attempts final fc reason supplied =
     (let expected = to_reasoner_error_classification fc None
            [(''configured_target'', PStr configured), (''attempts'', PList (map PStr attempts)),
             (''final_target'', optional_text final)] None;
          make = (\<lambda>cl. \<lparr>d_configured_target = configured, d_attempts = attempts, d_final_target = final,
            d_failure_class = fc, d_terminal_reason = reason, d_classification = cl\<rparr>)
      in case expected of
           None \<Rightarrow> (case supplied of None \<Rightarrow> Inr (make None) | Some _ \<Rightarrow> Inl ValueError)
         | Some ex \<Rightarrow>
             (case supplied of
                None \<Rightarrow> Inr (make (Some ex))
              | Some cl \<Rightarrow> if classification_conflicts cl ex then Inl ValueError else Inr (make (Some cl))))"

section \<open>The chain of targets\<close>

record profile =
  p_provider :: string
  p_model :: string
  p_timeout_ms :: int
  p_priority :: nat

record reasoner_request =
  r_provider :: string
  r_model :: string
  r_max_retries :: nat

definition format_target :: "string \<Rightarrow> string \<Rightarrow> string" where
  "format_target provider model =
     (if py_startswith model (provider @ ''/'') then model else provider @ ''/'' @ model)"

definition format_provider_target :: "profile \<Rightarrow> string" where
  "format_provider_target p = format_target (p_provider p) (p_model p)"

definition format_request_target :: "reasoner_request \<Rightarrow> string" where
  "format_request_target r = format_target (r_provider r) (r_model r)"

definition no_provider :: failure where
  "no_provider = \<lparr>f_mro = [''NoAvailableProviderError'', ''ProviderRoutingError'', ''RuntimeError'', ''Exception'',
     ''BaseException'', ''object''], f_message = ''at least one provider profile is required'', f_status = None\<rparr>"

definition select_provider :: "string \<Rightarrow> string \<Rightarrow> profile list \<Rightarrow> failure + profile" where
  "select_provider provider model profiles =
     (if profiles = [] then Inl no_provider
      else
        (let ordered = sort_key p_priority profiles in
         case List.find (\<lambda>p. p_provider p = provider \<and> p_model p = model) ordered of
           Some p \<Rightarrow> Inr p
         | None \<Rightarrow> Inr (hd ordered)))"

fun add_targets :: "profile list \<Rightarrow> profile list \<times> string list \<Rightarrow> profile list \<times> string list" where
  "add_targets [] acc = acc"
| "add_targets (p # ps) (chosen, targets) =
     (if format_provider_target p \<in> set targets then add_targets ps (chosen, targets)
      else add_targets ps (chosen @ [p], format_provider_target p # targets))"

definition ordered_fallback_chain :: "reasoner_request \<Rightarrow> profile list \<Rightarrow> failure + profile list" where
  "ordered_fallback_chain request profiles =
     (if profiles = [] then Inl no_provider
      else
        (let configured = format_request_target request;
             ordered = sort_key p_priority profiles;
             start = (case List.find (\<lambda>p. format_provider_target p = configured) ordered of
                        None \<Rightarrow> ([], [])
                      | Some p \<Rightarrow> ([p], [format_provider_target p]))
         in Inr (fst (add_targets ordered start))))"

section \<open>The retry loop\<close>

record 'r generation =
  g_result :: 'r
  g_provider :: string
  g_model :: string
  g_configured_target :: string
  g_failure_class :: failure_class
  g_fallback_path :: "string list"
  g_retry_count :: nat

text \<open>
  How \<open>execute_with_fallback\<close> ends: with a result, with a \<open>FallbackExecutionError\<close> that carries the
  decision and its cause, or with the error that building the decision raised.
\<close>

datatype 'r outcome =
    Returned "'r generation" decision
  | Failed_With decision "failure option"
  | Broke_With py_error

definition raise_decision :: "decision res \<Rightarrow> failure option \<Rightarrow> 'r outcome" where
  "raise_decision d cause = (case d of Inl e \<Rightarrow> Broke_With e | Inr dec \<Rightarrow> Failed_With dec cause)"

text \<open>One profile: it answers, it fails as the task, or the infrastructure fails and the chain goes on.\<close>

datatype 'r step_result =
    Answered 'r nat
  | Parse_Failed failure
  | Task_Failed failure
  | Infra_Failed failure

definition provider_context :: "profile \<Rightarrow> pydict" where
  "provider_context p = [(''failure_source'', PStr ''provider''), (''provider'', PStr (p_provider p)),
     (''model'', PStr (p_model p)), (''target'', PStr (format_provider_target p))]"

fun try_profile ::
  "(profile \<Rightarrow> nat \<Rightarrow> failure + 'r) \<Rightarrow> profile \<Rightarrow> nat \<Rightarrow> nat \<Rightarrow> 'r step_result" where
  "try_profile call p index left =
     (case call p index of
        Inr r \<Rightarrow> Answered r index
      | Inl e \<Rightarrow>
          if isinstance e ''ParseValidationError''
          then (case left of 0 \<Rightarrow> Parse_Failed e | Suc n \<Rightarrow> try_profile call p (index + 1) n)
          else if classify_failure e (provider_context p) = Task_Level then Task_Failed e
          else Infra_Failed e)"

declare try_profile.simps [simp del]

definition failed_context :: "string \<Rightarrow> string list \<Rightarrow> profile \<Rightarrow> string \<Rightarrow> string \<Rightarrow> pydict" where
  "failed_context configured attempts p key v =
     [(''configured_target'', PStr configured), (''attempts'', PList (map PStr attempts)),
      (''final_target'', PStr (format_provider_target p)), (''provider'', PStr (p_provider p)),
      (''model'', PStr (p_model p)), (''target'', PStr (format_provider_target p)), (key, PStr v)]"

definition task_decision :: "string \<Rightarrow> string list \<Rightarrow> profile \<Rightarrow> string \<Rightarrow> string \<Rightarrow> failure \<Rightarrow> decision res" where
  "task_decision configured attempts p key v e =
     new_decision configured attempts (Some (format_provider_target p)) Task_Level (Some (f_message e))
       (to_reasoner_error_classification Task_Level (Some e) (failed_context configured attempts p key v) None)"

definition exhausted_decision :: "string \<Rightarrow> string list \<Rightarrow> failure option \<Rightarrow> decision res" where
  "exhausted_decision configured attempts last_error =
     new_decision configured attempts None Infra_Level
       (Some (case last_error of Some e \<Rightarrow> f_message e | None \<Rightarrow> ''fallback chain exhausted''))
       (to_reasoner_error_classification Infra_Level last_error
          [(''configured_target'', PStr configured), (''attempts'', PList (map PStr attempts)),
           (''failure_source'', PStr (if attempts \<noteq> [] then ''provider'' else ''routing''))] None)"

fun run_chain ::
  "(profile \<Rightarrow> nat \<Rightarrow> failure + 'r) \<Rightarrow> nat \<Rightarrow> string \<Rightarrow> profile list \<Rightarrow> string list \<Rightarrow> failure option \<Rightarrow>
   bool \<Rightarrow> 'r outcome" where
  "run_chain call retries configured [] attempts last_error had_infra =
     raise_decision (exhausted_decision configured attempts last_error) last_error"
| "run_chain call retries configured (p # ps) attempts last_error had_infra =
     (let attempts = attempts @ [format_provider_target p] in
      case try_profile call p 0 retries of
        Answered r index \<Rightarrow>
          (let fc = (if had_infra then Success_With_Fallback else No_Failure) in
           case new_decision configured attempts (Some (format_provider_target p)) fc None None of
             Inl e \<Rightarrow> Broke_With e
           | Inr d \<Rightarrow>
               Returned \<lparr>g_result = r, g_provider = p_provider p, g_model = p_model p,
                 g_configured_target = configured, g_failure_class = fc, g_fallback_path = attempts,
                 g_retry_count = index\<rparr> d)
      | Parse_Failed e \<Rightarrow> raise_decision (task_decision configured attempts p ''phase'' ''parse'' e) (Some e)
      | Task_Failed e \<Rightarrow> raise_decision (task_decision configured attempts p ''failure_source'' ''provider'' e) (Some e)
      | Infra_Failed e \<Rightarrow> run_chain call retries configured ps attempts (Some e) True)"

definition execute_with_fallback ::
  "reasoner_request \<Rightarrow> profile list \<Rightarrow> (profile \<Rightarrow> nat \<Rightarrow> failure + 'r) \<Rightarrow> 'r outcome" where
  "execute_with_fallback request profiles call =
     (case ordered_fallback_chain request profiles of
        Inl e \<Rightarrow>
          raise_decision
            (new_decision (format_request_target request) [] None Infra_Level (Some (f_message e))
               (to_reasoner_error_classification Infra_Level (Some e)
                  [(''configured_target'', PStr (format_request_target request))] None)) (Some e)
      | Inr chain \<Rightarrow>
          run_chain call (r_max_retries request) (format_request_target request) chain [] None False)"

section \<open>Health reports\<close>

record health_status =
  h_provider :: string
  h_model :: string
  h_reachable :: bool
  h_latency_ms :: nat
  h_quota :: string
  h_error :: "string option"

record health_report =
  hr_statuses :: "health_status list"
  hr_all_available :: bool
  hr_summary :: string

definition status_summary :: "health_status \<Rightarrow> string" where
  "status_summary s =
     (let reason = (if \<not> h_reachable s then ''unreachable'' else ''quota='' @ h_quota s) in
      h_provider s @ ''/'' @ h_model s @ '' ('' @ reason @ '')'')"

definition aggregate_health_statuses :: "health_status list \<Rightarrow> health_report" where
  "aggregate_health_statuses statuses =
     (if statuses = []
      then \<lparr>hr_statuses = [], hr_all_available = False, hr_summary = ''no provider/model targets were checked''\<rparr>
      else
        (let unavailable = filter (\<lambda>s. \<not> h_reachable s \<or> h_quota s \<noteq> ''ok'') statuses;
             available = (unavailable = []);
             total_n = nat_str (length statuses);
             summary =
               (if available then ''all '' @ total_n @ '' critical provider/model target(s) available''
                else nat_str (length statuses - length unavailable) @ ''/'' @ total_n @
                  '' critical provider/model target(s) available; unavailable: '' @
                  join_with '', '' (map status_summary unavailable))
         in \<lparr>hr_statuses = statuses, hr_all_available = available, hr_summary = summary\<rparr>))"

definition error_summary_limit :: nat where
  "error_summary_limit = 240"

definition rstrip :: "string \<Rightarrow> string" where
  "rstrip s = rev (dropWhile is_blank (rev s))"

definition one_line :: "string \<Rightarrow> string" where
  "one_line s = map (\<lambda>c. if c = char_of (10 :: nat) \<or> c = char_of (13 :: nat) then CHR '' '' else c) s"

definition safe_error_summary :: "(string \<Rightarrow> string) \<Rightarrow> failure \<Rightarrow> string" where
  "safe_error_summary scrub_text e =
     (let raw = (case f_mro e of [] \<Rightarrow> [] | n # _ \<Rightarrow> n) @ '': '' @ f_message e;
          scrubbed = one_line (scrub_text raw)
      in if length scrubbed \<le> error_summary_limit then scrubbed
         else rstrip (take (error_summary_limit - 3) scrubbed) @ ''...'')"

definition checked_status ::
  "(string \<Rightarrow> string) \<Rightarrow> (profile \<Rightarrow> failure + health_status) \<Rightarrow> (profile \<Rightarrow> nat) \<Rightarrow> profile \<Rightarrow> health_status" where
  "checked_status scrub_text probe latency p =
     (case probe p of
        Inl e \<Rightarrow> \<lparr>h_provider = p_provider p, h_model = p_model p, h_reachable = False,
          h_latency_ms = latency p, h_quota = provider_quota_status_from_error (Some e),
          h_error = Some (safe_error_summary scrub_text e)\<rparr>
      | Inr s \<Rightarrow> s\<lparr>h_provider := p_provider p, h_model := p_model p\<rparr>)"

definition health_check ::
  "(string \<Rightarrow> string) \<Rightarrow> (profile \<Rightarrow> failure + health_status) \<Rightarrow> (profile \<Rightarrow> nat) \<Rightarrow> profile list \<Rightarrow> health_report" where
  "health_check scrub_text probe latency profiles =
     aggregate_health_statuses (map (checked_status scrub_text probe latency) profiles)"

section \<open>The chain\<close>

abbreviation target :: "profile \<Rightarrow> string" where
  "target \<equiv> format_provider_target"

fun first_of_each :: "profile list \<Rightarrow> string set \<Rightarrow> profile list" where
  "first_of_each [] S = []"
| "first_of_each (p # ps) S =
     (if target p \<in> S then first_of_each ps S else p # first_of_each ps (insert (target p) S))"

lemma add_targets_eq: "fst (add_targets ps (chosen, ts)) = chosen @ first_of_each ps (set ts)"
  by (induction ps arbitrary: chosen ts) auto

lemma first_of_each_targets: "target ` set (first_of_each ps S) = target ` set ps - S"
  by (induction ps S rule: first_of_each.induct) auto

lemma first_of_each_distinct: "distinct (map target (first_of_each ps S))"
proof (induction ps S rule: first_of_each.induct)
  case (2 p ps S)
  have "target p \<notin> target ` set (first_of_each ps (insert (target p) S))"
    by (simp only: first_of_each_targets) simp
  with 2 show ?case by simp
qed simp

lemma first_of_each_subset: "set (first_of_each ps S) \<subseteq> set ps"
  by (induction ps S rule: first_of_each.induct) auto

lemma first_of_each_sorted: "sorted (map p_priority ps) \<Longrightarrow> sorted (map p_priority (first_of_each ps S))"
proof (induction ps S rule: first_of_each.induct)
  case (2 p ps S)
  then show ?case using first_of_each_subset [of ps "insert (target p) S"] by auto
qed simp

lemma first_of_each_least: "sorted (map p_priority ps) \<Longrightarrow> p \<in> set (first_of_each ps S) \<Longrightarrow> q \<in> set ps \<Longrightarrow>
    target q = target p \<Longrightarrow> p_priority p \<le> p_priority q"
proof (induction ps S rule: first_of_each.induct)
  case (2 x ps S)
  have away: "target p \<notin> insert (target x) S" if "p \<in> set (first_of_each ps (insert (target x) S))"
    using that first_of_each_targets [of ps "insert (target x) S"] by blast
  have away': "target p \<notin> S" if "p \<in> set (first_of_each ps S)"
    using that first_of_each_targets [of ps S] by blast
  show ?case
  proof (cases "target x \<in> S")
    case True
    with 2 away' show ?thesis by auto
  next
    case False
    with 2 away show ?thesis by auto
  qed
qed simp

definition configured_first :: "reasoner_request \<Rightarrow> profile list \<Rightarrow> bool" where
  "configured_first r profiles \<longleftrightarrow> format_request_target r \<in> target ` set profiles"

lemma find_least:
  assumes "sorted (map p_priority ps)" and "List.find P ps = Some p" and "q \<in> set ps" and "P q"
  shows "p_priority p \<le> p_priority q"
  using assms by (induction ps) (auto split: if_splits)

lemma chain_cases:
  assumes "ordered_fallback_chain r profiles = Inr chain"
  shows "if configured_first r profiles
    then \<exists>p. List.find (\<lambda>p. target p = format_request_target r) (sort_key p_priority profiles) = Some p \<and>
      chain = p # first_of_each (sort_key p_priority profiles) {target p}
    else chain = first_of_each (sort_key p_priority profiles) {}"
proof (cases "List.find (\<lambda>p. target p = format_request_target r) (sort_key p_priority profiles)")
  case None
  then have "\<not> configured_first r profiles" by (auto simp: find_None_iff configured_first_def)
  with None assms show ?thesis
    by (auto simp: ordered_fallback_chain_def Let_def add_targets_eq split: if_splits)
next
  case (Some p)
  from find_SomeD [OF Some] have "target p = format_request_target r" "p \<in> set profiles" by simp_all
  then have "configured_first r profiles" unfolding configured_first_def by (metis imageI)
  with Some assms show ?thesis
    by (auto simp: ordered_fallback_chain_def Let_def add_targets_eq split: if_splits)
qed

section \<open>One profile\<close>

definition parse_fails :: "(profile \<Rightarrow> nat \<Rightarrow> failure + 'r) \<Rightarrow> profile \<Rightarrow> nat \<Rightarrow> bool" where
  "parse_fails call p i \<longleftrightarrow> (\<exists>e. call p i = Inl e \<and> isinstance e ''ParseValidationError'')"

lemma never_task_level:
  "\<not> isinstance e ''ParseValidationError'' \<Longrightarrow> classify_failure e (provider_context p) = Infra_Level"
  by (simp add: classify_failure_def provider_context_def dget_def py_or_def Let_def)

text \<open>What the retries of one profile, from index \<open>i\<close> with \<open>n\<close> left, may end with.\<close>

fun tried :: "(profile \<Rightarrow> nat \<Rightarrow> failure + 'r) \<Rightarrow> profile \<Rightarrow> nat \<Rightarrow> nat \<Rightarrow> 'r step_result \<Rightarrow> bool" where
  "tried call p i n (Answered r k) \<longleftrightarrow>
     i \<le> k \<and> k \<le> i + n \<and> call p k = Inr r \<and> list_all (parse_fails call p) [i..<k]"
| "tried call p i n (Parse_Failed e) \<longleftrightarrow>
     call p (i + n) = Inl e \<and> list_all (parse_fails call p) [i..<Suc (i + n)]"
| "tried call p i n (Task_Failed e) \<longleftrightarrow> False"
| "tried call p i n (Infra_Failed e) \<longleftrightarrow>
     (\<exists>k. i \<le> k \<and> k \<le> i + n \<and> call p k = Inl e \<and> \<not> isinstance e ''ParseValidationError'' \<and>
        list_all (parse_fails call p) [i..<k])"

lemma list_all_earlier: "P i \<Longrightarrow> Suc i \<le> k \<Longrightarrow> list_all P [Suc i..<k] \<Longrightarrow> list_all P [i..<k]"
  by (simp add: upt_conv_Cons)

lemma tried_Suc:
  assumes "parse_fails call p i" and "tried call p (Suc i) n res"
  shows "tried call p i (Suc n) res"
proof (cases res)
  case (Infra_Failed e)
  with assms(2) obtain k where "Suc i \<le> k" "k \<le> Suc i + n" "call p k = Inl e"
    "\<not> isinstance e ''ParseValidationError''" "list_all (parse_fails call p) [Suc i..<k]" by auto
  with assms(1) Infra_Failed show ?thesis by (auto intro!: exI [of _ k] list_all_earlier)
qed (use assms in \<open>auto simp: upt_conv_Cons simp del: upt_Suc\<close>)

lemma try_profile_tried: "tried call p i n (try_profile call p i n)"
proof (induction n arbitrary: i)
  case 0
  show ?case
    by (subst try_profile.simps) (auto simp: parse_fails_def never_task_level split: sum.splits)
next
  case (Suc n)
  show ?case
  proof (cases "parse_fails call p i")
    case True
    then have "try_profile call p i (Suc n) = try_profile call p (Suc i) n"
      by (subst try_profile.simps) (auto simp: parse_fails_def)
    with tried_Suc [OF True Suc] show ?thesis by simp
  next
    case False
    then show ?thesis
      by (subst try_profile.simps) (auto simp: parse_fails_def never_task_level split: sum.splits)
  qed
qed

definition infra_fails :: "(profile \<Rightarrow> nat \<Rightarrow> failure + 'r) \<Rightarrow> nat \<Rightarrow> profile \<Rightarrow> bool" where
  "infra_fails call n p \<longleftrightarrow> (\<exists>e. try_profile call p 0 n = Infra_Failed e)"

section \<open>Decisions\<close>

definition times_out :: "failure \<Rightarrow> bool" where
  "times_out e \<longleftrightarrow> isinstance e ''TimeoutError'' \<or> list_ex (\<lambda>n. py_in_str ''timeout'' (py_lower n)) (f_mro e)"

lemma task_decision_Inr: "\<exists>d. task_decision configured attempts p key v e = Inr d \<and>
    d_failure_class d = Task_Level \<and> d_attempts d = attempts \<and> d_final_target d = Some (target p)"
  by (simp add: task_decision_def new_decision_def to_reasoner_error_classification_def Let_def
      classification_category_def classification_conflicts_def classification_retryable_def)

lemma success_decision_Inr: "fc = No_Failure \<or> fc = Success_With_Fallback \<Longrightarrow>
    \<exists>d. new_decision configured attempts final fc None None = Inr d \<and> d_attempts d = attempts \<and>
      d_final_target d = final \<and> d_failure_class d = fc"
  by (auto simp: new_decision_def to_reasoner_error_classification_def)

lemma word_free: "py_in_str ''timeout'' ''provider'' = False" "py_in_str ''timed out'' ''provider'' = False"
  "py_lower ''provider'' = ''provider''"
  by code_simp+


lemma exhausted_decision_eq:
  assumes "attempts \<noteq> []"
  shows "if times_out e then exhausted_decision configured attempts (Some e) = Inl ValueError
    else \<exists>d. exhausted_decision configured attempts (Some e) = Inr d \<and> d_failure_class d = Infra_Level \<and>
      d_attempts d = attempts \<and> d_terminal_reason d = Some (f_message e)"
proof -
  let ?ctx = "[(''configured_target'', PStr configured), (''attempts'', PList (map PStr attempts)),
    (''failure_source'', PStr ''provider'')]"
  let ?ctx' = "[(''configured_target'', PStr configured), (''attempts'', PList (map PStr attempts)),
    (''final_target'', optional_text None)]"
  have p: "has_provider_context ?ctx" "has_provider_context ?ctx'"
    using assms by (simp_all add: has_provider_context_def dget_def)
  have t: "is_timeout_failure (Some e) ?ctx \<longleftrightarrow> times_out e" "\<not> is_timeout_failure None ?ctx'"
    by (simp_all add: is_timeout_failure_def times_out_def word_free)
  have r: "\<not> is_non_retryable_provider_failure None ?ctx'"
    by (simp add: is_non_retryable_provider_failure_def dhas_def dget_def provider_quota_status_from_error_def py_lower_def)
  show ?thesis
    using assms p t r
    by (auto simp: exhausted_decision_def new_decision_def to_reasoner_error_classification_def Let_def
        classification_category_def classification_conflicts_def classification_retryable_def)
qed

section \<open>The whole run\<close>

definition infra_error :: "(profile \<Rightarrow> nat \<Rightarrow> failure + 'r) \<Rightarrow> nat \<Rightarrow> profile \<Rightarrow> failure option" where
  "infra_error call n p = (case try_profile call p 0 n of Infra_Failed e \<Rightarrow> Some e | _ \<Rightarrow> None)"

lemma infra_fails_error: "infra_fails call n p \<longleftrightarrow> (\<exists>e. infra_error call n p = Some e)"
  by (auto simp: infra_fails_def infra_error_def split: step_result.splits)

lemma run_chain_skip: "list_all (infra_fails call n) skipped \<Longrightarrow>
    run_chain call n configured (skipped @ rest) attempts last_error had =
    run_chain call n configured rest (attempts @ map target skipped)
      (if skipped = [] then last_error else infra_error call n (last skipped)) (had \<or> skipped \<noteq> [])"
proof (induction skipped arbitrary: attempts last_error had)
  case Nil
  then show ?case by simp
next
  case (Cons p ps)
  then obtain e where "try_profile call p 0 n = Infra_Failed e" by (auto simp: infra_fails_def)
  moreover from this have "infra_error call n p = Some e" by (simp add: infra_error_def)
  ultimately show ?case
    using Cons.IH [of "attempts @ [target p]" "Some e" True] Cons.prems by (simp add: Let_def)
qed

lemma chain_nonempty: "ordered_fallback_chain r profiles = Inr chain \<Longrightarrow> chain \<noteq> []"
proof -
  assume chain: "ordered_fallback_chain r profiles = Inr chain"
  then have "profiles \<noteq> []" by (auto simp: ordered_fallback_chain_def)
  then have "sort_key p_priority profiles \<noteq> []" by (metis length_0_conv length_sort)
  then have "first_of_each (sort_key p_priority profiles) {} \<noteq> []"
    by (cases "sort_key p_priority profiles") simp_all
  with chain_cases [OF chain] show ?thesis by (auto split: if_splits)
qed

lemma execute_chain:
  assumes "ordered_fallback_chain r profiles = Inr chain"
  shows "execute_with_fallback r profiles call =
    run_chain call (r_max_retries r) (format_request_target r) (dropWhile (infra_fails call (r_max_retries r)) chain)
      (map target (takeWhile (infra_fails call (r_max_retries r)) chain))
      (if takeWhile (infra_fails call (r_max_retries r)) chain = [] then None
       else infra_error call (r_max_retries r) (last (takeWhile (infra_fails call (r_max_retries r)) chain)))
      (takeWhile (infra_fails call (r_max_retries r)) chain \<noteq> [])"
proof -
  have skipped: "list_all (infra_fails call (r_max_retries r)) (takeWhile (infra_fails call (r_max_retries r)) chain)"
    unfolding list_all_iff using set_takeWhileD by fast
  show ?thesis
    using run_chain_skip [OF skipped, of "format_request_target r" "dropWhile (infra_fails call (r_max_retries r)) chain"
        "[]" None False]
    unfolding execute_with_fallback_def assms sum.case takeWhile_dropWhile_id by (simp only: append_Nil simp_thms)
qed

text \<open>
  The chain names every target of the profiles exactly once, each by a profile of the least priority
  number for it; the configured target comes first when a profile has it, and the others follow by
  priority.
\<close>

theorem chain_is_ordered_choice:
  assumes "ordered_fallback_chain r profiles = Inr chain"
  shows "distinct (map target chain) \<and> target ` set chain = target ` set profiles \<and> set chain \<subseteq> set profiles \<and>
    (\<forall>p \<in> set chain. \<forall>q \<in> set profiles. target q = target p \<longrightarrow> p_priority p \<le> p_priority q) \<and>
    (if format_request_target r \<in> target ` set profiles
     then target (hd chain) = format_request_target r \<and> sorted (map p_priority (tl chain))
     else sorted (map p_priority chain))"
proof (cases "configured_first r profiles")
  case True
  let ?ps = "sort_key p_priority profiles"
  from chain_cases [OF assms] True obtain p where p: "List.find (\<lambda>p. target p = format_request_target r) ?ps = Some p"
    and chain: "chain = p # first_of_each ?ps {target p}" by auto
  from find_SomeD [OF p] have t: "target p = format_request_target r" "p \<in> set profiles" by simp_all
  have sorted: "sorted (map p_priority ?ps)" by simp
  have "target ` set (first_of_each ?ps {target p}) = target ` set profiles - {target p}"
    by (simp add: first_of_each_targets)
  then have "target ` set chain = target ` set profiles" "target p \<notin> target ` set (first_of_each ?ps {target p})"
    using t(2) by (auto simp: chain)
  moreover have "p_priority x \<le> p_priority q" if "x \<in> set chain" "q \<in> set profiles" "target q = target x" for x q
    using that find_least [OF sorted p, of q] first_of_each_least [OF sorted, of x "{target p}" q] t
    by (auto simp: chain)
  moreover have "set chain \<subseteq> set profiles"
    using first_of_each_subset [of ?ps "{target p}"] t(2) by (auto simp: chain)
  ultimately show ?thesis
    using True t first_of_each_distinct [of ?ps "{target p}"] first_of_each_sorted [OF sorted, of "{target p}"]
    by (auto simp: chain configured_first_def)
next
  case False
  let ?ps = "sort_key p_priority profiles"
  have chain: "chain = first_of_each ?ps {}" using chain_cases [OF assms] False by simp
  have sorted: "sorted (map p_priority ?ps)" by simp
  have "p_priority x \<le> p_priority q" if "x \<in> set chain" "q \<in> set profiles" "target q = target x" for x q
    using that first_of_each_least [OF sorted, of x "{}" q] by (simp add: chain)
  then show ?thesis
    using False first_of_each_distinct [of ?ps "{}"] first_of_each_sorted [OF sorted, of "{}"]
      first_of_each_targets [of ?ps "{}"] first_of_each_subset [of ?ps "{}"]
    by (auto simp: chain configured_first_def)
qed

definition ex_profiles :: "profile list" where
  "ex_profiles = [\<lparr>p_provider = ''b'', p_model = ''m'', p_timeout_ms = 1, p_priority = 2\<rparr>,
     \<lparr>p_provider = ''a'', p_model = ''m'', p_timeout_ms = 1, p_priority = 1\<rparr>,
     \<lparr>p_provider = ''a'', p_model = ''a/m'', p_timeout_ms = 1, p_priority = 3\<rparr>]"

definition ex_request :: reasoner_request where
  "ex_request = \<lparr>r_provider = ''b'', r_model = ''m'', r_max_retries = 1\<rparr>"

lemma ex_chain: "ordered_fallback_chain ex_request ex_profiles = Inr [ex_profiles ! 0, ex_profiles ! 1]"
  by code_simp

theorem chain_is_ordered_choice_witness: "distinct (map target [ex_profiles ! 0, ex_profiles ! 1])"
  using chain_is_ordered_choice [OF ex_chain] by blast

text \<open>
  The run ends with the first profile of the chain whose infrastructure does not fail: with its first
  answer after parse failures only, within the allowed retries, reported with the whole path and with
  \<open>success_with_fallback\<close> exactly when a profile was skipped; or, when all its attempts fail to parse, with
  a task-level failure that asks no further provider.
\<close>

theorem fallback_stops_at_first_sound_provider:
  assumes "ordered_fallback_chain r profiles = Inr chain"
    and "dropWhile (infra_fails call (r_max_retries r)) chain = p # rest"
  shows "let skipped = takeWhile (infra_fails call (r_max_retries r)) chain; path = map target skipped @ [target p] in
    (\<exists>k res d. k \<le> r_max_retries r \<and> call p k = Inr res \<and> list_all (parse_fails call p) [0..<k] \<and>
       execute_with_fallback r profiles call =
         Returned \<lparr>g_result = res, g_provider = p_provider p, g_model = p_model p,
           g_configured_target = format_request_target r,
           g_failure_class = (if skipped = [] then No_Failure else Success_With_Fallback),
           g_fallback_path = path, g_retry_count = k\<rparr> d \<and>
       d_attempts d = path \<and> d_final_target d = Some (target p)) \<or>
    (\<exists>e d. list_all (parse_fails call p) [0..<Suc (r_max_retries r)] \<and> call p (r_max_retries r) = Inl e \<and>
       execute_with_fallback r profiles call = Failed_With d (Some e) \<and>
       d_failure_class d = Task_Level \<and> d_attempts d = path)"
proof -
  let ?n = "r_max_retries r"
  let ?s = "takeWhile (infra_fails call ?n) chain"
  have "\<not> infra_fails call ?n p" using assms(2) by (metis hd_dropWhile list.sel(1) list.distinct(1))
  moreover have "tried call p 0 ?n (try_profile call p 0 ?n)" by (rule try_profile_tried)
  ultimately consider k res where "try_profile call p 0 ?n = Answered res k" "k \<le> ?n" "call p k = Inr res"
      "list_all (parse_fails call p) [0..<k]"
    | e where "try_profile call p 0 ?n = Parse_Failed e" "call p ?n = Inl e"
      "list_all (parse_fails call p) [0..<Suc ?n]"
    by (cases "try_profile call p 0 ?n") (auto simp: infra_fails_def)
  then show ?thesis
  proof cases
    case 1
    let ?fc = "if ?s = [] then No_Failure else Success_With_Fallback"
    have "?fc = No_Failure \<or> ?fc = Success_With_Fallback" by simp
    from success_decision_Inr [OF this, where configured = "format_request_target r"
        and attempts = "map target ?s @ [target p]" and final = "Some (target p)"]
    obtain d where "new_decision (format_request_target r) (map target ?s @ [target p]) (Some (target p))
        ?fc None None = Inr d"
      "d_attempts d = map target ?s @ [target p]" "d_final_target d = Some (target p)" by blast
    with 1 show ?thesis
      unfolding Let_def execute_chain [OF assms(1)] assms(2) by (intro disjI1) (auto simp: Let_def)
  next
    case 2
    obtain d where "task_decision (format_request_target r) (map target ?s @ [target p]) p ''phase'' ''parse'' e = Inr d"
      "d_failure_class d = Task_Level" "d_attempts d = map target ?s @ [target p]"
      using task_decision_Inr by blast
    with 2 show ?thesis
      unfolding Let_def execute_chain [OF assms(1)] assms(2) by (intro disjI2) (auto simp: Let_def raise_decision_def)
  qed
qed


lemma infra_fails_iff: "infra_fails call n p \<longleftrightarrow> infra_error call n p \<noteq> None"
  by (simp add: infra_fails_error)

definition ex_down :: failure where
  "ex_down = \<lparr>f_mro = [''ConnectionError'', ''OSError'', ''Exception'', ''BaseException'', ''object''],
     f_message = ''refused'', f_status = None\<rparr>"

definition ex_slow :: failure where
  "ex_slow = \<lparr>f_mro = [''TimeoutError'', ''OSError'', ''Exception'', ''BaseException'', ''object''],
     f_message = ''timed out'', f_status = None\<rparr>"

text \<open>The first provider is down, the second answers.\<close>

definition ex_call :: "profile \<Rightarrow> nat \<Rightarrow> failure + nat" where
  "ex_call p k = (if p_provider p = ''b'' then Inl ex_down else Inr 7)"

theorem fallback_stops_at_first_sound_provider_witness:
  "\<exists>g d. execute_with_fallback ex_request ex_profiles ex_call = Returned g d \<and>
     g_failure_class g = Success_With_Fallback \<and> g_fallback_path g = [''b/m'', ''a/m'']"
proof -
  have i: "infra_error ex_call (r_max_retries ex_request) (ex_profiles ! 0) = Some ex_down"
    "infra_error ex_call (r_max_retries ex_request) (ex_profiles ! 1) = None"
    and t: "target (ex_profiles ! 0) = ''b/m''" "target (ex_profiles ! 1) = ''a/m''" by code_simp+
  have call: "ex_call (ex_profiles ! 1) k = Inr 7" for k by (simp add: ex_call_def ex_profiles_def)
  have "dropWhile (infra_fails ex_call (r_max_retries ex_request)) [ex_profiles ! 0, ex_profiles ! 1] = [ex_profiles ! 1]"
    by (simp add: infra_fails_iff i [unfolded One_nat_def])
  from fallback_stops_at_first_sound_provider [OF ex_chain this] show ?thesis
    by (auto simp: Let_def infra_fails_iff i [unfolded One_nat_def] t [unfolded One_nat_def] call [unfolded One_nat_def])
qed

text \<open>
  C20: When the infrastructure of every profile fails, the run ends with a \<open>FallbackExecutionError\<close> that
  carries the last error, except when the last error is a timeout: then building the decision fails on
  its own classification, and a validation error is raised in its place.
\<close>

theorem exhausted_chain_breaks_on_timeout:
  assumes "ordered_fallback_chain r profiles = Inr chain"
    and "dropWhile (infra_fails call (r_max_retries r)) chain = []"
  shows "\<exists>e. infra_error call (r_max_retries r) (last chain) = Some e \<and>
    (if isinstance e ''TimeoutError'' \<or> list_ex (\<lambda>n. py_in_str ''timeout'' (py_lower n)) (f_mro e)
     then execute_with_fallback r profiles call = Broke_With ValueError
     else \<exists>d. execute_with_fallback r profiles call = Failed_With d (Some e) \<and>
       d_failure_class d = Infra_Level \<and> d_attempts d = map target chain)"
proof -
  have all: "takeWhile (infra_fails call (r_max_retries r)) chain = chain"
    using assms(2) by (metis append_Nil2 takeWhile_dropWhile_id)
  have ne: "chain \<noteq> []" by (rule chain_nonempty [OF assms(1)])
  have "infra_fails call (r_max_retries r) (last chain)"
    using assms(2) ne by (simp add: dropWhile_eq_Nil_conv)
  then obtain e where e: "infra_error call (r_max_retries r) (last chain) = Some e" by (auto simp: infra_fails_error)
  have "execute_with_fallback r profiles call =
      raise_decision (exhausted_decision (format_request_target r) (map target chain) (Some e)) (Some e)"
    unfolding execute_chain [OF assms(1)] assms(2) all by (simp add: ne e)
  moreover have "map target chain \<noteq> []" using ne by simp
  note exhausted_decision_eq [OF this, of e "format_request_target r"]
  ultimately show ?thesis
    using e by (auto simp: times_out_def raise_decision_def split: if_splits)
qed

theorem exhausted_chain_breaks_on_timeout_witness:
  "execute_with_fallback ex_request ex_profiles (\<lambda>p k. Inl ex_slow :: failure + nat) = Broke_With ValueError"
proof -
  let ?call = "\<lambda>p k. Inl ex_slow :: failure + nat"
  have i: "infra_error ?call (r_max_retries ex_request) p = Some ex_slow" for p
    by (subst infra_error_def, subst try_profile.simps)
      (simp add: isinstance_def ex_slow_def classify_failure_def is_litellm_infra_error_def litellm_infra_error_names_def Let_def)
  have "dropWhile (infra_fails ?call (r_max_retries ex_request)) [ex_profiles ! 0, ex_profiles ! 1] = []"
    by (simp add: infra_fails_iff i)
  from exhausted_chain_breaks_on_timeout [OF ex_chain this] show ?thesis
    by (simp add: i) (simp add: isinstance_def ex_slow_def)
qed

end
