(* ===== verification/Scrub.thy ===== *)
theory Scrub
  imports Prelude
begin

text \<open>
  Scrubbing of requests in \<open>reasoner-runtime\<close>: \<open>scrub/handler.py\<close>. The replacement of the sensitive
  parts of one text (\<open>scrub_text\<close>) is an argument; what is modelled is the walk over the payload, the
  keys of its dictionaries included, and the search for a key that is still free.
\<close>

section \<open>A key that is still free\<close>

definition numbered_key :: "string \<Rightarrow> nat \<Rightarrow> string" where
  "numbered_key key i = key @ '' [DUPLICATE_KEY_'' @ nat_str i @ '']''"

lemma numbered_key_inject [simp]: "numbered_key key i = numbered_key key j \<longleftrightarrow> i = j"
  by (simp add: numbered_key_def)

definition taken_from :: "string \<Rightarrow> (string \<times> 'v) list \<Rightarrow> nat \<Rightarrow> nat set" where
  "taken_from key d i = {j. i \<le> j \<and> dhas d (numbered_key key j)}"

lemma dhas_in_keys: "dhas d k \<Longrightarrow> k \<in> fst ` set d"
  by (force simp: dhas_def dest: map_of_SomeD)

lemma finite_taken: "finite (taken_from key d i)"
proof (rule finite_subset)
  show "taken_from key d i \<subseteq> numbered_key key -` (fst ` set d)"
    by (simp add: taken_from_def subset_iff dhas_in_keys)
  show "finite (numbered_key key -` (fst ` set d))"
    by (rule finite_vimageI) (simp_all add: inj_def)
qed

text \<open>The loop of \<open>_unique_scrubbed_key\<close>. It ends: every turn has one taken number less ahead of it.\<close>

function first_free :: "string \<Rightarrow> (string \<times> 'v) list \<Rightarrow> nat \<Rightarrow> string" where
  "first_free key d i =
     (if dhas d (numbered_key key i) then first_free key d (i + 1) else numbered_key key i)"
  by pat_completeness auto
termination
proof (relation "measure (\<lambda>(key, d, i). card (taken_from key d i))")
  fix key :: string and d :: "(string \<times> 'v) list" and i :: nat
  assume "dhas d (numbered_key key i)"
  then have "i \<in> taken_from key d i" by (simp add: taken_from_def)
  moreover have "i \<notin> taken_from key d (i + 1)" by (simp add: taken_from_def)
  moreover have "taken_from key d (i + 1) \<subseteq> taken_from key d i" by (auto simp: taken_from_def)
  ultimately have "taken_from key d (i + 1) \<subset> taken_from key d i" by blast
  with finite_taken [of key d i] show "((key, d, i + 1), key, d, i) \<in> measure (\<lambda>(key, d, i). card (taken_from key d i))"
    by (simp add: psubset_card_mono)
qed simp

declare first_free.simps [simp del]

definition unique_scrubbed_key :: "string \<Rightarrow> (string \<times> 'v) list \<Rightarrow> string" where
  "unique_scrubbed_key key d = (if \<not> dhas d key then key else first_free key d 2)"

section \<open>The walk\<close>

fun scrub_payload :: "(string \<Rightarrow> string) \<Rightarrow> bool \<Rightarrow> pyval \<Rightarrow> pyval"
  and scrub_items :: "(string \<Rightarrow> string) \<Rightarrow> bool \<Rightarrow> pydict \<Rightarrow> pydict \<Rightarrow> pydict"
  and scrub_list :: "(string \<Rightarrow> string) \<Rightarrow> bool \<Rightarrow> pyval list \<Rightarrow> pyval list" where
  "scrub_payload scrub_text keys (PStr s) = PStr (scrub_text s)"
| "scrub_payload scrub_text keys (PDict d) = PDict (scrub_items scrub_text keys d [])"
| "scrub_payload scrub_text keys (PList vs) = PList (scrub_list scrub_text keys vs)"
| "scrub_payload scrub_text keys PNone = PNone"
| "scrub_payload scrub_text keys (PBool b) = PBool b"
| "scrub_payload scrub_text keys (PInt i) = PInt i"
| "scrub_payload scrub_text keys (PFloat x) = PFloat x"
| "scrub_items scrub_text keys [] acc = acc"
| "scrub_items scrub_text keys ((k, v) # d) acc =
     scrub_items scrub_text keys d
       (dput (unique_scrubbed_key (if keys then scrub_text k else k) acc) (scrub_payload scrub_text keys v) acc)"
| "scrub_list scrub_text keys [] = []"
| "scrub_list scrub_text keys (v # vs) = scrub_payload scrub_text keys v # scrub_list scrub_text keys vs"

record scrubbed_request =
  sr_messages :: pyval
  sr_metadata :: pyval
  sr_sanitized_input :: string

text \<open>\<open>dumps\<close> is \<open>json.dumps\<close> with the options of the code; no metadata is an empty dictionary.\<close>

definition scrub_request ::
  "(string \<Rightarrow> string) \<Rightarrow> (pyval \<Rightarrow> string) \<Rightarrow> pyval list \<Rightarrow> pydict \<Rightarrow> scrubbed_request" where
  "scrub_request scrub_text dumps messages metadata =
     (let ms = scrub_payload scrub_text True (PList messages);
          md = scrub_payload scrub_text True (PDict metadata)
      in \<lparr>sr_messages = ms, sr_metadata = md,
          sr_sanitized_input = dumps (PDict [(''messages'', ms), (''metadata'', md)])\<rparr>)"

definition scrub_input ::
  "(string \<Rightarrow> string) \<Rightarrow> (pyval \<Rightarrow> string) \<Rightarrow> pyval list \<Rightarrow> pydict \<Rightarrow> string" where
  "scrub_input scrub_text dumps messages metadata =
     sr_sanitized_input (scrub_request scrub_text dumps messages metadata)"

section \<open>Nothing is lost and nothing is left unscrubbed\<close>

lemma first_free_fresh: "\<not> dhas d (first_free key d i)"
proof (induction key d i rule: first_free.induct)
  case (1 key d i)
  then show ?case by (subst first_free.simps) auto
qed

lemma first_free_prefix: "prefix key (first_free key d i)"
proof (induction key d i rule: first_free.induct)
  case (1 key d i)
  then show ?case by (subst first_free.simps) (auto simp: numbered_key_def)
qed

lemma unique_fresh: "\<not> dhas d (unique_scrubbed_key key d)"
  by (simp add: unique_scrubbed_key_def first_free_fresh)

lemma unique_prefix: "prefix key (unique_scrubbed_key key d)"
  by (simp add: unique_scrubbed_key_def first_free_prefix)

lemma dput_new: "\<not> dhas d k \<Longrightarrow> dput k v d = d @ [(k, v)]"
  by (induction d) (auto simp: dput_def dhas_def)

text \<open>The leaves of a value, in order: its texts, numbers, truth values and nulls.\<close>

fun leaves :: "pyval \<Rightarrow> pyval list" and item_leaves :: "pydict \<Rightarrow> pyval list"
  and list_leaves :: "pyval list \<Rightarrow> pyval list" where
  "leaves (PDict d) = item_leaves d"
| "leaves (PList vs) = list_leaves vs"
| "leaves (PStr s) = [PStr s]"
| "leaves PNone = [PNone]"
| "leaves (PBool b) = [PBool b]"
| "leaves (PInt i) = [PInt i]"
| "leaves (PFloat x) = [PFloat x]"
| "item_leaves [] = []"
| "item_leaves ((k, v) # d) = leaves v @ item_leaves d"
| "list_leaves [] = []"
| "list_leaves (v # vs) = leaves v @ list_leaves vs"

fun scrub_leaf :: "(string \<Rightarrow> string) \<Rightarrow> pyval \<Rightarrow> pyval" where
  "scrub_leaf scrub_text (PStr s) = PStr (scrub_text s)"
| "scrub_leaf scrub_text v = v"

lemma item_leaves_append: "item_leaves (d @ e) = item_leaves d @ item_leaves e"
  by (induction d) auto

lemma scrub_leaves:
  "leaves (scrub_payload scrub_text keys v) = map (scrub_leaf scrub_text) (leaves v)"
  "item_leaves (scrub_items scrub_text keys d acc) = item_leaves acc @ map (scrub_leaf scrub_text) (item_leaves d)"
  "list_leaves (scrub_list scrub_text keys vs) = map (scrub_leaf scrub_text) (list_leaves vs)"
  by (induction scrub_text keys v and scrub_text keys d acc and scrub_text keys vs
      rule: scrub_payload_scrub_items_scrub_list.induct)
    (simp_all add: dput_new unique_fresh item_leaves_append)

text \<open>The keys of a scrubbed dictionary, one for each key of the original, in order.\<close>

lemma scrub_items_keys:
  "\<exists>ks. map fst (scrub_items scrub_text keys d acc) = map fst acc @ ks \<and>
     list_all2 (\<lambda>(k, v) k'. prefix (if keys then scrub_text k else k) k') d ks"
proof (induction d arbitrary: acc)
  case Nil
  show ?case by simp
next
  case (Cons x d)
  obtain k v where x: "x = (k, v)" by fastforce
  let ?k = "unique_scrubbed_key (if keys then scrub_text k else k) acc"
  from Cons.IH [of "dput ?k (scrub_payload scrub_text keys v) acc"] obtain ks where
    "map fst (scrub_items scrub_text keys (x # d) acc) = map fst acc @ ?k # ks"
    "list_all2 (\<lambda>(k, v) k'. prefix (if keys then scrub_text k else k) k') d ks"
    by (auto simp: x dput_new unique_fresh)
  then show ?case by (intro exI [of _ "?k # ks"]) (simp add: x unique_prefix)
qed

lemma scrub_items_wf: "dict_wf acc \<Longrightarrow> dict_wf (scrub_items scrub_text keys d acc)"
  by (induction d arbitrary: acc) auto

text \<open>
  C21: Scrubbing keeps every leaf of a payload in its place: each text is replaced by its scrubbed text, and
  every other leaf is unchanged. In a dictionary no entry is lost when scrubbed keys collide: there is one
  distinct key for each original key, in order, and it begins with the scrubbed key.
\<close>

theorem scrubbing_loses_nothing:
  "leaves (scrub_payload scrub_text True v) = map (scrub_leaf scrub_text) (leaves v) \<and>
   (\<exists>d'. scrub_payload scrub_text True (PDict d) = PDict d' \<and> dict_wf d' \<and> length d' = length d \<and>
      list_all2 (\<lambda>(k, v) (k', v'). prefix (scrub_text k) k') d d')"
proof -
  obtain ks where ks: "map fst (scrub_items scrub_text True d []) = ks"
    "list_all2 (\<lambda>(k, v) k'. prefix (scrub_text k) k') d ks"
    using scrub_items_keys [of scrub_text True d "[]"] by auto
  have "length (scrub_items scrub_text True d []) = length d"
    using ks by (metis length_map list_all2_lengthD)
  moreover have "list_all2 (\<lambda>(k, v) (k', v'). prefix (scrub_text k) k') d (scrub_items scrub_text True d [])"
    using ks by (auto simp: list_all2_map2 [symmetric] list_all2_conv_all_nth split: prod.splits)
  ultimately show ?thesis by (simp add: scrub_leaves scrub_items_wf)
qed

end
