(* ===== verification/MainCore.thy ===== *)
theory MainCore
  imports Prelude
begin

text \<open>
  The inputs of a daily decision in \<open>main-core\<close>: the readers of the basis data
  (\<open>l1_l2_basis/readers.py\<close>), the feature bundles (\<open>l3_features\<close>) and the world state
  (\<open>l4_world_state\<close>). The data platform, the graph engine, the source of candidate signals and the
  reasoner are ports of the program and arguments of the model; a port may raise. Dates are ordinals,
  \<open>generated_at\<close> is the clock and left out. Every number of a schema object is finite, as
  \<open>FormalObjectBase\<close> demands, so the tests of \<open>isfinite\<close> have nothing to refuse.
\<close>

section \<open>Errors\<close>

datatype core_error =
    MainCoreError string
  | InconclusiveError string
  | AlphaAnalyzerError string
  | DataPlatformReadError string
  | L3FeatureError string
  | InvalidMultiplierError
  | CandidateSignalError string
  | GraphSnapshotError string
  | WorldStatePolicyError string
  | WorldStateReasonerError string
  | Raised py_error

text \<open>All but the last are subclasses of \<open>MainCoreError\<close>; a failed validation is a \<open>ValueError\<close>.\<close>

fun is_main_core_error :: "core_error \<Rightarrow> bool" where
  "is_main_core_error (Raised _) = False"
| "is_main_core_error _ = True"

section \<open>Basis data\<close>

record market_bar =
  mb_cycle :: string
  mb_entity :: string
  mb_as_of_date :: int
  mb_close_price :: real
  mb_volume :: real
  mb_return_1d :: "real option"

record calendar_day =
  cd_cycle :: string
  cd_trading_date :: int
  cd_is_trading_day :: bool

record entity_master_row =
  em_entity :: string
  em_ticker :: string
  em_is_active :: bool

text \<open>\<open>_read_from_port\<close>: what the port raises becomes a read error; the records are typed here.\<close>

definition read_from_port :: "core_error + 'r list \<Rightarrow> core_error + 'r list" where
  "read_from_port r =
     (case r of
        Inl (DataPlatformReadError m) \<Rightarrow> Inl (DataPlatformReadError m)
      | Inl _ \<Rightarrow> Inl (DataPlatformReadError ''data-platform port failed while reading basis data'')
      | Inr rs \<Rightarrow> Inr rs)"

definition index_list :: "nat list \<Rightarrow> string" where
  "index_list ixs = ''['' @ join_with '', '' (map nat_str ixs) @ '']''"

definition validate_cycle_ids :: "('r \<Rightarrow> string) \<Rightarrow> string \<Rightarrow> 'r list \<Rightarrow> string \<Rightarrow> core_error + unit" where
  "validate_cycle_ids cycle_of requested rs name =
     (let bad = filter (\<lambda>i. cycle_of (rs ! i) \<noteq> requested) [0..<length rs] in
      if bad \<noteq> []
      then Inl (DataPlatformReadError (name @ '' contain records from a different cycle at indexes '' @ index_list bad))
      else Inr ())"

record basis_port =
  port_market_bars :: "string \<Rightarrow> core_error + market_bar list"
  port_calendar :: "string \<Rightarrow> core_error + calendar_day list"
  port_entity_master :: "string \<Rightarrow> core_error + entity_master_row list"

definition read_market_bars :: "basis_port \<Rightarrow> string \<Rightarrow> core_error + market_bar list" where
  "read_market_bars port cid =
     res_bind (read_from_port (port_market_bars port cid)) (\<lambda>rs.
     res_bind (validate_cycle_ids mb_cycle cid rs ''market bars'') (\<lambda>_.
     Inr (sort_key (\<lambda>r. mb_entity r) (sort_key mb_as_of_date rs))))"

definition read_calendar :: "basis_port \<Rightarrow> string \<Rightarrow> core_error + calendar_day list" where
  "read_calendar port cid =
     res_bind (read_from_port (port_calendar port cid)) (\<lambda>rs.
     res_bind (validate_cycle_ids cd_cycle cid rs ''calendar'') (\<lambda>_.
     Inr (sort_key cd_trading_date rs)))"

definition read_entity_master :: "basis_port \<Rightarrow> string \<Rightarrow> core_error + entity_master_row list" where
  "read_entity_master port cid =
     res_bind (read_from_port (port_entity_master port cid)) (\<lambda>rs. Inr (sort_key em_entity rs))"

section \<open>Feature bundles\<close>

record feature_bundle =
  fb_cycle :: string
  fb_entity :: string
  fb_features :: "(string \<times> real) list"
  fb_signals :: pydict
  fb_graph :: pydict
  fb_multipliers :: "(string \<times> real) list"

text \<open>The validator of \<open>FeatureSignalBundle\<close>, which every construction and every copy runs.\<close>

definition validated_bundle :: "feature_bundle \<Rightarrow> core_error + feature_bundle" where
  "validated_bundle b =
     (if list_all (\<lambda>(k, m). 0 < m) (fb_multipliers b) then Inr b else Inl (Raised ValueError))"

subsection \<open>Multipliers\<close>

type_synonym multiplier_store = "(string \<times> (string \<times> real) list) list"

definition get_multipliers :: "string \<Rightarrow> multiplier_store \<Rightarrow> (string \<times> real) list" where
  "get_multipliers cid store = dlist store cid"

fun multiplier_value :: "pyval \<Rightarrow> real option" where
  "multiplier_value (PInt i) = (if 0 < i then Some (of_int i) else None)"
| "multiplier_value (PFloat x) = (if 0 < x then Some x else None)"
| "multiplier_value _ = None"

definition validated_multiplier_copy :: "pydict \<Rightarrow> core_error + (string \<times> real) list" where
  "validated_multiplier_copy updates =
     res_list (\<lambda>(k, v). case multiplier_value v of None \<Rightarrow> Inl InvalidMultiplierError | Some x \<Rightarrow> Inr (k, x)) updates"

definition put_multipliers ::
  "string \<Rightarrow> pydict \<Rightarrow> multiplier_store \<Rightarrow> (core_error + unit) \<times> multiplier_store" where
  "put_multipliers cid updates store =
     (case validated_multiplier_copy updates of
        Inl e \<Rightarrow> (Inl e, store)
      | Inr ups \<Rightarrow> (Inr (), dput cid (fold (\<lambda>(k, v). dput k v) ups (get_multipliers cid store)) store))"

definition market_bar_feature_values :: "market_bar \<Rightarrow> (string \<times> real) list" where
  "market_bar_feature_values b =
     [(''close_price'', mb_close_price b), (''volume'', mb_volume b)] @
     (case mb_return_1d b of None \<Rightarrow> [] | Some r \<Rightarrow> [(''return_1d'', r)])"

definition multiplier_of :: "(string \<times> real) list \<Rightarrow> string \<Rightarrow> real" where
  "multiplier_of multipliers k = (case map_of multipliers k of None \<Rightarrow> 1 | Some m \<Rightarrow> m)"

definition apply_feature_weight_multiplier ::
  "(string \<times> real) list \<Rightarrow> (string \<times> real) list \<Rightarrow> (string \<times> real) list \<times> (string \<times> real) list" where
  "apply_feature_weight_multiplier features multipliers =
     (map (\<lambda>(k, v). (k, v * multiplier_of multipliers k)) features,
      map (\<lambda>(k, v). (k, multiplier_of multipliers k)) features)"

subsection \<open>Graph features\<close>

record graph_impact =
  gi_cycle :: string
  gi_entity :: string
  gi_features :: pydict
  gi_snapshot :: string

record regime_context =
  rc_cycle :: string
  rc_snapshot :: string
  rc_context :: pydict

record graph_port =
  read_graph_impact_snapshot :: "string \<Rightarrow> core_error + graph_impact list"
  read_graph_regime_context :: "string \<Rightarrow> core_error + regime_context option"

definition load_graph_features :: "string \<Rightarrow> string \<Rightarrow> graph_port option \<Rightarrow> core_error + pydict" where
  "load_graph_features cid entity port =
     (case port of
        None \<Rightarrow> Inr []
      | Some p \<Rightarrow>
          res_bind (read_graph_impact_snapshot p cid) (\<lambda>rs.
            if list_ex (\<lambda>r. gi_cycle r \<noteq> cid) rs
            then Inl (GraphSnapshotError ''graph impact snapshot contains records from a different cycle'')
            else (case filter (\<lambda>r. gi_entity r = entity) rs of
                [] \<Rightarrow> Inr []
              | [r] \<Rightarrow> Inr [(''snapshot_id'', PStr (gi_snapshot r)), (''features'', PDict (gi_features r))]
              | _ \<Rightarrow> Inl (GraphSnapshotError ''graph impact snapshot contains duplicate records for entity''))))"

definition merge_graph_features :: "feature_bundle \<Rightarrow> pydict \<Rightarrow> core_error + feature_bundle" where
  "merge_graph_features b graph_features = validated_bundle (b\<lparr>fb_graph := graph_features\<rparr>)"

definition merged :: "pydict \<Rightarrow> pydict \<Rightarrow> pydict" where
  "merged d e = fold (\<lambda>(k, v). dput k v) e d"

subsection \<open>Candidate signals\<close>

record candidate_signal =
  cs_cycle :: string
  cs_entity :: string
  cs_name :: string
  cs_value :: pyval
  cs_source :: string
  cs_confidence :: "real option"
  cs_metadata :: pydict

definition candidate_signal_multiplier :: "string \<Rightarrow> (string \<times> real) list \<Rightarrow> real" where
  "candidate_signal_multiplier name multipliers =
     (case map_of multipliers (''candidate_signals.'' @ name) of
        Some m \<Rightarrow> m
      | None \<Rightarrow> (case map_of multipliers name of Some m \<Rightarrow> m | None \<Rightarrow> 1))"

fun adjusted_value :: "real \<Rightarrow> pyval \<Rightarrow> pyval" where
  "adjusted_value m (PInt i) = PFloat (of_int i * m)"
| "adjusted_value m (PFloat x) = PFloat (x * m)"
| "adjusted_value m v = v"

definition signal_payload :: "candidate_signal \<Rightarrow> (string \<times> real) list \<Rightarrow> pyval" where
  "signal_payload r multipliers = PDict
     [(''raw_value'', cs_value r),
      (''adjusted_value'', adjusted_value (candidate_signal_multiplier (cs_name r) multipliers) (cs_value r)),
      (''source'', PStr (cs_source r)),
      (''confidence'', (case cs_confidence r of None \<Rightarrow> PNone | Some x \<Rightarrow> PFloat x)),
      (''metadata'', PDict (cs_metadata r))]"

definition signal_key :: "candidate_signal \<Rightarrow> string \<times> string \<times> string" where
  "signal_key r = (cs_entity r, cs_source r, cs_name r)"

definition normalize_step ::
  "string \<Rightarrow> string \<Rightarrow> (string \<times> real) list \<Rightarrow> candidate_signal \<Rightarrow>
   pydict \<times> (string \<times> string \<times> string) list \<Rightarrow>
   core_error + pydict \<times> (string \<times> string \<times> string) list" where
  "normalize_step cid entity multipliers r = (\<lambda>(normalized, seen).
     if cs_cycle r \<noteq> cid
     then Inl (CandidateSignalError ''candidate signal records must match the requested cycle_id'')
     else if signal_key r \<in> set seen
     then Inl (CandidateSignalError ''candidate signal records contain duplicate entity/source/signal_name'')
     else if cs_entity r \<noteq> entity then Inr (normalized, signal_key r # seen)
     else if dhas normalized (cs_name r)
     then Inl (CandidateSignalError ''candidate signal names must be unique per entity'')
     else Inr (dput (cs_name r) (signal_payload r multipliers) normalized, signal_key r # seen))"

definition normalize_candidate_signals ::
  "candidate_signal list \<Rightarrow> string \<Rightarrow> string \<Rightarrow> (string \<times> real) list \<Rightarrow> core_error + pydict" where
  "normalize_candidate_signals rs cid entity multipliers =
     res_map fst (res_fold (normalize_step cid entity multipliers) rs ([], []))"

definition merge_candidate_signals :: "feature_bundle \<Rightarrow> pydict \<Rightarrow> core_error + feature_bundle" where
  "merge_candidate_signals b signals =
     (if signals = [] then validated_bundle b
      else if \<not> dhas (fb_signals b) ''candidate_signals''
      then validated_bundle (b\<lparr>fb_signals := dput ''candidate_signals'' (PDict signals) (fb_signals b)\<rparr>)
      else (case dget (fb_signals b) ''candidate_signals'' of
          PDict existing \<Rightarrow>
            if list_ex (\<lambda>kv. dhas existing (fst kv)) signals
            then Inl (CandidateSignalError ''candidate signal merge would overwrite existing candidate payload'')
            else validated_bundle
              (b\<lparr>fb_signals := dput ''candidate_signals'' (PDict (merged existing signals)) (fb_signals b)\<rparr>)
        | _ \<Rightarrow> Inl (CandidateSignalError ''signal_values.candidate_signals must be a mapping when present'')))"

subsection \<open>The builder\<close>

definition keep_latest :: "market_bar \<Rightarrow> (string \<times> market_bar) list \<Rightarrow> (string \<times> market_bar) list" where
  "keep_latest b latest =
     (case map_of latest (mb_entity b) of
        None \<Rightarrow> dput (mb_entity b) b latest
      | Some previous \<Rightarrow>
          if mb_as_of_date previous < mb_as_of_date b then dput (mb_entity b) b latest else latest)"

definition latest_market_bars_by_entity :: "market_bar list \<Rightarrow> (string \<times> market_bar) list" where
  "latest_market_bars_by_entity bars = fold keep_latest bars []"

text \<open>\<open>candidate_signals\<close> maps an entity to its signals; without a port nothing is read.\<close>

definition candidate_signal_records_from_mapping ::
  "string \<Rightarrow> (string \<times> pydict) list \<Rightarrow> candidate_signal list" where
  "candidate_signal_records_from_mapping cid signals =
     concat (map (\<lambda>(entity, kvs). map (\<lambda>(name, v).
       \<lparr>cs_cycle = cid, cs_entity = entity, cs_name = name, cs_value = v, cs_source = ''layer_b'',
         cs_confidence = None, cs_metadata = []\<rparr>) kvs) signals)"

definition read_candidate_signal_records ::
  "string \<Rightarrow> (string \<Rightarrow> core_error + candidate_signal list) option \<Rightarrow> core_error + candidate_signal list" where
  "read_candidate_signal_records cid port = (case port of None \<Rightarrow> Inr [] | Some read \<Rightarrow> read cid)"

record sources =
  so_basis :: basis_port
  so_multipliers :: multiplier_store
  so_graph :: "graph_port option"
  so_graph_impact :: "(string \<times> pydict) list"
  so_signals :: "(string \<times> pydict) list"
  so_signal_port :: "(string \<Rightarrow> core_error + candidate_signal list) option"

definition build_one ::
  "sources \<Rightarrow> string \<Rightarrow> (string \<times> real) list \<Rightarrow> candidate_signal list \<Rightarrow> string \<Rightarrow> market_bar \<Rightarrow>
   core_error + feature_bundle" where
  "build_one so cid multipliers records entity bar =
     (let (features, effective) = apply_feature_weight_multiplier (market_bar_feature_values bar) multipliers in
      res_bind (validated_bundle \<lparr>fb_cycle = cid, fb_entity = entity, fb_features = features, fb_signals = [],
        fb_graph = dlist (so_graph_impact so) entity, fb_multipliers = effective\<rparr>) (\<lambda>b.
      res_bind (load_graph_features cid entity (so_graph so)) (\<lambda>g.
      res_bind (if g \<noteq> [] then merge_graph_features b (merged (fb_graph b) g) else Inr b) (\<lambda>b.
      res_bind (normalize_candidate_signals records cid entity multipliers) (\<lambda>signals.
      if signals \<noteq> [] then merge_candidate_signals b signals else Inr b)))))"

fun build_each ::
  "(string \<Rightarrow> market_bar \<Rightarrow> core_error + feature_bundle) \<Rightarrow> (string \<times> market_bar) list \<Rightarrow> string list \<Rightarrow>
   core_error + feature_bundle list" where
  "build_each build latest [] = Inr []"
| "build_each build latest (entity # entities) =
     (case map_of latest entity of
        None \<Rightarrow> build_each build latest entities
      | Some bar \<Rightarrow>
          res_bind (build entity bar) (\<lambda>b. res_map (\<lambda>bs. b # bs) (build_each build latest entities)))"

definition active_entities :: "entity_master_row list \<Rightarrow> string list" where
  "active_entities master = sort (remdups (map em_entity (filter em_is_active master)))"

definition build_feature_signal_bundles :: "sources \<Rightarrow> string \<Rightarrow> core_error + feature_bundle list" where
  "build_feature_signal_bundles so cid =
     res_bind (read_entity_master (so_basis so) cid) (\<lambda>master.
     res_bind (read_market_bars (so_basis so) cid) (\<lambda>bars.
     res_bind (read_candidate_signal_records cid (so_signal_port so)) (\<lambda>read.
       build_each
         (build_one so cid (get_multipliers cid (so_multipliers so))
            (candidate_signal_records_from_mapping cid (so_signals so) @ read))
         (latest_market_bars_by_entity bars) (active_entities master))))"

definition build_feature_signal_bundle :: "sources \<Rightarrow> string \<Rightarrow> core_error + feature_bundle" where
  "build_feature_signal_bundle so cid =
     res_bind (build_feature_signal_bundles so cid) (\<lambda>bs.
       case bs of
         [b] \<Rightarrow> Inr b
       | [] \<Rightarrow> Inl (L3FeatureError ''cycle produced no FeatureSignalBundle records'')
       | _ \<Rightarrow> Inl (L3FeatureError (''cycle produced multiple FeatureSignalBundle records; '' @
                ''call build_feature_signal_bundles for per-entity output'')))"

section \<open>The world state\<close>

datatype regime = Risk_Off | Neutral | Risk_On

definition regime_sequence :: "regime list" where
  "regime_sequence = [Risk_Off, Neutral, Risk_On]"

fun regime_name :: "regime \<Rightarrow> string" where
  "regime_name Risk_Off = ''risk_off''"
| "regime_name Neutral = ''neutral''"
| "regime_name Risk_On = ''risk_on''"

definition regime_index :: "regime \<Rightarrow> int" where
  "regime_index r = (case r of Risk_Off \<Rightarrow> 0 | Neutral \<Rightarrow> 1 | Risk_On \<Rightarrow> 2)"

record world_state =
  ws_cycle :: string
  ws_baseline :: regime
  ws_delta :: int
  ws_final :: regime
  ws_rationale :: string
  ws_model :: string
  ws_provider :: string
  ws_fallback_path :: "string list"

text \<open>The validator of \<open>WorldStateSnapshot\<close>; \<open>llm_delta\<close> is one of -1, 0 and 1 by its type.\<close>

definition validated_world_state :: "world_state \<Rightarrow> core_error + world_state" where
  "validated_world_state w =
     (let i = regime_index (ws_baseline w) + ws_delta w in
      if ws_delta w \<notin> {-1, 0, 1} \<or> i < 0 \<or> i \<ge> int (length regime_sequence)
         \<or> ws_final w \<noteq> regime_sequence ! nat i
      then Inl (Raised ValueError) else Inr w)"

record world_inputs =
  wi_cycle :: string
  wi_bundle :: feature_bundle
  wi_macro :: pydict
  wi_graph :: pydict

record delta_decision =
  dd_raw_delta :: int
  dd_rationale :: string
  dd_model :: string
  dd_provider :: string
  dd_fallback_path :: "string list"

subsection \<open>The default policy\<close>

definition explicit_baseline :: "pydict \<Rightarrow> string \<Rightarrow> core_error + regime option" where
  "explicit_baseline values source =
     (if \<not> dhas values ''baseline_regime'' then Inr None
      else case List.find (\<lambda>r. dget values ''baseline_regime'' = PStr (regime_name r)) regime_sequence of
          Some r \<Rightarrow> Inr (Some r)
        | None \<Rightarrow> Inl (WorldStatePolicyError
            (source @ ''.baseline_regime must be one of ('' @
             join_with '', '' (map (\<lambda>r. '' @ regime_name r @ '') regime_sequence) @ '')'')))"

definition baseline :: "world_inputs \<Rightarrow> core_error + regime" where
  "baseline inputs =
     res_bind (explicit_baseline (fb_signals (wi_bundle inputs)) ''signal_values'') (\<lambda>s.
       case s of
         Some r \<Rightarrow> Inr r
       | None \<Rightarrow>
           res_map (\<lambda>m. case m of Some r \<Rightarrow> r | None \<Rightarrow> Neutral)
             (explicit_baseline (wi_macro inputs) ''macro_context''))"

definition bound_delta :: "int \<Rightarrow> int" where
  "bound_delta raw = (if raw < 0 then -1 else if raw > 0 then 1 else 0)"

definition compose_regime :: "regime \<Rightarrow> int \<Rightarrow> core_error + regime" where
  "compose_regime r d =
     (let i = regime_index r + d in
      if i < 0 \<or> i \<ge> int (length regime_sequence)
      then Inl (WorldStatePolicyError ''baseline_regime + llm_delta is outside the regime sequence'')
      else Inr (regime_sequence ! nat i))"

definition load_graph_regime_context :: "string \<Rightarrow> graph_port option \<Rightarrow> core_error + pydict" where
  "load_graph_regime_context cid port =
     (case port of
        None \<Rightarrow> Inr []
      | Some p \<Rightarrow>
          res_bind (read_graph_regime_context p cid) (\<lambda>c.
            case c of
              None \<Rightarrow> Inr []
            | Some ctx \<Rightarrow>
                if rc_cycle ctx \<noteq> cid
                then Inl (GraphSnapshotError ''graph regime context contains records from a different cycle'')
                else Inr [(''snapshot_id'', PStr (rc_snapshot ctx)), (''regime_context'', PDict (rc_context ctx))]))"

definition derive_world_state ::
  "feature_bundle \<Rightarrow> (world_inputs \<Rightarrow> regime \<Rightarrow> core_error + delta_decision) \<Rightarrow> pydict \<Rightarrow> graph_port option \<Rightarrow>
   pydict \<Rightarrow> core_error + world_state" where
  "derive_world_state b propose_delta macro port graph_impact =
     res_bind (load_graph_regime_context (fb_cycle b) port) (\<lambda>ctx.
     let inputs = \<lparr>wi_cycle = fb_cycle b, wi_bundle = b, wi_macro = macro, wi_graph = merged graph_impact ctx\<rparr> in
     res_bind (baseline inputs) (\<lambda>base.
     res_bind
       (case propose_delta inputs base of
          Inl e \<Rightarrow> Inl (if is_main_core_error e then e else WorldStateReasonerError ''world-state reasoner failed'')
        | Inr d \<Rightarrow> Inr d) (\<lambda>d.
     res_bind (compose_regime base (bound_delta (dd_raw_delta d))) (\<lambda>final.
       validated_world_state
         \<lparr>ws_cycle = fb_cycle b, ws_baseline = base, ws_delta = bound_delta (dd_raw_delta d), ws_final = final,
          ws_rationale = dd_rationale d, ws_model = dd_model d, ws_provider = dd_provider d,
          ws_fallback_path = dd_fallback_path d\<rparr>))))"

text \<open>\<open>StaticWorldStateReasonerPort\<close>, the default port.\<close>

definition static_delta :: "world_inputs \<Rightarrow> regime \<Rightarrow> core_error + delta_decision" where
  "static_delta inputs base = Inr \<lparr>dd_raw_delta = 0, dd_rationale = ''static world-state delta'',
     dd_model = ''static_world_state_reasoner'', dd_provider = ''static'', dd_fallback_path = []\<rparr>"

section \<open>What the bundles hold\<close>

lemma validated_bundle_Inr: "validated_bundle b = Inr b' \<longleftrightarrow> b' = b \<and> list_all (\<lambda>(k, m). 0 < m) (fb_multipliers b)"
  by (auto simp: validated_bundle_def)

lemma read_market_bars_Inr:
  "read_market_bars port cid = Inr bars \<Longrightarrow> \<exists>rs. port_market_bars port cid = Inr rs \<and>
     bars = sort_key mb_entity (sort_key mb_as_of_date rs)"
  by (auto simp: read_market_bars_def res_bind_eq_Inr read_from_port_def split: sum.splits core_error.splits)

lemma keep_latest_map_of:
  "map_of (keep_latest b latest) k =
     (if k = mb_entity b \<and> (\<forall>p. map_of latest k = Some p \<longrightarrow> mb_as_of_date p < mb_as_of_date b)
      then Some b else map_of latest k)"
  by (auto simp: keep_latest_def map_of_dput split: option.splits)

text \<open>The latest bar of an entity: one of its bars, none of them younger.\<close>

lemma latest_fold:
  "map_of (fold keep_latest bars latest) k = Some b \<Longrightarrow>
   (map_of latest k = Some b \<or> b \<in> set bars \<and> mb_entity b = k) \<and>
   (\<forall>x \<in> set bars. mb_entity x = k \<longrightarrow> mb_as_of_date x \<le> mb_as_of_date b) \<and>
   (\<forall>p. map_of latest k = Some p \<longrightarrow> mb_as_of_date p \<le> mb_as_of_date b)"
proof (induction bars arbitrary: latest)
  case Nil
  then show ?case by simp
next
  case (Cons a bars)
  from Cons.IH [of "keep_latest a latest"] Cons.prems
  show ?case by (auto simp: keep_latest_map_of not_less split: if_splits intro: order.strict_implies_order order_trans)
qed

lemma latest_fold_None: "map_of (fold keep_latest bars latest) k = None \<longleftrightarrow>
    map_of latest k = None \<and> k \<notin> mb_entity ` set bars"
  by (induction bars arbitrary: latest) (auto simp: keep_latest_map_of)

definition latest_bar_of :: "market_bar list \<Rightarrow> string \<Rightarrow> market_bar \<Rightarrow> bool" where
  "latest_bar_of bars e b \<longleftrightarrow>
     b \<in> set bars \<and> mb_entity b = e \<and> (\<forall>x \<in> set bars. mb_entity x = e \<longrightarrow> mb_as_of_date x \<le> mb_as_of_date b)"

lemma latest_bar: "map_of (latest_market_bars_by_entity bars) e = Some b \<Longrightarrow> latest_bar_of bars e b"
  unfolding latest_market_bars_by_entity_def latest_bar_of_def by (drule latest_fold) simp

lemma latest_bar_exists:
  "map_of (latest_market_bars_by_entity bars) k \<noteq> None \<longleftrightarrow> k \<in> mb_entity ` set bars"
  by (simp add: latest_market_bars_by_entity_def latest_fold_None)

lemma build_each_Inr:
  "build_each build latest es = Inr bs \<Longrightarrow>
   list_all2 (\<lambda>e b. \<exists>bar. map_of latest e = Some bar \<and> build e bar = Inr b)
     (filter (\<lambda>e. map_of latest e \<noteq> None) es) bs"
  by (induction es arbitrary: bs) (auto simp: res_bind_eq_Inr res_map_eq_Inr split: option.splits)

text \<open>The signal values of a bundle the builder can make.\<close>

definition plain_signals :: "pydict \<Rightarrow> bool" where
  "plain_signals d \<longleftrightarrow> (\<forall>k. dhas d k \<longrightarrow> k = ''candidate_signals'')"

lemma plain_signals_Nil: "plain_signals []"
  by (simp add: plain_signals_def)

lemma plain_signals_put: "plain_signals d \<Longrightarrow> plain_signals (dput ''candidate_signals'' v d)"
  by (simp add: plain_signals_def dhas_dput)

lemma merge_candidate_signals_Inr:
  assumes "merge_candidate_signals b signals = Inr b'" and "plain_signals (fb_signals b)"
  shows "\<exists>d. b' = b\<lparr>fb_signals := d\<rparr> \<and> plain_signals d"
proof (cases "signals = []")
  case True
  with assms show ?thesis
    by (intro exI [of _ "fb_signals b"]) (simp add: merge_candidate_signals_def validated_bundle_Inr)
next
  case False
  with assms(1) obtain v where "b' = b\<lparr>fb_signals := dput ''candidate_signals'' v (fb_signals b)\<rparr>"
    by (auto simp: merge_candidate_signals_def validated_bundle_Inr split: if_splits pyval.splits)
  with plain_signals_put [OF assms(2)] show ?thesis by blast
qed

lemma build_one_Inr:
  assumes "build_one so cid multipliers records entity bar = Inr b"
  shows "fb_cycle b = cid \<and> fb_entity b = entity \<and> plain_signals (fb_signals b) \<and>
    (fb_features b, fb_multipliers b) = apply_feature_weight_multiplier (market_bar_feature_values bar) multipliers \<and>
    list_all (\<lambda>(k, m). 0 < m) (fb_multipliers b)"
proof -
  obtain features effective where fe:
    "apply_feature_weight_multiplier (market_bar_feature_values bar) multipliers = (features, effective)"
    by fastforce
  let ?b = "\<lparr>fb_cycle = cid, fb_entity = entity, fb_features = features, fb_signals = [],
        fb_graph = dlist (so_graph_impact so) entity, fb_multipliers = effective\<rparr>"
  from assms obtain g b1 signals where pos: "list_all (\<lambda>(k, m). 0 < m) effective"
    and b1: "(if g \<noteq> [] then merge_graph_features ?b (merged (fb_graph ?b) g) else Inr ?b) = Inr b1"
    and b: "(if signals \<noteq> [] then merge_candidate_signals b1 signals else Inr b1) = Inr b"
    by (auto simp: build_one_def fe res_bind_eq_Inr validated_bundle_Inr)
  from b1 obtain gr where g1: "b1 = ?b\<lparr>fb_graph := gr\<rparr>"
    by (auto simp: merge_graph_features_def validated_bundle_Inr split: if_splits)
  then have "plain_signals (fb_signals b1)" by (simp add: plain_signals_Nil)
  with b obtain d where "b = b1\<lparr>fb_signals := d\<rparr>" "plain_signals d"
  proof (cases "signals = []")
    case True
    with b that [of "fb_signals b1"] \<open>plain_signals (fb_signals b1)\<close> show ?thesis by simp
  next
    case False
    with b merge_candidate_signals_Inr [of b1 signals b] \<open>plain_signals (fb_signals b1)\<close> that show ?thesis by auto
  qed
  with g1 fe pos show ?thesis by simp
qed

text \<open>What the ports gave, what was read of it, and each bundle with the bar it was made of.\<close>

lemma builder_reads:
  assumes "build_feature_signal_bundles so cid = Inr bs"
  shows "\<exists>master bars records. port_entity_master (so_basis so) cid = Inr master \<and>
    port_market_bars (so_basis so) cid = Inr bars \<and>
    map fb_entity bs = sort (remdups (filter (\<lambda>e. e \<in> mb_entity ` set bars) (map em_entity (filter em_is_active master)))) \<and>
    list_all (\<lambda>b. \<exists>bar. latest_bar_of bars (fb_entity b) bar \<and>
       build_one so cid (get_multipliers cid (so_multipliers so)) records (fb_entity b) bar = Inr b) bs"
proof -
  let ?ms = "get_multipliers cid (so_multipliers so)"
  from assms obtain sorted_master sorted_bars records where
    m: "read_entity_master (so_basis so) cid = Inr sorted_master" and
    r: "read_market_bars (so_basis so) cid = Inr sorted_bars" and
    each: "build_each (build_one so cid ?ms records) (latest_market_bars_by_entity sorted_bars)
      (active_entities sorted_master) = Inr bs"
    by (auto simp: build_feature_signal_bundles_def res_bind_eq_Inr)
  from m obtain master where master: "port_entity_master (so_basis so) cid = Inr master"
    "sorted_master = sort_key em_entity master"
    by (auto simp: read_entity_master_def res_bind_eq_Inr read_from_port_def split: sum.splits core_error.splits)
  from read_market_bars_Inr [OF r] obtain bars where bars: "port_market_bars (so_basis so) cid = Inr bars"
    "sorted_bars = sort_key mb_entity (sort_key mb_as_of_date bars)" by blast
  have set_bars: "set sorted_bars = set bars" by (simp add: bars(2))
  then have same: "latest_bar_of sorted_bars = latest_bar_of bars" by (simp add: latest_bar_of_def fun_eq_iff)
  let ?es = "filter (\<lambda>e. map_of (latest_market_bars_by_entity sorted_bars) e \<noteq> None) (active_entities sorted_master)"
  have built: "list_all2 (\<lambda>e b. \<exists>bar. map_of (latest_market_bars_by_entity sorted_bars) e = Some bar \<and>
      build_one so cid ?ms records e bar = Inr b) ?es bs"
    by (rule build_each_Inr [OF each])
  then have "list_all2 (\<lambda>e b. e = fb_entity b \<and> (\<exists>bar. latest_bar_of bars (fb_entity b) bar \<and>
       build_one so cid ?ms records (fb_entity b) bar = Inr b)) ?es bs"
  proof (rule list_all2_mono)
    fix e b assume "\<exists>bar. map_of (latest_market_bars_by_entity sorted_bars) e = Some bar \<and>
      build_one so cid ?ms records e bar = Inr b"
    then obtain bar where "map_of (latest_market_bars_by_entity sorted_bars) e = Some bar"
      and one: "build_one so cid ?ms records e bar = Inr b" by blast
    from latest_bar [OF this(1)] have "latest_bar_of bars e bar" by (simp add: same)
    moreover have "e = fb_entity b" using build_one_Inr [OF one] by simp
    ultimately show "e = fb_entity b \<and> (\<exists>bar. latest_bar_of bars (fb_entity b) bar \<and>
       build_one so cid ?ms records (fb_entity b) bar = Inr b)" using one by blast
  qed
  then have "map fb_entity bs = ?es \<and> list_all (\<lambda>b. \<exists>bar. latest_bar_of bars (fb_entity b) bar \<and>
       build_one so cid ?ms records (fb_entity b) bar = Inr b) bs"
    by (induction rule: list_all2_induct) auto
  moreover have "?es = sort (remdups (filter (\<lambda>e. e \<in> mb_entity ` set bars) (map em_entity (filter em_is_active master))))"
    unfolding active_entities_def filter_sort latest_bar_exists set_bars master(2)
    by (rule sorted_distinct_set_unique) auto
  ultimately show ?thesis using master(1) bars(1) by auto
qed

lemma bundles_by_name: "build_feature_signal_bundles so cid = Inr bs \<Longrightarrow> sorted (map fb_entity bs)"
  by (drule builder_reads) auto

text \<open>
  The builder makes one bundle for every active entity that has a market bar and for no other, in the
  order of the entities; its features are those of a latest bar of the entity, each weighted with the
  multiplier of the cycle or 1, and all its multipliers are positive.
\<close>

theorem bundles_follow_the_market:
  assumes "build_feature_signal_bundles so cid = Inr bs"
  shows "\<exists>master bars. port_entity_master (so_basis so) cid = Inr master \<and>
    port_market_bars (so_basis so) cid = Inr bars \<and>
    map fb_entity bs = sort (remdups (filter (\<lambda>e. e \<in> mb_entity ` set bars) (map em_entity (filter em_is_active master)))) \<and>
    list_all (\<lambda>b. fb_cycle b = cid \<and> list_all (\<lambda>(k, m). 0 < m) (fb_multipliers b) \<and>
       (\<exists>bar. latest_bar_of bars (fb_entity b) bar \<and>
          fb_features b = map (\<lambda>(k, v). (k, v * multiplier_of (get_multipliers cid (so_multipliers so)) k))
            (market_bar_feature_values bar))) bs"
proof -
  let ?ms = "get_multipliers cid (so_multipliers so)"
  have shape: "fb_cycle b = cid \<and> list_all (\<lambda>(k, m). 0 < m) (fb_multipliers b) \<and>
      fb_features b = map (\<lambda>(k, v). (k, v * multiplier_of ?ms k)) (market_bar_feature_values bar)"
    if "build_one so cid ?ms records (fb_entity b) bar = Inr b" for b bar records
  proof -
    note one = build_one_Inr [OF that]
    then have "fb_features b = map (\<lambda>(k, v). (k, v * multiplier_of ?ms k)) (market_bar_feature_values bar)"
      by (simp add: apply_feature_weight_multiplier_def)
    with one show ?thesis by blast
  qed
  from builder_reads [OF assms] obtain master bars records where ports:
    "port_entity_master (so_basis so) cid = Inr master" "port_market_bars (so_basis so) cid = Inr bars"
    "map fb_entity bs = sort (remdups (filter (\<lambda>e. e \<in> mb_entity ` set bars) (map em_entity (filter em_is_active master))))"
    and each: "list_all (\<lambda>b. \<exists>bar. latest_bar_of bars (fb_entity b) bar \<and>
       build_one so cid ?ms records (fb_entity b) bar = Inr b) bs"
    by blast
  have "list_all (\<lambda>b. fb_cycle b = cid \<and> list_all (\<lambda>(k, m). 0 < m) (fb_multipliers b) \<and>
       (\<exists>bar. latest_bar_of bars (fb_entity b) bar \<and>
          fb_features b = map (\<lambda>(k, v). (k, v * multiplier_of ?ms k)) (market_bar_feature_values bar))) bs"
    by (rule list.pred_mono_strong [OF each]) (use shape in blast)
  with ports show ?thesis by blast
qed

definition ex_bar :: "string \<Rightarrow> int \<Rightarrow> real \<Rightarrow> market_bar" where
  "ex_bar entity day close = \<lparr>mb_cycle = ''C'', mb_entity = entity, mb_as_of_date = day, mb_close_price = close,
     mb_volume = 100, mb_return_1d = None\<rparr>"

definition ex_sources :: sources where
  "ex_sources = \<lparr>so_basis = \<lparr>port_market_bars = (\<lambda>_. Inr [ex_bar ''A'' 1 10, ex_bar ''B'' 1 5, ex_bar ''A'' 2 11]),
       port_calendar = (\<lambda>_. Inr []),
       port_entity_master = (\<lambda>_. Inr [\<lparr>em_entity = ''B'', em_ticker = ''b'', em_is_active = False\<rparr>,
         \<lparr>em_entity = ''A'', em_ticker = ''a'', em_is_active = True\<rparr>])\<rparr>,
     so_multipliers = [(''C'', [(''volume'', 2)])], so_graph = None, so_graph_impact = [],
     so_signals = [(''A'', [(''sentiment'', PFloat 3)])], so_signal_port = None\<rparr>"

definition ex_bundle :: feature_bundle where
  "ex_bundle = \<lparr>fb_cycle = ''C'', fb_entity = ''A'', fb_features = [(''close_price'', 11), (''volume'', 200)],
     fb_signals = [(''candidate_signals'', PDict [(''sentiment'', PDict [(''raw_value'', PFloat 3),
       (''adjusted_value'', PFloat 3), (''source'', PStr ''layer_b''), (''confidence'', PNone),
       (''metadata'', PDict [])])])], fb_graph = [], fb_multipliers = [(''close_price'', 1), (''volume'', 2)]\<rparr>"

lemma ex_built: "build_feature_signal_bundles ex_sources ''C'' = Inr [ex_bundle]"
  by code_simp

theorem bundles_follow_the_market_witness:
  "\<exists>bar. mb_as_of_date bar = 2 \<and> fb_features ex_bundle =
     map (\<lambda>(k, v). (k, v * multiplier_of [(''volume'', 2)] k)) (market_bar_feature_values bar)"
  using bundles_follow_the_market [OF ex_built]
  by (auto simp: latest_bar_of_def ex_sources_def ex_bundle_def ex_bar_def get_multipliers_def dlist_def)
    (rule exI [of _ "ex_bar ''A'' 2 11"], simp add: ex_bar_def market_bar_feature_values_def multiplier_of_def)

section \<open>What the world state is\<close>

lemma bound_delta_sgn: "bound_delta raw = sgn raw"
  by (simp add: bound_delta_def)

lemma regime_sequence_index: "regime_sequence ! nat (regime_index r) = r"
  by (cases r) (simp_all add: regime_sequence_def regime_index_def)

lemma regime_index_sequence: "0 \<le> i \<Longrightarrow> i < 3 \<Longrightarrow> regime_index (regime_sequence ! nat i) = i"
  by (cases "i = 0"; cases "i = 1"; cases "i = 2") (simp_all add: regime_sequence_def regime_index_def)

lemma regime_index_range: "0 \<le> regime_index r \<and> regime_index r < 3"
  by (cases r) (simp_all add: regime_index_def)

definition saturated :: "regime \<Rightarrow> int \<Rightarrow> bool" where
  "saturated r raw \<longleftrightarrow> r = Risk_Off \<and> raw < 0 \<or> r = Risk_On \<and> 0 < raw"

lemma compose_regime_cases:
  "if saturated r raw
   then compose_regime r (sgn raw) = Inl (WorldStatePolicyError ''baseline_regime + llm_delta is outside the regime sequence'')
   else \<exists>final. compose_regime r (sgn raw) = Inr final \<and> regime_index final = regime_index r + sgn raw \<and>
     final = regime_sequence ! nat (regime_index r + sgn raw)"
proof (cases "saturated r raw")
  case True
  then show ?thesis by (auto simp: saturated_def compose_regime_def regime_index_def regime_sequence_def)
next
  case False
  then have "0 \<le> regime_index r + sgn raw" "regime_index r + sgn raw < 3"
    by (cases r; auto simp: saturated_def regime_index_def sgn_if)+
  with False show ?thesis
    by (simp add: compose_regime_def regime_index_sequence) (simp add: regime_sequence_def)
qed

text \<open>
  A world state is at most one step of the regime away from its baseline, in the direction of the
  reasoner, and the snapshot is always valid; a reasoner that leans beyond the end of the sequence makes
  the derivation fail, it is not ignored.
\<close>

theorem world_state_moves_one_step:
  assumes "load_graph_regime_context (fb_cycle b) port = Inr ctx"
    and "inputs = \<lparr>wi_cycle = fb_cycle b, wi_bundle = b, wi_macro = macro, wi_graph = merged impact ctx\<rparr>"
    and "baseline inputs = Inr base" and "propose_delta inputs base = Inr d"
  shows "if saturated base (dd_raw_delta d)
    then derive_world_state b propose_delta macro port impact =
      Inl (WorldStatePolicyError ''baseline_regime + llm_delta is outside the regime sequence'')
    else \<exists>w. derive_world_state b propose_delta macro port impact = Inr w \<and> ws_cycle w = fb_cycle b \<and>
      ws_baseline w = base \<and> ws_delta w = sgn (dd_raw_delta d) \<and>
      regime_index (ws_final w) = regime_index base + sgn (dd_raw_delta d)"
proof -
  let ?r = "dd_raw_delta d"
  have run: "derive_world_state b propose_delta macro port impact =
      res_bind (compose_regime base (sgn ?r)) (\<lambda>final. validated_world_state
        \<lparr>ws_cycle = fb_cycle b, ws_baseline = base, ws_delta = sgn ?r, ws_final = final,
         ws_rationale = dd_rationale d, ws_model = dd_model d, ws_provider = dd_provider d,
         ws_fallback_path = dd_fallback_path d\<rparr>)"
    using assms by (simp add: derive_world_state_def bound_delta_sgn)
  show ?thesis
  proof (cases "saturated base ?r")
    case True
    with compose_regime_cases [of base ?r] show ?thesis by (simp add: run)
  next
    case False
    with compose_regime_cases [of base ?r] obtain final where final: "compose_regime base (sgn ?r) = Inr final"
      "regime_index final = regime_index base + sgn ?r" "final = regime_sequence ! nat (regime_index base + sgn ?r)"
      by auto
    have "sgn ?r \<in> {-1, 0, 1}" by (simp add: sgn_if)
    with False final(2,3) regime_index_range [of final] show ?thesis
      by (simp add: run final(1) validated_world_state_def Let_def) (simp add: regime_sequence_def)
  qed
qed

theorem world_state_moves_one_step_witness:
  "\<exists>w. derive_world_state ex_bundle static_delta [(''baseline_regime'', PStr ''risk_off'')] None [] = Inr w \<and>
     ws_final w = Risk_Off"
proof -
  let ?macro = "[(''baseline_regime'', PStr ''risk_off'')]"
  let ?inputs = "\<lparr>wi_cycle = ''C'', wi_bundle = ex_bundle, wi_macro = ?macro, wi_graph = []\<rparr>"
  have "baseline ?inputs = Inr Risk_Off" by code_simp
  from world_state_moves_one_step [of ex_bundle None "[]" ?inputs ?macro "[]" Risk_Off static_delta, OF _ _ this]
  obtain w where "derive_world_state ex_bundle static_delta ?macro None [] = Inr w" "regime_index (ws_final w) = 0"
    by (auto simp: load_graph_regime_context_def merged_def ex_bundle_def static_delta_def saturated_def regime_index_def)
  then show ?thesis by (cases "ws_final w") (auto simp: regime_index_def)
qed

end
