(* ===== verification/Universe.thy ===== *)
theory Universe
  imports MainCore "HOL-Library.Product_Lexorder"
begin

text \<open>
  The official pool of \<open>main-core\<close>: \<open>l5_universe/{types,rules,freezer,service,mvp20}.py\<close>. A pool takes
  the frozen entities first and fills up with the best candidates; the fixed decision pool of MVP20
  freezes its twenty manifest targets.
\<close>

section \<open>Configuration and pools\<close>

definition max_official_alpha_pool_capacity :: int where
  "max_official_alpha_pool_capacity = 100"

record pool_config =
  pc_capacity :: int
  pc_observation_limit :: "int option"
  pc_min_score :: "real option"

definition new_pool_config :: "int \<Rightarrow> int option \<Rightarrow> real option \<Rightarrow> core_error + pool_config" where
  "new_pool_config capacity limit min_score =
     (if \<not> (1 \<le> capacity \<and> capacity \<le> max_official_alpha_pool_capacity)
      then Inl (MainCoreError ''official_alpha_pool_capacity must be between 1 and 100'')
      else if (case limit of None \<Rightarrow> False | Some l \<Rightarrow> l < 0)
      then Inl (MainCoreError ''observation_limit must be a non-negative integer'')
      else Inr \<lparr>pc_capacity = capacity, pc_observation_limit = limit, pc_min_score = min_score\<rparr>)"

record pool =
  po_cycle :: string
  po_observation_size :: nat
  po_capacity :: int
  po_selected :: "string list"
  po_added :: "string list"
  po_removed :: "string list"
  po_frozen :: "(string \<times> string) list"

text \<open>The bounds of the fields and the validator of \<open>OfficialAlphaPool\<close>.\<close>

definition validated_pool :: "pool \<Rightarrow> core_error + pool" where
  "validated_pool p =
     (if \<not> (1 \<le> po_capacity p \<and> po_capacity p \<le> 100)
         \<or> int (length (po_selected p)) > po_capacity p
         \<or> length (po_selected p) > po_observation_size p
         \<or> \<not> fst ` set (po_frozen p) \<subseteq> set (po_selected p)
      then Inl (Raised ValueError) else Inr p)"

section \<open>Scores and ranks\<close>

definition score_candidate :: "feature_bundle \<Rightarrow> core_error + real" where
  "score_candidate b =
     (if dhas (fb_signals b) ''candidate_score''
      then (case py_float (dget (fb_signals b) ''candidate_score'') of Inl e \<Rightarrow> Inl (Raised e) | Inr x \<Rightarrow> Inr x)
      else case map_of (fb_features b) ''alpha_score'' of
          Some x \<Rightarrow> Inr x
        | None \<Rightarrow> Inr (case map_of (fb_features b) ''momentum'' of Some x \<Rightarrow> x | None \<Rightarrow> 0))"

definition rank_candidates :: "feature_bundle list \<Rightarrow> pool_config \<Rightarrow> core_error + feature_bundle list" where
  "rank_candidates bs c =
     res_map (\<lambda>scored.
         let kept = (case pc_min_score c of None \<Rightarrow> scored | Some m \<Rightarrow> filter (\<lambda>(s, b). m \<le> s) scored);
             ranked = map snd (sort_key (\<lambda>(s, b). (- s, fb_entity b)) kept)
         in case pc_observation_limit c of None \<Rightarrow> ranked | Some l \<Rightarrow> take (nat l) ranked)
       (res_list (\<lambda>b. res_map (\<lambda>s. (s, b)) (score_candidate b)) bs)"

section \<open>Frozen entities\<close>

definition set_default :: "'k \<times> 'v \<Rightarrow> ('k \<times> 'v) list \<Rightarrow> ('k \<times> 'v) list" where
  "set_default kv d = (if dhas d (fst kv) then d else dput (fst kv) (snd kv) d)"

definition carry_frozen :: "(string \<times> string) list \<Rightarrow> string \<Rightarrow> (string \<times> string) list \<Rightarrow> (string \<times> string) list" where
  "carry_frozen previous e d = (case map_of previous e of None \<Rightarrow> d | Some r \<Rightarrow> dput e r d)"

definition merge_frozen_entities :: "pool option \<Rightarrow> (string \<times> string) list \<Rightarrow> (string \<times> string) list" where
  "merge_frozen_entities previous frozen =
     fold set_default frozen
       (case previous of
          None \<Rightarrow> []
        | Some p \<Rightarrow>
            fold set_default (sort_key fst (po_frozen p))
              (fold (carry_frozen (po_frozen p)) (po_selected p) []))"

definition ensure_frozen_entities_fit_capacity :: "(string \<times> string) list \<Rightarrow> int \<Rightarrow> core_error + unit" where
  "ensure_frozen_entities_fit_capacity frozen capacity =
     (if int (length frozen) > capacity
      then Inl (MainCoreError ''frozen entity count exceeds official_alpha_pool_capacity'') else Inr ())"

section \<open>The selection\<close>

fun validate_bundles :: "string \<Rightarrow> feature_bundle list \<Rightarrow> string list \<Rightarrow> core_error + unit" where
  "validate_bundles cid [] seen = Inr ()"
| "validate_bundles cid (b # bs) seen =
     (if fb_cycle b \<noteq> cid then Inl (MainCoreError ''bundle cycle_id must match world_state.cycle_id'')
      else if fb_entity b \<in> set seen
      then Inl (MainCoreError ''duplicate entity_id in FeatureSignalBundle input'')
      else validate_bundles cid bs (fb_entity b # seen))"

definition validate_selection_inputs :: "world_state \<Rightarrow> feature_bundle list \<Rightarrow> core_error + string list" where
  "validate_selection_inputs ws bs =
     (if bs = [] then Inl (MainCoreError ''bundles must not be empty'')
      else res_map (\<lambda>_. map fb_entity bs) (validate_bundles (ws_cycle ws) bs []))"

definition ensure_frozen_entities_have_current_bundles ::
  "(string \<times> string) list \<Rightarrow> string list \<Rightarrow> core_error + unit" where
  "ensure_frozen_entities_have_current_bundles frozen current =
     (let missing = sort (filter (\<lambda>e. e \<notin> set current) (map fst frozen)) in
      if missing \<noteq> []
      then Inl (MainCoreError (''frozen entities must be present in current FeatureSignalBundle input: '' @
             join_with '', '' missing))
      else Inr ())"

definition append_if_room :: "int \<Rightarrow> string \<Rightarrow> string list \<Rightarrow> string list" where
  "append_if_room capacity e chosen =
     (if e \<in> set chosen \<or> int (length chosen) \<ge> capacity then chosen else chosen @ [e])"

definition select_entities :: "feature_bundle list \<Rightarrow> (string \<times> string) list \<Rightarrow> int \<Rightarrow> string list" where
  "select_entities candidates frozen capacity =
     fold (append_if_room capacity) (map fb_entity candidates)
       (fold (append_if_room capacity) (map fst frozen) [])"

definition count_eligible_entities :: "feature_bundle list \<Rightarrow> (string \<times> string) list \<Rightarrow> nat" where
  "count_eligible_entities candidates frozen = card (set (map fb_entity candidates @ map fst frozen))"

definition diff_selected_entities :: "pool option \<Rightarrow> string list \<Rightarrow> string list \<times> string list" where
  "diff_selected_entities previous selected =
     (case previous of
        None \<Rightarrow> (selected, [])
      | Some p \<Rightarrow> (filter (\<lambda>e. e \<notin> set (po_selected p)) selected,
          filter (\<lambda>e. e \<notin> set selected) (po_selected p)))"

definition select_official_alpha_pool ::
  "world_state \<Rightarrow> feature_bundle list \<Rightarrow> pool option \<Rightarrow> int \<Rightarrow> (string \<times> string) list \<Rightarrow> pool_config option \<Rightarrow>
   core_error + pool" where
  "select_official_alpha_pool ws bs previous capacity frozen config =
     res_bind (case config of Some c \<Rightarrow> Inr c | None \<Rightarrow> new_pool_config capacity None None) (\<lambda>c.
     res_bind (validate_selection_inputs ws bs) (\<lambda>current.
     let reasons = merge_frozen_entities previous frozen in
     res_bind (ensure_frozen_entities_have_current_bundles reasons current) (\<lambda>_.
     res_bind (ensure_frozen_entities_fit_capacity reasons (pc_capacity c)) (\<lambda>_.
     res_bind (rank_candidates bs c) (\<lambda>candidates.
     let selected = select_entities candidates reasons (pc_capacity c);
         (added, removed) = diff_selected_entities previous selected
     in validated_pool \<lparr>po_cycle = ws_cycle ws, po_observation_size = count_eligible_entities candidates reasons,
          po_capacity = pc_capacity c, po_selected = selected, po_added = added, po_removed = removed,
          po_frozen = reasons\<rparr>)))))"

section \<open>The decision pool of MVP20\<close>

definition mvp20_decision_pool_capacity :: nat where
  "mvp20_decision_pool_capacity = 20"

record mvp20_spec =
  sp_targets :: "string list"
  sp_reason :: string

fun normalize_each :: "string list \<Rightarrow> string list \<Rightarrow> core_error + string list" where
  "normalize_each [] done = Inr done"
| "normalize_each (e # es) done =
     (let v = py_strip e in
      if v = [] then Inl (MainCoreError ''manifest_targets must contain non-empty entity_id'')
      else if v \<in> set done then Inl (MainCoreError ''manifest_targets must not contain duplicate entity_id'')
      else normalize_each es (done @ [v]))"

definition normalize_manifest_targets :: "string list \<Rightarrow> core_error + string list" where
  "normalize_manifest_targets targets =
     res_bind (normalize_each targets []) (\<lambda>ts.
       if length ts \<noteq> mvp20_decision_pool_capacity
       then Inl (MainCoreError ''mvp20 decision pool requires exactly 20 manifest_targets'') else Inr ts)"

definition new_mvp20_spec :: "string list \<Rightarrow> string \<Rightarrow> core_error + mvp20_spec" where
  "new_mvp20_spec targets reason =
     res_bind (normalize_manifest_targets targets) (\<lambda>ts.
       if py_strip reason = [] then Inl (MainCoreError ''target_freeze_reason must be a non-empty string'')
       else Inr \<lparr>sp_targets = ts, sp_reason = reason\<rparr>)"

definition spec_frozen_entities :: "mvp20_spec \<Rightarrow> (string \<times> string) list" where
  "spec_frozen_entities s = fold (\<lambda>e. dput e (sp_reason s)) (sp_targets s) []"

fun current_bundle_by_entity ::
  "string \<Rightarrow> feature_bundle list \<Rightarrow> (string \<times> feature_bundle) list \<Rightarrow>
   core_error + (string \<times> feature_bundle) list" where
  "current_bundle_by_entity cid [] d = Inr d"
| "current_bundle_by_entity cid (b # bs) d =
     (if fb_cycle b \<noteq> cid then Inl (MainCoreError ''bundle cycle_id must match world_state.cycle_id'')
      else if dhas d (fb_entity b)
      then Inl (MainCoreError ''duplicate entity_id in FeatureSignalBundle input'')
      else current_bundle_by_entity cid bs (dput (fb_entity b) b d))"

definition target_bundles :: "mvp20_spec \<Rightarrow> (string \<times> feature_bundle) list \<Rightarrow> core_error + feature_bundle list" where
  "target_bundles s d =
     (let missing = filter (\<lambda>e. \<not> dhas d e) (sp_targets s) in
      if missing \<noteq> []
      then Inl (MainCoreError (''manifest_targets must be present in current FeatureSignalBundle input: '' @
             join_with '', '' missing))
      else Inr (map (\<lambda>e. the (map_of d e)) (sp_targets s)))"

text \<open>\<open>_resolve_spec\<close>: a finished specification is taken as it is.\<close>

definition resolve_spec :: "string list + mvp20_spec \<Rightarrow> string \<Rightarrow> core_error + mvp20_spec" where
  "resolve_spec targets reason = (case targets of Inr s \<Rightarrow> Inr s | Inl ts \<Rightarrow> new_mvp20_spec ts reason)"

definition select_mvp20_decision_pool ::
  "world_state \<Rightarrow> feature_bundle list \<Rightarrow> string list + mvp20_spec \<Rightarrow> string \<Rightarrow> core_error + pool" where
  "select_mvp20_decision_pool ws bs targets reason =
     res_bind (resolve_spec targets reason) (\<lambda>s.
     res_bind (current_bundle_by_entity (ws_cycle ws) bs []) (\<lambda>d.
     res_bind (target_bundles s d) (\<lambda>tbs.
     res_bind (new_pool_config (int mvp20_decision_pool_capacity) (Some (int mvp20_decision_pool_capacity)) None) (\<lambda>c.
       select_official_alpha_pool ws tbs None 100 (spec_frozen_entities s) (Some c)))))"

section \<open>Ranking\<close>

definition score_of :: "feature_bundle \<Rightarrow> real" where
  "score_of b = (case score_candidate b of Inr x \<Rightarrow> x | Inl _ \<Rightarrow> 0)"

definition limited :: "int option \<Rightarrow> 'a list \<Rightarrow> 'a list" where
  "limited l xs = (case l of None \<Rightarrow> xs | Some n \<Rightarrow> take (nat n) xs)"

definition best_first :: "pool_config \<Rightarrow> feature_bundle list \<Rightarrow> feature_bundle list" where
  "best_first c bs = limited (pc_observation_limit c)
     (sort_key (\<lambda>b. (- score_of b, fb_entity b))
       (filter (\<lambda>b. case pc_min_score c of None \<Rightarrow> True | Some m \<Rightarrow> m \<le> score_of b) bs))"

lemma score_all: "\<forall>b \<in> set bs. returns (score_candidate b) \<Longrightarrow>
    res_list (\<lambda>b. res_map (\<lambda>s. (s, b)) (score_candidate b)) bs = Inr (map (\<lambda>b. (score_of b, b)) bs)"
  by (induction bs) (auto simp: returns_iff score_of_def)

lemma rank_candidates_eq:
  assumes "\<forall>b \<in> set bs. returns (score_candidate b)"
  shows "rank_candidates bs c = Inr (best_first c bs)"
proof (cases "pc_min_score c")
  case None
  then show ?thesis
    by (simp add: rank_candidates_def score_all [OF assms] best_first_def limited_def sort_key_map o_def
        split: option.splits)
next
  case (Some m)
  then show ?thesis
    by (simp add: rank_candidates_def score_all [OF assms] best_first_def limited_def sort_key_map o_def filter_map
        split: option.splits)
qed

lemma rank_candidates_fails: "\<not> (\<forall>b \<in> set bs. returns (score_candidate b)) \<Longrightarrow> \<exists>e. rank_candidates bs c = Inl e"
  using res_list_returns [of "\<lambda>b. res_map (\<lambda>s. (s, b)) (score_candidate b)" bs]
  by (cases "res_list (\<lambda>b. res_map (\<lambda>s. (s, b)) (score_candidate b)) bs") (auto simp: rank_candidates_def)

lemma set_best_first: "set (best_first c bs) \<subseteq> set bs"
  by (auto simp: best_first_def limited_def dest: in_set_takeD split: option.splits)

lemma distinct_best_first: "distinct (map fb_entity bs) \<Longrightarrow> distinct (map fb_entity (best_first c bs))"
proof -
  assume d: "distinct (map fb_entity bs)"
  have "distinct (map fb_entity (sort_key f (filter P bs)))" for f :: "feature_bundle \<Rightarrow> real \<times> string" and P
    using d by (simp add: distinct_map inj_on_subset [of fb_entity "set bs"])
  then show ?thesis
    by (auto simp: best_first_def limited_def take_map [symmetric] split: option.splits)
qed

section \<open>Frozen entities\<close>

lemma set_default_wf: "dict_wf d \<Longrightarrow> dict_wf (set_default kv d)"
  by (simp add: set_default_def)

lemma set_defaults_wf: "dict_wf d \<Longrightarrow> dict_wf (fold set_default kvs d)"
  by (induction kvs arbitrary: d) (auto simp: set_default_wf)

lemma map_of_set_default:
  "map_of (set_default kv d) k = (case map_of d k of Some v \<Rightarrow> Some v | None \<Rightarrow> if fst kv = k then Some (snd kv) else None)"
  by (auto simp: set_default_def dhas_def map_of_dput split: option.splits)

lemma map_of_set_defaults:
  "map_of (fold set_default kvs d) k = (case map_of d k of Some v \<Rightarrow> Some v | None \<Rightarrow> map_of kvs k)"
  by (induction kvs arbitrary: d) (auto simp: map_of_set_default split: option.splits)

lemma carry_wf: "dict_wf d \<Longrightarrow> dict_wf (fold (carry_frozen previous) es d)"
  by (induction es arbitrary: d) (auto simp: carry_frozen_def split: option.splits)

lemma map_of_carry:
  "map_of (fold (carry_frozen previous) es d) k =
     (if k \<in> set es \<and> map_of previous k \<noteq> None then map_of previous k else map_of d k)"
  by (induction es arbitrary: d) (auto simp: carry_frozen_def map_of_dput split: option.splits)

lemma merge_frozen_wf: "dict_wf (merge_frozen_entities previous frozen)"
  by (auto simp: merge_frozen_entities_def intro!: set_defaults_wf carry_wf split: option.splits)

lemma map_of_sort_key: "dict_wf d \<Longrightarrow> map_of (sort_key fst d) = map_of d"
  by (rule map_of_inject_set [THEN iffD2]) (simp_all add: dict_wf_def distinct_map)

text \<open>A reason given before wins over a new one.\<close>

lemma map_of_merge_frozen:
  assumes "\<And>p. previous = Some p \<Longrightarrow> dict_wf (po_frozen p)"
  shows "map_of (merge_frozen_entities previous frozen) k =
    (case previous of
       None \<Rightarrow> map_of frozen k
     | Some p \<Rightarrow> (case map_of (po_frozen p) k of Some r \<Rightarrow> Some r | None \<Rightarrow> map_of frozen k))"
  using assms
  by (auto simp: merge_frozen_entities_def map_of_set_defaults map_of_carry map_of_sort_key split: option.splits)

section \<open>Filling up\<close>

lemma fill_up:
  "distinct es \<Longrightarrow> length chosen \<le> n \<Longrightarrow>
   fold (append_if_room (int n)) es chosen = chosen @ take (n - length chosen) (filter (\<lambda>e. e \<notin> set chosen) es)"
proof (induction es arbitrary: chosen)
  case Nil
  then show ?case by simp
next
  case (Cons e es)
  show ?case
  proof (cases "e \<in> set chosen \<or> length chosen = n")
    case True
    with Cons show ?thesis by (auto simp: append_if_room_def)
  next
    case False
    then have "length chosen < n" "e \<notin> set chosen" using Cons.prems by auto
    moreover have "filter (\<lambda>x. x \<notin> set (chosen @ [e])) es = filter (\<lambda>x. x \<notin> set chosen) es"
      using Cons.prems by (intro filter_cong) auto
    moreover from \<open>length chosen < n\<close> have "n - length chosen = Suc (n - Suc (length chosen))" by simp
    ultimately show ?thesis using Cons.IH [of "chosen @ [e]"] Cons.prems by (simp add: append_if_room_def)
  qed
qed

lemma select_entities_eq:
  assumes "distinct (map fst frozen)" and "length frozen \<le> n" and "distinct (map fb_entity candidates)"
  shows "select_entities candidates frozen (int n) =
    map fst frozen @ take (n - length frozen) (filter (\<lambda>e. e \<notin> fst ` set frozen) (map fb_entity candidates))"
  using fill_up [of "map fst frozen" "[]" n] fill_up [of "map fb_entity candidates" "map fst frozen" n] assms
  by (simp add: select_entities_def)

lemma validate_bundles_Inr:
  "validate_bundles cid bs seen = Inr () \<longleftrightarrow>
   (\<forall>b \<in> set bs. fb_cycle b = cid) \<and> distinct (map fb_entity bs) \<and> set seen \<inter> fb_entity ` set bs = {}"
  by (induction bs arbitrary: seen) auto

section \<open>The pool\<close>

definition valid_config :: "pool_config \<Rightarrow> bool" where
  "valid_config c \<longleftrightarrow> 1 \<le> pc_capacity c \<and> pc_capacity c \<le> 100 \<and>
     (case pc_observation_limit c of None \<Rightarrow> True | Some l \<Rightarrow> 0 \<le> l)"

lemma new_pool_config_valid: "new_pool_config cap limit m = Inr c \<Longrightarrow> valid_config c"
  by (auto simp: new_pool_config_def valid_config_def max_official_alpha_pool_capacity_def split: if_splits option.splits)

text \<open>What the service asks of its inputs.\<close>

definition selectable :: "world_state \<Rightarrow> feature_bundle list \<Rightarrow> (string \<times> string) list \<Rightarrow> pool_config \<Rightarrow> bool" where
  "selectable ws bs reasons c \<longleftrightarrow>
     bs \<noteq> [] \<and> (\<forall>b \<in> set bs. fb_cycle b = ws_cycle ws) \<and> distinct (map fb_entity bs) \<and>
     fst ` set reasons \<subseteq> fb_entity ` set bs \<and> int (length reasons) \<le> pc_capacity c \<and>
     (\<forall>b \<in> set bs. returns (score_candidate b))"

definition chosen_entities :: "feature_bundle list \<Rightarrow> (string \<times> string) list \<Rightarrow> pool_config \<Rightarrow> string list" where
  "chosen_entities bs reasons c =
     map fst reasons @ take (nat (pc_capacity c) - length reasons)
       (filter (\<lambda>e. e \<notin> fst ` set reasons) (map fb_entity (best_first c bs)))"

lemma chosen_entities_distinct:
  assumes "dict_wf reasons" and "distinct (map fb_entity bs)"
  shows "distinct (chosen_entities bs reasons c)"
proof -
  let ?more = "filter (\<lambda>e. e \<notin> fst ` set reasons) (map fb_entity (best_first c bs))"
  have "set ?more \<inter> fst ` set reasons = {}" by auto
  then have "set (take n ?more) \<inter> fst ` set reasons = {}" for n
    using set_take_subset [of n ?more] by blast
  with assms distinct_best_first [OF assms(2), of c] show ?thesis
    by (auto simp: chosen_entities_def dict_wf_def)
qed

lemma chosen_entities_length: "int (length reasons) \<le> pc_capacity c \<Longrightarrow> int (length (chosen_entities bs reasons c)) \<le> pc_capacity c"
  by (simp add: chosen_entities_def)

lemma chosen_entities_eligible:
  "set (chosen_entities bs reasons c) \<subseteq> set (map fb_entity (best_first c bs) @ map fst reasons)"
  by (auto simp: chosen_entities_def dest: in_set_takeD)

lemma chosen_entities_current:
  assumes "fst ` set reasons \<subseteq> fb_entity ` set bs"
  shows "set (chosen_entities bs reasons c) \<subseteq> fb_entity ` set bs"
proof -
  have "fb_entity ` set (best_first c bs) \<subseteq> fb_entity ` set bs" by (rule image_mono [OF set_best_first])
  with assms chosen_entities_eligible [of bs reasons c] show ?thesis by (simp add: subset_iff) blast
qed

text \<open>The pool that the service makes of valid inputs.\<close>

definition ideal_pool ::
  "world_state \<Rightarrow> feature_bundle list \<Rightarrow> pool option \<Rightarrow> (string \<times> string) list \<Rightarrow> pool_config \<Rightarrow> pool" where
  "ideal_pool ws bs previous reasons c =
     \<lparr>po_cycle = ws_cycle ws, po_observation_size = count_eligible_entities (best_first c bs) reasons,
      po_capacity = pc_capacity c, po_selected = chosen_entities bs reasons c,
      po_added = fst (diff_selected_entities previous (chosen_entities bs reasons c)),
      po_removed = snd (diff_selected_entities previous (chosen_entities bs reasons c)), po_frozen = reasons\<rparr>"

lemma ideal_pool_valid:
  assumes "valid_config c" and "dict_wf reasons" and "selectable ws bs reasons c"
  shows "validated_pool (ideal_pool ws bs previous reasons c) = Inr (ideal_pool ws bs previous reasons c)"
proof -
  let ?p = "ideal_pool ws bs previous reasons c"
  have d: "distinct (chosen_entities bs reasons c)"
    using assms by (intro chosen_entities_distinct) (simp_all add: selectable_def)
  have "length (chosen_entities bs reasons c) = card (set (chosen_entities bs reasons c))"
    using d by (rule distinct_card [symmetric])
  also have "\<dots> \<le> count_eligible_entities (best_first c bs) reasons"
    unfolding count_eligible_entities_def by (rule card_mono [OF _ chosen_entities_eligible]) simp
  finally have size: "length (po_selected ?p) \<le> po_observation_size ?p" by (simp add: ideal_pool_def)
  have "int (length (po_selected ?p)) \<le> po_capacity ?p"
    using assms by (simp add: ideal_pool_def selectable_def chosen_entities_length)
  moreover have "fst ` set (po_frozen ?p) \<subseteq> set (po_selected ?p)" by (auto simp: ideal_pool_def chosen_entities_def)
  moreover have "1 \<le> po_capacity ?p \<and> po_capacity ?p \<le> 100" using assms by (simp add: ideal_pool_def valid_config_def)
  ultimately show ?thesis using size by (simp add: validated_pool_def)
qed

lemma sort_empty: "sort_key f xs = [] \<longleftrightarrow> xs = []"
  by (metis length_0_conv length_sort)

lemma missing_iff: "ensure_frozen_entities_have_current_bundles reasons current = Inr () \<longleftrightarrow>
    fst ` set reasons \<subseteq> set current"
  by (auto simp: ensure_frozen_entities_have_current_bundles_def Let_def filter_empty_conv sort_empty)

lemma unit_result: "(\<exists>e. r = Inl e) \<or> r = Inr ()" for r :: "core_error + unit"
  by (cases r) auto

lemma select_pool_cases:
  fixes previous :: "pool option" and frozen :: "(string \<times> string) list"
  assumes "valid_config c"
  defines "reasons \<equiv> merge_frozen_entities previous frozen"
  shows "if selectable ws bs reasons c
    then select_official_alpha_pool ws bs previous cap frozen (Some c) = Inr (ideal_pool ws bs previous reasons c)
    else \<exists>e. select_official_alpha_pool ws bs previous cap frozen (Some c) = Inl e"
proof (cases "selectable ws bs reasons c")
  case True
  have wf: "dict_wf reasons" unfolding reasons_def by (rule merge_frozen_wf)
  have "validate_selection_inputs ws bs = Inr (map fb_entity bs)"
    using True validate_bundles_Inr [of "ws_cycle ws" bs "[]"]
    by (simp add: validate_selection_inputs_def selectable_def)
  moreover have "ensure_frozen_entities_have_current_bundles reasons (map fb_entity bs) = Inr ()"
    using True by (simp add: missing_iff selectable_def)
  moreover have "ensure_frozen_entities_fit_capacity reasons (pc_capacity c) = Inr ()"
    using True by (simp add: ensure_frozen_entities_fit_capacity_def selectable_def)
  moreover have "rank_candidates bs c = Inr (best_first c bs)"
    using True by (intro rank_candidates_eq) (simp add: selectable_def)
  moreover have "length reasons \<le> nat (pc_capacity c)" using True by (simp add: selectable_def le_nat_iff)
  then have "select_entities (best_first c bs) reasons (pc_capacity c) = chosen_entities bs reasons c"
    using select_entities_eq [of reasons "nat (pc_capacity c)" "best_first c bs"] wf True assms(1)
      distinct_best_first [of bs c]
    by (simp add: chosen_entities_def dict_wf_def selectable_def valid_config_def)
  ultimately show ?thesis
    using True ideal_pool_valid [OF assms(1) wf True, of previous]
    by (cases "diff_selected_entities previous (chosen_entities bs reasons c)")
      (simp add: select_official_alpha_pool_def reasons_def [symmetric] Let_def ideal_pool_def)
next
  case False
  have "\<exists>e. select_official_alpha_pool ws bs previous cap frozen (Some c) = Inl e"
  proof (rule ccontr)
    assume "\<nexists>e. select_official_alpha_pool ws bs previous cap frozen (Some c) = Inl e"
    then obtain p where "select_official_alpha_pool ws bs previous cap frozen (Some c) = Inr p"
      by (cases "select_official_alpha_pool ws bs previous cap frozen (Some c)") auto
    then obtain current ranked where r: "validate_selection_inputs ws bs = Inr current"
      "ensure_frozen_entities_have_current_bundles reasons current = Inr ()"
      "ensure_frozen_entities_fit_capacity reasons (pc_capacity c) = Inr ()" "rank_candidates bs c = Inr ranked"
      by (auto simp: select_official_alpha_pool_def reasons_def [symmetric] Let_def res_bind_eq_Inr)
    from r(1) have "bs \<noteq> []" "current = map fb_entity bs" "validate_bundles (ws_cycle ws) bs [] = Inr ()"
      by (auto simp: validate_selection_inputs_def res_map_eq_Inr split: if_splits)
    moreover have "\<forall>b \<in> set bs. returns (score_candidate b)" using r(4) rank_candidates_fails [of bs c] by force
    ultimately have "selectable ws bs reasons c"
      using r(2,3) validate_bundles_Inr [of "ws_cycle ws" bs "[]"]
      by (auto simp: selectable_def missing_iff ensure_frozen_entities_fit_capacity_def split: if_splits)
    with False show False by simp
  qed
  with False show ?thesis by simp
qed

text \<open>
  C22: On any inputs the service refuses exactly what it must (no bundles, another cycle, an entity twice, a
  frozen entity without a bundle, more frozen entities than places, a score that is no number); otherwise
  the pool holds the frozen entities followed by the best of the others, by descending score and then by
  name, until the capacity is reached, none of them twice, and reports what is new and what is gone. The
  validator of the pool never refuses it.
\<close>

theorem pool_is_frozen_then_best:
  assumes "valid_config c" and "reasons = merge_frozen_entities previous frozen"
  shows "case select_official_alpha_pool ws bs previous cap frozen (Some c) of
      Inl e \<Rightarrow> \<not> selectable ws bs reasons c
    | Inr p \<Rightarrow> selectable ws bs reasons c \<and>
        po_selected p = map fst reasons @ take (nat (pc_capacity c) - length reasons)
          (filter (\<lambda>e. e \<notin> fst ` set reasons) (map fb_entity (best_first c bs))) \<and>
        distinct (po_selected p) \<and> int (length (po_selected p)) \<le> pc_capacity c \<and>
        set (po_selected p) \<subseteq> fb_entity ` set bs \<and> po_frozen p = reasons \<and>
        set (po_added p) = set (po_selected p) - (case previous of None \<Rightarrow> {} | Some q \<Rightarrow> set (po_selected q)) \<and>
        set (po_removed p) = (case previous of None \<Rightarrow> {} | Some q \<Rightarrow> set (po_selected q)) - set (po_selected p)"
proof (cases "selectable ws bs reasons c")
  case False
  with select_pool_cases [OF assms(1), of ws bs previous frozen cap] assms(2) show ?thesis by auto
next
  case True
  have wf: "dict_wf reasons" unfolding assms(2) by (rule merge_frozen_wf)
  have run: "select_official_alpha_pool ws bs previous cap frozen (Some c) = Inr (ideal_pool ws bs previous reasons c)"
    using select_pool_cases [OF assms(1), of ws bs previous frozen cap] True assms(2) by simp
  have "distinct (chosen_entities bs reasons c)"
    using True wf by (intro chosen_entities_distinct) (simp_all add: selectable_def)
  moreover have "int (length (chosen_entities bs reasons c)) \<le> pc_capacity c"
    using True by (intro chosen_entities_length) (simp add: selectable_def)
  moreover have "set (chosen_entities bs reasons c) \<subseteq> fb_entity ` set bs"
    using True by (intro chosen_entities_current) (simp add: selectable_def)
  moreover have "set (fst (diff_selected_entities previous xs)) = set xs - (case previous of None \<Rightarrow> {} | Some q \<Rightarrow> set (po_selected q))"
    and "set (snd (diff_selected_entities previous xs)) = (case previous of None \<Rightarrow> {} | Some q \<Rightarrow> set (po_selected q)) - set xs"
    for xs by (auto simp: diff_selected_entities_def split: option.splits)
  ultimately show ?thesis
    using True by (simp add: run ideal_pool_def) (simp add: chosen_entities_def)
qed

section \<open>Histories of pools\<close>

text \<open>The next pool of a day, whatever its inputs are.\<close>

definition next_pool :: "pool \<Rightarrow> pool \<Rightarrow> bool" where
  "next_pool p p' \<longleftrightarrow> (\<exists>ws bs frozen c cap. valid_config c \<and>
     select_official_alpha_pool ws bs (Some p) cap frozen (Some c) = Inr p')"

definition pool_ok :: "pool \<Rightarrow> bool" where
  "pool_ok p \<longleftrightarrow> dict_wf (po_frozen p) \<and> distinct (po_selected p) \<and> length (po_selected p) \<le> 100 \<and>
     fst ` set (po_frozen p) \<subseteq> set (po_selected p)"

definition keeps_frozen :: "pool \<Rightarrow> pool \<Rightarrow> bool" where
  "keeps_frozen p p' \<longleftrightarrow> map_of (po_frozen p) \<subseteq>\<^sub>m map_of (po_frozen p')"

lemma selected_pool:
  assumes "valid_config c" and "select_official_alpha_pool ws bs previous cap frozen (Some c) = Inr p"
  shows "pool_ok p \<and> po_frozen p = merge_frozen_entities previous frozen"
proof -
  from select_pool_cases [OF assms(1), of ws bs previous frozen cap] assms(2)
  have sel: "selectable ws bs (merge_frozen_entities previous frozen) c"
    and p: "p = ideal_pool ws bs previous (merge_frozen_entities previous frozen) c"
    by (auto split: if_splits)
  have wf: "dict_wf (merge_frozen_entities previous frozen)" by (rule merge_frozen_wf)
  have "int (length (chosen_entities bs (merge_frozen_entities previous frozen) c)) \<le> 100"
    using chosen_entities_length [of "merge_frozen_entities previous frozen" c bs] sel assms(1)
    by (simp add: selectable_def valid_config_def)
  moreover have "distinct (chosen_entities bs (merge_frozen_entities previous frozen) c)"
    using sel wf by (intro chosen_entities_distinct) (simp_all add: selectable_def)
  ultimately show ?thesis using wf by (auto simp: p pool_ok_def ideal_pool_def chosen_entities_def)
qed

interpretation pools: invariant_system next_pool pool_ok keeps_frozen
proof unfold_locales
  show "pool_ok p'" if "pool_ok p" "next_pool p p'" for p p'
    using that selected_pool by (auto simp: next_pool_def)
  show "keeps_frozen p p" for p by (simp add: keeps_frozen_def)
  show "keeps_frozen p r" if "keeps_frozen p q" "keeps_frozen q r" for p q r
    using that unfolding keeps_frozen_def by (rule map_le_trans)
  show "keeps_frozen p p'" if "pool_ok p" "next_pool p p'" for p p'
  proof -
    from that(2) obtain ws bs frozen c cap where
      "select_official_alpha_pool ws bs (Some p) cap frozen (Some c) = Inr p'" "valid_config c"
      by (auto simp: next_pool_def)
    with selected_pool have "po_frozen p' = merge_frozen_entities (Some p) frozen" by blast
    moreover have "map_of (merge_frozen_entities (Some p) frozen) e =
        (case map_of (po_frozen p) e of Some r \<Rightarrow> Some r | None \<Rightarrow> map_of frozen e)" for e
      using that(1) by (subst map_of_merge_frozen) (simp_all add: pool_ok_def)
    ultimately show ?thesis by (auto simp: keeps_frozen_def map_le_def)
  qed
qed

text \<open>
  C23: An entity that was frozen once stays in the pool for ever, with its first reason: no later day of
  whatever inputs releases it, and no pool ever exceeds one hundred entities.
\<close>

theorem frozen_for_ever:
  assumes "valid_config c" and "select_official_alpha_pool ws bs previous cap frozen (Some c) = Inr p"
    and "runs next_pool p p'" and "map_of (po_frozen p) e = Some r"
  shows "map_of (po_frozen p') e = Some r \<and> e \<in> set (po_selected p') \<and> length (po_selected p') \<le> 100"
proof -
  have ok: "pool_ok p" using selected_pool [OF assms(1,2)] by simp
  have ok': "pool_ok p'" by (rule pools.inv_runs [OF assms(3) ok])
  have frozen: "map_of (po_frozen p') e = Some r"
    using pools.ord_runs [OF assms(3) ok] assms(4) unfolding keeps_frozen_def map_le_def by (metis domI)
  then have "e \<in> fst ` set (po_frozen p')" by (force dest: map_of_SomeD)
  with frozen ok' show ?thesis by (auto simp: pool_ok_def)
qed

definition scored :: "string \<Rightarrow> real \<Rightarrow> feature_bundle" where
  "scored entity x = \<lparr>fb_cycle = ''C'', fb_entity = entity, fb_features = [],
     fb_signals = [(''candidate_score'', PFloat x)], fb_graph = [], fb_multipliers = []\<rparr>"

definition ex_state :: world_state where
  "ex_state = \<lparr>ws_cycle = ''C'', ws_baseline = Neutral, ws_delta = 0, ws_final = Neutral, ws_rationale = [],
     ws_model = [], ws_provider = [], ws_fallback_path = []\<rparr>"

definition ex_config :: pool_config where
  "ex_config = \<lparr>pc_capacity = 2, pc_observation_limit = None, pc_min_score = None\<rparr>"

lemma ex_config_valid: "valid_config ex_config"
  by (simp add: valid_config_def ex_config_def)

definition ex_pool :: pool where
  "ex_pool = \<lparr>po_cycle = ''C'', po_observation_size = 3, po_capacity = 2, po_selected = [''Z'', ''B''],
     po_added = [''Z'', ''B''], po_removed = [], po_frozen = [(''Z'', ''held'')]\<rparr>"

lemma ex_select: "select_official_alpha_pool ex_state [scored ''A'' 1, scored ''B'' 2, scored ''Z'' 0] None 100
    [(''Z'', ''held'')] (Some ex_config) = Inr ex_pool"
  by code_simp

theorem pool_is_frozen_then_best_witness:
  "set (po_selected ex_pool) \<subseteq> fb_entity ` set [scored ''A'' 1, scored ''B'' 2, scored ''Z'' 0]"
  using pool_is_frozen_then_best [OF ex_config_valid refl, where ws = ex_state and
      bs = "[scored ''A'' 1, scored ''B'' 2, scored ''Z'' 0]" and previous = None and cap = 100 and
      frozen = "[(''Z'', ''held'')]"]
  unfolding ex_select sum.case by blast

definition ex_later :: pool where
  "ex_later = \<lparr>po_cycle = ''C'', po_observation_size = 2, po_capacity = 2, po_selected = [''Z'', ''A''],
     po_added = [''A''], po_removed = [''B''], po_frozen = [(''Z'', ''held'')]\<rparr>"

theorem frozen_for_ever_witness: "map_of (po_frozen ex_later) ''Z'' = Some ''held'' \<and> ''Z'' \<in> set (po_selected ex_later)"
proof -
  have "select_official_alpha_pool ex_state [scored ''A'' 1, scored ''Z'' 0] (Some ex_pool) 100
      [(''Z'', ''other'')] (Some ex_config) = Inr ex_later" by code_simp
  with ex_config_valid have "next_pool ex_pool ex_later" unfolding next_pool_def by blast
  then have "runs next_pool ex_pool ex_later" by (rule runs_one)
  from frozen_for_ever [OF ex_config_valid ex_select this, of "''Z''" "''held''"]
  show ?thesis by (simp add: ex_pool_def)
qed

section \<open>The fixed pool\<close>

lemma normalize_each_Inr:
  "normalize_each es xs = Inr ts \<Longrightarrow> ts = xs @ map py_strip es \<and> (distinct xs \<longrightarrow> distinct ts)"
  by (induction es arbitrary: xs) (force simp: Let_def split: if_splits)+

lemma spec_of_targets:
  "new_mvp20_spec targets reason = Inr s \<Longrightarrow>
   sp_targets s = map py_strip targets \<and> distinct (sp_targets s) \<and> length (sp_targets s) = 20"
  by (auto simp: new_mvp20_spec_def normalize_manifest_targets_def res_bind_eq_Inr mvp20_decision_pool_capacity_def
      split: if_splits dest!: normalize_each_Inr)

lemma fold_dput_keys:
  "distinct es \<Longrightarrow> set es \<inter> fst ` set d = {} \<Longrightarrow> fold (\<lambda>e. dput e r) es d = d @ map (\<lambda>e. (e, r)) es"
  by (induction es arbitrary: d) (auto simp: dput_fresh)

lemma set_defaults_fresh:
  "distinct (map fst kvs) \<Longrightarrow> fst ` set kvs \<inter> fst ` set d = {} \<Longrightarrow> fold set_default kvs d = d @ kvs"
proof (induction kvs arbitrary: d)
  case Nil
  then show ?case by simp
next
  case (Cons kv kvs)
  then have "set_default kv d = d @ [kv]" by (simp add: set_default_def dhas_iff dput_fresh)
  with Cons show ?case by auto
qed

lemma spec_frozen_eq: "distinct (sp_targets s) \<Longrightarrow> spec_frozen_entities s = map (\<lambda>e. (e, sp_reason s)) (sp_targets s)"
  by (simp add: spec_frozen_entities_def fold_dput_keys)

lemma current_bundles:
  "current_bundle_by_entity cid bs d = Inr d' \<Longrightarrow> map_of d' e = Some b \<Longrightarrow>
   (map_of d e = Some b) \<or> b \<in> set bs \<and> fb_entity b = e \<and> fb_cycle b = cid"
  by (induction bs arbitrary: d) (force simp: map_of_dput split: if_splits)+

text \<open>
  The decision pool of MVP20 holds the twenty targets of the manifest, in its order, whatever their
  scores and whatever else was observed; all of them are frozen with the given reason and all are new.
\<close>

theorem mvp20_pool_is_the_manifest:
  assumes "select_mvp20_decision_pool ws bs (Inl targets) reason = Inr p"
  shows "po_selected p = map py_strip targets \<and> length (po_selected p) = 20 \<and> distinct (po_selected p) \<and>
    po_frozen p = map (\<lambda>e. (py_strip e, reason)) targets \<and>
    po_added p = po_selected p \<and> po_removed p = [] \<and> set (po_selected p) \<subseteq> fb_entity ` set bs"
proof -
  from assms obtain s d tbs c where s: "new_mvp20_spec targets reason = Inr s"
    and d: "current_bundle_by_entity (ws_cycle ws) bs [] = Inr d" and t: "target_bundles s d = Inr tbs"
    and c: "new_pool_config 20 (Some 20) None = Inr c"
    and run: "select_official_alpha_pool ws tbs None 100 (spec_frozen_entities s) (Some c) = Inr p"
    by (auto simp: select_mvp20_decision_pool_def resolve_spec_def res_bind_eq_Inr mvp20_decision_pool_capacity_def)
  note spec = spec_of_targets [OF s]
  have reason: "sp_reason s = reason"
    using s by (auto simp: new_mvp20_spec_def res_bind_eq_Inr split: if_splits)
  let ?frozen = "map (\<lambda>e. (e, reason)) (sp_targets s)"
  have len: "length (sp_targets s) = 20" using spec by blast
  have "distinct (sp_targets s)" using spec by blast
  then have "merge_frozen_entities None (spec_frozen_entities s) = ?frozen"
    using reason by (simp add: merge_frozen_entities_def spec_frozen_eq set_defaults_fresh o_def)
  moreover have cap: "pc_capacity c = 20" using c by (auto simp: new_pool_config_def split: if_splits)
  moreover note select_pool_cases [OF new_pool_config_valid [OF c], of ws tbs None "spec_frozen_entities s" 100]
  ultimately have p: "p = ideal_pool ws tbs None ?frozen c" using run by (auto split: if_splits)
  then have sel: "po_selected p = sp_targets s"
    using cap len by (simp add: ideal_pool_def chosen_entities_def o_def)
  have "e \<in> fb_entity ` set bs" if "e \<in> set (sp_targets s)" for e
  proof -
    from t that have "dhas d e" by (auto simp: target_bundles_def Let_def filter_empty_conv split: if_splits)
    with current_bundles [OF d] show ?thesis by (auto simp: dhas_def)
  qed
  with sel spec p reason show ?thesis
    by (auto simp: ideal_pool_def diff_selected_entities_def)
qed

definition ex_targets :: "string list" where
  "ex_targets = map (\<lambda>i. ''T'' @ nat_str i) [10..<30]"

theorem mvp20_pool_is_the_manifest_witness:
  "\<exists>p. select_mvp20_decision_pool ex_state (map (\<lambda>e. scored e 1) (''X'' # ex_targets)) (Inl ex_targets) ''r'' = Inr p \<and>
     length (po_selected p) = 20 \<and> ''X'' \<notin> set (po_selected p)"
proof -
  let ?run = "select_mvp20_decision_pool ex_state (map (\<lambda>e. scored e 1) (''X'' # ex_targets)) (Inl ex_targets) ''r''"
  have "returns ?run" by code_simp
  then obtain p where p: "?run = Inr p" by (auto simp: returns_iff)
  have "''X'' \<notin> set (map py_strip ex_targets)" by code_simp
  with mvp20_pool_is_the_manifest [OF p] p show ?thesis by metis
qed

section \<open>The pool of what the builder makes\<close>

lemma built_signals_and_features:
  assumes "build_feature_signal_bundles so cid = Inr bs" and "b \<in> set bs"
  shows "plain_signals (fb_signals b) \<and> set (map fst (fb_features b)) \<subseteq> {''close_price'', ''volume'', ''return_1d''}"
proof -
  from assms(1) obtain ms records latest es where each: "build_each (build_one so cid ms records) latest es = Inr bs"
    by (auto simp: build_feature_signal_bundles_def res_bind_eq_Inr)
  from list_all2_right [OF build_each_Inr [OF each] assms(2)] obtain e bar where
    "build_one so cid ms records e bar = Inr b" by blast
  note one = build_one_Inr [OF this]
  then have "fb_features b = map (\<lambda>(k, v). (k, v * multiplier_of ms k)) (market_bar_feature_values bar)"
    by (simp add: apply_feature_weight_multiplier_def)
  then have "set (map fst (fb_features b)) \<subseteq> {''close_price'', ''volume'', ''return_1d''}"
    by (auto simp: market_bar_feature_values_def split: option.splits)
  with one show ?thesis by simp
qed

lemma built_score: "build_feature_signal_bundles so cid = Inr bs \<Longrightarrow> b \<in> set bs \<Longrightarrow> score_candidate b = Inr 0"
proof -
  assume "build_feature_signal_bundles so cid = Inr bs" "b \<in> set bs"
  note shape = built_signals_and_features [OF this]
  then have "\<not> dhas (fb_signals b) ''candidate_score''" by (auto simp: plain_signals_def)
  moreover have "map_of (fb_features b) ''alpha_score'' = None" "map_of (fb_features b) ''momentum'' = None"
    using shape by (auto simp: map_of_eq_None_iff)
  ultimately show ?thesis by (simp add: score_candidate_def)
qed

text \<open>
  The features the builder makes carry none of the names the ranking reads: every candidate scores 0,
  and the ranking of a day's bundles is the order of their names, cut at the observation limit, or empty
  when the least score asked for is positive.
\<close>

theorem built_bundles_rank_by_name:
  assumes "build_feature_signal_bundles so cid = Inr bs"
  shows "rank_candidates bs c = Inr (limited (pc_observation_limit c)
      (case pc_min_score c of None \<Rightarrow> bs | Some m \<Rightarrow> if m \<le> 0 then bs else [])) \<and>
    sorted (map fb_entity bs)"
proof -
  note zero = built_score [OF assms]
  then have score: "score_of b = 0" if "b \<in> set bs" for b using that by (simp add: score_of_def)
  have sorted: "sorted (map fb_entity bs)" by (rule bundles_by_name [OF assms])
  have key: "map (\<lambda>b. (- score_of b, fb_entity b)) bs = map (\<lambda>b. (0, fb_entity b)) bs" using score by simp
  have "sorted (map (\<lambda>b. (0 :: real, fb_entity b)) bs)"
    using sorted by (induction bs) auto
  then have id: "sort_key (\<lambda>b. (- score_of b, fb_entity b)) bs = bs"
    by (intro sort_key_id_if_sorted) (simp only: key)
  have "filter (\<lambda>b. m \<le> score_of b) bs = (if m \<le> 0 then bs else [])" for m
    using score by (auto simp: filter_empty_conv filter_id_conv)
  with id have "best_first c bs = limited (pc_observation_limit c)
      (case pc_min_score c of None \<Rightarrow> bs | Some m \<Rightarrow> if m \<le> 0 then bs else [])"
    by (simp add: best_first_def split: option.splits)
  with rank_candidates_eq [of bs c] zero sorted show ?thesis by simp
qed

theorem built_bundles_rank_by_name_witness: "rank_candidates [ex_bundle] ex_config = Inr [ex_bundle]"
  using built_bundles_rank_by_name [OF ex_built, of ex_config] by (simp add: limited_def ex_config_def)

end
