(* ===== verification/Recommend.thy ===== *)
theory Recommend
  imports Universe "HOL-Library.Multiset"
begin

text \<open>
  Analysis and recommendation in \<open>main-core\<close>: the multi-agent analyzer
  (\<open>l6_alpha/multi_agent_analyzer.py\<close>), the overrides, the constraint gates and the service of
  \<open>l7_recommendation\<close>. The agents and a constraint provider of the caller's own are arguments. Scores are
  real numbers, so \<open>fsum\<close> is the sum; the rationale of a result is text for a reader and left out.
\<close>

section \<open>Analysis by several agents\<close>

datatype alpha_status = Alpha_Ok | Alpha_Inconclusive

record alpha_result =
  al_cycle :: string
  al_entity :: string
  al_analyzer :: string
  al_score :: "real option"
  al_confidence :: real
  al_status :: alpha_status

text \<open>The validator of \<open>AlphaResultSnapshot\<close>.\<close>

definition validated_alpha :: "alpha_result \<Rightarrow> core_error + alpha_result" where
  "validated_alpha a =
     (if al_status a = Alpha_Inconclusive \<and> al_score a \<noteq> None then Inl (Raised ValueError) else Inr a)"

record alpha_context =
  ac_cycle :: string
  ac_entity :: string
  ac_bundle :: feature_bundle
  ac_world :: world_state

definition validate_alpha_analysis_context :: "string \<Rightarrow> alpha_context \<Rightarrow> core_error + unit" where
  "validate_alpha_analysis_context entity c =
     (if entity \<noteq> ac_entity c then Inl (AlphaAnalyzerError ''entity_id must match context.entity_id'')
      else if fb_cycle (ac_bundle c) \<noteq> ac_cycle c
      then Inl (AlphaAnalyzerError ''context.feature_bundle.cycle_id must match context.cycle_id'')
      else if ws_cycle (ac_world c) \<noteq> ac_cycle c
      then Inl (AlphaAnalyzerError ''context.world_state.cycle_id must match context.cycle_id'')
      else if fb_entity (ac_bundle c) \<noteq> ac_entity c
      then Inl (AlphaAnalyzerError ''context.feature_bundle.entity_id must match context.entity_id'')
      else Inr ())"

record agent_role =
  ag_name :: string
  ag_weight :: real

definition new_agent_role :: "string \<Rightarrow> real \<Rightarrow> core_error + agent_role" where
  "new_agent_role name w =
     (if py_strip name = [] \<or> w \<le> 0 then Inl (Raised ValueError) else Inr \<lparr>ag_name = name, ag_weight = w\<rparr>)"

record role_result =
  rr_role :: string
  rr_score :: "real option"
  rr_confidence :: real
  rr_failed :: bool

text \<open>\<open>MultiAgentRoleResult.__post_init__\<close>.\<close>

definition new_role_result :: "string \<Rightarrow> real option \<Rightarrow> real \<Rightarrow> bool \<Rightarrow> core_error + role_result" where
  "new_role_result role score confidence failed =
     (if py_strip role = [] \<or> \<not> (0 \<le> confidence \<and> confidence \<le> 1) \<or> \<not> failed \<and> score = None
      then Inl (Raised ValueError)
      else Inr \<lparr>rr_role = role, rr_score = score, rr_confidence = confidence, rr_failed = failed\<rparr>)"

fun add_role_weights :: "agent_role list \<Rightarrow> (string \<times> real) list \<Rightarrow> core_error + (string \<times> real) list" where
  "add_role_weights [] d = Inr d"
| "add_role_weights (r # rs) d =
     (if dhas d (ag_name r) then Inl (AlphaAnalyzerError (''duplicate multi-agent role: '' @ ag_name r))
      else add_role_weights rs (dput (ag_name r) (ag_weight r) d))"

definition role_weight_map :: "agent_role list \<Rightarrow> core_error + (string \<times> real) list" where
  "role_weight_map roles =
     (if roles = [] then Inl (AlphaAnalyzerError ''at least one multi-agent role is required'')
      else add_role_weights roles [])"

fun add_role_results ::
  "(string \<times> real) list \<Rightarrow> role_result list \<Rightarrow> (string \<times> role_result) list \<Rightarrow>
   core_error + (string \<times> role_result) list" where
  "add_role_results weights [] d = Inr d"
| "add_role_results weights (r # rs) d =
     (if \<not> dhas weights (rr_role r) then Inl (AlphaAnalyzerError (''role result is not configured: '' @ rr_role r))
      else if dhas d (rr_role r) then Inl (AlphaAnalyzerError (''duplicate role result: '' @ rr_role r))
      else add_role_results weights rs (dput (rr_role r) r d))"

definition role_result_map ::
  "role_result list \<Rightarrow> (string \<times> real) list \<Rightarrow> core_error + (string \<times> role_result) list" where
  "role_result_map results weights = add_role_results weights results []"

definition role_weight :: "(string \<times> real) list \<Rightarrow> role_result \<Rightarrow> real" where
  "role_weight weights r = (case map_of weights (rr_role r) of Some w \<Rightarrow> w | None \<Rightarrow> 0)"

definition multi_agent_result ::
  "string \<Rightarrow> alpha_context \<Rightarrow> real option \<Rightarrow> real \<Rightarrow> alpha_status \<Rightarrow> core_error + alpha_result" where
  "multi_agent_result entity c score confidence status =
     validated_alpha \<lparr>al_cycle = ac_cycle c, al_entity = entity, al_analyzer = ''multi_agent_v1'',
       al_score = score, al_confidence = confidence, al_status = status\<rparr>"

definition aggregate_role_results ::
  "string \<Rightarrow> alpha_context \<Rightarrow> role_result list \<Rightarrow> agent_role list \<Rightarrow> core_error + alpha_result" where
  "aggregate_role_results entity c results roles =
     res_bind (role_weight_map roles) (\<lambda>weights.
     res_bind (role_result_map results weights) (\<lambda>m.
     let healthy = sort_key rr_role (filter (\<lambda>r. \<not> rr_failed r) (map snd m)) in
     if healthy = [] then multi_agent_result entity c None 0 Alpha_Inconclusive
     else
       let total_weight = sum_list (map (role_weight weights) healthy);
           scored = filter (\<lambda>r. rr_score r \<noteq> None) healthy;
           score = sum_list (map (\<lambda>r. the (rr_score r) * role_weight weights r) scored) / total_weight;
           confidence = sum_list (map (\<lambda>r. rr_confidence r * role_weight weights r) healthy) / total_weight
       in multi_agent_result entity c (Some score) confidence Alpha_Ok))"

text \<open>
  The analyzer asks every role once. An \<open>InconclusiveError\<close> of a role is a failed result, any other error
  of the agent ends the analysis.
\<close>

definition failed_role :: "string \<Rightarrow> core_error + role_result" where
  "failed_role name = new_role_result name None 0 True"

definition ask_role :: "(agent_role \<Rightarrow> core_error + role_result) \<Rightarrow> agent_role \<Rightarrow> core_error + role_result" where
  "ask_role agent role =
     (case agent role of
        Inl (InconclusiveError m) \<Rightarrow> failed_role (ag_name role)
      | r \<Rightarrow> r)"

definition analyze ::
  "agent_role list \<Rightarrow> (agent_role \<Rightarrow> core_error + role_result) \<Rightarrow> string \<Rightarrow> alpha_context \<Rightarrow>
   core_error + alpha_result" where
  "analyze roles agent entity c =
     res_bind (role_weight_map roles) (\<lambda>_.
     res_bind (validate_alpha_analysis_context entity c) (\<lambda>_.
     res_bind (res_list (ask_role agent) roles) (\<lambda>results.
       aggregate_role_results entity c results roles)))"

section \<open>Recommendations\<close>

datatype action = Buy_It | Hold_It | Reduce_It | No_Conclusion

datatype trigger = By_System | By_Human

record recommendation =
  re_cycle :: string
  re_entity :: string
  re_action :: action
  re_rating :: "string option"
  re_confidence :: "real option"
  re_trigger :: trigger
  re_override :: bool
  re_constraints :: pydict

text \<open>
  The validator of \<open>RecommendationSnapshot\<close>, which every construction and every \<open>model_copy\<close> runs.
\<close>

definition validated_recommendation :: "recommendation \<Rightarrow> core_error + recommendation" where
  "validated_recommendation r =
     (if re_action r = No_Conclusion \<and> re_confidence r \<noteq> None then Inl (Raised ValueError) else Inr r)"

subsection \<open>Overrides\<close>

record override_record =
  ov_cycle :: string
  ov_entity :: string
  ov_submitted_by :: string
  ov_action :: action
  ov_rationale :: string

type_synonym override_store = "override_record list"

definition submit_override :: "override_record \<Rightarrow> override_store \<Rightarrow> override_record \<times> override_store" where
  "submit_override ov store = (ov, store @ [ov])"

definition find_override :: "override_record list \<Rightarrow> string \<Rightarrow> string \<Rightarrow> override_record option" where
  "find_override ovs cid entity = List.find (\<lambda>ov. ov_cycle ov = cid \<and> ov_entity ov = entity) ovs"

text \<open>The rating of an action; a missing one is a \<open>KeyError\<close>.\<close>

fun rating_for_action :: "action \<Rightarrow> core_error + string" where
  "rating_for_action Buy_It = Inr ''A''"
| "rating_for_action Hold_It = Inr ''B''"
| "rating_for_action Reduce_It = Inr ''C''"
| "rating_for_action No_Conclusion = Inl (Raised KeyError)"

definition apply_override :: "recommendation \<Rightarrow> override_record \<Rightarrow> core_error + recommendation" where
  "apply_override r ov =
     (if re_cycle r \<noteq> ov_cycle ov then Inl (MainCoreError ''override cycle_id must match recommendation cycle_id'')
      else if re_entity r \<noteq> ov_entity ov
      then Inl (MainCoreError ''override entity_id must match recommendation entity_id'')
      else if ov_action ov = No_Conclusion
      then validated_recommendation (r\<lparr>re_action := No_Conclusion, re_trigger := By_Human, re_override := True,
        re_rating := None, re_confidence := None\<rparr>)
      else res_bind (rating_for_action (ov_action ov)) (\<lambda>rating.
        validated_recommendation (r\<lparr>re_action := ov_action ov, re_trigger := By_Human, re_override := True,
          re_rating := Some rating\<rparr>)))"

subsection \<open>The default gates\<close>

definition default_gate :: "pydict \<Rightarrow> world_state \<Rightarrow> recommendation \<Rightarrow> core_error + recommendation" where
  "default_gate risk w r =
     (if dget risk ''force_inconclusive'' = PBool True
      then validated_recommendation (r\<lparr>re_action := No_Conclusion, re_rating := None, re_confidence := None,
        re_constraints := dput ''risk_gate'' (PStr ''force_inconclusive'') (re_constraints r)\<rparr>)
      else if ws_final w = Risk_Off \<and> re_action r = Buy_It
      then validated_recommendation (r\<lparr>re_action := Hold_It, re_rating := Some ''B'',
        re_constraints := dput ''regime_gate'' (PStr ''risk_off_buy_to_hold'') (re_constraints r)\<rparr>)
      else Inr r)"

subsection \<open>The service\<close>

definition buy_score_threshold :: real where "buy_score_threshold = 65/100"
definition reduce_score_threshold :: real where "reduce_score_threshold = 35/100"

definition action_for_score :: "real \<Rightarrow> action" where
  "action_for_score x =
     (if buy_score_threshold \<le> x then Buy_It else if x \<le> reduce_score_threshold then Reduce_It else Hold_It)"

definition candidate_from_analysis :: "alpha_result \<Rightarrow> core_error + recommendation" where
  "candidate_from_analysis a =
     (if al_status a = Alpha_Inconclusive
      then validated_recommendation \<lparr>re_cycle = al_cycle a, re_entity = al_entity a, re_action = No_Conclusion,
        re_rating = None, re_confidence = None, re_trigger = By_System, re_override = False, re_constraints = []\<rparr>
      else case al_score a of
          None \<Rightarrow> Inl (MainCoreError ''ok analysis score must not be None'')
        | Some x \<Rightarrow>
            res_bind (rating_for_action (action_for_score x)) (\<lambda>rating.
            validated_recommendation \<lparr>re_cycle = al_cycle a, re_entity = al_entity a,
              re_action = action_for_score x, re_rating = Some rating, re_confidence = Some (al_confidence a),
              re_trigger = By_System, re_override = False, re_constraints = []\<rparr>))"

definition force_inconclusive :: "recommendation \<Rightarrow> core_error + recommendation" where
  "force_inconclusive r =
     (if re_action r = No_Conclusion \<and> re_rating r = None \<and> re_confidence r = None then Inr r
      else validated_recommendation (r\<lparr>re_action := No_Conclusion, re_rating := None, re_confidence := None\<rparr>))"

definition validate_gated_identity :: "recommendation \<Rightarrow> string \<Rightarrow> string \<Rightarrow> core_error + unit" where
  "validate_gated_identity r cid entity =
     (if re_cycle r \<noteq> cid then Inl (MainCoreError ''constraint gate must preserve recommendation cycle_id'')
      else if re_entity r \<noteq> entity
      then Inl (MainCoreError ''constraint gate must preserve recommendation entity_id'')
      else Inr ())"

text \<open>\<open>_latest_overrides_by_cycle_entity\<close>: a later override takes the place of an earlier one.\<close>

definition latest_overrides :: "override_record list \<Rightarrow> override_record list" where
  "latest_overrides ovs = map snd (fold (\<lambda>ov. dput (ov_cycle ov, ov_entity ov) ov) ovs [])"

definition resolve_overrides :: "pool \<Rightarrow> override_record list option \<Rightarrow> override_store \<Rightarrow> override_record list" where
  "resolve_overrides p ovs store =
     (case ovs of
        Some os \<Rightarrow> latest_overrides os
      | None \<Rightarrow> latest_overrides (filter (\<lambda>ov. ov_cycle ov = po_cycle p) store))"

fun add_analyses ::
  "string \<Rightarrow> string list \<Rightarrow> alpha_result list \<Rightarrow> (string \<times> alpha_result) list \<Rightarrow>
   core_error + (string \<times> alpha_result) list" where
  "add_analyses cid selected [] d = Inr d"
| "add_analyses cid selected (a # as) d =
     (if al_cycle a \<noteq> cid then Inl (MainCoreError ''analysis cycle_id must match pool.cycle_id'')
      else if al_entity a \<notin> set selected
      then Inl (MainCoreError ''analysis entity_id must belong to pool.selected_entities'')
      else if dhas d (al_entity a) then Inl (MainCoreError ''duplicate analysis for selected entity'')
      else add_analyses cid selected as (dput (al_entity a) a d))"

definition validate_recommendation_inputs ::
  "pool \<Rightarrow> alpha_result list \<Rightarrow> world_state \<Rightarrow> override_record list \<Rightarrow>
   core_error + (string \<times> alpha_result) list" where
  "validate_recommendation_inputs p analyses w ovs =
     (if po_cycle p \<noteq> ws_cycle w then Inl (MainCoreError ''pool.cycle_id must match world_state.cycle_id'')
      else res_bind (add_analyses (po_cycle p) (po_selected p) analyses []) (\<lambda>d.
        if list_ex (\<lambda>e. \<not> dhas d e) (po_selected p)
        then Inl (MainCoreError ''missing analysis for selected entity'')
        else if list_ex (\<lambda>ov. ov_cycle ov \<noteq> po_cycle p) ovs
        then Inl (MainCoreError ''override cycle_id must match pool.cycle_id'')
        else Inr d))"

definition mark_override :: "bool \<Rightarrow> recommendation \<Rightarrow> core_error + recommendation" where
  "mark_override applied r =
     (if applied \<and> (\<not> re_override r \<or> re_trigger r \<noteq> By_Human)
      then validated_recommendation (r\<lparr>re_trigger := By_Human, re_override := True\<rparr>) else Inr r)"

text \<open>The body of the loop, for one entity and its analysis; \<open>gate\<close> is the constraint provider.\<close>

definition recommend_one ::
  "(recommendation \<Rightarrow> core_error + recommendation) \<Rightarrow> override_record list \<Rightarrow> string \<Rightarrow> string \<Rightarrow> alpha_result \<Rightarrow>
   core_error + recommendation" where
  "recommend_one gate ovs cid entity a =
     res_bind (candidate_from_analysis a) (\<lambda>candidate.
     let inconclusive = (re_action candidate = No_Conclusion); matching = find_override ovs cid entity in
     res_bind (case matching of Some ov \<Rightarrow> apply_override candidate ov | None \<Rightarrow> Inr candidate) (\<lambda>c.
     res_bind (if inconclusive then force_inconclusive c else Inr c) (\<lambda>c.
     res_bind (gate c) (\<lambda>gated.
     res_bind (validate_gated_identity gated cid entity) (\<lambda>_.
     res_bind (if inconclusive then force_inconclusive gated else Inr gated) (\<lambda>gated.
       mark_override (matching \<noteq> None) gated))))))"

definition generate_recommendations ::
  "pool \<Rightarrow> alpha_result list \<Rightarrow> world_state \<Rightarrow> (pydict \<Rightarrow> world_state \<Rightarrow> recommendation \<Rightarrow> core_error + recommendation) \<Rightarrow>
   override_record list option \<Rightarrow> override_store \<Rightarrow> pydict \<Rightarrow> core_error + recommendation list" where
  "generate_recommendations p analyses w provider ovs store risk =
     (let active = resolve_overrides p ovs store in
      res_bind (validate_recommendation_inputs p analyses w active) (\<lambda>d.
        res_list (\<lambda>e. case map_of d e of
            Some a \<Rightarrow> recommend_one (provider risk w) active (po_cycle p) e a
          | None \<Rightarrow> Inl (Raised KeyError)) (po_selected p)))"

section \<open>Agents are averaged\<close>

definition sound_result :: "role_result \<Rightarrow> bool" where
  "sound_result r \<longleftrightarrow> 0 \<le> rr_confidence r \<and> rr_confidence r \<le> 1 \<and> (\<not> rr_failed r \<longrightarrow> rr_score r \<noteq> None)"

lemma new_role_result_sound: "new_role_result role score confidence failed = Inr r \<Longrightarrow> sound_result r"
  by (auto simp: new_role_result_def sound_result_def split: if_splits)

lemma add_role_weights_Inr:
  "add_role_weights roles d = Inr m \<Longrightarrow>
   m = d @ map (\<lambda>r. (ag_name r, ag_weight r)) roles \<and> (distinct (map fst d) \<longrightarrow> distinct (map fst d @ map ag_name roles))"
proof (induction roles arbitrary: d)
  case Nil
  then show ?case by simp
next
  case (Cons g roles)
  then have fresh: "ag_name g \<notin> fst ` set d" and rest: "add_role_weights roles (d @ [(ag_name g, ag_weight g)]) = Inr m"
    by (auto simp: dhas_iff dput_fresh split: if_splits)
  from Cons.IH [OF rest] fresh show ?case by simp
qed

lemma add_role_results_iff:
  "add_role_results weights rs d = Inr m \<longleftrightarrow>
   list_all (\<lambda>r. dhas weights (rr_role r)) rs \<and> distinct (map rr_role rs) \<and>
   fst ` set d \<inter> rr_role ` set rs = {} \<and> m = d @ map (\<lambda>r. (rr_role r, r)) rs"
  by (induction rs arbitrary: d) (auto simp: dhas_iff dput_fresh)

lemma role_result_map_iff:
  "role_result_map rs weights = Inr m \<longleftrightarrow>
   list_all (\<lambda>r. dhas weights (rr_role r)) rs \<and> distinct (map rr_role rs) \<and> m = map (\<lambda>r. (rr_role r, r)) rs"
  by (simp add: role_result_map_def add_role_results_iff)

lemma sort_roles_unique:
  assumes "distinct (map rr_role xs)" and "distinct (map rr_role ys)" and "set xs = set ys"
  shows "sort_key rr_role xs = sort_key rr_role ys"
  using assms by (intro map_sorted_distinct_set_unique [of rr_role]) (auto simp: distinct_map)

lemma sum_sorted: "sum_list (map f (sort_key g xs)) = sum_list (map f xs)" for f :: "'a \<Rightarrow> real"
  by (metis mset_map mset_sort sum_mset_sum_list)

lemma sum_list_bounds:
  fixes f w :: "'a \<Rightarrow> real"
  assumes "\<forall>x \<in> set xs. 0 < w x" and "\<forall>x \<in> set xs. lo \<le> f x \<and> f x \<le> hi" and "xs \<noteq> []"
  shows "lo \<le> sum_list (map (\<lambda>x. f x * w x) xs) / sum_list (map w xs) \<and>
    sum_list (map (\<lambda>x. f x * w x) xs) / sum_list (map w xs) \<le> hi"
proof -
  have pos: "0 < sum_list (map w xs)" using assms(1,3) by (induction xs) (auto simp: add_pos_nonneg sum_list_nonneg_real less_imp_le)
  have "sum_list (map (\<lambda>x. w x * lo) xs) \<le> sum_list (map (\<lambda>x. f x * w x) xs)"
    using assms(1,2) by (intro sum_list_mono_real) (simp add: mult.commute mult_right_mono)
  moreover have "sum_list (map (\<lambda>x. f x * w x) xs) \<le> sum_list (map (\<lambda>x. w x * hi) xs)"
    using assms(1,2) by (intro sum_list_mono_real) (simp add: mult.commute mult_right_mono)
  ultimately show ?thesis
    unfolding sum_list_scale using pos
    by (simp add: pos_le_divide_eq pos_divide_le_eq mult.commute [of lo] mult.commute [of hi])
qed

text \<open>The weight the configuration gives to a role.\<close>

definition configured :: "agent_role list \<Rightarrow> role_result \<Rightarrow> real" where
  "configured roles = role_weight (map (\<lambda>g. (ag_name g, ag_weight g)) roles)"

definition average :: "(role_result \<Rightarrow> real) \<Rightarrow> (role_result \<Rightarrow> real) \<Rightarrow> role_result list \<Rightarrow> real" where
  "average w f rs = sum_list (map (\<lambda>r. f r * w r) rs) / sum_list (map w rs)"

lemma aggregate_closed:
  assumes "aggregate_role_results entity c results roles = Inr a" and "list_all sound_result results"
  defines "healthy \<equiv> filter (\<lambda>r. \<not> rr_failed r) results"
  shows "distinct (map rr_role results) \<and> set (map rr_role results) \<subseteq> set (map ag_name roles) \<and>
    a = \<lparr>al_cycle = ac_cycle c, al_entity = entity, al_analyzer = ''multi_agent_v1'',
      al_score = (if healthy = [] then None else Some (average (configured roles) (\<lambda>r. the (rr_score r)) healthy)),
      al_confidence = (if healthy = [] then 0 else average (configured roles) rr_confidence healthy),
      al_status = (if healthy = [] then Alpha_Inconclusive else Alpha_Ok)\<rparr>"
proof -
  let ?weights = "map (\<lambda>g. (ag_name g, ag_weight g)) roles"
  from assms(1) obtain weights m where ws: "role_weight_map roles = Inr weights"
    and ms: "role_result_map results weights = Inr m"
    by (auto simp: aggregate_role_results_def res_bind_eq_Inr)
  from ws have weights: "weights = ?weights"
    by (auto simp: role_weight_map_def dest: add_role_weights_Inr split: if_splits)
  note w = ws [unfolded weights] and m = ms [unfolded weights]
  have results: "map snd m = results" "distinct (map rr_role results)"
    "list_all (\<lambda>r. dhas ?weights (rr_role r)) results"
    using m by (simp_all add: role_result_map_iff o_def)
  have "filter (\<lambda>r. rr_score r \<noteq> None) (sort_key rr_role healthy) = sort_key rr_role healthy"
    using assms(2) by (auto simp: filter_id_conv healthy_def list_all_iff sound_result_def)
  moreover have "sort_key rr_role healthy = [] \<longleftrightarrow> healthy = []" by (rule sort_empty)
  ultimately have "a = \<lparr>al_cycle = ac_cycle c, al_entity = entity, al_analyzer = ''multi_agent_v1'',
      al_score = (if healthy = [] then None else Some (average (configured roles) (\<lambda>r. the (rr_score r)) healthy)),
      al_confidence = (if healthy = [] then 0 else average (configured roles) rr_confidence healthy),
      al_status = (if healthy = [] then Alpha_Inconclusive else Alpha_Ok)\<rparr>"
    using assms(1)
    by (auto simp: aggregate_role_results_def w m results(1) healthy_def [symmetric] Let_def multi_agent_result_def
        validated_alpha_def sum_sorted average_def configured_def split: if_splits)
  with results show ?thesis by (auto simp: list_all_iff dhas_iff)
qed

lemma configured_positive:
  assumes "list_all (\<lambda>g. 0 < ag_weight g) roles" and "rr_role r \<in> set (map ag_name roles)"
  shows "0 < configured roles r"
proof -
  from assms(2) obtain w where "map_of (map (\<lambda>g. (ag_name g, ag_weight g)) roles) (rr_role r) = Some w"
    by (cases "map_of (map (\<lambda>g. (ag_name g, ag_weight g)) roles) (rr_role r)") (auto simp: map_of_eq_None_iff image_image)
  moreover from map_of_SomeD [OF this] assms(1) have "0 < w" by (auto simp: list_all_iff)
  ultimately show ?thesis by (simp add: configured_def role_weight_def)
qed

text \<open>
  The result of several agents is inconclusive exactly when every agent failed; otherwise its score and
  confidence are the averages of the agents that answered, by the configured weights: the score lies
  between the lowest and the highest of theirs, the confidence in [0,1], and the order in which the
  agents answered does not matter.
\<close>

theorem agents_are_averaged:
  assumes "aggregate_role_results entity c results roles = Inr a"
    and "list_all (\<lambda>g. 0 < ag_weight g) roles" and "list_all sound_result results"
  shows "let healthy = filter (\<lambda>r. \<not> rr_failed r) results in
    (al_status a = Alpha_Inconclusive \<longleftrightarrow> list_all rr_failed results) \<and>
    (if healthy = [] then al_score a = None \<and> al_confidence a = 0
     else al_score a = Some (average (configured roles) (\<lambda>r. the (rr_score r)) healthy) \<and>
       al_confidence a = average (configured roles) rr_confidence healthy \<and>
       (\<forall>lo hi. list_all (\<lambda>r. lo \<le> the (rr_score r) \<and> the (rr_score r) \<le> hi) healthy \<longrightarrow>
          lo \<le> the (al_score a) \<and> the (al_score a) \<le> hi) \<and>
       0 \<le> al_confidence a \<and> al_confidence a \<le> 1) \<and>
    (\<forall>results'. mset results' = mset results \<longrightarrow> aggregate_role_results entity c results' roles = Inr a)"
proof -
  let ?healthy = "filter (\<lambda>r. \<not> rr_failed r) results"
  note closed = aggregate_closed [OF assms(1,3)]
  have pos: "\<forall>r \<in> set ?healthy. 0 < configured roles r"
    using closed by (auto intro!: configured_positive [OF assms(2)])
  have inconclusive: "al_status a = Alpha_Inconclusive \<longleftrightarrow> list_all rr_failed results"
    using closed by (auto simp: filter_empty_conv list_all_iff)
  have bounds: "lo \<le> average (configured roles) f ?healthy \<and> average (configured roles) f ?healthy \<le> hi"
    if "\<forall>r \<in> set ?healthy. lo \<le> f r \<and> f r \<le> hi" "?healthy \<noteq> []" for f lo hi
    unfolding average_def by (rule sum_list_bounds [OF pos that])
  have conf: "\<forall>r \<in> set ?healthy. 0 \<le> rr_confidence r \<and> rr_confidence r \<le> 1"
    using assms(3) by (auto simp: list_all_iff sound_result_def)
  have order: "aggregate_role_results entity c results' roles = Inr a" if perm: "mset results' = mset results" for results'
  proof -
    from assms(1) obtain weights m where w: "role_weight_map roles = Inr weights"
      and m: "role_result_map results weights = Inr m"
      by (auto simp: aggregate_role_results_def res_bind_eq_Inr)
    have same: "set results' = set results" by (rule mset_eq_setD [OF perm])
    have d: "distinct (map rr_role results)" using m by (simp add: role_result_map_iff)
    have "mset (map rr_role results') = mset (map rr_role results)" using perm by simp
    with d have d': "distinct (map rr_role results')" by (metis mset_eq_imp_distinct_iff)
    have m': "role_result_map results' weights = Inr (map (\<lambda>r. (rr_role r, r)) results')"
      using m same d' by (simp add: role_result_map_iff list_all_iff)
    have m: "role_result_map results weights = Inr (map (\<lambda>r. (rr_role r, r)) results)"
      using m by (simp add: role_result_map_iff)
    have snds: "map snd (map (\<lambda>r. (rr_role r, r)) rs) = rs" for rs by (simp add: o_def)
    have sorted: "sort_key rr_role (filter (\<lambda>r. \<not> rr_failed r) results') = sort_key rr_role ?healthy"
      using d d' same by (intro sort_roles_unique) (auto simp: distinct_map elim: inj_on_subset)
    have "aggregate_role_results entity c results' roles = aggregate_role_results entity c results roles"
      unfolding aggregate_role_results_def w m m' res_bind_Inr snds sorted ..
    with assms(1) show ?thesis by simp
  qed
  show ?thesis
  proof (cases "?healthy = []")
    case True
    with closed inconclusive order show ?thesis by (simp add: Let_def)
  next
    case False
    with closed have "al_score a = Some (average (configured roles) (\<lambda>r. the (rr_score r)) ?healthy)"
      "al_confidence a = average (configured roles) rr_confidence ?healthy" by simp_all
    with False inconclusive order bounds [OF conf] bounds [of _ "\<lambda>r. the (rr_score r)"] show ?thesis
      unfolding Let_def by (simp only: list_all_iff option.sel if_False simp_thms) blast
  qed
qed

definition ex_roles :: "agent_role list" where
  "ex_roles = [\<lparr>ag_name = ''risk'', ag_weight = 3\<rparr>, \<lparr>ag_name = ''technical'', ag_weight = 1\<rparr>]"

definition ex_results :: "role_result list" where
  "ex_results = [\<lparr>rr_role = ''risk'', rr_score = Some 1, rr_confidence = 1/2, rr_failed = False\<rparr>,
     \<lparr>rr_role = ''technical'', rr_score = Some 0, rr_confidence = 1, rr_failed = False\<rparr>]"

definition ex_context :: alpha_context where
  "ex_context = \<lparr>ac_cycle = ''C'', ac_entity = ''A'', ac_bundle = ex_bundle, ac_world = ex_state\<rparr>"

definition ex_alpha :: alpha_result where
  "ex_alpha = \<lparr>al_cycle = ''C'', al_entity = ''A'', al_analyzer = ''multi_agent_v1'', al_score = Some (3/4),
     al_confidence = 5/8, al_status = Alpha_Ok\<rparr>"

lemma ex_aggregate: "aggregate_role_results ''A'' ex_context ex_results ex_roles = Inr ex_alpha"
  by code_simp

theorem agents_are_averaged_witness:
  "aggregate_role_results ''A'' ex_context (rev ex_results) ex_roles = Inr ex_alpha \<and> al_confidence ex_alpha \<le> 1"
proof -
  have "list_all (\<lambda>g. 0 < ag_weight g) ex_roles" "list_all sound_result ex_results" "filter (\<lambda>r. \<not> rr_failed r) ex_results \<noteq> []"
    by (simp_all add: ex_roles_def ex_results_def sound_result_def)
  with agents_are_averaged [OF ex_aggregate this(1,2)] show ?thesis by (simp add: Let_def)
qed

section \<open>What a recommendation says\<close>

fun rating_text :: "action \<Rightarrow> string option" where
  "rating_text Buy_It = Some ''A''"
| "rating_text Hold_It = Some ''B''"
| "rating_text Reduce_It = Some ''C''"
| "rating_text No_Conclusion = None"

lemma rating_for_action_eq: "x \<noteq> No_Conclusion \<Longrightarrow> rating_for_action x = Inr (the (rating_text x))"
  by (cases x) simp_all

lemma action_for_score_concludes: "action_for_score x \<noteq> No_Conclusion"
  by (simp add: action_for_score_def)

text \<open>The decision on one entity with the default gates, as one formula.\<close>

definition wanted :: "alpha_result \<Rightarrow> override_record option \<Rightarrow> action" where
  "wanted a ov =
     (if al_status a = Alpha_Inconclusive then No_Conclusion
      else case ov of Some v \<Rightarrow> ov_action v | None \<Rightarrow> action_for_score (the (al_score a)))"

definition decided :: "alpha_result \<Rightarrow> override_record option \<Rightarrow> pydict \<Rightarrow> world_state \<Rightarrow> recommendation" where
  "decided a ov risk w =
     (let stopped = (dget risk ''force_inconclusive'' = PBool True);
          capped = (\<not> stopped \<and> ws_final w = Risk_Off \<and> wanted a ov = Buy_It);
          final = (if stopped then No_Conclusion else if capped then Hold_It else wanted a ov)
      in \<lparr>re_cycle = al_cycle a, re_entity = al_entity a, re_action = final, re_rating = rating_text final,
          re_confidence = (if final = No_Conclusion then None else Some (al_confidence a)),
          re_trigger = (if ov = None then By_System else By_Human), re_override = (ov \<noteq> None),
          re_constraints = (if stopped then [(''risk_gate'', PStr ''force_inconclusive'')]
            else if capped then [(''regime_gate'', PStr ''risk_off_buy_to_hold'')] else [])\<rparr>)"

lemma candidate_eq:
  assumes "al_status a = Alpha_Ok \<longrightarrow> al_score a \<noteq> None"
  shows "candidate_from_analysis a = Inr \<lparr>re_cycle = al_cycle a, re_entity = al_entity a, re_action = wanted a None,
    re_rating = rating_text (wanted a None),
    re_confidence = (if al_status a = Alpha_Inconclusive then None else Some (al_confidence a)),
    re_trigger = By_System, re_override = False, re_constraints = []\<rparr>"
proof (cases "al_status a")
  case Alpha_Inconclusive
  then show ?thesis by (simp add: candidate_from_analysis_def validated_recommendation_def wanted_def)
next
  case Alpha_Ok
  then obtain x where x: "al_score a = Some x" using assms by auto
  then show ?thesis
    using Alpha_Ok action_for_score_concludes [of x]
    by (cases "action_for_score x")
      (simp_all add: candidate_from_analysis_def validated_recommendation_def wanted_def)
qed

lemma find_override_Some: "find_override ovs cid e = Some v \<Longrightarrow> ov_cycle v = cid \<and> ov_entity v = e \<and> v \<in> set ovs"
  by (auto simp: find_override_def dest: find_SomeD)

lemmas recommend_defs =
  recommend_one_def Let_def validated_recommendation_def default_gate_def force_inconclusive_def
  validate_gated_identity_def mark_override_def decided_def

lemma recommend_one_default:
  assumes "al_status a = Alpha_Ok \<longrightarrow> al_score a \<noteq> None" and "al_cycle a = cid" and "al_entity a = e"
  shows "recommend_one (default_gate risk w) ovs cid e a = Inr (decided a (find_override ovs cid e) risk w)"
proof (cases "find_override ovs cid e")
  case None
  then show ?thesis
    using assms(2,3) action_for_score_concludes [of "the (al_score a)"]
    by (cases "al_status a"; cases "wanted a None")
      (auto simp: recommend_defs candidate_eq [OF assms(1)] wanted_def)
next
  case (Some v)
  note v = find_override_Some [OF Some]
  show ?thesis
  proof (cases "al_status a")
    case Alpha_Inconclusive
    then show ?thesis
      using assms(2,3) v Some
      by (cases "ov_action v") (auto simp: recommend_defs candidate_eq [OF assms(1)] wanted_def apply_override_def)
  next
    case Alpha_Ok
    then have "wanted a None \<noteq> No_Conclusion" by (simp add: wanted_def action_for_score_concludes)
    then show ?thesis
      using assms(2,3) v Some Alpha_Ok
      by (cases "ov_action v"; cases "wanted a None")
        (auto simp: recommend_defs candidate_eq [OF assms(1)] wanted_def [of a "Some v"] apply_override_def)
  qed
qed

text \<open>The override that counts for an entity is its latest.\<close>

lemma latest_overrides_map:
  "fold (\<lambda>ov. dput (ov_cycle ov, ov_entity ov) ov) ovs d = fold (\<lambda>(k, v). dput k v) (map (\<lambda>ov. ((ov_cycle ov, ov_entity ov), ov)) ovs) d"
  by (induction ovs arbitrary: d) auto

lemma find_in_dict:
  "dict_wf d \<Longrightarrow> \<forall>(k, ov) \<in> set d. k = (ov_cycle ov, ov_entity ov) \<Longrightarrow>
   find_override (map snd d) cid e = map_of d (cid, e)"
  by (induction d) (auto simp: find_override_def dict_wf_def)

lemma find_latest: "map_of (rev (map (\<lambda>ov. ((ov_cycle ov, ov_entity ov), ov)) ovs)) (cid, e) = find_override (rev ovs) cid e"
  by (induction ovs rule: rev_induct) (auto simp: find_override_def)

lemma find_latest_override: "find_override (latest_overrides ovs) cid e = find_override (rev ovs) cid e"
proof -
  let ?kvs = "map (\<lambda>ov. ((ov_cycle ov, ov_entity ov), ov)) ovs"
  let ?d = "fold (\<lambda>(k, v). dput k v) ?kvs []"
  have "dict_wf ?d" by (rule assoc_dict.good_puts) simp
  moreover have "k = (ov_cycle ov, ov_entity ov)" if "(k, ov) \<in> set ?d" for k ov
  proof -
    have "map_of ?d k = Some ov" using that \<open>dict_wf ?d\<close> by (simp add: dict_wf_def)
    then have "map_of (rev ?kvs) k = Some ov" by (simp add: assoc_dict.get_puts split: option.splits)
    then show ?thesis by (auto dest!: map_of_SomeD)
  qed
  ultimately have "find_override (map snd ?d) cid e = map_of ?d (cid, e)" by (intro find_in_dict) auto
  also have "\<dots> = find_override (rev ovs) cid e"
    by (simp add: assoc_dict.get_puts find_latest split: option.splits)
  finally show ?thesis by (simp add: latest_overrides_def latest_overrides_map)
qed

lemma add_analyses_Inr:
  assumes "add_analyses cid selected as d = Inr d'" and "map_of d' e = Some a"
  shows "map_of d e = Some a \<or> a \<in> set as \<and> al_entity a = e \<and> al_cycle a = cid"
  using assms
proof (induction as arbitrary: d)
  case Nil
  then show ?case by simp
next
  case (Cons b bs)
  then have b: "al_cycle b = cid" and rest: "add_analyses cid selected bs (dput (al_entity b) b d) = Inr d'"
    by (simp_all split: if_splits)
  from Cons.IH [OF rest Cons.prems(2)] b show ?case by (auto simp: map_of_dput split: if_splits)
qed

lemma validated_analysis:
  assumes "validate_recommendation_inputs p analyses w ovs = Inr d" and "e \<in> set (po_selected p)"
  shows "\<exists>a \<in> set analyses. map_of d e = Some a \<and> al_entity a = e \<and> al_cycle a = po_cycle p"
proof -
  from assms obtain d: "add_analyses (po_cycle p) (po_selected p) analyses [] = Inr d" and "dhas d e"
    by (auto simp: validate_recommendation_inputs_def res_bind_eq_Inr list_ex_iff split: if_splits)
  then obtain a where "map_of d e = Some a" by (auto simp: dhas_def)
  with add_analyses_Inr [OF d this] show ?thesis by auto
qed

text \<open>
  C24: With the default gates, valid inputs give one recommendation for each entity of the pool, in its
  order, and each is the decision of \<open>decided\<close>: inconclusive when the analysis is or the risk gate is
  down; else the action of the latest override of the entity or of its score, a buy being held down in a
  risk-off regime; rating and confidence fit the action, and the override is on record.
\<close>

theorem recommendations_are_decided:
  assumes "validate_recommendation_inputs p analyses w (resolve_overrides p ovs store) = Inr d"
    and "list_all (\<lambda>a. al_status a = Alpha_Ok \<longrightarrow> al_score a \<noteq> None) analyses"
  shows "\<exists>rs. generate_recommendations p analyses w default_gate ovs store risk = Inr rs \<and>
    list_all2 (\<lambda>e r. \<exists>a \<in> set analyses. al_entity a = e \<and>
      r = decided a (case ovs of
          Some os \<Rightarrow> find_override (rev os) (po_cycle p) e
        | None \<Rightarrow> find_override (rev store) (po_cycle p) e) risk w) (po_selected p) rs"
proof -
  let ?ov = "\<lambda>e. find_override (resolve_overrides p ovs store) (po_cycle p) e"
  let ?one = "\<lambda>e. case map_of d e of
      Some a \<Rightarrow> recommend_one (default_gate risk w) (resolve_overrides p ovs store) (po_cycle p) e a
    | None \<Rightarrow> Inl (Raised KeyError)"
  have each: "\<exists>a \<in> set analyses. al_entity a = e \<and> ?one e = Inr (decided a (?ov e) risk w)"
    if e: "e \<in> set (po_selected p)" for e
  proof -
    from validated_analysis [OF assms(1) e] obtain a where a: "a \<in> set analyses" "map_of d e = Some a"
      "al_entity a = e" "al_cycle a = po_cycle p" by blast
    have "al_status a = Alpha_Ok \<longrightarrow> al_score a \<noteq> None" using assms(2) a(1) by (simp add: list_all_iff)
    from recommend_one_default [OF this a(4,3)] a show ?thesis by auto
  qed
  have "find_override (rev (filter (\<lambda>ov. ov_cycle ov = cid) os)) cid e = find_override (rev os) cid e" for os cid e
    by (induction os rule: rev_induct) (auto simp: find_override_def)
  then have ov: "?ov e = (case ovs of Some os \<Rightarrow> find_override (rev os) (po_cycle p) e
      | None \<Rightarrow> find_override (rev store) (po_cycle p) e)" for e
    by (simp add: resolve_overrides_def find_latest_override split: option.splits)
  have "\<exists>rs. res_list ?one es = Inr rs \<and>
      list_all2 (\<lambda>e r. \<exists>a \<in> set analyses. al_entity a = e \<and> r = decided a (?ov e) risk w) es rs"
    if "set es \<subseteq> set (po_selected p)" for es
    using that
  proof (induction es)
    case Nil
    then show ?case by simp
  next
    case (Cons e es)
    then obtain rs where rs: "res_list ?one es = Inr rs"
      "list_all2 (\<lambda>e r. \<exists>a \<in> set analyses. al_entity a = e \<and> r = decided a (?ov e) risk w) es rs" by auto
    from each [of e] Cons.prems obtain a where "a \<in> set analyses" "al_entity a = e"
      and one: "?one e = Inr (decided a (?ov e) risk w)" by auto
    with rs show ?case by (auto simp only: res_list.simps one res_bind_Inr list_all2_Cons)
  qed
  from this [of "po_selected p"] show ?thesis
    unfolding ov by (simp add: generate_recommendations_def Let_def assms(1))
qed

definition ex_two :: pool where
  "ex_two = \<lparr>po_cycle = ''C'', po_observation_size = 2, po_capacity = 2, po_selected = [''A'', ''B''], po_added = [],
     po_removed = [], po_frozen = []\<rparr>"

definition ex_analyses :: "alpha_result list" where
  "ex_analyses = [\<lparr>al_cycle = ''C'', al_entity = ''B'', al_analyzer = [], al_score = None, al_confidence = 0,
      al_status = Alpha_Inconclusive\<rparr>, ex_alpha]"

definition ex_override :: "string \<Rightarrow> action \<Rightarrow> override_record" where
  "ex_override e x = \<lparr>ov_cycle = ''C'', ov_entity = e, ov_submitted_by = [], ov_action = x, ov_rationale = []\<rparr>"

definition ex_store :: override_store where
  "ex_store = [ex_override ''A'' Reduce_It, ex_override ''A'' Buy_It, ex_override ''B'' Buy_It]"

definition ex_risk_off :: world_state where
  "ex_risk_off = ex_state\<lparr>ws_baseline := Risk_Off, ws_final := Risk_Off\<rparr>"

definition ex_recommendations :: "recommendation list" where
  "ex_recommendations =
     [\<lparr>re_cycle = ''C'', re_entity = ''A'', re_action = Hold_It, re_rating = Some ''B'', re_confidence = Some (5/8),
       re_trigger = By_Human, re_override = True,
       re_constraints = [(''regime_gate'', PStr ''risk_off_buy_to_hold'')]\<rparr>,
      \<lparr>re_cycle = ''C'', re_entity = ''B'', re_action = No_Conclusion, re_rating = None, re_confidence = None,
       re_trigger = By_Human, re_override = True, re_constraints = []\<rparr>]"

lemma ex_generate:
  "generate_recommendations ex_two ex_analyses ex_risk_off default_gate None ex_store [] = Inr ex_recommendations"
  by code_simp

theorem recommendations_are_decided_witness:
  "\<exists>a \<in> set ex_analyses. al_entity a = ''A'' \<and>
     ex_recommendations ! 0 = decided a (Some (ex_override ''A'' Buy_It)) [] ex_risk_off"
proof -
  let ?d = "[(''B'', hd ex_analyses), (''A'', ex_alpha)]"
  have "validate_recommendation_inputs ex_two ex_analyses ex_risk_off (resolve_overrides ex_two None ex_store) = Inr ?d"
    by code_simp
  moreover have "list_all (\<lambda>a. al_status a = Alpha_Ok \<longrightarrow> al_score a \<noteq> None) ex_analyses"
    unfolding ex_analyses_def ex_alpha_def by (simp del: not_None_eq)
  ultimately have all: "list_all2 (\<lambda>e r. \<exists>a \<in> set ex_analyses. al_entity a = e \<and>
      r = decided a (find_override (rev ex_store) ''C'' e) [] ex_risk_off) [''A'', ''B''] ex_recommendations"
    using recommendations_are_decided [of ex_two ex_analyses ex_risk_off None ex_store ?d "[]"]
    by (simp add: ex_generate) (simp add: ex_two_def)
  have "find_override (rev ex_store) ''C'' ''A'' = Some (ex_override ''A'' Buy_It)"
    by (simp add: find_override_def ex_store_def ex_override_def)
  with list_all2_nthD [OF all, of 0] show ?thesis by simp
qed

lemma validated_recommendation_Inr: "validated_recommendation r = Inr r' \<Longrightarrow> r' = r"
  by (simp add: validated_recommendation_def split: if_splits)

lemma force_inconclusive_Inr:
  "force_inconclusive r = Inr r' \<Longrightarrow> re_action r' = No_Conclusion \<and> re_rating r' = None \<and> re_confidence r' = None \<and>
     re_cycle r' = re_cycle r \<and> re_entity r' = re_entity r"
  by (auto simp: force_inconclusive_def dest!: validated_recommendation_Inr split: if_splits)

lemma mark_override_Inr:
  "mark_override applied r = Inr r' \<Longrightarrow> (applied \<longrightarrow> re_override r' \<and> re_trigger r' = By_Human) \<and>
     re_action r' = re_action r \<and> re_rating r' = re_rating r \<and> re_confidence r' = re_confidence r \<and>
     re_cycle r' = re_cycle r \<and> re_entity r' = re_entity r"
  by (auto simp: mark_override_def dest!: validated_recommendation_Inr split: if_splits)

lemma recommend_one_any:
  assumes "recommend_one gate ovs cid e a = Inr r"
  shows "re_cycle r = cid \<and> re_entity r = e \<and>
    (al_status a = Alpha_Inconclusive \<longrightarrow> re_action r = No_Conclusion \<and> re_rating r = None \<and> re_confidence r = None) \<and>
    (find_override ovs cid e \<noteq> None \<longrightarrow> re_override r \<and> re_trigger r = By_Human)"
proof -
  from assms obtain candidate gated last where candidate: "candidate_from_analysis a = Inr candidate"
    and identity: "validate_gated_identity gated cid e = Inr ()"
    and last: "(if re_action candidate = No_Conclusion then force_inconclusive gated else Inr gated) = Inr last"
    and marked: "mark_override (find_override ovs cid e \<noteq> None) last = Inr r"
    by (auto simp: recommend_one_def Let_def res_bind_eq_Inr simp del: not_None_eq)
  have "re_action candidate = No_Conclusion" if "al_status a = Alpha_Inconclusive"
    using candidate that by (auto simp: candidate_from_analysis_def dest!: validated_recommendation_Inr)
  moreover have "re_cycle gated = cid" "re_entity gated = e"
    using identity by (simp_all add: validate_gated_identity_def split: if_splits)
  ultimately show ?thesis
    using last mark_override_Inr [OF marked] force_inconclusive_Inr [of gated last] by (auto split: if_splits)
qed

lemma list_all2_mono_strong:
  "list_all2 P xs ys \<Longrightarrow> (\<And>x y. x \<in> set xs \<Longrightarrow> P x y \<Longrightarrow> Q x y) \<Longrightarrow> list_all2 Q xs ys"
  by (induction rule: list_all2_induct) auto

text \<open>
  C25: Whatever the constraint provider does, a recommendation names the cycle of the pool and its entity;
  an inconclusive analysis stays inconclusive, without rating and confidence, against every override; and
  a recommendation that an override touched says so.
\<close>

theorem inconclusive_is_never_upgraded:
  assumes "generate_recommendations p analyses w provider ovs store risk = Inr rs"
  shows "list_all2 (\<lambda>e r. re_cycle r = po_cycle p \<and> re_entity r = e \<and>
      (\<exists>a \<in> set analyses. al_entity a = e \<and>
        (al_status a = Alpha_Inconclusive \<longrightarrow>
          re_action r = No_Conclusion \<and> re_rating r = None \<and> re_confidence r = None)) \<and>
      (find_override (resolve_overrides p ovs store) (po_cycle p) e \<noteq> None \<longrightarrow>
        re_override r \<and> re_trigger r = By_Human)) (po_selected p) rs"
proof -
  from assms obtain d where d: "validate_recommendation_inputs p analyses w (resolve_overrides p ovs store) = Inr d"
    and run: "list_all2 (\<lambda>e r. (case map_of d e of
        Some a \<Rightarrow> recommend_one (provider risk w) (resolve_overrides p ovs store) (po_cycle p) e a
      | None \<Rightarrow> Inl (Raised KeyError)) = Inr r) (po_selected p) rs"
    by (auto simp: generate_recommendations_def Let_def res_bind_eq_Inr res_list_Inr_iff)
  have "re_cycle r = po_cycle p \<and> re_entity r = e \<and>
      (\<exists>a \<in> set analyses. al_entity a = e \<and>
        (al_status a = Alpha_Inconclusive \<longrightarrow>
          re_action r = No_Conclusion \<and> re_rating r = None \<and> re_confidence r = None)) \<and>
      (find_override (resolve_overrides p ovs store) (po_cycle p) e \<noteq> None \<longrightarrow>
        re_override r \<and> re_trigger r = By_Human)"
    if e: "e \<in> set (po_selected p)" and one: "(case map_of d e of
        Some a \<Rightarrow> recommend_one (provider risk w) (resolve_overrides p ovs store) (po_cycle p) e a
      | None \<Rightarrow> Inl (Raised KeyError)) = Inr r" for e r
  proof -
    from validated_analysis [OF d e] obtain a where a: "a \<in> set analyses" "map_of d e = Some a" "al_entity a = e" by blast
    with one have "recommend_one (provider risk w) (resolve_overrides p ovs store) (po_cycle p) e a = Inr r" by simp
    from recommend_one_any [OF this] a show ?thesis by blast
  qed
  with run show ?thesis by (rule list_all2_mono_strong)
qed

theorem inconclusive_is_never_upgraded_witness: "re_action (ex_recommendations ! 1) = No_Conclusion"
proof -
  have "list_all2 (\<lambda>e r. e = ''B'' \<longrightarrow> re_action r = No_Conclusion) (po_selected ex_two) ex_recommendations"
    by (rule list_all2_mono [OF inconclusive_is_never_upgraded [OF ex_generate]])
      (auto simp: ex_analyses_def ex_alpha_def)
  from list_all2_nthD [OF this, of 1] show ?thesis by (simp add: ex_two_def)
qed

end
