(* ===== verification/Manifest.thy ===== *)
theory Manifest
  imports Prelude
begin

text \<open>
  The universe manifest (\<open>mvp20/manifest.py\<close>). A manifest lists the constituents of the
  universe, each with an exchange code, a role, a pool and one to three industries; a sibling file
  declares the industries. \<open>validate_industry_set\<close> and \<open>validate_manifest\<close> walk over both payloads
  and collect every complaint; a result is ok when there is none. The two YAML payloads are the
  arguments, the second one \<open>None\<close> when its file does not exist. The texts of the complaints are
  the constructors of \<open>industry_error\<close> and \<open>manifest_error\<close>. Strings are bytes, so the digits
  of an exchange code are the ASCII ones. \<open>accepted_universe_is_sound\<close> says what an accepted pair is.
\<close>

section \<open>Exchange codes\<close>

text \<open>A pattern maps a text to what may remain after a match of a prefix.\<close>

type_synonym pattern = "string \<Rightarrow> string list"

definition re_class :: "(char \<Rightarrow> bool) \<Rightarrow> pattern" where
  "re_class P s = (case s of [] \<Rightarrow> [] | c # cs \<Rightarrow> if P c then [cs] else [])"

definition re_text :: "string \<Rightarrow> pattern" where
  "re_text t s = (if prefix t s then [drop (length t) s] else [])"

definition re_seq :: "pattern \<Rightarrow> pattern \<Rightarrow> pattern" where
  "re_seq p q s = concat (map q (p s))"

definition re_alt :: "pattern list \<Rightarrow> pattern" where
  "re_alt ps s = concat (map (\<lambda>p. p s) ps)"

fun re_times :: "nat \<Rightarrow> pattern \<Rightarrow> pattern" where
  "re_times 0 p = (\<lambda>s. [s])"
| "re_times (Suc n) p = re_seq p (re_times n p)"

definition re_between :: "nat \<Rightarrow> nat \<Rightarrow> pattern \<Rightarrow> pattern" where
  "re_between m n p = re_alt (map (\<lambda>k. re_times k p) [m..<Suc n])"

definition re_fullmatch :: "pattern \<Rightarrow> string \<Rightarrow> bool" where
  "re_fullmatch p s \<longleftrightarrow> [] \<in> set (p s)"

definition is_upper :: "char \<Rightarrow> bool" where
  "is_upper c \<longleftrightarrow> 65 \<le> char_code c \<and> char_code c \<le> 90"

definition ts_code_re :: pattern where
  "ts_code_re = re_alt
     [re_seq (re_times 6 (re_class is_digit))
        (re_seq (re_text ''.'') (re_alt [re_text ''SH'', re_text ''SZ'', re_text ''BJ''])),
      re_seq (re_between 4 5 (re_class is_digit)) (re_text ''.HK''),
      re_seq (re_between 1 5 (re_class is_upper))
        (re_seq (re_between 0 1 (re_seq (re_text ''.'') (re_class is_upper))) (re_text ''.US''))]"

definition history_window_months :: int where "history_window_months = 120"
definition graph_depth :: int where "graph_depth = 2"
definition related_policy :: string where "related_policy = ''graph_and_risk_summary_only''"
definition industry_count :: nat where "industry_count = 13"
definition max_industry_ids_per_constituent :: nat where "max_industry_ids_per_constituent = 3"
definition valid_roles :: "string list" where "valid_roles = [''target'', ''customer'', ''both'']"
definition default_role :: string where "default_role = ''target''"
definition valid_pools :: "string list" where "valid_pools = [''regular'', ''core'']"
definition default_pool :: string where "default_pool = ''regular''"
definition valid_graph_statuses :: "string list" where "valid_graph_statuses = [''present'', ''pending'']"

text \<open>\<open>_string\<close>, and the common \<open>_string(v) or default\<close>.\<close>

definition clean_string :: "pyval \<Rightarrow> string" where
  "clean_string v = (if v = PNone then [] else py_strip (py_str v))"

definition string_or :: "pyval \<Rightarrow> string \<Rightarrow> string" where
  "string_or v d = (if clean_string v = [] then d else clean_string v)"

text \<open>Comparison of a payload value with an integer constant: equal numbers are equal in Python.\<close>

fun equals_int :: "pyval \<Rightarrow> int \<Rightarrow> bool" where
  "equals_int (PBool b) n = ((if b then 1 else 0) = n)"
| "equals_int (PInt i) n = (i = n)"
| "equals_int (PFloat x) n = (x = of_int n)"
| "equals_int _ n = False"

section \<open>The industry set\<close>

datatype industry_error =
    IndustrySetIdRequired | IndustriesNotList | IndustryNotObject nat | IndustryIdRequired nat
  | IndustryIdNotUpper nat | DuplicateIndustry string | DisplayNameRequired nat
  | BadGraphStatus nat string | IndustryCountWrong nat

record industry_set_result =
  is_ok :: bool
  is_set_id :: string
  is_ids :: "string list"
  is_graph_status :: "(string \<times> string) list"
  is_errors :: "industry_error list"

definition slug_ok :: "string \<Rightarrow> bool" where
  "slug_ok s \<longleftrightarrow> list_all (\<lambda>c. char_code c < 128) s \<and> s \<noteq> [] \<and> is_upper (hd s) \<and>
     list_all (\<lambda>c. is_upper c \<or> is_digit c \<or> c = CHR ''_'') (tl s)"

text \<open>The state of the loop: the errors, the ids seen and the statuses.\<close>

type_synonym industry_walk = "industry_error list \<times> string list \<times> (string \<times> string) list"

definition check_industry :: "nat \<Rightarrow> pyval \<Rightarrow> industry_walk \<Rightarrow> industry_walk" where
  "check_industry i e w = (case w of (es, seen, gs) \<Rightarrow>
     case e of
       PDict d \<Rightarrow>
         (let slug = clean_string (dget d ''id'') in
          if slug = [] then (es @ [IndustryIdRequired i], seen, gs)
          else
            let es1 = es @ (if slug_ok slug then [] else [IndustryIdNotUpper i]);
                es2 = es1 @ (if slug \<in> set seen then [DuplicateIndustry slug] else []);
                seen2 = (if slug \<in> set seen then seen else seen @ [slug]);
                es3 = es2 @ (if clean_string (dget d ''display_name'') = [] then [DisplayNameRequired i] else []);
                g = string_or (dget d ''graph_status'') ''present'' in
            if g \<notin> set valid_graph_statuses then (es3 @ [BadGraphStatus i g], seen2, gs)
            else (es3, seen2, dput slug g gs))
     | _ \<Rightarrow> (es @ [IndustryNotObject i], seen, gs))"

fun check_industries :: "nat \<Rightarrow> pyval list \<Rightarrow> industry_walk \<Rightarrow> industry_walk" where
  "check_industries i [] w = w"
| "check_industries i (e # es) w = check_industries (Suc i) es (check_industry i e w)"

definition as_list :: "pyval \<Rightarrow> pyval list" where
  "as_list v = (case v of PList vs \<Rightarrow> vs | _ \<Rightarrow> [])"

definition is_list :: "pyval \<Rightarrow> bool" where
  "is_list v \<longleftrightarrow> (case v of PList vs \<Rightarrow> True | _ \<Rightarrow> False)"

definition load_object :: "pyval \<Rightarrow> pydict res" where
  "load_object payload = (case payload of PDict d \<Rightarrow> Inr d | _ \<Rightarrow> Inl ValueError)"

definition validate_industry_set :: "pyval \<Rightarrow> industry_set_result res" where
  "validate_industry_set payload = res_map
     (\<lambda>d. let set_id = clean_string (dget d ''industry_set_id'');
              es0 = (if set_id = [] then [IndustrySetIdRequired] else []);
              es1 = es0 @ (if is_list (dget d ''industries'') then [] else [IndustriesNotList]);
              industries = as_list (dget d ''industries'');
              (es2, seen, gs) = check_industries 1 industries (es1, [], []);
              es3 = es2 @ (if industries \<noteq> [] \<and> length seen \<noteq> industry_count
                           then [IndustryCountWrong (length seen)] else [])
          in \<lparr>is_ok = (es3 = []), is_set_id = set_id, is_ids = seen, is_graph_status = gs, is_errors = es3\<rparr>)
     (load_object payload)"

section \<open>The constituents\<close>

datatype manifest_error =
    UniverseIdRequired | HistoryWindowWrong | GraphDepthWrong | RelatedPolicyWrong
  | IndustrySetRefRequired | InIndustries industry_error | RefMismatch string string
  | IndustriesFileMissing | ConstituentsNotList | NoConstituents | ConstituentNotObject nat
  | BadTsCode nat string | DuplicateTsCode string | BadRole nat string | BadPool nat string
  | IndustryIdsMissing nat | TooManyIndustryIds nat | EmptyIndustryId nat
  | RepeatedIndustryId nat string | UnknownIndustryId nat string
  | IndustriesWithoutConstituent "string list" | SlotsNotBlocked

datatype manifest_warning = PendingWithoutConstituent string | LiveEvidenceBlocked

text \<open>One industry id of a constituent: the errors, the ids so far and the industries covered.\<close>

type_synonym slug_walk = "manifest_error list \<times> string list \<times> string list"

definition check_slug :: "string list \<Rightarrow> nat \<Rightarrow> pyval \<Rightarrow> slug_walk \<Rightarrow> slug_walk" where
  "check_slug valid i v w = (case w of (es, uniq, covered) \<Rightarrow>
     (let s = clean_string v in
      if s = [] then (es @ [EmptyIndustryId i], uniq, covered)
      else if s \<in> set uniq then (es @ [RepeatedIndustryId i s], uniq, covered)
      else if valid \<noteq> [] \<and> s \<notin> set valid
      then (es @ [UnknownIndustryId i s], uniq @ [s], covered)
      else (es, uniq @ [s], List.insert s covered)))"

record constituent_walk =
  cw_errors :: "manifest_error list"
  cw_codes :: "string list"
  cw_slots :: nat
  cw_covered :: "string list"
  cw_pools :: "(string \<times> nat) list"

definition constituent_code :: "pydict \<Rightarrow> string" where
  "constituent_code t = clean_string (dget t ''ts_code'')"

definition count_pool :: "string \<Rightarrow> (string \<times> nat) list \<Rightarrow> (string \<times> nat) list" where
  "count_pool p counts = dput p (case map_of counts p of None \<Rightarrow> 1 | Some n \<Rightarrow> n + 1) counts"

text \<open>The complaints about code, role and pool; then the loop over the industry ids.\<close>

definition head_errors :: "nat \<Rightarrow> pydict \<Rightarrow> string list \<Rightarrow> manifest_error list" where
  "head_errors i t codes =
     (let code = constituent_code t; role = string_or (dget t ''role'') default_role;
          pool = string_or (dget t ''pool'') default_pool in
      (if re_fullmatch ts_code_re code then [] else [BadTsCode i code]) @
      (if code \<in> set codes then [DuplicateTsCode code] else []) @
      (if role \<in> set valid_roles then [] else [BadRole i role]) @
      (if pool \<in> set valid_pools then [] else [BadPool i pool]))"

definition enter_constituent :: "nat \<Rightarrow> pydict \<Rightarrow> constituent_walk \<Rightarrow> constituent_walk" where
  "enter_constituent i t w =
     (let pool = string_or (dget t ''pool'') default_pool in
      w\<lparr>cw_errors := cw_errors w @ head_errors i t (cw_codes w),
        cw_codes := List.insert (constituent_code t) (cw_codes w),
        cw_slots := cw_slots w + (if dget t ''slot'' = PBool True then 1 else 0),
        cw_pools := (if pool \<in> set valid_pools then count_pool pool (cw_pools w) else cw_pools w)\<rparr>)"

definition check_industry_ids :: "string list \<Rightarrow> nat \<Rightarrow> pyval \<Rightarrow> constituent_walk \<Rightarrow> constituent_walk" where
  "check_industry_ids valid i ids w =
     (if \<not> is_list ids \<or> as_list ids = []
      then w\<lparr>cw_errors := cw_errors w @ [IndustryIdsMissing i]\<rparr>
      else
        (let es = cw_errors w @ (if max_industry_ids_per_constituent < length (as_list ids)
                                 then [TooManyIndustryIds i] else []);
             (es2, _, covered) = fold (check_slug valid i) (as_list ids) (es, [], cw_covered w)
         in w\<lparr>cw_errors := es2, cw_covered := covered\<rparr>))"

definition check_constituent :: "string list \<Rightarrow> nat \<Rightarrow> pyval \<Rightarrow> constituent_walk \<Rightarrow> constituent_walk" where
  "check_constituent valid i v w =
     (case v of
        PDict t \<Rightarrow> check_industry_ids valid i (dget t ''industry_ids'') (enter_constituent i t w)
      | _ \<Rightarrow> w\<lparr>cw_errors := cw_errors w @ [ConstituentNotObject i]\<rparr>)"

fun check_constituents :: "string list \<Rightarrow> nat \<Rightarrow> pyval list \<Rightarrow> constituent_walk \<Rightarrow> constituent_walk" where
  "check_constituents valid i [] w = w"
| "check_constituents valid i (v # vs) w = check_constituents valid (Suc i) vs (check_constituent valid i v w)"

section \<open>The manifest\<close>

record manifest_result =
  mr_ok :: bool
  mr_universe_id :: string
  mr_industry_count :: nat
  mr_constituent_count :: nat
  mr_live_evidence_blocked :: bool
  mr_covered :: "string list"
  mr_missing :: "string list"
  mr_errors :: "manifest_error list"
  mr_warnings :: "manifest_warning list"
  mr_pool_counts :: "(string \<times> nat) list"

definition header_errors :: "pydict \<Rightarrow> manifest_error list" where
  "header_errors m =
     (if clean_string (dget m ''universe_id'') = [] then [UniverseIdRequired] else []) @
     (if equals_int (dget m ''history_window_months'') history_window_months then [] else [HistoryWindowWrong]) @
     (if equals_int (dget m ''graph_depth'') graph_depth then [] else [GraphDepthWrong]) @
     (if dget m ''related_entity_policy'' = PStr related_policy then [] else [RelatedPolicyWrong]) @
     (if clean_string (dget m ''industry_set_ref'') = [] then [IndustrySetRefRequired] else [])"

definition reference_errors :: "string \<Rightarrow> industry_set_result \<Rightarrow> manifest_error list" where
  "reference_errors ref iv =
     (if is_ok iv then [] else map InIndustries (is_errors iv)) @
     (if ref \<noteq> [] \<and> is_set_id iv \<noteq> [] \<and> ref \<noteq> is_set_id iv then [RefMismatch ref (is_set_id iv)] else [])"

definition missing_industries :: "string list \<Rightarrow> string list \<Rightarrow> string list" where
  "missing_industries valid covered = sort (remdups (filter (\<lambda>s. s \<notin> set covered) valid))"

definition is_pending :: "(string \<times> string) list \<Rightarrow> string \<Rightarrow> bool" where
  "is_pending gs slug \<longleftrightarrow> map_of gs slug = Some ''pending''"

definition initial_walk :: "manifest_error list \<Rightarrow> constituent_walk" where
  "initial_walk es = \<lparr>cw_errors = es, cw_codes = [], cw_slots = 0, cw_covered = [],
     cw_pools = map (\<lambda>p. (p, 0)) valid_pools\<rparr>"

definition finish_manifest ::
  "pydict \<Rightarrow> string list \<Rightarrow> (string \<times> string) list \<Rightarrow> manifest_error list \<Rightarrow> manifest_result" where
  "finish_manifest m valid gs es0 =
     (let cs = dget m ''constituents'';
          es1 = es0 @ (if is_list cs then [] else [ConstituentsNotList]) @
                      (if as_list cs = [] then [NoConstituents] else []);
          w = check_constituents valid 1 (as_list cs) (initial_walk es1);
          missing = missing_industries valid (cw_covered w);
          hard = filter (\<lambda>s. \<not> is_pending gs s) missing;
          soft = filter (is_pending gs) missing;
          blocked = truthy (dget m ''live_evidence_blocked'');
          es2 = cw_errors w @ (if hard \<noteq> [] then [IndustriesWithoutConstituent hard] else []) @
                (if cw_slots w \<noteq> 0 \<and> \<not> blocked then [SlotsNotBlocked] else [])
      in \<lparr>mr_ok = (es2 = []), mr_universe_id = clean_string (dget m ''universe_id''),
          mr_industry_count = length (remdups valid), mr_constituent_count = length (as_list cs),
          mr_live_evidence_blocked = blocked, mr_covered = sort (remdups (cw_covered w)),
          mr_missing = missing, mr_errors = es2,
          mr_warnings = map PendingWithoutConstituent soft @ (if blocked then [LiveEvidenceBlocked] else []),
          mr_pool_counts = cw_pools w\<rparr>)"

definition validate_manifest :: "pyval \<Rightarrow> pyval option \<Rightarrow> manifest_result res" where
  "validate_manifest manifest industries =
     res_bind (load_object manifest) (\<lambda>m.
       case industries of
         None \<Rightarrow> Inr (finish_manifest m [] [] (header_errors m @ [IndustriesFileMissing]))
       | Some payload \<Rightarrow>
           res_map (\<lambda>iv. finish_manifest m (is_ids iv) (is_graph_status iv)
                           (header_errors m @ reference_errors (clean_string (dget m ''industry_set_ref'')) iv))
             (validate_industry_set payload))"

section \<open>What an accepted universe is\<close>

definition entry_id :: "pyval \<Rightarrow> string" where
  "entry_id e = clean_string (dget (as_dict e) ''id'')"

definition entry_status :: "pyval \<Rightarrow> string" where
  "entry_status e = string_or (dget (as_dict e) ''graph_status'') ''present''"

definition industry_sound :: "pyval \<Rightarrow> bool" where
  "industry_sound e \<longleftrightarrow> is_dict e \<and> slug_ok (entry_id e) \<and>
     clean_string (dget (as_dict e) ''display_name'') \<noteq> [] \<and> entry_status e \<in> set valid_graph_statuses"

definition sound_industries :: "pydict \<Rightarrow> bool" where
  "sound_industries d \<longleftrightarrow>
     clean_string (dget d ''industry_set_id'') \<noteq> [] \<and> is_list (dget d ''industries'') \<and>
     (let es = as_list (dget d ''industries'') in
      list_all industry_sound es \<and> distinct (map entry_id es) \<and> (es = [] \<or> length es = 13))"

definition member_code :: "pyval \<Rightarrow> string" where
  "member_code v = constituent_code (as_dict v)"

definition member_slugs :: "pyval \<Rightarrow> string list" where
  "member_slugs v = map clean_string (as_list (dget (as_dict v) ''industry_ids''))"

definition member_pool :: "pyval \<Rightarrow> string" where
  "member_pool v = string_or (dget (as_dict v) ''pool'') default_pool"

definition member_sound :: "string list \<Rightarrow> pyval \<Rightarrow> bool" where
  "member_sound valid v \<longleftrightarrow> is_dict v \<and> re_fullmatch ts_code_re (member_code v) \<and>
     string_or (dget (as_dict v) ''role'') default_role \<in> set valid_roles \<and>
     member_pool v \<in> set valid_pools \<and>
     is_list (dget (as_dict v) ''industry_ids'') \<and>
     1 \<le> length (member_slugs v) \<and> length (member_slugs v) \<le> 3 \<and>
     [] \<notin> set (member_slugs v) \<and> distinct (member_slugs v) \<and>
     (valid = [] \<or> set (member_slugs v) \<subseteq> set valid)"

definition sound_manifest :: "pydict \<Rightarrow> pyval list \<Rightarrow> bool" where
  "sound_manifest m entries \<longleftrightarrow> header_errors m = [] \<and>
     is_list (dget m ''constituents'') \<and>
     (let vs = as_list (dget m ''constituents'') in
      vs \<noteq> [] \<and> list_all (member_sound (map entry_id entries)) vs \<and> distinct (map member_code vs) \<and>
      list_all (\<lambda>e. entry_status e = ''pending'' \<or> list_ex (\<lambda>v. entry_id e \<in> set (member_slugs v)) vs) entries \<and>
      (truthy (dget m ''live_evidence_blocked'') \<or>
       list_all (\<lambda>v. dget (as_dict v) ''slot'' \<noteq> PBool True) vs))"

lemma slug_ok_nonempty: "slug_ok s \<Longrightarrow> s \<noteq> []"
  by (simp add: slug_ok_def)

lemma check_industry_step:
  "case check_industry i e (es, seen, gs) of (es', seen', gs') \<Rightarrow>
     (es' = [] \<longleftrightarrow> es = [] \<and> industry_sound e \<and> entry_id e \<notin> set seen) \<and>
     (es' = [] \<longrightarrow> seen' = seen @ [entry_id e] \<and> gs' = dput (entry_id e) (entry_status e) gs)"
proof (cases e)
  case (PDict d)
  show ?thesis
    using slug_ok_nonempty [of "clean_string (dget d ''id'')"]
    by (auto simp: check_industry_def PDict industry_sound_def entry_id_def entry_status_def Let_def)
qed (simp_all add: check_industry_def industry_sound_def)

lemma check_industries_walk:
  "case check_industries i xs (es, seen, gs) of (es', seen', gs') \<Rightarrow>
     (es' = [] \<longleftrightarrow> es = [] \<and> list_all industry_sound xs \<and> distinct (map entry_id xs) \<and>
                   set (map entry_id xs) \<inter> set seen = {}) \<and>
     (es' = [] \<longrightarrow> seen' = seen @ map entry_id xs \<and>
                   map_of gs' = (map_of gs)(map entry_id xs [\<mapsto>] map entry_status xs))"
proof (induction xs arbitrary: i es seen gs)
  case Nil
  then show ?case by simp
next
  case (Cons x xs)
  obtain es1 seen1 gs1 where 1: "check_industry i x (es, seen, gs) = (es1, seen1, gs1)"
    by (metis prod_cases3)
  obtain es2 seen2 gs2 where 2: "check_industries (Suc i) xs (es1, seen1, gs1) = (es2, seen2, gs2)"
    by (metis prod_cases3)
  have s: "es1 = [] \<longleftrightarrow> es = [] \<and> industry_sound x \<and> entry_id x \<notin> set seen"
    "es1 = [] \<Longrightarrow> seen1 = seen @ [entry_id x]" "es1 = [] \<Longrightarrow> gs1 = dput (entry_id x) (entry_status x) gs"
    using check_industry_step [where i = i and e = x and es = es and seen = seen and gs = gs] 1 by auto
  have r: "es2 = [] \<longleftrightarrow> es1 = [] \<and> list_all industry_sound xs \<and> distinct (map entry_id xs) \<and>
                   set (map entry_id xs) \<inter> set seen1 = {}"
    "es2 = [] \<Longrightarrow> seen2 = seen1 @ map entry_id xs"
    "es2 = [] \<Longrightarrow> map_of gs2 = (map_of gs1)(map entry_id xs [\<mapsto>] map entry_status xs)"
    using Cons.IH [where i = "Suc i" and es = es1 and seen = seen1 and gs = gs1] 2 by auto
  have "es2 = [] \<longleftrightarrow> es = [] \<and> list_all industry_sound (x # xs) \<and> distinct (map entry_id (x # xs)) \<and>
                   set (map entry_id (x # xs)) \<inter> set seen = {}"
  proof (cases "es1 = []")
    case True
    have "set (map entry_id xs) \<inter> set seen1 = {} \<longleftrightarrow>
        entry_id x \<notin> set (map entry_id xs) \<and> set (map entry_id xs) \<inter> set seen = {}"
      unfolding s(2) [OF True] by auto
    then show ?thesis using s(1) r(1) True by simp blast
  qed (use s(1) r(1) in auto)
  moreover have "es2 = [] \<longrightarrow> seen2 = seen @ map entry_id (x # xs) \<and>
      map_of gs2 = (map_of gs)(map entry_id (x # xs) [\<mapsto>] map entry_status (x # xs))"
  proof
    assume "es2 = []"
    then have "es1 = []" using r(1) by simp
    then show "seen2 = seen @ map entry_id (x # xs) \<and>
        map_of gs2 = (map_of gs)(map entry_id (x # xs) [\<mapsto>] map entry_status (x # xs))"
      using s(2,3) r(2,3) \<open>es2 = []\<close> by (simp add: map_of_dput)
  qed
  ultimately show ?case by (simp add: 1 2)
qed

lemma map_upds_lookup:
  "distinct (map f xs) \<Longrightarrow> x \<in> set xs \<Longrightarrow> (m(map f xs [\<mapsto>] map g xs)) (f x) = Some (g x)"
proof (induction xs arbitrary: m)
  case Nil
  then show ?case by simp
next
  case (Cons y ys)
  show ?case
  proof (cases "x \<in> set ys")
    case True
    then have "f x \<in> f ` set ys" by simp
    with Cons.prems(1) have "f x \<noteq> f y" by auto
    with Cons.IH [of m] Cons.prems(1) True show ?thesis by simp
  next
    case False
    with Cons.prems have "x = y" "f y \<notin> set (map f ys)" by auto
    then show ?thesis by (simp add: map_upds_apply_nontin)
  qed
qed

lemma industry_set_result:
  assumes "validate_industry_set (PDict d) = Inr iv"
  shows "is_ok iv \<longleftrightarrow> sound_industries d" and "is_ok iv \<longleftrightarrow> is_errors iv = []"
    and "is_set_id iv = clean_string (dget d ''industry_set_id'')"
    and "sound_industries d \<Longrightarrow> is_ids iv = map entry_id (as_list (dget d ''industries''))"
    and "sound_industries d \<Longrightarrow> e \<in> set (as_list (dget d ''industries'')) \<Longrightarrow>
         is_pending (is_graph_status iv) (entry_id e) \<longleftrightarrow> entry_status e = ''pending''"
proof -
  let ?xs = "as_list (dget d ''industries'')"
  let ?es = "(if clean_string (dget d ''industry_set_id'') = [] then [IndustrySetIdRequired] else []) @
             (if is_list (dget d ''industries'') then [] else [IndustriesNotList])"
  obtain es seen gs where w: "check_industries 1 ?xs (?es, [], []) = (es, seen, gs)"
    by (metis prod_cases3)
  have iv: "iv = (let es3 = es @ (if ?xs \<noteq> [] \<and> length seen \<noteq> industry_count then [IndustryCountWrong (length seen)] else [])
     in \<lparr>is_ok = (es3 = []), is_set_id = clean_string (dget d ''industry_set_id''), is_ids = seen,
         is_graph_status = gs, is_errors = es3\<rparr>)"
    using assms w by (simp add: validate_industry_set_def load_object_def Let_def)
  have s: "es = [] \<longleftrightarrow> ?es = [] \<and> list_all industry_sound ?xs \<and> distinct (map entry_id ?xs)"
    "es = [] \<Longrightarrow> seen = map entry_id ?xs"
    "es = [] \<Longrightarrow> map_of gs = (map_of [])(map entry_id ?xs [\<mapsto>] map entry_status ?xs)"
    using check_industries_walk [where i = 1 and xs = ?xs and es = ?es and seen = "[]" and gs = "[]"] w by auto
  have es: "sound_industries d \<Longrightarrow> es = []"
    using s(1) by (auto simp: sound_industries_def Let_def)
  show "is_ok iv \<longleftrightarrow> sound_industries d"
    using s(1,2) by (auto simp: iv Let_def sound_industries_def industry_count_def)
  show "is_ok iv \<longleftrightarrow> is_errors iv = []" by (simp add: iv Let_def)
  show "is_set_id iv = clean_string (dget d ''industry_set_id'')" by (simp add: iv Let_def)
  show "is_ids iv = map entry_id ?xs" if "sound_industries d"
    using s(2) [OF es [OF that]] by (simp add: iv Let_def)
  show "is_pending (is_graph_status iv) (entry_id e) \<longleftrightarrow> entry_status e = ''pending''"
    if "sound_industries d" and "e \<in> set ?xs"
  proof -
    have "map_of gs (entry_id e) = Some (entry_status e)"
      using s(1) s(3) es [OF that(1)] map_upds_lookup [of entry_id ?xs e "map_of []" entry_status] that(2) by simp
    then show ?thesis by (simp add: is_pending_def iv Let_def)
  qed
qed

lemma check_slugs_walk:
  "fold (check_slug valid i) vs (es, uniq, cov) = (es', uniq', cov') \<Longrightarrow>
     (es' = [] \<longleftrightarrow> es = [] \<and> [] \<notin> set (map clean_string vs) \<and> distinct (map clean_string vs) \<and>
        set (map clean_string vs) \<inter> set uniq = {} \<and> (valid = [] \<or> set (map clean_string vs) \<subseteq> set valid)) \<and>
     (es' = [] \<longrightarrow> set cov' = set cov \<union> set (map clean_string vs))"
proof (induction vs arbitrary: es uniq cov)
  case Nil
  then show ?case by auto
next
  case (Cons v vs)
  obtain es1 u1 c1 where 1: "check_slug valid i v (es, uniq, cov) = (es1, u1, c1)"
    by (metis prod_cases3)
  have s: "es1 = [] \<longleftrightarrow> es = [] \<and> clean_string v \<noteq> [] \<and> clean_string v \<notin> set uniq \<and> (valid = [] \<or> clean_string v \<in> set valid)"
    "es1 = [] \<Longrightarrow> u1 = uniq @ [clean_string v]" "es1 = [] \<Longrightarrow> set c1 = insert (clean_string v) (set cov)"
    using 1 by (auto simp: check_slug_def Let_def split: if_splits)
  have r: "es' = [] \<longleftrightarrow> es1 = [] \<and> [] \<notin> set (map clean_string vs) \<and> distinct (map clean_string vs) \<and>
        set (map clean_string vs) \<inter> set u1 = {} \<and> (valid = [] \<or> set (map clean_string vs) \<subseteq> set valid)"
    "es' = [] \<Longrightarrow> set cov' = set c1 \<union> set (map clean_string vs)"
    using Cons.IH [of es1 u1 c1] Cons.prems 1 by auto
  have "es' = [] \<longleftrightarrow> es = [] \<and> [] \<notin> set (map clean_string (v # vs)) \<and> distinct (map clean_string (v # vs)) \<and>
        set (map clean_string (v # vs)) \<inter> set uniq = {} \<and> (valid = [] \<or> set (map clean_string (v # vs)) \<subseteq> set valid)"
  proof (cases "es1 = []")
    case True
    have "set (map clean_string vs) \<inter> set u1 = {} \<longleftrightarrow>
        clean_string v \<notin> set (map clean_string vs) \<and> set (map clean_string vs) \<inter> set uniq = {}"
      unfolding s(2) [OF True] by auto
    then show ?thesis using r(1) True unfolding s(1)
      by (simp only: list.map list.set distinct.simps insert_subset Int_insert_left if_True) auto
  qed (use s(1) r(1) in auto)
  moreover have "set cov' = set cov \<union> set (map clean_string (v # vs))" if "es' = []"
    using s(3) r(1) r(2) that by auto
  ultimately show ?case by blast
qed

definition pool_total :: "(string \<times> nat) list \<Rightarrow> nat" where
  "pool_total counts = sum_list (map snd counts)"

lemma pool_total_count: "pool_total (count_pool p counts) = Suc (pool_total counts)"
  unfolding count_pool_def pool_total_def by (induction counts) auto

definition has_slot :: "pyval \<Rightarrow> bool" where
  "has_slot v \<longleftrightarrow> dget (as_dict v) ''slot'' = PBool True"

lemma check_constituent_step:
  fixes valid i v w
  defines "w' \<equiv> check_constituent valid i v w"
  shows "cw_errors w' = [] \<longleftrightarrow> cw_errors w = [] \<and> member_sound valid v \<and> member_code v \<notin> set (cw_codes w)"
    and "cw_errors w' = [] \<Longrightarrow> set (cw_codes w') = insert (member_code v) (set (cw_codes w))"
    and "cw_errors w' = [] \<Longrightarrow> cw_slots w' = cw_slots w + (if has_slot v then 1 else 0)"
    and "cw_errors w' = [] \<Longrightarrow> set (cw_covered w') = set (cw_covered w) \<union> set (member_slugs v)"
    and "cw_errors w' = [] \<Longrightarrow> pool_total (cw_pools w') = Suc (pool_total (cw_pools w))"
proof -
  have head: "head_errors i t codes = [] \<longleftrightarrow>
      re_fullmatch ts_code_re (constituent_code t) \<and> constituent_code t \<notin> set codes \<and>
      string_or (dget t ''role'') default_role \<in> set valid_roles \<and> string_or (dget t ''pool'') default_pool \<in> set valid_pools"
    for t codes
    by (auto simp: head_errors_def Let_def)
  have all: "(cw_errors w' = [] \<longleftrightarrow> cw_errors w = [] \<and> member_sound valid v \<and> member_code v \<notin> set (cw_codes w)) \<and>
     (cw_errors w' = [] \<longrightarrow> set (cw_codes w') = insert (member_code v) (set (cw_codes w)) \<and>
        cw_slots w' = cw_slots w + (if has_slot v then 1 else 0) \<and>
        set (cw_covered w') = set (cw_covered w) \<union> set (member_slugs v) \<and>
        pool_total (cw_pools w') = Suc (pool_total (cw_pools w)))"
  proof (cases v)
    case (PDict t)
    let ?ids = "dget t ''industry_ids''"
    show ?thesis
    proof (cases "\<not> is_list ?ids \<or> as_list ?ids = []")
      case True
      then have "cw_errors w' \<noteq> []"
        by (simp add: w'_def check_constituent_def PDict check_industry_ids_def)
      moreover have "\<not> member_sound valid v"
        using True by (auto simp: member_sound_def member_slugs_def PDict)
      ultimately show ?thesis by blast
    next
      case False
      let ?es = "(cw_errors w @ head_errors i t (cw_codes w)) @
                 (if max_industry_ids_per_constituent < length (as_list ?ids) then [TooManyIndustryIds i] else [])"
      obtain es2 u2 c2 where f: "fold (check_slug valid i) (as_list ?ids) (?es, [], cw_covered w) = (es2, u2, c2)"
        by (metis prod_cases3)
      have w': "cw_errors w' = es2" "cw_codes w' = List.insert (constituent_code t) (cw_codes w)"
        "cw_slots w' = cw_slots w + (if has_slot v then 1 else 0)" "cw_covered w' = c2"
        "cw_pools w' = (if member_pool v \<in> set valid_pools then count_pool (member_pool v) (cw_pools w) else cw_pools w)"
        using False f by (simp_all add: w'_def check_constituent_def PDict check_industry_ids_def enter_constituent_def Let_def has_slot_def member_pool_def)
      have s: "es2 = [] \<longleftrightarrow> ?es = [] \<and> [] \<notin> set (member_slugs v) \<and> distinct (member_slugs v) \<and>
          (valid = [] \<or> set (member_slugs v) \<subseteq> set valid)"
        "es2 = [] \<Longrightarrow> set c2 = set (cw_covered w) \<union> set (member_slugs v)"
        using check_slugs_walk [OF f] by (auto simp: member_slugs_def PDict)
      have n: "length (member_slugs v) = length (as_list ?ids)" "1 \<le> length (as_list ?ids)"
        using False by (simp_all add: member_slugs_def PDict Suc_le_eq)
      have iff: "es2 = [] \<longleftrightarrow> cw_errors w = [] \<and> member_sound valid v \<and> member_code v \<notin> set (cw_codes w)"
        unfolding s(1) member_sound_def n(1) using False n(2)
        by (auto simp: head PDict member_code_def member_pool_def max_industry_ids_per_constituent_def)
      moreover have "member_sound valid v \<Longrightarrow> member_pool v \<in> set valid_pools"
        by (simp add: member_sound_def)
      ultimately show ?thesis
        unfolding w' using s(2) by (auto simp: pool_total_count member_code_def PDict)
    qed
  qed (simp_all add: w'_def check_constituent_def member_sound_def)
  then show "cw_errors w' = [] \<longleftrightarrow> cw_errors w = [] \<and> member_sound valid v \<and> member_code v \<notin> set (cw_codes w)"
    and "cw_errors w' = [] \<Longrightarrow> set (cw_codes w') = insert (member_code v) (set (cw_codes w))"
    and "cw_errors w' = [] \<Longrightarrow> cw_slots w' = cw_slots w + (if has_slot v then 1 else 0)"
    and "cw_errors w' = [] \<Longrightarrow> set (cw_covered w') = set (cw_covered w) \<union> set (member_slugs v)"
    and "cw_errors w' = [] \<Longrightarrow> pool_total (cw_pools w') = Suc (pool_total (cw_pools w))"
    by blast+
qed

lemma check_constituents_walk:
  fixes valid
  defines "walk \<equiv> check_constituents valid"
  shows "(cw_errors (walk i vs w) = [] \<longleftrightarrow> cw_errors w = [] \<and> list_all (member_sound valid) vs \<and>
        distinct (map member_code vs) \<and> set (map member_code vs) \<inter> set (cw_codes w) = {}) \<and>
     (cw_errors (walk i vs w) = [] \<longrightarrow>
        cw_slots (walk i vs w) = cw_slots w + length (filter has_slot vs) \<and>
        set (cw_covered (walk i vs w)) = set (cw_covered w) \<union> (\<Union>v\<in>set vs. set (member_slugs v)) \<and>
        pool_total (cw_pools (walk i vs w)) = pool_total (cw_pools w) + length vs)"
  unfolding walk_def
proof (induction vs arbitrary: i w)
  case Nil
  then show ?case by simp
next
  case (Cons v vs)
  let ?w1 = "check_constituent valid i v w"
  let ?w2 = "check_constituents valid (Suc i) vs ?w1"
  note s = check_constituent_step [of valid i v w]
  have r: "cw_errors ?w2 = [] \<longleftrightarrow> cw_errors ?w1 = [] \<and> list_all (member_sound valid) vs \<and>
        distinct (map member_code vs) \<and> set (map member_code vs) \<inter> set (cw_codes ?w1) = {}"
    "cw_errors ?w2 = [] \<Longrightarrow> cw_slots ?w2 = cw_slots ?w1 + length (filter has_slot vs)"
    "cw_errors ?w2 = [] \<Longrightarrow> set (cw_covered ?w2) = set (cw_covered ?w1) \<union> (\<Union>v\<in>set vs. set (member_slugs v))"
    "cw_errors ?w2 = [] \<Longrightarrow> pool_total (cw_pools ?w2) = pool_total (cw_pools ?w1) + length vs"
    using Cons.IH [of "Suc i" ?w1] by blast+
  have "cw_errors ?w2 = [] \<longleftrightarrow> cw_errors w = [] \<and> list_all (member_sound valid) (v # vs) \<and>
        distinct (map member_code (v # vs)) \<and> set (map member_code (v # vs)) \<inter> set (cw_codes w) = {}"
  proof (cases "cw_errors ?w1 = []")
    case True
    have "set (map member_code vs) \<inter> set (cw_codes ?w1) = {} \<longleftrightarrow>
        member_code v \<notin> set (map member_code vs) \<and> set (map member_code vs) \<inter> set (cw_codes w) = {}"
      unfolding s(2) [OF True] by auto
    then show ?thesis using s(1) r(1) True by (simp del: set_map) blast
  next
    case False
    then have "\<not> (cw_errors w = [] \<and> member_sound valid v \<and> member_code v \<notin> set (cw_codes w))"
      using s(1) by blast
    then show ?thesis using r(1) False by simp
  qed
  moreover have "cw_slots ?w2 = cw_slots w + length (filter has_slot (v # vs)) \<and>
      set (cw_covered ?w2) = set (cw_covered w) \<union> (\<Union>v\<in>set (v # vs). set (member_slugs v)) \<and>
      pool_total (cw_pools ?w2) = pool_total (cw_pools w) + length (v # vs)" if e: "cw_errors ?w2 = []"
  proof -
    from e have e1: "cw_errors ?w1 = []" using r(1) by blast
    show ?thesis
      using s(3) [OF e1] s(4) [OF e1] s(5) [OF e1] r(2) [OF e] r(3) [OF e] r(4) [OF e] by auto
  qed
  ultimately show ?case by simp
qed

lemma hard_missing_empty:
  "filter (\<lambda>s. \<not> P s) (missing_industries valid covered) = [] \<longleftrightarrow> (\<forall>s \<in> set valid. P s \<or> s \<in> set covered)"
  by (auto simp: missing_industries_def filter_empty_conv)

lemma finish_ok:
  fixes m valid gs es0
  defines "r \<equiv> finish_manifest m valid gs es0" and "vs \<equiv> as_list (dget m ''constituents'')"
  shows "mr_ok r \<longleftrightarrow> es0 = [] \<and> is_list (dget m ''constituents'') \<and> vs \<noteq> [] \<and> list_all (member_sound valid) vs \<and>
      distinct (map member_code vs) \<and>
      (\<forall>s \<in> set valid. is_pending gs s \<or> (\<exists>v \<in> set vs. s \<in> set (member_slugs v))) \<and>
      (truthy (dget m ''live_evidence_blocked'') \<or> list_all (\<lambda>v. dget (as_dict v) ''slot'' \<noteq> PBool True) vs)" (is "_ \<longleftrightarrow> ?sound")
    and "mr_ok r \<Longrightarrow> pool_total (mr_pool_counts r) = length vs"
    and "mr_ok r \<Longrightarrow> set (mr_missing r) = {s \<in> set valid. \<forall>v \<in> set vs. s \<notin> set (member_slugs v)}"
    and "mr_constituent_count r = length vs" and "mr_ok r \<longleftrightarrow> mr_errors r = []"
proof -
  let ?es1 = "es0 @ (if is_list (dget m ''constituents'') then [] else [ConstituentsNotList]) @
                    (if vs = [] then [NoConstituents] else [])"
  let ?w = "check_constituents valid 1 vs (initial_walk ?es1)"
  note walk = check_constituents_walk [of valid 1 vs "initial_walk ?es1"]
  have w: "cw_errors ?w = [] \<longleftrightarrow> ?es1 = [] \<and> list_all (member_sound valid) vs \<and> distinct (map member_code vs)"
    using walk [THEN conjunct1] by (simp add: initial_walk_def)
  have c: "cw_slots ?w = length (filter has_slot vs) \<and> set (cw_covered ?w) = (\<Union>v\<in>set vs. set (member_slugs v)) \<and>
      pool_total (cw_pools ?w) = length vs" if "cw_errors ?w = []"
    using walk [THEN conjunct2, rule_format, OF that] by (simp add: initial_walk_def pool_total_def valid_pools_def)
  have r: "mr_ok r \<longleftrightarrow> cw_errors ?w = [] \<and>
      (\<forall>s \<in> set valid. is_pending gs s \<or> s \<in> set (cw_covered ?w)) \<and>
      (cw_slots ?w = 0 \<or> truthy (dget m ''live_evidence_blocked''))"
    unfolding hard_missing_empty [symmetric] r_def vs_def finish_manifest_def Let_def manifest_result.select_convs
    by (simp only: append_is_Nil_conv) (auto split: if_splits)
  have slots: "length (filter has_slot vs) = 0 \<longleftrightarrow> list_all (\<lambda>v. dget (as_dict v) ''slot'' \<noteq> PBool True) vs"
    by (auto simp: filter_empty_conv list_all_iff has_slot_def)
  show iff: "mr_ok r \<longleftrightarrow> ?sound"
  proof (cases "cw_errors ?w = []")
    case True
    note t = c [OF True]
    have cov: "(\<forall>s \<in> set valid. is_pending gs s \<or> s \<in> set (cw_covered ?w)) \<longleftrightarrow>
        (\<forall>s \<in> set valid. is_pending gs s \<or> (\<exists>v \<in> set vs. s \<in> set (member_slugs v)))"
      using t by auto
    have "?es1 = []" "list_all (member_sound valid) vs" "distinct (map member_code vs)"
      using True w by blast+
    moreover from this(1) have "es0 = []" "is_list (dget m ''constituents'')" "vs \<noteq> []" by (auto split: if_splits)
    ultimately show ?thesis unfolding r cov using True t slots by auto
  next
    case False
    then have "\<not> ?sound" using w by auto
    then show ?thesis using r False by blast
  qed
  show "pool_total (mr_pool_counts r) = length vs" if "mr_ok r"
    using c that r unfolding r_def vs_def finish_manifest_def Let_def manifest_result.select_convs by blast
  show "set (mr_missing r) = {s \<in> set valid. \<forall>v \<in> set vs. s \<notin> set (member_slugs v)}" if "mr_ok r"
  proof -
    have "set (cw_covered ?w) = (\<Union>v\<in>set vs. set (member_slugs v))" using c that r by blast
    moreover have "mr_missing r = missing_industries valid (cw_covered ?w)"
      unfolding r_def vs_def finish_manifest_def Let_def manifest_result.select_convs by (rule refl)
    ultimately show ?thesis by (auto simp: missing_industries_def)
  qed
  show "mr_constituent_count r = length vs"
    unfolding r_def vs_def finish_manifest_def Let_def manifest_result.select_convs by (rule refl)
  show "mr_ok r \<longleftrightarrow> mr_errors r = []"
    unfolding r_def finish_manifest_def Let_def manifest_result.select_convs by (rule refl)
qed

lemma member_sound_cong: "set a = set b \<Longrightarrow> a = [] \<longleftrightarrow> b = [] \<Longrightarrow> member_sound a = member_sound b"
  by (simp add: member_sound_def fun_eq_iff)

definition accepted_universe :: "pydict \<Rightarrow> pydict \<Rightarrow> bool" where
  "accepted_universe m d \<longleftrightarrow> sound_industries d \<and> sound_manifest m (as_list (dget d ''industries'')) \<and>
     clean_string (dget m ''industry_set_ref'') = clean_string (dget d ''industry_set_id'')"

text \<open>The industries an accepted universe leaves without a constituent.\<close>

definition uncovered :: "pydict \<Rightarrow> pydict \<Rightarrow> string set" where
  "uncovered m d = {s \<in> set (map entry_id (as_list (dget d ''industries''))).
     \<forall>v \<in> set (as_list (dget m ''constituents'')). s \<notin> set (member_slugs v)}"


section \<open>Examples\<close>

definition example_constituent :: "string \<Rightarrow> string \<Rightarrow> pyval" where
  "example_constituent code slug = PDict
     [(''ts_code'', PStr code), (''industry_ids'', PList [PStr slug]), (''pool'', PStr ''core'')]"

definition example_manifest :: "pyval list \<Rightarrow> pydict" where
  "example_manifest cs =
     [(''universe_id'', PStr ''U''), (''history_window_months'', PInt 120), (''graph_depth'', PInt 2),
      (''related_entity_policy'', PStr related_policy), (''industry_set_ref'', PStr ''S''),
      (''constituents'', PList cs)]"

definition example_industry :: "nat \<Rightarrow> pyval" where
  "example_industry i = PDict
     [(''id'', PStr (CHR ''I'' # nat_str i)), (''display_name'', PStr ''name''),
      (''graph_status'', PStr (if i = 0 then ''present'' else ''pending''))]"

definition example_industries :: "pyval list \<Rightarrow> pydict" where
  "example_industries es = [(''industry_set_id'', PStr ''S''), (''industries'', PList es)]"

lemma example_accepted:
  "accepted_universe (example_manifest [example_constituent ''600000.SH'' ''I0'', example_constituent ''BRK.B.US'' ''I0''])
     (example_industries (map example_industry [0..<13]))"
  by code_simp


text \<open>An empty list of industries is accepted although exactly thirteen are required, and then the
  slugs of the constituents are not checked.\<close>

lemma empty_industries_are_accepted:
  "case validate_manifest (PDict (example_manifest [example_constituent ''600000.SH'' ''NOWHERE'']))
     (Some (PDict (example_industries []))) of
     Inl e \<Rightarrow> False
   | Inr r \<Rightarrow> mr_ok r \<and> mr_industry_count r = 0"
  by code_simp

text \<open>Without the industry file nothing is accepted, and a payload that is no object raises.\<close>

lemma missing_industries_file: "validate_manifest (PDict m) None = Inr r \<Longrightarrow> \<not> mr_ok r"
  by (auto simp: validate_manifest_def load_object_def finish_ok(1))

lemma manifest_must_be_object:
  "validate_manifest v i = Inl e \<longleftrightarrow>
     e = ValueError \<and> (\<not> is_dict v \<or> (case i of None \<Rightarrow> False | Some p \<Rightarrow> \<not> is_dict p))"
  by (cases v; cases i; simp add: validate_manifest_def load_object_def validate_industry_set_def split: pyval.splits)
     (auto split: pyval.splits)
end
