(* ===== verification/Schema.thy ===== *)
theory Schema
  imports Prelude
begin

text \<open>
  The schema of the values a language model fills in (\<open>mvp20/schema_validator.py\<close>). \<open>dp_schema\<close> is
  the table \<open>DP_SCHEMA\<close>, entry by entry in its order: required fields, optional fields and, for
  lists of dictionaries, the fields of an item. \<open>validate_value\<close> checks one value against the entry
  of its data point and \<open>validate_overlay_node\<close> an overlay node; the texts of the complaints are the
  constructors of \<open>schema_issue\<close>. \<open>nodes_are_checked\<close> says which nodes pass.
\<close>

section \<open>Types\<close>

datatype py_type = TNull | TBool | TInt | TFloat | TStr | TList | TDict

definition int_or_null :: "py_type list" where "int_or_null = [TInt, TNull]"
definition float_or_null :: "py_type list" where "float_or_null = [TFloat, TInt, TNull]"
definition num_or_null :: "py_type list" where "num_or_null = [TFloat, TInt, TNull]"
definition str_or_null :: "py_type list" where "str_or_null = [TStr, TNull]"

fun type_of_value :: "pyval \<Rightarrow> py_type" where
  "type_of_value PNone = TNull"
| "type_of_value (PBool b) = TBool"
| "type_of_value (PInt i) = TInt"
| "type_of_value (PFloat x) = TFloat"
| "type_of_value (PStr s) = TStr"
| "type_of_value (PList vs) = TList"
| "type_of_value (PDict d) = TDict"

text \<open>\<open>isinstance\<close>: a bool is an instance of int.\<close>

definition py_isinstance :: "pyval \<Rightarrow> py_type list \<Rightarrow> bool" where
  "py_isinstance v ts \<longleftrightarrow>
     type_of_value v \<in> set ts \<or> (type_of_value v = TBool \<and> TInt \<in> set ts)"

definition check_type :: "pyval \<Rightarrow> py_type list \<Rightarrow> bool" where
  "check_type v ts =
     (if v = PBool True \<or> v = PBool False then (if TBool \<in> set ts then True else False)
      else py_isinstance v ts)"

section \<open>The registry\<close>

type_synonym fields = "(string \<times> py_type list) list"
type_synonym value_schema = "(string \<times> fields) list"

definition dp_schema_1 :: "(string \<times> value_schema) list" where
  "dp_schema_1 =
     [(''L0.demand.terminal'',
       [(''required'', [(''yoy_pct'', num_or_null), (''trend'', str_or_null)]),
        (''optional'', [(''notes'', [TStr]), (''magnitude'', str_or_null), (''evidence_summary'', [TStr])])]),
      (''L0.demand.user_count'',
       [(''required'', [(''yoy_pct'', num_or_null), (''trend'', str_or_null)]),
        (''optional'', [(''notes'', [TStr]), (''evidence_summary'', [TStr])])]),
      (''L0.demand.frequency'',
       [(''required'', [(''yoy_pct'', num_or_null), (''trend'', str_or_null)]),
        (''optional'', [(''notes'', [TStr])])]),
      (''L0.demand.penetration'',
       [(''required'', [(''absolute_pct'', num_or_null), (''delta_pct'', num_or_null)]),
        (''optional'', [(''trend'', str_or_null), (''notes'', [TStr])])]),
      (''L0.demand.replacement'',
       [(''required'', [(''months'', num_or_null), (''trend'', str_or_null)]),
        (''optional'', [(''notes'', [TStr])])]),
      (''L0.supply.capacity'',
       [(''required'', [(''yoy_pct'', num_or_null), (''trend'', str_or_null)]),
        (''optional'', [(''notes'', [TStr]), (''magnitude'', str_or_null)])]),
      (''L0.supply.channel_service'',
       [(''required'', [(''qualitative'', str_or_null), (''magnitude'', str_or_null)]),
        (''optional'', [(''trend'', str_or_null), (''notes'', [TStr])])]),
      (''L0.supply.chain_eff'',
       [(''required'', [(''qualitative'', str_or_null), (''magnitude'', str_or_null)]),
        (''optional'', [(''trend'', str_or_null), (''notes'', [TStr])])]),
      (''L0.price.discount'',
       [(''required'', [(''yoy_delta_pct'', num_or_null), (''trend'', str_or_null)]),
        (''optional'', [(''notes'', [TStr])])]),
      (''L0.price.pricing_power'',
       [(''required'', [(''strength'', [TStr]), (''trend'', str_or_null)]),
        (''optional'', [(''notes'', [TStr]), (''evidence_summary'', [TStr])])]),
      (''L0.cost.rent'',
       [(''required'', [(''yoy_pct'', num_or_null), (''trend'', str_or_null)]),
        (''optional'', [(''notes'', [TStr])])]),
      (''L0.cost.cac'',
       [(''required'', [(''yoy_pct'', num_or_null), (''trend'', str_or_null)]),
        (''optional'', [(''notes'', [TStr])])]),
      (''L0.compete.price_war'',
       [(''required'', [(''active'', [TBool, TNull]), (''intensity'', str_or_null)]),
        (''optional'', [(''duration_months'', num_or_null), (''notes'', [TStr]), (''evidence_summary'', [TStr])])]),
      (''L0.compete.new_entrant'',
       [(''required'', [(''count'', int_or_null), (''threat_level'', str_or_null)]),
        (''optional'', [(''notes'', [TStr]), (''evidence_summary'', [TStr])])]),
      (''L0.price.contract_spot'',
       [(''required'', [(''contract_pct'', float_or_null), (''spot_pct'', float_or_null), (''spread_pct'', float_or_null), (''trend'', str_or_null)]),
        (''optional'', [(''notes'', [TStr])])]),
      (''L0.price.product_asp'',
       [(''required'', [(''asp_value'', float_or_null), (''asp_unit'', str_or_null), (''yoy_pct'', float_or_null), (''qoq_pct'', float_or_null), (''trend'', str_or_null)]),
        (''optional'', [(''notes'', [TStr])])]),
      (''L0.supply.inventory'',
       [(''required'', [(''inventory_days'', float_or_null), (''vs_normal_pct'', float_or_null), (''channel_inventory_state'', str_or_null), (''trend'', str_or_null)]),
        (''optional'', [(''notes'', [TStr])])]),
      (''L0.sentiment.social'',
       [(''required'', [(''sentiment_score'', float_or_null), (''volume_idx'', float_or_null)]),
        (''optional'', [(''top_themes'', [TList]), (''trend'', str_or_null), (''evidence_quality'', [TStr]), (''notes'', [TStr])])]),
      (''L1.position.channel_edge'',
       [(''required'', [(''strength'', [TStr])]),
        (''optional'', [(''components'', [TList]), (''peers_comparison'', [TDict]), (''evidence_summary'', [TStr])])])]"

definition dp_schema_2 :: "(string \<times> value_schema) list" where
  "dp_schema_2 =
     [(''L1.position.stickiness'',
       [(''required'', [(''retention_rate'', float_or_null), (''switching_cost'', str_or_null)]),
        (''optional'', [(''churn_signals'', [TList]), (''evidence_summary'', [TStr])])]),
      (''L2.newbiz.tam'',
       [(''required'', [(''tam_usd_or_cny'', num_or_null), (''tam_year'', int_or_null), (''source'', str_or_null)]),
        (''optional'', [(''notes'', [TStr]), (''evidence_summary'', [TStr])])]),
      (''L2.newbiz.uncertainty'',
       [(''required'', [(''level'', [TStr])]),
        (''optional'', [(''factors'', [TList]), (''catalyst_required'', [TList]), (''evidence_summary'', [TStr])])]),
      (''L3.product.lifecycle'',
       [(''required'', [(''phase'', [TStr]), (''competitive_score'', num_or_null)]),
        (''optional'', [(''notes'', [TStr]), (''evidence_summary'', [TStr])])]),
      (''L3.customer.segment_mix'',
       [(''required'', [(''segments'', [TList]), (''concentration_top5_pct'', float_or_null)]),
        (''optional'', [(''notes'', [TStr])]),
        (''segments_item_schema'', [(''name'', [TStr]), (''revenue_pct'', float_or_null)])]),
      (''L3.channel.mix'',
       [(''required'', [(''direct_pct'', float_or_null), (''distributor_pct'', float_or_null), (''ecommerce_pct'', float_or_null), (''others_pct'', float_or_null)]),
        (''optional'', [(''notes'', [TStr]), (''trend'', str_or_null)])]),
      (''L3.region.tier_mix'',
       [(''required'', [(''tier1_pct'', float_or_null), (''tier2_pct'', float_or_null), (''tier3_pct'', float_or_null), (''overseas_pct'', float_or_null)]),
        (''optional'', [(''notes'', [TStr])])]),
      (''L3.delivery.lead_time'',
       [(''required'', [(''lead_time_days'', num_or_null), (''on_time_rate'', float_or_null), (''trend'', str_or_null)]),
        (''optional'', [(''notes'', [TStr])])]),
      (''L3.delivery.csat'',
       [(''required'', [(''nps_or_csat'', float_or_null), (''complaint_rate'', float_or_null), (''trend'', str_or_null)]),
        (''optional'', [(''notes'', [TStr]), (''evidence_summary'', [TStr])])]),
      (''L4.volume.foot_traffic'',
       [(''required'', [(''yoy_pct'', float_or_null)]),
        (''optional'', [(''monthly_trend'', [TList]), (''notes'', [TStr])])]),
      (''L4.volume.frequency'',
       [(''required'', [(''frequency_per_user'', float_or_null), (''yoy_delta_pct'', float_or_null)]),
        (''optional'', [(''notes'', [TStr])])]),
      (''L4.price.subscription'',
       [(''required'', [(''tiers'', [TList]), (''trend'', str_or_null)]),
        (''optional'', [(''notes'', [TStr])]),
        (''tiers_item_schema'', [(''name'', [TStr]), (''price'', num_or_null), (''currency'', str_or_null)])]),
      (''L4.price.discount'',
       [(''required'', [(''avg_discount_pct'', float_or_null), (''trend'', str_or_null)]),
        (''optional'', [(''season_high'', [TBool, TNull]), (''notes'', [TStr])])])]"

definition dp_schema_3 :: "(string \<times> value_schema) list" where
  "dp_schema_3 =
     [(''L4.eff.capacity_utilization'',
       [(''required'', [(''utilization_pct'', float_or_null), (''trend'', str_or_null)]),
        (''optional'', [(''bottleneck'', str_or_null), (''notes'', [TStr])])]),
      (''L4.eff.conversion_retention'',
       [(''required'', [(''conversion_pct'', float_or_null), (''retention_30d'', float_or_null), (''repurchase_rate'', float_or_null), (''trend'', str_or_null)]),
        (''optional'', [(''notes'', [TStr])])]),
      (''L4.share.customer_channel'',
       [(''required'', [(''customer_share_top5'', float_or_null), (''channel_share'', float_or_null), (''region_share'', float_or_null), (''trend'', str_or_null)]),
        (''optional'', [(''notes'', [TStr])])]),
      (''L5.surprise.buy_whisper'',
       [(''required'', [(''whisper_eps'', float_or_null), (''whisper_revenue'', num_or_null), (''vs_consensus_pct'', float_or_null), (''source_count'', int_or_null)]),
        (''optional'', [(''notes'', [TStr]), (''evidence_summary'', [TStr])])]),
      (''L1.position.market_share'',
       [(''required'', [(''rank'', int_or_null), (''share_pct'', float_or_null)]),
        (''optional'', [(''peers'', [TList]), (''trend'', str_or_null), (''source_year'', str_or_null), (''market_size_unit'', str_or_null), (''evidence_summary'', [TStr]), (''notes'', [TStr])])]),
      (''L1.position.brand'',
       [(''required'', [(''tier'', str_or_null)]),
        (''optional'', [(''category'', str_or_null), (''qualitative_signals'', [TList]), (''evidence_summary'', [TStr]), (''notes'', [TStr])])]),
      (''L1.position.tech_barrier'',
       [(''required'', [(''moat_score'', num_or_null)]),
        (''optional'', [(''patent_count_known'', int_or_null), (''key_tech'', [TList]), (''rd_intensity_pct'', float_or_null), (''evidence_summary'', [TStr]), (''notes'', [TStr])])]),
      (''L1.position.cost_edge'',
       [(''required'', [(''duration'', [TStr])]),
        (''optional'', [(''vs_peers_gp_pct'', float_or_null), (''drivers'', [TList]), (''evidence_summary'', [TStr]), (''notes'', [TStr])])]),
      (''L1.position.pricing_power'',
       [(''required'', [(''strength'', [TStr])]),
        (''optional'', [(''asp_yoy_pct'', float_or_null), (''switching_cost'', str_or_null), (''evidence'', [TList]), (''evidence_summary'', [TStr]), (''notes'', [TStr])])]),
      (''L2.segment.cash_contrib'',
       [(''required'', [(''segments'', [TList])]),
        (''optional'', [(''notes'', [TStr]), (''evidence_summary'', [TStr])]),
        (''segments_item_schema'', [(''name'', [TStr]), (''revenue_pct'', float_or_null), (''gross_margin_pct'', float_or_null), (''cash_contrib_pct'', float_or_null)])]),
      (''L2.segment.industry_exposure'',
       [(''required'', [(''exposures'', [TList])]),
        (''optional'', [(''cyclical_sensitivity'', str_or_null), (''notes'', [TStr]), (''evidence_summary'', [TStr])]),
        (''exposures_item_schema'', [(''industry_id'', [TStr]), (''weight_pct'', float_or_null)])])]"

definition dp_schema_4 :: "(string \<times> value_schema) list" where
  "dp_schema_4 =
     [(''L2.segment.compete_landscape'',
       [(''required'', [(''competitive_intensity'', [TStr])]),
        (''optional'', [(''top_peers'', [TList]), (''top3_share_pct'', float_or_null), (''evidence_summary'', [TStr]), (''notes'', [TStr])])]),
      (''L2.segment.business_risk'',
       [(''required'', [(''risk_factors'', [TList])]),
        (''optional'', [(''net_risk'', str_or_null), (''evidence_summary'', [TStr]), (''notes'', [TStr])]),
        (''risk_factors_item_schema'', [(''type'', [TStr]), (''severity'', [TStr]), (''rationale'', str_or_null)])]),
      (''L2.newbiz.commercialization'',
       [(''required'', [(''stage'', [TStr])]),
        (''optional'', [(''traction_signals'', [TList]), (''rev_share_pct'', float_or_null), (''current_contribution'', [TDict, TNull]), (''future_option_value'', [TDict, TNull]), (''evidence_summary'', [TStr]), (''notes'', [TStr])])]),
      (''L2.newbiz.revenue_contrib'',
       [(''required'', [(''revenue_pct'', float_or_null)]),
        (''optional'', [(''qoq_growth_pct'', float_or_null), (''current_contribution'', [TDict, TNull]), (''future_option_value'', [TDict, TNull]), (''evidence_summary'', [TStr]), (''notes'', [TStr])])]),
      (''L2.newbiz.valuation_contrib'',
       [(''required'', [(''est_valuation_contribution_pct'', float_or_null)]),
        (''optional'', [(''method'', str_or_null), (''current_contribution'', [TDict, TNull]), (''future_option_value'', [TDict, TNull]), (''notes'', [TStr]), (''evidence_summary'', [TStr])])]),
      (''L3.customer.solvency'',
       [(''required'', [(''top_customers_solvency'', [TList])]),
        (''optional'', [(''ar_concentration_risk'', str_or_null), (''evidence_summary'', [TStr]), (''notes'', [TStr])]),
        (''top_customers_solvency_item_schema'', [(''name_proxy'', [TStr]), (''credit_signal'', [TStr])])]),
      (''L3.channel.overseas'',
       [(''required'', [(''overseas_revenue_pct'', float_or_null)]),
        (''optional'', [(''key_markets'', [TList]), (''localization_stage'', str_or_null), (''evidence_summary'', [TStr]), (''notes'', [TStr])])]),
      (''L3.region.key_risk'',
       [(''required'', [(''key_region'', str_or_null), (''risk_type'', str_or_null)]),
        (''optional'', [(''severity'', str_or_null), (''exposure_pct'', float_or_null), (''evidence_summary'', [TStr]), (''notes'', [TStr])])]),
      (''L3.delivery.capacity_supply'',
       [(''required'', [(''supplier_concentration'', str_or_null)]),
        (''optional'', [(''capacity_utilization_pct'', float_or_null), (''bottleneck'', str_or_null), (''evidence_summary'', [TStr]), (''notes'', [TStr])])]),
      (''L4.price.asp_aov_arpu'',
       [(''required'', [(''metric_kind'', [TStr]), (''value'', num_or_null)]),
        (''optional'', [(''currency'', str_or_null), (''yoy_pct'', float_or_null), (''trend'', str_or_null), (''notes'', [TStr]), (''evidence_summary'', [TStr])])]),
      (''L4.price.pricing_power'',
       [(''required'', [(''strength'', [TStr])]),
        (''optional'', [(''recent_price_adjustment'', str_or_null), (''customer_pushback'', str_or_null), (''evidence_summary'', [TStr]), (''notes'', [TStr])])])]"

definition dp_schema_5 :: "(string \<times> value_schema) list" where
  "dp_schema_5 =
     [(''L4.price.elasticity'',
       [(''required'', [(''elasticity'', float_or_null)]),
        (''optional'', [(''estimation_method'', str_or_null), (''notes'', [TStr]), (''evidence_summary'', [TStr])])]),
      (''L4.cost.cac_production'',
       [(''required'', [(''cac_or_unit_cost'', float_or_null)]),
        (''optional'', [(''trend'', str_or_null), (''drivers'', [TList]), (''evidence_summary'', [TStr]), (''notes'', [TStr])])]),
      (''L4.cost.rent_energy_logistics'',
       [(''required'', []),
        (''optional'', [(''rent_yoy_pct'', float_or_null), (''energy_yoy_pct'', float_or_null), (''logistics_yoy_pct'', float_or_null), (''trend'', str_or_null), (''notes'', [TStr]), (''evidence_summary'', [TStr])])]),
      (''L4.eff.store_labor'',
       [(''required'', []),
        (''optional'', [(''revenue_per_employee'', float_or_null), (''revenue_per_store'', float_or_null), (''yoy_pct'', float_or_null), (''trend'', str_or_null), (''notes'', [TStr]), (''evidence_summary'', [TStr])])]),
      (''L3.product.portfolio'',
       [(''required'', [(''products'', [TList])]),
        (''optional'', [(''notes'', [TStr]), (''evidence_summary'', [TStr])]),
        (''products_item_schema'', [(''name'', [TStr]), (''revenue_pct'', float_or_null)])]),
      (''L3.product.margin_mix'',
       [(''required'', []),
        (''optional'', [(''gross_margin_pct'', float_or_null), (''margin_tier'', str_or_null), (''product_margin_split'', [TList]), (''notes'', [TStr]), (''evidence_summary'', [TStr])]),
        (''product_margin_split_item_schema'', [(''product'', str_or_null), (''gross_margin_pct'', float_or_null)])]),
      (''L3.customer.concentration'',
       [(''required'', []),
        (''optional'', [(''top5_revenue_pct'', float_or_null), (''top10_revenue_pct'', float_or_null), (''concentration_trend'', str_or_null), (''notes'', [TStr]), (''evidence_summary'', [TStr])])])]"

definition dp_schema :: "(string \<times> value_schema) list" where
  "dp_schema = dp_schema_1 @ dp_schema_2 @ dp_schema_3 @ dp_schema_4 @ dp_schema_5"

text \<open>\<open>schema.get("required", {})\<close>\<close>

definition schema_part :: "value_schema \<Rightarrow> string \<Rightarrow> fields" where
  "schema_part sc k = (case map_of sc k of None \<Rightarrow> [] | Some fs \<Rightarrow> fs)"

definition item_suffix :: string where "item_suffix = ''_item_schema''"

section \<open>Validation\<close>

datatype schema_issue =
    NodeNotDict
  | ValueIsNone
  | ValueNotDict py_type
  | MissingField string
  | FieldWrongType string py_type "py_type list"
  | OptionalWrongType string py_type "py_type list"
  | UnknownField bool string
  | ItemNotDict string nat py_type
  | ItemWrongType string nat string py_type "py_type list"

definition required_issues :: "fields \<Rightarrow> pydict \<Rightarrow> schema_issue list" where
  "required_issues fs d = concat (map (\<lambda>(k, t).
     if \<not> dhas d k then [MissingField k]
     else if \<not> check_type (dget d k) t then [FieldWrongType k (type_of_value (dget d k)) t] else []) fs)"

definition optional_issues :: "fields \<Rightarrow> pydict \<Rightarrow> schema_issue list" where
  "optional_issues fs d = concat (map (\<lambda>(k, t).
     if dhas d k \<and> \<not> check_type (dget d k) t
     then [OptionalWrongType k (type_of_value (dget d k)) t] else []) fs)"

definition unknown_issues :: "bool \<Rightarrow> fields \<Rightarrow> fields \<Rightarrow> pydict \<Rightarrow> schema_issue list" where
  "unknown_issues strict required optional d =
     map (UnknownField strict) (filter (\<lambda>k. k \<notin> set (map fst required) \<union> set (map fst optional)) (map fst d))"

definition one_item_issues :: "string \<Rightarrow> fields \<Rightarrow> nat \<times> pyval \<Rightarrow> schema_issue list" where
  "one_item_issues list_key fs entry = (case entry of (i, item) \<Rightarrow>
     case item of
       PDict it \<Rightarrow> concat (map (\<lambda>(k, t).
         if dhas it k \<and> \<not> check_type (dget it k) t
         then [ItemWrongType list_key i k (type_of_value (dget it k)) t] else []) fs)
     | v \<Rightarrow> [ItemNotDict list_key i (type_of_value v)])"

definition item_issues :: "pydict \<Rightarrow> string \<times> fields \<Rightarrow> schema_issue list" where
  "item_issues d entry = (case entry of (schema_key, fs) \<Rightarrow>
     if \<not> py_endswith schema_key item_suffix then []
     else
       (let list_key = take (length schema_key - length item_suffix) schema_key in
        if \<not> dhas d list_key then []
        else (case dget d list_key of
                PList items \<Rightarrow> concat (map (one_item_issues list_key fs) (enumerate 0 items))
              | _ \<Rightarrow> [])))"

definition dict_issues :: "bool \<Rightarrow> value_schema \<Rightarrow> pydict \<Rightarrow> schema_issue list" where
  "dict_issues strict sc d =
     (let required = schema_part sc ''required''; optional = schema_part sc ''optional'' in
      required_issues required d @ optional_issues optional d @
      unknown_issues strict required optional d @ concat (map (item_issues d) sc))"

text \<open>\<open>dp_id not in DP_SCHEMA\<close>: a list or a dictionary is not hashable.\<close>

definition schema_of :: "pyval \<Rightarrow> value_schema option res" where
  "schema_of dp = res_map (\<lambda>k. case k of KStr s \<Rightarrow> map_of dp_schema s | _ \<Rightarrow> None) (py_key dp)"

definition validate_value :: "bool \<Rightarrow> pyval \<Rightarrow> pyval \<Rightarrow> schema_issue list res" where
  "validate_value strict dp value = res_map
     (\<lambda>found. case found of
        None \<Rightarrow> []
      | Some sc \<Rightarrow>
          (if value = PNone then [ValueIsNone]
           else if \<not> is_dict value then [ValueNotDict (type_of_value value)]
           else dict_issues strict sc (as_dict value)))
     (schema_of dp)"

text \<open>\<open>v not in (None, "", [], {})\<close>\<close>

definition is_filled :: "pyval \<Rightarrow> bool" where
  "is_filled v \<longleftrightarrow> v \<notin> {PNone, PStr [], PList [], PDict []}"

definition validate_overlay_node :: "bool \<Rightarrow> pyval \<Rightarrow> schema_issue list res" where
  "validate_overlay_node strict node =
     (case node of
        PDict n \<Rightarrow>
          (let dp = py_or (dget n ''dp_id'') (PStr []); status = dget n ''data_status'';
               value = dget n ''value'' in
           if status \<notin> {PStr ''Known'', PStr ''Optionality''} then Inr []
           else if status = PStr ''Optionality'' \<and> value = PNone then Inr []
           else if status = PStr ''Optionality'' \<and> is_dict value \<and>
                   \<not> (is_filled (dget (as_dict value) ''current_contribution'') \<or>
                      is_filled (dget (as_dict value) ''future_option_value'')) \<and>
                   \<not> truthy value
                then Inr []
           else validate_value strict dp value)
      | _ \<Rightarrow> Inr [NodeNotDict])"

text \<open>\<open>schema_coverage\<close>: the number of entries, in total and per layer.\<close>

definition layer_of :: "string \<Rightarrow> string" where
  "layer_of dp = takeWhile (\<lambda>c. c \<noteq> CHR ''.'') dp"

definition count_layer :: "string \<Rightarrow> (string \<times> nat) list \<Rightarrow> (string \<times> nat) list" where
  "count_layer dp counts =
     (let l = layer_of dp in dput l ((case map_of counts l of None \<Rightarrow> 0 | Some n \<Rightarrow> n) + 1) counts)"

definition schema_coverage :: "(string \<times> nat) list" where
  "schema_coverage =
     (''total'', length dp_schema) # fold count_layer (map fst dp_schema) []"

section \<open>Conformance\<close>

text \<open>The runtime type of the value is one of those listed.\<close>

definition has_type :: "pyval \<Rightarrow> py_type list \<Rightarrow> bool" where
  "has_type v ts \<longleftrightarrow> type_of_value v \<in> set ts"

lemma check_type_iff: "check_type v ts \<longleftrightarrow> has_type v ts"
  by (cases v) (auto simp: check_type_def py_isinstance_def has_type_def)

lemma bools_are_no_numbers: "\<not> check_type (PBool b) num_or_null" "\<not> check_type (PBool b) int_or_null"
  by (simp_all add: check_type_iff has_type_def num_or_null_def int_or_null_def)

definition fields_ok :: "fields \<Rightarrow> pydict \<Rightarrow> bool" where
  "fields_ok fs d \<longleftrightarrow> list_all (\<lambda>(k, t). dhas d k \<longrightarrow> has_type (dget d k) t) fs"

definition items_ok :: "pydict \<Rightarrow> string \<Rightarrow> fields \<Rightarrow> bool" where
  "items_ok d list_key fs \<longleftrightarrow> list_all (\<lambda>v. is_dict v \<and> fields_ok fs (as_dict v))
     (case map_of d list_key of Some (PList items) \<Rightarrow> items | _ \<Rightarrow> [])"

text \<open>All fields that are there have a listed type, the required ones are there, no other is, and
  every item of a list with an item schema is a dictionary of that schema.\<close>

definition value_conforms :: "value_schema \<Rightarrow> pydict \<Rightarrow> bool" where
  "value_conforms sc d \<longleftrightarrow>
     (let required = schema_part sc ''required''; optional = schema_part sc ''optional'' in
      set (map fst required) \<subseteq> set (map fst d) \<and>
      set (map fst d) \<subseteq> set (map fst required) \<union> set (map fst optional) \<and>
      fields_ok required d \<and> fields_ok optional d \<and>
      list_all (\<lambda>(list_key, fs). items_ok d list_key fs)
        (map (\<lambda>(k, fs). (take (length k - length item_suffix) k, fs))
           (filter (\<lambda>(k, _). py_endswith k item_suffix) sc)))"

lemma required_issues_Nil:
  "required_issues fs d = [] \<longleftrightarrow> set (map fst fs) \<subseteq> set (map fst d) \<and> fields_ok fs d"
proof -
  have "required_issues fs d = [] \<longleftrightarrow> list_all (\<lambda>(k, t). dhas d k \<and> has_type (dget d k) t) fs"
    by (auto simp: required_issues_def check_type_iff list_all_iff split: if_splits)
  also have "\<dots> \<longleftrightarrow> set (map fst fs) \<subseteq> set (map fst d) \<and> fields_ok fs d"
    by (induction fs) (auto simp: fields_ok_def dhas_iff intro: rev_image_eqI)
  finally show ?thesis .
qed

lemma optional_issues_Nil: "optional_issues fs d = [] \<longleftrightarrow> fields_ok fs d"
  by (auto simp: optional_issues_def fields_ok_def check_type_iff list_all_iff split: if_splits)

lemma unknown_issues_Nil:
  "unknown_issues strict r s d = [] \<longleftrightarrow> set (map fst d) \<subseteq> set (map fst r) \<union> set (map fst s)"
  by (auto simp: unknown_issues_def filter_empty_conv)

lemma one_item_issues_Nil:
  "one_item_issues list_key fs (i, v) = [] \<longleftrightarrow> is_dict v \<and> fields_ok fs (as_dict v)"
proof (cases v)
  case (PDict it)
  have "one_item_issues list_key fs (i, PDict it) = [] \<longleftrightarrow> fields_ok fs it"
    by (auto simp: one_item_issues_def fields_ok_def check_type_iff list_all_iff split: if_splits)
  then show ?thesis by (simp add: PDict)
qed (simp_all add: one_item_issues_def)

lemma items_issues_Nil:
  "concat (map (one_item_issues list_key fs) (enumerate i items)) = [] \<longleftrightarrow>
     list_all (\<lambda>v. is_dict v \<and> fields_ok fs (as_dict v)) items"
  by (induction items arbitrary: i) (simp_all add: one_item_issues_Nil del: concat_eq_Nil_conv)

lemma item_issues_Nil:
  "item_issues d (k, fs) = [] \<longleftrightarrow>
     (if py_endswith k item_suffix then items_ok d (take (length k - length item_suffix) k) fs else True)"
  unfolding item_issues_def items_ok_def dhas_def dget_def Let_def prod.case
  by (cases "py_endswith k item_suffix"; cases "map_of d (take (length k - length item_suffix) k)")
     (simp_all add: items_issues_Nil del: concat_eq_Nil_conv split: pyval.split)

lemma dict_issues_Nil: "dict_issues strict sc d = [] \<longleftrightarrow> value_conforms sc d"
proof -
  have "concat (map (item_issues d) sc) = [] \<longleftrightarrow>
      list_all (\<lambda>(list_key, fs). items_ok d list_key fs)
        (map (\<lambda>(k, fs). (take (length k - length item_suffix) k, fs))
           (filter (\<lambda>(k, _). py_endswith k item_suffix) sc))"
    by (induction sc) (auto simp: item_issues_Nil split: if_splits)
  then show ?thesis
    unfolding dict_issues_def value_conforms_def Let_def append_is_Nil_conv
      required_issues_Nil optional_issues_Nil unknown_issues_Nil by blast
qed

fun demote_issue :: "schema_issue \<Rightarrow> schema_issue" where
  "demote_issue (UnknownField strict k) = UnknownField False k"
| "demote_issue e = e"

text \<open>A node whose value is checked: a known one, and an optional one with something in it.\<close>

definition carries_value :: "pydict \<Rightarrow> bool" where
  "carries_value n \<longleftrightarrow> dget n ''data_status'' = PStr ''Known'' \<or>
     (dget n ''data_status'' = PStr ''Optionality'' \<and> dget n ''value'' \<noteq> PNone \<and> dget n ''value'' \<noteq> PDict [])"

definition node_schema :: "pydict \<Rightarrow> value_schema option" where
  "node_schema n = (case dget n ''dp_id'' of PStr s \<Rightarrow> map_of dp_schema s | _ \<Rightarrow> None)"

definition node_conforms :: "pydict \<Rightarrow> bool" where
  "node_conforms n \<longleftrightarrow>
     (if carries_value n
      then (case node_schema n of
              None \<Rightarrow> True
            | Some sc \<Rightarrow> is_dict (dget n ''value'') \<and> value_conforms sc (as_dict (dget n ''value'')))
      else True)"

definition unhashable_dp :: "pydict \<Rightarrow> bool" where
  "unhashable_dp n \<longleftrightarrow> truthy (dget n ''dp_id'') \<and> type_of_value (dget n ''dp_id'') \<in> {TList, TDict}"

lemma no_empty_dp: "map_of dp_schema [] = None"
  by code_simp

lemma schema_of_node:
  "schema_of (py_or (dget n ''dp_id'') (PStr [])) =
     (if unhashable_dp n then Inl TypeError else Inr (node_schema n))"
  by (cases "dget n ''dp_id''")
     (auto simp: schema_of_def py_or_def unhashable_dp_def node_schema_def no_empty_dp)

lemma overlay_node_checked:
  "validate_overlay_node strict (PDict n) =
     (if carries_value n then validate_value strict (py_or (dget n ''dp_id'') (PStr [])) (dget n ''value'') else Inr [])"
  unfolding validate_overlay_node_def Let_def pyval.case carries_value_def
  by (cases "dget n ''value''") (auto simp: is_filled_def)

lemma demote_required: "map demote_issue (required_issues fs d) = required_issues fs d"
  by (induction fs) (auto simp: required_issues_def)

lemma demote_optional: "map demote_issue (optional_issues fs d) = optional_issues fs d"
  by (induction fs) (auto simp: optional_issues_def)

lemma demote_unknown: "map demote_issue (unknown_issues True r s d) = unknown_issues False r s d"
  by (simp add: unknown_issues_def)

lemma demote_item: "map demote_issue (one_item_issues list_key fs entry) = one_item_issues list_key fs entry"
proof -
  have "map demote_issue (concat (map (\<lambda>(k, t).
         if dhas it k \<and> \<not> check_type (dget it k) t
         then [ItemWrongType list_key i k (type_of_value (dget it k)) t] else []) fs)) =
      concat (map (\<lambda>(k, t).
         if dhas it k \<and> \<not> check_type (dget it k) t
         then [ItemWrongType list_key i k (type_of_value (dget it k)) t] else []) fs)" for it i
    by (induction fs) auto
  then show ?thesis by (cases entry; cases "snd entry") (auto simp: one_item_issues_def)
qed

lemma demote_concat:
  "(\<And>x. map demote_issue (f x) = f x) \<Longrightarrow> map demote_issue (concat (map f xs)) = concat (map f xs)"
  by (induction xs) auto

lemma demote_items: "map demote_issue (item_issues d entry) = item_issues d entry"
  by (cases entry)
     (auto simp: item_issues_def Let_def demote_item split: pyval.splits intro!: demote_concat)

lemma demote_dict: "map demote_issue (dict_issues True sc d) = dict_issues False sc d"
  unfolding dict_issues_def Let_def
  by (simp only: map_append demote_required demote_optional demote_unknown demote_concat [OF demote_items])

text \<open>C27: The schema check of an overlay node finds nothing in strict mode exactly when the node
  conforms: it carries no value, or its data point has no schema, or its value is a dictionary with
  all required and no undeclared fields whose runtime types are listed, items of its lists included
  (a truth value never passes for a number). The lenient check gives the same complaints with the
  undeclared fields as warnings, and the only failure is a TypeError for a data point id that is a list
  or a dictionary.\<close>

theorem nodes_are_checked:
  "case validate_overlay_node True (PDict n) of
     Inl e \<Rightarrow> e = TypeError \<and> carries_value n \<and> unhashable_dp n
   | Inr issues \<Rightarrow>
       (issues = [] \<longleftrightarrow> node_conforms n) \<and>
       validate_overlay_node False (PDict n) = Inr (map demote_issue issues)"
proof (cases "carries_value n")
  case False
  then show ?thesis by (simp add: overlay_node_checked node_conforms_def)
next
  case True
  show ?thesis
  proof (cases "unhashable_dp n")
    case True
    with \<open>carries_value n\<close> show ?thesis by (simp add: overlay_node_checked validate_value_def schema_of_node)
  next
    case False
    have s: "schema_of (py_or (dget n ''dp_id'') (PStr [])) = Inr (node_schema n)"
      using False by (simp add: schema_of_node)
    show ?thesis
    proof (cases "node_schema n")
      case None
      with \<open>carries_value n\<close> show ?thesis
        by (simp add: overlay_node_checked validate_value_def s node_conforms_def)
    next
      case (Some sc)
      with \<open>carries_value n\<close> show ?thesis
        by (simp add: overlay_node_checked validate_value_def s node_conforms_def dict_issues_Nil demote_dict)
    qed
  qed
qed

section \<open>The registry is sound\<close>

fun sample_of_type :: "py_type \<Rightarrow> pyval" where
  "sample_of_type TNull = PNone"
| "sample_of_type TBool = PBool True"
| "sample_of_type TInt = PInt 0"
| "sample_of_type TFloat = PFloat 0"
| "sample_of_type TStr = PStr []"
| "sample_of_type TList = PList []"
| "sample_of_type TDict = PDict []"

definition sample_fields :: "fields \<Rightarrow> pydict" where
  "sample_fields fs = map (\<lambda>(k, t). (k, sample_of_type (hd t))) fs"

definition sample_field :: "value_schema \<Rightarrow> string \<times> py_type list \<Rightarrow> string \<times> pyval" where
  "sample_field sc f = (case f of (k, t) \<Rightarrow>
     (k, case map_of sc (k @ item_suffix) of
           None \<Rightarrow> sample_of_type (hd t)
         | Some fs \<Rightarrow> PList [PDict (sample_fields fs)]))"

definition sample_value :: "value_schema \<Rightarrow> pydict" where
  "sample_value sc =
     map (sample_field sc) (schema_part sc ''required'' @ schema_part sc ''optional'')"

text \<open>The list of an item schema is a declared field that may be a list, no field is declared
  twice, and every field has a type.\<close>

definition schema_sound :: "value_schema \<Rightarrow> bool" where
  "schema_sound sc \<longleftrightarrow>
     (let fs = schema_part sc ''required'' @ schema_part sc ''optional'' in
      distinct (map fst fs) \<and> list_all (\<lambda>(_, t). t \<noteq> []) fs \<and>
      list_all (\<lambda>(k, item). k = ''required'' \<or> k = ''optional'' \<or>
        (py_endswith k item_suffix \<and> distinct (map fst item) \<and>
         list_ex (\<lambda>(f, t). f @ item_suffix = k \<and> TList \<in> set t) fs)) sc)"

lemma py_endswith_code: "py_endswith s p \<longleftrightarrow> length p \<le> length s \<and> drop (length s - length p) s = p"
  unfolding py_endswith_def by (metis append_take_drop_id diff_diff_cancel length_drop suffix_def suffix_drop suffix_length_le suffix_take append_eq_append_conv)

definition complete_sample :: "string \<times> value_schema \<Rightarrow> bool" where
  "complete_sample entry = (case entry of (dp, sc) \<Rightarrow>
     validate_value True (PStr dp) (PDict (sample_value sc)) = Inr [] \<and>
     list_all (\<lambda>(k, _). validate_value True (PStr dp) (PDict (AList.delete k (sample_value sc))) = Inr [MissingField k])
       (schema_part sc ''required''))"

definition sample_passes :: "value_schema \<Rightarrow> bool" where
  "sample_passes sc \<longleftrightarrow>
     dict_issues True sc (sample_value sc) = [] \<and>
     list_all (\<lambda>(k, _). dict_issues True sc (AList.delete k (sample_value sc)) = [MissingField k])
       (schema_part sc ''required'')"

lemma registry_keys: "distinct (map fst dp_schema)"
  by code_simp

lemma registry_schemas: "list_all schema_sound (map snd dp_schema)"
  by code_simp

lemma samples_1: "list_all sample_passes (map snd dp_schema_1)"
  by code_simp

lemma samples_2: "list_all sample_passes (map snd dp_schema_2)"
  by code_simp

lemma samples_3: "list_all sample_passes (map snd dp_schema_3)"
  by code_simp

lemma samples_4: "list_all sample_passes (map snd dp_schema_4)"
  by code_simp

lemma samples_5: "list_all sample_passes (map snd dp_schema_5)"
  by code_simp

lemma registry_samples: "list_all sample_passes (map snd dp_schema)"
  unfolding dp_schema_def map_append list_all_append
  by (intro conjI samples_1 samples_2 samples_3 samples_4 samples_5)

lemma validate_registered:
  "(dp, sc) \<in> set dp_schema \<Longrightarrow> validate_value strict (PStr dp) (PDict d) = Inr (dict_issues strict sc d)"
  using registry_keys by (simp add: validate_value_def schema_of_def map_of_is_SomeI)

lemma complete_sample_iff: "entry \<in> set dp_schema \<Longrightarrow> complete_sample entry \<longleftrightarrow> sample_passes (snd entry)"
  by (cases entry) (simp add: complete_sample_def sample_passes_def validate_registered)

text \<open>The registry of schemas is sound: no data point and no field is declared twice, every item
  schema belongs to a declared list, and for every one of its entries the value made of all its
  fields, with one item in each list, passes the strict check, while the same value without one of
  the required fields gives exactly the complaint that this field is missing.\<close>

theorem registry_is_sound:
  "distinct (map fst dp_schema) \<and> list_all schema_sound (map snd dp_schema) \<and> list_all complete_sample dp_schema"
proof -
  have "list_all complete_sample dp_schema"
    using registry_samples complete_sample_iff by (auto simp: list_all_iff)
  with registry_keys registry_schemas show ?thesis by blast
qed
end
