(* ===== verification/Templates.thy ===== *)
theory Templates
  imports Governance
begin

text \<open>
  The overlays that are generated for a universe (\<open>mvp20/overlays.py\<close>, first half). The slot tables are
  those of the source, entry by entry; \<open>build_stock_overlay\<close> and \<open>build_industry_overlay\<close> make the
  dictionaries that are written to YAML, field by field in their order, and \<open>expand_memberships\<close> lists
  the overlays a universe needs. Names in Chinese are their UTF-8 bytes. The governance registry,
  which the code loads once, is an argument; it is \<open>None\<close> when loading failed.
\<close>

section \<open>Access to dictionaries\<close>

text \<open>\<open>d[k]\<close> and \<open>d.get(k, default)\<close>\<close>

definition ditem :: "pydict \<Rightarrow> string \<Rightarrow> pyval res" where
  "ditem d k = (case map_of d k of None \<Rightarrow> Inl KeyError | Some v \<Rightarrow> Inr v)"

definition dget_default :: "pydict \<Rightarrow> string \<Rightarrow> pyval \<Rightarrow> pyval" where
  "dget_default d k v0 = (case map_of d k of None \<Rightarrow> v0 | Some v \<Rightarrow> v)"

section \<open>Slots\<close>

definition schema_version :: int where "schema_version = 1"
definition stock_template_version :: string where "stock_template_version = ''stock-overlay-v2''"
definition industry_template_version :: string where "industry_template_version = ''industry-overlay-v2''"
definition pending_industry_id :: string where "pending_industry_id = ''SPACE_ECONOMY''"

text \<open>The value of an option before it is filled.\<close>

definition empty_option_value :: pyval where
  "empty_option_value = PDict [(''current_contribution'', PNone), (''future_option_value'', PNone)]"

record slot =
  sl_dp_id :: string
  sl_node_name :: string
  sl_node_type :: string
  sl_layer :: string
  sl_direction :: string
  sl_base_weight :: real
  sl_active_weight :: real
  sl_required_level :: string
  sl_data_status :: string
  sl_missing_policy :: string
  sl_calculation_type :: string
  sl_aggregation_policy :: string
  sl_alert_policy :: string
  sl_materiality :: real
  sl_update_frequency :: string
  sl_time_horizon :: "string list"
  sl_related_metrics :: "string list"
  sl_trigger_condition :: "string option"
  sl_invalidation_condition :: "string option"
  sl_default_missing_reason :: "string option"
  sl_value :: pyval

definition slot_def :: "string \<Rightarrow> string \<Rightarrow> string \<Rightarrow> string \<Rightarrow> slot" where
  "slot_def dp name node_type layer =
     \<lparr>sl_dp_id = dp, sl_node_name = name, sl_node_type = node_type, sl_layer = layer,
      sl_direction = ''positive'', sl_base_weight = 1, sl_active_weight = 1, sl_required_level = ''conditional_required'', sl_data_status = ''Unknown'', 
      sl_missing_policy = ''unknown_reduce_confidence'', sl_calculation_type = ''weighted_contribution'', sl_aggregation_policy = ''add_uncertainty_penalty'', sl_alert_policy = ''warn_if_material'', 
      sl_materiality = 3 / 5, sl_update_frequency = ''quarterly'', sl_time_horizon = [''short'', ''medium'', ''long''], sl_related_metrics = [], sl_trigger_condition = None, sl_invalidation_condition = None,
      sl_default_missing_reason = Some ''pending LLM/company-specific research'', sl_value = PNone\<rparr>"

definition industry_derived_slots :: "slot list" where
  "industry_derived_slots =
     [(slot_def ''L0.demand.terminal'' (utf8 [231, 187, 136, 231, 171, 175, 233, 156, 128, 230, 177, 130, 229, 188, 186, 229, 186, 166]) ''Industry Demand'' ''industry_macro'')
        \<lparr>sl_calculation_type := ''multiplicative_factor'', sl_aggregation_policy := ''multiply_chain'', sl_materiality := 4 / 5\<rparr>,
      (slot_def ''L0.demand.user_count'' (utf8 [231, 148, 168, 230, 136, 183] @ ''/'' @ utf8 [229, 174, 162, 230, 136, 183, 230, 149, 176, 233, 135, 143, 229, 143, 152, 229, 140, 150]) ''Industry Demand'' ''industry_macro'')
        \<lparr>sl_calculation_type := ''multiplicative_factor'', sl_aggregation_policy := ''multiply_chain'', sl_materiality := 3 / 5\<rparr>,
      (slot_def ''L0.demand.frequency'' (utf8 [228, 189, 191, 231, 148, 168, 233, 162, 145, 230, 172, 161] @ ''/'' @ utf8 [230, 155, 191, 230, 141, 162, 233, 162, 145, 231, 142, 135]) ''Industry Demand'' ''industry_macro'')
        \<lparr>sl_calculation_type := ''multiplicative_factor'', sl_aggregation_policy := ''multiply_chain'', sl_materiality := 11 / 20\<rparr>,
      (slot_def ''L0.demand.penetration'' (utf8 [230, 184, 151, 233, 128, 143, 231, 142, 135, 229, 143, 152, 229, 140, 150]) ''Industry Demand'' ''industry_macro'')
        \<lparr>sl_calculation_type := ''multiplicative_factor'', sl_aggregation_policy := ''multiply_chain'', sl_materiality := 13 / 20\<rparr>,
      (slot_def ''L0.demand.replacement'' (utf8 [230, 155, 191, 230, 141, 162, 229, 145, 168, 230, 156, 159, 228, 184, 142, 230, 155, 180, 230, 150, 176, 233, 156, 128, 230, 177, 130]) ''Industry Demand'' ''industry_macro'')
        \<lparr>sl_calculation_type := ''multiplicative_factor'', sl_aggregation_policy := ''multiply_chain'', sl_materiality := 11 / 20\<rparr>,
      (slot_def ''L0.supply.capacity'' (utf8 [232, 161, 140, 228, 184, 154, 228, 190, 155, 231, 187, 153] @ ''/'' @ utf8 [228, 186, 167, 232, 131, 189]) ''Industry Supply'' ''industry_supply'')
        \<lparr>sl_calculation_type := ''bottleneck_min'', sl_aggregation_policy := ''min_capacity_constraint'', sl_materiality := 3 / 4\<rparr>,
      (slot_def ''L0.supply.channel_service'' (utf8 [230, 184, 160, 233, 129, 147, 228, 184, 142, 230, 156, 141, 229, 138, 161, 232, 131, 189, 229, 138, 155]) ''Industry Supply'' ''industry_supply'')
        \<lparr>sl_calculation_type := ''weighted_contribution'', sl_aggregation_policy := ''weighted_average'', sl_materiality := 11 / 20\<rparr>,
      (slot_def ''L0.supply.chain_eff'' (utf8 [228, 190, 155, 229, 186, 148, 233, 147, 190, 230, 149, 136, 231, 142, 135]) ''Industry Supply'' ''industry_supply'')
        \<lparr>sl_calculation_type := ''multiplicative_factor'', sl_aggregation_policy := ''multiply_chain'', sl_materiality := 3 / 5\<rparr>,
      (slot_def ''L0.price.discount'' (utf8 [230, 138, 152, 230, 137, 163, 228, 184, 142, 228, 187, 183, 230, 160, 188, 229, 142, 139, 229, 138, 155]) ''Industry Price'' ''industry_price'')
        \<lparr>sl_direction := ''negative'', sl_calculation_type := ''risk_factor'', sl_aggregation_policy := ''subtract_risk'', sl_materiality := 7 / 10\<rparr>,
      (slot_def ''L0.price.pricing_power'' (utf8 [232, 161, 140, 228, 184, 154, 229, 174, 154, 228, 187, 183, 230, 157, 131]) ''Industry Price'' ''industry_price'')
        \<lparr>sl_calculation_type := ''multiplicative_factor'', sl_aggregation_policy := ''multiply_chain'', sl_materiality := 3 / 4\<rparr>,
      (slot_def ''L0.cost.rent'' (utf8 [231, 167, 159, 233, 135, 145] @ ''/'' @ utf8 [229, 155, 186, 229, 174, 154, 230, 136, 144, 230, 156, 172, 229, 142, 139, 229, 138, 155]) ''Industry Cost'' ''industry_cost'')
        \<lparr>sl_direction := ''negative'', sl_calculation_type := ''risk_factor'', sl_aggregation_policy := ''subtract_risk'', sl_materiality := 1 / 2\<rparr>,
      (slot_def ''L0.cost.cac'' (utf8 [232, 142, 183, 229, 174, 162, 230, 136, 144, 230, 156, 172] @ ''/'' @ utf8 [232, 144, 165, 233, 148, 128, 230, 136, 144, 230, 156, 172]) ''Industry Cost'' ''industry_cost'')
        \<lparr>sl_direction := ''negative'', sl_calculation_type := ''risk_factor'', sl_aggregation_policy := ''subtract_risk'', sl_materiality := 3 / 5\<rparr>,
      (slot_def ''L0.compete.price_war'' (utf8 [228, 187, 183, 230, 160, 188, 230, 136, 152, 233, 163, 142, 233, 153, 169]) ''Industry Competition'' ''industry_competition'')
        \<lparr>sl_direction := ''negative'', sl_active_weight := 0, sl_data_status := ''Inactive'', sl_missing_policy := ''inactive_zero_weight'', sl_calculation_type := ''threshold'', sl_aggregation_policy := ''threshold_trigger'', sl_materiality := 4 / 5, sl_default_missing_reason := None\<rparr>,
      (slot_def ''L0.compete.new_entrant'' (utf8 [230, 150, 176, 232, 191, 155, 229, 133, 165, 232, 128, 133] @ ''/'' @ utf8 [230, 155, 191, 228, 187, 163, 233, 163, 142, 233, 153, 169]) ''Industry Competition'' ''industry_competition'')
        \<lparr>sl_direction := ''negative'', sl_active_weight := 0, sl_data_status := ''Inactive'', sl_missing_policy := ''inactive_zero_weight'', sl_calculation_type := ''risk_factor'', sl_aggregation_policy := ''subtract_risk'', sl_materiality := 3 / 5, sl_default_missing_reason := None\<rparr>]"

definition company_derived_slots :: "slot list" where
  "company_derived_slots =
     [(slot_def ''L1.position.channel_edge'' (utf8 [230, 184, 160, 233, 129, 147] @ ''/'' @ utf8 [228, 190, 155, 229, 186, 148, 233, 147, 190, 228, 189, 141, 231, 189, 174, 228, 188, 152, 229, 138, 191]) ''Company Position'' ''company_position'')
        \<lparr>sl_calculation_type := ''multiplicative_factor'', sl_aggregation_policy := ''multiply_chain'', sl_materiality := 3 / 4\<rparr>,
      (slot_def ''L1.position.stickiness'' (utf8 [229, 174, 162, 230, 136, 183, 231, 178, 152, 230, 128, 167, 228, 184, 142, 231, 187, 145, 229, 174, 154, 230, 183, 177, 229, 186, 166]) ''Company Position'' ''company_position'')
        \<lparr>sl_calculation_type := ''multiplicative_factor'', sl_aggregation_policy := ''multiply_chain'', sl_materiality := 4 / 5\<rparr>,
      (slot_def ''L2.newbiz.tam'' (utf8 [230, 150, 176, 228, 184, 154, 229, 138, 161, 230, 189, 156, 229, 156, 168, 231, 169, 186, 233, 151, 180]) ''Optionality'' ''business_optionality'')
        \<lparr>sl_required_level := ''optional'', sl_data_status := ''Optionality'', sl_missing_policy := ''optionality_track'', sl_calculation_type := ''scenario_weighted'', sl_aggregation_policy := ''scenario_probability_weighted'', sl_alert_policy := ''no_alert'', sl_materiality := 13 / 20, sl_default_missing_reason := None, sl_value := empty_option_value\<rparr>,
      (slot_def ''L2.newbiz.uncertainty'' (utf8 [230, 150, 176, 228, 184, 154, 229, 138, 161, 228, 184, 141, 231, 161, 174, 229, 174, 154, 230, 128, 167]) ''Optionality Risk'' ''business_optionality'')
        \<lparr>sl_direction := ''negative'', sl_required_level := ''optional'', sl_data_status := ''Optionality'', sl_missing_policy := ''optionality_track'', sl_calculation_type := ''scenario_weighted'', sl_aggregation_policy := ''scenario_probability_weighted'', sl_alert_policy := ''no_alert'', sl_materiality := 11 / 20, sl_default_missing_reason := None, sl_value := empty_option_value\<rparr>,
      (slot_def ''L3.product.lifecycle'' (utf8 [228, 186, 167, 229, 147, 129, 231, 148, 159, 229, 145, 189, 229, 145, 168, 230, 156, 159, 233, 152, 182, 230, 174, 181]) ''Product'' ''product_market_fit'')
        \<lparr>sl_calculation_type := ''saturation'', sl_aggregation_policy := ''saturation_curve'', sl_materiality := 13 / 20\<rparr>,
      (slot_def ''L3.customer.segment_mix'' (utf8 [229, 174, 162, 230, 136, 183, 231, 187, 147, 230, 158, 132, 228, 184, 142, 233, 155, 134, 228, 184, 173, 229, 186, 166]) ''Customer'' ''customer_structure'')
        \<lparr>sl_calculation_type := ''risk_factor'', sl_aggregation_policy := ''add_uncertainty_penalty'', sl_materiality := 17 / 20\<rparr>,
      (slot_def ''L3.channel.mix'' (utf8 [230, 184, 160, 233, 129, 147, 231, 187, 147, 230, 158, 132]) ''Channel'' ''go_to_market'')
        \<lparr>sl_calculation_type := ''weighted_contribution'', sl_aggregation_policy := ''weighted_average'', sl_materiality := 13 / 20\<rparr>,
      (slot_def ''L3.region.tier_mix'' (utf8 [229, 140, 186, 229, 159, 159] @ ''/'' @ utf8 [229, 184, 130, 229, 156, 186, 229, 177, 130, 231, 186, 167, 231, 187, 147, 230, 158, 132]) ''Region'' ''geographic_exposure'')
        \<lparr>sl_calculation_type := ''weighted_contribution'', sl_aggregation_policy := ''weighted_average'', sl_materiality := 3 / 5\<rparr>,
      (slot_def ''L3.delivery.lead_time'' (utf8 [228, 186, 164, 228, 187, 152, 229, 145, 168, 230, 156, 159]) ''Operations'' ''delivery'')
        \<lparr>sl_calculation_type := ''bottleneck_min'', sl_aggregation_policy := ''min_capacity_constraint'', sl_materiality := 11 / 20\<rparr>,
      (slot_def ''L3.delivery.csat'' (utf8 [228, 186, 164, 228, 187, 152, 232, 180, 168, 233, 135, 143] @ ''/'' @ utf8 [230, 187, 161, 230, 132, 143, 229, 186, 166]) ''Operations'' ''delivery'')
        \<lparr>sl_calculation_type := ''weighted_contribution'', sl_aggregation_policy := ''weighted_average'', sl_materiality := 9 / 20\<rparr>,
      (slot_def ''L4.volume.foot_traffic'' (utf8 [229, 174, 162, 230, 181, 129] @ ''/'' @ utf8 [232, 174, 162, 229, 141, 149, 230, 181, 129]) ''Operating Metric'' ''validation_metric'')
        \<lparr>sl_calculation_type := ''multiplicative_factor'', sl_aggregation_policy := ''multiply_chain'', sl_materiality := 13 / 20, sl_update_frequency := ''minute''\<rparr>,
      (slot_def ''L4.volume.frequency'' (utf8 [229, 164, 141, 232, 180, 173] @ ''/'' @ utf8 [228, 189, 191, 231, 148, 168, 233, 162, 145, 230, 172, 161]) ''Operating Metric'' ''validation_metric'')
        \<lparr>sl_calculation_type := ''multiplicative_factor'', sl_aggregation_policy := ''multiply_chain'', sl_materiality := 11 / 20, sl_update_frequency := ''daily''\<rparr>,
      (slot_def ''L4.price.subscription'' (utf8 [232, 174, 162, 233, 152, 133] @ ''/'' @ utf8 [228, 187, 183, 230, 160, 188, 230, 168, 161, 229, 188, 143]) ''Operating Metric'' ''pricing_metric'')
        \<lparr>sl_calculation_type := ''ratio_metric'', sl_aggregation_policy := ''ratio_derive'', sl_materiality := 1 / 2\<rparr>,
      (slot_def ''L4.price.discount'' (utf8 [229, 133, 172, 229, 143, 184, 230, 138, 152, 230, 137, 163, 231, 142, 135]) ''Operating Metric'' ''pricing_metric'')
        \<lparr>sl_direction := ''negative'', sl_calculation_type := ''risk_factor'', sl_aggregation_policy := ''subtract_risk'', sl_materiality := 13 / 20\<rparr>,
      (slot_def ''L4.eff.capacity_utilization'' (utf8 [228, 186, 167, 232, 131, 189, 229, 136, 169, 231, 148, 168, 231, 142, 135] @ ''/'' @ utf8 [232, 181, 132, 230, 186, 144, 229, 136, 169, 231, 148, 168, 231, 142, 135]) ''Efficiency Metric'' ''efficiency_metric'')
        \<lparr>sl_calculation_type := ''bottleneck_min'', sl_aggregation_policy := ''min_capacity_constraint'', sl_materiality := 3 / 4, sl_update_frequency := ''daily''\<rparr>,
      (slot_def ''L4.eff.conversion_retention'' (utf8 [232, 189, 172, 229, 140, 150, 231, 142, 135] @ ''/'' @ utf8 [231, 149, 153, 229, 173, 152, 231, 142, 135]) ''Efficiency Metric'' ''efficiency_metric'')
        \<lparr>sl_calculation_type := ''multiplicative_factor'', sl_aggregation_policy := ''multiply_chain'', sl_materiality := 7 / 10, sl_update_frequency := ''daily''\<rparr>,
      (slot_def ''L4.share.customer_channel'' (utf8 [229, 174, 162, 230, 136, 183] @ ''/'' @ utf8 [230, 184, 160, 233, 129, 147, 228, 187, 189, 233, 162, 157]) ''Share Metric'' ''market_share'')
        \<lparr>sl_calculation_type := ''ratio_metric'', sl_aggregation_policy := ''ratio_derive'', sl_materiality := 7 / 10\<rparr>,
      (slot_def ''L5.surprise.buy_whisper'' (utf8 [228, 185, 176, 230, 150, 185, 233, 162, 132, 230, 156, 159, 229, 183, 174] @ ''/'' @ utf8 [228, 184, 154, 231, 187, 169] @ '' whisper'') ''Expectation'' ''expectation_gap'')
        \<lparr>sl_calculation_type := ''multiplicative_factor'', sl_aggregation_policy := ''multiply_chain'', sl_materiality := 17 / 20\<rparr>]"

definition x5_group_b_l0_slots :: "slot list" where
  "x5_group_b_l0_slots =
     [(slot_def ''L0.price.contract_spot'' (utf8 [233, 149, 191, 229, 141, 143] @ '' vs '' @ utf8 [231, 142, 176, 232, 180, 167, 228, 187, 183, 229, 183, 174]) ''Industry Price'' ''industry_price'')
        \<lparr>sl_calculation_type := ''ratio_metric'', sl_aggregation_policy := ''ratio_derive'', sl_materiality := 13 / 20\<rparr>,
      (slot_def ''L0.price.product_asp'' (utf8 [232, 161, 140, 228, 184, 154, 228, 186, 167, 229, 147, 129] @ '' ASP'') ''Industry Price'' ''industry_price'')
        \<lparr>sl_calculation_type := ''multiplicative_factor'', sl_aggregation_policy := ''multiply_chain'', sl_materiality := 7 / 10\<rparr>,
      (slot_def ''L0.supply.inventory'' (utf8 [232, 161, 140, 228, 184, 154, 229, 186, 147, 229, 173, 152, 230, 176, 180, 229, 185, 179]) ''Industry Supply'' ''industry_supply'')
        \<lparr>sl_direction := ''negative'', sl_calculation_type := ''risk_factor'', sl_aggregation_policy := ''subtract_risk'', sl_materiality := 13 / 20\<rparr>,
      (slot_def ''L0.sentiment.social'' (utf8 [231, 164, 190, 228, 186, 164, 230, 131, 133, 231, 187, 170] @ ''/'' @ utf8 [232, 136, 134, 230, 131, 133]) ''Industry Sentiment'' ''industry_macro'')
        \<lparr>sl_calculation_type := ''multiplicative_factor'', sl_aggregation_policy := ''multiply_chain'', sl_materiality := 2 / 5\<rparr>]"

definition x5_derived_slots :: "slot list" where
  "x5_derived_slots =
     [(slot_def ''L1.position.market_share'' (utf8 [229, 184, 130, 229, 156, 186, 228, 187, 189, 233, 162, 157, 228, 184, 142, 230, 142, 146, 229, 144, 141]) ''Company Position'' ''company_position'')
        \<lparr>sl_calculation_type := ''weighted_contribution'', sl_aggregation_policy := ''weighted_average'', sl_materiality := 4 / 5\<rparr>,
      (slot_def ''L1.position.brand'' (utf8 [229, 147, 129, 231, 137, 140, 229, 138, 155, 228, 184, 142, 232, 174, 164, 231, 159, 165, 229, 186, 166]) ''Company Position'' ''company_position'')
        \<lparr>sl_calculation_type := ''multiplicative_factor'', sl_aggregation_policy := ''multiply_chain'', sl_materiality := 13 / 20\<rparr>,
      (slot_def ''L1.position.tech_barrier'' (utf8 [230, 138, 128, 230, 156, 175, 229, 163, 129, 229, 158, 146] @ ''/'' @ utf8 [228, 184, 147, 229, 136, 169]) ''Company Position'' ''company_position'')
        \<lparr>sl_calculation_type := ''multiplicative_factor'', sl_aggregation_policy := ''multiply_chain'', sl_materiality := 4 / 5\<rparr>,
      (slot_def ''L1.position.cost_edge'' (utf8 [230, 136, 144, 230, 156, 172, 228, 188, 152, 229, 138, 191]) ''Company Position'' ''company_position'')
        \<lparr>sl_calculation_type := ''multiplicative_factor'', sl_aggregation_policy := ''multiply_chain'', sl_materiality := 3 / 4\<rparr>,
      (slot_def ''L1.position.pricing_power'' (utf8 [229, 133, 172, 229, 143, 184, 229, 174, 154, 228, 187, 183, 230, 157, 131]) ''Company Position'' ''company_position'')
        \<lparr>sl_calculation_type := ''multiplicative_factor'', sl_aggregation_policy := ''multiply_chain'', sl_materiality := 3 / 4\<rparr>,
      (slot_def ''L2.segment.cash_contrib'' (utf8 [228, 184, 187, 232, 144, 165, 231, 142, 176, 233, 135, 145, 232, 180, 161, 231, 140, 174, 231, 187, 147, 230, 158, 132]) ''Business Segment'' ''business_optionality'')
        \<lparr>sl_calculation_type := ''weighted_contribution'', sl_aggregation_policy := ''weighted_average'', sl_materiality := 7 / 10\<rparr>,
      (slot_def ''L2.segment.industry_exposure'' (utf8 [231, 187, 134, 229, 136, 134, 232, 161, 140, 228, 184, 154, 230, 149, 158, 229, 143, 163]) ''Business Segment'' ''business_optionality'')
        \<lparr>sl_calculation_type := ''weighted_contribution'', sl_aggregation_policy := ''weighted_average'', sl_materiality := 7 / 10\<rparr>,
      (slot_def ''L2.segment.compete_landscape'' (utf8 [231, 187, 134, 229, 136, 134, 231, 171, 158, 228, 186, 137, 230, 160, 188, 229, 177, 128]) ''Business Segment'' ''business_optionality'')
        \<lparr>sl_calculation_type := ''weighted_contribution'', sl_aggregation_policy := ''weighted_average'', sl_materiality := 7 / 10\<rparr>,
      (slot_def ''L2.segment.business_risk'' (utf8 [228, 184, 154, 229, 138, 161, 231, 187, 147, 230, 158, 132, 230, 128, 167, 233, 163, 142, 233, 153, 169]) ''Business Segment'' ''business_optionality'')
        \<lparr>sl_direction := ''negative'', sl_calculation_type := ''risk_factor'', sl_aggregation_policy := ''subtract_risk'', sl_materiality := 7 / 10\<rparr>,
      (slot_def ''L2.newbiz.commercialization'' (utf8 [230, 150, 176, 228, 184, 154, 229, 138, 161, 229, 149, 134, 228, 184, 154, 229, 140, 150, 232, 191, 155, 229, 186, 166]) ''Optionality'' ''business_optionality'')
        \<lparr>sl_required_level := ''optional'', sl_data_status := ''Optionality'', sl_missing_policy := ''optionality_track'', sl_calculation_type := ''scenario_weighted'', sl_aggregation_policy := ''scenario_probability_weighted'', sl_alert_policy := ''no_alert'', sl_materiality := 13 / 20, sl_default_missing_reason := None, sl_value := empty_option_value\<rparr>,
      (slot_def ''L2.newbiz.revenue_contrib'' (utf8 [230, 150, 176, 228, 184, 154, 229, 138, 161, 229, 189, 147, 229, 137, 141, 232, 144, 165, 230, 148, 182, 229, 141, 160, 230, 175, 148]) ''Optionality'' ''business_optionality'')
        \<lparr>sl_required_level := ''optional'', sl_data_status := ''Optionality'', sl_missing_policy := ''optionality_track'', sl_calculation_type := ''scenario_weighted'', sl_aggregation_policy := ''scenario_probability_weighted'', sl_alert_policy := ''no_alert'', sl_materiality := 3 / 5, sl_default_missing_reason := None, sl_value := empty_option_value\<rparr>,
      (slot_def ''L2.newbiz.valuation_contrib'' (utf8 [230, 150, 176, 228, 184, 154, 229, 138, 161, 228, 188, 176, 229, 128, 188, 232, 180, 161, 231, 140, 174]) ''Optionality'' ''business_optionality'')
        \<lparr>sl_required_level := ''optional'', sl_data_status := ''Optionality'', sl_missing_policy := ''optionality_track'', sl_calculation_type := ''scenario_weighted'', sl_aggregation_policy := ''scenario_probability_weighted'', sl_alert_policy := ''no_alert'', sl_materiality := 7 / 10, sl_default_missing_reason := None, sl_value := empty_option_value\<rparr>,
      (slot_def ''L3.customer.solvency'' (utf8 [229, 164, 167, 229, 174, 162, 230, 136, 183, 229, 129, 191, 228, 187, 152, 232, 131, 189, 229, 138, 155]) ''Customer'' ''customer_structure'')
        \<lparr>sl_direction := ''negative'', sl_calculation_type := ''risk_factor'', sl_aggregation_policy := ''add_uncertainty_penalty'', sl_materiality := 7 / 10\<rparr>,
      (slot_def ''L3.channel.overseas'' (utf8 [230, 181, 183, 229, 164, 150, 230, 184, 160, 233, 129, 147, 233, 147, 186, 232, 180, 167, 228, 184, 142, 230, 156, 172, 229, 156, 159, 229, 140, 150]) ''Channel'' ''go_to_market'')
        \<lparr>sl_calculation_type := ''weighted_contribution'', sl_aggregation_policy := ''weighted_average'', sl_materiality := 3 / 5\<rparr>,
      (slot_def ''L3.region.key_risk'' (utf8 [233, 135, 141, 231, 130, 185, 229, 140, 186, 229, 159, 159, 233, 163, 142, 233, 153, 169]) ''Region'' ''geographic_exposure'')
        \<lparr>sl_direction := ''negative'', sl_calculation_type := ''risk_factor'', sl_aggregation_policy := ''subtract_risk'', sl_materiality := 13 / 20\<rparr>,
      (slot_def ''L3.delivery.capacity_supply'' (utf8 [228, 186, 164, 228, 187, 152, 228, 186, 167, 232, 131, 189] @ ''/'' @ utf8 [228, 190, 155, 229, 186, 148, 233, 147, 190, 231, 168, 179, 229, 174, 154]) ''Operations'' ''delivery'')
        \<lparr>sl_calculation_type := ''bottleneck_min'', sl_aggregation_policy := ''min_capacity_constraint'', sl_materiality := 13 / 20\<rparr>]
     @ x5_group_b_l0_slots
     @ [(slot_def ''L4.price.asp_aov_arpu'' ''ASP/AOV/ARPU'' ''Operating Metric'' ''pricing_metric'')
        \<lparr>sl_calculation_type := ''ratio_metric'', sl_aggregation_policy := ''ratio_derive'', sl_materiality := 7 / 10\<rparr>,
      (slot_def ''L4.price.pricing_power'' (utf8 [229, 133, 172, 229, 143, 184, 229, 174, 154, 228, 187, 183, 230, 157, 131] @ '' '' @ utf8 [232, 191, 144, 232, 144, 165] @ '''') ''Operating Metric'' ''pricing_metric'')
        \<lparr>sl_calculation_type := ''multiplicative_factor'', sl_aggregation_policy := ''multiply_chain'', sl_materiality := 7 / 10\<rparr>,
      (slot_def ''L4.price.elasticity'' (utf8 [228, 187, 183, 230, 160, 188, 229, 188, 185, 230, 128, 167]) ''Operating Metric'' ''pricing_metric'')
        \<lparr>sl_calculation_type := ''ratio_metric'', sl_aggregation_policy := ''ratio_derive'', sl_materiality := 11 / 20\<rparr>,
      (slot_def ''L4.cost.cac_production'' (utf8 [232, 142, 183, 229, 174, 162] @ ''/'' @ utf8 [229, 141, 149, 228, 189, 141, 231, 148, 159, 228, 186, 167, 230, 136, 144, 230, 156, 172]) ''Operating Metric'' ''efficiency_metric'')
        \<lparr>sl_direction := ''negative'', sl_calculation_type := ''risk_factor'', sl_aggregation_policy := ''subtract_risk'', sl_materiality := 13 / 20\<rparr>,
      (slot_def ''L4.cost.rent_energy_logistics'' (utf8 [231, 167, 159, 233, 135, 145] @ ''/'' @ utf8 [232, 131, 189, 230, 186, 144] @ ''/'' @ utf8 [231, 137, 169, 230, 181, 129, 230, 136, 144, 230, 156, 172]) ''Operating Metric'' ''efficiency_metric'')
        \<lparr>sl_direction := ''negative'', sl_calculation_type := ''risk_factor'', sl_aggregation_policy := ''subtract_risk'', sl_materiality := 11 / 20\<rparr>,
      (slot_def ''L4.eff.store_labor'' (utf8 [233, 151, 168, 229, 186, 151] @ ''/'' @ utf8 [228, 186, 186, 230, 149, 136]) ''Operating Metric'' ''efficiency_metric'')
        \<lparr>sl_calculation_type := ''multiplicative_factor'', sl_aggregation_policy := ''multiply_chain'', sl_materiality := 3 / 5, sl_update_frequency := ''daily''\<rparr>]"

definition z3_industry_derived_slots :: "slot list" where
  "z3_industry_derived_slots =
     [(slot_def ''L0.policy.access_license'' (utf8 [229, 135, 134, 229, 133, 165, 228, 184, 142, 231, 137, 140, 231, 133, 167]) ''Industry Policy'' ''industry_policy'')
        \<lparr>sl_calculation_type := ''threshold'', sl_aggregation_policy := ''threshold_trigger'', sl_materiality := 13 / 20\<rparr>,
      (slot_def ''L0.policy.regulation'' (utf8 [231, 155, 145, 231, 174, 161] @ ''/'' @ utf8 [229, 143, 141, 229, 158, 132, 230, 150, 173]) ''Industry Policy'' ''industry_policy'')
        \<lparr>sl_direction := ''negative'', sl_calculation_type := ''risk_factor'', sl_aggregation_policy := ''subtract_risk'', sl_materiality := 7 / 10\<rparr>,
      (slot_def ''L0.policy.subsidy'' (utf8 [232, 161, 140, 228, 184, 154, 232, 161, 165, 232, 180, 180, 230, 148, 191, 231, 173, 150]) ''Industry Policy'' ''industry_policy'')
        \<lparr>sl_calculation_type := ''multiplicative_factor'', sl_aggregation_policy := ''multiply_chain'', sl_materiality := 11 / 20\<rparr>,
      (slot_def ''L0.policy.tax_trade'' (utf8 [231, 168, 142, 230, 148, 182] @ ''/'' @ utf8 [229, 135, 186, 229, 143, 163, 233, 153, 144, 229, 136, 182]) ''Industry Policy'' ''industry_policy'')
        \<lparr>sl_direction := ''negative'', sl_calculation_type := ''risk_factor'', sl_aggregation_policy := ''subtract_risk'', sl_materiality := 13 / 20\<rparr>,
      (slot_def ''L0.tech.ai_automation'' (''AI/'' @ utf8 [232, 135, 170, 229, 138, 168, 229, 140, 150] @ ''/'' @ utf8 [233, 153, 141, 230, 156, 172]) ''Industry Technology'' ''industry_tech'')
        \<lparr>sl_calculation_type := ''multiplicative_factor'', sl_aggregation_policy := ''multiply_chain'', sl_materiality := 3 / 5\<rparr>,
      (slot_def ''L0.tech.breakthrough'' (utf8 [230, 138, 128, 230, 156, 175, 231, 170, 129, 231, 160, 180] @ ''/'' @ utf8 [228, 186, 167, 229, 147, 129, 232, 191, 173, 228, 187, 163]) ''Industry Technology'' ''industry_tech'')
        \<lparr>sl_calculation_type := ''multiplicative_factor'', sl_aggregation_policy := ''multiply_chain'', sl_materiality := 13 / 20\<rparr>,
      (slot_def ''L0.tech.substitute_tech'' (utf8 [230, 155, 191, 228, 187, 163, 230, 138, 128, 230, 156, 175]) ''Industry Technology'' ''industry_tech'')
        \<lparr>sl_direction := ''negative'', sl_calculation_type := ''risk_factor'', sl_aggregation_policy := ''subtract_risk'', sl_materiality := 3 / 5\<rparr>,
      (slot_def ''L0.cost.energy_logistics'' (utf8 [232, 161, 140, 228, 184, 154, 232, 131, 189, 230, 186, 144] @ ''/'' @ utf8 [231, 137, 169, 230, 181, 129, 230, 136, 144, 230, 156, 172]) ''Industry Cost'' ''industry_cost'')
        \<lparr>sl_direction := ''negative'', sl_calculation_type := ''risk_factor'', sl_aggregation_policy := ''subtract_risk'', sl_materiality := 11 / 20\<rparr>,
      (slot_def ''L0.cost.labor'' (utf8 [232, 161, 140, 228, 184, 154, 228, 186, 186, 229, 183, 165, 230, 136, 144, 230, 156, 172]) ''Industry Cost'' ''industry_cost'')
        \<lparr>sl_direction := ''negative'', sl_calculation_type := ''risk_factor'', sl_aggregation_policy := ''subtract_risk'', sl_materiality := 11 / 20\<rparr>,
      (slot_def ''L0.cost.raw_material'' (utf8 [229, 142, 159, 230, 157, 144, 230, 150, 153, 228, 187, 183, 230, 160, 188]) ''Industry Cost'' ''industry_cost'')
        \<lparr>sl_direction := ''negative'', sl_calculation_type := ''risk_factor'', sl_aggregation_policy := ''subtract_risk'', sl_materiality := 13 / 20\<rparr>,
      (slot_def ''L0.compete.share_concentration'' (utf8 [229, 184, 130, 229, 141, 160, 231, 142, 135] @ ''/'' @ utf8 [233, 155, 134, 228, 184, 173, 229, 186, 166, 229, 143, 152, 229, 140, 150]) ''Industry Competition'' ''industry_competition'')
        \<lparr>sl_calculation_type := ''multiplicative_factor'', sl_aggregation_policy := ''multiply_chain'', sl_materiality := 13 / 20\<rparr>,
      (slot_def ''L9.industry.data_price'' (utf8 [232, 161, 140, 228, 184, 154, 230, 149, 176, 230, 141, 174] @ ''/'' @ utf8 [228, 187, 183, 230, 160, 188, 229, 143, 145, 229, 184, 131]) ''Industry Catalyst'' ''catalyst_industry'')\<lparr>sl_active_weight := 0, sl_data_status := ''Inactive'', sl_missing_policy := ''inactive_zero_weight'', sl_calculation_type := ''or_gate'', sl_aggregation_policy := ''or_max_trigger'', sl_materiality := 1 / 2, sl_default_missing_reason := None\<rparr>,
      (slot_def ''L9.macro.geo'' (utf8 [229, 156, 176, 231, 188, 152, 228, 186, 139, 228, 187, 182]) ''Macro Catalyst'' ''catalyst_macro'')
        \<lparr>sl_direction := ''negative'', sl_active_weight := 0, sl_data_status := ''Inactive'', sl_missing_policy := ''inactive_zero_weight'', sl_calculation_type := ''risk_factor'', sl_aggregation_policy := ''subtract_risk'', sl_materiality := 3 / 5, sl_default_missing_reason := None\<rparr>]"

definition z3_company_derived_slots :: "slot list" where
  "z3_company_derived_slots =
     [(slot_def ''L1.role.tag'' (utf8 [232, 161, 140, 228, 184, 154, 232, 167, 146, 232, 137, 178, 230, 160, 135, 231, 173, 190]) ''Company Position'' ''company_position'')
        \<lparr>sl_calculation_type := ''weighted_contribution'', sl_aggregation_policy := ''weighted_average'', sl_materiality := 11 / 20\<rparr>,
      (slot_def ''L1.model.tag'' (utf8 [229, 149, 134, 228, 184, 154, 230, 168, 161, 229, 188, 143, 230, 160, 135, 231, 173, 190]) ''Company Position'' ''company_position'')
        \<lparr>sl_calculation_type := ''weighted_contribution'', sl_aggregation_policy := ''weighted_average'', sl_materiality := 11 / 20\<rparr>,
      (slot_def ''L1.moat.tags'' (utf8 [230, 138, 164, 229, 159, 142, 230, 178, 179, 230, 160, 135, 231, 173, 190]) ''Company Position'' ''company_position'')
        \<lparr>sl_calculation_type := ''weighted_contribution'', sl_aggregation_policy := ''weighted_average'', sl_materiality := 7 / 10\<rparr>,
      (slot_def ''L1.stock_attr.tags'' (utf8 [232, 130, 161, 228, 187, 183, 229, 177, 158, 230, 128, 167, 230, 160, 135, 231, 173, 190]) ''Company Position'' ''company_position'')
        \<lparr>sl_calculation_type := ''weighted_contribution'', sl_aggregation_policy := ''weighted_average'', sl_materiality := 1 / 2\<rparr>,
      (slot_def ''L1.position.growth_rank'' (utf8 [229, 162, 158, 233, 128, 159, 230, 142, 146, 229, 144, 141]) ''Company Position'' ''company_position'')
        \<lparr>sl_calculation_type := ''weighted_contribution'', sl_aggregation_policy := ''weighted_average'', sl_materiality := 3 / 5\<rparr>,
      (slot_def ''L2.segment.opex_ratio'' (utf8 [228, 184, 154, 229, 138, 161, 231, 186, 191, 232, 180, 185, 231, 148, 168, 231, 142, 135]) ''Business Segment'' ''business_optionality'')
        \<lparr>sl_direction := ''negative'', sl_calculation_type := ''ratio_metric'', sl_aggregation_policy := ''ratio_derive'', sl_materiality := 3 / 5\<rparr>,
      (slot_def ''L2.segment.profit_share'' (utf8 [228, 184, 154, 229, 138, 161, 231, 186, 191, 229, 136, 169, 230, 182, 166, 229, 141, 160, 230, 175, 148]) ''Business Segment'' ''business_optionality'')
        \<lparr>sl_calculation_type := ''weighted_contribution'', sl_aggregation_policy := ''weighted_average'', sl_materiality := 13 / 20\<rparr>,
      (slot_def ''L3.product.portfolio'' (utf8 [228, 186, 167, 229, 147, 129, 231, 187, 132, 229, 144, 136, 231, 187, 147, 230, 158, 132]) ''Product'' ''product_market_fit'')
        \<lparr>sl_calculation_type := ''weighted_contribution'', sl_aggregation_policy := ''weighted_average'', sl_materiality := 13 / 20\<rparr>,
      (slot_def ''L3.product.margin_mix'' (utf8 [228, 186, 167, 229, 147, 129, 230, 175, 155, 229, 136, 169] @ ''/'' @ utf8 [228, 187, 183, 230, 160, 188, 231, 187, 147, 230, 158, 132]) ''Product'' ''product_market_fit'')
        \<lparr>sl_calculation_type := ''weighted_contribution'', sl_aggregation_policy := ''weighted_average'', sl_materiality := 7 / 10\<rparr>,
      (slot_def ''L3.customer.concentration'' (utf8 [229, 174, 162, 230, 136, 183, 233, 155, 134, 228, 184, 173, 229, 186, 166] @ ''/'' @ utf8 [230, 181, 129, 229, 164, 177, 233, 163, 142, 233, 153, 169]) ''Customer'' ''customer_structure'')
        \<lparr>sl_direction := ''negative'', sl_calculation_type := ''risk_factor'', sl_aggregation_policy := ''subtract_risk'', sl_materiality := 3 / 4\<rparr>,
      (slot_def ''L3.channel.cost'' (utf8 [230, 184, 160, 233, 129, 147, 232, 180, 185, 231, 148, 168]) ''Channel'' ''go_to_market'')
        \<lparr>sl_direction := ''negative'', sl_calculation_type := ''risk_factor'', sl_aggregation_policy := ''subtract_risk'', sl_materiality := 11 / 20\<rparr>,
      (slot_def ''L3.channel.efficiency'' (utf8 [230, 184, 160, 233, 129, 147, 230, 149, 136, 231, 142, 135]) ''Channel'' ''go_to_market'')
        \<lparr>sl_calculation_type := ''multiplicative_factor'', sl_aggregation_policy := ''multiply_chain'', sl_materiality := 3 / 5\<rparr>,
      (slot_def ''L3.region.domestic_overseas'' (utf8 [229, 155, 189, 229, 134, 133] @ ''/'' @ utf8 [230, 181, 183, 229, 164, 150, 230, 148, 182, 229, 133, 165, 231, 187, 147, 230, 158, 132]) ''Region'' ''geographic_exposure'')
        \<lparr>sl_calculation_type := ''weighted_contribution'', sl_aggregation_policy := ''weighted_average'', sl_materiality := 13 / 20\<rparr>,
      (slot_def ''L3.region.fx_geo'' (utf8 [230, 177, 135, 231, 142, 135] @ ''/'' @ utf8 [229, 156, 176, 231, 188, 152, 229, 189, 177, 229, 147, 141]) ''Region'' ''geographic_exposure'')
        \<lparr>sl_direction := ''negative'', sl_calculation_type := ''risk_factor'', sl_aggregation_policy := ''subtract_risk'', sl_materiality := 3 / 5\<rparr>,
      (slot_def ''L3.delivery.fulfillment_cost'' (utf8 [229, 177, 165, 231, 186, 166] @ ''/'' @ utf8 [229, 148, 174, 229, 144, 142, 230, 136, 144, 230, 156, 172]) ''Operations'' ''delivery'')
        \<lparr>sl_direction := ''negative'', sl_calculation_type := ''risk_factor'', sl_aggregation_policy := ''subtract_risk'', sl_materiality := 1 / 2\<rparr>,
      (slot_def ''L4.share.market'' (utf8 [229, 133, 172, 229, 143, 184, 229, 184, 130, 229, 141, 160, 231, 142, 135]) ''Share Metric'' ''market_share'')
        \<lparr>sl_calculation_type := ''ratio_metric'', sl_aggregation_policy := ''ratio_derive'', sl_materiality := 3 / 4\<rparr>,
      (slot_def ''L4.share.substitution'' (utf8 [231, 171, 158, 229, 147, 129, 230, 155, 191, 228, 187, 163]) ''Share Metric'' ''market_share'')
        \<lparr>sl_direction := ''negative'', sl_calculation_type := ''risk_factor'', sl_aggregation_policy := ''subtract_risk'', sl_materiality := 3 / 5\<rparr>,
      (slot_def ''L4.volume.sales'' (utf8 [233, 148, 128, 233, 135, 143]) ''Operating Metric'' ''validation_metric'')
        \<lparr>sl_calculation_type := ''multiplicative_factor'', sl_aggregation_policy := ''multiply_chain'', sl_materiality := 7 / 10\<rparr>,
      (slot_def ''L4.volume.orders'' (utf8 [232, 174, 162, 229, 141, 149, 233, 135, 143]) ''Operating Metric'' ''validation_metric'')
        \<lparr>sl_calculation_type := ''multiplicative_factor'', sl_aggregation_policy := ''multiply_chain'', sl_materiality := 7 / 10\<rparr>,
      (slot_def ''L4.volume.shipments'' (utf8 [229, 135, 186, 232, 180, 167, 233, 135, 143] @ ''/'' @ utf8 [228, 186, 164, 228, 187, 152, 233, 135, 143]) ''Operating Metric'' ''validation_metric'')
        \<lparr>sl_calculation_type := ''multiplicative_factor'', sl_aggregation_policy := ''multiply_chain'', sl_materiality := 13 / 20\<rparr>,
      (slot_def ''L4.volume.users'' (utf8 [229, 174, 162, 230, 136, 183] @ ''/'' @ utf8 [231, 148, 168, 230, 136, 183, 230, 149, 176]) ''Operating Metric'' ''validation_metric'')
        \<lparr>sl_calculation_type := ''multiplicative_factor'', sl_aggregation_policy := ''multiply_chain'', sl_materiality := 13 / 20\<rparr>,
      (slot_def ''L5.fcst.beat_probability'' (utf8 [228, 184, 154, 231, 187, 169, 229, 133, 145, 231, 142, 176, 230, 166, 130, 231, 142, 135]) ''Expectation'' ''expectation_gap'')
        \<lparr>sl_calculation_type := ''multiplicative_factor'', sl_aggregation_policy := ''multiply_chain'', sl_materiality := 7 / 10\<rparr>,
      (slot_def ''L8.gov.fraud_control'' (utf8 [232, 180, 162, 229, 138, 161, 233, 128, 160, 229, 129, 135] @ ''/'' @ utf8 [229, 134, 133, 230, 142, 167]) ''Risk Offset'' ''risk_governance'')
        \<lparr>sl_direction := ''negative'', sl_active_weight := 0, sl_data_status := ''Inactive'', sl_missing_policy := ''inactive_zero_weight'', sl_calculation_type := ''risk_factor'', sl_aggregation_policy := ''subtract_risk'', sl_materiality := 17 / 20, sl_default_missing_reason := None\<rparr>,
      (slot_def ''L8.gov.litigation'' (utf8 [230, 179, 149, 229, 190, 139, 232, 175, 137, 232, 174, 188]) ''Risk Offset'' ''risk_governance'')
        \<lparr>sl_direction := ''negative'', sl_active_weight := 0, sl_data_status := ''Inactive'', sl_missing_policy := ''inactive_zero_weight'', sl_calculation_type := ''risk_factor'', sl_aggregation_policy := ''subtract_risk'', sl_materiality := 7 / 10, sl_default_missing_reason := None\<rparr>,
      (slot_def ''L8.industry.demand_supply'' (utf8 [232, 161, 140, 228, 184, 154, 233, 156, 128, 230, 177, 130] @ ''/'' @ utf8 [228, 190, 155, 231, 187, 153, 230, 129, 182, 229, 140, 150]) ''Risk Offset'' ''risk_industry'')
        \<lparr>sl_direction := ''negative'', sl_calculation_type := ''risk_factor'', sl_aggregation_policy := ''subtract_risk'', sl_materiality := 7 / 10\<rparr>,
      (slot_def ''L8.industry.price_war'' (utf8 [232, 161, 140, 228, 184, 154, 228, 187, 183, 230, 160, 188, 230, 136, 152]) ''Risk Offset'' ''risk_industry'')
        \<lparr>sl_direction := ''negative'', sl_calculation_type := ''risk_factor'', sl_aggregation_policy := ''subtract_risk'', sl_materiality := 7 / 10\<rparr>,
      (slot_def ''L8.industry.substitute'' (utf8 [230, 155, 191, 228, 187, 163, 229, 147, 129, 229, 135, 186, 231, 142, 176]) ''Risk Offset'' ''risk_industry'')
        \<lparr>sl_direction := ''negative'', sl_calculation_type := ''risk_factor'', sl_aggregation_policy := ''subtract_risk'', sl_materiality := 13 / 20\<rparr>,
      (slot_def ''L8.op.customer_channel'' (utf8 [229, 174, 162, 230, 136, 183, 230, 181, 129, 229, 164, 177] @ ''/'' @ utf8 [230, 184, 160, 233, 129, 147, 229, 164, 177, 230, 149, 136]) ''Risk Offset'' ''risk_operation'')
        \<lparr>sl_direction := ''negative'', sl_calculation_type := ''risk_factor'', sl_aggregation_policy := ''subtract_risk'', sl_materiality := 7 / 10\<rparr>,
      (slot_def ''L8.op.order_miss'' (utf8 [232, 174, 162, 229, 141, 149, 228, 184, 141, 229, 133, 145, 231, 142, 176]) ''Risk Offset'' ''risk_operation'')
        \<lparr>sl_direction := ''negative'', sl_calculation_type := ''risk_factor'', sl_aggregation_policy := ''subtract_risk'', sl_materiality := 7 / 10\<rparr>,
      (slot_def ''L8.op.product_fail'' (utf8 [228, 186, 167, 229, 147, 129, 229, 164, 177, 232, 180, 165]) ''Risk Offset'' ''risk_operation'')
        \<lparr>sl_direction := ''negative'', sl_calculation_type := ''risk_factor'', sl_aggregation_policy := ''subtract_risk'', sl_materiality := 7 / 10\<rparr>,
      (slot_def ''L8.reg.license_risk'' (utf8 [231, 137, 140, 231, 133, 167] @ ''/'' @ utf8 [229, 135, 134, 229, 133, 165, 233, 163, 142, 233, 153, 169]) ''Risk Offset'' ''risk_regulation'')
        \<lparr>sl_direction := ''negative'', sl_calculation_type := ''risk_factor'', sl_aggregation_policy := ''subtract_risk'', sl_materiality := 13 / 20\<rparr>,
      (slot_def ''L8.reg.subsidy_off'' (utf8 [232, 161, 165, 232, 180, 180, 233, 128, 128, 229, 157, 161]) ''Risk Offset'' ''risk_regulation'')
        \<lparr>sl_direction := ''negative'', sl_calculation_type := ''risk_factor'', sl_aggregation_policy := ''subtract_risk'', sl_materiality := 11 / 20\<rparr>,
      (slot_def ''L8.reg.tax_trade'' (utf8 [231, 168, 142, 230, 148, 182] @ ''/'' @ utf8 [229, 135, 186, 229, 143, 163, 233, 153, 144, 229, 136, 182] @ '' '' @ utf8 [228, 184, 170, 232, 130, 161] @ '''') ''Risk Offset'' ''risk_regulation'')
        \<lparr>sl_direction := ''negative'', sl_calculation_type := ''risk_factor'', sl_aggregation_policy := ''subtract_risk'', sl_materiality := 13 / 20\<rparr>,
      (slot_def ''L8.reg.tighten'' (utf8 [231, 155, 145, 231, 174, 161, 230, 148, 182, 231, 180, 167] @ ''/'' @ utf8 [229, 143, 141, 229, 158, 132, 230, 150, 173] @ '' '' @ utf8 [228, 184, 170, 232, 130, 161] @ '''') ''Risk Offset'' ''risk_regulation'')
        \<lparr>sl_direction := ''negative'', sl_calculation_type := ''risk_factor'', sl_aggregation_policy := ''subtract_risk'', sl_materiality := 13 / 20\<rparr>,
      (slot_def ''L8.shock.black_swan'' (utf8 [233, 187, 145, 229, 164, 169, 233, 185, 133, 228, 186, 139, 228, 187, 182]) ''Risk Offset'' ''risk_shock'')
        \<lparr>sl_direction := ''negative'', sl_active_weight := 0, sl_data_status := ''Inactive'', sl_missing_policy := ''inactive_zero_weight'', sl_calculation_type := ''risk_factor'', sl_aggregation_policy := ''subtract_risk'', sl_materiality := 17 / 20, sl_default_missing_reason := None\<rparr>,
      (slot_def ''L8.shock.crisis'' (utf8 [229, 174, 137, 229, 133, 168] @ ''/'' @ utf8 [232, 136, 134, 230, 131, 133, 229, 141, 177, 230, 156, 186]) ''Risk Offset'' ''risk_shock'')
        \<lparr>sl_direction := ''negative'', sl_active_weight := 0, sl_data_status := ''Inactive'', sl_missing_policy := ''inactive_zero_weight'', sl_calculation_type := ''risk_factor'', sl_aggregation_policy := ''subtract_risk'', sl_materiality := 7 / 10, sl_default_missing_reason := None\<rparr>,
      (slot_def ''L8.shock.supply_break'' (utf8 [228, 190, 155, 229, 186, 148, 228, 184, 173, 230, 150, 173] @ ''/'' @ utf8 [229, 174, 162, 230, 136, 183, 232, 191, 157, 231, 186, 166] @ ''/'' @ utf8 [232, 135, 170, 231, 132, 182, 231, 129, 190, 229, 174, 179]) ''Risk Offset'' ''risk_shock'')
        \<lparr>sl_direction := ''negative'', sl_active_weight := 0, sl_data_status := ''Inactive'', sl_missing_policy := ''inactive_zero_weight'', sl_calculation_type := ''risk_factor'', sl_aggregation_policy := ''subtract_risk'', sl_materiality := 3 / 4, sl_default_missing_reason := None\<rparr>,
      (slot_def ''L9.company.ma'' (utf8 [229, 185, 182, 232, 180, 173]) ''Company Catalyst'' ''catalyst_company'')\<lparr>sl_active_weight := 0, sl_data_status := ''Inactive'', sl_missing_policy := ''inactive_zero_weight'', sl_calculation_type := ''or_gate'', sl_aggregation_policy := ''or_max_trigger'', sl_materiality := 3 / 5, sl_default_missing_reason := None\<rparr>,
      (slot_def ''L9.company.product_order'' (utf8 [230, 150, 176, 228, 186, 167, 229, 147, 129, 229, 143, 145, 229, 184, 131] @ ''/'' @ utf8 [229, 164, 167, 232, 174, 162, 229, 141, 149]) ''Company Catalyst'' ''catalyst_company'')\<lparr>sl_active_weight := 0, sl_data_status := ''Inactive'', sl_missing_policy := ''inactive_zero_weight'', sl_calculation_type := ''or_gate'', sl_aggregation_policy := ''or_max_trigger'', sl_materiality := 13 / 20, sl_default_missing_reason := None\<rparr>,
      (slot_def ''L9.media.short_report'' (utf8 [229, 129, 154, 231, 169, 186, 230, 138, 165, 229, 145, 138]) ''Media Catalyst'' ''catalyst_media'')
        \<lparr>sl_direction := ''negative'', sl_active_weight := 0, sl_data_status := ''Inactive'', sl_missing_policy := ''inactive_zero_weight'', sl_calculation_type := ''risk_factor'', sl_aggregation_policy := ''subtract_risk'', sl_materiality := 7 / 10, sl_default_missing_reason := None\<rparr>]"

definition z3_industry_dp_ids :: "string list" where
  "z3_industry_dp_ids = map sl_dp_id z3_industry_derived_slots"

definition all_derived_slots :: "slot list" where
  "all_derived_slots =
     industry_derived_slots @ company_derived_slots @ x5_derived_slots @
     z3_industry_derived_slots @ z3_company_derived_slots"

section \<open>Nodes\<close>

definition strs :: "string list \<Rightarrow> pyval" where
  "strs ss = PList (map PStr ss)"

definition node_key_of :: "string \<Rightarrow> string \<Rightarrow> string" where
  "node_key_of ts dp = ts @ '':'' @ dp"

definition slot_node :: "string \<Rightarrow> slot \<Rightarrow> bool \<Rightarrow> pydict" where
  "slot_node ts s inherit =
     [(''node_id'', PStr (node_key_of ts (sl_dp_id s))),
      (''dp_id'', PStr (sl_dp_id s)),
      (''node_name'', PStr (sl_node_name s)),
      (''node_type'', PStr (sl_node_type s)),
      (''layer'', PStr (sl_layer s)),
      (''parent_node'', PStr (node_key_of ts ''company'')),
      (''child_nodes'', PList []),
      (''direction'', PStr (sl_direction s)),
      (''base_weight'', PFloat (sl_base_weight s)),
      (''active_weight'', PFloat (sl_active_weight s)),
      (''strength'', PNone),
      (''confidence'', PNone),
      (''time_horizon'', strs (sl_time_horizon s)),
      (''status'', PStr (sl_data_status s)),
      (''priced_in'', PNone),
      (''exposure'', PNone),
      (''financial_sensitivity'', PNone),
      (''valuation_sensitivity'', PNone),
      (''related_business'', PList []),
      (''related_metrics'', strs (sl_related_metrics s)),
      (''trigger_condition'', opt_str (sl_trigger_condition s)),
      (''invalidation_condition'', opt_str (sl_invalidation_condition s)),
      (''data_source'', PNone),
      (''update_frequency'', PStr (sl_update_frequency s)),
      (''last_updated'', PNone),
      (''required_level'', PStr (sl_required_level s)),
      (''data_status'', PStr (sl_data_status s)),
      (''missing_policy'', PStr (sl_missing_policy s)),
      (''calculation_type'', PStr (sl_calculation_type s)),
      (''aggregation_policy'', PStr (sl_aggregation_policy s)),
      (''alert_policy'', PStr (sl_alert_policy s)),
      (''missing_reason'', opt_str (sl_default_missing_reason s)),
      (''materiality'', PFloat (sl_materiality s)),
      (''data_coverage'', PNone),
      (''evidence_quality'', PNone),
      (''value'', sl_value s),
      (''evidence_sources'', PList []),
      (''derived_slot'', PBool True),
      (''inherit_from_industry'', PBool inherit)]"

definition node_from_slot :: "gov_registry option \<Rightarrow> string \<Rightarrow> slot \<Rightarrow> bool \<Rightarrow> pydict" where
  "node_from_slot registry ts s inherit =
     (case registry of
        None \<Rightarrow> slot_node ts s inherit
      | Some reg \<Rightarrow> apply_to_node reg False (slot_node ts s inherit))"

definition company_root_node :: "string \<Rightarrow> string \<Rightarrow> string \<Rightarrow> pydict" where
  "company_root_node ts name industry_id =
     [(''node_id'', PStr (node_key_of ts ''company'')),
      (''dp_id'', PStr ''company''),
      (''node_name'', PStr name),
      (''node_type'', PStr ''Company''),
      (''layer'', PStr ''company_identity''),
      (''parent_node'', PNone),
      (''child_nodes'', strs (map (\<lambda>s. node_key_of ts (sl_dp_id s)) all_derived_slots)),
      (''direction'', PStr ''neutral''),
      (''base_weight'', PFloat 1),
      (''active_weight'', PFloat 1),
      (''strength'', PNone),
      (''confidence'', PFloat 1),
      (''time_horizon'', strs [''short'', ''medium'', ''long'']),
      (''status'', PStr ''Known''),
      (''priced_in'', PNone),
      (''exposure'', PNone),
      (''financial_sensitivity'', PNone),
      (''valuation_sensitivity'', PNone),
      (''related_business'', PList []),
      (''related_metrics'', PList []),
      (''trigger_condition'', PNone),
      (''invalidation_condition'', PNone),
      (''data_source'', PStr ''config/mvp20.universe.yaml''),
      (''update_frequency'', PStr ''quarterly''),
      (''last_updated'', PNone),
      (''required_level'', PStr ''required''),
      (''data_status'', PStr ''Known''),
      (''missing_policy'', PStr ''known''),
      (''calculation_type'', PStr ''weighted_contribution''),
      (''aggregation_policy'', PStr ''weighted_average''),
      (''alert_policy'', PStr ''error_if_missing''),
      (''missing_reason'', PNone),
      (''materiality'', PFloat 1),
      (''data_coverage'', PFloat 1),
      (''evidence_quality'', PFloat 1),
      (''value'', PDict [(''industry_id'', PStr industry_id)]),
      (''evidence_sources'', strs [''config/mvp20.universe.yaml'']),
      (''derived_slot'', PBool False),
      (''inherit_from_industry'', PBool False)]"

section \<open>Edges\<close>

definition hierarchy_groups :: "string list" where
  "hierarchy_groups =
     [''L0.demand.terminal'', ''L0.supply.capacity'', ''L1.position.channel_edge'', ''L2.newbiz.tam'',
      ''L3.customer.segment_mix'', ''L4.eff.capacity_utilization'', ''L5.surprise.buy_whisper'']"

text \<open>\<open>f"{idx:02d}"\<close>\<close>

definition pad2 :: "nat \<Rightarrow> string" where
  "pad2 n = (if n < 10 then ''0'' else []) @ nat_str n"

definition subst_char :: "char \<Rightarrow> char \<Rightarrow> string \<Rightarrow> string" where
  "subst_char a b s = map (\<lambda>c. if c = a then b else c) s"

definition hierarchy_edge :: "string \<Rightarrow> nat \<times> string \<Rightarrow> pydict" where
  "hierarchy_edge ts entry = (case entry of (idx, dp) \<Rightarrow>
     [(''edge_id'', PStr (''HIER.'' @ ts @ ''.'' @ pad2 idx @ ''.'' @ subst_char CHR ''.'' CHR ''_'' dp)),
      (''from_node'', PStr (node_key_of ts ''company'')),
      (''to_node'', PStr (node_key_of ts dp)),
      (''edge_type'', PStr ''Parent-Child''),
      (''direction'', PStr ''neutral''),
      (''strength'', PNone),
      (''confidence'', PNone),
      (''current_status'', PStr ''active'')])"

definition hierarchy_edges_of :: "string \<Rightarrow> pydict list" where
  "hierarchy_edges_of ts = map (hierarchy_edge ts) (enumerate 1 hierarchy_groups)"

definition causal_specs :: "(string \<times> string \<times> string \<times> string \<times> string) list" where
  "causal_specs =
     [(''demand_to_position'', ''L0.demand.terminal'', ''L1.position.channel_edge'', ''Demand Transmission'', ''positive''),
      (''pricing_power_to_surprise'', ''L0.price.pricing_power'', ''L5.surprise.buy_whisper'', ''Pricing Transmission'', ''positive''),
      (''capacity_to_utilization'', ''L0.supply.capacity'', ''L4.eff.capacity_utilization'', ''Capacity Constraint'', ''positive''),
      (''price_war_to_discount'', ''L0.compete.price_war'', ''L4.price.discount'', ''Competition Risk'', ''negative''),
      (''discount_to_whisper'', ''L4.price.discount'', ''L5.surprise.buy_whisper'', ''Margin Risk'', ''negative''),
      (''new_entrant_to_stickiness'', ''L0.compete.new_entrant'', ''L1.position.stickiness'', ''Share Loss Risk'', ''negative'')]"

definition causal_edge :: "string \<Rightarrow> string \<times> string \<times> string \<times> string \<times> string \<Rightarrow> pydict" where
  "causal_edge ts spec = (case spec of (name, src, dst, edge_type, direction) \<Rightarrow>
     [(''edge_id'', PStr (''CAUSAL.'' @ ts @ ''.'' @ name)),
      (''from_node'', PStr (node_key_of ts src)),
      (''to_node'', PStr (node_key_of ts dst)),
      (''edge_type'', PStr edge_type),
      (''direction'', PStr direction),
      (''strength'', PNone),
      (''confidence'', PNone),
      (''lag'', PNone),
      (''condition'', PNone),
      (''failure_condition'', PNone),
      (''historical_effectiveness'', PNone),
      (''evidence'', PList []),
      (''current_status'', PStr ''inactive'')])"

definition causal_edges_of :: "string \<Rightarrow> pydict list" where
  "causal_edges_of ts = map (causal_edge ts) causal_specs"

section \<open>Coverage, scores and views\<close>

record coverage_walk =
  cv_counts :: "(string \<times> nat) list"
  cv_applicable :: real
  cv_known :: real
  cv_low_paths :: "string list"

definition zero_coverage :: coverage_walk where
  "zero_coverage =
     \<lparr>cv_counts = map (\<lambda>k. (k, 0))
        [''known_count'', ''unknown_count'', ''na_count'', ''inactive_count'', ''low_materiality_count'',
         ''optionality_count'', ''required_missing_count'', ''conditional_missing_count''],
      cv_applicable = 0, cv_known = 0, cv_low_paths = []\<rparr>"

definition bump :: "string \<Rightarrow> coverage_walk \<Rightarrow> coverage_walk" where
  "bump k w = w\<lparr>cv_counts := dput k ((case map_of (cv_counts w) k of None \<Rightarrow> 0 | Some n \<Rightarrow> n) + 1) (cv_counts w)\<rparr>"

definition add_applicable :: "real \<Rightarrow> coverage_walk \<Rightarrow> coverage_walk" where
  "add_applicable m w = w\<lparr>cv_applicable := cv_applicable w + m\<rparr>"

definition count_node :: "pydict \<Rightarrow> coverage_walk \<Rightarrow> coverage_walk res" where
  "count_node n w = res_map
     (\<lambda>m. let status = dget n ''data_status''; level = dget n ''required_level'' in
       if status = PStr ''Known'' then add_applicable m ((bump ''known_count'' w)\<lparr>cv_known := cv_known w + m\<rparr>)
       else if status = PStr ''N/A'' then bump ''na_count'' w
       else if status = PStr ''Unknown'' then
         (let w1 = add_applicable m (bump ''unknown_count'' w) in
          if level = PStr ''required'' then bump ''required_missing_count'' w1
          else if level = PStr ''conditional_required''
          then (bump ''conditional_missing_count'' w1)\<lparr>cv_low_paths := cv_low_paths w1 @ [py_str (dget n ''dp_id'')]\<rparr>
          else w1)
       else if status = PStr ''Inactive'' then add_applicable m (bump ''inactive_count'' w)
       else if status = PStr ''Low Materiality'' then add_applicable m (bump ''low_materiality_count'' w)
       else if status = PStr ''Optionality'' then add_applicable m (bump ''optionality_count'' w)
       else w)
     (py_float (py_or (dget n ''materiality'') (PInt 0)))"

definition coverage_dict :: "coverage_walk \<Rightarrow> pydict" where
  "coverage_dict w =
     (''data_coverage'', if 0 < cv_applicable w then PFloat (cv_known w / cv_applicable w) else PNone) #
     map (\<lambda>(k, n). (k, PInt (int n))) (cv_counts w) @
     [(''low_confidence_paths'', strs (cv_low_paths w))]"

definition coverage_for_nodes :: "pydict list \<Rightarrow> pydict res" where
  "coverage_for_nodes nodes = res_map coverage_dict (res_fold count_node nodes zero_coverage)"

text \<open>The modes \<open>"\<close>awaiting verification\<open>"\<close> and \<open>"\<close>computable, low confidence\<open>"\<close>.\<close>

definition mode_waiting :: string where
  "mode_waiting = utf8 [231, 173, 137, 229, 190, 133, 233, 170, 140, 232, 175, 129]"

definition mode_low_confidence :: string where
  "mode_low_confidence = utf8 [229, 143, 175, 232, 174, 161, 231, 174, 151] @ ''-'' @ utf8 [228, 189, 142, 231, 189, 174, 228, 191, 161, 229, 186, 166]"

text \<open>Only the coverage dictionary of \<open>coverage_for_nodes\<close> is passed, whose value is a float or null.\<close>

definition mode_for_coverage :: "pyval \<Rightarrow> string" where
  "mode_for_coverage c = (case c of PFloat x \<Rightarrow> if 3 / 10 \<le> x then mode_low_confidence else mode_waiting | _ \<Rightarrow> mode_waiting)"

definition times_sign :: string where "times_sign = '' '' @ utf8 [195, 151] @ '' ''"

definition score_formula :: string where
  "score_formula =
     join_with times_sign
       [''Direction'', ''Event Strength'', ''Transmission Strength'', ''Company Exposure'', ''Business Share'',
        ''Profit Sensitivity'', ''Confidence'', ''Time Factor'', ''Surprise'',
        ''Funding Amplifier - Priced-in Discount - Risk Discount'']"

definition default_scores :: "pydict \<Rightarrow> pydict" where
  "default_scores coverage =
     [(''node_scores'', PDict []),
      (''path_scores'', PDict
         [(''positive_paths'', PList []), (''negative_paths'', PList []), (''net_path_score'', PNone),
          (''formula'', PStr score_formula)]),
      (''company_score'', PDict
         [(''fundamental_score'', PNone), (''funding_score'', PNone), (''risk_score'', PNone),
          (''valuation_pressure'', PNone), (''priced_in_discount'', PNone)]),
      (''stock_final_score'', PDict
         [(''short_score'', PNone), (''medium_score'', PNone), (''long_score'', PNone),
          (''current_mode'', PStr (mode_for_coverage (dget coverage ''data_coverage'')))])]"

definition add_to_layer :: "pydict \<Rightarrow> (string \<times> string list) list \<Rightarrow> (string \<times> string list) list" where
  "add_to_layer n by_layer =
     (let l = py_str (dget n ''layer'') in
      dput l (dlist by_layer l @ [py_str (dget n ''node_id'')]) by_layer)"

definition view_dict :: "pyval list \<Rightarrow> pyval list \<Rightarrow> int \<Rightarrow> pyval" where
  "view_dict node_ids edge_ids depth =
     PDict [(''node_ids'', PList node_ids), (''edge_ids'', PList edge_ids), (''default_depth'', PInt depth), (''top_n'', PInt 5)]"

definition default_views :: "pydict list \<Rightarrow> pydict list \<Rightarrow> pydict list \<Rightarrow> pydict" where
  "default_views nodes hier causal =
     (let by_layer = fold add_to_layer nodes [];
          of_layers = (\<lambda>a b. map PStr (dlist by_layer a @ dlist by_layer b));
          causal_ids = map (\<lambda>e. dget e ''edge_id'') causal;
          hier_ids = map (\<lambda>e. dget e ''edge_id'') hier
      in
      [(''causal_path'', view_dict (map (\<lambda>n. dget n ''node_id'') (filter (\<lambda>n. truthy (dget n ''derived_slot'')) nodes)) causal_ids 3),
       (''industry_exposure'', view_dict (of_layers ''industry_macro'' ''industry_supply'') (take 3 causal_ids) 3),
       (''business_breakdown'', view_dict (of_layers ''company_position'' ''business_optionality'') hier_ids 3),
       (''financial_expectation'', view_dict (of_layers ''expectation_gap'' ''efficiency_metric'') causal_ids 3),
       (''valuation_expectation'', view_dict (of_layers ''expectation_gap'' ''business_optionality'') causal_ids 3),
       (''risk_offset'', PDict
          [(''node_ids'', PList (of_layers ''industry_competition'' ''customer_structure'')),
           (''edge_ids'', PList (map (\<lambda>e. dget e ''edge_id'') (filter (\<lambda>e. dget e ''direction'' = PStr ''negative'') causal))),
           (''show_negative_paths'', PBool True)]),
       (''funding_sentiment'', view_dict (map PStr (dlist by_layer ''expectation_gap'')) [] 2)])"

section \<open>Overlays\<close>

record membership =
  ms_ts_code :: string
  ms_name :: string
  ms_industry_id :: string
  ms_primary_industry :: bool
  ms_all_industries :: "string list"
  ms_role :: string
  ms_pool :: string

definition industry_node :: "slot \<Rightarrow> pydict" where
  "industry_node s =
     [(''dp_id'', PStr (sl_dp_id s)),
      (''node_name'', PStr (sl_node_name s)),
      (''node_type'', PStr (sl_node_type s)),
      (''layer'', PStr (sl_layer s)),
      (''direction'', PStr (sl_direction s)),
      (''base_weight'', PFloat (sl_base_weight s)),
      (''active_weight'', PFloat (sl_active_weight s)),
      (''required_level'', PStr (sl_required_level s)),
      (''data_status'', PStr (sl_data_status s)),
      (''missing_policy'', PStr (sl_missing_policy s)),
      (''calculation_type'', PStr (sl_calculation_type s)),
      (''aggregation_policy'', PStr (sl_aggregation_policy s)),
      (''alert_policy'', PStr (sl_alert_policy s)),
      (''materiality'', PFloat (sl_materiality s)),
      (''update_frequency'', PStr (sl_update_frequency s)),
      (''value'', sl_value s),
      (''evidence_sources'', PList [])]"

definition industry_slots :: "slot list" where
  "industry_slots = industry_derived_slots @ x5_group_b_l0_slots @ z3_industry_derived_slots"

definition graph_path :: "string \<Rightarrow> string" where
  "graph_path industry_id = ''config/industry_graphs/'' @ industry_id @ ''.yaml''"

definition overlay_ref :: "string \<Rightarrow> string" where
  "overlay_ref industry_id = ''config/industry_overlays/'' @ industry_id @ ''.yaml''"

definition build_industry_overlay :: "string \<Rightarrow> string \<Rightarrow> string \<Rightarrow> string \<Rightarrow> pydict" where
  "build_industry_overlay industry_id display_name period graph_status =
     [(''schema_version'', PInt schema_version),
      (''template_version'', PStr industry_template_version),
      (''industry_id'', PStr industry_id),
      (''industry_name_cn'', PStr display_name),
      (''period'', PStr period),
      (''graph_status'', PStr graph_status),
      (''base_industry_graph'', PStr (graph_path industry_id)),
      (''nodes'', PList (map (PDict \<circ> industry_node) industry_slots)),
      (''coverage'', PDict (coverage_dict zero_coverage)),
      (''notes'', PStr ''Industry L0 derived slots are inherited by stock overlays and filled by agents/quarterly research.'')]"

definition build_space_economy_graph_stub :: "string \<Rightarrow> string \<Rightarrow> pydict" where
  "build_space_economy_graph_stub display_name period =
     [(''schema_version'', PInt schema_version),
      (''template_version'', PStr ''industry-graph-v3.1.1-pending''),
      (''industry_id'', PStr pending_industry_id),
      (''industry_name_cn'', PStr display_name),
      (''graph_status'', PStr ''pending''),
      (''period'', PStr period),
      (''priors'', PDict [(''boundary'', PDict
         [(''scope_segments'', PList []), (''core_judgment'', PStr ''pending industry graph authoring'')])]),
      (''nodes'', PList []), (''edges'', PList []), (''views'', PDict [])]"

definition inherits :: "slot \<Rightarrow> bool" where
  "inherits s \<longleftrightarrow>
     s \<in> set industry_derived_slots \<or> py_startswith (sl_dp_id s) ''L0.'' \<or> sl_dp_id s \<in> set z3_industry_dp_ids"

definition stock_nodes :: "gov_registry option \<Rightarrow> membership \<Rightarrow> pydict list" where
  "stock_nodes registry ms =
     company_root_node (ms_ts_code ms) (ms_name ms) (ms_industry_id ms) #
     map (\<lambda>s. node_from_slot registry (ms_ts_code ms) s (inherits s)) all_derived_slots"

definition overlay_layers :: "string list" where
  "overlay_layers =
     [''company_identity'', ''industry_macro'', ''industry_supply'', ''industry_price'', ''industry_cost'',
      ''industry_competition'', ''company_position'', ''business_optionality'', ''product_market_fit'',
      ''customer_structure'', ''go_to_market'', ''validation_metric'']"

definition llm_slot :: "slot \<Rightarrow> pyval" where
  "llm_slot s = PDict
     [(''dp_id'', PStr (sl_dp_id s)),
      (''node_name'', PStr (sl_node_name s)),
      (''required_level'', PStr (sl_required_level s)),
      (''data_status'', PStr (sl_data_status s)),
      (''missing_policy'', PStr (sl_missing_policy s)),
      (''calculation_type'', PStr (sl_calculation_type s)),
      (''aggregation_policy'', PStr (sl_aggregation_policy s)),
      (''materiality'', PFloat (sl_materiality s))]"

definition stock_overlay :: "membership \<Rightarrow> string \<Rightarrow> pydict list \<Rightarrow> pydict \<Rightarrow> pydict" where
  "stock_overlay ms period nodes coverage =
     (let hier = hierarchy_edges_of (ms_ts_code ms); causal = causal_edges_of (ms_ts_code ms) in
     [(''schema_version'', PInt schema_version),
      (''template_version'', PStr stock_template_version),
      (''ts_code'', PStr (ms_ts_code ms)),
      (''name'', PStr (ms_name ms)),
      (''industry_id'', PStr (ms_industry_id ms)),
      (''primary_industry'', PBool (ms_primary_industry ms)),
      (''available_industries'', strs (ms_all_industries ms)),
      (''role'', PStr (ms_role ms)),
      (''pool'', PStr (ms_pool ms)),
      (''period'', PStr period),
      (''base_industry_graph'', PStr (graph_path (ms_industry_id ms))),
      (''industry_overlay_ref'', PStr (overlay_ref (ms_industry_id ms))),
      (''overlay_layers'', strs overlay_layers),
      (''nodes'', PList (map PDict nodes)),
      (''llm_derived_slots'', PList (map llm_slot all_derived_slots)),
      (''hierarchy_edges'', PList (map PDict hier)),
      (''causal_edges'', PList (map PDict causal)),
      (''coverage'', PDict coverage),
      (''scores'', PDict (default_scores coverage)),
      (''views'', PDict (default_views nodes hier causal))])"

definition build_stock_overlay :: "gov_registry option \<Rightarrow> membership \<Rightarrow> string \<Rightarrow> pydict res" where
  "build_stock_overlay registry ms period =
     (let nodes = stock_nodes registry ms in
      res_map (stock_overlay ms period nodes) (coverage_for_nodes nodes))"

section \<open>Memberships\<close>

text \<open>A loaded YAML file; an empty one is an empty dictionary.\<close>

definition loaded :: "pyval \<Rightarrow> pydict res" where
  "loaded payload = as_mapping (py_or payload (PDict []))"

definition load_industries :: "pyval \<Rightarrow> pyval list res" where
  "load_industries payload =
     res_bind (loaded payload) (\<lambda>d. py_iter (py_or (dget d ''industries'') (PList [])))"

definition active_id :: "pyval \<Rightarrow> string list res" where
  "active_id i = res_bind (as_mapping i) (\<lambda>d.
     if dget_default d ''graph_status'' (PStr ''present'') = PStr ''present''
     then res_map (\<lambda>v. [py_str v]) (ditem d ''id'') else Inr [])"

definition active_industry_ids :: "pyval \<Rightarrow> string list res" where
  "active_industry_ids payload =
     res_bind (load_industries payload) (\<lambda>is. res_map concat (res_list active_id is))"

definition display_name_of :: "pyval \<Rightarrow> (string \<times> string) res" where
  "display_name_of i = (case i of
     PDict d \<Rightarrow> res_bind (ditem d ''id'') (\<lambda>v. Inr (py_str v, py_str (py_or (dget d ''display_name'') v)))
   | _ \<Rightarrow> Inl TypeError)"

definition industry_display_names :: "pyval \<Rightarrow> (string \<times> string) list res" where
  "industry_display_names payload =
     res_bind (load_industries payload) (\<lambda>is.
       res_map (\<lambda>kvs. fold (\<lambda>(k, v). dput k v) kvs []) (res_list display_name_of is))"

definition membership_of :: "pydict \<Rightarrow> string list \<Rightarrow> nat \<times> string \<Rightarrow> membership res" where
  "membership_of c industry_ids entry = (case entry of (idx, industry_id) \<Rightarrow>
     res_map (\<lambda>ts.
       \<lparr>ms_ts_code = py_str ts, ms_name = py_str (py_or (dget c ''name'') ts), ms_industry_id = industry_id,
        ms_primary_industry = (idx = 0), ms_all_industries = industry_ids,
        ms_role = py_str (py_or (dget c ''role'') (PStr ''target'')),
        ms_pool = py_str (py_or (dget c ''pool'') (PStr ''regular''))\<rparr>)
     (ditem c ''ts_code''))"

definition memberships_of :: "string list \<Rightarrow> pyval \<Rightarrow> membership list res" where
  "memberships_of active v = res_bind (as_mapping v) (\<lambda>c.
     res_bind (py_iter (py_or (dget c ''industry_ids'') (PList []))) (\<lambda>ids.
       let industry_ids = map py_str ids in
       res_list (membership_of c industry_ids) (filter (\<lambda>(idx, i). i \<in> set active) (enumerate 0 industry_ids))))"

definition expand_memberships :: "pyval \<Rightarrow> pyval \<Rightarrow> membership list res" where
  "expand_memberships universe industries =
     res_bind (loaded universe) (\<lambda>u.
     res_bind (active_industry_ids industries) (\<lambda>active.
     res_bind (py_iter (py_or (dget u ''constituents'') (PList []))) (\<lambda>cs.
       res_map concat (res_list (memberships_of active) cs))))"
end
