(* ===== verification/OverlayCheck.thy ===== *)
theory OverlayCheck
  imports Templates
begin

text \<open>
  The validation of a stock overlay (\<open>validate_stock_overlay\<close> of \<open>mvp20/overlays.py\<close>). The checks run in
  the order of the source; what Python raises on the way (an unhashable id, a node that is no
  dictionary, a weight that is no number) is an error value. The messages are the constructors of
  \<open>overlay_error\<close> and \<open>overlay_warning\<close>, with the id of the node or edge they name; the file name they
  start with is left out. \<open>validated_overlay_is_sound\<close> says exactly which payloads pass.
\<close>

section \<open>Vocabulary\<close>

definition data_statuses :: "string list" where
  "data_statuses = [''Known'', ''N/A'', ''Unknown'', ''Unavailable'', ''Proxy'', ''Inactive'', ''Low Materiality'', ''Optionality'']"

definition required_levels :: "string list" where
  "required_levels = [''required'', ''conditional_required'', ''optional'']"

definition ov_missing_policies :: "string list" where
  "ov_missing_policies =
     [''known'', ''not_applicable_remove'', ''unknown_reduce_confidence'', ''inactive_zero_weight'',
      ''low_materiality_fold'', ''optionality_track'']"

definition ov_calculation_types :: "string list" where
  "ov_calculation_types =
     [''none'', ''raw_value'', ''additive'', ''subtractive'', ''multiplicative_factor'', ''ratio_metric'',
      ''weighted_contribution'', ''risk_factor'', ''confidence_multiplier'', ''bottleneck_min'', ''and_gate'',
      ''or_gate'', ''threshold'', ''saturation'', ''scenario_weighted'', ''time_decay'', ''bayesian_update'',
      ''dedup_correlation'', ''reflexivity'', ''dcf'']"

definition ov_aggregation_policies :: "string list" where
  "ov_aggregation_policies =
     [''none'', ''add_uncertainty_penalty'', ''renormalize_siblings'', ''weighted_average'', ''weighted_sum'',
      ''multiply_chain'', ''subtract_risk'', ''ratio_derive'', ''multiplicative_factor'', ''confidence_adjusted'',
      ''min_capacity_constraint'', ''and_all_required'', ''or_max_trigger'', ''threshold_trigger'',
      ''saturation_curve'', ''scenario_probability_weighted'', ''time_decay_half_life'',
      ''bayesian_confidence_update'', ''deduplicate_correlated_inputs'', ''feedback_loop_limited'',
      ''discounted_cash_flow'', ''no_aggregation'']"

definition alert_policies :: "string list" where
  "alert_policies = [''error_if_missing'', ''warn_if_material'', ''warn_if_stale'', ''no_alert'']"

definition required_top :: "string list" where
  "required_top =
     [''schema_version'', ''template_version'', ''ts_code'', ''industry_id'', ''primary_industry'', ''period'',
      ''base_industry_graph'', ''industry_overlay_ref'', ''nodes'', ''hierarchy_edges'', ''causal_edges'',
      ''coverage'', ''scores'', ''views'']"

definition required_node :: "string list" where
  "required_node =
     [''node_id'', ''node_name'', ''node_type'', ''layer'', ''data_status'', ''missing_policy'',
      ''calculation_type'', ''aggregation_policy'']"

definition expected_views :: "string list" where
  "expected_views =
     [''causal_path'', ''industry_exposure'', ''business_breakdown'', ''financial_expectation'',
      ''valuation_expectation'', ''risk_offset'', ''funding_sentiment'']"

definition score_layers :: "string list" where
  "score_layers = [''node_scores'', ''path_scores'', ''company_score'', ''stock_final_score'']"

text \<open>\<open>sorted(required - set(d))\<close>\<close>

definition missing_names :: "string list \<Rightarrow> string list \<Rightarrow> string list" where
  "missing_names required present = sort (filter (\<lambda>k. k \<notin> set present) required)"

text \<open>\<open>v in names\<close> for a set of strings: an unhashable value raises.\<close>

definition in_names :: "pyval \<Rightarrow> string list \<Rightarrow> bool res" where
  "in_names v names = res_map (\<lambda>k. k \<in> KStr ` set names) (py_key v)"

datatype overlay_error =
    MissingTop string
  | BadTemplateVersion
  | MissingNodeField pyval string
  | BadNodeValue pyval string pyval
  | RequiredUnknown pyval
  | NoMissingReason pyval
  | NotApplicablePolicy pyval
  | OptionNotSplit pyval
  | NotParentChild pyval
  | CausalInHierarchy pyval
  | HierarchyUnknownNode pyval
  | ParentChildInCausal pyval
  | CausalUnknownNode pyval
  | LowCoverageMode
  | MissingView string
  | MissingScoreLayer string

datatype overlay_warning =
    ConditionalUnknown pyval
  | InactiveWeight pyval
  | GovernanceMissing nat
  | GovernanceUnknown nat

section \<open>Nodes\<close>

definition check_name :: "pyval \<Rightarrow> pydict \<Rightarrow> string list \<Rightarrow> string \<Rightarrow> overlay_error list res" where
  "check_name label n names field =
     res_map (\<lambda>ok. if ok then [] else [BadNodeValue label field (dget n field)]) (in_names (dget n field) names)"

text \<open>\<open>field_role\<close> and \<open>score_target\<close> are checked when they are there.\<close>

definition check_optional_name :: "pyval \<Rightarrow> pydict \<Rightarrow> string list \<Rightarrow> string \<Rightarrow> overlay_error list res" where
  "check_optional_name label n names field =
     (if dget n field = PNone then Inr [] else check_name label n names field)"

text \<open>What the registry lacks: 1 for fields missing on the node, 2 for an unregistered data point.\<close>

definition governance_gap :: "gov_registry option \<Rightarrow> pydict \<Rightarrow> nat" where
  "governance_gap registry n =
     (case registry of
        None \<Rightarrow> 0
      | Some reg \<Rightarrow>
          let dp = dget n ''dp_id'' in
          if truthy dp \<and> dp \<noteq> PStr ''company'' then
            (if reg_get reg dp = None then 2
             else if \<not> truthy (dget n ''field_role'') \<or> \<not> truthy (dget n ''score_target'') then 1 else 0)
          else 0)"

definition unknown_errors :: "pyval \<Rightarrow> pydict \<Rightarrow> overlay_error list" where
  "unknown_errors label n =
     (let status = dget n ''data_status''; level = dget n ''required_level'' in
      (if status = PStr ''Unknown'' \<and> level = PStr ''required'' then [RequiredUnknown label] else []) @
      (if status = PStr ''Unknown'' \<and> level = PStr ''conditional_required'' \<and> \<not> truthy (dget n ''missing_reason'')
       then [NoMissingReason label] else []) @
      (if status = PStr ''N/A'' \<and> dget n ''missing_policy'' \<noteq> PStr ''not_applicable_remove''
       then [NotApplicablePolicy label] else []))"

definition option_errors :: "pyval \<Rightarrow> pydict \<Rightarrow> overlay_error list" where
  "option_errors label n =
     (let value = dget n ''value'' in
      if dget n ''data_status'' = PStr ''Optionality'' \<and>
         (\<not> is_dict value \<or> \<not> dhas (as_dict value) ''current_contribution'' \<or> \<not> dhas (as_dict value) ''future_option_value'')
      then [OptionNotSplit label] else [])"

definition conditional_warnings :: "pyval \<Rightarrow> pydict \<Rightarrow> overlay_warning list" where
  "conditional_warnings label n =
     (if dget n ''data_status'' = PStr ''Unknown'' \<and> dget n ''required_level'' = PStr ''conditional_required''
      then [ConditionalUnknown label] else [])"

definition inactive_warnings :: "pyval \<Rightarrow> pydict \<Rightarrow> overlay_warning list res" where
  "inactive_warnings label n =
     (if dget n ''data_status'' = PStr ''Inactive''
      then res_map (\<lambda>w. if w > 1 / 5 then [InactiveWeight label] else [])
             (py_float (py_or (dget n ''active_weight'') (PInt 0)))
      else Inr [])"

type_synonym ov_node_report = "overlay_error list \<times> overlay_warning list \<times> nat"

definition enumerated_fields :: "(string list \<times> string) list" where
  "enumerated_fields =
     [(data_statuses, ''data_status''), (required_levels, ''required_level''),
      (ov_missing_policies, ''missing_policy''), (ov_calculation_types, ''calculation_type''),
      (ov_aggregation_policies, ''aggregation_policy''), (alert_policies, ''alert_policy'')]"

definition optional_enumerated_fields :: "(string list \<times> string) list" where
  "optional_enumerated_fields = [(field_roles, ''field_role''), (score_targets, ''score_target'')]"

definition check_node :: "gov_registry option \<Rightarrow> pydict \<Rightarrow> ov_node_report res" where
  "check_node registry n =
     (let label = dget_default n ''node_id'' (PStr ''<node>'') in
      res_bind (res_list (\<lambda>(names, field). check_name label n names field) enumerated_fields) (\<lambda>e1.
      res_bind (res_list (\<lambda>(names, field). check_optional_name label n names field) optional_enumerated_fields) (\<lambda>e2.
      res_bind (inactive_warnings label n) (\<lambda>w.
        Inr (map (MissingNodeField label) (missing_names required_node (map fst n)) @
             concat e1 @ concat e2 @ unknown_errors label n @ option_errors label n,
             conditional_warnings label n @ w, governance_gap registry n)))))"

text \<open>The ids that edges may refer to.\<close>

definition node_id_key :: "pyval \<Rightarrow> pykey res" where
  "node_id_key v = res_bind (as_mapping v) (\<lambda>n. py_key (dget n ''node_id''))"

section \<open>Edges\<close>

text \<open>\<open>a not in ids or b not in ids\<close>: the second is only looked at when the first is there.\<close>

definition dangling :: "pykey list \<Rightarrow> pydict \<Rightarrow> bool res" where
  "dangling ids e =
     res_bind (py_key (dget e ''from_node'')) (\<lambda>a.
       if a \<notin> set ids then Inr True
       else res_map (\<lambda>b. b \<notin> set ids) (py_key (dget e ''to_node'')))"

definition edge_label :: "pydict \<Rightarrow> pyval" where
  "edge_label e = dget_default e ''edge_id'' (PStr ''<edge>'')"

definition check_hierarchy_edge :: "pykey list \<Rightarrow> pyval \<Rightarrow> overlay_error list res" where
  "check_hierarchy_edge ids v = res_bind (as_mapping v) (\<lambda>e.
     res_map (\<lambda>bad.
       (if dget e ''edge_type'' \<noteq> PStr ''Parent-Child'' then [NotParentChild (edge_label e)] else []) @
       (if py_in_str ''Transmission'' (py_str (dget e ''edge_type'')) \<or> py_in_str ''Risk'' (py_str (dget e ''edge_type''))
        then [CausalInHierarchy (edge_label e)] else []) @
       (if bad then [HierarchyUnknownNode (edge_label e)] else []))
     (dangling ids e))"

definition check_causal_edge :: "pykey list \<Rightarrow> pyval \<Rightarrow> overlay_error list res" where
  "check_causal_edge ids v = res_bind (as_mapping v) (\<lambda>e.
     res_map (\<lambda>bad.
       (if dget e ''edge_type'' = PStr ''Parent-Child'' then [ParentChildInCausal (edge_label e)] else []) @
       (if bad then [CausalUnknownNode (edge_label e)] else []))
     (dangling ids e))"

section \<open>Coverage, views and scores\<close>

text \<open>\<open>c < 0.3\<close>: only numbers can be compared.\<close>

fun below_30 :: "pyval \<Rightarrow> bool res" where
  "below_30 (PBool b) = Inr ((if b then 1 else 0) < (3 / 10 :: real))"
| "below_30 (PInt i) = Inr (real_of_int i < 3 / 10)"
| "below_30 (PFloat x) = Inr (x < 3 / 10)"
| "below_30 v = Inl TypeError"

definition mapping_or_empty :: "pydict \<Rightarrow> string \<Rightarrow> pydict res" where
  "mapping_or_empty d k = as_mapping (py_or (dget d k) (PDict []))"

definition check_coverage :: "pydict \<Rightarrow> pydict \<Rightarrow> overlay_error list res" where
  "check_coverage coverage scores =
     (let c = dget coverage ''data_coverage'' in
      if c = PNone then Inr []
      else res_bind (below_30 c) (\<lambda>low.
        if \<not> low then Inr []
        else res_map (\<lambda>final.
          if dget final ''current_mode'' \<noteq> PStr mode_waiting then [LowCoverageMode] else [])
          (mapping_or_empty scores ''stock_final_score'')))"

text \<open>\<open>expected_views - set(views)\<close>\<close>

definition check_views :: "pydict \<Rightarrow> overlay_error list res" where
  "check_views payload =
     res_bind (py_iter (py_or (dget payload ''views'') (PDict []))) (\<lambda>vs.
       res_map (\<lambda>ks. map MissingView (sort (filter (\<lambda>v. KStr v \<notin> set ks) expected_views))) (res_list py_key vs))"

definition check_layers :: "pydict \<Rightarrow> overlay_error list" where
  "check_layers scores = map MissingScoreLayer (filter (\<lambda>l. \<not> dhas scores l) score_layers)"

section \<open>A stock overlay\<close>

definition elements :: "pydict \<Rightarrow> string \<Rightarrow> pyval list res" where
  "elements payload k = py_iter (py_or (dget payload k) (PList []))"

definition top_errors :: "pydict \<Rightarrow> overlay_error list" where
  "top_errors payload =
     map MissingTop (missing_names required_top (map fst payload)) @
     (if dget payload ''template_version'' = PStr stock_template_version then [] else [BadTemplateVersion])"

definition governance_warnings :: "nat list \<Rightarrow> overlay_warning list" where
  "governance_warnings gaps =
     (let m = length (filter (\<lambda>g. g = 1) gaps); u = length (filter (\<lambda>g. g = 2) gaps) in
      (if 0 < m then [GovernanceMissing m] else []) @ (if 0 < u then [GovernanceUnknown u] else []))"

definition check_nodes :: "gov_registry option \<Rightarrow> pyval list \<Rightarrow> ov_node_report list res" where
  "check_nodes registry ns = res_list (\<lambda>v. res_bind (as_mapping v) (check_node registry)) ns"

definition validate_stock_overlay ::
  "gov_registry option \<Rightarrow> pydict \<Rightarrow> (overlay_error list \<times> overlay_warning list) res" where
  "validate_stock_overlay registry payload =
     res_bind (elements payload ''nodes'') (\<lambda>ns.
     res_bind (res_list node_id_key ns) (\<lambda>ids.
     res_bind (check_nodes registry ns) (\<lambda>reports.
     res_bind (elements payload ''hierarchy_edges'') (\<lambda>hs.
     res_bind (res_list (check_hierarchy_edge ids) hs) (\<lambda>he.
     res_bind (elements payload ''causal_edges'') (\<lambda>cs.
     res_bind (res_list (check_causal_edge ids) cs) (\<lambda>ce.
     res_bind (mapping_or_empty payload ''coverage'') (\<lambda>coverage.
     res_bind (mapping_or_empty payload ''scores'') (\<lambda>scores.
     res_bind (check_coverage coverage scores) (\<lambda>ec.
     res_bind (check_views payload) (\<lambda>ev.
       Inr (top_errors payload @ concat (map fst reports) @ concat he @ concat ce @ ec @ ev @ check_layers scores,
            concat (map (fst \<circ> snd) reports) @ governance_warnings (map (snd \<circ> snd) reports)))))))))))))"

section \<open>Which overlays pass\<close>

definition named :: "pydict \<Rightarrow> string \<Rightarrow> string list \<Rightarrow> bool" where
  "named n field names \<longleftrightarrow> dget n field \<in> PStr ` set names"

definition node_sound :: "pydict \<Rightarrow> bool" where
  "node_sound n \<longleftrightarrow>
     set required_node \<subseteq> set (map fst n) \<and>
     list_all (\<lambda>(names, field). named n field names) enumerated_fields \<and>
     list_all (\<lambda>(names, field). dget n field = PNone \<or> named n field names) optional_enumerated_fields \<and>
     unknown_errors (PStr []) n = [] \<and> option_errors (PStr []) n = []"

definition members :: "pydict \<Rightarrow> string \<Rightarrow> pydict list" where
  "members payload k = (case elements payload k of Inl e \<Rightarrow> [] | Inr vs \<Rightarrow> map as_dict vs)"

definition edge_closed :: "pydict list \<Rightarrow> pydict \<Rightarrow> bool" where
  "edge_closed ns e \<longleftrightarrow>
     py_key (dget e ''from_node'') \<in> (\<lambda>n. py_key (dget n ''node_id'')) ` set ns \<and>
     py_key (dget e ''to_node'') \<in> (\<lambda>n. py_key (dget n ''node_id'')) ` set ns"

definition low_coverage :: "pydict \<Rightarrow> bool" where
  "low_coverage payload \<longleftrightarrow> below_30 (dget (as_dict (dget payload ''coverage'')) ''data_coverage'') = Inr True"

definition current_mode :: "pydict \<Rightarrow> pyval" where
  "current_mode payload =
     dget (as_dict (dget (as_dict (dget payload ''scores'')) ''stock_final_score'')) ''current_mode''"

definition view_names :: "pydict \<Rightarrow> pykey res list" where
  "view_names payload = (case elements payload ''views'' of Inl e \<Rightarrow> [] | Inr vs \<Rightarrow> map py_key vs)"

definition overlay_sound :: "pydict \<Rightarrow> bool" where
  "overlay_sound payload \<longleftrightarrow>
     set required_top \<subseteq> set (map fst payload) \<and>
     dget payload ''template_version'' = PStr stock_template_version \<and>
     (let ns = members payload ''nodes'' in
      list_all node_sound ns \<and>
      list_all (\<lambda>e. dget e ''edge_type'' = PStr ''Parent-Child'' \<and> edge_closed ns e) (members payload ''hierarchy_edges'') \<and>
      list_all (\<lambda>e. dget e ''edge_type'' \<noteq> PStr ''Parent-Child'' \<and> edge_closed ns e) (members payload ''causal_edges'')) \<and>
     (low_coverage payload \<longrightarrow> current_mode payload = PStr mode_waiting) \<and>
     (\<forall>v \<in> set expected_views. Inr (KStr v) \<in> set (view_names payload)) \<and>
     (\<forall>l \<in> set score_layers. dhas (as_dict (dget payload ''scores'')) l)"

lemma py_key_KStr: "py_key v = Inr (KStr s) \<longleftrightarrow> v = PStr s"
  by (cases v) auto

lemma in_names_True: "in_names v names = Inr True \<longleftrightarrow> v \<in> PStr ` set names"
  by (cases v) (auto simp: in_names_def)

lemma missing_names_Nil: "missing_names required present = [] \<longleftrightarrow> set required \<subseteq> set present"
proof -
  have "missing_names required present = [] \<longleftrightarrow> set (missing_names required present) = {}" by simp
  then show ?thesis unfolding missing_names_def by auto
qed

lemma check_name_Nil:
  "check_name label n names field = Inr es \<Longrightarrow> es = [] \<longleftrightarrow> named n field names"
  using in_names_True [of "dget n field" names]
  by (auto simp: check_name_def named_def res_map_eq_Inr split: if_splits)

lemma check_optional_name_Nil:
  "check_optional_name label n names field = Inr es \<Longrightarrow>
     es = [] \<longleftrightarrow> dget n field = PNone \<or> named n field names"
  using check_name_Nil [of label n names field es]
  by (auto simp: check_optional_name_def split: if_splits)

lemma unknown_errors_label: "unknown_errors a n = [] \<longleftrightarrow> unknown_errors b n = []"
  by (simp add: unknown_errors_def Let_def)

lemma option_errors_label: "option_errors a n = [] \<longleftrightarrow> option_errors b n = []"
  by (simp add: option_errors_def Let_def)

lemma concat_checks_Nil:
  "res_list f vs = Inr ess \<Longrightarrow> (\<And>v es. f v = Inr es \<Longrightarrow> es = [] \<longleftrightarrow> P v) \<Longrightarrow>
     concat ess = [] \<longleftrightarrow> list_all P vs"
proof (induction vs arbitrary: ess)
  case Nil
  then show ?case by simp
next
  case (Cons v vs)
  then obtain es ess' where e: "f v = Inr es" "res_list f vs = Inr ess'" "ess = es # ess'"
    by (auto simp: res_bind_eq_Inr)
  from Cons.IH [OF e(2) Cons.prems(2)] Cons.prems(2) [OF e(1)]
  show ?case by (simp add: e(3) del: concat_eq_Nil_conv)
qed

lemma check_node_Nil:
  assumes "check_node registry n = Inr (es, ws, g)"
  shows "es = [] \<longleftrightarrow> node_sound n"
proof -
  let ?l = "dget_default n ''node_id'' (PStr ''<node>'')"
  obtain e1 e2 w where
    e1: "res_list (\<lambda>(names, field). check_name ?l n names field) enumerated_fields = Inr e1" and
    e2: "res_list (\<lambda>(names, field). check_optional_name ?l n names field) optional_enumerated_fields = Inr e2" and
    es: "es = map (MissingNodeField ?l) (missing_names required_node (map fst n)) @
      concat e1 @ concat e2 @ unknown_errors ?l n @ option_errors ?l n"
    using assms unfolding check_node_def Let_def res_bind_eq_Inr sum.inject prod.inject by blast
  have 1: "concat e1 = [] \<longleftrightarrow> list_all (\<lambda>(names, field). named n field names) enumerated_fields"
    by (rule concat_checks_Nil [OF e1]) (use check_name_Nil in fastforce)
  have 2: "concat e2 = [] \<longleftrightarrow> list_all (\<lambda>(names, field). dget n field = PNone \<or> named n field names) optional_enumerated_fields"
    by (rule concat_checks_Nil [OF e2]) (use check_optional_name_Nil in fastforce)
  show ?thesis
    unfolding es node_sound_def append_is_Nil_conv map_is_Nil_conv missing_names_Nil 1 2
      unknown_errors_label [of ?l n "PStr []"] option_errors_label [of ?l n "PStr []"]
    by (rule refl)
qed

lemma as_mapping_Inr: "as_mapping v = Inr d \<longleftrightarrow> v = PDict d"
  by (cases v) auto

lemma check_nodes_Nil:
  "check_nodes registry ns = Inr reports \<Longrightarrow>
     concat (map fst reports) = [] \<longleftrightarrow> list_all node_sound (map as_dict ns)"
proof (induction ns arbitrary: reports)
  case Nil
  then show ?case by (simp add: check_nodes_def)
next
  case (Cons v ns)
  then obtain d r rs where d: "v = PDict d" "check_node registry d = Inr r" "check_nodes registry ns = Inr rs" "reports = r # rs"
    by (auto simp: check_nodes_def res_bind_eq_Inr as_mapping_Inr)
  obtain es ws g where r: "r = (es, ws, g)" by (cases r)
  have "es = [] \<longleftrightarrow> node_sound d" using check_node_Nil d(2) r by simp
  then show ?case using Cons.IH [OF d(3)] by (simp add: d(1,4) r del: concat_eq_Nil_conv)
qed

lemma node_id_key_Inr: "node_id_key v = Inr k \<longleftrightarrow> (\<exists>d. v = PDict d \<and> py_key (dget d ''node_id'') = Inr k)"
  by (auto simp: node_id_key_def res_bind_eq_Inr as_mapping_Inr)

lemma node_ids_keys:
  "res_list node_id_key ns = Inr ids \<Longrightarrow>
     Inr ` set ids = (\<lambda>n. py_key (dget n ''node_id'')) ` set (map as_dict ns)"
proof (induction ns arbitrary: ids)
  case Nil
  then show ?case by simp
next
  case (Cons v ns)
  then obtain d k ks where "v = PDict d" "py_key (dget d ''node_id'') = Inr k" "res_list node_id_key ns = Inr ks" "ids = k # ks"
    by (auto simp: node_id_key_Inr res_bind_eq_Inr)
  with Cons.IH show ?case by simp
qed

lemma dangling_closed:
  assumes "dangling ids e = Inr bad" and ids: "Inr ` set ids = (\<lambda>n. py_key (dget n ''node_id'')) ` set ns"
  shows "bad \<longleftrightarrow> \<not> edge_closed ns e"
proof -
  have k: "Inr k \<in> (\<lambda>n. py_key (dget n ''node_id'')) ` set ns \<longleftrightarrow> k \<in> set ids" for k
    unfolding ids [symmetric] by auto
  obtain a where a: "py_key (dget e ''from_node'') = Inr a"
    using assms(1) by (auto simp: dangling_def res_bind_eq_Inr)
  show ?thesis
  proof (cases "a \<in> set ids")
    case True
    then obtain b where "py_key (dget e ''to_node'') = Inr b" "bad \<longleftrightarrow> b \<notin> set ids"
      using assms(1) a by (auto simp: dangling_def res_map_eq_Inr)
    then show ?thesis using a True by (simp add: edge_closed_def k)
  next
    case False
    then show ?thesis using assms(1) a by (simp add: dangling_def edge_closed_def k)
  qed
qed

lemma risk_is_no_parent_child:
  "dget e ''edge_type'' = PStr ''Parent-Child'' \<Longrightarrow>
     \<not> py_in_str ''Transmission'' (py_str (dget e ''edge_type'')) \<and> \<not> py_in_str ''Risk'' (py_str (dget e ''edge_type''))"
  by (simp add: py_in_str_def sublist_code)

lemma hierarchy_Nil:
  assumes "check_hierarchy_edge ids v = Inr es"
    and "Inr ` set ids = (\<lambda>n. py_key (dget n ''node_id'')) ` set ns"
  shows "es = [] \<longleftrightarrow> dget (as_dict v) ''edge_type'' = PStr ''Parent-Child'' \<and> edge_closed ns (as_dict v)"
proof -
  obtain e bad where e: "v = PDict e" "dangling ids e = Inr bad" and
    es: "es = (if dget e ''edge_type'' \<noteq> PStr ''Parent-Child'' then [NotParentChild (edge_label e)] else []) @
       (if py_in_str ''Transmission'' (py_str (dget e ''edge_type'')) \<or> py_in_str ''Risk'' (py_str (dget e ''edge_type''))
        then [CausalInHierarchy (edge_label e)] else []) @
       (if bad then [HierarchyUnknownNode (edge_label e)] else [])"
    using assms(1) by (auto simp: check_hierarchy_edge_def res_bind_eq_Inr res_map_eq_Inr as_mapping_Inr)
  have "bad \<longleftrightarrow> \<not> edge_closed ns e" by (rule dangling_closed [OF e(2) assms(2)])
  then show ?thesis using risk_is_no_parent_child [of e] by (auto simp: es e(1))
qed

lemma causal_Nil:
  assumes "check_causal_edge ids v = Inr es"
    and "Inr ` set ids = (\<lambda>n. py_key (dget n ''node_id'')) ` set ns"
  shows "es = [] \<longleftrightarrow> dget (as_dict v) ''edge_type'' \<noteq> PStr ''Parent-Child'' \<and> edge_closed ns (as_dict v)"
proof -
  obtain e bad where e: "v = PDict e" "dangling ids e = Inr bad" and
    es: "es = (if dget e ''edge_type'' = PStr ''Parent-Child'' then [ParentChildInCausal (edge_label e)] else []) @
       (if bad then [CausalUnknownNode (edge_label e)] else [])"
    using assms(1) by (auto simp: check_causal_edge_def res_bind_eq_Inr res_map_eq_Inr as_mapping_Inr)
  have "bad \<longleftrightarrow> \<not> edge_closed ns e" by (rule dangling_closed [OF e(2) assms(2)])
  then show ?thesis by (auto simp: es e(1))
qed

lemma mapping_or_empty_dict: "mapping_or_empty d k = Inr m \<Longrightarrow> m = as_dict (dget d k)"
  by (cases "dget d k") (auto simp: mapping_or_empty_def py_or_def split: if_splits)

lemma check_coverage_Nil:
  assumes "check_coverage (as_dict (dget payload ''coverage'')) (as_dict (dget payload ''scores'')) = Inr es"
  shows "es = [] \<longleftrightarrow> (low_coverage payload \<longrightarrow> current_mode payload = PStr mode_waiting)"
proof (cases "dget (as_dict (dget payload ''coverage'')) ''data_coverage'' = PNone")
  case True
  then show ?thesis using assms by (simp add: check_coverage_def low_coverage_def)
next
  case False
  then obtain low where low: "below_30 (dget (as_dict (dget payload ''coverage'')) ''data_coverage'') = Inr low"
    and es: "(if \<not> low then Inr [] else res_map (\<lambda>final.
          if dget final ''current_mode'' \<noteq> PStr mode_waiting then [LowCoverageMode] else [])
          (mapping_or_empty (as_dict (dget payload ''scores'')) ''stock_final_score'')) = Inr es"
    using assms by (auto simp: check_coverage_def res_bind_eq_Inr Let_def)
  show ?thesis
  proof (cases low)
    case True
    then obtain final where "mapping_or_empty (as_dict (dget payload ''scores'')) ''stock_final_score'' = Inr final"
      and "es = (if dget final ''current_mode'' \<noteq> PStr mode_waiting then [LowCoverageMode] else [])"
      using es by (auto simp: res_map_eq_Inr)
    then show ?thesis
      using mapping_or_empty_dict low True by (auto simp: low_coverage_def current_mode_def)
  next
    case False
    then show ?thesis using es low by (simp add: low_coverage_def)
  qed
qed

lemma check_views_Nil:
  assumes "check_views payload = Inr es"
  shows "es = [] \<longleftrightarrow> (\<forall>v \<in> set expected_views. Inr (KStr v) \<in> set (view_names payload))"
proof -
  have or_empty: "py_iter (py_or v (PDict [])) = py_iter (py_or v (PList []))" for v
    by (simp add: py_or_def)
  obtain vs ks where vs: "elements payload ''views'' = Inr vs" "res_list py_key vs = Inr ks"
    and es: "es = map MissingView (sort (filter (\<lambda>v. KStr v \<notin> set ks) expected_views))"
    using assms by (auto simp: check_views_def elements_def or_empty res_bind_eq_Inr res_map_eq_Inr)
  have "map py_key vs = map Inr ks"
    using vs(2) by (induction vs arbitrary: ks) (auto simp: res_bind_eq_Inr)
  then have "view_names payload = map Inr ks" by (simp add: view_names_def vs(1))
  moreover have "es = [] \<longleftrightarrow> filter (\<lambda>v. KStr v \<notin> set ks) expected_views = []"
    unfolding es map_is_Nil_conv by (simp only: length_0_conv [symmetric] length_sort)
  ultimately show ?thesis by (auto simp: filter_empty_conv)
qed

lemma check_layers_Nil: "check_layers scores = [] \<longleftrightarrow> (\<forall>l \<in> set score_layers. dhas scores l)"
  by (auto simp: check_layers_def filter_empty_conv)

lemma members_eq: "elements payload k = Inr vs \<Longrightarrow> members payload k = map as_dict vs"
  by (simp add: members_def)

lemma validate_parts:
  assumes "validate_stock_overlay registry payload = Inr (es, ws)"
  obtains ns ids reports hs he cs ce ec ev where
    "elements payload ''nodes'' = Inr ns" "res_list node_id_key ns = Inr ids"
    "check_nodes registry ns = Inr reports"
    "elements payload ''hierarchy_edges'' = Inr hs" "res_list (check_hierarchy_edge ids) hs = Inr he"
    "elements payload ''causal_edges'' = Inr cs" "res_list (check_causal_edge ids) cs = Inr ce"
    "check_coverage (as_dict (dget payload ''coverage'')) (as_dict (dget payload ''scores'')) = Inr ec"
    "check_views payload = Inr ev"
    "es = top_errors payload @ concat (map fst reports) @ concat he @ concat ce @ ec @ ev @
      check_layers (as_dict (dget payload ''scores''))"
    "ws = concat (map (fst \<circ> snd) reports) @ governance_warnings (map (snd \<circ> snd) reports)"
proof -
  from assms obtain ns ids reports hs he cs ce cov sc ec ev where p:
    "elements payload ''nodes'' = Inr ns" "res_list node_id_key ns = Inr ids"
    "check_nodes registry ns = Inr reports"
    "elements payload ''hierarchy_edges'' = Inr hs" "res_list (check_hierarchy_edge ids) hs = Inr he"
    "elements payload ''causal_edges'' = Inr cs" "res_list (check_causal_edge ids) cs = Inr ce"
    "mapping_or_empty payload ''coverage'' = Inr cov" "mapping_or_empty payload ''scores'' = Inr sc"
    "check_coverage cov sc = Inr ec" "check_views payload = Inr ev"
    "es = top_errors payload @ concat (map fst reports) @ concat he @ concat ce @ ec @ ev @ check_layers sc"
    "ws = concat (map (fst \<circ> snd) reports) @ governance_warnings (map (snd \<circ> snd) reports)"
    unfolding validate_stock_overlay_def res_bind_eq_Inr by clarsimp
  show ?thesis
    by (rule that [of ns ids reports hs he cs ce ec ev])
       (use p mapping_or_empty_dict [OF p(8)] mapping_or_empty_dict [OF p(9)] in simp_all)
qed

lemma validate_errors_Nil:
  assumes "validate_stock_overlay registry payload = Inr (es, ws)"
  shows "es = [] \<longleftrightarrow> overlay_sound payload"
proof -
  obtain ns ids reports hs he cs ce ec ev where p:
    "elements payload ''nodes'' = Inr ns" "res_list node_id_key ns = Inr ids"
    "check_nodes registry ns = Inr reports"
    "elements payload ''hierarchy_edges'' = Inr hs" "res_list (check_hierarchy_edge ids) hs = Inr he"
    "elements payload ''causal_edges'' = Inr cs" "res_list (check_causal_edge ids) cs = Inr ce"
    "check_coverage (as_dict (dget payload ''coverage'')) (as_dict (dget payload ''scores'')) = Inr ec"
    "check_views payload = Inr ev"
    and es: "es = top_errors payload @ concat (map fst reports) @ concat he @ concat ce @ ec @ ev @
      check_layers (as_dict (dget payload ''scores''))"
    using validate_parts [OF assms] by metis
  note ids = node_ids_keys [OF p(2)]
  have h: "concat he = [] \<longleftrightarrow> list_all (\<lambda>e. dget e ''edge_type'' = PStr ''Parent-Child'' \<and>
      edge_closed (map as_dict ns) e) (map as_dict hs)"
    unfolding list.pred_map by (rule concat_checks_Nil [OF p(5)]) (simp only: comp_def hierarchy_Nil [OF _ ids])
  have c: "concat ce = [] \<longleftrightarrow> list_all (\<lambda>e. dget e ''edge_type'' \<noteq> PStr ''Parent-Child'' \<and>
      edge_closed (map as_dict ns) e) (map as_dict cs)"
    unfolding list.pred_map by (rule concat_checks_Nil [OF p(7)]) (simp only: comp_def causal_Nil [OF _ ids])
  have t: "top_errors payload = [] \<longleftrightarrow> set required_top \<subseteq> set (map fst payload) \<and>
      dget payload ''template_version'' = PStr stock_template_version"
    unfolding top_errors_def append_is_Nil_conv map_is_Nil_conv missing_names_Nil by simp
  show ?thesis
    unfolding es append_is_Nil_conv t check_nodes_Nil [OF p(3)] h c check_coverage_Nil [OF p(8)]
      check_views_Nil [OF p(9)] check_layers_Nil overlay_sound_def Let_def
      members_eq [OF p(1)] members_eq [OF p(4)] members_eq [OF p(6)]
    by blast
qed

section \<open>What the validation may raise\<close>

named_theorems may_raise \<open>the exceptions of an operation\<close>

definition raises_only :: "py_error set \<Rightarrow> 'a res \<Rightarrow> bool" where
  "raises_only E r \<longleftrightarrow> (case r of Inl e \<Rightarrow> e \<in> E | Inr x \<Rightarrow> True)"

abbreviation python_errors :: "py_error set" where
  "python_errors \<equiv> {TypeError, ValueError, AttributeError}"

lemma raises_Inr [may_raise]: "raises_only E (Inr x)"
  by (simp add: raises_only_def)

lemma raises_bind [may_raise]:
  "raises_only E r \<Longrightarrow> (\<And>x. raises_only E (f x)) \<Longrightarrow> raises_only E (res_bind r f)"
  by (cases r) (simp_all add: raises_only_def)

lemma raises_map [may_raise]: "raises_only E r \<Longrightarrow> raises_only E (res_map f r)"
  by (cases r) (simp_all add: raises_only_def)

lemma raises_list [may_raise]: "(\<And>x. raises_only E (f x)) \<Longrightarrow> raises_only E (res_list f xs)"
  by (induction xs) (auto intro!: may_raise)

lemma raises_if [may_raise]: "raises_only E a \<Longrightarrow> raises_only E b \<Longrightarrow> raises_only E (if c then a else b)"
  by simp

lemma raises_values [may_raise]:
  "raises_only python_errors (as_mapping v)" "raises_only python_errors (py_iter v)"
  "raises_only python_errors (py_key v)" "raises_only python_errors (below_30 v)"
  by (cases v; simp add: raises_only_def)+

lemma raises_float [may_raise]: "raises_only python_errors (py_float v)"
  by (cases v) (simp_all add: raises_only_def split: option.splits)

lemma raises_checks [may_raise]:
  "raises_only python_errors (check_name label n names field)"
  "raises_only python_errors (inactive_warnings label n)"
  "raises_only python_errors (dangling ids e)"
  "raises_only python_errors (elements payload k)"
  "raises_only python_errors (mapping_or_empty payload k)"
  unfolding check_name_def in_names_def inactive_warnings_def dangling_def elements_def mapping_or_empty_def
  by (intro may_raise)+

lemma raises_parts [may_raise]:
  "raises_only python_errors (check_optional_name label n names field)"
  "raises_only python_errors (node_id_key v)"
  "raises_only python_errors (check_hierarchy_edge ids v)"
  "raises_only python_errors (check_causal_edge ids v)"
  "raises_only python_errors (check_views payload)"
  unfolding check_optional_name_def node_id_key_def check_hierarchy_edge_def check_causal_edge_def check_views_def
  by (intro may_raise)+

lemma raises_check_node [may_raise]: "raises_only python_errors (check_node registry n)"
  unfolding check_node_def Let_def by (intro may_raise) (auto intro!: may_raise)

lemma raises_check_nodes [may_raise]: "raises_only python_errors (check_nodes registry ns)"
  unfolding check_nodes_def by (intro may_raise)

lemma raises_check_coverage [may_raise]: "raises_only python_errors (check_coverage c s)"
  unfolding check_coverage_def Let_def by (intro may_raise)

lemma validate_raises_only: "raises_only python_errors (validate_stock_overlay registry payload)"
  unfolding validate_stock_overlay_def by (intro may_raise)

end
