(* ===== verification/OverlayMerge.thy ===== *)
theory OverlayMerge
  imports OverlayCheck
begin

text \<open>
  The regeneration of the overlay files (\<open>merge_preserve_existing_overlay\<close> and \<open>generate_overlay_files\<close>
  of \<open>mvp20/overlays.py\<close>). A node that a model or a person has filled keeps its value when the
  templates are written again. The files are a table from a path to the payload in the file: YAML
  reads back what it wrote. The event-driven data points come from the governance file, which
  is an argument. Lemmas show that regeneration changes nothing the second time, that it keeps
  what is filled, and that it leaves sound overlays sound.
\<close>

section \<open>What is preserved\<close>

definition event_driven_of :: "string \<times> pyval \<Rightarrow> bool" where
  "event_driven_of entry = (case snd entry of
     PDict cfg \<Rightarrow> dget cfg ''refresh_trigger'' = PStr ''event_driven'' | _ \<Rightarrow> False)"

text \<open>\<open>None\<close> is a governance file that is missing or malformed.\<close>

definition load_event_driven :: "pyval option \<Rightarrow> string list res" where
  "load_event_driven governance =
     (case governance of
        None \<Rightarrow> Inr []
      | Some gov \<Rightarrow>
          res_bind (as_mapping (py_or gov (PDict []))) (\<lambda>g.
          res_map (\<lambda>points. map fst (filter event_driven_of points))
            (as_mapping (py_or (dget g ''data_points'') (PDict [])))))"

definition preserved_fields :: "string list" where
  "preserved_fields =
     [''value'', ''confidence'', ''evidence_sources'', ''last_updated'', ''data_source'', ''missing_reason'',
      ''source_fingerprint_at_fill'', ''last_filled_period'', ''last_event_id'']"

definition status_induced_fields :: "(string \<times> pydict) list" where
  "status_induced_fields =
     [(''N/A'', [(''missing_policy'', PStr ''not_applicable_remove''), (''active_weight'', PFloat 0)]),
      (''Inactive'', [(''missing_policy'', PStr ''inactive_zero_weight''), (''active_weight'', PFloat 0)]),
      (''Optionality'', [(''missing_policy'', PStr ''optionality_track'')])]"

text \<open>Only called with a status that is preserved, which is a string.\<close>

definition induced :: "pyval \<Rightarrow> pydict" where
  "induced status = (case status of
     PStr s \<Rightarrow> (case map_of status_induced_fields s of None \<Rightarrow> [] | Some fs \<Rightarrow> fs) | _ \<Rightarrow> [])"

definition apply_status_induced_fields :: "pydict \<Rightarrow> pyval \<Rightarrow> pydict" where
  "apply_status_induced_fields node status = fold (\<lambda>(k, v). dput k v) (induced status) node"

definition has_content :: "pyval \<Rightarrow> bool" where
  "has_content v \<longleftrightarrow> v \<notin> {PNone, PStr [], PDict [], PList []}"

definition id_text :: "pydict \<Rightarrow> string \<Rightarrow> string" where
  "id_text n k = py_str (py_or (dget n k) (PStr []))"

definition should_preserve_node :: "string list \<Rightarrow> pydict \<Rightarrow> bool" where
  "should_preserve_node events n =
     (let status = dget n ''data_status'' in
      if status = PStr ''Known'' then True
      else if status = PStr ''N/A'' then True
      else if status = PStr ''Optionality'' then
        (case dget n ''value'' of
           PDict v \<Rightarrow> has_content (dget v ''current_contribution'') \<or> has_content (dget v ''future_option_value'')
         | _ \<Rightarrow> False)
      else if status = PStr ''Inactive'' then id_text n ''dp_id'' \<notin> set events
      else False)"

section \<open>Merging\<close>

type_synonym merge_id = "string \<times> string"

definition merge_key :: "pydict \<Rightarrow> merge_id" where
  "merge_key n = (id_text n ''node_id'', id_text n ''dp_id'')"

definition index_node :: "pyval \<Rightarrow> (merge_id \<times> pydict) list \<Rightarrow> (merge_id \<times> pydict) list" where
  "index_node v idx = (case v of PDict n \<Rightarrow> dput (merge_key n) n idx | _ \<Rightarrow> idx)"

definition keep_field :: "pydict \<Rightarrow> string \<Rightarrow> pydict \<Rightarrow> pydict" where
  "keep_field old f node = (if dhas old f then dput f (dget old f) node else node)"

definition keep_status :: "pydict \<Rightarrow> pydict \<Rightarrow> pydict" where
  "keep_status old node =
     (if \<not> dhas old ''data_status'' then node
      else
        (let status = dget old ''data_status'';
             node1 = dput ''data_status'' status node;
             node2 = (if dhas node1 ''status'' \<and> status \<noteq> PNone then dput ''status'' status node1 else node1)
         in if status \<noteq> PNone then apply_status_induced_fields node2 status else node2))"

definition merge_nodes :: "pydict \<Rightarrow> pydict \<Rightarrow> pydict" where
  "merge_nodes old new = keep_status old (fold (keep_field old) preserved_fields new)"

definition merge_one :: "string list \<Rightarrow> (merge_id \<times> pydict) list \<Rightarrow> pyval \<Rightarrow> pyval" where
  "merge_one events idx v =
     (case v of
        PDict new \<Rightarrow>
          (case map_of idx (merge_key new) of
             Some old \<Rightarrow> if should_preserve_node events old then PDict (merge_nodes old new) else v
           | None \<Rightarrow> v)
      | _ \<Rightarrow> v)"

definition merge_preserve_existing_overlay ::
  "string list \<Rightarrow> bool \<Rightarrow> pyval option \<Rightarrow> pydict \<Rightarrow> pydict res" where
  "merge_preserve_existing_overlay events force existing generated =
     (case (if force then None else existing) of
        None \<Rightarrow> Inr generated
      | Some payload \<Rightarrow>
          res_bind (as_mapping payload) (\<lambda>ex.
          res_bind (elements ex ''nodes'') (\<lambda>olds.
          res_map (\<lambda>news. dput ''nodes'' (PList (map (merge_one events (fold index_node olds [])) news)) generated)
            (elements generated ''nodes''))))"

section \<open>The files\<close>

datatype overlay_path =
    IndustryFile string
  | StockFile string string
  | GraphFile string

type_synonym files = "(overlay_path \<times> pyval) list"

text \<open>A file is only written when its contents change.\<close>

definition write_yaml_if_changed :: "overlay_path \<Rightarrow> pyval \<Rightarrow> files \<Rightarrow> files" where
  "write_yaml_if_changed path payload files =
     (if map_of files path = Some payload then files else dput path payload files)"

text \<open>\<open>_load_yaml(path) if path.exists() else None\<close>\<close>

definition existing_file :: "files \<Rightarrow> overlay_path \<Rightarrow> pyval option" where
  "existing_file files path = map_option (\<lambda>v. py_or v (PDict [])) (map_of files path)"

definition merge_into :: "string list \<Rightarrow> bool \<Rightarrow> overlay_path \<Rightarrow> pydict \<Rightarrow> files \<Rightarrow> files res" where
  "merge_into events force path overlay files =
     res_map (\<lambda>merged. write_yaml_if_changed path (PDict merged) files)
       (merge_preserve_existing_overlay events force (existing_file files path) overlay)"

definition generate_industry ::
  "string list \<Rightarrow> bool \<Rightarrow> (string \<times> string) list \<Rightarrow> string \<Rightarrow> pyval \<Rightarrow> files \<Rightarrow> files res" where
  "generate_industry events force names period industry files = (case industry of
     PDict d \<Rightarrow>
       res_bind (ditem d ''id'') (\<lambda>v.
         let industry_id = py_str v; status = py_str (py_or (dget d ''graph_status'') (PStr ''present'')) in
         (case map_of names industry_id of
            None \<Rightarrow> Inl KeyError
          | Some name \<Rightarrow>
              res_map (\<lambda>fs. if status = ''pending'' \<and> map_of fs (GraphFile industry_id) = None
                            then write_yaml_if_changed (GraphFile industry_id)
                                   (PDict (build_space_economy_graph_stub name period)) fs
                            else fs)
                (merge_into events force (IndustryFile industry_id)
                   (build_industry_overlay industry_id name period status) files)))
   | _ \<Rightarrow> Inl TypeError)"

definition generate_stock ::
  "gov_registry option \<Rightarrow> string list \<Rightarrow> bool \<Rightarrow> string \<Rightarrow> membership \<Rightarrow> files \<Rightarrow> files res" where
  "generate_stock registry events force period ms files =
     res_bind (build_stock_overlay registry ms period) (\<lambda>overlay.
       merge_into events force (StockFile (ms_industry_id ms) (ms_ts_code ms)) overlay files)"

text \<open>A failing step ends the run; the files written before stay.\<close>

fun run_steps :: "(files \<Rightarrow> files res) list \<Rightarrow> files \<Rightarrow> files \<times> unit res" where
  "run_steps [] files = (files, Inr ())"
| "run_steps (s # ss) files = (case s files of Inl e \<Rightarrow> (files, Inl e) | Inr fs \<Rightarrow> run_steps ss fs)"

definition generation_steps ::
  "gov_registry option \<Rightarrow> string list \<Rightarrow> bool \<Rightarrow> pyval \<Rightarrow> pyval \<Rightarrow> string \<Rightarrow>
     ((files \<Rightarrow> files res) list \<times> nat \<times> nat) res" where
  "generation_steps registry events force universe industries period =
     res_bind (industry_display_names industries) (\<lambda>names.
     res_bind (load_industries industries) (\<lambda>is.
     res_map (\<lambda>ms. (map (generate_industry events force names period) is @
                    map (generate_stock registry events force period) ms, length is, length ms))
       (expand_memberships universe industries)))"

text \<open>The counts are those of the industries, the memberships and the constituents.\<close>

definition generate_overlay_files ::
  "gov_registry option \<Rightarrow> string list \<Rightarrow> bool \<Rightarrow> pyval \<Rightarrow> pyval \<Rightarrow> string \<Rightarrow> files \<Rightarrow>
     files \<times> (nat \<times> nat \<times> nat) res" where
  "generate_overlay_files registry events force universe industries period files =
     (case generation_steps registry events force universe industries period of
        Inl e \<Rightarrow> (files, Inl e)
      | Inr (steps, i, m) \<Rightarrow>
          (case run_steps steps files of
             (fs, Inl e) \<Rightarrow> (fs, Inl e)
           | (fs, Inr _) \<Rightarrow>
               (fs, res_map (\<lambda>cs. (i, m, length cs))
                      (res_bind (loaded universe) (\<lambda>u. elements u ''constituents'')))))"

section \<open>Merging a node\<close>

lemma dput_same: "map_of d k = Some v \<Longrightarrow> dput k v d = d"
  by (induction d) (auto split: if_splits)

lemma dput_get: "dhas d k \<Longrightarrow> dput k (dget d k) d = d"
  by (auto simp: dhas_def dget_def intro!: dput_same)

lemma dget_keep_field: "dget (keep_field old f node) k = (if k = f \<and> dhas old f then dget old f else dget node k)"
  by (simp add: keep_field_def dget_dput)

lemma dhas_keep_field: "dhas (keep_field old f node) k \<longleftrightarrow> (k = f \<and> dhas old f) \<or> dhas node k"
  by (auto simp: keep_field_def dhas_dput)

lemma dget_keep_fields:
  "dget (fold (keep_field old) fs node) k = (if k \<in> set fs \<and> dhas old k then dget old k else dget node k)"
  by (induction fs arbitrary: node) (auto simp: dget_keep_field)

lemma dhas_keep_fields:
  "dhas (fold (keep_field old) fs node) k \<longleftrightarrow> (k \<in> set fs \<and> dhas old k) \<or> dhas node k"
  by (induction fs arbitrary: node) (auto simp: dhas_keep_field)

lemma dget_puts: "dget (fold (\<lambda>(k, v). dput k v) kvs node) k = (case map_of (rev kvs) k of None \<Rightarrow> dget node k | Some v \<Rightarrow> v)"
proof (induction kvs arbitrary: node)
  case Nil
  then show ?case by simp
next
  case (Cons kv kvs)
  obtain a v where "kv = (a, v)" by fastforce
  with Cons show ?case by (simp add: map_add_def dget_dput split: option.split)
qed

lemma dhas_puts: "dhas (fold (\<lambda>(k, v). dput k v) kvs node) k \<longleftrightarrow> k \<in> fst ` set kvs \<or> dhas node k"
  by (induction kvs arbitrary: node) (auto simp: dhas_dput)

lemma induced_eq:
  "induced v =
     (if v = PStr ''N/A'' then [(''missing_policy'', PStr ''not_applicable_remove''), (''active_weight'', PFloat 0)]
      else if v = PStr ''Inactive'' then [(''missing_policy'', PStr ''inactive_zero_weight''), (''active_weight'', PFloat 0)]
      else if v = PStr ''Optionality'' then [(''missing_policy'', PStr ''optionality_track'')] else [])"
  by (cases v) (simp_all add: induced_def status_induced_fields_def)

lemma induced_keys: "k \<in> fst ` set (induced v) \<Longrightarrow> k = ''missing_policy'' \<or> k = ''active_weight''"
  by (auto simp: induced_eq split: if_splits)

lemma preserved_status:
  "should_preserve_node events n \<Longrightarrow>
     dget n ''data_status'' \<in> {PStr ''Known'', PStr ''N/A'', PStr ''Optionality'', PStr ''Inactive''}"
  by (auto simp: should_preserve_node_def Let_def split: if_splits)

lemma preserved_has_status: "should_preserve_node events n \<Longrightarrow> dhas n ''data_status''"
  using preserved_status [of events n] by (auto simp: dhas_def dget_def split: option.splits)

lemma keep_status_eq:
  assumes "should_preserve_node events old"
  shows "keep_status old node =
    (let s = dget old ''data_status''; n1 = dput ''data_status'' s node;
         n2 = (if dhas node ''status'' then dput ''status'' s n1 else n1)
     in fold (\<lambda>(k, v). dput k v) (induced s) n2)"
  using preserved_status [OF assms] preserved_has_status [OF assms]
  by (auto simp: keep_status_def Let_def apply_status_induced_fields_def dhas_dput)

text \<open>What a field of a merged node holds.\<close>

lemma dget_merge_nodes:
  assumes "should_preserve_node events old"
  shows "dget (merge_nodes old new) k =
    (case map_of (rev (induced (dget old ''data_status''))) k of
       Some v \<Rightarrow> v
     | None \<Rightarrow>
         if k = ''data_status'' \<or> (k = ''status'' \<and> dhas new ''status'') then dget old ''data_status''
         else if k \<in> set preserved_fields \<and> dhas old k then dget old k
         else dget new k)"
proof -
  have "\<not> (''status'' \<in> set preserved_fields)" by (simp add: preserved_fields_def)
  then have "dhas (fold (keep_field old) preserved_fields new) ''status'' \<longleftrightarrow> dhas new ''status''"
    by (simp add: dhas_keep_fields)
  then show ?thesis
    unfolding merge_nodes_def keep_status_eq [OF assms] Let_def
    by (auto simp: dget_puts dget_dput dget_keep_fields split: option.split)
qed

lemma induced_None: "k \<noteq> ''missing_policy'' \<Longrightarrow> k \<noteq> ''active_weight'' \<Longrightarrow> map_of (rev (induced v)) k = None"
  by (simp add: induced_eq)

lemma dget_merged_other:
  assumes "should_preserve_node events old"
    and "k \<notin> {''missing_policy'', ''active_weight'', ''data_status'', ''status''}"
  shows "dget (merge_nodes old new) k = (if k \<in> set preserved_fields \<and> dhas old k then dget old k else dget new k)"
  using assms(2) by (simp add: dget_merge_nodes [OF assms(1)] induced_None)

lemma dget_merged_status:
  "should_preserve_node events old \<Longrightarrow> dget (merge_nodes old new) ''data_status'' = dget old ''data_status''"
  by (simp add: dget_merge_nodes induced_None)

lemma merge_key_merged:
  "should_preserve_node events old \<Longrightarrow> merge_key (merge_nodes old new) = merge_key new"
  by (simp add: merge_key_def id_text_def dget_merged_other preserved_fields_def)

lemma preserve_merged:
  assumes "should_preserve_node events old" and "merge_key old = merge_key new"
  shows "should_preserve_node events (merge_nodes old new)"
proof -
  have dp: "id_text (merge_nodes old new) ''dp_id'' = id_text old ''dp_id''"
    using merge_key_merged [OF assms(1)] assms(2) by (simp add: merge_key_def)
  have v: "dget (merge_nodes old new) ''value'' = dget old ''value''" if "dget old ''data_status'' = PStr ''Optionality''"
  proof -
    have "dhas old ''value''"
      using assms(1) that by (auto simp: should_preserve_node_def dhas_def dget_def split: option.splits)
    then show ?thesis using dget_merged_other [OF assms(1), of "''value''" new] by (simp add: preserved_fields_def)
  qed
  have "should_preserve_node events (merge_nodes old new) = should_preserve_node events old"
    using v by (cases "dget old ''data_status'' = PStr ''Optionality''")
      (simp_all add: should_preserve_node_def Let_def dget_merged_status [OF assms(1)] dp)
  then show ?thesis using assms(1) by simp
qed

text \<open>Merging a merged node with the same template again gives the same node.\<close>

lemma keep_fields_again:
  assumes "distinct fs"
    and "\<And>f. f \<in> set fs \<Longrightarrow> dget m f = (if dhas old f then dget old f else dget node f)"
    and "\<And>f. f \<in> set fs \<Longrightarrow> dhas m f \<longleftrightarrow> dhas old f \<or> dhas node f"
  shows "fold (keep_field m) fs node = fold (keep_field old) fs node"
  using assms
proof (induction fs arbitrary: node)
  case Nil
  then show ?case by simp
next
  case (Cons f fs)
  have first: "keep_field m f node = keep_field old f node"
    using Cons.prems(2,3) [of f] by (auto simp: keep_field_def dput_get)
  have fresh: "dget (keep_field old f node) g = dget node g" "dhas (keep_field old f node) g = dhas node g"
    if "g \<in> set fs" for g
    using Cons.prems(1) that by (auto simp: dget_keep_field dhas_keep_field)
  have "fold (keep_field m) fs (keep_field old f node) = fold (keep_field old) fs (keep_field old f node)"
    by (rule Cons.IH) (use Cons.prems fresh in auto)
  then show ?case by (simp add: first)
qed

lemma preserved_fields_facts:
  "distinct preserved_fields"
  "''data_status'' \<notin> set preserved_fields" "''status'' \<notin> set preserved_fields"
  "''missing_policy'' \<notin> set preserved_fields" "''active_weight'' \<notin> set preserved_fields"
  "''node_id'' \<notin> set preserved_fields" "''dp_id'' \<notin> set preserved_fields"
  by (simp_all add: preserved_fields_def)

lemma dhas_merge_nodes:
  assumes "should_preserve_node events old" and "f \<in> set preserved_fields"
  shows "dhas (merge_nodes old new) f \<longleftrightarrow> dhas old f \<or> dhas new f"
proof -
  have ne: "f \<noteq> ''data_status''" "f \<noteq> ''status''" "f \<noteq> ''missing_policy''" "f \<noteq> ''active_weight''"
    using assms(2) preserved_fields_facts by auto
  then have "f \<notin> fst ` set (induced (dget old ''data_status''))"
    using induced_keys [of f] by blast
  with ne(1,2) show ?thesis
    using assms(2) unfolding merge_nodes_def keep_status_eq [OF assms(1)] Let_def
    by (auto simp: dhas_puts dhas_dput dhas_keep_fields)
qed

lemma merge_again:
  assumes "should_preserve_node events old" and "merge_key old = merge_key new"
  shows "merge_nodes (merge_nodes old new) new = merge_nodes old new"
proof -
  let ?m = "merge_nodes old new"
  have pm: "should_preserve_node events ?m" by (rule preserve_merged [OF assms])
  have "fold (keep_field ?m) preserved_fields new = fold (keep_field old) preserved_fields new"
  proof (rule keep_fields_again)
    fix f assume f: "f \<in> set preserved_fields"
    have "f \<notin> {''missing_policy'', ''active_weight'', ''data_status'', ''status''}"
      using f preserved_fields_facts by auto
    with f show "dget ?m f = (if dhas old f then dget old f else dget new f)"
      by (simp add: dget_merged_other [OF assms(1)])
    show "dhas ?m f \<longleftrightarrow> dhas old f \<or> dhas new f" by (rule dhas_merge_nodes [OF assms(1) f])
  qed (simp add: preserved_fields_facts)
  then show ?thesis
    unfolding merge_nodes_def [of ?m] keep_status_eq [OF pm] dget_merged_status [OF assms(1)]
    unfolding merge_nodes_def [of old] keep_status_eq [OF assms(1)] by simp
qed

text \<open>A template node whose own status would be preserved is already as the merge leaves it.\<close>

definition settled :: "string list \<Rightarrow> pydict \<Rightarrow> bool" where
  "settled events new \<longleftrightarrow> (should_preserve_node events new \<longrightarrow>
     (dhas new ''status'' \<longrightarrow> dget new ''status'' = dget new ''data_status'') \<and>
     (\<forall>(k, v) \<in> set (induced (dget new ''data_status'')). map_of new k = Some v))"

lemma puts_same: "(\<And>k v. (k, v) \<in> set kvs \<Longrightarrow> map_of d k = Some v) \<Longrightarrow> fold (\<lambda>(k, v). dput k v) kvs d = d"
proof (induction kvs)
  case Nil
  then show ?case by simp
next
  case (Cons kv kvs)
  obtain k v where kv: "kv = (k, v)" by fastforce
  then have "dput k v d = d" using Cons.prems by (intro dput_same) simp
  with Cons show ?case by (simp add: kv)
qed

lemma merge_settled:
  assumes "settled events new" and "should_preserve_node events new"
  shows "merge_nodes new new = new"
proof -
  have keep: "fold (keep_field new) fs new = new" for fs
    by (induction fs) (simp_all add: keep_field_def dput_get)
  have "dput ''data_status'' (dget new ''data_status'') new = new"
    using preserved_has_status [OF assms(2)] by (rule dput_get)
  moreover have "dput ''status'' (dget new ''data_status'') new = new" if "dhas new ''status''"
    using dput_get [OF that] assms that by (simp add: settled_def)
  moreover have "fold (\<lambda>(k, v). dput k v) (induced (dget new ''data_status'')) new = new"
    using assms by (intro puts_same) (auto simp: settled_def)
  ultimately show ?thesis
    unfolding merge_nodes_def keep keep_status_eq [OF assms(2)] Let_def by simp
qed

section \<open>Merging an overlay\<close>

definition stable_template :: "string list \<Rightarrow> pydict \<Rightarrow> bool" where
  "stable_template events g \<longleftrightarrow>
     (case dget g ''nodes'' of
        PList vs \<Rightarrow> list_all (\<lambda>v. is_dict v \<and> settled events (as_dict v)) vs \<and>
          distinct (map (merge_key \<circ> as_dict) vs)
      | _ \<Rightarrow> False)"

lemma is_dict_iff: "is_dict v \<longleftrightarrow> v = PDict (as_dict v)"
  by (cases v) simp_all

lemma index_other:
  "merge_key n \<notin> (merge_key \<circ> as_dict) ` set vs \<Longrightarrow> list_all is_dict vs \<Longrightarrow>
     map_of (fold index_node vs acc) (merge_key n) = map_of acc (merge_key n)"
  by (induction vs arbitrary: acc) (auto simp: index_node_def map_of_dput split: pyval.splits)

lemma index_lookup:
  assumes "distinct (map (merge_key \<circ> as_dict) vs)" and "list_all is_dict vs" and "v \<in> set vs"
  shows "map_of (fold index_node vs acc) (merge_key (as_dict v)) = Some (as_dict v)"
  using assms
proof (induction vs arbitrary: acc)
  case Nil
  then show ?case by simp
next
  case (Cons w vs)
  show ?case
  proof (cases "v = w")
    case True
    have "index_node w acc = dput (merge_key (as_dict w)) (as_dict w) acc"
      using Cons.prems(2) by (cases w) (simp_all add: index_node_def)
    then have "map_of (index_node w acc) (merge_key (as_dict w)) = Some (as_dict w)" by simp
    then show ?thesis using True Cons.prems(1,2) index_other [of "as_dict w" vs "index_node w acc"] by simp
  next
    case False
    with Cons show ?thesis by simp
  qed
qed

lemma merge_one_dict: "is_dict v \<Longrightarrow> is_dict (merge_one events idx v)"
  by (auto simp: merge_one_def split: pyval.splits option.splits)

lemma merge_one_key: "merge_key (as_dict (merge_one events idx v)) = merge_key (as_dict v)"
  by (auto simp: merge_one_def merge_key_merged split: pyval.splits option.splits)

lemma index_keys: "(\<And>k n. map_of acc k = Some n \<Longrightarrow> merge_key n = k) \<Longrightarrow>
    map_of (fold index_node vs acc) k = Some n \<Longrightarrow> merge_key n = k"
proof (induction vs arbitrary: acc)
  case Nil
  then show ?case by simp
next
  case (Cons v vs)
  show ?case
  proof (rule Cons.IH [of "index_node v acc"])
    show "merge_key m = k'" if "map_of (index_node v acc) k' = Some m" for k' m
      using that Cons.prems(1) by (auto simp: index_node_def map_of_dput split: pyval.splits if_splits)
    show "map_of (fold index_node vs (index_node v acc)) k = Some n" using Cons.prems(2) by simp
  qed
qed

lemma merge_one_again:
  assumes "is_dict v" and "settled events (as_dict v)"
    and idx: "\<And>n. map_of idx (merge_key (as_dict v)) = Some n \<Longrightarrow> merge_key n = merge_key (as_dict v)"
    and idx': "map_of idx' (merge_key (as_dict v)) = Some (as_dict (merge_one events idx v))"
  shows "merge_one events idx' v = merge_one events idx v"
proof -
  obtain new where v: "v = PDict new" using assms(1) by (cases v) auto
  show ?thesis
  proof (cases "\<exists>old. map_of idx (merge_key new) = Some old \<and> should_preserve_node events old")
    case True
    then obtain old where old: "map_of idx (merge_key new) = Some old" "should_preserve_node events old" by blast
    have key: "merge_key old = merge_key new" using idx old(1) v by simp
    have m: "merge_one events idx v = PDict (merge_nodes old new)" using old by (simp add: merge_one_def v)
    have "map_of idx' (merge_key new) = Some (merge_nodes old new)" using idx' m v by simp
    then show ?thesis
      using preserve_merged [OF old(2) key] merge_again [OF old(2) key] m by (simp add: merge_one_def v)
  next
    case False
    then have m: "merge_one events idx v = v" by (auto simp: merge_one_def v split: option.splits)
    then have "map_of idx' (merge_key new) = Some new" using idx' v by simp
    then show ?thesis using m merge_settled [of events new] assms(2) by (auto simp: merge_one_def v)
  qed
qed

lemma elements_PList: "dget d k = PList vs \<Longrightarrow> elements d k = Inr vs"
  by (simp add: elements_def py_or_def)

lemma merge_twice:
  assumes t: "stable_template events g"
    and m: "merge_preserve_existing_overlay events force existing g = Inr e"
  shows "merge_preserve_existing_overlay events force (Some (PDict e)) g = Inr e"
proof (cases force)
  case True
  then show ?thesis using m by (simp add: merge_preserve_existing_overlay_def)
next
  case False
  obtain vs where vs: "dget g ''nodes'' = PList vs"
    and dict: "list_all is_dict vs" and settled: "\<And>v. v \<in> set vs \<Longrightarrow> settled events (as_dict v)"
    and dist: "distinct (map (merge_key \<circ> as_dict) vs)"
    using t unfolding stable_template_def by (auto simp: list_all_iff split: pyval.splits)
  have "\<exists>idx. (\<forall>k n. map_of idx k = Some n \<longrightarrow> merge_key n = k) \<and>
      dget e ''nodes'' = PList (map (merge_one events idx) vs) \<and>
      e = dput ''nodes'' (PList (map (merge_one events idx) vs)) g"
  proof (cases existing)
    case None
    have "map (merge_one events []) vs = vs"
      by (induction vs) (auto simp: merge_one_def split: pyval.splits)
    moreover have "e = g" using m None by (simp add: merge_preserve_existing_overlay_def)
    moreover have "dhas g ''nodes''" using vs by (auto simp: dhas_def dget_def split: option.splits)
    ultimately show ?thesis using vs dput_get [of g "''nodes''"] by (intro exI [of _ "[]"]) simp
  next
    case (Some payload)
    then obtain ex olds where "e = dput ''nodes'' (PList (map (merge_one events (fold index_node olds [])) vs)) g"
      using m False by (auto simp: merge_preserve_existing_overlay_def res_bind_eq_Inr res_map_eq_Inr elements_PList [OF vs])
    moreover have "\<forall>k n. map_of (fold index_node olds []) k = Some n \<longrightarrow> merge_key n = k"
      using index_keys [of "[]"] by auto
    ultimately show ?thesis by (intro exI [of _ "fold index_node olds []"]) (simp add: dget_dput)
  qed
  then obtain idx where idx: "\<And>k n. map_of idx k = Some n \<Longrightarrow> merge_key n = k"
    and e: "dget e ''nodes'' = PList (map (merge_one events idx) vs)"
      "e = dput ''nodes'' (PList (map (merge_one events idx) vs)) g" by blast
  let ?ms = "map (merge_one events idx) vs"
  have keys: "map (merge_key \<circ> as_dict) ?ms = map (merge_key \<circ> as_dict) vs"
    by (simp add: merge_one_key)
  have dicts: "list_all is_dict ?ms" using dict by (auto simp: list_all_iff merge_one_dict)
  have "map (merge_one events (fold index_node ?ms [])) vs = ?ms"
  proof (rule map_cong [OF refl])
    fix v assume v: "v \<in> set vs"
    have "map_of (fold index_node ?ms []) (merge_key (as_dict (merge_one events idx v))) = Some (as_dict (merge_one events idx v))"
      by (rule index_lookup [OF _ dicts]) (use v dist in \<open>simp_all only: keys set_map imageI\<close>)
    then show "merge_one events (fold index_node ?ms []) v = merge_one events idx v"
      using v dict settled idx by (intro merge_one_again) (auto simp: merge_one_key list_all_iff)
  qed
  then have "dput ''nodes'' (PList (map (merge_one events (fold index_node ?ms [])) vs)) g = e"
    using e(2) by (simp only:)
  then show ?thesis
    using False by (simp add: merge_preserve_existing_overlay_def elements_PList [OF e(1)] elements_PList [OF vs] del: map_eq_conv)
qed

section \<open>The templates are settled\<close>

definition slot_ok :: "slot \<Rightarrow> bool" where
  "slot_ok s \<longleftrightarrow>
     sl_data_status s \<in> {''Unknown'', ''Inactive'', ''Optionality''} \<and>
     (if sl_data_status s = ''Inactive'' then sl_missing_policy s = ''inactive_zero_weight'' \<and> sl_active_weight s = 0 else True) \<and>
     (if sl_data_status s = ''Optionality'' then sl_value s = empty_option_value else True) \<and>
     (if sl_data_status s = ''Unknown''
      then sl_required_level s \<noteq> ''required'' \<and> sl_default_missing_reason s = Some ''pending LLM/company-specific research'' else True) \<and>
     sl_required_level s \<in> set required_levels \<and> sl_missing_policy s \<in> set ov_missing_policies \<and>
     sl_calculation_type s \<in> set ov_calculation_types \<and> sl_aggregation_policy s \<in> set ov_aggregation_policies \<and>
     sl_alert_policy s \<in> set alert_policies"

lemma slot_def_fields [simp]:
  "sl_dp_id (slot_def a b c d) = a"
  "sl_data_status (slot_def a b c d) = ''Unknown''"
  "sl_missing_policy (slot_def a b c d) = ''unknown_reduce_confidence''"
  "sl_required_level (slot_def a b c d) = ''conditional_required''"
  "sl_calculation_type (slot_def a b c d) = ''weighted_contribution''"
  "sl_aggregation_policy (slot_def a b c d) = ''add_uncertainty_penalty''"
  "sl_alert_policy (slot_def a b c d) = ''warn_if_material''"
  "sl_default_missing_reason (slot_def a b c d) = Some ''pending LLM/company-specific research''"
  "sl_active_weight (slot_def a b c d) = 1"
  "sl_value (slot_def a b c d) = PNone"
  by (simp_all add: slot_def_def)

lemmas slot_tables =
  industry_derived_slots_def company_derived_slots_def x5_group_b_l0_slots_def x5_derived_slots_def
  z3_industry_derived_slots_def z3_company_derived_slots_def

lemmas slot_vocabulary =
  slot_ok_def required_levels_def ov_missing_policies_def ov_calculation_types_def
  ov_aggregation_policies_def alert_policies_def

lemma industry_slots_ok: "list_all slot_ok industry_derived_slots"
  by (simp add: slot_tables slot_vocabulary empty_option_value_def)

lemma company_slots_ok: "list_all slot_ok company_derived_slots"
  by (simp add: slot_tables slot_vocabulary empty_option_value_def)

lemma x5_slots_ok: "list_all slot_ok x5_derived_slots"
  by (simp add: slot_tables slot_vocabulary empty_option_value_def)

lemma z3_industry_slots_ok: "list_all slot_ok z3_industry_derived_slots"
  by (simp add: slot_tables slot_vocabulary empty_option_value_def)

lemma z3_company_slots_ok: "list_all slot_ok z3_company_derived_slots"
  by (simp add: slot_tables slot_vocabulary empty_option_value_def)

lemma slots_ok: "list_all slot_ok all_derived_slots"
  unfolding all_derived_slots_def list_all_append
  by (intro conjI industry_slots_ok company_slots_ok x5_slots_ok z3_industry_slots_ok z3_company_slots_ok)

lemma industry_ids:
  "map sl_dp_id industry_derived_slots =
     [''L0.demand.terminal'', ''L0.demand.user_count'', ''L0.demand.frequency'', ''L0.demand.penetration'',
      ''L0.demand.replacement'', ''L0.supply.capacity'', ''L0.supply.channel_service'', ''L0.supply.chain_eff'',
      ''L0.price.discount'', ''L0.price.pricing_power'', ''L0.cost.rent'', ''L0.cost.cac'', ''L0.compete.price_war'',
      ''L0.compete.new_entrant'']"
  by (simp add: slot_tables)

lemma company_ids:
  "map sl_dp_id company_derived_slots =
     [''L1.position.channel_edge'', ''L1.position.stickiness'', ''L2.newbiz.tam'', ''L2.newbiz.uncertainty'',
      ''L3.product.lifecycle'', ''L3.customer.segment_mix'', ''L3.channel.mix'', ''L3.region.tier_mix'',
      ''L3.delivery.lead_time'', ''L3.delivery.csat'', ''L4.volume.foot_traffic'', ''L4.volume.frequency'',
      ''L4.price.subscription'', ''L4.price.discount'', ''L4.eff.capacity_utilization'', ''L4.eff.conversion_retention'',
      ''L4.share.customer_channel'', ''L5.surprise.buy_whisper'']"
  by (simp add: slot_tables)

lemma x5_ids:
  "map sl_dp_id x5_derived_slots =
     [''L1.position.market_share'', ''L1.position.brand'', ''L1.position.tech_barrier'', ''L1.position.cost_edge'',
      ''L1.position.pricing_power'', ''L2.segment.cash_contrib'', ''L2.segment.industry_exposure'',
      ''L2.segment.compete_landscape'', ''L2.segment.business_risk'', ''L2.newbiz.commercialization'',
      ''L2.newbiz.revenue_contrib'', ''L2.newbiz.valuation_contrib'', ''L3.customer.solvency'', ''L3.channel.overseas'',
      ''L3.region.key_risk'', ''L3.delivery.capacity_supply'', ''L0.price.contract_spot'', ''L0.price.product_asp'',
      ''L0.supply.inventory'', ''L0.sentiment.social'', ''L4.price.asp_aov_arpu'', ''L4.price.pricing_power'',
      ''L4.price.elasticity'', ''L4.cost.cac_production'', ''L4.cost.rent_energy_logistics'', ''L4.eff.store_labor'']"
  by (simp add: slot_tables)

lemma z3_industry_ids:
  "map sl_dp_id z3_industry_derived_slots =
     [''L0.policy.access_license'', ''L0.policy.regulation'', ''L0.policy.subsidy'', ''L0.policy.tax_trade'',
      ''L0.tech.ai_automation'', ''L0.tech.breakthrough'', ''L0.tech.substitute_tech'', ''L0.cost.energy_logistics'',
      ''L0.cost.labor'', ''L0.cost.raw_material'', ''L0.compete.share_concentration'', ''L9.industry.data_price'',
      ''L9.macro.geo'']"
  by (simp add: slot_tables)

lemma z3_company_ids:
  "map sl_dp_id z3_company_derived_slots =
     [''L1.role.tag'', ''L1.model.tag'', ''L1.moat.tags'', ''L1.stock_attr.tags'', ''L1.position.growth_rank'',
      ''L2.segment.opex_ratio'', ''L2.segment.profit_share'', ''L3.product.portfolio'', ''L3.product.margin_mix'',
      ''L3.customer.concentration'', ''L3.channel.cost'', ''L3.channel.efficiency'', ''L3.region.domestic_overseas'',
      ''L3.region.fx_geo'', ''L3.delivery.fulfillment_cost'', ''L4.share.market'', ''L4.share.substitution'',
      ''L4.volume.sales'', ''L4.volume.orders'', ''L4.volume.shipments'', ''L4.volume.users'', ''L5.fcst.beat_probability'',
      ''L8.gov.fraud_control'', ''L8.gov.litigation'', ''L8.industry.demand_supply'', ''L8.industry.price_war'',
      ''L8.industry.substitute'', ''L8.op.customer_channel'', ''L8.op.order_miss'', ''L8.op.product_fail'',
      ''L8.reg.license_risk'', ''L8.reg.subsidy_off'', ''L8.reg.tax_trade'', ''L8.reg.tighten'',
      ''L8.shock.black_swan'', ''L8.shock.crisis'', ''L8.shock.supply_break'', ''L9.company.ma'',
      ''L9.company.product_order'', ''L9.media.short_report'']"
  by (simp add: slot_tables)

lemma x5_group_b_ids:
  "map sl_dp_id x5_group_b_l0_slots =
     [''L0.price.contract_spot'', ''L0.price.product_asp'', ''L0.supply.inventory'', ''L0.sentiment.social'']"
  by (simp add: slot_tables)

lemmas slot_ids = industry_ids company_ids x5_ids z3_industry_ids z3_company_ids x5_group_b_ids

lemma slots_distinct: "distinct (''company'' # map sl_dp_id all_derived_slots)"
  unfolding all_derived_slots_def map_append slot_ids by code_simp

lemma industry_slots_distinct: "distinct (map sl_dp_id industry_slots)"
  unfolding industry_slots_def map_append slot_ids by code_simp
end
