(* ===== verification/Regenerate.thy ===== *)
theory Regenerate
  imports OverlayMerge
begin

text \<open>
  What a run of \<open>generate_overlay_files\<close> leaves on disk: a second run with the same inputs changes
  nothing (\<open>regeneration_is_idempotent\<close>), sound overlays stay sound and new ones are sound
  (\<open>regeneration_keeps_overlays_sound\<close>), and what was filled is still there
  (\<open>regeneration_keeps_what_is_filled\<close>).
\<close>

section \<open>The templates are stable\<close>

lemma slot_node_fields [simp]:
  "dget (slot_node ts s inh) ''node_id'' = PStr (node_key_of ts (sl_dp_id s))"
  "dget (slot_node ts s inh) ''dp_id'' = PStr (sl_dp_id s)"
  "dget (slot_node ts s inh) ''status'' = PStr (sl_data_status s)"
  "dget (slot_node ts s inh) ''data_status'' = PStr (sl_data_status s)"
  "dget (slot_node ts s inh) ''required_level'' = PStr (sl_required_level s)"
  "dget (slot_node ts s inh) ''missing_policy'' = PStr (sl_missing_policy s)"
  "dget (slot_node ts s inh) ''calculation_type'' = PStr (sl_calculation_type s)"
  "dget (slot_node ts s inh) ''aggregation_policy'' = PStr (sl_aggregation_policy s)"
  "dget (slot_node ts s inh) ''alert_policy'' = PStr (sl_alert_policy s)"
  "dget (slot_node ts s inh) ''active_weight'' = PFloat (sl_active_weight s)"
  "dget (slot_node ts s inh) ''missing_reason'' = opt_str (sl_default_missing_reason s)"
  "dget (slot_node ts s inh) ''materiality'' = PFloat (sl_materiality s)"
  "dget (slot_node ts s inh) ''value'' = sl_value s"
  "dget (slot_node ts s inh) ''field_role'' = PNone"
  "dget (slot_node ts s inh) ''score_target'' = PNone"
  by (simp_all add: slot_node_def)

lemma slot_ok_policies:
  assumes "slot_ok s"
  shows "sl_missing_policy s \<noteq> []" "sl_calculation_type s \<noteq> []" "sl_aggregation_policy s \<noteq> []" "sl_data_status s \<noteq> []"
proof -
  have "[] \<notin> set ov_missing_policies" "[] \<notin> set ov_calculation_types" "[] \<notin> set ov_aggregation_policies"
    by code_simp+
  moreover have "sl_missing_policy s \<in> set ov_missing_policies" "sl_calculation_type s \<in> set ov_calculation_types"
    "sl_aggregation_policy s \<in> set ov_aggregation_policies" "sl_data_status s \<in> {''Unknown'', ''Inactive'', ''Optionality''}"
    using assms by (simp_all add: slot_ok_def)
  ultimately show "sl_missing_policy s \<noteq> []" "sl_calculation_type s \<noteq> []" "sl_aggregation_policy s \<noteq> []" "sl_data_status s \<noteq> []"
    by auto
qed

text \<open>The registry leaves every field of a slot alone and adds its own.\<close>

definition governance_fields :: "string list" where
  "governance_fields =
     [''field_role'', ''score_target'', ''derived_target'', ''participates_in_score'', ''governance_calculation_type'',
      ''governance_aggregation_policy'', ''governance_missing_policy'', ''fallback_policy'', ''proxy_candidates'',
      ''min_required_coverage'', ''neutral_value'', ''confidence_penalty'', ''governance_source_status'']"

lemma overlay_field_absent: "k \<notin> set governance_fields \<Longrightarrow> dget (as_overlay_fields r) k = PNone"
  by (simp add: as_overlay_fields_def governance_fields_def)

lemma dget_node_from_slot:
  assumes "slot_ok s" and "k \<notin> set governance_fields"
  shows "dget (node_from_slot registry ts s inh) k = dget (slot_node ts s inh) k"
proof (cases registry)
  case None
  then show ?thesis by (simp add: node_from_slot_def)
next
  case (Some reg)
  show ?thesis
  proof (cases "reg_get reg (dget (slot_node ts s inh) ''dp_id'')")
    case None
    then show ?thesis by (simp add: node_from_slot_def Some apply_to_node_def)
  next
    case (Some r)
    have t: "k = ''calculation_type'' \<or> k = ''aggregation_policy'' \<or> k = ''missing_policy'' \<Longrightarrow>
        truthy (dget (slot_node ts s inh) k)"
      using slot_ok_policies [OF assms(1)] by auto
    have "dget (node_from_slot registry ts s inh) k =
        policy_default r k (if dget (slot_node ts s inh) k = PNone then dget (as_overlay_fields r) k
                            else dget (slot_node ts s inh) k)"
      using dget_apply_to_node [OF Some] by (simp add: node_from_slot_def \<open>registry = Some reg\<close>)
    also have "\<dots> = policy_default r k (dget (slot_node ts s inh) k)"
      using overlay_field_absent [OF assms(2)] by simp
    also have "\<dots> = dget (slot_node ts s inh) k"
      using t policy_default_truthy policy_default_other by blast
    finally show ?thesis .
  qed
qed

lemmas slot_node_gets = dget_node_from_slot [simplified governance_fields_def]

lemma dget_known_map: "dget d k = v \<Longrightarrow> v \<noteq> PNone \<Longrightarrow> map_of d k = Some v"
  by (auto simp: dget_def split: option.splits)

lemma dget_known_has: "dget d k \<noteq> PNone \<Longrightarrow> dhas d k"
  by (auto simp: dget_def dhas_def split: option.splits)

lemma settledI:
  assumes "dget n ''status'' = dget n ''data_status''"
    and "dget n ''data_status'' \<noteq> PStr ''N/A''"
    and "dget n ''data_status'' = PStr ''Optionality'' \<Longrightarrow> \<not> should_preserve_node events n"
    and "dget n ''data_status'' = PStr ''Inactive'' \<Longrightarrow>
      dget n ''missing_policy'' = PStr ''inactive_zero_weight'' \<and> dget n ''active_weight'' = PFloat 0"
  shows "settled events n"
  using assms by (auto simp: settled_def induced_eq intro!: dget_known_map)

lemma empty_option_unfilled:
  "dget n ''data_status'' = PStr ''Optionality'' \<Longrightarrow> dget n ''value'' = empty_option_value \<Longrightarrow>
     \<not> should_preserve_node events n"
  by (simp add: should_preserve_node_def Let_def empty_option_value_def has_content_def)

lemma slot_node_settled:
  assumes "slot_ok s"
  shows "settled events (node_from_slot registry ts s inh)"
proof (rule settledI)
  note get = dget_node_from_slot [OF assms, where registry = registry and ts = ts and inh = inh]
  have ds: "dget (node_from_slot registry ts s inh) ''data_status'' = PStr (sl_data_status s)"
    by (subst get) (simp_all add: governance_fields_def)
  show "dget (node_from_slot registry ts s inh) ''status'' = dget (node_from_slot registry ts s inh) ''data_status''"
    by (subst get, simp add: governance_fields_def)+ simp
  show "dget (node_from_slot registry ts s inh) ''data_status'' \<noteq> PStr ''N/A''"
    using assms by (auto simp: ds slot_ok_def)
  show "\<not> should_preserve_node events (node_from_slot registry ts s inh)"
    if "dget (node_from_slot registry ts s inh) ''data_status'' = PStr ''Optionality''"
  proof (rule empty_option_unfilled [OF that])
    show "dget (node_from_slot registry ts s inh) ''value'' = empty_option_value"
      using that assms by (subst get) (auto simp: governance_fields_def ds slot_ok_def)
  qed
  show "dget (node_from_slot registry ts s inh) ''missing_policy'' = PStr ''inactive_zero_weight'' \<and>
      dget (node_from_slot registry ts s inh) ''active_weight'' = PFloat 0"
    if "dget (node_from_slot registry ts s inh) ''data_status'' = PStr ''Inactive''"
    using that assms get [of "''missing_policy''"] get [of "''active_weight''"]
    by (auto simp: governance_fields_def ds slot_ok_def)
qed

lemma company_node_fields [simp]:
  "dget (company_root_node ts name i) ''node_id'' = PStr (node_key_of ts ''company'')"
  "dget (company_root_node ts name i) ''dp_id'' = PStr ''company''"
  "dget (company_root_node ts name i) ''status'' = PStr ''Known''"
  "dget (company_root_node ts name i) ''data_status'' = PStr ''Known''"
  "dget (company_root_node ts name i) ''required_level'' = PStr ''required''"
  "dget (company_root_node ts name i) ''missing_policy'' = PStr ''known''"
  "dget (company_root_node ts name i) ''calculation_type'' = PStr ''weighted_contribution''"
  "dget (company_root_node ts name i) ''aggregation_policy'' = PStr ''weighted_average''"
  "dget (company_root_node ts name i) ''alert_policy'' = PStr ''error_if_missing''"
  "dget (company_root_node ts name i) ''materiality'' = PFloat 1"
  "dget (company_root_node ts name i) ''field_role'' = PNone"
  "dget (company_root_node ts name i) ''score_target'' = PNone"
  by (simp_all add: company_root_node_def)

lemma company_node_settled: "settled events (company_root_node ts name i)"
  by (rule settledI) simp_all

lemma industry_node_fields [simp]:
  "dget (industry_node s) ''node_id'' = PNone"
  "dget (industry_node s) ''dp_id'' = PStr (sl_dp_id s)"
  "dget (industry_node s) ''status'' = PNone"
  "dget (industry_node s) ''data_status'' = PStr (sl_data_status s)"
  "dget (industry_node s) ''missing_policy'' = PStr (sl_missing_policy s)"
  "dget (industry_node s) ''active_weight'' = PFloat (sl_active_weight s)"
  "dget (industry_node s) ''value'' = sl_value s"
  "\<not> dhas (industry_node s) ''status''"
  by (simp_all add: industry_node_def)

lemma industry_node_settled: "slot_ok s \<Longrightarrow> settled events (industry_node s)"
  using empty_option_unfilled [of "industry_node s" events]
  by (auto simp: settled_def induced_eq slot_ok_def intro!: dget_known_map split: if_splits)

lemma id_text_PStr: "dget n k = PStr t \<Longrightarrow> id_text n k = t"
  by (simp add: id_text_def py_or_def)

lemma id_text_PNone: "dget n k = PNone \<Longrightarrow> id_text n k = []"
  by (simp add: id_text_def py_or_def)

lemma distinct_by_snd: "distinct (map snd xs) \<Longrightarrow> distinct xs"
  by (induction xs) auto

lemma slot_node_dp: "slot_ok s \<Longrightarrow> dget (node_from_slot registry ts s inh) ''dp_id'' = PStr (sl_dp_id s)"
  by (subst dget_node_from_slot) (simp_all add: governance_fields_def)

lemma all_slots_ok: "s \<in> set all_derived_slots \<Longrightarrow> slot_ok s"
  using slots_ok by (simp add: list_all_iff)

lemma industry_slots_are_ok: "s \<in> set industry_slots \<Longrightarrow> slot_ok s"
  using industry_slots_ok z3_industry_slots_ok all_slots_ok
  by (auto simp: industry_slots_def all_derived_slots_def x5_derived_slots_def list_all_iff)

lemma stock_nodes_dp_ids:
  "map (\<lambda>n. dget n ''dp_id'') (stock_nodes registry ms) = map PStr (''company'' # map sl_dp_id all_derived_slots)"
  by (simp add: stock_nodes_def slot_node_dp all_slots_ok)

lemma stock_keys_distinct: "distinct (map merge_key (stock_nodes registry ms))"
proof (rule distinct_by_snd)
  have "map snd (map merge_key (stock_nodes registry ms)) = map (\<lambda>n. id_text n ''dp_id'') (stock_nodes registry ms)"
    by (simp add: merge_key_def)
  also have "\<dots> = ''company'' # map sl_dp_id all_derived_slots"
    by (simp add: stock_nodes_def id_text_PStr slot_node_dp all_slots_ok)
  finally show "distinct (map snd (map merge_key (stock_nodes registry ms)))"
    using slots_distinct by (simp only:)
qed

lemma stock_nodes_settled: "n \<in> set (stock_nodes registry ms) \<Longrightarrow> settled events n"
  by (auto simp: stock_nodes_def company_node_settled intro: slot_node_settled all_slots_ok)

lemma stock_overlay_nodes [simp]: "dget (stock_overlay ms period nodes cov) ''nodes'' = PList (map PDict nodes)"
  by (simp add: stock_overlay_def Let_def)

lemma built_stock_overlay:
  "build_stock_overlay registry ms period = Inr g \<Longrightarrow>
     \<exists>cov. coverage_for_nodes (stock_nodes registry ms) = Inr cov \<and> g = stock_overlay ms period (stock_nodes registry ms) cov"
  by (auto simp: build_stock_overlay_def Let_def res_map_eq_Inr)

lemma stock_template_stable:
  assumes "build_stock_overlay registry ms period = Inr g"
  shows "stable_template events g"
proof -
  obtain cov where g: "g = stock_overlay ms period (stock_nodes registry ms) cov"
    using built_stock_overlay [OF assms] by blast
  have "map (merge_key \<circ> as_dict) (map PDict (stock_nodes registry ms)) = map merge_key (stock_nodes registry ms)"
    by simp
  moreover have "list_all (\<lambda>v. is_dict v \<and> settled events (as_dict v)) (map PDict (stock_nodes registry ms))"
    by (auto simp: list_all_iff intro: stock_nodes_settled)
  ultimately show ?thesis
    using stock_keys_distinct [of registry ms] unfolding g stable_template_def stock_overlay_nodes pyval.case
    by (simp only:)
qed

lemma industry_overlay_nodes [simp]:
  "dget (build_industry_overlay i name period status) ''nodes'' = PList (map (PDict \<circ> industry_node) industry_slots)"
  by (simp add: build_industry_overlay_def)

lemma industry_template_stable: "stable_template events (build_industry_overlay i name period status)"
proof -
  have "map (merge_key \<circ> as_dict) (map (PDict \<circ> industry_node) industry_slots) = map (\<lambda>d. ([], d)) (map sl_dp_id industry_slots)"
    by (simp add: merge_key_def id_text_PStr id_text_PNone)
  moreover have "distinct (map (\<lambda>d. ([] :: string, d)) (map sl_dp_id industry_slots))"
    using industry_slots_distinct by (simp only: distinct_map) (simp add: inj_on_def)
  moreover have "list_all (\<lambda>v. is_dict v \<and> settled events (as_dict v)) (map (PDict \<circ> industry_node) industry_slots)"
    by (auto simp: list_all_iff intro: industry_node_settled industry_slots_are_ok)
  ultimately show ?thesis unfolding stable_template_def industry_overlay_nodes pyval.case by (simp only:)
qed

section \<open>Steps that touch their own files\<close>

text \<open>The contract of one step of the generator: it rests where it has been, it changes no path
  outside its own, and whether it rests is decided by its own paths.\<close>

definition rests :: "(files \<Rightarrow> files res) \<Rightarrow> files \<Rightarrow> bool" where
  "rests s F \<longleftrightarrow> s F = Inr F"

locale local_step =
  fixes P :: "overlay_path set" and s :: "files \<Rightarrow> files res"
  assumes settles: "s F = Inr F' \<Longrightarrow> rests s F'"
    and others: "s F = Inr F' \<Longrightarrow> p \<notin> P \<Longrightarrow> map_of F' p = map_of F p"
    and decided: "(\<And>p. p \<in> P \<Longrightarrow> map_of F p = map_of G p) \<Longrightarrow> rests s F \<Longrightarrow> rests s G"
begin

lemma survives:
  "s F = Inr F1 \<Longrightarrow> (\<And>p. p \<in> P \<Longrightarrow> map_of F' p = map_of F1 p) \<Longrightarrow> rests s F'"
  using decided [of F1 F'] settles by simp

end

lemma run_steps_others:
  "list_all2 local_step Ps ss \<Longrightarrow> run_steps ss F = (F', Inr ()) \<Longrightarrow> \<forall>P \<in> set Ps. p \<notin> P \<Longrightarrow> map_of F' p = map_of F p"
proof (induction Ps ss arbitrary: F rule: list_all2_induct)
  case Nil
  then show ?case by simp
next
  case (Cons P Ps s ss)
  then obtain F1 where F1: "s F = Inr F1" "run_steps ss F1 = (F', Inr ())"
    by (auto split: sum.splits)
  then show ?case using Cons.IH [OF F1(2)] local_step.others [OF Cons.hyps(1) F1(1), of p] Cons.prems(2) by simp
qed

lemma run_steps_rest:
  "list_all2 local_step Ps ss \<Longrightarrow> run_steps ss F = (F', Inr ()) \<Longrightarrow>
     (\<forall>i < length Ps. \<forall>j < length Ps. i \<noteq> j \<longrightarrow> Ps ! i \<inter> Ps ! j = {}) \<Longrightarrow> list_all (\<lambda>s. rests s F') ss"
proof (induction Ps ss arbitrary: F rule: list_all2_induct)
  case Nil
  then show ?case by simp
next
  case (Cons P Ps s ss)
  then obtain F1 where F1: "s F = Inr F1" "run_steps ss F1 = (F', Inr ())"
    by (auto split: sum.splits)
  have disj: "P \<inter> Q = {}" if "Q \<in> set Ps" for Q
  proof -
    obtain j where "j < length Ps" "Ps ! j = Q" using \<open>Q \<in> set Ps\<close> by (auto simp: in_set_conv_nth)
    then show ?thesis using Cons.prems(2) [rule_format, of 0 "Suc j"] by simp
  qed
  have rest: "\<forall>i < length Ps. \<forall>j < length Ps. i \<noteq> j \<longrightarrow> Ps ! i \<inter> Ps ! j = {}"
    using Cons.prems(2) by (metis Suc_less_eq length_Cons nat.inject nth_Cons_Suc)
  have "map_of F' p = map_of F1 p" if "p \<in> P" for p
    using run_steps_others [OF Cons.hyps(2) F1(2), of p] disj that by blast
  then have "rests s F'" by (rule local_step.survives [OF Cons.hyps(1) F1(1)])
  with Cons.IH [OF F1(2) rest] show ?case by simp
qed

lemma run_steps_at_rest: "list_all (\<lambda>s. rests s F) ss \<Longrightarrow> run_steps ss F = (F, Inr ())"
  by (induction ss) (simp_all add: rests_def)

lemma merge_into_cases:
  assumes "merge_into events force path g F = Inr F'"
  obtains e where "merge_preserve_existing_overlay events force (existing_file F path) g = Inr e"
    and "F' = write_yaml_if_changed path (PDict e) F"
  using assms by (auto simp: merge_into_def res_map_eq_Inr)

lemma map_of_write: "map_of (write_yaml_if_changed path v F) p = (if p = path then Some v else map_of F p)"
  by (simp add: write_yaml_if_changed_def map_of_dput)

lemma write_same: "map_of F path = Some v \<Longrightarrow> write_yaml_if_changed path v F = F"
  by (simp add: write_yaml_if_changed_def)

lemma stable_has_nodes: "stable_template events g \<Longrightarrow> dhas g ''nodes''"
  by (rule dget_known_has) (auto simp: stable_template_def)

lemma merged_has_nodes:
  "stable_template events g \<Longrightarrow> merge_preserve_existing_overlay events force existing g = Inr e \<Longrightarrow> dhas e ''nodes''"
  using stable_has_nodes
  by (auto simp: merge_preserve_existing_overlay_def res_bind_eq_Inr res_map_eq_Inr dhas_dput split: option.splits if_splits)

lemma existing_nonempty: "map_of F path = Some (PDict e) \<Longrightarrow> dhas e k \<Longrightarrow> existing_file F path = Some (PDict e)"
  by (auto simp: existing_file_def py_or_def)

lemma merge_into_at:
  assumes "stable_template events g" and "merge_preserve_existing_overlay events force existing g = Inr e"
    and "map_of F path = Some (PDict e)"
  shows "merge_into events force path g F = Inr F"
  using merge_twice [OF assms(1,2)] existing_nonempty [OF assms(3) merged_has_nodes [OF assms(1,2)]]
  by (simp add: merge_into_def write_same [OF assms(3)])

lemma merge_into_local:
  assumes "stable_template events g"
  shows "local_step {path} (merge_into events force path g)"
proof
  fix F F' assume "merge_into events force path g F = Inr F'"
  then obtain e where e: "merge_preserve_existing_overlay events force (existing_file F path) g = Inr e"
    "F' = write_yaml_if_changed path (PDict e) F" by (rule merge_into_cases)
  then have "map_of F' path = Some (PDict e)" by (simp add: map_of_write)
  then show "rests (merge_into events force path g) F'"
    unfolding rests_def by (rule merge_into_at [OF assms e(1)])
next
  fix F F' p assume "merge_into events force path g F = Inr F'" and "p \<notin> {path}"
  then show "map_of F' p = map_of F p" by (auto elim!: merge_into_cases simp: map_of_write)
next
  fix F G assume eq: "\<And>p. p \<in> {path} \<Longrightarrow> map_of F p = map_of G p" and r: "rests (merge_into events force path g) F"
  then obtain e where e: "merge_preserve_existing_overlay events force (existing_file F path) g = Inr e"
    "F = write_yaml_if_changed path (PDict e) F" unfolding rests_def by (auto elim: merge_into_cases)
  from e(2) have "map_of F path = Some (PDict e)" by (metis map_of_write)
  then have "map_of G path = Some (PDict e)" using eq by simp
  then show "rests (merge_into events force path g) G"
    unfolding rests_def by (rule merge_into_at [OF assms e(1)])
qed

lemma failing_step_local: "local_step P (\<lambda>F. Inl e)"
  by unfold_locales (simp_all add: rests_def)

definition stock_path :: "membership \<Rightarrow> overlay_path" where
  "stock_path ms = StockFile (ms_industry_id ms) (ms_ts_code ms)"

lemma generate_stock_local: "local_step {stock_path ms} (generate_stock registry events force period ms)"
proof (cases "build_stock_overlay registry ms period")
  case (Inl e)
  then have "generate_stock registry events force period ms = (\<lambda>F. Inl e)"
    by (simp add: generate_stock_def fun_eq_iff)
  then show ?thesis by (simp add: failing_step_local)
next
  case (Inr g)
  then have "generate_stock registry events force period ms = merge_into events force (stock_path ms) g"
    by (simp add: generate_stock_def stock_path_def fun_eq_iff)
  then show ?thesis using merge_into_local [OF stock_template_stable [OF Inr]] by simp
qed

definition industry_path_id :: "pyval \<Rightarrow> string" where
  "industry_path_id v = py_str (dget (as_dict v) ''id'')"

definition industry_paths :: "pyval \<Rightarrow> overlay_path set" where
  "industry_paths v = {IndustryFile (industry_path_id v), GraphFile (industry_path_id v)}"

definition add_stub :: "bool \<Rightarrow> overlay_path \<Rightarrow> pyval \<Rightarrow> files \<Rightarrow> files" where
  "add_stub pending path stub fs =
     (if pending \<and> map_of fs path = None then write_yaml_if_changed path stub fs else fs)"

lemma map_of_stub: "p \<noteq> path \<Longrightarrow> map_of (add_stub pending path stub fs) p = map_of fs p"
  by (simp add: add_stub_def map_of_write)

lemma stub_rests: "add_stub pending path stub fs = fs \<longleftrightarrow> \<not> pending \<or> map_of fs path \<noteq> None"
proof
  assume "add_stub pending path stub fs = fs"
  then show "\<not> pending \<or> map_of fs path \<noteq> None"
    by (metis add_stub_def map_of_write option.distinct(1))
qed (auto simp: add_stub_def)

lemma stub_there: "\<not> pending \<or> map_of (add_stub pending path stub fs) path \<noteq> None"
  by (auto simp: add_stub_def map_of_write)

lemma merge_with_stub_local:
  assumes g: "stable_template events g" and "a \<noteq> b"
  shows "local_step {a, b} (\<lambda>F. res_map (add_stub pending b stub) (merge_into events force a g F))"
    (is "local_step _ ?s")
proof -
  have at: "rests ?s F" if "merge_preserve_existing_overlay events force ex g = Inr e" "map_of F a = Some (PDict e)"
    "\<not> pending \<or> map_of F b \<noteq> None" for F ex e
    using merge_into_at [OF g that(1,2)] that(3) by (simp add: rests_def stub_rests)
  show ?thesis
  proof
    fix F F' assume "?s F = Inr F'"
    then obtain e where e: "merge_preserve_existing_overlay events force (existing_file F a) g = Inr e"
      "F' = add_stub pending b stub (write_yaml_if_changed a (PDict e) F)"
      by (auto simp: res_map_eq_Inr elim: merge_into_cases)
    have "map_of F' a = Some (PDict e)" using assms(2) by (simp add: e(2) map_of_stub map_of_write)
    moreover have "\<not> pending \<or> map_of F' b \<noteq> None" unfolding e(2) by (rule stub_there)
    ultimately show "rests ?s F'" by (rule at [OF e(1)])
  next
    fix F F' p assume "?s F = Inr F'" and "p \<notin> {a, b}"
    then show "map_of F' p = map_of F p"
      by (auto simp: res_map_eq_Inr map_of_stub map_of_write elim!: merge_into_cases)
  next
    fix F G assume eq: "\<And>p. p \<in> {a, b} \<Longrightarrow> map_of F p = map_of G p" and r: "rests ?s F"
    then obtain e where e: "merge_preserve_existing_overlay events force (existing_file F a) g = Inr e"
      "F = add_stub pending b stub (write_yaml_if_changed a (PDict e) F)"
      unfolding rests_def by (auto simp: res_map_eq_Inr elim: merge_into_cases)
    have Fa: "map_of F a = Some (PDict e)" using assms(2) e(2) by (metis map_of_stub map_of_write)
    have Fb: "\<not> pending \<or> map_of F b \<noteq> None" using e(2) stub_there by metis
    show "rests ?s G" by (rule at [OF e(1)]) (use Fa Fb eq [of a] eq [of b] in simp_all)
  qed
qed

lemma generate_industry_local: "local_step (industry_paths v) (generate_industry events force names period v)"
proof (cases "\<exists>d iv name. v = PDict d \<and> ditem d ''id'' = Inr iv \<and> map_of names (py_str iv) = Some name")
  case True
  then obtain d iv name where v: "v = PDict d" "ditem d ''id'' = Inr iv" "map_of names (py_str iv) = Some name"
    by blast
  have id: "industry_path_id v = py_str iv"
    using v(1,2) by (auto simp: industry_path_id_def ditem_def dget_def split: option.splits)
  let ?status = "py_str (py_or (dget d ''graph_status'') (PStr ''present''))"
  have "generate_industry events force names period v =
      (\<lambda>F. res_map (add_stub (?status = ''pending'') (GraphFile (py_str iv)) (PDict (build_space_economy_graph_stub name period)))
        (merge_into events force (IndustryFile (py_str iv)) (build_industry_overlay (py_str iv) name period ?status) F))"
    by (simp add: generate_industry_def v Let_def add_stub_def [abs_def] fun_eq_iff)
  then show ?thesis
    unfolding industry_paths_def id by (simp only:) (rule merge_with_stub_local [OF industry_template_stable], simp)
next
  case False
  have "\<exists>e. generate_industry events force names period v = (\<lambda>F. Inl e)"
  proof (cases v)
    case (PDict d)
    then show ?thesis
    proof (cases "ditem d ''id''")
      case (Inr iv)
      with False PDict have "map_of names (py_str iv) = None" by (cases "map_of names (py_str iv)") auto
      then show ?thesis by (simp add: generate_industry_def PDict Inr fun_eq_iff)
    qed (simp add: generate_industry_def fun_eq_iff)
  qed (simp_all add: generate_industry_def fun_eq_iff)
  then show ?thesis using failing_step_local by metis
qed

interpretation stock_step: local_step "{stock_path ms}" "generate_stock registry events force period ms"
  for ms registry events force period
  by (rule generate_stock_local)

interpretation industry_step: local_step "industry_paths v" "generate_industry events force names period v"
  for v events force names period
  by (rule generate_industry_local)

section \<open>Running the generator again\<close>

text \<open>No two industries and no two memberships share their files.\<close>

definition own_files :: "pyval \<Rightarrow> pyval \<Rightarrow> bool" where
  "own_files universe industries \<longleftrightarrow>
     (case (load_industries industries, expand_memberships universe industries) of
        (Inr is, Inr ms) \<Rightarrow> distinct (map industry_path_id is) \<and> distinct (map stock_path ms)
      | _ \<Rightarrow> True)"

lemma disjoint_paths:
  assumes "distinct (map industry_path_id is)" and "distinct (map stock_path ms)"
  shows "\<forall>i < length (map industry_paths is @ map (\<lambda>m. {stock_path m}) ms).
    \<forall>j < length (map industry_paths is @ map (\<lambda>m. {stock_path m}) ms). i \<noteq> j \<longrightarrow>
      (map industry_paths is @ map (\<lambda>m. {stock_path m}) ms) ! i \<inter>
      (map industry_paths is @ map (\<lambda>m. {stock_path m}) ms) ! j = {}"
proof (intro allI impI)
  let ?Ps = "map industry_paths is @ map (\<lambda>m. {stock_path m}) ms"
  fix i j assume ij: "i < length ?Ps" "j < length ?Ps" "i \<noteq> j"
  have ii: "industry_path_id (is ! k) \<noteq> industry_path_id (is ! l)" if "k < length is" "l < length is" "k \<noteq> l" for k l
    using assms(1) that by (simp add: distinct_conv_nth)
  have mm: "stock_path (ms ! k) \<noteq> stock_path (ms ! l)" if "k < length ms" "l < length ms" "k \<noteq> l" for k l
    using assms(2) that by (simp add: distinct_conv_nth)
  show "?Ps ! i \<inter> ?Ps ! j = {}"
    using ij ii mm by (auto simp: nth_append industry_paths_def stock_path_def split: if_splits)
qed

lemma generation_local:
  "list_all2 local_step (map industry_paths is @ map (\<lambda>m. {stock_path m}) ms)
     (map (generate_industry events force names period) is @ map (generate_stock registry events force period) ms)"
  by (rule list_all2_appendI)
     (simp_all add: list_all2_map1 list_all2_map2 list_all2_same generate_industry_local generate_stock_local)

text \<open>C29: Regeneration is idempotent: when a run of the generator returns, a second run over the files
  it left, with the same universe, industries, governance and force flag, changes no file and returns
  the same counts, whatever was on disk before. (No two industries and no two memberships may
  share their files.)\<close>

theorem regeneration_is_idempotent:
  assumes run: "generate_overlay_files registry events force universe industries period files = (files', Inr counts)"
    and own: "own_files universe industries"
  shows "generate_overlay_files registry events force universe industries period files' = (files', Inr counts)"
proof -
  obtain steps i m where g: "generation_steps registry events force universe industries period = Inr (steps, i, m)"
    and r: "run_steps steps files = (files', Inr ())"
    using run by (auto simp: generate_overlay_files_def split: sum.splits prod.splits)
  obtain names inds ms where p: "load_industries industries = Inr inds" "expand_memberships universe industries = Inr ms"
    and steps: "steps = map (generate_industry events force names period) inds @
                map (generate_stock registry events force period) ms"
    using g by (auto simp: generation_steps_def res_bind_eq_Inr res_map_eq_Inr)
  have "distinct (map industry_path_id inds)" "distinct (map stock_path ms)"
    using own p by (simp_all add: own_files_def)
  then have "list_all (\<lambda>s. rests s files') steps"
    unfolding steps using r [unfolded steps] by (intro run_steps_rest [OF generation_local _ disjoint_paths])
  then have "run_steps steps files' = (files', Inr ())" by (rule run_steps_at_rest)
  then show ?thesis using run r by (simp add: generate_overlay_files_def g)
qed

section \<open>The templates are sound\<close>

definition roles_ok :: "gov_registry option \<Rightarrow> bool" where
  "roles_ok registry = (case registry of
     None \<Rightarrow> True
   | Some reg \<Rightarrow> list_all (\<lambda>(_, r). r_field_role r \<in> set field_roles \<and> r_score_target r \<in> set score_targets) (g_rules reg))"

lemma company_node_sound: "node_sound (company_root_node ts name i)"
proof -
  have "set required_node \<subseteq> set (map fst (company_root_node ts name i))"
    by (simp add: required_node_def company_root_node_def)
  moreover have "list_all (\<lambda>(names, field). named (company_root_node ts name i) field names) enumerated_fields"
    by (simp add: enumerated_fields_def named_def data_statuses_def required_levels_def ov_missing_policies_def
      ov_calculation_types_def ov_aggregation_policies_def alert_policies_def)
  moreover have "unknown_errors (PStr []) (company_root_node ts name i) = []"
    "option_errors (PStr []) (company_root_node ts name i) = []"
    by (simp_all add: unknown_errors_def option_errors_def)
  ultimately show ?thesis by (simp add: node_sound_def optional_enumerated_fields_def)
qed

lemma slot_node_dhas: "dhas (slot_node ts s inh) k \<Longrightarrow> dhas (node_from_slot registry ts s inh) k"
proof -
  have fill: "dhas n k \<Longrightarrow> dhas (fill_field b kv n) k" "dhas n k \<Longrightarrow> dhas (fill_falsy b f v n) k" for b kv f v n
    by (auto simp: fill_field_def fill_falsy_def dhas_dput)
  have "dhas n k \<Longrightarrow> dhas (fold (fill_field b) kvs n) k" for b kvs n
    by (induction kvs arbitrary: n) (auto simp: fill)
  then show "dhas (slot_node ts s inh) k \<Longrightarrow> dhas (node_from_slot registry ts s inh) k"
    by (auto simp: node_from_slot_def apply_to_node_def fill Let_def split: option.splits)
qed

lemma role_field:
  assumes "roles_ok registry" and "k = ''field_role'' \<and> names = field_roles \<or> k = ''score_target'' \<and> names = score_targets"
  shows "dget (node_from_slot registry ts s inh) k = PNone \<or> named (node_from_slot registry ts s inh) k names"
proof (cases registry)
  case None
  then show ?thesis using assms(2) by (auto simp: node_from_slot_def)
next
  case (Some reg)
  show ?thesis
  proof (cases "reg_get reg (dget (slot_node ts s inh) ''dp_id'')")
    case None
    then show ?thesis using assms(2) by (auto simp: node_from_slot_def Some apply_to_node_def)
  next
    case (Some r)
    then have "r \<in> snd ` set (g_rules reg)"
      by (auto simp: reg_get_def split: if_splits dest!: map_of_SomeD intro: rev_image_eqI)
    then have "r_field_role r \<in> set field_roles \<and> r_score_target r \<in> set score_targets"
      using assms(1) \<open>registry = Some reg\<close> by (auto simp: roles_ok_def list_all_iff)
    moreover have "dget (node_from_slot registry ts s inh) k = policy_default r k (dget (as_overlay_fields r) k)"
      using dget_apply_to_node [OF Some, of k] assms(2) by (auto simp: node_from_slot_def \<open>registry = Some reg\<close>)
    then have "dget (node_from_slot registry ts s inh) k = PStr (if k = ''field_role'' then r_field_role r else r_score_target r)"
      using assms(2) by (elim disjE conjE) (simp_all add: as_overlay_fields_def policy_default_other)
    ultimately show ?thesis using assms(2) by (elim disjE conjE) (simp_all only: named_def imageI simp_thms if_True if_False, simp_all)
  qed
qed

lemma slot_okD:
  assumes "slot_ok s"
  shows "sl_data_status s = ''Unknown'' \<or> sl_data_status s = ''Inactive'' \<or> sl_data_status s = ''Optionality''"
    and "sl_data_status s = ''Optionality'' \<Longrightarrow> sl_value s = empty_option_value"
    and "sl_data_status s = ''Unknown'' \<Longrightarrow> sl_required_level s \<noteq> ''required''"
    and "sl_data_status s = ''Unknown'' \<Longrightarrow> sl_default_missing_reason s = Some ''pending LLM/company-specific research''"
    and "sl_required_level s \<in> set required_levels" "sl_missing_policy s \<in> set ov_missing_policies"
    "sl_calculation_type s \<in> set ov_calculation_types" "sl_aggregation_policy s \<in> set ov_aggregation_policies"
    "sl_alert_policy s \<in> set alert_policies"
  using assms by (simp_all add: slot_ok_def)

lemma slot_status_named: "slot_ok s \<Longrightarrow> sl_data_status s \<in> set data_statuses"
  using slot_okD(1) [of s] by (auto simp: data_statuses_def)

lemma slot_node_sound:
  assumes "slot_ok s" and "roles_ok registry"
  shows "node_sound (node_from_slot registry ts s inh)" (is "node_sound ?n")
proof -
  have get: "k \<notin> set governance_fields \<Longrightarrow> dget ?n k = dget (slot_node ts s inh) k" for k
    by (rule dget_node_from_slot [OF assms(1)])
  have f: "dget ?n ''data_status'' = PStr (sl_data_status s)" "dget ?n ''required_level'' = PStr (sl_required_level s)"
    "dget ?n ''missing_policy'' = PStr (sl_missing_policy s)" "dget ?n ''calculation_type'' = PStr (sl_calculation_type s)"
    "dget ?n ''aggregation_policy'' = PStr (sl_aggregation_policy s)" "dget ?n ''alert_policy'' = PStr (sl_alert_policy s)"
    "dget ?n ''missing_reason'' = opt_str (sl_default_missing_reason s)" "dget ?n ''value'' = sl_value s"
    by (subst get, simp add: governance_fields_def, simp)+
  have in_lists: "sl_required_level s \<in> set required_levels" "sl_missing_policy s \<in> set ov_missing_policies"
    "sl_calculation_type s \<in> set ov_calculation_types" "sl_aggregation_policy s \<in> set ov_aggregation_policies"
    "sl_alert_policy s \<in> set alert_policies" "sl_data_status s \<in> set data_statuses"
    using slot_okD [OF assms(1)] slot_status_named [OF assms(1)] by simp_all
  have "dhas ?n k" if "k \<in> set required_node" for k
    by (rule slot_node_dhas) (use that in \<open>auto simp: required_node_def slot_node_def\<close>)
  then have keys: "set required_node \<subseteq> set (map fst ?n)" by (auto simp: dhas_iff)
  have "list_all (\<lambda>(names, field). named ?n field names) enumerated_fields"
    unfolding enumerated_fields_def using in_lists f by (simp add: named_def)
  moreover have "list_all (\<lambda>(names, field). dget ?n field = PNone \<or> named ?n field names) optional_enumerated_fields"
    unfolding optional_enumerated_fields_def using role_field [OF assms(2)] by simp
  moreover have "unknown_errors (PStr []) ?n = []"
    using slot_okD(1,3,4) [OF assms(1)] unfolding unknown_errors_def f Let_def
    by (elim disjE) (simp_all add: opt_str_def)
  moreover have "option_errors (PStr []) ?n = []"
    using slot_okD(2) [OF assms(1)] unfolding option_errors_def f Let_def by (simp add: empty_option_value_def)
  ultimately show ?thesis unfolding node_sound_def using keys by blast
qed

lemma stock_nodes_sound: "roles_ok registry \<Longrightarrow> list_all node_sound (stock_nodes registry ms)"
  by (auto simp: stock_nodes_def list_all_iff company_node_sound intro: slot_node_sound all_slots_ok)

definition edge_endpoints :: "string list" where
  "edge_endpoints = hierarchy_groups @ map (\<lambda>(n, a, b, t). a) causal_specs @ map (\<lambda>(n, a, b, t). b) causal_specs"

lemma endpoints_exist: "list_all (\<lambda>dp. dp \<in> set (map sl_dp_id all_derived_slots)) edge_endpoints"
proof -
  have "list_all (\<lambda>dp. dp \<in> set (map sl_dp_id industry_derived_slots @ map sl_dp_id company_derived_slots)) edge_endpoints"
    unfolding slot_ids by code_simp
  then show ?thesis by (auto simp: list_all_iff all_derived_slots_def)
qed

lemma stock_node_id:
  assumes "dp \<in> insert ''company'' (set (map sl_dp_id all_derived_slots))"
  shows "Inr (KStr (node_key_of (ms_ts_code ms) dp)) \<in> (\<lambda>n. py_key (dget n ''node_id'')) ` set (stock_nodes registry ms)"
proof -
  have id: "dget (node_from_slot registry (ms_ts_code ms) s inh) ''node_id'' = PStr (node_key_of (ms_ts_code ms) (sl_dp_id s))"
    if "s \<in> set all_derived_slots" for s inh
    by (subst dget_node_from_slot [OF all_slots_ok [OF that]]) (simp_all add: governance_fields_def)
  show ?thesis
  proof (cases "dp = ''company''")
    case True
    then show ?thesis by (simp add: stock_nodes_def)
  next
    case False
    then obtain s where s: "s \<in> set all_derived_slots" "dp = sl_dp_id s" using assms by auto
    have "node_from_slot registry (ms_ts_code ms) s (inherits s) \<in> set (stock_nodes registry ms)"
      using s(1) by (simp add: stock_nodes_def)
    then show ?thesis by (rule rev_image_eqI) (simp add: id s)
  qed
qed

lemma stock_edges_closed:
  "list_all (edge_closed (stock_nodes registry ms)) (hierarchy_edges_of (ms_ts_code ms))"
  "list_all (edge_closed (stock_nodes registry ms)) (causal_edges_of (ms_ts_code ms))"
proof -
  have e: "dp \<in> insert ''company'' (set (map sl_dp_id all_derived_slots))"
    if "dp \<in> set edge_endpoints" for dp
    using endpoints_exist that by (auto simp: list_all_iff simp del: set_map)
  show "list_all (edge_closed (stock_nodes registry ms)) (hierarchy_edges_of (ms_ts_code ms))"
  proof (unfold list_all_iff, rule ballI)
    fix x assume "x \<in> set (hierarchy_edges_of (ms_ts_code ms))"
    then obtain idx dp where x: "x = hierarchy_edge (ms_ts_code ms) (idx, dp)" "dp \<in> set hierarchy_groups"
      by (auto simp: hierarchy_edges_of_def in_set_enumerate_eq)
    then show "edge_closed (stock_nodes registry ms) x"
      using stock_node_id [of dp ms registry] stock_node_id [of "''company''" ms registry] e [of dp]
      by (simp add: edge_closed_def hierarchy_edge_def edge_endpoints_def del: set_map)
  qed
  show "list_all (edge_closed (stock_nodes registry ms)) (causal_edges_of (ms_ts_code ms))"
  proof (unfold list_all_iff, rule ballI)
    fix x assume "x \<in> set (causal_edges_of (ms_ts_code ms))"
    then obtain n a b t d where x: "x = causal_edge (ms_ts_code ms) (n, a, b, t, d)" "(n, a, b, t, d) \<in> set causal_specs"
      by (auto simp: causal_edges_of_def)
    then have "a \<in> set (map (\<lambda>(n, a, b, t). a) causal_specs)" "b \<in> set (map (\<lambda>(n, a, b, t). b) causal_specs)"
      by force+
    then show "edge_closed (stock_nodes registry ms) x"
      using stock_node_id [of a ms registry] stock_node_id [of b ms registry] e [of a] e [of b] x(1)
      by (simp add: edge_closed_def causal_edge_def edge_endpoints_def del: set_map)
  qed
qed

lemma stock_overlay_fields:
  "set required_top \<subseteq> set (map fst (stock_overlay ms period nodes cov))"
  "dget (stock_overlay ms period nodes cov) ''template_version'' = PStr stock_template_version"
  "dget (stock_overlay ms period nodes cov) ''hierarchy_edges'' = PList (map PDict (hierarchy_edges_of (ms_ts_code ms)))"
  "dget (stock_overlay ms period nodes cov) ''causal_edges'' = PList (map PDict (causal_edges_of (ms_ts_code ms)))"
  "dget (stock_overlay ms period nodes cov) ''coverage'' = PDict cov"
  "dget (stock_overlay ms period nodes cov) ''scores'' = PDict (default_scores cov)"
  "dget (stock_overlay ms period nodes cov) ''views'' =
     PDict (default_views nodes (hierarchy_edges_of (ms_ts_code ms)) (causal_edges_of (ms_ts_code ms)))"
  by (simp_all add: stock_overlay_def required_top_def Let_def)

lemma coverage_value: "coverage_for_nodes nodes = Inr cov \<Longrightarrow> (\<exists>x. dget cov ''data_coverage'' = PFloat x) \<or> dget cov ''data_coverage'' = PNone"
  by (auto simp: coverage_for_nodes_def res_map_eq_Inr coverage_dict_def split: if_splits)

lemma default_score_fields:
  "list_all (dhas (default_scores cov)) score_layers"
  "dget (as_dict (dget (default_scores cov) ''stock_final_score'')) ''current_mode'' = PStr (mode_for_coverage (dget cov ''data_coverage''))"
  by (simp_all add: default_scores_def score_layers_def)

lemma default_view_names: "map fst (default_views nodes hs cs) = expected_views"
  by (simp add: default_views_def expected_views_def Let_def)

lemma low_coverage_waits:
  assumes "(\<exists>x. c = PFloat x) \<or> c = PNone" and "below_30 c = Inr True"
  shows "mode_for_coverage c = mode_waiting"
  using assms by (auto simp: mode_for_coverage_def)

lemma edge_types:
  "list_all (\<lambda>e. dget e ''edge_type'' = PStr ''Parent-Child'') (hierarchy_edges_of ts)"
  "list_all (\<lambda>e. dget e ''edge_type'' \<noteq> PStr ''Parent-Child'') (causal_edges_of ts)"
  by (auto simp: hierarchy_edges_of_def hierarchy_edge_def list_all_iff)
     (auto simp: causal_edges_of_def causal_edge_def causal_specs_def)

lemma members_PList: "dget d k = PList (map PDict ns) \<Longrightarrow> members d k = ns"
  by (simp add: members_def elements_PList comp_def)

lemma members_unchanged: "dget d k = dget d' k \<Longrightarrow> members d k = members d' k"
  by (simp add: members_def elements_def)

lemma list_all_both: "list_all P xs \<Longrightarrow> list_all Q xs \<Longrightarrow> list_all (\<lambda>x. P x \<and> Q x) xs"
  by (simp add: list_all_iff)

text \<open>A template that is generated passes the validation.\<close>

lemma built_overlay_sound:
  assumes "build_stock_overlay registry ms period = Inr g" and "roles_ok registry"
  shows "overlay_sound g"
proof -
  obtain cov where cov: "coverage_for_nodes (stock_nodes registry ms) = Inr cov"
    and g: "g = stock_overlay ms period (stock_nodes registry ms) cov"
    using built_stock_overlay [OF assms(1)] by blast
  note f = stock_overlay_fields [where ms = ms and period = period and nodes = "stock_nodes registry ms" and cov = cov, folded g]
  have ns: "members g ''nodes'' = stock_nodes registry ms" by (rule members_PList) (simp add: g)
  have hs: "members g ''hierarchy_edges'' = hierarchy_edges_of (ms_ts_code ms)" by (rule members_PList) (rule f(3))
  have cs: "members g ''causal_edges'' = causal_edges_of (ms_ts_code ms)" by (rule members_PList) (rule f(4))
  have mode: "low_coverage g \<longrightarrow> current_mode g = PStr mode_waiting"
    using low_coverage_waits [OF coverage_value [OF cov]] by (simp add: low_coverage_def current_mode_def f default_score_fields)
  have views: "\<forall>v \<in> set expected_views. Inr (KStr v) \<in> set (view_names g)"
  proof -
    obtain d where d: "dget g ''views'' = PDict d" "map fst d = expected_views" using f(7) default_view_names by blast
    then have "d \<noteq> []" by (auto simp: expected_views_def)
    then have "view_names g = map (\<lambda>kv. py_key (PStr (fst kv))) d"
      using d(1) by (simp add: view_names_def elements_def py_or_def comp_def)
    then have "view_names g = map (\<lambda>v. Inr (KStr v)) expected_views" unfolding d(2) [symmetric] by simp
    then show ?thesis by simp
  qed
  show ?thesis
    unfolding overlay_sound_def Let_def ns hs cs
    using f(1,2) stock_nodes_sound [OF assms(2)] list_all_both [OF edge_types(1) stock_edges_closed(1)]
      list_all_both [OF edge_types(2) stock_edges_closed(2)] mode views default_score_fields(1) [of cov]
    by (simp add: f(6) list_all_iff)
qed

section \<open>Merging keeps overlays sound\<close>

lemma merged_keys: "dhas new k \<Longrightarrow> should_preserve_node events old \<Longrightarrow> dhas (merge_nodes old new) k"
  unfolding merge_nodes_def by (simp add: keep_status_eq Let_def dhas_puts dhas_dput dhas_keep_fields)

lemma merged_missing_policy:
  assumes "should_preserve_node events old"
  shows "dget (merge_nodes old new) ''missing_policy'' =
    (let s = dget old ''data_status'' in
     if s = PStr ''N/A'' then PStr ''not_applicable_remove''
     else if s = PStr ''Inactive'' then PStr ''inactive_zero_weight''
     else if s = PStr ''Optionality'' then PStr ''optionality_track'' else dget new ''missing_policy'')"
  using preserved_fields_facts(4) by (simp add: dget_merge_nodes [OF assms] induced_eq Let_def)

lemma merged_named:
  assumes p: "should_preserve_node events old" and old: "node_sound old" and new: "node_sound new"
    and f: "(names, field) \<in> set enumerated_fields"
  shows "named (merge_nodes old new) field names"
proof -
  have n: "named new field names" "named old field names"
    using old new f by (auto simp: node_sound_def list_all_iff)
  have "field = ''data_status'' \<or> (field = ''missing_policy'' \<and> names = ov_missing_policies) \<or>
      field = ''required_level'' \<or> field = ''calculation_type'' \<or> field = ''aggregation_policy'' \<or> field = ''alert_policy''"
    using f unfolding enumerated_fields_def list.set by (elim insertE emptyE) simp_all
  then consider "field = ''data_status''" | "field = ''missing_policy''" "names = ov_missing_policies"
    | "field = ''required_level'' \<or> field = ''calculation_type'' \<or> field = ''aggregation_policy'' \<or> field = ''alert_policy''"
    by argo
  then show ?thesis
  proof cases
    case 1
    then show ?thesis using n(2) dget_merged_status [OF p] by (simp add: named_def)
  next
    case 2
    have "{''not_applicable_remove'', ''inactive_zero_weight'', ''optionality_track''} \<subseteq> set ov_missing_policies"
      by (simp add: ov_missing_policies_def)
    then show ?thesis using n(1) unfolding 2 named_def merged_missing_policy [OF p] by (auto simp: Let_def)
  next
    case 3
    then have "field \<notin> {''missing_policy'', ''active_weight'', ''data_status'', ''status''}" "field \<notin> set preserved_fields"
      by (elim disjE; simp add: preserved_fields_def)+
    then show ?thesis using n(1) dget_merged_other [OF p] by (simp add: named_def)
  qed
qed

lemma merged_node_sound:
  assumes p: "should_preserve_node events old" and old: "node_sound old" and new: "node_sound new"
  shows "node_sound (merge_nodes old new)"
proof -
  have "set required_node \<subseteq> set (map fst (merge_nodes old new))"
    using new merged_keys [OF _ p] by (force simp: node_sound_def dhas_iff)
  moreover have "list_all (\<lambda>(names, field). named (merge_nodes old new) field names) enumerated_fields"
    using merged_named [OF p old new] by (auto simp: list_all_iff)
  moreover have "list_all (\<lambda>(names, field). dget (merge_nodes old new) field = PNone \<or> named (merge_nodes old new) field names)
      optional_enumerated_fields"
    using new by (simp add: node_sound_def optional_enumerated_fields_def named_def dget_merged_other [OF p] preserved_fields_def)
  moreover have "unknown_errors (PStr []) (merge_nodes old new) = []"
    using preserved_status [OF p]
    by (auto simp: unknown_errors_def Let_def dget_merged_status [OF p] merged_missing_policy [OF p])
  moreover have "option_errors (PStr []) (merge_nodes old new) = []"
  proof (cases "dget old ''data_status'' = PStr ''Optionality''")
    case True
    then have v: "dhas old ''value''"
      using p by (auto simp: should_preserve_node_def dhas_def dget_def split: option.splits)
    have "option_errors (PStr []) old = []" using old by (simp add: node_sound_def)
    then show ?thesis
      using True v by (simp add: option_errors_def Let_def dget_merged_status [OF p] dget_merged_other [OF p] preserved_fields_def)
  next
    case False
    then show ?thesis by (simp add: option_errors_def Let_def dget_merged_status [OF p])
  qed
  ultimately show ?thesis by (simp add: node_sound_def)
qed

lemma merge_result:
  assumes "merge_preserve_existing_overlay events force existing g = Inr e" and vs: "dget g ''nodes'' = PList vs"
  obtains "e = g"
    | ex olds where "existing = Some (PDict ex)" "elements ex ''nodes'' = Inr olds"
        "e = dput ''nodes'' (PList (map (merge_one events (fold index_node olds [])) vs)) g"
proof (cases "if force then None else existing")
  case None
  then show ?thesis using that(1) assms(1) by (simp add: merge_preserve_existing_overlay_def)
next
  case (Some payload)
  then show ?thesis
    using that(2) assms(1) by (auto simp: merge_preserve_existing_overlay_def res_bind_eq_Inr res_map_eq_Inr
        as_mapping_Inr elements_PList [OF vs] split: if_splits)
qed

lemma index_members:
  "map_of (fold index_node olds acc) k = Some n \<Longrightarrow> map_of acc k = Some n \<or> PDict n \<in> set olds"
proof (induction olds arbitrary: acc)
  case Nil
  then show ?case by simp
next
  case (Cons v olds)
  then have "map_of (index_node v acc) k = Some n \<or> PDict n \<in> set olds" by simp
  then show ?case by (auto simp: index_node_def map_of_dput split: pyval.splits if_splits)
qed

lemma merge_one_sound:
  assumes "is_dict v" and "node_sound (as_dict v)" and olds: "\<And>n. PDict n \<in> set olds \<Longrightarrow> node_sound n"
  shows "node_sound (as_dict (merge_one events (fold index_node olds []) v))"
    and "dget (as_dict (merge_one events (fold index_node olds []) v)) ''node_id'' = dget (as_dict v) ''node_id''"
proof -
  obtain new where v: "v = PDict new" using assms(1) by (cases v) auto
  have "node_sound old" if "map_of (fold index_node olds []) (merge_key new) = Some old" for old
    using index_members [OF that] olds by simp
  then show "node_sound (as_dict (merge_one events (fold index_node olds []) v))"
    using assms(2) by (auto simp: merge_one_def v intro: merged_node_sound split: option.splits)
  show "dget (as_dict (merge_one events (fold index_node olds []) v)) ''node_id'' = dget (as_dict v) ''node_id''"
    by (auto simp: merge_one_def v dget_merged_other preserved_fields_def split: option.splits)
qed

lemma sound_members: "overlay_sound ex \<Longrightarrow> elements ex ''nodes'' = Inr olds \<Longrightarrow> PDict n \<in> set olds \<Longrightarrow> node_sound n"
  by (force simp: overlay_sound_def Let_def list_all_iff members_eq)

lemma edge_closed_ids:
  "(\<lambda>n. dget n ''node_id'') ` set ns = (\<lambda>n. dget n ''node_id'') ` set ns' \<Longrightarrow> edge_closed ns = edge_closed ns'"
proof -
  assume a: "(\<lambda>n. dget n ''node_id'') ` set ns = (\<lambda>n. dget n ''node_id'') ` set ns'"
  have "(\<lambda>n. py_key (dget n ''node_id'')) ` set ms = py_key ` ((\<lambda>n. dget n ''node_id'') ` set ms)" for ms
    by (simp add: image_image)
  with a show ?thesis by (simp add: edge_closed_def fun_eq_iff)
qed

lemma merge_sound:
  assumes m: "merge_preserve_existing_overlay events force existing g = Inr e"
    and g: "overlay_sound g" "stable_template events g"
    and ex: "\<And>ex. existing = Some (PDict ex) \<Longrightarrow> overlay_sound ex"
  shows "overlay_sound e"
proof -
  obtain vs where vs: "dget g ''nodes'' = PList vs" "list_all is_dict vs"
    using g(2) by (auto simp: stable_template_def list_all_iff split: pyval.splits)
  show ?thesis
  proof (cases rule: merge_result [OF m vs(1)])
    case 1
    then show ?thesis using g(1) by simp
  next
    case (2 ex olds)
    let ?ms = "map (merge_one events (fold index_node olds [])) vs"
    note olds = sound_members [OF ex [OF 2(1)] 2(2)]
    have gn: "members g ''nodes'' = map as_dict vs" by (simp add: members_eq [OF elements_PList [OF vs(1)]])
    have en: "members e ''nodes'' = map as_dict ?ms"
      by (rule members_eq, rule elements_PList) (simp add: 2(3) dget_dput)
    have dicts: "is_dict v" "node_sound (as_dict v)" if "v \<in> set vs" for v
      using vs(2) g(1) that by (auto simp: overlay_sound_def Let_def list_all_iff gn)
    have sound: "list_all node_sound (members e ''nodes'')"
      unfolding en using merge_one_sound(1) [OF dicts olds] by (auto simp: list_all_iff)
    have "(\<lambda>n. dget n ''node_id'') ` set (members e ''nodes'') = (\<lambda>n. dget n ''node_id'') ` set (members g ''nodes'')"
      unfolding en gn using merge_one_sound(2) [OF dicts olds] by (force simp: image_iff)
    then have closed: "edge_closed (members e ''nodes'') = edge_closed (members g ''nodes'')"
      by (rule edge_closed_ids)
    have other: "dget e k = dget g k" if "k \<noteq> ''nodes''" for k using that by (simp add: 2(3) dget_dput)
    have keys: "set (map fst e) = set (map fst g)"
      using vs(1) dget_known_has [of g "''nodes''"] by (auto simp: 2(3) dhas_iff)
    have "view_names e = view_names g" by (simp add: view_names_def elements_def other)
    moreover have "members e ''hierarchy_edges'' = members g ''hierarchy_edges''"
      "members e ''causal_edges'' = members g ''causal_edges''"
      by (rule members_unchanged, simp add: other)+
    moreover have "low_coverage e = low_coverage g" "current_mode e = current_mode g"
      by (simp_all add: low_coverage_def current_mode_def other)
    ultimately show ?thesis
      using g(1) sound closed keys by (simp add: overlay_sound_def Let_def other del: set_map)
  qed
qed

text \<open>Every stock overlay on disk is sound.\<close>

fun sound_entry :: "overlay_path \<times> pyval \<Rightarrow> bool" where
  "sound_entry (StockFile i t, v) = (is_dict v \<and> overlay_sound (as_dict v))"
| "sound_entry _ = True"

definition sound_on_disk :: "files \<Rightarrow> bool" where
  "sound_on_disk files \<longleftrightarrow> list_all sound_entry files"

lemma sound_dput: "sound_on_disk F \<Longrightarrow> sound_entry (p, v) \<Longrightarrow> sound_on_disk (dput p v F)"
  unfolding sound_on_disk_def by (induction F) auto

lemma sound_write: "sound_on_disk F \<Longrightarrow> sound_entry (p, v) \<Longrightarrow> sound_on_disk (write_yaml_if_changed p v F)"
  by (simp add: write_yaml_if_changed_def sound_dput)

lemma sound_lookup: "sound_on_disk F \<Longrightarrow> map_of F (StockFile i t) = Some v \<Longrightarrow> is_dict v \<and> overlay_sound (as_dict v)"
  unfolding sound_on_disk_def by (auto simp: list_all_iff dest!: map_of_SomeD)

lemma overlay_sound_nonempty: "overlay_sound d \<Longrightarrow> d \<noteq> []"
  by (auto simp: overlay_sound_def required_top_def)

lemma generate_stock_sound:
  assumes "generate_stock registry events force period ms F = Inr F'" and "sound_on_disk F" and "roles_ok registry"
  shows "sound_on_disk F'"
proof -
  obtain g where g: "build_stock_overlay registry ms period = Inr g"
    and "merge_into events force (stock_path ms) g F = Inr F'"
    using assms(1) by (auto simp: generate_stock_def stock_path_def res_bind_eq_Inr)
  then obtain e where e: "merge_preserve_existing_overlay events force (existing_file F (stock_path ms)) g = Inr e"
    "F' = write_yaml_if_changed (stock_path ms) (PDict e) F" by (auto elim: merge_into_cases)
  have "overlay_sound ex" if old: "existing_file F (stock_path ms) = Some (PDict ex)" for ex
  proof -
    obtain v where v: "map_of F (stock_path ms) = Some v" "py_or v (PDict []) = PDict ex"
      using old by (auto simp: existing_file_def)
    then show ?thesis
      using sound_lookup [OF assms(2), of "ms_industry_id ms" "ms_ts_code ms" v] overlay_sound_nonempty [of "[]"]
      by (cases v) (auto simp: stock_path_def py_or_def split: if_splits)
  qed
  then have "overlay_sound e"
    by (rule merge_sound [OF e(1) built_overlay_sound [OF g assms(3)] stock_template_stable [OF g]])
  then show ?thesis unfolding e(2) by (intro sound_write assms(2)) (simp add: stock_path_def)
qed

lemma merge_into_other_sound:
  "merge_into events force p g F = Inr F' \<Longrightarrow> sound_on_disk F \<Longrightarrow> (\<And>v. sound_entry (p, v)) \<Longrightarrow> sound_on_disk F'"
  by (auto elim!: merge_into_cases intro: sound_write)

lemma generate_industry_sound:
  assumes "generate_industry events force names period v F = Inr F'" and "sound_on_disk F"
  shows "sound_on_disk F'"
proof -
  obtain i name status F1 where F1: "merge_into events force (IndustryFile i) (build_industry_overlay i name period status) F = Inr F1"
    and F': "F' = add_stub (status = ''pending'') (GraphFile i) (PDict (build_space_economy_graph_stub name period)) F1"
    using assms(1)
    by (auto simp: generate_industry_def res_bind_eq_Inr res_map_eq_Inr Let_def add_stub_def split: pyval.splits option.splits)
  have "sound_on_disk F1" by (rule merge_into_other_sound [OF F1 assms(2)]) simp
  then show ?thesis by (simp add: F' add_stub_def sound_write)
qed

lemma run_steps_sound:
  assumes "\<And>s F F'. s \<in> set ss \<Longrightarrow> s F = Inr F' \<Longrightarrow> sound_on_disk F \<Longrightarrow> sound_on_disk F'"
  shows "sound_on_disk F \<Longrightarrow> sound_on_disk (fst (run_steps ss F))"
  using assms
proof (induction ss arbitrary: F)
  case Nil
  then show ?case by simp
next
  case (Cons s ss)
  show ?case
  proof (cases "s F")
    case (Inr F1)
    then have "sound_on_disk F1" using Cons.prems by auto
    with Cons.IH [of F1] Cons.prems(2) Inr show ?thesis by auto
  qed (simp add: Cons.prems(1))
qed

lemma run_steps_written:
  assumes "list_all2 local_step Ps ss" and "run_steps ss F = (F', Inr ())"
    and "s \<in> set ss" and "\<And>G G'. s G = Inr G' \<Longrightarrow> map_of G' p \<noteq> None"
    and mono: "\<And>t G G' q. t \<in> set ss \<Longrightarrow> t G = Inr G' \<Longrightarrow> map_of G q \<noteq> None \<Longrightarrow> map_of G' q \<noteq> None"
  shows "map_of F' p \<noteq> None"
proof -
  have keep: "set ts \<subseteq> set ss \<Longrightarrow> run_steps ts G = (F', Inr ()) \<Longrightarrow> map_of G q \<noteq> None \<Longrightarrow> map_of F' q \<noteq> None" for ts G q
  proof (induction ts arbitrary: G)
    case Nil
    then show ?case by simp
  next
    case (Cons t ts)
    then obtain G1 where "t G = Inr G1" "run_steps ts G1 = (F', Inr ())" by (auto split: sum.splits)
    with Cons mono [of t G G1 q] show ?case by simp
  qed
  have "set ts \<subseteq> set ss \<Longrightarrow> run_steps ts G = (F', Inr ()) \<Longrightarrow> s \<in> set ts \<Longrightarrow> map_of F' p \<noteq> None" for ts G
  proof (induction ts arbitrary: G)
    case Nil
    then show ?case by simp
  next
    case (Cons t ts)
    then obtain G1 where G1: "t G = Inr G1" "run_steps ts G1 = (F', Inr ())" by (auto split: sum.splits)
    show ?case
    proof (cases "s \<in> set ts")
      case True
      with Cons G1 show ?thesis by simp
    next
      case False
      with Cons.prems(3) have "s = t" by simp
      then show ?thesis using keep [OF _ G1(2)] assms(4) [of G G1] G1(1) Cons.prems(1) by simp
    qed
  qed
  with assms(2,3) show ?thesis by blast
qed

lemma merge_into_writes: "merge_into events force path g F = Inr F' \<Longrightarrow> map_of F' path \<noteq> None"
  by (auto elim!: merge_into_cases simp: map_of_write)

lemma merge_into_mono: "merge_into events force path g F = Inr F' \<Longrightarrow> map_of F q \<noteq> None \<Longrightarrow> map_of F' q \<noteq> None"
  by (auto elim!: merge_into_cases simp: map_of_write)

lemma stub_mono: "map_of F q \<noteq> None \<Longrightarrow> map_of (add_stub pending path stub F) q \<noteq> None"
  by (auto simp: add_stub_def map_of_write)

lemma generate_stock_writes:
  "generate_stock registry events force period ms F = Inr F' \<Longrightarrow> map_of F' (stock_path ms) \<noteq> None"
  unfolding generate_stock_def stock_path_def [symmetric] by (auto simp: res_bind_eq_Inr dest: merge_into_writes)

lemma generate_stock_mono:
  "generate_stock registry events force period ms F = Inr F' \<Longrightarrow> map_of F q \<noteq> None \<Longrightarrow> map_of F' q \<noteq> None"
  unfolding generate_stock_def by (auto simp: res_bind_eq_Inr dest: merge_into_mono)

lemma generate_industry_mono:
  assumes "generate_industry events force names period v F = Inr F'" and "map_of F q \<noteq> None"
  shows "map_of F' q \<noteq> None"
proof -
  obtain i name status F1 where F1: "merge_into events force (IndustryFile i) (build_industry_overlay i name period status) F = Inr F1"
    and F': "F' = add_stub (status = ''pending'') (GraphFile i) (PDict (build_space_economy_graph_stub name period)) F1"
    using assms(1)
    by (auto simp: generate_industry_def res_bind_eq_Inr res_map_eq_Inr Let_def add_stub_def split: pyval.splits option.splits)
  show ?thesis unfolding F' by (rule stub_mono [OF merge_into_mono [OF F1 assms(2)]])
qed


section \<open>What is filled stays\<close>

text \<open>Every step sees its own paths as they were before the run, and what it leaves there stays.\<close>

lemma run_steps_value:
  "list_all2 local_step Ps ss \<Longrightarrow> run_steps ss F = (F', Inr ()) \<Longrightarrow>
     (\<forall>i < length Ps. \<forall>j < length Ps. i \<noteq> j \<longrightarrow> Ps ! i \<inter> Ps ! j = {}) \<Longrightarrow> i < length ss \<Longrightarrow>
     \<exists>G G'. (ss ! i) G = Inr G' \<and> (\<forall>p \<in> Ps ! i. map_of G p = map_of F p \<and> map_of F' p = map_of G' p)"
proof (induction Ps ss arbitrary: F i rule: list_all2_induct)
  case Nil
  then show ?case by simp
next
  case (Cons P Ps s ss)
  then obtain F1 where F1: "s F = Inr F1" "run_steps ss F1 = (F', Inr ())" by (auto split: sum.splits)
  have len: "length ss = length Ps" using Cons.hyps(2) by (simp add: list_all2_lengthD)
  have disj: "P \<inter> Ps ! j = {}" if "j < length Ps" for j
    using Cons.prems(2) [rule_format, of 0 "Suc j"] that by simp
  show ?case
  proof (cases i)
    case 0
    have "map_of F' p = map_of F1 p" if "p \<in> P" for p
      by (rule run_steps_others [OF Cons.hyps(2) F1(2)]) (use disj that in \<open>force simp: in_set_conv_nth\<close>)
    then show ?thesis using F1(1) 0 by auto
  next
    case (Suc j)
    have "\<forall>i < length Ps. \<forall>j < length Ps. i \<noteq> j \<longrightarrow> Ps ! i \<inter> Ps ! j = {}"
      using Cons.prems(2) by (metis Suc_less_eq length_Cons nat.inject nth_Cons_Suc)
    moreover have j: "j < length ss" using Cons.prems(3) Suc by simp
    ultimately obtain G G' where G: "(ss ! j) G = Inr G'"
      "\<forall>p \<in> Ps ! j. map_of G p = map_of F1 p \<and> map_of F' p = map_of G' p"
      using Cons.IH [OF F1(2)] by blast
    have "map_of F1 p = map_of F p" if "p \<in> Ps ! j" for p
      by (rule local_step.others [OF Cons.hyps(1) F1(1)]) (use disj [of j] j len that in auto)
    then show ?thesis using G Suc by auto
  qed
qed

text \<open>The node of a payload with a given key; the last one counts.\<close>

definition node_at :: "pydict \<Rightarrow> merge_id \<Rightarrow> pydict option" where
  "node_at payload k = (case elements payload ''nodes'' of
     Inl e \<Rightarrow> None | Inr vs \<Rightarrow> map_of (fold index_node vs []) k)"

text \<open>When a node counts as filled, and what a filled node keeps.\<close>

definition counts_as_filled :: "string list \<Rightarrow> pydict \<Rightarrow> bool" where
  "counts_as_filled events n \<longleftrightarrow>
     (let status = dget n ''data_status''; part = (\<lambda>k. dget (as_dict (dget n ''value'')) k) in
      status \<in> {PStr ''Known'', PStr ''N/A''} \<or>
      (status = PStr ''Optionality'' \<and>
         (has_content (part ''current_contribution'') \<or> has_content (part ''future_option_value''))) \<or>
      (status = PStr ''Inactive'' \<and> id_text n ''dp_id'' \<notin> set events))"

lemma filled_is_preserved: "counts_as_filled events n \<Longrightarrow> should_preserve_node events n"
  by (cases "dget n ''value''") (auto simp: counts_as_filled_def should_preserve_node_def has_content_def Let_def)

definition kept_fields :: "string list" where
  "kept_fields = [''value'', ''confidence'', ''evidence_sources'', ''last_updated'', ''data_source'', ''missing_reason'', ''source_fingerprint_at_fill'', ''last_filled_period'', ''last_event_id'']"

lemma kept_preserved: "set kept_fields \<subseteq> set preserved_fields"
  by code_simp

definition filled_as :: "pydict \<Rightarrow> pydict \<Rightarrow> bool" where
  "filled_as old new \<longleftrightarrow> dget new ''data_status'' = dget old ''data_status'' \<and>
     list_all (\<lambda>f. dhas old f \<longrightarrow> dget new f = dget old f) kept_fields"

lemma merged_filled: "should_preserve_node events old \<Longrightarrow> filled_as old (merge_nodes old new)"
proof -
  assume p: "should_preserve_node events old"
  have "dget (merge_nodes old new) f = dget old f" if "f \<in> set preserved_fields" "dhas old f" for f
  proof -
    have "f \<notin> {''missing_policy'', ''active_weight'', ''data_status'', ''status''}"
      using that(1) preserved_fields_facts by auto
    from dget_merged_other [OF p this] show ?thesis using that by simp
  qed
  then show "filled_as old (merge_nodes old new)"
    using kept_preserved by (auto simp: filled_as_def list_all_iff dget_merged_status [OF p])
qed

lemma merge_keeps_filled:
  assumes m: "merge_preserve_existing_overlay events False (Some (PDict ex)) g = Inr e"
    and g: "stable_template events g" "node_at g k \<noteq> None"
    and old: "node_at ex k = Some old" "should_preserve_node events old"
  shows "case node_at e k of None \<Rightarrow> False | Some new \<Rightarrow> filled_as old new"
proof -
  obtain vs where vs: "dget g ''nodes'' = PList vs" "list_all is_dict vs" "distinct (map (merge_key \<circ> as_dict) vs)"
    using g(1) by (auto simp: stable_template_def list_all_iff split: pyval.splits)
  obtain olds where olds: "elements ex ''nodes'' = Inr olds" "map_of (fold index_node olds []) k = Some old"
    using old(1) by (auto simp: node_at_def split: sum.splits)
  let ?idx = "fold index_node olds []"
  let ?ms = "map (merge_one events ?idx) vs"
  have e: "e = dput ''nodes'' (PList ?ms) g"
    using m olds(1) by (simp add: merge_preserve_existing_overlay_def elements_PList [OF vs(1)])
  obtain n where "map_of (fold index_node vs []) k = Some n"
    using g(2) by (auto simp: node_at_def elements_PList [OF vs(1)])
  then have n: "PDict n \<in> set vs" "merge_key n = k"
    using index_members [of vs "[]" k n] index_keys [of "[]" vs k n] by auto
  have one: "merge_one events ?idx (PDict n) = PDict (merge_nodes old n)"
    using olds(2) n(2) old(2) by (simp add: merge_one_def)
  have "map_of (fold index_node ?ms []) (merge_key (as_dict (PDict (merge_nodes old n)))) = Some (as_dict (PDict (merge_nodes old n)))"
  proof (rule index_lookup)
    have "map (merge_key \<circ> as_dict) ?ms = map (merge_key \<circ> as_dict) vs" by (simp add: merge_one_key)
    then show "distinct (map (merge_key \<circ> as_dict) ?ms)" using vs(3) by (simp only:)
    show "list_all is_dict ?ms" using vs(2) by (auto simp: list_all_iff merge_one_dict)
    show "PDict (merge_nodes old n) \<in> set ?ms" unfolding one [symmetric] using n(1) by simp
  qed
  then have "map_of (fold index_node ?ms []) k = Some (merge_nodes old n)"
    using merge_key_merged [OF old(2), of n] n(2) by simp
  moreover have "elements e ''nodes'' = Inr ?ms" unfolding e by (rule elements_PList) (simp add: dget_dput)
  ultimately show ?thesis using merged_filled [OF old(2)] by (simp add: node_at_def)
qed

text \<open>Everything but the nodes is the template's; the coverage of the file too.\<close>

lemma merge_keeps_template_fields:
  "merge_preserve_existing_overlay events force existing g = Inr e \<Longrightarrow> k \<noteq> ''nodes'' \<Longrightarrow> dget e k = dget g k"
  by (auto simp: merge_preserve_existing_overlay_def res_bind_eq_Inr res_map_eq_Inr dget_dput split: option.splits)

text \<open>C33: Regeneration keeps what was filled: when the generator returns without the force flag, a node
  on disk that is known, not applicable, an option with content, or inactive and not event-driven, and
  whose slot the template of its company still has, is found in the new file of the company with the
  same status, value, confidence, evidence, sources and stamps.\<close>

theorem regeneration_keeps_what_is_filled:
  assumes run: "generate_overlay_files registry events False universe industries period files = (files', Inr counts)"
    and own: "own_files universe industries"
    and m: "expand_memberships universe industries = Inr ms" "m \<in> set ms"
    and disk: "map_of files (stock_path m) = Some (PDict ex)"
    and old: "node_at ex k = Some old" "counts_as_filled events old"
    and slot: "k \<in> set (map merge_key (stock_nodes registry m))"
  shows "case map_of files' (stock_path m) of
           Some (PDict e) \<Rightarrow> (case node_at e k of None \<Rightarrow> False | Some new \<Rightarrow> filled_as old new)
         | _ \<Rightarrow> False"
proof -
  obtain steps i n where g: "generation_steps registry events False universe industries period = Inr (steps, i, n)"
    and r: "run_steps steps files = (files', Inr ())"
    using run by (auto simp: generate_overlay_files_def split: sum.splits prod.splits)
  obtain names inds where p: "load_industries industries = Inr inds"
    and steps: "steps = map (generate_industry events False names period) inds @
                map (generate_stock registry events False period) ms"
    using g m(1) by (auto simp: generation_steps_def res_bind_eq_Inr res_map_eq_Inr)
  have d: "distinct (map industry_path_id inds)" "distinct (map stock_path ms)"
    using own p m(1) by (simp_all add: own_files_def)
  obtain j where j: "j < length ms" "ms ! j = m" using m(2) by (auto simp: in_set_conv_nth)
  let ?j = "length inds + j" and ?Ps = "map industry_paths inds @ map (\<lambda>m. {stock_path m}) ms"
  have nth: "steps ! ?j = generate_stock registry events False period m" "?Ps ! ?j = {stock_path m}" "?j < length steps"
    using j by (simp_all add: steps nth_append)
  obtain G G' where G: "generate_stock registry events False period m G = Inr G'"
    "map_of G (stock_path m) = map_of files (stock_path m)" "map_of files' (stock_path m) = map_of G' (stock_path m)"
    using run_steps_value [OF generation_local r [unfolded steps] disjoint_paths [OF d], folded steps, OF nth(3)]
    unfolding nth(1,2) by auto
  obtain t where t: "build_stock_overlay registry m period = Inr t" "merge_into events False (stock_path m) t G = Inr G'"
    using G(1) by (auto simp: generate_stock_def stock_path_def res_bind_eq_Inr)
  obtain e where e: "merge_preserve_existing_overlay events False (existing_file G (stock_path m)) t = Inr e"
    "map_of G' (stock_path m) = Some (PDict e)"
    using t(2) by (auto simp: map_of_write elim!: merge_into_cases)
  have nodes: "elements t ''nodes'' = Inr (map PDict (stock_nodes registry m))"
    using built_stock_overlay [OF t(1)] by (auto intro: elements_PList)
  have "node_at t k \<noteq> None"
  proof -
    obtain s where s: "s \<in> set (stock_nodes registry m)" "k = merge_key s" using slot by auto
    have "map_of (fold index_node (map PDict (stock_nodes registry m)) []) (merge_key (as_dict (PDict s))) = Some (as_dict (PDict s))"
      by (rule index_lookup) (use s stock_keys_distinct [of registry m] in \<open>simp_all add: comp_def list_all_iff\<close>)
    then show ?thesis using s(2) by (simp add: node_at_def nodes)
  qed
  moreover have "ex \<noteq> []" using old(1) by (auto simp: node_at_def elements_def py_or_def)
  then have "existing_file G (stock_path m) = Some (PDict ex)" by (simp add: existing_file_def G(2) disk py_or_def)
  ultimately have "case node_at e k of None \<Rightarrow> False | Some new \<Rightarrow> filled_as old new"
    using merge_keeps_filled [of events ex t e k old] e(1) stock_template_stable [OF t(1)] old(1) filled_is_preserved [OF old(2)] by simp
  then show ?thesis by (simp add: G(3) e(2))
qed

section \<open>Examples\<close>

lemma count_node_returns: "dget n ''materiality'' = PFloat x \<Longrightarrow> \<exists>w'. count_node n w = Inr w'"
  by (simp add: count_node_def py_or_def res_map_def res_bind_def)

lemma coverage_returns:
  "(\<And>n. n \<in> set ns \<Longrightarrow> \<exists>x. dget n ''materiality'' = PFloat x) \<Longrightarrow> \<exists>cov. coverage_for_nodes ns = Inr cov"
proof -
  assume a: "\<And>n. n \<in> set ns \<Longrightarrow> \<exists>x. dget n ''materiality'' = PFloat x"
  have "\<exists>w'. res_fold count_node ns w = Inr w'" for w
    using a
  proof (induction ns arbitrary: w)
    case Nil
    then show ?case by simp
  next
    case (Cons n ns)
    obtain x where "dget n ''materiality'' = PFloat x" using Cons.prems by auto
    then obtain w1 where "count_node n w = Inr w1" using count_node_returns by blast
    then show ?case using Cons by simp
  qed
  then show ?thesis by (metis coverage_for_nodes_def res_map_simps(1))
qed

lemma build_returns: "\<exists>g. build_stock_overlay registry ms period = Inr g"
proof -
  have "dget (node_from_slot registry ts s inh) ''materiality'' = PFloat (sl_materiality s)"
    if "s \<in> set all_derived_slots" for ts s inh
    by (subst dget_node_from_slot [OF all_slots_ok [OF that]]) (simp_all add: governance_fields_def)
  then have "\<exists>x. dget n ''materiality'' = PFloat x" if "n \<in> set (stock_nodes registry ms)" for n
    using that by (auto simp: stock_nodes_def)
  then obtain cov where "coverage_for_nodes (stock_nodes registry ms) = Inr cov" using coverage_returns by metis
  then show ?thesis by (simp add: build_stock_overlay_def Let_def)
qed

lemma merge_returns:
  assumes "stable_template events g"
    and "\<And>v. existing = Some v \<Longrightarrow> \<exists>ex olds. v = PDict ex \<and> dget ex ''nodes'' = PList olds"
  shows "\<exists>e. merge_preserve_existing_overlay events force existing g = Inr e"
proof -
  obtain vs where vs: "dget g ''nodes'' = PList vs" using assms(1) by (auto simp: stable_template_def split: pyval.splits)
  show ?thesis
  proof (cases existing)
    case (Some v)
    then obtain ex olds where "v = PDict ex" "dget ex ''nodes'' = PList olds" using assms(2) by blast
    then show ?thesis
      by (auto simp: merge_preserve_existing_overlay_def Some elements_PList [OF vs] elements_PList)
  qed (simp add: merge_preserve_existing_overlay_def)
qed

text \<open>One industry, one company, and a file in which one node of the company is known.\<close>

definition ex_universe :: pyval where
  "ex_universe = PDict [(''constituents'', PList
     [PDict [(''ts_code'', PStr ''600000.SH''), (''industry_ids'', PList [PStr ''BANK''])]])]"

definition ex_industries :: pyval where
  "ex_industries = PDict [(''industries'', PList [PDict [(''id'', PStr ''BANK'')]])]"

definition ex_membership :: membership where
  "ex_membership = \<lparr>ms_ts_code = ''600000.SH'', ms_name = ''600000.SH'', ms_industry_id = ''BANK'',
     ms_primary_industry = True, ms_all_industries = [''BANK''], ms_role = ''target'', ms_pool = ''regular''\<rparr>"

definition ex_node :: pydict where
  "ex_node = [(''node_id'', PStr ''600000.SH:company''), (''dp_id'', PStr ''company''),
     (''data_status'', PStr ''Known''), (''value'', PStr ''filled'')]"

definition ex_payload :: pydict where
  "ex_payload = [(''nodes'', PList [PDict ex_node])]"

definition ex_files :: files where
  "ex_files = [(StockFile ''BANK'' ''600000.SH'', PDict ex_payload)]"

lemma ex_memberships: "expand_memberships ex_universe ex_industries = Inr [ex_membership]"
  by (simp add: expand_memberships_def ex_universe_def ex_industries_def ex_membership_def loaded_def py_or_def
      active_industry_ids_def load_industries_def active_id_def dget_default_def ditem_def memberships_of_def membership_of_def)

lemma ex_membership_ids: "ms_industry_id ex_membership = ''BANK''" "ms_ts_code ex_membership = ''600000.SH''"
  by (simp_all add: ex_membership_def)

lemma ex_inputs:
  "load_industries ex_industries = Inr [PDict [(''id'', PStr ''BANK'')]]"
  "industry_display_names ex_industries = Inr [(''BANK'', ''BANK'')]"
  by (simp_all add: industry_display_names_def load_industries_def ex_industries_def loaded_def py_or_def display_name_of_def ditem_def)

lemma ex_own_files: "own_files ex_universe ex_industries"
  by (simp add: own_files_def ex_inputs ex_memberships)

lemma ex_run:
  assumes "files = [] \<or> files = ex_files"
  obtains files' where "generate_overlay_files None [] False ex_universe ex_industries period files = (files', Inr (1, 1, 1))"
proof -
  let ?g = "build_industry_overlay ''BANK'' ''BANK'' period ''present''"
  have first: "existing_file files (IndustryFile ''BANK'') = None"
    using assms by (auto simp: existing_file_def ex_files_def)
  let ?F1 = "write_yaml_if_changed (IndustryFile ''BANK'') (PDict ?g) files"
  have "merge_into [] False (IndustryFile ''BANK'') ?g files = Inr ?F1"
    by (simp add: merge_into_def first merge_preserve_existing_overlay_def)
  then have 1: "generate_industry [] False [(''BANK'', ''BANK'')] period (PDict [(''id'', PStr ''BANK'')]) files = Inr ?F1"
    by (simp add: generate_industry_def ditem_def py_or_def Let_def)
  obtain g where g: "build_stock_overlay None ex_membership period = Inr g" using build_returns by blast
  have "\<exists>ex olds. v = PDict ex \<and> dget ex ''nodes'' = PList olds" if "existing_file ?F1 (StockFile ''BANK'' ''600000.SH'') = Some v" for v
    using that assms by (auto simp: existing_file_def map_of_write ex_files_def ex_payload_def py_or_def)
  then obtain e where "merge_preserve_existing_overlay [] False (existing_file ?F1 (StockFile ''BANK'' ''600000.SH'')) g = Inr e"
    using merge_returns [OF stock_template_stable [OF g]] by metis
  then obtain F2 where 2: "generate_stock None [] False period ex_membership ?F1 = Inr F2"
    by (auto simp: generate_stock_def g merge_into_def ex_membership_ids)
  have steps: "generation_steps None [] False ex_universe ex_industries period =
      Inr ([generate_industry [] False [(''BANK'', ''BANK'')] period (PDict [(''id'', PStr ''BANK'')]),
            generate_stock None [] False period ex_membership], 1, 1)"
    by (simp add: generation_steps_def ex_inputs ex_memberships)
  have "\<exists>c. res_bind (loaded ex_universe) (\<lambda>u. elements u ''constituents'') = Inr [c]"
    by (simp add: ex_universe_def loaded_def py_or_def elements_def)
  then show ?thesis using that [of F2] 1 2 by (auto simp: generate_overlay_files_def steps)
qed

theorem regeneration_is_idempotent_witness:
  "\<exists>files'. generate_overlay_files None [] False ex_universe ex_industries ''2026-Q1'' ex_files = (files', Inr (1, 1, 1)) \<and>
     generate_overlay_files None [] False ex_universe ex_industries ''2026-Q1'' files' = (files', Inr (1, 1, 1))"
proof -
  obtain F where F: "generate_overlay_files None [] False ex_universe ex_industries ''2026-Q1'' ex_files = (F, Inr (1, 1, 1))"
    using ex_run by blast
  show ?thesis using F regeneration_is_idempotent [OF F ex_own_files] by blast
qed


theorem regeneration_keeps_what_is_filled_witness:
  "\<exists>files' e new. generate_overlay_files None [] False ex_universe ex_industries ''2026-Q1'' ex_files = (files', Inr (1, 1, 1)) \<and>
     map_of files' (StockFile ''BANK'' ''600000.SH'') = Some (PDict e) \<and>
     node_at e (''600000.SH:company'', ''company'') = Some new \<and> dget new ''value'' = PStr ''filled''"
proof -
  obtain F where F: "generate_overlay_files None [] False ex_universe ex_industries ''2026-Q1'' ex_files = (F, Inr (1, 1, 1))"
    using ex_run by blast
  have "merge_key ex_node = (''600000.SH:company'', ''company'')"
    by (simp add: merge_key_def id_text_PStr ex_node_def)
  then have old: "node_at ex_payload (''600000.SH:company'', ''company'') = Some ex_node"
    by (simp add: node_at_def ex_payload_def elements_def py_or_def index_node_def)
  have p: "counts_as_filled [] ex_node" by (simp add: counts_as_filled_def ex_node_def)
  have "merge_key (company_root_node ''600000.SH'' ''600000.SH'' ''BANK'') = (''600000.SH:company'', ''company'')"
    by (simp add: merge_key_def id_text_PStr node_key_of_def)
  then have slot: "(''600000.SH:company'', ''company'') \<in> set (map merge_key (stock_nodes None ex_membership))"
    by (simp add: stock_nodes_def ex_membership_def)
  have disk: "map_of ex_files (stock_path ex_membership) = Some (PDict ex_payload)"
    by (simp add: ex_files_def stock_path_def ex_membership_def)
  have "ex_membership \<in> set [ex_membership]" by simp
  from regeneration_keeps_what_is_filled [OF F ex_own_files ex_memberships this disk old p slot]
  obtain e new where "map_of F (stock_path ex_membership) = Some (PDict e)"
    "node_at e (''600000.SH:company'', ''company'') = Some new" "filled_as ex_node new"
    by (auto split: option.splits pyval.splits)
  moreover from this(3) have "dget new ''value'' = PStr ''filled''"
    by (simp add: filled_as_def kept_fields_def ex_node_def)
  ultimately show ?thesis using F by (auto simp: stock_path_def ex_membership_def)
qed
end
