(* ===== verification/Compile.thy ===== *)
theory Compile
  imports Regenerate Storage
begin

text \<open>
  The compilation of the overlay files into the hot snapshot database (\<open>validate_overlay_set\<close>,
  \<open>_alerts_for_overlay\<close> and \<open>compile_overlays_to_sqlite\<close> of \<open>mvp20/overlays.py\<close>). The files are a table
  from paths to payloads; \<open>None\<close> is a file that is no YAML. \<open>json.dumps\<close>, the clock and the text of
  a path are arguments. A row is bound to the columns of its table when it is inserted: a list or a
  dictionary cannot be bound, and null not into a column that is NOT NULL.
\<close>

text \<open>What the compilation takes from its surroundings: the governance registry, \<open>json.dumps\<close>, the
  text of a path, the clock, and the number that a text in a REAL column stands for.\<close>

record compile_env =
  ce_registry :: "gov_registry option"
  ce_dumps :: "pyval \<Rightarrow> string res"
  ce_path :: "membership \<Rightarrow> string"
  ce_now :: int
  ce_real :: "string \<Rightarrow> real"

section \<open>Validating the set\<close>

type_synonym overlay_disk = "(overlay_path \<times> pyval option) list"

datatype set_error =
    MissingStockFile string string
  | UnreadableStockFile string string
  | InStockOverlay string string overlay_error
  | MissingIndustryFile string

record set_result =
  sr_ok :: bool
  sr_stock_count :: nat
  sr_industry_count :: nat
  sr_membership_count :: nat
  sr_errors :: "set_error list"
  sr_warnings :: "overlay_warning list"

type_synonym set_walk = "nat \<times> set_error list \<times> overlay_warning list"

definition validate_member ::
  "gov_registry option \<Rightarrow> overlay_disk \<Rightarrow> membership \<Rightarrow> set_walk \<Rightarrow> set_walk res" where
  "validate_member registry disk ms w = (case w of (count, errors, warnings) \<Rightarrow>
     let i = ms_industry_id ms; t = ms_ts_code ms in
     case map_of disk (stock_path ms) of
       None \<Rightarrow> Inr (count, errors @ [MissingStockFile i t], warnings)
     | Some None \<Rightarrow> Inr (count + 1, errors @ [UnreadableStockFile i t], warnings)
     | Some (Some payload) \<Rightarrow>
         res_bind (loaded payload) (\<lambda>p.
         res_map (\<lambda>(es, ws). (count + 1, errors @ map (InStockOverlay i t) es, warnings @ ws))
           (validate_stock_overlay registry p)))"

definition validate_industry_file ::
  "overlay_disk \<Rightarrow> pyval \<Rightarrow> nat \<times> set_error list \<Rightarrow> (nat \<times> set_error list) res" where
  "validate_industry_file disk industry w = (case w of (count, errors) \<Rightarrow>
     case industry of
       PDict d \<Rightarrow>
         res_map (\<lambda>v. if map_of disk (IndustryFile (py_str v)) = None
                      then (count, errors @ [MissingIndustryFile (py_str v)])
                      else (count + 1, errors))
           (ditem d ''id'')
     | _ \<Rightarrow> Inl TypeError)"

definition validate_overlay_set ::
  "gov_registry option \<Rightarrow> overlay_disk \<Rightarrow> pyval \<Rightarrow> pyval \<Rightarrow> set_result res" where
  "validate_overlay_set registry disk universe industries =
     res_bind (expand_memberships universe industries) (\<lambda>ms.
     res_bind (res_fold (validate_member registry disk) ms (0, [], [])) (\<lambda>(stocks, errors, warnings).
     res_bind (load_industries industries) (\<lambda>is.
     res_map (\<lambda>(inds, errors).
       \<lparr>sr_ok = (errors = []), sr_stock_count = stocks, sr_industry_count = inds,
        sr_membership_count = length ms, sr_errors = errors, sr_warnings = warnings\<rparr>)
       (res_fold (validate_industry_file disk) is (0, errors)))))"

section \<open>Rows\<close>

text \<open>Binding a value to a TEXT column, to one that is NOT NULL, and to a REAL column.\<close>

fun bind_text :: "pyval \<Rightarrow> string option res" where
  "bind_text PNone = Inr None"
| "bind_text (PBool b) = Inr (Some (if b then ''1'' else ''0''))"
| "bind_text (PInt i) = Inr (Some (int_str i))"
| "bind_text (PFloat x) = Inr (Some (repr_other (PFloat x)))"
| "bind_text (PStr s) = Inr (Some s)"
| "bind_text v = Inl ProgrammingError"

definition bind_required :: "pyval \<Rightarrow> string res" where
  "bind_required v = res_bind (bind_text v) (\<lambda>t. case t of None \<Rightarrow> Inl IntegrityError | Some s \<Rightarrow> Inr s)"

fun bind_real :: "(string \<Rightarrow> real) \<Rightarrow> pyval \<Rightarrow> real option res" where
  "bind_real number PNone = Inr None"
| "bind_real number (PBool b) = Inr (Some (if b then 1 else 0))"
| "bind_real number (PInt i) = Inr (Some (of_int i))"
| "bind_real number (PFloat x) = Inr (Some x)"
| "bind_real number (PStr s) = Inr (Some (number s))"
| "bind_real number v = Inl ProgrammingError"

definition manifest_row_of :: "compile_env \<Rightarrow> membership \<Rightarrow> pydict \<Rightarrow> manifest_row res" where
  "manifest_row_of env ms payload =
     res_map (\<lambda>period.
       \<lparr>mf_ts_code = ms_ts_code ms, mf_industry_id = ms_industry_id ms, mf_overlay_path = ce_path env ms,
        mf_period = period, mf_primary = (if ms_primary_industry ms then 1 else 0),
        mf_status = ''compiled'', mf_updated_at = ce_now env\<rparr>)
     (bind_text (dget payload ''period''))"

definition node_row_of :: "compile_env \<Rightarrow> membership \<Rightarrow> pydict \<Rightarrow> string \<Rightarrow> node_row res" where
  "node_row_of env ms n json =
     res_bind (bind_text (dget n ''dp_id'')) (\<lambda>dp.
     res_bind (bind_text (dget n ''data_status'')) (\<lambda>status.
     res_bind (bind_text (dget n ''required_level'')) (\<lambda>level.
     res_bind (bind_text (dget n ''missing_policy'')) (\<lambda>policy.
     res_bind (bind_text (dget n ''calculation_type'')) (\<lambda>calc.
     res_bind (bind_text (dget n ''aggregation_policy'')) (\<lambda>agg.
     res_bind (bind_real (ce_real env) (dget n ''materiality'')) (\<lambda>mat.
     res_bind (bind_real (ce_real env) (dget n ''confidence'')) (\<lambda>conf.
     res_map (\<lambda>node_id.
       \<lparr>nw_ts_code = ms_ts_code ms, nw_industry_id = ms_industry_id ms, nw_node_id = node_id, nw_dp_id = dp,
        nw_payload_json = json, nw_data_status = status, nw_required_level = level, nw_missing_policy = policy,
        nw_calculation_type = calc, nw_aggregation_policy = agg, nw_materiality = mat, nw_confidence = conf,
        nw_source_path = Some (ce_path env ms)\<rparr>)
     (bind_required (dget n ''node_id''))))))))))"

definition edge_row_of :: "membership \<Rightarrow> string \<Rightarrow> pydict \<Rightarrow> string \<Rightarrow> edge_row res" where
  "edge_row_of ms kind e json =
     res_bind (bind_text (dget e ''from_node'')) (\<lambda>src.
     res_bind (bind_text (dget e ''to_node'')) (\<lambda>dst.
     res_bind (bind_text (dget e ''edge_type'')) (\<lambda>etype.
     res_map (\<lambda>edge_id.
       \<lparr>ew_ts_code = ms_ts_code ms, ew_industry_id = ms_industry_id ms, ew_edge_id = edge_id, ew_edge_kind = kind,
        ew_from = src, ew_to = dst, ew_type = etype, ew_payload_json = json\<rparr>)
     (bind_required (dget e ''edge_id'')))))"

definition snapshot_row_of :: "compile_env \<Rightarrow> membership \<Rightarrow> pydict \<Rightarrow> string \<Rightarrow> snapshot_row res" where
  "snapshot_row_of env ms payload json =
     res_bind (bind_text (dget payload ''template_version'')) (\<lambda>graph.
     res_map (\<lambda>data.
       \<lparr>sw_ts_code = ms_ts_code ms, sw_industry_id = ms_industry_id ms, sw_payload_json = json,
        sw_graph_version = graph, sw_data_version = data, sw_updated_at = ce_now env\<rparr>)
     (bind_text (dget payload ''period'')))"

section \<open>Alerts\<close>

definition warning_text :: "string \<Rightarrow> overlay_warning \<Rightarrow> string" where
  "warning_text path w = (case w of
     ConditionalUnknown l \<Rightarrow> path @ '':'' @ py_str l @ '': conditional_required node is Unknown''
   | InactiveWeight l \<Rightarrow> path @ '':'' @ py_str l @ '': Inactive node should have active_weight near 0''
   | GovernanceMissing k \<Rightarrow> path @ '': '' @ nat_str k @
       '' node(s) missing field governance fields; registry can supplement them''
   | GovernanceUnknown k \<Rightarrow> path @ '': '' @ nat_str k @ '' node(s) have no data_point_roles entry'')"

definition alert_dict :: "int \<Rightarrow> string \<Rightarrow> string \<Rightarrow> string \<Rightarrow> pyval \<Rightarrow> string \<Rightarrow> string \<Rightarrow> pyval \<Rightarrow> pydict" where
  "alert_dict now ts industry sfx dp severity code message =
     [(''alert_id'', PStr (ts @ '':'' @ industry @ '':'' @ sfx)),
      (''ts_code'', PStr ts),
      (''industry_id'', PStr industry),
      (''dp_id'', dp),
      (''severity'', PStr severity),
      (''code'', PStr code),
      (''message'', message),
      (''created_at'', PInt now),
      (''resolved_at'', PNone)]"

definition alert_level :: "pydict \<Rightarrow> (string \<times> string) option" where
  "alert_level n =
     (if dget n ''data_status'' = PStr ''Unknown'' \<and> dget n ''required_level'' = PStr ''required''
      then Some (''ERROR'', ''UNKNOWN_REQUIRED'')
      else if dget n ''data_status'' = PStr ''Unknown'' \<and> dget n ''required_level'' = PStr ''conditional_required''
      then Some (''WARN'', ''UNKNOWN_CONDITIONAL_REQUIRED'')
      else None)"

definition node_alert :: "int \<Rightarrow> string \<Rightarrow> string \<Rightarrow> pydict \<Rightarrow> pydict list" where
  "node_alert now ts industry n = (case alert_level n of
     None \<Rightarrow> []
   | Some (severity, code) \<Rightarrow>
       [alert_dict now ts industry (py_str (dget n ''dp_id'') @ '':'' @ code) (dget n ''dp_id'') severity code
          (py_or (dget n ''missing_reason'') (PStr ''node data missing''))])"

definition warning_alert :: "int \<Rightarrow> string \<Rightarrow> string \<Rightarrow> nat \<times> string \<Rightarrow> pydict list" where
  "warning_alert now ts industry entry = (case entry of (idx, warning) \<Rightarrow>
     if py_in_str ''conditional_required node is Unknown'' warning then []
     else [alert_dict now ts industry (''validation:'' @ nat_str idx) PNone ''WARN'' ''VALIDATION_WARNING'' (PStr warning)])"

definition alerts_for_overlay :: "pydict \<Rightarrow> string list \<Rightarrow> int \<Rightarrow> pydict list res" where
  "alerts_for_overlay payload warnings now =
     (let ts = py_str (dget payload ''ts_code''); industry = py_str (dget payload ''industry_id'') in
      res_bind (elements payload ''nodes'') (\<lambda>ns.
      res_map (\<lambda>alerts. concat alerts @ concat (map (warning_alert now ts industry) (enumerate 0 warnings)))
        (res_list (\<lambda>v. res_map (node_alert now ts industry) (as_mapping v)) ns)))"

definition alert_row_of :: "compile_env \<Rightarrow> pydict \<Rightarrow> alert_row res" where
  "alert_row_of env a =
     res_bind (bind_text (dget a ''dp_id'')) (\<lambda>dp.
     res_bind (bind_required (dget a ''message'')) (\<lambda>message.
       Inr \<lparr>aw_alert_id = py_str (dget a ''alert_id''), aw_ts_code = py_str (dget a ''ts_code''),
            aw_industry_id = py_str (dget a ''industry_id''), aw_dp_id = dp, aw_severity = py_str (dget a ''severity''),
            aw_code = py_str (dget a ''code''), aw_message = message, aw_created_at = ce_now env, aw_resolved_at = None\<rparr>))"

section \<open>Compilation\<close>

text \<open>The rows collected so far; a row whose values cannot be bound fails when it is inserted.\<close>

record compiled =
  cl_errors :: "set_error list"
  cl_manifests :: "manifest_row res list"
  cl_nodes :: "node_row res list"
  cl_edges :: "edge_row res list"
  cl_snapshots :: "snapshot_row res list"
  cl_alerts :: "alert_row res list"

definition nothing_compiled :: compiled where
  "nothing_compiled = \<lparr>cl_errors = [], cl_manifests = [], cl_nodes = [], cl_edges = [], cl_snapshots = [], cl_alerts = []\<rparr>"

definition apply_field_governance :: "gov_registry option \<Rightarrow> pydict \<Rightarrow> pydict res" where
  "apply_field_governance registry payload = (case registry of
     None \<Rightarrow> Inr payload | Some reg \<Rightarrow> apply_to_overlay reg False payload)"

text \<open>A file that is gone or unreadable at this point would raise too; the validation has just read it.\<close>

definition load_overlay :: "overlay_disk \<Rightarrow> membership \<Rightarrow> pydict res" where
  "load_overlay disk ms = (case map_of disk (stock_path ms) of
     Some (Some v) \<Rightarrow> loaded v | _ \<Rightarrow> Inl RuntimeError)"

definition compile_node :: "compile_env \<Rightarrow> membership \<Rightarrow> pyval \<Rightarrow> node_row res res" where
  "compile_node env ms v =
     res_bind (as_mapping v) (\<lambda>n.
     res_bind (ditem n ''node_id'') (\<lambda>_.
     res_map (node_row_of env ms n) (ce_dumps env v)))"

definition compile_edge :: "compile_env \<Rightarrow> membership \<Rightarrow> string \<Rightarrow> pyval \<Rightarrow> edge_row res res" where
  "compile_edge env ms kind v =
     res_bind (as_mapping v) (\<lambda>e.
     res_bind (ditem e ''edge_id'') (\<lambda>_.
     res_map (edge_row_of ms kind e) (ce_dumps env v)))"

definition industries_by_ts :: "membership list \<Rightarrow> (string \<times> string list) list" where
  "industries_by_ts ms = fold (\<lambda>m d. dput (ms_ts_code m) (dlist d (ms_ts_code m) @ [ms_industry_id m]) d) ms []"

definition snapshot_dict :: "compile_env \<Rightarrow> membership list \<Rightarrow> membership \<Rightarrow> pydict \<Rightarrow> pydict list \<Rightarrow> pydict" where
  "snapshot_dict env all ms payload alerts =
     [(''ts_code'', PStr (ms_ts_code ms)),
      (''industry_id'', PStr (ms_industry_id ms)),
      (''available_industries'', PList (map PStr (case map_of (industries_by_ts all) (ms_ts_code ms) of
          None \<Rightarrow> [ms_industry_id ms] | Some ids \<Rightarrow> ids))),
      (''compiled_graph'', PDict
         [(''nodes'', py_or (dget payload ''nodes'') (PList [])),
          (''hierarchy_edges'', py_or (dget payload ''hierarchy_edges'') (PList [])),
          (''causal_edges'', py_or (dget payload ''causal_edges'') (PList [])),
          (''views'', py_or (dget payload ''views'') (PDict []))]),
      (''scores'', py_or (dget payload ''scores'') (PDict [])),
      (''coverage'', py_or (dget payload ''coverage'') (PDict [])),
      (''alerts'', PList (map PDict alerts)),
      (''static_overlay'', PDict payload),
      (''compiled_at'', PInt (ce_now env))]"

definition compile_payload ::
  "compile_env \<Rightarrow> membership list \<Rightarrow> membership \<Rightarrow> pydict \<Rightarrow> overlay_warning list \<Rightarrow> compiled \<Rightarrow> compiled res" where
  "compile_payload env all ms p warnings st =
     res_bind (alerts_for_overlay p (map (warning_text (ce_path env ms)) warnings) (ce_now env)) (\<lambda>alerts.
     res_bind (elements p ''nodes'') (\<lambda>ns.
     res_bind (res_list (compile_node env ms) ns) (\<lambda>nodes.
     res_bind (elements p ''hierarchy_edges'') (\<lambda>hs.
     res_bind (res_list (compile_edge env ms ''hierarchy'') hs) (\<lambda>hier.
     res_bind (elements p ''causal_edges'') (\<lambda>cs.
     res_bind (res_list (compile_edge env ms ''causal'') cs) (\<lambda>causal.
     res_map (\<lambda>json.
       st\<lparr>cl_manifests := cl_manifests st @ [manifest_row_of env ms p],
          cl_nodes := cl_nodes st @ nodes,
          cl_edges := cl_edges st @ hier @ causal,
          cl_snapshots := cl_snapshots st @ [snapshot_row_of env ms p json],
          cl_alerts := cl_alerts st @ map (alert_row_of env) alerts\<rparr>)
       (ce_dumps env (PDict (snapshot_dict env all ms p alerts))))))))))"

definition compile_member ::
  "compile_env \<Rightarrow> overlay_disk \<Rightarrow> membership list \<Rightarrow> membership \<Rightarrow> compiled \<Rightarrow> compiled res" where
  "compile_member env disk all ms st =
     res_bind (load_overlay disk ms) (\<lambda>raw.
     res_bind (apply_field_governance (ce_registry env) raw) (\<lambda>p.
     res_bind (validate_stock_overlay (ce_registry env) p) (\<lambda>(errors, warnings).
       if errors \<noteq> []
       then Inr (st\<lparr>cl_errors := cl_errors st @ map (InStockOverlay (ms_industry_id ms) (ms_ts_code ms)) errors\<rparr>)
       else compile_payload env all ms p warnings st)))"

text \<open>The bound inserts of \<open>replace_compiled_overlays\<close>.\<close>

definition insert_bound :: "('r \<Rightarrow> 'k) \<Rightarrow> 'r res list \<Rightarrow> ('k \<times> 'r) list res" where
  "insert_bound key rows = res_fold (\<lambda>r t. res_bind r (\<lambda>x. insert_row key x t)) rows []"

definition fill_bound :: "database \<Rightarrow> compiled \<Rightarrow> database res" where
  "fill_bound db st =
     res_bind (insert_bound manifest_key (cl_manifests st)) (\<lambda>mt.
     res_bind (insert_bound node_key (cl_nodes st)) (\<lambda>nt.
     res_bind (insert_bound edge_key (cl_edges st)) (\<lambda>et.
     res_bind (insert_bound snapshot_key (cl_snapshots st)) (\<lambda>st'.
     res_map (\<lambda>alt.
       db\<lparr>db_manifest := Some mt, db_nodes := Some nt, db_edges := Some et,
          db_snapshots := Some st', db_alerts := Some alt\<rparr>)
       (insert_bound aw_alert_id (cl_alerts st))))))"

definition compile_overlays_to_sqlite ::
  "compile_env \<Rightarrow> overlay_disk \<Rightarrow> pyval \<Rightarrow> pyval \<Rightarrow> database option \<Rightarrow> database option \<times> set_result res" where
  "compile_overlays_to_sqlite env disk universe industries db =
     (case validate_overlay_set (ce_registry env) disk universe industries of
        Inl e \<Rightarrow> (db, Inl e)
      | Inr v \<Rightarrow>
          if \<not> sr_ok v then (db, Inr v)
          else
            (case res_bind (expand_memberships universe industries) (\<lambda>ms.
                    res_fold (compile_member env disk ms) ms nothing_compiled) of
               Inl e \<Rightarrow> (db, Inl e)
             | Inr st \<Rightarrow>
                 if sr_errors v @ cl_errors st \<noteq> []
                 then (db, Inr (v\<lparr>sr_errors := sr_errors v @ cl_errors st, sr_ok := False\<rparr>))
                 else
                   (case fill_bound (init_db db) st of
                      Inl e \<Rightarrow> (Some (init_db db), Inl e)
                    | Inr db' \<Rightarrow> (Some db', Inr v))))"

section \<open>What is stored\<close>

text \<open>The overlay of a membership as the compiler sees it, and its alerts.\<close>

definition governed_overlay :: "compile_env \<Rightarrow> overlay_disk \<Rightarrow> membership \<Rightarrow> pydict" where
  "governed_overlay env disk m =
     (case res_bind (load_overlay disk m) (apply_field_governance (ce_registry env)) of Inl e \<Rightarrow> [] | Inr p \<Rightarrow> p)"

definition overlay_alerts :: "compile_env \<Rightarrow> overlay_disk \<Rightarrow> membership \<Rightarrow> pydict list" where
  "overlay_alerts env disk m =
     (case validate_stock_overlay (ce_registry env) (governed_overlay env disk m) of
        Inl e \<Rightarrow> []
      | Inr (errors, warnings) \<Rightarrow>
          (case alerts_for_overlay (governed_overlay env disk m) (map (warning_text (ce_path env m)) warnings) (ce_now env) of
             Inl e \<Rightarrow> [] | Inr alerts \<Rightarrow> alerts))"

definition manifest_stored :: "compile_env \<Rightarrow> overlay_disk \<Rightarrow> membership \<Rightarrow> manifest_row \<Rightarrow> bool" where
  "manifest_stored env disk m r \<longleftrightarrow>
     mf_ts_code r = ms_ts_code m \<and> mf_industry_id r = ms_industry_id m \<and>
     mf_primary r = (if ms_primary_industry m then 1 else 0) \<and> mf_updated_at r = ce_now env \<and>
     bind_text (dget (governed_overlay env disk m) ''period'') = Inr (mf_period r)"

definition node_stored :: "compile_env \<Rightarrow> membership \<times> pydict \<Rightarrow> node_row \<Rightarrow> bool" where
  "node_stored env entry r \<longleftrightarrow> (case entry of (m, n) \<Rightarrow>
     nw_ts_code r = ms_ts_code m \<and> nw_industry_id r = ms_industry_id m \<and>
     bind_text (dget n ''node_id'') = Inr (Some (nw_node_id r)) \<and> bind_text (dget n ''dp_id'') = Inr (nw_dp_id r) \<and>
     bind_text (dget n ''data_status'') = Inr (nw_data_status r) \<and> ce_dumps env (PDict n) = Inr (nw_payload_json r))"

definition edge_stored :: "compile_env \<Rightarrow> membership \<times> string \<times> pydict \<Rightarrow> edge_row \<Rightarrow> bool" where
  "edge_stored env entry r \<longleftrightarrow> (case entry of (m, kind, e) \<Rightarrow>
     ew_ts_code r = ms_ts_code m \<and> ew_industry_id r = ms_industry_id m \<and> ew_edge_kind r = kind \<and>
     bind_text (dget e ''edge_id'') = Inr (Some (ew_edge_id r)) \<and> bind_text (dget e ''from_node'') = Inr (ew_from r) \<and>
     bind_text (dget e ''to_node'') = Inr (ew_to r) \<and> ce_dumps env (PDict e) = Inr (ew_payload_json r))"

definition snapshot_stored :: "compile_env \<Rightarrow> overlay_disk \<Rightarrow> membership list \<Rightarrow> membership \<Rightarrow> snapshot_row \<Rightarrow> bool" where
  "snapshot_stored env disk all m r \<longleftrightarrow>
     sw_ts_code r = ms_ts_code m \<and> sw_industry_id r = ms_industry_id m \<and>
     ce_dumps env (PDict (snapshot_dict env all m (governed_overlay env disk m) (overlay_alerts env disk m))) =
       Inr (sw_payload_json r)"

definition node_entries :: "compile_env \<Rightarrow> overlay_disk \<Rightarrow> membership \<Rightarrow> (membership \<times> pydict) list" where
  "node_entries env disk m = map (Pair m) (members (governed_overlay env disk m) ''nodes'')"

definition edge_entries :: "compile_env \<Rightarrow> overlay_disk \<Rightarrow> membership \<Rightarrow> (membership \<times> string \<times> pydict) list" where
  "edge_entries env disk m =
     map (\<lambda>e. (m, ''hierarchy'', e)) (members (governed_overlay env disk m) ''hierarchy_edges'') @
     map (\<lambda>e. (m, ''causal'', e)) (members (governed_overlay env disk m) ''causal_edges'')"

definition alert_stored :: "compile_env \<Rightarrow> pydict \<Rightarrow> alert_row \<Rightarrow> bool" where
  "alert_stored env a r \<longleftrightarrow> alert_row_of env a = Inr r"

text \<open>A row that may still fail to be bound.\<close>

definition pending :: "('a \<Rightarrow> 'r \<Rightarrow> bool) \<Rightarrow> 'a \<Rightarrow> 'r res \<Rightarrow> bool" where
  "pending P a r \<longleftrightarrow> (case r of Inl e \<Rightarrow> True | Inr x \<Rightarrow> P a x)"

definition collects :: "compile_env \<Rightarrow> overlay_disk \<Rightarrow> membership list \<Rightarrow> membership list \<Rightarrow> compiled \<Rightarrow> bool" where
  "collects env disk all ms st \<longleftrightarrow>
     list_all (\<lambda>m. overlay_sound (governed_overlay env disk m)) ms \<and>
     list_all2 (pending (manifest_stored env disk)) ms (cl_manifests st) \<and>
     list_all2 (pending (node_stored env)) (concat (map (node_entries env disk) ms)) (cl_nodes st) \<and>
     list_all2 (pending (edge_stored env)) (concat (map (edge_entries env disk) ms)) (cl_edges st) \<and>
     list_all2 (pending (snapshot_stored env disk all)) ms (cl_snapshots st) \<and>
     list_all2 (pending (alert_stored env)) (concat (map (overlay_alerts env disk) ms)) (cl_alerts st)"

lemma pending_simps [simp]: "pending P a (Inr x) = P a x" "pending P a (Inl e)"
  by (simp_all add: pending_def)

lemma pending_bind: "(\<And>x. r = Inr x \<Longrightarrow> pending P a (f x)) \<Longrightarrow> pending P a (res_bind r f)"
  by (cases r) simp_all

lemma pending_map: "(\<And>x. r = Inr x \<Longrightarrow> P a (f x)) \<Longrightarrow> pending P a (res_map f r)"
  by (cases r) simp_all

lemma bind_required_Inr: "bind_required v = Inr s \<longleftrightarrow> bind_text v = Inr (Some s)"
  by (auto simp: bind_required_def res_bind_eq_Inr split: option.splits)

lemma manifest_pending: "p = governed_overlay env disk m \<Longrightarrow> pending (manifest_stored env disk) m (manifest_row_of env m p)"
  unfolding manifest_row_of_def by (rule pending_map) (simp add: manifest_stored_def)

lemma node_pending: "ce_dumps env (PDict n) = Inr json \<Longrightarrow> pending (node_stored env) (m, n) (node_row_of env m n json)"
  unfolding node_row_of_def
  by (intro pending_bind pending_map) (simp add: node_stored_def bind_required_Inr)

lemma edge_pending: "ce_dumps env (PDict e) = Inr json \<Longrightarrow> pending (edge_stored env) (m, kind, e) (edge_row_of m kind e json)"
  unfolding edge_row_of_def
  by (intro pending_bind pending_map) (simp add: edge_stored_def bind_required_Inr)

lemma res_list_all2: "res_list f xs = Inr ys \<longleftrightarrow> list_all2 (\<lambda>x y. f x = Inr y) xs ys"
proof (induction xs arbitrary: ys)
  case Nil
  then show ?case by auto
next
  case (Cons x xs)
  then show ?case by (auto simp: res_bind_eq_Inr list_all2_Cons1)
qed

lemma compile_nodes_pending:
  "res_list (compile_node env m) ns = Inr rs \<Longrightarrow> list_all2 (pending (node_stored env)) (map (Pair m) (map as_dict ns)) rs"
  by (auto simp: res_list_all2 list_all2_map1 compile_node_def res_bind_eq_Inr res_map_eq_Inr as_mapping_Inr
      elim!: list_all2_mono intro: node_pending)

lemma compile_edges_pending:
  "res_list (compile_edge env m kind) es = Inr rs \<Longrightarrow>
     list_all2 (pending (edge_stored env)) (map (\<lambda>e. (m, kind, e)) (map as_dict es)) rs"
  by (auto simp: res_list_all2 list_all2_map1 compile_edge_def res_bind_eq_Inr res_map_eq_Inr as_mapping_Inr
      elim!: list_all2_mono intro: edge_pending)

lemma all2_refl_map: "(\<And>x. P x (f x)) \<Longrightarrow> list_all2 P xs (map f xs)"
  by (induction xs) simp_all

lemma alerts_pending: "list_all2 (pending (alert_stored env)) as (map (alert_row_of env) as)"
  by (rule all2_refl_map) (simp add: pending_def alert_stored_def split: sum.splits)

lemma compile_member_cases:
  assumes "compile_member env disk all m st = Inr st'" and "cl_errors st' = []"
  obtains p warnings where
    "governed_overlay env disk m = p" "validate_stock_overlay (ce_registry env) p = Inr ([], warnings)"
    "compile_payload env all m p warnings st = Inr st'"
proof -
  obtain raw p es ws where p: "load_overlay disk m = Inr raw" "apply_field_governance (ce_registry env) raw = Inr p"
    "validate_stock_overlay (ce_registry env) p = Inr (es, ws)"
    and st': "(if es \<noteq> []
       then Inr (st\<lparr>cl_errors := cl_errors st @ map (InStockOverlay (ms_industry_id m) (ms_ts_code m)) es\<rparr>)
       else compile_payload env all m p ws st) = Inr st'"
    using assms(1) by (auto simp: compile_member_def res_bind_eq_Inr)
  have "es = []" using st' assms(2) by (auto split: if_splits)
  moreover have "governed_overlay env disk m = p" by (simp add: governed_overlay_def p)
  ultimately show thesis using that p(3) st' by simp
qed

lemma compile_payload_collects:
  assumes c: "compile_payload env all m p warnings st = Inr st'"
    and p: "governed_overlay env disk m = p" "validate_stock_overlay (ce_registry env) p = Inr ([], warnings)"
  shows "cl_errors st' = cl_errors st \<and> (collects env disk all ms st \<longrightarrow> collects env disk all (ms @ [m]) st')"
proof -
  obtain alerts ns nodes hs hier cs causal json where
    a: "alerts_for_overlay p (map (warning_text (ce_path env m)) warnings) (ce_now env) = Inr alerts"
    and n: "elements p ''nodes'' = Inr ns" "res_list (compile_node env m) ns = Inr nodes"
    and h: "elements p ''hierarchy_edges'' = Inr hs" "res_list (compile_edge env m ''hierarchy'') hs = Inr hier"
    and c': "elements p ''causal_edges'' = Inr cs" "res_list (compile_edge env m ''causal'') cs = Inr causal"
    and j: "ce_dumps env (PDict (snapshot_dict env all m p alerts)) = Inr json"
    and st': "st' = st\<lparr>cl_manifests := cl_manifests st @ [manifest_row_of env m p],
          cl_nodes := cl_nodes st @ nodes, cl_edges := cl_edges st @ hier @ causal,
          cl_snapshots := cl_snapshots st @ [snapshot_row_of env m p json],
          cl_alerts := cl_alerts st @ map (alert_row_of env) alerts\<rparr>"
    using c by (auto simp: compile_payload_def res_bind_eq_Inr res_map_eq_Inr)
  have al: "overlay_alerts env disk m = alerts" by (simp add: overlay_alerts_def p a)
  have "overlay_sound p" using validate_errors_Nil [OF p(2)] by simp
  moreover have "list_all2 (pending (node_stored env)) (node_entries env disk m) nodes"
    unfolding node_entries_def p(1) members_eq [OF n(1)] by (rule compile_nodes_pending [OF n(2)])
  moreover have "list_all2 (pending (edge_stored env)) (edge_entries env disk m) (hier @ causal)"
    unfolding edge_entries_def p(1) members_eq [OF h(1)] members_eq [OF c'(1)]
    by (intro list_all2_appendI compile_edges_pending h(2) c'(2))
  moreover have "pending (snapshot_stored env disk all) m (snapshot_row_of env m p json)"
    unfolding snapshot_row_of_def by (intro pending_bind pending_map) (simp add: snapshot_stored_def p(1) al j)
  moreover have "pending (manifest_stored env disk) m (manifest_row_of env m p)"
    by (rule manifest_pending) (simp add: p(1))
  moreover have "list_all2 (pending (alert_stored env)) (overlay_alerts env disk m) (map (alert_row_of env) alerts)"
    unfolding al by (rule alerts_pending)
  ultimately show ?thesis
    by (auto simp: st' collects_def p(1) intro!: list_all2_appendI)
qed

lemma compile_members_collect:
  "res_fold (compile_member env disk all) ms st = Inr st' \<Longrightarrow> cl_errors st' = [] \<Longrightarrow>
   cl_errors st = [] \<and> (collects env disk all prev st \<longrightarrow> collects env disk all (prev @ ms) st')"
proof (induction ms arbitrary: st prev)
  case Nil
  then show ?case by simp
next
  case (Cons m ms)
  obtain st1 where st1: "compile_member env disk all m st = Inr st1" "res_fold (compile_member env disk all) ms st1 = Inr st'"
    using Cons.prems(1) by (auto simp: res_bind_eq_Inr)
  have rest: "cl_errors st1 = [] \<and> (collects env disk all (prev @ [m]) st1 \<longrightarrow> collects env disk all ((prev @ [m]) @ ms) st')"
    by (rule Cons.IH [OF st1(2) Cons.prems(2)])
  obtain p warnings where "governed_overlay env disk m = p" "validate_stock_overlay (ce_registry env) p = Inr ([], warnings)"
    "compile_payload env all m p warnings st = Inr st1"
    using compile_member_cases [OF st1(1)] rest by blast
  from compile_payload_collects [OF this(3,1,2)] rest show ?case by simp
qed

lemma insert_bound_Inr: "insert_bound key rows = Inr t \<longleftrightarrow> (\<exists>xs. rows = map Inr xs \<and> insert_all key xs = Inr t)"
proof -
  have "res_fold (\<lambda>r t. res_bind r (\<lambda>x. insert_row key x t)) rows t0 = Inr t \<longleftrightarrow>
      (\<exists>xs. rows = map Inr xs \<and> res_fold (insert_row key) xs t0 = Inr t)" for t0
  proof (induction rows arbitrary: t0)
    case Nil
    then show ?case by auto
  next
    case (Cons r rows)
    show ?case
    proof (cases r)
      case (Inl e)
      then show ?thesis by (auto simp: Cons_eq_map_conv)
    next
      case (Inr x)
      then show ?thesis by (auto simp: Cons_eq_map_conv res_bind_eq_Inr Cons.IH)
    qed
  qed
  then show ?thesis by (simp add: insert_bound_def insert_all_def)
qed

lemma bound_rows:
  assumes "insert_bound key rows = Inr t" and "list_all2 (pending P) as rows"
  shows "list_all2 P as (map snd t) \<and> keyed key (Some t) \<and> rows = map Inr (map snd t) \<and> insert_all key (map snd t) = Inr t"
proof -
  obtain xs where xs: "rows = map Inr xs" "insert_all key xs = Inr t" using assms(1) by (auto simp: insert_bound_Inr)
  then have "t = map (\<lambda>r. (key r, r)) xs" by (simp add: insert_all_eq split: if_splits)
  then have "map snd t = xs" by (simp add: comp_def)
  then show ?thesis using assms(2) keyed_insert_all [OF xs(2)] xs by (simp add: list_all2_map2)
qed

definition compiled_from :: "compile_env \<Rightarrow> overlay_disk \<Rightarrow> membership list \<Rightarrow> database \<Rightarrow> database \<Rightarrow> bool" where
  "compiled_from env disk ms old d \<longleftrightarrow>
     db_realtime d = db_realtime old \<and> db_freshness d = db_freshness old \<and>
     list_all (\<lambda>m. overlay_sound (governed_overlay env disk m)) ms \<and>
     list_all2 (manifest_stored env disk) ms (map snd (rows_of (db_manifest d))) \<and>
     list_all2 (node_stored env) (concat (map (node_entries env disk) ms)) (map snd (rows_of (db_nodes d))) \<and>
     list_all2 (edge_stored env) (concat (map (edge_entries env disk) ms)) (map snd (rows_of (db_edges d))) \<and>
     list_all2 (snapshot_stored env disk ms) ms (map snd (rows_of (db_snapshots d))) \<and>
     list_all2 (alert_stored env) (concat (map (overlay_alerts env disk) ms)) (map snd (rows_of (db_alerts d)))"

lemma compiled_database:
  assumes st: "collects env disk ms ms st" and d: "fill_bound (init_db db) st = Inr d"
  shows "compiled_from env disk ms (init_db db) d"
    and "\<exists>mf nd ed sn al. replace_compiled_overlays db mf nd ed sn al = (d, Inr ())"
    and "\<exists>mf sn. db_manifest d = Some mf \<and> db_snapshots d = Some sn \<and> keyed manifest_key (Some mf) \<and> keyed snapshot_key (Some sn)"
proof -
  obtain mf nd ed sn al where t: "insert_bound manifest_key (cl_manifests st) = Inr mf"
    "insert_bound node_key (cl_nodes st) = Inr nd" "insert_bound edge_key (cl_edges st) = Inr ed"
    "insert_bound snapshot_key (cl_snapshots st) = Inr sn" "insert_bound aw_alert_id (cl_alerts st) = Inr al"
    and d': "d = init_db db\<lparr>db_manifest := Some mf, db_nodes := Some nd, db_edges := Some ed,
          db_snapshots := Some sn, db_alerts := Some al\<rparr>"
    using d by (auto simp: fill_bound_def res_bind_eq_Inr res_map_eq_Inr)
  note b = st [unfolded collects_def]
  note m = bound_rows [OF t(1) b [THEN conjunct2, THEN conjunct1]]
    and n = bound_rows [OF t(2) b [THEN conjunct2, THEN conjunct2, THEN conjunct1]]
    and e = bound_rows [OF t(3) b [THEN conjunct2, THEN conjunct2, THEN conjunct2, THEN conjunct1]]
    and s = bound_rows [OF t(4) b [THEN conjunct2, THEN conjunct2, THEN conjunct2, THEN conjunct2, THEN conjunct1]]
    and a = bound_rows [OF t(5) b [THEN conjunct2, THEN conjunct2, THEN conjunct2, THEN conjunct2, THEN conjunct2]]
  show "compiled_from env disk ms (init_db db) d"
    unfolding compiled_from_def using m n e s a b by (simp add: d')
  have "fill_overlays (init_db db) (map snd mf) (map snd nd) (map snd ed) (map snd sn) (map snd al) = Inr d"
    using m n e s a by (simp add: fill_overlays_def d')
  then have "replace_compiled_overlays db (map snd mf) (map snd nd) (map snd ed) (map snd sn) (map snd al) = (d, Inr ())"
    by (simp add: replace_compiled_overlays_def)
  then show "\<exists>mf nd ed sn al. replace_compiled_overlays db mf nd ed sn al = (d, Inr ())" by blast
  show "\<exists>mf sn. db_manifest d = Some mf \<and> db_snapshots d = Some sn \<and> keyed manifest_key (Some mf) \<and> keyed snapshot_key (Some sn)"
    using m s by (simp add: d')
qed

lemma validated_ok: "validate_overlay_set registry disk universe industries = Inr v \<Longrightarrow> sr_ok v \<longleftrightarrow> sr_errors v = []"
  by (auto simp: validate_overlay_set_def res_bind_eq_Inr res_map_eq_Inr)

text \<open>The outcomes of a compilation: it raises or refuses without touching the overlay tables, or it
  has collected every membership and inserted the rows.\<close>

lemma compile_cases:
  assumes "compile_overlays_to_sqlite env disk universe industries db = (db', r)"
  obtains
    (failed) e where "r = Inl e" "db' = db \<or> db' = Some (init_db db)"
  | (refused) v where "r = Inr v" "\<not> sr_ok v" "sr_errors v \<noteq> []" "db' = db"
  | (finished) v ms st d where "r = Inr v" "sr_ok v" "sr_errors v = []" "db' = Some d"
      "validate_overlay_set (ce_registry env) disk universe industries = Inr v"
      "expand_memberships universe industries = Inr ms" "collects env disk ms ms st"
      "fill_bound (init_db db) st = Inr d"
proof (cases "validate_overlay_set (ce_registry env) disk universe industries")
  case (Inl e)
  show thesis by (rule failed [of e]) (use assms Inl in \<open>auto simp: compile_overlays_to_sqlite_def\<close>)
next
  case v: (Inr v)
  note ok = validated_ok [OF v]
  show thesis
  proof (cases "sr_ok v")
    case False
    then show thesis using assms ok by (auto simp: compile_overlays_to_sqlite_def v intro: refused)
  next
    case True
    let ?c = "res_bind (expand_memberships universe industries) (\<lambda>ms.
                    res_fold (compile_member env disk ms) ms nothing_compiled)"
    show thesis
    proof (cases ?c)
      case (Inl e)
      show thesis by (rule failed [of e]) (use assms True Inl in \<open>auto simp: compile_overlays_to_sqlite_def v\<close>)
    next
      case (Inr st)
      then obtain ms where ms: "expand_memberships universe industries = Inr ms"
        "res_fold (compile_member env disk ms) ms nothing_compiled = Inr st" by (auto simp: res_bind_eq_Inr)
      show thesis
      proof (cases "cl_errors st = []")
        case False
        then show thesis using assms True Inr by (auto simp: compile_overlays_to_sqlite_def v intro: refused)
      next
        case no_errors: True
        have "collects env disk ms ([] @ ms) st"
          using compile_members_collect [OF ms(2) no_errors, of "[]"] by (simp add: collects_def nothing_compiled_def)
        then show thesis
          using assms True Inr ok no_errors ms(1)
          by (cases "fill_bound (init_db db) st")
            (auto simp: compile_overlays_to_sqlite_def v intro: failed finished)
      qed
    qed
  qed
qed

text \<open>C31: The compilation is all or nothing. When it raises, the database is as it was, or its missing
  tables have been created and nothing else; when it reports errors the database is untouched; and when
  it reports none, the overlay tables hold exactly the rows of the memberships in their order: every
  overlay is sound after governance, with one manifest and one snapshot for every membership, one row for
  every node and every edge of it, and the alerts, while the realtime and freshness rows stay. A
  database that the writers can have left stays one.\<close>

theorem compilation_is_all_or_nothing:
  assumes run: "compile_overlays_to_sqlite env disk universe industries db = (db', r)"
  shows "(case r of
       Inl e \<Rightarrow> db' = db \<or> db' = Some (init_db db)
     | Inr v \<Rightarrow>
         (if sr_errors v = []
          then sr_ok v \<and> (case (expand_memberships universe industries, db') of
                 (Inr ms, Some d) \<Rightarrow> compiled_from env disk ms (init_db db) d | _ \<Rightarrow> False)
          else \<not> sr_ok v \<and> db' = db)) \<and>
     (stored (ce_dumps env) db \<longrightarrow> stored (ce_dumps env) db')"
  using run
proof (cases rule: compile_cases)
  case (failed e)
  then show ?thesis by (auto intro: stored.created)
next
  case (refused v)
  then show ?thesis by simp
next
  case (finished v ms st d)
  note d = compiled_database [OF finished(7,8)]
  obtain mf nd ed sn al where "replace_compiled_overlays db mf nd ed sn al = (d, Inr ())" using d(2) by blast
  then have "stored (ce_dumps env) db \<Longrightarrow> stored (ce_dumps env) (Some d)"
    using stored.compiled [of "ce_dumps env" db mf nd ed sn al] by simp
  then show ?thesis using d(1) finished by simp
qed

text \<open>Every overlay that was compiled is read back.\<close>

lemma all2_left: "list_all2 P xs ys \<Longrightarrow> x \<in> set xs \<Longrightarrow> \<exists>y \<in> set ys. P x y"
  by (induction rule: list_all2_induct) auto

lemma compiled_snapshot:
  assumes "compiled_from env disk ms old d" and "m \<in> set ms"
    and "db_snapshots d = Some sn" "keyed snapshot_key (Some sn)"
  shows "\<exists>s. map_of sn (ms_ts_code m, ms_industry_id m) = Some s \<and> snapshot_stored env disk ms m s"
proof -
  have "list_all2 (snapshot_stored env disk ms) ms (map snd sn)" using assms(1,3) by (simp add: compiled_from_def)
  from all2_left [OF this assms(2)] obtain s where s: "s \<in> snd ` set sn" "snapshot_stored env disk ms m s" by auto
  then have "map_of sn (snapshot_key s) = Some s" using keyed_iff [OF assms(4)] by blast
  moreover have "snapshot_key s = (ms_ts_code m, ms_industry_id m)"
    using s(2) by (simp add: snapshot_key_def snapshot_stored_def)
  ultimately show ?thesis using s(2) by auto
qed

lemma all2_rows_of:
  "list_all2 P ms rows \<Longrightarrow> (\<And>m r. P m r \<Longrightarrow> f m = g r) \<Longrightarrow> map f ms = map g rows"
  by (induction rule: list_all2_induct) simp_all

lemma map_filter_map: "map f (filter (\<lambda>r. P (f r)) rows) = filter P (map f rows)"
  by (simp add: filter_map comp_def)

definition manifest_view :: "membership list \<Rightarrow> string \<Rightarrow> (int \<times> string) list" where
  "manifest_view ms ts = map (\<lambda>m. (if ms_primary_industry m then 1 else 0, ms_industry_id m)) (filter (\<lambda>m. ms_ts_code m = ts) ms)"

lemma manifests_of_compiled:
  assumes "compiled_from env disk ms old d" and "db_manifest d = Some mf"
  shows "map (\<lambda>r. (mf_primary r, mf_industry_id r)) (manifests_of ts mf) = manifest_view ms ts"
proof -
  have "map (\<lambda>m. (ms_ts_code m, if ms_primary_industry m then 1 else 0, ms_industry_id m)) ms =
      map (\<lambda>r. (mf_ts_code r, mf_primary r, mf_industry_id r)) (map snd mf)"
    by (rule all2_rows_of [where P = "manifest_stored env disk"])
      (use assms in \<open>simp_all add: compiled_from_def manifest_stored_def\<close>)
  then have "map snd (filter (\<lambda>t. fst t = ts) (map (\<lambda>m. (ms_ts_code m, if ms_primary_industry m then 1 else 0, ms_industry_id m)) ms)) =
      map snd (filter (\<lambda>t. fst t = ts) (map (\<lambda>r. (mf_ts_code r, mf_primary r, mf_industry_id r)) (map snd mf)))"
    by (simp only:)
  then show ?thesis by (simp add: filter_map comp_def manifest_view_def manifests_of_def)
qed

text \<open>The industries of a company in the order of the list that a client gets: the primary one first.\<close>

definition offered :: "membership list \<Rightarrow> string \<Rightarrow> string list" where
  "offered ms ts = map snd (sort_key (\<lambda>(p, i). (- p, i)) (manifest_view ms ts))"

lemma offered_compiled:
  assumes "compiled_from env disk ms old d" and "db_manifest d = Some mf"
  shows "map mf_industry_id (industry_order (manifests_of ts mf)) = offered ms ts"
  unfolding offered_def manifests_of_compiled [OF assms, symmetric] sort_key_map
  by (simp add: industry_order_def comp_def)

lemma offered_primary:
  assumes "filter (\<lambda>(p, i). p = 1) (manifest_view ms ts) = [(1, i)]"
  shows "\<exists>is. offered ms ts = i # is"
proof -
  let ?v = "manifest_view ms ts" and ?k = "\<lambda>(p, i). (- p, i) :: int \<times> string"
  have in_v: "(p', i') \<in> set ?v \<and> p' = 1 \<longleftrightarrow> p' = 1 \<and> i' = i" for p' i'
    using arg_cong [OF assms, of set] by auto
  then have "?v \<noteq> []" by (metis list.distinct(1) list.set_cases)
  then have "sort_key ?k ?v \<noteq> []" by (metis length_0_conv length_sort)
  then obtain p0 i0 rest where s: "sort_key ?k ?v = (p0, i0) # rest" by (cases "sort_key ?k ?v") auto
  note hd = sort_key_hd [OF s]
  have "(- p0, i0) \<le> (- 1, i)" using hd in_v [of 1 i] by auto
  moreover have "p0 \<le> 1" using hd by (auto simp: manifest_view_def split: if_splits)
  ultimately have "p0 = 1" by auto
  then have "i0 = i" using hd in_v [of p0 i0] by auto
  then show ?thesis using s by (simp add: offered_def)
qed

lemma read_default:
  assumes m: "keyed manifest_key (Some mf)" "db_manifest d = Some mf" and s: "keyed snapshot_key (Some sn)" "db_snapshots d = Some sn"
    and all: "\<forall>r \<in> set (manifests_of ts mf). map_of sn (ts, mf_industry_id r) \<noteq> None"
    and first: "map mf_industry_id (industry_order (manifests_of ts mf)) = i # is"
  shows "read_compiled_graph_snapshot loads (Some d) ts None = read_compiled_graph_snapshot loads (Some d) ts (Some i)"
proof -
  obtain r rs where r: "industry_order (manifests_of ts mf) = r # rs" "mf_industry_id r = i" using first by auto
  from first_view [OF m(1) s(1) all r(1)] show ?thesis
    by (auto simp: read_compiled_graph_snapshot_def snapshot_payload_def select_def m(2) s(2) r(2))
qed

text \<open>C32: What was compiled is read back: after a compilation without errors, the view of a company in
  one of its industries is the snapshot of the governed overlay of that membership, with the alerts of
  its nodes; the industries offered for the company are those of its memberships with the primary one
  first; and a client that names no industry gets the view of the primary one. (\<open>json.loads\<close> inverts
  \<open>json.dumps\<close>.)\<close>

theorem compiled_overlays_are_read_back:
  assumes run: "compile_overlays_to_sqlite env disk universe industries db = (db', Inr v)" and ok: "sr_errors v = []"
    and ms: "expand_memberships universe industries = Inr ms" and m: "m \<in> set ms"
    and json: "\<And>p s. ce_dumps env p = Inr s \<Longrightarrow> loads s = Inr p"
  defines "view \<equiv> read_compiled_graph_snapshot loads db' (ms_ts_code m)"
  shows "view (Some (ms_industry_id m)) =
      Inr (PDict (snapshot_dict env ms m (governed_overlay env disk m) (overlay_alerts env disk m))) \<and>
    read_available_overlay_industries db' (ms_ts_code m) = offered ms (ms_ts_code m) \<and>
    (filter (\<lambda>(p, i). p = 1) (manifest_view ms (ms_ts_code m)) = [(1, ms_industry_id m)] \<longrightarrow>
       view None = view (Some (ms_industry_id m)))"
  using run
proof (cases rule: compile_cases)
  case (finished v' ms' st d)
  then have ms': "ms' = ms" "db' = Some d" using ms by simp_all
  note c = compiled_database [OF finished(7,8), unfolded ms'(1)]
  obtain mf sn where t: "db_manifest d = Some mf" "db_snapshots d = Some sn"
    "keyed manifest_key (Some mf)" "keyed snapshot_key (Some sn)" using c(3) by blast
  obtain s where s: "map_of sn (ms_ts_code m, ms_industry_id m) = Some s" "snapshot_stored env disk ms m s"
    using compiled_snapshot [OF c(1) m t(2,4)] by blast
  have view: "view (Some (ms_industry_id m)) = loads (sw_payload_json s)"
    by (simp add: view_def ms'(2) read_compiled_graph_snapshot_def snapshot_payload_def select_def t(2) s(1))
  have some: "map_of sn (ms_ts_code m, mf_industry_id r) \<noteq> None" if r: "r \<in> set (manifests_of (ms_ts_code m) mf)" for r
  proof -
    have "(mf_primary r, mf_industry_id r) \<in> set (manifest_view ms (ms_ts_code m))"
      using manifests_of_compiled [OF c(1) t(1), of "ms_ts_code m"] r by (metis (no_types, lifting) image_eqI list.set_map)
    then obtain m' where "m' \<in> set ms" "ms_ts_code m' = ms_ts_code m" "ms_industry_id m' = mf_industry_id r"
      by (auto simp: manifest_view_def)
    then show ?thesis using compiled_snapshot [OF c(1) _ t(2,4), of m'] by auto
  qed
  note o = offered_compiled [OF c(1) t(1), of "ms_ts_code m"]
  have "view None = view (Some (ms_industry_id m))"
    if primary: "filter (\<lambda>(p, i). p = 1) (manifest_view ms (ms_ts_code m)) = [(1, ms_industry_id m)]"
    using offered_primary [OF primary] read_default [OF t(3,1,4,2), of "ms_ts_code m" "ms_industry_id m" _ loads] some o
    by (auto simp: view_def ms'(2))
  moreover have "read_available_overlay_industries db' (ms_ts_code m) = offered ms (ms_ts_code m)"
    by (simp add: ms'(2) read_available_overlay_industries_def select_def t(1) o)
  moreover have "loads (sw_payload_json s) =
      Inr (PDict (snapshot_dict env ms m (governed_overlay env disk m) (overlay_alerts env disk m)))"
    by (rule json) (use s(2) in \<open>simp add: snapshot_stored_def\<close>)
  ultimately show ?thesis using view by simp
qed (use ok in simp_all)

section \<open>Examples\<close>

definition ex_conditional_node :: pydict where
  "ex_conditional_node = [(''node_id'', PStr ''n''), (''dp_id'', PStr ''d''), (''node_name'', PStr ''name''),
     (''node_type'', PStr ''Driver''), (''layer'', PStr ''layer''), (''data_status'', PStr ''Unknown''),
     (''required_level'', PStr ''conditional_required''), (''missing_policy'', PStr ''unknown_reduce_confidence''),
     (''missing_reason'', PStr ''pending''), (''calculation_type'', PStr ''raw_value''),
     (''aggregation_policy'', PStr ''none''), (''alert_policy'', PStr ''no_alert'')]"

definition ex_edge :: "pydict \<Rightarrow> pydict" where
  "ex_edge ids = ids @ [(''from_node'', PStr ''n''), (''to_node'', PStr ''n''), (''edge_type'', PStr ''Parent-Child'')]"

definition ex_overlay :: "pydict list \<Rightarrow> pydict list \<Rightarrow> pydict" where
  "ex_overlay ns hs =
     [(''schema_version'', PInt 1), (''template_version'', PStr stock_template_version), (''ts_code'', PStr ''600000.SH''),
      (''industry_id'', PStr ''BANK''), (''primary_industry'', PBool True), (''period'', PStr ''2026-Q1''),
      (''base_industry_graph'', PStr ''g''), (''industry_overlay_ref'', PStr ''o''), (''nodes'', PList (map PDict ns)),
      (''hierarchy_edges'', PList (map PDict hs)), (''causal_edges'', PList []), (''coverage'', PDict []),
      (''scores'', PDict (map (\<lambda>l. (l, PDict [])) score_layers)), (''views'', PDict (map (\<lambda>v. (v, PDict [])) expected_views))]"

definition ex_disk :: "pydict \<Rightarrow> overlay_disk" where
  "ex_disk payload = [(StockFile ''BANK'' ''600000.SH'', Some (PDict payload)), (IndustryFile ''BANK'', Some (PDict []))]"

definition ex_env :: "(pyval \<Rightarrow> string res) \<Rightarrow> compile_env" where
  "ex_env dumps = \<lparr>ce_registry = None, ce_dumps = dumps, ce_path = (\<lambda>m. ''o.yaml''), ce_now = 7, ce_real = (\<lambda>s. 0)\<rparr>"

lemma ex_conditional_node_checked:
  "check_node None ex_conditional_node = Inr ([], [ConditionalUnknown (PStr ''n'')], 0)"
proof -
  have "list_all (\<lambda>(names, f). dget ex_conditional_node f \<in> PStr ` set names) enumerated_fields"
    by (simp add: ex_conditional_node_def enumerated_fields_def data_statuses_def required_levels_def ov_missing_policies_def
        ov_calculation_types_def ov_aggregation_policies_def alert_policies_def)
  then have "res_list (\<lambda>(names, f). check_name l ex_conditional_node names f) enumerated_fields = Inr [[], [], [], [], [], []]" for l
    by (simp add: enumerated_fields_def check_name_def in_names_True [THEN iffD2])
  moreover have "res_list (\<lambda>(names, f). check_optional_name l ex_conditional_node names f) optional_enumerated_fields = Inr [[], []]" for l
    by (simp add: optional_enumerated_fields_def check_optional_name_def ex_conditional_node_def)
  ultimately show ?thesis
    by (simp add: check_node_def dget_default_def ex_conditional_node_def inactive_warnings_def missing_names_def required_node_def
        unknown_errors_def option_errors_def conditional_warnings_def governance_gap_def)
qed

lemma ex_edge_checked:
  "check_hierarchy_edge [KStr ''n''] (PDict (ex_edge [])) = Inr []"
  "check_hierarchy_edge [KStr ''n''] (PDict (ex_edge [(''edge_id'', PStr ''e'')])) = Inr []"
  by (simp_all add: check_hierarchy_edge_def ex_edge_def dangling_def py_in_str_def sublist_code)

abbreviation (input) ex_good_edge :: pydict where
  "ex_good_edge \<equiv> ex_edge [(''edge_id'', PStr ''e'')]"

lemma ex_overlay_fields:
  "dget (ex_overlay ns hs) ''nodes'' = PList (map PDict ns)" "dget (ex_overlay ns hs) ''hierarchy_edges'' = PList (map PDict hs)"
  "dget (ex_overlay ns hs) ''causal_edges'' = PList []" "dget (ex_overlay ns hs) ''coverage'' = PDict []"
  "dget (ex_overlay ns hs) ''scores'' = PDict (map (\<lambda>l. (l, PDict [])) score_layers)"
  "dget (ex_overlay ns hs) ''views'' = PDict (map (\<lambda>v. (v, PDict [])) expected_views)"
  "dget (ex_overlay ns hs) ''period'' = PStr ''2026-Q1''" "dget (ex_overlay ns hs) ''template_version'' = PStr stock_template_version"
  "dget (ex_overlay ns hs) ''ts_code'' = PStr ''600000.SH''" "dget (ex_overlay ns hs) ''industry_id'' = PStr ''BANK''"
  by (simp_all add: ex_overlay_def)

lemma ex_top: "top_errors (ex_overlay ns hs) = []"
proof -
  have "set required_top \<subseteq> set (map fst (ex_overlay ns hs))" by (simp add: required_top_def ex_overlay_def)
  then show ?thesis unfolding top_errors_def missing_names_Nil [THEN iffD2] by (simp add: ex_overlay_fields missing_names_Nil [THEN iffD2])
qed

lemma ex_views: "check_views (ex_overlay ns hs) = Inr []"
  by (simp add: check_views_def ex_overlay_fields py_or_def expected_views_def)

lemma ex_layers: "check_layers (map (\<lambda>l. (l, PDict [])) score_layers) = []"
  by (simp add: check_layers_def dhas_def score_layers_def)

lemma ex_validate:
  assumes "ns \<noteq> []" and "set ns \<subseteq> {ex_conditional_node}" and "set hs \<subseteq> {ex_edge [], ex_good_edge}"
  shows "validate_stock_overlay None (ex_overlay ns hs) = Inr ([], map (\<lambda>n. ConditionalUnknown (PStr ''n'')) ns)"
proof -
  have ids: "res_list node_id_key (map PDict ns) = Inr (map (\<lambda>n. KStr ''n'') ns)"
    using assms(2) by (induction ns) (auto simp: node_id_key_def ex_conditional_node_def)
  have nodes: "check_nodes None (map PDict ns) = Inr (map (\<lambda>n. ([], [ConditionalUnknown (PStr ''n'')], 0)) ns)"
    using assms(2) by (induction ns) (auto simp: check_nodes_def ex_conditional_node_checked)
  have "set (map (\<lambda>n. KStr ''n'') ns) = set [KStr ''n'']" using assms(1) by (cases ns) auto
  then have "check_hierarchy_edge (map (\<lambda>n. KStr ''n'') ns) v = check_hierarchy_edge [KStr ''n''] v" for v
    unfolding check_hierarchy_edge_def dangling_def by (simp only:)
  then have edges: "res_list (check_hierarchy_edge (map (\<lambda>n. KStr ''n'') ns)) (map PDict hs) = Inr (map (\<lambda>h. []) hs)"
    using assms(3) by (induction hs) (auto simp: ex_edge_checked)
  have scores: "mapping_or_empty (ex_overlay ns hs) ''scores'' = Inr (map (\<lambda>l. (l, PDict [])) score_layers)"
    by (simp add: mapping_or_empty_def ex_overlay_fields py_or_def score_layers_def)
  have "filter (\<lambda>n. False) ns = []" by simp
  then show ?thesis
    by (simp add: validate_stock_overlay_def elements_PList ex_overlay_fields ids nodes edges scores ex_top ex_views ex_layers
        mapping_or_empty_def [of _ "''coverage''"] py_or_def check_coverage_def governance_warnings_def comp_def filter_map concat_map_singleton)
qed

lemma ex_set_valid:
  assumes "ns \<noteq> []" and "set ns \<subseteq> {ex_conditional_node}" and "set hs \<subseteq> {ex_edge [], ex_good_edge}"
  shows "validate_overlay_set None (ex_disk (ex_overlay ns hs)) ex_universe ex_industries =
    Inr \<lparr>sr_ok = True, sr_stock_count = 1, sr_industry_count = 1, sr_membership_count = 1, sr_errors = [],
         sr_warnings = map (\<lambda>n. ConditionalUnknown (PStr ''n'')) ns\<rparr>"
proof -
  have "map_of (ex_disk (ex_overlay ns hs)) (stock_path ex_membership) = Some (Some (PDict (ex_overlay ns hs)))"
    by (simp add: ex_disk_def stock_path_def ex_membership_ids)
  moreover have "loaded (PDict (ex_overlay ns hs)) = Inr (ex_overlay ns hs)"
    by (simp add: loaded_def py_or_def ex_overlay_def)
  moreover have "validate_industry_file (ex_disk p) (PDict [(''id'', PStr ''BANK'')]) (0, []) = Inr (1, [])" for p
    by (simp add: validate_industry_file_def ditem_def ex_disk_def)
  ultimately show ?thesis
    by (simp add: validate_overlay_set_def ex_memberships ex_inputs validate_member_def ex_validate [OF assms])
qed

lemma ex_governed: "governed_overlay (ex_env dumps) (ex_disk (ex_overlay ns hs)) ex_membership = ex_overlay ns hs"
  by (simp add: governed_overlay_def load_overlay_def ex_disk_def stock_path_def ex_membership_ids loaded_def py_or_def ex_overlay_def
      ex_env_def apply_field_governance_def)

definition ex_alert :: pydict where
  "ex_alert = alert_dict 7 ''600000.SH'' ''BANK'' ''d:UNKNOWN_CONDITIONAL_REQUIRED'' (PStr ''d'') ''WARN''
     ''UNKNOWN_CONDITIONAL_REQUIRED'' (PStr ''pending'')"

lemma ex_alerts: "set ns \<subseteq> {ex_conditional_node} \<Longrightarrow>
  alerts_for_overlay (ex_overlay ns hs) (map (\<lambda>n. ''o.yaml:n: conditional_required node is Unknown'') ns) 7 = Inr (map (\<lambda>n. ex_alert) ns)"
proof -
  assume ns: "set ns \<subseteq> {ex_conditional_node}"
  have one: "node_alert 7 ''600000.SH'' ''BANK'' ex_conditional_node = [ex_alert]"
    by (simp add: node_alert_def alert_level_def ex_conditional_node_def ex_alert_def py_or_def)
  have "res_list (\<lambda>v. res_map (node_alert 7 ''600000.SH'' ''BANK'') (as_mapping v)) (map PDict ns) = Inr (map (\<lambda>n. [ex_alert]) ns)"
    using ns by (induction ns) (auto simp: one)
  moreover have "py_in_str ''conditional_required node is Unknown'' ''o.yaml:n: conditional_required node is Unknown''"
    by (simp add: py_in_str_def sublist_code)
  then have "warning_alert now ts i (idx, ''o.yaml:n: conditional_required node is Unknown'') = []" for now ts i idx
    by (simp add: warning_alert_def)
  then have "concat (map (warning_alert 7 ''600000.SH'' ''BANK'')
      (enumerate k (map (\<lambda>n. ''o.yaml:n: conditional_required node is Unknown'') ns))) = []" for k
    by (induction ns arbitrary: k) simp_all
  ultimately show ?thesis
    by (simp add: alerts_for_overlay_def ex_overlay_fields elements_PList concat_map_singleton)
qed

lemma ex_compile_member:
  assumes "ns \<noteq> []" and "set ns \<subseteq> {ex_conditional_node}" and "set hs \<subseteq> {ex_edge [], ex_good_edge}"
    and "compile_payload (ex_env dumps) [ex_membership] ex_membership (ex_overlay ns hs)
           (map (\<lambda>n. ConditionalUnknown (PStr ''n'')) ns) nothing_compiled = r"
  shows "res_bind (expand_memberships ex_universe ex_industries) (\<lambda>ms.
     res_fold (compile_member (ex_env dumps) (ex_disk (ex_overlay ns hs)) ms) ms nothing_compiled) = r"
proof -
  have "load_overlay (ex_disk (ex_overlay ns hs)) ex_membership = Inr (ex_overlay ns hs)"
    by (simp add: load_overlay_def ex_disk_def stock_path_def ex_membership_ids loaded_def py_or_def ex_overlay_def)
  then show ?thesis
    using ex_validate [OF assms(1-3)] assms(4)
    by (cases r) (simp_all add: ex_memberships compile_member_def ex_env_def apply_field_governance_def)
qed

lemmas ex_compile_simps = compile_payload_def elements_PList ex_overlay_fields ex_alerts warning_text_def
  compile_node_def compile_edge_def ditem_def ex_env_def

text \<open>The validation looks at neither the ids of edges nor the distinctness of ids: two sets that pass it
  and cannot be compiled.\<close>

lemma edge_ids_are_not_validated:
  "map_option sr_ok (case validate_overlay_set None (ex_disk (ex_overlay [ex_conditional_node] [ex_edge []])) ex_universe ex_industries of
     Inl e \<Rightarrow> None | Inr v \<Rightarrow> Some v) = Some True"
  "compile_overlays_to_sqlite (ex_env (\<lambda>v. Inr [])) (ex_disk (ex_overlay [ex_conditional_node] [ex_edge []]))
     ex_universe ex_industries db = (db, Inl KeyError)"
proof -
  let ?p = "ex_overlay [ex_conditional_node] [ex_edge []]"
  note v = ex_set_valid [of "[ex_conditional_node]" "[ex_edge []]", simplified]
  show "map_option sr_ok (case validate_overlay_set None (ex_disk ?p) ex_universe ex_industries of
     Inl e \<Rightarrow> None | Inr v \<Rightarrow> Some v) = Some True" by (simp add: v)
  have "compile_payload (ex_env (\<lambda>v. Inr [])) [ex_membership] ex_membership ?p [ConditionalUnknown (PStr ''n'')] nothing_compiled = Inl KeyError"
    using ex_alerts [of "[ex_conditional_node]" "[ex_edge []]"]
    by (simp add: ex_compile_simps ex_edge_def ex_conditional_node_def)
  from ex_compile_member [of "[ex_conditional_node]" "[ex_edge []]", simplified, OF this]
  show "compile_overlays_to_sqlite (ex_env (\<lambda>v. Inr [])) (ex_disk ?p) ex_universe ex_industries db = (db, Inl KeyError)"
    by (simp add: compile_overlays_to_sqlite_def v ex_env_def)
qed

lemma duplicate_nodes_are_not_validated:
  "map_option sr_ok (case validate_overlay_set None (ex_disk (ex_overlay [ex_conditional_node, ex_conditional_node] [])) ex_universe ex_industries of
     Inl e \<Rightarrow> None | Inr v \<Rightarrow> Some v) = Some True"
  "compile_overlays_to_sqlite (ex_env (\<lambda>v. Inr [])) (ex_disk (ex_overlay [ex_conditional_node, ex_conditional_node] []))
     ex_universe ex_industries db = (Some (init_db db), Inl IntegrityError)"
proof -
  let ?p = "ex_overlay [ex_conditional_node, ex_conditional_node] []"
  note v = ex_set_valid [of "[ex_conditional_node, ex_conditional_node]" "[]", simplified]
  show "map_option sr_ok (case validate_overlay_set None (ex_disk ?p) ex_universe ex_industries of
     Inl e \<Rightarrow> None | Inr v \<Rightarrow> Some v) = Some True" by (simp add: v)
  obtain st n where "compile_payload (ex_env (\<lambda>v. Inr [])) [ex_membership] ex_membership ?p
      [ConditionalUnknown (PStr ''n''), ConditionalUnknown (PStr ''n'')] nothing_compiled = Inr st"
    and rows: "cl_errors st = []" "cl_nodes st = [Inr n, Inr n]" "\<exists>m. cl_manifests st = [Inr m]"
    using ex_alerts [of "[ex_conditional_node, ex_conditional_node]" "[]"]
    by (simp add: ex_compile_simps node_row_of_def manifest_row_of_def bind_required_def ex_conditional_node_def nothing_compiled_def)
  from ex_compile_member [of "[ex_conditional_node, ex_conditional_node]" "[]", simplified, OF this(1)]
  show "compile_overlays_to_sqlite (ex_env (\<lambda>v. Inr [])) (ex_disk ?p) ex_universe ex_industries db =
      (Some (init_db db), Inl IntegrityError)"
    using rows by (auto simp: compile_overlays_to_sqlite_def v ex_env_def fill_bound_def insert_bound_def insert_row_def)
qed

definition ex_compiled_overlay :: pydict where
  "ex_compiled_overlay = ex_overlay [ex_conditional_node] [ex_good_edge]"

definition ex_snapshot :: pydict where
  "ex_snapshot = snapshot_dict (ex_env (\<lambda>v. Inl TypeError)) [ex_membership] ex_membership ex_compiled_overlay [ex_alert]"

definition ex_json :: "pyval \<Rightarrow> string res" where
  "ex_json v =
     (if v = PDict ex_conditional_node then Inr ''n'' else if v = PDict ex_good_edge then Inr ''e''
      else if v = PDict ex_snapshot then Inr ''s'' else Inl TypeError)"

definition ex_parse :: "string \<Rightarrow> pyval res" where
  "ex_parse s =
     (if s = ''n'' then Inr (PDict ex_conditional_node) else if s = ''e'' then Inr (PDict ex_good_edge)
      else Inr (PDict ex_snapshot))"

lemma ex_json_inverse: "ex_json v = Inr s \<Longrightarrow> ex_parse s = Inr v"
  by (auto simp: ex_json_def ex_parse_def split: if_splits)

lemma ex_compile:
  obtains d v where
    "compile_overlays_to_sqlite (ex_env ex_json) (ex_disk ex_compiled_overlay) ex_universe ex_industries None = (Some d, Inr v)"
    "sr_errors v = []"
proof -
  note v = ex_set_valid [of "[ex_conditional_node]" "[ex_good_edge]", simplified, folded ex_compiled_overlay_def]
  have "snapshot_dict (ex_env ex_json) [ex_membership] ex_membership ex_compiled_overlay [ex_alert] = ex_snapshot"
    by (simp add: ex_snapshot_def snapshot_dict_def ex_env_def)
  moreover have "ex_json (PDict ex_snapshot) = Inr ''s''"
    by (simp add: ex_json_def ex_snapshot_def snapshot_dict_def ex_conditional_node_def ex_edge_def)
  moreover have "ex_json (PDict ex_conditional_node) = Inr ''n''" "ex_json (PDict ex_good_edge) = Inr ''e''"
    by (simp_all add: ex_json_def ex_conditional_node_def ex_edge_def)
  moreover have "alerts_for_overlay ex_compiled_overlay [''o.yaml:n: conditional_required node is Unknown''] 7 = Inr [ex_alert]"
    using ex_alerts [of "[ex_conditional_node]" "[ex_good_edge]"] by (simp add: ex_compiled_overlay_def)
  ultimately have "compile_payload (ex_env ex_json) [ex_membership] ex_membership ex_compiled_overlay
      [ConditionalUnknown (PStr ''n'')] nothing_compiled =
    Inr \<lparr>cl_errors = [], cl_manifests = [manifest_row_of (ex_env ex_json) ex_membership ex_compiled_overlay],
      cl_nodes = [node_row_of (ex_env ex_json) ex_membership ex_conditional_node ''n''],
      cl_edges = [edge_row_of ex_membership ''hierarchy'' ex_good_edge ''e''],
      cl_snapshots = [snapshot_row_of (ex_env ex_json) ex_membership ex_compiled_overlay ''s''],
      cl_alerts = [alert_row_of (ex_env ex_json) ex_alert]\<rparr>" (is "_ = Inr ?st")
    by (simp add: compile_payload_def elements_PList ex_compiled_overlay_def ex_overlay_fields warning_text_def
        compile_node_def compile_edge_def ex_env_def nothing_compiled_def)
      (simp add: ditem_def ex_conditional_node_def ex_edge_def)
  from ex_compile_member [of "[ex_conditional_node]" "[ex_good_edge]", simplified, folded ex_compiled_overlay_def, OF this]
  have "compile_overlays_to_sqlite (ex_env ex_json) (ex_disk ex_compiled_overlay) ex_universe ex_industries None =
     (case fill_bound (init_db None) ?st of Inl e \<Rightarrow> (Some (init_db None), Inl e)
      | Inr db' \<Rightarrow> (Some db', validate_overlay_set None (ex_disk ex_compiled_overlay) ex_universe ex_industries))"
    by (simp add: compile_overlays_to_sqlite_def v ex_env_def split: sum.splits)
  moreover have "\<exists>d. fill_bound (init_db None) ?st = Inr d"
    by (simp add: fill_bound_def insert_bound_def insert_row_def manifest_row_of_def node_row_of_def edge_row_of_def
        snapshot_row_of_def alert_row_of_def bind_required_def ex_conditional_node_def ex_edge_def ex_alert_def alert_dict_def
        ex_compiled_overlay_def ex_overlay_fields)
  ultimately show thesis using that v by auto
qed

theorem compilation_is_all_or_nothing_witness:
  "\<exists>d v. compile_overlays_to_sqlite (ex_env ex_json) (ex_disk ex_compiled_overlay) ex_universe ex_industries None = (Some d, Inr v) \<and>
     sr_ok v \<and> compiled_from (ex_env ex_json) (ex_disk ex_compiled_overlay) [ex_membership] (init_db None) d \<and> stored ex_json (Some d)"
proof -
  obtain d v where c: "compile_overlays_to_sqlite (ex_env ex_json) (ex_disk ex_compiled_overlay) ex_universe ex_industries None = (Some d, Inr v)"
    "sr_errors v = []" by (rule ex_compile)
  have env: "ce_dumps (ex_env ex_json) = ex_json" by (simp add: ex_env_def)
  show ?thesis
    using compilation_is_all_or_nothing [OF c(1)] c stored.absent [of ex_json] by (simp add: ex_memberships env)
qed

theorem compiled_overlays_are_read_back_witness:
  "\<exists>d v. compile_overlays_to_sqlite (ex_env ex_json) (ex_disk ex_compiled_overlay) ex_universe ex_industries None = (Some d, Inr v) \<and>
     read_compiled_graph_snapshot ex_parse (Some d) ''600000.SH'' None = Inr (PDict ex_snapshot) \<and>
     read_available_overlay_industries (Some d) ''600000.SH'' = [''BANK'']"
proof -
  obtain d v where c: "compile_overlays_to_sqlite (ex_env ex_json) (ex_disk ex_compiled_overlay) ex_universe ex_industries None = (Some d, Inr v)"
    "sr_errors v = []" by (rule ex_compile)
  have g: "governed_overlay (ex_env ex_json) (ex_disk ex_compiled_overlay) ex_membership = ex_compiled_overlay"
    by (simp add: ex_compiled_overlay_def ex_governed)
  have env: "ce_registry (ex_env ex_json) = None" "ce_path (ex_env ex_json) = (\<lambda>m. ''o.yaml'')" "ce_now (ex_env ex_json) = 7"
    "ce_dumps (ex_env ex_json) = ex_json"
    by (simp_all add: ex_env_def)
  have "validate_stock_overlay None ex_compiled_overlay = Inr ([], [ConditionalUnknown (PStr ''n'')])"
    using ex_validate [of "[ex_conditional_node]" "[ex_good_edge]"] by (simp add: ex_compiled_overlay_def)
  moreover have "alerts_for_overlay ex_compiled_overlay [''o.yaml:n: conditional_required node is Unknown''] 7 = Inr [ex_alert]"
    using ex_alerts [of "[ex_conditional_node]" "[ex_good_edge]"] by (simp add: ex_compiled_overlay_def)
  ultimately have al: "overlay_alerts (ex_env ex_json) (ex_disk ex_compiled_overlay) ex_membership = [ex_alert]"
    by (simp add: overlay_alerts_def g env warning_text_def)
  have snap: "snapshot_dict (ex_env ex_json) [ex_membership] ex_membership ex_compiled_overlay [ex_alert] = ex_snapshot"
    by (simp add: ex_snapshot_def snapshot_dict_def ex_env_def)
  have "ms_primary_industry ex_membership" by (simp add: ex_membership_def)
  then have p: "manifest_view [ex_membership] ''600000.SH'' = [(1, ''BANK'')]" by (simp add: manifest_view_def ex_membership_ids)
  have "ex_json q = Inr s \<Longrightarrow> ex_parse s = Inr q" for q s by (rule ex_json_inverse)
  then show ?thesis
    using compiled_overlays_are_read_back [OF c ex_memberships, of ex_membership ex_parse] c(1)
    by (auto simp: ex_membership_ids al snap g p offered_def env)
qed
end
