(* ===== verification/Propagation.thy ===== *)
theory Propagation
  imports GraphStatus "HOL-Library.Product_Lexorder" "HOL-Library.Multiset"
begin

text \<open>
  The propagation channels of the graph engine (\<open>graph_engine/propagation\<close>: \<open>channels.py\<close>,
  \<open>scoring.py\<close>, \<open>context.py\<close>, \<open>_gds.py\<close> and the runners \<open>fundamental.py\<close>, \<open>event.py\<close> and
  \<open>reflexive.py\<close>, which differ in their channel only). A runner requires a ready graph, makes a
  temporary projection in the graph database, reads ranks and paths and turns the paths into the
  impacts of their targets. The database is an argument: a function that answers a query and changes
  a state of any type, or fails with an exception and its message.
\<close>

section \<open>Channels and scores\<close>

definition propagation_channels :: "(string \<times> string list) list" where
  "propagation_channels =
     [(''SUPPLY_CHAIN'', [''fundamental'']),
      (''OWNERSHIP'', [''fundamental'']),
      (''INDUSTRY_CHAIN'', [''fundamental'']),
      (''SECTOR_MEMBERSHIP'', [''fundamental'']),
      (''EVENT_IMPACT'', [''event'']),
      (''CO_HOLDING'', [''reflexive'']),
      (''NORTHBOUND_HOLD'', [''event'', ''reflexive''])]"

definition allowed_channels :: "string list" where
  "allowed_channels = [''fundamental'', ''event'', ''reflexive'']"

definition default_channel_by_relationship_type :: "(string \<times> string) list" where
  "default_channel_by_relationship_type = map (\<lambda>(t, cs). (t, hd cs)) propagation_channels"

definition relationship_types_for_channel :: "string \<Rightarrow> string list" where
  "relationship_types_for_channel channel =
     map fst (filter (\<lambda>(t, cs). channel \<in> set cs) propagation_channels)"

definition quoted :: "string \<Rightarrow> string" where
  "quoted s = [CHR 0x22] @ s @ [CHR 0x22]"

definition cypher_string_list :: "string list \<Rightarrow> string" where
  "cypher_string_list vs = ''['' @ join_with '', '' (map quoted vs) @ '']''"

definition default_channel_case_expression :: "string \<Rightarrow> string" where
  "default_channel_case_expression v =
     ''CASE type('' @ v @ '') '' @
     join_with '' '' (map (\<lambda>(t, c). ''WHEN '' @ quoted t @ '' THEN '' @ quoted c) default_channel_by_relationship_type) @
     '' ELSE null END''"

definition channel_properties :: "string list" where
  "channel_properties = [''propagation_channel'', ''channel'', ''impact_channel'']"

definition effective_channel_expression :: "string \<Rightarrow> string" where
  "effective_channel_expression v =
     ''coalesce('' @ v @ ''.propagation_channel, '' @ v @ ''.channel, '' @ v @ ''.impact_channel, '' @
     default_channel_case_expression v @ '')''"

definition effective_channel_selector :: "string \<Rightarrow> string \<Rightarrow> string" where
  "effective_channel_selector channel v =
     (let types = relationship_types_for_channel channel;
          by_type = (if types \<noteq> [] then ''type('' @ v @ '') IN '' @ cypher_string_list types else ''false'');
          absent = join_with '' AND '' (map (\<lambda>p. v @ ''.'' @ p @ '' IS NULL'') channel_properties) in
      ''('' @ effective_channel_expression v @ '' = '' @ quoted channel @ '' OR ('' @ absent @ '' AND '' @ by_type @ ''))'')"

definition propagation_path_score :: "real \<Rightarrow> real \<Rightarrow> real \<Rightarrow> real \<Rightarrow> real \<Rightarrow> real" where
  "propagation_path_score relation_weight evidence_confidence channel_multiplier regime_multiplier recency_decay =
     relation_weight * evidence_confidence * channel_multiplier * regime_multiplier * recency_decay"

definition build_score_explanation :: "real \<Rightarrow> real \<Rightarrow> real \<Rightarrow> real \<Rightarrow> real \<Rightarrow> pydict" where
  "build_score_explanation w e c r d =
     [(''relation_weight'', PFloat w), (''evidence_confidence'', PFloat e), (''channel_multiplier'', PFloat c),
      (''regime_multiplier'', PFloat r), (''recency_decay'', PFloat d),
      (''score'', PFloat (propagation_path_score w e c r d))]"

section \<open>The context of a run\<close>

record propagation_context =
  px_cycle_id :: string
  px_world_state_ref :: string
  px_generation :: int
  px_channels :: "string list"
  px_channel_multipliers :: "(string \<times> real) list"
  px_regime_multipliers :: "(string \<times> real) list"
  px_decay_policy :: pydict
  px_regime_context :: pydict

text \<open>The validators of the model; the strings are stripped first.\<close>

definition new_propagation_context :: "propagation_context \<Rightarrow> propagation_context res" where
  "new_propagation_context c =
     (let c = c\<lparr>px_cycle_id := py_strip (px_cycle_id c), px_world_state_ref := py_strip (px_world_state_ref c)\<rparr> in
      if px_cycle_id c = [] \<or> px_world_state_ref c = [] \<or> px_generation c < 0 \<or> px_channels c = [] then Inl ValueError
      else if \<not> list_all (\<lambda>ch. ch \<in> set allowed_channels) (px_channels c) then Inl ValueError
      else if \<not> distinct (px_channels c) then Inl ValueError
      else Inr c)"

definition as_non_negative_float :: "pyval \<Rightarrow> real res" where
  "as_non_negative_float v = (case py_float v of
     Inl e \<Rightarrow> Inl ValueError | Inr x \<Rightarrow> if x < 0 then Inl ValueError else Inr x)"

definition regime_multiplier_of :: "pydict \<Rightarrow> string \<Rightarrow> string \<Rightarrow> real res" where
  "regime_multiplier_of regime key channel = (case dget regime key of
     PDict d \<Rightarrow> as_non_negative_float (case map_of d channel of None \<Rightarrow> PFloat 1 | Some v \<Rightarrow> v) | _ \<Rightarrow> Inr 1)"

definition context_mapping :: "pydict \<Rightarrow> string \<Rightarrow> pydict" where
  "context_mapping regime key = as_dict (dget regime key)"

definition multiplier_table :: "pydict \<Rightarrow> string \<Rightarrow> string list \<Rightarrow> (string \<times> real) list res" where
  "multiplier_table regime key channels =
     res_map (fold (\<lambda>(ch, x). dput ch x) []) (res_list (\<lambda>ch. res_map (Pair ch) (regime_multiplier_of regime key ch)) channels)"

definition build_propagation_context ::
  "string \<Rightarrow> string \<Rightarrow> int \<Rightarrow> (string \<Rightarrow> pydict res) \<Rightarrow> neo4j_graph_status option \<Rightarrow> string list option \<Rightarrow> propagation_context res" where
  "build_propagation_context cycle_id world_state_ref generation read_regime status channels =
     (if (case status of Some s \<Rightarrow> graph_status s \<noteq> Ready | None \<Rightarrow> False) then Inl PermissionError
      else
        (let requested = (case channels of None \<Rightarrow> [''fundamental''] | Some cs \<Rightarrow> cs) in
         res_bind (read_regime world_state_ref) (\<lambda>regime.
         res_bind (multiplier_table regime ''channel_multipliers'' requested) (\<lambda>cm.
         res_bind (multiplier_table regime ''regime_multipliers'' requested) (\<lambda>rm.
         new_propagation_context
           \<lparr>px_cycle_id = cycle_id, px_world_state_ref = world_state_ref, px_generation = generation,
            px_channels = requested, px_channel_multipliers = cm, px_regime_multipliers = rm,
            px_decay_policy = context_mapping regime ''decay_policy'', px_regime_context = regime\<rparr>)))))"

section \<open>Evidence\<close>

definition sorted_set :: "string list \<Rightarrow> string list" where
  "sorted_set xs = sort (remdups xs)"

fun stripped_ref :: "pyval \<Rightarrow> string res" where
  "stripped_ref (PStr s) = (if py_strip s = [] then Inl ValueError else Inr (py_strip s))"
| "stripped_ref v = Inl ValueError"

fun evidence_refs_plain :: "pyval \<Rightarrow> string list res" where
  "evidence_refs_plain PNone = Inr []"
| "evidence_refs_plain (PStr s) = res_map (\<lambda>r. [r]) (stripped_ref (PStr s))"
| "evidence_refs_plain (PList vs) = res_map sorted_set (res_list stripped_ref vs)"
| "evidence_refs_plain v = Inl ValueError"

definition evidence_refs_from_mapping :: "pydict \<Rightarrow> string list res" where
  "evidence_refs_from_mapping d =
     res_bind (evidence_refs_plain (dget d ''evidence_refs'')) (\<lambda>many.
     res_map (\<lambda>one. sorted_set (many @ one)) (evidence_refs_plain (dget d ''evidence_ref'')))"

definition evidence_refs_from_value :: "bool \<Rightarrow> pyval \<Rightarrow> string list res" where
  "evidence_refs_from_value allow_mapping v = (case v of
     PDict d \<Rightarrow> if allow_mapping then evidence_refs_from_mapping d else Inl ValueError
   | _ \<Rightarrow> evidence_refs_plain v)"

section \<open>The graph database\<close>

text \<open>The queries of a runner, with their parameters; the selector of the channel is part of the text of
  two of them.\<close>

datatype gds_query =
    GraphExists string
  | GraphDrop string
  | GraphProject string string
  | PageRankStream string int int
  | ReadPaths string real real int

datatype client_error = ClientError py_error string

type_synonym 'db client = "'db \<Rightarrow> gds_query \<Rightarrow> 'db \<times> (client_error + pydict list)"

type_synonym ('db, 'a) prog = "'db \<Rightarrow> 'db \<times> 'a res"

definition db_bind :: "('db, 'a) prog \<Rightarrow> ('a \<Rightarrow> ('db, 'b) prog) \<Rightarrow> ('db, 'b) prog" where
  "db_bind p f db = (case p db of (db', Inl e) \<Rightarrow> (db', Inl e) | (db', Inr x) \<Rightarrow> f x db')"

definition db_return :: "'a res \<Rightarrow> ('db, 'a) prog" where
  "db_return r db = (db, r)"

text \<open>\<open>try: p finally: q\<close>.\<close>

definition db_finally :: "('db, 'a) prog \<Rightarrow> ('db, unit) prog \<Rightarrow> ('db, 'a) prog" where
  "db_finally p q db = (case p db of (db1, r) \<Rightarrow> (case q db1 of (db2, Inl e) \<Rightarrow> (db2, Inl e) | (db2, Inr u) \<Rightarrow> (db2, r)))"

definition missing_markers :: "string list" where
  "missing_markers =
     [''no procedure'', ''no function'', ''not registered'', ''unknown procedure'', ''unknown function'',
      ''procedure not found'', ''function not found'']"

definition is_missing_gds_error :: "string \<Rightarrow> bool" where
  "is_missing_gds_error text =
     (let message = py_lower text in
      py_in_str ''gds.'' message \<and> list_ex (\<lambda>marker. py_in_str marker message) missing_markers)"

definition execute_gds :: "'db client \<Rightarrow> gds_query \<Rightarrow> ('db, pydict list) prog" where
  "execute_gds client q db = (case client db q of
     (db', Inl (ClientError e text)) \<Rightarrow> (db', Inl (if is_missing_gds_error text then RuntimeError else e))
   | (db', Inr rows) \<Rightarrow> (db', Inr rows))"

definition execute_read :: "'db client \<Rightarrow> gds_query \<Rightarrow> ('db, pydict list) prog" where
  "execute_read client q db = (case client db q of
     (db', Inl (ClientError e text)) \<Rightarrow> (db', Inl e) | (db', Inr rows) \<Rightarrow> (db', Inr rows))"

definition drop_projection_if_exists :: "'db client \<Rightarrow> string \<Rightarrow> ('db, unit) prog" where
  "drop_projection_if_exists client name =
     db_bind (execute_gds client (GraphExists name)) (\<lambda>rows.
       if rows \<noteq> [] \<and> dget (hd rows) ''exists'' = PBool True
       then db_bind (execute_gds client (GraphDrop name)) (\<lambda>_. db_return (Inr ()))
       else db_return (Inr ()))"

section \<open>A runner\<close>

text \<open>The characters that the name of a projection keeps; cycle ids are ASCII.\<close>

definition char_ok :: "char \<Rightarrow> bool" where
  "char_ok c \<longleftrightarrow> is_digit c \<or> lower_char c \<noteq> upper_char c \<or> c = CHR ''_''"

definition strip_underscores :: "string \<Rightarrow> string" where
  "strip_underscores s = rev (dropWhile ((=) CHR ''_'') (rev (dropWhile ((=) CHR ''_'') s)))"

definition default_projection_name :: "string \<Rightarrow> string \<Rightarrow> propagation_context \<Rightarrow> string" where
  "default_projection_name channel uid ctx =
     (let component = strip_underscores (map (\<lambda>c. if char_ok c then c else CHR ''_'') (px_cycle_id ctx));
          component = take 64 (if component = [] then ''cycle'' else component) in
      ''graph_engine_'' @ channel @ ''_'' @ component @ ''_'' @ take 8 uid)"

definition float_value :: "real \<Rightarrow> pyval \<Rightarrow> real res" where
  "float_value d v = (if v = PNone then Inr d else py_float v)"

definition string_list :: "pyval \<Rightarrow> string list" where
  "string_list v = (case v of PList vs \<Rightarrow> sort (map py_str vs) | _ \<Rightarrow> [])"

definition create_projection :: "'db client \<Rightarrow> string \<Rightarrow> string \<Rightarrow> ('db, int) prog" where
  "create_projection client channel name =
     db_bind (execute_gds client (GraphProject name (effective_channel_selector channel ''relationship''))) (\<lambda>rows.
       db_return (if rows = [] then Inr 0 else py_int (py_or (dget (hd rows) ''relationshipCount'') (PInt 0))))"

definition pagerank_entity :: "string \<Rightarrow> pydict \<Rightarrow> (real \<times> string \<times> pydict) res" where
  "pagerank_entity channel row =
     (let stable = py_str (py_or (py_or (dget row ''stable_node_id'') (dget row ''node_id'')) (PStr [])) in
      res_map (\<lambda>score. (score, stable,
        [(''channel'', PStr channel), (''node_id'', dget row ''node_id''),
         (''canonical_entity_id'', dget row ''canonical_entity_id''),
         (''labels'', PList (map PStr (string_list (dget row ''labels'')))),
         (''score'', PFloat score), (''stable_node_id'', PStr stable)]))
       (float_value 0 (dget row ''score'')))"

definition stream_pagerank :: "'db client \<Rightarrow> string \<Rightarrow> string \<Rightarrow> int \<Rightarrow> int \<Rightarrow> ('db, pydict list) prog" where
  "stream_pagerank client channel name max_iterations result_limit =
     db_bind (execute_gds client (PageRankStream name max_iterations result_limit)) (\<lambda>rows.
       db_return (res_map (\<lambda>es. take (nat result_limit) (map (snd \<circ> snd) (sort_key (\<lambda>(s, k, e). (- s, k)) es)))
         (res_list (pagerank_entity channel) rows)))"

definition activated_path :: "string \<Rightarrow> real \<Rightarrow> real \<Rightarrow> pydict \<Rightarrow> (real \<times> pydict) res" where
  "activated_path channel cm rm row =
     res_bind (float_value 1 (dget row ''relation_weight'')) (\<lambda>w.
     res_bind (float_value 1 (dget row ''evidence_confidence'')) (\<lambda>e.
     res_bind (float_value 1 (dget row ''recency_decay'')) (\<lambda>d.
     res_map (\<lambda>refs. (propagation_path_score w e cm rm d,
       [(''channel'', PStr channel),
        (''source_node_id'', dget row ''source_node_id''),
        (''source_entity_id'', dget row ''source_entity_id''),
        (''source_labels'', PList (map PStr (string_list (dget row ''source_labels'')))),
        (''target_node_id'', dget row ''target_node_id''),
        (''target_entity_id'', dget row ''target_entity_id''),
        (''target_labels'', PList (map PStr (string_list (dget row ''target_labels'')))),
        (''edge_id'', dget row ''edge_id''),
        (''relationship_type'', dget row ''relationship_type''),
        (''evidence_refs'', PList (map PStr refs)),
        (''source_canonical_id_rule_version'', dget row ''source_canonical_id_rule_version''),
        (''target_canonical_id_rule_version'', dget row ''target_canonical_id_rule_version''),
        (''score'', PFloat (propagation_path_score w e cm rm d)),
        (''explanation'', PDict (build_score_explanation w e cm rm d))]))
       (evidence_refs_from_mapping row))))"

definition path_order :: "real \<times> pydict \<Rightarrow> real \<times> string \<times> string \<times> string \<times> string" where
  "path_order entry = (case entry of (score, p) \<Rightarrow>
     (- score, py_str (dget p ''source_node_id''), py_str (dget p ''relationship_type''),
      py_str (dget p ''target_node_id''), py_str (dget p ''edge_id'')))"

definition context_multiplier :: "string \<Rightarrow> (string \<times> real) list \<Rightarrow> real" where
  "context_multiplier channel table = (case map_of table channel of None \<Rightarrow> 1 | Some x \<Rightarrow> x)"

definition read_activated_paths ::
  "'db client \<Rightarrow> string \<Rightarrow> propagation_context \<Rightarrow> int \<Rightarrow> ('db, (real \<times> pydict) list) prog" where
  "read_activated_paths client channel ctx result_limit =
     (let cm = context_multiplier channel (px_channel_multipliers ctx);
          rm = context_multiplier channel (px_regime_multipliers ctx) in
      db_bind (execute_read client (ReadPaths (effective_channel_selector channel ''relationship'') cm rm result_limit)) (\<lambda>rows.
        db_return (res_map (\<lambda>ps. take (nat result_limit) (sort_key path_order ps))
          (res_list (activated_path channel cm rm) rows))))"

text \<open>The impact on a node, and its payload.\<close>

record impact =
  im_node_id :: pyval
  im_entity_id :: pyval
  im_labels :: "string list"
  im_score :: real
  im_stable :: string
  im_pagerank :: real
  im_path_count :: int

definition impact_dict :: "string \<Rightarrow> impact \<Rightarrow> pydict" where
  "impact_dict channel i =
     [(''channel'', PStr channel), (''node_id'', im_node_id i), (''canonical_entity_id'', im_entity_id i),
      (''labels'', PList (map PStr (im_labels i))), (''score'', PFloat (im_score i)),
      (''stable_node_id'', PStr (im_stable i)), (''pagerank_score'', PFloat (im_pagerank i)),
      (''path_count'', PInt (im_path_count i))]"

definition pagerank_scores :: "pydict list \<Rightarrow> (string \<times> real) list res" where
  "pagerank_scores entities =
     res_fold (\<lambda>e t. if dget e ''node_id'' = PNone then Inr t
                     else res_map (\<lambda>x. dput (py_str (dget e ''node_id'')) x t) (float_value 0 (dget e ''score'')))
       entities []"

definition fresh_impact :: "(string \<times> real) list \<Rightarrow> pydict \<Rightarrow> impact" where
  "fresh_impact ranks p =
     (let node = py_str (dget p ''target_node_id'') in
      \<lparr>im_node_id = dget p ''target_node_id'', im_entity_id = dget p ''target_entity_id'',
       im_labels = string_list (dget p ''target_labels''), im_score = 0, im_stable = node,
       im_pagerank = (case map_of ranks node of None \<Rightarrow> 0 | Some x \<Rightarrow> x), im_path_count = 0\<rparr>)"

definition add_impact :: "(string \<times> real) list \<Rightarrow> real \<times> pydict \<Rightarrow> (string \<times> impact) list \<Rightarrow> (string \<times> impact) list" where
  "add_impact ranks entry table = (case entry of (score, p) \<Rightarrow>
     if dget p ''target_node_id'' = PNone then table
     else
       (let node = py_str (dget p ''target_node_id'');
            old = (case map_of table node of Some i \<Rightarrow> i | None \<Rightarrow> fresh_impact ranks p) in
        dput node (old\<lparr>im_score := im_score old + score, im_path_count := im_path_count old + 1\<rparr>) table))"

definition impacted_entities_from_paths ::
  "(real \<times> pydict) list \<Rightarrow> pydict list \<Rightarrow> int \<Rightarrow> impact list res" where
  "impacted_entities_from_paths paths pagerank result_limit =
     res_map (\<lambda>ranks. take (nat result_limit)
         (sort_key (\<lambda>i. (- im_score i, im_stable i)) (map snd (fold (add_impact ranks) paths []))))
       (pagerank_scores pagerank)"

record propagation_result =
  pr_cycle_id :: string
  pr_generation :: int
  pr_paths :: "pydict list"
  pr_entities :: "pydict list"
  pr_breakdown :: pydict

definition new_propagation_result :: "propagation_result \<Rightarrow> propagation_result res" where
  "new_propagation_result r =
     (let r = r\<lparr>pr_cycle_id := py_strip (pr_cycle_id r)\<rparr> in
      if pr_cycle_id r = [] \<or> pr_generation r < 0 then Inl ValueError else Inr r)"

definition channel_breakdown :: "string \<Rightarrow> propagation_context \<Rightarrow> (real \<times> pydict) list \<Rightarrow> impact list \<Rightarrow> pydict" where
  "channel_breakdown channel ctx paths impacts =
     [(channel, PDict
        [(''relationship_types'', PList (map PStr (relationship_types_for_channel channel))),
         (''path_selector'', PStr (effective_channel_selector channel ''relationship'')),
         (''path_count'', PInt (int (length paths))),
         (''impacted_entity_count'', PInt (int (length impacts))),
         (''total_path_score'', PFloat (sum_list (map fst paths))),
         (''channel_multiplier'', PFloat (context_multiplier channel (px_channel_multipliers ctx))),
         (''regime_multiplier'', PFloat (context_multiplier channel (px_regime_multipliers ctx)))])]"

definition read_channel ::
  "'db client \<Rightarrow> string \<Rightarrow> propagation_context \<Rightarrow> string \<Rightarrow> int \<Rightarrow> int \<Rightarrow> ('db, pydict list \<times> (real \<times> pydict) list) prog" where
  "read_channel client channel ctx name max_iterations result_limit =
     db_bind (create_projection client channel name) (\<lambda>count.
       if count = 0 then db_return (Inr ([], []))
       else
         db_bind (stream_pagerank client channel name max_iterations result_limit) (\<lambda>entities.
         db_bind (read_activated_paths client channel ctx result_limit) (\<lambda>paths.
           db_return (Inr (entities, paths)))))"

definition projection_name_of :: "string \<Rightarrow> string \<Rightarrow> propagation_context \<Rightarrow> string option \<Rightarrow> string" where
  "projection_name_of channel uid ctx graph_name = (case graph_name of
     Some (c # cs) \<Rightarrow> c # cs | _ \<Rightarrow> default_projection_name channel uid ctx)"

definition run_projected ::
  "string \<Rightarrow> 'db client \<Rightarrow> propagation_context \<Rightarrow> string \<Rightarrow> int \<Rightarrow> int \<Rightarrow> ('db, propagation_result) prog" where
  "run_projected channel client ctx name max_iterations result_limit =
     db_bind (drop_projection_if_exists client name) (\<lambda>_.
     db_bind (db_finally (read_channel client channel ctx name max_iterations result_limit)
                (drop_projection_if_exists client name)) (\<lambda>(entities, paths).
       db_return
         (res_bind (impacted_entities_from_paths paths entities result_limit) (\<lambda>impacts.
          new_propagation_result
            \<lparr>pr_cycle_id = px_cycle_id ctx, pr_generation = px_generation ctx, pr_paths = map snd paths,
             pr_entities = map (impact_dict channel) impacts,
             pr_breakdown = channel_breakdown channel ctx paths impacts\<rparr>))))"

definition run_channel ::
  "string \<Rightarrow> 'db client \<Rightarrow> neo4j_graph_status option \<Rightarrow> string \<Rightarrow> propagation_context \<Rightarrow> string option \<Rightarrow> int \<Rightarrow> int \<Rightarrow>
   ('db, propagation_result) prog" where
  "run_channel channel client row uid ctx graph_name max_iterations result_limit =
     (if channel \<notin> set (px_channels ctx) then db_return (Inl PermissionError)
      else if max_iterations < 1 \<or> result_limit < 1 then db_return (Inl ValueError)
      else
        db_bind (db_return (require_ready row)) (\<lambda>ready.
          if graph_generation_id ready \<noteq> px_generation ctx then db_return (Inl ValueError)
          else run_projected channel client ctx (projection_name_of channel uid ctx graph_name)
                 max_iterations result_limit))"

definition run_fundamental_propagation where
  "run_fundamental_propagation = run_channel ''fundamental''"

definition run_event_propagation where
  "run_event_propagation = run_channel ''event''"

definition run_reflexive_propagation where
  "run_reflexive_propagation = run_channel ''reflexive''"

section \<open>Sequences of queries\<close>

lemma db_bind_Inr: "db_bind p f db = (db', Inr y) \<longleftrightarrow> (\<exists>db1 x. p db = (db1, Inr x) \<and> f x db1 = (db', Inr y))"
  by (auto simp: db_bind_def split: prod.splits sum.splits)

lemma db_return_Inr: "db_return r db = (db', Inr y) \<longleftrightarrow> db' = db \<and> r = Inr y"
  by (auto simp: db_return_def)

lemma db_finally_Inr: "db_finally p q db = (db', Inr y) \<longleftrightarrow> (\<exists>db1 u. p db = (db1, Inr y) \<and> q db1 = (db', Inr u))"
  by (auto simp: db_finally_def split: prod.splits sum.splits)

lemmas prog_Inr = db_bind_Inr db_return_Inr db_finally_Inr

text \<open>A program that keeps a relation to the state it started in, whatever it answers.\<close>

definition keeps :: "('db \<Rightarrow> 'db \<Rightarrow> bool) \<Rightarrow> ('db, 'a) prog \<Rightarrow> bool" where
  "keeps R p \<longleftrightarrow> (\<forall>db. R db (fst (p db)))"

lemma keepsD: "keeps R p \<Longrightarrow> p db = (db', r) \<Longrightarrow> R db db'"
  by (metis keeps_def fst_conv)

lemma keeps_bind:
  assumes "transp R" and "keeps R p" and "\<And>x. keeps R (f x)"
  shows "keeps R (db_bind p f)"
  unfolding keeps_def
proof
  fix db
  obtain db1 r where 1: "p db = (db1, r)" by fastforce
  then have "R db db1" using assms(2) by (rule keepsD [rotated])
  then show "R db (fst (db_bind p f db))"
  proof (cases r)
    case (Inr x)
    have "R db1 (fst (f x db1))" using assms(3) by (simp add: keeps_def)
    with \<open>R db db1\<close> show ?thesis using assms(1) by (auto simp: db_bind_def 1 Inr dest: transpD)
  qed (simp add: db_bind_def 1)
qed

lemma keeps_return: "reflp R \<Longrightarrow> keeps R (db_return r)"
  by (simp add: keeps_def db_return_def reflp_def)

lemma keeps_if: "(b \<Longrightarrow> keeps R p) \<Longrightarrow> (\<not> b \<Longrightarrow> keeps R q) \<Longrightarrow> keeps R (if b then p else q)"
  by simp

section \<open>The impacts of the paths\<close>

definition path_score :: "pydict \<Rightarrow> real" where
  "path_score p = (case dget p ''score'' of PFloat x \<Rightarrow> x | _ \<Rightarrow> 0)"

definition leads_to :: "string \<Rightarrow> pydict \<Rightarrow> bool" where
  "leads_to node p \<longleftrightarrow> dget p ''target_node_id'' \<noteq> PNone \<and> py_str (dget p ''target_node_id'') = node"

definition has_target :: "pydict \<Rightarrow> bool" where
  "has_target p \<longleftrightarrow> dget p ''target_node_id'' \<noteq> PNone"

definition reached_nodes :: "pydict list \<Rightarrow> string set" where
  "reached_nodes ps = (\<lambda>p. py_str (dget p ''target_node_id'')) ` set (filter has_target ps)"

definition impact_on :: "pydict list \<Rightarrow> string \<Rightarrow> impact \<Rightarrow> bool" where
  "impact_on ps node i \<longleftrightarrow> im_stable i = node \<and> im_score i = sum_list (map path_score (filter (leads_to node) ps)) \<and>
     im_path_count i = int (length (filter (leads_to node) ps))"

definition scored :: "real \<times> pydict \<Rightarrow> bool" where
  "scored entry \<longleftrightarrow> dget (snd entry) ''score'' = PFloat (fst entry)"

lemma leads_to_other: "node' \<noteq> node \<Longrightarrow> leads_to node p \<Longrightarrow> \<not> leads_to node' p"
  by (auto simp: leads_to_def)

lemma add_impact_skip: "dget p ''target_node_id'' = PNone \<Longrightarrow> add_impact ranks (score, p) T = T"
  by (simp add: add_impact_def)

lemma reached_iff: "node \<in> reached_nodes ps \<longleftrightarrow> (\<exists>p \<in> set ps. leads_to node p)"
  by (auto simp: reached_nodes_def leads_to_def has_target_def)

lemma impacts_of_paths:
  fixes ranks :: "(string \<times> real) list"
  assumes "list_all scored paths"
  defines "T \<equiv> fold (add_impact ranks) paths []" and "ps \<equiv> map snd paths"
  shows "dict_wf T \<and> fst ` set T = reached_nodes ps \<and> (\<forall>(node, i) \<in> set T. impact_on ps node i)"
  using assms(1) unfolding T_def ps_def
proof (induction paths rule: rev_induct)
  case Nil
  then show ?case by (simp add: reached_nodes_def)
next
  case (snoc entry paths)
  obtain score p where entry: "entry = (score, p)" by (cases entry)
  let ?T = "fold (add_impact ranks) paths []" and ?ps = "map snd paths"
  have IH: "dict_wf ?T" "fst ` set ?T = reached_nodes ?ps" "\<forall>(node, i) \<in> set ?T. impact_on ?ps node i"
    using snoc by simp_all
  have sc: "path_score p = score" using snoc.prems by (simp add: entry scored_def path_score_def)
  show ?case
  proof (cases "dget p ''target_node_id'' = PNone")
    case True
    then have "\<not> leads_to node p" for node by (simp add: leads_to_def)
    then show ?thesis
      using IH by (simp add: entry add_impact_skip [OF True]) (use True in \<open>auto simp: reached_nodes_def has_target_def impact_on_def\<close>)
  next
    case False
    let ?n = "py_str (dget p ''target_node_id'')"
    have r: "leads_to node p \<longleftrightarrow> node = ?n" for node using False by (auto simp: leads_to_def)
    obtain old where old: "fold (add_impact ranks) (paths @ [entry]) [] =
        dput ?n (old\<lparr>im_score := im_score old + score, im_path_count := im_path_count old + 1\<rparr>) ?T"
      "impact_on ?ps ?n old"
    proof (cases "map_of ?T ?n")
      case None
      then have "?n \<notin> reached_nodes ?ps" using IH(2) by (metis map_of_eq_None_iff)
      then have "filter (leads_to ?n) ?ps = []" by (auto simp: reached_iff filter_empty_conv)
      then have "impact_on ?ps ?n (fresh_impact ranks p)" by (simp add: impact_on_def fresh_impact_def Let_def)
      then show thesis using that [of "fresh_impact ranks p"] False by (simp add: entry add_impact_def None Let_def)
    next
      case (Some i)
      then have "impact_on ?ps ?n i" using IH(3) by (auto dest: map_of_SomeD)
      then show thesis using that [of i] False by (simp add: entry add_impact_def Some Let_def)
    qed
    let ?new = "old\<lparr>im_score := im_score old + score, im_path_count := im_path_count old + 1\<rparr>"
    have new: "impact_on (?ps @ [p]) ?n ?new" using old(2) sc by (simp add: impact_on_def r)
    have "impact_on (?ps @ [p]) node i" if "(node, i) \<in> set (dput ?n ?new ?T)" for node i
    proof -
      have wf: "dict_wf (dput ?n ?new ?T)" using IH(1) by simp
      then have m: "map_of (dput ?n ?new ?T) node = Some i"
        using that by (simp add: dict_wf_def map_of_is_SomeI)
      show ?thesis
      proof (cases "node = ?n")
        case True
        then show ?thesis using m new by simp
      next
        case neq: False
        then have "(node, i) \<in> set ?T" using m by (auto dest: map_of_SomeD)
        then have "impact_on ?ps node i" using IH(3) by auto
        then show ?thesis using neq by (simp add: impact_on_def r)
      qed
    qed
    moreover have "reached_nodes (?ps @ [p]) = insert ?n (reached_nodes ?ps)"
      using False by (auto simp: reached_nodes_def has_target_def)
    moreover have "map snd (paths @ [entry]) = ?ps @ [p]" by (simp add: entry)
    ultimately show ?thesis using IH(1,2) unfolding old(1) by (auto simp only: dict_wf_dput set_map_fst_dput simp_thms)
  qed
qed

text \<open>Each path with a target counts for exactly one node, so the impacts add up to the paths.\<close>

lemma impacts_add_up:
  "finite N \<Longrightarrow> reached_nodes ps \<subseteq> N \<Longrightarrow>
   (\<Sum>node \<in> N. sum_list (map path_score (filter (leads_to node) ps))) = sum_list (map path_score (filter has_target ps))"
proof (induction ps)
  case Nil
  then show ?case by simp
next
  case (Cons p ps)
  then have N: "reached_nodes ps \<subseteq> N" by (auto simp: reached_iff)
  have "(\<Sum>node \<in> N. sum_list (map path_score (filter (leads_to node) (p # ps)))) =
      (\<Sum>node \<in> N. if leads_to node p then path_score p else 0) + (\<Sum>node \<in> N. sum_list (map path_score (filter (leads_to node) ps)))"
    by (subst sum.distrib [symmetric]) (intro sum.cong refl, simp)
  also have "(\<Sum>node \<in> N. if leads_to node p then path_score p else 0) = (if has_target p then path_score p else 0)"
  proof (cases "has_target p")
    case True
    let ?n = "py_str (dget p ''target_node_id'')"
    have "leads_to node p \<longleftrightarrow> node = ?n" for node using True by (auto simp: leads_to_def has_target_def)
    moreover have "?n \<in> N" using Cons.prems(2) True by (auto simp: reached_nodes_def)
    ultimately show ?thesis using Cons.prems(1) True by (simp add: sum.delta)
  qed (simp add: leads_to_def has_target_def)
  finally show ?case using Cons.IH [OF Cons.prems(1) N] by simp
qed

lemma sum_list_of_keys:
  assumes "distinct (map fst T)"
  shows "sum_list (map (\<lambda>e. f (fst e) :: real) T) = (\<Sum>k \<in> fst ` set T. f k)"
proof -
  have "sum_list (map (\<lambda>e. f (fst e)) T) = sum_list (map f (map fst T))" by (simp add: comp_def)
  also have "\<dots> = (\<Sum>k \<in> set (map fst T). f k)" by (rule sum_list_distinct_conv_sum_set [OF assms])
  finally show ?thesis by simp
qed

section \<open>What a run answers\<close>

text \<open>A path explains its score: the product of the factors it lists, the two multipliers being those of
  the context.\<close>

definition score_factor :: "pydict \<Rightarrow> string \<Rightarrow> real" where
  "score_factor p k = (case dget (as_dict (dget p ''explanation'')) k of PFloat x \<Rightarrow> x | _ \<Rightarrow> 0)"

definition explains :: "string \<Rightarrow> propagation_context \<Rightarrow> pydict \<Rightarrow> bool" where
  "explains channel ctx p \<longleftrightarrow>
     dget p ''channel'' = PStr channel \<and>
     score_factor p ''channel_multiplier'' = context_multiplier channel (px_channel_multipliers ctx) \<and>
     score_factor p ''regime_multiplier'' = context_multiplier channel (px_regime_multipliers ctx) \<and>
     path_score p = score_factor p ''relation_weight'' * score_factor p ''evidence_confidence'' * score_factor p ''channel_multiplier'' *
       score_factor p ''regime_multiplier'' * score_factor p ''recency_decay'' \<and>
     score_factor p ''score'' = path_score p"

definition entity_text :: "pydict \<Rightarrow> string" where
  "entity_text e = py_str (dget e ''stable_node_id'')"

definition impact_entry :: "string \<Rightarrow> pydict list \<Rightarrow> pydict \<Rightarrow> bool" where
  "impact_entry channel ps e \<longleftrightarrow>
     dget e ''channel'' = PStr channel \<and>
     path_score e = sum_list (map path_score (filter (leads_to (entity_text e)) ps)) \<and>
     dget e ''path_count'' = PInt (int (length (filter (leads_to (entity_text e)) ps)))"

lemma activated_path_facts:
  assumes "activated_path channel cm rm row = Inr entry"
  shows "scored entry" "dget (snd entry) ''channel'' = PStr channel"
    "cm = context_multiplier channel (px_channel_multipliers ctx) \<Longrightarrow>
     rm = context_multiplier channel (px_regime_multipliers ctx) \<Longrightarrow> explains channel ctx (snd entry)"
  using assms
  by (auto simp: activated_path_def res_bind_eq_Inr res_map_eq_Inr scored_def explains_def path_score_def score_factor_def
      build_score_explanation_def propagation_path_score_def)

lemma read_paths_facts:
  assumes "read_activated_paths client channel ctx limit db = (db', Inr paths)"
  shows "list_all scored paths" "list_all (explains channel ctx) (map snd paths)" "length paths \<le> nat limit"
    "sorted (map (\<lambda>p. - path_score p) (map snd paths))"
proof -
  let ?cm = "context_multiplier channel (px_channel_multipliers ctx)" and ?rm = "context_multiplier channel (px_regime_multipliers ctx)"
  obtain rows ps where ps: "res_list (activated_path channel ?cm ?rm) rows = Inr ps"
    and paths: "paths = take (nat limit) (sort_key path_order ps)"
    using assms by (auto simp: read_activated_paths_def Let_def prog_Inr res_map_eq_Inr)
  have sub: "set paths \<subseteq> set ps" using set_take_subset [of "nat limit" "sort_key path_order ps"] by (simp add: paths)
  have row: "\<exists>row. activated_path channel ?cm ?rm row = Inr entry" if "entry \<in> set ps" for entry
    using res_list_in [OF ps that] by auto
  have s: "scored entry \<and> explains channel ctx (snd entry)" if "entry \<in> set paths" for entry
  proof -
    from row [of entry] that sub obtain r where "activated_path channel ?cm ?rm r = Inr entry" by blast
    from activated_path_facts(1,3) [OF this] show ?thesis by simp
  qed
  then show "list_all scored paths" "list_all (explains channel ctx) (map snd paths)" by (simp_all add: list_all_iff)
  show "length paths \<le> nat limit" by (simp add: paths)
  have "sorted (map path_order paths)" by (simp add: paths take_map [symmetric] sorted_wrt_take)
  moreover have "- path_score (snd a) \<le> - path_score (snd b)" if "path_order a \<le> path_order b" "a \<in> set paths" "b \<in> set paths" for a b
    using that s [of a] s [of b] by (cases a; cases b) (auto simp: path_order_def scored_def path_score_def)
  ultimately show "sorted (map (\<lambda>p. - path_score p) (map snd paths))"
    by (auto simp: sorted_iff_nth_mono)
qed

lemma run_channel_cases:
  assumes "run_channel channel client row uid ctx graph_name max_iterations limit db = (db', Inr r)"
  obtains s name db1 db2 db3 entities paths impacts ranks where
    "channel \<in> set (px_channels ctx)" "1 \<le> max_iterations" "1 \<le> limit"
    "require_ready row = Inr s" "graph_generation_id s = px_generation ctx"
    "name = projection_name_of channel uid ctx graph_name"
    "drop_projection_if_exists client name db = (db1, Inr ())"
    "read_channel client channel ctx name max_iterations limit db1 = (db2, Inr (entities, paths))"
    "drop_projection_if_exists client name db2 = (db', Inr ())"
    "pagerank_scores entities = Inr ranks"
    "impacts = take (nat limit) (sort_key (\<lambda>i. (- im_score i, im_stable i)) (map snd (fold (add_impact ranks) paths [])))"
    "r = \<lparr>pr_cycle_id = py_strip (px_cycle_id ctx), pr_generation = px_generation ctx, pr_paths = map snd paths,
          pr_entities = map (impact_dict channel) impacts, pr_breakdown = channel_breakdown channel ctx paths impacts\<rparr>"
  using assms
  by (auto simp: run_channel_def run_projected_def prog_Inr res_bind_eq_Inr res_map_eq_Inr impacted_entities_from_paths_def
      new_propagation_result_def Let_def split: if_splits)

lemma read_channel_paths:
  assumes "read_channel client channel ctx name n limit db = (db', Inr (entities, paths))"
  shows "list_all scored paths" "list_all (explains channel ctx) (map snd paths)" "length paths \<le> nat limit"
    "sorted (map (\<lambda>p. - path_score p) (map snd paths))"
proof -
  consider "paths = []" | db1 db2 where "read_activated_paths client channel ctx limit db1 = (db2, Inr paths)"
    using assms by (auto simp: read_channel_def prog_Inr split: if_splits)
  then have "list_all scored paths \<and> list_all (explains channel ctx) (map snd paths) \<and> length paths \<le> nat limit \<and>
    sorted (map (\<lambda>p. - path_score p) (map snd paths))"
  proof cases
    case 1
    then show ?thesis by simp
  next
    case 2
    from read_paths_facts [OF 2] show ?thesis by blast
  qed
  then show "list_all scored paths" "list_all (explains channel ctx) (map snd paths)" "length paths \<le> nat limit"
    "sorted (map (\<lambda>p. - path_score p) (map snd paths))" by simp_all
qed

lemma impact_dict_fields [simp]:
  "path_score (impact_dict channel i) = im_score i" "entity_text (impact_dict channel i) = im_stable i"
  "dget (impact_dict channel i) ''path_count'' = PInt (im_path_count i)" "dget (impact_dict channel i) ''channel'' = PStr channel"
  "dget (impact_dict channel i) ''node_id'' = im_node_id i" "dget (impact_dict channel i) ''canonical_entity_id'' = im_entity_id i"
  by (simp_all add: impact_dict_def path_score_def entity_text_def)

lemma mset_map_eq: "mset xs = mset ys \<Longrightarrow> mset (map f xs) = mset (map f ys)"
  by (metis mset_map)

lemma sum_list_mset_eq: "mset xs = mset ys \<Longrightarrow> sum_list (map f xs :: real list) = sum_list (map f ys)"
  by (metis mset_map sum_mset_sum_list)

lemma sorted_first: "sorted (map (\<lambda>x. (f x :: 'a :: linorder, g x :: 'b :: linorder)) xs) \<Longrightarrow> sorted (map f xs)"
  by (induction xs) (fastforce simp: less_eq_prod_def)+

lemma card_reached: "card (reached_nodes ps) \<le> length ps"
proof -
  have "reached_nodes ps = set (map (\<lambda>p. py_str (dget p ''target_node_id'')) (filter has_target ps))"
    by (simp add: reached_nodes_def)
  then have "card (reached_nodes ps) \<le> length (filter has_target ps)" by (metis card_length length_map)
  then show ?thesis using length_filter_le le_trans by blast
qed

lemma channel_run_facts:
  assumes run: "run_channel channel client row uid ctx graph_name max_iterations limit db = (db', Inr r)"
  defines "ps \<equiv> pr_paths r" and "es \<equiv> pr_entities r"
  shows "channel \<in> set (px_channels ctx)" "case require_ready row of Inl e \<Rightarrow> False | Inr s \<Rightarrow> graph_generation_id s = px_generation ctx"
    "int (length ps) \<le> limit" "sorted (map (\<lambda>p. - path_score p) ps)" "list_all (explains channel ctx) ps"
    "distinct (map entity_text es)" "set (map entity_text es) = reached_nodes ps"
    "sorted (map (\<lambda>e. - path_score e) es)" "list_all (impact_entry channel ps) es"
    "sum_list (map path_score es) = sum_list (map path_score (filter has_target ps))"
    "list_all (\<lambda>p. dget p ''score'' = PFloat (path_score p)) (ps @ es)"
proof -
  obtain s name db1 db2 entities paths impacts ranks where
    guards: "channel \<in> set (px_channels ctx)" "1 \<le> limit" "require_ready row = Inr s" "graph_generation_id s = px_generation ctx"
    and read: "read_channel client channel ctx name max_iterations limit db1 = (db2, Inr (entities, paths))"
    and impacts: "impacts = take (nat limit) (sort_key (\<lambda>i. (- im_score i, im_stable i)) (map snd (fold (add_impact ranks) paths [])))"
    and r: "r = \<lparr>pr_cycle_id = py_strip (px_cycle_id ctx), pr_generation = px_generation ctx, pr_paths = map snd paths,
          pr_entities = map (impact_dict channel) impacts, pr_breakdown = channel_breakdown channel ctx paths impacts\<rparr>"
    by (rule run_channel_cases [OF run])
  note paths = read_channel_paths [OF read]
  have ps: "ps = map snd paths" and es: "es = map (impact_dict channel) impacts" by (simp_all add: ps_def es_def r)
  let ?T = "fold (add_impact ranks) paths []"
  have T: "dict_wf ?T" "fst ` set ?T = reached_nodes ps" "\<forall>(node, i) \<in> set ?T. impact_on ps node i"
    using impacts_of_paths [OF paths(1), of ranks] by (simp_all add: ps)
  note card_reached [of ps]
  moreover have "length ?T = card (fst ` set ?T)" using distinct_card [of "map fst ?T"] T(1) by (simp add: dict_wf_def)
  ultimately have "length ?T \<le> nat limit" using paths(3) T(2) by (simp add: ps)
  then have impacts': "impacts = sort_key (\<lambda>i. (- im_score i, im_stable i)) (map snd ?T)" by (simp add: impacts)
  have mset: "mset impacts = mset (map snd ?T)" unfolding impacts' by simp
  have stable: "map im_stable (map snd ?T) = map fst ?T" using T(3) by (auto simp: impact_on_def)
  have "mset (map entity_text es) = mset (map fst ?T)"
    using mset_map_eq [OF mset, of im_stable] unfolding stable by (simp add: es comp_def)
  then have d: "distinct (map entity_text es)" "set (map entity_text es) = reached_nodes ps"
    using T(1,2) mset_eq_imp_distinct_iff mset_eq_setD unfolding dict_wf_def by (metis, metis list.set_map)
  have entries: "list_all (impact_entry channel ps) es"
    using T(3) mset_eq_setD [OF mset] by (auto simp: es list_all_iff impact_entry_def impact_on_def)
  have "sorted (map (\<lambda>i. (- im_score i, im_stable i)) impacts)" unfolding impacts' by simp
  then have "sorted (map (\<lambda>i. - im_score i) impacts)" by (rule sorted_first)
  then have "sorted (map (\<lambda>e. - path_score e) es)" by (simp add: es comp_def)
  moreover have "sum_list (map path_score es) = sum_list (map path_score (filter has_target ps))"
  proof -
    have "sum_list (map path_score es) = sum_list (map im_score (map snd ?T))"
      using sum_list_mset_eq [OF mset, of im_score] by (simp add: es comp_def)
    also have "\<dots> = sum_list (map (\<lambda>e. sum_list (map path_score (filter (leads_to (fst e)) ps))) ?T)"
    proof -
      have "map im_score (map snd ?T) = map (\<lambda>e. sum_list (map path_score (filter (leads_to (fst e)) ps))) ?T"
        using T(3) by (auto simp: impact_on_def case_prod_beta)
      then show ?thesis by (simp only:)
    qed
    also have "\<dots> = sum_list (map path_score (filter has_target ps))"
      using sum_list_of_keys [of ?T "\<lambda>n. sum_list (map path_score (filter (leads_to n) ps))"] T(1,2)
        impacts_add_up [of "reached_nodes ps" ps] by (simp add: dict_wf_def reached_nodes_def)
    finally show ?thesis .
  qed
  moreover have "int (length ps) \<le> limit" using paths(3) guards(2) by (simp add: ps)
  moreover have "list_all (\<lambda>p. dget p ''score'' = PFloat (path_score p)) (ps @ es)"
    using paths(1) by (auto simp: ps es list_all_iff scored_def path_score_def impact_dict_def)
  ultimately show "channel \<in> set (px_channels ctx)" "case require_ready row of Inl e \<Rightarrow> False | Inr s \<Rightarrow> graph_generation_id s = px_generation ctx"
    "int (length ps) \<le> limit" "sorted (map (\<lambda>p. - path_score p) ps)" "list_all (explains channel ctx) ps"
    "distinct (map entity_text es)" "set (map entity_text es) = reached_nodes ps"
    "sorted (map (\<lambda>e. - path_score e) es)" "list_all (impact_entry channel ps) es"
    "sum_list (map path_score es) = sum_list (map path_score (filter has_target ps))"
    "list_all (\<lambda>p. dget p ''score'' = PFloat (path_score p)) (ps @ es)"
    using guards paths(2,4) d entries by (simp_all add: ps)
qed

text \<open>C34: A run of a channel, when it answers, has read a ready graph of the generation of its context and
  explains what it says: it lists at most the limit of paths by falling score, each score the product of
  the five factors it lists; it lists every node that a path leads to once, with the sum of the scores and
  the number of the paths to it; and the scores of the nodes add up to those of the paths with a target.\<close>

theorem channel_run_explains_impacts:
  assumes run: "run_channel channel client row uid ctx graph_name max_iterations limit db = (db', Inr r)"
  defines "ps \<equiv> pr_paths r" and "es \<equiv> pr_entities r"
  shows "channel \<in> set (px_channels ctx) \<and>
    (case require_ready row of Inl e \<Rightarrow> False | Inr s \<Rightarrow> graph_generation_id s = px_generation ctx) \<and>
    int (length ps) \<le> limit \<and> sorted (map (\<lambda>p. - path_score p) ps) \<and> list_all (explains channel ctx) ps \<and>
    distinct (map entity_text es) \<and> set (map entity_text es) = reached_nodes ps \<and>
    sorted (map (\<lambda>e. - path_score e) es) \<and> list_all (impact_entry channel ps) es \<and>
    sum_list (map path_score es) = sum_list (map path_score (filter has_target ps))"
  using channel_run_facts [OF run] by (simp add: ps_def es_def)

section \<open>The temporary projection\<close>

definition drops :: "('db \<Rightarrow> string set) \<Rightarrow> string \<Rightarrow> 'db \<Rightarrow> 'db \<Rightarrow> bool" where
  "drops projections name db db' \<longleftrightarrow> projections db' - {name} = projections db - {name}"

lemma drops_order: "reflp (drops projections name)" "transp (drops projections name)"
  by (auto simp: drops_def reflp_def transp_def)

lemma execute_gds_state: "fst (execute_gds client q db) = fst (client db q)" "fst (execute_read client q db) = fst (client db q)"
  by (auto simp: execute_gds_def execute_read_def split: prod.splits sum.splits client_error.splits)

lemma read_channel_drops:
  assumes "\<And>db n s. drops projections n db (fst (client db (GraphProject n s)))"
    and "\<And>db n i l. projections (fst (client db (PageRankStream n i l))) = projections db"
    and "\<And>db s cm rm l. projections (fst (client db (ReadPaths s cm rm l))) = projections db"
  shows "keeps (drops projections name) (read_channel client channel ctx name n limit)"
  unfolding read_channel_def create_projection_def stream_pagerank_def read_activated_paths_def Let_def
proof (intro keeps_bind keeps_if keeps_return drops_order)
  show "keeps (drops projections name) (execute_gds client (GraphProject name s))" for s
    using assms(1) by (simp add: keeps_def execute_gds_state)
  show "keeps (drops projections name) (execute_gds client (PageRankStream m i l))" for m i l
    using assms(2) by (simp add: keeps_def execute_gds_state drops_def)
  show "keeps (drops projections name) (execute_read client (ReadPaths s cm rm l))" for s cm rm l
    using assms(3) by (simp add: keeps_def execute_gds_state drops_def)
qed

lemma require_ready_errors: "require_ready row = Inl e \<Longrightarrow> e = LookupError \<or> e = PermissionError"
  by (auto simp: require_ready_def get_status_def require_ready_status_def res_bind_def split: option.splits if_splits)

lemma run_channel_guards:
  assumes "run_channel channel client row uid ctx graph_name max_iterations limit db = (db', r)"
  shows "db' = db \<and> r \<in> {Inl PermissionError, Inl LookupError, Inl ValueError} \<or>
    run_projected channel client ctx (projection_name_of channel uid ctx graph_name) max_iterations limit db = (db', r)"
  using assms require_ready_errors [of row]
  by (cases "require_ready row") (auto simp: run_channel_def db_bind_def db_return_def split: if_splits)


section \<open>Examples\<close>

definition ex_client :: "pydict list \<Rightarrow> string list client" where
  "ex_client rows db q = (case q of
     GraphExists n \<Rightarrow> (db, Inr [[(''exists'', PBool (n \<in> set db))]])
   | GraphDrop n \<Rightarrow> (removeAll n db, Inr [])
   | GraphProject n s \<Rightarrow> (n # db, Inr [[(''relationshipCount'', PInt 1)]])
   | PageRankStream n i l \<Rightarrow> (db, Inr [])
   | ReadPaths s cm rm l \<Rightarrow> (db, Inr rows))"

definition ex_row :: "string \<Rightarrow> string \<Rightarrow> real \<Rightarrow> pydict" where
  "ex_row node entity w = [(''source_node_id'', PStr ''s''), (''target_node_id'', PStr node), (''target_entity_id'', PStr entity),
     (''edge_id'', PStr ''e''), (''relationship_type'', PStr ''OWNERSHIP''), (''relation_weight'', PFloat w), (''evidence_ref'', PStr ''ref'')]"

definition ex_context :: propagation_context where
  "ex_context = \<lparr>px_cycle_id = ''c'', px_world_state_ref = ''w'', px_generation = 3, px_channels = [''fundamental'', ''event''],
     px_channel_multipliers = [(''fundamental'', 2)], px_regime_multipliers = [], px_decay_policy = [], px_regime_context = []\<rparr>"

definition ex_ready_graph :: neo4j_graph_status where
  "ex_ready_graph = \<lparr>graph_status = Ready, graph_generation_id = 3, node_count = 2, edge_count = 1, key_label_counts = [],
     checksum = ''x'', last_verified_at = None, last_reload_at = None, writer_lock_token = None\<rparr>"

lemma ex_path: "\<exists>p. activated_path channel cm rm (ex_row node entity w) = Inr (w * cm * rm, p) \<and>
   dget p ''target_node_id'' = PStr node \<and> dget p ''target_entity_id'' = PStr entity"
  by (simp add: activated_path_def ex_row_def float_value_def evidence_refs_from_mapping_def sorted_set_def propagation_path_score_def
      py_strip_def is_blank_def char_code_def)

lemma ex_ready_row: "require_ready (Some ex_ready_graph) = Inr ex_ready_graph"
  by (simp add: require_ready_def get_status_def require_ready_status_def ex_ready_graph_def)

lemma ex_channel_run:
  obtains r where "run_channel ''fundamental'' (ex_client [ex_row ''n'' ''E'' (1/2)]) (Some ex_ready_graph) [] ex_context (Some ''g'') 20 100 [''g'', ''h''] = ([''h''], Inr r)"
    "map path_score (pr_paths r) = [1]"
proof -
  have m: "context_multiplier ''fundamental'' (px_channel_multipliers ex_context) = 2"
    "context_multiplier ''fundamental'' (px_regime_multipliers ex_context) = 1" by (simp_all add: context_multiplier_def ex_context_def)
  obtain p where p: "activated_path ''fundamental'' 2 1 (ex_row ''n'' ''E'' (1/2)) = Inr (1, p)" using ex_path [of "''fundamental''" 2 1 "''n''" "''E''" "1/2"] by auto
  have s: "path_score p = 1" using activated_path_facts(1) [OF p] by (simp add: scored_def path_score_def)
  have g: "graph_generation_id ex_ready_graph = px_generation ex_context" "''fundamental'' \<in> set (px_channels ex_context)" "py_strip (px_cycle_id ex_context) = ''c''"
    "px_generation ex_context = 3"
    by (simp_all add: ex_ready_graph_def ex_context_def py_strip_def is_blank_def char_code_def)
  show thesis
    by (rule that)
      (auto simp: run_channel_def run_projected_def db_bind_def db_return_def db_finally_def ex_ready_row g projection_name_of_def
        drop_projection_if_exists_def execute_gds_def execute_read_def ex_client_def read_channel_def create_projection_def py_or_def
        stream_pagerank_def read_activated_paths_def m p impacted_entities_from_paths_def pagerank_scores_def new_propagation_result_def s)
qed

theorem channel_run_explains_impacts_witness:
  "\<exists>r. run_channel ''fundamental'' (ex_client [ex_row ''n'' ''E'' (1/2)]) (Some ex_ready_graph) [] ex_context (Some ''g'') 20 100 [''g'', ''h''] = ([''h''], Inr r) \<and>
     map path_score (pr_paths r) = [1] \<and> sum_list (map path_score (pr_entities r)) = sum_list (map path_score (filter has_target (pr_paths r)))"
proof -
  obtain r where r: "run_channel ''fundamental'' (ex_client [ex_row ''n'' ''E'' (1/2)]) (Some ex_ready_graph) [] ex_context (Some ''g'') 20 100 [''g'', ''h''] = ([''h''], Inr r)"
    "map path_score (pr_paths r) = [1]" by (rule ex_channel_run)
  from channel_run_explains_impacts [OF r(1)] r show ?thesis by (intro exI [of _ r]) simp
qed

end
