(* ===== verification/Impact.thy ===== *)
theory Impact
  imports Propagation
begin

text \<open>
  What becomes of the answers of the channels (\<open>propagation/merge.py\<close>, \<open>propagation/pipeline.py\<close>
  and the impact snapshot of \<open>snapshots/generator.py\<close>): the merge groups the payloads of all channels by
  entity, the pipeline runs the enabled channels and merges their answers, and the snapshot turns the
  merged payloads into references, a direction and a score. The set of the channels of one answer is a
  list without repetitions here; Python leaves its order open.
\<close>

section \<open>Payloads\<close>

definition required_explanation_keys :: "string list" where
  "required_explanation_keys =
     [''relation_weight'', ''evidence_confidence'', ''channel_multiplier'', ''regime_multiplier'', ''recency_decay'', ''score'']"

definition payload_channel :: "pydict \<Rightarrow> string res" where
  "payload_channel payload = (case dget payload ''channel'' of
     PStr c \<Rightarrow> if c = [] \<or> c \<notin> set allowed_channels then Inl ValueError else Inr c
   | _ \<Rightarrow> Inl ValueError)"

definition validate_path :: "pydict \<Rightarrow> unit res" where
  "validate_path p =
     res_bind (payload_channel p) (\<lambda>_.
       case dget p ''explanation'' of
         PDict d \<Rightarrow> if list_all (dhas d) required_explanation_keys then Inr () else Inl ValueError
       | _ \<Rightarrow> Inl ValueError)"

definition result_channels :: "propagation_result \<Rightarrow> string list res" where
  "result_channels r =
     res_bind (res_list payload_channel (pr_paths r)) (\<lambda>a.
     res_bind (res_list payload_channel (pr_entities r)) (\<lambda>b.
       let cs = remdups (a @ b @ filter (\<lambda>c. c \<in> set allowed_channels) (map fst (pr_breakdown r))) in
       if cs = [] then Inl ValueError else Inr cs))"

definition text_or_empty :: "pydict \<Rightarrow> string \<Rightarrow> string" where
  "text_or_empty d k = py_str (py_or (dget d k) (PStr []))"

definition path_sort_key :: "real \<times> pydict \<Rightarrow> real \<times> string \<times> string \<times> string \<times> string \<times> string" where
  "path_sort_key entry = (case entry of (score, p) \<Rightarrow>
     (- score, text_or_empty p ''channel'', text_or_empty p ''source_node_id'', text_or_empty p ''relationship_type'',
      text_or_empty p ''target_node_id'', text_or_empty p ''edge_id''))"

definition entity_key :: "pyval \<Rightarrow> pyval \<Rightarrow> string res" where
  "entity_key canonical node =
     (if canonical \<noteq> PNone \<and> py_str canonical \<noteq> [] then Inr (''canonical:'' @ py_str canonical)
      else if node \<noteq> PNone \<and> py_str node \<noteq> [] then Inr (''node:'' @ py_str node)
      else Inl ValueError)"

definition path_entity_key :: "pyval \<Rightarrow> pyval \<Rightarrow> string option res" where
  "path_entity_key canonical node =
     (if canonical = PNone \<and> node = PNone then Inr None else res_map Some (entity_key canonical node))"

section \<open>Entities\<close>

type_synonym path_counts = "((string \<times> string) \<times> int) list"

definition count_path :: "pydict \<Rightarrow> path_counts \<Rightarrow> path_counts res" where
  "count_path p counts =
     res_bind (payload_channel p) (\<lambda>channel.
     res_map (\<lambda>key. case key of
         None \<Rightarrow> counts
       | Some k \<Rightarrow> dput (k, channel) ((case map_of counts (k, channel) of None \<Rightarrow> 0 | Some n \<Rightarrow> n) + 1) counts)
       (path_entity_key (dget p ''target_entity_id'') (dget p ''target_node_id'')))"

definition entity_path_counts :: "propagation_result list \<Rightarrow> path_counts res" where
  "entity_path_counts results = res_fold (\<lambda>r. res_fold count_path (pr_paths r)) results []"

definition entity_path_count :: "path_counts \<Rightarrow> pydict \<Rightarrow> string \<Rightarrow> string \<Rightarrow> int res" where
  "entity_path_count counts entity key channel =
     (if dget entity ''path_count'' \<noteq> PNone then py_int (dget entity ''path_count'')
      else Inr (case map_of counts (key, channel) of None \<Rightarrow> 0 | Some n \<Rightarrow> n))"

record merged_entity =
  me_canonical :: pyval
  me_node :: pyval
  me_labels :: "string list"
  me_score :: real
  me_channel_scores :: "(string \<times> real) list"
  me_channels :: "string list"
  me_path_count :: int

definition fresh_merged :: "pydict \<Rightarrow> merged_entity" where
  "fresh_merged e =
     \<lparr>me_canonical = dget e ''canonical_entity_id'', me_node = dget e ''node_id'', me_labels = [], me_score = 0,
      me_channel_scores = [], me_channels = [], me_path_count = 0\<rparr>"

definition merge_identity :: "merged_entity \<Rightarrow> pydict \<Rightarrow> merged_entity" where
  "merge_identity m e =
     (let canonical = dget e ''canonical_entity_id''; node = dget e ''node_id'';
          m = (if me_canonical m = PNone \<and> canonical \<noteq> PNone then m\<lparr>me_canonical := canonical\<rparr> else m) in
      if me_node m = PNone then m\<lparr>me_node := node\<rparr>
      else if node \<noteq> PNone \<and> py_str node < py_str (me_node m) then m\<lparr>me_node := node\<rparr>
      else m)"

definition add_channel_score :: "string \<Rightarrow> real \<Rightarrow> (string \<times> real) list \<Rightarrow> (string \<times> real) list" where
  "add_channel_score channel s scores = dput channel ((case map_of scores channel of None \<Rightarrow> 0 | Some x \<Rightarrow> x) + s) scores"

definition absorb :: "pydict \<Rightarrow> string \<Rightarrow> real \<Rightarrow> int \<Rightarrow> merged_entity \<Rightarrow> merged_entity" where
  "absorb e channel s n m =
     (let m = merge_identity m e; scores = add_channel_score channel s (me_channel_scores m) in
      m\<lparr>me_labels := sorted_set (me_labels m @ string_list (dget e ''labels'')),
        me_channel_scores := scores, me_channels := sort (map fst scores), me_score := sum_list (map snd scores),
        me_path_count := me_path_count m + n\<rparr>)"

definition merge_entity :: "path_counts \<Rightarrow> pydict \<Rightarrow> (string \<times> merged_entity) list \<Rightarrow> (string \<times> merged_entity) list res" where
  "merge_entity counts e table =
     res_bind (payload_channel e) (\<lambda>channel.
     res_bind (entity_key (dget e ''canonical_entity_id'') (dget e ''node_id'')) (\<lambda>key.
     res_bind (float_value 0 (dget e ''score'')) (\<lambda>s.
     res_map (\<lambda>n. dput key (absorb e channel s n (case map_of table key of None \<Rightarrow> fresh_merged e | Some m \<Rightarrow> m)) table)
       (entity_path_count counts e key channel))))"

definition merged_dict :: "merged_entity \<Rightarrow> pydict" where
  "merged_dict m =
     [(''canonical_entity_id'', me_canonical m), (''node_id'', me_node m), (''labels'', PList (map PStr (me_labels m))),
      (''score'', PFloat (me_score m)), (''channel_scores'', PDict (map (\<lambda>(c, x). (c, PFloat x)) (me_channel_scores m))),
      (''channels'', PList (map PStr (me_channels m))), (''path_count'', PInt (me_path_count m))]"

definition entity_sort_key :: "merged_entity \<Rightarrow> real \<times> string \<times> string" where
  "entity_sort_key m = (- me_score m, py_str (py_or (me_canonical m) (PStr [])), py_str (py_or (me_node m) (PStr [])))"

definition merge_impacted_entities ::
  "propagation_result list \<Rightarrow> path_counts \<Rightarrow> int \<Rightarrow> pydict list res" where
  "merge_impacted_entities results counts limit =
     res_map (\<lambda>table. map merged_dict (take (nat limit) (sort_key entity_sort_key (map snd table))))
       (res_fold (\<lambda>r. res_fold (merge_entity counts) (pr_entities r)) results [])"

section \<open>The merge\<close>

type_synonym merge_walk = "pydict list \<times> pydict \<times> string list"

definition merge_breakdown :: "pydict \<Rightarrow> string \<Rightarrow> pydict \<Rightarrow> pydict res" where
  "merge_breakdown own channel all = (case map_of own channel of None \<Rightarrow> Inl ValueError | Some v \<Rightarrow> Inr (dput channel v all))"

definition merge_result :: "propagation_result \<Rightarrow> merge_walk \<Rightarrow> merge_walk res" where
  "merge_result r w = (case w of (paths, breakdown, enabled) \<Rightarrow>
     res_bind (result_channels r) (\<lambda>cs.
     res_bind (res_fold (merge_breakdown (pr_breakdown r)) cs breakdown) (\<lambda>breakdown'.
     res_map (\<lambda>_. (paths @ pr_paths r, breakdown', enabled @ cs)) (res_list validate_path (pr_paths r)))))"

definition same_run :: "propagation_result \<Rightarrow> propagation_result \<Rightarrow> bool" where
  "same_run a b \<longleftrightarrow> pr_cycle_id a = pr_cycle_id b \<and> pr_generation a = pr_generation b"

definition scored_paths :: "pydict list \<Rightarrow> (real \<times> pydict) list res" where
  "scored_paths ps = res_list (\<lambda>p. res_map (\<lambda>s. (s, p)) (float_value 0 (dget p ''score''))) ps"

definition merge_propagation_results :: "propagation_result list \<Rightarrow> int \<Rightarrow> propagation_result res" where
  "merge_propagation_results results limit =
     (if results = [] \<or> limit < 1 then Inl ValueError
      else if \<not> list_all (same_run (hd results)) results then Inl ValueError
      else
        res_bind (entity_path_counts results) (\<lambda>counts.
        res_bind (res_fold merge_result results ([], [], [])) (\<lambda>(paths, breakdown, enabled).
        res_bind (scored_paths paths) (\<lambda>scored.
        let best = take (nat limit) (sort_key path_sort_key scored) in
        res_bind (merge_impacted_entities results counts limit) (\<lambda>entities.
          new_propagation_result
            \<lparr>pr_cycle_id = pr_cycle_id (hd results), pr_generation = pr_generation (hd results),
             pr_paths = map snd best, pr_entities = entities,
             pr_breakdown = dput ''merged'' (PDict
               [(''enabled_channels'', PList (map PStr (sorted_set enabled))), (''path_count'', PInt (int (length best))),
                (''impacted_entity_count'', PInt (int (length entities))),
                (''total_path_score'', PFloat (sum_list (map fst best))), (''result_limit'', PInt limit)]) breakdown\<rparr>)))))"

section \<open>The pipeline\<close>

definition projection_name :: "string option \<Rightarrow> string \<Rightarrow> nat \<Rightarrow> string option" where
  "projection_name graph_name channel enabled_channel_count = (case graph_name of
     None \<Rightarrow> None | Some n \<Rightarrow> Some (if enabled_channel_count = 1 then n else n @ ''-'' @ channel))"

type_synonym 'db runner =
  "'db client \<Rightarrow> neo4j_graph_status option \<Rightarrow> string \<Rightarrow> propagation_context \<Rightarrow> string option \<Rightarrow> int \<Rightarrow> int \<Rightarrow> ('db, propagation_result) prog"

definition runner_for_channel :: "string \<Rightarrow> 'db runner res" where
  "runner_for_channel channel =
     (if channel = ''fundamental'' then Inr run_fundamental_propagation
      else if channel = ''event'' then Inr run_event_propagation
      else if channel = ''reflexive'' then Inr run_reflexive_propagation
      else Inl ValueError)"

text \<open>The status row and the identifier are read anew for every channel.\<close>

fun run_channels ::
  "'db client \<Rightarrow> (string \<Rightarrow> neo4j_graph_status option) \<Rightarrow> (string \<Rightarrow> string) \<Rightarrow> propagation_context \<Rightarrow> string option \<Rightarrow> int \<Rightarrow> int \<Rightarrow>
   string list \<Rightarrow> ('db, propagation_result list) prog" where
  "run_channels client row uid ctx graph_name max_iterations limit [] = db_return (Inr [])"
| "run_channels client row uid ctx graph_name max_iterations limit (ch # chs) =
     db_bind (db_return (runner_for_channel ch)) (\<lambda>runner.
     db_bind (runner client (row ch) (uid ch) ctx (projection_name graph_name ch (length (px_channels ctx))) max_iterations limit) (\<lambda>r.
     db_bind (run_channels client row uid ctx graph_name max_iterations limit chs) (\<lambda>rs.
       db_return (Inr (r # rs)))))"

definition run_full_propagation ::
  "'db client \<Rightarrow> (string \<Rightarrow> neo4j_graph_status option) \<Rightarrow> (string \<Rightarrow> string) \<Rightarrow> propagation_context \<Rightarrow> string option \<Rightarrow> int \<Rightarrow> int \<Rightarrow>
   ('db, propagation_result) prog" where
  "run_full_propagation client row uid ctx graph_name max_iterations limit =
     (if max_iterations < 1 \<or> limit < 1 then db_return (Inl ValueError)
      else
        db_bind (run_channels client row uid ctx graph_name max_iterations limit (px_channels ctx)) (\<lambda>results.
          db_return (merge_propagation_results results limit)))"

section \<open>The impact snapshot\<close>

record entity_reference =
  er_entity_id :: string
  er_entity_type :: string
  er_rule_version :: string

definition unknown_rule_version :: string where
  "unknown_rule_version = ''unknown''"

definition string_values :: "pyval \<Rightarrow> string list" where
  "string_values v = (case v of
     PList vs \<Rightarrow> sort (filter (\<lambda>s. s \<noteq> []) (map py_str vs))
   | PNone \<Rightarrow> [] | _ \<Rightarrow> if py_str v \<noteq> [] then [py_str v] else [])"

text \<open>The contract strips the strings of a reference and refuses empty ones.\<close>

definition new_entity_reference :: "string \<Rightarrow> string \<Rightarrow> string \<Rightarrow> entity_reference res" where
  "new_entity_reference i t v =
     (if py_strip i = [] \<or> py_strip t = [] \<or> py_strip v = [] then Inl ValueError
      else Inr \<lparr>er_entity_id = py_strip i, er_entity_type = py_strip t, er_rule_version = py_strip v\<rparr>)"

definition entity_reference_of :: "pyval \<Rightarrow> pyval \<Rightarrow> pyval \<Rightarrow> entity_reference option res" where
  "entity_reference_of entity_id labels version =
     (if entity_id = PNone \<or> py_str entity_id = [] then Inr None
      else res_map Some (new_entity_reference (py_str entity_id)
             (py_lower (case string_values labels of [] \<Rightarrow> ''unknown'' | l # ls \<Rightarrow> l))
             (if version \<noteq> PNone \<and> py_str version \<noteq> [] then py_str version else unknown_rule_version)))"

definition add_reference :: "entity_reference option res \<Rightarrow> entity_reference list \<Rightarrow> entity_reference list res" where
  "add_reference ref refs = res_map (\<lambda>ref. case ref of
     None \<Rightarrow> refs | Some r \<Rightarrow> if er_entity_id r \<in> set (map er_entity_id refs) then refs else refs @ [r]) ref"

definition impacted_reference :: "pydict \<Rightarrow> entity_reference option res" where
  "impacted_reference e = entity_reference_of (py_or (dget e ''canonical_entity_id'') (dget e ''node_id''))
     (dget e ''labels'') (dget e ''canonical_id_rule_version'')"

definition entity_references_from_impacted_entities :: "pydict list \<Rightarrow> entity_reference list res" where
  "entity_references_from_impacted_entities es = res_fold (\<lambda>e. add_reference (impacted_reference e)) es []"

definition path_end :: "pydict \<Rightarrow> string \<Rightarrow> entity_reference option res" where
  "path_end p which = entity_reference_of (py_or (dget p (which @ ''_entity_id'')) (dget p (which @ ''_node_id'')))
     (dget p (which @ ''_labels'')) (dget p (which @ ''_canonical_id_rule_version''))"

definition entity_references_from_paths :: "pydict list \<Rightarrow> entity_reference list res" where
  "entity_references_from_paths ps =
     res_fold (\<lambda>p refs. res_bind (add_reference (path_end p ''source'') refs) (add_reference (path_end p ''target''))) ps []"

definition path_evidence :: "pydict \<Rightarrow> string list res" where
  "path_evidence p =
     res_bind (evidence_refs_from_value False (dget p ''evidence_refs'')) (\<lambda>a.
     res_bind (evidence_refs_from_value False (dget p ''evidence_ref'')) (\<lambda>b.
     res_map (\<lambda>c. a @ b @ c) (evidence_refs_from_value True (dget p ''evidence''))))"

definition affected_sectors :: "pydict list \<Rightarrow> string list" where
  "affected_sectors es = sorted_set (map (\<lambda>e. py_str (dget e ''node_id''))
     (filter (\<lambda>e. ''Sector'' \<in> set (string_values (dget e ''labels'')) \<and> dget e ''node_id'' \<noteq> PNone) es))"

definition total_score :: "pydict list \<Rightarrow> real res" where
  "total_score es = res_map sum_list (res_list (\<lambda>e. float_value 0 (dget e ''score'')) es)"

datatype snapshot_direction = Bullish | Bearish | NeutralImpact

definition impact_direction :: "pydict list \<Rightarrow> snapshot_direction res" where
  "impact_direction es =
     res_map (\<lambda>t. if t > 0 then Bullish else if t < 0 then Bearish else NeutralImpact) (total_score es)"

definition impact_score :: "pydict list \<Rightarrow> real res" where
  "impact_score es = res_map (\<lambda>t. max (-1) (min 1 t)) (total_score es)"

definition snapshot_channels :: "string list" where
  "snapshot_channels = [''fundamental'', ''event'', ''reflexive'']"

definition complete_channel_breakdown :: "pydict \<Rightarrow> pydict" where
  "complete_channel_breakdown b =
     (let get = (\<lambda>k. case map_of b k of None \<Rightarrow> PDict [] | Some v \<Rightarrow> v);
          completed = map (\<lambda>c. (c, get c)) snapshot_channels @
                      filter (\<lambda>(k, v). k \<notin> set snapshot_channels \<and> k \<noteq> ''merged'') b in
      dput ''merged'' (get ''merged'') completed)"

record graph_impact_snapshot =
  gi_cycle_id :: string
  gi_snapshot_id :: string
  gi_target_entities :: "entity_reference list"
  gi_affected_entities :: "entity_reference list"
  gi_affected_sectors :: "string list"
  gi_direction :: snapshot_direction
  gi_impact_score :: real
  gi_evidence_refs :: "string list"

text \<open>The checks of the contract on what is not checked before; its strings are stripped too.\<close>

definition new_graph_impact_snapshot :: "graph_impact_snapshot \<Rightarrow> graph_impact_snapshot res" where
  "new_graph_impact_snapshot s =
     (let s = s\<lparr>gi_cycle_id := py_strip (gi_cycle_id s), gi_affected_sectors := map py_strip (gi_affected_sectors s)\<rparr> in
      if gi_cycle_id s = [] \<or> gi_target_entities s = [] \<or> [] \<in> set (gi_affected_sectors s) \<or> gi_evidence_refs s = [] \<or>
         gi_impact_score s < -1 \<or> gi_impact_score s > 1
      then Inl ValueError else Inr s)"

text \<open>The checksum of the payload is an argument.\<close>

definition build_graph_impact_snapshot ::
  "(pydict \<Rightarrow> string) \<Rightarrow> string \<Rightarrow> string \<Rightarrow> propagation_result \<Rightarrow> graph_impact_snapshot res" where
  "build_graph_impact_snapshot digest cycle_id world_state_ref r =
     (let hash = digest
            [(''cycle_id'', PStr cycle_id), (''graph_generation_id'', PInt (pr_generation r)),
             (''world_state_ref'', PStr world_state_ref), (''activated_paths'', PList (map PDict (pr_paths r))),
             (''impacted_entities'', PList (map PDict (pr_entities r))),
             (''channel_breakdown'', PDict (complete_channel_breakdown (pr_breakdown r)))] in
      res_bind (entity_references_from_impacted_entities (pr_entities r)) (\<lambda>affected.
      res_bind (if affected \<noteq> [] then Inr affected else entity_references_from_paths (pr_paths r)) (\<lambda>targets.
      res_bind (res_list path_evidence (pr_paths r)) (\<lambda>refs.
        if targets = [] \<or> [] \<in> set refs \<or> concat refs = [] then Inl ValueError
        else
          res_bind (impact_direction (pr_entities r)) (\<lambda>direction.
          res_bind (impact_score (pr_entities r)) (\<lambda>score.
          new_graph_impact_snapshot
            \<lparr>gi_cycle_id = cycle_id, gi_snapshot_id = ''graph-impact-'' @ cycle_id @ ''-'' @ take 12 hash,
             gi_target_entities = targets, gi_affected_entities = affected,
             gi_affected_sectors = affected_sectors (pr_entities r), gi_direction = direction, gi_impact_score = score,
             gi_evidence_refs = sorted_set (concat refs)\<rparr>))))))"

section \<open>Grouping\<close>

text \<open>The distinct elements in the order of their first occurrence, and the first element that is least.\<close>

definition firsts :: "'a list \<Rightarrow> 'a list" where
  "firsts xs = rev (remdups (rev xs))"

lemma firsts_simps [simp]: "firsts [] = []" "firsts (xs @ [x]) = (if x \<in> set xs then firsts xs else firsts xs @ [x])"
  by (simp_all add: firsts_def)

lemma set_firsts [simp]: "set (firsts xs) = set xs" and distinct_firsts [simp]: "distinct (firsts xs)"
  by (simp_all add: firsts_def)

lemma dput_map:
  "distinct ks \<Longrightarrow> dput c v (map (\<lambda>k. (k, g k)) ks) =
     map (\<lambda>k. (k, if k = c then v else g k)) (if c \<in> set ks then ks else ks @ [c])"
  by (induction ks) (auto simp: dput_def)

lemma map_of_keys: "map_of (map (\<lambda>k. (k, g k)) ks) c = (if c \<in> set ks then Some (g c) else None)"
  by (induction ks) auto

lemma insort_hd: "insort_key f y zs = z # zs' \<Longrightarrow> z = (if zs = [] \<or> f y \<le> f (hd zs) then y else hd zs)"
  by (cases zs) (auto split: if_splits)

definition least_by :: "('a \<Rightarrow> 'b :: linorder) \<Rightarrow> 'a list \<Rightarrow> 'a" where
  "least_by f xs = hd (sort_key f xs)"

lemma least_by_snoc: "least_by f (xs @ [x]) = (if xs = [] then x else if f x < f (least_by f xs) then x else least_by f xs)"
proof (induction xs)
  case Nil
  then show ?case by (simp add: least_by_def)
next
  case (Cons y xs)
  have step: "least_by f (y # zs) = (if zs = [] \<or> f y \<le> f (least_by f zs) then y else least_by f zs)" for zs
  proof -
    obtain w ws where w: "sort_key f (y # zs) = w # ws"
      by (metis length_0_conv length_sort list.exhaust list.distinct(1))
    have "insort_key f y (sort_key f zs) = w # ws" using w by simp
    from insort_hd [OF this] have "w = (if sort_key f zs = [] \<or> f y \<le> f (hd (sort_key f zs)) then y else hd (sort_key f zs))" .
    moreover have "sort_key f zs = [] \<longleftrightarrow> zs = []" by (metis length_0_conv length_sort)
    moreover have "least_by f (y # zs) = w" unfolding least_by_def w by (rule list.sel(1))
    ultimately show ?thesis unfolding least_by_def by presburger
  qed
  show ?case using Cons.IH by (auto simp: step not_le)
qed

lemma sorted_set_cong: "set xs = set ys \<Longrightarrow> sorted_set xs = sorted_set ys"
  unfolding sorted_set_def by (metis sorted_list_of_set_sort_remdups)

lemma set_sorted_set [simp]: "set (sorted_set xs) = set xs"
  by (simp add: sorted_set_def)

lemma sum_by_group:
  "distinct cs \<Longrightarrow> g ` set es \<subseteq> set cs \<Longrightarrow>
   sum_list (map (\<lambda>c. sum_list (map s (filter (\<lambda>e. g e = c) es)) :: real) cs) = sum_list (map s es)"
proof (induction es)
  case Nil
  then show ?case by (simp add: sum_list_triv)
next
  case (Cons e es)
  have "(\<Sum>c\<leftarrow>cs. sum_list (map s (filter (\<lambda>e'. g e' = c) (e # es)))) =
      (\<Sum>c\<leftarrow>cs. (if c = g e then s e else 0) + sum_list (map s (filter (\<lambda>e. g e = c) es)))"
    by (intro arg_cong [where f = sum_list] map_cong refl) auto
  also have "\<dots> = (\<Sum>c\<leftarrow>cs. if c = g e then s e else 0) + (\<Sum>c\<leftarrow>cs. sum_list (map s (filter (\<lambda>e. g e = c) es)))"
    by (rule sum_list_addf)
  also have "(\<Sum>c\<leftarrow>cs. if c = g e then s e else 0) = s e"
    using Cons.prems by (subst sum_list_distinct_conv_sum_set) auto
  finally show ?case using Cons by simp
qed

lemma res_fold_nested: "res_fold (\<lambda>r. res_fold f (g r)) rs s = res_fold f (concat (map g rs)) s"
  by (induction rs arbitrary: s) (auto simp: res_fold_append res_bind_def split: sum.splits)

section \<open>The closed form of the merge\<close>

definition path_target :: "pydict \<Rightarrow> string option" where
  "path_target p = (case path_entity_key (dget p ''target_entity_id'') (dget p ''target_node_id'') of Inl e \<Rightarrow> None | Inr k \<Rightarrow> k)"

definition channel_of :: "pydict \<Rightarrow> string" where
  "channel_of e = (case dget e ''channel'' of PStr c \<Rightarrow> c | _ \<Rightarrow> [])"

definition key_of :: "pydict \<Rightarrow> string" where
  "key_of e = (case entity_key (dget e ''canonical_entity_id'') (dget e ''node_id'') of Inl _ \<Rightarrow> [] | Inr k \<Rightarrow> k)"

definition score_of_payload :: "pydict \<Rightarrow> real" where
  "score_of_payload e = (case float_value 0 (dget e ''score'') of Inl _ \<Rightarrow> 0 | Inr x \<Rightarrow> x)"

definition paths_of_entity :: "pydict list \<Rightarrow> string \<Rightarrow> string \<Rightarrow> pydict list" where
  "paths_of_entity ps key channel = filter (\<lambda>p. path_target p = Some key \<and> channel_of p = channel) ps"

definition count_of :: "pydict list \<Rightarrow> pydict \<Rightarrow> int" where
  "count_of ps e =
     (if dget e ''path_count'' \<noteq> PNone then (case py_int (dget e ''path_count'') of Inl _ \<Rightarrow> 0 | Inr n \<Rightarrow> n)
      else int (length (paths_of_entity ps (key_of e) (channel_of e))))"

definition present :: "pydict list \<Rightarrow> string \<Rightarrow> pyval list" where
  "present es k = filter (\<lambda>v. v \<noteq> PNone) (map (\<lambda>e. dget e k) es)"

definition combined :: "pydict list \<Rightarrow> pydict list \<Rightarrow> merged_entity" where
  "combined ps es =
     \<lparr>me_canonical = (case present es ''canonical_entity_id'' of [] \<Rightarrow> PNone | v # vs \<Rightarrow> v),
      me_node = (if present es ''node_id'' = [] then PNone else least_by py_str (present es ''node_id'')),
      me_labels = sorted_set (concat (map (\<lambda>e. string_list (dget e ''labels'')) es)),
      me_score = sum_list (map score_of_payload es),
      me_channel_scores = map (\<lambda>c. (c, sum_list (map score_of_payload (filter (\<lambda>e. channel_of e = c) es)))) (firsts (map channel_of es)),
      me_channels = sort (firsts (map channel_of es)),
      me_path_count = sum_list (map (count_of ps) es)\<rparr>"

lemma present_snoc: "present (es @ [e]) k = (if dget e k = PNone then present es k else present es k @ [dget e k])"
  by (simp add: present_def)

lemma present_not_PNone: "v \<in> set (present es k) \<Longrightarrow> v \<noteq> PNone"
  by (auto simp: present_def)

lemma absorb_identity:
  "me_canonical (merge_identity (combined ps es) e) = me_canonical (combined ps (es @ [e]))"
  "me_node (merge_identity (combined ps es) e) = me_node (combined ps (es @ [e]))"
  "me_labels (merge_identity m e) = me_labels m" "me_channel_scores (merge_identity m e) = me_channel_scores m"
  "me_path_count (merge_identity m e) = me_path_count m"
proof -
  have least: "least_by py_str vs \<noteq> PNone" if "vs = present es k" "vs \<noteq> []" for vs k
  proof -
    have "least_by py_str vs \<in> set vs" unfolding least_by_def by (metis hd_in_set length_0_conv length_sort set_sort that(2))
    then show ?thesis using present_not_PNone that(1) by blast
  qed
  have hd: "v \<noteq> PNone" if "present es k = v # vs" for v vs k using present_not_PNone [of v es k] that by simp
  show "me_canonical (merge_identity (combined ps es) e) = me_canonical (combined ps (es @ [e]))"
    using hd by (auto simp: merge_identity_def combined_def Let_def present_snoc split: list.splits)
  show "me_node (merge_identity (combined ps es) e) = me_node (combined ps (es @ [e]))"
    using least [of _ "''node_id''"] by (simp add: merge_identity_def combined_def Let_def present_snoc least_by_snoc)
qed (simp_all add: merge_identity_def Let_def)

lemma combined_total: "sum_list (map snd (me_channel_scores (combined ps es))) = me_score (combined ps es)"
  using sum_by_group [of "firsts (map channel_of es)" channel_of es score_of_payload] by (simp add: combined_def comp_def)

lemma absorb_combined:
  "absorb e (channel_of e) (score_of_payload e) (count_of ps e) (combined ps es) = combined ps (es @ [e])"
proof -
  let ?c = "channel_of e" and ?s = "score_of_payload e"
  let ?g = "\<lambda>es c. sum_list (map score_of_payload (filter (\<lambda>e. channel_of e = c) es))"
  have none: "?g es ?c = 0" if "?c \<notin> channel_of ` set es"
    using that by (metis (mono_tags, lifting) filter_False image_eqI list.simps(8) sum_list.Nil)
  have scores: "add_channel_score ?c ?s (me_channel_scores (combined ps es)) = me_channel_scores (combined ps (es @ [e]))"
    using none by (auto simp: add_channel_score_def combined_def map_of_keys dput_map)
  have labels: "sorted_set (me_labels (combined ps es) @ string_list (dget e ''labels'')) = me_labels (combined ps (es @ [e]))"
    unfolding combined_def merged_entity.simps by (rule sorted_set_cong) simp
  note total = combined_total [of ps "es @ [e]"]
  have channels: "sort (map fst (me_channel_scores (combined ps es'))) = me_channels (combined ps es')" for es'
    by (simp add: combined_def comp_def)
  have counts: "me_path_count (combined ps es) + count_of ps e = me_path_count (combined ps (es @ [e]))"
    by (simp add: combined_def)
  have "absorb e ?c ?s (count_of ps e) (combined ps es) = (merge_identity (combined ps es) e)
      \<lparr>me_labels := me_labels (combined ps (es @ [e])), me_channel_scores := me_channel_scores (combined ps (es @ [e])),
       me_channels := me_channels (combined ps (es @ [e])), me_score := me_score (combined ps (es @ [e])),
       me_path_count := me_path_count (combined ps (es @ [e]))\<rparr>"
    by (simp only: absorb_def Let_def absorb_identity scores labels total channels counts)
  then show ?thesis by (simp add: absorb_identity)
qed

lemma absorb_fresh: "absorb e c s n (fresh_merged e) = absorb e c s n (combined ps [])"
proof -
  have "merge_identity (fresh_merged e) e = fresh_merged e" "merge_identity (combined ps []) e = fresh_merged e"
    by (simp_all add: merge_identity_def fresh_merged_def combined_def present_def sorted_set_def Let_def)
  then show ?thesis by (simp add: absorb_def fresh_merged_def combined_def)
qed

definition count_lookup :: "path_counts \<Rightarrow> string \<Rightarrow> string \<Rightarrow> int" where
  "count_lookup counts key channel = (case map_of counts (key, channel) of None \<Rightarrow> 0 | Some n \<Rightarrow> n)"

lemma payload_channel_of: "payload_channel e = Inr c \<Longrightarrow> channel_of e = c"
  by (auto simp: payload_channel_def channel_of_def split: pyval.splits if_splits)

lemma count_path_lookup:
  assumes "count_path p counts = Inr counts'"
  shows "count_lookup counts' key channel = count_lookup counts key channel + int (length (paths_of_entity [p] key channel))"
proof -
  obtain c k where c: "payload_channel p = Inr c"
    and k: "path_entity_key (dget p ''target_entity_id'') (dget p ''target_node_id'') = Inr k"
    and counts': "counts' = (case k of None \<Rightarrow> counts | Some k \<Rightarrow> dput (k, c) (count_lookup counts k c + 1) counts)"
    using assms by (auto simp: count_path_def res_bind_eq_Inr res_map_eq_Inr count_lookup_def cong: option.case_cong)
  have "path_target p = k" by (simp add: path_target_def k)
  then show ?thesis
    using payload_channel_of [OF c] by (cases k) (auto simp: counts' paths_of_entity_def count_lookup_def)
qed

lemma paths_of_entity_simps:
  "paths_of_entity [] key channel = []"
  "paths_of_entity (p # ps) key channel = paths_of_entity [p] key channel @ paths_of_entity ps key channel"
  by (simp_all add: paths_of_entity_def)

lemma counts_of_paths:
  "res_fold count_path ps counts = Inr counts' \<Longrightarrow>
   count_lookup counts' key channel = count_lookup counts key channel + int (length (paths_of_entity ps key channel))"
proof (induction ps arbitrary: counts)
  case Nil
  then show ?case by (simp add: paths_of_entity_simps)
next
  case (Cons p ps)
  then obtain c1 where c1: "count_path p counts = Inr c1" "res_fold count_path ps c1 = Inr counts'"
    by (auto simp: res_bind_eq_Inr)
  show ?case
    using count_path_lookup [OF c1(1), of key channel] Cons.IH [OF c1(2)] by (subst paths_of_entity_simps) simp
qed

lemma entity_path_counts_lookup:
  assumes "entity_path_counts results = Inr counts"
  shows "count_lookup counts key channel = int (length (paths_of_entity (concat (map pr_paths results)) key channel))"
  using counts_of_paths [of "concat (map pr_paths results)" "[]" counts key channel] assms
  by (simp add: entity_path_counts_def res_fold_nested count_lookup_def)

definition grouped :: "pydict list \<Rightarrow> pydict list \<Rightarrow> (string \<times> merged_entity) list" where
  "grouped ps es = map (\<lambda>k. (k, combined ps (filter (\<lambda>e. key_of e = k) es))) (firsts (map key_of es))"

lemma grouped_snoc: "grouped ps (es @ [e]) =
   dput (key_of e) (combined ps (filter (\<lambda>e'. key_of e' = key_of e) es @ [e])) (grouped ps es)"
proof -
  let ?k = "key_of e"
  have none: "filter (\<lambda>e'. key_of e' = ?k) es = []" if "?k \<notin> key_of ` set es"
    using that by (force simp: filter_empty_conv image_iff)
  show ?thesis
    unfolding grouped_def by (subst dput_map) (auto simp: none)
qed

lemma merge_entity_step:
  assumes "merge_entity counts e (grouped ps es) = Inr t"
    and "\<And>key channel. count_lookup counts key channel = int (length (paths_of_entity ps key channel))"
  shows "t = grouped ps (es @ [e])"
proof -
  obtain c k x n where c: "payload_channel e = Inr c"
    and k: "entity_key (dget e ''canonical_entity_id'') (dget e ''node_id'') = Inr k"
    and x: "float_value 0 (dget e ''score'') = Inr x" and n: "entity_path_count counts e k c = Inr n"
    and t: "t = dput k (absorb e c x n (case map_of (grouped ps es) k of None \<Rightarrow> fresh_merged e | Some m \<Rightarrow> m)) (grouped ps es)"
    using assms(1) by (auto simp: merge_entity_def res_bind_eq_Inr res_map_eq_Inr)
  have eqs: "channel_of e = c" "key_of e = k" "score_of_payload e = x"
    by (simp_all add: payload_channel_of [OF c] key_of_def k score_of_payload_def x)
  then have "count_of ps e = n"
    using n assms(2) by (auto simp: count_of_def entity_path_count_def count_lookup_def split: if_splits)
  note eqs = eqs this
  let ?g = "filter (\<lambda>e'. key_of e' = k) es"
  have "map_of (grouped ps es) k = (if k \<in> key_of ` set es then Some (combined ps ?g) else None)"
    unfolding grouped_def by (simp add: map_of_keys)
  moreover have "?g = []" if "k \<notin> key_of ` set es" using that by (auto simp: filter_empty_conv)
  ultimately have "absorb e c x n (case map_of (grouped ps es) k of None \<Rightarrow> fresh_merged e | Some m \<Rightarrow> m) = combined ps (?g @ [e])"
    using absorb_combined [of e ps ?g] by (auto simp: eqs absorb_fresh [of e c x n ps])
  then show ?thesis by (simp add: t grouped_snoc eqs)
qed

lemma merge_entities_grouped:
  assumes "res_fold (merge_entity counts) es [] = Inr t"
    and "\<And>key channel. count_lookup counts key channel = int (length (paths_of_entity ps key channel))"
  shows "t = grouped ps es"
  using assms(1)
proof (induction es arbitrary: t rule: rev_induct)
  case Nil
  then show ?case by (simp add: grouped_def)
next
  case (snoc e es)
  then obtain t1 where "res_fold (merge_entity counts) es [] = Inr t1" "merge_entity counts e t1 = Inr t"
    by (auto simp: res_fold_append res_bind_eq_Inr)
  with snoc.IH merge_entity_step [OF _ assms(2)] show ?case by blast
qed

lemma merge_result_paths: "res_fold merge_result rs w = Inr w' \<Longrightarrow> fst w' = fst w @ concat (map pr_paths rs)"
  by (induction rs arbitrary: w) (auto simp: merge_result_def res_bind_eq_Inr res_map_eq_Inr split: prod.splits)

lemma scored_paths_scores: "scored_paths ps = Inr sps \<Longrightarrow> sps = map (\<lambda>p. (score_of_payload p, p)) ps"
  unfolding scored_paths_def
  by (induction ps arbitrary: sps) (auto simp: res_bind_eq_Inr res_map_eq_Inr score_of_payload_def)

section \<open>What the merge answers\<close>

lemma merge_facts:
  assumes "merge_propagation_results results limit = Inr r"
  defines "ps \<equiv> concat (map pr_paths results)" and "es \<equiv> concat (map pr_entities results)"
  shows "1 \<le> limit" "results \<noteq> []" "list_all (same_run (hd results)) results"
    "pr_generation r = pr_generation (hd results)"
    "pr_paths r = take (nat limit) (sort_key (\<lambda>p. path_sort_key (score_of_payload p, p)) ps)"
    "pr_entities r = map merged_dict (take (nat limit) (sort_key entity_sort_key (map snd (grouped ps es))))"
proof -
  obtain counts w sps entities b where ok: "1 \<le> limit" "results \<noteq> []" "list_all (same_run (hd results)) results"
    and counts: "entity_path_counts results = Inr counts"
    and w: "res_fold merge_result results ([], [], []) = Inr w"
    and sps: "scored_paths (fst w) = Inr sps"
    and entities: "merge_impacted_entities results counts limit = Inr entities"
    and r: "r = \<lparr>pr_cycle_id = py_strip (pr_cycle_id (hd results)), pr_generation = pr_generation (hd results),
          pr_paths = map snd (take (nat limit) (sort_key path_sort_key sps)), pr_entities = entities, pr_breakdown = b\<rparr>"
    using assms by (auto simp: merge_propagation_results_def res_bind_eq_Inr Let_def new_propagation_result_def split: if_splits)
  have paths: "fst w = ps" using merge_result_paths [OF w] by (simp add: ps_def)
  obtain t where t: "res_fold (merge_entity counts) es [] = Inr t"
    and e: "entities = map merged_dict (take (nat limit) (sort_key entity_sort_key (map snd t)))"
    using entities by (auto simp: merge_impacted_entities_def res_map_eq_Inr res_fold_nested es_def)
  have "t = grouped ps es"
    by (rule merge_entities_grouped [OF t]) (simp add: entity_path_counts_lookup [OF counts] ps_def)
  moreover have "map snd (take (nat limit) (sort_key path_sort_key sps)) =
      take (nat limit) (sort_key (\<lambda>p. path_sort_key (score_of_payload p, p)) ps)"
    by (simp add: scored_paths_scores [OF sps] sort_key_map take_map comp_def paths)
  ultimately show "1 \<le> limit" "results \<noteq> []" "list_all (same_run (hd results)) results"
    "pr_generation r = pr_generation (hd results)"
    "pr_paths r = take (nat limit) (sort_key (\<lambda>p. path_sort_key (score_of_payload p, p)) ps)"
    "pr_entities r = map merged_dict (take (nat limit) (sort_key entity_sort_key (map snd (grouped ps es))))"
    using ok e by (simp_all add: r)
qed

text \<open>C36: The merge of the channels is a grouping. When it answers, its runs agree on the cycle and the
  generation, its paths are the best of all paths of the runs, and its entities are the best of the groups
  of all impacted entities under one key: each with the first canonical id of its group, the least node id,
  all labels, the sum of the scores in total and per channel, and the number of paths.\<close>

theorem merge_groups_by_entity:
  assumes merged: "merge_propagation_results results limit = Inr r"
  defines "ps \<equiv> concat (map pr_paths results)" and "es \<equiv> concat (map pr_entities results)"
  shows "list_all (same_run (hd results)) results \<and> pr_generation r = pr_generation (hd results) \<and>
    pr_paths r = take (nat limit) (sort_key (\<lambda>p. path_sort_key (score_of_payload p, p)) ps) \<and>
    pr_entities r = map merged_dict (take (nat limit) (sort_key entity_sort_key
      (map (\<lambda>k. combined ps (filter (\<lambda>e. key_of e = k) es)) (firsts (map key_of es)))))"
proof -
  have "map snd (grouped ps es) = map (\<lambda>k. combined ps (filter (\<lambda>e. key_of e = k) es)) (firsts (map key_of es))"
    by (simp add: grouped_def comp_def)
  then show ?thesis using merge_facts [OF merged] by (simp add: ps_def es_def)
qed

lemma merged_dict_score [simp]: "path_score (merged_dict m) = me_score m"
  by (simp add: path_score_def merged_dict_def)

lemma grouped_scores: "sum_list (map me_score (map snd (grouped ps es))) = sum_list (map score_of_payload es)"
  using sum_by_group [of "firsts (map key_of es)" key_of es score_of_payload]
  by (simp add: grouped_def combined_def comp_def)

lemma sum_list_sort_key: "sum_list (map f (sort_key k xs) :: real list) = sum_list (map f xs)"
  by (rule sum_list_mset_eq) simp

lemma take_whole: "length (take n xs) < n \<Longrightarrow> take n xs = xs"
  by simp

text \<open>A merge that leaves nothing out keeps the total impact.\<close>

lemma merge_keeps_scores:
  assumes "merge_propagation_results results limit = Inr r"
    and "int (length (pr_entities r)) < limit"
  shows "sum_list (map path_score (pr_entities r)) = sum_list (map score_of_payload (concat (map pr_entities results)))"
proof -
  let ?es = "concat (map pr_entities results)" and ?ps = "concat (map pr_paths results)"
  let ?all = "sort_key entity_sort_key (map snd (grouped ?ps ?es))"
  have e: "pr_entities r = map merged_dict (take (nat limit) ?all)" by (rule merge_facts(6) [OF assms(1)])
  have "length (take (nat limit) ?all) < nat limit" using assms(2) unfolding e length_map by linarith
  then have "take (nat limit) ?all = ?all" by (rule take_whole)
  then have "sum_list (map path_score (pr_entities r)) = sum_list (map me_score ?all)" unfolding e by (simp add: comp_def)
  also have "\<dots> = sum_list (map me_score (map snd (grouped ?ps ?es)))" by (rule sum_list_sort_key)
  finally show ?thesis by (simp only: grouped_scores)
qed

section \<open>What the pipeline answers\<close>

lemma runner_is_run_channel: "runner_for_channel ch = Inr runner \<Longrightarrow> runner = run_channel ch"
  by (auto simp: runner_for_channel_def run_fundamental_propagation_def run_event_propagation_def run_reflexive_propagation_def
      split: if_splits)

definition answers :: "'db client \<Rightarrow> propagation_context \<Rightarrow> int \<Rightarrow> string \<Rightarrow> propagation_result \<Rightarrow> bool" where
  "answers client ctx limit ch r \<longleftrightarrow>
     (\<exists>row uid name n db db'. run_channel ch client row uid ctx name n limit db = (db', Inr r))"

lemma run_channels_answers:
  "run_channels client row uid ctx name n limit chs db = (db', Inr rs) \<Longrightarrow> list_all2 (answers client ctx limit) chs rs"
proof (induction chs arbitrary: db db' rs)
  case Nil
  then show ?case by (simp add: prog_Inr)
next
  case (Cons ch chs)
  obtain runner db1 r db2 rs' where runner: "runner_for_channel ch = Inr runner"
    and r: "runner client (row ch) (uid ch) ctx (projection_name name ch (length (px_channels ctx))) n limit db = (db1, Inr r)"
    and rs': "run_channels client row uid ctx name n limit chs db1 = (db2, Inr rs')" and rs: "rs = r # rs'"
    using Cons.prems by (auto simp: prog_Inr)
  have "answers client ctx limit ch r"
    using r unfolding answers_def runner_is_run_channel [OF runner] by blast
  then show ?case using Cons.IH [OF rs'] by (simp add: rs)
qed

lemma answers_facts:
  assumes "list_all2 (answers client ctx limit) chs rs"
  defines "ps \<equiv> concat (map pr_paths rs)" and "es \<equiv> concat (map pr_entities rs)"
  shows "list_all (\<lambda>p. \<exists>ch \<in> set chs. explains ch ctx p) ps" "list_all (\<lambda>e. score_of_payload e = path_score e) (ps @ es)"
    "sum_list (map path_score es) = sum_list (map path_score (filter has_target ps))"
  using assms(1) unfolding ps_def es_def
proof (induction rule: list_all2_induct)
  case Nil
  {
    case 1
    then show ?case by simp
  next
    case 2
    then show ?case by simp
  next
    case 3
    then show ?case by simp
  }
next
  case (Cons ch chs r rs)
  from Cons.hyps(1) obtain row uid name n db db' where
    run: "run_channel ch client row uid ctx name n limit db = (db', Inr r)" unfolding answers_def by blast
  note facts = channel_run_facts(5,10,11) [OF run]
  {
    case 1
    show ?case using facts(1) Cons.IH(1) by (auto simp: list_all_iff)
  next
    case 2
    have "score_of_payload e = path_score e" if "dget e ''score'' = PFloat (path_score e)" for e
      by (simp add: score_of_payload_def that float_value_def)
    then show ?case using facts(3) Cons.IH(2) by (auto simp: list_all_iff)
  next
    case 3
    show ?case using facts(2) Cons.IH(3) by simp
  }
qed

text \<open>C37: The pipeline neither adds nor loses impact. When it answers, each path it lists is the product of
  the five factors it lists, with the multipliers of the context for one of the enabled channels, and as long as
  neither list reaches the limit the scores of the merged entities add up to those of the paths with a target.\<close>

theorem full_propagation_conserves_impact:
  assumes run: "run_full_propagation client row uid ctx name max_iterations limit db = (db', Inr r)"
    and paths: "int (length (pr_paths r)) < limit" and entities: "int (length (pr_entities r)) < limit"
  shows "list_all (\<lambda>p. list_ex (\<lambda>ch. explains ch ctx p) (px_channels ctx)) (pr_paths r) \<and>
    sum_list (map path_score (pr_entities r)) = sum_list (map path_score (filter has_target (pr_paths r)))"
proof -
  obtain rs db1 where rs: "run_channels client row uid ctx name max_iterations limit (px_channels ctx) db = (db1, Inr rs)"
    and merged: "merge_propagation_results rs limit = Inr r"
    using run by (auto simp: run_full_propagation_def prog_Inr split: if_splits)
  let ?ps = "concat (map pr_paths rs)" and ?es = "concat (map pr_entities rs)"
  let ?all = "sort_key (\<lambda>p. path_sort_key (score_of_payload p, p)) ?ps"
  note facts = answers_facts [OF run_channels_answers [OF rs]]
  have "length (take (nat limit) ?all) < nat limit"
    using paths unfolding merge_facts(5) [OF merged] by linarith
  then have all: "pr_paths r = ?all" unfolding merge_facts(5) [OF merged] by (rule take_whole)
  have "sum_list (map path_score (pr_entities r)) = sum_list (map score_of_payload ?es)"
    by (rule merge_keeps_scores [OF merged entities])
  also have "map score_of_payload ?es = map path_score ?es" using facts(2) by (simp add: list_all_iff)
  also have "sum_list (map path_score ?es) = sum_list (map path_score (filter has_target ?ps))" by (rule facts(3))
  also have "\<dots> = sum_list (map path_score (filter has_target (pr_paths r)))"
    unfolding all by (rule sum_list_mset_eq) simp
  finally show ?thesis using facts(1) by (simp add: all list_all_iff list_ex_iff)
qed

section \<open>What the impact snapshot says\<close>

lemma distinct_add_reference:
  "add_reference ref refs = Inr refs' \<Longrightarrow> distinct (map er_entity_id refs) \<Longrightarrow> distinct (map er_entity_id refs')"
  by (auto simp: add_reference_def res_map_eq_Inr split: option.splits if_splits)

lemma references_distinct:
  "entity_references_from_impacted_entities es = Inr refs \<Longrightarrow> distinct (map er_entity_id refs)"
  "entity_references_from_paths ps = Inr refs \<Longrightarrow> distinct (map er_entity_id refs)"
proof -
  let ?P = "\<lambda>refs. distinct (map er_entity_id refs)"
  assume "entity_references_from_impacted_entities es = Inr refs"
  then show "?P refs" unfolding entity_references_from_impacted_entities_def
    by (rule res_fold_invariant [where P = ?P]) (auto intro: distinct_add_reference)
next
  let ?P = "\<lambda>refs. distinct (map er_entity_id refs)"
  assume "entity_references_from_paths ps = Inr refs"
  then show "?P refs" unfolding entity_references_from_paths_def
    by (rule res_fold_invariant [where P = ?P]) (auto simp: res_bind_eq_Inr intro: distinct_add_reference)
qed

lemma distinct_sorted_set [simp]: "distinct (sorted_set xs)" and sorted_sorted_set [simp]: "sorted (sorted_set xs)"
  by (simp_all add: sorted_set_def)

lemma build_impact_snapshot_facts:
  assumes "build_graph_impact_snapshot digest cycle_id world r = Inr s"
  obtains affected refs t where
    "entity_references_from_impacted_entities (pr_entities r) = Inr affected"
    "(if affected \<noteq> [] then Inr affected else entity_references_from_paths (pr_paths r)) = Inr (gi_target_entities s)"
    "gi_target_entities s \<noteq> []" "gi_affected_entities s = affected"
    "res_list path_evidence (pr_paths r) = Inr refs" "[] \<notin> set refs" "gi_evidence_refs s \<noteq> []"
    "gi_evidence_refs s = sorted_set (concat refs)" "total_score (pr_entities r) = Inr t"
    "gi_impact_score s = max (-1) (min 1 t)"
    "gi_direction s = (if t > 0 then Bullish else if t < 0 then Bearish else NeutralImpact)"
  using assms
  by (auto simp: build_graph_impact_snapshot_def new_graph_impact_snapshot_def Let_def res_bind_eq_Inr res_map_eq_Inr
      impact_direction_def impact_score_def split: if_splits)

lemma res_list_arg: "res_list f xs = Inr ys \<Longrightarrow> x \<in> set xs \<Longrightarrow> \<exists>y \<in> set ys. f x = Inr y"
  by (induction xs arbitrary: ys) (auto simp: res_bind_eq_Inr)

text \<open>An impact snapshot is consistent. Its targets are named once each, and are the affected entities
  unless there are none; every path behind it has evidence, which it lists sorted and without repetitions; its
  score lies between minus one and one, and its direction is the sign of the score.\<close>

theorem impact_snapshot_is_consistent:
  assumes "build_graph_impact_snapshot digest cycle_id world r = Inr s"
  shows "gi_target_entities s \<noteq> [] \<and> distinct (map er_entity_id (gi_target_entities s)) \<and>
    gi_affected_entities s \<in> {[], gi_target_entities s} \<and>
    gi_evidence_refs s \<noteq> [] \<and> sorted (gi_evidence_refs s) \<and> distinct (gi_evidence_refs s) \<and>
    list_all (\<lambda>p. case path_evidence p of Inl e \<Rightarrow> False | Inr refs \<Rightarrow> refs \<noteq> [] \<and> set refs \<subseteq> set (gi_evidence_refs s)) (pr_paths r) \<and>
    - 1 \<le> gi_impact_score s \<and> gi_impact_score s \<le> 1 \<and>
    (gi_direction s = Bullish) = (0 < gi_impact_score s) \<and> (gi_direction s = Bearish) = (gi_impact_score s < 0)"
proof -
  obtain affected refs t where affected: "entity_references_from_impacted_entities (pr_entities r) = Inr affected"
    and targets: "(if affected \<noteq> [] then Inr affected else entity_references_from_paths (pr_paths r)) = Inr (gi_target_entities s)"
    and ne: "gi_target_entities s \<noteq> []" and a: "gi_affected_entities s = affected"
    and refs: "res_list path_evidence (pr_paths r) = Inr refs" "[] \<notin> set refs" "gi_evidence_refs s \<noteq> []"
      "gi_evidence_refs s = sorted_set (concat refs)"
    and score: "gi_impact_score s = max (-1) (min 1 t)"
      "gi_direction s = (if t > 0 then Bullish else if t < 0 then Bearish else NeutralImpact)"
    by (rule build_impact_snapshot_facts [OF assms])
  have "distinct (map er_entity_id (gi_target_entities s))" "affected \<in> {[], gi_target_entities s}"
    using targets affected references_distinct by (auto split: if_splits)
  moreover have "case path_evidence p of Inl e \<Rightarrow> False | Inr rs \<Rightarrow> rs \<noteq> [] \<and> set rs \<subseteq> set (gi_evidence_refs s)" if "p \<in> set (pr_paths r)" for p
  proof -
    have "\<exists>rs \<in> set refs. path_evidence p = Inr rs" by (rule res_list_arg [OF refs(1)]) (rule that)
    then show ?thesis using refs(2,4) by auto
  qed
  then have "list_all (\<lambda>p. case path_evidence p of Inl e \<Rightarrow> False | Inr refs \<Rightarrow> refs \<noteq> [] \<and> set refs \<subseteq> set (gi_evidence_refs s)) (pr_paths r)"
    unfolding list_all_iff by blast
  moreover have "- 1 \<le> gi_impact_score s" "gi_impact_score s \<le> 1" "(gi_direction s = Bullish) = (0 < gi_impact_score s)"
    "(gi_direction s = Bearish) = (gi_impact_score s < 0)"
    by (auto simp: score)
  ultimately show ?thesis using ne refs(3) by (simp add: a refs(4))
qed

text \<open>The merged entities carry no rule version, so no reference of a snapshot of merged results does.\<close>

lemma unversioned_reference:
  assumes "impacted_reference e = Inr (Some ref)" and "dget e ''canonical_id_rule_version'' = PNone"
  shows "er_rule_version ref = unknown_rule_version"
proof -
  have "py_strip unknown_rule_version = unknown_rule_version"
    by (simp add: unknown_rule_version_def py_strip_def is_blank_def char_code_def)
  then show ?thesis
    using assms by (auto simp: impacted_reference_def entity_reference_of_def new_entity_reference_def res_map_eq_Inr split: if_splits)
qed

lemma unversioned_references:
  assumes "entity_references_from_impacted_entities es = Inr refs"
    and "list_all (\<lambda>e. dget e ''canonical_id_rule_version'' = PNone) es"
  shows "list_all (\<lambda>ref. er_rule_version ref = unknown_rule_version) refs"
  using assms(1) unfolding entity_references_from_impacted_entities_def
proof (rule res_fold_invariant)
  fix e refs refs'
  assume "e \<in> set es" and old: "list_all (\<lambda>ref. er_rule_version ref = unknown_rule_version) refs"
    and add: "add_reference (impacted_reference e) refs = Inr refs'"
  then have e: "dget e ''canonical_id_rule_version'' = PNone" using assms(2) by (simp only: list_all_iff)
  obtain ref where ref: "impacted_reference e = Inr ref" and refs': "refs' = (case ref of
      None \<Rightarrow> refs | Some r \<Rightarrow> if er_entity_id r \<in> set (map er_entity_id refs) then refs else refs @ [r])"
    using add unfolding add_reference_def res_map_eq_Inr by blast
  show "list_all (\<lambda>ref. er_rule_version ref = unknown_rule_version) refs'"
  proof (cases ref)
    case None
    then show ?thesis using old by (simp add: refs')
  next
    case (Some x)
    then have "er_rule_version x = unknown_rule_version" using unversioned_reference [of e x] e ref by simp
    then show ?thesis using old by (simp add: refs' Some)
  qed
qed simp

theorem merged_snapshots_forget_rule_versions:
  assumes merged: "merge_propagation_results results limit = Inr r"
    and built: "build_graph_impact_snapshot digest cycle_id world r = Inr s"
  shows "list_all (\<lambda>ref. er_rule_version ref = unknown_rule_version) (gi_affected_entities s)"
proof (rule build_impact_snapshot_facts [OF built])
  fix affected
  assume a: "entity_references_from_impacted_entities (pr_entities r) = Inr affected" "gi_affected_entities s = affected"
  have "list_all (\<lambda>e. dget e ''canonical_id_rule_version'' = PNone) (pr_entities r)"
    unfolding merge_facts(6) [OF merged] by (simp add: list_all_iff merged_dict_def)
  with a(1) show ?thesis unfolding a(2) by (rule unversioned_references)
qed

section \<open>Examples\<close>

lemma ex_path_facts:
  assumes "channel \<in> {''fundamental'', ''event''}"
  shows "\<exists>p. activated_path channel cm rm (ex_row node entity w) = Inr (w * cm * rm, p) \<and> payload_channel p = Inr channel \<and>
    validate_path p = Inr () \<and> dget p ''target_node_id'' = PStr node \<and> dget p ''target_entity_id'' = PStr entity \<and>
    dget p ''score'' = PFloat (w * cm * rm) \<and> dget p ''target_labels'' = PList []"
  using assms
  by (auto simp: activated_path_def ex_row_def float_value_def evidence_refs_from_mapping_def sorted_set_def propagation_path_score_def
      py_strip_def is_blank_def char_code_def payload_channel_def validate_path_def allowed_channels_def required_explanation_keys_def
      build_score_explanation_def string_list_def)

definition ex_client_path :: "string list client" where
  "ex_client_path = ex_client [ex_row ''n'' ''E'' (1/2)]"

definition ex_entity :: "real \<Rightarrow> impact" where
  "ex_entity x = \<lparr>im_node_id = PStr ''n'', im_entity_id = PStr ''E'', im_labels = [], im_score = x, im_stable = ''n'', im_pagerank = 0, im_path_count = 1\<rparr>"

lemma ex_entity_fields [simp]:
  "im_node_id (ex_entity x) = PStr ''n''" "im_entity_id (ex_entity x) = PStr ''E''" "im_score (ex_entity x) = x"
  "im_path_count (ex_entity x) = 1" "dget (impact_dict ch i) ''score'' = PFloat (im_score i)"
  by (simp_all add: ex_entity_def impact_dict_def)

lemma ex_impact_channel: "ch \<in> {''fundamental'', ''event''} \<Longrightarrow> payload_channel (impact_dict ch e) = Inr ch"
  by (auto simp: payload_channel_def allowed_channels_def)

lemma ex_merge_entity:
  "ch \<in> {''fundamental'', ''event''} \<Longrightarrow> merge_entity counts (impact_dict ch (ex_entity x)) t =
     Inr (dput ''canonical:E'' (absorb (impact_dict ch (ex_entity x)) ch x 1
       (case map_of t ''canonical:E'' of None \<Rightarrow> fresh_merged (impact_dict ch (ex_entity x)) | Some m \<Rightarrow> m)) t)"
  using ex_impact_channel [of ch] by (simp add: merge_entity_def entity_key_def float_value_def entity_path_count_def)

lemma ex_channel_answers:
  assumes ch: "ch \<in> {''fundamental'', ''event''}" and cm: "context_multiplier ch (px_channel_multipliers ex_context) = cm"
  obtains p b where
    "run_channel ch ex_client_path (Some ex_ready_graph) [] ex_context (Some (c # cs)) 20 100 [] =
       ([], Inr \<lparr>pr_cycle_id = ''c'', pr_generation = 3, pr_paths = [p], pr_entities = [impact_dict ch (ex_entity (cm / 2))], pr_breakdown = [(ch, b)]\<rparr>)"
    "payload_channel p = Inr ch" "validate_path p = Inr ()" "dget p ''target_node_id'' = PStr ''n''"
    "dget p ''target_entity_id'' = PStr ''E''" "dget p ''score'' = PFloat (cm / 2)"
proof -
  have m: "context_multiplier ch (px_regime_multipliers ex_context) = 1" by (simp add: context_multiplier_def ex_context_def)
  obtain p where p: "activated_path ch cm 1 (ex_row ''n'' ''E'' (1/2)) = Inr (cm / 2, p)"
    and f: "payload_channel p = Inr ch" "validate_path p = Inr ()" "dget p ''target_node_id'' = PStr ''n''"
    "dget p ''target_entity_id'' = PStr ''E''" "dget p ''score'' = PFloat (cm / 2)" "dget p ''target_labels'' = PList []"
    using ex_path_facts [OF ch, of cm 1 "''n''" "''E''" "1/2"] by auto
  have g: "graph_generation_id ex_ready_graph = px_generation ex_context" "ch \<in> set (px_channels ex_context)" "py_strip (px_cycle_id ex_context) = ''c''"
    "px_generation ex_context = 3"
    using ch by (auto simp: ex_ready_graph_def ex_context_def py_strip_def is_blank_def char_code_def)
  show thesis
    by (rule that [of p, OF _ f(1-5)])
      (simp add: run_channel_def run_projected_def db_bind_def db_return_def db_finally_def ex_ready_row g projection_name_of_def
        drop_projection_if_exists_def execute_gds_def execute_read_def ex_client_path_def ex_client_def read_channel_def create_projection_def py_or_def
        stream_pagerank_def read_activated_paths_def m cm p impacted_entities_from_paths_def pagerank_scores_def new_propagation_result_def
        add_impact_def fresh_impact_def f ex_entity_def string_list_def channel_breakdown_def dput_def)
qed

lemma ex_full_run:
  obtains r where
    "run_full_propagation ex_client_path (\<lambda>ch. Some ex_ready_graph) (\<lambda>ch. []) ex_context (Some ''g'') 20 100 [] = ([], Inr r)"
    "length (pr_paths r) = 2" "map path_score (pr_entities r) = [3/2]"
proof -
  have m: "context_multiplier ''fundamental'' (px_channel_multipliers ex_context) = 2"
    "context_multiplier ''event'' (px_channel_multipliers ex_context) = 1" by (simp_all add: context_multiplier_def ex_context_def)
  obtain p b where 1: "run_channel ''fundamental'' ex_client_path (Some ex_ready_graph) [] ex_context (Some (CHR ''g'' # ''-fundamental'')) 20 100 [] =
       ([], Inr \<lparr>pr_cycle_id = ''c'', pr_generation = 3, pr_paths = [p], pr_entities = [impact_dict ''fundamental'' (ex_entity (2 / 2))], pr_breakdown = [(''fundamental'', b)]\<rparr>)"
    and p: "payload_channel p = Inr ''fundamental''" "validate_path p = Inr ()" "dget p ''target_node_id'' = PStr ''n''"
    "dget p ''target_entity_id'' = PStr ''E''" "dget p ''score'' = PFloat (2 / 2)"
    using ex_channel_answers [of "''fundamental''" 2] m by blast
  obtain q d where 2: "run_channel ''event'' ex_client_path (Some ex_ready_graph) [] ex_context (Some (CHR ''g'' # ''-event'')) 20 100 [] =
       ([], Inr \<lparr>pr_cycle_id = ''c'', pr_generation = 3, pr_paths = [q], pr_entities = [impact_dict ''event'' (ex_entity (1 / 2))], pr_breakdown = [(''event'', d)]\<rparr>)"
    and q: "payload_channel q = Inr ''event''" "validate_path q = Inr ()" "dget q ''target_node_id'' = PStr ''n''"
    "dget q ''target_entity_id'' = PStr ''E''" "dget q ''score'' = PFloat (1 / 2)"
    using ex_channel_answers [of "''event''" 1] m by blast
  let ?r = "\<lparr>pr_cycle_id = ''c'', pr_generation = 3, pr_paths = [p], pr_entities = [impact_dict ''fundamental'' (ex_entity 1)], pr_breakdown = [(''fundamental'', b)]\<rparr>"
    and ?s = "\<lparr>pr_cycle_id = ''c'', pr_generation = 3, pr_paths = [q], pr_entities = [impact_dict ''event'' (ex_entity (1 / 2))], pr_breakdown = [(''event'', d)]\<rparr>"
  have runs: "run_channels ex_client_path (\<lambda>ch. Some ex_ready_graph) (\<lambda>ch. []) ex_context (Some ''g'') 20 100 [''fundamental'', ''event''] [] = ([], Inr [?r, ?s])"
    using 1 2 by (simp add: db_bind_def db_return_def runner_for_channel_def run_fundamental_propagation_def run_event_propagation_def
        projection_name_def ex_context_def)
  note c = ex_impact_channel
  have counts: "entity_path_counts [?r, ?s] = Inr [((''canonical:E'', ''fundamental''), 1), ((''canonical:E'', ''event''), 1)]"
    by (simp add: entity_path_counts_def count_path_def p q path_entity_key_def entity_key_def dput_def)
  have "\<exists>b'. res_fold merge_result [?r, ?s] ([], [], []) = Inr ([p, q], b', [''fundamental'', ''event''])"
    by (simp add: merge_result_def result_channels_def p q c allowed_channels_def merge_breakdown_def Let_def)
  then obtain b' where walk: "res_fold merge_result [?r, ?s] ([], [], []) = Inr ([p, q], b', [''fundamental'', ''event''])" by blast
  have sc: "scored_paths [p, q] = Inr [(1, p), (1/2, q)]" by (simp add: scored_paths_def p q float_value_def)
  let ?counts = "[((''canonical:E'', ''fundamental''), 1), ((''canonical:E'', ''event''), 1)] :: path_counts"
  note e = ex_merge_entity
  have a: "me_channel_scores (absorb e ch x n m) = add_channel_score ch x (me_channel_scores m)"
    "me_score (absorb e ch x n m) = sum_list (map snd (add_channel_score ch x (me_channel_scores m)))" for e ch x n m
    by (simp_all add: absorb_def merge_identity_def Let_def)
  have "me_channel_scores (fresh_merged e) = []" for e by (simp add: fresh_merged_def)
  then obtain es where es: "merge_impacted_entities [?r, ?s] ?counts 100 = Inr es" "map path_score es = [3/2]"
    by (simp add: merge_impacted_entities_def e a add_channel_score_def dput_def)
  have less: "path_sort_key (1, p) \<le> path_sort_key (1/2, q)" by (simp add: path_sort_key_def less_eq_prod_def)
  obtain r where "merge_propagation_results [?r, ?s] 100 = Inr r" "pr_paths r = [p, q]" "pr_entities r = es"
    using less by (simp add: merge_propagation_results_def same_run_def counts walk sc es new_propagation_result_def Let_def
        py_strip_def is_blank_def char_code_def del: res_fold.simps)
  moreover have "px_channels ex_context = [''fundamental'', ''event'']" by (simp add: ex_context_def)
  ultimately show thesis
    using that [of r] es(2) runs by (simp add: run_full_propagation_def db_bind_def db_return_def)
qed

theorem full_propagation_conserves_impact_witness:
  "\<exists>r. run_full_propagation ex_client_path (\<lambda>ch. Some ex_ready_graph) (\<lambda>ch. []) ex_context (Some ''g'') 20 100 [] = ([], Inr r) \<and>
     map path_score (pr_entities r) = [3/2] \<and> sum_list (map path_score (filter has_target (pr_paths r))) = 3/2"
proof -
  obtain r where r: "run_full_propagation ex_client_path (\<lambda>ch. Some ex_ready_graph) (\<lambda>ch. []) ex_context (Some ''g'') 20 100 [] = ([], Inr r)"
    "length (pr_paths r) = 2" "map path_score (pr_entities r) = [3/2]" by (rule ex_full_run)
  have n: "length (pr_entities r) = 1" using r(3) by (metis One_nat_def length_Cons length_map list.size(3))
  have "sum_list (map path_score (pr_entities r)) = sum_list (map path_score (filter has_target (pr_paths r)))"
    using full_propagation_conserves_impact [OF r(1)] r(2) n by simp
  then show ?thesis using r by (intro exI [of _ r]) simp
qed

definition ex_result :: "real \<Rightarrow> string \<Rightarrow> propagation_result" where
  "ex_result x ch = \<lparr>pr_cycle_id = ''c'', pr_generation = 3, pr_paths = [], pr_entities = [impact_dict ch (ex_entity x)],
     pr_breakdown = [(ch, PDict [])]\<rparr>"

theorem merge_groups_by_entity_witness:
  "\<exists>r. merge_propagation_results [ex_result 1 ''fundamental'', ex_result (-3) ''event''] 5 = Inr r \<and>
     map path_score (pr_entities r) = [-2]"
proof -
  let ?rs = "[ex_result 1 ''fundamental'', ex_result (-3) ''event'']"
  let ?es = "[impact_dict ''fundamental'' (ex_entity 1), impact_dict ''event'' (ex_entity (-3))]"
  have counts: "entity_path_counts ?rs = Inr []" by (simp add: entity_path_counts_def ex_result_def)
  have walk: "\<exists>b. res_fold merge_result ?rs ([], [], []) = Inr ([], b, [''fundamental'', ''event''])"
    by (simp add: merge_result_def result_channels_def ex_impact_channel allowed_channels_def merge_breakdown_def Let_def ex_result_def)
  have "\<exists>es. merge_impacted_entities ?rs [] 5 = Inr es" by (simp add: merge_impacted_entities_def ex_merge_entity ex_result_def)
  then obtain r where r: "merge_propagation_results ?rs 5 = Inr r"
    using counts walk by (auto simp: merge_propagation_results_def same_run_def scored_paths_def new_propagation_result_def Let_def
        ex_result_def py_strip_def is_blank_def char_code_def)
  have k: "key_of (impact_dict ch (ex_entity x)) = ''canonical:E''" for ch x by (simp add: key_of_def entity_key_def)
  have "pr_entities r = map merged_dict (take (nat 5) (sort_key entity_sort_key [combined [] ?es]))"
    using merge_groups_by_entity [OF r] by (simp add: ex_result_def k firsts_def)
  then show ?thesis
    using r by (simp add: combined_def score_of_payload_def float_value_def)
qed

theorem impact_snapshot_is_consistent_witness:
  "\<exists>s. build_graph_impact_snapshot (\<lambda>d. ''h'') ''c'' ''w''
      \<lparr>pr_cycle_id = ''c'', pr_generation = 3, pr_paths = [[(''evidence_refs'', PList [PStr ''ref''])]],
       pr_entities = [[(''node_id'', PStr ''n''), (''score'', PFloat (-3))]], pr_breakdown = []\<rparr> = Inr s \<and>
     gi_evidence_refs s = [''ref''] \<and> gi_direction s = Bearish \<and> gi_impact_score s < 0"
proof -
  let ?r = "\<lparr>pr_cycle_id = ''c'', pr_generation = 3, pr_paths = [[(''evidence_refs'', PList [PStr ''ref''])]],
       pr_entities = [[(''node_id'', PStr ''n''), (''score'', PFloat (-3))]], pr_breakdown = []\<rparr>"
  let ?e = "[(''node_id'', PStr ''n''), (''score'', PFloat (-3))] :: pydict"
  have strip: "py_lower ''unknown'' = ''unknown''" "py_strip ''n'' = ''n''" "py_strip ''unknown'' = ''unknown''" "py_strip ''c'' = ''c''" "py_strip ''ref'' = ''ref''"
    by code_simp+
  have ref: "impacted_reference ?e = Inr (Some \<lparr>er_entity_id = ''n'', er_entity_type = ''unknown'', er_rule_version = ''unknown''\<rparr>)"
    by (simp add: impacted_reference_def entity_reference_of_def new_entity_reference_def py_or_def string_values_def strip unknown_rule_version_def)
  have refs: "entity_references_from_impacted_entities [?e] = Inr [\<lparr>er_entity_id = ''n'', er_entity_type = ''unknown'', er_rule_version = ''unknown''\<rparr>]"
    by (simp add: entity_references_from_impacted_entities_def ref add_reference_def)
  have evidence: "path_evidence [(''evidence_refs'', PList [PStr ''ref''])] = Inr [''ref'']"
    by (simp add: path_evidence_def evidence_refs_from_value_def strip sorted_set_def)
  have total: "total_score [?e] = Inr (-3)" by (simp add: total_score_def float_value_def)
  have sectors: "affected_sectors [?e] = []" by (simp add: affected_sectors_def string_values_def sorted_set_def)
  obtain s where s: "build_graph_impact_snapshot (\<lambda>d. ''h'') ''c'' ''w'' ?r = Inr s" "gi_evidence_refs s = [''ref'']" "gi_direction s = Bearish"
    by (simp add: build_graph_impact_snapshot_def Let_def refs evidence impact_direction_def impact_score_def total sectors
        new_graph_impact_snapshot_def strip sorted_set_def)
  with impact_snapshot_is_consistent [OF s(1)] show ?thesis by (intro exI [of _ s]) simp
qed
end
