(* ===== verification/Derive.thy ===== *)
theory Derive
  imports Storage Governance
begin

text \<open>
  \<open>mvp20/derive.py\<close>: the data points that are computed from others. The formulas of the four tiers
  take payloads, dictionaries or nothing; a formula answers a payload or nothing, and an exception that
  it raises is caught by the runner. \<open>DeriveRunner\<close> reads the hot snapshot of a company, prepares the
  partial scores of L11, applies the formulas in the order of the registry and stores the results; the
  older driver \<open>derive_all\<close> works on price histories, which are an argument here.
\<close>

section \<open>Helpers\<close>

definition nonfinite_text :: "string \<Rightarrow> bool" where
  "nonfinite_text s \<longleftrightarrow> py_lower (snd (split_sign (py_strip s))) \<in> {''inf'', ''infinity'', ''nan''}"

text \<open>A text may be an infinity or a nan, which the helper turns into the default.\<close>

definition coerce_float :: "real \<Rightarrow> pyval \<Rightarrow> real" where
  "coerce_float d v = (case v of PStr s \<Rightarrow> if nonfinite_text s then d else try_float v d | _ \<Rightarrow> try_float v d)"

definition clip :: "real \<Rightarrow> real \<Rightarrow> real \<Rightarrow> real" where
  "clip x lo hi = max lo (min hi x)"

interpretation derive_clip: clamping clip
  by unfold_locales (simp add: clip_def)

definition decay :: "real \<Rightarrow> real \<Rightarrow> real" where
  "decay input_conf factor = max 0 (min 1 (input_conf * factor))"

text \<open>\<open>f"{x:.df}"\<close> and \<open>f"{x:+.df}"\<close>.\<close>

definition fixed_text :: "nat \<Rightarrow> real \<Rightarrow> string" where
  "fixed_text d x =
     (let n = nat (round_half_even (\<bar>x\<bar> * 10 ^ d)); f = nat_str (n mod 10 ^ d) in
      (if x < 0 then ''-'' else []) @ nat_str (n div 10 ^ d) @
      (if d = 0 then [] else ''.'' @ replicate (d - length f) (CHR ''0'') @ f))"

definition signed :: "nat \<Rightarrow> real \<Rightarrow> string" where
  "signed d x = (if x < 0 then [] else ''+'') @ fixed_text d x"

type_synonym payload = "pydict option"

definition given :: "payload \<Rightarrow> bool" where
  "given x \<longleftrightarrow> (case x of None \<Rightarrow> False | Some d \<Rightarrow> d \<noteq> [])"

text \<open>The body of \<open>if isinstance(x, Mapping)\<close>, over what the formula accumulates.\<close>

definition on_mapping :: "payload \<Rightarrow> (pydict \<Rightarrow> 's \<Rightarrow> 's) \<Rightarrow> 's \<Rightarrow> 's" where
  "on_mapping x f s = (case x of None \<Rightarrow> s | Some d \<Rightarrow> f d s)"

text \<open>\<open>d.get(a) or d.get(b)\<close>.\<close>

definition either :: "pydict \<Rightarrow> string \<Rightarrow> string \<Rightarrow> pyval" where
  "either d a b = py_or (dget d a) (dget d b)"

definition texts :: "string list \<Rightarrow> pyval" where
  "texts ds = PList (map PStr ds)"

type_synonym tally = "real \<times> string list"

definition note_if :: "bool \<Rightarrow> string \<Rightarrow> string list \<Rightarrow> string list" where
  "note_if b s ds = (if b then ds @ [s] else ds)"

section \<open>Price histories\<close>

fun as_number :: "pyval \<Rightarrow> real res" where
  "as_number (PInt i) = Inr (of_int i)"
| "as_number (PFloat x) = Inr x"
| "as_number (PBool b) = Inr (if b then 1 else 0)"
| "as_number v = Inl TypeError"

definition percentile_rank :: "pyval \<Rightarrow> real list \<Rightarrow> real option res" where
  "percentile_rank current history =
     (if history = [] then Inr None
      else res_map (\<lambda>c. Some (real (length (filter (\<lambda>h. h < c) history)) / real (length history))) (as_number current))"

definition run_up_window :: "real list \<Rightarrow> nat \<Rightarrow> pyval" where
  "run_up_window series w =
     (if length series > w \<and> series ! w \<noteq> 0 then PFloat ((hd series - series ! w) / series ! w) else PNone)"

definition derive_run_up :: "real list \<Rightarrow> payload" where
  "derive_run_up daily_close =
     (if length daily_close < 6 then None
      else Some [(''d5_pct'', run_up_window daily_close 5), (''d20_pct'', run_up_window daily_close 20),
                 (''d60_pct'', run_up_window daily_close 60), (''latest_close'', PFloat (hd daily_close)),
                 (''history_days'', PInt (int (length daily_close)))])"

definition derive_crowdedness :: "pyval \<Rightarrow> real list \<Rightarrow> payload res" where
  "derive_crowdedness current history =
     (if current = PNone \<or> history = [] then Inr None
      else res_map (\<lambda>pct. case pct of None \<Rightarrow> None | Some p \<Rightarrow>
        Some [(''percentile'', PFloat p),
              (''label'', PStr (if p > 9/10 then ''extreme'' else if p > 75/100 then ''crowded'' else if p > 1/2 then ''elevated'' else ''neutral'')),
              (''current_turnover_rate'', current), (''history_window_days'', PInt (int (length history)))])
        (percentile_rank current history))"

definition opt_float :: "real option \<Rightarrow> pyval" where
  "opt_float x = (case x of None \<Rightarrow> PNone | Some r \<Rightarrow> PFloat r)"

definition quantile_entry :: "string \<Rightarrow> pyval \<Rightarrow> real list \<Rightarrow> pydict res" where
  "quantile_entry key current history =
     (if current \<noteq> PNone \<and> history \<noteq> []
      then res_map (\<lambda>p. [(key, opt_float p)]) (percentile_rank current (filter (\<lambda>p. p > 0) history)) else Inr [])"

definition derive_historical_quantile :: "pyval \<Rightarrow> real list \<Rightarrow> pyval \<Rightarrow> real list \<Rightarrow> payload res" where
  "derive_historical_quantile current_pe history_pe current_pb history_pb =
     res_bind (quantile_entry ''pe_percentile'' current_pe history_pe) (\<lambda>pe.
     res_map (\<lambda>pb. if pe @ pb = [] then None
                   else Some (pe @ pb @ [(''history_window_days'', PInt (int (max (length history_pe) (length history_pb))))]))
       (quantile_entry ''pb_percentile'' current_pb history_pb))"

text \<open>The percentiles of a quantile payload are numbers or nothing.\<close>

definition derive_overvalued :: "payload \<Rightarrow> payload" where
  "derive_overvalued quantile = (case quantile of
     None \<Rightarrow> None
   | Some q \<Rightarrow>
      (let pe = dget q ''pe_percentile''; pb = dget q ''pb_percentile'';
           known = concat (map (\<lambda>v. case v of PFloat x \<Rightarrow> [x] | _ \<Rightarrow> []) [pe, pb]) in
       if known = [] then None
       else (let m = Max (set known) in
         Some [(''is_overvalued'', PBool (m > 80/100)),
               (''severity'', PStr (if m > 95/100 then ''extreme'' else if m > 80/100 then ''high'' else if m > 60/100 then ''elevated'' else ''normal'')),
               (''max_quantile'', PFloat m), (''pe_pct'', pe), (''pb_pct'', pb)])))"

section \<open>Environment and mood\<close>

definition trend_factor :: "pydict \<Rightarrow> tally \<Rightarrow> tally" where
  "trend_factor d t = (case t of (m, ds) \<Rightarrow>
     let regime = either d ''regime'' ''label'';
         (m, ds) = (if regime = PStr ''bull'' \<or> regime = PStr ''strong_bull'' then (m * (115/100), ds @ [(''trend'' @ utf8 [226, 134, 145])])
                    else if regime = PStr ''bear'' \<or> regime = PStr ''strong_bear'' then (m * (85/100), ds @ [(''trend'' @ utf8 [226, 134, 147])])
                    else (m, ds));
         scalar = coerce_float 0 (dget d ''scalar'') in
     if scalar \<noteq> 0 then (m * (1 + clip scalar (-3/10) (3/10) * (25/100)), ds @ [''trend_scalar='' @ fixed_text 2 scalar]) else (m, ds))"

definition style_factor :: "pydict \<Rightarrow> tally \<Rightarrow> tally" where
  "style_factor d t = (case t of (m, ds) \<Rightarrow>
     let s = either d ''growth_minus_value'' ''scalar'' in
     if s \<noteq> PNone then (m * (1 + clip (coerce_float 0 s) (-3/10) (3/10) * (10/100)), ds @ [''style_tilt'']) else (m, ds))"

definition liquidity_factor :: "pydict \<Rightarrow> tally \<Rightarrow> tally" where
  "liquidity_factor d t = (case t of (m, ds) \<Rightarrow>
     let m2 = coerce_float 8 (dget d ''m2_yoy_pct'') in
     (m * (1 + clip ((m2 - 8) / 100) (-10/100) (10/100)), note_if (\<bar>m2 - 8\<bar> > 1) (''M2='' @ fixed_text 1 m2 @ ''%'') ds))"

definition rates_factor :: "pydict \<Rightarrow> tally \<Rightarrow> tally" where
  "rates_factor d t = (case t of (m, ds) \<Rightarrow>
     let lpr = coerce_float 3 (dget d ''lpr_1y_pct'') in
     (m * (1 - clip ((lpr - 3) / 10) (-10/100) (10/100)), note_if (\<bar>lpr - 3\<bar> > 25/100) (''LPR='' @ fixed_text 2 lpr @ ''%'') ds))"

definition derive_l7_env_risk_appetite :: "payload \<Rightarrow> payload \<Rightarrow> payload \<Rightarrow> payload \<Rightarrow> payload res" where
  "derive_l7_env_risk_appetite trend style liquidity rates =
     (let inputs = [trend, style, liquidity, rates] in
      if \<not> list_ex given inputs then Inr None
      else
        (let (m, ds) = on_mapping rates rates_factor (on_mapping liquidity liquidity_factor
               (on_mapping style style_factor (on_mapping trend trend_factor (1, []))));
             m = clip m (7/10) (13/10) in
         Inr (Some [(''multiplier'', PFloat m),
           (''label'', PStr (if m > 108/100 then ''risk_on'' else if m < 92/100 then ''risk_off'' else ''neutral'')),
           (''drivers'', texts ds), (''inputs_used'', PInt (int (length (filter given inputs))))])))"

definition social_heat :: "pydict \<Rightarrow> tally \<Rightarrow> tally" where
  "social_heat d t = (case t of (s, fs) \<Rightarrow>
     let (s, fs) = (if truthy (dget d ''in_top_100'') then (s + 25/100, fs @ [''top100_hot'']) else (s, fs));
         ctc = coerce_float 0 (dget d ''concept_tag_count'') in
     if ctc \<ge> 10 then (s + 15/100, fs @ [''concepts='' @ fixed_text 0 ctc]) else (s, fs))"

definition capital_chase :: "pydict \<Rightarrow> tally \<Rightarrow> tally" where
  "capital_chase d t = (case t of (s, fs) \<Rightarrow>
     let main_net = coerce_float 0 (dget d ''main_net'') in
     if main_net > 50000 then (s + 3/10, fs @ [''main_net+'' @ fixed_text 0 main_net @ (utf8 [228, 184, 135])])
     else if main_net > 10000 then (s + 15/100, fs) else (s, fs))"

definition theme_inflation :: "pydict \<Rightarrow> tally \<Rightarrow> tally" where
  "theme_inflation d t = (case t of (s, fs) \<Rightarrow>
     let cc = coerce_float 0 (dget d ''concept_count'') in
     if cc \<ge> 10 then (s + 20/100, fs @ [''theme_concepts='' @ fixed_text 0 cc])
     else if cc \<ge> 5 then (s + 10/100, fs) else (s, fs))"

definition derive_l7_mood_fomo :: "payload \<Rightarrow> payload \<Rightarrow> payload \<Rightarrow> payload res" where
  "derive_l7_mood_fomo media_social active_inflow theme =
     (if \<not> list_ex given [media_social, active_inflow, theme] then Inr None
      else
        (let (s, fs) = on_mapping theme theme_inflation (on_mapping active_inflow capital_chase (on_mapping media_social social_heat (0, [])));
             s = clip s 0 1 in
         Inr (Some [(''score'', PFloat s),
           (''label'', PStr (if s > 7/10 then ''extreme'' else if s > 4/10 then ''elevated'' else if s > 15/100 then ''moderate'' else ''calm'')),
           (''factors'', texts fs)])))"

definition derive_l10_val_expansion_compression :: "payload \<Rightarrow> payload res" where
  "derive_l10_val_expansion_compression state_expansion = Inr (case state_expansion of
     None \<Rightarrow> None | Some d \<Rightarrow> Some (dput ''mirror_of'' (PStr ''L6.state.expansion_compression'') d))"

section \<open>Risks\<close>

text \<open>A score of demand, one of supply, and what stands out.\<close>

type_synonym balance = "real \<times> real \<times> string list"

definition terminal_demand :: "pydict \<Rightarrow> balance \<Rightarrow> balance" where
  "terminal_demand p b = (case b of (d, s, ds) \<Rightarrow>
     let x = coerce_float 0 (either p ''growth_pct'' ''scalar'') in
     (d + clip (x / 20) (-1) 1, s, note_if (\<bar>x\<bar> > 5) (''terminal_demand='' @ signed 1 x @ ''%'') ds))"

definition replacement_demand :: "pydict \<Rightarrow> balance \<Rightarrow> balance" where
  "replacement_demand p b = (case b of (d, s, ds) \<Rightarrow>
     (d + clip (coerce_float 0 (either p ''cycle_position'' ''scalar'')) (-1) 1 * (1/2), s, ds))"

definition capacity_supply :: "pydict \<Rightarrow> balance \<Rightarrow> balance" where
  "capacity_supply p b = (case b of (d, s, ds) \<Rightarrow>
     let c = coerce_float 75 (either p ''utilization_pct'' ''scalar'') in
     (d, s + clip ((85 - c) / 20) (-1) 1, note_if (c > 90 \<or> c < 65) (''capacity_util='' @ fixed_text 0 c @ ''%'') ds))"

definition inventory_supply :: "pydict \<Rightarrow> balance \<Rightarrow> balance" where
  "inventory_supply p b = (case b of (d, s, ds) \<Rightarrow>
     let days = coerce_float 60 (either p ''days_on_hand'' ''scalar'') in
     (d, s + clip ((days - 60) / 60) (-1/2) (1/2), note_if (days > 90 \<or> days < 30) (''inv_days='' @ fixed_text 0 days) ds))"

definition derive_l8_industry_demand_supply :: "payload \<Rightarrow> payload \<Rightarrow> payload \<Rightarrow> payload \<Rightarrow> payload res" where
  "derive_l8_industry_demand_supply terminal capacity inventory replacement =
     (if \<not> list_ex given [terminal, capacity, inventory, replacement] then Inr None
      else
        (let (d, s, ds) = on_mapping inventory inventory_supply (on_mapping capacity capacity_supply
               (on_mapping replacement replacement_demand (on_mapping terminal terminal_demand (0, 0, []))));
             imbalance = clip (s - d) (-1) 1 in
         Inr (Some [(''score'', PFloat imbalance), (''demand_score'', PFloat d), (''supply_score'', PFloat s),
           (''severity'', PStr (if imbalance > 6/10 then ''severe_glut'' else if imbalance > 3/10 then ''soft_demand''
              else if \<bar>imbalance\<bar> \<le> 3/10 then ''balanced'' else if imbalance > -6/10 then ''tight_supply'' else ''strong_demand'')),
           (''drivers'', texts ds)])))"

definition discount_pressure :: "pydict \<Rightarrow> tally \<Rightarrow> tally" where
  "discount_pressure p t = (case t of (s, ds) \<Rightarrow>
     let d = coerce_float 0 (either p ''discount_pct'' ''scalar'') in
     if d > 10 then (s + 4/10, ds @ [''discount='' @ fixed_text 1 d @ ''%'']) else if d > 5 then (s + 2/10, ds) else (s, ds))"

definition compete_pressure :: "pydict \<Rightarrow> tally \<Rightarrow> tally" where
  "compete_pressure p t = (case t of (s, ds) \<Rightarrow>
     let c = coerce_float 0 (either p ''intensity'' ''scalar'') in
     (s + clip c 0 1 * (4/10), note_if (c > 1/2) (''compete_war='' @ fixed_text 2 c) ds))"

definition pricing_weakness :: "pydict \<Rightarrow> tally \<Rightarrow> tally" where
  "pricing_weakness p t = (case t of (s, ds) \<Rightarrow>
     let x = coerce_float (1/2) (dget p ''scalar'') in
     if x < 4/10 then (s + 25/100, ds @ [''pricing_power_weak'']) else if x < 6/10 then (s + 10/100, ds) else (s, ds))"

definition derive_l8_industry_price_war :: "payload \<Rightarrow> payload \<Rightarrow> payload \<Rightarrow> payload res" where
  "derive_l8_industry_price_war discount compete pricing_power =
     (if \<not> list_ex given [discount, compete, pricing_power] then Inr None
      else
        (let (s, ds) = on_mapping pricing_power pricing_weakness (on_mapping compete compete_pressure
               (on_mapping discount discount_pressure (0, [])));
             s = clip s 0 1 in
         Inr (Some [(''score'', PFloat s),
           (''severity'', PStr (if s > 7/10 then ''severe'' else if s > 4/10 then ''active'' else if s > 15/100 then ''muted'' else ''none'')),
           (''drivers'', texts ds)])))"

definition priced_run_up :: "pydict \<Rightarrow> tally \<Rightarrow> tally" where
  "priced_run_up p t = (case t of (s, fs) \<Rightarrow>
     let d60 = coerce_float 0 (dget p ''d60_pct'') in
     if d60 > 30/100 then (s + 40/100, fs @ [(''60d'' @ utf8 [230, 182, 168, 229, 185, 133] @ '' '') @ fixed_text 0 (d60 * 100) @ ''%''])
     else if d60 > 15/100 then (s + 20/100, fs) else (s, fs))"

definition priced_valuation :: "pydict \<Rightarrow> tally \<Rightarrow> tally" where
  "priced_valuation p t = (case t of (s, fs) \<Rightarrow>
     let sev = dget p ''severity'' in
     if sev = PStr ''extreme'' \<or> sev = PStr ''high'' then (s + 35/100, fs @ [(utf8 [228, 188, 176, 229, 128, 188]) @ py_str sev])
     else if sev = PStr ''elevated'' then (s + 15/100, fs) else (s, fs))"

definition priced_score :: "pydict \<Rightarrow> tally \<Rightarrow> tally" where
  "priced_score p t = (case t of (s, fs) \<Rightarrow>
     let x = coerce_float 0 (dget p ''score'') in
     if x > 4/10 then (s + 20/100, fs @ [(utf8 [231, 159, 173, 230, 156, 159, 229, 136, 134] @ '' '') @ signed 2 x]) else (s, fs))"

definition derive_l8_val_priced_in :: "payload \<Rightarrow> payload \<Rightarrow> payload \<Rightarrow> payload res" where
  "derive_l8_val_priced_in run_up short_score overvalued =
     (if \<not> list_ex given [run_up, short_score, overvalued] then Inr None
      else
        (let (s, fs) = on_mapping short_score priced_score (on_mapping overvalued priced_valuation (on_mapping run_up priced_run_up (0, [])));
             s = clip s 0 1 in
         Inr (Some [(''priced_in_score'', PFloat s),
           (''label'', PStr (if s \<ge> 7/10 then ''fully_priced_in'' else if s \<ge> 4/10 then ''priced_in'' else if s \<ge> 2/10 then ''partial'' else ''fresh'')),
           (''factors'', texts fs)])))"

section \<open>Valuation\<close>

definition path_percentile :: "payload \<Rightarrow> payload \<Rightarrow> pyval" where
  "path_percentile historical quantile =
     (let p = on_mapping historical (\<lambda>d p. dget d ''pe_percentile'') PNone in
      if p = PNone then on_mapping quantile (\<lambda>d p. dget d ''pe_percentile'') p else p)"

definition derive_l6_path_tag :: "payload \<Rightarrow> payload \<Rightarrow> payload \<Rightarrow> payload \<Rightarrow> payload res" where
  "derive_l6_path_tag mult_pe historical quantile state_expansion =
     (if \<not> list_ex given [mult_pe, historical, quantile, state_expansion] then Inr None
      else if on_mapping state_expansion (\<lambda>d b. truthy (dget d ''path_tag'')) False
      then (let tag = on_mapping state_expansion (\<lambda>d v. dget d ''path_tag'') PNone in
            Inr (Some [(''tag'', tag), (''label'', tag), (''source'', PStr ''L6.state.expansion_compression'')]))
      else
        (let pe = coerce_float (-1) (path_percentile historical quantile) in
         if pe < 0 then Inr (Some [(''tag'', PStr ((utf8 [228, 188, 176, 229, 128, 188, 230, 140, 129, 229, 185, 179]))), (''label'', PStr ''flat''),
              (''rationale'', PStr ''insufficient historical context'')])
         else
           (let (tag, label) = (if pe > 75/100 then ((utf8 [228, 188, 176, 229, 128, 188, 230, 137, 169, 229, 188, 160]), ''expansion'') else if pe < 25/100 then ((utf8 [228, 188, 176, 229, 128, 188, 228, 191, 174, 229, 164, 141]), ''repair'')
                  else if pe < 40/100 then ((utf8 [228, 188, 176, 229, 128, 188, 229, 142, 139, 231, 188, 169]), ''compression'') else ((utf8 [228, 188, 176, 229, 128, 188, 230, 140, 129, 229, 185, 179]), ''flat'')) in
            Inr (Some [(''tag'', PStr tag), (''label'', PStr label), (''pe_percentile'', PFloat pe)]))))"

definition derive_l6_path_second_derivative :: "payload \<Rightarrow> payload \<Rightarrow> payload res" where
  "derive_l6_path_second_derivative historical run_up = (case run_up of
     None \<Rightarrow> Inr None
   | Some p \<Rightarrow>
      (let d20 = dget p ''d20_pct''; d60 = dget p ''d60_pct'' in
       if d20 = PNone \<and> d60 = PNone then Inr None
       else
         (let a = (if d20 \<noteq> PNone then coerce_float 0 d20 / 20 else 0);
              b = (if d60 \<noteq> PNone then coerce_float 0 d60 / 60 else 0); x = a - b in
          Inr (Some [(''second_derivative'', PFloat x), (''d20_daily'', PFloat a), (''d60_daily'', PFloat b),
            (''label'', PStr (if x > 2/1000 then ''accelerating'' else if x < -2/1000 then ''decelerating'' else ''stable''))]))))"

definition sens_step :: "payload \<times> real \<times> real \<Rightarrow> tally \<Rightarrow> tally" where
  "sens_step e t = (case e of (x, weight, neutral) \<Rightarrow> on_mapping x (\<lambda>p (factor, ds).
     let v = coerce_float neutral (py_or (either p ''scalar'' ''value'') (dget p ''score''));
         delta = (if neutral \<noteq> 0 then (v - neutral) / neutral else v) in
     (factor * (1 + clip delta (-1/2) (1/2) * weight), ds @ [''x='' @ fixed_text 3 v])) t)"

definition multiplier_payload :: "tally \<Rightarrow> payload res" where
  "multiplier_payload t = Inr (Some [(''multiplier'', PFloat (clip (fst t) (1/2) (3/2))), (''drivers'', texts (snd t))])"

definition l6_sens_factor :: "(payload \<times> real \<times> real) list \<Rightarrow> payload res" where
  "l6_sens_factor inputs =
     (if \<not> list_ex (\<lambda>e. given (fst e)) inputs then Inr None else multiplier_payload (fold sens_step inputs (1, [])))"

definition derive_l6_sens_growth_margin :: "payload \<Rightarrow> payload \<Rightarrow> payload res" where
  "derive_l6_sens_growth_margin gross_margin revenue_yoy = l6_sens_factor [(gross_margin, 1/2, 25), (revenue_yoy, 1/2, 10)]"

definition ocf_factor :: "pydict \<Rightarrow> tally \<Rightarrow> tally" where
  "ocf_factor p t = (case t of (f, ds) \<Rightarrow>
     let q = coerce_float 50 (dget p ''value'') in
     (f * (1 + clip ((q - 50) / 100) (-20/100) (20/100)), ds @ [''ocf_q='' @ fixed_text 0 q @ ''%'']))"

definition fcf_factor :: "pydict \<Rightarrow> tally \<Rightarrow> tally" where
  "fcf_factor p t = (case t of (f, ds) \<Rightarrow>
     let x = coerce_float 0 (dget p ''scalar'') in
     if x > 0 then (f * (105/100), ds @ [''FCF+'']) else if x < 0 then (f * (95/100), ds @ [''FCF-'']) else (f, ds))"

definition derive_l6_sens_cashflow :: "payload \<Rightarrow> payload \<Rightarrow> payload res" where
  "derive_l6_sens_cashflow ocf_quality fcf =
     (if ocf_quality = None \<and> fcf = None then Inr None
      else multiplier_payload (on_mapping fcf fcf_factor (on_mapping ocf_quality ocf_factor (1, []))))"

definition derive_l6_sens_rates :: "payload \<Rightarrow> payload \<Rightarrow> payload res" where
  "derive_l6_sens_rates env_rates macro_rates = (case if given env_rates then env_rates else macro_rates of
     None \<Rightarrow> Inr None
   | Some p \<Rightarrow>
      (let lpr = coerce_float 3 (dget p ''lpr_1y_pct'') in
       multiplier_payload (1 - clip ((lpr - 3) / 10) (-20/100) (20/100), [''LPR_1Y='' @ fixed_text 2 lpr @ ''%''])))"

definition media_risk :: "pydict \<Rightarrow> tally \<Rightarrow> tally" where
  "media_risk p t = (case t of (f, ds) \<Rightarrow>
     let c = coerce_float 0 (dget p ''count_24h'') in
     if c > 5 then (f * (95/100), ds @ [''media_24h='' @ fixed_text 0 c]) else (f, ds))"

definition news_risk :: "pydict \<Rightarrow> tally \<Rightarrow> tally" where
  "news_risk p t = (case t of (f, ds) \<Rightarrow>
     let c = coerce_float 0 (either p ''count_24h'' ''count_recent'') in
     if c > 10 then (f * (95/100), ds @ [''news='' @ fixed_text 0 c]) else (f, ds))"

definition buy_ratings :: "string list" where
  "buy_ratings = [(utf8 [228, 185, 176, 229, 133, 165]), ''Buy'', (utf8 [229, 162, 158, 230, 140, 129]), (utf8 [229, 188, 186, 231, 131, 136, 230, 142, 168, 232, 141, 144])]"

definition sell_ratings :: "string list" where
  "sell_ratings = [(utf8 [229, 141, 150, 229, 135, 186]), ''Sell'', (utf8 [229, 135, 143, 230, 140, 129])]"

definition count_ratings :: "pydict \<Rightarrow> string list \<Rightarrow> int res" where
  "count_ratings ratings ks =
     res_map sum_list (res_list (\<lambda>k. case map_of ratings k of None \<Rightarrow> Inr 0 | Some v \<Rightarrow> py_int v) ks)"

definition rating_factor :: "pydict \<Rightarrow> tally \<Rightarrow> tally res" where
  "rating_factor p t = (case t of (f, ds) \<Rightarrow>
     res_bind (as_mapping (py_or (dget p ''rating_distribution'') (PDict []))) (\<lambda>ratings.
     res_bind (count_ratings ratings buy_ratings) (\<lambda>buys.
     res_map (\<lambda>sells.
       if buys > sells * 3 \<and> buys > 5 then (f * (110/100), ds @ [''buy_ratings='' @ int_str buys])
       else if sells > buys then (f * (90/100), ds) else (f, ds))
       (count_ratings ratings sell_ratings))))"

definition derive_l6_sens_risk_narrative :: "payload \<Rightarrow> payload \<Rightarrow> payload \<Rightarrow> payload res" where
  "derive_l6_sens_risk_narrative media_report company_news surprise =
     (if \<not> list_ex given [media_report, company_news, surprise] then Inr None
      else
        (let t = on_mapping company_news news_risk (on_mapping media_report media_risk (1, [])) in
         res_bind (case surprise of None \<Rightarrow> Inr t | Some p \<Rightarrow> rating_factor p t) multiplier_payload))"

section \<open>Composite scores\<close>

text \<open>The scores accumulate a weighted sum, the number of inputs used, and what stands out.\<close>

type_synonym composite = "real \<times> int \<times> string list"

definition add_score :: "real \<Rightarrow> string \<Rightarrow> real \<Rightarrow> composite \<Rightarrow> composite" where
  "add_score w name s c = (case c of (score, used, rs) \<Rightarrow>
     (score + s * w, used + 1, note_if (name \<noteq> [] \<and> \<bar>s\<bar> > 3/10) (name @ signed 2 s) rs))"

definition renormalised :: "payload list \<Rightarrow> real list \<Rightarrow> real \<Rightarrow> real" where
  "renormalised inputs weights score =
     (let total = sum_list (map snd (filter (\<lambda>(x, w). given x) (zip inputs weights))) in
      if 0 < total \<and> total < sum_list weights then score / total * sum_list weights else score)"

definition horizon_label :: "real \<Rightarrow> string" where
  "horizon_label s = (if s > 3/10 then ''bullish'' else if -3/10 \<le> s \<and> s \<le> 3/10 then ''neutral'' else ''bearish'')"

definition plain_score :: "real \<Rightarrow> string \<Rightarrow> pydict \<Rightarrow> composite \<Rightarrow> composite" where
  "plain_score w name p c = add_score w name (coerce_float 0 (dget p ''score'')) c"

definition derive_l11_short_score :: "payload \<Rightarrow> payload \<Rightarrow> payload \<Rightarrow> payload \<Rightarrow> payload res" where
  "derive_l11_short_score event_impact flow_boost sentiment_shift technical =
     (let inputs = [event_impact, flow_boost, sentiment_shift, technical] in
      if \<not> list_ex given inputs then Inr None
      else
        (let (score, used, rs) = on_mapping technical (plain_score (20/100) ''tech'') (on_mapping sentiment_shift (plain_score (20/100) ''sent'')
               (on_mapping flow_boost (plain_score (30/100) ''flow'') (on_mapping event_impact (plain_score (30/100) ''event'') (0, 0, []))));
             score = clip (renormalised inputs [30/100, 30/100, 20/100, 20/100] score) (-1) 1 in
         Inr (Some [(''score'', PFloat score), (''label'', PStr (horizon_label score)), (''horizon_days'', PInt 5),
           (''factors_used'', PInt used), (''rationale'', texts rs)])))"

definition orders_score :: "pydict \<Rightarrow> composite \<Rightarrow> composite" where
  "orders_score p c =
     (let s = coerce_float 0 (dget p ''score'');
          s = (if s = 0 then clip (coerce_float 0 (dget p ''yoy_pct'') / 50) (-1) 1 else s) in
      add_score (40/100) ''orders'' s c)"

definition eps_score :: "pydict \<Rightarrow> composite \<Rightarrow> composite" where
  "eps_score p c =
     (let s = coerce_float 0 (dget p ''score'');
          cp = coerce_float 0 (dget p ''change_pct_min'') + coerce_float 0 (dget p ''change_pct_max'');
          s = (if s = 0 \<and> cp \<noteq> 0 then clip (cp / 200) (-1) 1 else s) in
      add_score (30/100) ''eps'' s c)"

definition derive_l11_mid_score :: "payload \<Rightarrow> payload \<Rightarrow> payload \<Rightarrow> payload res" where
  "derive_l11_mid_score orders_revenue margin_guidance eps_upward =
     (let inputs = [orders_revenue, margin_guidance, eps_upward] in
      if \<not> list_ex given inputs then Inr None
      else
        (let (score, used, rs) = on_mapping eps_upward eps_score (on_mapping margin_guidance (plain_score (30/100) [])
               (on_mapping orders_revenue orders_score (0, 0, [])));
             score = clip (renormalised inputs [40/100, 30/100, 30/100] score) (-1) 1 in
         Inr (Some [(''score'', PFloat score), (''label'', PStr (horizon_label score)), (''horizon_quarters'', PInt 1),
           (''factors_used'', PInt used), (''rationale'', texts rs)])))"

definition long_step :: "payload \<times> real \<Rightarrow> composite \<Rightarrow> composite" where
  "long_step e c = (case e of (x, w) \<Rightarrow> on_mapping x (\<lambda>p. add_score w [] (coerce_float 0 (either p ''score'' ''scalar''))) c)"

definition derive_l11_long_score :: "payload \<Rightarrow> payload \<Rightarrow> payload \<Rightarrow> payload \<Rightarrow> payload res" where
  "derive_l11_long_score industry_space compete_moat business_model margin =
     (let inputs = [industry_space, compete_moat, business_model, margin]; weights = [25/100, 35/100, 20/100, 20/100] in
      if \<not> list_ex given inputs then Inr None
      else
        (let (score, used, rs) = fold long_step (zip inputs weights) (0, 0, []);
             score = clip (renormalised inputs weights score) (-1) 1 in
         Inr (Some [(''score'', PFloat score), (''label'', PStr (horizon_label score)), (''horizon'', PStr ''long''),
           (''factors_used'', PInt used)])))"

definition score_field :: "payload \<Rightarrow> real" where
  "score_field x = coerce_float 0 (on_mapping x (\<lambda>p v. dget p ''score'') PNone)"

text \<open>The severity is looked up in a dictionary; a list is no key of one.\<close>

definition valuation_pressure_of :: "payload \<Rightarrow> real res" where
  "valuation_pressure_of overvalued = (case overvalued of
     None \<Rightarrow> Inr 0
   | Some p \<Rightarrow> res_map (\<lambda>k. if k = KStr ''extreme'' then 95/100 else if k = KStr ''high'' then 80/100
        else if k = KStr ''elevated'' then 60/100 else if k = KStr ''normal'' then 20/100 else 0) (py_key (dget p ''severity'')))"

definition capital_flow_of :: "payload \<Rightarrow> real" where
  "capital_flow_of active_inflow = on_mapping active_inflow (\<lambda>p x. clip (coerce_float 0 (dget p ''main_net'') / 100000) (-1) 1) 0"

definition mode_of :: "real \<Rightarrow> real \<Rightarrow> real \<Rightarrow> real \<Rightarrow> real \<Rightarrow> string \<times> string" where
  "mode_of short mid long pressure flow =
     (if long \<le> -3/10 \<and> mid \<le> -2/10 \<and> flow \<le> -2/10 then (''trend_reversal'', (utf8 [233, 149, 191] @ ''/'' @ utf8 [228, 184, 173, 231, 186, 191, 226, 134, 147] @ '' '' @ utf8 [232, 181, 132, 233, 135, 145, 226, 134, 147] @ '' ('' @ utf8 [232, 182, 139, 229, 138, 191, 229, 143, 141, 232, 189, 172] @ '')''))
      else if pressure \<ge> 6/10 \<and> flow \<le> -2/10 \<and> mid < 2/10 then (''de_rating'', (utf8 [228, 188, 176, 229, 128, 188, 233, 171, 152] @ '' + '' @ utf8 [232, 181, 132, 233, 135, 145, 230, 146, 164] @ '' + '' @ utf8 [229, 162, 158, 233, 128, 159, 230, 148, 190, 231, 188, 147] @ '' ('' @ utf8 [230, 157, 128, 228, 188, 176, 229, 128, 188] @ '')''))
      else if long \<ge> 4/10 \<and> mid \<ge> 2/10 \<and> pressure < 6/10 \<and> flow \<ge> 2/10 then (''strong_bull'', (utf8 [233, 149, 191, 231, 186, 191, 226, 134, 145] @ '' '' @ utf8 [228, 184, 173, 231, 186, 191, 226, 134, 145] @ '' '' @ utf8 [228, 188, 176, 229, 128, 188, 229, 144, 136, 231, 144, 134] @ '' '' @ utf8 [232, 181, 132, 233, 135, 145, 226, 134, 145] @ '' ('' @ utf8 [229, 188, 186, 229, 164, 154, 229, 164, 180] @ '')''))
      else if long \<ge> 2/10 \<and> short < 2/10 then (''structural_divergence'', (utf8 [233, 149, 191, 231, 186, 191, 229, 136, 169, 229, 165, 189, 228, 189, 134, 231, 159, 173, 230, 156, 159, 230, 156, 170, 232, 183, 159] @ '' ('' @ utf8 [231, 187, 147, 230, 158, 132, 229, 136, 134, 229, 140, 150] @ '')''))
      else if short < 3/10 \<and> \<bar>mid\<bar> < 2/10 \<and> \<bar>flow\<bar> < 3/10 then (''digestion'', (utf8 [231, 159, 173, 230, 156, 159, 229, 185, 179, 230, 183, 161] @ '' '' @ utf8 [228, 184, 173, 231, 186, 191, 231, 168, 179] @ '' '' @ utf8 [232, 181, 132, 233, 135, 145, 232, 189, 174, 229, 138, 168] @ '' ('' @ utf8 [233, 156, 135, 232, 141, 161, 230, 182, 136, 229, 140, 150] @ '')''))
      else if long \<ge> 2/10 \<and> mid \<ge> 0 \<and> pressure < 8/10 \<and> flow \<ge> 0 then (''moderate_bull'', (utf8 [229, 159, 186, 230, 156, 172, 233, 157, 162, 231, 168, 179] @ '' '' @ utf8 [228, 188, 176, 229, 128, 188, 229, 144, 136, 231, 144, 134] @ '' '' @ utf8 [232, 181, 132, 233, 135, 145, 231, 168, 179] @ '' ('' @ utf8 [230, 184, 169, 229, 146, 140, 229, 164, 154, 229, 164, 180] @ '')''))
      else if (short + mid + long) / 3 \<le> -20/100 then (''trend_reversal'', (utf8 [230, 149, 180, 228, 189, 147, 229, 136, 134, 230, 149, 176, 229, 129, 143, 232, 180, 159] @ '' ('' @ utf8 [229, 155, 158, 233, 128, 128] @ '')''))
      else (''wait_for_confirmation'', (utf8 [228, 191, 161, 229, 143, 183, 228, 184, 141, 232, 182, 179] @ '' ('' @ utf8 [231, 173, 137, 229, 190, 133, 233, 170, 140, 232, 175, 129] @ '')'')))"

definition least_confidence :: "payload list \<Rightarrow> real" where
  "least_confidence inputs =
     (let confs = concat (map (\<lambda>x. case x of None \<Rightarrow> [] | Some p \<Rightarrow> [coerce_float (1/2) (dget p ''confidence'')]) inputs) in
      if confs = [] then 1/2 else min_list confs)"

definition derive_l11_mode :: "payload \<Rightarrow> payload \<Rightarrow> payload \<Rightarrow> payload \<Rightarrow> payload \<Rightarrow> payload res" where
  "derive_l11_mode short_score mid_score long_score overvalued active_inflow =
     (if \<not> list_ex given [short_score, mid_score, long_score] then Inr None
      else
        res_map (\<lambda>pressure.
          let s = score_field short_score; m = score_field mid_score; l = score_field long_score; flow = capital_flow_of active_inflow;
              (mode, why) = mode_of s m l pressure flow in
          Some [(''mode'', PStr mode), (''label'', PStr mode), (''rationale'', PStr why),
            (''central_score'', PFloat ((s + m + l) / 3)), (''short'', PFloat s), (''mid'', PFloat m), (''long'', PFloat l),
            (''valuation_pressure'', PFloat pressure), (''capital_flow'', PFloat flow),
            (''confidence'', PFloat (least_confidence [short_score, mid_score, long_score, overvalued, active_inflow]))])
        (valuation_pressure_of overvalued))"

definition trade_signal_of :: "pyval \<Rightarrow> real \<Rightarrow> string" where
  "trade_signal_of mode_label mix =
     (if mode_label = PStr ''trend_reversal'' \<or> mode_label = PStr ''de_rating'' then ''AVOID''
      else if mode_label = PStr ''wait_for_confirmation'' then ''WATCH''
      else if mix \<ge> 45/100 then ''BUY'' else if mix \<ge> 10/100 then ''HOLD'' else if mix \<ge> -20/100 then ''WATCH'' else ''AVOID'')"

definition derive_l11_trade_signal :: "payload \<Rightarrow> payload \<Rightarrow> payload \<Rightarrow> payload \<Rightarrow> payload res" where
  "derive_l11_trade_signal short_score mid_score long_score mode =
     (if \<not> list_ex given [short_score, mid_score, long_score] then Inr None
      else
        (let s = score_field short_score; m = score_field mid_score; l = score_field long_score;
             mix = s * (25/100) + m * (45/100) + l * (30/100);
             mode_label = on_mapping mode (\<lambda>p v. dget p ''mode'') PNone in
         Inr (Some [(''signal'', PStr (trade_signal_of mode_label mix)), (''mix_score'', PFloat mix), (''short'', PFloat s),
           (''mid'', PFloat m), (''long'', PFloat l), (''mode_label'', mode_label)])))"

section \<open>What the formulas answer\<close>

definition num :: "pydict \<Rightarrow> string \<Rightarrow> real" where
  "num d k = (case dget d k of PFloat x \<Rightarrow> x | _ \<Rightarrow> 0)"

definition between :: "real \<Rightarrow> real \<Rightarrow> real \<Rightarrow> bool" where
  "between lo hi x \<longleftrightarrow> lo \<le> x \<and> x \<le> hi"

text \<open>The number of a payload lies in a range.\<close>

definition holds_range :: "string \<Rightarrow> real \<Rightarrow> real \<Rightarrow> payload res \<Rightarrow> bool" where
  "holds_range k lo hi r \<longleftrightarrow> (case r of Inr (Some d) \<Rightarrow> (case dget d k of PFloat x \<Rightarrow> between lo hi x | _ \<Rightarrow> False) | _ \<Rightarrow> True)"

lemma between_clip [simp]: "lo \<le> hi \<Longrightarrow> between lo hi (clip x lo hi)"
  by (simp add: between_def derive_clip.lower derive_clip.upper)

lemma multiplier_in_range: "holds_range ''multiplier'' (1/2) (3/2) (multiplier_payload t)"
  by (simp add: holds_range_def multiplier_payload_def)

lemma formula_ranges:
  "holds_range ''multiplier'' (7/10) (13/10) (derive_l7_env_risk_appetite a b c d)"
  "holds_range ''score'' 0 1 (derive_l7_mood_fomo a b c)"
  "holds_range ''score'' (-1) 1 (derive_l8_industry_demand_supply a b c d)"
  "holds_range ''score'' 0 1 (derive_l8_industry_price_war a b c)"
  "holds_range ''priced_in_score'' 0 1 (derive_l8_val_priced_in a b c)"
  "holds_range ''multiplier'' (1/2) (3/2) (derive_l6_sens_growth_margin a b)"
  "holds_range ''multiplier'' (1/2) (3/2) (derive_l6_sens_cashflow a b)"
  "holds_range ''multiplier'' (1/2) (3/2) (derive_l6_sens_rates a b)"
  "holds_range ''multiplier'' (1/2) (3/2) (derive_l6_sens_risk_narrative a b c)"
  "holds_range ''score'' (-1) 1 (derive_l11_short_score a b c d)"
  "holds_range ''score'' (-1) 1 (derive_l11_mid_score a b c)"
  "holds_range ''score'' (-1) 1 (derive_l11_long_score a b c d)"
proof -
  have none: "holds_range k lo hi (Inr None)" "holds_range k lo hi (Inl e)" for k lo hi e by (simp_all add: holds_range_def)
  show "holds_range ''multiplier'' (7/10) (13/10) (derive_l7_env_risk_appetite a b c d)"
    "holds_range ''score'' 0 1 (derive_l7_mood_fomo a b c)"
    "holds_range ''score'' (-1) 1 (derive_l8_industry_demand_supply a b c d)"
    "holds_range ''score'' 0 1 (derive_l8_industry_price_war a b c)"
    "holds_range ''priced_in_score'' 0 1 (derive_l8_val_priced_in a b c)"
    by (simp_all add: holds_range_def derive_l7_env_risk_appetite_def derive_l7_mood_fomo_def derive_l8_industry_demand_supply_def
        derive_l8_industry_price_war_def derive_l8_val_priced_in_def Let_def split: prod.split)
  show "holds_range ''score'' (-1) 1 (derive_l11_short_score a b c d)" "holds_range ''score'' (-1) 1 (derive_l11_mid_score a b c)"
    "holds_range ''score'' (-1) 1 (derive_l11_long_score a b c d)"
    by (simp_all add: holds_range_def derive_l11_short_score_def derive_l11_mid_score_def derive_l11_long_score_def Let_def split: prod.split)
  show "holds_range ''multiplier'' (1/2) (3/2) (derive_l6_sens_growth_margin a b)"
    "holds_range ''multiplier'' (1/2) (3/2) (derive_l6_sens_cashflow a b)"
    "holds_range ''multiplier'' (1/2) (3/2) (derive_l6_sens_rates a b)"
    by (simp_all add: derive_l6_sens_growth_margin_def l6_sens_factor_def derive_l6_sens_cashflow_def derive_l6_sens_rates_def
        multiplier_in_range none Let_def split: option.split)
  show "holds_range ''multiplier'' (1/2) (3/2) (derive_l6_sens_risk_narrative a b c)"
    by (auto simp: derive_l6_sens_risk_narrative_def Let_def none multiplier_in_range res_bind_def split: sum.split option.split)
qed

end
