(* ===== verification/DeriveRun.thy ===== *)
theory DeriveRun
  imports Derive Scoring
begin

text \<open>
  The drivers of \<open>mvp20/derive.py\<close>: the registry of formulas, the partial scores of L11, one company
  (\<open>_run_one\<close>), all companies (\<open>run_all\<close>), and the older driver \<open>derive_all\<close> over price histories. A row
  of the snapshot is a dictionary, so the branches of the code for rows that are none are left out.
\<close>

section \<open>The registry\<close>

type_synonym formula = "payload list \<Rightarrow> payload res"

definition one_input :: "(payload \<Rightarrow> payload res) \<Rightarrow> formula" where
  "one_input f ps = (case ps of [a] \<Rightarrow> f a | _ \<Rightarrow> Inl TypeError)"

definition two_inputs :: "(payload \<Rightarrow> payload \<Rightarrow> payload res) \<Rightarrow> formula" where
  "two_inputs f ps = (case ps of [a, b] \<Rightarrow> f a b | _ \<Rightarrow> Inl TypeError)"

definition three_inputs :: "(payload \<Rightarrow> payload \<Rightarrow> payload \<Rightarrow> payload res) \<Rightarrow> formula" where
  "three_inputs f ps = (case ps of [a, b, c] \<Rightarrow> f a b c | _ \<Rightarrow> Inl TypeError)"

definition four_inputs :: "(payload \<Rightarrow> payload \<Rightarrow> payload \<Rightarrow> payload \<Rightarrow> payload res) \<Rightarrow> formula" where
  "four_inputs f ps = (case ps of [a, b, c, d] \<Rightarrow> f a b c d | _ \<Rightarrow> Inl TypeError)"

definition five_inputs :: "(payload \<Rightarrow> payload \<Rightarrow> payload \<Rightarrow> payload \<Rightarrow> payload \<Rightarrow> payload res) \<Rightarrow> formula" where
  "five_inputs f ps = (case ps of [a, b, c, d, e] \<Rightarrow> f a b c d e | _ \<Rightarrow> Inl TypeError)"

definition formula_registry :: "(string \<times> string list \<times> formula) list" where
  "formula_registry =
     [(''L7.env.risk_appetite'', [''L7.env.market_trend'', ''L7.env.style'', ''L9.macro.liquidity'', ''L9.macro.rates''],
         four_inputs derive_l7_env_risk_appetite),
      (''L7.mood.fomo'', [''L7.mood.media_social'', ''L7.flow.active_inflow'', ''L7.mood.theme''],
         three_inputs derive_l7_mood_fomo),
      (''L10.val.expansion_compression'', [''L6.state.expansion_compression''],
         one_input derive_l10_val_expansion_compression),
      (''L8.industry.demand_supply'', [''L0.demand.terminal'', ''L0.supply.capacity'', ''L0.supply.inventory'', ''L0.demand.replacement''],
         four_inputs derive_l8_industry_demand_supply),
      (''L8.industry.price_war'', [''L0.price.discount'', ''L0.compete.price_war'', ''L0.price.pricing_power''],
         three_inputs derive_l8_industry_price_war),
      (''L8.val.priced_in'', [''L6.priced.run_up'', ''L11.short.score'', ''L8.val.overvalued''],
         three_inputs derive_l8_val_priced_in),
      (''L6.path.tag'', [''L6.mult.pe'', ''L6.state.historical_percentile'', ''L10.val.historical_quantile'', ''L6.state.expansion_compression''],
         four_inputs derive_l6_path_tag),
      (''L6.path.second_derivative'', [''L6.state.historical_percentile'', ''L6.priced.run_up''],
         two_inputs derive_l6_path_second_derivative),
      (''L6.sens.growth_margin'', [''L5.fina.gross_margin'', ''L5.fina.revenue_yoy''], two_inputs derive_l6_sens_growth_margin),
      (''L6.sens.cashflow'', [''L5.fina.ocf_quality'', ''L5.cf.fcf''], two_inputs derive_l6_sens_cashflow),
      (''L6.sens.rates'', [''L7.env.rates'', ''L9.macro.rates''], two_inputs derive_l6_sens_rates),
      (''L6.sens.risk_narrative'', [''L9.media.report'', ''L9.event.intraday_news'', ''L5.surprise.sell_side''],
         three_inputs derive_l6_sens_risk_narrative),
      (''L11.short.score'', [''L11.short.event_impact'', ''L11.short.flow_boost'', ''L11.short.sentiment_shift'', ''L11.short.technical''],
         four_inputs derive_l11_short_score),
      (''L11.mid.score'', [''L11.mid.orders_revenue'', ''L11.mid.margin_guidance'', ''L11.mid.eps_upward''],
         three_inputs derive_l11_mid_score),
      (''L11.long.score'', [''L11.long.industry_space'', ''L11.long.compete_moat'', ''L11.long.business_model'', ''L11.long.margin''],
         four_inputs derive_l11_long_score),
      (''L11.mode'', [''L11.short.score'', ''L11.mid.score'', ''L11.long.score'', ''L8.val.overvalued'', ''L7.flow.active_inflow''],
         five_inputs derive_l11_mode),
      (''L11.trade.signal'', [''L11.short.score'', ''L11.mid.score'', ''L11.long.score'', ''L11.mode''],
         four_inputs derive_l11_trade_signal)]"

section \<open>The partial scores of L11\<close>

type_synonym rows = "(string \<times> pydict) list"

text \<open>The dictionary that a row holds as its value, or else the row itself.\<close>

definition inner :: "rows \<Rightarrow> string \<Rightarrow> pydict" where
  "inner inputs dp =
     (let row = (case map_of inputs dp of None \<Rightarrow> [] | Some r \<Rightarrow> r) in
      case dget row ''value'' of PDict d \<Rightarrow> d | _ \<Rightarrow> row)"

definition bootstrap_short :: "rows \<Rightarrow> rows" where
  "bootstrap_short inputs =
     (let news_count = coerce_float 0 (dget (inner inputs ''L9.event.intraday_news'') ''count_24h'');
          ann_count = coerce_float 0 (dget (inner inputs ''L9.event.intraday_announcement'') ''count_recent'');
          main_net = coerce_float 0 (dget (inner inputs ''L7.flow.active_inflow'') ''main_net'');
          block_amt = coerce_float 0 (dget (inner inputs ''L7.flow.block_trade'') ''total_amount'');
          in_top = truthy (dget (inner inputs ''L7.mood.media_social'') ''in_top_100'');
          in_buzz = truthy (dget (inner inputs ''L9.media.social_buzz'') ''in_xq_top_buzz'');
          d20 = coerce_float 0 (dget (inner inputs ''L6.priced.run_up'') ''d20_pct'');
          pct = coerce_float 0 (dget (inner inputs ''L6.priced.crowdedness'') ''percentile'') in
      [(''L11.short.event_impact'',
          [(''score'', PFloat (clip ((news_count + ann_count) / 40 - 25/100) (-5/10) (8/10))),
           (''news_count_24h'', PFloat news_count), (''ann_count_recent'', PFloat ann_count)]),
       (''L11.short.flow_boost'',
          [(''score'', PFloat (clip (main_net / 100000 + block_amt / 50000) (-1) 1)),
           (''main_net'', PFloat main_net), (''block_amount'', PFloat block_amt)]),
       (''L11.short.sentiment_shift'',
          [(''score'', PFloat ((3/10) * of_bool in_top + (2/10) * of_bool in_buzz)),
           (''in_top_100'', PBool in_top), (''in_xq_buzz'', PBool in_buzz)]),
       (''L11.short.technical'',
          [(''score'', PFloat (clip (d20 - (pct - 1/2) * (3/10)) (-1) 1)),
           (''d20_pct'', PFloat d20), (''crowdedness'', PFloat pct)])])"

definition gross_margin_of :: "rows \<Rightarrow> real" where
  "gross_margin_of inputs = coerce_float 25 (dget (inner inputs ''L5.fina.gross_margin'') ''value'')"

definition bootstrap_mid :: "rows \<Rightarrow> rows" where
  "bootstrap_mid inputs =
     (let rev_yoy = coerce_float 0 (dget (inner inputs ''L5.fina.revenue_yoy'') ''value''); gm = gross_margin_of inputs;
          guid = inner inputs ''L9.company.earnings_guidance'';
          cp_min = coerce_float 0 (dget guid ''change_pct_min''); cp_max = coerce_float 0 (dget guid ''change_pct_max'') in
      [(''L11.mid.orders_revenue'', [(''score'', PFloat (clip (rev_yoy / 50) (-1) 1)), (''yoy_pct'', PFloat rev_yoy)]),
       (''L11.mid.margin_guidance'', [(''score'', PFloat (clip ((gm - 25) / 25) (-1) 1)), (''gross_margin_pct'', PFloat gm)]),
       (''L11.mid.eps_upward'', [(''score'', PFloat (clip ((cp_min + cp_max) / 2 / 100) (-1) 1)), (''guidance'', PDict guid)])])"

definition bootstrap_long :: "rows \<Rightarrow> rows" where
  "bootstrap_long inputs =
     (let mpmi = coerce_float 50 (dget (inner inputs ''L10.industry.pmi'') ''manufacturing_pmi''); gm = gross_margin_of inputs;
          roe = coerce_float 0 (dget (inner inputs ''L5.fina.roe'') ''value'');
          ocfq = coerce_float 0 (dget (inner inputs ''L5.fina.ocf_quality'') ''value'');
          nm = coerce_float 0 (dget (inner inputs ''L5.fina.net_margin'') ''value'') in
      [(''L11.long.industry_space'', [(''score'', PFloat (clip ((mpmi - 50) / 5) (-1) 1)), (''pmi'', PFloat mpmi)]),
       (''L11.long.compete_moat'',
          [(''score'', PFloat (clip ((gm - 30) / 30 + (roe - 10) / 20) (-1) 1 / 2)), (''gross_margin'', PFloat gm), (''roe'', PFloat roe)]),
       (''L11.long.business_model'', [(''score'', PFloat (clip ((ocfq - 50) / 100) (-1) 1)), (''ocf_quality_pct'', PFloat ocfq)]),
       (''L11.long.margin'', [(''score'', PFloat (clip ((nm - 10) / 20) (-1) 1)), (''net_margin_pct'', PFloat nm)])])"

definition bootstrap_l11_subscores :: "rows \<Rightarrow> rows" where
  "bootstrap_l11_subscores inputs = bootstrap_short inputs @ bootstrap_mid inputs @ bootstrap_long inputs"

section \<open>One company\<close>

definition row_of_entry :: "hot_entry \<Rightarrow> pydict" where
  "row_of_entry e =
     [(''value'', he_value e), (''data_status'', PStr (he_data_status e)), (''confidence'', opt_float (he_confidence e)),
      (''source'', PStr (he_source e)), (''updated_at'', PInt (he_updated_at e)), (''age_seconds'', PInt (he_age_seconds e)),
      (''_origin_ts_code'', PStr (he_origin e))]"

definition usable_status :: "string \<Rightarrow> bool" where
  "usable_status s \<longleftrightarrow> py_lower s \<notin> {''unknown'', ''unavailable'', ''inactive''}"

definition usable_rows :: "(string \<times> hot_entry) list \<Rightarrow> rows" where
  "usable_rows snapshot = map (\<lambda>(dp, e). (dp, row_of_entry e)) (filter (\<lambda>(dp, e). usable_status (he_data_status e)) snapshot)"

definition inject :: "rows \<Rightarrow> rows \<Rightarrow> rows" where
  "inject subs usable = fold (\<lambda>(dp, p). dput dp [(''value'', PDict p), (''confidence'', PFloat (1/2))]) subs usable"

text \<open>The payload of an input, fresh or from the snapshot, and what it contributes to the confidence.\<close>

definition formula_input :: "rows \<Rightarrow> rows \<Rightarrow> string \<Rightarrow> payload \<times> real list" where
  "formula_input emitted usable inp = (case map_of emitted inp of
     Some p \<Rightarrow> (Some p, [case dget p ''_input_conf'' of PFloat x \<Rightarrow> x | _ \<Rightarrow> 1/2])
   | None \<Rightarrow>
      (case map_of usable inp of
         None \<Rightarrow> (None, [])
       | Some row \<Rightarrow>
           (Some (case dget row ''value'' of PDict d \<Rightarrow> d | v \<Rightarrow> [(''scalar'', v)]),
            case dget row ''confidence'' of PNone \<Rightarrow> [] | c \<Rightarrow> (case py_float c of Inl _ \<Rightarrow> [] | Inr x \<Rightarrow> [x]))))"

definition neutral_for :: "gov_registry option \<Rightarrow> string \<Rightarrow> real" where
  "neutral_for governance dp = (case governance of None \<Rightarrow> 0 | Some reg \<Rightarrow>
     (case reg_get reg (PStr dp) of None \<Rightarrow> 0 | Some rule \<Rightarrow> r_neutral_value rule))"

definition inactive_payload :: "real \<Rightarrow> string list \<Rightarrow> pydict" where
  "inactive_payload neutral inputs = [(''value'', PFloat neutral), (''_inactive'', PBool True), (''missing_inputs'', texts inputs)]"

definition input_confidence :: "real list \<Rightarrow> real" where
  "input_confidence confs = (if confs = [] then 1/2 else min_list confs)"

definition known_payload :: "real \<Rightarrow> pydict \<Rightarrow> pydict" where
  "known_payload base result =
     (let p = dput ''_input_conf'' (PFloat base) result in
      if dhas p ''confidence'' then p else dput ''confidence'' (PFloat (decay base (9/10))) p)"

definition formula_payload :: "gov_registry option \<Rightarrow> rows \<Rightarrow> rows \<Rightarrow> string \<times> string list \<times> formula \<Rightarrow> pydict" where
  "formula_payload governance usable emitted entry = (case entry of (out, ins, f) \<Rightarrow>
     let read = map (formula_input emitted usable) ins in
     case f (map fst read) of
       Inr (Some result) \<Rightarrow> known_payload (input_confidence (concat (map snd read))) result
     | _ \<Rightarrow> inactive_payload (neutral_for governance out) ins)"

definition run_formula :: "gov_registry option \<Rightarrow> rows \<Rightarrow> string \<times> string list \<times> formula \<Rightarrow> rows \<Rightarrow> rows" where
  "run_formula governance usable entry emitted = dput (fst entry) (formula_payload governance usable emitted entry) emitted"

definition run_formulas :: "gov_registry option \<Rightarrow> rows \<Rightarrow> rows" where
  "run_formulas governance usable = fold (run_formula governance usable) formula_registry []"

definition formula_id :: "string \<Rightarrow> string" where
  "formula_id dp = py_lower (map (\<lambda>c. if c = CHR ''.'' then CHR ''_'' else c) dp)"

definition emit_bootstrap :: "(pyval \<Rightarrow> string res) \<Rightarrow> string \<Rightarrow> int \<Rightarrow> string \<times> pydict \<Rightarrow> batch_item res" where
  "emit_bootstrap dumps ts_code now e = (case e of (dp, p) \<Rightarrow>
     res_map (\<lambda>json. \<lparr>bi_ts_code = ts_code, bi_dp_id = dp, bi_value = PStr json, bi_data_status = ''Known'',
        bi_confidence = Some (1/2), bi_source = ''derive:bootstrap_l11_subscore'', bi_updated_at = now\<rparr>) (dumps (PDict p)))"

definition status_of :: "pydict \<Rightarrow> string" where
  "status_of p = (if truthy (dget p ''_inactive'') then ''Inactive'' else ''Known'')"

definition emit_derived :: "(pyval \<Rightarrow> string res) \<Rightarrow> string \<Rightarrow> int \<Rightarrow> string \<times> pydict \<Rightarrow> batch_item res" where
  "emit_derived dumps ts_code now e = (case e of (dp, p) \<Rightarrow>
     res_bind (case map_of p ''confidence'' of None \<Rightarrow> Inr (1/2) | Some v \<Rightarrow> py_float v) (\<lambda>confidence.
     res_map (\<lambda>json. \<lparr>bi_ts_code = ts_code, bi_dp_id = dp, bi_value = PStr json, bi_data_status = status_of p,
        bi_confidence = Some confidence, bi_source = ''derive:'' @ formula_id dp, bi_updated_at = now\<rparr>)
       (dumps (PDict (filter (\<lambda>kv. fst kv \<noteq> ''_input_conf'') p)))))"

definition derive_company ::
  "(pyval \<Rightarrow> string res) \<Rightarrow> gov_registry option \<Rightarrow> string \<Rightarrow> int \<Rightarrow> (string \<times> hot_entry) list \<Rightarrow> (batch_item list \<times> (string \<times> string) list) res" where
  "derive_company dumps governance ts_code now snapshot =
     (let usable = usable_rows snapshot; subs = bootstrap_l11_subscores usable;
          emitted = run_formulas governance (inject subs usable) in
      res_bind (res_list (emit_bootstrap dumps ts_code now) subs) (\<lambda>boot.
      res_map (\<lambda>items. (boot @ items, map (\<lambda>(dp, p). (dp, status_of p)) emitted))
        (res_list (emit_derived dumps ts_code now) emitted)))"

text \<open>What the run takes from outside: the codec, the rules, and the clock of every read.\<close>

record derive_env =
  dv_loads :: "string \<Rightarrow> pyval res"
  dv_dumps :: "pyval \<Rightarrow> string res"
  dv_governance :: "gov_registry option"
  dv_read_at :: "string \<Rightarrow> int"
  dv_now :: int

definition run_one :: "derive_env \<Rightarrow> database option \<Rightarrow> string \<Rightarrow> (batch_item list \<times> (string \<times> string) list) res" where
  "run_one env disk ts_code =
     res_bind (read_hot_snapshot (dv_loads env) (dv_read_at env ts_code) disk ts_code True)
       (derive_company (dv_dumps env) (dv_governance env) ts_code (dv_now env))"

section \<open>All companies\<close>

definition is_sentinel_code :: "string \<Rightarrow> bool" where
  "is_sentinel_code c \<longleftrightarrow> py_startswith (py_lower c) ''market:'' \<or> py_startswith (py_lower c) ''industry:''"

text \<open>A query over a missing table gives no code; a missing file cannot be opened for reading.\<close>

definition list_ts_codes :: "database option \<Rightarrow> string list \<Rightarrow> string list res" where
  "list_ts_codes disk ts_codes =
     (if ts_codes \<noteq> [] then Inr (filter (\<lambda>c. c \<noteq> []) (map py_strip ts_codes))
      else (case disk of
        None \<Rightarrow> Inl OperationalError
      | Some db \<Rightarrow> Inr (case (db_manifest db, db_realtime db) of
          (Some ms, Some rs) \<Rightarrow> sort (remdups (map (\<lambda>r. mf_ts_code (snd r)) ms @
              filter (\<lambda>c. \<not> is_sentinel_code c) (map (\<lambda>r. fst (fst r)) rs)))
        | _ \<Rightarrow> [])))"

type_synonym status_counts = "(string \<times> (string \<times> int) list) list"

definition count_status :: "string \<times> string \<Rightarrow> status_counts \<Rightarrow> status_counts" where
  "count_status e counts = (case e of (dp, status) \<Rightarrow>
     let c = (case map_of counts dp of None \<Rightarrow> [(''Known'', 0), (''Inactive'', 0)] | Some c \<Rightarrow> c) in
     dput dp (dput status ((case map_of c status of None \<Rightarrow> 0 | Some n \<Rightarrow> n) + 1) c) counts)"

record derive_stats =
  ds_companies :: nat
  ds_rows :: nat
  ds_status_counts :: status_counts

definition run_all :: "derive_env \<Rightarrow> database option \<Rightarrow> string list \<Rightarrow> database option \<times> derive_stats res" where
  "run_all env disk ts_codes =
     (case res_bind (list_ts_codes disk ts_codes) (\<lambda>codes. res_map (Pair codes) (res_list (run_one env disk) codes)) of
        Inl e \<Rightarrow> (disk, Inl e)
      | Inr (codes, results) \<Rightarrow>
          (let items = concat (map fst results);
               stats = (\<lambda>n. \<lparr>ds_companies = length codes, ds_rows = n,
                             ds_status_counts = fold (fold count_status) (map snd results) []\<rparr>) in
           if items = [] then (disk, Inr (stats 0))
           else (case upsert_realtime (dv_dumps env) disk items of (db, r) \<Rightarrow> (Some db, res_map stats r))))"

section \<open>Price histories\<close>

record price_history =
  ph_close :: "real list"
  ph_turnover_rate :: "real list"
  ph_pe_ttm :: "real list"
  ph_pb :: "real list"

definition no_history :: price_history where
  "no_history = \<lparr>ph_close = [], ph_turnover_rate = [], ph_pe_ttm = [], ph_pb = []\<rparr>"

definition is_a_share :: "string \<Rightarrow> bool" where
  "is_a_share ts_code \<longleftrightarrow> py_endswith ts_code ''.SH'' \<or> py_endswith ts_code ''.SZ'' \<or> py_endswith ts_code ''.BJ''"

definition safe_load :: "(string \<Rightarrow> pyval res) \<Rightarrow> string \<Rightarrow> pyval" where
  "safe_load loads s = (if s = [] then PNone else case loads s of Inl _ \<Rightarrow> PNone | Inr v \<Rightarrow> v)"

definition read_realtime_value :: "(string \<Rightarrow> pyval res) \<Rightarrow> rt_table \<Rightarrow> string \<Rightarrow> string \<Rightarrow> pyval" where
  "read_realtime_value loads table ts_code dp =
     (case map_of table (ts_code, dp) of None \<Rightarrow> PNone | Some r \<Rightarrow> safe_load loads (rv_value_json r))"

definition history_item :: "(pyval \<Rightarrow> string res) \<Rightarrow> string \<Rightarrow> int \<Rightarrow> string \<times> payload \<times> string \<Rightarrow> batch_item list res" where
  "history_item dumps ts_code now e = (case e of (dp, p, src) \<Rightarrow>
     case p of None \<Rightarrow> Inr []
     | Some d \<Rightarrow>
         res_map (\<lambda>json. [\<lparr>bi_ts_code = ts_code, bi_dp_id = dp, bi_value = PStr json, bi_data_status = ''Known'',
            bi_confidence = Some (6/10), bi_source = src, bi_updated_at = now\<rparr>]) (dumps (PDict d)))"

definition derive_history :: "derive_env \<Rightarrow> rt_table \<Rightarrow> (string \<Rightarrow> price_history) option \<Rightarrow> string \<Rightarrow> batch_item list res" where
  "derive_history env table fetch ts_code =
     (let scalar = (\<lambda>dp k. dget (as_dict (read_realtime_value (dv_loads env) table ts_code dp)) k);
          hist = (case fetch of None \<Rightarrow> no_history | Some f \<Rightarrow> f ts_code) in
      res_bind (derive_crowdedness (scalar ''L7.trade.volume_turnover'' ''turnover_rate_pct'') (ph_turnover_rate hist)) (\<lambda>crowd.
      res_bind (derive_historical_quantile (scalar ''L6.mult.pe'' ''scalar'') (ph_pe_ttm hist)
                  (scalar ''L6.mult.pb'' ''scalar'') (ph_pb hist)) (\<lambda>quantile.
      res_map concat (res_list (history_item (dv_dumps env) ts_code (dv_now env))
        [(''L6.priced.run_up'', derive_run_up (ph_close hist), ''derived:price_history''),
         (''L6.priced.crowdedness'', crowd, ''derived:turnover_history''),
         (''L10.val.historical_quantile'', quantile, ''derived:pe_pb_history''),
         (''L8.val.overvalued'', derive_overvalued quantile, ''derived:from_quantile'')]))))"

text \<open>\<open>xs[:n]\<close> for an integer, and no limit for none or zero.\<close>

definition limited_to :: "int option \<Rightarrow> 'a list \<Rightarrow> 'a list" where
  "limited_to n xs = (case n of None \<Rightarrow> xs | Some i \<Rightarrow>
     if i = 0 then xs else if i > 0 then take (nat i) xs else take (length xs - nat (- i)) xs)"

definition derive_all ::
  "derive_env \<Rightarrow> (string \<Rightarrow> price_history) option \<Rightarrow> database option \<Rightarrow> int option \<Rightarrow> bool \<Rightarrow> database option \<times> (nat \<times> nat) res" where
  "derive_all env fetch disk limit_companies a_share_only =
     (if fetch = None \<and> a_share_only then (disk, Inr (0, 0))
      else
        (case (case disk of None \<Rightarrow> Inl OperationalError | Some db \<Rightarrow> select (db_realtime db)) of
           Inl e \<Rightarrow> (disk, Inl e)
         | Inr table \<Rightarrow>
             (let codes = sort (remdups (map (\<lambda>r. fst (fst r)) table));
                  codes = limited_to limit_companies (if a_share_only then filter is_a_share codes else codes) in
              case res_list (derive_history env table (if a_share_only then fetch else None)) codes of
                Inl e \<Rightarrow> (disk, Inl e)
              | Inr items \<Rightarrow>
                  (case upsert_realtime (dv_dumps env) disk (concat items) of
                     (db, r) \<Rightarrow> (Some db, res_map (\<lambda>n. (length codes, n)) r)))))"

section \<open>The table of emitted payloads\<close>

lemma emitted_all:
  assumes "\<And>out ins f em. (out, ins, f) \<in> set reg \<Longrightarrow> P out (formula_payload g u em (out, ins, f))"
    and "\<forall>(k, p) \<in> set em. P k p"
  shows "\<forall>(k, p) \<in> set (fold (run_formula g u) reg em). P k p"
  using assms
proof (induction reg arbitrary: em)
  case Nil
  then show ?case by simp
next
  case (Cons e reg)
  obtain out ins f where e: "e = (out, ins, f)" by (cases e) auto
  have new: "P out (formula_payload g u em (out, ins, f))" using Cons.prems(1) by (simp add: e)
  have "set (dput k v d) \<subseteq> insert (k, v) (set d)" for k v and d :: rows by (induction d) (auto split: if_splits)
  with new Cons.prems(2) have "\<forall>(k, p) \<in> set (run_formula g u e em). P k p" by (fastforce simp: run_formula_def e)
  moreover have "P out (formula_payload g u em (out, ins, f))" if "(out, ins, f) \<in> set reg" for out ins f em
    using Cons.prems(1) [of out ins f em] that by simp
  ultimately show ?case using Cons.IH by simp
qed

lemma map_fst_run_formulas:
  "distinct (map fst reg) \<Longrightarrow> fst ` set em \<inter> fst ` set reg = {} \<Longrightarrow>
   map fst (fold (run_formula g u) reg em) = map fst em @ map fst reg"
proof (induction reg arbitrary: em)
  case Nil
  then show ?case by simp
next
  case (Cons e reg)
  then have "fst e \<notin> fst ` set em" by auto
  then have 1: "run_formula g u e em = em @ [(fst e, formula_payload g u em e)]"
    by (simp add: run_formula_def dput_fresh)
  show ?case using Cons by (auto simp: 1)
qed

definition derived_points :: "string list" where
  "derived_points = map fst formula_registry"

definition bootstrap_points :: "string list" where
  "bootstrap_points = map fst (bootstrap_l11_subscores [])"

lemma distinct_derived: "distinct derived_points"
  by (simp add: derived_points_def formula_registry_def)

lemma map_fst_run: "map fst (run_formulas g u) = derived_points"
  using map_fst_run_formulas [of formula_registry "[]" g u] distinct_derived by (simp add: run_formulas_def derived_points_def)

lemma map_fst_bootstrap: "map fst (bootstrap_l11_subscores u) = bootstrap_points"
  by (simp add: bootstrap_points_def bootstrap_l11_subscores_def bootstrap_short_def bootstrap_mid_def bootstrap_long_def Let_def)

section \<open>Ranges\<close>

text \<open>The ranges that the docstrings of the formulas promise for their main number.\<close>

definition documented_range :: "string \<Rightarrow> (string \<times> real \<times> real) option" where
  "documented_range = map_of
     [(''L7.env.risk_appetite'', ''multiplier'', 7/10, 13/10), (''L7.mood.fomo'', ''score'', 0, 1),
      (''L8.industry.demand_supply'', ''score'', -1, 1), (''L8.industry.price_war'', ''score'', 0, 1),
      (''L8.val.priced_in'', ''priced_in_score'', 0, 1), (''L6.sens.growth_margin'', ''multiplier'', 1/2, 3/2),
      (''L6.sens.cashflow'', ''multiplier'', 1/2, 3/2), (''L6.sens.rates'', ''multiplier'', 1/2, 3/2),
      (''L6.sens.risk_narrative'', ''multiplier'', 1/2, 3/2), (''L11.short.score'', ''score'', -1, 1),
      (''L11.mid.score'', ''score'', -1, 1), (''L11.long.score'', ''score'', -1, 1)]"

definition documented :: "string \<Rightarrow> payload res \<Rightarrow> bool" where
  "documented dp r \<longleftrightarrow> (case documented_range dp of None \<Rightarrow> True | Some (k, lo, hi) \<Rightarrow> holds_range k lo hi r)"

lemma range_inputs:
  "(\<And>a b. holds_range k lo hi (f2 a b)) \<Longrightarrow> holds_range k lo hi (two_inputs f2 ps)"
  "(\<And>a b c. holds_range k lo hi (f3 a b c)) \<Longrightarrow> holds_range k lo hi (three_inputs f3 ps)"
  "(\<And>a b c d. holds_range k lo hi (f4 a b c d)) \<Longrightarrow> holds_range k lo hi (four_inputs f4 ps)"
  by (auto simp: two_inputs_def three_inputs_def four_inputs_def holds_range_def [of k lo hi "Inl TypeError"] split: list.split)

lemma documented_inputs:
  "(\<And>a b. holds_range k lo hi (f2 a b)) \<Longrightarrow> documented_range out = Some (k, lo, hi) \<Longrightarrow> documented out (two_inputs f2 ps)"
  "(\<And>a b c. holds_range k lo hi (f3 a b c)) \<Longrightarrow> documented_range out = Some (k, lo, hi) \<Longrightarrow> documented out (three_inputs f3 ps)"
  "(\<And>a b c d. holds_range k lo hi (f4 a b c d)) \<Longrightarrow> documented_range out = Some (k, lo, hi) \<Longrightarrow> documented out (four_inputs f4 ps)"
  by (simp_all add: documented_def range_inputs)

lemma undocumented: "documented_range out = None \<Longrightarrow> documented out r"
  by (simp add: documented_def)

lemma registry_all: "list_all (\<lambda>(out, ins, f). \<forall>ps. documented out (f ps)) formula_registry"
  unfolding formula_registry_def list.pred_inject prod.case
  by (intro conjI allI TrueI;
      ((rule documented_inputs(1) documented_inputs(2) documented_inputs(3), rule formula_ranges) | rule undocumented)?;
      simp add: documented_range_def)

lemma registry_documented: "(out, ins, f) \<in> set formula_registry \<Longrightarrow> documented out (f ps)"
  using registry_all by (fastforce simp: list_all_iff)

lemma known_documented:
  assumes "documented dp (Inr (Some result))"
  shows "documented dp (Inr (Some (known_payload base result)))"
proof -
  have "k \<notin> {''_input_conf'', ''confidence''}" if "documented_range dp = Some (k, lo, hi)" for k lo hi
    using that by (auto simp: documented_range_def split: if_splits)
  then show ?thesis
    using assms by (auto simp: documented_def holds_range_def known_payload_def Let_def dget_dput split: option.splits)
qed

lemma payload_documented: "(out, ins, f) \<in> set formula_registry \<Longrightarrow>
    documented out (Inr (Some (formula_payload g u em (out, ins, f)))) \<or> status_of (formula_payload g u em (out, ins, f)) = ''Inactive''"
  using registry_documented [of out ins f] known_documented [of out]
  by (auto simp: formula_payload_def Let_def status_of_def inactive_payload_def split: sum.split option.split) metis

text \<open>C40: Every derived number lies in the range its formula documents: whatever the snapshot holds, a payload
  that is not marked inactive has its multiplier or score within the documented bounds, and all partial
  scores of L11 lie between minus one and one.\<close>

theorem derived_scores_in_range:
  assumes "map_of (run_formulas governance usable) dp = Some p"
  shows "(status_of p = ''Inactive'' \<or>
      (case documented_range dp of None \<Rightarrow> True | Some (k, lo, hi) \<Rightarrow> lo \<le> num p k \<and> num p k \<le> hi \<and> dget p k = PFloat (num p k))) \<and>
    list_all (\<lambda>(dp, s). - 1 \<le> num s ''score'' \<and> num s ''score'' \<le> 1) (bootstrap_l11_subscores inputs)"
proof -
  have "\<forall>(k, p) \<in> set (run_formulas governance usable). documented k (Inr (Some p)) \<or> status_of p = ''Inactive''"
    unfolding run_formulas_def by (rule emitted_all) (use payload_documented in auto)
  then have "documented dp (Inr (Some p)) \<or> status_of p = ''Inactive''" using map_of_SomeD [OF assms] by auto
  then have 1: "status_of p = ''Inactive'' \<or>
      (case documented_range dp of None \<Rightarrow> True | Some (k, lo, hi) \<Rightarrow> lo \<le> num p k \<and> num p k \<le> hi \<and> dget p k = PFloat (num p k))"
    by (auto simp: documented_def holds_range_def num_def between_def split: option.splits pyval.splits)
  have "between (- 1) 1 (clip x (- 1) 1 / 2)" for x
    using between_clip [of "- 1" 1 x] by (auto simp: between_def)
  moreover have "between (- 1) 1 (clip x (- 5/10) (8/10))" for x
    using between_clip [of "- 5/10" "8/10" x] by (auto simp: between_def)
  ultimately have "list_all (\<lambda>(dp, s). between (- 1) 1 (num s ''score'')) (bootstrap_l11_subscores inputs)"
    by (simp add: bootstrap_l11_subscores_def bootstrap_short_def bootstrap_mid_def bootstrap_long_def Let_def num_def)
       (simp add: between_def)
  then show ?thesis using 1 by (simp only: between_def)
qed

section \<open>What a run reads\<close>

text \<open>
  A formula is settled_registry when each of its inputs is an output of an earlier formula or a row that is the same
  in both snapshots; one formula, \<open>skip\<close>, may be left out as long as no other reads it.
\<close>

fun settled_registry :: "(string \<Rightarrow> bool) \<Rightarrow> string \<Rightarrow> string list \<Rightarrow> (string \<times> string list \<times> formula) list \<Rightarrow> bool" where
  "settled_registry same skip earlier [] = True"
| "settled_registry same skip earlier ((out, ins, f) # reg) =
     ((out = skip \<or> list_all (\<lambda>i. i \<noteq> skip \<and> (i \<in> set earlier \<or> same i)) ins) \<and> settled_registry same skip (out # earlier) reg)"

definition agree_but :: "string \<Rightarrow> rows \<Rightarrow> rows \<Rightarrow> bool" where
  "agree_but skip em em' \<longleftrightarrow> fst ` set em = fst ` set em' \<and> (\<forall>k. k \<noteq> skip \<longrightarrow> map_of em k = map_of em' k)"

lemma agree_input:
  assumes "agree_but skip em em'" and "i \<noteq> skip" and "i \<in> fst ` set em \<or> map_of u i = map_of u' i"
  shows "formula_input em u i = formula_input em' u' i"
proof (cases "map_of em i")
  case None
  moreover from this have "map_of em' i = None" using assms(1,2) by (simp add: agree_but_def)
  moreover have "map_of u i = map_of u' i" using None assms(3) by (simp add: map_of_eq_None_iff)
  ultimately show ?thesis by (simp add: formula_input_def)
next
  case (Some p)
  moreover from this have "map_of em' i = Some p" using assms(1,2) by (simp add: agree_but_def)
  ultimately show ?thesis by (simp add: formula_input_def)
qed

lemma settled_agree:
  assumes "settled_registry (\<lambda>i. map_of u i = map_of u' i) skip earlier reg" and "fst ` set em = set earlier" and "agree_but skip em em'"
  shows "agree_but skip (fold (run_formula g u) reg em) (fold (run_formula g u') reg em')"
  using assms
proof (induction reg arbitrary: earlier em em')
  case Nil
  then show ?case by simp
next
  case (Cons e reg)
  obtain out ins f where e: "e = (out, ins, f)" by (cases e) auto
  have same: "formula_payload g u em e = formula_payload g u' em' e" if "out \<noteq> skip"
  proof -
    have "\<forall>i \<in> set ins. i \<noteq> skip \<and> (i \<in> set earlier \<or> map_of u i = map_of u' i)"
      using Cons.prems(1) that by (simp add: e list_all_iff)
    then have "map (formula_input em u) ins = map (formula_input em' u') ins"
      using agree_input [OF Cons.prems(3)] Cons.prems(2) by simp
    then show ?thesis by (simp only: formula_payload_def e prod.case Let_def)
  qed
  have "agree_but skip (run_formula g u e em) (run_formula g u' e em')"
    using Cons.prems(3) same by (auto simp: agree_but_def run_formula_def e map_of_dput)
  moreover have "fst ` set (run_formula g u e em) = set (out # earlier)"
    using Cons.prems(2) by (simp add: run_formula_def e)
  moreover have "settled_registry (\<lambda>i. map_of u i = map_of u' i) skip (out # earlier) reg" using Cons.prems(1) by (simp add: e)
  ultimately show ?case using Cons.IH by simp
qed

lemma settled_mono: "settled_registry same skip earlier reg \<Longrightarrow> (\<And>i. same i \<Longrightarrow> same' i) \<Longrightarrow> settled_registry same' skip earlier reg"
  by (induction same skip earlier reg rule: settled_registry.induct) (simp, simp add: list_all_iff, blast)

text \<open>The data points that no formula computes.\<close>

definition hard :: "string \<Rightarrow> bool" where
  "hard dp \<longleftrightarrow> dp \<notin> set derived_points \<and> dp \<notin> set bootstrap_points"

lemma points:
  "derived_points = [''L7.env.risk_appetite'', ''L7.mood.fomo'', ''L10.val.expansion_compression'', ''L8.industry.demand_supply'',
     ''L8.industry.price_war'', ''L8.val.priced_in'', ''L6.path.tag'', ''L6.path.second_derivative'', ''L6.sens.growth_margin'',
     ''L6.sens.cashflow'', ''L6.sens.rates'', ''L6.sens.risk_narrative'', ''L11.short.score'', ''L11.mid.score'', ''L11.long.score'',
     ''L11.mode'', ''L11.trade.signal'']"
  "bootstrap_points = [''L11.short.event_impact'', ''L11.short.flow_boost'', ''L11.short.sentiment_shift'', ''L11.short.technical'',
     ''L11.mid.orders_revenue'', ''L11.mid.margin_guidance'', ''L11.mid.eps_upward'', ''L11.long.industry_space'',
     ''L11.long.compete_moat'', ''L11.long.business_model'', ''L11.long.margin'']"
  by (simp_all add: derived_points_def formula_registry_def bootstrap_points_def bootstrap_l11_subscores_def bootstrap_short_def
      bootstrap_mid_def bootstrap_long_def Let_def)

lemma registry_settled: "settled_registry (\<lambda>i. hard i \<or> i \<in> set bootstrap_points) ''L8.val.priced_in'' [] formula_registry"
  by (simp add: formula_registry_def hard_def points)

lemma inner_cong: "map_of u dp = map_of u' dp \<Longrightarrow> inner u dp = inner u' dp"
  by (simp add: inner_def)

lemma bootstrap_cong:
  assumes "\<And>dp. hard dp \<Longrightarrow> map_of u dp = map_of u' dp"
  shows "bootstrap_l11_subscores u = bootstrap_l11_subscores u'"
proof -
  have 1: "inner u dp = inner u' dp" if "hard dp" for dp using assms [OF that] by (rule inner_cong)
  have 2: "hard ''L9.event.intraday_news''" "hard ''L9.event.intraday_announcement''" "hard ''L7.flow.active_inflow''" "hard ''L7.flow.block_trade''"
    "hard ''L7.mood.media_social''" "hard ''L9.media.social_buzz''" "hard ''L6.priced.run_up''" "hard ''L6.priced.crowdedness''"
    "hard ''L5.fina.revenue_yoy''" "hard ''L5.fina.gross_margin''" "hard ''L9.company.earnings_guidance''" "hard ''L10.industry.pmi''"
    "hard ''L5.fina.roe''" "hard ''L5.fina.ocf_quality''" "hard ''L5.fina.net_margin''"
    by (simp_all add: hard_def points)
  show ?thesis
    unfolding bootstrap_l11_subscores_def bootstrap_short_def bootstrap_mid_def bootstrap_long_def gross_margin_of_def 2 [THEN 1] by (rule refl)
qed

lemma map_of_inject: "map_of (inject subs u) dp =
   (case map_of (rev subs) dp of Some p \<Rightarrow> Some [(''value'', PDict p), (''confidence'', PFloat (1/2))] | None \<Rightarrow> map_of u dp)"
  unfolding inject_def
  by (induction subs arbitrary: u) (auto simp: map_of_dput map_add_def split: option.split)

lemma emitted_agree:
  assumes "\<And>dp. hard dp \<Longrightarrow> map_of u dp = map_of u' dp"
  shows "agree_but ''L8.val.priced_in'' (run_formulas g (inject (bootstrap_l11_subscores u) u))
     (run_formulas g (inject (bootstrap_l11_subscores u') u'))"
proof -
  let ?u = "inject (bootstrap_l11_subscores u) u" and ?u' = "inject (bootstrap_l11_subscores u') u'"
  have boot: "bootstrap_l11_subscores u = bootstrap_l11_subscores u'" by (rule bootstrap_cong [OF assms])
  have "map_of ?u i = map_of ?u' i" if "hard i \<or> i \<in> set bootstrap_points" for i
  proof (cases "map_of (rev (bootstrap_l11_subscores u')) i")
    case None
    then have "i \<notin> fst ` set (bootstrap_l11_subscores u')" by (simp add: map_of_eq_None_iff)
    then have "hard i" using that map_fst_bootstrap [of u'] by (metis list.set_map)
    then show ?thesis using assms by (simp add: map_of_inject boot None)
  qed (simp add: map_of_inject boot)
  then have "settled_registry (\<lambda>i. map_of ?u i = map_of ?u' i) ''L8.val.priced_in'' [] formula_registry"
    by (rule settled_mono [OF registry_settled])
  then show ?thesis unfolding run_formulas_def by (rule settled_agree) (simp_all add: agree_but_def)
qed

section \<open>A second run\<close>

lemma usable_cong:
  assumes "dict_wf s" and "dict_wf s'" and "map_of s dp = map_of s' dp"
  shows "map_of (usable_rows s) dp = map_of (usable_rows s') dp"
proof -
  have eq: "map_of (usable_rows t) dp = (case map_of t dp of None \<Rightarrow> None
      | Some e \<Rightarrow> if usable_status (he_data_status e) then Some (row_of_entry e) else None)" if "dict_wf t" for t
    using that by (induction t) (auto simp: usable_rows_def dict_wf_def map_of_eq_None_iff split: option.split, (metis fst_conv image_eqI)+)
  show ?thesis using eq [OF assms(1)] eq [OF assms(2)] assms(3) by simp
qed

lemma derive_company_cong:
  assumes s: "dict_wf s" "dict_wf s'" "\<And>dp. hard dp \<Longrightarrow> map_of s dp = map_of s' dp"
    and 1: "derive_company dumps g c now s = Inr (items, st)" and 2: "derive_company dumps g c now s' = Inr (items', st')"
  shows "filter (\<lambda>i. bi_dp_id i \<noteq> ''L8.val.priced_in'') items = filter (\<lambda>i. bi_dp_id i \<noteq> ''L8.val.priced_in'') items'"
proof -
  let ?u = "usable_rows s" and ?u' = "usable_rows s'" and ?skip = "''L8.val.priced_in''"
  have u: "hard dp \<Longrightarrow> map_of ?u dp = map_of ?u' dp" for dp by (rule usable_cong [OF s(1,2)]) (rule s(3))
  let ?em = "run_formulas g (inject (bootstrap_l11_subscores ?u) ?u)" and ?em' = "run_formulas g (inject (bootstrap_l11_subscores ?u') ?u')"
  have agree: "agree_but ?skip ?em ?em'" by (rule emitted_agree) (rule u)
  have boot: "bootstrap_l11_subscores ?u = bootstrap_l11_subscores ?u'" by (rule bootstrap_cong) (rule u)
  have keys: "map fst ?em = derived_points" "map fst ?em' = derived_points" by (rule map_fst_run)+
  have same: "filter (\<lambda>e. fst e \<noteq> ?skip) ?em = filter (\<lambda>e. fst e \<noteq> ?skip) ?em'"
  proof -
    have "filter (\<lambda>e. fst e \<noteq> ?skip) em = map (\<lambda>k. (k, the (map_of em k))) (filter (\<lambda>k. k \<noteq> ?skip) (map fst em))"
      if "distinct (map fst em)" for em :: rows
      using that by (induction em) (auto intro!: map_cong)
    then show ?thesis
      using agree distinct_derived keys by (simp add: agree_but_def cong: map_cong)
  qed
  obtain b e where b: "res_list (emit_bootstrap dumps c now) (bootstrap_l11_subscores ?u) = Inr b"
    and e: "res_list (emit_derived dumps c now) ?em = Inr e" "items = b @ e"
    using 1 by (auto simp: derive_company_def Let_def res_bind_eq_Inr res_map_eq_Inr)
  obtain e' where e': "res_list (emit_derived dumps c now) ?em' = Inr e'" "items' = b @ e'"
    using 2 b by (auto simp: derive_company_def Let_def res_bind_eq_Inr res_map_eq_Inr boot)
  have emitted: "res_list (emit_derived dumps c now) (filter (\<lambda>e. fst e \<noteq> ?skip) em) = Inr (filter (\<lambda>i. bi_dp_id i \<noteq> ?skip) is)"
    if "res_list (emit_derived dumps c now) em = Inr is" for em "is"
    using that
  proof (induction em arbitrary: "is")
    case Nil
    then show ?case by simp
  next
    case (Cons x em)
    then obtain i js where i: "emit_derived dumps c now x = Inr i" "res_list (emit_derived dumps c now) em = Inr js" "is = i # js"
      by (auto simp: res_bind_eq_Inr)
    have "bi_dp_id i = fst x" using i(1) by (auto simp: emit_derived_def res_bind_eq_Inr res_map_eq_Inr split: prod.splits)
    then show ?case using i Cons.IH [OF i(2)] by simp
  qed
  show ?thesis using emitted [OF e(1)] emitted [OF e'(1)] by (simp add: e(2) e'(2) same)
qed

lemma read_is_view:
  assumes "stored dumps disk" and "\<not> is_sentinel c" and "read_hot_snapshot loads now disk c True = Inr s"
  shows "dict_wf s \<and> map_of s dp = hot_view loads now (case disk of None \<Rightarrow> [] | Some db \<Rightarrow> lookup_codes db c True)
     (case disk of None \<Rightarrow> [] | Some db \<Rightarrow> rows_of (db_realtime db)) dp"
proof (cases disk)
  case None
  then show ?thesis using assms(3) by (simp add: read_hot_snapshot_def hot_view_def)
next
  case (Some db)
  let ?codes = "lookup_codes db c True"
  have ok: "db_ok db" by (rule db_ok_stored [OF assms(1) Some])
  obtain table best where t: "db_realtime db = Some table"
    and best: "res_fold (hot_step loads now ?codes) (visible ?codes table) [] = Inr best"
    and s: "s = map (\<lambda>p. (fst p, snd (snd p))) best"
    using assms(3) by (auto simp: read_hot_snapshot_def Some Let_def res_bind_eq_Inr res_map_eq_Inr select_def visible_def split: option.splits)
  have pure: "res_fold (hot_step loads now codes) rows b = Inr b' \<Longrightarrow> b' = fold (pure_hot_step loads now codes) rows b" for codes rows b b'
    by (induction rows arbitrary: b)
       (auto simp: res_bind_eq_Inr hot_step_def pure_hot_step_def Let_def value_of_def res_map_eq_Inr split: prod.splits option.splits if_splits)
  have wf: "dict_wf (fold (pure_hot_step loads now codes) rows b)" if "dict_wf b" for codes rows b
    using that by (induction rows arbitrary: b) (auto simp: pure_hot_step_def Let_def split: prod.split)
  have "dict_wf table" using ok t by (simp add: db_ok_def)
  moreover have "distinct ?codes" using ok assms(2) by (intro distinct_lookup_codes) (simp_all add: db_ok_def)
  ultimately have "map_option snd (map_of best dp) = hot_view loads now ?codes table dp"
    unfolding pure [OF best] by (rule fold_hot_view)
  moreover have "dict_wf s" using wf [of "[]"] pure [OF best] by (simp add: s dict_wf_def comp_def)
  ultimately show ?thesis by (simp add: s Some t map_of_map_snd)
qed

lemma items_are_derived:
  assumes "derive_company dumps g c now s = Inr (items, st)"
  shows "map bi_dp_id items = bootstrap_points @ derived_points" "\<forall>i \<in> set items. bi_ts_code i = c \<and> bi_updated_at i = now"
proof -
  let ?u = "usable_rows s"
  let ?b = "bootstrap_l11_subscores ?u" and ?em = "run_formulas g (inject (bootstrap_l11_subscores ?u) ?u)"
  obtain b e where 1: "res_list (emit_bootstrap dumps c now) ?b = Inr b" "res_list (emit_derived dumps c now) ?em = Inr e" "items = b @ e"
    using assms by (auto simp: derive_company_def Let_def res_bind_eq_Inr res_map_eq_Inr)
  have b: "map bi_dp_id is = map fst es \<and> (\<forall>i \<in> set is. bi_ts_code i = c \<and> bi_updated_at i = now)"
    if "res_list (emit_bootstrap dumps c now) es = Inr is" for es "is"
    using that by (induction es arbitrary: "is") (auto simp: res_bind_eq_Inr emit_bootstrap_def res_map_eq_Inr split: prod.splits)
  have e: "map bi_dp_id is = map fst es \<and> (\<forall>i \<in> set is. bi_ts_code i = c \<and> bi_updated_at i = now)"
    if "res_list (emit_derived dumps c now) es = Inr is" for es "is"
    using that by (induction es arbitrary: "is") (auto simp: res_bind_eq_Inr emit_derived_def res_map_eq_Inr split: prod.splits)
  show "map bi_dp_id items = bootstrap_points @ derived_points"
    using b [OF 1(1)] e [OF 1(2)] by (simp add: 1(3) map_fst_bootstrap map_fst_run)
  show "\<forall>i \<in> set items. bi_ts_code i = c \<and> bi_updated_at i = now"
    using b [OF 1(1)] e [OF 1(2)] by (auto simp: 1(3))
qed

lemma run_all_writes_derived:
  assumes "run_all env disk codes = (Some db, Inr stats)"
  obtains rows where "\<forall>(k, r) \<in> set rows. \<not> hard (snd k)"
    "db = init_db disk\<lparr>db_realtime := Some (put_all rows (rows_of (db_realtime (init_db disk))))\<rparr> \<or> Some db = disk"
proof -
  obtain cs results where 1: "res_bind (list_ts_codes disk codes) (\<lambda>cs. res_map (Pair cs) (res_list (run_one env disk) cs)) = Inr (cs, results)"
    using assms by (auto simp: run_all_def split: sum.splits)
  have r: "res_list (run_one env disk) cs = Inr results" using 1 by (auto simp: res_bind_eq_Inr res_map_eq_Inr)
  have db: "(if concat (map fst results) = [] then disk else Some (fst (upsert_realtime (dv_dumps env) disk (concat (map fst results))))) = Some db"
    using assms by (auto simp: run_all_def 1 Let_def split: if_splits prod.splits)
  let ?items = "concat (map fst results)"
  have "\<not> hard (bi_dp_id i)" if i: "i \<in> set ?items" for i
  proof -
    obtain x where "x \<in> set results" "i \<in> set (fst x)" using i by auto
    moreover from res_list_in [OF r this(1)] obtain c where "run_one env disk c = Inr x" by blast
    moreover obtain s where "derive_company (dv_dumps env) (dv_governance env) c (dv_now env) s = Inr x"
      using calculation(3) by (auto simp: run_one_def res_bind_eq_Inr)
    ultimately have "bi_dp_id i \<in> set (bootstrap_points @ derived_points)"
      using items_are_derived(1) [of "dv_dumps env" "dv_governance env" c "dv_now env" s "fst x" "snd x"] by (metis image_eqI list.set_map prod.collapse)
    then show ?thesis by (auto simp: hard_def)
  qed
  moreover have "\<exists>i \<in> set ?items. k = (bi_ts_code i, bi_dp_id i)"
    if "res_list (batch_row (dv_dumps env)) ?items = Inr rows" "(k, y) \<in> set rows" for rows k y
    using res_list_in [OF that(1) that(2)] batch_row_key by fastforce
  ultimately have rows: "\<forall>(k, y) \<in> set rows. \<not> hard (snd k)" if "res_list (batch_row (dv_dumps env)) ?items = Inr rows" for rows
    using that by fastforce
  show thesis
  proof (cases "concat (map fst results) = []")
    case True
    then show thesis using db that [of "[]"] by simp
  next
    case False
    have up: "db = fst (upsert_realtime (dv_dumps env) disk ?items)" using db by (simp only: False if_False option.inject)
    show thesis
    proof (cases "res_list (batch_row (dv_dumps env)) ?items")
      case (Inl e)
      then have "db = init_db disk" using up by (simp add: upsert_realtime_def Let_def)
      moreover have "db_realtime (init_db disk) = Some (rows_of (db_realtime (init_db disk)))" by (simp add: init_db_def Let_def)
      ultimately show thesis using that [of "[]"] by (simp add: put_all_def)
    next
      case (Inr rows')
      then show thesis using up that [of rows'] rows by (simp add: upsert_realtime_def Let_def)
    qed
  qed
qed


lemma run_formulas_keep: "k \<notin> fst ` set reg \<Longrightarrow> map_of (fold (run_formula g u) reg em) k = map_of em k"
  by (induction reg arbitrary: em) (auto simp: run_formula_def map_of_dput)

lemma payload_of_rows:
  assumes "(out, ins, f) \<in> set formula_registry" and "list_all (\<lambda>i. i \<notin> set derived_points) ins"
  shows "map_of (run_formulas g u) out = Some (formula_payload g u [] (out, ins, f))"
proof -
  obtain pre post where reg: "formula_registry = pre @ (out, ins, f) # post" using split_list [OF assms(1)] by blast
  have d: "distinct (map fst pre @ out # map fst post)" using distinct_derived by (simp add: derived_points_def reg)
  let ?em = "fold (run_formula g u) pre []"
  have "map fst ?em = map fst pre" using map_fst_run_formulas [of pre "[]" g u] d by simp
  then have keys: "set (map fst ?em) \<subseteq> set derived_points" unfolding derived_points_def reg by auto
  have "formula_input ?em u i = formula_input [] u i" if "i \<in> set ins" for i
  proof -
    have "i \<notin> set (map fst ?em)" using assms(2) keys that by (auto simp only: list_all_iff)
    then have "map_of ?em i = None" by (simp add: map_of_eq_None_iff)
    then show ?thesis by (simp add: formula_input_def)
  qed
  then have "map (formula_input ?em u) ins = map (formula_input [] u) ins" by (intro map_cong refl)
  then have same: "formula_payload g u ?em (out, ins, f) = formula_payload g u [] (out, ins, f)" by (simp only: formula_payload_def prod.case)
  have "out \<notin> fst ` set post" using d by simp
  then have "map_of (run_formulas g u) out = map_of (run_formula g u (out, ins, f) ?em) out"
    unfolding run_formulas_def reg fold_append fold_Cons comp_apply by (rule run_formulas_keep)
  then show ?thesis by (simp only: run_formula_def map_of_dput fst_conv same fun_upd_same)
qed

text \<open>A company without any row: the partial scores come from the defaults of the helpers.\<close>

lemma long_score_of_nothing:
  "map_of (run_formulas g (inject (bootstrap_l11_subscores []) [])) ''L11.long.score'' = Some
     [(''score'', PFloat (- 19/60)), (''label'', PStr ''bearish''), (''horizon'', PStr ''long''), (''factors_used'', PInt 4),
      (''_input_conf'', PFloat (1/2)), (''confidence'', PFloat (9/20))]"
proof -
  let ?e = "(''L11.long.score'', [''L11.long.industry_space'', ''L11.long.compete_moat'', ''L11.long.business_model'', ''L11.long.margin''],
         four_inputs derive_l11_long_score)"
  have "?e \<in> set formula_registry" by (simp add: formula_registry_def)
  moreover have "list_all (\<lambda>i. i \<notin> set derived_points) [''L11.long.industry_space'', ''L11.long.compete_moat'', ''L11.long.business_model'', ''L11.long.margin'']"
    by (simp add: points)
  ultimately have 1: "map_of (run_formulas g u) ''L11.long.score'' = Some (formula_payload g u [] ?e)" for u by (rule payload_of_rows)
  have 2: "map (formula_input [] (inject (bootstrap_l11_subscores []) [])) [''L11.long.industry_space'', ''L11.long.compete_moat'', ''L11.long.business_model'', ''L11.long.margin''] =
    [(Some [(''score'', PFloat 0), (''pmi'', PFloat 50)], [1/2]),
     (Some [(''score'', PFloat (-1/3)), (''gross_margin'', PFloat 25), (''roe'', PFloat 0)], [1/2]),
     (Some [(''score'', PFloat (-1/2)), (''ocf_quality_pct'', PFloat 0)], [1/2]),
     (Some [(''score'', PFloat (-1/2)), (''net_margin_pct'', PFloat 0)], [1/2])]"
    by (simp add: formula_input_def map_of_inject bootstrap_l11_subscores_def bootstrap_short_def bootstrap_mid_def bootstrap_long_def
        Let_def inner_def gross_margin_of_def coerce_float_def clip_def dget_def)
  have 3: "four_inputs derive_l11_long_score [Some [(''score'', PFloat 0), (''pmi'', PFloat 50)],
      Some [(''score'', PFloat (-1/3)), (''gross_margin'', PFloat 25), (''roe'', PFloat 0)],
      Some [(''score'', PFloat (-1/2)), (''ocf_quality_pct'', PFloat 0)], Some [(''score'', PFloat (-1/2)), (''net_margin_pct'', PFloat 0)]] =
    Inr (Some [(''score'', PFloat (- 19/60)), (''label'', PStr ''bearish''), (''horizon'', PStr ''long''), (''factors_used'', PInt 4)])"
    by (simp add: four_inputs_def derive_l11_long_score_def given_def Let_def long_step_def on_mapping_def add_score_def note_if_def
        either_def dget_def py_or_def coerce_float_def renormalised_def horizon_label_def clip_def)
  show ?thesis
    unfolding 1 formula_payload_def prod.case Let_def 2 unfolding list.map fst_conv snd_conv 3
    by (simp add: known_payload_def input_confidence_def Let_def min_list_Min decay_def)
qed

text \<open>Finding: the module docstring of \<open>derive.py\<close> gives inactive rows the confidence 0.3; the rows that are
  stored have 0.5, because the 0.3 never reaches the payload.\<close>

lemma inactive_rows_have_half_confidence:
  "res_map bi_confidence (emit_derived dumps c now (dp, inactive_payload n ins)) =
   res_map (\<lambda>_. Some (1/2)) (dumps (PDict (inactive_payload n ins)))"
  by (cases "dumps (PDict (inactive_payload n ins))") (simp_all add: emit_derived_def inactive_payload_def)

text \<open>Finding: the order of the registry does not resolve all dependencies. The short score is computed after
  \<open>L8.val.priced_in\<close>, which therefore reads the score that an earlier run stored.\<close>

lemma priced_in_before_short_score:
  "''L11.short.score'' \<notin> set (takeWhile (\<lambda>k. k \<noteq> ''L8.val.priced_in'') derived_points) \<and> ''L11.short.score'' \<in> set derived_points \<and>
   list_all (\<lambda>(out, ins, f). out = ''L8.val.priced_in'' \<longrightarrow> ''L11.short.score'' \<in> set ins) formula_registry"
  by (simp add: points) (simp add: formula_registry_def)

text \<open>Finding: the thresholds of \<open>L11.trade.signal\<close> do not mirror those of \<open>scoring._trading_signal_from_mix\<close>:
  three scores of 0.47 are a BUY here and a Hold there.\<close>

lemma trade_thresholds_differ:
  "trade_signal_of (PStr ''strong_bull'') ((47/100) * (25/100) + (47/100) * (45/100) + (47/100) * (30/100)) = ''BUY'' \<and>
   trading_signal_from_mix (47/100) (47/100) (47/100) [] = Hold"
  by (simp add: trade_signal_of_def trading_signal_from_mix_def signal_mix_def horizon_mix_weights_def horizon_default_weights_def dget_def
      signal_buy_threshold_def signal_hold_threshold_def)

text \<open>Finding: the confidence is decayed once, not once for every layer. A payload that a formula made from inputs
  with confidence \<open>base\<close> counts as \<open>base\<close> again for the formula that reads it.\<close>

lemma layers_do_not_decay:
  assumes "map_of emitted i = Some (known_payload base result)" and "map_of result ''confidence'' = None"
  shows "snd (formula_input emitted usable i) = [base] \<and> dget (known_payload base result) ''confidence'' = PFloat (decay base (9/10))"
  using assms by (simp add: formula_input_def known_payload_def Let_def dhas_def dget_dput map_of_dput)

section \<open>Every company gets every point\<close>

definition readable_confidence :: "pydict \<Rightarrow> bool" where
  "readable_confidence p \<longleftrightarrow> (case map_of p ''confidence'' of None \<Rightarrow> True | Some v \<Rightarrow> \<exists>x. py_float v = Inr x)"

definition answers_readable :: "formula \<Rightarrow> bool" where
  "answers_readable f \<longleftrightarrow> (\<forall>ps r. f ps = Inr (Some r) \<longrightarrow> readable_confidence r)"

lemma readable_cases:
  "(\<And>a b r. f2 a b = Inr (Some r) \<Longrightarrow> readable_confidence r) \<Longrightarrow> answers_readable (two_inputs f2)"
  "(\<And>a b c r. f3 a b c = Inr (Some r) \<Longrightarrow> readable_confidence r) \<Longrightarrow> answers_readable (three_inputs f3)"
  "(\<And>a b c d r. f4 a b c d = Inr (Some r) \<Longrightarrow> readable_confidence r) \<Longrightarrow> answers_readable (four_inputs f4)"
  "(\<And>a b c d e r. f5 a b c d e = Inr (Some r) \<Longrightarrow> readable_confidence r) \<Longrightarrow> answers_readable (five_inputs f5)"
  by (auto simp: answers_readable_def two_inputs_def three_inputs_def four_inputs_def five_inputs_def split: list.splits)

lemma readable_multiplier: "multiplier_payload t = Inr (Some r) \<Longrightarrow> readable_confidence r"
  by (auto simp: multiplier_payload_def readable_confidence_def)

lemma readable_two: "answers_readable (two_inputs derive_l6_path_second_derivative)" "answers_readable (two_inputs derive_l6_sens_growth_margin)"
  "answers_readable (two_inputs derive_l6_sens_cashflow)" "answers_readable (two_inputs derive_l6_sens_rates)"
  subgoal by (rule readable_cases) (auto simp: derive_l6_path_second_derivative_def readable_confidence_def Let_def split: option.splits if_splits)
  subgoal by (rule readable_cases) (auto simp: derive_l6_sens_growth_margin_def l6_sens_factor_def intro: readable_multiplier split: if_splits)
  subgoal by (rule readable_cases) (auto simp: derive_l6_sens_cashflow_def intro: readable_multiplier split: if_splits)
  subgoal by (rule readable_cases) (auto simp: derive_l6_sens_rates_def Let_def intro: readable_multiplier split: option.splits)
  done

lemma readable_three: "answers_readable (three_inputs derive_l7_mood_fomo)" "answers_readable (three_inputs derive_l8_industry_price_war)"
  "answers_readable (three_inputs derive_l8_val_priced_in)" "answers_readable (three_inputs derive_l6_sens_risk_narrative)"
  "answers_readable (three_inputs derive_l11_mid_score)"
  subgoal by (rule readable_cases) (auto simp: derive_l7_mood_fomo_def readable_confidence_def Let_def split: prod.splits if_splits)
  subgoal by (rule readable_cases) (auto simp: derive_l8_industry_price_war_def readable_confidence_def Let_def split: prod.splits if_splits)
  subgoal by (rule readable_cases) (auto simp: derive_l8_val_priced_in_def readable_confidence_def Let_def split: prod.splits if_splits)
  subgoal by (rule readable_cases) (auto simp: derive_l6_sens_risk_narrative_def Let_def res_bind_eq_Inr intro: readable_multiplier split: if_splits)
  subgoal by (rule readable_cases) (auto simp: derive_l11_mid_score_def readable_confidence_def Let_def split: prod.splits if_splits)
  done

lemma readable_four: "answers_readable (four_inputs derive_l7_env_risk_appetite)" "answers_readable (four_inputs derive_l8_industry_demand_supply)"
  "answers_readable (four_inputs derive_l6_path_tag)" "answers_readable (four_inputs derive_l11_short_score)"
  "answers_readable (four_inputs derive_l11_long_score)" "answers_readable (four_inputs derive_l11_trade_signal)"
  "answers_readable (five_inputs derive_l11_mode)"
  subgoal by (rule readable_cases) (auto simp: derive_l7_env_risk_appetite_def readable_confidence_def Let_def split: prod.splits if_splits)
  subgoal by (rule readable_cases) (auto simp: derive_l8_industry_demand_supply_def readable_confidence_def Let_def split: prod.splits if_splits)
  subgoal by (rule readable_cases) (auto simp: derive_l6_path_tag_def readable_confidence_def Let_def split: prod.splits if_splits)
  subgoal by (rule readable_cases) (auto simp: derive_l11_short_score_def readable_confidence_def Let_def split: prod.splits if_splits)
  subgoal by (rule readable_cases) (auto simp: derive_l11_long_score_def readable_confidence_def Let_def split: prod.splits if_splits)
  subgoal by (rule readable_cases) (auto simp: derive_l11_trade_signal_def readable_confidence_def Let_def split: prod.splits if_splits)
  subgoal by (rule readable_cases) (auto simp: derive_l11_mode_def readable_confidence_def Let_def res_map_eq_Inr case_prod_beta split: if_splits)
  done

lemma registry_readable: "list_all (\<lambda>(out, ins, f). out = ''L10.val.expansion_compression'' \<or> answers_readable f) formula_registry"
  by (simp add: formula_registry_def readable_two readable_three readable_four)


lemma readable_known: "readable_confidence r \<Longrightarrow> readable_confidence (known_payload base r)"
  by (auto simp: readable_confidence_def known_payload_def Let_def dhas_def map_of_dput split: option.splits)

lemma readable_inactive: "readable_confidence (inactive_payload n ins)"
  by (simp add: readable_confidence_def inactive_payload_def)

lemma payload_readable:
  "(\<And>ps r. f ps = Inr (Some r) \<Longrightarrow> ps = map (\<lambda>i. fst (formula_input em u i)) ins \<Longrightarrow> readable_confidence r) \<Longrightarrow>
   readable_confidence (formula_payload g u em (out, ins, f))"
  by (auto simp: formula_payload_def Let_def comp_def readable_inactive split: sum.split option.split intro!: readable_known)

lemma readable_scalar: "readable_confidence [(''scalar'', v)]"
  by (simp add: readable_confidence_def)

lemma run_readable:
  assumes "\<And>row d. map_of u ''L6.state.expansion_compression'' = Some row \<Longrightarrow> dget row ''value'' = PDict d \<Longrightarrow> readable_confidence d"
  shows "\<forall>(k, p) \<in> set (run_formulas g u). readable_confidence p"
proof -
  let ?m = "''L10.val.expansion_compression''"
  have others: "\<forall>(k, p) \<in> set (run_formulas g u). k = ?m \<or> readable_confidence p"
    unfolding run_formulas_def
  proof (rule emitted_all)
    fix out ins f em
    assume "(out, ins, f) \<in> set formula_registry"
    then have "out = ?m \<or> answers_readable f" using registry_readable by (fastforce simp: list_all_iff)
    then show "out = ?m \<or> readable_confidence (formula_payload g u em (out, ins, f))"
      by (auto simp: answers_readable_def intro!: payload_readable)
  qed simp
  let ?e = "(?m, [''L6.state.expansion_compression''], one_input derive_l10_val_expansion_compression)"
  have "?e \<in> set formula_registry" by (simp add: formula_registry_def)
  moreover have "list_all (\<lambda>i. i \<notin> set derived_points) [''L6.state.expansion_compression'']" by (simp add: points)
  ultimately have mirror: "map_of (run_formulas g u) ?m = Some (formula_payload g u [] ?e)" by (rule payload_of_rows)
  have "readable_confidence (formula_payload g u [] ?e)"
  proof (rule payload_readable)
    fix ps r
    assume r: "one_input derive_l10_val_expansion_compression ps = Inr (Some r)"
      and ps: "ps = map (\<lambda>i. fst (formula_input [] u i)) [''L6.state.expansion_compression'']"
    obtain d where d: "fst (formula_input [] u ''L6.state.expansion_compression'') = Some d"
      "r = dput ''mirror_of'' (PStr ''L6.state.expansion_compression'') d"
      using r by (auto simp: ps one_input_def derive_l10_val_expansion_compression_def split: option.splits)
    have "readable_confidence d"
      using d(1) by (auto simp: formula_input_def readable_scalar split: option.splits pyval.splits intro: assms)
    then show "readable_confidence r" by (simp add: d(2) readable_confidence_def map_of_dput)
  qed
  moreover have "distinct (map fst (run_formulas g u))" by (simp add: map_fst_run distinct_derived)
  ultimately show ?thesis using others mirror by (fastforce dest: map_of_is_SomeI)
qed

lemma res_list_total: "(\<And>x. x \<in> set xs \<Longrightarrow> \<exists>y. f x = Inr y) \<Longrightarrow> \<exists>ys. res_list f xs = Inr ys"
  by (induction xs) (fastforce simp: res_bind_def)+

lemma answers_known:
  "given a \<Longrightarrow> \<exists>r. derive_l11_short_score a b c d = Inr (Some r) \<and> dget r ''_inactive'' = PNone"
  "given a \<Longrightarrow> \<exists>r. derive_l11_mid_score a b c = Inr (Some r) \<and> dget r ''_inactive'' = PNone"
  "given a \<Longrightarrow> \<exists>r. derive_l11_long_score a b c d = Inr (Some r) \<and> dget r ''_inactive'' = PNone"
  "given a \<Longrightarrow> \<exists>r. derive_l11_trade_signal a b c d = Inr (Some r) \<and> dget r ''_inactive'' = PNone"
  by (simp_all add: derive_l11_short_score_def derive_l11_mid_score_def derive_l11_long_score_def derive_l11_trade_signal_def
      Let_def dget_def split: prod.split)

lemma known_status:
  assumes "f (map (\<lambda>i. fst (formula_input em u i)) ins) = Inr (Some r)" and "dget r ''_inactive'' = PNone"
  shows "status_of (formula_payload g u em (out, ins, f)) = ''Known''"
  using assms by (simp add: formula_payload_def Let_def comp_def known_payload_def status_of_def dget_dput)

lemma given_bootstrap: "i \<in> set bootstrap_points \<Longrightarrow> given (fst (formula_input [] (inject (bootstrap_l11_subscores u') u) i))"
  by (auto simp: points formula_input_def map_of_inject bootstrap_l11_subscores_def bootstrap_short_def bootstrap_mid_def bootstrap_long_def
      Let_def dget_def given_def)

definition always_known :: "string list" where
  "always_known = bootstrap_points @ [''L11.short.score'', ''L11.mid.score'', ''L11.long.score'', ''L11.trade.signal'']"

lemma scores_known:
  assumes "dp \<in> {''L11.short.score'', ''L11.mid.score'', ''L11.long.score''}"
  shows "\<exists>p. map_of (run_formulas g (inject (bootstrap_l11_subscores u') u)) dp = Some p \<and> status_of p = ''Known''"
proof -
  let ?u = "inject (bootstrap_l11_subscores u') u"
  have given: "given (fst (formula_input [] ?u i))" if "i \<in> set bootstrap_points" for i using that by (rule given_bootstrap)
  have at: "\<exists>p. map_of (run_formulas g ?u) out = Some p \<and> status_of p = ''Known''"
    if "(out, ins, f) \<in> set formula_registry" "list_all (\<lambda>i. i \<notin> set derived_points) ins"
      "\<exists>r. f (map (\<lambda>i. fst (formula_input [] ?u i)) ins) = Inr (Some r) \<and> dget r ''_inactive'' = PNone" for out ins f
    using that(3) payload_of_rows [OF that(1,2), of g ?u] known_status [of f "[]" ?u ins] by auto
  consider "dp = ''L11.short.score''" | "dp = ''L11.mid.score''" | "dp = ''L11.long.score''" using assms by auto
  then show ?thesis
  proof cases
    case 1
    show ?thesis unfolding 1
      by (rule at [where f = "four_inputs derive_l11_short_score" and ins = "[''L11.short.event_impact'', ''L11.short.flow_boost'', ''L11.short.sentiment_shift'', ''L11.short.technical'']"])
         (simp add: formula_registry_def, simp add: points, simp add: four_inputs_def answers_known given points)
  next
    case 2
    show ?thesis unfolding 2
      by (rule at [where f = "three_inputs derive_l11_mid_score" and ins = "[''L11.mid.orders_revenue'', ''L11.mid.margin_guidance'', ''L11.mid.eps_upward'']"])
         (simp add: formula_registry_def, simp add: points, simp add: three_inputs_def answers_known given points)
  next
    case 3
    show ?thesis unfolding 3
      by (rule at [where f = "four_inputs derive_l11_long_score" and ins = "[''L11.long.industry_space'', ''L11.long.compete_moat'', ''L11.long.business_model'', ''L11.long.margin'']"])
         (simp add: formula_registry_def, simp add: points, simp add: four_inputs_def answers_known given points)
  qed
qed

lemma payload_not_empty: "formula_payload g u em e \<noteq> []"
  by (cases e) (auto simp: formula_payload_def Let_def inactive_payload_def known_payload_def split: sum.split option.split
      dest: arg_cong [where f = "\<lambda>d. map_of d ''_input_conf''"] simp: map_of_dput)

lemma signal_known: "\<exists>p. map_of (run_formulas g u) ''L11.trade.signal'' = Some p \<and> status_of p = ''Known''"
proof -
  let ?e = "(''L11.trade.signal'', [''L11.short.score'', ''L11.mid.score'', ''L11.long.score'', ''L11.mode''], four_inputs derive_l11_trade_signal)"
  let ?em = "fold (run_formula g u) (butlast formula_registry) []"
  have reg: "formula_registry = butlast formula_registry @ [?e]" by (simp add: formula_registry_def)
  have "\<forall>(k, p) \<in> set ?em. p \<noteq> []" by (rule emitted_all) (simp_all add: payload_not_empty)
  moreover have "map fst ?em = butlast derived_points"
    using map_fst_run_formulas [of "butlast formula_registry" "[]" g u] distinct_derived
    by (simp add: derived_points_def map_butlast distinct_butlast)
  then have "''L11.short.score'' \<in> set (map fst ?em)" by (simp add: points)
  then obtain p where p: "map_of ?em ''L11.short.score'' = Some p" by (auto simp: image_iff dest: weak_map_of_SomeI)
  ultimately have "given (fst (formula_input ?em u ''L11.short.score''))"
    by (auto simp: formula_input_def given_def dest: map_of_SomeD)
  then obtain r where "four_inputs derive_l11_trade_signal (map (\<lambda>i. fst (formula_input ?em u i))
      [''L11.short.score'', ''L11.mid.score'', ''L11.long.score'', ''L11.mode'']) = Inr (Some r)" "dget r ''_inactive'' = PNone"
    using answers_known(4) by (fastforce simp: four_inputs_def)
  then have "status_of (formula_payload g u ?em ?e) = ''Known''" by (rule known_status)
  moreover have "run_formulas g u = run_formula g u ?e ?em"
    unfolding run_formulas_def by (subst reg) (simp only: fold_append fold_Cons fold_Nil comp_apply id_apply)
  ultimately show ?thesis by (simp only: run_formula_def map_of_dput fst_conv fun_upd_same) blast
qed

lemma emit_total:
  assumes dumps: "\<And>v. \<exists>json. dumps v = Inr json"
  shows "\<exists>i. emit_bootstrap dumps c now e = Inr i"
    and "readable_confidence (snd e) \<Longrightarrow> \<exists>i. emit_derived dumps c now e = Inr i"
proof -
  obtain k p where e: "e = (k, p)" by (cases e) auto
  obtain json where "dumps (PDict p) = Inr json" using dumps by blast
  then show "\<exists>i. emit_bootstrap dumps c now e = Inr i" by (simp add: emit_bootstrap_def e)
  assume "readable_confidence (snd e)"
  then have "\<exists>x. (case map_of p ''confidence'' of None \<Rightarrow> Inr (1/2) | Some v \<Rightarrow> py_float v) = Inr x"
    by (cases "map_of p ''confidence''") (auto simp: readable_confidence_def e intro: exI [of _ "1/2"])
  then obtain x where "(case map_of p ''confidence'' of None \<Rightarrow> Inr (1/2) | Some v \<Rightarrow> py_float v) = Inr x" by blast
  moreover obtain json where "dumps (PDict (filter (\<lambda>kv. fst kv \<noteq> ''_input_conf'') p)) = Inr json" using dumps by blast
  ultimately show "\<exists>i. emit_derived dumps c now e = Inr i" by (simp add: emit_derived_def e)
qed

lemma derive_company_total:
  assumes dumps: "\<And>v. \<exists>json. dumps v = Inr json"
    and mirror: "\<And>e d. (''L6.state.expansion_compression'', e) \<in> set s \<Longrightarrow> he_value e = PDict d \<Longrightarrow> readable_confidence d"
  shows "\<exists>items st. derive_company dumps g c now s = Inr (items, st)"
proof -
  let ?u = "usable_rows s"
  let ?b = "bootstrap_l11_subscores ?u"
  let ?em = "run_formulas g (inject ?b ?u)"
  have "readable_confidence d" if "map_of (inject ?b ?u) ''L6.state.expansion_compression'' = Some row" "dget row ''value'' = PDict d" for row d
  proof -
    have "''L6.state.expansion_compression'' \<notin> set (map fst ?b)" by (simp add: map_fst_bootstrap points)
    then have "map_of (rev ?b) ''L6.state.expansion_compression'' = None" by (simp add: map_of_eq_None_iff)
    then have "(''L6.state.expansion_compression'', row) \<in> set ?u" using that(1) by (simp add: map_of_inject map_of_SomeD)
    then obtain e where "(''L6.state.expansion_compression'', e) \<in> set s" "row = row_of_entry e" by (auto simp: usable_rows_def)
    then show ?thesis using that(2) by (intro mirror) (simp_all add: row_of_entry_def dget_def)
  qed
  then have "\<forall>(k, p) \<in> set ?em. readable_confidence p" by (intro run_readable)
  then have "\<exists>es. res_list (emit_derived dumps c now) ?em = Inr es"
    by (intro res_list_total emit_total dumps) auto
  moreover have "\<exists>bs. res_list (emit_bootstrap dumps c now) ?b = Inr bs" by (intro res_list_total emit_total dumps)
  ultimately show ?thesis by (auto simp: derive_company_def Let_def)
qed

lemma derived_status:
  assumes "derive_company dumps g c now s = Inr (items, st)" and "i \<in> set items"
  shows "bi_data_status i \<in> {''Known'', ''Inactive''} \<and> (bi_dp_id i \<in> set always_known \<longrightarrow> bi_data_status i = ''Known'')"
proof -
  let ?u = "inject (bootstrap_l11_subscores (usable_rows s)) (usable_rows s)"
  let ?em = "run_formulas g ?u"
  obtain bs es where r: "res_list (emit_bootstrap dumps c now) (bootstrap_l11_subscores (usable_rows s)) = Inr bs"
    "res_list (emit_derived dumps c now) ?em = Inr es" "items = bs @ es"
    using assms(1) by (auto simp: derive_company_def Let_def res_bind_eq_Inr res_map_eq_Inr)
  consider "i \<in> set bs" | "i \<in> set es" using assms(2) r(3) by auto
  then show ?thesis
  proof cases
    case 1
    then show ?thesis using res_list_in [OF r(1) 1] by (auto simp: emit_bootstrap_def res_map_eq_Inr split: prod.splits)
  next
    case 2
    obtain k p where x: "(k, p) \<in> set ?em" "emit_derived dumps c now (k, p) = Inr i" using res_list_in [OF r(2) 2] by fastforce
    then have i: "bi_dp_id i = k" "bi_data_status i = status_of p"
      by (auto simp: emit_derived_def res_bind_eq_Inr res_map_eq_Inr)
    have "distinct (map fst ?em)" by (simp add: map_fst_run distinct_derived)
    then have p: "map_of ?em k = Some p" using x(1) by simp
    have "k \<in> set (map fst ?em)" using x(1) by force
    then have k: "k \<in> set derived_points" by (simp only: map_fst_run)
    have "status_of p = ''Known''" if "k \<in> set always_known"
    proof -
      have "k \<in> {''L11.short.score'', ''L11.mid.score'', ''L11.long.score'', ''L11.trade.signal''}"
        using that k by (auto simp: always_known_def points)
      then show ?thesis
        using p scores_known [of k g "usable_rows s" "usable_rows s"] signal_known [of g ?u] by auto
    qed
    then show ?thesis by (auto simp: i status_of_def)
  qed
qed



text \<open>Finding: the confidence of a mirrored row is read outside of the exception handler. A row whose value has
  the confidence \<open>null\<close> ends the run of all companies, and nothing is written.\<close>

lemma mirrored_confidence_fails:
  "derive_l10_val_expansion_compression (Some [(''confidence'', PNone)]) =
     Inr (Some [(''confidence'', PNone), (''mirror_of'', PStr ''L6.state.expansion_compression'')]) \<and>
   emit_derived dumps c now (''L10.val.expansion_compression'', known_payload base [(''confidence'', PNone)]) = Inl TypeError"
  by (simp add: derive_l10_val_expansion_compression_def emit_derived_def known_payload_def Let_def dhas_def)

lemma one_error_ends_run:
  assumes "c \<in> set codes" and "py_strip c = c" and "c \<noteq> []" and "run_one env disk c = Inl e"
  shows "\<exists>e. run_all env disk codes = (disk, Inl e)"
proof -
  have fails: "\<exists>e. res_list (run_one env disk) cs = Inl e" if "c \<in> set cs" for cs
    using that assms(4) by (induction cs) (auto simp: res_bind_def split: sum.split)
  have "codes \<noteq> []" using assms(1) by auto
  then obtain cs where cs: "list_ts_codes disk codes = Inr cs" "c \<in> set cs"
    using assms(1-3) by (force simp: list_ts_codes_def)
  obtain e' where "res_list (run_one env disk) cs = Inl e'" using fails [OF cs(2)] by blast
  then show ?thesis by (simp add: run_all_def cs(1))
qed

theorem derived_scores_in_range_witness:
  "\<exists>p. map_of (run_formulas None (inject (bootstrap_l11_subscores []) [])) ''L11.long.score'' = Some p \<and> num p ''score'' = - 19/60 \<and>
    - 1 \<le> num p ''score'' \<and> num p ''score'' \<le> 1"
  using derived_scores_in_range [OF long_score_of_nothing [of None], of "[]"]
  by (simp add: long_score_of_nothing documented_range_def status_of_def dget_def num_def)

definition demo_env :: derive_env where
  "demo_env = \<lparr>dv_loads = \<lambda>s. Inr PNone, dv_dumps = \<lambda>v. Inr ''{}'', dv_governance = None, dv_read_at = \<lambda>c. 7, dv_now = 7\<rparr>"

lemma demo_fold:
  "\<forall>x \<in> set best. he_value (snd (snd x)) = PNone \<Longrightarrow>
   \<exists>b. res_fold (hot_step (\<lambda>s. Inr PNone) now codes) rows best = Inr b \<and> (\<forall>x \<in> set b. he_value (snd (snd x)) = PNone)"
proof (induction rows arbitrary: best)
  case Nil
  then show ?case by simp
next
  case (Cons r rows)
  obtain ts dp row where r: "r = ((ts, dp), row)" by (metis prod.collapse)
  have sub: "set (dput k v d) \<subseteq> insert (k, v) (set d)" for k v and d :: ranked by (induction d) (auto split: if_splits)
  let ?new = "dput dp (code_priority codes ts, hot_entry_of now ts PNone row) best"
  have new: "\<forall>x \<in> set ?new. he_value (snd (snd x)) = PNone"
    using Cons.prems sub [of dp "(code_priority codes ts, hot_entry_of now ts PNone row)" best] by (auto simp: hot_entry_of_def)
  have "hot_step (\<lambda>s. Inr PNone) now codes r best \<in> {Inr ?new, Inr best}" by (simp add: hot_step_def r Let_def)
  then obtain best' where 1: "hot_step (\<lambda>s. Inr PNone) now codes r best = Inr best'" "\<forall>x \<in> set best'. he_value (snd (snd x)) = PNone"
    using new Cons.prems by blast
  show ?case using Cons.IH [OF 1(2)] by (simp add: 1(1))
qed

lemma demo_company:
  assumes ok: "\<And>db. disk = Some db \<Longrightarrow> db_realtime db \<noteq> None"
  shows "\<exists>items st. run_one demo_env disk c = Inr (items, st)"
proof -
  have "\<exists>s. read_hot_snapshot (\<lambda>s. Inr PNone) 7 disk c True = Inr s \<and> (\<forall>x \<in> set s. he_value (snd x) = PNone)"
  proof (cases disk)
    case (Some db)
    then obtain table where "db_realtime db = Some table" using ok by blast
    then show ?thesis
      using demo_fold [of "[]" 7 "lookup_codes db c True" "filter (\<lambda>r. fst (fst r) \<in> set (lookup_codes db c True)) table"]
      by (auto simp: read_hot_snapshot_def Some Let_def select_def)
  qed (simp add: read_hot_snapshot_def)
  then obtain s where s: "read_hot_snapshot (\<lambda>s. Inr PNone) 7 disk c True = Inr s" "\<forall>x \<in> set s. he_value (snd x) = PNone" by blast
  have "\<exists>items st. derive_company (\<lambda>v. Inr ''{}'') None c 7 s = Inr (items, st)"
    by (rule derive_company_total) (use s(2) in force)+
  then show ?thesis by (simp add: run_one_def demo_env_def s(1))
qed

end
