(* ===== verification/Spec2Isabelle.thy ===== *)
theory Spec2Isabelle
  imports Prelude Coverage Governance Traversal Aggregator Market Scoring Storage Fingerprint Stream
    GraphStatus Queue Cycle Fallback Scrub MainCore Universe Recommend Manifest Schema Templates OverlayCheck OverlayMerge Regenerate Compile Propagation Impact Derive DeriveRun
begin

text \<open>
  A verification development for project-ult: the MVP20 shell, a Python program that turns
  research overlays (YAML graphs of data points about a company) and realtime rows (an SQLite
  table) into scores, reports and a live stream, and the core of the modules it is built on. The
  theories follow the modules under \<open>src/mvp20\<close> and \<open>src/upstream\<close>; a definition bears the
  name of the function it translates.

  The program. An overlay is a list of nodes, each a dictionary. \<open>field_governance.py\<close>
  completes every node with the rule of its data point; \<open>aggregator.py\<close> replaces
  unavailable nodes by proxies, walks the parent links in post-order and computes a payload for
  every node; \<open>market_adapter.py\<close> turns market and role nodes into multipliers and
  discounts; \<open>scoring.py\<close> combines everything into the totals, the mode and the trading
  signal; \<open>coverage.py\<close> reports how much of the graph is known; \<open>derive.py\<close> computes data
  points from others and stores them beside the collected ones. \<open>storage.py\<close> keeps
  the realtime rows and the compiled overlays, \<open>fingerprint.py\<close> decides from them which
  nodes have to be filled again, and \<open>sse.py\<close> sends their changes to a browser.
  Where the overlays come from: \<open>manifest.py\<close> validates the universe of companies and industries,
  \<open>overlays.py\<close> builds one template for every membership of a company in an industry, merges it
  with the file that is already there, validates files and compiles them into the database, and
  \<open>schema_validator.py\<close> checks the value of a node against the schema of its data point.

  The upstream modules. \<open>data-platform\<close> keeps a queue of candidates that subsystems submit and a
  validation pass decides, freezes the accepted ones into the selection of a daily cycle, drives the
  cycle through its phases and publishes a manifest of snapshots. \<open>graph-engine\<close> guards the live
  graph with one status row: readers require it ready, a promotion locks it, syncs and gives it back;
  over a ready graph it runs one propagation per channel, merges their answers and turns them into the
  impact snapshot that \<open>main-core\<close> reads.
  \<open>reasoner-runtime\<close> scrubs a request and sends it down a chain of providers until one answers.
  \<open>main-core\<close> is the daily pipeline: feature bundles from market bars and candidate signals, a world
  state, the official pool of entities, the analysis of each of them by several agents, and the
  recommendations after overrides and constraints.

  Theories.
  \<^item> \<open>Py_Base\<close>: dynamic values, exceptions as values (\<open>py_error + 'a\<close>), dictionaries as
    association lists in insertion order, strings, \<open>float(...)\<close>.
  \<^item> \<open>Prelude\<close>: weighted pools and the interfaces \<open>clamping\<close>, \<open>table_ops\<close> and \<open>best_row\<close>,
    and histories of a state machine (\<open>runs\<close>, \<open>invariant_system\<close>), each interpreted on the model's own definitions.
  \<^item> \<open>Py_Time\<close>: \<open>datetime.fromisoformat\<close> as far as the recency factor uses it.
  \<^item> \<open>Coverage\<close> (\<open>coverage.py\<close>): states of a node, renormalised weights, data coverage,
    node and overlay reports.
  \<^item> \<open>Governance\<close> (\<open>field_governance.py\<close>): rules, registry, completion of nodes, validation.
  \<^item> \<open>Traversal\<close> and \<open>Aggregator\<close> (\<open>aggregator.py\<close>): the post-order, the payloads, the report.
  \<^item> \<open>Market\<close> (\<open>market_adapter.py\<close>) and \<open>Scoring\<close> (\<open>scoring.py\<close>).
  \<^item> \<open>Storage\<close> (\<open>storage.py\<close>), \<open>Fingerprint\<close> (\<open>fingerprint.py\<close>) and \<open>Stream\<close> (\<open>sse.py\<close>).
  \<^item> \<open>GraphStatus\<close> (\<open>graph_engine/status\<close>, \<open>graph_engine/promotion/service.py\<close>): the status row, the
    plans of the manager, the promotion barrier alone and interleaved with other processes.
  \<^item> \<open>Propagation\<close> (\<open>graph_engine/propagation\<close>: channels, scoring, context, runners) and \<open>Impact\<close>
    (\<open>merge.py\<close>, \<open>pipeline.py\<close>, \<open>snapshots/generator.py\<close>): a runner is a program over a client of
    the graph database, whose queries are the constructors of \<open>gds_query\<close>.
  \<^item> \<open>Queue\<close> (\<open>data_platform/queue\<close>) and \<open>Cycle\<close> (\<open>data_platform/cycle\<close>): the tables of the control
    database as a record, one function per repository operation, and the steps of both.
  \<^item> \<open>Manifest\<close> (\<open>manifest.py\<close>) and \<open>Schema\<close> (\<open>schema_validator.py\<close>): validation of the universe,
    and of the value of a node.
  \<^item> \<open>Templates\<close>, \<open>OverlayCheck\<close>, \<open>OverlayMerge\<close> and \<open>Regenerate\<close> (\<open>overlays.py\<close>): the slot tables
    and builders, the validation of one overlay, the merge and the generator as a list of steps over
    the files, and what holds of a run of the generator.
  \<^item> \<open>Compile\<close> (\<open>overlays.py\<close>, \<open>storage.py\<close>): the validation of the set of files, alerts, rows and
    snapshots, and their insertion in one transaction.
  \<^item> \<open>Derive\<close> and \<open>DeriveRun\<close> (\<open>derive.py\<close>): the formulas of the derived data points as functions of
    their payloads, the registry, the partial scores and the two drivers over the snapshot database.
  \<^item> \<open>MainCore\<close>, \<open>Universe\<close> and \<open>Recommend\<close> (\<open>main_core\<close>, layers 1 to 7): readers, features and the
    world state, the official pool and the fixed pool of MVP20, the analysis and the recommendations.
  \<^item> \<open>Fallback\<close> (\<open>reasoner_runtime/providers\<close>, \<open>reasoner_runtime/health\<close>) and \<open>Scrub\<close>
    (\<open>reasoner_runtime/scrub/handler.py\<close>).

  What the lemmas show. For the numeric components: the closed form of every loop (a renormalised
  weighted sum), bounds, monotonicity and neutrality, the exact regions of the modes, and which
  inputs raise. For the traversal: it ends on every graph, visits every node once, and without
  cycles every parent comes after its children. For the database: the invariant of everything the
  program can store, last-write-wins, atomic replacement, and the merge of a company's rows with
  those of its industries and market as a refinement of a lookup in a priority list. For the
  stream: an invariant of a step relation from which every timely write is delivered, and the
  precise condition under which a write never is. For the control database and the status row: an
  invariant and an order of every history, as interpretations of \<open>invariant_system\<close>, from which
  follow mutual exclusion of the promotion, finality of decisions, exclusive and exact selections,
  and the round trip of a publication. For the fallback: the chain and the run over it equal their
  specification, and the one failure that escapes it. For the scrubber: nothing is lost. For the
  validators: they accept exactly what a declarative description calls sound, and which exceptions
  they raise. For the generator: every step of it touches its own files only and leaves them as a
  second application would (the locale \<open>local_step\<close>, interpreted on the stock and the industry
  step), from which idempotence, soundness of everything on disk and the preservation of filled nodes
  follow for whole runs, failed ones included. For the compilation: all or nothing, and what the readers
  give back afterwards. For the propagation: each score is the product it explains, impact is neither
  added nor lost on the way from the paths through the runs to the merged entities, the merge is a
  grouping by entity, and no run leaves its projection behind. For the derived points: the documented
  ranges, that every company gets every point, and that a second run over what the first one stored
  changes one point at most, because no other formula reads a point that is computed after it. For the daily pipeline: the pool as a closed formula,
  freezing as an invariant of every history, and each recommendation as one decision formula.

  Arguments of the model. \<open>json.loads\<close>, \<open>json.dumps\<close>, SHA-256, the clock, the contents of
  files (a parsed payload), the rows other transactions hold, the sync into Neo4j,
  the client of the graph database and the call of a model vendor are arguments of the definitions that use them; a theorem that needs something of them says
  so in a hypothesis.

  Bounds. Floats are real numbers, integers are unbounded as in Python, strings are lists of bytes.
  Python's recursion limit is the fuel of the post-order; the theorem that the walk returns is proved
  with fuel above the number of nodes. The search for a free key ends by a measure; every other
  recursion is structural.

  Not modelled: HTTP routing, the command line, network clients of data vendors, Parquet, Iceberg,
  DuckDB and Neo4j (calls into libraries); the rendering of messages, where an error or a warning is a
  constructor with its arguments; regular expressions other than the code pattern of \<open>Manifest\<close>; the
  graph payloads of \<open>graph.py\<close> and the provider catalog.
\<close>

end
